(* ===== verification/VS_Prelude.thy ===== *)
theory VS_Prelude
  imports Main "HOL-Library.Word" "HOL-Library.List_Lexorder" "HOL-Library.Char_ord"
begin

text \<open>
  Shared vocabulary of the development: the machine integers and byte strings of the engine, C++
  exceptions as values, the two result disciplines used by the components (a plain result for
  operations that throw only before they change anything, and a state-and-exception pair for
  operations whose partial effects survive a throw), loops over vectors, and the little-endian
  integer encoding that the frame codec and the fragment envelope share.
\<close>

unbundle bit_operations_syntax

type_synonym byte = "8 word"
type_synonym bytes = "8 word list"
type_synonym u8 = "8 word"
type_synonym u16 = "16 word"
type_synonym u32 = "32 word"
type_synonym u64 = "64 word"

named_theorems reader_iff \<open>equivalences that invert a successful read\<close>
named_theorems reader_run \<open>equations that run a reader on written bytes\<close>
named_theorems writer_iff \<open>equivalences that invert a successful write\<close>
named_theorems result_iff \<open>equivalences that invert a successful result\<close>

section \<open>Exceptions and results\<close>

text \<open>A thrown standard exception, with the text that \<^verbatim>\<open>what()\<close> returns.\<close>

datatype exn =
    Invalid_argument string
  | Runtime_error string
  | Logic_error string
  | Length_error string
  | Overflow_error string

fun what :: "exn \<Rightarrow> string" where
  "what (Invalid_argument m) = m"
| "what (Runtime_error m) = m"
| "what (Logic_error m) = m"
| "what (Length_error m) = m"
| "what (Overflow_error m) = m"

type_synonym 'a result = "exn + 'a"

definition bindE :: "'a result \<Rightarrow> ('a \<Rightarrow> 'b result) \<Rightarrow> 'b result" where
  "bindE m f = (case m of Inl e \<Rightarrow> Inl e | Inr x \<Rightarrow> f x)"

lemma bindE_simps [simp]:
  "bindE (Inl e) f = Inl e"
  "bindE (Inr x) f = f x"
  by (simp_all add: bindE_def)

lemma bindE_Inr_iff [result_iff]:
  "bindE m f = Inr y \<longleftrightarrow> (\<exists>x. m = Inr x \<and> f x = Inr y)"
  by (cases m) auto

lemma if_Inl_Inr_iff [result_iff]:
  "(if b then Inl e else m) = Inr y \<longleftrightarrow> \<not> b \<and> m = Inr y"
  by auto

lemma bindE_assoc: "bindE (bindE m f) g = bindE m (\<lambda>x. bindE (f x) g)"
  by (cases m) auto

text \<open>A vector walked front to back by a body that may throw.\<close>

fun mapE :: "('a \<Rightarrow> 'b result) \<Rightarrow> 'a list \<Rightarrow> 'b list result" where
  "mapE f [] = Inr []"
| "mapE f (x # xs) = bindE (f x) (\<lambda>y. bindE (mapE f xs) (\<lambda>ys. Inr (y # ys)))"

fun foldE :: "('a \<Rightarrow> 's \<Rightarrow> 's result) \<Rightarrow> 'a list \<Rightarrow> 's \<Rightarrow> 's result" where
  "foldE f [] s = Inr s"
| "foldE f (x # xs) s = bindE (f x s) (foldE f xs)"

lemma mapE_Inr_iff [result_iff]:
  "mapE f xs = Inr ys \<longleftrightarrow> list_all2 (\<lambda>x y. f x = Inr y) xs ys"
  by (induction xs arbitrary: ys) (auto simp: result_iff list_all2_Cons1)

lemma foldE_append: "foldE f (xs @ ys) s = bindE (foldE f xs s) (foldE f ys)"
proof (induction xs arbitrary: s)
  case Nil
  then show ?case by simp
next
  case (Cons x xs)
  then show ?case by (cases "f x s") simp_all
qed

lemma foldE_invariant:
  assumes "foldE f xs s = Inr t" and "P s"
    and "\<And>x s t. x \<in> set xs \<Longrightarrow> P s \<Longrightarrow> f x s = Inr t \<Longrightarrow> P t"
  shows "P t"
  using assms
proof (induction xs arbitrary: s)
  case Nil
  then show ?case by simp
next
  case (Cons x xs)
  from Cons.prems(1) obtain u where u: "f x s = Inr u" "foldE f xs u = Inr t"
    by (auto simp: result_iff)
  from u(1) Cons.prems(2,3) have "P u" by (meson list.set_intros(1))
  with u(2) Cons.IH Cons.prems(3) show ?case by (meson list.set_intros(2))
qed

section \<open>Operations whose partial effects survive a throw\<close>

text \<open>
  A C++ member function that mutates and then throws leaves the object changed.  Such an operation
  is a function from the state to a result together with the state that the exception, or the
  return, leaves behind.
\<close>

type_synonym ('s, 'a) op = "'s \<Rightarrow> 'a result \<times> 's"

definition returnS :: "'a \<Rightarrow> ('s, 'a) op" where
  "returnS x s = (Inr x, s)"

definition throwS :: "exn \<Rightarrow> ('s, 'a) op" where
  "throwS e s = (Inl e, s)"

definition bindS :: "('s, 'a) op \<Rightarrow> ('a \<Rightarrow> ('s, 'b) op) \<Rightarrow> ('s, 'b) op" where
  "bindS m f s = (case m s of (Inl e, t) \<Rightarrow> (Inl e, t) | (Inr x, t) \<Rightarrow> f x t)"

definition thenS :: "('s, 'a) op \<Rightarrow> ('s, 'b) op \<Rightarrow> ('s, 'b) op" where
  "thenS m n = bindS m (\<lambda>_. n)"

definition getS :: "('s \<Rightarrow> 'a) \<Rightarrow> ('s, 'a) op" where
  "getS f s = (Inr (f s), s)"

definition modifyS :: "('s \<Rightarrow> 's) \<Rightarrow> ('s, unit) op" where
  "modifyS f s = (Inr (), f s)"

definition liftS :: "('s \<Rightarrow> 'a result) \<Rightarrow> ('s, 'a) op" where
  "liftS f s = (f s, s)"

definition guardS :: "bool \<Rightarrow> exn \<Rightarrow> ('s, unit) op" where
  "guardS b e s = ((if b then Inl e else Inr ()), s)"

text \<open>\<^verbatim>\<open>try { m } catch (e) { h(e); }\<close>.\<close>

definition catchS :: "('s, 'a) op \<Rightarrow> (exn \<Rightarrow> ('s, 'a) op) \<Rightarrow> ('s, 'a) op" where
  "catchS m h s = (case m s of (Inl e, t) \<Rightarrow> h e t | (Inr x, t) \<Rightarrow> (Inr x, t))"

fun forS :: "('a \<Rightarrow> ('s, unit) op) \<Rightarrow> 'a list \<Rightarrow> ('s, unit) op" where
  "forS f [] = returnS ()"
| "forS f (x # xs) = thenS (f x) (forS f xs)"

lemma forS_cong [fundef_cong]:
  "xs = ys \<Longrightarrow> (\<And>x. x \<in> set ys \<Longrightarrow> f x = g x) \<Longrightarrow> forS f xs = forS g ys"
  by (induction ys arbitrary: xs) auto

text \<open>An operation on a component of a larger state.\<close>

definition zoomS :: "('s \<Rightarrow> 't) \<Rightarrow> ('t \<Rightarrow> 's \<Rightarrow> 's) \<Rightarrow> ('t, 'a) op \<Rightarrow> ('s, 'a) op" where
  "zoomS get put m s = (case m (get s) of (r, t) \<Rightarrow> (r, put t s))"

lemmas op_defs = returnS_def throwS_def bindS_def thenS_def getS_def modifyS_def liftS_def
  guardS_def catchS_def

text \<open>
  A predicate that every step of a loop keeps, whether the step returns or throws, holds after the
  loop, whether the loop returns or throws.
\<close>

definition keepsS :: "('s \<Rightarrow> bool) \<Rightarrow> ('s, 'a) op \<Rightarrow> bool" where
  "keepsS P m \<longleftrightarrow> (\<forall>s. P s \<longrightarrow> P (snd (m s)))"

lemma keepsD: "keepsS P m \<Longrightarrow> P s \<Longrightarrow> P (snd (m s))"
  by (simp add: keepsS_def)

lemma keepsS_zoom: "(\<And>s t. P s \<Longrightarrow> P (put t s)) \<Longrightarrow> keepsS P (zoomS get put m)"
  by (simp add: keepsS_def zoomS_def split: prod.splits)

lemma keepsS_bind [intro]:
  "keepsS P m \<Longrightarrow> (\<And>x. keepsS P (f x)) \<Longrightarrow> keepsS P (bindS m f)"
  unfolding keepsS_def bindS_def by (fastforce split: sum.splits prod.splits)

lemma keepsS_then [intro]: "keepsS P m \<Longrightarrow> keepsS P n \<Longrightarrow> keepsS P (thenS m n)"
  unfolding thenS_def by (rule keepsS_bind)

lemma keepsS_return [intro, simp]: "keepsS P (returnS x)"
  by (simp add: keepsS_def returnS_def)

lemma keepsS_throw [intro, simp]: "keepsS P (throwS e)"
  by (simp add: keepsS_def throwS_def)

lemma keepsS_get [intro, simp]: "keepsS P (getS f)"
  by (simp add: keepsS_def getS_def)

lemma keepsS_lift [intro, simp]: "keepsS P (liftS f)"
  by (simp add: keepsS_def liftS_def)

lemma keepsS_guard [intro, simp]: "keepsS P (guardS b e)"
  by (simp add: keepsS_def guardS_def)

lemma keepsS_catch [intro]:
  "keepsS P m \<Longrightarrow> (\<And>e. keepsS P (h e)) \<Longrightarrow> keepsS P (catchS m h)"
  unfolding keepsS_def catchS_def by (fastforce split: sum.splits prod.splits)

lemma keepsS_modify: "(\<And>s. P s \<Longrightarrow> P (f s)) \<Longrightarrow> keepsS P (modifyS f)"
  by (simp add: keepsS_def modifyS_def)

lemma keepsS_for [intro]: "(\<And>x. x \<in> set xs \<Longrightarrow> keepsS P (f x)) \<Longrightarrow> keepsS P (forS f xs)"
  by (induction xs) auto

text \<open>
  Weakest preconditions: \<open>wp m Q s\<close> says that running \<open>m\<close> from \<open>s\<close> ends, by return or by throw, with a
  result and a state that satisfy \<open>Q\<close>.
\<close>

definition wp :: "('s, 'a) op \<Rightarrow> ('a result \<Rightarrow> 's \<Rightarrow> bool) \<Rightarrow> 's \<Rightarrow> bool" where
  "wp m Q s \<longleftrightarrow> Q (fst (m s)) (snd (m s))"

definition onward :: "('b result \<Rightarrow> 's \<Rightarrow> bool) \<Rightarrow> ('a \<Rightarrow> 's \<Rightarrow> bool) \<Rightarrow> 'a result \<Rightarrow> 's \<Rightarrow> bool" where
  "onward Q k r t \<longleftrightarrow> (case r of Inl e \<Rightarrow> Q (Inl e) t | Inr x \<Rightarrow> k x t)"

lemma onward_simps [simp]:
  "onward Q k (Inl e) t = Q (Inl e) t"
  "onward Q k (Inr x) t = k x t"
  by (simp_all add: onward_def)

lemma wp_bind [simp]: "wp (bindS m f) Q s = wp m (onward Q (\<lambda>x. wp (f x) Q)) s"
  by (auto simp: wp_def bindS_def onward_def split: prod.splits sum.splits)

lemma wp_then [simp]: "wp (thenS m n) Q s = wp m (onward Q (\<lambda>_. wp n Q)) s"
  by (simp add: thenS_def)

lemma wp_return [simp]: "wp (returnS x) Q s = Q (Inr x) s"
  by (simp add: wp_def op_defs)

lemma wp_throw [simp]: "wp (throwS e) Q s = Q (Inl e) s"
  by (simp add: wp_def op_defs)

lemma wp_get [simp]: "wp (getS f) Q s = Q (Inr (f s)) s"
  by (simp add: wp_def op_defs)

lemma wp_modify [simp]: "wp (modifyS f) Q s = Q (Inr ()) (f s)"
  by (simp add: wp_def op_defs)

lemma wp_lift [simp]: "wp (liftS f) Q s = Q (f s) s"
  by (simp add: wp_def op_defs)

lemma wp_guard [simp]: "wp (guardS b e) Q s = (if b then Q (Inl e) s else Q (Inr ()) s)"
  by (simp add: wp_def op_defs)

lemma wp_catch [simp]:
  "wp (catchS m h) Q s = wp m (\<lambda>r t. case r of Inl e \<Rightarrow> wp (h e) Q t | Inr x \<Rightarrow> Q (Inr x) t) s"
  by (auto simp: wp_def catchS_def split: prod.splits sum.splits)

lemma wp_zoom [simp]: "wp (zoomS get put m) Q s = wp m (\<lambda>r t. Q r (put t s)) (get s)"
  by (simp add: wp_def zoomS_def split: prod.splits)

lemma wp_mono: "wp m P s \<Longrightarrow> (\<And>r t. P r t \<Longrightarrow> Q r t) \<Longrightarrow> wp m Q s"
  by (simp add: wp_def)

lemma wpD: "wp m Q s \<Longrightarrow> m s = (r, t) \<Longrightarrow> Q r t"
  by (simp add: wp_def)

section \<open>Bytes and characters\<close>

text \<open>
  \<^verbatim>\<open>std::string\<close> holds bytes; the codec reads and writes them through \<^verbatim>\<open>reinterpret_cast\<close>.
\<close>

definition byte_of_char :: "char \<Rightarrow> byte" where
  "byte_of_char c = word_of_nat (of_char c)"

definition char_of_byte :: "byte \<Rightarrow> char" where
  "char_of_byte b = char_of (unat b)"

lemma char_byte_inverse [simp]: "char_of_byte (byte_of_char c) = c"
proof -
  have "(of_char c :: nat) < 256" by (rule nat_of_char_less_256)
  then show ?thesis by (simp add: char_of_byte_def byte_of_char_def unat_of_nat)
qed

lemma byte_char_inverse [simp]: "byte_of_char (char_of_byte b) = b"
proof -
  have "unat b < 256" using unsigned_less [of b, where ?'a = nat] by simp
  then show ?thesis by (simp add: char_of_byte_def byte_of_char_def)
qed

lemma map_char_byte_inverse [simp]: "map char_of_byte (map byte_of_char s) = s"
  by (simp add: comp_def)

lemma map_byte_char_inverse [simp]: "map byte_of_char (map char_of_byte bs) = bs"
  by (simp add: comp_def)

section \<open>Little-endian integers\<close>

text \<open>
  Writing emits \<^verbatim>\<open>value >> (i * 8)\<close> for each byte position; reading ORs each byte back in at its
  position.
\<close>

definition le_bytes :: "nat \<Rightarrow> 'a::len word \<Rightarrow> bytes" where
  "le_bytes n v = map (\<lambda>i. ucast (drop_bit (i * 8) v)) [0..<n]"

fun le_read :: "nat \<Rightarrow> 'a::len word \<Rightarrow> bytes \<Rightarrow> 'a word" where
  "le_read i v [] = v"
| "le_read i v (b # bs) = le_read (Suc i) (v OR push_bit (i * 8) (ucast b)) bs"

lemma length_le_bytes [simp]: "length (le_bytes n v) = n"
  by (simp add: le_bytes_def)

lemma bit_le_read:
  fixes v :: "'a::len word"
  shows "bit (le_read i v bs) n \<longleftrightarrow>
    bit v n \<or> (n < LENGTH('a) \<and> i \<le> n div 8 \<and> n div 8 - i < length bs \<and> bit (bs ! (n div 8 - i)) (n mod 8))"
proof (induction bs arbitrary: i v)
  case Nil
  then show ?case by simp
next
  case (Cons b bs)
  have hi: "\<not> bit b m" if "8 \<le> m" for m
    using that by (simp add: bit_word.rep_eq not_le[symmetric])
  have b: "bit (push_bit (i * 8) (ucast b :: 'a word)) n \<longleftrightarrow>
      n < LENGTH('a) \<and> n div 8 = i \<and> bit b (n mod 8)"
  proof (cases "i * 8 \<le> n \<and> n < Suc i * 8")
    case True
    then have "n div 8 = i" and "n - i * 8 = n mod 8"
      by (simp_all add: div_nat_eqI) (metis True div_nat_eqI minus_mult_div_eq_mod mult.commute mult_Suc_right)
    with True show ?thesis by (auto simp: bit_push_bit_iff bit_ucast_iff)
  next
    case False
    then have "n div 8 \<noteq> i" by (metis dividend_less_times_div div_times_less_eq_dividend mult.commute mult_Suc zero_less_numeral add.commute)
    moreover have "\<not> bit (push_bit (i * 8) (ucast b :: 'a word)) n"
    proof (cases "i * 8 \<le> n")
      case True
      with False have "8 \<le> n - i * 8" by simp
      then show ?thesis using hi by (simp add: bit_push_bit_iff bit_ucast_iff)
    qed (simp add: bit_push_bit_iff)
    ultimately show ?thesis by simp
  qed
  consider "n div 8 < i" | "n div 8 = i" | k where "n div 8 = Suc (i + k)"
    by (metis less_iff_Suc_add linorder_less_linear)
  then show ?case
    by cases (auto simp: Cons.IH bit_or_iff b)
qed

lemma bit_le_bytes_nth:
  fixes v :: "'a::len word"
  assumes "i < n"
  shows "bit (le_bytes n v ! i) m \<longleftrightarrow> m < 8 \<and> bit v (i * 8 + m)"
  using assms by (auto simp: le_bytes_def bit_ucast_iff bit_drop_bit_eq dest: bit_imp_le_length)

lemma le_read_le_bytes [simp]:
  fixes v :: "'a::len word"
  assumes "n * 8 = LENGTH('a)"
  shows "le_read 0 0 (le_bytes n v) = v"
proof (rule bit_word_eqI)
  fix m
  assume "m < LENGTH('a)"
  then have "m div 8 < n" using assms by simp
  then show "bit (le_read 0 0 (le_bytes n v) :: 'a word) m = bit v m"
    using \<open>m < LENGTH('a)\<close> by (simp add: bit_le_read bit_le_bytes_nth)
qed

lemma le_bytes_le_read [simp]:
  assumes "n * 8 = LENGTH('a)" and "length bs = n"
  shows "le_bytes n (le_read 0 0 bs :: 'a::len word) = bs"
proof (rule nth_equalityI)
  show "length (le_bytes n (le_read 0 0 bs :: 'a word)) = length bs" using assms by simp
next
  fix i
  assume "i < length (le_bytes n (le_read 0 0 bs :: 'a word))"
  then have i: "i < n" by simp
  show "le_bytes n (le_read 0 0 bs :: 'a word) ! i = bs ! i"
  proof (rule bit_word_eqI)
    fix m :: nat
    assume m: "m < LENGTH(8)"
    have "i * 8 + m < n * 8" using i m by simp
    moreover have "(i * 8 + m) div 8 = i" "(i * 8 + m) mod 8 = m" using m by simp_all
    ultimately show "bit (le_bytes n (le_read 0 0 bs :: 'a word) ! i) m = bit (bs ! i) m"
      using i m assms by (simp add: bit_le_bytes_nth bit_le_read)
  qed
qed

text \<open>
  With fewer bytes than the type is wide, the low bytes of the value survive the trip.
\<close>

lemma le_read_le_bytes_take:
  fixes v :: "'a::len word"
  shows "le_read 0 0 (le_bytes n v) = take_bit (n * 8) v"
proof (rule bit_word_eqI)
  fix m
  assume "m < LENGTH('a)"
  moreover have "m div 8 < n \<longleftrightarrow> m < n * 8" by (simp add: div_less_iff_less_mult)
  ultimately show "bit (le_read 0 0 (le_bytes n v) :: 'a word) m = bit (take_bit (n * 8) v) m"
    by (auto simp: bit_le_read bit_le_bytes_nth bit_take_bit_iff)
qed

lemma le_read_le_bytes_small:
  fixes v :: "'a::len word"
  assumes "unat v < 2 ^ (n * 8)"
  shows "le_read 0 0 (le_bytes n v) = v"
proof -
  have "unat (take_bit (n * 8) v) = unat v"
    using assms by (simp add: unsigned_take_bit_eq take_bit_nat_eq_self)
  then show ?thesis by (simp add: le_read_le_bytes_take word_eq_iff_unsigned unsigned_word_eqI)
qed

text \<open>The two directions together: a byte string of the right width is the encoding of one value.\<close>

lemma le_read_eq_iff:
  fixes v :: "'a::len word"
  assumes "n * 8 = LENGTH('a)" and "length bs = n"
  shows "le_read 0 0 bs = v \<longleftrightarrow> bs = le_bytes n v"
  using assms le_bytes_le_read le_read_le_bytes by metis

lemma le_bytes_inject:
  fixes v w :: "'a::len word"
  assumes "n * 8 = LENGTH('a)"
  shows "le_bytes n v = le_bytes n w \<longleftrightarrow> v = w"
  using assms le_read_le_bytes by metis

lemma le_bytes_widths_inject [simp]:
  "le_bytes 2 (a16 :: u16) = le_bytes 2 b16 \<longleftrightarrow> a16 = b16"
  "le_bytes 4 (a32 :: u32) = le_bytes 4 b32 \<longleftrightarrow> a32 = b32"
  "le_bytes 8 (a64 :: u64) = le_bytes 8 b64 \<longleftrightarrow> a64 = b64"
  by (simp_all add: le_bytes_inject)

lemma unat_less_64: "unat (w :: u64) < 2 ^ 64"
  using unsigned_less [of w, where ?'a = nat] by simp

lemma unat_less_32: "unat (w :: u32) < 2 ^ 32"
  using unsigned_less [of w, where ?'a = nat] by simp

lemma unat_ucast_32_64 [simp]: "unat (ucast (c :: u32) :: u64) = unat c"
proof -
  have "unat c < 2 ^ 64" using unat_less_32 [of c] by simp
  then show ?thesis by (simp add: unsigned_ucast_eq take_bit_nat_eq_self)
qed

lemma unat_add_64: "unat (a :: u64) + unat b < 2 ^ 64 \<Longrightarrow> unat (a + b) = unat a + unat b"
  by (simp add: unat_word_ariths)

lemma word_of_nat_eqI: "unat w = n \<Longrightarrow> w = word_of_nat n"
  by auto

section \<open>Sizes\<close>

text \<open>
  A \<^verbatim>\<open>std::size_t\<close> is a 64-bit unsigned integer.  Counters of bytes are natural numbers here, and
  the two operations that could leave the range wrap around as the machine does.
\<close>

definition size_minus :: "nat \<Rightarrow> nat \<Rightarrow> nat" where
  "size_minus a b = nat ((int a - int b) mod 2 ^ 64)"

definition size_plus :: "nat \<Rightarrow> nat \<Rightarrow> nat" where
  "size_plus a b = (a + b) mod 2 ^ 64"

lemma size_minus_exact: "b \<le> a \<Longrightarrow> a < 2 ^ 64 \<Longrightarrow> size_minus a b = a - b"
  by (simp add: size_minus_def nat_diff_distrib)

lemma size_plus_exact: "a + b < 2 ^ 64 \<Longrightarrow> size_plus a b = a + b"
  by (simp add: size_plus_def)

section \<open>Strings\<close>

text \<open>
  A \<^verbatim>\<open>std::string\<close> passed as a C string ends at its first NUL.
\<close>

definition cstr :: "string \<Rightarrow> string" where
  "cstr s = takeWhile (\<lambda>c. c \<noteq> CHR 0x00) s"

abbreviation nul_free :: "string \<Rightarrow> bool" where
  "nul_free s \<equiv> CHR 0x00 \<notin> set s"

lemma cstr_nul_free [simp]: "nul_free (cstr s)"
  unfolding cstr_def by (auto dest: set_takeWhileD)

lemma cstr_id [simp]: "nul_free s \<Longrightarrow> cstr s = s"
  unfolding cstr_def by (auto simp: takeWhile_eq_all_conv)

lemma cstr_cstr [simp]: "cstr (cstr s) = cstr s"
  by simp

text \<open>Splitting at every occurrence of a separator: the pieces between the separators, in order.\<close>

fun split_on :: "'a \<Rightarrow> 'a list \<Rightarrow> 'a list list" where
  "split_on c [] = [[]]"
| "split_on c (x # xs) =
     (if x = c then [] # split_on c xs
      else case split_on c xs of [] \<Rightarrow> [[x]] | y # ys \<Rightarrow> (x # y) # ys)"

fun join_with :: "'a \<Rightarrow> 'a list list \<Rightarrow> 'a list" where
  "join_with c [] = []"
| "join_with c [x] = x"
| "join_with c (x # xs) = x @ c # join_with c xs"

lemma split_on_nonempty [simp]: "split_on c s \<noteq> []"
  by (induction s) (auto split: list.splits)

lemma join_split_on: "join_with c (split_on c s) = s"
proof (induction s)
  case (Cons x xs)
  then show ?case
  proof (cases "split_on c xs")
    case (Cons y ys)
    with \<open>join_with c (split_on c xs) = xs\<close> show ?thesis by (cases ys) auto
  qed simp
qed simp

lemma split_on_pieces: "p \<in> set (split_on c s) \<Longrightarrow> c \<notin> set p"
  by (induction s arbitrary: p) (auto split: if_splits list.splits)

lemma split_on_append: "split_on c (xs @ c # ys) = split_on c xs @ split_on c ys"
  by (induction xs) (auto split: list.splits)

lemma split_on_free: "c \<notin> set s \<Longrightarrow> split_on c s = [s]"
  by (induction s) auto

lemma split_on_join:
  "ps \<noteq> [] \<Longrightarrow> \<forall>p \<in> set ps. c \<notin> set p \<Longrightarrow> split_on c (join_with c ps) = ps"
proof (induction ps rule: join_with.induct)
  case (2 c x)
  then have "c \<notin> set x" by simp
  then show ?case by (induction x) auto
next
  case (3 c x y ys)
  then have ih: "split_on c (join_with c (y # ys)) = y # ys" by simp
  have "c \<notin> set x" using "3.prems" by simp
  then show ?case
  proof (induction x)
    case Nil
    then show ?case using ih by simp
  qed auto
qed simp

section \<open>Nibbles\<close>

lemma nibbles:
  "(b AND 0x0F) = take_bit 4 b" "drop_bit 4 b AND 0x0F = drop_bit 4 b" "unat (take_bit 4 b) < 16" "unat (drop_bit 4 b) < 16"
  for b :: u8
proof -
  show low: "(b AND 0x0F) = take_bit 4 b" for b :: u8 by (simp add: take_bit_eq_mask mask_numeral)
  show "drop_bit 4 b AND 0x0F = drop_bit 4 b"
    unfolding low by (rule bit_eqI) (auto simp: bit_take_bit_iff bit_drop_bit_eq dest: bit_imp_le_length)
  show "unat (take_bit 4 b) < 16" using take_bit_nat_less_exp [of 4 "unat b"] by (simp add: unsigned_take_bit_eq)
  show "unat (drop_bit 4 b) < 16"
    using unsigned_less [of b, where ?'a = nat] by (simp add: drop_bit_eq_div unat_div less_mult_imp_div_less)
qed

section \<open>Decimal numerals\<close>

text \<open>\<^verbatim>\<open>std::to_string\<close> of an unsigned integer.\<close>

definition digit :: "nat \<Rightarrow> char" where
  "digit n = char_of (48 + n)"

fun to_string :: "nat \<Rightarrow> string" where
  "to_string n = (if n < 10 then [digit n] else to_string (n div 10) @ [digit (n mod 10)])"

declare to_string.simps [simp del]

lemma digit_inject: "m < 10 \<Longrightarrow> n < 10 \<Longrightarrow> digit m = digit n \<longleftrightarrow> m = n"
proof -
  assume a: "m < 10" "n < 10"
  have "of_char (digit k) = 48 + k" if "k < 10" for k
    using that by (simp add: digit_def)
  with a show ?thesis by (metis add_left_cancel)
qed

lemma to_string_inject: "to_string m = to_string n \<longleftrightarrow> m = n"
proof (induction m arbitrary: n rule: to_string.induct)
  case (1 m)
  have nonempty: "to_string k \<noteq> []" for k by (subst to_string.simps) simp
  show ?case
  proof (cases "m < 10"; cases "n < 10")
    assume "m < 10" "n < 10"
    then show ?thesis by (simp add: to_string.simps [of m] to_string.simps [of n] digit_inject)
  next
    assume "m < 10" "\<not> n < 10"
    then show ?thesis
      using nonempty [of "n div 10"] by (auto simp: to_string.simps [of m] to_string.simps [of n])
  next
    assume "\<not> m < 10" "n < 10"
    then show ?thesis
      using nonempty [of "m div 10"] by (auto simp: to_string.simps [of m] to_string.simps [of n])
  next
    assume mn: "\<not> m < 10" "\<not> n < 10"
    then have "to_string m = to_string n \<longleftrightarrow> m div 10 = n div 10 \<and> m mod 10 = n mod 10"
      using "1.IH" [OF mn(1), of "n div 10"]
      by (simp add: to_string.simps [of m] to_string.simps [of n] digit_inject)
    then show ?thesis by (metis div_mult_mod_eq)
  qed
qed

lemma digit_cases: "n < 10 \<Longrightarrow> digit n \<in> set ''0123456789''"
proof -
  assume "n < 10"
  then have "n = 0 \<or> n = 1 \<or> n = 2 \<or> n = 3 \<or> n = 4 \<or> n = 5 \<or> n = 6 \<or> n = 7 \<or> n = 8 \<or> n = 9"
    by presburger
  then show ?thesis by (elim disjE) (simp_all add: digit_def char_of_def bit_0)
qed

lemma set_to_string: "set (to_string n) \<subseteq> set ''0123456789''"
proof (induction n rule: to_string.induct)
  case (1 n)
  then show ?case
    using digit_cases [of n] digit_cases [of "n mod 10"] by (subst to_string.simps) auto
qed

end
