(* ===== verification/Protocol.thy ===== *)
theory Protocol
  imports VS_Prelude
begin

text \<open>
  The application wire format (\<^verbatim>\<open>engine/common/protocol.h\<close>, \<^verbatim>\<open>engine/common/protocol.cpp\<close>): the
  \<^verbatim>\<open>Writer\<close> and \<^verbatim>\<open>Reader\<close> classes, the frame envelope and every payload codec.  A writer call is the
  byte run it appends, or the exception it throws; a reader is a function from the unread bytes to
  a value and the bytes still unread.  The interface of a codec is the locale \<open>codec\<close>: decoding
  accepts exactly the images of encoding on admissible messages.  BLAKE3 is the parameter
  \<open>blake3\<close> of the chunk codec.
\<close>

section \<open>Types of protocol.h\<close>

definition kProtocolVersion :: u8 where "kProtocolVersion = 1"
definition kFrameHeaderSize :: nat where "kFrameHeaderSize = 16"
definition kMaxFrameSize :: nat where "kMaxFrameSize = 16 * 1024 * 1024"
definition kLogicalChunkSize :: nat where "kLogicalChunkSize = 256 * 1024"

datatype Channel = kControl | kBulk

datatype FrameType =
    kHello | kManifest | kError | kHeartbeat | kFileRequest | kCancel
  | kVersionManifest
  | kPolicyHello | kPolicyPropose | kPolicyAck | kPolicyCommit
  | kPolicyDone | kPolicyReject
  | kChunk | kChunkAck | kWindowUpdate

fun FrameType_code :: "FrameType \<Rightarrow> u8" where
  "FrameType_code kHello = 1"
| "FrameType_code kManifest = 2"
| "FrameType_code kError = 3"
| "FrameType_code kHeartbeat = 4"
| "FrameType_code kFileRequest = 5"
| "FrameType_code kCancel = 6"
| "FrameType_code kVersionManifest = 7"
| "FrameType_code kPolicyHello = 8"
| "FrameType_code kPolicyPropose = 9"
| "FrameType_code kPolicyAck = 10"
| "FrameType_code kPolicyCommit = 11"
| "FrameType_code kPolicyDone = 12"
| "FrameType_code kPolicyReject = 13"
| "FrameType_code kChunk = 64"
| "FrameType_code kChunkAck = 65"
| "FrameType_code kWindowUpdate = 66"

definition all_frame_types :: "FrameType list" where
  "all_frame_types = [kHello, kManifest, kError, kHeartbeat, kFileRequest, kCancel, kVersionManifest,
     kPolicyHello, kPolicyPropose, kPolicyAck, kPolicyCommit, kPolicyDone, kPolicyReject,
     kChunk, kChunkAck, kWindowUpdate]"

text \<open>\<^verbatim>\<open>static_cast<FrameType>\<close> of a byte that \<^verbatim>\<open>ValidType\<close> has accepted.\<close>

definition FrameType_cast :: "u8 \<Rightarrow> FrameType option" where
  "FrameType_cast b = List.find (\<lambda>t. FrameType_code t = b) all_frame_types"

datatype Role = kSource | kTarget | kPeer

fun Role_code :: "Role \<Rightarrow> u8" where
  "Role_code kSource = 1"
| "Role_code kTarget = 2"
| "Role_code kPeer = 3"

text \<open>
  \<^verbatim>\<open>static_cast<Role>\<close> of any byte; \<open>None\<close> is an enumeration value without an enumerator, which the
  decoder rejects.
\<close>

definition Role_cast :: "u8 \<Rightarrow> Role option" where
  "Role_cast b = List.find (\<lambda>r. Role_code r = b) [kSource, kTarget, kPeer]"

datatype VersionedEntryKind = vkFile | vkDirectory | vkTombstone

fun Kind_code :: "VersionedEntryKind \<Rightarrow> u8" where
  "Kind_code vkFile = 1"
| "Kind_code vkDirectory = 2"
| "Kind_code vkTombstone = 3"

definition Kind_cast :: "u8 \<Rightarrow> VersionedEntryKind option" where
  "Kind_cast b = List.find (\<lambda>k. Kind_code k = b) [vkFile, vkDirectory, vkTombstone]"

record Frame =
  frame_type :: FrameType
  frame_request_id :: u64
  frame_payload :: bytes

record Hello =
  hello_task_id :: string
  hello_role :: Role
  hello_device_id :: string
  hello_device_fingerprint :: string
  hello_authorization_digest :: string

record ManifestEntry =
  me_relative_path :: string
  me_size :: u64
  me_content_hash :: string

record Manifest =
  manifest_revision :: u64
  manifest_entries :: "ManifestEntry list"

record VersionedManifestEntry =
  ve_relative_path :: string
  ve_kind :: VersionedEntryKind
  ve_size :: u64
  ve_content_hash :: string
  ve_version_id :: string
  ve_origin_device_id :: string
  ve_logical_clock :: u64
  ve_parent_version_id :: string
  ve_deleted_at_ms :: "u64 option"

record VersionedManifest =
  vm_revision :: u64
  vm_entries :: "VersionedManifestEntry list"

record Chunk =
  chunk_transfer_id :: bytes
  chunk_file_hash :: bytes
  chunk_offset :: u64
  chunk_chunk_hash :: bytes
  chunk_bytes :: bytes

record ChunkRange =
  first_chunk :: u64
  chunk_count :: u32

record FileRequest =
  request_transfer_id :: bytes
  request_file_hash :: bytes
  missing_ranges :: "ChunkRange list"

record Cancel =
  cancel_transfer_id :: bytes
  cancel_reason :: string

record IgnorePolicyMessage =
  policy_proposal_id :: string
  policy_base_hash :: string
  policy_rules :: string
  policy_source :: string

section \<open>Writer and Reader\<close>

text \<open>A writer call yields the bytes it appends to \<^verbatim>\<open>bytes_\<close>.\<close>

definition w_U8 :: "u8 \<Rightarrow> bytes result" where "w_U8 v = Inr [v]"
definition w_U16 :: "u16 \<Rightarrow> bytes result" where "w_U16 v = Inr (le_bytes 2 v)"
definition w_U32 :: "u32 \<Rightarrow> bytes result" where "w_U32 v = Inr (le_bytes 4 v)"
definition w_U64 :: "u64 \<Rightarrow> bytes result" where "w_U64 v = Inr (le_bytes 8 v)"
definition w_Bytes :: "bytes \<Rightarrow> bytes result" where "w_Bytes bs = Inr bs"

fun take_writer :: "bytes result list \<Rightarrow> bytes result" where
  "take_writer [] = Inr []"
| "take_writer (w # ws) = bindE w (\<lambda>a. bindE (take_writer ws) (\<lambda>b. Inr (a @ b)))"

definition w_String :: "string \<Rightarrow> bytes result" where
  "w_String s = (if 65535 < length s then Inl (Invalid_argument ''string too long'')
     else take_writer [w_U16 (word_of_nat (length s)), w_Bytes (map byte_of_char s)])"

text \<open>The unread suffix stands for \<^verbatim>\<open>bytes_\<close> and \<^verbatim>\<open>position_\<close>; \<open>r_Need\<close> is the bounds check of every read.\<close>

type_synonym 'a reader = "bytes \<Rightarrow> ('a \<times> bytes) result"

definition r_Need :: "nat \<Rightarrow> bytes \<Rightarrow> unit result" where
  "r_Need n bs = (if length bs < n then Inl (Invalid_argument ''truncated payload'') else Inr ())"

definition r_U8 :: "u8 reader" where
  "r_U8 bs = bindE (r_Need 1 bs) (\<lambda>_. Inr (hd bs, tl bs))"

definition r_Int :: "nat \<Rightarrow> 'a::len word reader" where
  "r_Int n bs = bindE (r_Need n bs) (\<lambda>_. Inr (le_read 0 0 (take n bs), drop n bs))"

definition r_U16 :: "u16 reader" where "r_U16 = r_Int 2"
definition r_U32 :: "u32 reader" where "r_U32 = r_Int 4"
definition r_U64 :: "u64 reader" where "r_U64 = r_Int 8"

definition r_Bytes :: "nat \<Rightarrow> bytes reader" where
  "r_Bytes n bs = bindE (r_Need n bs) (\<lambda>_. Inr (take n bs, drop n bs))"

definition bindR :: "'a reader \<Rightarrow> ('a \<Rightarrow> 'b reader) \<Rightarrow> 'b reader" where
  "bindR p f bs = bindE (p bs) (\<lambda>(x, rest). f x rest)"

definition returnR :: "'a \<Rightarrow> 'a reader" where "returnR x bs = Inr (x, bs)"
definition throwR :: "exn \<Rightarrow> 'a reader" where "throwR e bs = Inl e"

definition r_String :: "string reader" where
  "r_String = bindR r_U16 (\<lambda>n. bindR (r_Bytes (unat n)) (\<lambda>bs. returnR (map char_of_byte bs)))"

definition r_Finish :: "unit reader" where
  "r_Finish bs = (if bs \<noteq> [] then Inl (Invalid_argument ''trailing bytes'') else Inr ((), bs))"

text \<open>A read of \<open>count\<close> consecutive elements, as the decode loops do.\<close>

fun r_times :: "nat \<Rightarrow> 'a reader \<Rightarrow> 'a list reader" where
  "r_times 0 p = returnR []"
| "r_times (Suc n) p = bindR p (\<lambda>x. bindR (r_times n p) (\<lambda>xs. returnR (x # xs)))"

definition run_reader :: "'a reader \<Rightarrow> bytes \<Rightarrow> 'a result" where
  "run_reader p bs = bindE (p bs) (\<lambda>(x, _). Inr x)"

subsection \<open>Inversion of the primitive calls\<close>

text \<open>
  Every primitive read is the exact inverse of the primitive write: it succeeds on, and only on,
  the written form of the value it returns.
\<close>

lemma bindR_Inr_iff [reader_iff]:
  "bindR p f bs = Inr r \<longleftrightarrow> (\<exists>x rest. p bs = Inr (x, rest) \<and> f x rest = Inr r)"
  by (auto simp: bindR_def result_iff)

lemma returnR_Inr_iff [reader_iff]: "returnR x bs = Inr (y, rest) \<longleftrightarrow> y = x \<and> rest = bs"
  by (auto simp: returnR_def)

lemma throwR_Inr_iff [reader_iff]: "throwR e bs = Inr r \<longleftrightarrow> False"
  by (simp add: throwR_def)

lemma run_reader_Inr_iff [reader_iff]:
  "run_reader p bs = Inr x \<longleftrightarrow> (\<exists>rest. p bs = Inr (x, rest))"
  by (auto simp: run_reader_def result_iff)

lemma r_Finish_Inr_iff [reader_iff]: "r_Finish bs = Inr r \<longleftrightarrow> bs = [] \<and> r = ((), [])"
  by (auto simp: r_Finish_def)

lemma if_throwR_iff [reader_iff]:
  "(if b then throwR e else p) bs = Inr r \<longleftrightarrow> \<not> b \<and> p bs = Inr r"
  by (simp add: throwR_def)

lemma r_U8_iff [reader_iff]: "r_U8 bs = Inr (v, rest) \<longleftrightarrow> bs = v # rest"
  by (cases bs) (auto simp: r_U8_def r_Need_def)

lemma r_Bytes_iff [reader_iff]:
  "r_Bytes n bs = Inr (v, rest) \<longleftrightarrow> length v = n \<and> bs = v @ rest"
  by (auto simp: r_Bytes_def r_Need_def result_iff)

lemma r_Int_iff:
  fixes v :: "'a::len word"
  assumes "n * 8 = LENGTH('a)"
  shows "r_Int n bs = Inr (v, rest) \<longleftrightarrow> bs = le_bytes n v @ rest"
proof
  assume "r_Int n bs = Inr (v, rest)"
  then have "n \<le> length bs" "le_read 0 0 (take n bs) = v" "rest = drop n bs"
    by (auto simp: r_Int_def r_Need_def result_iff split: if_splits)
  then show "bs = le_bytes n v @ rest"
    using le_read_eq_iff [OF assms, of "take n bs" v] by (metis append_take_drop_id length_take min.absorb2)
next
  assume "bs = le_bytes n v @ rest"
  then show "r_Int n bs = Inr (v, rest)"
    using assms by (simp add: r_Int_def r_Need_def)
qed

lemma r_ints_iff [reader_iff]:
  "r_U16 bs = Inr (v16, rest) \<longleftrightarrow> bs = le_bytes 2 v16 @ rest"
  "r_U32 bs = Inr (v32, rest) \<longleftrightarrow> bs = le_bytes 4 v32 @ rest"
  "r_U64 bs = Inr (v64, rest) \<longleftrightarrow> bs = le_bytes 8 v64 @ rest"
  by (simp_all add: r_U16_def r_U32_def r_U64_def r_Int_iff)

lemma w_prim_iff [writer_iff]:
  "w_U8 v8 = Inr w \<longleftrightarrow> w = [v8]"
  "w_U16 v16 = Inr w \<longleftrightarrow> w = le_bytes 2 v16"
  "w_U32 v32 = Inr w \<longleftrightarrow> w = le_bytes 4 v32"
  "w_U64 v64 = Inr w \<longleftrightarrow> w = le_bytes 8 v64"
  "w_Bytes bs = Inr w \<longleftrightarrow> w = bs"
  by (auto simp: w_U8_def w_U16_def w_U32_def w_U64_def w_Bytes_def)

lemma take_writer_Cons_iff [writer_iff]:
  "take_writer (x # xs) = Inr w \<longleftrightarrow> (\<exists>a b. x = Inr a \<and> take_writer xs = Inr b \<and> w = a @ b)"
  by (auto simp: result_iff)

lemma take_writer_Nil_iff [writer_iff]: "take_writer [] = Inr w \<longleftrightarrow> w = []"
  by auto

lemma take_writer_append_iff:
  "take_writer (xs @ ys) = Inr w \<longleftrightarrow>
     (\<exists>a b. take_writer xs = Inr a \<and> take_writer ys = Inr b \<and> w = a @ b)"
  by (induction xs arbitrary: w) (fastforce simp: result_iff)+

declare take_writer.simps [simp del]

lemma w_String_iff:
  "w_String s = Inr w \<longleftrightarrow>
     length s \<le> 65535 \<and> w = le_bytes 2 (word_of_nat (length s) :: u16) @ map byte_of_char s"
  by (auto simp: w_String_def writer_iff result_iff)

lemma r_String_iff [reader_iff]:
  "r_String bs = Inr (s, rest) \<longleftrightarrow> (\<exists>w. w_String s = Inr w \<and> bs = w @ rest)"
proof
  assume "r_String bs = Inr (s, rest)"
  then obtain n v where v: "bs = le_bytes 2 (n :: u16) @ v @ rest" "length v = unat n" "s = map char_of_byte v"
    by (auto simp: r_String_def reader_iff)
  have "unat n < 65536" using unsigned_less [of n, where ?'a = nat] by simp
  with v show "\<exists>w. w_String s = Inr w \<and> bs = w @ rest"
    by (auto simp: w_String_iff comp_def)
next
  assume "\<exists>w. w_String s = Inr w \<and> bs = w @ rest"
  then have s: "length s \<le> 65535"
    and "bs = le_bytes 2 (word_of_nat (length s) :: u16) @ map byte_of_char s @ rest"
    by (auto simp: w_String_iff)
  then show "r_String bs = Inr (s, rest)"
    by (auto simp: r_String_def reader_iff unat_of_nat comp_def intro!: exI [of _ "word_of_nat (length s) :: u16"] exI [of _ "map byte_of_char s"])
qed

text \<open>
  A reader that inverts a writer element by element inverts the concatenation of the writes of a
  whole vector.
\<close>

lemma r_times_iff:
  assumes "\<And>bs x rest. p bs = Inr (x, rest) \<longleftrightarrow> ok x \<and> (\<exists>w. enc x = Inr w \<and> bs = w @ rest)"
  shows "r_times n p bs = Inr (xs, rest) \<longleftrightarrow>
    length xs = n \<and> (\<forall>x\<in>set xs. ok x) \<and> (\<exists>w. take_writer (map enc xs) = Inr w \<and> bs = w @ rest)"
proof (induction n arbitrary: bs xs)
  case 0
  then show ?case by (auto simp: reader_iff writer_iff)
next
  case (Suc n)
  have "r_times (Suc n) p bs = Inr (xs, rest) \<longleftrightarrow>
    (\<exists>y ys w1 w2. xs = y # ys \<and> length ys = n \<and> ok y \<and> enc y = Inr w1 \<and> (\<forall>x\<in>set ys. ok x) \<and>
       take_writer (map enc ys) = Inr w2 \<and> bs = w1 @ w2 @ rest)"
    by (auto simp: reader_iff assms Suc.IH)
  also have "\<dots> \<longleftrightarrow> length xs = Suc n \<and> (\<forall>x\<in>set xs. ok x) \<and>
      (\<exists>w. take_writer (map enc xs) = Inr w \<and> bs = w @ rest)"
    by (cases xs) (auto simp: writer_iff)
  finally show ?case .
qed

text \<open>Running a reader on bytes that a writer produced.\<close>

lemma reader_run_prims [reader_run]:
  "r_U8 (v # rest) = Inr (v, rest)"
  "r_U16 (le_bytes 2 v16 @ rest) = Inr (v16, rest)"
  "r_U32 (le_bytes 4 v32 @ rest) = Inr (v32, rest)"
  "r_U64 (le_bytes 8 v64 @ rest) = Inr (v64, rest)"
  "length bs = n \<Longrightarrow> r_Bytes n (bs @ rest) = Inr (bs, rest)"
  "w_String s = Inr w \<Longrightarrow> r_String (w @ rest) = Inr (s, rest)"
  "r_Finish [] = Inr ((), [])"
  by (simp_all add: reader_iff)

lemma reader_run_last [reader_run]:
  "r_U64 (le_bytes 8 v64) = Inr (v64, [])"
  "length bs = n \<Longrightarrow> r_Bytes n bs = Inr (bs, [])"
  "w_String s = Inr w \<Longrightarrow> r_String w = Inr (s, [])"
  using reader_run_prims(4) [of v64 "[]"] reader_run_prims(5) [of bs n "[]"]
    reader_run_prims(6) [of s w "[]"] by simp_all

lemma reader_run_control [reader_run]:
  "returnR y bs = Inr (y, bs)"
  "run_reader q bs = bindE (q bs) (\<lambda>(x, _). Inr x)"
  by (simp_all add: bindR_def returnR_def run_reader_def)

lemma bindR_bindE [reader_run]: "bindR p f bs = bindE (p bs) (\<lambda>(x, rest). f x rest)"
  by (simp add: bindR_def)

section \<open>Channels and the frame envelope\<close>

definition ValidType :: "u8 \<Rightarrow> bool" where
  "ValidType t \<longleftrightarrow> 1 \<le> t \<and> t \<le> 13 \<or> t = 64 \<or> t = 65 \<or> t = 66"

definition IsAllowedOn :: "Channel \<Rightarrow> FrameType \<Rightarrow> bool" where
  "IsAllowedOn channel t =
     (if channel = kControl then FrameType_code t < 64 else 64 \<le> FrameType_code t)"

definition EncodeFrame :: "Frame \<Rightarrow> bytes result" where
  "EncodeFrame frame =
     (if \<not> ValidType (FrameType_code (frame_type frame)) \<or>
         kMaxFrameSize - kFrameHeaderSize < length (frame_payload frame)
      then Inl (Invalid_argument ''invalid frame'')
      else take_writer [w_U8 86, w_U8 83, w_U8 kProtocolVersion,
             w_U8 (FrameType_code (frame_type frame)), w_U64 (frame_request_id frame),
             w_U32 (word_of_nat (length (frame_payload frame))), w_Bytes (frame_payload frame)])"

definition DecodeFrameView :: "bytes \<Rightarrow> Frame result" where
  "DecodeFrameView wire =
     (if length wire < kFrameHeaderSize \<or> kMaxFrameSize < length wire
      then Inl (Invalid_argument ''invalid frame size'')
      else run_reader
        (bindR r_U8 (\<lambda>v. if v \<noteq> 86 then throwR (Invalid_argument ''bad magic'') else
         bindR r_U8 (\<lambda>s. if s \<noteq> 83 then throwR (Invalid_argument ''bad magic'') else
         bindR r_U8 (\<lambda>version. if version \<noteq> kProtocolVersion
           then throwR (Invalid_argument ''unsupported version'') else
         bindR r_U8 (\<lambda>type. if \<not> ValidType type
           then throwR (Invalid_argument ''unknown frame type'') else
         bindR r_U64 (\<lambda>request_id.
         bindR r_U32 (\<lambda>payload_length. if unat payload_length \<noteq> length wire - kFrameHeaderSize
           then throwR (Invalid_argument ''payload length mismatch'') else
         returnR \<lparr>frame_type = the (FrameType_cast type), frame_request_id = request_id,
           frame_payload = take (unat payload_length) (drop kFrameHeaderSize wire)\<rparr>))))))) wire)"

definition DecodeFrame :: "bytes \<Rightarrow> Frame result" where
  "DecodeFrame wire = bindE (DecodeFrameView wire) (\<lambda>view.
     Inr \<lparr>frame_type = frame_type view, frame_request_id = frame_request_id view,
          frame_payload = frame_payload view\<rparr>)"

section \<open>Payload codecs\<close>

definition EncodeIgnorePolicy :: "IgnorePolicyMessage \<Rightarrow> bytes result" where
  "EncodeIgnorePolicy policy =
     (if 16384 < length (policy_rules policy) \<or> length (policy_base_hash policy) \<noteq> 64 \<or>
         64 < length (policy_proposal_id policy)
      then Inl (Invalid_argument ''invalid ignore policy message'')
      else take_writer [w_String (policy_proposal_id policy), w_String (policy_base_hash policy),
             w_String (policy_rules policy), w_String (policy_source policy)])"

definition DecodeIgnorePolicy :: "bytes \<Rightarrow> IgnorePolicyMessage result" where
  "DecodeIgnorePolicy = run_reader
     (bindR r_String (\<lambda>proposal_id. bindR r_String (\<lambda>base_hash. bindR r_String (\<lambda>rules.
      bindR r_String (\<lambda>source. bindR r_Finish (\<lambda>_.
      if 16384 < length rules \<or> length base_hash \<noteq> 64 \<or> 64 < length proposal_id
      then throwR (Invalid_argument ''invalid ignore policy message'')
      else returnR \<lparr>policy_proposal_id = proposal_id, policy_base_hash = base_hash,
        policy_rules = rules, policy_source = source\<rparr>))))))"

definition EncodeHello :: "Hello \<Rightarrow> bytes result" where
  "EncodeHello hello = take_writer [w_String (hello_task_id hello), w_U8 (Role_code (hello_role hello)),
     w_String (hello_device_id hello), w_String (hello_device_fingerprint hello),
     w_String (hello_authorization_digest hello)]"

definition DecodeHello :: "bytes \<Rightarrow> Hello result" where
  "DecodeHello = run_reader
     (bindR r_String (\<lambda>task_id. bindR r_U8 (\<lambda>role. bindR r_String (\<lambda>device_id.
      bindR r_String (\<lambda>fingerprint. bindR r_String (\<lambda>digest.
      case Role_cast role of None \<Rightarrow> throwR (Invalid_argument ''invalid hello'')
      | Some r \<Rightarrow> if task_id = [] \<or> device_id = [] \<or> digest = []
          then throwR (Invalid_argument ''invalid hello'')
          else bindR r_Finish (\<lambda>_. returnR \<lparr>hello_task_id = task_id, hello_role = r,
            hello_device_id = device_id, hello_device_fingerprint = fingerprint,
            hello_authorization_digest = digest\<rparr>)))))))"

definition w_ManifestEntry :: "ManifestEntry \<Rightarrow> bytes result" where
  "w_ManifestEntry e = take_writer [w_String (me_relative_path e), w_U64 (me_size e),
     w_String (me_content_hash e)]"

definition EncodeManifest :: "Manifest \<Rightarrow> bytes result" where
  "EncodeManifest manifest =
     (if 1000000 < length (manifest_entries manifest)
      then Inl (Invalid_argument ''too many manifest entries'')
      else take_writer ([w_U64 (manifest_revision manifest),
             w_U32 (word_of_nat (length (manifest_entries manifest)))] @
             map w_ManifestEntry (manifest_entries manifest)))"

definition r_ManifestEntry :: "ManifestEntry reader" where
  "r_ManifestEntry =
     bindR r_String (\<lambda>path. bindR r_U64 (\<lambda>size. bindR r_String (\<lambda>hash.
     if path = [] then throwR (Invalid_argument ''empty manifest path'')
     else returnR \<lparr>me_relative_path = path, me_size = size, me_content_hash = hash\<rparr>)))"

definition DecodeManifest :: "bytes \<Rightarrow> Manifest result" where
  "DecodeManifest = run_reader
     (bindR r_U64 (\<lambda>revision. bindR r_U32 (\<lambda>count.
      if 1000000 < count then throwR (Invalid_argument ''too many manifest entries'') else
      bindR (r_times (unat count) r_ManifestEntry) (\<lambda>entries.
      bindR r_Finish (\<lambda>_. returnR \<lparr>manifest_revision = revision, manifest_entries = entries\<rparr>)))))"

text \<open>The entry check that encoder and decoder share, with the kind already an enumerator.\<close>

definition InvalidVersionedEntry :: "VersionedManifestEntry \<Rightarrow> bool" where
  "InvalidVersionedEntry entry =
     (let file = ve_kind entry = vkFile; tombstone = ve_kind entry = vkTombstone in
      ve_relative_path entry = [] \<or> ve_version_id entry = [] \<or> ve_origin_device_id entry = [] \<or>
      (file \<and> ve_content_hash entry = []) \<or> (\<not> file \<and> ve_content_hash entry \<noteq> []) \<or>
      (\<not> file \<and> ve_size entry \<noteq> 0) \<or> tombstone \<noteq> (ve_deleted_at_ms entry \<noteq> None))"

definition w_VersionedEntry :: "VersionedManifestEntry \<Rightarrow> bytes result" where
  "w_VersionedEntry entry =
     (if InvalidVersionedEntry entry then Inl (Invalid_argument ''invalid versioned manifest entry'')
      else take_writer ([w_String (ve_relative_path entry), w_U8 (Kind_code (ve_kind entry)),
             w_U64 (ve_size entry), w_String (ve_content_hash entry), w_String (ve_version_id entry),
             w_String (ve_origin_device_id entry), w_U64 (ve_logical_clock entry),
             w_String (ve_parent_version_id entry),
             w_U8 (if ve_deleted_at_ms entry \<noteq> None then 1 else 0)] @
             (case ve_deleted_at_ms entry of None \<Rightarrow> [] | Some t \<Rightarrow> [w_U64 t])))"

definition EncodeVersionedManifest :: "VersionedManifest \<Rightarrow> bytes result" where
  "EncodeVersionedManifest manifest =
     (if 1000000 < length (vm_entries manifest)
      then Inl (Invalid_argument ''too many versioned manifest entries'')
      else take_writer ([w_U64 (vm_revision manifest),
             w_U32 (word_of_nat (length (vm_entries manifest)))] @
             map w_VersionedEntry (vm_entries manifest)))"

definition r_DeletedAt :: "u64 option reader" where
  "r_DeletedAt = bindR r_U8 (\<lambda>has_deleted_at.
     if 1 < has_deleted_at then throwR (Invalid_argument ''invalid tombstone timestamp flag'')
     else if has_deleted_at = 1 then bindR r_U64 (\<lambda>t. returnR (Some t))
     else returnR None)"

definition r_VersionedEntry :: "VersionedManifestEntry reader" where
  "r_VersionedEntry =
     bindR r_String (\<lambda>path. bindR r_U8 (\<lambda>raw_kind. bindR r_U64 (\<lambda>size. bindR r_String (\<lambda>hash.
     bindR r_String (\<lambda>version. bindR r_String (\<lambda>origin. bindR r_U64 (\<lambda>clock.
     bindR r_String (\<lambda>parent. bindR r_DeletedAt (\<lambda>deleted_at.
     case Kind_cast raw_kind of
       None \<Rightarrow> throwR (Invalid_argument ''invalid versioned manifest entry'')
     | Some kind \<Rightarrow>
        let entry = \<lparr>ve_relative_path = path, ve_kind = kind, ve_size = size, ve_content_hash = hash,
          ve_version_id = version, ve_origin_device_id = origin, ve_logical_clock = clock,
          ve_parent_version_id = parent, ve_deleted_at_ms = deleted_at\<rparr> in
        if InvalidVersionedEntry entry
        then throwR (Invalid_argument ''invalid versioned manifest entry'')
        else returnR entry)))))))))"

definition DecodeVersionedManifest :: "bytes \<Rightarrow> VersionedManifest result" where
  "DecodeVersionedManifest = run_reader
     (bindR r_U64 (\<lambda>revision. bindR r_U32 (\<lambda>count.
      if 1000000 < count then throwR (Invalid_argument ''too many versioned manifest entries'') else
      bindR (r_times (unat count) r_VersionedEntry) (\<lambda>entries.
      bindR r_Finish (\<lambda>_. returnR \<lparr>vm_revision = revision, vm_entries = entries\<rparr>)))))"

definition EncodeChunk :: "Chunk \<Rightarrow> bytes result" where
  "EncodeChunk chunk =
     (if kLogicalChunkSize < length (chunk_bytes chunk)
      then Inl (Invalid_argument ''chunk exceeds logical chunk size'')
      else take_writer [w_Bytes (chunk_transfer_id chunk), w_Bytes (chunk_file_hash chunk),
             w_U64 (chunk_offset chunk), w_U32 (word_of_nat (length (chunk_bytes chunk))),
             w_Bytes (chunk_chunk_hash chunk), w_Bytes (chunk_bytes chunk)])"

definition EncodeChunkFrame :: "Chunk \<Rightarrow> u64 \<Rightarrow> bytes result" where
  "EncodeChunkFrame chunk request_id =
     (if kLogicalChunkSize < length (chunk_bytes chunk)
      then Inl (Invalid_argument ''chunk exceeds logical chunk size'')
      else let payload_size = length (chunk_transfer_id chunk) + length (chunk_file_hash chunk) + 8 + 4 +
             length (chunk_chunk_hash chunk) + length (chunk_bytes chunk) in
           take_writer [w_U8 86, w_U8 83, w_U8 kProtocolVersion, w_U8 (FrameType_code kChunk),
             w_U64 request_id, w_U32 (word_of_nat payload_size),
             w_Bytes (chunk_transfer_id chunk), w_Bytes (chunk_file_hash chunk),
             w_U64 (chunk_offset chunk), w_U32 (word_of_nat (length (chunk_bytes chunk))),
             w_Bytes (chunk_chunk_hash chunk), w_Bytes (chunk_bytes chunk)])"

definition DecodeChunk :: "(bytes \<Rightarrow> bytes) \<Rightarrow> bytes \<Rightarrow> Chunk result" where
  "DecodeChunk blake3 = run_reader
     (bindR (r_Bytes 16) (\<lambda>transfer_id. bindR (r_Bytes 32) (\<lambda>file_hash. bindR r_U64 (\<lambda>offset.
      bindR r_U32 (\<lambda>len.
      if kLogicalChunkSize < unat len then throwR (Invalid_argument ''chunk too large'') else
      bindR (r_Bytes 32) (\<lambda>chunk_hash. bindR (r_Bytes (unat len)) (\<lambda>bytes.
      bindR r_Finish (\<lambda>_.
      if blake3 bytes \<noteq> chunk_hash then throwR (Invalid_argument ''chunk hash mismatch'')
      else returnR \<lparr>chunk_transfer_id = transfer_id, chunk_file_hash = file_hash,
        chunk_offset = offset, chunk_chunk_hash = chunk_hash, chunk_bytes = bytes\<rparr>))))))))"

text \<open>
  The range check of both directions; \<^verbatim>\<open>std::numeric_limits<std::uint64_t>::max()\<close> is the word with
  every bit set.
\<close>

definition InvalidRange :: "u64 \<Rightarrow> ChunkRange \<Rightarrow> bool" where
  "InvalidRange previous_end rg \<longleftrightarrow>
     chunk_count rg = 0 \<or> first_chunk rg < previous_end \<or>
     0xFFFFFFFFFFFFFFFF - first_chunk rg < ucast (chunk_count rg)"

fun w_ranges :: "u64 \<Rightarrow> ChunkRange list \<Rightarrow> bytes result" where
  "w_ranges previous_end [] = Inr []"
| "w_ranges previous_end (rg # ranges) =
     (if InvalidRange previous_end rg then Inl (Invalid_argument ''invalid missing range'')
      else take_writer [w_U64 (first_chunk rg), w_U32 (chunk_count rg),
             w_ranges (first_chunk rg + ucast (chunk_count rg)) ranges])"

definition EncodeFileRequest :: "FileRequest \<Rightarrow> bytes result" where
  "EncodeFileRequest request =
     (if missing_ranges request = [] \<or> 1000000 < length (missing_ranges request)
      then Inl (Invalid_argument ''invalid missing ranges'')
      else take_writer [w_Bytes (request_transfer_id request), w_Bytes (request_file_hash request),
             w_U32 (word_of_nat (length (missing_ranges request))),
             w_ranges 0 (missing_ranges request)])"

fun r_ranges :: "nat \<Rightarrow> u64 \<Rightarrow> ChunkRange list reader" where
  "r_ranges 0 previous_end = returnR []"
| "r_ranges (Suc n) previous_end =
     bindR r_U64 (\<lambda>first. bindR r_U32 (\<lambda>len.
     let rg = \<lparr>first_chunk = first, chunk_count = len\<rparr> in
     if InvalidRange previous_end rg then throwR (Invalid_argument ''invalid missing range'')
     else bindR (r_ranges n (first + ucast len)) (\<lambda>ranges. returnR (rg # ranges))))"

definition DecodeFileRequest :: "bytes \<Rightarrow> FileRequest result" where
  "DecodeFileRequest = run_reader
     (bindR (r_Bytes 16) (\<lambda>transfer_id. bindR (r_Bytes 32) (\<lambda>file_hash. bindR r_U32 (\<lambda>count.
      if count = 0 \<or> 1000000 < count then throwR (Invalid_argument ''invalid missing ranges'') else
      bindR (r_ranges (unat count) 0) (\<lambda>ranges.
      bindR r_Finish (\<lambda>_. returnR \<lparr>request_transfer_id = transfer_id,
        request_file_hash = file_hash, missing_ranges = ranges\<rparr>))))))"

definition EncodeCancel :: "Cancel \<Rightarrow> bytes result" where
  "EncodeCancel cancel =
     (if cancel_reason cancel = [] then Inl (Invalid_argument ''cancel reason is required'')
      else take_writer [w_Bytes (cancel_transfer_id cancel), w_String (cancel_reason cancel)])"

definition DecodeCancel :: "bytes \<Rightarrow> Cancel result" where
  "DecodeCancel = run_reader
     (bindR (r_Bytes 16) (\<lambda>transfer_id. bindR r_String (\<lambda>reason.
      if reason = [] then throwR (Invalid_argument ''cancel reason is required'')
      else bindR r_Finish (\<lambda>_. returnR \<lparr>cancel_transfer_id = transfer_id,
        cancel_reason = reason\<rparr>))))"

end
