(* ===== verification/Protocol_Codec.thy ===== *)
theory Protocol_Codec
  imports Protocol
begin

text \<open>
  What the wire format promises.  The locale \<open>codec\<close> is the contract that the sync nodes rely on: a
  payload decodes to a message exactly when the message is admissible and encodes to that payload.
  It is interpreted for the frame envelope and for every payload codec of \<^verbatim>\<open>protocol.cpp\<close>.
\<close>

section \<open>The codec interface\<close>

locale codec =
  fixes encode :: "'m \<Rightarrow> bytes result"
    and decode :: "bytes \<Rightarrow> 'm result"
    and admissible :: "'m \<Rightarrow> bool"
  assumes decode_iff: "decode w = Inr m \<longleftrightarrow> admissible m \<and> encode m = Inr w"
begin

lemma round_trip: "admissible m \<Longrightarrow> encode m = Inr w \<Longrightarrow> decode w = Inr m"
  by (simp add: decode_iff)

lemma decoded_admissible: "decode w = Inr m \<Longrightarrow> admissible m"
  by (simp add: decode_iff)

lemma canonical: "decode v = Inr m \<Longrightarrow> decode w = Inr m \<Longrightarrow> v = w"
  by (simp add: decode_iff)

lemma unambiguous:
  "admissible m \<Longrightarrow> admissible n \<Longrightarrow> encode m = Inr w \<Longrightarrow> encode n = Inr w \<Longrightarrow> m = n"
  by (metis round_trip sum.inject(2))

lemma rejects_iff: "(\<exists>e. decode w = Inl e) \<longleftrightarrow> (\<forall>m. admissible m \<longrightarrow> encode m \<noteq> Inr w)"
proof -
  have "(\<exists>e. decode w = Inl e) \<longleftrightarrow> (\<forall>m. decode w \<noteq> Inr m)"
    by (cases "decode w") auto
  then show ?thesis by (simp add: decode_iff)
qed

end

section \<open>Enumerations on the wire\<close>

lemma word8_cases13:
  fixes t :: u8
  assumes "1 \<le> t" "t \<le> 13"
  shows "t \<in> {1, 2, 3, 4, 5, 6, 7, 8, 9, 10, 11, 12, 13}"
proof -
  have "1 \<le> unat t" "unat t \<le> 13" using assms by (simp_all add: word_le_nat_alt)
  then have "unat t \<in> set [1, 2, 3, 4, 5, 6, 7, 8, 9, 10, 11, 12, 13]" by (simp, arith)
  then have "word_of_nat (unat t) \<in> (word_of_nat :: nat \<Rightarrow> u8) ` set [1, 2, 3, 4, 5, 6, 7, 8, 9, 10, 11, 12, 13]"
    by (rule imageI)
  then show ?thesis by simp
qed

lemma ValidType_code [simp]: "ValidType (FrameType_code t)"
  by (cases t) (simp_all add: ValidType_def)

lemma FrameType_cast_code [simp]: "FrameType_cast (FrameType_code t) = Some t"
  by (cases t) (simp_all add: FrameType_cast_def all_frame_types_def)

lemma ValidType_ex: "ValidType b \<longleftrightarrow> (\<exists>t. b = FrameType_code t)"
proof
  assume "ValidType b"
  then have "b \<in> {1, 2, 3, 4, 5, 6, 7, 8, 9, 10, 11, 12, 13, 64, 65, 66}"
    using word8_cases13 [of b] by (auto simp: ValidType_def)
  then show "\<exists>t. b = FrameType_code t"
    by (elim insertE emptyE) (metis FrameType_code.simps)+
qed auto

lemma Role_cast_iff [reader_iff]: "Role_cast b = Some r \<longleftrightarrow> b = Role_code r"
  by (cases r) (auto simp: Role_cast_def)

lemma Kind_cast_iff [reader_iff]: "Kind_cast b = Some k \<longleftrightarrow> b = Kind_code k"
  by (cases k) (auto simp: Kind_cast_def)

lemma cast_code [simp]: "Role_cast (Role_code r) = Some r" "Kind_cast (Kind_code k) = Some k"
  by (simp_all add: Role_cast_iff Kind_cast_iff)

section \<open>Interpretations\<close>

subsection \<open>The frame envelope\<close>

lemma DecodeFrame_eq: "DecodeFrame wire = DecodeFrameView wire"
  by (cases "DecodeFrameView wire") (auto simp: DecodeFrame_def)

lemma EncodeFrame_iff:
  "EncodeFrame f = Inr w \<longleftrightarrow> length (frame_payload f) \<le> kMaxFrameSize - kFrameHeaderSize \<and>
     w = [86, 83, 1, FrameType_code (frame_type f)] @ le_bytes 8 (frame_request_id f) @
         le_bytes 4 (word_of_nat (length (frame_payload f)) :: u32) @ frame_payload f"
  by (auto simp: EncodeFrame_def writer_iff result_iff kProtocolVersion_def)

lemma DecodeFrameView_sound: "DecodeFrameView w = Inr f \<Longrightarrow> EncodeFrame f = Inr w"
proof -
  assume "DecodeFrameView w = Inr f"
  then obtain t rid n rest where *: "16 \<le> length w" "length w \<le> kMaxFrameSize" "ValidType t"
      "w = [86, 83, 1, t] @ le_bytes 8 (rid :: u64) @ le_bytes 4 (n :: u32) @ rest"
      "unat n = length w - kFrameHeaderSize"
      "f = \<lparr>frame_type = the (FrameType_cast t), frame_request_id = rid,
           frame_payload = take (unat n) (drop kFrameHeaderSize w)\<rparr>"
    by (auto simp: DecodeFrameView_def reader_iff result_iff kFrameHeaderSize_def kProtocolVersion_def)
  from *(3) obtain ft where ft: "t = FrameType_code ft" by (auto simp: ValidType_ex)
  have d: "drop 16 w = rest" "length w = 16 + length rest" using *(4) by simp_all
  have len: "unat n = length rest" using *(5) d by (simp add: kFrameHeaderSize_def)
  then have n: "n = word_of_nat (length rest)" by (rule word_of_nat_eqI)
  have f: "f = \<lparr>frame_type = ft, frame_request_id = rid, frame_payload = rest\<rparr>"
    using *(6) ft d len by (simp add: kFrameHeaderSize_def)
  show "EncodeFrame f = Inr w"
    using *(2,4) d n ft by (simp add: EncodeFrame_iff f kFrameHeaderSize_def)
qed

lemma DecodeFrameView_complete: "EncodeFrame f = Inr w \<Longrightarrow> DecodeFrameView w = Inr f"
proof -
  assume "EncodeFrame f = Inr w"
  then have len: "length (frame_payload f) \<le> kMaxFrameSize - kFrameHeaderSize"
    and w: "w = [86, 83, 1, FrameType_code (frame_type f)] @ le_bytes 8 (frame_request_id f) @
         le_bytes 4 (word_of_nat (length (frame_payload f)) :: u32) @ frame_payload f"
    by (auto simp: EncodeFrame_iff)
  have "unat (word_of_nat (length (frame_payload f)) :: u32) = length (frame_payload f)"
    using len by (simp add: unat_of_nat kMaxFrameSize_def kFrameHeaderSize_def)
  then show "DecodeFrameView w = Inr f"
    using len w by (simp add: DecodeFrameView_def reader_run kFrameHeaderSize_def kMaxFrameSize_def
        kProtocolVersion_def)
qed

lemma DecodeFrameView_iff: "DecodeFrameView w = Inr f \<longleftrightarrow> EncodeFrame f = Inr w"
  using DecodeFrameView_sound DecodeFrameView_complete by blast

interpretation frame_codec: codec EncodeFrame DecodeFrame "\<lambda>_. True"
  by unfold_locales (simp add: DecodeFrame_eq DecodeFrameView_iff)

subsection \<open>Handshake, cancellation and ignore-policy messages\<close>

definition hello_admissible :: "Hello \<Rightarrow> bool" where
  "hello_admissible h \<longleftrightarrow> hello_task_id h \<noteq> [] \<and> hello_device_id h \<noteq> [] \<and>
     hello_authorization_digest h \<noteq> []"

lemma DecodeHello_iff: "DecodeHello w = Inr h \<longleftrightarrow> hello_admissible h \<and> EncodeHello h = Inr w"
proof
  assume "DecodeHello w = Inr h"
  then show "hello_admissible h \<and> EncodeHello h = Inr w"
    by (auto simp: DecodeHello_def EncodeHello_def hello_admissible_def reader_iff writer_iff
        split: option.splits)
next
  assume "hello_admissible h \<and> EncodeHello h = Inr w"
  then show "DecodeHello w = Inr h"
    by (auto simp: DecodeHello_def EncodeHello_def hello_admissible_def writer_iff reader_run)
qed

interpretation hello_codec: codec EncodeHello DecodeHello hello_admissible
  by unfold_locales (rule DecodeHello_iff)

definition cancel_admissible :: "Cancel \<Rightarrow> bool" where
  "cancel_admissible c \<longleftrightarrow> length (cancel_transfer_id c) = 16"

lemma DecodeCancel_iff: "DecodeCancel w = Inr c \<longleftrightarrow> cancel_admissible c \<and> EncodeCancel c = Inr w"
proof
  assume "DecodeCancel w = Inr c"
  then show "cancel_admissible c \<and> EncodeCancel c = Inr w"
    by (auto simp: DecodeCancel_def EncodeCancel_def cancel_admissible_def reader_iff writer_iff)
next
  assume "cancel_admissible c \<and> EncodeCancel c = Inr w"
  then show "DecodeCancel w = Inr c"
    by (auto simp: DecodeCancel_def EncodeCancel_def cancel_admissible_def writer_iff reader_run if_Inl_Inr_iff)
qed

interpretation cancel_codec: codec EncodeCancel DecodeCancel cancel_admissible
  by unfold_locales (rule DecodeCancel_iff)

lemma DecodeIgnorePolicy_iff: "DecodeIgnorePolicy w = Inr p \<longleftrightarrow> EncodeIgnorePolicy p = Inr w"
proof
  assume "DecodeIgnorePolicy w = Inr p"
  then show "EncodeIgnorePolicy p = Inr w"
    by (auto simp: DecodeIgnorePolicy_def EncodeIgnorePolicy_def reader_iff writer_iff)
next
  assume "EncodeIgnorePolicy p = Inr w"
  then show "DecodeIgnorePolicy w = Inr p"
    by (auto simp: DecodeIgnorePolicy_def EncodeIgnorePolicy_def writer_iff reader_run if_Inl_Inr_iff)
qed

interpretation policy_codec: codec EncodeIgnorePolicy DecodeIgnorePolicy "\<lambda>_. True"
  by unfold_locales (simp add: DecodeIgnorePolicy_iff)


subsection \<open>Manifests\<close>

definition manifest_admissible :: "Manifest \<Rightarrow> bool" where
  "manifest_admissible m \<longleftrightarrow> (\<forall>e \<in> set (manifest_entries m). me_relative_path e \<noteq> [])"

lemma r_ManifestEntry_iff:
  "r_ManifestEntry bs = Inr (e, rest) \<longleftrightarrow>
     me_relative_path e \<noteq> [] \<and> (\<exists>w. w_ManifestEntry e = Inr w \<and> bs = w @ rest)"
proof
  assume "r_ManifestEntry bs = Inr (e, rest)"
  then show "me_relative_path e \<noteq> [] \<and> (\<exists>w. w_ManifestEntry e = Inr w \<and> bs = w @ rest)"
    by (auto simp: r_ManifestEntry_def w_ManifestEntry_def reader_iff writer_iff)
next
  assume "me_relative_path e \<noteq> [] \<and> (\<exists>w. w_ManifestEntry e = Inr w \<and> bs = w @ rest)"
  then show "r_ManifestEntry bs = Inr (e, rest)"
    by (auto simp: r_ManifestEntry_def w_ManifestEntry_def writer_iff reader_run)
qed

lemma count32:
  assumes "n \<le> 1000000"
  shows "unat (word_of_nat n :: u32) = n" and "\<not> 1000000 < (word_of_nat n :: u32)"
proof -
  show n: "unat (word_of_nat n :: u32) = n" using assms by (simp add: unat_of_nat)
  then show "\<not> 1000000 < (word_of_nat n :: u32)" using assms by (simp add: word_less_nat_alt n)
qed

text \<open>
  Both manifest codecs are a revision, a count of at most a million and that many entries; the
  inversion is proved once for the shape they share.
\<close>

lemma counted_entries_iff:
  assumes r: "\<And>bs x rest. p bs = Inr (x, rest) \<longleftrightarrow> ok x \<and> (\<exists>w. enc x = Inr w \<and> bs = w @ rest)"
  shows "run_reader (bindR r_U64 (\<lambda>revision. bindR r_U32 (\<lambda>count.
      if 1000000 < count then throwR e else
      bindR (r_times (unat count) p) (\<lambda>entries.
      bindR r_Finish (\<lambda>_. returnR (mk revision entries)))))) w = Inr m \<longleftrightarrow>
    (\<exists>rev xs. m = mk rev xs \<and> length xs \<le> 1000000 \<and> (\<forall>x\<in>set xs. ok x) \<and>
       take_writer ([w_U64 rev, w_U32 (word_of_nat (length xs))] @ map enc xs) = Inr w)"
    (is "?L \<longleftrightarrow> ?R")
proof
  assume ?L
  then obtain rev n xs w' where *: "m = mk rev xs" "\<not> 1000000 < n"
      "w = le_bytes 8 (rev :: u64) @ le_bytes 4 (n :: u32) @ w'" "r_times (unat n) p w' = Inr (xs, [])"
    by (auto simp: reader_iff)
  from *(4) have x: "length xs = unat n" "\<forall>x\<in>set xs. ok x" "take_writer (map enc xs) = Inr w'"
    by (auto simp: r_times_iff [OF r])
  have "n = word_of_nat (length xs)" using x(1) by (intro word_of_nat_eqI) simp
  moreover have "length xs \<le> 1000000" using *(2) x(1) by (simp add: word_less_nat_alt)
  ultimately show ?R using * x by (auto simp: writer_iff)
next
  assume ?R
  then obtain rev xs where *: "m = mk rev xs" "length xs \<le> 1000000" "\<forall>x\<in>set xs. ok x"
      "take_writer ([w_U64 rev, w_U32 (word_of_nat (length xs))] @ map enc xs) = Inr w"
    by auto
  from *(4) obtain b where b: "take_writer (map enc xs) = Inr b"
      "w = le_bytes 8 rev @ le_bytes 4 (word_of_nat (length xs) :: u32) @ b"
    by (auto simp: writer_iff)
  have "r_times (length xs) p b = Inr (xs, [])"
    using * b(1) by (simp add: r_times_iff [OF r])
  then show ?L
    using * b(2) count32 [OF *(2)] by (simp add: reader_run)
qed

lemma DecodeManifest_iff:
  "DecodeManifest w = Inr m \<longleftrightarrow> manifest_admissible m \<and> EncodeManifest m = Inr w"
  unfolding DecodeManifest_def EncodeManifest_def manifest_admissible_def
  by (subst counted_entries_iff [where mk = "\<lambda>rev xs. \<lparr>manifest_revision = rev, manifest_entries = xs\<rparr>",
        OF r_ManifestEntry_iff]) (cases m, auto simp: if_Inl_Inr_iff)

interpretation manifest_codec: codec EncodeManifest DecodeManifest manifest_admissible
  by unfold_locales (rule DecodeManifest_iff)

lemma InvalidVersionedEntry_deleted:
  "\<not> InvalidVersionedEntry e \<Longrightarrow> (ve_kind e = vkTombstone) = (ve_deleted_at_ms e \<noteq> None)"
  by (auto simp: InvalidVersionedEntry_def Let_def)

lemma r_DeletedAt_iff [reader_iff]:
  "r_DeletedAt bs = Inr (d, rest) \<longleftrightarrow>
     (case d of None \<Rightarrow> bs = 0 # rest | Some t \<Rightarrow> bs = 1 # le_bytes 8 t @ rest)"
proof -
  have "f = 0 \<or> f = 1" if "\<not> 1 < f" for f :: u8
  proof -
    from that have "unat f = 0 \<or> unat f = 1" by (auto simp: word_less_nat_alt)
    then show ?thesis using word_of_nat_eqI [of f 0] word_of_nat_eqI [of f 1] by auto
  qed
  then show ?thesis
    by (auto simp: r_DeletedAt_def reader_iff split: option.splits if_splits)
      (rule exI [of _ 0], simp)
qed

lemma r_VersionedEntry_iff:
  "r_VersionedEntry bs = Inr (e, rest) \<longleftrightarrow> True \<and> (\<exists>w. w_VersionedEntry e = Inr w \<and> bs = w @ rest)"
proof (unfold simp_thms, rule iffI)
  assume "r_VersionedEntry bs = Inr (e, rest)"
  then show "\<exists>w. w_VersionedEntry e = Inr w \<and> bs = w @ rest"
    by (auto simp: r_VersionedEntry_def w_VersionedEntry_def reader_iff writer_iff Let_def
        split: option.splits)
next
  assume "\<exists>w. w_VersionedEntry e = Inr w \<and> bs = w @ rest"
  then show "r_VersionedEntry bs = Inr (e, rest)"
    by (cases e; cases "ve_deleted_at_ms e")
      (auto simp: r_VersionedEntry_def w_VersionedEntry_def r_DeletedAt_def writer_iff reader_run
        if_Inl_Inr_iff Let_def)
qed

lemma DecodeVersionedManifest_iff:
  "DecodeVersionedManifest w = Inr m \<longleftrightarrow> EncodeVersionedManifest m = Inr w"
  unfolding DecodeVersionedManifest_def EncodeVersionedManifest_def
  by (subst counted_entries_iff [where mk = "\<lambda>rev xs. \<lparr>vm_revision = rev, vm_entries = xs\<rparr>",
        OF r_VersionedEntry_iff]) (cases m, auto simp: if_Inl_Inr_iff)

interpretation versioned_manifest_codec: codec EncodeVersionedManifest DecodeVersionedManifest "\<lambda>_. True"
  by unfold_locales (simp add: DecodeVersionedManifest_iff)


subsection \<open>Chunks\<close>

text \<open>
  The fixed-size arrays of the C++ structure, and the digest check of the decoder.
\<close>

definition chunk_admissible :: "(bytes \<Rightarrow> bytes) \<Rightarrow> Chunk \<Rightarrow> bool" where
  "chunk_admissible blake3 c \<longleftrightarrow> length (chunk_transfer_id c) = 16 \<and> length (chunk_file_hash c) = 32 \<and>
     length (chunk_chunk_hash c) = 32 \<and> blake3 (chunk_bytes c) = chunk_chunk_hash c"

lemma DecodeChunk_sound:
  "DecodeChunk blake3 w = Inr c \<Longrightarrow> chunk_admissible blake3 c \<and> EncodeChunk c = Inr w"
  by (auto simp: DecodeChunk_def EncodeChunk_def chunk_admissible_def reader_iff writer_iff)

lemma DecodeChunk_complete:
  assumes "chunk_admissible blake3 c" and "EncodeChunk c = Inr w"
  shows "DecodeChunk blake3 w = Inr c"
proof -
  have "length (chunk_bytes c) \<le> kLogicalChunkSize"
    using assms(2) by (auto simp: EncodeChunk_def split: if_splits)
  then have "unat (word_of_nat (length (chunk_bytes c)) :: u32) = length (chunk_bytes c)"
    by (simp add: kLogicalChunkSize_def unat_of_nat)
  then show ?thesis
    using assms by (cases c)
      (auto simp: DecodeChunk_def EncodeChunk_def chunk_admissible_def writer_iff reader_run if_Inl_Inr_iff)
qed

interpretation chunk_codec: codec EncodeChunk "DecodeChunk blake3" "chunk_admissible blake3" for blake3
  by unfold_locales (blast intro: DecodeChunk_complete dest: DecodeChunk_sound)

text \<open>
  The single-buffer encoder of the upload path agrees with encoding the payload and wrapping it in a
  frame.
\<close>

lemma EncodeChunkFrame_eq:
  assumes "length (chunk_transfer_id c) = 16" "length (chunk_file_hash c) = 32" "length (chunk_chunk_hash c) = 32"
  shows "EncodeChunkFrame c rid = bindE (EncodeChunk c) (\<lambda>p.
    EncodeFrame \<lparr>frame_type = kChunk, frame_request_id = rid, frame_payload = p\<rparr>)"
proof (cases "kLogicalChunkSize < length (chunk_bytes c)")
  case True
  then show ?thesis by (simp add: EncodeChunkFrame_def EncodeChunk_def)
next
  case False
  then have "length (chunk_bytes c) \<le> 262144" by (simp add: kLogicalChunkSize_def)
  with False show ?thesis
    using assms by (simp add: EncodeChunkFrame_def EncodeChunk_def EncodeFrame_def take_writer.simps
        w_U8_def w_U32_def w_U64_def w_Bytes_def kMaxFrameSize_def kFrameHeaderSize_def ValidType_def)
qed

subsection \<open>File requests\<close>

definition request_admissible :: "FileRequest \<Rightarrow> bool" where
  "request_admissible r \<longleftrightarrow> length (request_transfer_id r) = 16 \<and> length (request_file_hash r) = 32"

lemma r_ranges_iff:
  "r_ranges n prev bs = Inr (rs, rest) \<longleftrightarrow> length rs = n \<and> (\<exists>w. w_ranges prev rs = Inr w \<and> bs = w @ rest)"
proof (induction n arbitrary: prev bs rs)
  case 0
  then show ?case by (auto simp: reader_iff)
next
  case (Suc n)
  have "r_ranges (Suc n) prev bs = Inr (rs, rest) \<longleftrightarrow> (\<exists>r rs' w. rs = r # rs' \<and> length rs' = n \<and>
      \<not> InvalidRange prev r \<and> w_ranges (first_chunk r + ucast (chunk_count r)) rs' = Inr w \<and>
      bs = le_bytes 8 (first_chunk r) @ le_bytes 4 (chunk_count r) @ w @ rest)" (is "?L \<longleftrightarrow> ?R")
  proof
    assume ?L
    then show ?R by (auto simp: reader_iff Let_def Suc.IH)
  next
    assume ?R
    then obtain r rs' w where *: "rs = r # rs'" "length rs' = n" "\<not> InvalidRange prev r"
      "w_ranges (first_chunk r + ucast (chunk_count r)) rs' = Inr w"
      "bs = le_bytes 8 (first_chunk r) @ le_bytes 4 (chunk_count r) @ w @ rest" by blast
    then have "r_ranges n (first_chunk r + ucast (chunk_count r)) (w @ rest) = Inr (rs', rest)"
      by (simp add: Suc.IH)
    with * show ?L by (cases r) (simp add: reader_run Let_def)
  qed
  also have "\<dots> \<longleftrightarrow> length rs = Suc n \<and> (\<exists>w. w_ranges prev rs = Inr w \<and> bs = w @ rest)"
    by (cases rs) (auto simp: writer_iff result_iff)
  finally show ?case .
qed

lemma DecodeFileRequest_iff:
  "DecodeFileRequest w = Inr r \<longleftrightarrow> request_admissible r \<and> EncodeFileRequest r = Inr w"
proof
  assume "DecodeFileRequest w = Inr r"
  then obtain tid fh n rs w' where *: "length tid = 16" "length fh = 32" "n \<noteq> 0" "\<not> 1000000 < n"
      "w = tid @ fh @ le_bytes 4 (n :: u32) @ w'" "length rs = unat n" "w_ranges 0 rs = Inr w'"
      "r = \<lparr>request_transfer_id = tid, request_file_hash = fh, missing_ranges = rs\<rparr>"
    by (auto simp: DecodeFileRequest_def reader_iff r_ranges_iff)
  have "n = word_of_nat (length rs)" using *(6) by (intro word_of_nat_eqI) simp
  moreover have "rs \<noteq> []" using *(3,6) by (auto simp: unat_eq_0)
  moreover have "length rs \<le> 1000000" using *(4,6) by (simp add: word_less_nat_alt)
  ultimately show "request_admissible r \<and> EncodeFileRequest r = Inr w"
    using * by (auto simp: EncodeFileRequest_def request_admissible_def writer_iff result_iff)
next
  assume a: "request_admissible r \<and> EncodeFileRequest r = Inr w"
  let ?rs = "missing_ranges r"
  from a obtain w' where *: "?rs \<noteq> []" "length ?rs \<le> 1000000" "w_ranges 0 ?rs = Inr w'"
      "w = request_transfer_id r @ request_file_hash r @ le_bytes 4 (word_of_nat (length ?rs) :: u32) @ w'"
    by (auto simp: EncodeFileRequest_def writer_iff result_iff)
  have "(word_of_nat (length ?rs) :: u32) \<noteq> 0"
    using count32(1) [OF *(2)] *(1) by (metis length_0_conv unsigned_0)
  moreover have "r_ranges (length ?rs) 0 w' = Inr (?rs, [])" using *(3) by (simp add: r_ranges_iff)
  ultimately show "DecodeFileRequest w = Inr r"
    using a * count32 [OF *(2)] by (simp add: DecodeFileRequest_def request_admissible_def reader_run)
qed

interpretation file_request_codec: codec EncodeFileRequest DecodeFileRequest request_admissible
  by unfold_locales (rule DecodeFileRequest_iff)

text \<open>
  The ranges that pass the check are non-empty, ordered and disjoint as ranges of natural numbers,
  and none of them runs past the last 64-bit chunk index.
\<close>

fun ordered_ranges :: "nat \<Rightarrow> ChunkRange list \<Rightarrow> bool" where
  "ordered_ranges prev [] = True"
| "ordered_ranges prev (r # rs) \<longleftrightarrow> 0 < unat (chunk_count r) \<and> prev \<le> unat (first_chunk r) \<and>
     unat (first_chunk r) + unat (chunk_count r) < 2 ^ 64 \<and>
     ordered_ranges (unat (first_chunk r) + unat (chunk_count r)) rs"

lemma InvalidRange_nat:
  "InvalidRange prev r \<longleftrightarrow> \<not> (0 < unat (chunk_count r) \<and> unat prev \<le> unat (first_chunk r) \<and>
     unat (first_chunk r) + unat (chunk_count r) < 2 ^ 64)"
proof -
  let ?f = "first_chunk r" and ?c = "chunk_count r"
  have "unat (0xFFFFFFFFFFFFFFFF - ?f) = 2 ^ 64 - 1 - unat ?f"
    by (subst unat_sub) (simp_all add: word_le_nat_alt, use unat_less_64 [of ?f] in simp)
  moreover have "unat ?f < 2 ^ 64" by (rule unat_less_64)
  moreover have "(?c = 0) = (unat ?c = 0)" by (simp add: unat_eq_0)
  ultimately show ?thesis
    by (auto simp: InvalidRange_def word_less_nat_alt not_less)
qed

lemma w_ranges_ordered: "(\<exists>w. w_ranges prev rs = Inr w) \<longleftrightarrow> ordered_ranges (unat prev) rs"
proof (induction rs arbitrary: prev)
  case Nil
  then show ?case by simp
next
  case (Cons r rs)
  have "unat (first_chunk r + ucast (chunk_count r)) = unat (first_chunk r) + unat (chunk_count r)"
    if "\<not> InvalidRange prev r"
    using that by (simp add: InvalidRange_nat unat_add_64)
  then show ?case
    using Cons.IH [of "first_chunk r + ucast (chunk_count r)"]
    by (cases "InvalidRange prev r") (auto simp: writer_iff InvalidRange_nat)
qed


section \<open>Properties of the wire format\<close>

text \<open>
  C3: the frame envelope is exact.  Decoding a byte string yields a frame if and only if encoding
  that frame yields the byte string: every accepted frame round-trips, each frame has one encoding,
  and every other byte string (bad magic, version, type, length or size) is rejected.
\<close>

theorem frame_envelope_exact: "DecodeFrame w = Inr f \<longleftrightarrow> EncodeFrame f = Inr w"
  using frame_codec.decode_iff by simp

text \<open>
  An encoded frame never exceeds the 16 MiB frame limit and carries exactly its payload behind
  the 16-byte header; encoding fails only for a payload that does not fit.
\<close>

theorem encoded_frame_size:
  "(case EncodeFrame f of
      Inr w \<Rightarrow> length w = kFrameHeaderSize + length (frame_payload f) \<and> length w \<le> kMaxFrameSize \<and>
        drop kFrameHeaderSize w = frame_payload f
    | Inl e \<Rightarrow> e = Invalid_argument ''invalid frame'' \<and>
        kMaxFrameSize < kFrameHeaderSize + length (frame_payload f))"
proof (cases "EncodeFrame f")
  case (Inl e)
  have "\<not> length (frame_payload f) \<le> kMaxFrameSize - kFrameHeaderSize"
    using Inl EncodeFrame_iff [of f] by fastforce
  with Inl show ?thesis by (simp add: EncodeFrame_def kMaxFrameSize_def kFrameHeaderSize_def)
next
  case (Inr w)
  then have "length (frame_payload f) \<le> kMaxFrameSize - kFrameHeaderSize \<and>
     w = [86, 83, 1, FrameType_code (frame_type f)] @ le_bytes 8 (frame_request_id f) @
         le_bytes 4 (word_of_nat (length (frame_payload f)) :: u32) @ frame_payload f"
    by (simp add: EncodeFrame_iff)
  with Inr show ?thesis by (auto simp: kMaxFrameSize_def kFrameHeaderSize_def)
qed

text \<open>
  The handshake, cancellation, ignore-policy and manifest payloads are exact in the same sense,
  with the field requirements of their decoders.
\<close>

theorem control_payloads_exact:
  "(DecodeHello w = Inr hello \<longleftrightarrow> hello_task_id hello \<noteq> [] \<and> hello_device_id hello \<noteq> [] \<and>
      hello_authorization_digest hello \<noteq> [] \<and> EncodeHello hello = Inr w) \<and>
   (DecodeCancel w = Inr cancel \<longleftrightarrow> length (cancel_transfer_id cancel) = 16 \<and> EncodeCancel cancel = Inr w) \<and>
   (DecodeIgnorePolicy w = Inr policy \<longleftrightarrow> EncodeIgnorePolicy policy = Inr w) \<and>
   (DecodeManifest w = Inr manifest \<longleftrightarrow>
      list_all (\<lambda>e. me_relative_path e \<noteq> []) (manifest_entries manifest) \<and> EncodeManifest manifest = Inr w)"
  using hello_codec.decode_iff [of w hello] cancel_codec.decode_iff [of w cancel]
    policy_codec.decode_iff [of w policy] manifest_codec.decode_iff [of w manifest]
  by (auto simp: hello_admissible_def cancel_admissible_def manifest_admissible_def list_all_iff)

text \<open>
  The versioned manifest payload is exact, and every entry that crosses the wire is well formed:
  a tombstone carries a deletion time and a live entry does not, only files have a content hash and a
  size, and path, version and origin are present.
\<close>

theorem versioned_manifest_exact:
  "(DecodeVersionedManifest w = Inr m \<longleftrightarrow> EncodeVersionedManifest m = Inr w) \<and>
   (DecodeVersionedManifest w = Inr m \<longrightarrow> length (vm_entries m) \<le> 1000000 \<and>
     (\<forall>e \<in> set (vm_entries m). ve_relative_path e \<noteq> [] \<and> ve_version_id e \<noteq> [] \<and>
        ve_origin_device_id e \<noteq> [] \<and>
        (ve_kind e = vkTombstone \<longleftrightarrow> ve_deleted_at_ms e \<noteq> None) \<and>
        (ve_kind e = vkFile \<longleftrightarrow> ve_content_hash e \<noteq> []) \<and>
        (ve_kind e \<noteq> vkFile \<longrightarrow> ve_size e = 0)))"
proof -
  have "\<not> InvalidVersionedEntry e" if "take_writer (map w_VersionedEntry es) = Inr b" "e \<in> set es" for es e b
    using that by (induction es arbitrary: b) (auto simp: writer_iff w_VersionedEntry_def if_Inl_Inr_iff)
  then show ?thesis
    by (auto simp: DecodeVersionedManifest_iff EncodeVersionedManifest_def if_Inl_Inr_iff writer_iff
        InvalidVersionedEntry_def Let_def)
qed

theorem versioned_manifest_exact_witness:
  "DecodeVersionedManifest [0, 0, 0, 0, 0, 0, 0, 0, 0, 0, 0, 0] = Inr \<lparr>vm_revision = 0, vm_entries = []\<rparr> \<and>
   length (vm_entries \<lparr>vm_revision = 0, vm_entries = []\<rparr>) \<le> 1000000"
proof -
  let ?m = "\<lparr>vm_revision = 0, vm_entries = []\<rparr> :: VersionedManifest"
  have "EncodeVersionedManifest ?m = Inr [0, 0, 0, 0, 0, 0, 0, 0, 0, 0, 0, 0]"
    by (simp add: EncodeVersionedManifest_def take_writer.simps w_U64_def w_U32_def le_bytes_def upt_rec)
  then show ?thesis using versioned_manifest_exact [of "[0, 0, 0, 0, 0, 0, 0, 0, 0, 0, 0, 0]" ?m] by blast
qed

text \<open>
  A chunk payload is accepted exactly when its digest is the BLAKE3 digest of its bytes, its
  identifiers have their fixed widths and it is the encoding of the chunk it yields.
\<close>

theorem chunk_payload_exact:
  "DecodeChunk blake3 w = Inr c \<longleftrightarrow>
     length (chunk_transfer_id c) = 16 \<and> length (chunk_file_hash c) = 32 \<and>
     length (chunk_chunk_hash c) = 32 \<and> blake3 (chunk_bytes c) = chunk_chunk_hash c \<and>
     EncodeChunk c = Inr w"
  using chunk_codec.decode_iff [of blake3 w c] by (auto simp: chunk_admissible_def)

text \<open>
  The one-buffer chunk-frame encoder of the upload path agrees with wrapping the encoded chunk in
  a frame, errors included, and never hits the frame limit.
\<close>

theorem chunk_frame_single_buffer:
  assumes "length (chunk_transfer_id c) = 16" "length (chunk_file_hash c) = 32"
    and "length (chunk_chunk_hash c) = 32"
  shows "EncodeChunkFrame c rid = bindE (EncodeChunk c) (\<lambda>payload.
    EncodeFrame \<lparr>frame_type = kChunk, frame_request_id = rid, frame_payload = payload\<rparr>)"
  using assms by (rule EncodeChunkFrame_eq)

theorem chunk_frame_single_buffer_witness:
  "let c = \<lparr>chunk_transfer_id = replicate 16 1, chunk_file_hash = replicate 32 2, chunk_offset = 0,
      chunk_chunk_hash = replicate 32 3, chunk_bytes = [7]\<rparr> in
   EncodeChunkFrame c 9 = bindE (EncodeChunk c) (\<lambda>payload.
     EncodeFrame \<lparr>frame_type = kChunk, frame_request_id = 9, frame_payload = payload\<rparr>)"
  unfolding Let_def by (rule chunk_frame_single_buffer) simp_all

text \<open>
  A file request is accepted exactly when it is the encoding of a request whose chunk ranges are
  between one and a million in number, non-empty, increasing, disjoint and inside the 64-bit index
  space; the 64-bit arithmetic of the check never wraps.
\<close>

theorem file_request_exact:
  "(DecodeFileRequest w = Inr r \<longleftrightarrow> length (request_transfer_id r) = 16 \<and>
      length (request_file_hash r) = 32 \<and> EncodeFileRequest r = Inr w) \<and>
   ((\<exists>w. EncodeFileRequest r = Inr w) \<longleftrightarrow> missing_ranges r \<noteq> [] \<and>
      length (missing_ranges r) \<le> 1000000 \<and> ordered_ranges 0 (missing_ranges r))"
proof -
  have "(\<exists>w. EncodeFileRequest r = Inr w) \<longleftrightarrow> missing_ranges r \<noteq> [] \<and>
      length (missing_ranges r) \<le> 1000000 \<and> (\<exists>w. w_ranges 0 (missing_ranges r) = Inr w)"
    by (auto simp: EncodeFileRequest_def writer_iff if_Inl_Inr_iff)
  with file_request_codec.decode_iff [of w r] w_ranges_ordered [of 0 "missing_ranges r"]
  show ?thesis by (auto simp: request_admissible_def)
qed

end
