(* ===== verification/Frame_Fragments.thy ===== *)
theory Frame_Fragments
  imports Protocol "HOL-Library.AList"
begin

text \<open>
  The DataChannel fragment envelope (\<^verbatim>\<open>engine/transport/frame_fragments.h\<close>,
  \<^verbatim>\<open>engine/transport/frame_fragments.cpp\<close>): splitting an encoded frame into messages of at most
  16 KiB, and the bounded, order-insensitive reassembly of one channel.  The state of a
  \<^verbatim>\<open>FrameReassembler\<close> is its pending map (an association list with distinct keys) and its byte
  counter; \<open>Accept\<close> takes the reading of the steady clock, in nanoseconds, as an argument and
  returns the state it leaves behind on every path, because expiry and insertion survive a later
  throw.
\<close>

section \<open>Fragmenting\<close>

definition kHeader :: nat where "kHeader = 20"
definition kFragmentPayloadSize :: nat where "kFragmentPayloadSize = 16 * 1024 - 20"

definition WriteLE :: "u64 \<Rightarrow> nat \<Rightarrow> bytes" where
  "WriteLE value n = le_bytes n value"

definition ReadLE :: "bytes \<Rightarrow> u64" where
  "ReadLE input = le_read 0 0 input"

definition make_fragment :: "u64 \<Rightarrow> bytes \<Rightarrow> nat \<Rightarrow> bytes" where
  "make_fragment ident wire offset =
     (let size = min kFragmentPayloadSize (length wire - offset) in
      [86, 70, 2, 0] @ WriteLE ident 8 @ WriteLE (word_of_nat (length wire)) 4 @
      WriteLE (word_of_nat offset) 4 @ take size (drop offset wire))"

function fragments_from :: "u64 \<Rightarrow> bytes \<Rightarrow> nat \<Rightarrow> bytes list" where
  "fragments_from ident wire offset =
     (if offset < length wire
      then make_fragment ident wire offset # fragments_from ident wire (offset + kFragmentPayloadSize)
      else [])"
  by pat_completeness auto
termination
  by (relation "measure (\<lambda>(ident, wire, offset). length wire - offset)")
    (auto simp: kFragmentPayloadSize_def)

declare fragments_from.simps [simp del]

definition FragmentFrame :: "u64 \<Rightarrow> bytes \<Rightarrow> bytes list result" where
  "FragmentFrame ident wire =
     (if ident = 0 \<or> wire = [] \<or> kMaxFrameSize < length wire
      then Inl (Invalid_argument ''invalid fragment frame'')
      else Inr (fragments_from ident wire 0))"

section \<open>Reassembly\<close>

record Partial =
  partial_wire :: bytes
  partial_received :: "bool list"
  partial_count :: nat
  partial_touched :: int

record FrameReassembler =
  pending :: "(u64 \<times> Partial) list"
  pending_bytes_held :: nat

definition new_reassembler :: FrameReassembler where
  "new_reassembler = \<lparr>pending = [], pending_bytes_held = 0\<rparr>"

definition kReassemblyBudget :: nat where "kReassemblyBudget = 32 * 1024 * 1024"
definition kMaxPendingFrames :: nat where "kMaxPendingFrames = 32"
definition kExpiryNanoseconds :: int where "kExpiryNanoseconds = 60 * 1000000000"

record Fragment =
  fragment_id :: u64
  fragment_total :: nat
  fragment_offset :: nat
  fragment_payload :: bytes

text \<open>The header and range checks at the head of \<^verbatim>\<open>Accept\<close>.\<close>

definition parse_fragment :: "bytes \<Rightarrow> Fragment result" where
  "parse_fragment fragment =
     (if length fragment \<le> kHeader \<or> kHeader + kFragmentPayloadSize < length fragment \<or>
         fragment ! 0 \<noteq> 86 \<or> fragment ! 1 \<noteq> 70 \<or> fragment ! 2 \<noteq> 2 \<or> fragment ! 3 \<noteq> 0
      then Inl (Invalid_argument ''invalid DataChannel fragment'')
      else
       let ident = ReadLE (take 8 (drop 4 fragment));
           total = unat (ReadLE (take 4 (drop 12 fragment)));
           offset = unat (ReadLE (take 4 (drop 16 fragment))) in
       if ident = 0 \<or> total = 0 \<or> kMaxFrameSize < total \<or> total \<le> offset \<or>
          offset mod kFragmentPayloadSize \<noteq> 0 \<or>
          length fragment - kHeader \<noteq> min kFragmentPayloadSize (total - offset)
       then Inl (Invalid_argument ''invalid fragment range'')
       else Inr \<lparr>fragment_id = ident, fragment_total = total, fragment_offset = offset,
              fragment_payload = drop kHeader fragment\<rparr>)"

definition held_bytes :: "(u64 \<times> Partial) list \<Rightarrow> nat" where
  "held_bytes ps = sum_list (map (\<lambda>(_, p). length (partial_wire p)) ps)"

definition expired :: "int \<Rightarrow> Partial \<Rightarrow> bool" where
  "expired now p \<longleftrightarrow> kExpiryNanoseconds < now - partial_touched p"

definition expire_pending :: "int \<Rightarrow> FrameReassembler \<Rightarrow> FrameReassembler" where
  "expire_pending now r =
     r\<lparr>pending := filter (\<lambda>(_, p). \<not> expired now p) (pending r),
       pending_bytes_held := size_minus (pending_bytes_held r)
         (held_bytes (filter (\<lambda>(_, p). expired now p) (pending r)))\<rparr>"

definition fragment_slots :: "nat \<Rightarrow> nat" where
  "fragment_slots n = (n + kFragmentPayloadSize - 1) div kFragmentPayloadSize"

definition find_or_insert :: "int \<Rightarrow> Fragment \<Rightarrow> (FrameReassembler, Partial) op" where
  "find_or_insert now f r =
     (case map_of (pending r) (fragment_id f) of
        Some p \<Rightarrow> (Inr p, r)
      | None \<Rightarrow>
         if kMaxPendingFrames \<le> length (pending r) \<or>
            size_minus kReassemblyBudget (pending_bytes_held r) < fragment_total f
         then (Inl (Length_error ''per-channel reassembly budget exceeded''), r)
         else let p = \<lparr>partial_wire = replicate (fragment_total f) 0,
                    partial_received = replicate (fragment_slots (fragment_total f)) False,
                    partial_count = 0, partial_touched = now\<rparr> in
              (Inr p, r\<lparr>pending := AList.update (fragment_id f) p (pending r),
                        pending_bytes_held := size_plus (pending_bytes_held r) (fragment_total f)\<rparr>))"

text \<open>Storing the payload of a fragment, or comparing it with the bytes already stored.\<close>

definition store_fragment :: "int \<Rightarrow> Fragment \<Rightarrow> Partial \<Rightarrow> Partial result" where
  "store_fragment now f p =
     (let index = fragment_offset f div kFragmentPayloadSize; payload = fragment_payload f;
          offset = fragment_offset f in
      if length (partial_wire p) \<noteq> fragment_total f
      then Inl (Invalid_argument ''fragment total changed'')
      else if partial_received p ! index
      then if take (length payload) (drop offset (partial_wire p)) \<noteq> payload
           then Inl (Invalid_argument ''duplicate fragment changed bytes'')
           else Inr (p\<lparr>partial_touched := now\<rparr>)
      else Inr (p\<lparr>partial_wire := take offset (partial_wire p) @ payload @
                                 drop (offset + length payload) (partial_wire p),
                 partial_received := (partial_received p)[index := True],
                 partial_count := Suc (partial_count p),
                 partial_touched := now\<rparr>))"

definition finish_fragment :: "Fragment \<Rightarrow> Partial \<Rightarrow> (FrameReassembler, bytes option) op" where
  "finish_fragment f p r =
     (if partial_count p \<noteq> length (partial_received p)
      then (Inr None, r\<lparr>pending := AList.update (fragment_id f) p (pending r)\<rparr>)
      else (Inr (Some (partial_wire p)),
            r\<lparr>pending := AList.delete (fragment_id f) (pending r),
              pending_bytes_held := size_minus (pending_bytes_held r) (fragment_total f)\<rparr>))"

definition Accept :: "int \<Rightarrow> bytes \<Rightarrow> (FrameReassembler, bytes option) op" where
  "Accept now fragment =
     bindS (liftS (\<lambda>_. parse_fragment fragment)) (\<lambda>f.
     thenS (modifyS (expire_pending now))
     (bindS (find_or_insert now f) (\<lambda>p.
      bindS (liftS (\<lambda>_. store_fragment now f p)) (\<lambda>p'.
      finish_fragment f p'))))"

end
