(* ===== verification/Fragment_Reassembly.thy ===== *)
theory Fragment_Reassembly
  imports Frame_Fragments
begin

text \<open>
  Correctness of the fragment envelope: the fragments of a frame are well formed and bounded, the
  reassembler keeps its bookkeeping exact and its memory inside the channel budget whatever arrives,
  and the fragments of a frame arriving in any order, with repetitions, give back exactly the frame
  at the moment the last missing one arrives.
\<close>

lemma kFragmentPayloadSize_pos [simp]: "0 < kFragmentPayloadSize"
  by (simp add: kFragmentPayloadSize_def)

lemma slot_less_iff: "k < fragment_slots n \<longleftrightarrow> k * kFragmentPayloadSize < n"
proof -
  have "k < (n + kFragmentPayloadSize - 1) div kFragmentPayloadSize \<longleftrightarrow>
      Suc k * kFragmentPayloadSize \<le> n + kFragmentPayloadSize - 1"
    unfolding Suc_le_eq [symmetric] by (rule less_eq_div_iff_mult_less_eq) simp
  also have "\<dots> \<longleftrightarrow> k * kFragmentPayloadSize < n"
    using kFragmentPayloadSize_pos by (simp, linarith)
  finally show ?thesis by (simp add: fragment_slots_def)
qed

section \<open>The fragments of a frame\<close>

abbreviation nth_fragment :: "u64 \<Rightarrow> bytes \<Rightarrow> nat \<Rightarrow> bytes" where
  "nth_fragment ident wire k \<equiv> make_fragment ident wire (k * kFragmentPayloadSize)"

definition slot_bytes :: "bytes \<Rightarrow> nat \<Rightarrow> bytes" where
  "slot_bytes wire k = take kFragmentPayloadSize (drop (k * kFragmentPayloadSize) wire)"

lemma fragments_from_map:
  "fragments_from ident wire (k * kFragmentPayloadSize) =
     map (nth_fragment ident wire) [k..<fragment_slots (length wire)]"
proof (induction "fragment_slots (length wire) - k" arbitrary: k)
  case 0
  then have "\<not> k * kFragmentPayloadSize < length wire"
    by (simp add: slot_less_iff [symmetric])
  with 0 show ?case by (subst fragments_from.simps) simp
next
  case (Suc d)
  then have k: "k < fragment_slots (length wire)" by simp
  then have "k * kFragmentPayloadSize < length wire" by (simp add: slot_less_iff)
  then show ?case
    using Suc.hyps(1) [of "Suc k"] Suc.hyps(2) k
    by (subst fragments_from.simps) (simp add: upt_conv_Cons add.commute)
qed

lemma FragmentFrame_map:
  "FragmentFrame ident wire = Inr fs \<longleftrightarrow> ident \<noteq> 0 \<and> wire \<noteq> [] \<and> length wire \<le> kMaxFrameSize \<and>
     fs = map (nth_fragment ident wire) [0..<fragment_slots (length wire)]"
  using fragments_from_map [of ident wire 0] by (auto simp: FragmentFrame_def)

lemma concat_slots: "concat (map (slot_bytes wire) [k..<fragment_slots (length wire)]) = drop (k * kFragmentPayloadSize) wire"
proof (induction "fragment_slots (length wire) - k" arbitrary: k)
  case 0
  then have "\<not> k * kFragmentPayloadSize < length wire"
    by (simp add: slot_less_iff [symmetric])
  with 0 show ?case by simp
next
  case (Suc d)
  then have "[k..<fragment_slots (length wire)] = k # [Suc k..<fragment_slots (length wire)]"
    by (simp add: upt_conv_Cons)
  then show ?case
    using Suc.hyps(1) [of "Suc k"] Suc.hyps(2)
    by (simp add: slot_bytes_def) (metis append_take_drop_id drop_drop add.commute)
qed

lemma length_make_fragment:
  "length (make_fragment ident wire offset) = kHeader + min kFragmentPayloadSize (length wire - offset)"
  by (simp add: make_fragment_def WriteLE_def kHeader_def Let_def)

text \<open>A fragment that \<^verbatim>\<open>FragmentFrame\<close> emits passes the receiver's header and range checks.\<close>

lemma parse_nth_fragment:
  assumes "ident \<noteq> 0" "length wire \<le> kMaxFrameSize" "k < fragment_slots (length wire)"
  shows "parse_fragment (nth_fragment ident wire k) =
    Inr \<lparr>fragment_id = ident, fragment_total = length wire,
         fragment_offset = k * kFragmentPayloadSize, fragment_payload = slot_bytes wire k\<rparr>"
proof -
  let ?o = "k * kFragmentPayloadSize" and ?f = "nth_fragment ident wire k"
  have o: "?o < length wire" using assms(3) by (simp add: slot_less_iff)
  have small: "length wire \<le> 16777216" using assms(2) by (simp add: kMaxFrameSize_def)
  have u: "unat (word_of_nat n :: u64) = n" if "n \<le> 16777216" for n
    using that by (simp add: unat_of_nat)
  have rd: "unat (ReadLE (le_bytes 4 (word_of_nat n :: u64))) = n" if "n \<le> 16777216" for n
    using that by (simp add: ReadLE_def le_read_le_bytes_small u)
  have f: "?f = [86, 70, 2, 0] @ le_bytes 8 ident @ le_bytes 4 (word_of_nat (length wire) :: u64) @
      le_bytes 4 (word_of_nat ?o :: u64) @ slot_bytes wire k"
    by (simp add: make_fragment_def WriteLE_def Let_def slot_bytes_def min_def)
  have parts: "take 8 (drop 4 ?f) = le_bytes 8 ident" "take 4 (drop 12 ?f) = le_bytes 4 (word_of_nat (length wire) :: u64)"
      "take 4 (drop 16 ?f) = le_bytes 4 (word_of_nat ?o :: u64)" "drop 20 ?f = slot_bytes wire k"
      "?f ! 0 = 86" "?f ! 1 = 70" "?f ! 2 = 2" "?f ! 3 = 0"
    by (simp_all add: f)
  have len: "length ?f = 20 + min kFragmentPayloadSize (length wire - ?o)"
    by (simp add: length_make_fragment kHeader_def)
  have id: "ReadLE (le_bytes 8 ident) = ident" by (simp add: ReadLE_def)
  have rdo: "unat (ReadLE (le_bytes 4 (word_of_nat ?o :: u64))) = ?o" using o small by (intro rd) simp
  have rdt: "unat (ReadLE (le_bytes 4 (word_of_nat (length wire) :: u64))) = length wire"
    using small by (rule rd)
  show ?thesis
    unfolding parse_fragment_def Let_def kHeader_def parts len id rdo rdt
    using o assms by auto
qed

section \<open>Bookkeeping and the memory budget\<close>

definition partial_ok :: "Partial \<Rightarrow> bool" where
  "partial_ok p \<longleftrightarrow> 0 < length (partial_wire p) \<and> length (partial_wire p) \<le> kMaxFrameSize \<and>
     length (partial_received p) = fragment_slots (length (partial_wire p)) \<and>
     partial_count p = count_list (partial_received p) True"

definition partial_open :: "Partial \<Rightarrow> bool" where
  "partial_open p \<longleftrightarrow> partial_ok p \<and> partial_count p < length (partial_received p)"

definition reassembler_inv :: "FrameReassembler \<Rightarrow> bool" where
  "reassembler_inv r \<longleftrightarrow> distinct (map fst (pending r)) \<and>
     pending_bytes_held r = held_bytes (pending r) \<and>
     pending_bytes_held r \<le> kReassemblyBudget \<and> length (pending r) \<le> kMaxPendingFrames \<and>
     (\<forall>(ident, p) \<in> set (pending r). partial_open p)"

lemma held_bytes_filter:
  "held_bytes (filter (\<lambda>x. \<not> P x) ps) + held_bytes (filter P ps) = held_bytes ps"
  by (induction ps) (auto simp: held_bytes_def)

lemma held_bytes_update:
  assumes "distinct (map fst ps)" "map_of ps k = Some q" "length (partial_wire p) = length (partial_wire q)"
  shows "held_bytes (AList.update k p ps) = held_bytes ps"
  using assms by (induction ps) (auto simp: held_bytes_def split: if_splits)

lemma held_bytes_update_new:
  "map_of ps k = None \<Longrightarrow> held_bytes (AList.update k p ps) = held_bytes ps + length (partial_wire p)"
  by (induction ps) (auto simp: held_bytes_def split: if_splits)

lemma held_bytes_delete:
  assumes "distinct (map fst ps)" "map_of ps k = Some p"
  shows "held_bytes (AList.delete k ps) + length (partial_wire p) = held_bytes ps"
  using assms
proof (induction ps)
  case Nil
  then show ?case by simp
next
  case (Cons x ps)
  show ?case
  proof (cases "fst x = k")
    case True
    with Cons.prems have "k \<notin> fst ` set ps" by auto
    then have "AList.delete k ps = ps" by simp
    with True Cons.prems show ?thesis by (cases x) (simp add: held_bytes_def)
  next
    case False
    with Cons show ?thesis by (cases x) (auto simp: held_bytes_def)
  qed
qed

lemma update_length_known: "map_of ps k = Some q \<Longrightarrow> length (AList.update k p ps) = length ps"
  by (induction ps) (auto split: if_splits)

lemma update_length_new: "map_of ps k = None \<Longrightarrow> length (AList.update k p ps) = Suc (length ps)"
  by (induction ps) (auto split: if_splits)

lemma set_update_subset: "set (AList.update k p ps) \<subseteq> insert (k, p) (set ps)"
  by (induction ps) auto

lemma set_delete_subset: "set (AList.delete k ps) \<subseteq> set ps"
  by (simp add: AList.delete_eq)

lemma count_list_update_True:
  "i < length bs \<Longrightarrow> \<not> bs ! i \<Longrightarrow> count_list (bs[i := True]) True = Suc (count_list bs True)"
proof (induction bs arbitrary: i)
  case (Cons b bs)
  then show ?case by (cases i) auto
qed simp

lemma count_list_True_le: "count_list bs True \<le> length bs"
  by (rule count_le_length)

lemma reassembler_inv_new: "reassembler_inv new_reassembler"
  by (simp add: reassembler_inv_def new_reassembler_def held_bytes_def)

lemma distinct_map_filter: "distinct (map f xs) \<Longrightarrow> distinct (map f (filter P xs))"
  by (induction xs) auto

lemma budget_minus: "b \<le> a \<Longrightarrow> a \<le> kReassemblyBudget \<Longrightarrow> size_minus a b = a - b"
  by (rule size_minus_exact) (simp_all add: kReassemblyBudget_def)

lemma budget_plus: "a \<le> kReassemblyBudget \<Longrightarrow> b \<le> kMaxFrameSize \<Longrightarrow> size_plus a b = a + b"
  by (rule size_plus_exact) (simp add: kReassemblyBudget_def kMaxFrameSize_def)

lemma expire_inv: "reassembler_inv r \<Longrightarrow> reassembler_inv (expire_pending now r)"
  using held_bytes_filter [of "\<lambda>(_, p). expired now p" "pending r"]
    budget_minus [of "held_bytes (filter (\<lambda>(_, p). expired now p) (pending r))" "held_bytes (pending r)"]
  by (auto simp: reassembler_inv_def expire_pending_def case_prod_unfold distinct_map_filter
      intro: le_trans [OF length_filter_le])


definition fragment_ok :: "Fragment \<Rightarrow> bool" where
  "fragment_ok f \<longleftrightarrow> 0 < fragment_total f \<and> fragment_total f \<le> kMaxFrameSize \<and>
     fragment_offset f < fragment_total f \<and> kFragmentPayloadSize dvd fragment_offset f \<and>
     length (fragment_payload f) = min kFragmentPayloadSize (fragment_total f - fragment_offset f)"

lemma parse_fragment_ok: "parse_fragment b = Inr f \<Longrightarrow> fragment_ok f"
  by (auto simp: parse_fragment_def fragment_ok_def Let_def mod_eq_0_iff_dvd split: if_splits)

lemma fragment_slot:
  assumes "fragment_ok f"
  shows "fragment_offset f = (fragment_offset f div kFragmentPayloadSize) * kFragmentPayloadSize"
    and "fragment_offset f div kFragmentPayloadSize < fragment_slots (fragment_total f)"
  using assms by (simp_all add: fragment_ok_def slot_less_iff)

lemma find_or_insert_inv:
  assumes inv: "reassembler_inv r" and f: "fragment_ok f" and res: "find_or_insert now f r = (x, r')"
  shows "reassembler_inv r'" and "x = Inr p \<Longrightarrow> map_of (pending r') (fragment_id f) = Some p"
proof -
  have "reassembler_inv r' \<and> (x = Inr p \<longrightarrow> map_of (pending r') (fragment_id f) = Some p)"
  proof (cases "map_of (pending r) (fragment_id f)")
    case (Some q)
    with res inv show ?thesis by (auto simp: find_or_insert_def)
  next
    case None
    let ?p = "\<lparr>partial_wire = replicate (fragment_total f) 0,
       partial_received = replicate (fragment_slots (fragment_total f)) False,
       partial_count = 0, partial_touched = now\<rparr>"
    have "0 < fragment_slots (fragment_total f)"
      using f by (simp add: slot_less_iff fragment_ok_def)
    then have "partial_open ?p"
      using f by (simp add: partial_open_def partial_ok_def fragment_ok_def count_list_0_iff)
    then show ?thesis
      using res inv None f set_update_subset [of "fragment_id f" ?p "pending r"]
        budget_minus [of "pending_bytes_held r" kReassemblyBudget]
        budget_plus [of "pending_bytes_held r" "fragment_total f"]
      by (auto simp: find_or_insert_def reassembler_inv_def fragment_ok_def held_bytes_update_new update_length_new
          distinct_update update_conv' Let_def split: if_splits)
  qed
  then show "reassembler_inv r'" and "x = Inr p \<Longrightarrow> map_of (pending r') (fragment_id f) = Some p"
    by blast+
qed

lemma store_fragment_ok:
  assumes "fragment_ok f" "partial_ok p" "store_fragment now f p = Inr p'"
  shows "partial_ok p' \<and> length (partial_wire p') = length (partial_wire p) \<and>
    length (partial_wire p) = fragment_total f"
proof -
  let ?i = "fragment_offset f div kFragmentPayloadSize"
  have i: "?i < fragment_slots (fragment_total f)" using fragment_slot(2) [OF assms(1)] .
  show ?thesis
    using assms i unfolding store_fragment_def
    by (auto simp: partial_ok_def fragment_ok_def Let_def count_list_update_True split: if_splits)
qed

lemma finish_fragment_inv:
  assumes "reassembler_inv r" "map_of (pending r) (fragment_id f) = Some q"
    and "partial_ok p" "length (partial_wire p) = length (partial_wire q)"
    and "length (partial_wire q) = fragment_total f"
  shows "reassembler_inv (snd (finish_fragment f p r))"
proof -
  let ?ps = "pending r" and ?k = "fragment_id f"
  have d: "distinct (map fst ?ps)" using assms(1) by (simp add: reassembler_inv_def)
  have "partial_count p \<le> length (partial_received p)"
    using assms(3) count_list_True_le [of "partial_received p"] by (simp add: partial_ok_def)
  then show ?thesis
    using assms d set_update_subset [of ?k p ?ps] set_delete_subset [of ?k ?ps]
      held_bytes_delete [OF d assms(2)] length_delete_le [of ?k ?ps]
      budget_minus [of "fragment_total f" "pending_bytes_held r"]
    by (auto simp: finish_fragment_def reassembler_inv_def held_bytes_update update_length_known
        distinct_update distinct_delete partial_open_def)
qed

lemma Accept_inv: "reassembler_inv r \<Longrightarrow> reassembler_inv (snd (Accept now b r))"
proof (cases "parse_fragment b")
  case (Inl e)
  assume "reassembler_inv r"
  with Inl show ?thesis by (simp add: Accept_def op_defs)
next
  case (Inr f)
  assume "reassembler_inv r"
  then have r0: "reassembler_inv (expire_pending now r)" by (rule expire_inv)
  have f: "fragment_ok f" using Inr by (rule parse_fragment_ok)
  obtain x r1 where fi: "find_or_insert now f (expire_pending now r) = (x, r1)" by fastforce
  note r1 = find_or_insert_inv(1) [OF r0 f fi]
  show ?thesis
  proof (cases x)
    case (Inl e)
    with Inr fi r1 show ?thesis by (simp add: Accept_def op_defs)
  next
    case x: (Inr q)
    have q: "map_of (pending r1) (fragment_id f) = Some q" using find_or_insert_inv(2) [OF r0 f fi x] .
    then have "partial_ok q" using r1 by (auto simp: reassembler_inv_def partial_open_def dest!: map_of_SomeD)
    then show ?thesis
      using Inr fi x r1 q store_fragment_ok [OF f] finish_fragment_inv [OF r1 q]
      by (cases "store_fragment now f q") (auto simp: Accept_def op_defs)
  qed
qed


section \<open>Fragments in any order give back the frame\<close>

text \<open>\<open>covers W S p\<close>: the partial frame \<open>p\<close> holds the bytes of \<open>W\<close> in exactly the slots of \<open>S\<close>.\<close>

definition covers :: "bytes \<Rightarrow> nat set \<Rightarrow> Partial \<Rightarrow> bool" where
  "covers W S p \<longleftrightarrow> partial_ok p \<and> length (partial_wire p) = length W \<and>
     (\<forall>k < fragment_slots (length W). partial_received p ! k = (k \<in> S)) \<and>
     (\<forall>i < length W. i div kFragmentPayloadSize \<in> S \<longrightarrow> partial_wire p ! i = W ! i)"

abbreviation slot_fragment :: "u64 \<Rightarrow> bytes \<Rightarrow> nat \<Rightarrow> Fragment" where
  "slot_fragment ident W k \<equiv> \<lparr>fragment_id = ident, fragment_total = length W,
     fragment_offset = k * kFragmentPayloadSize, fragment_payload = slot_bytes W k\<rparr>"

lemma nth_splice:
  assumes "offset + length pl \<le> length w" "i < length w"
  shows "(take offset w @ pl @ drop (offset + length pl) w) ! i =
    (if offset \<le> i \<and> i < offset + length pl then pl ! (i - offset) else w ! i)"
  using assms by (auto simp: nth_append min_def)

lemma length_slot_bytes: "length (slot_bytes W k) = min kFragmentPayloadSize (length W - k * kFragmentPayloadSize)"
  by (simp add: slot_bytes_def min.commute)

lemma slot_div: "i div kFragmentPayloadSize = k \<longleftrightarrow>
    k * kFragmentPayloadSize \<le> i \<and> i < k * kFragmentPayloadSize + kFragmentPayloadSize"
  using div_nat_eqI [of kFragmentPayloadSize k i] dividend_less_times_div [of kFragmentPayloadSize i]
  by (auto simp: mult.commute div_times_less_eq_dividend)

lemma slot_range:
  assumes "i < length W"
  shows "i div kFragmentPayloadSize = k \<longleftrightarrow>
    k * kFragmentPayloadSize \<le> i \<and> i < k * kFragmentPayloadSize + length (slot_bytes W k)"
  using assms by (auto simp: slot_div length_slot_bytes)

lemma slot_bytes_nth:
  assumes "i < length W" "i div kFragmentPayloadSize = k"
  shows "slot_bytes W k ! (i - k * kFragmentPayloadSize) = W ! i"
proof -
  have "k * kFragmentPayloadSize \<le> i" "i < k * kFragmentPayloadSize + kFragmentPayloadSize"
    using assms(2) by (simp_all add: slot_div)
  with assms(1) show ?thesis by (simp add: slot_bytes_def)
qed

lemma slot_end_le: "k < fragment_slots (length W) \<Longrightarrow> k * kFragmentPayloadSize + length (slot_bytes W k) \<le> length W"
  by (simp add: length_slot_bytes slot_less_iff)

lemma slot_fragment_ok:
  "k < fragment_slots (length W) \<Longrightarrow> length W \<le> kMaxFrameSize \<Longrightarrow> fragment_ok (slot_fragment ident W k)"
  by (auto simp: fragment_ok_def slot_less_iff length_slot_bytes)

lemma covers_slot:
  assumes "covers W S p" "k \<in> S" "k < fragment_slots (length W)"
  shows "take (length (slot_bytes W k)) (drop (k * kFragmentPayloadSize) (partial_wire p)) = slot_bytes W k"
proof (rule nth_equalityI)
  show "length (take (length (slot_bytes W k)) (drop (k * kFragmentPayloadSize) (partial_wire p))) = length (slot_bytes W k)"
    using assms slot_end_le [OF assms(3)] by (simp add: covers_def)
next
  fix j
  assume "j < length (take (length (slot_bytes W k)) (drop (k * kFragmentPayloadSize) (partial_wire p)))"
  then have j: "j < length (slot_bytes W k)" by simp
  let ?i = "k * kFragmentPayloadSize + j"
  have i: "?i < length W" using j slot_end_le [OF assms(3)] by simp
  then have "?i div kFragmentPayloadSize = k" using j by (subst slot_range [OF i]) simp
  then show "take (length (slot_bytes W k)) (drop (k * kFragmentPayloadSize) (partial_wire p)) ! j = slot_bytes W k ! j"
    using slot_bytes_nth [OF i, of k] assms j i by (simp add: covers_def)
qed

lemma store_covers:
  assumes c: "covers W S p" and k: "k < fragment_slots (length W)" and W: "length W \<le> kMaxFrameSize"
  shows "\<exists>p'. store_fragment now (slot_fragment ident W k) p = Inr p' \<and> covers W (insert k S) p' \<and>
    partial_touched p' = now"
proof (cases "k \<in> S")
  case True
  with c k covers_slot [OF c True k] show ?thesis
    by (auto simp: store_fragment_def Let_def covers_def partial_ok_def insert_absorb)
next
  case False
  let ?pl = "slot_bytes W k" and ?o = "k * kFragmentPayloadSize"
  let ?p = "p\<lparr>partial_wire := take ?o (partial_wire p) @ ?pl @ drop (?o + length ?pl) (partial_wire p),
      partial_received := (partial_received p)[k := True],
      partial_count := Suc (partial_count p), partial_touched := now\<rparr>"
  have len: "length (partial_wire p) = length W" using c by (simp add: covers_def)
  have st: "store_fragment now (slot_fragment ident W k) p = Inr ?p"
    using c k False by (simp add: store_fragment_def Let_def covers_def)
  have ok: "partial_ok ?p"
    using store_fragment_ok [OF slot_fragment_ok [OF k W] _ st] c by (simp add: covers_def)
  have "length (partial_wire ?p) = length W"
    using store_fragment_ok [OF slot_fragment_ok [OF k W] _ st] c by (simp add: covers_def)
  moreover have "partial_wire ?p ! i = W ! i"
    if i: "i < length W" "i div kFragmentPayloadSize \<in> insert k S" for i
    using i c slot_bytes_nth [OF i(1)] slot_range [OF i(1), of k] slot_end_le [OF k]
    by (auto simp: nth_splice len covers_def)
  moreover have "partial_received ?p ! j = (j \<in> insert k S)" if "j < fragment_slots (length W)" for j
    using that c k by (auto simp: covers_def nth_list_update partial_ok_def)
  ultimately have "covers W (insert k S) ?p" using ok by (simp add: covers_def)
  with st show ?thesis by auto
qed

lemma count_list_full: "count_list bs True = length bs \<longleftrightarrow> (\<forall>i < length bs. bs ! i)"
proof (induction bs)
  case (Cons b bs)
  then show ?case using count_list_True_le [of bs] by (auto simp: All_less_Suc2)
qed simp

lemma covers_complete:
  assumes "covers W S p"
  shows "partial_count p = length (partial_received p) \<longleftrightarrow> {..<fragment_slots (length W)} \<subseteq> S"
    and "{..<fragment_slots (length W)} \<subseteq> S \<Longrightarrow> partial_wire p = W"
proof -
  show "partial_count p = length (partial_received p) \<longleftrightarrow> {..<fragment_slots (length W)} \<subseteq> S"
    using assms count_list_full [of "partial_received p"] by (auto simp: covers_def partial_ok_def)
next
  assume S: "{..<fragment_slots (length W)} \<subseteq> S"
  have "i div kFragmentPayloadSize < fragment_slots (length W)" if "i < length W" for i
    using that by (simp only: slot_less_iff) (meson div_times_less_eq_dividend le_less_trans)
  with S assms show "partial_wire p = W" by (intro nth_equalityI) (auto simp: covers_def)
qed


text \<open>
  \<open>tracking W ident S t r\<close>: the reassembler has seen the slots \<open>S\<close> of frame \<open>ident\<close>, the last of them
  at time \<open>t\<close>; before the first one there is room for the frame.
\<close>

definition tracking :: "bytes \<Rightarrow> u64 \<Rightarrow> nat set \<Rightarrow> int \<Rightarrow> FrameReassembler \<Rightarrow> bool" where
  "tracking W ident S t r \<longleftrightarrow> reassembler_inv r \<and>
     (if S = {} then map_of (pending r) ident = None \<and> length (pending r) < kMaxPendingFrames \<and>
        pending_bytes_held r + length W \<le> kReassemblyBudget
      else \<exists>p. map_of (pending r) ident = Some p \<and> covers W S p \<and> partial_touched p = t)"

lemma map_of_filter_keep:
  "distinct (map fst ps) \<Longrightarrow> map_of ps k = Some p \<Longrightarrow> P (k, p) \<Longrightarrow> map_of (filter P ps) k = Some p"
  by (induction ps) (auto split: if_splits)

lemma map_of_filter_None: "map_of ps k = None \<Longrightarrow> map_of (filter P ps) k = None"
  by (auto simp: map_of_eq_None_iff)

lemma expire_tracking:
  assumes "tracking W ident S t r" "S = {} \<or> now - t \<le> kExpiryNanoseconds"
  shows "tracking W ident S t (expire_pending now r)"
proof -
  have inv: "reassembler_inv r" and d: "distinct (map fst (pending r))"
    using assms(1) by (simp_all add: tracking_def reassembler_inv_def)
  show ?thesis
  proof (cases "S = {}")
    case True
    have "pending_bytes_held (expire_pending now r) \<le> pending_bytes_held r"
      using inv held_bytes_filter [of "\<lambda>(_, p). expired now p" "pending r"]
        budget_minus [of "held_bytes (filter (\<lambda>(_, p). expired now p) (pending r))" "held_bytes (pending r)"]
      by (simp add: reassembler_inv_def expire_pending_def)
    with True assms(1) expire_inv [OF inv] show ?thesis
      by (auto simp: tracking_def expire_pending_def map_of_filter_None
          intro: le_less_trans [OF length_filter_le])
  next
    case False
    with assms obtain p where p: "map_of (pending r) ident = Some p" "covers W S p" "partial_touched p = t"
      by (auto simp: tracking_def)
    have "\<not> expired now p" using False assms(2) p(3) by (simp add: expired_def)
    with p d False expire_inv [OF inv] show ?thesis
      by (auto simp: tracking_def expire_pending_def intro!: map_of_filter_keep)
  qed
qed

lemma covers_fresh:
  assumes "W \<noteq> []" "length W \<le> kMaxFrameSize"
  shows "covers W {} \<lparr>partial_wire = replicate (length W) 0,
    partial_received = replicate (fragment_slots (length W)) False,
    partial_count = 0, partial_touched = now\<rparr>"
  using assms by (simp add: covers_def partial_ok_def count_list_0_iff)

lemma find_tracking:
  assumes "tracking W ident S t r" "W \<noteq> []" "length W \<le> kMaxFrameSize"
  shows "\<exists>p r'. find_or_insert now (slot_fragment ident W k) r = (Inr p, r') \<and> covers W S p"
  using assms covers_fresh [of W now] budget_minus [of "pending_bytes_held r" kReassemblyBudget]
  by (cases "S = {}") (auto simp: tracking_def find_or_insert_def Let_def)

text \<open>One arriving fragment: the frame is complete exactly when no slot is missing.\<close>

lemma Accept_tracking:
  assumes tr: "tracking W ident S t r" and time: "S = {} \<or> now - t \<le> kExpiryNanoseconds"
    and W: "W \<noteq> []" "length W \<le> kMaxFrameSize" and "ident \<noteq> 0"
    and k: "k < fragment_slots (length W)"
  shows "if {..<fragment_slots (length W)} \<subseteq> insert k S
    then fst (Accept now (nth_fragment ident W k) r) = Inr (Some W)
    else fst (Accept now (nth_fragment ident W k) r) = Inr None \<and>
         tracking W ident (insert k S) now (snd (Accept now (nth_fragment ident W k) r))"
proof -
  let ?f = "slot_fragment ident W k" and ?b = "nth_fragment ident W k"
  have parse: "parse_fragment ?b = Inr ?f" using assms by (intro parse_nth_fragment) auto
  have tr0: "tracking W ident S t (expire_pending now r)" using tr time by (rule expire_tracking)
  then obtain p r1 where fi: "find_or_insert now ?f (expire_pending now r) = (Inr p, r1)" and p: "covers W S p"
    using find_tracking W by blast
  obtain p' where st: "store_fragment now ?f p = Inr p'" and p': "covers W (insert k S) p'" "partial_touched p' = now"
    using store_covers [OF p k W(2)] by blast
  have acc: "Accept now ?b r = finish_fragment ?f p' r1"
    by (simp add: Accept_def op_defs parse fi st)
  have "reassembler_inv (snd (Accept now ?b r))" using tr by (intro Accept_inv) (simp add: tracking_def)
  then show ?thesis
    using p' covers_complete [OF p'(1)]
    by (cases "{..<fragment_slots (length W)} \<subseteq> insert k S")
      (simp_all add: acc finish_fragment_def tracking_def update_conv')
qed

fun feed :: "FrameReassembler \<Rightarrow> (int \<times> bytes) list \<Rightarrow> bytes option result list" where
  "feed r [] = []"
| "feed r ((now, b) # evs) = fst (Accept now b r) # feed (snd (Accept now b r)) evs"

lemma feed_tracking:
  assumes "tracking W ident S t r" "S = {} \<or> fst (hd evs) - t \<le> kExpiryNanoseconds"
    and "W \<noteq> []" "length W \<le> kMaxFrameSize" "ident \<noteq> 0"
    and "evs \<noteq> []" "successively (\<lambda>a b. fst b - fst a \<le> kExpiryNanoseconds) evs"
    and "S \<union> snd ` set evs = {..<fragment_slots (length W)}" "snd (last evs) \<notin> S \<union> snd ` set (butlast evs)"
  shows "feed r (map (\<lambda>(now, k). (now, nth_fragment ident W k)) evs) =
    replicate (length evs - 1) (Inr None) @ [Inr (Some W)]"
  using assms
proof (induction evs arbitrary: S t r)
  case Nil
  then show ?case by simp
next
  case (Cons e evs)
  obtain now k where e: "e = (now, k)" by fastforce
  let ?n = "fragment_slots (length W)" and ?b = "nth_fragment ident W k"
  have k: "k < ?n" using Cons.prems(8) e by auto
  note acc = Accept_tracking [OF Cons.prems(1) _ Cons.prems(3,4,5) k, of now]
  show ?case
  proof (cases "evs = []")
    case True
    then have "{..<?n} \<subseteq> insert k S" using Cons.prems(8) e by auto
    then show ?thesis using acc Cons.prems(2) True e by simp
  next
    case False
    then have last: "snd (last evs) \<notin> insert k S \<union> snd ` set (butlast evs)" "last evs \<in> set evs"
      using Cons.prems(9) e by auto
    then have "\<not> {..<?n} \<subseteq> insert k S" using Cons.prems(8) e by auto
    then have step: "fst (Accept now ?b r) = Inr None" "tracking W ident (insert k S) now (snd (Accept now ?b r))"
      using acc Cons.prems(2) e by auto
    have succ: "fst (hd evs) - now \<le> kExpiryNanoseconds" "successively (\<lambda>a b. fst b - fst a \<le> kExpiryNanoseconds) evs"
      using Cons.prems(7) False e by (auto simp: successively_Cons)
    have "insert k S \<union> snd ` set evs = {..<?n}" using Cons.prems(8) e by auto
    with Cons.IH [OF step(2)] succ last Cons.prems(3,4,5) False
    have "feed (snd (Accept now ?b r)) (map (\<lambda>(now, k). (now, nth_fragment ident W k)) evs) =
        replicate (length evs - 1) (Inr None) @ [Inr (Some W)]" by blast
    then show ?thesis using False step(1) e by (cases evs) simp_all
  qed
qed


section \<open>Properties of the fragment envelope\<close>

text \<open>
  Fragmenting a frame yields fragments that each fit a 16 KiB DataChannel message, that the
  receiver parses back with the frame's identifier and total size, and whose payloads concatenate to
  the frame.
\<close>

theorem fragments_lossless:
  assumes "FragmentFrame ident wire = Inr fs"
  shows "concat (map (drop kHeader) fs) = wire \<and>
    (\<forall>f \<in> set fs. length f \<le> 16 * 1024 \<and>
       (\<exists>p. parse_fragment f = Inr p \<and> fragment_id p = ident \<and> fragment_total p = length wire))"
proof -
  let ?n = "fragment_slots (length wire)"
  have *: "ident \<noteq> 0" "length wire \<le> kMaxFrameSize" "fs = map (nth_fragment ident wire) [0..<?n]"
    using assms by (simp_all add: FragmentFrame_map)
  have "drop kHeader (nth_fragment ident wire k) = slot_bytes wire k" for k
    by (simp add: make_fragment_def WriteLE_def Let_def kHeader_def slot_bytes_def min_def)
  then have "concat (map (drop kHeader) fs) = wire"
    using concat_slots [of wire 0] by (simp add: *(3) comp_def)
  moreover have "length (nth_fragment ident wire k) \<le> 16 * 1024" for k
    by (simp add: length_make_fragment kHeader_def kFragmentPayloadSize_def min_def)
  ultimately show ?thesis using parse_nth_fragment [OF *(1,2)] *(3) by auto
qed

theorem fragments_lossless_witness:
  "concat (map (drop kHeader) (fragments_from 1 [7, 8] 0)) = [7, 8]"
proof -
  have "FragmentFrame 1 [7, 8] = Inr (fragments_from 1 [7, 8] 0)"
    by (simp add: FragmentFrame_def kMaxFrameSize_def)
  from fragments_lossless [OF this] show ?thesis by simp
qed

text \<open>A reassembler fed a sequence of byte strings, each with the clock reading at its arrival.\<close>

fun accept_all :: "FrameReassembler \<Rightarrow> (int \<times> bytes) list \<Rightarrow> FrameReassembler" where
  "accept_all r [] = r"
| "accept_all r ((now, b) # evs) = accept_all (snd (Accept now b r)) evs"

text \<open>
  Whatever byte strings arrive at whatever times, a reassembler started empty keeps its byte
  counter equal to the bytes it holds, at most 32 incomplete frames and at most 32 MiB; in particular
  its unsigned budget subtractions never wrap.
\<close>

theorem reassembly_bounded:
  "let r = accept_all new_reassembler evs in
   pending_bytes_held r = held_bytes (pending r) \<and> pending_bytes_held r \<le> kReassemblyBudget \<and>
   length (pending r) \<le> kMaxPendingFrames \<and> distinct (map fst (pending r))"
proof -
  have "reassembler_inv (accept_all r evs)" if "reassembler_inv r" for r
    using that by (induction r evs rule: accept_all.induct) (auto dest: Accept_inv)
  from this [OF reassembler_inv_new] show ?thesis by (simp add: reassembler_inv_def Let_def)
qed

text \<open>
  C4: the fragments of a frame may arrive in any order and with repetitions.  As long as consecutive
  arrivals are at most sixty seconds apart and the reassembler has room when the first one arrives,
  every arrival but the one that completes the frame yields nothing, and that one yields exactly the
  frame.
\<close>

theorem reassembly_any_order:
  assumes "reassembler_inv r" "map_of (pending r) ident = None" "length (pending r) < kMaxPendingFrames"
    and "pending_bytes_held r + length wire \<le> kReassemblyBudget"
    and "FragmentFrame ident wire = Inr fs"
    and "evs \<noteq> []" "successively (\<lambda>a b. fst b - fst a \<le> kExpiryNanoseconds) evs"
    and "snd ` set evs = {..<length fs}" "snd (last evs) \<notin> snd ` set (butlast evs)"
  shows "feed r (map (\<lambda>(now, k). (now, fs ! k)) evs) =
    replicate (length evs - 1) (Inr None) @ [Inr (Some wire)]"
proof -
  let ?n = "fragment_slots (length wire)"
  have *: "ident \<noteq> 0" "wire \<noteq> []" "length wire \<le> kMaxFrameSize"
      "fs = map (nth_fragment ident wire) [0..<?n]"
    using assms(5) by (simp_all add: FragmentFrame_map)
  have "tracking wire ident {} 0 r" using assms by (simp add: tracking_def)
  then have "feed r (map (\<lambda>(now, k). (now, nth_fragment ident wire k)) evs) =
      replicate (length evs - 1) (Inr None) @ [Inr (Some wire)]"
    using assms * by (intro feed_tracking [where S = "{}" and t = 0]) auto
  moreover have "fs ! k = nth_fragment ident wire k" if "(now, k) \<in> set evs" for now k
  proof -
    have "k \<in> {..<length fs}" using that assms(8) by (metis image_eqI snd_conv)
    then show ?thesis by (simp add: *(4))
  qed
  then have "map (\<lambda>(now, k). (now, fs ! k)) evs = map (\<lambda>(now, k). (now, nth_fragment ident wire k)) evs"
    by (intro map_cong) auto
  ultimately show ?thesis by (simp only:)
qed

theorem reassembly_any_order_witness:
  "let fs = fragments_from 5 (replicate 20000 1) 0 in
   feed new_reassembler [(0, fs ! 1), (10, fs ! 1), (20, fs ! 0)] =
     [Inr None, Inr None, Inr (Some (replicate 20000 1))]"
proof -
  let ?w = "replicate 20000 (1 :: byte)" and ?fs = "fragments_from 5 (replicate 20000 1) 0"
  let ?evs = "[(0, 1), (10, 1), (20, 0)] :: (int \<times> nat) list"
  have f: "FragmentFrame 5 ?w = Inr ?fs" by (simp add: FragmentFrame_def kMaxFrameSize_def)
  then have "length ?fs = 2"
    by (auto simp: FragmentFrame_map fragment_slots_def kFragmentPayloadSize_def)
  then have "feed new_reassembler (map (\<lambda>(now, k). (now, ?fs ! k)) ?evs) =
      replicate (length ?evs - 1) (Inr None) @ [Inr (Some ?w)]"
    by (intro reassembly_any_order [OF reassembler_inv_new _ _ _ f])
      (auto simp: new_reassembler_def kMaxPendingFrames_def kReassemblyBudget_def kExpiryNanoseconds_def)
  then show ?thesis by (simp add: numeral_2_eq_2)
qed

end
