(* ===== verification/Connection_State.thy ===== *)
theory Connection_State
  imports VS_Prelude
begin

text \<open>
  The connection state machine of a peer (\<^verbatim>\<open>engine/transport/connection_state.h\<close>,
  \<^verbatim>\<open>engine/transport/connection_state.cpp\<close>).  The observer is code of the caller: it is a function
  that may change an environment and may throw, and the state has already changed when it runs.
\<close>

datatype ConnectionState =
    csNew | csSignaling | csConnecting | csConnected | csReconnecting | csFailed | csClosed

fun IsValidTransition :: "ConnectionState \<Rightarrow> ConnectionState \<Rightarrow> bool" where
  "IsValidTransition csNew t = (t = csSignaling \<or> t = csClosed)"
| "IsValidTransition csSignaling t = (t = csConnecting \<or> t = csFailed \<or> t = csClosed)"
| "IsValidTransition csConnecting t =
     (t = csConnected \<or> t = csReconnecting \<or> t = csFailed \<or> t = csClosed)"
| "IsValidTransition csConnected t = (t = csReconnecting \<or> t = csFailed \<or> t = csClosed)"
| "IsValidTransition csReconnecting t = (t = csConnecting \<or> t = csFailed \<or> t = csClosed)"
| "IsValidTransition csFailed t = (t = csClosed)"
| "IsValidTransition csClosed t = False"

text \<open>An observer, with the environment \<open>'e\<close> that it may change.\<close>

type_synonym 'e Observer = "ConnectionState \<Rightarrow> ConnectionState \<Rightarrow> ('e, unit) op"

record 'e ConnectionStateMachine =
  csm_state :: ConnectionState
  csm_observer :: "'e Observer option"
  csm_env :: 'e

definition new_state_machine :: "'e Observer option \<Rightarrow> 'e \<Rightarrow> 'e ConnectionStateMachine" where
  "new_state_machine obs e = \<lparr>csm_state = csNew, csm_observer = obs, csm_env = e\<rparr>"

definition TransitionTo :: "ConnectionState \<Rightarrow> ('e ConnectionStateMachine, unit) op" where
  "TransitionTo t m =
     (if \<not> IsValidTransition (csm_state m) t
      then (Inl (Logic_error ''invalid peer connection state transition''), m)
      else
       let previous = csm_state m; m' = m\<lparr>csm_state := t\<rparr> in
       case csm_observer m' of
         None \<Rightarrow> (Inr (), m')
       | Some f \<Rightarrow> (case f previous t (csm_env m') of (r, e') \<Rightarrow> (r, m'\<lparr>csm_env := e'\<rparr>)))"

section \<open>Attempts and histories\<close>

text \<open>
  A run is a sequence of attempted transitions; an attempt that throws is caught by the caller and
  the machine goes on from the state it left.  The observer of interest records every notification.
\<close>

fun attempt_all :: "'e ConnectionStateMachine \<Rightarrow> ConnectionState list \<Rightarrow> 'e ConnectionStateMachine" where
  "attempt_all m [] = m"
| "attempt_all m (t # ts) = attempt_all (snd (TransitionTo t m)) ts"

definition recorder :: "(ConnectionState \<times> ConnectionState) list Observer" where
  "recorder a b log = (Inr (), log @ [(a, b)])"

inductive connection_path ::
  "ConnectionState \<Rightarrow> (ConnectionState \<times> ConnectionState) list \<Rightarrow> ConnectionState \<Rightarrow> bool" where
  path_nil: "connection_path s [] s"
| path_snoc: "connection_path s es a \<Longrightarrow> IsValidTransition a b \<Longrightarrow> connection_path s (es @ [(a, b)]) b"

inductive_simps connection_path_Nil [simp]: "connection_path s [] t"

lemma connection_path_closed: "connection_path csClosed es t \<Longrightarrow> es = [] \<and> t = csClosed"
  by (induction csClosed es t rule: connection_path.induct) auto

text \<open>What the states mean: signalling and connecting come before connected, and closed is final.\<close>

lemma path_edges: "connection_path s es t \<Longrightarrow> e \<in> set es \<Longrightarrow> IsValidTransition (fst e) (snd e)"
  by (induction rule: connection_path.induct) auto

lemma path_reached:
  assumes "connection_path csNew es t" and "t \<noteq> csNew"
  shows "\<exists>a. (a, t) \<in> set es \<and> IsValidTransition a t"
  using assms by (cases rule: connection_path.cases) auto

lemma valid_into:
  "IsValidTransition a csConnected \<longleftrightarrow> a = csConnecting"
  "IsValidTransition a csSignaling \<longleftrightarrow> a = csNew"
  "IsValidTransition a csConnecting \<longleftrightarrow> a = csSignaling \<or> a = csReconnecting"
  "IsValidTransition a csReconnecting \<longleftrightarrow> a = csConnecting \<or> a = csConnected"
  "\<not> IsValidTransition a csNew"
  "IsValidTransition a csClosed \<longleftrightarrow> a \<noteq> csClosed"
  by (cases a; simp)+

lemma path_established:
  assumes "connection_path csNew es t"
  shows "t \<in> {csConnecting, csConnected, csReconnecting} \<longrightarrow>
    (csNew, csSignaling) \<in> set es \<and> (csSignaling, csConnecting) \<in> set es"
    and "t = csSignaling \<longrightarrow> (csNew, csSignaling) \<in> set es"
  using assms by (induction csNew es t rule: connection_path.induct) (auto simp: valid_into)

lemma path_count_closed:
  assumes "connection_path csNew es t"
  shows "length (filter (\<lambda>e. snd e = csClosed) es) = (if t = csClosed then 1 else 0)"
  using assms by (induction csNew es t rule: connection_path.induct) (auto simp: valid_into)

lemma TransitionTo_recorder:
  assumes "csm_observer m = Some recorder"
  shows "TransitionTo t m =
    (if IsValidTransition (csm_state m) t
     then (Inr (), m\<lparr>csm_state := t, csm_env := csm_env m @ [(csm_state m, t)]\<rparr>)
     else (Inl (Logic_error ''invalid peer connection state transition''), m))"
  using assms by (simp add: TransitionTo_def recorder_def Let_def)

lemma attempt_all_path:
  assumes "csm_observer m = Some recorder" "connection_path csNew (csm_env m) (csm_state m)"
  shows "connection_path csNew (csm_env (attempt_all m ts)) (csm_state (attempt_all m ts))"
  using assms
proof (induction m ts rule: attempt_all.induct)
  case (2 m t ts)
  then show ?case
    using path_snoc [of csNew "csm_env m" "csm_state m" t] by (simp add: TransitionTo_recorder)
qed simp

text \<open>
  Whatever transitions a peer attempts, the notifications an observer receives form one
  unbroken chain of allowed steps from the new state to the current one; a connecting, connected or
  reconnecting peer was notified of signalling and then of connecting, and the closed state is
  notified exactly once, if the machine is closed, and never otherwise.
\<close>

theorem observer_history:
  "let m = attempt_all (new_state_machine (Some recorder) []) ts in
   connection_path csNew (csm_env m) (csm_state m) \<and>
   (csm_state m \<in> {csConnecting, csConnected, csReconnecting} \<longrightarrow>
      (csNew, csSignaling) \<in> set (csm_env m) \<and> (csSignaling, csConnecting) \<in> set (csm_env m)) \<and>
   length (filter (\<lambda>e. snd e = csClosed) (csm_env m)) = (if csm_state m = csClosed then 1 else 0)"
proof -
  let ?m = "attempt_all (new_state_machine (Some recorder) []) ts"
  have "connection_path csNew (csm_env ?m) (csm_state ?m)"
    by (rule attempt_all_path) (simp_all add: new_state_machine_def)
  then show ?thesis using path_established path_count_closed by (simp add: Let_def)
qed

theorem observer_history_witness:
  "csm_state (attempt_all (new_state_machine (Some recorder) []) [csSignaling, csConnected, csConnecting, csConnected])
     = csConnected \<and>
   (csSignaling, csConnecting) \<in> set (csm_env (attempt_all (new_state_machine (Some recorder) [])
      [csSignaling, csConnected, csConnecting, csConnected]))"
proof -
  have "csm_state (attempt_all (new_state_machine (Some recorder) []) [csSignaling, csConnected, csConnecting, csConnected])
     = csConnected"
    by (simp add: new_state_machine_def TransitionTo_def recorder_def)
  then show ?thesis
    using observer_history [of "[csSignaling, csConnected, csConnecting, csConnected]"]
    by (simp add: Let_def)
qed

end
