(* ===== verification/Send_Scheduler.thy ===== *)
theory Send_Scheduler
  imports Protocol "HOL-Library.Multiset"
begin

text \<open>
  The per-peer, byte-budgeted send scheduler (\<^verbatim>\<open>engine/transport/send_scheduler.h\<close>,
  \<^verbatim>\<open>engine/transport/send_scheduler.cpp\<close>): four FIFO queues, one per priority, and a byte counter.
  The locale \<open>send_queue\<close> states what a client of such a scheduler relies on; it is interpreted on
  the model of the class.
\<close>

section \<open>Model\<close>

datatype SendPriority = spControl | spManifest | spSmallFile | spBulk

fun SendPriority_index :: "SendPriority \<Rightarrow> nat" where
  "SendPriority_index spControl = 0"
| "SendPriority_index spManifest = 1"
| "SendPriority_index spSmallFile = 2"
| "SendPriority_index spBulk = 3"

record PendingSend =
  ps_channel :: Channel
  ps_priority :: SendPriority
  ps_wire :: bytes

record SendScheduler =
  ss_queues :: "PendingSend list list"
  ss_max_pending_bytes :: nat
  ss_resume_below_bytes :: nat
  ss_pending_bytes :: nat

definition new_SendScheduler :: "nat \<Rightarrow> nat \<Rightarrow> SendScheduler result" where
  "new_SendScheduler max_pending_bytes resume_below_bytes =
     (if max_pending_bytes = 0 \<or> max_pending_bytes \<le> resume_below_bytes
      then Inl (Invalid_argument ''send scheduler byte limits are invalid'')
      else Inr \<lparr>ss_queues = [[], [], [], []], ss_max_pending_bytes = max_pending_bytes,
             ss_resume_below_bytes = resume_below_bytes, ss_pending_bytes = 0\<rparr>)"

definition SendScheduler_Enqueue :: "PendingSend \<Rightarrow> SendScheduler \<Rightarrow> SendScheduler result" where
  "SendScheduler_Enqueue p s =
     (if ps_wire p = [] then Inl (Invalid_argument ''cannot schedule an empty frame'')
      else if size_minus (ss_max_pending_bytes s) (ss_pending_bytes s) < length (ps_wire p)
      then Inl (Length_error ''per-peer send budget exceeded'')
      else let i = SendPriority_index (ps_priority p) in
        Inr (s\<lparr>ss_pending_bytes := size_plus (ss_pending_bytes s) (length (ps_wire p)),
               ss_queues := (ss_queues s)[i := ss_queues s ! i @ [p]]\<rparr>))"

definition CanResume :: "nat \<Rightarrow> SendScheduler \<Rightarrow> bool" where
  "CanResume transport_buffered_bytes s \<longleftrightarrow> transport_buffered_bytes < ss_resume_below_bytes s"

fun pop_first :: "'a list list \<Rightarrow> ('a \<times> 'a list list) option" where
  "pop_first [] = None"
| "pop_first ([] # qs) = map_option (\<lambda>(x, qs'). (x, [] # qs')) (pop_first qs)"
| "pop_first ((x # xs) # qs) = Some (x, xs # qs)"

definition SendScheduler_Next :: "nat \<Rightarrow> SendScheduler \<Rightarrow> PendingSend option \<times> SendScheduler" where
  "SendScheduler_Next transport_buffered_bytes s =
     (if \<not> CanResume transport_buffered_bytes s then (None, s)
      else case pop_first (ss_queues s) of
        None \<Rightarrow> (None, s)
      | Some (p, qs) \<Rightarrow> (Some p, s\<lparr>ss_queues := qs,
           ss_pending_bytes := size_minus (ss_pending_bytes s) (length (ps_wire p))\<rparr>))"

section \<open>The interface\<close>

text \<open>
  The abstract queue is the list of waiting frames in the order in which they will leave.  A new
  frame goes behind every frame of its own or a more urgent priority.
\<close>

abbreviation urgency :: "PendingSend \<Rightarrow> nat" where
  "urgency p \<equiv> SendPriority_index (ps_priority p)"

definition insert_by_urgency :: "PendingSend \<Rightarrow> PendingSend list \<Rightarrow> PendingSend list" where
  "insert_by_urgency p ps =
     takeWhile (\<lambda>q. urgency q \<le> urgency p) ps @ p # dropWhile (\<lambda>q. urgency q \<le> urgency p) ps"

definition wire_total :: "PendingSend list \<Rightarrow> nat" where
  "wire_total ps = sum_list (map (\<lambda>p. length (ps_wire p)) ps)"

lemma wire_total_simps [simp]:
  "wire_total [] = 0"
  "wire_total (p # ps) = length (ps_wire p) + wire_total ps"
  "wire_total (ps @ qs) = wire_total ps + wire_total qs"
  by (simp_all add: wire_total_def)

lemma takeWhile_dropWhile_wire: "wire_total (takeWhile P ps) + wire_total (dropWhile P ps) = wire_total ps"
  by (metis takeWhile_dropWhile_id wire_total_simps(3))

lemma wire_total_insert [simp]: "wire_total (insert_by_urgency p ps) = length (ps_wire p) + wire_total ps"
  using takeWhile_dropWhile_wire [of "\<lambda>q. urgency q \<le> urgency p" ps]
  by (simp add: insert_by_urgency_def)


lemma sorted_insert_by_urgency:
  "sorted (map urgency ps) \<Longrightarrow> sorted (map urgency (insert_by_urgency p ps))"
proof (induction ps)
  case (Cons q ps)
  then show ?case
    by (auto simp: insert_by_urgency_def dest: set_takeWhileD set_dropWhileD)
qed (simp add: insert_by_urgency_def)

lemma filter_insert_by_urgency:
  assumes "sorted (map urgency ps)"
  shows "filter (\<lambda>q. k = urgency q) (insert_by_urgency p ps) =
    filter (\<lambda>q. k = urgency q) (ps @ [p])"
  using assms
proof (induction ps)
  case (Cons q ps)
  have "filter (\<lambda>x. k = urgency x) (q # ps) = []" if "\<not> urgency q \<le> urgency p" "k = urgency p"
    using that Cons.prems by (auto simp: filter_empty_conv)
  with Cons show ?case
    by (cases "urgency q \<le> urgency p") (auto simp: insert_by_urgency_def)
qed (simp add: insert_by_urgency_def)

lemma mset_insert_by_urgency: "mset (insert_by_urgency p ps) = mset (ps @ [p])"
proof -
  have "mset (takeWhile P ps) + mset (dropWhile P ps) = mset ps" for P :: "PendingSend \<Rightarrow> bool"
    by (metis mset_append takeWhile_dropWhile_id)
  then show ?thesis by (simp add: insert_by_urgency_def)
qed

text \<open>Taking frames until the queue is empty.\<close>

fun drain :: "('q \<Rightarrow> 'p option \<times> 'q) \<Rightarrow> nat \<Rightarrow> 'q \<Rightarrow> 'p list \<times> 'q" where
  "drain take_one 0 q = ([], q)"
| "drain take_one (Suc n) q =
     (case take_one q of
        (None, q') \<Rightarrow> ([], q')
      | (Some p, q') \<Rightarrow> (case drain take_one n q' of (ps, q'') \<Rightarrow> (p # ps, q'')))"

locale send_queue =
  fixes inv :: "'q \<Rightarrow> bool"
    and items :: "'q \<Rightarrow> PendingSend list"
    and enqueue :: "PendingSend \<Rightarrow> 'q \<Rightarrow> 'q result"
    and take_next :: "nat \<Rightarrow> 'q \<Rightarrow> PendingSend option \<times> 'q"
    and resumes :: "nat \<Rightarrow> 'q \<Rightarrow> bool"
  assumes items_sorted: "inv q \<Longrightarrow> sorted (map urgency (items q))"
    and enqueue_law: "inv q \<Longrightarrow> enqueue p q = Inr q' \<Longrightarrow>
      inv q' \<and> items q' = insert_by_urgency p (items q) \<and> resumes b q' = resumes b q"
    and next_blocked: "\<not> resumes b q \<Longrightarrow> take_next b q = (None, q)"
    and next_empty: "inv q \<Longrightarrow> items q = [] \<Longrightarrow> take_next b q = (None, q)"
    and next_head: "inv q \<Longrightarrow> resumes b q \<Longrightarrow> items q = p # ps \<Longrightarrow>
      \<exists>q'. take_next b q = (Some p, q') \<and> inv q' \<and> items q' = ps \<and> resumes b q'"
begin

lemma enqueue_all:
  assumes "foldE enqueue ps q = Inr q'" and "inv q" and "items q = []"
  shows "inv q' \<and> items q' = sort_key urgency ps \<and> resumes b q' = resumes b q"
  using assms(1)
proof (induction ps arbitrary: q' rule: rev_induct)
  case Nil
  then show ?case using assms by simp
next
  case (snoc p ps)
  from snoc.prems obtain r where r: "foldE enqueue ps q = Inr r" and p: "enqueue p r = Inr q'"
    by (auto simp: foldE_append result_iff)
  note ih = snoc.IH [OF r]
  have sorted: "sorted (map urgency (items r))" using ih items_sorted by blast
  have "sort_key urgency (ps @ [p]) = insert_by_urgency p (items r)"
  proof (rule properties_for_sort_key)
    show "mset (insert_by_urgency p (items r)) = mset (ps @ [p])"
      using ih by (simp add: mset_insert_by_urgency)
  next
    fix k
    have "filter (\<lambda>x. urgency k = urgency x) (sort_key urgency ps) =
        filter (\<lambda>x. urgency k = urgency x) ps"
      by (metis (mono_tags, lifting) filter_cong sort_key_stable)
    then show "filter (\<lambda>x. urgency k = urgency x) (insert_by_urgency p (items r)) =
        filter (\<lambda>x. urgency k = urgency x) (ps @ [p])"
      using ih filter_insert_by_urgency [OF sorted, of "urgency k" p] by simp
  next
    show "sorted (map urgency (insert_by_urgency p (items r)))"
      using sorted by (rule sorted_insert_by_urgency)
  qed
  then show ?case using ih enqueue_law [of r p q' b] p by simp
qed

lemma drain_items:
  assumes "inv q" "resumes b q"
  shows "\<exists>q'. drain (take_next b) (length (items q)) q = (items q, q') \<and> inv q' \<and> items q' = []"
  using assms
proof (induction "items q" arbitrary: q)
  case Nil
  then show ?case by (metis drain.simps(1) list.size(3))
next
  case (Cons p ps)
  obtain r where r: "take_next b q = (Some p, r)" "inv r" "items r = ps" "resumes b r"
    using next_head [OF Cons.prems Cons.hyps(2) [symmetric]] by blast
  obtain q' where "drain (take_next b) (length (items r)) r = (items r, q')" "inv q'" "items q' = []"
    using Cons.hyps(1) r by metis
  with r Cons.hyps(2) [symmetric] show ?case by auto
qed

text \<open>Accepted frames leave by priority, and in arrival order within a priority.\<close>

lemma drain_after_enqueue:
  assumes "foldE enqueue ps q = Inr q'" "inv q" "items q = []" "resumes b q"
  shows "\<exists>q''. drain (take_next b) (length ps) q' = (sort_key urgency ps, q'') \<and> inv q'' \<and> items q'' = []"
  using drain_items [of q' b] enqueue_all [OF assms(1-3), of b] assms(4) by (auto simp: length_sort)

end

section \<open>The scheduler provides the interface\<close>

definition scheduler_items :: "SendScheduler \<Rightarrow> PendingSend list" where
  "scheduler_items s = concat (ss_queues s)"

definition scheduler_inv :: "SendScheduler \<Rightarrow> bool" where
  "scheduler_inv s \<longleftrightarrow> length (ss_queues s) = 4 \<and>
     (\<forall>i < 4. \<forall>p \<in> set (ss_queues s ! i). urgency p = i \<and> ps_wire p \<noteq> []) \<and>
     ss_pending_bytes s = wire_total (scheduler_items s) \<and>
     ss_pending_bytes s \<le> ss_max_pending_bytes s \<and> ss_max_pending_bytes s < 2 ^ 64"

lemma four_queues: "length qs = 4 \<Longrightarrow> \<exists>a b c d. qs = [a, b, c, d]"
  by (auto simp: length_Suc_conv numeral_eq_Suc)

lemma all_less_4: "(\<forall>i < (4::nat). P i) \<longleftrightarrow> P 0 \<and> P 1 \<and> P 2 \<and> P 3"
proof -
  have "i < 4 \<longleftrightarrow> i = 0 \<or> i = 1 \<or> i = 2 \<or> i = 3" for i :: nat by linarith
  then show ?thesis by metis
qed

lemma scheduler_invE:
  assumes "scheduler_inv s"
  obtains a b c d where "ss_queues s = [a, b, c, d]"
    and "\<forall>p \<in> set a. urgency p = 0" "\<forall>p \<in> set b. urgency p = 1"
    and "\<forall>p \<in> set c. urgency p = 2" "\<forall>p \<in> set d. urgency p = 3"
  using assms four_queues [of "ss_queues s"] by (auto simp: scheduler_inv_def all_less_4)

lemma sorted_const: "\<forall>p \<in> set xs. f p = c \<Longrightarrow> sorted (map f xs)"
  by (induction xs) auto

lemma scheduler_items_sorted:
  assumes "scheduler_inv s"
  shows "sorted (map urgency (scheduler_items s))"
proof -
  obtain a b c d where q: "ss_queues s = [a, b, c, d]"
    and "\<forall>p \<in> set a. urgency p = 0" "\<forall>p \<in> set b. urgency p = 1"
    and "\<forall>p \<in> set c. urgency p = 2" "\<forall>p \<in> set d. urgency p = 3"
    using assms by (rule scheduler_invE)
  then show ?thesis
    by (auto simp: scheduler_items_def sorted_append sorted_const [where c = 0]
        sorted_const [where c = 1] sorted_const [where c = 2] sorted_const [where c = 3])
qed

lemma insert_into_blocks:
  assumes "\<forall>q \<in> set xs. urgency q \<le> urgency p" "\<forall>q \<in> set ys. urgency p < urgency q"
  shows "insert_by_urgency p (xs @ ys) = xs @ p # ys"
proof -
  have "takeWhile (\<lambda>q. urgency q \<le> urgency p) ys = []" "dropWhile (\<lambda>q. urgency q \<le> urgency p) ys = ys"
    using assms(2) by (cases ys; simp)+
  with assms(1) show ?thesis by (simp add: insert_by_urgency_def)
qed

lemma enqueue_items:
  assumes "scheduler_inv s" "SendScheduler_Enqueue p s = Inr s'"
  shows "scheduler_items s' = insert_by_urgency p (scheduler_items s)"
proof -
  obtain a b c d where q: "ss_queues s = [a, b, c, d]"
    and u: "\<forall>p \<in> set a. urgency p = 0" "\<forall>p \<in> set b. urgency p = 1"
      "\<forall>p \<in> set c. urgency p = 2" "\<forall>p \<in> set d. urgency p = 3"
    using assms(1) by (rule scheduler_invE)
  have "ss_queues s' = (ss_queues s)[urgency p := ss_queues s ! urgency p @ [p]]"
    using assms(2) by (auto simp: SendScheduler_Enqueue_def Let_def split: if_splits)
  then have s': "scheduler_items s' = concat ([a, b, c, d][urgency p := [a, b, c, d] ! urgency p @ [p]])"
    by (simp add: scheduler_items_def q)
  have s: "scheduler_items s = a @ b @ c @ d" by (simp add: scheduler_items_def q)
  show ?thesis
  proof (cases "ps_priority p")
    case spControl
    then show ?thesis using u by (simp add: s s' insert_into_blocks [of a p "b @ c @ d"] ball_Un)
  next
    case spManifest
    then show ?thesis
      using u insert_into_blocks [of "a @ b" p "c @ d"] by (simp add: s s' ball_Un)
  next
    case spSmallFile
    then show ?thesis
      using u insert_into_blocks [of "a @ b @ c" p d] by (simp add: s s' ball_Un numeral_2_eq_2)
  next
    case spBulk
    then show ?thesis
      using u insert_into_blocks [of "a @ b @ c @ d" p "[]"]
      by (simp add: s s' ball_Un numeral_3_eq_3)
  qed
qed

lemma Enqueue_accepts:
  assumes "scheduler_inv s"
  shows "(\<exists>s'. SendScheduler_Enqueue p s = Inr s') \<longleftrightarrow>
    ps_wire p \<noteq> [] \<and> wire_total (scheduler_items s) + length (ps_wire p) \<le> ss_max_pending_bytes s"
  using assms size_minus_exact [of "ss_pending_bytes s" "ss_max_pending_bytes s"]
  by (auto simp: SendScheduler_Enqueue_def scheduler_inv_def Let_def)

lemma urgency_less: "urgency p < 4"
  by (cases "ps_priority p") simp_all

lemma Enqueue_inv:
  assumes inv: "scheduler_inv s" and enq: "SendScheduler_Enqueue p s = Inr s'"
  shows "scheduler_inv s'"
proof -
  have acc: "ps_wire p \<noteq> []" "wire_total (scheduler_items s) + length (ps_wire p) \<le> ss_max_pending_bytes s"
    using Enqueue_accepts [OF inv, of p] enq by blast+
  have s': "s' = s\<lparr>ss_pending_bytes := ss_pending_bytes s + length (ps_wire p),
      ss_queues := (ss_queues s)[urgency p := ss_queues s ! urgency p @ [p]]\<rparr>"
    using enq acc inv size_plus_exact [of "ss_pending_bytes s" "length (ps_wire p)"]
    by (auto simp: SendScheduler_Enqueue_def scheduler_inv_def Let_def split: if_splits)
  have len: "length (ss_queues s) = 4" using inv by (simp add: scheduler_inv_def)
  have "\<forall>i < 4. \<forall>q \<in> set (ss_queues s' ! i). urgency q = i \<and> ps_wire q \<noteq> []"
    using inv acc(1) len urgency_less [of p] by (auto simp: s' scheduler_inv_def nth_list_update)
  moreover have "wire_total (scheduler_items s') = length (ps_wire p) + wire_total (scheduler_items s)"
    by (simp add: enqueue_items [OF inv enq])
  moreover have "length (ss_queues s') = 4" "ss_max_pending_bytes s' = ss_max_pending_bytes s"
    "ss_pending_bytes s' = ss_pending_bytes s + length (ps_wire p)"
    by (simp_all add: s' len)
  ultimately show ?thesis using inv acc(2) unfolding scheduler_inv_def [of s'] by (simp add: scheduler_inv_def [of s])
qed

lemma pop_first_None: "pop_first qs = None \<longleftrightarrow> concat qs = []"
  by (induction qs rule: pop_first.induct) auto

lemma pop_first_Some:
  assumes "pop_first qs = Some (x, qs')"
  shows "concat qs = x # concat qs' \<and> length qs' = length qs \<and>
    (\<forall>i < length qs. set (qs' ! i) \<subseteq> set (qs ! i))"
  using assms
proof (induction qs arbitrary: qs' rule: pop_first.induct)
  case (2 qs)
  then obtain qs'' where q: "pop_first qs = Some (x, qs'')" "qs' = [] # qs''" by auto
  note ih = "2.IH" [OF q(1)]
  have "set (qs' ! i) \<subseteq> set (([] # qs) ! i)" if "i < length ([] # qs)" for i
    using ih that q(2) by (cases i) auto
  with ih q(2) show ?case by simp
next
  case (3 x xs qs)
  then show ?case by (auto simp: nth_Cons split: nat.splits)
qed simp

lemma Next_head:
  assumes inv: "scheduler_inv s" and resume: "CanResume b s" and items: "scheduler_items s = p # ps"
  shows "\<exists>s'. SendScheduler_Next b s = (Some p, s') \<and> scheduler_inv s' \<and> scheduler_items s' = ps \<and>
    CanResume b s'"
proof -
  obtain qs' where pop: "pop_first (ss_queues s) = Some (p, qs')"
    and qs': "concat qs' = ps" "length qs' = length (ss_queues s)"
      "\<forall>i < length (ss_queues s). set (qs' ! i) \<subseteq> set (ss_queues s ! i)"
  proof -
    have "pop_first (ss_queues s) \<noteq> None" using items by (simp add: pop_first_None scheduler_items_def)
    then obtain x qs where x: "pop_first (ss_queues s) = Some (x, qs)" by auto
    from pop_first_Some [OF x] items have "x = p" "concat qs = ps" by (simp_all add: scheduler_items_def)
    with x pop_first_Some [OF x] that show thesis by blast
  qed
  let ?s' = "s\<lparr>ss_queues := qs', ss_pending_bytes := wire_total ps\<rparr>"
  have "size_minus (ss_pending_bytes s) (length (ps_wire p)) = wire_total ps"
    using inv items size_minus_exact [of "length (ps_wire p)" "ss_pending_bytes s"]
    by (simp add: scheduler_inv_def)
  then have "SendScheduler_Next b s = (Some p, ?s')"
    using resume pop by (simp add: SendScheduler_Next_def)
  moreover have "scheduler_inv ?s'"
    using inv qs' items by (fastforce simp: scheduler_inv_def scheduler_items_def)
  ultimately show ?thesis using qs'(1) resume by (simp add: scheduler_items_def CanResume_def)
qed

interpretation scheduler: send_queue scheduler_inv scheduler_items SendScheduler_Enqueue
  SendScheduler_Next CanResume
proof
  fix q assume "scheduler_inv q"
  then show "sorted (map urgency (scheduler_items q))" by (rule scheduler_items_sorted)
next
  fix q p q' b
  assume "scheduler_inv q" "SendScheduler_Enqueue p q = Inr q'"
  then show "scheduler_inv q' \<and> scheduler_items q' = insert_by_urgency p (scheduler_items q) \<and>
      CanResume b q' = CanResume b q"
    using Enqueue_inv enqueue_items
    by (auto simp: SendScheduler_Enqueue_def CanResume_def Let_def split: if_splits)
next
  fix b q
  show "\<not> CanResume b q \<Longrightarrow> SendScheduler_Next b q = (None, q)" by (simp add: SendScheduler_Next_def)
next
  fix q b assume "scheduler_items q = []"
  then show "SendScheduler_Next b q = (None, q)"
    using pop_first_None [of "ss_queues q"] by (simp add: SendScheduler_Next_def scheduler_items_def)
next
  fix q b p ps
  assume "scheduler_inv q" "CanResume b q" "scheduler_items q = p # ps"
  then show "\<exists>q'. SendScheduler_Next b q = (Some p, q') \<and> scheduler_inv q' \<and> scheduler_items q' = ps \<and>
    CanResume b q'"
    by (rule Next_head)
qed

lemma new_scheduler_inv:
  assumes "new_SendScheduler mx resume = Inr s" "mx < 2 ^ 64"
  shows "scheduler_inv s \<and> scheduler_items s = [] \<and> (CanResume b s \<longleftrightarrow> b < resume) \<and>
    ss_max_pending_bytes s = mx"
  using assms by (auto simp: new_SendScheduler_def scheduler_inv_def scheduler_items_def CanResume_def
      all_less_4 numeral_2_eq_2 numeral_3_eq_3 split: if_splits)

text \<open>
  C37: frames accepted by a fresh scheduler leave it, while the transport buffer is below the resume
  mark, in priority order and, within one priority, in the order in which they were enqueued; then
  the scheduler is empty and its byte counter is zero.
\<close>

theorem scheduler_priority_fifo:
  assumes "new_SendScheduler mx resume = Inr s0" "mx < 2 ^ 64" "buffered < resume"
    and "foldE SendScheduler_Enqueue ps s0 = Inr s"
  shows "\<exists>s'. drain (SendScheduler_Next buffered) (length ps) s =
      (sort_key (\<lambda>p. SendPriority_index (ps_priority p)) ps, s') \<and>
    ss_pending_bytes s' = 0 \<and> concat (ss_queues s') = []"
proof -
  have n: "scheduler_inv s0" "scheduler_items s0 = []" "CanResume buffered s0"
    using new_scheduler_inv [OF assms(1,2), of buffered] assms(3) by auto
  from scheduler.drain_after_enqueue [OF assms(4) n] obtain s' where
    "drain (SendScheduler_Next buffered) (length ps) s = (sort_key urgency ps, s')"
    "scheduler_inv s'" "scheduler_items s' = []"
    by blast
  then show ?thesis by (auto simp: scheduler_inv_def simp flip: scheduler_items_def)
qed

theorem scheduler_priority_fifo_witness:
  "\<exists>s'. drain (SendScheduler_Next 0) (Suc (Suc 0))
      \<lparr>ss_queues = [[\<lparr>ps_channel = kControl, ps_priority = spControl, ps_wire = [2]\<rparr>], [], [],
         [\<lparr>ps_channel = kBulk, ps_priority = spBulk, ps_wire = [1, 1]\<rparr>]],
       ss_max_pending_bytes = 8, ss_resume_below_bytes = 4, ss_pending_bytes = 3\<rparr> =
     ([\<lparr>ps_channel = kControl, ps_priority = spControl, ps_wire = [2]\<rparr>,
       \<lparr>ps_channel = kBulk, ps_priority = spBulk, ps_wire = [1, 1]\<rparr>], s') \<and>
     ss_pending_bytes s' = 0 \<and> concat (ss_queues s') = []"
  using scheduler_priority_fifo [of 8 4
      "\<lparr>ss_queues = [[], [], [], []], ss_max_pending_bytes = 8, ss_resume_below_bytes = 4, ss_pending_bytes = 0\<rparr>"
      0 "[\<lparr>ps_channel = kBulk, ps_priority = spBulk, ps_wire = [1, 1]\<rparr>,
          \<lparr>ps_channel = kControl, ps_priority = spControl, ps_wire = [2]\<rparr>]"]
  by (simp add: new_SendScheduler_def SendScheduler_Enqueue_def size_minus_def size_plus_def Let_def)

section \<open>Any interleaving of operations\<close>

datatype scheduler_call = CallEnqueue PendingSend | CallNext nat

fun scheduler_step :: "scheduler_call \<Rightarrow> SendScheduler \<Rightarrow> SendScheduler" where
  "scheduler_step (CallEnqueue p) s = (case SendScheduler_Enqueue p s of Inl _ \<Rightarrow> s | Inr s' \<Rightarrow> s')"
| "scheduler_step (CallNext b) s = snd (SendScheduler_Next b s)"

lemma scheduler_step_inv: "scheduler_inv s \<Longrightarrow> scheduler_inv (scheduler_step c s)"
proof (cases c)
  case (CallEnqueue p)
  assume "scheduler_inv s"
  with CallEnqueue show ?thesis by (auto split: sum.splits intro: Enqueue_inv)
next
  case (CallNext b)
  assume "scheduler_inv s"
  with CallNext show ?thesis
    by (cases "CanResume b s"; cases "scheduler_items s")
      (use Next_head [of s b] scheduler.next_empty scheduler.next_blocked in force)+
qed

lemma scheduler_step_max [simp]:
  "ss_max_pending_bytes (scheduler_step c s) = ss_max_pending_bytes s"
  by (cases c) (auto simp: SendScheduler_Enqueue_def SendScheduler_Next_def Let_def
      split: sum.splits option.splits if_splits)

lemma scheduler_run_inv:
  "scheduler_inv s \<Longrightarrow> scheduler_inv (fold scheduler_step cs s) \<and>
    ss_max_pending_bytes (fold scheduler_step cs s) = ss_max_pending_bytes s"
  by (induction cs arbitrary: s) (simp_all add: scheduler_step_inv)

text \<open>
  After any interleaving of enqueues, refused ones included, and polls, the byte counter equals
  the bytes that wait and stays within the budget, and a further frame is accepted exactly when it
  is not empty and fits into what is left of the budget: the unsigned subtraction never wraps.
\<close>

theorem scheduler_budget:
  assumes "new_SendScheduler mx resume = Inr s0" "mx < 2 ^ 64"
  shows "let s = fold scheduler_step cs s0; held = sum_list (map (\<lambda>p. length (ps_wire p)) (concat (ss_queues s))) in
    ss_pending_bytes s = held \<and> held \<le> mx \<and>
    ((\<exists>s'. SendScheduler_Enqueue p s = Inr s') \<longleftrightarrow>
       ps_wire p \<noteq> [] \<and> held + length (ps_wire p) \<le> mx)"
proof -
  have n: "scheduler_inv s0 \<and> ss_max_pending_bytes s0 = mx"
    using new_scheduler_inv [OF assms] by blast
  then have run: "scheduler_inv (fold scheduler_step cs s0)"
      "ss_max_pending_bytes (fold scheduler_step cs s0) = mx"
    using scheduler_run_inv [of s0 cs] by auto
  show ?thesis
    using run Enqueue_accepts [OF run(1), of p]
    by (simp add: Let_def scheduler_inv_def scheduler_items_def wire_total_def)
qed

theorem scheduler_budget_witness:
  "let s = fold scheduler_step [CallNext 0]
       \<lparr>ss_queues = [[], [], [], []], ss_max_pending_bytes = 8, ss_resume_below_bytes = 4, ss_pending_bytes = 0\<rparr>;
       held = sum_list (map (\<lambda>p. length (ps_wire p)) (concat (ss_queues s))) in
   ss_pending_bytes s = held \<and> held \<le> 8 \<and>
   ((\<exists>s'. SendScheduler_Enqueue \<lparr>ps_channel = kBulk, ps_priority = spBulk, ps_wire = [1]\<rparr> s = Inr s') \<longleftrightarrow>
      [1 :: byte] \<noteq> [] \<and> held + length [1 :: byte] \<le> 8)"
  using scheduler_budget [of 8 4
      "\<lparr>ss_queues = [[], [], [], []], ss_max_pending_bytes = 8, ss_resume_below_bytes = 4, ss_pending_bytes = 0\<rparr>"
      "[CallNext 0]" "\<lparr>ps_channel = kBulk, ps_priority = spBulk, ps_wire = [1]\<rparr>"]
  by (simp add: new_SendScheduler_def)

end
