(* ===== verification/Queued_Peer_Transport.thy ===== *)
theory Queued_Peer_Transport
  imports Protocol
begin

text \<open>
  The receive queue between the DataChannel callbacks and the engine thread
  (\<^verbatim>\<open>engine/transport/queued_peer_transport.h\<close>, \<^verbatim>\<open>engine/transport/queued_peer_transport.cpp\<close>), and
  the in-memory network pair of the tests (\<^verbatim>\<open>engine/transport/mock_transport.cpp\<close>).  The inner
  transport is the caller's: its send and pump operations are arguments, acting on a state
  \<open>'i\<close> of their own.  Callback and pump both hold the mutex, so an execution is a sequence of
  whole operations.
\<close>

section \<open>Queued transport\<close>

definition kReceiveBudget :: nat where "kReceiveBudget = 32 * 1024 * 1024"

type_synonym Received = "Channel \<times> bytes"

record 'i QueuedPeerTransport =
  qt_inner :: 'i
  qt_received :: "Received list"
  qt_bytes_sent :: u64
  qt_bytes_received :: u64
  qt_received_bytes :: nat
  qt_overflow :: bool

definition new_QueuedPeerTransport :: "'i option \<Rightarrow> 'i QueuedPeerTransport result" where
  "new_QueuedPeerTransport inner =
     (case inner of
        None \<Rightarrow> Inl (Invalid_argument ''queued peer transport requires an inner transport'')
      | Some i \<Rightarrow> Inr \<lparr>qt_inner = i, qt_received = [], qt_bytes_sent = 0, qt_bytes_received = 0,
           qt_received_bytes = 0, qt_overflow = False\<rparr>)"

text \<open>The callback that the constructor installs on the inner transport.\<close>

definition on_received :: "Channel \<Rightarrow> bytes \<Rightarrow> 'i QueuedPeerTransport \<Rightarrow> 'i QueuedPeerTransport" where
  "on_received channel wire q =
     (if size_minus kReceiveBudget (qt_received_bytes q) < length wire
      then q\<lparr>qt_overflow := True\<rparr>
      else q\<lparr>qt_received_bytes := size_plus (qt_received_bytes q) (length wire),
             qt_bytes_received := qt_bytes_received q + word_of_nat (length wire),
             qt_received := qt_received q @ [(channel, wire)]\<rparr>)"

definition QueuedPeerTransport_Send ::
  "(Channel \<Rightarrow> bytes \<Rightarrow> ('i, unit) op) \<Rightarrow> Channel \<Rightarrow> bytes \<Rightarrow> ('i QueuedPeerTransport, unit) op" where
  "QueuedPeerTransport_Send inner_Send channel wire q =
     (case inner_Send channel wire (qt_inner q) of
        (Inl e, i) \<Rightarrow> (Inl e, q\<lparr>qt_inner := i\<rparr>)
      | (Inr _, i) \<Rightarrow> (Inr (), q\<lparr>qt_inner := i,
           qt_bytes_sent := qt_bytes_sent q + word_of_nat (length wire)\<rparr>))"

text \<open>
  \<^verbatim>\<open>PumpReceived\<close> first pumps the inner transport, which may deliver further messages through the
  callback, then takes the whole queue under the lock and hands it to the callback outside it.
  The receiver is client code acting on a state \<open>'c\<close>; a throw leaves the rest of the batch undelivered.
\<close>

definition take_received :: "('i QueuedPeerTransport, Received list) op" where
  "take_received q =
     (if qt_overflow q then (Inl (Runtime_error ''per-peer receive budget exceeded''), q)
      else (Inr (qt_received q), q\<lparr>qt_received := [], qt_received_bytes := 0\<rparr>))"

definition PumpReceived ::
  "('i \<Rightarrow> unit result \<times> 'i \<times> Received list) \<Rightarrow> (Channel \<Rightarrow> bytes \<Rightarrow> ('c, unit) op) option \<Rightarrow>
   ('i QueuedPeerTransport \<times> 'c, unit) op" where
  "PumpReceived inner_Pump callback = (\<lambda>(q, c).
     case inner_Pump (qt_inner q) of
       (pumped, i, arrived) \<Rightarrow>
         let q1 = fold (\<lambda>(ch, w). on_received ch w) arrived (q\<lparr>qt_inner := i\<rparr>) in
         (case pumped of
            Inl e \<Rightarrow> (Inl e, (q1, c))
          | Inr _ \<Rightarrow>
             (case take_received q1 of
                (Inl e, q2) \<Rightarrow> (Inl e, (q2, c))
              | (Inr items, q2) \<Rightarrow>
                 (case callback of
                    None \<Rightarrow> (Inr (), (q2, c))
                  | Some f \<Rightarrow> (case forS (\<lambda>(ch, w). f ch w) items c of (r, c') \<Rightarrow> (r, (q2, c')))))))"

text \<open>A queue before its first message, over an inner transport without state.\<close>

definition idle_queue :: "unit QueuedPeerTransport" where
  "idle_queue = \<lparr>qt_inner = (), qt_received = [], qt_bytes_sent = 0, qt_bytes_received = 0,
     qt_received_bytes = 0, qt_overflow = False\<rparr>"

section \<open>Receive budget\<close>

definition received_size :: "Received list \<Rightarrow> nat" where
  "received_size rs = sum_list (map (length \<circ> snd) rs)"

lemma received_size_simps [simp]:
  "received_size [] = 0"
  "received_size (r # rs) = length (snd r) + received_size rs"
  "received_size (rs @ ss) = received_size rs + received_size ss"
  by (simp_all add: received_size_def)

definition queued_inv :: "'i QueuedPeerTransport \<Rightarrow> bool" where
  "queued_inv q \<longleftrightarrow> qt_received_bytes q = received_size (qt_received q) \<and>
     qt_received_bytes q \<le> kReceiveBudget"

lemma on_received_cases:
  assumes "queued_inv q"
  shows "on_received ch w q =
    (if kReceiveBudget < received_size (qt_received q) + length w then q\<lparr>qt_overflow := True\<rparr>
     else q\<lparr>qt_received_bytes := received_size (qt_received q) + length w,
       qt_bytes_received := qt_bytes_received q + word_of_nat (length w),
       qt_received := qt_received q @ [(ch, w)]\<rparr>)"
proof -
  have "size_minus kReceiveBudget (qt_received_bytes q) = kReceiveBudget - qt_received_bytes q"
    using assms by (intro size_minus_exact) (auto simp: queued_inv_def kReceiveBudget_def)
  moreover have "size_plus (qt_received_bytes q) (length w) = qt_received_bytes q + length w"
    if "length w \<le> kReceiveBudget"
    using assms that by (intro size_plus_exact) (auto simp: queued_inv_def kReceiveBudget_def)
  ultimately show ?thesis using assms by (auto simp: on_received_def queued_inv_def)
qed

lemma on_received_inv: "queued_inv q \<Longrightarrow> queued_inv (on_received ch w q)"
  by (auto simp: on_received_cases) (auto simp: queued_inv_def)

text \<open>
  Until the first overflow the queue is exactly what arrived, in order; an overflow is reached
  exactly when the bytes waiting exceed the budget.
\<close>

lemma arrivals_queue:
  assumes "queued_inv q" "received_size (qt_received q) + received_size rs \<le> kReceiveBudget"
  shows "qt_received (fold (\<lambda>(ch, w). on_received ch w) rs q) = qt_received q @ rs \<and>
    qt_overflow (fold (\<lambda>(ch, w). on_received ch w) rs q) = qt_overflow q \<and>
    queued_inv (fold (\<lambda>(ch, w). on_received ch w) rs q)"
  using assms
proof (induction rs arbitrary: q)
  case (Cons r rs)
  obtain ch w where r: "r = (ch, w)" by fastforce
  have q': "queued_inv (on_received ch w q)" using Cons.prems(1) by (rule on_received_inv)
  have "qt_received (on_received ch w q) = qt_received q @ [(ch, w)]"
      "qt_overflow (on_received ch w q) = qt_overflow q"
    using Cons.prems by (auto simp: on_received_cases r)
  then show ?case using Cons.IH [OF q'] Cons.prems by (simp add: r)
qed simp

lemma overflow_sticks:
  "qt_overflow q \<Longrightarrow> qt_overflow (fold (\<lambda>(ch, w). on_received ch w) rs q)"
  by (induction rs arbitrary: q) (auto simp: on_received_def split: prod.splits)

lemma overflow_final:
  fixes q :: "'i QueuedPeerTransport" and callback :: "(Channel \<Rightarrow> bytes \<Rightarrow> ('c, unit) op) option"
  assumes "qt_overflow q"
  shows "\<exists>e. fst (PumpReceived inner_Pump callback (q, c)) = Inl e"
proof -
  obtain pumped i arrived where p: "inner_Pump (qt_inner q) = (pumped, i, arrived)" by (metis prod_cases3)
  have "qt_overflow (fold (\<lambda>(ch, w). on_received ch w) arrived (q\<lparr>qt_inner := i\<rparr>))"
    using assms by (intro overflow_sticks) simp
  then show ?thesis by (cases pumped) (simp_all add: PumpReceived_def p take_received_def Let_def)
qed

lemma arrivals_overflow:
  assumes "queued_inv q" "kReceiveBudget < received_size (qt_received q) + received_size rs"
  shows "qt_overflow (fold (\<lambda>(ch, w). on_received ch w) rs q)"
  using assms
proof (induction rs arbitrary: q)
  case Nil
  then show ?case by (simp add: queued_inv_def)
next
  case (Cons r rs)
  obtain ch w where r: "r = (ch, w)" by fastforce
  have q': "queued_inv (on_received ch w q)" using Cons.prems(1) by (rule on_received_inv)
  show ?case
  proof (cases "kReceiveBudget < received_size (qt_received q) + length w")
    case True
    then have "qt_overflow (on_received ch w q)" using Cons.prems(1) by (simp add: on_received_cases)
    then show ?thesis by (simp add: r overflow_sticks)
  next
    case False
    then have "qt_received (on_received ch w q) = qt_received q @ [(ch, w)]"
      using Cons.prems(1) by (simp add: on_received_cases)
    then show ?thesis using Cons.IH [OF q'] Cons.prems by (simp add: r)
  qed
qed

text \<open>
  A pump delivers to the receiver exactly the messages that arrived since the previous one, each
  once and in order of arrival, whenever together they stay within 32 MiB; beyond that it throws and
  delivers nothing, and every later pump throws as well.
\<close>

theorem pump_delivers_in_order:
  fixes q :: "'i QueuedPeerTransport"
  assumes "qt_received q = []" "qt_received_bytes q = 0" "\<not> qt_overflow q"
    and "inner_Pump i = (Inr (), i', arrived)" "qt_inner q1 = i"
    and "q1 = fold (\<lambda>(ch, w). on_received ch w) before q"
  shows "if sum_list (map (length \<circ> snd) (before @ arrived)) \<le> kReceiveBudget
    then \<exists>q2. PumpReceived inner_Pump (Some f) (q1, c) =
        (fst (forS (\<lambda>(ch, w). f ch w) (before @ arrived) c),
         (q2, snd (forS (\<lambda>(ch, w). f ch w) (before @ arrived) c))) \<and>
      qt_received q2 = [] \<and> qt_received_bytes q2 = 0 \<and> \<not> qt_overflow q2
    else \<exists>q2. PumpReceived inner_Pump (Some f) (q1, c) =
        (Inl (Runtime_error ''per-peer receive budget exceeded''), (q2, c)) \<and>
      (\<forall>later_Pump callback c'. \<exists>e. fst (PumpReceived later_Pump callback (q2, c')) = Inl e)"
proof -
  let ?feed = "fold (\<lambda>(ch, w). on_received ch w)"
  have inner: "?feed rs (p\<lparr>qt_inner := i'\<rparr>) = (?feed rs p)\<lparr>qt_inner := i'\<rparr>"
    for rs and p :: "'i QueuedPeerTransport"
  proof (induction rs arbitrary: p)
    case (Cons r rs)
    obtain ch w where r: "r = (ch, w)" by fastforce
    have "on_received ch w (p\<lparr>qt_inner := i'\<rparr>) = (on_received ch w p)\<lparr>qt_inner := i'\<rparr>"
      by (simp add: on_received_def)
    with Cons show ?case by (simp add: r)
  qed simp
  have q: "queued_inv q" using assms(1,2) by (simp add: queued_inv_def)
  have fed: "?feed arrived (q1\<lparr>qt_inner := i'\<rparr>) = (?feed (before @ arrived) q)\<lparr>qt_inner := i'\<rparr>"
    using inner [of arrived q1] assms(6) by simp
  let ?q = "?feed (before @ arrived) q"
  have pump: "PumpReceived inner_Pump (Some f) (q1, c) =
      (case take_received (?q\<lparr>qt_inner := i'\<rparr>) of
         (Inl e, q2) \<Rightarrow> (Inl e, (q2, c))
       | (Inr items, q2) \<Rightarrow> (case forS (\<lambda>(ch, w). f ch w) items c of (r, c') \<Rightarrow> (r, (q2, c'))))"
    unfolding PumpReceived_def Let_def by (simp add: assms(4,5) fed del: fold_append split: sum.split prod.split)
  show ?thesis
  proof (cases "received_size (before @ arrived) \<le> kReceiveBudget")
    case True
    then have "qt_received ?q = before @ arrived" "\<not> qt_overflow ?q"
      using arrivals_queue [OF q, of "before @ arrived"] assms(1,3) by simp_all
    with True show ?thesis
      unfolding pump by (simp add: take_received_def received_size_def split_beta)
  next
    case False
    then have "qt_overflow ?q" using arrivals_overflow [OF q, of "before @ arrived"] assms(1) by simp
    then have "qt_overflow (?q\<lparr>qt_inner := i'\<rparr>)" by simp
    with False show ?thesis
      unfolding pump by (auto simp: take_received_def received_size_def intro!: overflow_final)
  qed
qed

theorem pump_delivers_in_order_witness:
  "\<exists>q2. PumpReceived (\<lambda>u. (Inr (), u, [(kBulk, [3])])) (Some (\<lambda>ch w log. (Inr (), log @ [(ch, w)])))
      (on_received kControl [1, 2] idle_queue, []) =
     (Inr (), (q2, [(kControl, [1, 2]), (kBulk, [3])])) \<and>
     qt_received q2 = [] \<and> qt_received_bytes q2 = 0 \<and> \<not> qt_overflow q2"
proof -
  let ?f = "\<lambda>ch w log. (Inr () :: unit result, log @ [(ch, w)])"
  let ?rs = "[(kControl, [1, 2 :: byte]), (kBulk, [3])]"
  have "forS (\<lambda>(ch, w). ?f ch w) ?rs [] = (Inr (), ?rs)" by (simp add: op_defs)
  moreover have "sum_list (map (length \<circ> snd) ?rs) \<le> kReceiveBudget" by (simp add: kReceiveBudget_def)
  ultimately show ?thesis
    using pump_delivers_in_order [of idle_queue "\<lambda>u. (Inr (), u, [(kBulk, [3])])" "()" "()"
        "[(kBulk, [3])]" "on_received kControl [1, 2] idle_queue" "[(kControl, [1, 2])]" ?f "[]"]
    by (simp add: idle_queue_def)
qed

end
