(* ===== verification/Ice_Options.thy ===== *)
theory Ice_Options
  imports VS_Prelude "HOL-Library.Sublist"
begin

text \<open>
  ICE server options (\<^verbatim>\<open>engine/transport/ice_options.h\<close>, \<^verbatim>\<open>engine/transport/ice_options.cpp\<close>): the
  validation of a server list and the parsing of the environment variables.  The process
  environment is an argument: a function from a name to its value, or to nothing when unset.
\<close>

record IceServer =
  ice_url :: string
  ice_username :: string
  ice_credential :: string

record IceOptions =
  ice_servers :: "IceServer list"
  ice_relay_only :: bool

definition is_relay_url :: "string \<Rightarrow> bool" where
  "is_relay_url url \<longleftrightarrow> prefix ''turn:'' url \<or> prefix ''turns:'' url"

definition is_stun_url :: "string \<Rightarrow> bool" where
  "is_stun_url url \<longleftrightarrow> prefix ''stun:'' url \<or> prefix ''stuns:'' url"

definition blank_or_at :: "char list" where
  "blank_or_at = [CHR '' '', CHR 0x09, CHR 0x0D, CHR 0x0A, CHR ''@'']"

text \<open>\<^verbatim>\<open>url.substr(url.find(':') + 1)\<close>: the scheme check before it makes sure that a colon is there.\<close>

definition ice_host :: "string \<Rightarrow> string" where
  "ice_host url = drop 1 (dropWhile (\<lambda>c. c \<noteq> CHR '':'') url)"

text \<open>The body of the validation loop; the state is the flag \<^verbatim>\<open>turn\<close>.\<close>

definition validate_server :: "IceServer \<Rightarrow> bool \<Rightarrow> bool result" where
  "validate_server server turn =
     (let relay = is_relay_url (ice_url server) in
      if \<not> relay \<and> \<not> is_stun_url (ice_url server)
      then Inl (Invalid_argument ''ICE server URL must use stun, stuns, turn or turns'')
      else
       let host = ice_host (ice_url server) in
       if host = [] \<or> (\<exists>c \<in> set host. c \<in> set blank_or_at) \<or> 2048 < length (ice_url server) \<or>
          1024 < length (ice_username server) \<or> 4096 < length (ice_credential server)
       then Inl (Invalid_argument ''invalid ICE server configuration'')
       else if relay \<and> (ice_username server = [] \<or> ice_credential server = [])
       then Inl (Invalid_argument ''TURN servers require a username and credential'')
       else Inr (turn \<or> relay))"

definition IceOptions_Validate :: "IceOptions \<Rightarrow> unit result" where
  "IceOptions_Validate options =
     (if 16 < length (ice_servers options)
      then Inl (Invalid_argument ''at most 16 ICE servers are allowed'')
      else bindE (foldE validate_server (ice_servers options) False) (\<lambda>turn.
        if ice_relay_only options \<and> \<not> turn
        then Inl (Invalid_argument ''relay-only mode requires a TURN server'')
        else Inr ()))"

text \<open>
  The loop over the URL list: each round takes the text up to the next semicolon; it stops when the
  list is used up or no semicolon is left.
\<close>

function split_urls :: "string \<Rightarrow> string list" where
  "split_urls urls =
     (if urls = [] then []
      else
       let url = takeWhile (\<lambda>c. c \<noteq> CHR '';'') urls; rest = dropWhile (\<lambda>c. c \<noteq> CHR '';'') urls in
       if rest = [] then [url] else url # split_urls (tl rest))"
  by pat_completeness auto
termination
proof (relation "measure length")
  fix urls url rest
  assume "urls \<noteq> []" "rest = dropWhile (\<lambda>c. c \<noteq> CHR '';'') urls" "rest \<noteq> []"
  moreover have "length (dropWhile (\<lambda>c. c \<noteq> CHR '';'') urls) \<le> length urls"
    by (rule length_dropWhile_le)
  ultimately show "(tl rest, urls) \<in> measure length"
    by (metis diff_less in_measure le_antisym length_greater_0_conv length_tl less_le_trans not_less zero_less_one)
qed simp

declare split_urls.simps [simp del]

type_synonym environment = "string \<Rightarrow> string option"

definition Environment :: "environment \<Rightarrow> string \<Rightarrow> string" where
  "Environment env name = (case env name of None \<Rightarrow> [] | Some v \<Rightarrow> v)"

definition environment_options :: "environment \<Rightarrow> IceOptions" where
  "environment_options env =
     \<lparr>ice_servers = map (\<lambda>url. let turn = is_relay_url url in
        \<lparr>ice_url = url,
         ice_username = if turn then Environment env ''VERITASSYNC_TURN_USERNAME'' else [],
         ice_credential = if turn then Environment env ''VERITASSYNC_TURN_CREDENTIAL'' else []\<rparr>)
        (split_urls (Environment env ''VERITASSYNC_ICE_URLS'')),
      ice_relay_only = Environment env ''VERITASSYNC_ICE_RELAY_ONLY'' = ''1''\<rparr>"

definition FromEnvironment :: "environment \<Rightarrow> IceOptions result" where
  "FromEnvironment env =
     (let relay = Environment env ''VERITASSYNC_ICE_RELAY_ONLY'' in
      if relay \<noteq> [] \<and> relay \<noteq> ''0'' \<and> relay \<noteq> ''1''
      then Inl (Invalid_argument ''VERITASSYNC_ICE_RELAY_ONLY must be 0 or 1'')
      else let options = environment_options env in
        bindE (IceOptions_Validate options) (\<lambda>_. Inr options))"

section \<open>What validation accepts\<close>

definition server_ok :: "IceServer \<Rightarrow> bool" where
  "server_ok s \<longleftrightarrow> (is_relay_url (ice_url s) \<or> is_stun_url (ice_url s)) \<and>
     ice_host (ice_url s) \<noteq> [] \<and> set (ice_host (ice_url s)) \<inter> set blank_or_at = {} \<and>
     length (ice_url s) \<le> 2048 \<and> length (ice_username s) \<le> 1024 \<and> length (ice_credential s) \<le> 4096 \<and>
     (is_relay_url (ice_url s) \<longrightarrow> ice_username s \<noteq> [] \<and> ice_credential s \<noteq> [])"

lemma validate_server_iff:
  "validate_server s turn = Inr t \<longleftrightarrow> server_ok s \<and> t = (turn \<or> is_relay_url (ice_url s))"
  unfolding validate_server_def server_ok_def Let_def disjoint_iff by (auto simp: not_less)

lemma validate_servers_iff:
  "foldE validate_server ss turn = Inr t \<longleftrightarrow>
     (\<forall>s \<in> set ss. server_ok s) \<and> t = (turn \<or> (\<exists>s \<in> set ss. is_relay_url (ice_url s)))"
  by (induction ss arbitrary: turn) (auto simp: result_iff validate_server_iff)

lemma Validate_iff:
  "IceOptions_Validate options = Inr () \<longleftrightarrow>
     length (ice_servers options) \<le> 16 \<and> (\<forall>s \<in> set (ice_servers options). server_ok s) \<and>
     (ice_relay_only options \<longrightarrow> (\<exists>s \<in> set (ice_servers options). is_relay_url (ice_url s)))"
  by (auto simp: IceOptions_Validate_def result_iff validate_servers_iff not_less)

text \<open>Joining the entries with semicolons gives the variable back, up to one trailing semicolon.\<close>

fun join_urls :: "string list \<Rightarrow> string" where
  "join_urls [] = []"
| "join_urls [u] = u"
| "join_urls (u # us) = u @ CHR '';'' # join_urls us"

lemma split_urls_no_semicolon: "u \<in> set (split_urls urls) \<Longrightarrow> CHR '';'' \<notin> set u"
proof (induction urls rule: split_urls.induct)
  case (1 urls)
  then show ?case
    by (simp add: split_urls.simps [of urls] Let_def split: if_splits) (auto dest: set_takeWhileD)
qed

lemma join_split:
  "urls \<noteq> [] \<Longrightarrow> urls = join_urls (split_urls urls) \<or> urls = join_urls (split_urls urls) @ '';''"
proof (induction urls rule: split_urls.induct)
  case (1 urls)
  let ?u = "takeWhile (\<lambda>c. c \<noteq> CHR '';'') urls" and ?r = "dropWhile (\<lambda>c. c \<noteq> CHR '';'') urls"
  have cat: "urls = ?u @ ?r" by simp
  show ?case
  proof (cases "?r = []")
    case True
    then have "split_urls urls = [?u]" using "1.prems" by (subst split_urls.simps) (simp add: Let_def)
    moreover have "?u = urls" using True by (simp add: takeWhile_eq_all_conv)
    ultimately show ?thesis by simp
  next
    case False
    then have hd: "hd ?r = CHR '';''" using hd_dropWhile [of "\<lambda>c. c \<noteq> CHR '';''" urls] by blast
    define u r where "u = ?u" and "r = tl ?r"
    have split: "split_urls urls = u # split_urls r"
      unfolding u_def r_def split_urls.simps [of urls] Let_def using "1.prems" False by (simp only: if_False)
    have urls: "urls = u @ CHR '';'' # r"
      unfolding u_def r_def using cat hd False by (metis (no_types) list.collapse)
    show ?thesis
    proof (cases "r = []")
      case True
      then have "split_urls r = []" by (simp add: split_urls.simps)
      then show ?thesis using split urls True by simp
    next
      case rest: False
      then have "split_urls r \<noteq> []" by (subst split_urls.simps) (simp add: Let_def)
      then have "join_urls (split_urls urls) = u @ CHR '';'' # join_urls (split_urls r)"
        unfolding split by (cases "split_urls r") simp_all
      moreover have "r = join_urls (split_urls r) \<or> r = join_urls (split_urls r) @ '';''"
        using "1.IH" [OF "1.prems" refl refl False] rest by (simp add: r_def)
      ultimately show ?thesis using urls by auto
    qed
  qed
qed

text \<open>
  The options read from the environment are exactly the semicolon-separated list of the variable
  (one trailing semicolon is allowed) with the TURN secrets attached to the relay URLs only, and
  they are returned exactly when every server is well formed, there are at most sixteen, every relay
  has a user name and a credential, and relay-only mode has a relay.
\<close>

theorem ice_environment_exact:
  "(FromEnvironment env = Inr options \<longleftrightarrow>
     Environment env ''VERITASSYNC_ICE_RELAY_ONLY'' \<in> {[], ''0'', ''1''} \<and>
     options = environment_options env \<and>
     length (ice_servers options) \<le> 16 \<and> (\<forall>s \<in> set (ice_servers options). server_ok s) \<and>
     (ice_relay_only options \<longrightarrow> (\<exists>s \<in> set (ice_servers options). is_relay_url (ice_url s)))) \<and>
   (\<forall>u \<in> set (split_urls urls). CHR '';'' \<notin> set u) \<and>
   (urls = join_urls (split_urls urls) \<or> urls = join_urls (split_urls urls) @ '';'')"
proof (intro conjI)
  show "\<forall>u \<in> set (split_urls urls). CHR '';'' \<notin> set u" using split_urls_no_semicolon by blast
  show "urls = join_urls (split_urls urls) \<or> urls = join_urls (split_urls urls) @ '';''"
    using join_split [of urls] by (cases "urls = []") (simp_all add: split_urls.simps)
qed (auto simp: FromEnvironment_def Let_def result_iff Validate_iff)

theorem ice_environment_exact_witness:
  "split_urls ''stun:a;turn:b'' = [''stun:a'', ''turn:b''] \<and>
   CHR '';'' \<notin> set ''turn:b''"
proof -
  have s: "split_urls ''stun:a;turn:b'' = [''stun:a'', ''turn:b'']"
    by (simp add: split_urls.simps Let_def)
  then show ?thesis using ice_environment_exact [of _ _ "''stun:a;turn:b''"] by simp
qed

end
