(* ===== verification/Sql_Table.thy ===== *)
theory Sql_Table
  imports VS_Prelude "HOL-Library.Product_Lexorder" "HOL-Library.Multiset"
begin

text \<open>
  The few SQL statements that the database module issues, on a table that is the list of its rows:
  insertion under a primary key, insertion with \<^verbatim>\<open>ON CONFLICT DO UPDATE\<close>, update and deletion by
  predicate, selection by key and ordered selection.  The facts that every table of the schema needs
  (keys stay distinct, what a lookup sees afterwards, which rows are left alone) are proved here once.
\<close>

definition has_key :: "('r \<Rightarrow> 'k) \<Rightarrow> 'k \<Rightarrow> 'r list \<Rightarrow> bool" where
  "has_key key k t \<longleftrightarrow> k \<in> key ` set t"

definition row_of :: "('r \<Rightarrow> 'k) \<Rightarrow> 'k \<Rightarrow> 'r list \<Rightarrow> 'r option" where
  "row_of key k t = find (\<lambda>r. key r = k) t"

definition upsert_row :: "('r \<Rightarrow> 'k) \<Rightarrow> 'r \<Rightarrow> 'r list \<Rightarrow> 'r list" where
  "upsert_row key r t =
     (if has_key key (key r) t then map (\<lambda>x. if key x = key r then r else x) t else t @ [r])"

definition update_rows :: "('r \<Rightarrow> bool) \<Rightarrow> ('r \<Rightarrow> 'r) \<Rightarrow> 'r list \<Rightarrow> 'r list" where
  "update_rows P f t = map (\<lambda>x. if P x then f x else x) t"

definition delete_rows :: "('r \<Rightarrow> bool) \<Rightarrow> 'r list \<Rightarrow> 'r list" where
  "delete_rows P t = filter (\<lambda>x. \<not> P x) t"

text \<open>How many rows an update or a deletion touches (\<^verbatim>\<open>sqlite3_changes\<close>).\<close>

definition changes :: "('r \<Rightarrow> bool) \<Rightarrow> 'r list \<Rightarrow> nat" where
  "changes P t = length (filter P t)"

definition order_by :: "('r \<Rightarrow> 'o::linorder) \<Rightarrow> 'r list \<Rightarrow> 'r list" where
  "order_by f t = sort_key f t"

section \<open>Keys\<close>

abbreviation unique_key :: "('r \<Rightarrow> 'k) \<Rightarrow> 'r list \<Rightarrow> bool" where
  "unique_key key t \<equiv> distinct (map key t)"

lemma row_of_Some_iff:
  assumes "unique_key key t"
  shows "row_of key k t = Some r \<longleftrightarrow> r \<in> set t \<and> key r = k"
  using assms unfolding row_of_def by (induction t) (auto simp: image_iff)

lemma row_of_SomeD: "row_of key k t = Some r \<Longrightarrow> r \<in> set t \<and> key r = k"
  unfolding row_of_def by (auto simp: find_Some_iff)

lemma row_of_None_iff: "row_of key k t = None \<longleftrightarrow> \<not> has_key key k t"
  unfolding row_of_def has_key_def by (auto simp: find_None_iff)

lemma row_of_has_key: "has_key key k t \<longleftrightarrow> (\<exists>r. row_of key k t = Some r)"
  using row_of_None_iff [of key k t] by (cases "row_of key k t") auto

lemma row_of_append_other: "key r \<noteq> k \<Longrightarrow> row_of key k (t @ [r]) = row_of key k t"
  unfolding row_of_def by (induction t) auto

lemma row_of_append_fresh: "\<not> has_key key (key r) t \<Longrightarrow> row_of key (key r) (t @ [r]) = Some r"
  unfolding row_of_def has_key_def by (induction t) auto

lemma row_of_upsert: "row_of key k (upsert_row key r t) = (if k = key r then Some r else row_of key k t)"
proof (cases "has_key key (key r) t")
  case True
  have "find (\<lambda>x. key x = k) (map (\<lambda>x. if key x = key r then r else x) u) =
      (if k = key r then if key r \<in> key ` set u then Some r else None else find (\<lambda>x. key x = k) u)" for u
    by (induction u) auto
  with True show ?thesis by (simp add: upsert_row_def row_of_def has_key_def)
next
  case False
  then show ?thesis
    by (auto simp: upsert_row_def row_of_append_other row_of_append_fresh)
qed

lemma map_key_upsert:
  "map key (upsert_row key r t) = (if has_key key (key r) t then map key t else map key t @ [key r])"
  by (auto simp: upsert_row_def comp_def)

lemma unique_upsert [simp]: "unique_key key t \<Longrightarrow> unique_key key (upsert_row key r t)"
  unfolding map_key_upsert by (auto simp: has_key_def)

lemma set_upsert: "x \<in> set (upsert_row key r t) \<Longrightarrow> x = r \<or> x \<in> set t"
  by (auto simp: upsert_row_def split: if_splits)

lemma set_upsert_eq:
  "set (upsert_row key r t) = insert r {x \<in> set t. key x \<noteq> key r}"
  by (auto simp: upsert_row_def has_key_def image_iff split: if_splits)

lemma keys_upsert: "key ` set (upsert_row key r t) = insert (key r) (key ` set t)"
  by (auto simp: set_upsert_eq image_iff)

lemma unique_insert [simp]:
  "unique_key key t \<Longrightarrow> \<not> has_key key (key r) t \<Longrightarrow> unique_key key (t @ [r])"
  by (auto simp: has_key_def)

lemma map_key_update: "(\<And>x. P x \<Longrightarrow> key (f x) = key x) \<Longrightarrow> map key (update_rows P f t) = map key t"
  by (auto simp: update_rows_def)

lemma set_update_rows: "y \<in> set (update_rows P f t) \<longleftrightarrow> (\<exists>x \<in> set t. y = (if P x then f x else x))"
  by (auto simp: update_rows_def)

lemma set_delete_rows [simp]: "set (delete_rows P t) = {x \<in> set t. \<not> P x}"
  by (auto simp: delete_rows_def)

lemma unique_delete [simp]: "unique_key key t \<Longrightarrow> unique_key key (delete_rows P t)"
  by (induction t) (auto simp: delete_rows_def)

lemma row_of_delete:
  "row_of key k (delete_rows (\<lambda>x. key x = k') t) = (if k = k' then None else row_of key k t)"
  unfolding row_of_def delete_rows_def by (induction t) auto

lemma row_of_update:
  assumes "\<And>x. key (f x) = key x"
  shows "row_of key k (update_rows (\<lambda>x. key x = k') f t) =
    (if k = k' then map_option f (row_of key k t) else row_of key k t)"
  unfolding row_of_def update_rows_def by (induction t) (auto simp: assms)

lemma changes_unique:
  assumes "unique_key key t"
  shows "changes (\<lambda>r. key r = k) t = (if has_key key k t then 1 else 0)"
  using assms unfolding changes_def has_key_def
  by (induction t) (auto simp: filter_empty_conv image_iff)

section \<open>Ordered selection\<close>

lemma order_by_set [simp]: "set (order_by f t) = set t"
  by (simp add: order_by_def)

lemma order_by_sorted: "sorted (map f (order_by f t))"
  by (simp add: order_by_def)

lemma order_by_distinct: "unique_key f t \<Longrightarrow> distinct (map f (order_by f t))"
proof -
  assume "unique_key f t"
  moreover have "mset (map f (order_by f t)) = mset (map f t)" unfolding order_by_def mset_map by simp
  ultimately show ?thesis by (metis mset_eq_imp_distinct_iff)
qed

section \<open>Stores\<close>

text \<open>
  The interface of a keyed collection of the database: \<open>put\<close> validates and writes one record,
  \<open>get\<close> reads it back by its key.  \<open>stored r\<close> is what the store keeps of \<open>r\<close>.
\<close>

locale record_store =
  fixes put :: "'r \<Rightarrow> ('d, unit) op"
    and get :: "'k \<Rightarrow> 'd \<Rightarrow> 'r option"
    and key :: "'r \<Rightarrow> 'k"
    and stored :: "'r \<Rightarrow> 'r"
  assumes get_put: "put r d = (Inr (), d') \<Longrightarrow> get k d' = (if k = key r then Some (stored r) else get k d)"
    and put_error: "put r d = (Inl e, d') \<Longrightarrow> get k d' = get k d"
begin

text \<open>After any sequence of writes a key holds the last record written to it.\<close>

lemma get_after_puts:
  "forS put rs d = (Inr (), d') \<Longrightarrow>
   get k d' = (case find (\<lambda>r. key r = k) (rev rs) of None \<Rightarrow> get k d | Some r \<Rightarrow> Some (stored r))"
proof (induction rs arbitrary: d)
  case Nil
  then show ?case by (simp add: op_defs)
next
  case (Cons r rs)
  obtain x d1 where p: "put r d = (x, d1)" by fastforce
  with Cons.prems have x: "x = Inr ()" and rest: "forS put rs d1 = (Inr (), d')"
    by (auto simp: op_defs split: sum.splits)
  have "find P (xs @ [y]) = (case find P xs of None \<Rightarrow> (if P y then Some y else None) | Some z \<Rightarrow> Some z)"
    for P :: "'r \<Rightarrow> bool" and xs y
    by (induction xs) auto
  then show ?case using Cons.IH [OF rest, of] get_put [of r d d1 k] p x by (auto split: option.splits)
qed

lemma put_twice:
  assumes "put r d = (Inr (), d1)" "put r d1 = (Inr (), d2)"
  shows "get k d2 = get k d1"
  using get_put [OF assms(1), of k] get_put [OF assms(2), of k] by simp

end

end
