(* ===== verification/Database_Schema.thy ===== *)
theory Database_Schema
  imports Sql_Table
begin

text \<open>
  The records of \<^verbatim>\<open>engine/storage/database.h\<close>, the tables that the migrations of
  \<^verbatim>\<open>engine/storage/database.cpp\<close> create, the validators, the transaction discipline and the
  migrations themselves.  A text parameter is bound as a C string, so the database keeps the
  \<open>cstr\<close> of it.  SQLite is modelled through the constraints its schema declares: a
  violating statement has no effect and raises; failures of the disk or of the lock are not modelled.
  Unsigned 64-bit columns are stored through a cast to a signed integer and back, which is the
  identity on the 64-bit pattern.
\<close>

section \<open>Records\<close>

record TaskDefinition =
  td_task_id :: string
  td_mode :: string
  td_role :: string
  td_root_path :: string

record TaskRuntimeState =
  rt_task_id :: string
  rt_enabled :: bool
  rt_status :: string
  rt_dirty :: bool
  rt_last_scan_at_ms :: "int option"
  rt_last_error :: "string option"
  rt_network_status :: string
  rt_network_error :: "string option"

record TaskConnection =
  tc_task_id :: string
  tc_tracker_url :: string
  tc_room_id :: string
  tc_authorization_digest :: string
  tc_joined_at_ms :: int

record TaskMember =
  tm_task_id :: string
  tm_device_id :: string
  tm_fingerprint :: string
  tm_role :: string
  tm_authorized_at_ms :: int
  tm_revoked :: bool

datatype FileKind = fkFile | fkDirectory | fkTombstone

record FileRecord =
  fr_task_id :: string
  fr_relative_path :: string
  fr_kind :: FileKind
  fr_size :: u64
  fr_mtime_ns :: int
  fr_content_hash :: bytes
  fr_version_id :: string
  fr_origin_device_id :: string
  fr_logical_clock :: u64
  fr_deleted_at_ms :: "int option"

type_synonym TransferId = bytes

record TransferRecord =
  tr_transfer_id :: TransferId
  tr_task_id :: string
  tr_peer_device_id :: string
  tr_direction :: string
  tr_file_hash :: bytes
  tr_state :: string
  tr_created_at_ms :: int
  tr_updated_at_ms :: int
  tr_relative_path :: string

record VersionLineage =
  vl_task_id :: string
  vl_version_id :: string
  vl_parent_version_id :: "string option"

record ConflictRecord =
  cr_conflict_id :: string
  cr_task_id :: string
  cr_original_path :: string
  cr_winning_version_id :: string
  cr_conflict_path :: string
  cr_state :: string
  cr_created_at_ms :: int

record EngineEvent =
  ev_event_id :: int
  ev_task_id :: "string option"
  ev_level :: string
  ev_message :: string
  ev_created_at_ms :: int

record IgnorePolicyRevision =
  ip_task_id :: string
  ip_revision :: nat
  ip_content :: string
  ip_content_hash :: string
  ip_source :: string
  ip_created_at_ms :: int

record PendingIgnorePolicy =
  pp_task_id :: string
  pp_proposal_id :: string
  pp_origin_device_id :: string
  pp_base_hash :: string
  pp_rules :: string
  pp_source :: string
  pp_state :: string

section \<open>Tables\<close>

text \<open>Rows of the tables that no struct of the header describes.\<close>

record TransferRow =
  row_transfer :: TransferRecord
  row_error_code :: "string option"

record ChunkRow =
  ck_transfer_id :: TransferId
  ck_chunk_index :: u64
  ck_completed :: bool

record PolicyStateRow =
  pst_task_id :: string
  pst_revision :: nat
  pst_content_hash :: string
  pst_updated_at_ms :: int

text \<open>
  The tables of the eight migrations.  No code writes \<^verbatim>\<open>peer_state\<close>; only its key is kept.  The
  last event identifier is SQLite's \<^verbatim>\<open>AUTOINCREMENT\<close> counter.
\<close>

record tables =
  t_tasks :: "TaskDefinition list"
  t_file_records :: "FileRecord list"
  t_transfers :: "TransferRow list"
  t_transfer_chunks :: "ChunkRow list"
  t_peer_state :: "(string \<times> string) list"
  t_conflicts :: "ConflictRecord list"
  t_version_lineage :: "VersionLineage list"
  t_task_clocks :: "(string \<times> u64) list"
  t_engine_events :: "EngineEvent list"
  t_last_event_id :: int
  t_policy_revisions :: "IgnorePolicyRevision list"
  t_policy_state :: "PolicyStateRow list"
  t_task_runtime :: "TaskRuntimeState list"
  t_task_connections :: "TaskConnection list"
  t_task_members :: "TaskMember list"
  t_pending_policies :: "PendingIgnorePolicy list"
  t_schema_versions :: "nat list"

definition empty_tables :: tables where
  "empty_tables = \<lparr>t_tasks = [], t_file_records = [], t_transfers = [], t_transfer_chunks = [],
     t_peer_state = [], t_conflicts = [], t_version_lineage = [], t_task_clocks = [],
     t_engine_events = [], t_last_event_id = 0, t_policy_revisions = [], t_policy_state = [],
     t_task_runtime = [], t_task_connections = [], t_task_members = [], t_pending_policies = [],
     t_schema_versions = []\<rparr>"

text \<open>Primary keys.\<close>

abbreviation file_key :: "FileRecord \<Rightarrow> string \<times> string" where
  "file_key r \<equiv> (fr_task_id r, fr_relative_path r)"
abbreviation transfer_key :: "TransferRow \<Rightarrow> TransferId" where
  "transfer_key r \<equiv> tr_transfer_id (row_transfer r)"
abbreviation chunk_key :: "ChunkRow \<Rightarrow> TransferId \<times> u64" where
  "chunk_key r \<equiv> (ck_transfer_id r, ck_chunk_index r)"
abbreviation lineage_key :: "VersionLineage \<Rightarrow> string \<times> string" where
  "lineage_key r \<equiv> (vl_task_id r, vl_version_id r)"
abbreviation revision_key :: "IgnorePolicyRevision \<Rightarrow> string \<times> nat" where
  "revision_key r \<equiv> (ip_task_id r, ip_revision r)"
abbreviation member_key :: "TaskMember \<Rightarrow> string \<times> string" where
  "member_key r \<equiv> (tm_task_id r, tm_device_id r)"

text \<open>A connection: the tables, and the tables to go back to while a transaction is open.\<close>

record Database =
  db_tables :: tables
  db_saved :: "tables option"

abbreviation task_exists :: "string \<Rightarrow> tables \<Rightarrow> bool" where
  "task_exists k t \<equiv> has_key td_task_id k (t_tasks t)"

section \<open>Statements and transactions\<close>

definition sql_error :: "string \<Rightarrow> string \<Rightarrow> exn" where
  "sql_error operation detail = Runtime_error (operation @ '': '' @ detail)"

definition kForeignKey :: string where "kForeignKey = ''FOREIGN KEY constraint failed''"
definition kUnique :: string where "kUnique = ''UNIQUE constraint failed''"
definition kCheck :: string where "kCheck = ''CHECK constraint failed''"

text \<open>
  One prepared, bound and stepped statement: a constraint violation leaves the tables unchanged and
  is thrown by \<^verbatim>\<open>Check\<close> with the name of the operation.
\<close>

definition statement :: "string \<Rightarrow> (tables \<Rightarrow> string + tables) \<Rightarrow> (Database, unit) op" where
  "statement operation f d =
     (case f (db_tables d) of
        Inl detail \<Rightarrow> (Inl (sql_error operation detail), d)
      | Inr t \<Rightarrow> (Inr (), d\<lparr>db_tables := t\<rparr>))"

definition query :: "(tables \<Rightarrow> 'a) \<Rightarrow> (Database, 'a) op" where
  "query f d = (Inr (f (db_tables d)), d)"

definition autocommit :: "Database \<Rightarrow> bool" where
  "autocommit d \<longleftrightarrow> db_saved d = None"

definition rollback :: "Database \<Rightarrow> Database" where
  "rollback d = (case db_saved d of None \<Rightarrow> d | Some t \<Rightarrow> \<lparr>db_tables = t, db_saved = None\<rparr>)"

definition InTransaction :: "(Database, 'a) op \<Rightarrow> (Database, 'a) op" where
  "InTransaction operation d =
     (if \<not> autocommit d
      then (Inl (Runtime_error ''cannot start a transaction within a transaction''), d)
      else case operation (d\<lparr>db_saved := Some (db_tables d)\<rparr>) of
        (Inl e, d') \<Rightarrow> (Inl e, rollback d')
      | (Inr x, d') \<Rightarrow> (Inr x, d'\<lparr>db_saved := None\<rparr>))"

section \<open>Validators\<close>

fun FileKindName :: "FileKind \<Rightarrow> string" where
  "FileKindName fkFile = ''file''"
| "FileKindName fkDirectory = ''directory''"
| "FileKindName fkTombstone = ''tombstone''"

definition ParseFileKind :: "string \<Rightarrow> FileKind result" where
  "ParseFileKind value =
     (if value = ''file'' then Inr fkFile
      else if value = ''directory'' then Inr fkDirectory
      else if value = ''tombstone'' then Inr fkTombstone
      else Inl (Runtime_error ''database contains an unknown file kind''))"

definition ValidateRelativePath :: "string \<Rightarrow> unit result" where
  "ValidateRelativePath path =
     (if path = [] \<or> hd path = CHR ''/'' \<or> CHR 0x5C \<in> set path \<or> CHR '':'' \<in> set path
      then Inl (Invalid_argument ''file record path must be normalized and task-relative'')
      else if \<exists>c \<in> set (split_on CHR ''/'' path). c = [] \<or> c = ''.'' \<or> c = ''..''
      then Inl (Invalid_argument ''file record path must not traverse directories'')
      else Inr ())"

definition ValidateFileRecord :: "FileRecord \<Rightarrow> unit result" where
  "ValidateFileRecord r =
     (if fr_task_id r = [] \<or> fr_version_id r = [] \<or> fr_origin_device_id r = []
      then Inl (Invalid_argument ''file record identity fields are required'')
      else bindE (ValidateRelativePath (fr_relative_path r)) (\<lambda>_.
        if fr_kind r = fkFile \<and> fr_content_hash r = []
        then Inl (Invalid_argument ''file records require a content hash'')
        else if fr_kind r = fkTombstone \<and> fr_deleted_at_ms r = None
        then Inl (Invalid_argument ''tombstones require a deletion timestamp'')
        else if fr_kind r \<noteq> fkTombstone \<and> fr_deleted_at_ms r \<noteq> None
        then Inl (Invalid_argument ''live records must not have a deletion timestamp'')
        else Inr ()))"

abbreviation transfer_states :: "string list" where
  "transfer_states \<equiv> [''active'', ''completed'', ''failed'', ''cancelled'']"

definition ValidateTransfer :: "TransferRecord \<Rightarrow> unit result" where
  "ValidateTransfer r =
     (let empty_id = (\<forall>b \<in> set (tr_transfer_id r). b = 0) in
      if tr_task_id r = [] \<or> tr_peer_device_id r = [] \<or>
         (tr_direction r \<noteq> ''upload'' \<and> tr_direction r \<noteq> ''download'') \<or> empty_id \<or>
         length (tr_file_hash r) \<noteq> 32 \<or> tr_state r \<notin> set transfer_states \<or>
         tr_created_at_ms r \<le> 0 \<or> tr_updated_at_ms r \<le> 0
      then Inl (Invalid_argument ''transfer fields are invalid'')
      else if tr_relative_path r \<noteq> [] then ValidateRelativePath (tr_relative_path r) else Inr ())"

section \<open>Migrations\<close>

definition SchemaVersion :: "tables \<Rightarrow> nat" where
  "SchemaVersion t = fold max (t_schema_versions t) 0"

definition default_runtime :: "string \<Rightarrow> TaskRuntimeState" where
  "default_runtime k = \<lparr>rt_task_id = k, rt_enabled = True, rt_status = ''idle'', rt_dirty = True,
     rt_last_scan_at_ms = None, rt_last_error = None, rt_network_status = ''unpaired'',
     rt_network_error = None\<rparr>"

text \<open>
  What each migration does to rows that are already there: the second adds an empty path to the
  transfers, the sixth gives every task its runtime row, the seventh adds the network columns and
  marks the tasks that have a connection.  The others only create tables, which are empty.
\<close>

definition migration_rows :: "nat \<Rightarrow> tables \<Rightarrow> tables" where
  "migration_rows n t =
     (if n = 1 then t\<lparr>t_tasks := [], t_file_records := [], t_transfers := [], t_transfer_chunks := [],
         t_peer_state := [], t_conflicts := []\<rparr>
      else if n = 2 then t\<lparr>t_transfers := map (\<lambda>r. r\<lparr>row_transfer := (row_transfer r)\<lparr>tr_relative_path := []\<rparr>\<rparr>)
         (t_transfers t)\<rparr>
      else if n = 3 then t\<lparr>t_version_lineage := [], t_task_clocks := []\<rparr>
      else if n = 4 then t\<lparr>t_engine_events := [], t_last_event_id := 0\<rparr>
      else if n = 5 then t\<lparr>t_policy_revisions := [], t_policy_state := []\<rparr>
      else if n = 6 then t\<lparr>t_task_runtime := map (default_runtime \<circ> td_task_id) (t_tasks t),
         t_task_connections := [], t_task_members := []\<rparr>
      else if n = 7 then t\<lparr>t_task_runtime := map (\<lambda>r. r\<lparr>rt_network_error := None,
           rt_network_status := if has_key tc_task_id (rt_task_id r) (t_task_connections t)
                                then ''offline'' else ''unpaired''\<rparr>) (t_task_runtime t)\<rparr>
      else t\<lparr>t_pending_policies := []\<rparr>)"

definition run_migration :: "nat \<Rightarrow> (Database, unit) op" where
  "run_migration n d =
     (if SchemaVersion (db_tables d) < n
      then InTransaction (modifyS (\<lambda>d. d\<lparr>db_tables := (migration_rows n (db_tables d))
             \<lparr>t_schema_versions := t_schema_versions (db_tables d) @ [n]\<rparr>\<rparr>)) d
      else (Inr (), d))"

definition ApplyMigrations :: "(Database, unit) op" where
  "ApplyMigrations = forS run_migration [1, 2, 3, 4, 5, 6, 7, 8]"

end
