(* ===== verification/Database_Ops.thy ===== *)
theory Database_Ops
  imports Database_Schema
begin

text \<open>
  The operations of the class \<^verbatim>\<open>Database\<close> (\<^verbatim>\<open>engine/storage/database.cpp\<close>), in the order of the
  source file.  Each is the whole member function: the argument checks, the statements with the
  constraints the schema puts on them, the row-count checks, and the transaction around them.  Writing
  operations return the connection they leave behind together with the result or the exception;
  reading operations are functions of the tables.
\<close>

section \<open>Ignore-policy negotiation\<close>

definition SavePendingIgnorePolicy :: "PendingIgnorePolicy \<Rightarrow> (Database, unit) op" where
  "SavePendingIgnorePolicy policy =
     statement ''persist policy negotiation'' (\<lambda>t.
       let row = \<lparr>pp_task_id = cstr (pp_task_id policy), pp_proposal_id = cstr (pp_proposal_id policy),
             pp_origin_device_id = cstr (pp_origin_device_id policy),
             pp_base_hash = cstr (pp_base_hash policy), pp_rules = cstr (pp_rules policy),
             pp_source = cstr (pp_source policy), pp_state = cstr (pp_state policy)\<rparr> in
       if pp_source row \<notin> {''manual'', ''ai'', ''undo''} \<or>
          pp_state row \<notin> {''proposed'', ''prepared'', ''committed'', ''applied''}
       then Inl kCheck
       else if \<not> task_exists (pp_task_id row) t then Inl kForeignKey
       else Inr (t\<lparr>t_pending_policies := upsert_row pp_task_id row (t_pending_policies t)\<rparr>))"

definition FindPendingIgnorePolicy :: "string \<Rightarrow> tables \<Rightarrow> PendingIgnorePolicy option" where
  "FindPendingIgnorePolicy task_id t =
     map_option (\<lambda>row. row\<lparr>pp_task_id := task_id\<rparr>) (row_of pp_task_id (cstr task_id) (t_pending_policies t))"

definition ClearPendingIgnorePolicy :: "string \<Rightarrow> (Database, unit) op" where
  "ClearPendingIgnorePolicy task_id =
     statement ''delete pending policy'' (\<lambda>t.
       Inr (t\<lparr>t_pending_policies :=
         delete_rows (\<lambda>row. pp_task_id row = cstr task_id) (t_pending_policies t)\<rparr>))"

section \<open>Tasks\<close>

text \<open>
  What \<^verbatim>\<open>CreateTask\<close> asks the file system: whether the root is a directory, the database path and its
  ancestors from the innermost outwards (nothing when the path cannot be resolved), and whether an
  ancestor and the root are the same directory.
\<close>

record path_view =
  view_is_directory :: "string \<Rightarrow> bool"
  view_database_ancestors :: "string list option"
  view_equivalent :: "string \<Rightarrow> string \<Rightarrow> bool"

definition check_outside_root :: "path_view \<Rightarrow> string \<Rightarrow> unit result" where
  "check_outside_root view root =
     (if \<not> view_is_directory view root then Inr ()
      else case view_database_ancestors view of
        None \<Rightarrow> Inl (Invalid_argument ''cannot resolve database path'')
      | Some parents \<Rightarrow>
          if \<exists>parent \<in> set parents. view_equivalent view parent root
          then Inl (Invalid_argument ''database path must be outside the task root'')
          else Inr ())"

definition insert_task :: "TaskDefinition \<Rightarrow> tables \<Rightarrow> string + tables" where
  "insert_task row t =
     (if td_mode row \<notin> {''one_way'', ''bidirectional''} \<or> td_role row \<notin> {''source'', ''target'', ''peer''}
      then Inl kCheck
      else if task_exists (td_task_id row) t \<or> has_key rt_task_id (td_task_id row) (t_task_runtime t)
      then Inl kUnique
      else Inr (t\<lparr>t_tasks := t_tasks t @ [row],
                 t_task_runtime := t_task_runtime t @ [default_runtime (td_task_id row)]\<rparr>))"

definition CreateTask :: "path_view \<Rightarrow> TaskDefinition \<Rightarrow> (Database, unit) op" where
  "CreateTask view task =
     thenS (guardS (td_task_id task = [] \<or> td_root_path task = [])
         (Invalid_argument ''task id and root path are required''))
    (thenS (liftS (\<lambda>_. check_outside_root view (td_root_path task)))
    (thenS (guardS ((td_mode task = ''one_way'' \<and> td_role task \<noteq> ''source'' \<and> td_role task \<noteq> ''target'') \<or>
                    (td_mode task = ''bidirectional'' \<and> td_role task \<noteq> ''peer''))
         (Invalid_argument ''task mode and role are incompatible''))
    (statement ''insert task'' (insert_task
       \<lparr>td_task_id = cstr (td_task_id task), td_mode = cstr (td_mode task),
        td_role = cstr (td_role task), td_root_path = cstr (td_root_path task)\<rparr>))))"

definition FindTask :: "string \<Rightarrow> tables \<Rightarrow> TaskDefinition option result" where
  "FindTask task_id t =
     (if task_id = [] then Inl (Invalid_argument ''task id is required'')
      else Inr (map_option (\<lambda>row. row\<lparr>td_task_id := task_id\<rparr>)
        (row_of td_task_id (cstr task_id) (t_tasks t))))"

definition ListTasks :: "tables \<Rightarrow> TaskDefinition list" where
  "ListTasks t = order_by td_task_id (t_tasks t)"

text \<open>
  The deletions of \<^verbatim>\<open>DeleteTask\<close>, in order.  The last one also fires the foreign-key actions: the
  cascading tables lose the rows of the task and the events keep theirs without the task.
\<close>

definition delete_task_rows :: "string \<Rightarrow> tables \<Rightarrow> tables" where
  "delete_task_rows k t =
     (let t1 = t\<lparr>t_transfer_chunks := delete_rows (\<lambda>c. \<exists>r \<in> set (t_transfers t).
               tr_task_id (row_transfer r) = k \<and> transfer_key r = ck_transfer_id c) (t_transfer_chunks t)\<rparr>;
          t2 = t1\<lparr>t_transfers := delete_rows (\<lambda>r. tr_task_id (row_transfer r) = k) (t_transfers t1)\<rparr>;
          t3 = t2\<lparr>t_conflicts := delete_rows (\<lambda>r. cr_task_id r = k) (t_conflicts t2)\<rparr>;
          t4 = t3\<lparr>t_policy_state := delete_rows (\<lambda>r. pst_task_id r = k) (t_policy_state t3)\<rparr>;
          t5 = t4\<lparr>t_policy_revisions := delete_rows (\<lambda>r. ip_task_id r = k) (t_policy_revisions t4)\<rparr>;
          t6 = t5\<lparr>t_version_lineage := delete_rows (\<lambda>r. vl_task_id r = k) (t_version_lineage t5)\<rparr>;
          t7 = t6\<lparr>t_task_clocks := delete_rows (\<lambda>r. fst r = k) (t_task_clocks t6)\<rparr>;
          t8 = t7\<lparr>t_peer_state := delete_rows (\<lambda>r. fst r = k) (t_peer_state t7)\<rparr> in
      t8\<lparr>t_file_records := delete_rows (\<lambda>r. fr_task_id r = k) (t_file_records t8)\<rparr>)"

definition delete_task_row :: "string \<Rightarrow> tables \<Rightarrow> tables" where
  "delete_task_row k t =
     t\<lparr>t_tasks := delete_rows (\<lambda>r. td_task_id r = k) (t_tasks t),
       t_task_runtime := delete_rows (\<lambda>r. rt_task_id r = k) (t_task_runtime t),
       t_task_connections := delete_rows (\<lambda>r. tc_task_id r = k) (t_task_connections t),
       t_task_members := delete_rows (\<lambda>r. tm_task_id r = k) (t_task_members t),
       t_pending_policies := delete_rows (\<lambda>r. pp_task_id r = k) (t_pending_policies t),
       t_engine_events := update_rows (\<lambda>r. ev_task_id r = Some k) (\<lambda>r. r\<lparr>ev_task_id := None\<rparr>)
         (t_engine_events t)\<rparr>"

definition DeleteTask :: "string \<Rightarrow> (Database, unit) op" where
  "DeleteTask task_id =
     thenS (guardS (task_id = []) (Invalid_argument ''task id is required''))
    (InTransaction
      (thenS (modifyS (\<lambda>d. d\<lparr>db_tables := delete_task_rows (cstr task_id) (db_tables d)\<rparr>))
      (bindS (query (\<lambda>t. changes (\<lambda>r. td_task_id r = cstr task_id) (t_tasks t))) (\<lambda>changed.
       thenS (modifyS (\<lambda>d. d\<lparr>db_tables := delete_task_row (cstr task_id) (db_tables d)\<rparr>))
      (guardS (changed \<noteq> 1) (Invalid_argument ''task does not exist''))))))"

section \<open>Runtime state\<close>

definition RuntimeState :: "string \<Rightarrow> tables \<Rightarrow> TaskRuntimeState result" where
  "RuntimeState task_id t =
     (if task_id = [] then Inl (Invalid_argument ''task id is required'')
      else case row_of rt_task_id (cstr task_id) (t_task_runtime t) of
        None \<Rightarrow> Inl (Invalid_argument ''task does not exist'')
      | Some row \<Rightarrow> Inr (row\<lparr>rt_task_id := task_id\<rparr>))"

text \<open>An update by key that must change exactly one row.\<close>

definition update_runtime :: "string \<Rightarrow> string \<Rightarrow> (TaskRuntimeState \<Rightarrow> TaskRuntimeState) \<Rightarrow> (Database, unit) op" where
  "update_runtime operation k f =
     bindS (query (\<lambda>t. changes (\<lambda>r. rt_task_id r = k) (t_task_runtime t))) (\<lambda>changed.
     thenS (statement operation (\<lambda>t.
        Inr (t\<lparr>t_task_runtime := update_rows (\<lambda>r. rt_task_id r = k) f (t_task_runtime t)\<rparr>)))
     (guardS (changed \<noteq> 1) (Invalid_argument ''task does not exist'')))"

definition UpdateTaskNetworkState :: "string \<Rightarrow> string \<Rightarrow> string option \<Rightarrow> (Database, unit) op" where
  "UpdateTaskNetworkState task_id network_status network_error =
     thenS (guardS (task_id = [] \<or>
         network_status \<notin> set [''unpaired'', ''offline'', ''connecting'', ''online'', ''error''])
         (Invalid_argument ''task network state is invalid''))
    (update_runtime ''update task network state'' (cstr task_id) (\<lambda>r.
       r\<lparr>rt_network_status := cstr network_status, rt_network_error := map_option cstr network_error\<rparr>))"

definition SetTaskEnabled :: "string \<Rightarrow> bool \<Rightarrow> (Database, unit) op" where
  "SetTaskEnabled task_id enabled =
     thenS (guardS (task_id = []) (Invalid_argument ''task id is required''))
    (update_runtime ''update task enabled'' (cstr task_id) (\<lambda>r.
       r\<lparr>rt_enabled := enabled, rt_status := (if enabled then ''idle'' else ''paused''),
         rt_dirty := (if enabled then True else rt_dirty r), rt_last_error := None\<rparr>))"

definition UpdateTaskRuntime ::
  "string \<Rightarrow> string \<Rightarrow> bool \<Rightarrow> int option \<Rightarrow> string option \<Rightarrow> (Database, unit) op" where
  "UpdateTaskRuntime task_id status dirty last_scan_at_ms last_error =
     thenS (guardS (task_id = [] \<or>
         status \<notin> set [''idle'', ''watching'', ''connecting'', ''online'', ''paused'', ''error''])
         (Invalid_argument ''task runtime state is invalid''))
    (update_runtime ''update task runtime'' (cstr task_id) (\<lambda>r.
       r\<lparr>rt_status := cstr status, rt_dirty := dirty, rt_last_scan_at_ms := last_scan_at_ms,
         rt_last_error := map_option cstr last_error\<rparr>))"

section \<open>Connections and members\<close>

definition ConfigureTaskConnection :: "TaskConnection \<Rightarrow> (Database, unit) op" where
  "ConfigureTaskConnection c =
     thenS (guardS (tc_task_id c = [] \<or> tc_tracker_url c = [] \<or> tc_room_id c = [] \<or>
         length (tc_authorization_digest c) \<noteq> 64 \<or> tc_joined_at_ms c \<le> 0)
         (Invalid_argument ''task connection is invalid''))
    (statement ''upsert task connection'' (\<lambda>t.
       let row = \<lparr>tc_task_id = cstr (tc_task_id c), tc_tracker_url = cstr (tc_tracker_url c),
             tc_room_id = cstr (tc_room_id c),
             tc_authorization_digest = cstr (tc_authorization_digest c),
             tc_joined_at_ms = tc_joined_at_ms c\<rparr> in
       if \<not> task_exists (tc_task_id row) t then Inl kForeignKey
       else Inr (t\<lparr>t_task_connections := upsert_row tc_task_id row (t_task_connections t)\<rparr>)))"

definition FindTaskConnection :: "string \<Rightarrow> tables \<Rightarrow> TaskConnection option result" where
  "FindTaskConnection task_id t =
     (if task_id = [] then Inl (Invalid_argument ''task id is required'')
      else Inr (map_option (\<lambda>row. row\<lparr>tc_task_id := task_id\<rparr>)
        (row_of tc_task_id (cstr task_id) (t_task_connections t))))"

definition UpsertTaskMember :: "TaskMember \<Rightarrow> (Database, unit) op" where
  "UpsertTaskMember m =
     thenS (guardS (tm_task_id m = [] \<or> tm_device_id m = [] \<or> length (tm_fingerprint m) \<noteq> 64 \<or>
         tm_role m \<notin> set [''source'', ''target'', ''peer''] \<or> tm_authorized_at_ms m \<le> 0)
         (Invalid_argument ''task member is invalid''))
    (statement ''upsert task member'' (\<lambda>t.
       let row = \<lparr>tm_task_id = cstr (tm_task_id m), tm_device_id = cstr (tm_device_id m),
             tm_fingerprint = cstr (tm_fingerprint m), tm_role = cstr (tm_role m),
             tm_authorized_at_ms = tm_authorized_at_ms m, tm_revoked = tm_revoked m\<rparr> in
       if \<not> task_exists (tm_task_id row) t then Inl kForeignKey
       else Inr (t\<lparr>t_task_members := upsert_row member_key row (t_task_members t)\<rparr>)))"

definition ListTaskMembers :: "string \<Rightarrow> tables \<Rightarrow> TaskMember list result" where
  "ListTaskMembers task_id t =
     (if task_id = [] then Inl (Invalid_argument ''task id is required'')
      else Inr (map (\<lambda>row. row\<lparr>tm_task_id := task_id\<rparr>)
        (order_by tm_device_id (filter (\<lambda>row. tm_task_id row = cstr task_id) (t_task_members t)))))"

section \<open>File records\<close>

definition UpsertFileRecord :: "FileRecord \<Rightarrow> (Database, unit) op" where
  "UpsertFileRecord r =
     thenS (liftS (\<lambda>_. ValidateFileRecord r))
    (statement ''upsert file record'' (\<lambda>t.
       let row = r\<lparr>fr_task_id := cstr (fr_task_id r), fr_relative_path := cstr (fr_relative_path r),
             fr_version_id := cstr (fr_version_id r),
             fr_origin_device_id := cstr (fr_origin_device_id r)\<rparr> in
       if \<not> task_exists (fr_task_id row) t then Inl kForeignKey
       else Inr (t\<lparr>t_file_records := upsert_row file_key row (t_file_records t)\<rparr>)))"

definition RecordTombstone ::
  "string \<Rightarrow> string \<Rightarrow> string \<Rightarrow> string \<Rightarrow> u64 \<Rightarrow> int \<Rightarrow> (Database, unit) op" where
  "RecordTombstone task_id relative_path version_id origin_device_id logical_clock deleted_at_ms =
     UpsertFileRecord \<lparr>fr_task_id = task_id, fr_relative_path = relative_path, fr_kind = fkTombstone,
       fr_size = 0, fr_mtime_ns = 0, fr_content_hash = [], fr_version_id = version_id,
       fr_origin_device_id = origin_device_id, fr_logical_clock = logical_clock,
       fr_deleted_at_ms = Some deleted_at_ms\<rparr>"

text \<open>Reading a row back: the kind goes through its name.\<close>

definition read_file_record :: "string \<Rightarrow> string \<Rightarrow> FileRecord \<Rightarrow> FileRecord result" where
  "read_file_record task_id relative_path row =
     bindE (ParseFileKind (FileKindName (fr_kind row))) (\<lambda>kind.
       Inr (row\<lparr>fr_task_id := task_id, fr_relative_path := relative_path, fr_kind := kind\<rparr>))"

definition FindFileRecord :: "string \<Rightarrow> string \<Rightarrow> tables \<Rightarrow> FileRecord option result" where
  "FindFileRecord task_id relative_path t =
     bindE (ValidateRelativePath relative_path) (\<lambda>_.
       case row_of file_key (cstr task_id, cstr relative_path) (t_file_records t) of
         None \<Rightarrow> Inr None
       | Some row \<Rightarrow> bindE (read_file_record task_id relative_path row) (\<lambda>r. Inr (Some r)))"

definition ListFileRecords :: "string \<Rightarrow> tables \<Rightarrow> FileRecord list result" where
  "ListFileRecords task_id t =
     (if task_id = [] then Inl (Invalid_argument ''task id is required'')
      else mapE (\<lambda>row. read_file_record task_id (fr_relative_path row) row)
        (order_by fr_relative_path (filter (\<lambda>row. fr_task_id row = cstr task_id) (t_file_records t))))"

section \<open>Version lineage\<close>

definition FindVersionLineage :: "string \<Rightarrow> string \<Rightarrow> tables \<Rightarrow> VersionLineage option result" where
  "FindVersionLineage task_id version_id t =
     (if task_id = [] \<or> version_id = []
      then Inl (Invalid_argument ''version lineage lookup is invalid'')
      else Inr (map_option (\<lambda>row. row\<lparr>vl_task_id := task_id, vl_version_id := version_id\<rparr>)
        (row_of lineage_key (cstr task_id, cstr version_id) (t_version_lineage t))))"

definition insert_lineage :: "VersionLineage \<Rightarrow> tables \<Rightarrow> string + tables" where
  "insert_lineage row t =
     (if has_key lineage_key (lineage_key row) (t_version_lineage t) then Inl kUnique
      else if \<not> task_exists (vl_task_id row) t then Inl kForeignKey
      else Inr (t\<lparr>t_version_lineage := t_version_lineage t @ [row]\<rparr>))"

definition RecordVersionLineage :: "VersionLineage \<Rightarrow> (Database, unit) op" where
  "RecordVersionLineage l =
     thenS (guardS (vl_task_id l = [] \<or> vl_version_id l = [] \<or>
         (case vl_parent_version_id l of None \<Rightarrow> False | Some p \<Rightarrow> p = [] \<or> p = vl_version_id l))
         (Invalid_argument ''version lineage is invalid''))
    (bindS (liftS (\<lambda>d. FindVersionLineage (vl_task_id l) (vl_version_id l) (db_tables d))) (\<lambda>existing.
       case existing of
         Some e \<Rightarrow> guardS (vl_parent_version_id e \<noteq> vl_parent_version_id l)
           (Invalid_argument ''version lineage parent is immutable'')
       | None \<Rightarrow> statement ''insert version lineage'' (insert_lineage
           \<lparr>vl_task_id = cstr (vl_task_id l), vl_version_id = cstr (vl_version_id l),
            vl_parent_version_id = map_option cstr (vl_parent_version_id l)\<rparr>)))"

definition ListVersionLineage :: "string \<Rightarrow> tables \<Rightarrow> VersionLineage list result" where
  "ListVersionLineage task_id t =
     (if task_id = [] then Inl (Invalid_argument ''version lineage task id is required'')
      else Inr (map (\<lambda>row. row\<lparr>vl_task_id := task_id\<rparr>)
        (order_by vl_version_id (filter (\<lambda>row. vl_task_id row = cstr task_id) (t_version_lineage t)))))"

definition kMaxAncestryDepth :: nat where "kMaxAncestryDepth = 100000"

text \<open>The walk towards the root; the first argument is the number of rounds left.\<close>

fun ancestor_walk :: "nat \<Rightarrow> string \<Rightarrow> string \<Rightarrow> string \<Rightarrow> tables \<Rightarrow> bool result" where
  "ancestor_walk 0 task_id ancestor current t =
     Inl (Runtime_error ''version ancestry depth exceeds limit'')"
| "ancestor_walk (Suc n) task_id ancestor current t =
     (if current = ancestor then Inr True
      else bindE (FindVersionLineage task_id current t) (\<lambda>lineage.
        case lineage of
          None \<Rightarrow> Inr False
        | Some l \<Rightarrow> (case vl_parent_version_id l of
              None \<Rightarrow> Inr False
            | Some p \<Rightarrow> ancestor_walk n task_id ancestor p t)))"

definition IsVersionAncestor :: "string \<Rightarrow> string \<Rightarrow> string \<Rightarrow> tables \<Rightarrow> bool result" where
  "IsVersionAncestor task_id ancestor_version_id descendant_version_id t =
     (if task_id = [] \<or> ancestor_version_id = [] \<or> descendant_version_id = []
      then Inl (Invalid_argument ''version ancestry lookup is invalid'')
      else ancestor_walk kMaxAncestryDepth task_id ancestor_version_id descendant_version_id t)"

section \<open>Logical clock\<close>

definition kInt64Max :: nat where "kInt64Max = 2 ^ 63 - 1"

definition advance_clock :: "string \<Rightarrow> u64 \<Rightarrow> (Database, u64) op" where
  "advance_clock task_id observed =
     bindS (query (\<lambda>t. case row_of fst (cstr task_id) (t_task_clocks t) of
         None \<Rightarrow> 0 | Some (_, clock) \<Rightarrow> clock)) (\<lambda>current.
     let base = max current observed in
     thenS (guardS (unat base = kInt64Max) (Overflow_error ''logical clock overflow''))
    (thenS (statement ''update logical clock'' (\<lambda>t.
        if kInt64Max < unat (base + 1) then Inl kCheck
        else if \<not> task_exists (cstr task_id) t then Inl kForeignKey
        else Inr (t\<lparr>t_task_clocks := upsert_row fst (cstr task_id, base + 1) (t_task_clocks t)\<rparr>)))
     (returnS (base + 1))))"

definition AdvanceLogicalClock :: "string \<Rightarrow> u64 \<Rightarrow> (Database, u64) op" where
  "AdvanceLogicalClock task_id observed =
     thenS (guardS (task_id = [] \<or> kInt64Max < unat observed)
         (Invalid_argument ''logical clock arguments are invalid''))
    (bindS (getS autocommit) (\<lambda>owns_transaction.
       if owns_transaction then InTransaction (advance_clock task_id observed)
       else advance_clock task_id observed))"

section \<open>Conflicts and events\<close>

definition RecordConflict :: "ConflictRecord \<Rightarrow> (Database, unit) op" where
  "RecordConflict c =
     thenS (guardS (cr_conflict_id c = [] \<or> cr_task_id c = [] \<or> cr_original_path c = [] \<or>
         cr_winning_version_id c = [] \<or> cr_conflict_path c = [] \<or> cr_state c = [] \<or>
         cr_created_at_ms c \<le> 0) (Invalid_argument ''conflict record is invalid''))
    (thenS (liftS (\<lambda>_. ValidateRelativePath (cr_original_path c)))
    (thenS (liftS (\<lambda>_. ValidateRelativePath (cr_conflict_path c)))
    (statement ''insert conflict'' (\<lambda>t.
       let row = \<lparr>cr_conflict_id = cstr (cr_conflict_id c), cr_task_id = cstr (cr_task_id c),
             cr_original_path = cstr (cr_original_path c),
             cr_winning_version_id = cstr (cr_winning_version_id c),
             cr_conflict_path = cstr (cr_conflict_path c), cr_state = cstr (cr_state c),
             cr_created_at_ms = cr_created_at_ms c\<rparr> in
       if has_key cr_conflict_id (cr_conflict_id row) (t_conflicts t) then Inl kUnique
       else if \<not> task_exists (cr_task_id row) t then Inl kForeignKey
       else Inr (t\<lparr>t_conflicts := t_conflicts t @ [row]\<rparr>)))))"

definition ListConflicts :: "string \<Rightarrow> tables \<Rightarrow> ConflictRecord list result" where
  "ListConflicts task_id t =
     (if task_id = [] then Inl (Invalid_argument ''conflict task id is required'')
      else Inr (map (\<lambda>row. row\<lparr>cr_task_id := task_id\<rparr>)
        (order_by (\<lambda>row. (cr_created_at_ms row, cr_conflict_id row))
          (filter (\<lambda>row. cr_task_id row = cstr task_id) (t_conflicts t)))))"

definition ListAllConflicts :: "tables \<Rightarrow> ConflictRecord list" where
  "ListAllConflicts t = order_by (\<lambda>row. (cr_created_at_ms row, cr_conflict_id row)) (t_conflicts t)"

definition UpdateConflictState :: "string \<Rightarrow> string \<Rightarrow> (Database, unit) op" where
  "UpdateConflictState conflict_id state =
     thenS (guardS (conflict_id = [] \<or> (state \<noteq> ''unresolved'' \<and> state \<noteq> ''resolved''))
         (Invalid_argument ''conflict state update is invalid''))
    (bindS (query (\<lambda>t. changes (\<lambda>r. cr_conflict_id r = cstr conflict_id) (t_conflicts t))) (\<lambda>changed.
     thenS (statement ''update conflict state'' (\<lambda>t.
        Inr (t\<lparr>t_conflicts := update_rows (\<lambda>r. cr_conflict_id r = cstr conflict_id)
          (\<lambda>r. r\<lparr>cr_state := cstr state\<rparr>) (t_conflicts t)\<rparr>)))
     (guardS (changed \<noteq> 1) (Invalid_argument ''conflict does not exist''))))"

definition RecordEngineEvent :: "EngineEvent \<Rightarrow> (Database, unit) op" where
  "RecordEngineEvent e =
     thenS (guardS (ev_task_id e = Some [] \<or> ev_level e \<notin> set [''info'', ''warning'', ''error''] \<or>
         ev_message e = [] \<or> ev_created_at_ms e \<le> 0) (Invalid_argument ''engine event is invalid''))
    (statement ''insert engine event'' (\<lambda>t.
       let row = \<lparr>ev_event_id = t_last_event_id t + 1, ev_task_id = map_option cstr (ev_task_id e),
             ev_level = cstr (ev_level e), ev_message = cstr (ev_message e),
             ev_created_at_ms = ev_created_at_ms e\<rparr> in
       if (case ev_task_id row of None \<Rightarrow> False | Some k \<Rightarrow> \<not> task_exists k t) then Inl kForeignKey
       else Inr (t\<lparr>t_engine_events := t_engine_events t @ [row], t_last_event_id := ev_event_id row\<rparr>)))"

definition ListEngineEvents :: "nat \<Rightarrow> tables \<Rightarrow> EngineEvent list result" where
  "ListEngineEvents limit t =
     (if limit = 0 \<or> 1000 < limit then Inl (Invalid_argument ''event list limit is invalid'')
      else Inr (take limit (order_by (\<lambda>row. - ev_event_id row) (t_engine_events t))))"

section \<open>Ignore-policy revisions\<close>

definition next_revision :: "string \<Rightarrow> tables \<Rightarrow> nat" where
  "next_revision k t =
     fold max (map ip_revision (filter (\<lambda>r. ip_task_id r = k) (t_policy_revisions t))) 0 + 1"

definition RecordIgnorePolicyRevision ::
  "string \<Rightarrow> string \<Rightarrow> string \<Rightarrow> string \<Rightarrow> int \<Rightarrow> (Database, IgnorePolicyRevision) op" where
  "RecordIgnorePolicyRevision task_id content content_hash source created_at_ms =
     thenS (guardS (task_id = [] \<or> 16 * 1024 < length content \<or> length content_hash \<noteq> 64 \<or>
         source \<notin> set [''manual'', ''ai'', ''undo''] \<or> created_at_ms \<le> 0)
         (Invalid_argument ''ignore policy revision is invalid''))
    (InTransaction
      (bindS (query (next_revision (cstr task_id))) (\<lambda>revision.
       let recorded = \<lparr>ip_task_id = task_id, ip_revision = revision, ip_content = content,
             ip_content_hash = content_hash, ip_source = source, ip_created_at_ms = created_at_ms\<rparr> in
       thenS (statement ''insert ignore policy revision'' (\<lambda>t.
         let row = recorded\<lparr>ip_task_id := cstr task_id, ip_content_hash := cstr content_hash,
               ip_source := cstr source\<rparr> in
         if has_key revision_key (revision_key row) (t_policy_revisions t) then Inl kUnique
         else if \<not> task_exists (ip_task_id row) t then Inl kForeignKey
         else Inr (t\<lparr>t_policy_revisions := t_policy_revisions t @ [row]\<rparr>)))
      (thenS (statement ''update ignore policy state'' (\<lambda>t.
         let row = \<lparr>pst_task_id = cstr task_id, pst_revision = revision,
               pst_content_hash = cstr content_hash, pst_updated_at_ms = created_at_ms\<rparr> in
         if \<not> task_exists (pst_task_id row) t \<or>
            \<not> has_key revision_key (pst_task_id row, pst_revision row) (t_policy_revisions t)
         then Inl kForeignKey
         else Inr (t\<lparr>t_policy_state := upsert_row pst_task_id row (t_policy_state t)\<rparr>)))
       (returnS recorded)))))"

text \<open>The stored content may hold a NUL; it is read back as a C string.\<close>

definition read_revision :: "string \<Rightarrow> IgnorePolicyRevision \<Rightarrow> IgnorePolicyRevision" where
  "read_revision task_id row = row\<lparr>ip_task_id := task_id, ip_content := cstr (ip_content row)\<rparr>"

definition CurrentIgnorePolicyRevision :: "string \<Rightarrow> tables \<Rightarrow> IgnorePolicyRevision option result" where
  "CurrentIgnorePolicyRevision task_id t =
     (if task_id = [] then Inl (Invalid_argument ''ignore policy task is required'')
      else Inr (case row_of pst_task_id (cstr task_id) (t_policy_state t) of
          None \<Rightarrow> None
        | Some s \<Rightarrow> map_option (read_revision task_id)
            (row_of revision_key (pst_task_id s, pst_revision s) (t_policy_revisions t))))"

definition ListIgnorePolicyRevisions :: "string \<Rightarrow> nat \<Rightarrow> tables \<Rightarrow> IgnorePolicyRevision list result" where
  "ListIgnorePolicyRevisions task_id limit t =
     (if task_id = [] \<or> limit = 0 \<or> 200 < limit
      then Inl (Invalid_argument ''ignore policy history request is invalid'')
      else Inr (map (read_revision task_id) (take limit
        (order_by (\<lambda>row. - int (ip_revision row))
          (filter (\<lambda>row. ip_task_id row = cstr task_id) (t_policy_revisions t))))))"

section \<open>Transfers\<close>

definition CreateTransfer :: "TransferRecord \<Rightarrow> (Database, unit) op" where
  "CreateTransfer r =
     thenS (liftS (\<lambda>_. ValidateTransfer r))
    (statement ''insert transfer'' (\<lambda>t.
       let row = \<lparr>row_transfer = r\<lparr>tr_task_id := cstr (tr_task_id r),
             tr_peer_device_id := cstr (tr_peer_device_id r), tr_direction := cstr (tr_direction r),
             tr_state := cstr (tr_state r), tr_relative_path := cstr (tr_relative_path r)\<rparr>,
             row_error_code = None\<rparr> in
       if has_key transfer_key (transfer_key row) (t_transfers t) then Inl kUnique
       else if \<not> task_exists (tr_task_id (row_transfer row)) t then Inl kForeignKey
       else Inr (t\<lparr>t_transfers := t_transfers t @ [row]\<rparr>)))"

definition active_download :: "string \<Rightarrow> string \<Rightarrow> string \<Rightarrow> bytes \<Rightarrow> TransferRecord \<Rightarrow> bool" where
  "active_download task_id peer_device_id relative_path file_hash r \<longleftrightarrow>
     tr_task_id r = cstr task_id \<and> tr_peer_device_id r = cstr peer_device_id \<and>
     tr_relative_path r = cstr relative_path \<and> tr_file_hash r = file_hash \<and>
     tr_direction r = ''download'' \<and> tr_state r = ''active''"

definition FindActiveDownloadTransfer ::
  "string \<Rightarrow> string \<Rightarrow> string \<Rightarrow> bytes \<Rightarrow> tables \<Rightarrow> TransferRecord option result" where
  "FindActiveDownloadTransfer task_id peer_device_id relative_path file_hash t =
     (if task_id = [] \<or> peer_device_id = [] \<or> length file_hash \<noteq> 32
      then Inl (Invalid_argument ''active transfer lookup is invalid'')
      else bindE (ValidateRelativePath relative_path) (\<lambda>_.
        case order_by (\<lambda>r. - tr_created_at_ms r)
            (filter (active_download task_id peer_device_id relative_path file_hash)
              (map row_transfer (t_transfers t))) of
          [] \<Rightarrow> Inr None
        | r # _ \<Rightarrow>
            if length (tr_transfer_id r) \<noteq> 16
            then Inl (Runtime_error ''database contains an invalid transfer id'')
            else Inr (Some (r\<lparr>tr_task_id := task_id, tr_peer_device_id := peer_device_id\<rparr>))))"

definition update_transfer ::
  "string \<Rightarrow> TransferId \<Rightarrow> (TransferRow \<Rightarrow> TransferRow) \<Rightarrow> (Database, unit) op" where
  "update_transfer operation transfer_id f =
     bindS (query (\<lambda>t. changes (\<lambda>r. transfer_key r = transfer_id) (t_transfers t))) (\<lambda>changed.
     thenS (statement operation (\<lambda>t.
        Inr (t\<lparr>t_transfers := update_rows (\<lambda>r. transfer_key r = transfer_id) f (t_transfers t)\<rparr>)))
     (guardS (changed \<noteq> 1) (Invalid_argument ''transfer does not exist'')))"

definition mark_chunk :: "TransferId \<Rightarrow> u64 \<Rightarrow> (Database, unit) op" where
  "mark_chunk transfer_id chunk_index =
     statement ''mark transfer chunk complete'' (\<lambda>t.
       if \<not> has_key transfer_key transfer_id (t_transfers t) then Inl kForeignKey
       else Inr (t\<lparr>t_transfer_chunks := upsert_row chunk_key
          \<lparr>ck_transfer_id = transfer_id, ck_chunk_index = chunk_index, ck_completed = True\<rparr>
          (t_transfer_chunks t)\<rparr>))"

definition MarkTransferChunksCompleted :: "TransferId \<Rightarrow> u64 list \<Rightarrow> int \<Rightarrow> (Database, unit) op" where
  "MarkTransferChunksCompleted transfer_id chunk_indices updated_at_ms =
     thenS (guardS (chunk_indices = [] \<or> updated_at_ms \<le> 0 \<or>
         (\<exists>i \<in> set chunk_indices. kInt64Max < unat i))
         (Invalid_argument ''transfer chunk fields are invalid''))
    (InTransaction
      (thenS (forS (mark_chunk transfer_id) chunk_indices)
      (update_transfer ''update transfer timestamp'' transfer_id (\<lambda>r.
         r\<lparr>row_transfer := (row_transfer r)\<lparr>tr_updated_at_ms := updated_at_ms\<rparr>\<rparr>))))"

definition MarkTransferChunkCompleted :: "TransferId \<Rightarrow> u64 \<Rightarrow> int \<Rightarrow> (Database, unit) op" where
  "MarkTransferChunkCompleted transfer_id chunk_index updated_at_ms =
     MarkTransferChunksCompleted transfer_id [chunk_index] updated_at_ms"

definition CompletedTransferChunks :: "TransferId \<Rightarrow> tables \<Rightarrow> u64 list" where
  "CompletedTransferChunks transfer_id t =
     map ck_chunk_index (order_by ck_chunk_index
       (filter (\<lambda>c. ck_transfer_id c = transfer_id \<and> ck_completed c) (t_transfer_chunks t)))"

definition UpdateTransferState ::
  "TransferId \<Rightarrow> string \<Rightarrow> int \<Rightarrow> string option \<Rightarrow> (Database, unit) op" where
  "UpdateTransferState transfer_id state updated_at_ms error_code =
     thenS (guardS (state \<notin> set transfer_states \<or> updated_at_ms \<le> 0)
         (Invalid_argument ''transfer state is invalid''))
    (update_transfer ''update transfer state'' transfer_id (\<lambda>r.
       r\<lparr>row_transfer := (row_transfer r)\<lparr>tr_state := cstr state, tr_updated_at_ms := updated_at_ms\<rparr>,
         row_error_code := map_option cstr error_code\<rparr>))"

definition TransferState :: "TransferId \<Rightarrow> tables \<Rightarrow> string option" where
  "TransferState transfer_id t =
     map_option (\<lambda>r. tr_state (row_transfer r)) (row_of transfer_key transfer_id (t_transfers t))"

end
