(* ===== verification/Database_Invariant.thy ===== *)
theory Database_Invariant
  imports Database_Ops
begin

text \<open>
  The integrity of the database: every primary key is unique, every reference points to an existing
  row, every task has its runtime row, the columns hold only the values their checks allow, policy
  revisions of a task are numbered from one without gaps and the current one is the last, event
  identifiers grow.  Every operation keeps this, whether it returns or throws, inside and outside a
  transaction.
\<close>

section \<open>Invariant\<close>

definition refs_to :: "('r \<Rightarrow> 'k) \<Rightarrow> 'r list \<Rightarrow> 'k set \<Rightarrow> bool" where
  "refs_to f t K \<longleftrightarrow> f ` set t \<subseteq> K"

lemma refs_to_Nil [simp]: "refs_to f [] K"
  by (simp add: refs_to_def)

lemma refs_to_append [simp]: "refs_to f (t @ [r]) K \<longleftrightarrow> refs_to f t K \<and> f r \<in> K"
  by (auto simp: refs_to_def)

lemma refs_to_upsert: "refs_to f t K \<Longrightarrow> f r \<in> K \<Longrightarrow> refs_to f (upsert_row key r t) K"
  by (auto simp: refs_to_def set_upsert_eq)

lemma refs_to_update: "refs_to f t K \<Longrightarrow> (\<And>x. f (g x) = f x) \<Longrightarrow> refs_to f (update_rows P g t) K"
  by (auto simp: refs_to_def set_update_rows image_subset_iff)

lemma refs_to_delete [simp]: "refs_to f t K \<Longrightarrow> refs_to f (delete_rows P t) K"
  by (auto simp: refs_to_def)

lemma refs_to_mono: "refs_to f t K \<Longrightarrow> K \<subseteq> L \<Longrightarrow> refs_to f t L"
  by (auto simp: refs_to_def)

lemma refs_to_insert: "refs_to f t K \<Longrightarrow> refs_to f t (insert k K)"
  by (auto simp: refs_to_def)

abbreviation task_keys :: "tables \<Rightarrow> string set" where
  "task_keys t \<equiv> td_task_id ` set (t_tasks t)"

definition keys_inv :: "tables \<Rightarrow> bool" where
  "keys_inv t \<longleftrightarrow>
     unique_key td_task_id (t_tasks t) \<and> unique_key file_key (t_file_records t) \<and>
     unique_key transfer_key (t_transfers t) \<and> unique_key chunk_key (t_transfer_chunks t) \<and>
     unique_key cr_conflict_id (t_conflicts t) \<and> unique_key lineage_key (t_version_lineage t) \<and>
     unique_key fst (t_task_clocks t) \<and> unique_key ev_event_id (t_engine_events t) \<and>
     unique_key revision_key (t_policy_revisions t) \<and> unique_key pst_task_id (t_policy_state t) \<and>
     unique_key rt_task_id (t_task_runtime t) \<and> unique_key tc_task_id (t_task_connections t) \<and>
     unique_key member_key (t_task_members t) \<and> unique_key pp_task_id (t_pending_policies t)"

definition refs_inv :: "tables \<Rightarrow> bool" where
  "refs_inv t \<longleftrightarrow>
     refs_to fr_task_id (t_file_records t) (task_keys t) \<and>
     refs_to (\<lambda>r. tr_task_id (row_transfer r)) (t_transfers t) (task_keys t) \<and>
     refs_to ck_transfer_id (t_transfer_chunks t) (transfer_key ` set (t_transfers t)) \<and>
     refs_to fst (t_peer_state t) (task_keys t) \<and>
     refs_to cr_task_id (t_conflicts t) (task_keys t) \<and>
     refs_to vl_task_id (t_version_lineage t) (task_keys t) \<and>
     refs_to fst (t_task_clocks t) (task_keys t) \<and>
     refs_to ev_task_id (t_engine_events t) (insert None (Some ` task_keys t)) \<and>
     refs_to ip_task_id (t_policy_revisions t) (task_keys t) \<and>
     refs_to pst_task_id (t_policy_state t) (task_keys t) \<and>
     rt_task_id ` set (t_task_runtime t) = task_keys t \<and>
     refs_to tc_task_id (t_task_connections t) (task_keys t) \<and>
     refs_to tm_task_id (t_task_members t) (task_keys t) \<and>
     refs_to pp_task_id (t_pending_policies t) (task_keys t)"

definition task_ok :: "TaskDefinition \<Rightarrow> bool" where
  "task_ok r \<longleftrightarrow> td_mode r \<in> {''one_way'', ''bidirectional''} \<and> td_role r \<in> {''source'', ''target'', ''peer''}"

definition runtime_ok :: "TaskRuntimeState \<Rightarrow> bool" where
  "runtime_ok r \<longleftrightarrow>
     rt_status r \<in> {''idle'', ''watching'', ''connecting'', ''online'', ''paused'', ''error''} \<and>
     rt_network_status r \<in> {''unpaired'', ''offline'', ''connecting'', ''online'', ''error''}"

definition record_ok :: "FileRecord \<Rightarrow> bool" where
  "record_ok r \<longleftrightarrow> (fr_kind r = fkFile \<longrightarrow> fr_content_hash r \<noteq> []) \<and>
     (fr_kind r = fkTombstone \<longleftrightarrow> fr_deleted_at_ms r \<noteq> None)"

definition transfer_ok :: "TransferRecord \<Rightarrow> bool" where
  "transfer_ok r \<longleftrightarrow> tr_direction r \<in> {''upload'', ''download''} \<and> tr_state r \<in> set transfer_states \<and>
     length (tr_file_hash r) = 32 \<and> (\<exists>b \<in> set (tr_transfer_id r). b \<noteq> 0)"

definition values_inv :: "tables \<Rightarrow> bool" where
  "values_inv t \<longleftrightarrow>
     (\<forall>r \<in> set (t_tasks t). task_ok r) \<and> (\<forall>r \<in> set (t_task_runtime t). runtime_ok r) \<and>
     (\<forall>r \<in> set (t_file_records t). record_ok r) \<and>
     (\<forall>r \<in> set (t_transfers t). transfer_ok (row_transfer r)) \<and>
     (\<forall>r \<in> set (t_task_clocks t). unat (snd r) \<le> kInt64Max) \<and>
     (\<forall>r \<in> set (t_engine_events t). 0 < ev_event_id r \<and> ev_event_id r \<le> t_last_event_id t) \<and>
     0 \<le> t_last_event_id t"

definition policies_inv :: "tables \<Rightarrow> bool" where
  "policies_inv t \<longleftrightarrow>
     (\<forall>k n. (\<exists>r \<in> set (t_policy_revisions t). revision_key r = (k, n)) \<longleftrightarrow>
       0 < n \<and> n < next_revision k t) \<and>
     (\<forall>s \<in> set (t_policy_state t). Suc (pst_revision s) = next_revision (pst_task_id s) t) \<and>
     ip_task_id ` set (t_policy_revisions t) = pst_task_id ` set (t_policy_state t)"

definition tables_inv :: "tables \<Rightarrow> bool" where
  "tables_inv t \<longleftrightarrow> keys_inv t \<and> refs_inv t \<and> values_inv t \<and> policies_inv t"

definition db_inv :: "Database \<Rightarrow> bool" where
  "db_inv d \<longleftrightarrow> tables_inv (db_tables d) \<and> (\<forall>t. db_saved d = Some t \<longrightarrow> tables_inv t)"

section \<open>Operations in general\<close>

lemma keepsS_query [intro, simp]: "keepsS P (query f)"
  by (simp add: keepsS_def query_def)

lemma keepsS_statement:
  assumes "\<And>t t'. tables_inv t \<Longrightarrow> f t = Inr t' \<Longrightarrow> tables_inv t'"
  shows "keepsS db_inv (statement operation f)"
  using assms by (auto simp: keepsS_def statement_def db_inv_def split: sum.splits)

lemma keepsS_InTransaction:
  assumes "keepsS db_inv m"
  shows "keepsS db_inv (InTransaction m)"
proof -
  have "db_inv (snd (InTransaction m d))" if "db_inv d" for d
  proof (cases "autocommit d")
    case True
    let ?d = "d\<lparr>db_saved := Some (db_tables d)\<rparr>"
    obtain x d' where m: "m ?d = (x, d')" by fastforce
    have "db_inv ?d" using that by (simp add: db_inv_def)
    then have "db_inv d'" using assms m by (metis keepsS_def snd_conv)
    then show ?thesis
      using True m by (cases x) (auto simp: InTransaction_def db_inv_def rollback_def split: option.splits)
  next
    case False
    with that show ?thesis by (simp add: InTransaction_def)
  qed
  then show ?thesis by (simp add: keepsS_def)
qed

lemma keepsS_tables:
  assumes "\<And>t. tables_inv t \<Longrightarrow> tables_inv (f t)"
  shows "keepsS db_inv (modifyS (\<lambda>d. d\<lparr>db_tables := f (db_tables d)\<rparr>))"
  using assms by (intro keepsS_modify) (auto simp: db_inv_def)

lemma task_exists_iff: "task_exists k t \<longleftrightarrow> k \<in> task_keys t"
  by (simp add: has_key_def)

lemmas inv_defs = tables_inv_def keys_inv_def refs_inv_def values_inv_def policies_inv_def

section \<open>One table at a time\<close>

lemma inv_set_file_records:
  "tables_inv t \<Longrightarrow> unique_key file_key x \<Longrightarrow> refs_to fr_task_id x (task_keys t) \<Longrightarrow>
   \<forall>r \<in> set x. record_ok r \<Longrightarrow> tables_inv (t\<lparr>t_file_records := x\<rparr>)"
  by (simp add: inv_defs next_revision_def)

lemma inv_set_runtime:
  "tables_inv t \<Longrightarrow> map rt_task_id x = map rt_task_id (t_task_runtime t) \<Longrightarrow>
   \<forall>r \<in> set x. runtime_ok r \<Longrightarrow> tables_inv (t\<lparr>t_task_runtime := x\<rparr>)"
  by (simp add: inv_defs next_revision_def) (metis image_set)

lemma inv_set_connections:
  "tables_inv t \<Longrightarrow> unique_key tc_task_id x \<Longrightarrow> refs_to tc_task_id x (task_keys t) \<Longrightarrow>
   tables_inv (t\<lparr>t_task_connections := x\<rparr>)"
  by (simp add: inv_defs next_revision_def)

lemma inv_set_members:
  "tables_inv t \<Longrightarrow> unique_key member_key x \<Longrightarrow> refs_to tm_task_id x (task_keys t) \<Longrightarrow>
   tables_inv (t\<lparr>t_task_members := x\<rparr>)"
  by (simp add: inv_defs next_revision_def)

lemma inv_set_pending:
  "tables_inv t \<Longrightarrow> unique_key pp_task_id x \<Longrightarrow> refs_to pp_task_id x (task_keys t) \<Longrightarrow>
   tables_inv (t\<lparr>t_pending_policies := x\<rparr>)"
  by (simp add: inv_defs next_revision_def)

lemma inv_set_lineage:
  "tables_inv t \<Longrightarrow> unique_key lineage_key x \<Longrightarrow> refs_to vl_task_id x (task_keys t) \<Longrightarrow>
   tables_inv (t\<lparr>t_version_lineage := x\<rparr>)"
  by (simp add: inv_defs next_revision_def)

lemma inv_set_clocks:
  "tables_inv t \<Longrightarrow> unique_key fst x \<Longrightarrow> refs_to fst x (task_keys t) \<Longrightarrow>
   \<forall>r \<in> set x. unat (snd r) \<le> kInt64Max \<Longrightarrow> tables_inv (t\<lparr>t_task_clocks := x\<rparr>)"
  by (simp add: inv_defs next_revision_def)

lemma inv_set_conflicts:
  "tables_inv t \<Longrightarrow> unique_key cr_conflict_id x \<Longrightarrow> refs_to cr_task_id x (task_keys t) \<Longrightarrow>
   tables_inv (t\<lparr>t_conflicts := x\<rparr>)"
  by (simp add: inv_defs next_revision_def)

lemma inv_set_chunks:
  "tables_inv t \<Longrightarrow> unique_key chunk_key x \<Longrightarrow>
   refs_to ck_transfer_id x (transfer_key ` set (t_transfers t)) \<Longrightarrow>
   tables_inv (t\<lparr>t_transfer_chunks := x\<rparr>)"
  by (simp add: inv_defs next_revision_def)

lemma inv_add_transfer:
  assumes "tables_inv t" "\<not> has_key transfer_key (transfer_key r) (t_transfers t)"
    and "tr_task_id (row_transfer r) \<in> task_keys t" "transfer_ok (row_transfer r)"
  shows "tables_inv (t\<lparr>t_transfers := t_transfers t @ [r]\<rparr>)"
proof -
  have "refs_to ck_transfer_id (t_transfer_chunks t) (transfer_key ` set (t_transfers t @ [r]))"
    using assms(1) by (auto simp: inv_defs intro: refs_to_mono)
  then show ?thesis
    using assms unique_insert [of transfer_key "t_transfers t" r]
    by (simp add: inv_defs next_revision_def)
qed

lemma inv_update_transfers:
  assumes inv: "tables_inv t" and key: "\<And>r. transfer_key (f r) = transfer_key r"
    and task: "\<And>r. tr_task_id (row_transfer (f r)) = tr_task_id (row_transfer r)"
    and ok: "\<And>r. transfer_ok (row_transfer r) \<Longrightarrow> transfer_ok (row_transfer (f r))"
  shows "tables_inv (t\<lparr>t_transfers := update_rows P f (t_transfers t)\<rparr>)"
proof -
  have keys: "map transfer_key (update_rows P f (t_transfers t)) = map transfer_key (t_transfers t)"
    by (rule map_key_update) (rule key)
  then have "transfer_key ` set (update_rows P f (t_transfers t)) = transfer_key ` set (t_transfers t)"
    by (metis image_set)
  moreover have "\<forall>r \<in> set (update_rows P f (t_transfers t)). transfer_ok (row_transfer r)"
    using inv ok by (auto simp: inv_defs set_update_rows)
  moreover have "refs_to (\<lambda>r. tr_task_id (row_transfer r)) (update_rows P f (t_transfers t)) (task_keys t)"
    using inv task by (auto simp: inv_defs intro: refs_to_update)
  ultimately show ?thesis using inv keys by (simp add: inv_defs next_revision_def)
qed

lemma inv_add_event:
  assumes "tables_inv t" "ev_event_id e = t_last_event_id t + 1"
    and "ev_task_id e \<in> insert None (Some ` task_keys t)"
  shows "tables_inv (t\<lparr>t_engine_events := t_engine_events t @ [e], t_last_event_id := ev_event_id e\<rparr>)"
proof -
  have bound: "\<forall>r \<in> set (t_engine_events t). 0 < ev_event_id r \<and> ev_event_id r \<le> t_last_event_id t"
    "0 \<le> t_last_event_id t"
    using assms(1) by (simp_all add: inv_defs)
  then have "\<not> has_key ev_event_id (ev_event_id e) (t_engine_events t)"
    using assms(2) by (auto simp: has_key_def)
  then have "unique_key ev_event_id (t_engine_events t @ [e])"
    using assms(1) by (intro unique_insert) (simp_all add: inv_defs)
  moreover have "\<forall>r \<in> set (t_engine_events t @ [e]). 0 < ev_event_id r \<and> ev_event_id r \<le> t_last_event_id t + 1"
    using bound assms(2) by auto
  ultimately show ?thesis using assms by (simp add: inv_defs next_revision_def)
qed

lemma inv_add_task:
  assumes inv: "tables_inv t" and "\<not> task_exists (td_task_id r) t"
    and "\<not> has_key rt_task_id (td_task_id r) (t_task_runtime t)" and "task_ok r"
  shows "tables_inv (t\<lparr>t_tasks := t_tasks t @ [r],
    t_task_runtime := t_task_runtime t @ [default_runtime (td_task_id r)]\<rparr>)"
proof -
  let ?K = "insert (td_task_id r) (task_keys t)"
  have "refs_to ev_task_id (t_engine_events t) (insert None (Some ` ?K))"
    using inv by (auto simp: inv_defs intro: refs_to_mono)
  moreover have "unique_key td_task_id (t_tasks t @ [r])"
    using inv assms(2) by (intro unique_insert) (simp_all add: inv_defs)
  moreover have "unique_key rt_task_id (t_task_runtime t @ [default_runtime (td_task_id r)])"
    using inv assms(3) by (intro unique_insert) (simp_all add: inv_defs default_runtime_def)
  moreover have "runtime_ok (default_runtime (td_task_id r))"
    by (simp add: runtime_ok_def default_runtime_def)
  ultimately show ?thesis
    using inv assms(4) by (simp add: inv_defs next_revision_def default_runtime_def refs_to_insert)
qed

section \<open>Policy revisions\<close>

lemma next_revision_add:
  "next_revision k (t\<lparr>t_policy_revisions := t_policy_revisions t @ [r]\<rparr>) =
    (if ip_task_id r = k then max (Suc (ip_revision r)) (next_revision k t) else next_revision k t)"
  by (simp add: next_revision_def)

lemma policies_rev:
  "policies_inv t \<Longrightarrow> (\<exists>r \<in> set (t_policy_revisions t). ip_task_id r = k \<and> ip_revision r = n) \<longleftrightarrow>
    0 < n \<and> n < next_revision k t"
  by (simp add: policies_inv_def)

lemma inv_add_revision:
  assumes inv: "tables_inv t" and task: "k \<in> task_keys t"
    and r: "ip_task_id r = k" "ip_revision r = next_revision k t"
    and st: "pst_task_id st = k" "pst_revision st = next_revision k t"
  shows "tables_inv (t\<lparr>t_policy_revisions := t_policy_revisions t @ [r],
    t_policy_state := upsert_row pst_task_id st (t_policy_state t)\<rparr>)" (is "tables_inv ?t")
proof -
  have pol: "policies_inv t" and keys: "keys_inv t" using inv by (simp_all add: tables_inv_def)
  have nxt: "next_revision j ?t = (if j = k then Suc (next_revision k t) else next_revision j t)" for j
    using r next_revision_add [of j t r] by (simp add: next_revision_def)
  have pos: "0 < next_revision k t" by (simp add: next_revision_def)
  have fresh: "\<not> has_key revision_key (revision_key r) (t_policy_revisions t)"
    using policies_rev [OF pol, of k "next_revision k t"] r by (force simp: has_key_def)
  have "(\<exists>x \<in> set (t_policy_revisions ?t). revision_key x = (j, n)) \<longleftrightarrow> 0 < n \<and> n < next_revision j ?t" for j n
    using pol r pos by (auto simp: policies_inv_def nxt)
  moreover have "Suc (pst_revision s) = next_revision (pst_task_id s) ?t" if "s \<in> set (t_policy_state ?t)" for s
    using that pol st by (auto simp: policies_inv_def nxt set_upsert_eq)
  moreover have "ip_task_id ` set (t_policy_revisions ?t) = pst_task_id ` set (t_policy_state ?t)"
    using pol r st by (simp add: policies_inv_def keys_upsert)
  ultimately have "policies_inv ?t" unfolding policies_inv_def by blast
  moreover have "keys_inv ?t"
    using keys unique_insert [OF _ fresh] by (simp add: keys_inv_def)
  moreover have "refs_inv ?t" "values_inv ?t"
    using inv task r st by (simp_all add: tables_inv_def refs_inv_def values_inv_def refs_to_upsert)
  ultimately show ?thesis by (simp add: tables_inv_def)
qed

section \<open>Deletion of a task\<close>

lemma refs_to_delete_key:
  "refs_to f t K \<Longrightarrow> refs_to f (delete_rows (\<lambda>r. f r = k) t) (K - {k})"
  by (auto simp: refs_to_def)

lemma delete_task_fields:
  "t_tasks (delete_task_row k (delete_task_rows k t)) = delete_rows (\<lambda>r. td_task_id r = k) (t_tasks t)"
  "t_file_records (delete_task_row k (delete_task_rows k t)) =
     delete_rows (\<lambda>r. fr_task_id r = k) (t_file_records t)"
  "t_transfers (delete_task_row k (delete_task_rows k t)) =
     delete_rows (\<lambda>r. tr_task_id (row_transfer r) = k) (t_transfers t)"
  "t_transfer_chunks (delete_task_row k (delete_task_rows k t)) =
     delete_rows (\<lambda>c. \<exists>r \<in> set (t_transfers t). tr_task_id (row_transfer r) = k \<and>
        transfer_key r = ck_transfer_id c) (t_transfer_chunks t)"
  "t_peer_state (delete_task_row k (delete_task_rows k t)) = delete_rows (\<lambda>r. fst r = k) (t_peer_state t)"
  "t_conflicts (delete_task_row k (delete_task_rows k t)) = delete_rows (\<lambda>r. cr_task_id r = k) (t_conflicts t)"
  "t_version_lineage (delete_task_row k (delete_task_rows k t)) =
     delete_rows (\<lambda>r. vl_task_id r = k) (t_version_lineage t)"
  "t_task_clocks (delete_task_row k (delete_task_rows k t)) = delete_rows (\<lambda>r. fst r = k) (t_task_clocks t)"
  "t_engine_events (delete_task_row k (delete_task_rows k t)) =
     update_rows (\<lambda>r. ev_task_id r = Some k) (\<lambda>r. r\<lparr>ev_task_id := None\<rparr>) (t_engine_events t)"
  "t_last_event_id (delete_task_row k (delete_task_rows k t)) = t_last_event_id t"
  "t_policy_revisions (delete_task_row k (delete_task_rows k t)) =
     delete_rows (\<lambda>r. ip_task_id r = k) (t_policy_revisions t)"
  "t_policy_state (delete_task_row k (delete_task_rows k t)) =
     delete_rows (\<lambda>r. pst_task_id r = k) (t_policy_state t)"
  "t_task_runtime (delete_task_row k (delete_task_rows k t)) =
     delete_rows (\<lambda>r. rt_task_id r = k) (t_task_runtime t)"
  "t_task_connections (delete_task_row k (delete_task_rows k t)) =
     delete_rows (\<lambda>r. tc_task_id r = k) (t_task_connections t)"
  "t_task_members (delete_task_row k (delete_task_rows k t)) =
     delete_rows (\<lambda>r. tm_task_id r = k) (t_task_members t)"
  "t_pending_policies (delete_task_row k (delete_task_rows k t)) =
     delete_rows (\<lambda>r. pp_task_id r = k) (t_pending_policies t)"
  "t_schema_versions (delete_task_row k (delete_task_rows k t)) = t_schema_versions t"
  by (simp_all add: delete_task_row_def delete_task_rows_def Let_def)

lemma next_revision_delete:
  "next_revision j (delete_task_row k (delete_task_rows k t)) = (if j = k then 1 else next_revision j t)"
proof -
  have "filter (\<lambda>r. ip_task_id r = j \<and> ip_task_id r \<noteq> k) xs =
      (if j = k then [] else filter (\<lambda>r. ip_task_id r = j) xs)" for xs :: "IgnorePolicyRevision list"
    by (auto simp: filter_empty_conv intro: filter_cong)
  then show ?thesis
    by (auto simp: next_revision_def delete_task_fields delete_rows_def conj_commute)
qed

lemma delete_task_keys: "keys_inv t \<Longrightarrow> keys_inv (delete_task_row k (delete_task_rows k t))"
  by (simp add: keys_inv_def delete_task_fields map_key_update)

lemma delete_task_refs:
  assumes "refs_inv t" "keys_inv t"
  shows "refs_inv (delete_task_row k (delete_task_rows k t))"
proof -
  have K: "td_task_id ` set (delete_rows (\<lambda>r. td_task_id r = k) (t_tasks t)) = task_keys t - {k}" by auto
  have "refs_to ck_transfer_id (delete_rows (\<lambda>c. \<exists>r \<in> set (t_transfers t). tr_task_id (row_transfer r) = k \<and>
        transfer_key r = ck_transfer_id c) (t_transfer_chunks t))
      (transfer_key ` set (delete_rows (\<lambda>r. tr_task_id (row_transfer r) = k) (t_transfers t)))"
    unfolding refs_to_def
  proof (rule image_subsetI)
    fix c
    assume c: "c \<in> set (delete_rows (\<lambda>c. \<exists>r \<in> set (t_transfers t). tr_task_id (row_transfer r) = k \<and>
        transfer_key r = ck_transfer_id c) (t_transfer_chunks t))"
    then have "ck_transfer_id c \<in> transfer_key ` set (t_transfers t)"
      using assms(1) by (auto simp: refs_inv_def refs_to_def)
    then obtain r where "r \<in> set (t_transfers t)" "transfer_key r = ck_transfer_id c" by (metis imageE)
    with c show "ck_transfer_id c \<in> transfer_key ` set (delete_rows (\<lambda>r. tr_task_id (row_transfer r) = k) (t_transfers t))"
      by (force simp: image_iff)
  qed
  moreover have "refs_to ev_task_id (update_rows (\<lambda>r. ev_task_id r = Some k)
      (\<lambda>r. r\<lparr>ev_task_id := None\<rparr>) (t_engine_events t)) (insert None (Some ` (task_keys t - {k})))"
  proof -
    have e: "ev_task_id e \<in> insert None (Some ` task_keys t)" if "e \<in> set (t_engine_events t)" for e
      using assms(1) that by (auto simp: refs_inv_def refs_to_def)
    show ?thesis unfolding refs_to_def
    proof (rule image_subsetI)
      fix x
      assume "x \<in> set (update_rows (\<lambda>r. ev_task_id r = Some k) (\<lambda>r. r\<lparr>ev_task_id := None\<rparr>) (t_engine_events t))"
      then obtain y where "y \<in> set (t_engine_events t)"
        "x = (if ev_task_id y = Some k then y\<lparr>ev_task_id := None\<rparr> else y)"
        by (auto simp: set_update_rows)
      with e [of y] show "ev_task_id x \<in> insert None (Some ` (task_keys t - {k}))" by auto
    qed
  qed
  moreover have "rt_task_id ` set (delete_rows (\<lambda>r. rt_task_id r = k) (t_task_runtime t)) = task_keys t - {k}"
    using assms by (auto simp: refs_inv_def)
  ultimately show ?thesis
    using assms(1) unfolding refs_inv_def delete_task_fields K by (simp add: refs_to_delete_key)
qed

lemma delete_task_inv:
  assumes "tables_inv t"
  shows "tables_inv (delete_task_row k (delete_task_rows k t))" (is "tables_inv ?t")
proof -
  have "values_inv ?t"
    using assms by (auto simp: tables_inv_def values_inv_def delete_task_fields set_update_rows)
  moreover have "policies_inv ?t"
  proof -
    have pol: "policies_inv t" using assms by (simp add: tables_inv_def)
    have "(\<exists>x \<in> set (t_policy_revisions ?t). revision_key x = (j, n)) \<longleftrightarrow> 0 < n \<and> n < next_revision j ?t" for j n
    proof -
      have "(\<exists>x \<in> set (t_policy_revisions ?t). revision_key x = (j, n)) \<longleftrightarrow>
          j \<noteq> k \<and> (\<exists>x \<in> set (t_policy_revisions t). ip_task_id x = j \<and> ip_revision x = n)"
        by (auto simp: delete_task_fields)
      then show ?thesis by (auto simp: policies_rev [OF pol] next_revision_delete)
    qed
    moreover have "\<forall>s \<in> set (t_policy_state ?t). Suc (pst_revision s) = next_revision (pst_task_id s) ?t"
      using pol by (auto simp: policies_inv_def delete_task_fields next_revision_delete)
    moreover have "ip_task_id ` set (t_policy_revisions ?t) = pst_task_id ` set (t_policy_state ?t)"
      using pol unfolding policies_inv_def delete_task_fields set_delete_rows by (auto simp: image_iff set_eq_iff)
    ultimately show ?thesis unfolding policies_inv_def by blast
  qed
  ultimately show ?thesis
    using assms delete_task_keys delete_task_refs by (simp add: tables_inv_def)
qed

section \<open>What the invariant gives\<close>

lemma inv_unique [simp]:
  assumes "tables_inv t"
  shows "unique_key td_task_id (t_tasks t)" "unique_key file_key (t_file_records t)"
    "unique_key transfer_key (t_transfers t)" "unique_key chunk_key (t_transfer_chunks t)"
    "unique_key cr_conflict_id (t_conflicts t)" "unique_key lineage_key (t_version_lineage t)"
    "unique_key fst (t_task_clocks t)" "unique_key ev_event_id (t_engine_events t)"
    "unique_key revision_key (t_policy_revisions t)" "unique_key pst_task_id (t_policy_state t)"
    "unique_key rt_task_id (t_task_runtime t)" "unique_key tc_task_id (t_task_connections t)"
    "unique_key member_key (t_task_members t)" "unique_key pp_task_id (t_pending_policies t)"
  using assms by (simp_all add: tables_inv_def keys_inv_def)

lemma inv_refs [simp]:
  assumes "tables_inv t"
  shows "refs_to fr_task_id (t_file_records t) (task_keys t)"
    "refs_to (\<lambda>r. tr_task_id (row_transfer r)) (t_transfers t) (task_keys t)"
    "refs_to ck_transfer_id (t_transfer_chunks t) (transfer_key ` set (t_transfers t))"
    "refs_to cr_task_id (t_conflicts t) (task_keys t)"
    "refs_to vl_task_id (t_version_lineage t) (task_keys t)"
    "refs_to fst (t_task_clocks t) (task_keys t)"
    "refs_to tc_task_id (t_task_connections t) (task_keys t)"
    "refs_to tm_task_id (t_task_members t) (task_keys t)"
    "refs_to pp_task_id (t_pending_policies t) (task_keys t)"
  using assms by (simp_all add: tables_inv_def refs_inv_def)

lemma inv_values:
  assumes "tables_inv t"
  shows "r1 \<in> set (t_task_runtime t) \<Longrightarrow> runtime_ok r1"
    "r2 \<in> set (t_file_records t) \<Longrightarrow> record_ok r2"
    "r3 \<in> set (t_transfers t) \<Longrightarrow> transfer_ok (row_transfer r3)"
    "r4 \<in> set (t_task_clocks t) \<Longrightarrow> unat (snd r4) \<le> kInt64Max"
  using assms by (simp_all add: tables_inv_def values_inv_def)

end
