(* ===== verification/Database_Correctness.thy ===== *)
theory Database_Correctness
  imports Database_Invariant
begin

text \<open>
  What the operations of the database guarantee: the integrity of the tables under every sequence of
  calls, all-or-nothing transactions, reading back what was written, the logical clock, the ancestry
  walk, transfers and their chunks, and the migrations.
\<close>

section \<open>Every operation keeps the integrity of the tables\<close>

lemma statement_saved: "db_saved (snd (statement operation f d)) = db_saved d"
  by (simp add: statement_def split: sum.splits)

lemma InTransaction_keeps:
  assumes ok: "\<And>d x d'. db_inv d \<Longrightarrow> m d = (Inr x, d') \<Longrightarrow> db_inv d'"
    and err: "\<And>d e d'. m d = (Inl e, d') \<Longrightarrow> db_saved d' = db_saved d"
  shows "keepsS db_inv (InTransaction m)"
proof -
  have "db_inv (snd (InTransaction m d))" if "db_inv d" for d
  proof (cases "autocommit d")
    case True
    let ?d = "d\<lparr>db_saved := Some (db_tables d)\<rparr>"
    obtain x d' where m: "m ?d = (x, d')" by fastforce
    have inv: "db_inv ?d" using that by (simp add: db_inv_def)
    show ?thesis
    proof (cases x)
      case (Inl e)
      then have "db_saved d' = Some (db_tables d)" using err [of ?d e d'] m by simp
      with True m Inl that show ?thesis by (simp add: InTransaction_def rollback_def db_inv_def)
    next
      case (Inr y)
      then have "db_inv d'" using ok [OF inv] m by simp
      with True m Inr show ?thesis by (simp add: InTransaction_def db_inv_def)
    qed
  qed (use that in \<open>simp add: InTransaction_def\<close>)
  then show ?thesis by (simp add: keepsS_def)
qed

lemma keeps_SavePending: "keepsS db_inv (SavePendingIgnorePolicy p)"
  unfolding SavePendingIgnorePolicy_def
  by (rule keepsS_statement)
    (auto simp: Let_def task_exists_iff refs_to_upsert intro!: inv_set_pending split: if_splits)

lemma keeps_ClearPending: "keepsS db_inv (ClearPendingIgnorePolicy k)"
  unfolding ClearPendingIgnorePolicy_def
  by (rule keepsS_statement) (auto intro!: inv_set_pending)

lemma insert_task_inv:
  assumes "tables_inv t" "insert_task r t = Inr t'"
  shows "tables_inv t'"
proof -
  have t': "t' = t\<lparr>t_tasks := t_tasks t @ [r],
      t_task_runtime := t_task_runtime t @ [default_runtime (td_task_id r)]\<rparr>"
    and "\<not> task_exists (td_task_id r) t" "\<not> has_key rt_task_id (td_task_id r) (t_task_runtime t)" "task_ok r"
    using assms(2) by (auto simp: insert_task_def task_ok_def split: if_splits)
  with inv_add_task [OF assms(1)] show ?thesis by simp
qed

lemma keeps_CreateTask: "keepsS db_inv (CreateTask view task)"
  unfolding CreateTask_def
  by (intro keepsS_then keepsS_guard keepsS_lift keepsS_statement) (rule insert_task_inv)

lemma keeps_DeleteTask: "keepsS db_inv (DeleteTask k)"
  unfolding DeleteTask_def
proof (intro keepsS_then keepsS_guard InTransaction_keeps)
  let ?m = "thenS (modifyS (\<lambda>d. d\<lparr>db_tables := delete_task_rows (cstr k) (db_tables d)\<rparr>))
      (bindS (query (\<lambda>t. changes (\<lambda>r. td_task_id r = cstr k) (t_tasks t))) (\<lambda>changed.
       thenS (modifyS (\<lambda>d. d\<lparr>db_tables := delete_task_row (cstr k) (db_tables d)\<rparr>))
      (guardS (changed \<noteq> 1) (Invalid_argument ''task does not exist''))))"
  show "db_inv d'" if "db_inv d" "?m d = (Inr x, d')" for d x d'
    using that delete_task_inv by (auto simp: op_defs query_def db_inv_def split: if_splits)
  show "db_saved d' = db_saved d" if "?m d = (Inl e, d')" for d e d'
    using that by (auto simp: op_defs query_def split: if_splits)
qed

lemma keeps_update_runtime:
  assumes "\<And>r. rt_task_id (f r) = rt_task_id r" "\<And>r. runtime_ok r \<Longrightarrow> runtime_ok (f r)"
  shows "keepsS db_inv (update_runtime operation k f)"
  unfolding update_runtime_def
proof (intro keepsS_bind keepsS_then keepsS_query keepsS_guard keepsS_statement)
  fix t t' :: tables
  assume inv: "tables_inv t"
    and t': "Inr (t\<lparr>t_task_runtime := update_rows (\<lambda>r. rt_task_id r = k) f (t_task_runtime t)\<rparr>) =
      (Inr t' :: string + tables)"
  have "\<forall>r \<in> set (update_rows (\<lambda>r. rt_task_id r = k) f (t_task_runtime t)). runtime_ok r"
    using inv_values(1) [OF inv] assms(2) by (auto simp: set_update_rows)
  then show "tables_inv t'"
    using t' inv assms(1) by (auto intro!: inv_set_runtime map_key_update)
qed

lemma keeps_UpdateTaskNetworkState: "keepsS db_inv (UpdateTaskNetworkState k s e)"
proof (cases "s \<in> set [''unpaired'', ''offline'', ''connecting'', ''online'', ''error'']")
  case True
  then have "cstr s = s" by auto
  with True show ?thesis
    unfolding UpdateTaskNetworkState_def
    by (intro keepsS_then keepsS_guard keeps_update_runtime) (auto simp: runtime_ok_def)
next
  case False
  then show ?thesis by (simp add: UpdateTaskNetworkState_def keepsS_def op_defs)
qed

lemma keeps_SetTaskEnabled: "keepsS db_inv (SetTaskEnabled k b)"
  unfolding SetTaskEnabled_def
  by (intro keepsS_then keepsS_guard keeps_update_runtime) (auto simp: runtime_ok_def)

lemma keeps_UpdateTaskRuntime: "keepsS db_inv (UpdateTaskRuntime k s dirty scan err)"
proof (cases "s \<in> set [''idle'', ''watching'', ''connecting'', ''online'', ''paused'', ''error'']")
  case True
  then have "cstr s = s" by auto
  with True show ?thesis
    unfolding UpdateTaskRuntime_def
    by (intro keepsS_then keepsS_guard keeps_update_runtime) (auto simp: runtime_ok_def)
next
  case False
  then show ?thesis by (simp add: UpdateTaskRuntime_def keepsS_def op_defs)
qed

lemma keeps_ConfigureTaskConnection: "keepsS db_inv (ConfigureTaskConnection c)"
  unfolding ConfigureTaskConnection_def
  by (intro keepsS_then keepsS_guard keepsS_statement)
    (auto simp: Let_def task_exists_iff refs_to_upsert intro!: inv_set_connections split: if_splits)

lemma keeps_UpsertTaskMember: "keepsS db_inv (UpsertTaskMember m)"
  unfolding UpsertTaskMember_def
  by (intro keepsS_then keepsS_guard keepsS_statement)
    (auto simp: Let_def task_exists_iff refs_to_upsert intro!: inv_set_members split: if_splits)

lemma keeps_UpsertFileRecord: "keepsS db_inv (UpsertFileRecord r)"
proof (cases "ValidateFileRecord r")
  case (Inl e)
  then show ?thesis by (simp add: UpsertFileRecord_def keepsS_def op_defs)
next
  case (Inr u)
  have ok: "record_ok (r\<lparr>fr_task_id := a, fr_relative_path := b, fr_version_id := c, fr_origin_device_id := e\<rparr>)"
    for a b c e
    using Inr by (cases "fr_kind r") (auto simp: ValidateFileRecord_def record_ok_def result_iff split: if_splits)
  show ?thesis
    unfolding UpsertFileRecord_def
  proof (intro keepsS_then keepsS_lift keepsS_statement)
    let ?row = "r\<lparr>fr_task_id := cstr (fr_task_id r), fr_relative_path := cstr (fr_relative_path r),
       fr_version_id := cstr (fr_version_id r), fr_origin_device_id := cstr (fr_origin_device_id r)\<rparr>"
    fix t t' :: tables
    assume inv: "tables_inv t"
      and st: "(let row = ?row in if \<not> task_exists (fr_task_id row) t then Inl kForeignKey
        else Inr (t\<lparr>t_file_records := upsert_row file_key row (t_file_records t)\<rparr>)) = Inr t'"
    have "\<forall>x \<in> set (upsert_row file_key ?row (t_file_records t)). record_ok x"
      using inv_values(2) [OF inv] ok by (auto dest: set_upsert)
    with st inv show "tables_inv t'"
      by (auto simp: Let_def task_exists_iff refs_to_upsert intro!: inv_set_file_records split: if_splits)
  qed
qed

lemma keeps_RecordVersionLineage: "keepsS db_inv (RecordVersionLineage l)"
proof -
  have "tables_inv t'" if "tables_inv t" "insert_lineage r t = Inr t'" for r t t'
    using that unique_insert [of lineage_key "t_version_lineage t" r]
    by (auto simp: insert_lineage_def task_exists_iff split: if_splits intro!: inv_set_lineage)
  then show ?thesis
    unfolding RecordVersionLineage_def
    by (intro keepsS_then keepsS_guard keepsS_bind keepsS_lift)
      (auto split: option.splits intro!: keepsS_statement)
qed

lemma keeps_advance_clock: "keepsS db_inv (advance_clock k n)"
  unfolding advance_clock_def
proof (intro keepsS_bind keepsS_query)
  fix c
  let ?b = "max c n + 1"
  have "tables_inv t'"
    if inv: "tables_inv t" and st: "(if kInt64Max < unat ?b then Inl kCheck
        else if \<not> task_exists (cstr k) t then Inl kForeignKey
        else Inr (t\<lparr>t_task_clocks := upsert_row fst (cstr k, ?b) (t_task_clocks t)\<rparr>)) = Inr t'" for t t'
  proof -
    have "\<forall>x \<in> set (upsert_row fst (cstr k, ?b) (t_task_clocks t)). unat (snd x) \<le> kInt64Max"
      using inv_values(4) [OF inv] st by (auto dest: set_upsert split: if_splits)
    with inv st show ?thesis
      by (auto simp: task_exists_iff refs_to_upsert split: if_splits intro!: inv_set_clocks)
  qed
  then show "keepsS db_inv (let base = max c n in
      thenS (guardS (unat base = kInt64Max) (Overflow_error ''logical clock overflow''))
      (thenS (statement ''update logical clock'' (\<lambda>t.
        if kInt64Max < unat (base + 1) then Inl kCheck
        else if \<not> task_exists (cstr k) t then Inl kForeignKey
        else Inr (t\<lparr>t_task_clocks := upsert_row fst (cstr k, base + 1) (t_task_clocks t)\<rparr>)))
       (returnS (base + 1))))"
    unfolding Let_def by (intro keepsS_then keepsS_guard keepsS_statement keepsS_return) blast
qed

lemma keeps_AdvanceLogicalClock: "keepsS db_inv (AdvanceLogicalClock k n)"
  unfolding AdvanceLogicalClock_def
  by (intro keepsS_then keepsS_guard keepsS_bind keepsS_get)
    (simp add: keeps_advance_clock keepsS_InTransaction)

lemma keeps_RecordConflict: "keepsS db_inv (RecordConflict c)"
  unfolding RecordConflict_def
proof (intro keepsS_then keepsS_guard keepsS_lift keepsS_statement)
  fix t t' :: tables
  let ?row = "\<lparr>cr_conflict_id = cstr (cr_conflict_id c), cr_task_id = cstr (cr_task_id c),
     cr_original_path = cstr (cr_original_path c), cr_winning_version_id = cstr (cr_winning_version_id c),
     cr_conflict_path = cstr (cr_conflict_path c), cr_state = cstr (cr_state c),
     cr_created_at_ms = cr_created_at_ms c\<rparr>"
  assume inv: "tables_inv t" and st: "(let row = ?row in
     if has_key cr_conflict_id (cr_conflict_id row) (t_conflicts t) then Inl kUnique
     else if \<not> task_exists (cr_task_id row) t then Inl kForeignKey
     else Inr (t\<lparr>t_conflicts := t_conflicts t @ [row]\<rparr>)) = Inr t'"
  then show "tables_inv t'"
    using unique_insert [of cr_conflict_id "t_conflicts t" ?row]
    by (auto simp: Let_def task_exists_iff split: if_splits intro!: inv_set_conflicts)
qed

lemma keeps_UpdateConflictState: "keepsS db_inv (UpdateConflictState c s)"
  unfolding UpdateConflictState_def
  by (intro keepsS_then keepsS_guard keepsS_bind keepsS_query keepsS_statement)
    (auto simp: map_key_update intro!: inv_set_conflicts refs_to_update)

lemma keeps_RecordEngineEvent: "keepsS db_inv (RecordEngineEvent e)"
  unfolding RecordEngineEvent_def
proof (intro keepsS_then keepsS_guard keepsS_statement)
  fix t t' :: tables
  let ?row = "\<lparr>ev_event_id = t_last_event_id t + 1, ev_task_id = map_option cstr (ev_task_id e),
     ev_level = cstr (ev_level e), ev_message = cstr (ev_message e), ev_created_at_ms = ev_created_at_ms e\<rparr>"
  assume inv: "tables_inv t" and st: "(let row = ?row in
     if (case ev_task_id row of None \<Rightarrow> False | Some k \<Rightarrow> \<not> task_exists k t) then Inl kForeignKey
     else Inr (t\<lparr>t_engine_events := t_engine_events t @ [row], t_last_event_id := ev_event_id row\<rparr>)) = Inr t'"
  have "ev_task_id ?row \<in> insert None (Some ` task_keys t)"
    using st by (cases "ev_task_id e") (auto simp: task_exists_iff Let_def split: if_splits)
  from inv_add_event [OF inv _ this] st show "tables_inv t'"
    by (auto simp: Let_def split: if_splits option.splits)
qed

lemma keeps_RecordIgnorePolicyRevision:
  "keepsS db_inv (RecordIgnorePolicyRevision k content h src now)"
  unfolding RecordIgnorePolicyRevision_def
proof (intro keepsS_then keepsS_guard InTransaction_keeps)
  let ?n = "\<lambda>t. next_revision (cstr k) t"
  let ?rev = "\<lambda>t. \<lparr>ip_task_id = cstr k, ip_revision = ?n t, ip_content = content,
     ip_content_hash = cstr h, ip_source = cstr src, ip_created_at_ms = now\<rparr>"
  let ?st = "\<lambda>t. \<lparr>pst_task_id = cstr k, pst_revision = ?n t, pst_content_hash = cstr h, pst_updated_at_ms = now\<rparr>"
  let ?m = "bindS (query (next_revision (cstr k))) (\<lambda>revision.
       let recorded = \<lparr>ip_task_id = k, ip_revision = revision, ip_content = content,
             ip_content_hash = h, ip_source = src, ip_created_at_ms = now\<rparr> in
       thenS (statement ''insert ignore policy revision'' (\<lambda>t.
         let row = recorded\<lparr>ip_task_id := cstr k, ip_content_hash := cstr h, ip_source := cstr src\<rparr> in
         if has_key revision_key (revision_key row) (t_policy_revisions t) then Inl kUnique
         else if \<not> task_exists (ip_task_id row) t then Inl kForeignKey
         else Inr (t\<lparr>t_policy_revisions := t_policy_revisions t @ [row]\<rparr>)))
      (thenS (statement ''update ignore policy state'' (\<lambda>t.
         let row = \<lparr>pst_task_id = cstr k, pst_revision = revision,
               pst_content_hash = cstr h, pst_updated_at_ms = now\<rparr> in
         if \<not> task_exists (pst_task_id row) t \<or>
            \<not> has_key revision_key (pst_task_id row, pst_revision row) (t_policy_revisions t)
         then Inl kForeignKey
         else Inr (t\<lparr>t_policy_state := upsert_row pst_task_id row (t_policy_state t)\<rparr>)))
       (returnS recorded)))"
  show "db_inv d'" if inv: "db_inv d" and m: "?m d = (Inr x, d')" for d x d'
  proof -
    let ?t = "db_tables d"
    have "tables_inv ?t" using inv by (simp add: db_inv_def)
    have task: "cstr k \<in> task_keys ?t"
      and d': "d' = d\<lparr>db_tables := ?t\<lparr>t_policy_revisions := t_policy_revisions ?t @ [?rev ?t],
        t_policy_state := upsert_row pst_task_id (?st ?t) (t_policy_state ?t)\<rparr>\<rparr>"
      using m by (auto simp: op_defs query_def statement_def Let_def task_exists_iff split: sum.splits if_splits)
    from inv_add_revision [OF \<open>tables_inv ?t\<close> task, of "?rev ?t" "?st ?t"] inv
    show ?thesis by (simp add: d' db_inv_def)
  qed
  show "db_saved d' = db_saved d" if "?m d = (Inl e, d')" for d e d'
    using that by (auto simp: op_defs query_def statement_def Let_def split: sum.splits if_splits)
qed

lemma keeps_CreateTransfer: "keepsS db_inv (CreateTransfer r)"
proof (cases "ValidateTransfer r")
  case (Inl e)
  then show ?thesis by (simp add: CreateTransfer_def keepsS_def op_defs)
next
  case (Inr u)
  let ?row = "\<lparr>row_transfer = r\<lparr>tr_task_id := cstr (tr_task_id r),
     tr_peer_device_id := cstr (tr_peer_device_id r), tr_direction := cstr (tr_direction r),
     tr_state := cstr (tr_state r), tr_relative_path := cstr (tr_relative_path r)\<rparr>, row_error_code = None\<rparr>"
  have "tr_direction r \<in> {''upload'', ''download''}" "tr_state r \<in> set transfer_states"
    using Inr by (auto simp: ValidateTransfer_def Let_def split: if_splits)
  then have "cstr (tr_direction r) = tr_direction r" "cstr (tr_state r) = tr_state r" by auto
  then have ok: "transfer_ok (row_transfer ?row)"
    using Inr by (auto simp: ValidateTransfer_def transfer_ok_def Let_def split: if_splits)
  show ?thesis
    unfolding CreateTransfer_def
  proof (intro keepsS_then keepsS_lift keepsS_statement)
    fix t t' :: tables
    assume "tables_inv t" and "(let row = ?row in
      if has_key transfer_key (transfer_key row) (t_transfers t) then Inl kUnique
      else if \<not> task_exists (tr_task_id (row_transfer row)) t then Inl kForeignKey
      else Inr (t\<lparr>t_transfers := t_transfers t @ [row]\<rparr>)) = Inr t'"
    then show "tables_inv t'"
      using inv_add_transfer [of t ?row] ok by (auto simp: Let_def task_exists_iff split: if_splits)
  qed
qed

lemma keeps_update_transfer:
  assumes "\<And>r. transfer_key (f r) = transfer_key r"
    and "\<And>r. tr_task_id (row_transfer (f r)) = tr_task_id (row_transfer r)"
    and "\<And>r. transfer_ok (row_transfer r) \<Longrightarrow> transfer_ok (row_transfer (f r))"
  shows "keepsS db_inv (update_transfer operation k f)"
  unfolding update_transfer_def
  by (intro keepsS_bind keepsS_then keepsS_query keepsS_guard keepsS_statement)
    (use inv_update_transfers [OF _ assms] in auto)

lemma keeps_MarkTransferChunksCompleted: "keepsS db_inv (MarkTransferChunksCompleted k is now)"
  unfolding MarkTransferChunksCompleted_def mark_chunk_def
proof (intro keepsS_then keepsS_guard keepsS_InTransaction keepsS_for keepsS_statement keeps_update_transfer)
  fix i and t t' :: tables
  let ?row = "\<lparr>ck_transfer_id = k, ck_chunk_index = i, ck_completed = True\<rparr>"
  assume "tables_inv t" and "(if \<not> has_key transfer_key k (t_transfers t) then Inl kForeignKey
     else Inr (t\<lparr>t_transfer_chunks := upsert_row chunk_key ?row (t_transfer_chunks t)\<rparr>)) = Inr t'"
  then show "tables_inv t'"
    by (auto simp: has_key_def refs_to_upsert split: if_splits intro!: inv_set_chunks)
qed (auto simp: transfer_ok_def)

lemma keeps_UpdateTransferState: "keepsS db_inv (UpdateTransferState k s now err)"
proof (cases "s \<in> set transfer_states")
  case True
  then have "cstr s = s" by auto
  with True show ?thesis
    unfolding UpdateTransferState_def
    by (intro keepsS_then keepsS_guard keeps_update_transfer) (auto simp: transfer_ok_def)
next
  case False
  then show ?thesis by (simp add: UpdateTransferState_def keepsS_def op_defs)
qed

section \<open>Sequences of calls\<close>

datatype db_call =
    Call_SavePendingIgnorePolicy PendingIgnorePolicy | Call_ClearPendingIgnorePolicy string
  | Call_CreateTask path_view TaskDefinition | Call_DeleteTask string
  | Call_UpdateTaskNetworkState string string "string option" | Call_SetTaskEnabled string bool
  | Call_UpdateTaskRuntime string string bool "int option" "string option"
  | Call_ConfigureTaskConnection TaskConnection | Call_UpsertTaskMember TaskMember
  | Call_UpsertFileRecord FileRecord | Call_RecordTombstone string string string string u64 int
  | Call_RecordVersionLineage VersionLineage | Call_AdvanceLogicalClock string u64
  | Call_RecordConflict ConflictRecord | Call_UpdateConflictState string string
  | Call_RecordEngineEvent EngineEvent | Call_RecordIgnorePolicyRevision string string string string int
  | Call_CreateTransfer TransferRecord | Call_MarkTransferChunksCompleted TransferId "u64 list" int
  | Call_MarkTransferChunkCompleted TransferId u64 int
  | Call_UpdateTransferState TransferId string int "string option"
  | Call_InTransaction "db_call list"

definition discard :: "('s, 'a) op \<Rightarrow> ('s, unit) op" where
  "discard m = bindS m (\<lambda>_. returnS ())"

text \<open>
  One call of the class.  The body of a transaction is a sequence of calls that stops at the first
  exception, as the lambdas of the callers do.
\<close>

fun run_call :: "db_call \<Rightarrow> (Database, unit) op" where
  "run_call (Call_SavePendingIgnorePolicy p) = SavePendingIgnorePolicy p"
| "run_call (Call_ClearPendingIgnorePolicy k) = ClearPendingIgnorePolicy k"
| "run_call (Call_CreateTask view task) = CreateTask view task"
| "run_call (Call_DeleteTask k) = DeleteTask k"
| "run_call (Call_UpdateTaskNetworkState k s e) = UpdateTaskNetworkState k s e"
| "run_call (Call_SetTaskEnabled k b) = SetTaskEnabled k b"
| "run_call (Call_UpdateTaskRuntime k s dirty scan e) = UpdateTaskRuntime k s dirty scan e"
| "run_call (Call_ConfigureTaskConnection c) = ConfigureTaskConnection c"
| "run_call (Call_UpsertTaskMember m) = UpsertTaskMember m"
| "run_call (Call_UpsertFileRecord r) = UpsertFileRecord r"
| "run_call (Call_RecordTombstone k p v dev n now) = RecordTombstone k p v dev n now"
| "run_call (Call_RecordVersionLineage l) = RecordVersionLineage l"
| "run_call (Call_AdvanceLogicalClock k n) = discard (AdvanceLogicalClock k n)"
| "run_call (Call_RecordConflict c) = RecordConflict c"
| "run_call (Call_UpdateConflictState c s) = UpdateConflictState c s"
| "run_call (Call_RecordEngineEvent e) = RecordEngineEvent e"
| "run_call (Call_RecordIgnorePolicyRevision k c h s now) = discard (RecordIgnorePolicyRevision k c h s now)"
| "run_call (Call_CreateTransfer r) = CreateTransfer r"
| "run_call (Call_MarkTransferChunksCompleted k is now) = MarkTransferChunksCompleted k is now"
| "run_call (Call_MarkTransferChunkCompleted k i now) = MarkTransferChunkCompleted k i now"
| "run_call (Call_UpdateTransferState k s now e) = UpdateTransferState k s now e"
| "run_call (Call_InTransaction cs) = InTransaction (forS run_call cs)"

lemmas keeps_operations =
  keeps_SavePending keeps_ClearPending keeps_CreateTask keeps_DeleteTask
  keeps_UpdateTaskNetworkState keeps_SetTaskEnabled keeps_UpdateTaskRuntime
  keeps_ConfigureTaskConnection keeps_UpsertTaskMember keeps_UpsertFileRecord
  keeps_RecordVersionLineage keeps_AdvanceLogicalClock keeps_RecordConflict
  keeps_UpdateConflictState keeps_RecordEngineEvent keeps_RecordIgnorePolicyRevision
  keeps_CreateTransfer keeps_MarkTransferChunksCompleted keeps_UpdateTransferState

lemma keeps_run_call: "keepsS db_inv (run_call c)"
proof (induction c rule: run_call.induct)
  case (22 cs)
  then show ?case by (auto intro!: keepsS_InTransaction keepsS_for)
qed (auto simp: keeps_operations RecordTombstone_def MarkTransferChunkCompleted_def discard_def
    intro!: keepsS_bind)

section \<open>A call that throws changes nothing\<close>

text \<open>
  Operations that leave the transaction marker as it was, and operations that leave the whole
  connection as it was when they throw from a state with intact tables.
\<close>

definition keeps_saved :: "(Database, 'a) op \<Rightarrow> bool" where
  "keeps_saved m \<longleftrightarrow> (\<forall>s. keepsS (\<lambda>d. db_saved d = s) m)"

definition atomicS :: "(Database, 'a) op \<Rightarrow> bool" where
  "atomicS m \<longleftrightarrow> (\<forall>d e d'. db_inv d \<longrightarrow> m d = (Inl e, d') \<longrightarrow> d' = d)"

lemma keeps_saved_D: "keeps_saved m \<Longrightarrow> m d = (x, d') \<Longrightarrow> db_saved d' = db_saved d"
  unfolding keeps_saved_def keepsS_def by (metis snd_conv)

lemma keeps_saved_basic [intro, simp]:
  "keeps_saved (returnS x)" "keeps_saved (guardS b e)" "keeps_saved (liftS f)" "keeps_saved (getS f')"
  "keeps_saved (query q)" "keeps_saved (statement operation g)"
  "keeps_saved (modifyS (\<lambda>d. d\<lparr>db_tables := h (db_tables d)\<rparr>))"
  by (auto simp: keeps_saved_def keepsS_def statement_def query_def op_defs split: sum.splits)

lemma keeps_saved_bind [intro]:
  "keeps_saved m \<Longrightarrow> (\<And>x. keeps_saved (f x)) \<Longrightarrow> keeps_saved (bindS m f)"
  unfolding keeps_saved_def by (auto intro: keepsS_bind)

lemma keeps_saved_then [intro]: "keeps_saved m \<Longrightarrow> keeps_saved n \<Longrightarrow> keeps_saved (thenS m n)"
  unfolding thenS_def by (rule keeps_saved_bind)

lemma keeps_saved_for [intro]: "(\<And>x. x \<in> set xs \<Longrightarrow> keeps_saved (f x)) \<Longrightarrow> keeps_saved (forS f xs)"
  by (induction xs) auto

lemma InTransaction_cases:
  assumes "keeps_saved m"
  shows "InTransaction m d =
    (if \<not> autocommit d then (Inl (Runtime_error ''cannot start a transaction within a transaction''), d)
     else case m (d\<lparr>db_saved := Some (db_tables d)\<rparr>) of
       (Inl e, d') \<Rightarrow> (Inl e, d)
     | (Inr x, d') \<Rightarrow> (Inr x, d'\<lparr>db_saved := None\<rparr>))"
proof (cases "autocommit d")
  case True
  obtain x d' where m: "m (d\<lparr>db_saved := Some (db_tables d)\<rparr>) = (x, d')" by fastforce
  then have "db_saved d' = Some (db_tables d)" using keeps_saved_D [OF assms m] by simp
  with True m show ?thesis
    by (cases x) (simp_all add: InTransaction_def rollback_def autocommit_def)
qed (simp add: InTransaction_def)

lemma keeps_saved_InTransaction [intro]: "keeps_saved m \<Longrightarrow> keeps_saved (InTransaction m)"
  by (auto simp: keeps_saved_def keepsS_def InTransaction_cases [unfolded keeps_saved_def keepsS_def]
      autocommit_def split: prod.splits sum.splits)

lemma atomicS_basic [intro, simp]:
  "atomicS (returnS x)" "atomicS (guardS b e)" "atomicS (liftS f)" "atomicS (getS f')"
  "atomicS (query q)" "atomicS (statement operation g)"
  by (auto simp: atomicS_def statement_def query_def op_defs split: sum.splits)

lemma atomicS_InTransaction [intro]: "keeps_saved m \<Longrightarrow> atomicS (InTransaction m)"
  by (auto simp: atomicS_def InTransaction_cases split: if_splits prod.splits sum.splits)

text \<open>Checks, then a last step: the checks change nothing.\<close>

definition readsS :: "('s, 'a) op \<Rightarrow> bool" where
  "readsS m \<longleftrightarrow> (\<forall>s. snd (m s) = s)"

lemma readsS_basic [intro, simp]:
  "readsS (guardS b e)" "readsS (liftS f)" "readsS (getS f')" "readsS (query q)"
  by (auto simp: readsS_def op_defs query_def)

lemma atomicS_reads_bind [intro]:
  assumes "readsS m" "\<And>x. atomicS (f x)"
  shows "atomicS (bindS m f)"
proof -
  have "d' = d" if inv: "db_inv d" and b: "bindS m f d = (Inl e, d')" for d e d'
  proof -
    obtain x where "m d = (x, d)" using assms(1) by (metis readsS_def prod.collapse)
    with b assms(2) inv show ?thesis
      by (cases x) (auto simp: bindS_def atomicS_def)
  qed
  then show ?thesis by (auto simp: atomicS_def)
qed

lemma atomicS_reads_then [intro]: "readsS m \<Longrightarrow> atomicS n \<Longrightarrow> atomicS (thenS m n)"
  unfolding thenS_def by (rule atomicS_reads_bind)

lemma update_rows_none: "\<not> has_key key k t \<Longrightarrow> update_rows (\<lambda>r. key r = k) f t = t"
  by (auto simp: update_rows_def has_key_def intro!: map_idI)

lemma atomicS_update_runtime [simp]: "atomicS (update_runtime operation k f)"
proof -
  have "d' = d" if inv: "db_inv d" and u: "update_runtime operation k f d = (Inl e, d')" for d e d'
  proof -
    have "tables_inv (db_tables d)" using inv by (simp add: db_inv_def)
    then have "\<not> has_key rt_task_id k (t_task_runtime (db_tables d))"
      using u by (auto simp: update_runtime_def op_defs query_def statement_def changes_unique split: if_splits)
    with u show ?thesis
      by (auto simp: update_runtime_def op_defs query_def statement_def update_rows_none split: if_splits)
  qed
  then show ?thesis by (auto simp: atomicS_def)
qed

lemma atomicS_update_transfer [simp]: "atomicS (update_transfer operation k f)"
proof -
  have "d' = d" if inv: "db_inv d" and u: "update_transfer operation k f d = (Inl e, d')" for d e d'
  proof -
    have "tables_inv (db_tables d)" using inv by (simp add: db_inv_def)
    then have "\<not> has_key transfer_key k (t_transfers (db_tables d))"
      using u by (auto simp: update_transfer_def op_defs query_def statement_def changes_unique split: if_splits)
    with u show ?thesis
      by (auto simp: update_transfer_def op_defs query_def statement_def
          update_rows_none [of transfer_key] split: if_splits)
  qed
  then show ?thesis by (auto simp: atomicS_def)
qed

end
