(* ===== verification/Database_Properties.thy ===== *)
theory Database_Properties
  imports Database_Correctness
begin

text \<open>
  The guarantees of the database module, stated over its operations: integrity and atomicity of every
  sequence of calls, complete deletion of a task, reading back what was written, the Lamport clock,
  version ancestry, chunk completion, policy history, migrations, and what an embedded NUL does to
  validated text.
\<close>

section \<open>Integrity and atomicity\<close>

lemma update_saved [simp]: "keeps_saved (update_runtime a k f)" "keeps_saved (update_transfer b i g)"
  unfolding update_runtime_def update_transfer_def by (intro keeps_saved_bind keeps_saved_then; simp)+

lemma operations_saved [simp]:
  "keeps_saved (SavePendingIgnorePolicy p)" "keeps_saved (ClearPendingIgnorePolicy k)"
  "keeps_saved (CreateTask view task)" "keeps_saved (DeleteTask k)"
  "keeps_saved (UpdateTaskNetworkState k st err)" "keeps_saved (SetTaskEnabled k b)"
  "keeps_saved (UpdateTaskRuntime k st dirty scan err)" "keeps_saved (ConfigureTaskConnection c)"
  "keeps_saved (UpsertTaskMember m)" "keeps_saved (UpsertFileRecord r)"
  unfolding SavePendingIgnorePolicy_def ClearPendingIgnorePolicy_def CreateTask_def DeleteTask_def
    UpdateTaskNetworkState_def SetTaskEnabled_def UpdateTaskRuntime_def ConfigureTaskConnection_def
    UpsertTaskMember_def UpsertFileRecord_def
  by (auto intro!: keeps_saved_bind keeps_saved_then keeps_saved_InTransaction)

lemma more_operations_saved [simp]:
  "keeps_saved (AdvanceLogicalClock k n)" "keeps_saved (RecordConflict c)"
  "keeps_saved (UpdateConflictState i st)" "keeps_saved (RecordEngineEvent e)"
  "keeps_saved (RecordIgnorePolicyRevision k content h src now)" "keeps_saved (CreateTransfer tr)"
  "keeps_saved (MarkTransferChunksCompleted tid is now)" "keeps_saved (UpdateTransferState tid st now err)"
  unfolding AdvanceLogicalClock_def advance_clock_def RecordConflict_def UpdateConflictState_def
    RecordEngineEvent_def RecordIgnorePolicyRevision_def CreateTransfer_def
    MarkTransferChunksCompleted_def mark_chunk_def UpdateTransferState_def Let_def
  by (auto intro!: keeps_saved_bind keeps_saved_then keeps_saved_InTransaction keeps_saved_for)

lemma lineage_saved [simp]: "keeps_saved (RecordVersionLineage l)"
  unfolding RecordVersionLineage_def
  by (auto intro!: keeps_saved_bind keeps_saved_then split: option.splits)

lemma run_call_saved: "keeps_saved (run_call c)"
proof (induction c rule: run_call.induct)
  case (22 cs)
  then show ?case by (auto intro!: keeps_saved_InTransaction keeps_saved_for)
qed (auto simp: RecordTombstone_def MarkTransferChunkCompleted_def discard_def intro!: keeps_saved_bind)

lemma atomicS_statements [simp]:
  "atomicS (SavePendingIgnorePolicy p)" "atomicS (ClearPendingIgnorePolicy k)"
  "atomicS (CreateTask view task)" "atomicS (UpdateTaskNetworkState k st err)"
  "atomicS (SetTaskEnabled k b)" "atomicS (UpdateTaskRuntime k st dirty scan err)"
  "atomicS (ConfigureTaskConnection c)" "atomicS (UpsertTaskMember m)" "atomicS (UpsertFileRecord r)"
  "atomicS (RecordConflict cf)" "atomicS (RecordEngineEvent e)" "atomicS (CreateTransfer tr)"
  "atomicS (UpdateTransferState tid st now err)"
  unfolding SavePendingIgnorePolicy_def ClearPendingIgnorePolicy_def CreateTask_def
    UpdateTaskNetworkState_def SetTaskEnabled_def UpdateTaskRuntime_def ConfigureTaskConnection_def
    UpsertTaskMember_def UpsertFileRecord_def RecordConflict_def RecordEngineEvent_def
    CreateTransfer_def UpdateTransferState_def
  by (auto intro!: atomicS_reads_bind atomicS_reads_then)

lemma atomicS_DeleteTask [simp]: "atomicS (DeleteTask k)"
  unfolding DeleteTask_def
  by (intro atomicS_reads_then atomicS_InTransaction keeps_saved_then keeps_saved_bind) simp_all

lemma atomicS_lineage [simp]: "atomicS (RecordVersionLineage l)"
  unfolding RecordVersionLineage_def
  by (auto intro!: atomicS_reads_then atomicS_reads_bind split: option.splits)

lemma atomicS_conflict_state [simp]: "atomicS (UpdateConflictState i st)"
proof -
  have "atomicS (bindS (query (\<lambda>t. changes (\<lambda>r. cr_conflict_id r = k) (t_conflicts t))) (\<lambda>changed.
     thenS (statement operation (\<lambda>t. Inr (t\<lparr>t_conflicts := update_rows (\<lambda>r. cr_conflict_id r = k)
          f (t_conflicts t)\<rparr>))) (guardS (changed \<noteq> 1) e)))" (is "atomicS ?m") for k f operation e
  proof -
    have "d' = d" if inv: "db_inv d" and u: "?m d = (Inl x, d')" for d x d'
    proof -
      have "tables_inv (db_tables d)" using inv by (simp add: db_inv_def)
      then have "\<not> has_key cr_conflict_id k (t_conflicts (db_tables d))"
        using u by (auto simp: op_defs query_def statement_def changes_unique split: if_splits)
      with u show ?thesis by (auto simp: op_defs query_def statement_def update_rows_none split: if_splits)
    qed
    then show ?thesis by (auto simp: atomicS_def)
  qed
  then show ?thesis unfolding UpdateConflictState_def by (intro atomicS_reads_then) simp_all
qed

lemma advance_clock_atomic: "atomicS (advance_clock k n)"
proof -
  have "d' = d" if "advance_clock k n d = (Inl e, d')" for d e d'
    using that by (auto simp: advance_clock_def op_defs query_def statement_def Let_def split: if_splits sum.splits)
  then show ?thesis by (auto simp: atomicS_def)
qed

lemma atomicS_transactions [simp]:
  "atomicS (AdvanceLogicalClock k n)" "atomicS (RecordIgnorePolicyRevision k content h src now)"
  "atomicS (MarkTransferChunksCompleted tid is now)"
proof -
  have "keeps_saved (advance_clock k n)"
    unfolding advance_clock_def Let_def by (auto intro!: keeps_saved_bind keeps_saved_then)
  then show "atomicS (AdvanceLogicalClock k n)"
    unfolding AdvanceLogicalClock_def using advance_clock_atomic [of k n]
    by (auto intro!: atomicS_reads_then atomicS_reads_bind)
  show "atomicS (RecordIgnorePolicyRevision k content h src now)"
    unfolding RecordIgnorePolicyRevision_def Let_def
    by (auto intro!: atomicS_reads_then atomicS_InTransaction keeps_saved_bind keeps_saved_then)
  show "atomicS (MarkTransferChunksCompleted tid is now)"
    unfolding MarkTransferChunksCompleted_def mark_chunk_def
    by (auto intro!: atomicS_reads_then atomicS_InTransaction keeps_saved_for keeps_saved_then)
qed

lemma discard_atomic: "atomicS m \<Longrightarrow> atomicS (discard m)"
  by (auto simp: atomicS_def discard_def op_defs split: sum.splits prod.splits)

lemma run_call_atomic: "atomicS (run_call c)"
proof (cases c)
  case (Call_InTransaction cs)
  then show ?thesis
    by (auto intro!: atomicS_InTransaction keeps_saved_for run_call_saved)
qed (auto simp: RecordTombstone_def MarkTransferChunkCompleted_def discard_atomic)

fun run_calls :: "db_call list \<Rightarrow> Database \<Rightarrow> Database" where
  "run_calls [] d = d"
| "run_calls (c # cs) d = run_calls cs (snd (run_call c d))"

definition fresh_database :: Database where
  "fresh_database = snd (ApplyMigrations \<lparr>db_tables = empty_tables, db_saved = None\<rparr>)"

definition migrate :: "nat \<Rightarrow> tables \<Rightarrow> tables" where
  "migrate n t = (if SchemaVersion t < n
     then (migration_rows n t)\<lparr>t_schema_versions := t_schema_versions t @ [n]\<rparr> else t)"

lemma run_migration_eq:
  "db_saved d = None \<Longrightarrow> run_migration n d = (Inr (), d\<lparr>db_tables := migrate n (db_tables d)\<rparr>)"
  by (simp add: run_migration_def migrate_def InTransaction_def autocommit_def op_defs)

lemma run_migrations_eq:
  "db_saved d = None \<Longrightarrow> forS run_migration ns d = (Inr (), d\<lparr>db_tables := fold migrate ns (db_tables d)\<rparr>)"
proof (induction ns arbitrary: d)
  case (Cons n ns)
  then show ?case by (simp add: run_migration_eq op_defs)
qed (simp add: op_defs)

lemma ApplyMigrations_eq:
  "db_saved d = None \<Longrightarrow>
   ApplyMigrations d = (Inr (), d\<lparr>db_tables := fold migrate [1, 2, 3, 4, 5, 6, 7, 8] (db_tables d)\<rparr>)"
  unfolding ApplyMigrations_def by (rule run_migrations_eq)

lemma migrate_empty:
  "fold max vs 0 < n \<Longrightarrow> migrate n (empty_tables\<lparr>t_schema_versions := vs\<rparr>) =
     empty_tables\<lparr>t_schema_versions := vs @ [n]\<rparr>"
  by (simp add: migrate_def SchemaVersion_def migration_rows_def empty_tables_def)

lemma fresh_database_eq:
  "fresh_database = \<lparr>db_tables = empty_tables\<lparr>t_schema_versions := [1, 2, 3, 4, 5, 6, 7, 8]\<rparr>, db_saved = None\<rparr>"
proof -
  have e: "empty_tables\<lparr>t_schema_versions := []\<rparr> = empty_tables" by (simp add: empty_tables_def)
  have "fold migrate [1, 2, 3, 4, 5, 6, 7, 8] (empty_tables\<lparr>t_schema_versions := []\<rparr>) =
      empty_tables\<lparr>t_schema_versions := [1, 2, 3, 4, 5, 6, 7, 8]\<rparr>"
    by (simp add: migrate_empty)
  then show ?thesis unfolding e by (simp add: fresh_database_def ApplyMigrations_eq)
qed

lemma fresh_database_inv: "db_inv fresh_database"
  supply inv_unique [simp del] and inv_refs [simp del]
  by (auto simp: fresh_database_eq db_inv_def inv_defs empty_tables_def next_revision_def)

lemma run_calls_inv: "db_inv d \<Longrightarrow> db_saved d = None \<Longrightarrow>
  db_inv (run_calls cs d) \<and> db_saved (run_calls cs d) = None"
proof (induction cs arbitrary: d)
  case (Cons c cs)
  have "db_inv (snd (run_call c d))" using keeps_run_call Cons.prems(1) by (auto simp: keepsS_def)
  moreover have "db_saved (snd (run_call c d)) = None"
    using run_call_saved [of c] Cons.prems(2) keeps_saved_D by (metis prod.collapse)
  ultimately show ?case using Cons.IH by simp
qed simp

text \<open>
  C6: starting from a freshly migrated database, after any sequence of calls of the class, those that
  throw included, primary keys are unique, every reference points to an existing row, every task has
  its runtime row, the columns hold permitted values, the policy revisions of each task are numbered
  from one without gaps with the last one current, and no transaction is left open.
\<close>

theorem database_integrity:
  "tables_inv (db_tables (run_calls cs fresh_database)) \<and> db_saved (run_calls cs fresh_database) = None"
  using run_calls_inv [OF fresh_database_inv, of cs] by (simp add: fresh_database_eq db_inv_def)

text \<open>
  C8: a call that throws, whatever it is and however many statements it had already executed, leaves
  the database exactly as it was; in particular the body of a transaction is applied as a whole or
  not at all.
\<close>

theorem failed_call_changes_nothing:
  assumes "run_call c (run_calls cs fresh_database) = (Inl e, d')"
  shows "d' = run_calls cs fresh_database"
  using assms run_calls_inv [OF fresh_database_inv, of cs] run_call_atomic [of c]
  by (auto simp: atomicS_def fresh_database_eq)

theorem failed_call_changes_nothing_witness:
  "snd (run_call (Call_InTransaction [Call_RecordEngineEvent
       \<lparr>ev_event_id = 0, ev_task_id = None, ev_level = ''info'', ev_message = ''m'', ev_created_at_ms = 1\<rparr>,
       Call_DeleteTask ''x'']) fresh_database) = fresh_database"
proof -
  let ?c = "Call_InTransaction [Call_RecordEngineEvent
       \<lparr>ev_event_id = 0, ev_task_id = None, ev_level = ''info'', ev_message = ''m'', ev_created_at_ms = 1\<rparr>,
       Call_DeleteTask ''x'']"
  have "fst (run_call ?c fresh_database) = Inl (Runtime_error ''cannot start a transaction within a transaction'')"
    by (simp add: fresh_database_eq InTransaction_def autocommit_def RecordEngineEvent_def DeleteTask_def
        op_defs statement_def Let_def empty_tables_def)
  then have "run_call ?c (run_calls [] fresh_database) =
      (Inl (Runtime_error ''cannot start a transaction within a transaction''), snd (run_call ?c fresh_database))"
    by (metis prod.collapse run_calls.simps(1))
  from failed_call_changes_nothing [OF this] show ?thesis by simp
qed

text \<open>A database with one task, for the concrete instances below.\<close>

definition demo_call :: db_call where
  "demo_call = Call_CreateTask \<lparr>view_is_directory = \<lambda>_. False, view_database_ancestors = None,
     view_equivalent = \<lambda>_ _. False\<rparr>
     \<lparr>td_task_id = ''t'', td_mode = ''one_way'', td_role = ''source'', td_root_path = ''r''\<rparr>"

definition demo_database :: Database where
  "demo_database = \<lparr>db_tables = empty_tables
     \<lparr>t_schema_versions := [1, 2, 3, 4, 5, 6, 7, 8],
      t_tasks := [\<lparr>td_task_id = ''t'', td_mode = ''one_way'', td_role = ''source'', td_root_path = ''r''\<rparr>],
      t_task_runtime := [default_runtime ''t'']\<rparr>, db_saved = None\<rparr>"

lemma demo_database_eq: "run_calls [demo_call] fresh_database = demo_database"
  by (simp add: demo_call_def demo_database_def CreateTask_def op_defs check_outside_root_def
      statement_def insert_task_def fresh_database_eq empty_tables_def has_key_def)

lemma demo_tables:
  "db_saved demo_database = None" "task_exists ''t'' (db_tables demo_database)"
  by (simp_all add: demo_database_def has_key_def)

lemma demo_database_inv: "db_inv demo_database"
  using run_calls_inv [OF fresh_database_inv, of "[demo_call]"] unfolding demo_database_eq [symmetric]
  by (simp add: fresh_database_eq del: run_calls.simps)

section \<open>Deleting a task\<close>

lemma DeleteTask_eq:
  assumes "db_inv d" "db_saved d = None" "k \<noteq> []"
  shows "DeleteTask k d =
    (if task_exists (cstr k) (db_tables d)
     then (Inr (), d\<lparr>db_tables := delete_task_row (cstr k) (delete_task_rows (cstr k) (db_tables d))\<rparr>)
     else (Inl (Invalid_argument ''task does not exist''), d))"
proof -
  have "t_tasks (delete_task_rows (cstr k) (db_tables d)) = t_tasks (db_tables d)"
    by (simp add: delete_task_rows_def Let_def)
  moreover have "unique_key td_task_id (t_tasks (db_tables d))" using assms(1) by (simp add: db_inv_def)
  ultimately have "changes (\<lambda>r. td_task_id r = cstr k) (t_tasks (delete_task_rows (cstr k) (db_tables d))) =
      (if task_exists (cstr k) (db_tables d) then 1 else 0)"
    by (simp add: changes_unique)
  with assms(2,3) show ?thesis
    by (simp add: DeleteTask_def InTransaction_def autocommit_def rollback_def op_defs query_def)
qed

lemma not_in_deleted: "k \<notin> f ` {x \<in> A. f x \<noteq> k}"
  by auto

definition task_traces :: "string \<Rightarrow> tables \<Rightarrow> bool" where
  "task_traces k t \<longleftrightarrow>
     k \<in> td_task_id ` set (t_tasks t) \<union> fr_task_id ` set (t_file_records t) \<union>
       (\<lambda>r. tr_task_id (row_transfer r)) ` set (t_transfers t) \<union> fst ` set (t_peer_state t) \<union>
       cr_task_id ` set (t_conflicts t) \<union> vl_task_id ` set (t_version_lineage t) \<union>
       fst ` set (t_task_clocks t) \<union> ip_task_id ` set (t_policy_revisions t) \<union>
       pst_task_id ` set (t_policy_state t) \<union> rt_task_id ` set (t_task_runtime t) \<union>
       tc_task_id ` set (t_task_connections t) \<union> tm_task_id ` set (t_task_members t) \<union>
       pp_task_id ` set (t_pending_policies t) \<or>
     Some k \<in> ev_task_id ` set (t_engine_events t)"

text \<open>
  Deleting a task succeeds exactly when the task exists; then no table mentions the task any more,
  chunks of its transfers included, the events are all still there, and every file record, transfer,
  version and clock of another task is untouched.  Otherwise nothing changes.
\<close>

theorem delete_task_complete:
  assumes "d = run_calls cs fresh_database" "k \<noteq> []" "nul_free k"
  shows "case DeleteTask k d of
      (Inl e, d') \<Rightarrow> k \<notin> td_task_id ` set (t_tasks (db_tables d)) \<and> d' = d
    | (Inr _, d') \<Rightarrow> k \<in> td_task_id ` set (t_tasks (db_tables d)) \<and> \<not> task_traces k (db_tables d') \<and>
        (\<forall>c \<in> set (t_transfer_chunks (db_tables d')).
           \<exists>r \<in> set (t_transfers (db_tables d')). transfer_key r = ck_transfer_id c) \<and>
        map ev_event_id (t_engine_events (db_tables d')) = map ev_event_id (t_engine_events (db_tables d)) \<and>
        set (t_file_records (db_tables d')) = {r \<in> set (t_file_records (db_tables d)). fr_task_id r \<noteq> k} \<and>
        set (t_transfers (db_tables d')) = {r \<in> set (t_transfers (db_tables d)). tr_task_id (row_transfer r) \<noteq> k} \<and>
        set (t_version_lineage (db_tables d')) = {r \<in> set (t_version_lineage (db_tables d)). vl_task_id r \<noteq> k} \<and>
        set (t_task_clocks (db_tables d')) = {r \<in> set (t_task_clocks (db_tables d)). fst r \<noteq> k}"
proof -
  have d: "db_inv d" "db_saved d = None"
    using run_calls_inv [OF fresh_database_inv, of cs] assms(1) by (simp_all add: fresh_database_eq)
  note eq = DeleteTask_eq [OF d assms(2)]
  let ?t = "db_tables d" and ?t' = "delete_task_row k (delete_task_rows k (db_tables d))"
  have inv: "tables_inv ?t'" using d(1) delete_task_inv by (simp add: db_inv_def)
  have chunks: "\<exists>r \<in> set (t_transfers ?t'). transfer_key r = ck_transfer_id c"
    if "c \<in> set (t_transfer_chunks ?t')" for c
  proof -
    have "ck_transfer_id c \<in> transfer_key ` set (t_transfers ?t')"
      using that inv_refs(3) [OF inv] by (auto simp: refs_to_def)
    then show ?thesis by (metis imageE)
  qed
  have "ev_task_id e \<noteq> Some k" if e: "e \<in> set (t_engine_events ?t')" for e
  proof -
    obtain y where "e = (if ev_task_id y = Some k then y\<lparr>ev_task_id := None\<rparr> else y)"
      using e unfolding delete_task_fields set_update_rows by blast
    then show ?thesis by simp
  qed
  then have "Some k \<notin> ev_task_id ` set (t_engine_events ?t')" by (metis imageE)
  then have traces: "\<not> task_traces k ?t'"
    unfolding task_traces_def delete_task_fields(1-8,11-16) by (simp add: not_in_deleted)
  have events: "map ev_event_id (t_engine_events ?t') = map ev_event_id (t_engine_events ?t)"
    unfolding delete_task_fields by (rule map_key_update) simp
  show ?thesis
    using chunks traces events assms(3) unfolding eq task_exists_iff
    by (auto simp: delete_task_fields(2,3,7,8))
qed

theorem delete_task_complete_witness:
  "\<not> task_traces ''t'' (db_tables (snd (DeleteTask ''t'' (run_calls [demo_call] fresh_database))))"
proof -
  have "''t'' \<in> td_task_id ` set (t_tasks (db_tables (run_calls [demo_call] fresh_database)))"
    unfolding demo_database_eq by (simp add: demo_database_def)
  then show ?thesis
    using delete_task_complete [OF refl, of "''t''" "[demo_call]"]
    by (auto simp del: run_calls.simps split: prod.splits sum.splits)
qed

section \<open>Reading back what was written\<close>

lemma ParseFileKind_Name [simp]: "ParseFileKind (FileKindName k) = Inr k"
  by (cases k) (simp_all add: ParseFileKind_def)

definition stored_record :: "FileRecord \<Rightarrow> FileRecord" where
  "stored_record r = r\<lparr>fr_task_id := cstr (fr_task_id r), fr_relative_path := cstr (fr_relative_path r),
     fr_version_id := cstr (fr_version_id r), fr_origin_device_id := cstr (fr_origin_device_id r)\<rparr>"

lemma UpsertFileRecord_cases:
  "UpsertFileRecord r d =
    (case ValidateFileRecord r of
       Inl e \<Rightarrow> (Inl e, d)
     | Inr _ \<Rightarrow> if task_exists (cstr (fr_task_id r)) (db_tables d)
         then (Inr (), d\<lparr>db_tables := (db_tables d)\<lparr>t_file_records :=
             upsert_row file_key (stored_record r) (t_file_records (db_tables d))\<rparr>\<rparr>)
         else (Inl (sql_error ''upsert file record'' kForeignKey), d))"
  by (simp add: UpsertFileRecord_def op_defs statement_def stored_record_def Let_def split: sum.splits)

interpretation file_store: record_store UpsertFileRecord
  "\<lambda>k d. row_of file_key k (t_file_records (db_tables d))"
  "\<lambda>r. (cstr (fr_task_id r), cstr (fr_relative_path r))" stored_record
  by unfold_locales
    (auto simp: UpsertFileRecord_cases row_of_upsert stored_record_def split: sum.splits if_splits)

definition stored_member :: "TaskMember \<Rightarrow> TaskMember" where
  "stored_member m = m\<lparr>tm_task_id := cstr (tm_task_id m), tm_device_id := cstr (tm_device_id m),
     tm_fingerprint := cstr (tm_fingerprint m), tm_role := cstr (tm_role m)\<rparr>"

interpretation member_store: record_store UpsertTaskMember
  "\<lambda>k d. row_of member_key k (t_task_members (db_tables d))"
  "\<lambda>m. (cstr (tm_task_id m), cstr (tm_device_id m))" stored_member
  by unfold_locales
    (auto simp: UpsertTaskMember_def op_defs statement_def row_of_upsert stored_member_def Let_def
      split: sum.splits if_splits)

definition stored_connection :: "TaskConnection \<Rightarrow> TaskConnection" where
  "stored_connection c = c\<lparr>tc_task_id := cstr (tc_task_id c), tc_tracker_url := cstr (tc_tracker_url c),
     tc_room_id := cstr (tc_room_id c), tc_authorization_digest := cstr (tc_authorization_digest c)\<rparr>"

interpretation connection_store: record_store ConfigureTaskConnection
  "\<lambda>k d. row_of tc_task_id k (t_task_connections (db_tables d))"
  "\<lambda>c. cstr (tc_task_id c)" stored_connection
  by unfold_locales
    (auto simp: ConfigureTaskConnection_def op_defs statement_def row_of_upsert stored_connection_def Let_def
      split: sum.splits if_splits)

definition stored_policy :: "PendingIgnorePolicy \<Rightarrow> PendingIgnorePolicy" where
  "stored_policy p = p\<lparr>pp_task_id := cstr (pp_task_id p), pp_proposal_id := cstr (pp_proposal_id p),
     pp_origin_device_id := cstr (pp_origin_device_id p), pp_base_hash := cstr (pp_base_hash p),
     pp_rules := cstr (pp_rules p), pp_source := cstr (pp_source p), pp_state := cstr (pp_state p)\<rparr>"

interpretation policy_store: record_store SavePendingIgnorePolicy
  "\<lambda>k d. row_of pp_task_id k (t_pending_policies (db_tables d))"
  "\<lambda>p. cstr (pp_task_id p)" stored_policy
  by unfold_locales
    (auto simp: SavePendingIgnorePolicy_def op_defs statement_def row_of_upsert stored_policy_def Let_def
      split: sum.splits if_splits)

definition text_nul_free :: "FileRecord \<Rightarrow> bool" where
  "text_nul_free r \<longleftrightarrow> nul_free (fr_task_id r) \<and> nul_free (fr_relative_path r) \<and>
     nul_free (fr_version_id r) \<and> nul_free (fr_origin_device_id r)"

lemma stored_record_id [simp]: "text_nul_free r \<Longrightarrow> stored_record r = r"
  by (simp add: stored_record_def text_nul_free_def)

lemma find_SomeD: "find P xs = Some r \<Longrightarrow> r \<in> set xs \<and> P r"
  by (induction xs) (auto split: if_splits)

text \<open>
  After any successful sequence of file-record writes, looking up a path returns exactly the last
  record written for it, every field included, and a path that was not written reads as before.
\<close>

theorem file_records_read_back:
  assumes "forS UpsertFileRecord rs d = (Inr (), d')" "\<forall>r \<in> set rs. text_nul_free r"
    and "nul_free task" "nul_free path" "ValidateRelativePath path = Inr ()"
  shows "FindFileRecord task path (db_tables d') =
    (case find (\<lambda>r. fr_task_id r = task \<and> fr_relative_path r = path) (rev rs) of
       Some r \<Rightarrow> Inr (Some r)
     | None \<Rightarrow> FindFileRecord task path (db_tables d))"
proof -
  have key: "find (\<lambda>r. (cstr (fr_task_id r), cstr (fr_relative_path r)) = (task, path)) (rev rs) =
      find (\<lambda>r. fr_task_id r = task \<and> fr_relative_path r = path) (rev rs)"
    using assms(2) by (intro find_cong refl) (auto simp: text_nul_free_def)
  have got: "row_of file_key (task, path) (t_file_records (db_tables d')) =
      (case find (\<lambda>r. fr_task_id r = task \<and> fr_relative_path r = path) (rev rs) of
         None \<Rightarrow> row_of file_key (task, path) (t_file_records (db_tables d))
       | Some r \<Rightarrow> Some (stored_record r))"
    using file_store.get_after_puts [OF assms(1), of "(task, path)"] unfolding key .
  show ?thesis
  proof (cases "find (\<lambda>r. fr_task_id r = task \<and> fr_relative_path r = path) (rev rs)")
    case None
    then show ?thesis using got assms by (simp add: FindFileRecord_def)
  next
    case (Some r)
    then have "r \<in> set rs" "fr_task_id r = task" "fr_relative_path r = path"
      using find_SomeD [OF Some] by auto
    then have "stored_record r = r" "r\<lparr>fr_task_id := task, fr_relative_path := path, fr_kind := fr_kind r\<rparr> = r"
      using assms(2) by auto
    then show ?thesis using Some got assms by (simp add: FindFileRecord_def read_file_record_def)
  qed
qed

definition demo_record :: FileRecord where
  "demo_record = \<lparr>fr_task_id = ''t'', fr_relative_path = ''a'', fr_kind = fkFile, fr_size = 3,
     fr_mtime_ns = 5, fr_content_hash = [1], fr_version_id = ''v'', fr_origin_device_id = ''d'',
     fr_logical_clock = 7, fr_deleted_at_ms = None\<rparr>"

theorem file_records_read_back_witness:
  "FindFileRecord ''t'' ''a'' (db_tables (snd (UpsertFileRecord demo_record demo_database))) = Inr (Some demo_record)"
proof -
  have "fst (UpsertFileRecord demo_record demo_database) = Inr ()"
    by (simp add: UpsertFileRecord_cases demo_record_def ValidateFileRecord_def ValidateRelativePath_def
        demo_tables)
  then have "forS UpsertFileRecord [demo_record] demo_database = (Inr (), snd (UpsertFileRecord demo_record demo_database))"
    by (cases "UpsertFileRecord demo_record demo_database") (simp add: op_defs)
  from file_records_read_back [OF this, of "''t''" "''a''"] show ?thesis
    by (simp add: text_nul_free_def ValidateRelativePath_def demo_record_def)
qed

section \<open>The logical clock\<close>

definition clock_of :: "string \<Rightarrow> tables \<Rightarrow> u64" where
  "clock_of k t = (case row_of fst k (t_task_clocks t) of None \<Rightarrow> 0 | Some (_, c) \<Rightarrow> c)"

lemma clock_of_bound:
  assumes "tables_inv t"
  shows "unat (clock_of k t) \<le> kInt64Max"
proof (cases "row_of fst k (t_task_clocks t)")
  case (Some r)
  then have "r \<in> set (t_task_clocks t)" using row_of_SomeD [OF Some] by simp
  from inv_values(4) [OF assms this] Some show ?thesis by (auto simp: clock_of_def split: prod.splits)
qed (simp add: clock_of_def)

lemma unat_max: "unat (max (a :: u64) b) = max (unat a) (unat b)"
  by (auto simp: max_def word_le_nat_alt)

lemma unat_succ_64: "unat (w :: u64) \<le> kInt64Max \<Longrightarrow> unat (w + 1) = unat w + 1"
  using unat_add_64 [of w 1] by (simp add: kInt64Max_def)

lemma advance_clock_value:
  assumes inv: "tables_inv (db_tables d)" and n: "unat n \<le> kInt64Max"
  shows "advance_clock k n d =
    (let base = max (clock_of (cstr k) (db_tables d)) n in
     if unat base = kInt64Max then (Inl (Overflow_error ''logical clock overflow''), d)
     else if \<not> task_exists (cstr k) (db_tables d)
     then (Inl (sql_error ''update logical clock'' kForeignKey), d)
     else (Inr (base + 1), d\<lparr>db_tables := (db_tables d)\<lparr>t_task_clocks :=
       upsert_row fst (cstr k, base + 1) (t_task_clocks (db_tables d))\<rparr>\<rparr>))"
proof -
  let ?base = "max (clock_of (cstr k) (db_tables d)) n"
  have le: "unat ?base \<le> kInt64Max" using clock_of_bound [OF inv] n by (simp add: unat_max)
  then have "unat (?base + 1) = unat ?base + 1"
    using unat_succ_64 by simp
  then have "\<not> kInt64Max < unat (?base + 1)" if "unat ?base \<noteq> kInt64Max" using le that by simp
  then show ?thesis
    by (simp add: advance_clock_def op_defs query_def statement_def clock_of_def Let_def)
qed

text \<open>
  Advancing the clock of a task returns one more than the larger of the stored and the observed
  value, stores what it returns, and leaves the clocks of other tasks alone: the result is greater
  than every value returned before and than the observed one, and still fits a signed 64-bit integer.
  It throws instead, and changes nothing, when the task is missing or the successor would not fit.
\<close>

theorem lamport_clock:
  assumes "d = run_calls cs fresh_database" "k \<noteq> []" "nul_free k" "unat observed \<le> kInt64Max"
  shows "case AdvanceLogicalClock k observed d of
      (Inr n, d') \<Rightarrow> unat n = max (unat (clock_of k (db_tables d))) (unat observed) + 1 \<and>
         unat n \<le> kInt64Max \<and> clock_of k (db_tables d') = n \<and>
         (\<forall>j. j \<noteq> k \<longrightarrow> clock_of j (db_tables d') = clock_of j (db_tables d))
    | (Inl e, d') \<Rightarrow> d' = d \<and> (k \<notin> td_task_id ` set (t_tasks (db_tables d)) \<or>
         max (unat (clock_of k (db_tables d))) (unat observed) = kInt64Max)"
proof -
  have d: "db_inv d" "db_saved d = None"
    using run_calls_inv [OF fresh_database_inv, of cs] assms(1) by (simp_all add: fresh_database_eq)
  let ?base = "max (clock_of k (db_tables d)) observed"
  have inv: "tables_inv (db_tables d)" using d by (simp add: db_inv_def)
  have le: "unat ?base \<le> kInt64Max" using clock_of_bound [OF inv] assms(4) by (simp add: unat_max)
  then have succ: "unat (?base + 1) = unat ?base + 1"
    using unat_succ_64 by simp
  have clock: "clock_of j (t\<lparr>t_task_clocks := upsert_row fst (k, c) (t_task_clocks t)\<rparr>) =
      (if j = k then c else clock_of j t)" for j c t
    by (simp add: clock_of_def row_of_upsert)
  have adv: "AdvanceLogicalClock k observed d =
      (if unat ?base = kInt64Max then (Inl (Overflow_error ''logical clock overflow''), d)
       else if \<not> task_exists k (db_tables d) then (Inl (sql_error ''update logical clock'' kForeignKey), d)
       else (Inr (?base + 1), d\<lparr>db_tables := (db_tables d)\<lparr>t_task_clocks :=
         upsert_row fst (k, ?base + 1) (t_task_clocks (db_tables d))\<rparr>\<rparr>))"
    using d(2) assms(2-4) inv
      advance_clock_value [of "d\<lparr>db_saved := Some (db_tables d)\<rparr>" observed k]
    by (simp add: AdvanceLogicalClock_def op_defs autocommit_def InTransaction_def rollback_def Let_def)
  show ?thesis unfolding adv using le succ by (auto simp: clock task_exists_iff unat_max)
qed

theorem lamport_clock_witness:
  "fst (AdvanceLogicalClock ''t'' 41 demo_database) = Inr 42"
proof -
  have c: "clock_of ''t'' (db_tables demo_database) = 0"
    by (simp add: clock_of_def demo_database_def empty_tables_def row_of_def)
  have "unat (41 :: u64) \<le> kInt64Max" by (simp add: kInt64Max_def)
  from lamport_clock [OF refl, of "''t''" 41 "[demo_call]", unfolded demo_database_eq, OF _ _ this] c
  show ?thesis
    by (auto simp: demo_database_def kInt64Max_def split: prod.splits sum.splits
        intro: unsigned_word_eqI)
qed

end
