(* ===== verification/Database_History.thy ===== *)
theory Database_History
  imports Database_Properties
begin

text \<open>
  The histories the database keeps: version ancestry, completed chunks, ignore-policy revisions and
  schema migrations, and the effect of an embedded NUL on text that was validated before it was bound.
\<close>

section \<open>Version ancestry\<close>

definition parent_of :: "string \<Rightarrow> tables \<Rightarrow> string \<Rightarrow> string option" where
  "parent_of k t v = (case row_of lineage_key (cstr k, cstr v) (t_version_lineage t) of
     None \<Rightarrow> None | Some r \<Rightarrow> vl_parent_version_id r)"

text \<open>The version \<open>n\<close> steps towards the root, if the recorded chain is that long.\<close>

fun nth_ancestor :: "nat \<Rightarrow> string \<Rightarrow> tables \<Rightarrow> string \<Rightarrow> string option" where
  "nth_ancestor 0 k t v = Some v"
| "nth_ancestor (Suc n) k t v = (case parent_of k t v of None \<Rightarrow> None | Some p \<Rightarrow> nth_ancestor n k t p)"

definition parents_named :: "tables \<Rightarrow> bool" where
  "parents_named t \<longleftrightarrow> (\<forall>r \<in> set (t_version_lineage t). vl_parent_version_id r \<noteq> Some [])"

lemma ancestor_walk_eq:
  assumes "k \<noteq> []" "parents_named t" "v \<noteq> []"
  shows "ancestor_walk n k a v t =
    (if \<exists>i < n. nth_ancestor i k t v = Some a then Inr True
     else if nth_ancestor n k t v = None then Inr False
     else Inl (Runtime_error ''version ancestry depth exceeds limit''))"
  using assms(3)
proof (induction n arbitrary: v)
  case 0
  then show ?case by simp
next
  case (Suc n)
  have shift: "(\<exists>i < Suc n. nth_ancestor i k t v = Some a) \<longleftrightarrow>
      v = a \<or> (\<exists>i < n. nth_ancestor (Suc i) k t v = Some a)"
    by (metis less_Suc_eq_0_disj nth_ancestor.simps(1) option.inject)
  show ?case
  proof (cases "parent_of k t v")
    case None
    then show ?thesis
      using Suc.prems assms(1) unfolding shift
      by (auto simp: FindVersionLineage_def parent_of_def split: option.splits)
  next
    case (Some p)
    then obtain r where r: "row_of lineage_key (cstr k, cstr v) (t_version_lineage t) = Some r"
      "vl_parent_version_id r = Some p"
      by (auto simp: parent_of_def split: option.splits)
    then have "p \<noteq> []" using assms(2) row_of_SomeD [OF r(1)] by (auto simp: parents_named_def)
    from Suc.IH [OF this] r Some Suc.prems assms(1) show ?thesis
      unfolding shift by (auto simp: FindVersionLineage_def)
  qed
qed

text \<open>
  C39: a version is reported as an ancestor exactly when following recorded parents reaches it in
  fewer than 100000 steps, as no ancestor exactly when it is not met and the chain ends within that
  many steps, and the lookup throws in the remaining case, a chain that is longer or runs in a circle:
  it always terminates.
\<close>

theorem ancestry_exact:
  assumes "k \<noteq> []" "a \<noteq> []" "v \<noteq> []" "parents_named t"
  shows "IsVersionAncestor k a v t =
    (if \<exists>n < 100000. nth_ancestor n k t v = Some a then Inr True
     else if nth_ancestor 100000 k t v = None then Inr False
     else Inl (Runtime_error ''version ancestry depth exceeds limit''))"
  using assms ancestor_walk_eq [OF assms(1,4,3), of kMaxAncestryDepth a]
  unfolding IsVersionAncestor_def kMaxAncestryDepth_def by simp

theorem ancestry_exact_witness:
  "IsVersionAncestor ''t'' ''a'' ''b'' (empty_tables\<lparr>t_version_lineage :=
     [\<lparr>vl_task_id = ''t'', vl_version_id = ''b'', vl_parent_version_id = Some ''a''\<rparr>]\<rparr>) = Inr True"
proof -
  let ?t = "empty_tables\<lparr>t_version_lineage :=
     [\<lparr>vl_task_id = ''t'', vl_version_id = ''b'', vl_parent_version_id = Some ''a''\<rparr>]\<rparr>"
  have "nth_ancestor 1 ''t'' ?t ''b'' = Some ''a''" by (simp add: parent_of_def row_of_def)
  then have "\<exists>n < 100000. nth_ancestor n ''t'' ?t ''b'' = Some ''a''"
    by (metis one_less_numeral_iff semiring_norm(76) semiring_norm(77))
  moreover have "parents_named ?t" by (simp add: parents_named_def)
  ultimately show ?thesis using ancestry_exact [of "''t''" "''a''" "''b''" ?t] by simp
qed

section \<open>A recorded parent stays\<close>

text \<open>A property of the tables that holds for the open transaction and for the state to go back to.\<close>

definition db_all :: "(tables \<Rightarrow> bool) \<Rightarrow> Database \<Rightarrow> bool" where
  "db_all Q d \<longleftrightarrow> Q (db_tables d) \<and> (\<forall>t. db_saved d = Some t \<longrightarrow> Q t)"

lemma db_all_statement:
  "(\<And>t t'. Q t \<Longrightarrow> f t = Inr t' \<Longrightarrow> Q t') \<Longrightarrow> keepsS (db_all Q) (statement operation f)"
  by (auto simp: keepsS_def statement_def db_all_def split: sum.splits)

lemma db_all_modify:
  "(\<And>t. Q t \<Longrightarrow> Q (f t)) \<Longrightarrow> keepsS (db_all Q) (modifyS (\<lambda>d. d\<lparr>db_tables := f (db_tables d)\<rparr>))"
  by (auto simp: keepsS_def modifyS_def db_all_def)

lemma db_all_InTransaction:
  assumes "keepsS (db_all Q) m"
  shows "keepsS (db_all Q) (InTransaction m)"
proof -
  have "db_all Q (snd (InTransaction m d))" if "db_all Q d" for d
  proof (cases "autocommit d")
    case True
    let ?d = "d\<lparr>db_saved := Some (db_tables d)\<rparr>"
    obtain x d' where m: "m ?d = (x, d')" by fastforce
    have "db_all Q ?d" using that by (simp add: db_all_def)
    then have "db_all Q d'" using assms m by (metis keepsS_def snd_conv)
    then show ?thesis
      using True m by (cases x) (auto simp: InTransaction_def db_all_def rollback_def split: option.splits)
  qed (use that in \<open>simp add: InTransaction_def\<close>)
  then show ?thesis by (simp add: keepsS_def)
qed

abbreviation has_lineage :: "VersionLineage \<Rightarrow> tables \<Rightarrow> bool" where
  "has_lineage r t \<equiv> r \<in> set (t_version_lineage t)"

fun deletes_task :: "string \<Rightarrow> db_call \<Rightarrow> bool" where
  "deletes_task k (Call_DeleteTask j) = (cstr j = k)"
| "deletes_task k (Call_InTransaction cs) = (\<exists>c \<in> set cs. deletes_task k c)"
| "deletes_task k _ = False"

lemmas statement_rules = keepsS_then keepsS_bind keepsS_guard keepsS_lift keepsS_query keepsS_get
  keepsS_return keepsS_for db_all_statement db_all_modify db_all_InTransaction

lemma lineage_kept_simple:
  "keepsS (db_all (has_lineage r)) (SavePendingIgnorePolicy p)"
  "keepsS (db_all (has_lineage r)) (ClearPendingIgnorePolicy k)"
  "keepsS (db_all (has_lineage r)) (CreateTask view task)"
  "keepsS (db_all (has_lineage r)) (UpdateTaskNetworkState k st err)"
  "keepsS (db_all (has_lineage r)) (SetTaskEnabled k b)"
  "keepsS (db_all (has_lineage r)) (UpdateTaskRuntime k st dirty scan err)"
  "keepsS (db_all (has_lineage r)) (ConfigureTaskConnection c)"
  "keepsS (db_all (has_lineage r)) (UpsertTaskMember m)"
  "keepsS (db_all (has_lineage r)) (UpsertFileRecord fr)"
  unfolding SavePendingIgnorePolicy_def ClearPendingIgnorePolicy_def CreateTask_def
    UpdateTaskNetworkState_def SetTaskEnabled_def UpdateTaskRuntime_def ConfigureTaskConnection_def
    UpsertTaskMember_def UpsertFileRecord_def update_runtime_def
  by (auto simp: Let_def insert_task_def split: if_splits intro!: statement_rules)

lemma lineage_kept_more:
  "keepsS (db_all (has_lineage r)) (RecordConflict cf)"
  "keepsS (db_all (has_lineage r)) (UpdateConflictState i st)"
  "keepsS (db_all (has_lineage r)) (RecordEngineEvent e)"
  "keepsS (db_all (has_lineage r)) (RecordIgnorePolicyRevision k content h src now)"
  "keepsS (db_all (has_lineage r)) (CreateTransfer tr)"
  "keepsS (db_all (has_lineage r)) (MarkTransferChunksCompleted tid is now)"
  "keepsS (db_all (has_lineage r)) (UpdateTransferState tid st now err)"
  unfolding RecordConflict_def UpdateConflictState_def RecordEngineEvent_def
    RecordIgnorePolicyRevision_def CreateTransfer_def MarkTransferChunksCompleted_def mark_chunk_def
    UpdateTransferState_def update_transfer_def Let_def
  by (auto split: if_splits option.splits intro!: statement_rules)

lemma lineage_kept_clock: "keepsS (db_all (has_lineage r)) (AdvanceLogicalClock k n)"
proof -
  have "keepsS (db_all (has_lineage r)) (advance_clock k n)"
    unfolding advance_clock_def Let_def by (auto split: if_splits intro!: statement_rules)
  then show ?thesis
    unfolding AdvanceLogicalClock_def by (auto intro!: statement_rules)
qed

lemma lineage_kept_record: "keepsS (db_all (has_lineage r)) (RecordVersionLineage l)"
  unfolding RecordVersionLineage_def
  by (auto simp: insert_lineage_def split: if_splits option.splits intro!: statement_rules)

lemma lineage_kept_delete:
  "cstr k \<noteq> vl_task_id r \<Longrightarrow> keepsS (db_all (has_lineage r)) (DeleteTask k)"
  unfolding DeleteTask_def
  by (auto simp: delete_task_rows_def delete_task_row_def Let_def intro!: statement_rules)

lemma lineage_kept_call:
  "\<not> deletes_task (vl_task_id r) c \<Longrightarrow> keepsS (db_all (has_lineage r)) (run_call c)"
proof (induction c rule: run_call.induct)
  case (4 k)
  then show ?case by (simp add: lineage_kept_delete)
next
  case (22 cs)
  then show ?case by (auto intro!: db_all_InTransaction keepsS_for)
qed (auto simp: lineage_kept_simple lineage_kept_more lineage_kept_clock lineage_kept_record
    RecordTombstone_def MarkTransferChunkCompleted_def discard_def intro!: keepsS_bind)

lemma lineage_kept_calls:
  "db_all (has_lineage r) d \<Longrightarrow> \<forall>c \<in> set cs. \<not> deletes_task (vl_task_id r) c \<Longrightarrow>
   db_all (has_lineage r) (run_calls cs d)"
  by (induction cs arbitrary: d) (auto simp: keepsS_def dest!: lineage_kept_call)

lemma run_calls_append: "run_calls (xs @ ys) d = run_calls ys (run_calls xs d)"
  by (induction xs arbitrary: d) auto

text \<open>
  Once a version's parent is recorded, the lookup keeps returning it, whatever calls follow,
  recordings of another parent for the same version included, until the task itself is deleted.
\<close>

theorem version_parent_immutable:
  assumes "FindVersionLineage k v (db_tables (run_calls before fresh_database)) = Inr (Some l)"
    and "\<forall>c \<in> set later. \<not> deletes_task (cstr k) c"
  shows "FindVersionLineage k v (db_tables (run_calls (before @ later) fresh_database)) = Inr (Some l)"
proof -
  let ?d = "run_calls before fresh_database" and ?d' = "run_calls (before @ later) fresh_database"
  obtain r where kv: "k \<noteq> []" "v \<noteq> []"
    and r: "row_of lineage_key (cstr k, cstr v) (t_version_lineage (db_tables ?d)) = Some r"
    and l: "l = r\<lparr>vl_task_id := k, vl_version_id := v\<rparr>"
    using assms(1) by (auto simp: FindVersionLineage_def split: if_splits)
  have task: "vl_task_id r = cstr k" and "db_all (has_lineage r) ?d"
    using row_of_SomeD [OF r] run_calls_inv [OF fresh_database_inv, of before]
    by (auto simp: db_all_def fresh_database_eq)
  then have "has_lineage r (db_tables ?d')"
    using lineage_kept_calls [of r ?d later] assms(2) by (simp add: run_calls_append db_all_def)
  moreover have "unique_key lineage_key (t_version_lineage (db_tables ?d'))"
    using run_calls_inv [OF fresh_database_inv, of "before @ later"] by (simp add: fresh_database_eq db_inv_def)
  ultimately have "row_of lineage_key (cstr k, cstr v) (t_version_lineage (db_tables ?d')) = Some r"
    using row_of_SomeD [OF r] by (simp add: row_of_Some_iff)
  then show ?thesis using kv l by (simp add: FindVersionLineage_def)
qed

definition demo_lineage :: "string \<Rightarrow> db_call" where
  "demo_lineage p = Call_RecordVersionLineage
     \<lparr>vl_task_id = ''t'', vl_version_id = ''b'', vl_parent_version_id = Some p\<rparr>"

theorem version_parent_immutable_witness:
  "FindVersionLineage ''t'' ''b''
     (db_tables (run_calls ([demo_call, demo_lineage ''a''] @ [demo_lineage ''z'']) fresh_database)) =
   Inr (Some \<lparr>vl_task_id = ''t'', vl_version_id = ''b'', vl_parent_version_id = Some ''a''\<rparr>)"
proof (rule version_parent_immutable)
  have "run_calls [demo_call, demo_lineage ''a''] fresh_database =
      snd (run_call (demo_lineage ''a'') demo_database)"
    by (simp flip: demo_database_eq)
  then show "FindVersionLineage ''t'' ''b''
      (db_tables (run_calls [demo_call, demo_lineage ''a''] fresh_database)) =
     Inr (Some \<lparr>vl_task_id = ''t'', vl_version_id = ''b'', vl_parent_version_id = Some ''a''\<rparr>)"
    by (simp add: demo_lineage_def RecordVersionLineage_def FindVersionLineage_def op_defs row_of_def
        demo_database_def empty_tables_def statement_def insert_lineage_def has_key_def)
qed (simp add: demo_lineage_def)

section \<open>Completed chunks\<close>

lemma mem_CompletedTransferChunks:
  "n \<in> set (CompletedTransferChunks k t) \<longleftrightarrow>
     (\<exists>c \<in> set (t_transfer_chunks t). ck_transfer_id c = k \<and> ck_completed c \<and> ck_chunk_index c = n)"
  by (auto simp: CompletedTransferChunks_def)

lemma upsert_chunk_mem:
  "(\<exists>c \<in> set (upsert_row chunk_key \<lparr>ck_transfer_id = k, ck_chunk_index = i, ck_completed = True\<rparr> t).
      ck_transfer_id c = j \<and> ck_completed c \<and> ck_chunk_index c = n) \<longleftrightarrow>
   (j = k \<and> n = i) \<or> (\<exists>c \<in> set t. ck_transfer_id c = j \<and> ck_completed c \<and> ck_chunk_index c = n)"
  unfolding set_upsert_eq bex_simps by auto

lemma CompletedTransferChunks_sorted:
  assumes "tables_inv t"
  shows "sorted (CompletedTransferChunks k t) \<and> distinct (CompletedTransferChunks k t)"
proof -
  let ?c = "filter (\<lambda>c. ck_transfer_id c = k \<and> ck_completed c) (t_transfer_chunks t)"
  have "distinct (map chunk_key ?c)" using inv_unique(4) [OF assms] by (rule distinct_map_filter)
  then have "distinct (map ck_chunk_index ?c)"
    unfolding distinct_map by (auto simp: inj_on_def)
  then show ?thesis
    unfolding CompletedTransferChunks_def by (blast intro: order_by_sorted order_by_distinct)
qed

lemma mark_chunks_loop:
  assumes "has_key transfer_key k (t_transfers (db_tables d))"
  shows "\<exists>d'. forS (mark_chunk k) ixs d = (Inr (), d') \<and> db_saved d' = db_saved d \<and>
    t_transfers (db_tables d') = t_transfers (db_tables d) \<and>
    (\<forall>j. set (CompletedTransferChunks j (db_tables d')) =
       set (CompletedTransferChunks j (db_tables d)) \<union> (if j = k then set ixs else {}))"
  using assms
proof (induction ixs arbitrary: d)
  case Nil
  then show ?case by (simp add: op_defs)
next
  case (Cons i ixs)
  define d1 where "d1 = d\<lparr>db_tables := (db_tables d)\<lparr>t_transfer_chunks := upsert_row chunk_key
     \<lparr>ck_transfer_id = k, ck_chunk_index = i, ck_completed = True\<rparr> (t_transfer_chunks (db_tables d))\<rparr>\<rparr>"
  have step: "mark_chunk k i d = (Inr (), d1)"
    using Cons.prems by (simp add: mark_chunk_def statement_def d1_def)
  have "set (CompletedTransferChunks j (db_tables d1)) =
      set (CompletedTransferChunks j (db_tables d)) \<union> (if j = k then {i} else {})" for j
    by (auto simp: d1_def set_eq_iff mem_CompletedTransferChunks upsert_chunk_mem)
  moreover have "has_key transfer_key k (t_transfers (db_tables d1))" "db_saved d1 = db_saved d"
      "t_transfers (db_tables d1) = t_transfers (db_tables d)"
    using Cons.prems by (simp_all add: d1_def)
  ultimately show ?case
    using Cons.IH [of d1] by (auto simp: thenS_def bindS_def step)
qed

lemma mark_chunks_missing:
  "\<not> has_key transfer_key k (t_transfers (db_tables d)) \<Longrightarrow> ixs \<noteq> [] \<Longrightarrow>
   forS (mark_chunk k) ixs d = (Inl (sql_error ''mark transfer chunk complete'' kForeignKey), d)"
  by (cases ixs) (simp_all add: mark_chunk_def statement_def op_defs)

lemma transfer_state_None: "TransferState k t = None \<longleftrightarrow> \<not> has_key transfer_key k (t_transfers t)"
  by (simp add: TransferState_def row_of_None_iff)

text \<open>Marking chunks of a transfer that exists, outside of a transaction.\<close>

lemma mark_chunks_ok:
  assumes d: "db_inv d" "db_saved d = None" and key: "has_key transfer_key k (t_transfers (db_tables d))"
    and args: "ixs \<noteq> []" "0 < now" "\<forall>i \<in> set ixs. unat i \<le> kInt64Max"
  shows "\<exists>d'. MarkTransferChunksCompleted k ixs now d = (Inr (), d') \<and> db_inv d' \<and> db_saved d' = None \<and>
    has_key transfer_key k (t_transfers (db_tables d')) \<and>
    TransferState k (db_tables d') = TransferState k (db_tables d) \<and>
    (\<forall>j. set (CompletedTransferChunks j (db_tables d')) =
       set (CompletedTransferChunks j (db_tables d)) \<union> (if j = k then set ixs else {}))"
proof -
  have inv: "tables_inv (db_tables d)" using d(1) by (simp add: db_inv_def)
  let ?d = "d\<lparr>db_saved := Some (db_tables d)\<rparr>"
  let ?f = "\<lambda>r. r\<lparr>row_transfer := (row_transfer r)\<lparr>tr_updated_at_ms := now\<rparr>\<rparr>"
  have args': "\<not> (ixs = [] \<or> now \<le> 0 \<or> (\<exists>i \<in> set ixs. kInt64Max < unat i))"
    using args by (auto simp: not_less)
  obtain d1 where loop: "forS (mark_chunk k) ixs ?d = (Inr (), d1)"
    and d1: "t_transfers (db_tables d1) = t_transfers (db_tables d)"
      "\<forall>j. set (CompletedTransferChunks j (db_tables d1)) =
         set (CompletedTransferChunks j (db_tables d)) \<union> (if j = k then set ixs else {})"
    using mark_chunks_loop [of k ?d ixs] key by auto
  have one: "changes (\<lambda>r. transfer_key r = k) (t_transfers (db_tables d1)) = 1"
    using key inv d1(1) by (simp add: changes_unique)
  let ?t = "(db_tables d1)\<lparr>t_transfers := update_rows (\<lambda>r. transfer_key r = k) ?f (t_transfers (db_tables d1))\<rparr>"
  let ?d' = "d1\<lparr>db_tables := ?t, db_saved := None\<rparr>"
  have res: "MarkTransferChunksCompleted k ixs now d = (Inr (), ?d')"
    using d(2) args' loop one
    by (simp add: MarkTransferChunksCompleted_def update_transfer_def InTransaction_def autocommit_def
        thenS_def bindS_def guardS_def query_def statement_def)
  have state: "TransferState k ?t = TransferState k (db_tables d)"
    using row_of_update [of transfer_key ?f k k "t_transfers (db_tables d1)"] d1(1)
    by (simp add: TransferState_def option.map_comp comp_def)
  moreover have "CompletedTransferChunks j ?t = CompletedTransferChunks j (db_tables d1)" for j
    by (simp add: CompletedTransferChunks_def)
  moreover have "db_inv ?d'"
    using keepsD [OF keeps_MarkTransferChunksCompleted d(1), of k ixs now] res by simp
  moreover have "has_key transfer_key k (t_transfers ?t)"
    using state key transfer_state_None [of k ?t] transfer_state_None [of k "db_tables d"] by simp
  ultimately show ?thesis using res d1(2) by auto
qed

text \<open>
  Marking chunks of an existing transfer succeeds and adds exactly those chunks to the completed
  ones of that transfer and of no other; the completed list is always strictly increasing, so marking
  a chunk twice is harmless.  For a transfer that does not exist it throws and changes nothing.
\<close>

theorem completed_chunks_exact:
  assumes "d = run_calls cs fresh_database" "ixs \<noteq> []" "0 < now"
    and "\<forall>i \<in> set ixs. unat i \<le> kInt64Max"
  shows "sorted (CompletedTransferChunks k (db_tables d)) \<and> distinct (CompletedTransferChunks k (db_tables d)) \<and>
    (case MarkTransferChunksCompleted k ixs now d of
       (Inl e, d') \<Rightarrow> TransferState k (db_tables d) = None \<and> d' = d
     | (Inr _, d') \<Rightarrow> TransferState k (db_tables d) \<noteq> None \<and>
         TransferState k (db_tables d') = TransferState k (db_tables d) \<and>
         (\<forall>j. set (CompletedTransferChunks j (db_tables d')) =
            set (CompletedTransferChunks j (db_tables d)) \<union> (if j = k then set ixs else {})))"
proof -
  have d: "db_inv d" "db_saved d = None"
    using run_calls_inv [OF fresh_database_inv, of cs] assms(1) by (simp_all add: fresh_database_eq)
  then have inv: "tables_inv (db_tables d)" by (simp add: db_inv_def)
  let ?d = "d\<lparr>db_saved := Some (db_tables d)\<rparr>"
  show ?thesis
  proof (cases "has_key transfer_key k (t_transfers (db_tables d))")
    case False
    have "\<not> (ixs = [] \<or> now \<le> 0 \<or> (\<exists>i \<in> set ixs. kInt64Max < unat i))"
      using assms(2-4) by (auto simp: not_less)
    then have "MarkTransferChunksCompleted k ixs now d =
        (Inl (sql_error ''mark transfer chunk complete'' kForeignKey), d)"
      using False d(2) mark_chunks_missing [of k ?d ixs] assms(2)
      by (simp add: MarkTransferChunksCompleted_def op_defs InTransaction_def autocommit_def rollback_def)
    with False CompletedTransferChunks_sorted [OF inv] show ?thesis
      by (simp add: TransferState_def row_of_None_iff)
  next
    case True
    with mark_chunks_ok [OF d True assms(2-4)] CompletedTransferChunks_sorted [OF inv] show ?thesis
      by (auto simp: TransferState_def row_of_None_iff)
  qed
qed

definition demo_transfer :: TransferRecord where
  "demo_transfer = \<lparr>tr_transfer_id = [1], tr_task_id = ''t'', tr_peer_device_id = ''p'',
     tr_direction = ''download'', tr_file_hash = replicate 32 0, tr_state = ''active'',
     tr_created_at_ms = 1, tr_updated_at_ms = 1, tr_relative_path = []\<rparr>"

theorem completed_chunks_exact_witness:
  "5 \<in> set (CompletedTransferChunks [1] (db_tables (snd (MarkTransferChunksCompleted [1] [5] 2
     (run_calls [demo_call, Call_CreateTransfer demo_transfer] fresh_database)))))"
proof -
  let ?cs = "[demo_call, Call_CreateTransfer demo_transfer]"
  have "run_calls ?cs fresh_database = snd (run_call (Call_CreateTransfer demo_transfer) demo_database)"
    by (simp flip: demo_database_eq)
  then have "TransferState [1] (db_tables (run_calls ?cs fresh_database)) = Some ''active''"
    by (simp add: CreateTransfer_def ValidateTransfer_def demo_transfer_def op_defs statement_def
        demo_database_def empty_tables_def has_key_def TransferState_def row_of_def)
  then show ?thesis
    using completed_chunks_exact [OF refl, of "[5]" 2 "[1]" ?cs]
    by (auto simp: kInt64Max_def simp del: run_calls.simps split: prod.splits sum.splits)
qed

section \<open>Policy history\<close>

definition revisions_of :: "string \<Rightarrow> tables \<Rightarrow> IgnorePolicyRevision list" where
  "revisions_of k t = order_by (\<lambda>row. - int (ip_revision row))
     (filter (\<lambda>row. ip_task_id row = k) (t_policy_revisions t))"

lemma sorted_rev_unique:
  fixes xs :: "int list"
  assumes "sorted xs" "distinct xs" "set xs = set ys" "sorted ys" "distinct ys"
  shows "xs = ys"
  using assms sorted_distinct_set_unique by blast

lemma revision_numbers:
  assumes "tables_inv t"
  shows "map ip_revision (revisions_of k t) = rev [1..<next_revision k t]"
proof -
  let ?f = "filter (\<lambda>row. ip_task_id row = k) (t_policy_revisions t)"
  let ?neg = "\<lambda>row. - int (ip_revision row)"
  have pol: "policies_inv t" using assms by (simp add: tables_inv_def)
  have "distinct (map revision_key ?f)" using inv_unique(9) [OF assms] by (rule distinct_map_filter)
  then have "distinct (map ?neg ?f)" unfolding distinct_map by (auto simp: inj_on_def)
  then have d: "distinct (map ?neg (revisions_of k t))"
    unfolding revisions_of_def by (rule order_by_distinct)
  have s: "sorted (map ?neg (revisions_of k t))" unfolding revisions_of_def by (rule order_by_sorted)
  have "ip_revision ` set (revisions_of k t) = {1..<next_revision k t}"
  proof (rule set_eqI)
    fix n
    have "n \<in> ip_revision ` set (revisions_of k t) \<longleftrightarrow>
        (\<exists>r \<in> set (t_policy_revisions t). ip_task_id r = k \<and> ip_revision r = n)"
      by (auto simp: revisions_of_def)
    then show "n \<in> ip_revision ` set (revisions_of k t) \<longleftrightarrow> n \<in> {1..<next_revision k t}"
      by (auto simp: policies_rev [OF pol])
  qed
  then have "set (map ?neg (revisions_of k t)) = (\<lambda>n. - int n) ` {1..<next_revision k t}"
    by (metis image_image image_set)
  also have "\<dots> = set (map (\<lambda>n. - int n) (rev [1..<next_revision k t]))" by simp
  finally have e: "set (map ?neg (revisions_of k t)) = \<dots>" .
  have "sorted (map (\<lambda>n. - int n) (rev [1..<m]))" for m
    by (induction m) (auto simp: sorted_append)
  moreover have "distinct (map (\<lambda>n. - int n) (rev [1..<m]))" for m
    by (simp add: distinct_map inj_on_def)
  ultimately have "map ?neg (revisions_of k t) = map (\<lambda>n. - int n) (rev [1..<next_revision k t])"
    using sorted_rev_unique [OF s d e] by blast
  then have "map (\<lambda>n. - int n) (map ip_revision (revisions_of k t)) =
      map (\<lambda>n. - int n) (rev [1..<next_revision k t])"
    by (simp add: comp_def)
  then show ?thesis by (rule map_injective) (simp add: inj_def)
qed

definition with_revision :: "string \<Rightarrow> string \<Rightarrow> string \<Rightarrow> string \<Rightarrow> int \<Rightarrow> tables \<Rightarrow> IgnorePolicyRevision \<times> tables" where
  "with_revision k content h src now t =
     (let n = next_revision k t;
          r = \<lparr>ip_task_id = k, ip_revision = n, ip_content = content, ip_content_hash = h, ip_source = src, ip_created_at_ms = now\<rparr>
      in (r, t\<lparr>t_policy_revisions := t_policy_revisions t @ [r],
           t_policy_state := upsert_row pst_task_id \<lparr>pst_task_id = k, pst_revision = n, pst_content_hash = h, pst_updated_at_ms = now\<rparr>
             (t_policy_state t)\<rparr>))"

lemma record_revision_run:
  assumes "db_inv d" "db_saved d = None" "k \<noteq> []" "nul_free k" "nul_free h"
    and "length content \<le> 16 * 1024" "length h = 64" "src \<in> {''manual'', ''ai'', ''undo''}" "0 < now"
  shows "RecordIgnorePolicyRevision k content h src now d =
     (if task_exists k (db_tables d)
      then (case with_revision k content h src now (db_tables d) of (r, t') \<Rightarrow> (Inr r, d\<lparr>db_tables := t'\<rparr>))
      else (Inl (sql_error ''insert ignore policy revision'' kForeignKey), d))"
proof -
  let ?t = "db_tables d"
  have src: "cstr src = src" using assms(8) by auto
  have fresh: "\<not> has_key revision_key (k, next_revision k ?t) (t_policy_revisions ?t)"
    using policies_rev [of ?t k "next_revision k ?t"] assms(1) by (force simp: has_key_def db_inv_def tables_inv_def)
  have args: "\<not> (k = [] \<or> 16 * 1024 < length content \<or> length h \<noteq> 64 \<or>
      src \<notin> set [''manual'', ''ai'', ''undo''] \<or> now \<le> 0)"
    using assms(3,6-9) by auto
  show ?thesis
    using assms(2) args src assms(4,5) fresh
    by (auto simp: RecordIgnorePolicyRevision_def op_defs InTransaction_def autocommit_def query_def
        statement_def rollback_def Let_def has_key_def with_revision_def)
qed

lemma with_revision_facts:
  assumes "tables_inv t" "task_exists k t" "with_revision k content h src now t = (r, t')"
  shows "tables_inv t'" "ip_revision r = next_revision k t" "revisions_of k t' = r # revisions_of k t"
    and "k \<noteq> [] \<Longrightarrow> nul_free k \<Longrightarrow> nul_free content \<Longrightarrow> CurrentIgnorePolicyRevision k t' = Inr (Some r)"
proof -
  have r: "r = \<lparr>ip_task_id = k, ip_revision = next_revision k t, ip_content = content, ip_content_hash = h, ip_source = src,
      ip_created_at_ms = now\<rparr>"
    and t': "t' = t\<lparr>t_policy_revisions := t_policy_revisions t @ [r], t_policy_state := upsert_row pst_task_id
      \<lparr>pst_task_id = k, pst_revision = next_revision k t, pst_content_hash = h, pst_updated_at_ms = now\<rparr> (t_policy_state t)\<rparr>"
    using assms(3) by (auto simp: with_revision_def Let_def)
  show inv: "tables_inv t'"
    unfolding t' using assms(2) by (intro inv_add_revision [OF assms(1), of k]) (simp_all add: r task_exists_iff)
  show "ip_revision r = next_revision k t" by (simp add: r)
  let ?f = "filter (\<lambda>row. ip_task_id row = k)" and ?neg = "\<lambda>row. - int (ip_revision row)"
  have "distinct (map revision_key (?f (t_policy_revisions t')))"
    using inv_unique(9) [OF inv] by (rule distinct_map_filter)
  then have "inj_on ?neg (set (?f (t_policy_revisions t')))" unfolding distinct_map by (auto simp: inj_on_def)
  moreover have "sorted (map ?neg (r # revisions_of k t))"
  proof -
    have "ip_revision x < next_revision k t" if "x \<in> set (revisions_of k t)" for x
    proof -
      have "ip_revision x \<in> set (map ip_revision (revisions_of k t))" using that by simp
      then show ?thesis unfolding revision_numbers [OF assms(1)] by simp
    qed
    moreover have "sorted (map ?neg (revisions_of k t))" unfolding revisions_of_def by (rule order_by_sorted)
    ultimately show ?thesis by (fastforce simp: r)
  qed
  moreover have "mset (?f (t_policy_revisions t')) = mset (r # revisions_of k t)"
    by (simp add: t' r revisions_of_def order_by_def)
  ultimately show "revisions_of k t' = r # revisions_of k t"
    unfolding revisions_of_def [of k t'] order_by_def by (intro sort_key_inj_key_eq)
  have "\<not> has_key revision_key (k, next_revision k t) (t_policy_revisions t)"
    using policies_rev [of t k "next_revision k t"] assms(1) by (force simp: has_key_def tables_inv_def)
  then show "CurrentIgnorePolicyRevision k t' = Inr (Some r)" if "k \<noteq> []" "nul_free k" "nul_free content"
    using that row_of_append_fresh [of revision_key r "t_policy_revisions t"]
    by (simp add: CurrentIgnorePolicyRevision_def row_of_upsert read_revision_def t' r)
qed

text \<open>
  Recording a policy revision of an existing task succeeds; it returns the next number, one more
  than the number of revisions so far, the recorded revision is the current one, and the history lists
  the latest revisions in descending order without a gap.  A missing task makes it throw, and nothing
  changes.
\<close>

theorem policy_history:
  assumes "d = run_calls cs fresh_database" "k \<noteq> []" "nul_free k" "nul_free content" "nul_free h"
    and "length content \<le> 16 * 1024" "length h = 64" "src \<in> {''manual'', ''ai'', ''undo''}" "0 < now"
    and "0 < limit" "limit \<le> 200"
  shows "case RecordIgnorePolicyRevision k content h src now d of
      (Inl e, d') \<Rightarrow> k \<notin> td_task_id ` set (t_tasks (db_tables d)) \<and> d' = d
    | (Inr r, d') \<Rightarrow> r = \<lparr>ip_task_id = k,
          ip_revision = Suc (length (filter (\<lambda>x. ip_task_id x = k) (t_policy_revisions (db_tables d)))),
          ip_content = content, ip_content_hash = h, ip_source = src, ip_created_at_ms = now\<rparr> \<and>
        CurrentIgnorePolicyRevision k (db_tables d') = Inr (Some r) \<and>
        (\<exists>rs. ListIgnorePolicyRevisions k limit (db_tables d') = Inr rs \<and>
           map ip_revision rs = take limit (rev [1..<Suc (ip_revision r)]))"
proof -
  have d: "db_inv d" "db_saved d = None"
    using run_calls_inv [OF fresh_database_inv, of cs] assms(1) by (simp_all add: fresh_database_eq)
  then have inv: "tables_inv (db_tables d)" by (simp add: db_inv_def)
  obtain r t' where r: "with_revision k content h src now (db_tables d) = (r, t')" by fastforce
  then have fields: "r = \<lparr>ip_task_id = k, ip_revision = next_revision k (db_tables d), ip_content = content, ip_content_hash = h,
      ip_source = src, ip_created_at_ms = now\<rparr>"
    by (auto simp: with_revision_def Let_def)
  have "length (revisions_of k (db_tables d)) = next_revision k (db_tables d) - 1"
    using arg_cong [OF revision_numbers [OF inv, of k], of length] by simp
  then have number: "next_revision k (db_tables d) = Suc (length (filter (\<lambda>x. ip_task_id x = k) (t_policy_revisions (db_tables d))))"
    by (simp add: revisions_of_def order_by_def next_revision_def)
  show ?thesis
  proof (cases "task_exists k (db_tables d)")
    case True
    have "map ip_revision (map (read_revision k) (take limit (revisions_of k t'))) =
        take limit (map ip_revision (r # revisions_of k (db_tables d)))"
      by (simp add: read_revision_def comp_def with_revision_facts(3) [OF inv True r] flip: take_map)
    also have "\<dots> = take limit (rev [1..<Suc (ip_revision r)])"
      using with_revision_facts(2) [OF inv True r] by (simp add: revision_numbers [OF inv] next_revision_def)
    finally have "\<exists>rs. ListIgnorePolicyRevisions k limit t' = Inr rs \<and> map ip_revision rs = take limit (rev [1..<Suc (ip_revision r)])"
      using assms(2,3,10,11) by (simp add: ListIgnorePolicyRevisions_def revisions_of_def)
    then show ?thesis
      unfolding record_revision_run [OF d assms(2,3,5-9)]
      using True r with_revision_facts(4) [OF inv True r assms(2-4)] by (simp add: fields number del: upt_Suc)
  next
    case False
    then show ?thesis
      unfolding record_revision_run [OF d assms(2,3,5-9)] by (simp add: task_exists_iff)
  qed
qed

theorem policy_history_witness:
  "case RecordIgnorePolicyRevision ''t'' ''x'' (replicate 64 CHR ''0'') ''ai'' 1 (run_calls [demo_call] fresh_database)
   of (Inl e, d') \<Rightarrow> False | (Inr r, d') \<Rightarrow> CurrentIgnorePolicyRevision ''t'' (db_tables d') = Inr (Some r)"
proof -
  have "''t'' \<in> td_task_id ` set (t_tasks (db_tables (run_calls [demo_call] fresh_database)))"
    unfolding demo_database_eq by (simp add: demo_database_def)
  moreover have "nul_free (replicate 64 CHR ''0'')" by simp
  ultimately show ?thesis
    using policy_history [OF refl, of "''t''" "''x''" "replicate 64 CHR ''0''" "''ai''" 1 1 "[demo_call]"]
    by (auto simp del: run_calls.simps split: prod.splits sum.splits)
qed

section \<open>Migrations\<close>

lemma SchemaVersion_range: "t_schema_versions t = [1..<Suc v] \<Longrightarrow> SchemaVersion t = v"
proof -
  have "fold max [1..<Suc v] 0 = v" by (induction v) (auto simp: max_def)
  then show "t_schema_versions t = [1..<Suc v] \<Longrightarrow> SchemaVersion t = v" by (simp add: SchemaVersion_def)
qed

lemma migration_versions [simp]: "t_schema_versions (migration_rows n t) = t_schema_versions t"
  by (simp add: migration_rows_def)

lemma migrate_versions:
  assumes "t_schema_versions t = [1..<Suc v]"
  shows "n \<le> v \<Longrightarrow> migrate n t = t"
    and "t_schema_versions (migrate (Suc v) t) = [1..<Suc (Suc v)]"
  using SchemaVersion_range [OF assms] assms by (simp_all add: migrate_def)

lemma migrations_versions:
  "t_schema_versions t = [1..<Suc v] \<Longrightarrow>
   t_schema_versions (fold migrate [1..<Suc m] t) = [1..<Suc (max v m)]"
proof (induction m)
  case (Suc m)
  then have ih: "t_schema_versions (fold migrate [1..<Suc m] t) = [1..<Suc (max v m)]" by simp
  have "fold migrate [1..<Suc (Suc m)] t = migrate (Suc m) (fold migrate [1..<Suc m] t)" by simp
  then show ?case
    using migrate_versions [OF ih] ih by (cases "Suc m \<le> v") (auto simp: max_def)
qed simp

lemma migrations_skip:
  "t_schema_versions t = [1..<Suc v] \<Longrightarrow> m \<le> v \<Longrightarrow> fold migrate [1..<Suc m] t = t"
proof (induction m)
  case (Suc m)
  then show ?case using migrate_versions(1) [of t v "Suc m"] by simp
qed simp

lemma migrate_keeps:
  assumes "2 \<le> n"
  shows "t_tasks (migrate n t) = t_tasks t" "t_file_records (migrate n t) = t_file_records t"
    "t_conflicts (migrate n t) = t_conflicts t"
  using assms by (auto simp: migrate_def migration_rows_def)

lemma migrations_keep:
  assumes "\<forall>n \<in> set ns. 2 \<le> n"
  shows "t_tasks (fold migrate ns t) = t_tasks t \<and> t_file_records (fold migrate ns t) = t_file_records t \<and>
    t_conflicts (fold migrate ns t) = t_conflicts t"
  using assms by (induction ns arbitrary: t) (auto simp: migrate_keeps)

definition runtime_after :: "nat \<Rightarrow> tables \<Rightarrow> TaskRuntimeState list" where
  "runtime_after v t =
     (if v < 6 then map (\<lambda>r. default_runtime (td_task_id r)) (t_tasks t)
      else if v = 6 then map (\<lambda>r. r\<lparr>rt_network_error := None,
           rt_network_status := if has_key tc_task_id (rt_task_id r) (t_task_connections t)
                                then ''offline'' else ''unpaired''\<rparr>) (t_task_runtime t)
      else t_task_runtime t)"

lemma migrate_runtime:
  assumes "t_schema_versions t = [1..<Suc v]" "n = Suc v"
  shows "t_task_runtime (migrate n t) =
    (if n = 6 then map (default_runtime \<circ> td_task_id) (t_tasks t)
     else if n = 7 then map (\<lambda>r. r\<lparr>rt_network_error := None,
           rt_network_status := if has_key tc_task_id (rt_task_id r) (t_task_connections t)
                                then ''offline'' else ''unpaired''\<rparr>) (t_task_runtime t)
     else t_task_runtime t)"
    "t_task_connections (migrate n t) = (if n = 6 then [] else t_task_connections t)"
  using SchemaVersion_range [OF assms(1)] assms(2) by (simp_all add: migrate_def migration_rows_def)

lemma stage_step: "fold migrate [1..<Suc (Suc m)] t = migrate (Suc m) (fold migrate [1..<Suc m] t)"
  by simp

lemma stage_tasks:
  assumes "t_schema_versions t = [1..<Suc v]" "1 \<le> v"
  shows "t_tasks (fold migrate [1..<Suc m] t) = t_tasks t \<and>
    t_file_records (fold migrate [1..<Suc m] t) = t_file_records t \<and>
    t_conflicts (fold migrate [1..<Suc m] t) = t_conflicts t"
proof (induction m)
  case (Suc m)
  then show ?case
    using migrate_keeps [of "Suc m" "fold migrate [1..<Suc m] t"] migrate_versions(1) [OF assms(1), of "Suc m"] assms(2)
    unfolding stage_step by (cases m) simp_all
qed simp

lemma runtime_stages:
  assumes ver: "t_schema_versions t = [1..<Suc v]" and v: "1 \<le> v" "v \<le> 8"
  shows "t_task_runtime (fold migrate [1..<Suc 8] t) = runtime_after v t"
proof -
  let ?s = "\<lambda>m. fold migrate [1..<Suc m] t"
  have ver_m: "t_schema_versions (?s m) = [1..<Suc m]" if "v \<le> m" for m
    using migrations_versions [OF ver, of m] that by (simp add: max_def del: upt_Suc split: if_splits)
  have s7: "?s 7 = migrate 7 (?s 6)" and s8: "?s 8 = migrate 8 (?s 7)" and s6: "?s 6 = migrate 6 (?s 5)"
    using stage_step [of 6 t] stage_step [of 7 t] stage_step [of 5 t] by (simp_all del: upt_Suc)
  have r8: "t_task_runtime (?s 8) = t_task_runtime (?s 7)"
  proof (cases "v = 8")
    case True
    then show ?thesis using migrations_skip [OF ver, of 8] migrations_skip [OF ver, of 7] by simp
  next
    case False
    then show ?thesis unfolding s8 using migrate_runtime(1) [OF ver_m [of 7], of 8] v by simp
  qed
  consider "v < 6" | "v = 6" | "7 \<le> v" by linarith
  then show ?thesis
  proof cases
    case 1
    have r6: "t_task_runtime (?s 6) = map (default_runtime \<circ> td_task_id) (t_tasks t)"
      "t_task_connections (?s 6) = []"
      unfolding s6 using migrate_runtime [OF ver_m [of 5], of 6] 1 stage_tasks [OF ver v(1), of 5] by simp_all
    have "t_task_runtime (?s 7) = map (default_runtime \<circ> td_task_id) (t_tasks t)"
      unfolding s7 using migrate_runtime(1) [OF ver_m [of 6], of 7] 1 r6
      by (simp add: has_key_def default_runtime_def)
    with 1 r8 show ?thesis by (simp add: runtime_after_def comp_def)
  next
    case 2
    then show ?thesis
      unfolding r8 s7 using migrate_runtime(1) [OF ver_m [of 6], of 7] migrations_skip [OF ver, of 6]
      by (simp add: runtime_after_def)
  next
    case 3
    then show ?thesis unfolding r8 using migrations_skip [OF ver, of 7] by (simp add: runtime_after_def)
  qed
qed

text \<open>
  A database at any earlier schema version is brought to version eight; running the migrations
  again changes nothing.  From version one on, tasks, file records and conflicts survive unchanged, and
  every task gets its runtime row: a default one when the table is new, and the network columns derived
  from the existing connections when only those are new.
\<close>

theorem migrations_reach_current:
  assumes "db_saved d = None" "t_schema_versions (db_tables d) = [1..<Suc v]" "v \<le> 8"
  shows "\<exists>d'. ApplyMigrations d = (Inr (), d') \<and> SchemaVersion (db_tables d') = 8 \<and>
    ApplyMigrations d' = (Inr (), d') \<and>
    (1 \<le> v \<longrightarrow> t_tasks (db_tables d') = t_tasks (db_tables d) \<and>
       t_file_records (db_tables d') = t_file_records (db_tables d) \<and>
       t_conflicts (db_tables d') = t_conflicts (db_tables d) \<and>
       t_task_runtime (db_tables d') = runtime_after v (db_tables d))"
proof -
  have l: "[1, 2, 3, 4, 5, 6, 7, 8 :: nat] = [1..<Suc 8]" by (simp add: upt_rec)
  let ?t = "fold migrate [1..<Suc 8] (db_tables d)" and ?d = "d\<lparr>db_tables := fold migrate [1..<Suc 8] (db_tables d)\<rparr>"
  have ver: "t_schema_versions ?t = [1..<Suc 8]"
    using migrations_versions [OF assms(2), of 8] assms(3) by (simp add: max_def del: upt_Suc)
  have first: "ApplyMigrations d = (Inr (), ?d)"
    using ApplyMigrations_eq [OF assms(1)] unfolding l .
  have second: "ApplyMigrations ?d = (Inr (), ?d)"
    using ApplyMigrations_eq [of ?d] migrations_skip [OF ver, of 8] assms(1) unfolding l by simp
  show ?thesis
    using first second SchemaVersion_range [OF ver] stage_tasks [OF assms(2), of 8]
      runtime_stages [OF assms(2) _ assms(3)]
    by (intro exI [of _ ?d]) (auto simp del: upt_Suc)
qed

theorem migrations_reach_current_witness:
  "\<exists>d'. ApplyMigrations \<lparr>db_tables = empty_tables\<lparr>t_schema_versions := [1..<Suc 6],
       t_task_runtime := [default_runtime ''t'']\<rparr>, db_saved = None\<rparr> = (Inr (), d') \<and>
     SchemaVersion (db_tables d') = 8"
  using migrations_reach_current [of "\<lparr>db_tables = empty_tables\<lparr>t_schema_versions := [1..<Suc 6],
       t_task_runtime := [default_runtime ''t'']\<rparr>, db_saved = None\<rparr>" 6]
  by (auto simp del: upt_Suc)

section \<open>An embedded NUL\<close>

lemma list_records_row:
  assumes "row \<in> set (t_file_records t)" "fr_task_id row = task_id" "nul_free task_id" "task_id \<noteq> []"
  shows "\<exists>rows. ListFileRecords task_id t = Inr rows \<and> row \<in> set rows"
proof -
  let ?rows = "order_by fr_relative_path (filter (\<lambda>row. fr_task_id row = task_id) (t_file_records t))"
  have read: "read_file_record task_id (fr_relative_path x) x = Inr (x\<lparr>fr_task_id := task_id\<rparr>)" for x
    by (cases x) (simp add: read_file_record_def)
  have "ListFileRecords task_id t = Inr (map (\<lambda>x. x\<lparr>fr_task_id := task_id\<rparr>) ?rows)"
    using assms(3,4) by (simp add: ListFileRecords_def read mapE_Inr_iff list_all2_conv_all_nth)
  moreover have "row \<in> set ?rows" using assms(1,2) by (simp add: order_by_def)
  moreover have "row\<lparr>fr_task_id := task_id\<rparr> = row" using assms(2) by simp
  ultimately show ?thesis by (metis (no_types, lifting) image_eqI list.set_map)
qed

text \<open>
  C40: a NUL carries a path that leaves the task root past the validation.  Validation looks at the whole text, and the database
  keeps the part before the first NUL.  For any valid directory, or none, the path that goes up from it is refused; the same path
  followed by a NUL and any characters that are no separators is accepted, for any record that is valid otherwise and any
  database that has its task, and the task's list of records then holds a record with the refused path.
\<close>

theorem nul_bypasses_validation:
  fixes r :: FileRecord
  assumes "parent = [] \<or> (\<exists>p. ValidateRelativePath p = Inr () \<and> parent = p @ ''/'')" "nul_free parent"
    and "\<forall>c \<in> set junk. c \<notin> {CHR ''/'', CHR 0x5C, CHR '':''}"
    and "ValidateFileRecord (r\<lparr>fr_relative_path := ''x''\<rparr>) = Inr ()" "nul_free (fr_task_id r)"
    and "task_exists (fr_task_id r) (db_tables d)"
  shows "ValidateRelativePath (parent @ ''..'') = Inl (Invalid_argument ''file record path must not traverse directories'') \<and>
    (\<exists>d' rows. UpsertFileRecord (r\<lparr>fr_relative_path := parent @ ''..'' @ CHR 0x00 # junk\<rparr>) d = (Inr (), d') \<and>
      ListFileRecords (fr_task_id r) (db_tables d') = Inr rows \<and> parent @ ''..'' \<in> fr_relative_path ` set rows)"
proof -
  let ?path = "parent @ ''..'' @ CHR 0x00 # junk"
  have valid_parts: "p \<noteq> [] \<and> hd p \<noteq> CHR ''/'' \<and> CHR 0x5C \<notin> set p \<and> CHR '':'' \<notin> set p \<and>
      \<not> (\<exists>c \<in> set (split_on CHR ''/'' p). c = [] \<or> c = ''.'' \<or> c = ''..'')" if "ValidateRelativePath p = Inr ()" for p
    using that unfolding ValidateRelativePath_def by (simp split: if_splits)
  have chars: "CHR 0x5C \<notin> set parent" "CHR '':'' \<notin> set parent" "parent \<noteq> [] \<Longrightarrow> hd parent \<noteq> CHR ''/''"
    using assms(1) valid_parts by auto
  have junk: "CHR ''/'' \<notin> set junk" "CHR 0x5C \<notin> set junk" "CHR '':'' \<notin> set junk" using assms(3) by auto
  have split: "split_on CHR ''/'' (parent @ rest) = (if parent = [] then [] else split_on CHR ''/'' (butlast parent)) @ [rest]"
    if "CHR ''/'' \<notin> set rest" for rest
    using assms(1) that by (auto simp: split_on_append split_on_free)
  have parts: "\<not> (\<exists>c \<in> set (if parent = [] then [] else split_on CHR ''/'' (butlast parent)). c = [] \<or> c = ''.'' \<or> c = ''..'')"
    using assms(1) valid_parts by (elim disjE exE) (simp, force)
  have head: "\<not> (parent @ CHR ''.'' # x = [] \<or> hd (parent @ CHR ''.'' # x) = CHR ''/'' \<or> CHR 0x5C \<in> set (parent @ CHR ''.'' # x) \<or>
      CHR '':'' \<in> set (parent @ CHR ''.'' # x))" if "x = ''.''" for x
    using chars that by (auto simp: hd_append)
  have refused: "ValidateRelativePath (parent @ ''..'') = Inl (Invalid_argument ''file record path must not traverse directories'')"
  proof -
    have "\<exists>c \<in> set (split_on CHR ''/'' (parent @ ''..'')). c = [] \<or> c = ''.'' \<or> c = ''..''"
      by (rule bexI [of _ "''..''"]) (simp_all add: split [of "''..''"])
    with head [OF refl] show ?thesis unfolding ValidateRelativePath_def by (simp only: if_P if_False simp_thms)
  qed
  have "ValidateRelativePath ?path = Inr ()"
  proof -
    have "\<not> (\<exists>c \<in> set (xs @ [y]). c = [] \<or> c = ''.'' \<or> c = ''..'')"
      if "\<not> (\<exists>c \<in> set xs. c = [] \<or> c = ''.'' \<or> c = ''..'')" "y = ''..'' @ CHR 0x00 # junk" for xs y
      using that by auto
    note this [OF parts refl]
    moreover have "CHR ''/'' \<notin> set (''..'' @ CHR 0x00 # junk)" using junk(1) by simp
    ultimately have "\<not> (\<exists>c \<in> set (split_on CHR ''/'' ?path). c = [] \<or> c = ''.'' \<or> c = ''..'')" by (simp only: split not_False_eq_True)
    moreover have "\<not> (?path = [] \<or> hd ?path = CHR ''/'' \<or> CHR 0x5C \<in> set ?path \<or> CHR '':'' \<in> set ?path)"
      using chars junk(2,3) by (auto simp: hd_append)
    ultimately show ?thesis unfolding ValidateRelativePath_def by (simp only: if_False)
  qed
  moreover have "ValidateRelativePath ''x'' = Inr ()" by (simp add: ValidateRelativePath_def)
  moreover have "ValidateFileRecord (r\<lparr>fr_relative_path := p\<rparr>) = ValidateFileRecord (r\<lparr>fr_relative_path := q\<rparr>)"
    if "ValidateRelativePath p = ValidateRelativePath q" for p q
    using that by (cases r) (simp add: ValidateFileRecord_def)
  ultimately have valid: "ValidateFileRecord (r\<lparr>fr_relative_path := ?path\<rparr>) = Inr ()" using assms(4) by metis
  let ?r = "stored_record (r\<lparr>fr_relative_path := ?path\<rparr>)"
  let ?d = "d\<lparr>db_tables := (db_tables d)\<lparr>t_file_records := upsert_row file_key ?r (t_file_records (db_tables d))\<rparr>\<rparr>"
  have run: "UpsertFileRecord (r\<lparr>fr_relative_path := ?path\<rparr>) d = (Inr (), ?d)"
    unfolding UpsertFileRecord_cases valid using assms(5,6) by simp
  have row: "?r \<in> set (t_file_records (db_tables ?d))" by (auto simp: upsert_row_def has_key_def)
  have path: "fr_relative_path ?r = parent @ ''..''" "fr_task_id ?r = fr_task_id r"
  proof -
    have "takeWhile (\<lambda>c. c \<noteq> CHR 0x00) parent = parent" using assms(2) by (auto simp: takeWhile_eq_all_conv)
    then show "fr_relative_path ?r = parent @ ''..''" using assms(2) by (simp add: stored_record_def cstr_def takeWhile_append2)
    show "fr_task_id ?r = fr_task_id r" using assms(5) by (simp add: stored_record_def)
  qed
  have "fr_task_id r \<noteq> []" using assms(4) by (auto simp: ValidateFileRecord_def)
  from list_records_row [OF row path(2) assms(5) this] obtain rows where "ListFileRecords (fr_task_id r) (db_tables ?d) = Inr rows"
    and "?r \<in> set rows" by blast
  moreover from \<open>?r \<in> set rows\<close> have "parent @ ''..'' \<in> fr_relative_path ` set rows" unfolding path(1) [symmetric] by (rule imageI)
  ultimately show ?thesis using refused run by blast
qed

theorem nul_bypasses_validation_witness:
  "\<exists>d' rows. UpsertFileRecord (demo_record\<lparr>fr_relative_path := ''a/..'' @ [CHR 0x00]\<rparr>) demo_database = (Inr (), d') \<and>
     ListFileRecords ''t'' (db_tables d') = Inr rows \<and> ''a/..'' \<in> fr_relative_path ` set rows"
proof -
  have "ValidateRelativePath ''a'' = Inr ()" "ValidateFileRecord (demo_record\<lparr>fr_relative_path := ''x''\<rparr>) = Inr ()"
    by (simp_all add: ValidateFileRecord_def ValidateRelativePath_def demo_record_def)
  moreover have "task_exists (fr_task_id demo_record) (db_tables demo_database)" by (simp add: demo_record_def demo_database_def has_key_def)
  ultimately show ?thesis
    using nul_bypasses_validation [of "''a/''" "[]" demo_record demo_database] by (auto simp: demo_record_def)
qed

text \<open>
  In the same way a task of a one-way mode followed by a NUL is stored as a one-way task with the role of a peer.
\<close>

theorem nul_bypasses_task_modes:
  "case CreateTask \<lparr>view_is_directory = \<lambda>_. False, view_database_ancestors = None, view_equivalent = \<lambda>_ _. False\<rparr>
        \<lparr>td_task_id = ''u'', td_mode = ''one_way'' @ [CHR 0x00], td_role = ''peer'', td_root_path = ''r''\<rparr> fresh_database of
      (Inl e, d') \<Rightarrow> False
    | (Inr _, d') \<Rightarrow> FindTask ''u'' (db_tables d') =
        Inr (Some \<lparr>td_task_id = ''u'', td_mode = ''one_way'', td_role = ''peer'', td_root_path = ''r''\<rparr>)"
  by (simp add: CreateTask_def op_defs check_outside_root_def statement_def insert_task_def
      fresh_database_eq empty_tables_def has_key_def FindTask_def row_of_def cstr_def)

end
