(* ===== verification/Resume_Request.thy ===== *)
theory Resume_Request
  imports Protocol_Codec Database_Ops
begin

text \<open>
  Resume requests (\<^verbatim>\<open>engine/sync/resume_request.cpp\<close>): the missing chunk ranges of a transfer,
  computed from the completed chunks that the database lists.
\<close>

section \<open>Model\<close>

text \<open>Appending the gap from the cursor to a chunk, when there is one.\<close>

definition push_gap :: "u64 \<Rightarrow> u64 \<Rightarrow> ChunkRange list \<Rightarrow> ChunkRange list result" where
  "push_gap cursor stop missing =
     (if cursor < stop
      then let count = stop - cursor in
        if 0xFFFFFFFF < count then Inl (Invalid_argument ''missing range is too large'')
        else Inr (missing @ [\<lparr>first_chunk = cursor, chunk_count = ucast count\<rparr>])
      else Inr missing)"

fun missing_loop :: "u64 list \<Rightarrow> u64 \<Rightarrow> ChunkRange list \<Rightarrow> (u64 \<times> ChunkRange list) result" where
  "missing_loop [] cursor missing = Inr (cursor, missing)"
| "missing_loop (chunk # chunks) cursor missing =
     bindE (push_gap cursor chunk missing) (missing_loop chunks (chunk + 1))"

definition MissingChunkRanges :: "u64 \<Rightarrow> u64 list \<Rightarrow> ChunkRange list result" where
  "MissingChunkRanges total_chunks completed_chunks =
     (if total_chunks = 0 then Inl (Invalid_argument ''transfer must contain chunks'')
      else
       let completed = remdups_adj (sort completed_chunks) in
       if completed \<noteq> [] \<and> total_chunks \<le> last completed
       then Inl (Invalid_argument ''completed chunk exceeds transfer size'')
       else bindE (missing_loop completed 0 []) (\<lambda>(cursor, missing).
         push_gap cursor total_chunks missing))"

definition BuildResumeRequest :: "TransferId \<Rightarrow> bytes \<Rightarrow> u64 \<Rightarrow> tables \<Rightarrow> FileRequest result" where
  "BuildResumeRequest transfer_id file_hash total_chunks database =
     bindE (MissingChunkRanges total_chunks (CompletedTransferChunks transfer_id database)) (\<lambda>missing.
       Inr \<lparr>request_transfer_id = transfer_id, request_file_hash = file_hash, missing_ranges = missing\<rparr>)"

section \<open>The ranges are the gaps\<close>

definition range_set :: "ChunkRange \<Rightarrow> nat set" where
  "range_set r = {unat (first_chunk r)..<unat (first_chunk r) + unat (chunk_count r)}"

definition ranges_set :: "ChunkRange list \<Rightarrow> nat set" where
  "ranges_set rs = (\<Union>r \<in> set rs. range_set r)"

lemma ranges_set_simps [simp]:
  "ranges_set [] = {}" "ranges_set (xs @ ys) = ranges_set xs \<union> ranges_set ys"
  "ranges_set (r # rs) = range_set r \<union> ranges_set rs"
  by (auto simp: ranges_set_def)

lemma unat_diff_64: "a \<le> b \<Longrightarrow> unat (b - a :: u64) = unat b - unat a"
  by (simp add: unat_sub word_le_nat_alt)

text \<open>
  \<open>gapped n rs\<close>: the ranges are not empty, in order, end below \<open>n\<close>, and two consecutive ones do not
  touch; such a list is never longer than it has to be.
\<close>

fun gapped :: "nat \<Rightarrow> ChunkRange list \<Rightarrow> bool" where
  "gapped lo [] = True"
| "gapped lo (r # rs) \<longleftrightarrow> 0 < unat (chunk_count r) \<and> lo \<le> unat (first_chunk r) \<and>
     gapped (unat (first_chunk r) + unat (chunk_count r) + 1) rs"

lemma gapped_append:
  "gapped lo (rs @ [r]) \<longleftrightarrow> gapped lo rs \<and> 0 < unat (chunk_count r) \<and>
     (if rs = [] then lo else unat (first_chunk (last rs)) + unat (chunk_count (last rs)) + 1) \<le> unat (first_chunk r)"
  by (induction rs arbitrary: lo) auto

lemma push_gap_iff:
  "push_gap cursor stop ms = Inr ms' \<longleftrightarrow>
     (if cursor < stop
      then unat stop - unat cursor < 2 ^ 32 \<and>
        (\<exists>r. ms' = ms @ [r] \<and> unat (first_chunk r) = unat cursor \<and>
           unat (chunk_count r) = unat stop - unat cursor)
      else ms' = ms)"
proof (cases "cursor < stop")
  case True
  then have d: "unat (stop - cursor) = unat stop - unat cursor" by (intro unat_diff_64) simp
  have u: "unat (ucast (stop - cursor) :: u32) = unat stop - unat cursor" if "unat stop - unat cursor < 2 ^ 32"
    using that by (simp add: unsigned_ucast_eq d take_bit_nat_eq_self)
  have big: "0xFFFFFFFF < stop - cursor \<longleftrightarrow> \<not> unat stop - unat cursor < 2 ^ 32"
    by (simp add: word_less_nat_alt d) linarith
  have "r = \<lparr>first_chunk = cursor, chunk_count = ucast (stop - cursor)\<rparr>"
    if "unat stop - unat cursor < 2 ^ 32" "unat (first_chunk r) = unat cursor"
      "unat (chunk_count r) = unat stop - unat cursor" for r :: ChunkRange
    using that u [OF that(1)] by (metis (full_types) ChunkRange.surjective old.unit.exhaust word_unat_eq_iff)
  with True u show ?thesis by (auto simp: push_gap_def big)
next
  case False
  then show ?thesis by (auto simp: push_gap_def)
qed

definition ends_before :: "nat \<Rightarrow> ChunkRange list \<Rightarrow> bool" where
  "ends_before n rs \<longleftrightarrow> gapped 0 rs \<and>
     (rs \<noteq> [] \<longrightarrow> unat (first_chunk (last rs)) + unat (chunk_count (last rs)) < n)"

lemma push_gap_ends:
  assumes "push_gap cursor stop ms = Inr ms'" "ends_before (unat cursor) ms \<or> ms = []"
  shows "gapped 0 ms' \<and> (ms' \<noteq> [] \<longrightarrow> unat (first_chunk (last ms')) + unat (chunk_count (last ms')) \<le> max (unat cursor) (unat stop)) \<and>
    ranges_set ms' = ranges_set ms \<union> {unat cursor..<unat stop}"
proof (cases "cursor < stop")
  case True
  then have lt: "unat cursor < unat stop" by (simp add: word_less_nat_alt)
  from True assms(1) obtain r where r: "ms' = ms @ [r]" "unat (first_chunk r) = unat cursor"
    "unat (chunk_count r) = unat stop - unat cursor"
    by (auto simp: push_gap_iff)
  then show ?thesis
    using lt assms(2) by (auto simp: gapped_append ends_before_def range_set_def)
next
  case False
  then have "unat stop \<le> unat cursor" by (simp add: word_less_nat_alt)
  then show ?thesis using False assms by (auto simp: push_gap_iff ends_before_def)
qed

lemma push_gap_error:
  assumes "push_gap cursor stop ms = Inl e"
  shows "unat cursor + 2 ^ 32 \<le> unat stop"
proof (rule ccontr)
  assume small: "\<not> unat cursor + 2 ^ 32 \<le> unat stop"
  have lt: "cursor < stop" using assms by (auto simp: push_gap_def split: if_splits)
  then have "unat (stop - cursor) = unat stop - unat cursor" by (intro unat_diff_64) simp
  with small assms lt show False by (auto simp: push_gap_def word_less_nat_alt split: if_splits)
qed

lemma missing_loop_ok:
  assumes "missing_loop chunks cursor ms = Inr (c', ms')" "sorted_wrt (<) chunks"
    and "\<forall>c \<in> set chunks. cursor \<le> c \<and> unat c + 1 < 2 ^ 64" "ends_before (unat cursor) ms \<or> ms = []"
  shows "(ends_before (unat c') ms' \<or> ms' = []) \<and> unat cursor \<le> unat c' \<and>
    (\<forall>c \<in> set chunks. unat c < unat c') \<and>
    ranges_set ms' = ranges_set ms \<union> ({unat cursor..<unat c'} - unat ` set chunks)"
  using assms
proof (induction chunks arbitrary: cursor ms)
  case Nil
  then show ?case by simp
next
  case (Cons x xs)
  from Cons.prems(1) obtain m1 where push: "push_gap cursor x ms = Inr m1"
    and rest: "missing_loop xs (x + 1) m1 = Inr (c', ms')"
    by (auto simp: result_iff)
  have x: "unat (x + 1) = unat x + 1" "unat cursor \<le> unat x"
    using Cons.prems(3) unat_add_64 [of x 1] by (auto simp: word_le_nat_alt)
  note e = push_gap_ends [OF push Cons.prems(4)]
  have "ends_before (unat (x + 1)) m1 \<or> m1 = []" using e x by (auto simp: ends_before_def max_def)
  moreover have "\<forall>c \<in> set xs. x + 1 \<le> c \<and> unat c + 1 < 2 ^ 64"
    using Cons.prems(2,3) x by (auto simp: word_le_nat_alt word_less_nat_alt)
  moreover have "sorted_wrt (<) xs" using Cons.prems(2) by simp
  ultimately have ih: "(ends_before (unat c') ms' \<or> ms' = []) \<and> unat (x + 1) \<le> unat c' \<and>
      (\<forall>c \<in> set xs. unat c < unat c') \<and>
      ranges_set ms' = ranges_set m1 \<union> ({unat (x + 1)..<unat c'} - unat ` set xs)"
    using Cons.IH [OF rest] by blast
  have above: "\<forall>c \<in> set xs. unat x < unat c" using Cons.prems(2) by (auto simp: word_less_nat_alt)
  have "{unat cursor..<unat x} \<union> ({unat x + 1..<unat c'} - unat ` set xs) =
      {unat cursor..<unat c'} - unat ` set (x # xs)"
    using above x(2) ih by (auto simp: x(1) image_iff)
  then show ?case using ih e x by (auto simp: Un_assoc)
qed

lemma missing_loop_error:
  assumes "missing_loop chunks cursor ms = Inl e" "sorted_wrt (<) chunks"
    and "\<forall>c \<in> set chunks. cursor \<le> c \<and> unat c + 1 < 2 ^ 64"
  shows "\<exists>n. unat cursor \<le> n \<and> {n..<n + 2 ^ 32} \<inter> unat ` set chunks = {} \<and>
    (\<exists>c \<in> set chunks. n + 2 ^ 32 \<le> unat c)"
  using assms
proof (induction chunks arbitrary: cursor ms)
  case (Cons x xs)
  have x: "unat (x + 1) = unat x + 1" "unat cursor \<le> unat x"
    using Cons.prems(3) unat_add_64 [of x 1] by (auto simp: word_le_nat_alt)
  have above: "\<forall>c \<in> set xs. unat x < unat c" using Cons.prems(2) by (auto simp: word_less_nat_alt)
  show ?case
  proof (cases "push_gap cursor x ms")
    case (Inl e')
    then have "unat cursor + 2 ^ 32 \<le> unat x" by (rule push_gap_error)
    then show ?thesis using above by (intro exI [of _ "unat cursor"]) fastforce
  next
    case (Inr m1)
    have "\<forall>c \<in> set xs. x + 1 \<le> c \<and> unat c + 1 < 2 ^ 64"
      using Cons.prems(2,3) x by (auto simp: word_le_nat_alt word_less_nat_alt)
    then obtain n where "unat (x + 1) \<le> n" "{n..<n + 2 ^ 32} \<inter> unat ` set xs = {}"
      "\<exists>c \<in> set xs. n + 2 ^ 32 \<le> unat c"
      using Cons.IH [of "x + 1" m1] Inr Cons.prems by auto
    then show ?thesis using x by (intro exI [of _ n]) auto
  qed
qed simp

lemma strict_sorted_remdups_adj: "sorted xs \<Longrightarrow> sorted_wrt (<) (remdups_adj xs)"
  for xs :: "'a::linorder list"
proof (induction xs rule: remdups_adj.induct)
  case (3 x y xs)
  then show ?case by (cases "x = y") (auto simp: less_le)
qed auto

lemma last_sorted_max: "sorted_wrt (<) xs \<Longrightarrow> c \<in> set xs \<Longrightarrow> c \<le> last xs"
  for xs :: "'a::linorder list"
  by (induction xs) (auto simp: less_imp_le)

lemma gapped_ordered:
  "gapped lo rs \<Longrightarrow> \<forall>r \<in> set rs. unat (first_chunk r) + unat (chunk_count r) < 2 ^ 64 \<Longrightarrow>
   lo' \<le> lo \<Longrightarrow> ordered_ranges lo' rs"
  by (induction rs arbitrary: lo lo') auto

lemma MissingChunkRanges_spec:
  "case MissingChunkRanges tot completed of
     Inl e \<Rightarrow> tot = 0 \<or> (\<exists>c \<in> set completed. tot \<le> c) \<or>
       (\<exists>n. {n..<n + 2 ^ 32} \<subseteq> {0..<unat tot} - unat ` set completed)
   | Inr rs \<Rightarrow> tot \<noteq> 0 \<and> (\<forall>c \<in> set completed. c < tot) \<and> gapped 0 rs \<and>
       ranges_set rs = {0..<unat tot} - unat ` set completed"
proof -
  define cs where "cs = remdups_adj (sort completed)"
  have set_cs: "set cs = set completed" by (simp add: cs_def)
  have strict: "sorted_wrt (<) cs" unfolding cs_def by (rule strict_sorted_remdups_adj) simp
  note def = MissingChunkRanges_def [of tot completed, folded cs_def, unfolded Let_def]
  consider "tot = 0" | "tot \<noteq> 0" "cs \<noteq> []" "tot \<le> last cs"
    | "tot \<noteq> 0" "cs = [] \<or> last cs < tot" by fastforce
  then show ?thesis
  proof cases
    case 1
    then show ?thesis by (simp add: MissingChunkRanges_def)
  next
    case 2
    then have "last cs \<in> set completed" using set_cs by (metis last_in_set)
    then show ?thesis using 2 by (auto simp: def)
  next
    case 3
    then have below: "\<forall>c \<in> set cs. c < tot"
      using last_sorted_max [OF strict] by (cases cs) (auto intro: le_less_trans)
    have nofit: "\<forall>c \<in> set cs. 0 \<le> c \<and> unat c + 1 < 2 ^ 64"
    proof
      fix c assume "c \<in> set cs"
      then have "unat c < unat tot" using below by (auto simp: word_less_nat_alt)
      then show "0 \<le> c \<and> unat c + 1 < 2 ^ 64" using unat_less_64 [of tot] by simp
    qed
    show ?thesis
    proof (cases "missing_loop cs 0 []")
      case (Inl e)
      from missing_loop_error [OF Inl strict nofit] obtain n c where
        n: "{n..<n + 2 ^ 32} \<inter> unat ` set cs = {}" "c \<in> set cs" "n + 2 ^ 32 \<le> unat c" by auto
      have "unat c < unat tot" using below n(2) by (auto simp: word_less_nat_alt)
      with n set_cs have "{n..<n + 2 ^ 32} \<subseteq> {0..<unat tot} - unat ` set completed" by auto
      with Inl 3 show ?thesis by (auto simp: def not_le)
    next
      case (Inr res)
      obtain c' ms where res: "res = (c', ms)" by fastforce
      from missing_loop_ok [OF Inr [unfolded res] strict nofit] have
        ok: "ends_before (unat c') ms \<or> ms = []" "\<forall>c \<in> set cs. unat c < unat c'"
          "ranges_set ms = {0..<unat c'} - unat ` set cs" by auto
      have le: "unat c' \<le> unat tot"
      proof -
        have "missing_loop xs cur m = Inr (c', ms) \<Longrightarrow> xs \<noteq> [] \<Longrightarrow> c' = last xs + 1" for xs cur m
          by (induction xs arbitrary: cur m) (auto simp: result_iff split: if_splits)
        then have "c' = (if cs = [] then 0 else last cs + 1)"
          using Inr res by (cases "cs = []") auto
        moreover have "unat (last cs + 1) \<le> unat tot" if "cs \<noteq> []"
        proof -
          have "unat (last cs) < unat tot" using that below by (simp add: word_less_nat_alt)
          moreover have "unat (last cs + 1) = unat (last cs) + 1"
            using nofit that unat_add_64 [of "last cs" 1] by simp
          ultimately show ?thesis by simp
        qed
        ultimately show ?thesis by auto
      qed
      show ?thesis
      proof (cases "push_gap c' tot ms")
        case (Inl e)
        then have "unat c' + 2 ^ 32 \<le> unat tot" by (rule push_gap_error)
        then have "{unat c'..<unat c' + 2 ^ 32} \<subseteq> {0..<unat tot} - unat ` set completed"
          using ok(2) set_cs by auto
        with Inl Inr res 3 show ?thesis by (auto simp: def not_le)
      next
        case rs: (Inr rs)
        note e = push_gap_ends [OF rs ok(1)]
        have "{0..<unat c'} - unat ` set cs \<union> {unat c'..<unat tot} = {0..<unat tot} - unat ` set completed"
          using ok(2) le set_cs by auto
        with e rs Inr res 3 ok(3) below set_cs show ?thesis by (auto simp: def not_le)
      qed
    qed
  qed
qed

text \<open>
  C5: the missing ranges are exactly the chunks of the transfer that are not completed, in order,
  none empty and no two adjacent; the computation throws only for an empty transfer, a completed chunk
  outside it, or a gap of at least 2^32 chunks.
\<close>

theorem missing_ranges_exact:
  "case MissingChunkRanges tot completed of
     Inl e \<Rightarrow> tot = 0 \<or> (\<exists>c \<in> set completed. tot \<le> c) \<or>
       (\<exists>n. {n..<n + 2 ^ 32} \<subseteq> {0..<unat tot} - unat ` set completed)
   | Inr rs \<Rightarrow> tot \<noteq> 0 \<and> (\<forall>c \<in> set completed. c < tot) \<and> gapped 0 rs \<and>
       (\<Union>r \<in> set rs. {unat (first_chunk r)..<unat (first_chunk r) + unat (chunk_count r)}) =
         {0..<unat tot} - unat ` set completed"
  using MissingChunkRanges_spec [of tot completed]
  by (auto simp: ranges_set_def range_set_def split: sum.splits)

theorem missing_ranges_exact_witness:
  "MissingChunkRanges 5 [3, 1] = Inr [\<lparr>first_chunk = 0, chunk_count = 1\<rparr>, \<lparr>first_chunk = 2, chunk_count = 1\<rparr>,
     \<lparr>first_chunk = 4, chunk_count = 1\<rparr>] \<and> (3 :: u64) < 5"
proof -
  have m: "MissingChunkRanges 5 [3, 1] = Inr [\<lparr>first_chunk = 0, chunk_count = 1\<rparr>,
     \<lparr>first_chunk = 2, chunk_count = 1\<rparr>, \<lparr>first_chunk = 4, chunk_count = 1\<rparr>]"
    by (simp add: MissingChunkRanges_def push_gap_def word_le_nat_alt)
  with missing_ranges_exact [of 5 "[3, 1]"] show ?thesis by simp
qed

text \<open>
  The request built for an unfinished transfer is accepted by the encoder and read back unchanged
  by the peer, whenever its ranges number at most a million.
\<close>

theorem resume_request_travels:
  assumes "BuildResumeRequest transfer_id file_hash tot d = Inr req"
    and "length transfer_id = 16" "length file_hash = 32"
    and "missing_ranges req \<noteq> []" "length (missing_ranges req) \<le> 1000000"
  shows "\<exists>wire. EncodeFileRequest req = Inr wire \<and> DecodeFileRequest wire = Inr req"
proof -
  have m: "MissingChunkRanges tot (CompletedTransferChunks transfer_id d) = Inr (missing_ranges req)"
    and req: "request_transfer_id req = transfer_id" "request_file_hash req = file_hash"
    using assms(1) by (auto simp: BuildResumeRequest_def result_iff)
  have g: "gapped 0 (missing_ranges req)" and
    r: "ranges_set (missing_ranges req) = {0..<unat tot} - unat ` set (CompletedTransferChunks transfer_id d)"
    using MissingChunkRanges_spec [of tot "CompletedTransferChunks transfer_id d"] m by simp_all
  have "\<forall>x \<in> set (missing_ranges req). unat (first_chunk x) + unat (chunk_count x) < 2 ^ 64"
  proof
    fix x assume x: "x \<in> set (missing_ranges req)"
    have pos: "0 < unat (chunk_count x)"
    proof -
      have "gapped lo rs \<Longrightarrow> x \<in> set rs \<Longrightarrow> 0 < unat (chunk_count x)" for lo rs
        by (induction rs arbitrary: lo) auto
      then show ?thesis using g x by blast
    qed
    then have "unat (first_chunk x) + unat (chunk_count x) - 1 \<in> range_set x" by (auto simp: range_set_def)
    then have "unat (first_chunk x) + unat (chunk_count x) - 1 < unat tot"
      using r x by (auto simp: ranges_set_def)
    then show "unat (first_chunk x) + unat (chunk_count x) < 2 ^ 64" using unat_less_64 [of tot] by simp
  qed
  from gapped_ordered [OF g this, of 0] have "ordered_ranges 0 (missing_ranges req)" by simp
  then obtain w where "w_ranges 0 (missing_ranges req) = Inr w"
    using w_ranges_ordered [of 0 "missing_ranges req"] by auto
  then obtain wire where "EncodeFileRequest req = Inr wire"
    using assms(4,5) by (auto simp: EncodeFileRequest_def w_U64_def w_U32_def w_Bytes_def writer_iff)
  then show ?thesis
    using file_request_codec.decode_iff [of wire req] assms(2-5) req by (auto simp: request_admissible_def)
qed

theorem resume_request_travels_witness:
  "\<exists>wire. EncodeFileRequest \<lparr>request_transfer_id = replicate 16 1, request_file_hash = replicate 32 0,
      missing_ranges = [\<lparr>first_chunk = 0, chunk_count = 2\<rparr>]\<rparr> = Inr wire \<and>
    DecodeFileRequest wire = Inr \<lparr>request_transfer_id = replicate 16 1, request_file_hash = replicate 32 0,
      missing_ranges = [\<lparr>first_chunk = 0, chunk_count = 2\<rparr>]\<rparr>"
proof -
  have "BuildResumeRequest (replicate 16 1) (replicate 32 0) 2 empty_tables =
     Inr \<lparr>request_transfer_id = replicate 16 1, request_file_hash = replicate 32 0,
      missing_ranges = [\<lparr>first_chunk = 0, chunk_count = 2\<rparr>]\<rparr>"
    by (simp add: BuildResumeRequest_def CompletedTransferChunks_def empty_tables_def order_by_def
        MissingChunkRanges_def push_gap_def)
  from resume_request_travels [OF this] show ?thesis by simp
qed

end
