(* ===== verification/Manifest_Diff.thy ===== *)
theory Manifest_Diff
  imports Database_Ops
begin

text \<open>
  The difference between a scan of the task directory and the durable records
  (\<^verbatim>\<open>engine/sync/manifest_diff.cpp\<close>, with the snapshot types of \<^verbatim>\<open>engine/storage/manifest_scanner.h\<close>):
  both sides are brought into path order and merged.  The reference definition looks every entry up
  on the other side; the merge is shown to compute the same lists.
\<close>

section \<open>Model\<close>

datatype SnapshotKind = snFile | snDirectory

record SnapshotEntry =
  se_relative_path :: string
  se_kind :: SnapshotKind
  se_size :: u64
  se_mtime_ns :: int
  se_content_hash :: "bytes option"

record ManifestDiff =
  created_or_changed :: "SnapshotEntry list"
  deleted_paths :: "string list"

definition IsSameContent :: "SnapshotEntry \<Rightarrow> FileRecord \<Rightarrow> bool result" where
  "IsSameContent entry r =
     (if (se_kind entry = snFile) \<noteq> (fr_kind r = fkFile) then Inr False
      else if se_kind entry = snDirectory then Inr (fr_kind r = fkDirectory)
      else case se_content_hash entry of
        None \<Rightarrow> Inl (Invalid_argument ''file snapshots require a content hash'')
      | Some h \<Rightarrow> Inr (se_size entry = fr_size r \<and> h = fr_content_hash r))"

text \<open>The entries in path order; two equal paths are refused.\<close>

definition OrderedEntries :: "('a \<Rightarrow> string) \<Rightarrow> 'a list \<Rightarrow> 'a list result" where
  "OrderedEntries path entries =
     (let ordered = (if sorted (map path entries) then entries else sort_key path entries) in
      if \<exists>i < length ordered - 1. path (ordered ! i) = path (ordered ! Suc i)
      then Inl (Invalid_argument ''manifest contains duplicate paths'')
      else Inr ordered)"

text \<open>One loop over both lists; the two loops after it are the cases with one list used up.\<close>

fun diff_loop :: "SnapshotEntry list \<Rightarrow> FileRecord list \<Rightarrow> ManifestDiff result" where
  "diff_loop [] [] = Inr \<lparr>created_or_changed = [], deleted_paths = []\<rparr>"
| "diff_loop (e # es) [] =
     bindE (diff_loop es []) (\<lambda>d. Inr (d\<lparr>created_or_changed := e # created_or_changed d\<rparr>))"
| "diff_loop [] (r # rs) =
     bindE (diff_loop [] rs) (\<lambda>d.
       Inr (if fr_kind r \<noteq> fkTombstone then d\<lparr>deleted_paths := fr_relative_path r # deleted_paths d\<rparr> else d))"
| "diff_loop (e # es) (r # rs) =
     (if se_relative_path e < fr_relative_path r
      then bindE (diff_loop es (r # rs)) (\<lambda>d. Inr (d\<lparr>created_or_changed := e # created_or_changed d\<rparr>))
      else if fr_relative_path r < se_relative_path e
      then bindE (diff_loop (e # es) rs) (\<lambda>d.
        Inr (if fr_kind r \<noteq> fkTombstone then d\<lparr>deleted_paths := fr_relative_path r # deleted_paths d\<rparr> else d))
      else bindE (if fr_kind r = fkTombstone then Inr False else IsSameContent e r) (\<lambda>same.
        bindE (diff_loop es rs) (\<lambda>d.
          Inr (if same then d else d\<lparr>created_or_changed := e # created_or_changed d\<rparr>))))"

definition DiffManifest :: "SnapshotEntry list \<Rightarrow> FileRecord list \<Rightarrow> ManifestDiff result" where
  "DiffManifest snapshot known_records =
     bindE (OrderedEntries se_relative_path snapshot) (\<lambda>scanned.
     bindE (OrderedEntries fr_relative_path known_records) (\<lambda>known.
     diff_loop scanned known))"

section \<open>Reference definition\<close>

definition unchanged :: "SnapshotEntry \<Rightarrow> FileRecord \<Rightarrow> bool" where
  "unchanged e r \<longleftrightarrow> fr_relative_path r = se_relative_path e \<and>
     (case se_kind e of
        snDirectory \<Rightarrow> fr_kind r = fkDirectory
      | snFile \<Rightarrow> fr_kind r = fkFile \<and> se_size e = fr_size r \<and> se_content_hash e = Some (fr_content_hash r))"

definition diff_spec :: "SnapshotEntry list \<Rightarrow> FileRecord list \<Rightarrow> ManifestDiff" where
  "diff_spec es rs =
     \<lparr>created_or_changed = filter (\<lambda>e. \<not> (\<exists>r \<in> set rs. unchanged e r)) es,
      deleted_paths = map fr_relative_path
        (filter (\<lambda>r. fr_kind r \<noteq> fkTombstone \<and> fr_relative_path r \<notin> se_relative_path ` set es) rs)\<rparr>"

definition hashed :: "SnapshotEntry \<Rightarrow> bool" where
  "hashed e \<longleftrightarrow> (se_kind e = snFile \<longrightarrow> se_content_hash e \<noteq> None)"

lemma IsSameContent_unchanged:
  assumes "hashed e" "se_relative_path e = fr_relative_path r" "fr_kind r \<noteq> fkTombstone"
  shows "IsSameContent e r = Inr (unchanged e r)"
  using assms by (auto simp: IsSameContent_def unchanged_def hashed_def split: option.splits SnapshotKind.splits)

lemma unchanged_tombstone: "unchanged e r \<Longrightarrow> fr_kind r \<noteq> fkTombstone"
  by (auto simp: unchanged_def split: SnapshotKind.splits)

lemma diff_loop_spec:
  assumes "sorted_wrt (<) (map se_relative_path es)" "sorted_wrt (<) (map fr_relative_path rs)"
    and "\<forall>e \<in> set es. hashed e"
  shows "diff_loop es rs = Inr (diff_spec es rs)"
  using assms
proof (induction es rs rule: diff_loop.induct)
  case (4 e es r rs)
  consider "se_relative_path e < fr_relative_path r" | "fr_relative_path r < se_relative_path e"
    | "se_relative_path e = fr_relative_path r" by fastforce
  then show ?case
  proof cases
    case 1
    then have above: "\<forall>x \<in> set (r # rs). se_relative_path e < fr_relative_path x"
      using "4.prems"(2) by (auto intro: less_trans)
    then have no: "\<not> unchanged e x" if "x \<in> set (r # rs)" for x using that by (force simp: unchanged_def)
    have path: "fr_relative_path x \<noteq> se_relative_path e" if "x \<in> set (r # rs)" for x
      using above that by force
    have "diff_spec (e # es) (r # rs) = (diff_spec es (r # rs))
        \<lparr>created_or_changed := e # created_or_changed (diff_spec es (r # rs))\<rparr>"
      using no path by (auto simp: diff_spec_def intro!: filter_cong arg_cong [where f = "map fr_relative_path"])
    then show ?thesis using "4.IH"(1) "4.prems" 1 by simp
  next
    case 2
    then have above: "\<forall>x \<in> set (e # es). fr_relative_path r < se_relative_path x"
      using "4.prems"(1) by (auto intro: less_trans)
    then have no: "\<not> unchanged x r" if "x \<in> set (e # es)" for x using that by (force simp: unchanged_def)
    have path: "fr_relative_path r \<notin> se_relative_path ` set (e # es)" using above by fastforce
    have "diff_spec (e # es) (r # rs) = (if fr_kind r \<noteq> fkTombstone
        then (diff_spec (e # es) rs)\<lparr>deleted_paths := fr_relative_path r # deleted_paths (diff_spec (e # es) rs)\<rparr>
        else diff_spec (e # es) rs)"
      using no path by (auto simp: diff_spec_def intro!: filter_cong arg_cong [where f = "map fr_relative_path"])
    then show ?thesis using "4.IH"(2) "4.prems" 2 by auto
  next
    case 3
    have es: "\<forall>x \<in> set es. fr_relative_path r < se_relative_path x"
      and rs: "\<forall>x \<in> set rs. se_relative_path e < fr_relative_path x"
      using "4.prems"(1,2) 3 by auto
    have no: "\<not> unchanged x r" if "x \<in> set es" for x using that es by (force simp: unchanged_def)
    have no': "\<not> unchanged e x" if "x \<in> set rs" for x using that rs by (force simp: unchanged_def)
    have path: "fr_relative_path x \<noteq> se_relative_path e" if "x \<in> set rs" for x
      using rs that by force
    have same: "(if fr_kind r = fkTombstone then Inr False else IsSameContent e r) = Inr (unchanged e r)"
      using IsSameContent_unchanged [of e r] unchanged_tombstone [of e r] 3 "4.prems"(3) by auto
    have "diff_spec (e # es) (r # rs) = (if unchanged e r then diff_spec es rs
        else (diff_spec es rs)\<lparr>created_or_changed := e # created_or_changed (diff_spec es rs)\<rparr>)"
      using no no' path 3 by (auto simp: diff_spec_def intro!: filter_cong arg_cong [where f = "map fr_relative_path"])
    then show ?thesis using "4.IH"(3) "4.prems" 3 same by auto
  qed
qed (auto simp: diff_spec_def)

section \<open>Equivalence\<close>

lemma adjacent_equal:
  fixes xs :: "'a::linorder list"
  assumes "sorted xs"
  shows "(\<exists>i < length xs - 1. xs ! i = xs ! Suc i) \<longleftrightarrow> \<not> distinct xs"
proof -
  have "distinct xs \<longleftrightarrow> sorted_wrt (<) xs" using assms by (simp add: strict_sorted_iff)
  also have "\<dots> \<longleftrightarrow> (\<forall>i. Suc i < length xs \<longrightarrow> xs ! i < xs ! Suc i)"
    by (rule sorted_wrt_iff_nth_Suc_transp) simp
  also have "\<dots> \<longleftrightarrow> (\<forall>i. Suc i < length xs \<longrightarrow> xs ! i \<noteq> xs ! Suc i)"
    using assms by (auto simp: sorted_iff_nth_Suc less_le)
  finally show ?thesis by (auto simp: less_diff_conv)
qed

lemma OrderedEntries_eq:
  "OrderedEntries path xs =
     (if distinct (map path xs) then Inr (sort_key path xs)
      else Inl (Invalid_argument ''manifest contains duplicate paths''))"
proof -
  let ?ys = "if sorted (map path xs) then xs else sort_key path xs"
  have ys: "?ys = sort_key path xs" by (simp add: sort_key_id_if_sorted)
  have "(\<exists>i < length (sort_key path xs) - 1. path (sort_key path xs ! i) = path (sort_key path xs ! Suc i)) \<longleftrightarrow>
      (\<exists>i < length (map path (sort_key path xs)) - 1. map path (sort_key path xs) ! i = map path (sort_key path xs) ! Suc i)"
    by (auto simp: less_diff_conv)
  also have "\<dots> \<longleftrightarrow> \<not> distinct (map path (sort_key path xs))" by (rule adjacent_equal) simp
  also have "distinct (map path (sort_key path xs)) \<longleftrightarrow> distinct (map path xs)"
    by (metis mset_eq_imp_distinct_iff mset_map mset_sort)
  finally show ?thesis unfolding OrderedEntries_def ys Let_def by simp
qed

lemma strict_sort_key:
  fixes path :: "'a \<Rightarrow> 'k::linorder"
  shows "distinct (map path xs) \<Longrightarrow> sorted_wrt (<) (map path (sort_key path xs))"
  by (metis mset_eq_imp_distinct_iff mset_map mset_sort sorted_sort_key strict_sorted_iff)

lemma DiffManifest_eq:
  assumes "\<forall>e \<in> set snapshot. hashed e"
  shows "DiffManifest snapshot known =
    (if distinct (map se_relative_path snapshot) \<and> distinct (map fr_relative_path known)
     then Inr (diff_spec (sort_key se_relative_path snapshot) (sort_key fr_relative_path known))
     else Inl (Invalid_argument ''manifest contains duplicate paths''))"
  using assms diff_loop_spec [of "sort_key se_relative_path snapshot" "sort_key fr_relative_path known"]
    strict_sort_key [of se_relative_path snapshot] strict_sort_key [of fr_relative_path known]
  by (auto simp: DiffManifest_def OrderedEntries_eq)

text \<open>
  For a scan in which every file is hashed, comparing it with the records succeeds exactly when
  neither side names a path twice, and then returns, in path order, every scanned entry that has no
  live record of the same kind and content, and the path of every live record that the scan does not
  contain; tombstones are never reported as deleted again.
\<close>

theorem manifest_diff_exact:
  assumes "\<forall>e \<in> set snapshot. se_kind e = snFile \<longrightarrow> se_content_hash e \<noteq> None"
  shows "DiffManifest snapshot known =
    (if distinct (map se_relative_path snapshot) \<and> distinct (map fr_relative_path known)
     then Inr \<lparr>created_or_changed =
            filter (\<lambda>e. \<not> (\<exists>r \<in> set known. unchanged e r)) (sort_key se_relative_path snapshot),
          deleted_paths = map fr_relative_path
            (filter (\<lambda>r. fr_kind r \<noteq> fkTombstone \<and> fr_relative_path r \<notin> se_relative_path ` set snapshot)
              (sort_key fr_relative_path known))\<rparr>
     else Inl (Invalid_argument ''manifest contains duplicate paths''))"
  using assms DiffManifest_eq [of snapshot known] by (auto simp: hashed_def diff_spec_def)

definition demo_entry :: SnapshotEntry where
  "demo_entry = \<lparr>se_relative_path = ''b'', se_kind = snFile, se_size = 1, se_mtime_ns = 0,
     se_content_hash = Some [7]\<rparr>"

theorem manifest_diff_exact_witness:
  "DiffManifest [demo_entry, demo_entry\<lparr>se_relative_path := ''a'', se_kind := snDirectory, se_content_hash := None\<rparr>]
     [\<lparr>fr_task_id = ''t'', fr_relative_path = ''b'', fr_kind = fkFile, fr_size = 1, fr_mtime_ns = 9,
       fr_content_hash = [7], fr_version_id = ''v'', fr_origin_device_id = ''d'', fr_logical_clock = 0,
       fr_deleted_at_ms = None\<rparr>] =
   Inr \<lparr>created_or_changed =
       [demo_entry\<lparr>se_relative_path := ''a'', se_kind := snDirectory, se_content_hash := None\<rparr>],
     deleted_paths = []\<rparr>"
  by (subst manifest_diff_exact) (simp_all add: demo_entry_def unchanged_def less_char_def less_eq_char_def)

end
