(* ===== verification/Version_Resolution.thy ===== *)
theory Version_Resolution
  imports Database_History
begin

text \<open>
  Conflict resolution of a logical path (\<^verbatim>\<open>engine/sync/version_resolution.cpp\<close>).  Paths are the
  generic, slash-separated texts that \<^verbatim>\<open>Utf8Path\<close> and \<^verbatim>\<open>PathUtf8\<close> exchange; \<open>path_filename\<close>,
  \<open>path_stem\<close>, \<open>path_extension\<close>, \<open>path_parent\<close> and \<open>path_append\<close> are the
  \<^verbatim>\<open>std::filesystem::path\<close> operations on such texts.
\<close>

section \<open>Paths\<close>

definition path_filename :: "string \<Rightarrow> string" where
  "path_filename p = rev (takeWhile (\<lambda>c. c \<noteq> CHR ''/'') (rev p))"

definition path_parent :: "string \<Rightarrow> string" where
  "path_parent p =
     (let dir = dropWhile (\<lambda>c. c \<noteq> CHR ''/'') (rev p); trimmed = rev (dropWhile (\<lambda>c. c = CHR ''/'') dir) in
      if trimmed = [] \<and> dir \<noteq> [] then ''/'' else trimmed)"

text \<open>The extension begins at the last dot, unless that dot is the first character.\<close>

definition path_extension :: "string \<Rightarrow> string" where
  "path_extension name =
     (let tail = takeWhile (\<lambda>c. c \<noteq> CHR ''.'') (rev name) in
      if name = ''.'' \<or> name = ''..'' \<or> length name \<le> length tail + 1 then []
      else CHR ''.'' # rev tail)"

definition path_stem :: "string \<Rightarrow> string" where
  "path_stem name = take (length name - length (path_extension name)) name"

definition path_append :: "string \<Rightarrow> string \<Rightarrow> string" where
  "path_append dir name =
     (if dir = [] then name else if last dir = CHR ''/'' then dir @ name else dir @ CHR ''/'' # name)"

section \<open>Model\<close>

record VersionedRecord =
  vr_record :: FileRecord
  vr_parent_version_id :: "string option"

datatype VersionResolutionAction = kApplyRemote | kKeepLocal | kConflict

record VersionResolution =
  res_action :: VersionResolutionAction
  res_remote_wins :: bool
  res_conflict_path :: string

definition IsDirectory :: "FileRecord \<Rightarrow> bool" where
  "IsDirectory r \<longleftrightarrow> fr_kind r = fkDirectory"

definition RemoteSortsBeforeLocal :: "FileRecord \<Rightarrow> FileRecord \<Rightarrow> bool" where
  "RemoteSortsBeforeLocal remote loc =
     (if fr_logical_clock remote \<noteq> fr_logical_clock loc
      then fr_logical_clock remote < fr_logical_clock loc
      else fr_origin_device_id remote < fr_origin_device_id loc)"

definition isalnum :: "char \<Rightarrow> bool" where
  "isalnum c \<longleftrightarrow> (CHR ''0'' \<le> c \<and> c \<le> CHR ''9'') \<or> (CHR ''A'' \<le> c \<and> c \<le> CHR ''Z'') \<or>
     (CHR ''a'' \<le> c \<and> c \<le> CHR ''z'')"

definition safe_char :: "char \<Rightarrow> bool" where
  "safe_char c \<longleftrightarrow> isalnum c \<or> c = CHR ''-'' \<or> c = CHR ''_''"

definition SafeDeviceId :: "string \<Rightarrow> string" where
  "SafeDeviceId value =
     (let result = map (\<lambda>c. if safe_char c then c else CHR ''_'') value in
      if result = [] then ''unknown'' else result)"

definition ConflictPath :: "string \<Rightarrow> FileRecord \<Rightarrow> string result" where
  "ConflictPath original_path losing_record =
     (if original_path = [] \<or> fr_origin_device_id losing_record = []
      then Inl (Invalid_argument ''conflict path identity is invalid'')
      else
       let filename = path_filename original_path in
       if filename = [] \<or> filename = ''.'' \<or> filename = ''..''
       then Inl (Invalid_argument ''conflict path is invalid'')
       else
        let conflict_name = path_stem filename @ ''.conflict.'' @
              SafeDeviceId (fr_origin_device_id losing_record) @ ''.'' @
              to_string (unat (fr_logical_clock losing_record)) @ path_extension filename in
        Inr (path_append (path_parent original_path) conflict_name))"

definition Resolve :: "tables \<Rightarrow> string \<Rightarrow> FileRecord option \<Rightarrow> VersionedRecord \<Rightarrow> VersionResolution result" where
  "Resolve database task_id loc remote =
     (let r = vr_record remote in
      if task_id = [] \<or> fr_task_id r \<noteq> task_id \<or> fr_relative_path r = [] \<or> fr_version_id r = []
      then Inl (Invalid_argument ''version resolution input is invalid'')
      else case loc of
        None \<Rightarrow> Inr \<lparr>res_action = kApplyRemote, res_remote_wins = True, res_conflict_path = []\<rparr>
      | Some l \<Rightarrow>
         if fr_task_id l \<noteq> task_id \<or> fr_relative_path l \<noteq> fr_relative_path r
         then Inl (Invalid_argument ''version records do not identify the same path'')
         else if fr_version_id l = fr_version_id r
         then Inr \<lparr>res_action = kKeepLocal, res_remote_wins = False, res_conflict_path = []\<rparr>
         else bindE (IsVersionAncestor task_id (fr_version_id l) (fr_version_id r) database) (\<lambda>newer.
           if newer
           then Inr \<lparr>res_action = kApplyRemote, res_remote_wins = True, res_conflict_path = []\<rparr>
           else bindE (IsVersionAncestor task_id (fr_version_id r) (fr_version_id l) database) (\<lambda>older.
             if older
             then Inr \<lparr>res_action = kKeepLocal, res_remote_wins = False, res_conflict_path = []\<rparr>
             else
              let remote_wins = (if IsDirectory r \<noteq> IsDirectory l then IsDirectory r
                    else RemoteSortsBeforeLocal r l);
                  losing = (if remote_wins then l else r) in
              bindE (ConflictPath (fr_relative_path r) losing) (\<lambda>path.
                Inr \<lparr>res_action = kConflict, res_remote_wins = remote_wins, res_conflict_path = path\<rparr>))))"

section \<open>Agreement of the two sides\<close>

fun mirror_action :: "VersionResolutionAction \<Rightarrow> VersionResolutionAction" where
  "mirror_action kApplyRemote = kKeepLocal"
| "mirror_action kKeepLocal = kApplyRemote"
| "mirror_action kConflict = kConflict"

text \<open>The other side's view of a decision: the same version is kept, seen from across the link.\<close>

definition mirror :: "VersionResolution \<Rightarrow> VersionResolution" where
  "mirror r = \<lparr>res_action = mirror_action (res_action r), res_remote_wins = \<not> res_remote_wins r,
     res_conflict_path = res_conflict_path r\<rparr>"

lemma sorts_before_asym:
  assumes "fr_logical_clock x \<noteq> fr_logical_clock y \<or> fr_origin_device_id x \<noteq> fr_origin_device_id y"
  shows "RemoteSortsBeforeLocal x y \<longleftrightarrow> \<not> RemoteSortsBeforeLocal y x"
  using assms by (auto simp: RemoteSortsBeforeLocal_def)

text \<open>
  C35: two devices that exchange their versions of one path decide alike.  Let the two records belong to the same task and path, have
  different version ids that are not empty, and differ in the logical clock or in the origin device; and let the databases of the two devices,
  which may differ otherwise, answer both questions about ancestry without an error and with the same answers, which do not make each
  version an ancestor of the other.  Then what one side does is the mirror image of what the other does: both keep the same
  version at the path, and both move the other version to the same conflict path or report the same error.
\<close>

theorem resolution_agrees:
  assumes "task_id \<noteq> []" "fr_task_id x = task_id" "fr_task_id y = task_id"
    and "fr_relative_path x = fr_relative_path y" "fr_relative_path x \<noteq> []"
    and "fr_version_id x \<noteq> []" "fr_version_id y \<noteq> []" "fr_version_id x \<noteq> fr_version_id y"
    and "fr_logical_clock x \<noteq> fr_logical_clock y \<or> fr_origin_device_id x \<noteq> fr_origin_device_id y"
    and "\<And>d. d \<in> {da, db} \<Longrightarrow> IsVersionAncestor task_id (fr_version_id x) (fr_version_id y) d = Inr y_newer"
    and "\<And>d. d \<in> {da, db} \<Longrightarrow> IsVersionAncestor task_id (fr_version_id y) (fr_version_id x) d = Inr x_newer"
    and "\<not> (x_newer \<and> y_newer)"
  shows "Resolve db task_id (Some y) \<lparr>vr_record = x, vr_parent_version_id = px\<rparr> =
    map_sum id mirror (Resolve da task_id (Some x) \<lparr>vr_record = y, vr_parent_version_id = py\<rparr>)"
proof -
  note answers = assms(10) [of da] assms(10) [of db] assms(11) [of da] assms(11) [of db]
  show ?thesis
    using assms answers sorts_before_asym [OF assms(9)]
    by (cases "ConflictPath (fr_relative_path y) x"; cases "ConflictPath (fr_relative_path y) y")
      (auto simp: Resolve_def Let_def mirror_def)
qed

theorem resolution_agrees_witness:
  "let x = demo_record\<lparr>fr_logical_clock := 2, fr_version_id := ''v2''\<rparr>;
       y = demo_record\<lparr>fr_logical_clock := 3, fr_version_id := ''v3''\<rparr> in
   Resolve empty_tables ''t'' (Some y) \<lparr>vr_record = x, vr_parent_version_id = None\<rparr> =
   map_sum id mirror (Resolve empty_tables ''t'' (Some x) \<lparr>vr_record = y, vr_parent_version_id = None\<rparr>)"
proof -
  have walk: "IsVersionAncestor ''t'' a v empty_tables = Inr False" if "a \<noteq> []" "v \<noteq> []" "a \<noteq> v" for a v
  proof -
    have "ancestor_walk (Suc (Suc n)) ''t'' a v empty_tables = Inr False" for n
      using that by (simp add: FindVersionLineage_def empty_tables_def row_of_def)
    from this [of 99998] show ?thesis using that by (simp add: IsVersionAncestor_def kMaxAncestryDepth_def)
  qed
  show ?thesis
    unfolding Let_def
    by (rule resolution_agrees [where x_newer = False and y_newer = False])
      (auto simp: demo_record_def walk)
qed

section \<open>Conflict names\<close>

lemma stem_extension: "path_stem name @ path_extension name = name"
proof (cases "path_extension name = []")
  case False
  let ?tail = "takeWhile (\<lambda>c. c \<noteq> CHR ''.'') (rev name)"
  let ?rest = "dropWhile (\<lambda>c. c \<noteq> CHR ''.'') (rev name)"
  have long: "length ?tail + 1 < length name" and ext: "path_extension name = CHR ''.'' # rev ?tail"
    using False by (auto simp: path_extension_def Let_def split: if_splits)
  have split: "rev name = ?tail @ ?rest" by simp
  then have "?rest \<noteq> []" using long by (metis add_lessD1 append_Nil2 length_rev less_irrefl)
  then have "hd ?rest = CHR ''.''" using hd_dropWhile [of "\<lambda>c. c \<noteq> CHR ''.''" "rev name"] by simp
  with \<open>?rest \<noteq> []\<close> obtain r where r: "?rest = CHR ''.'' # r" by (cases ?rest) simp_all
  have "name = rev ?rest @ rev ?tail" using split by (metis rev_append rev_rev_ident)
  then have "name = rev r @ path_extension name" by (simp add: r ext)
  then have "take (length name - length (path_extension name)) name = rev r"
    by (metis add_diff_cancel_right' append_eq_conv_conj length_append)
  with \<open>name = rev r @ path_extension name\<close> show ?thesis by (metis path_stem_def)
qed (simp add: path_stem_def)

lemma valid_path_cases:
  assumes "ValidateRelativePath p = Inr ()"
  shows "(CHR ''/'' \<notin> set p \<and> path_filename p = p \<and> path_parent p = []) \<or>
    (\<exists>d f. p = d @ CHR ''/'' # f \<and> CHR ''/'' \<notin> set f \<and> d \<noteq> [] \<and> last d \<noteq> CHR ''/'' \<and>
       path_filename p = f \<and> path_parent p = d)"
proof (cases "CHR ''/'' \<in> set p")
  case False
  then have "\<forall>c \<in> set (rev p). c \<noteq> CHR ''/''" by auto
  then have whole: "takeWhile (\<lambda>c. c \<noteq> CHR ''/'') (rev p) = rev p"
    and none: "dropWhile (\<lambda>c. c \<noteq> CHR ''/'') (rev p) = []"
    by (simp_all only: takeWhile_eq_all_conv dropWhile_eq_Nil_conv)
  have "path_filename p = p" unfolding path_filename_def whole by simp
  moreover have "path_parent p = []" unfolding path_parent_def none by simp
  ultimately show ?thesis using False by simp
next
  case True
  then obtain d f where p: "p = d @ CHR ''/'' # f" "CHR ''/'' \<notin> set f"
    by (meson split_list_last)
  have "[] \<notin> set (split_on CHR ''/'' p)"
    using assms by (auto simp: ValidateRelativePath_def split: if_splits)
  then have "[] \<notin> set (split_on CHR ''/'' d)" by (simp add: p split_on_append)
  then have "d \<noteq> []" by auto
  moreover have "last d \<noteq> CHR ''/''"
  proof
    assume "last d = CHR ''/''"
    with \<open>d \<noteq> []\<close> have "d = butlast d @ [CHR ''/'']" by (metis append_butlast_last_id)
    then have "split_on CHR ''/'' d = split_on CHR ''/'' (butlast d) @ [[]]"
      by (metis split_on.simps(1) split_on_append)
    with \<open>[] \<notin> set (split_on CHR ''/'' d)\<close> show False by simp
  qed
  moreover have "path_filename p = f"
    using p(2) by (simp add: path_filename_def p(1) takeWhile_append)
  moreover have "path_parent p = d"
  proof -
    have "dropWhile (\<lambda>c. c \<noteq> CHR ''/'') (rev p) = CHR ''/'' # rev d"
      using p(2) by (simp add: p(1) dropWhile_append)
    moreover have "dropWhile (\<lambda>c. c = CHR ''/'') (CHR ''/'' # rev d) = rev d"
      using \<open>d \<noteq> []\<close> \<open>last d \<noteq> CHR ''/''\<close> by (cases d rule: rev_cases) auto
    ultimately show ?thesis using \<open>d \<noteq> []\<close> unfolding path_parent_def Let_def by simp
  qed
  ultimately show ?thesis using p by blast
qed

lemma set_safe_device: "set (SafeDeviceId v) \<subseteq> {c. safe_char c}"
  by (auto simp: SafeDeviceId_def safe_char_def isalnum_def Let_def)

lemma safe_char_plain: "safe_char c \<Longrightarrow> c \<notin> {CHR ''/'', CHR ''.'', CHR '':'', CHR 0x5C}"
  by (auto simp: safe_char_def isalnum_def less_eq_char_def)

definition conflict_name :: "string \<Rightarrow> FileRecord \<Rightarrow> string" where
  "conflict_name name r = path_stem name @ ''.conflict.'' @ SafeDeviceId (fr_origin_device_id r) @ ''.'' @
     to_string (unat (fr_logical_clock r)) @ path_extension name"

lemma conflict_name_set:
  "set (conflict_name name r) \<subseteq> set name \<union> {c. safe_char c} \<union> {CHR ''.''}"
proof -
  have "set (path_stem name) \<union> set (path_extension name) = set name"
    by (metis set_append stem_extension)
  moreover have "set (to_string n) \<subseteq> {c. safe_char c}" for n
    using set_to_string [of n] by (auto simp: safe_char_def isalnum_def less_eq_char_def)
  moreover have "set ''.conflict.'' \<subseteq> {c. safe_char c} \<union> {CHR ''.''}"
    by (auto simp: safe_char_def isalnum_def less_eq_char_def)
  ultimately show ?thesis
    using set_safe_device [of "fr_origin_device_id r"] unfolding conflict_name_def set_append by auto
qed

lemma conflict_name_length: "length name + 10 < length (conflict_name name r)"
proof -
  have "length (path_stem name) + length (path_extension name) = length name"
    by (metis length_append stem_extension)
  then show ?thesis by (simp add: conflict_name_def)
qed

lemma conflict_name_inject:
  assumes "conflict_name name r = conflict_name name r'"
  shows "SafeDeviceId (fr_origin_device_id r) = SafeDeviceId (fr_origin_device_id r') \<and>
    fr_logical_clock r = fr_logical_clock r'"
proof -
  let ?d = "SafeDeviceId (fr_origin_device_id r)" and ?d' = "SafeDeviceId (fr_origin_device_id r')"
  let ?n = "to_string (unat (fr_logical_clock r))" and ?n' = "to_string (unat (fr_logical_clock r'))"
  have eq: "?d @ CHR ''.'' # ?n = ?d' @ CHR ''.'' # ?n'"
    using assms by (simp add: conflict_name_def)
  have "CHR ''.'' \<notin> set ?d" "CHR ''.'' \<notin> set ?d'"
    using set_safe_device safe_char_plain by blast+
  moreover have "CHR ''.'' \<notin> set ?n" "CHR ''.'' \<notin> set ?n'"
    using set_to_string by fastforce+
  ultimately have "?d = ?d'" "?n = ?n'"
    using eq by (simp_all add: append_Cons_eq_iff)
  then show ?thesis by (simp add: to_string_inject word_unat_eq_iff)
qed

lemma conflict_path_cases:
  assumes "ValidateRelativePath p = Inr ()" "fr_origin_device_id r \<noteq> []"
  shows "(CHR ''/'' \<notin> set p \<and> path_parent p = [] \<and> ConflictPath p r = Inr (conflict_name p r)) \<or>
    (\<exists>d f. p = d @ CHR ''/'' # f \<and> path_parent p = d \<and> CHR ''/'' \<notin> set f \<and> f \<noteq> [] \<and>
       ConflictPath p r = Inr (d @ CHR ''/'' # conflict_name f r))"
  using valid_path_cases [OF assms(1)]
proof (elim disjE exE conjE)
  assume a: "CHR ''/'' \<notin> set p" "path_filename p = p" "path_parent p = []"
  have "p \<noteq> []" "p \<noteq> ''.''" "p \<noteq> ''..''"
    using assms(1) a(1) by (auto simp: ValidateRelativePath_def split_on_free split: if_splits)
  then show ?thesis
    using a assms(2) by (simp add: ConflictPath_def Let_def conflict_name_def path_append_def)
next
  fix d f
  assume a: "p = d @ CHR ''/'' # f" "CHR ''/'' \<notin> set f" "d \<noteq> []" "last d \<noteq> CHR ''/''"
    "path_filename p = f" "path_parent p = d"
  have "f \<noteq> []" "f \<noteq> ''.''" "f \<noteq> ''..''"
    using assms(1) a(2) unfolding a(1)
    by (auto simp: ValidateRelativePath_def split_on_append split_on_free split: if_splits)
  then have "ConflictPath p r = Inr (d @ CHR ''/'' # conflict_name f r)"
    using a(3-) assms(2) unfolding ConflictPath_def conflict_name_def by (simp add: path_append_def a(1))
  with a \<open>f \<noteq> []\<close> show ?thesis by blast
qed

lemma last_split_unique:
  assumes "d @ c # f = d' @ c # f'" "c \<notin> set f" "c \<notin> set f'"
  shows "d = d'"
  using assms by (induction d arbitrary: d') (auto simp: Cons_eq_append_conv)

lemma conflict_path_device: "ConflictPath p r = Inr c \<Longrightarrow> fr_origin_device_id r \<noteq> []"
  by (auto simp: ConflictPath_def)

lemma valid_path_iff:
  "ValidateRelativePath p = Inr () \<longleftrightarrow> CHR 0x5C \<notin> set p \<and> CHR '':'' \<notin> set p \<and>
    (\<forall>c \<in> set (split_on CHR ''/'' p). c \<noteq> [] \<and> c \<noteq> ''.'' \<and> c \<noteq> ''..'')"
  by (cases p) (auto simp: ValidateRelativePath_def)

lemma conflict_name_valid:
  assumes "ValidateRelativePath p = Inr ()" "set f \<subseteq> set p" "CHR ''/'' \<notin> set f"
  shows "split_on CHR ''/'' (conflict_name f r) = [conflict_name f r]"
    and "CHR 0x5C \<notin> set (conflict_name f r)" and "CHR '':'' \<notin> set (conflict_name f r)"
    and "conflict_name f r \<noteq> []" "conflict_name f r \<noteq> ''.''" "conflict_name f r \<noteq> ''..''"
proof -
  have p: "CHR 0x5C \<notin> set p" "CHR '':'' \<notin> set p"
    using assms(1) by (auto simp: ValidateRelativePath_def split: if_splits)
  note sub = conflict_name_set [of f r] and plain = safe_char_plain
  show "CHR 0x5C \<notin> set (conflict_name f r)" "CHR '':'' \<notin> set (conflict_name f r)"
    using p assms(2) sub plain by blast+
  have "CHR ''/'' \<notin> set (conflict_name f r)" using assms(3) sub plain by blast
  then show "split_on CHR ''/'' (conflict_name f r) = [conflict_name f r]" by (rule split_on_free)
  show "conflict_name f r \<noteq> []" "conflict_name f r \<noteq> ''.''" "conflict_name f r \<noteq> ''..''"
    using conflict_name_length [of f r] by auto
qed

lemma conflict_name_hd:
  assumes "ValidateRelativePath p = Inr ()" "CHR ''/'' \<notin> set p"
  shows "ValidateRelativePath (conflict_name p r) = Inr ()"
proof -
  note name = conflict_name_valid [OF assms(1) subset_refl assms(2), of r]
  show ?thesis using name by (simp add: valid_path_iff)
qed

lemma conflict_name_nested:
  assumes "ValidateRelativePath (d @ CHR ''/'' # f) = Inr ()" "CHR ''/'' \<notin> set f"
  shows "ValidateRelativePath (d @ CHR ''/'' # conflict_name f r) = Inr ()"
proof -
  have "set f \<subseteq> set (d @ CHR ''/'' # f)" by auto
  note name = conflict_name_valid [OF assms(1) this assms(2), of r]
  have d: "CHR 0x5C \<notin> set d" "CHR '':'' \<notin> set d"
    "\<forall>c \<in> set (split_on CHR ''/'' d). c \<noteq> [] \<and> c \<noteq> ''.'' \<and> c \<noteq> ''..''"
    using assms(1) unfolding valid_path_iff split_on_append by simp_all
  show ?thesis using name d(1,2) ball_Un d(3) unfolding valid_path_iff split_on_append by simp
qed

text \<open>
  Moving a losing version aside is safe.  For every valid task-relative path the conflict path
  exists, is itself a valid task-relative path in the same directory and not the original one, and it
  determines the losing record's logical clock and (sanitised) device, so two different losers of one
  path never share a conflict path.
\<close>

theorem conflict_path_sound:
  assumes "ValidateRelativePath p = Inr ()" "fr_origin_device_id r \<noteq> []"
  shows "\<exists>c. ConflictPath p r = Inr c \<and> ValidateRelativePath c = Inr () \<and>
    path_parent c = path_parent p \<and> c \<noteq> p \<and>
    (\<forall>r'. ConflictPath p r' = Inr c \<longrightarrow>
      SafeDeviceId (fr_origin_device_id r') = SafeDeviceId (fr_origin_device_id r) \<and>
      fr_logical_clock r' = fr_logical_clock r)"
  using conflict_path_cases [OF assms]
proof (elim disjE exE conjE)
  assume a: "CHR ''/'' \<notin> set p" "path_parent p = []" "ConflictPath p r = Inr (conflict_name p r)"
  let ?c = "conflict_name p r"
  have valid: "ValidateRelativePath ?c = Inr ()" by (rule conflict_name_hd [OF assms(1) a(1)])
  have "CHR ''/'' \<notin> set ?c"
    using a(1) conflict_name_set [of p r] safe_char_plain by blast
  then have "path_parent ?c = []" using valid_path_cases [OF valid] by (metis in_set_conv_decomp)
  moreover have "?c \<noteq> p" using conflict_name_length [of p r] by auto
  moreover have "conflict_name p r' = ?c" if "ConflictPath p r' = Inr ?c" for r'
    using conflict_path_cases [OF assms(1) conflict_path_device [OF that]] a(1) that
    by (metis Inr_inject in_set_conv_decomp)
  ultimately show ?thesis using a valid conflict_name_inject by metis
next
  fix d f
  assume a: "p = d @ CHR ''/'' # f" "path_parent p = d" "CHR ''/'' \<notin> set f" "f \<noteq> []"
    "ConflictPath p r = Inr (d @ CHR ''/'' # conflict_name f r)"
  let ?c = "d @ CHR ''/'' # conflict_name f r"
  have valid: "ValidateRelativePath ?c = Inr ()"
    using conflict_name_nested assms(1) a(1,3) by simp
  have "CHR ''/'' \<notin> set (conflict_name f r)"
    using a(3) conflict_name_set [of f r] safe_char_plain by blast
  then have "path_parent ?c = d"
    using valid_path_cases [OF valid] last_split_unique by (metis in_set_conv_decomp)
  moreover have "?c \<noteq> p" using conflict_name_length [of f r] by (auto simp: a(1))
  moreover have "conflict_name f r' = conflict_name f r" if "ConflictPath p r' = Inr ?c" for r'
    using conflict_path_cases [OF assms(1) conflict_path_device [OF that]] that a(1,2) by auto
  ultimately show ?thesis using a valid conflict_name_inject by metis
qed

theorem conflict_path_sound_witness:
  "\<exists>c. ConflictPath ''d/a.txt'' demo_record = Inr c \<and> ValidateRelativePath c = Inr () \<and>
    path_parent c = path_parent ''d/a.txt'' \<and> c \<noteq> ''d/a.txt''"
proof -
  have "ValidateRelativePath ''d/a.txt'' = Inr ()" "fr_origin_device_id demo_record \<noteq> []"
    by (simp_all add: ValidateRelativePath_def demo_record_def)
  from conflict_path_sound [OF this] show ?thesis by blast
qed

end
