(* ===== verification/File_System.thy ===== *)
theory File_System
  imports VS_Prelude
begin

text \<open>
  The file system as the engine sees it through \<^verbatim>\<open>std::filesystem\<close>, \<^verbatim>\<open>std::fstream\<close> and the Win32
  calls of \<^verbatim>\<open>engine/storage/safe_file_writer.cpp\<close>.  A path is its list of components, the volume root
  first; an entry is a directory, a regular file with its bytes, or a symbolic link with its target.
  Every system call may also fail for a reason outside the model: \<open>fs_faults\<close> is the schedule of those
  failures, one entry per call (\<open>Some k\<close> fails the call, a write after \<open>k\<close> bytes), and no failure after
  its end.  Names are compared exactly, as in a case-sensitive directory.
\<close>

type_synonym path = "string list"

datatype node = Directory | Regular bytes | Symlink path

record FileSystem =
  fs_entries :: "(path \<times> node) list"
  fs_faults :: "nat option list"
  fs_process_id :: nat
  fs_serial :: u64

definition node_at :: "FileSystem \<Rightarrow> path \<Rightarrow> node option" where
  "node_at s = map_of (fs_entries s)"

definition set_node :: "path \<Rightarrow> node \<Rightarrow> FileSystem \<Rightarrow> FileSystem" where
  "set_node p n s = s\<lparr>fs_entries := (p, n) # fs_entries s\<rparr>"

definition del_node :: "path \<Rightarrow> FileSystem \<Rightarrow> FileSystem" where
  "del_node p s = s\<lparr>fs_entries := filter (\<lambda>e. fst e \<noteq> p) (fs_entries s)\<rparr>"

definition empty_directory :: "FileSystem \<Rightarrow> path \<Rightarrow> bool" where
  "empty_directory s p \<longleftrightarrow> (\<forall>e \<in> set (fs_entries s). \<not> (take (length p) (fst e) = p \<and> length p < length (fst e)))"

lemma node_at_set_node [simp]: "node_at (set_node p n s) = (node_at s)(p \<mapsto> n)"
  by (simp add: node_at_def set_node_def)

lemma node_at_del_node [simp]: "node_at (del_node p s) = (node_at s)(p := None)"
proof
  fix q
  have "map_of (filter (\<lambda>e. fst e \<noteq> p) es) q = (if q = p then None else map_of es q)" for es :: "(path \<times> node) list"
    by (induction es) auto
  then show "node_at (del_node p s) q = ((node_at s)(p := None)) q"
    by (simp add: node_at_def del_node_def)
qed

section \<open>Path resolution\<close>

text \<open>
  A walk from the volume root: an intermediate link restarts at its target, at most \<open>kMaxReparse\<close>
  times.  The last component may be absent.
\<close>

datatype walked = Missing | Looping | At path

definition kMaxReparse :: nat where "kMaxReparse = 63"

function walk :: "nat \<Rightarrow> (path \<Rightarrow> node option) \<Rightarrow> path \<Rightarrow> path \<Rightarrow> walked" where
  "walk k nodes cur [] = At cur"
| "walk k nodes cur (c # cs) =
     (case nodes (cur @ [c]) of
        Some Directory \<Rightarrow> walk k nodes (cur @ [c]) cs
      | Some (Symlink target) \<Rightarrow> (case k of 0 \<Rightarrow> Looping | Suc k' \<Rightarrow> walk k' nodes [] (target @ cs))
      | _ \<Rightarrow> if cs = [] then At (cur @ [c]) else Missing)"
  by pat_completeness auto
termination
  by (relation "measures [\<lambda>(k, _, _, _). k, \<lambda>(_, _, _, cs). length cs]") auto

text \<open>The place a path names, following every link.\<close>

definition real_path :: "FileSystem \<Rightarrow> path \<Rightarrow> walked" where
  "real_path s p = walk kMaxReparse (node_at s) [] p"

text \<open>The directory entry a path names: links are followed up to, and not including, the last component.\<close>

definition entry_path :: "FileSystem \<Rightarrow> path \<Rightarrow> walked" where
  "entry_path s p =
     (if p = [] then Missing
      else case walk kMaxReparse (node_at s) [] (butlast p) of
        At d \<Rightarrow> if d = [] \<or> node_at s d = Some Directory then At (d @ [last p]) else Missing
      | w \<Rightarrow> w)"

section \<open>System calls\<close>

definition next_fault :: "(FileSystem, nat option) op" where
  "next_fault s = (case fs_faults s of [] \<Rightarrow> (Inr None, s) | f # fs \<Rightarrow> (Inr f, s\<lparr>fs_faults := fs\<rparr>))"

datatype file_status = stError | stNotFound | stRegular | stDirectory | stSymlink

fun node_status :: "node option \<Rightarrow> file_status" where
  "node_status None = stNotFound"
| "node_status (Some Directory) = stDirectory"
| "node_status (Some (Regular _)) = stRegular"
| "node_status (Some (Symlink _)) = stSymlink"

definition status_of :: "FileSystem \<Rightarrow> walked \<Rightarrow> file_status" where
  "status_of s w = (case w of Missing \<Rightarrow> stNotFound | Looping \<Rightarrow> stError | At q \<Rightarrow> node_status (node_at s q))"

definition sys_symlink_status :: "path \<Rightarrow> (FileSystem, file_status) op" where
  "sys_symlink_status p = bindS next_fault (\<lambda>f.
     if f \<noteq> None then returnS stError else getS (\<lambda>s. status_of s (entry_path s p)))"

definition sys_status :: "path \<Rightarrow> (FileSystem, file_status) op" where
  "sys_status p = bindS next_fault (\<lambda>f.
     if f \<noteq> None then returnS stError else getS (\<lambda>s. status_of s (real_path s p)))"

text \<open>\<^verbatim>\<open>create_directory\<close>: whether it succeeded.\<close>

definition sys_create_directory :: "path \<Rightarrow> (FileSystem, bool) op" where
  "sys_create_directory p = bindS next_fault (\<lambda>f s.
     case entry_path s p of
       At q \<Rightarrow> if f = None \<and> node_at s q = None then (Inr True, set_node q Directory s) else (Inr False, s)
     | _ \<Rightarrow> (Inr False, s))"

text \<open>Opening an output stream: creates the file, or truncates it; the final link is followed.\<close>

definition sys_create_file :: "path \<Rightarrow> (FileSystem, bool) op" where
  "sys_create_file p = bindS next_fault (\<lambda>f s.
     case real_path s p of
       At q \<Rightarrow>
        if f = None \<and> node_at s (butlast q) = Some Directory \<and> node_status (node_at s q) \<in> {stNotFound, stRegular}
        then (Inr True, set_node q (Regular []) s) else (Inr False, s)
     | _ \<Rightarrow> (Inr False, s))"

definition file_bytes :: "FileSystem \<Rightarrow> path \<Rightarrow> bytes option" where
  "file_bytes s p = (case real_path s p of
     At q \<Rightarrow> (case node_at s q of Some (Regular b) \<Rightarrow> Some b | _ \<Rightarrow> None) | _ \<Rightarrow> None)"

definition sys_open :: "path \<Rightarrow> (FileSystem, bool) op" where
  "sys_open p = bindS next_fault (\<lambda>f. getS (\<lambda>s. f = None \<and> file_bytes s p \<noteq> None))"

text \<open>
  Writing \<open>bs\<close> at an offset of an open file: the bytes before the offset that do not exist yet read as
  zero.  A failing write leaves the bytes it managed to write.
\<close>

definition overlay :: "bytes \<Rightarrow> nat \<Rightarrow> bytes \<Rightarrow> bytes" where
  "overlay old off bs =
     (if bs = [] then old
      else take off (old @ replicate (off - length old) 0) @ bs @ drop (off + length bs) old)"

definition sys_write :: "path \<Rightarrow> nat \<Rightarrow> bytes \<Rightarrow> (FileSystem, bool) op" where
  "sys_write p off bs = bindS next_fault (\<lambda>f s.
     case real_path s p of
       At q \<Rightarrow>
        (case node_at s q of
           Some (Regular old) \<Rightarrow>
            (Inr (f = None), set_node q (Regular (overlay old off (case f of None \<Rightarrow> bs | Some k \<Rightarrow> take k bs))) s)
         | _ \<Rightarrow> (Inr False, s))
     | _ \<Rightarrow> (Inr False, s))"

definition sys_flush :: "(FileSystem, bool) op" where
  "sys_flush = bindS next_fault (\<lambda>f. returnS (f = None))"

text \<open>
  \<^verbatim>\<open>MoveFileExW\<close> on a directory entry that is not itself a directory: the entry is renamed in one step;
  an existing target is replaced only when the flag asks for it, a directory never.
\<close>

definition sys_move :: "bool \<Rightarrow> path \<Rightarrow> path \<Rightarrow> (FileSystem, bool) op" where
  "sys_move replace_existing src dst = bindS next_fault (\<lambda>f s.
     case (entry_path s src, entry_path s dst) of
       (At q, At r) \<Rightarrow>
        (case node_at s q of
           None \<Rightarrow> (Inr False, s)
         | Some Directory \<Rightarrow> (Inr False, s)
         | Some n \<Rightarrow>
            if f = None \<and> (node_at s r = None \<or> replace_existing \<and> node_at s r \<noteq> Some Directory)
            then (Inr True, set_node r n (del_node q s)) else (Inr False, s))
     | _ \<Rightarrow> (Inr False, s))"

text \<open>\<^verbatim>\<open>remove\<close>: \<open>None\<close> is an error, \<open>Some b\<close> whether an entry was removed.\<close>

definition sys_remove :: "path \<Rightarrow> (FileSystem, bool option) op" where
  "sys_remove p = bindS next_fault (\<lambda>f s.
     if f \<noteq> None then (Inr None, s)
     else case entry_path s p of
       At q \<Rightarrow>
        (case node_at s q of
           None \<Rightarrow> (Inr (Some False), s)
         | Some Directory \<Rightarrow> if empty_directory s q then (Inr (Some True), del_node q s) else (Inr None, s)
         | Some _ \<Rightarrow> (Inr (Some True), del_node q s))
     | Missing \<Rightarrow> (Inr (Some False), s)
     | Looping \<Rightarrow> (Inr None, s))"

end
