(* ===== verification/Safe_File_Writer.thy ===== *)
theory Safe_File_Writer
  imports File_System
begin

text \<open>
  The writer that stores downloads below a task root
  (\<^verbatim>\<open>engine/storage/safe_file_writer.cpp\<close>).  \<^verbatim>\<open>weakly_canonical\<close> is the parameter \<open>canonical\<close> of
  the model, the BLAKE3 function the parameter \<open>blake3\<close>.
\<close>

section \<open>Lexical path operations\<close>

abbreviation is_separator :: "char \<Rightarrow> bool" where
  "is_separator c \<equiv> c = CHR ''/'' \<or> c = CHR 0x5C"

definition is_letter :: "char \<Rightarrow> bool" where
  "is_letter c \<longleftrightarrow> (CHR ''A'' \<le> c \<and> c \<le> CHR ''Z'') \<or> (CHR ''a'' \<le> c \<and> c \<le> CHR ''z'')"

text \<open>Whether the text has a root name (a drive or a share) or a root directory.\<close>

definition is_rooted :: "string \<Rightarrow> bool" where
  "is_rooted text \<longleftrightarrow> (case text of
     [] \<Rightarrow> False | c # cs \<Rightarrow> is_separator c \<or> (is_letter c \<and> cs \<noteq> [] \<and> hd cs = CHR '':''))"

text \<open>
  The components that iterating a rootless path yields: separators in a row count once, and a
  trailing separator yields a last, empty component.
\<close>

definition path_components :: "string \<Rightarrow> path" where
  "path_components text =
     (let parts = split_on CHR ''/'' (map (\<lambda>c. if is_separator c then CHR ''/'' else c) text) in
      filter (\<lambda>c. c \<noteq> []) parts @ (if text \<noteq> [] \<and> is_separator (last text) then [[]] else []))"

text \<open>\<^verbatim>\<open>lexically_normal\<close> of an absolute path; the accumulator holds the components so far, last first.\<close>

fun normal_from :: "path \<Rightarrow> path \<Rightarrow> path" where
  "normal_from acc [] = rev acc"
| "normal_from acc (c # cs) =
     (if c = ''.'' then normal_from acc cs
      else if c = ''..'' then normal_from (if length acc \<le> 1 then acc else tl acc) cs
      else normal_from (c # acc) cs)"

definition lexically_normal :: "path \<Rightarrow> path" where
  "lexically_normal p = normal_from [] p"

fun strip_common :: "path \<Rightarrow> path \<Rightarrow> path \<times> path" where
  "strip_common (x # xs) (y # ys) = (if x = y then strip_common xs ys else (x # xs, y # ys))"
| "strip_common xs ys = (xs, ys)"

definition lexically_relative :: "path \<Rightarrow> path \<Rightarrow> path" where
  "lexically_relative p base =
     (case strip_common p base of (rest, base_rest) \<Rightarrow>
        if p \<noteq> [] \<and> base \<noteq> [] \<and> hd p \<noteq> hd base then []
        else if rest = [] \<and> base_rest = [] then [''.'']
        else
         let ups = int (length (filter (\<lambda>c. c \<noteq> ''..'' \<and> c \<noteq> ''.'' \<and> c \<noteq> []) base_rest)) -
               int (length (filter (\<lambda>c. c = ''..'') base_rest)) in
         if ups < 0 then []
         else if ups = 0 \<and> rest = [] then [''.'']
         else replicate (nat ups) ''..'' @ rest)"

section \<open>Model\<close>

definition IsDescendant :: "path \<Rightarrow> path \<Rightarrow> bool" where
  "IsDescendant root candidate =
     (let relative = lexically_relative candidate root in
      if relative = [] then candidate = root else ''..'' \<notin> set relative)"

text \<open>The loop of \<open>EnsureSafeDirectory\<close> over the components below the volume root.\<close>

definition ensure_component :: "path \<Rightarrow> (FileSystem, unit) op" where
  "ensure_component current =
     bindS (sys_symlink_status current) (\<lambda>status.
     thenS (guardS (status = stError) (Runtime_error ''cannot inspect destination directory''))
     (if status = stNotFound
      then bindS (sys_create_directory current) (\<lambda>ok.
             guardS (\<not> ok) (Runtime_error ''cannot create destination directory''))
      else guardS (status \<noteq> stDirectory)
             (Invalid_argument ''destination path traverses a non-directory or symlink'')))"

fun ensure_loop :: "path \<Rightarrow> path \<Rightarrow> (FileSystem, unit) op" where
  "ensure_loop current [] = returnS ()"
| "ensure_loop current (c # cs) =
     thenS (ensure_component (current @ [c])) (ensure_loop (current @ [c]) cs)"

definition EnsureSafeDirectory :: "path \<Rightarrow> (FileSystem, unit) op" where
  "EnsureSafeDirectory directory = ensure_loop (take 1 directory) (drop 1 directory)"

definition MakePartPath :: "path \<Rightarrow> (FileSystem, path) op" where
  "MakePartPath destination s =
     (Inr (butlast destination @ [last destination @ ''.veritassync.'' @ to_string (fs_process_id s) @ ''.'' @
        to_string (unat (fs_serial s)) @ ''.part'']),
      s\<lparr>fs_serial := fs_serial s + 1\<rparr>)"

definition ResumablePartPath :: "path \<Rightarrow> path" where
  "ResumablePartPath destination = butlast destination @ [last destination @ ''.part'']"

definition FlushPartFile :: "path \<Rightarrow> (FileSystem, unit) op" where
  "FlushPartFile part =
     bindS (sys_open part) (\<lambda>opened.
     thenS (guardS (\<not> opened) (Runtime_error ''cannot reopen partial download for flush''))
    (bindS sys_flush (\<lambda>flushed.
     guardS (\<not> flushed) (Runtime_error ''cannot flush partial download''))))"

definition RejectSymlink :: "path \<Rightarrow> string \<Rightarrow> (FileSystem, unit) op" where
  "RejectSymlink p message =
     bindS (sys_symlink_status p) (\<lambda>status.
     thenS (guardS (status = stError) (Runtime_error ''cannot inspect download path''))
     (guardS (status = stSymlink) (Invalid_argument message)))"

definition CommitPart :: "path \<Rightarrow> path \<Rightarrow> (FileSystem, unit) op" where
  "CommitPart part destination =
     bindS (sys_move True part destination) (\<lambda>ok.
     guardS (\<not> ok) (Runtime_error ''cannot atomically commit download''))"

definition to_upper :: "char \<Rightarrow> char" where
  "to_upper c = (if CHR ''a'' \<le> c \<and> c \<le> CHR ''z'' then char_of (of_char c - 32 :: nat) else c)"

definition is_control :: "char \<Rightarrow> bool" where
  "is_control c \<longleftrightarrow> (of_char c :: nat) < 32 \<or> (of_char c :: nat) = 127"

definition is_device_name :: "string \<Rightarrow> bool" where
  "is_device_name component =
     (let name = map to_upper (takeWhile (\<lambda>c. c \<noteq> CHR ''.'') component) in
      name = ''CON'' \<or> name = ''PRN'' \<or> name = ''AUX'' \<or> name = ''NUL'' \<or>
      (length name = 4 \<and> (take 3 name = ''COM'' \<or> take 3 name = ''LPT'') \<and>
       CHR ''1'' \<le> name ! 3 \<and> name ! 3 \<le> CHR ''9''))"

definition check_component :: "string \<Rightarrow> unit result" where
  "check_component name =
     (if name = [] \<or> name = ''.'' \<or> name = ''..'' then Inl (Invalid_argument ''path traversal is not allowed'')
      else if last name = CHR '' '' \<or> last name = CHR ''.'' \<or> CHR '':'' \<in> set name \<or> (\<exists>c \<in> set name. is_control c)
      then Inl (Invalid_argument ''Windows path component is invalid'')
      else if is_device_name name then Inl (Invalid_argument ''Windows device names are not allowed'')
      else Inr ())"

definition ResolveTaskPath :: "(string \<Rightarrow> path option) \<Rightarrow> string \<Rightarrow> string \<Rightarrow> (FileSystem, path) op" where
  "ResolveTaskPath canonical task_root relative_path =
     thenS (guardS (task_root = [] \<or> relative_path = []) (Invalid_argument ''task root and relative path are required''))
     (case canonical task_root of
        None \<Rightarrow> throwS (Invalid_argument ''task root must be an existing directory'')
      | Some root \<Rightarrow>
         bindS (sys_status root) (\<lambda>status.
         thenS (guardS (status \<noteq> stDirectory)
           (if status = stError then Runtime_error ''is_directory'' else Invalid_argument ''task root must be an existing directory''))
        (thenS (guardS (is_rooted relative_path) (Invalid_argument ''absolute paths are not allowed''))
        (thenS (liftS (\<lambda>_. foldE (\<lambda>c _. check_component c) (path_components relative_path) ()))
        (let candidate = lexically_normal (root @ path_components relative_path) in
         thenS (guardS (\<not> IsDescendant root candidate \<or> candidate = root)
           (Invalid_argument ''path resolves outside task root''))
         (returnS candidate))))))"

record SafeFileWriter =
  wr_task_root :: string
  wr_canonical :: "string \<Rightarrow> path option"

abbreviation resolve :: "SafeFileWriter \<Rightarrow> string \<Rightarrow> (FileSystem, path) op" where
  "resolve w \<equiv> ResolveTaskPath (wr_canonical w) (wr_task_root w)"

definition SafeFileWriter_new :: "(string \<Rightarrow> path option) \<Rightarrow> string \<Rightarrow> (FileSystem, SafeFileWriter) op" where
  "SafeFileWriter_new canonical task_root =
     thenS (ResolveTaskPath canonical task_root ''.veritassync-validation'')
       (returnS \<lparr>wr_task_root = task_root, wr_canonical = canonical\<rparr>)"

text \<open>The body of the \<^verbatim>\<open>try\<close> block, and the whole operation.\<close>

definition write_part :: "path \<Rightarrow> path \<Rightarrow> bytes \<Rightarrow> (FileSystem, unit) op" where
  "write_part part destination bytes =
     bindS (sys_create_file part) (\<lambda>created.
     thenS (guardS (\<not> created) (Runtime_error ''cannot create partial download''))
    (bindS (if bytes = [] then returnS True else sys_write part 0 bytes) (\<lambda>written.
     thenS (guardS (\<not> written) (Runtime_error ''cannot write partial download''))
    (thenS (FlushPartFile part) (CommitPart part destination)))))"

definition WriteAtomically :: "SafeFileWriter \<Rightarrow> string \<Rightarrow> bytes \<Rightarrow> (FileSystem, unit) op" where
  "WriteAtomically w relative_path bytes =
     bindS (resolve w relative_path) (\<lambda>destination.
     thenS (EnsureSafeDirectory (butlast destination))
    (thenS (RejectSymlink destination ''destination file must not be a symlink'')
    (bindS (MakePartPath destination) (\<lambda>part.
     catchS (write_part part destination bytes)
       (\<lambda>e. thenS (sys_remove part) (throwS e))))))"

definition kStreamoffMax :: nat where "kStreamoffMax = 2 ^ 63 - 1"

definition exists_throwing :: "path \<Rightarrow> (FileSystem, bool) op" where
  "exists_throwing p =
     bindS (sys_status p) (\<lambda>status.
     thenS (guardS (status = stError) (Runtime_error ''exists'')) (returnS (status \<noteq> stNotFound)))"

definition WritePartialChunk :: "SafeFileWriter \<Rightarrow> string \<Rightarrow> u64 \<Rightarrow> bytes \<Rightarrow> bool \<Rightarrow> (FileSystem, unit) op" where
  "WritePartialChunk w relative_path offset bytes flush =
     thenS (guardS (kStreamoffMax < unat offset) (Invalid_argument ''chunk offset is too large''))
    (thenS (guardS (unat (- 1 - offset) < length bytes) (Invalid_argument ''chunk range overflows''))
    (bindS (resolve w relative_path) (\<lambda>destination.
     thenS (EnsureSafeDirectory (butlast destination))
    (thenS (RejectSymlink destination ''destination file must not be a symlink'')
    (let part = ResumablePartPath destination in
     thenS (RejectSymlink part ''partial file must not be a symlink'')
    (bindS (exists_throwing part) (\<lambda>present.
     thenS (if present then returnS ()
            else bindS (sys_create_file part) (\<lambda>created.
              guardS (\<not> created) (Runtime_error ''cannot create partial download'')))
    (bindS (sys_open part) (\<lambda>opened.
     thenS (guardS (\<not> opened) (Runtime_error ''cannot open partial download''))
    (bindS (if bytes = [] then returnS True else sys_write part (unat offset) bytes) (\<lambda>written.
     thenS (guardS (\<not> written) (Runtime_error ''cannot write partial download''))
     (if flush then FlushPartFile part else returnS ()))))))))))))"

definition FlushPartial :: "SafeFileWriter \<Rightarrow> string \<Rightarrow> (FileSystem, unit) op" where
  "FlushPartial w relative_path =
     bindS (resolve w relative_path) (\<lambda>destination.
     let part = ResumablePartPath destination in
     thenS (RejectSymlink part ''partial file must not be a symlink'')
    (bindS (sys_status part) (\<lambda>status.
     thenS (guardS (status \<noteq> stRegular) (Runtime_error ''partial download does not exist for flush''))
     (FlushPartFile part))))"

definition remove_or_throw :: "path \<Rightarrow> string \<Rightarrow> (FileSystem, unit) op" where
  "remove_or_throw p message =
     bindS (sys_remove p) (\<lambda>removed. guardS (removed \<noteq> Some True) (Runtime_error message))"

definition DiscardPartial :: "SafeFileWriter \<Rightarrow> string \<Rightarrow> (FileSystem, unit) op" where
  "DiscardPartial w relative_path =
     bindS (resolve w relative_path) (\<lambda>destination.
     let part = ResumablePartPath destination in
     thenS (RejectSymlink part ''partial file must not be a symlink'')
    (bindS (sys_status part) (\<lambda>status.
     if status = stNotFound then returnS ()
     else thenS (guardS (status \<noteq> stRegular) (Runtime_error ''cannot discard unsafe partial download''))
       (remove_or_throw part ''cannot discard partial download''))))"

text \<open>\<^verbatim>\<open>common::Blake3File\<close>: the digest of the bytes a path leads to.\<close>

definition Blake3File :: "(bytes \<Rightarrow> bytes) \<Rightarrow> path \<Rightarrow> (FileSystem, bytes) op" where
  "Blake3File blake3 p =
     bindS next_fault (\<lambda>open_fault.
     thenS (guardS (open_fault \<noteq> None) (Runtime_error ''cannot open file for BLAKE3''))
    (bindS (getS (\<lambda>s. file_bytes s p)) (\<lambda>content.
     case content of
       None \<Rightarrow> throwS (Runtime_error ''cannot open file for BLAKE3'')
     | Some bytes \<Rightarrow>
        bindS next_fault (\<lambda>read_fault.
        thenS (guardS (read_fault \<noteq> None) (Runtime_error ''cannot read file for BLAKE3''))
        (returnS (blake3 bytes))))))"

definition sys_file_size :: "path \<Rightarrow> (FileSystem, nat option) op" where
  "sys_file_size p = bindS next_fault (\<lambda>f. getS (\<lambda>s.
     if f \<noteq> None then None else map_option length (file_bytes s p)))"

definition CommitPartial ::
  "(bytes \<Rightarrow> bytes) \<Rightarrow> SafeFileWriter \<Rightarrow> string \<Rightarrow> u64 \<Rightarrow> bytes \<Rightarrow> (FileSystem, unit) op" where
  "CommitPartial blake3 w relative_path expected_size expected_hash =
     bindS (resolve w relative_path) (\<lambda>destination.
     let part = ResumablePartPath destination in
     thenS (RejectSymlink destination ''destination file must not be a symlink'')
    (thenS (RejectSymlink part ''partial file must not be a symlink'')
    (bindS (sys_status part) (\<lambda>status.
     thenS (guardS (status \<noteq> stRegular) (Runtime_error ''partial download does not exist''))
    (bindS (sys_file_size part) (\<lambda>size.
     thenS (guardS (size \<noteq> Some (unat expected_size)) (Invalid_argument ''partial download size does not match''))
    (bindS (Blake3File blake3 part) (\<lambda>hash.
     thenS (guardS (hash \<noteq> expected_hash) (Invalid_argument ''partial download hash does not match''))
    (thenS (FlushPartFile part) (CommitPart part destination))))))))))"

definition RemoveFile :: "SafeFileWriter \<Rightarrow> string \<Rightarrow> (FileSystem, unit) op" where
  "RemoveFile w relative_path =
     bindS (resolve w relative_path) (\<lambda>destination.
     thenS (RejectSymlink destination ''destination file must not be a symlink'')
    (bindS (sys_status destination) (\<lambda>status.
     if status = stNotFound then returnS ()
     else thenS (guardS (status = stError) (Runtime_error ''cannot inspect destination file for deletion''))
       (thenS (guardS (status \<noteq> stRegular) (Invalid_argument ''destination deletion requires a regular file''))
       (remove_or_throw destination ''cannot delete synchronized file'')))))"

definition MoveFileToConflict :: "SafeFileWriter \<Rightarrow> string \<Rightarrow> string \<Rightarrow> (FileSystem, unit) op" where
  "MoveFileToConflict w relative_path conflict_relative_path =
     bindS (resolve w relative_path) (\<lambda>source.
     bindS (resolve w conflict_relative_path) (\<lambda>destination.
     thenS (guardS (source = destination) (Invalid_argument ''conflict destination must differ from source''))
    (thenS (RejectSymlink source ''conflict source file must not be a symlink'')
    (thenS (RejectSymlink destination ''conflict destination file must not be a symlink'')
    (bindS (sys_status source) (\<lambda>status.
     thenS (guardS (status \<noteq> stRegular) (Invalid_argument ''conflict source must be a regular file''))
    (bindS (sys_status destination) (\<lambda>status'.
     thenS (guardS (status' \<noteq> stNotFound) (Invalid_argument ''conflict destination already exists''))
    (thenS (EnsureSafeDirectory (butlast destination))
    (bindS (sys_move False source destination) (\<lambda>ok.
     guardS (\<not> ok) (Runtime_error ''cannot preserve conflict file''))))))))))))"

definition EnsureDirectory :: "SafeFileWriter \<Rightarrow> string \<Rightarrow> (FileSystem, unit) op" where
  "EnsureDirectory w relative_path =
     bindS (resolve w relative_path) (\<lambda>directory.
     bindS (sys_symlink_status directory) (\<lambda>status.
     thenS (guardS (status = stError) (Runtime_error ''cannot inspect synchronized directory''))
     (if status \<noteq> stNotFound
      then guardS (status \<noteq> stDirectory) (Invalid_argument ''synchronized directory path is unsafe'')
      else EnsureSafeDirectory directory)))"

definition RemoveEmptyDirectory :: "SafeFileWriter \<Rightarrow> string \<Rightarrow> (FileSystem, unit) op" where
  "RemoveEmptyDirectory w relative_path =
     bindS (resolve w relative_path) (\<lambda>directory.
     thenS (RejectSymlink directory ''synchronized directory must not be a symlink'')
    (bindS (sys_status directory) (\<lambda>status.
     if status = stNotFound then returnS ()
     else thenS (guardS (status = stError) (Runtime_error ''cannot inspect synchronized directory for deletion''))
       (thenS (guardS (status \<noteq> stDirectory) (Invalid_argument ''synchronized directory deletion requires a directory''))
       (remove_or_throw directory ''cannot delete non-empty synchronized directory'')))))"

end
