(* ===== verification/File_Writer_Safety.thy ===== *)
theory File_Writer_Safety
  imports Safe_File_Writer "HOL-Library.Sublist"
begin

text \<open>
  What the writer does to the file system: resolved paths lie below the task root, an atomic write
  shows the old or the new file and touches nothing else, a commit publishes exactly the verified
  bytes, and chunks written in any order make up the file.
\<close>

section \<open>System calls as weakest preconditions\<close>

lemma node_at_faults [simp]: "node_at (s\<lparr>fs_faults := fs\<rparr>) = node_at s"
  by (simp add: node_at_def)

lemma node_at_serial [simp]: "node_at (s\<lparr>fs_serial := n\<rparr>) = node_at s"
  by (simp add: node_at_def)

lemma set_node_fields [simp]:
  "fs_faults (set_node p n s) = fs_faults s" "fs_serial (set_node p n s) = fs_serial s"
  "fs_process_id (set_node p n s) = fs_process_id s"
  by (simp_all add: set_node_def)

lemma real_path_cong: "node_at t = node_at s \<Longrightarrow> real_path t p = real_path s p"
  and entry_path_cong: "node_at t = node_at s \<Longrightarrow> entry_path t p = entry_path s p"
  by (simp_all add: real_path_def entry_path_def split: walked.splits)

lemma paths_faults [simp]:
  "real_path (s\<lparr>fs_faults := fs\<rparr>) p = real_path s p" "entry_path (s\<lparr>fs_faults := fs\<rparr>) p = entry_path s p"
  "status_of (s\<lparr>fs_faults := fs\<rparr>) w = status_of s w" "file_bytes (s\<lparr>fs_faults := fs\<rparr>) p = file_bytes s p"
  "real_path (s\<lparr>fs_serial := n\<rparr>) p = real_path s p" "entry_path (s\<lparr>fs_serial := n\<rparr>) p = entry_path s p"
  "status_of (s\<lparr>fs_serial := n\<rparr>) w = status_of s w" "file_bytes (s\<lparr>fs_serial := n\<rparr>) p = file_bytes s p"
  by (simp_all add: real_path_def entry_path_def status_of_def file_bytes_def split: walked.splits)

text \<open>Each rule covers every fault schedule: the call fails, or it does what its definition says.\<close>

lemma wp_next_fault:
  assumes "\<And>f fs. Q (Inr f) (s\<lparr>fs_faults := fs\<rparr>)"
  shows "wp next_fault Q s"
proof (cases "fs_faults s")
  case Nil
  then have "s\<lparr>fs_faults := []\<rparr> = s" by simp
  with Nil assms [of None "[]"] show ?thesis by (simp add: wp_def next_fault_def)
next
  case (Cons f fs)
  with assms [of f fs] show ?thesis by (simp add: wp_def next_fault_def)
qed

lemma wp_symlink_status:
  assumes "\<And>fs. Q (Inr stError) (s\<lparr>fs_faults := fs\<rparr>)"
    and "\<And>fs. Q (Inr (status_of s (entry_path s p))) (s\<lparr>fs_faults := fs\<rparr>)"
  shows "wp (sys_symlink_status p) Q s"
  unfolding sys_symlink_status_def wp_bind using assms by (intro wp_next_fault) auto

lemma wp_status:
  assumes "\<And>fs. Q (Inr stError) (s\<lparr>fs_faults := fs\<rparr>)"
    and "\<And>fs. Q (Inr (status_of s (real_path s p))) (s\<lparr>fs_faults := fs\<rparr>)"
  shows "wp (sys_status p) Q s"
  unfolding sys_status_def wp_bind using assms by (intro wp_next_fault) auto

lemma wp_create_directory:
  assumes "\<And>fs. Q (Inr False) (s\<lparr>fs_faults := fs\<rparr>)"
    and "\<And>fs q. entry_path s p = At q \<Longrightarrow> node_at s q = None \<Longrightarrow>
      Q (Inr True) (set_node q Directory (s\<lparr>fs_faults := fs\<rparr>))"
  shows "wp (sys_create_directory p) Q s"
  unfolding sys_create_directory_def wp_bind using assms
  by (intro wp_next_fault) (auto simp: wp_def split: walked.splits)

lemma wp_create_file:
  assumes "\<And>fs. Q (Inr False) (s\<lparr>fs_faults := fs\<rparr>)"
    and "\<And>fs q. real_path s p = At q \<Longrightarrow> node_status (node_at s q) \<in> {stNotFound, stRegular} \<Longrightarrow>
      Q (Inr True) (set_node q (Regular []) (s\<lparr>fs_faults := fs\<rparr>))"
  shows "wp (sys_create_file p) Q s"
  unfolding sys_create_file_def wp_bind using assms
  by (intro wp_next_fault) (auto simp: wp_def split: walked.splits)

lemma wp_open:
  assumes "\<And>fs. Q (Inr False) (s\<lparr>fs_faults := fs\<rparr>)"
    and "\<And>fs b. file_bytes s p = Some b \<Longrightarrow> Q (Inr True) (s\<lparr>fs_faults := fs\<rparr>)"
  shows "wp (sys_open p) Q s"
proof -
  have "Q (Inr (f = None \<and> file_bytes s p \<noteq> None)) (s\<lparr>fs_faults := fs\<rparr>)" for f fs
    using assms by (cases "f = None \<and> file_bytes s p \<noteq> None") auto
  then show ?thesis unfolding sys_open_def wp_bind by (intro wp_next_fault) simp
qed

lemma wp_write:
  assumes "\<And>fs. Q (Inr False) (s\<lparr>fs_faults := fs\<rparr>)"
    and "\<And>fs q old k. real_path s p = At q \<Longrightarrow> node_at s q = Some (Regular old) \<Longrightarrow>
      Q (Inr False) (set_node q (Regular (overlay old off (take k bs))) (s\<lparr>fs_faults := fs\<rparr>))"
    and "\<And>fs q old. real_path s p = At q \<Longrightarrow> node_at s q = Some (Regular old) \<Longrightarrow>
      Q (Inr True) (set_node q (Regular (overlay old off bs)) (s\<lparr>fs_faults := fs\<rparr>))"
  shows "wp (sys_write p off bs) Q s"
  unfolding sys_write_def wp_bind using assms
  by (intro wp_next_fault) (auto simp: wp_def split: walked.splits option.splits node.splits)

lemma wp_flush:
  assumes "\<And>b fs. Q (Inr b) (s\<lparr>fs_faults := fs\<rparr>)"
  shows "wp sys_flush Q s"
  unfolding sys_flush_def wp_bind using assms by (intro wp_next_fault) simp

lemma wp_move:
  assumes "\<And>fs. Q (Inr False) (s\<lparr>fs_faults := fs\<rparr>)"
    and "\<And>fs q r n. entry_path s src = At q \<Longrightarrow> entry_path s dst = At r \<Longrightarrow> node_at s q = Some n \<Longrightarrow>
      n \<noteq> Directory \<Longrightarrow> node_at s r = None \<or> replace_existing \<and> node_at s r \<noteq> Some Directory \<Longrightarrow>
      Q (Inr True) (set_node r n (del_node q (s\<lparr>fs_faults := fs\<rparr>)))"
  shows "wp (sys_move replace_existing src dst) Q s"
  unfolding sys_move_def wp_bind using assms
  by (intro wp_next_fault) (auto simp: wp_def split: walked.splits option.splits node.splits)

lemma wp_remove:
  assumes "\<And>r fs. Q (Inr r) (s\<lparr>fs_faults := fs\<rparr>)"
    and "\<And>fs q n. entry_path s p = At q \<Longrightarrow> node_at s q = Some n \<Longrightarrow>
      Q (Inr (Some True)) (del_node q (s\<lparr>fs_faults := fs\<rparr>))"
  shows "wp (sys_remove p) Q s"
  unfolding sys_remove_def wp_bind using assms
  by (intro wp_next_fault) (auto simp: wp_def split: walked.splits option.splits node.splits)

section \<open>Real directories\<close>

text \<open>Every prefix of the path is a directory, so that walking it follows no link.\<close>

definition real_dirs :: "(path \<Rightarrow> node option) \<Rightarrow> path \<Rightarrow> bool" where
  "real_dirs nodes d \<longleftrightarrow> (\<forall>i < length d. nodes (take (Suc i) d) = Some Directory)"

lemma real_dirs_Nil [simp]: "real_dirs nodes []"
  by (simp add: real_dirs_def)

lemma real_dirs_snoc [simp]:
  "real_dirs nodes (d @ [c]) \<longleftrightarrow> real_dirs nodes d \<and> nodes (d @ [c]) = Some Directory"
  by (auto simp: real_dirs_def less_Suc_eq)

lemma real_dirs_append: "real_dirs nodes (d @ e) \<Longrightarrow> real_dirs nodes d"
  by (induction e rule: rev_induct) (auto simp flip: append_assoc)

lemma walk_dirs:
  assumes "\<forall>i < length cs. nodes (cur @ take (Suc i) cs) = Some Directory"
  shows "walk k nodes cur (cs @ rest) = walk k nodes (cur @ cs) rest"
  using assms
proof (induction cs arbitrary: cur)
  case (Cons c cs)
  have "nodes (cur @ [c]) = Some Directory" using Cons.prems by (auto dest: spec [of _ 0])
  moreover have "\<forall>i < length cs. nodes ((cur @ [c]) @ take (Suc i) cs) = Some Directory"
    using Cons.prems by (auto dest: spec [of _ "Suc _"])
  ultimately show ?case using Cons.IH [of "cur @ [c]"] by simp
qed simp

lemma walk_real: "real_dirs nodes d \<Longrightarrow> walk k nodes [] (d @ rest) = walk k nodes d rest"
  using walk_dirs [of d nodes "[]" k rest] by (simp add: real_dirs_def)

lemma walk_real_dir: "real_dirs nodes d \<Longrightarrow> walk k nodes [] d = At d"
  using walk_real [of nodes d k "[]"] by simp

lemma real_dirs_last: "real_dirs nodes d \<Longrightarrow> d = [] \<or> nodes d = Some Directory"
  by (cases d rule: rev_cases) simp_all

lemma entry_path_real [simp]:
  "real_dirs (node_at s) d \<Longrightarrow> entry_path s (d @ [c]) = At (d @ [c])"
  using real_dirs_last [of "node_at s" d] by (auto simp: entry_path_def walk_real_dir)

lemma real_path_real:
  assumes "real_dirs (node_at s) d" "\<forall>t. node_at s (d @ [c]) \<noteq> Some (Symlink t)"
  shows "real_path s (d @ [c]) = At (d @ [c])"
  using assms by (auto simp: real_path_def walk_real split: option.splits node.splits)

lemma real_path_dir: "real_dirs (node_at s) d \<Longrightarrow> real_path s d = At d"
  by (simp add: real_path_def walk_real_dir)

section \<open>Resolved paths\<close>

text \<open>The form that \<^verbatim>\<open>weakly_canonical\<close> documents: absolute and without dot components.\<close>

definition canonical_root :: "path \<Rightarrow> bool" where
  "canonical_root root \<longleftrightarrow> root \<noteq> [] \<and> (\<forall>c \<in> set root. c \<noteq> [] \<and> c \<noteq> ''.'' \<and> c \<noteq> ''..'')"

definition safe_relative :: "string \<Rightarrow> bool" where
  "safe_relative rel \<longleftrightarrow> \<not> is_rooted rel \<and> path_components rel \<noteq> [] \<and>
     (\<forall>c \<in> set (path_components rel). check_component c = Inr ())"

lemma check_component_plain:
  "check_component c = Inr () \<Longrightarrow> c \<noteq> [] \<and> c \<noteq> ''.'' \<and> c \<noteq> ''..'' \<and> CHR '':'' \<notin> set c \<and> (\<forall>x \<in> set c. \<not> is_control x)"
  by (auto simp: check_component_def split: if_splits)

lemma foldE_check:
  "foldE (\<lambda>c _. check_component c) cs () = Inr () \<longleftrightarrow> (\<forall>c \<in> set cs. check_component c = Inr ())"
  by (induction cs) (auto simp: result_iff)

lemma normal_from_plain:
  "\<forall>c \<in> set cs. c \<noteq> ''.'' \<and> c \<noteq> ''..'' \<Longrightarrow> normal_from acc cs = rev acc @ cs"
  by (induction cs arbitrary: acc) auto

lemma strip_common_append: "strip_common (xs @ ys) xs = (ys, [])"
  by (induction xs) (cases ys; simp)+

lemma strip_common_self_append: "strip_common (xs @ y # ys) xs = (y # ys, [])"
  by (induction xs) simp_all

lemma IsDescendant_append:
  assumes "root \<noteq> []" "cs \<noteq> []" "''..'' \<notin> set cs"
  shows "IsDescendant root (root @ cs)"
  using assms by (cases cs) (auto simp: IsDescendant_def lexically_relative_def strip_common_append Let_def)

lemma components_no_separator:
  "c \<in> set (path_components text) \<Longrightarrow> \<not> (\<exists>x \<in> set c. is_separator x)"
proof -
  assume "c \<in> set (path_components text)"
  let ?t = "map (\<lambda>c. if is_separator c then CHR ''/'' else c) text"
  have slash: "CHR 0x5C \<notin> set ?t" by auto
  have pieces: "set p \<subseteq> set ?t" if "p \<in> set (split_on CHR ''/'' ?t)" for p
  proof -
    have "set (join_with CHR ''/'' ps) \<supseteq> set p" if "p \<in> set ps" for ps :: "string list"
      using that by (induction ps rule: join_with.induct) auto
    then show ?thesis using that join_split_on by metis
  qed
  show ?thesis
    using \<open>c \<in> set (path_components text)\<close> split_on_pieces [of c "CHR ''/''" ?t] pieces slash
    unfolding path_components_def Let_def by (auto split: if_splits)
qed

lemma wp_resolve:
  assumes "wr_canonical w (wr_task_root w) = Some root" "canonical_root root"
    and "\<And>e fs. Q (Inl e) (s\<lparr>fs_faults := fs\<rparr>)"
    and "\<And>fs. safe_relative rel \<Longrightarrow> Q (Inr (root @ path_components rel)) (s\<lparr>fs_faults := fs\<rparr>)"
  shows "wp (resolve w rel) Q s"
proof -
  have self: "Q (Inl e) s" for e using assms(3) [of e "fs_faults s"] by simp
  have checks: "foldE (\<lambda>c _. check_component c) (path_components rel) () = Inr () \<Longrightarrow>
      lexically_normal (root @ path_components rel) = root @ path_components rel"
    using assms(2) check_component_plain
    unfolding foldE_check lexically_normal_def canonical_root_def
    by (subst normal_from_plain) auto
  have safe: "foldE (\<lambda>c _. check_component c) (path_components rel) () = Inr () \<Longrightarrow> \<not> is_rooted rel \<Longrightarrow>
      path_components rel \<noteq> [] \<Longrightarrow> safe_relative rel"
    by (simp add: safe_relative_def foldE_check)
  show ?thesis
  proof (cases "wr_task_root w = [] \<or> rel = []")
    case True
    then show ?thesis using self by (auto simp: ResolveTaskPath_def)
  next
    case False
    then show ?thesis
      using assms(1,3,4) checks safe
      by (simp add: ResolveTaskPath_def Let_def)
        (intro wp_status; cases "foldE (\<lambda>c _. check_component c) (path_components rel) ()"; auto)
  qed
qed

section \<open>Creating the parent directories\<close>

text \<open>Between \<open>s\<close> and \<open>t\<close> nothing changed, except that missing prefixes of \<open>d\<close> became directories.\<close>

definition dirs_added :: "path \<Rightarrow> FileSystem \<Rightarrow> FileSystem \<Rightarrow> bool" where
  "dirs_added d s t \<longleftrightarrow> fs_serial t = fs_serial s \<and> fs_process_id t = fs_process_id s \<and>
     (\<forall>q. node_at t q = node_at s q \<or> q \<noteq> [] \<and> prefix q d \<and> node_at s q = None \<and> node_at t q = Some Directory)"

lemma dirs_added_refl [simp]: "dirs_added d s (s\<lparr>fs_faults := fs\<rparr>)"
  by (simp add: dirs_added_def)

lemma dirs_added_trans:
  assumes "dirs_added d s t" "dirs_added e t u" "prefix d e"
  shows "dirs_added e s u"
proof -
  have "node_at u q = node_at s q \<or> q \<noteq> [] \<and> prefix q e \<and> node_at s q = None \<and> node_at u q = Some Directory" for q
    using assms prefix_order.trans unfolding dirs_added_def by (metis option.distinct(1))
  then show ?thesis using assms(1,2) by (auto simp: dirs_added_def)
qed

lemma dirs_added_faults [simp]:
  "dirs_added d (s\<lparr>fs_faults := fs\<rparr>) t = dirs_added d s t"
  by (simp add: dirs_added_def)

lemma dirs_added_keeps: "dirs_added d s t \<Longrightarrow> node_at s q = Some n \<Longrightarrow> node_at t q = Some n"
  unfolding dirs_added_def by (metis option.distinct(1))

lemma wp_ensure_component:
  assumes "real_dirs (node_at s) cur"
  shows "wp (ensure_component (cur @ [c]))
    (\<lambda>r t. dirs_added (cur @ [c]) s t \<and> (r = Inr () \<longrightarrow> real_dirs (node_at t) (cur @ [c]))) s"
proof -
  have keep: "real_dirs ((node_at s)(cur @ [c] \<mapsto> Directory)) cur"
    using assms by (auto simp: real_dirs_def)
  have added: "dirs_added (cur @ [c]) s (set_node (cur @ [c]) Directory (s\<lparr>fs_faults := fs\<rparr>))"
    if "node_at s (cur @ [c]) = None" for fs
    using that by (simp add: dirs_added_def)
  show ?thesis
    using assms keep added unfolding ensure_component_def wp_bind
    by (intro wp_symlink_status)
      (auto simp: status_of_def intro!: wp_create_directory split: option.splits node.splits
        elim!: node_status.elims)
qed

lemma wp_ensure_loop:
  assumes "real_dirs (node_at s) cur"
  shows "wp (ensure_loop cur cs)
    (\<lambda>r t. dirs_added (cur @ cs) s t \<and> (r = Inr () \<longrightarrow> real_dirs (node_at t) (cur @ cs))) s"
  using assms
proof (induction cs arbitrary: cur s)
  case Nil
  then show ?case using dirs_added_refl [of cur s "fs_faults s"] by simp
next
  case (Cons c cs)
  show ?case
    unfolding ensure_loop.simps wp_then
  proof (rule wp_mono [OF wp_ensure_component [OF Cons.prems, of c]])
    fix r :: "unit result" and t
    assume r: "dirs_added (cur @ [c]) s t \<and> (r = Inr () \<longrightarrow> real_dirs (node_at t) (cur @ [c]))"
    have prefix: "prefix (cur @ [c]) (cur @ c # cs)" by simp
    show "onward (\<lambda>r t. dirs_added (cur @ c # cs) s t \<and> (r = Inr () \<longrightarrow> real_dirs (node_at t) (cur @ c # cs)))
        (\<lambda>_. wp (ensure_loop (cur @ [c]) cs)
          (\<lambda>r t. dirs_added (cur @ c # cs) s t \<and> (r = Inr () \<longrightarrow> real_dirs (node_at t) (cur @ c # cs)))) r t"
    proof (cases r)
      case (Inl e)
      have "dirs_added (cur @ c # cs) t (t\<lparr>fs_faults := fs_faults t\<rparr>)" by (rule dirs_added_refl)
      with r Inl show ?thesis using dirs_added_trans [OF _ _ prefix] by auto
    next
      case (Inr u)
      with r have "wp (ensure_loop (cur @ [c]) cs)
        (\<lambda>r t'. dirs_added ((cur @ [c]) @ cs) t t' \<and> (r = Inr () \<longrightarrow> real_dirs (node_at t') ((cur @ [c]) @ cs))) t"
        by (intro Cons.IH) simp
      then show ?thesis
        using r Inr dirs_added_trans [OF _ _ prefix] by (auto elim!: wp_mono)
    qed
  qed
qed

lemma wp_EnsureSafeDirectory:
  assumes "real_dirs (node_at s) root" "root \<noteq> []"
  shows "wp (EnsureSafeDirectory (root @ cs))
    (\<lambda>r t. dirs_added (root @ cs) s t \<and> (r = Inr () \<longrightarrow> real_dirs (node_at t) (root @ cs))) s"
proof -
  have "real_dirs (node_at s) (take 1 root)"
    using assms by (cases root) (auto simp: real_dirs_def)
  from wp_ensure_loop [OF this, of "drop 1 root @ cs"] show ?thesis
    using assms(2) by (cases root) (simp_all add: EnsureSafeDirectory_def)
qed

section \<open>Atomic writes\<close>

lemma real_dirs_below: "real_dirs nodes d \<Longrightarrow> real_dirs (nodes(d @ [c] := x)) d"
proof -
  have "take (Suc i) d \<noteq> d @ [c]" for i
    by (metis append_take_drop_id length_append_singleton length_take min.cobounded1 not_less_eq_eq order_refl)
  then show "real_dirs nodes d \<Longrightarrow> real_dirs (nodes(d @ [c] := x)) d" by (simp add: real_dirs_def)
qed

lemma wp_FlushPartFile:
  assumes "\<And>e fs. Q (Inl e) (s\<lparr>fs_faults := fs\<rparr>)" "\<And>fs. Q (Inr ()) (s\<lparr>fs_faults := fs\<rparr>)"
  shows "wp (FlushPartFile part) Q s"
  unfolding FlushPartFile_def wp_bind
proof (rule wp_open)
  have again: "wp sys_flush (onward Q (\<lambda>flushed. wp (guardS (\<not> flushed) e) Q)) (s\<lparr>fs_faults := fs\<rparr>)" for fs e
    using assms by (intro wp_flush) simp
  fix fs b
  show "onward Q (\<lambda>opened. wp (thenS (guardS (\<not> opened) (Runtime_error ''cannot reopen partial download for flush''))
      (bindS sys_flush (\<lambda>flushed. guardS (\<not> flushed) (Runtime_error ''cannot flush partial download'')))) Q)
      (Inr True) (s\<lparr>fs_faults := fs\<rparr>)"
    using again by simp
qed (use assms in simp)

lemma wp_RejectSymlink:
  assumes "\<And>e fs. Q (Inl e) (s\<lparr>fs_faults := fs\<rparr>)"
    and "\<And>fs. status_of s (entry_path s p) \<notin> {stError, stSymlink} \<Longrightarrow> Q (Inr ()) (s\<lparr>fs_faults := fs\<rparr>)"
  shows "wp (RejectSymlink p message) Q s"
  unfolding RejectSymlink_def wp_bind using assms by (intro wp_symlink_status) auto

lemma wp_CommitPart:
  assumes "\<And>e fs. Q (Inl e) (s\<lparr>fs_faults := fs\<rparr>)"
    and "\<And>fs n. node_at s (d @ [p]) = Some n \<Longrightarrow> n \<noteq> Directory \<Longrightarrow> node_at s (d @ [c]) \<noteq> Some Directory \<Longrightarrow>
      Q (Inr ()) (set_node (d @ [c]) n (del_node (d @ [p]) (s\<lparr>fs_faults := fs\<rparr>)))"
    and "real_dirs (node_at s) d"
  shows "wp (CommitPart (d @ [p]) (d @ [c])) Q s"
  unfolding CommitPart_def wp_bind using assms by (intro wp_move) auto

text \<open>
  Writing the temporary file and renaming it: a throw leaves at most the temporary file behind, a
  return has replaced the destination and only the destination.
\<close>

lemma wp_write_part:
  assumes "real_dirs (node_at s) d" "\<forall>x. node_at s (d @ [p]) \<noteq> Some (Symlink x)" "p \<noteq> c"
    and throw: "\<And>e t. node_at t = node_at s \<or> (\<exists>x. node_at t = (node_at s)(d @ [p] \<mapsto> Regular x)) \<Longrightarrow> Q (Inl e) t"
    and return: "\<And>t. node_at t = (node_at s)(d @ [p] := None, d @ [c] \<mapsto> Regular bs) \<Longrightarrow> Q (Inr ()) t"
  shows "wp (write_part (d @ [p]) (d @ [c]) bs) Q s"
proof -
  have finish: "wp (thenS (FlushPartFile (d @ [p])) (CommitPart (d @ [p]) (d @ [c]))) Q t"
    if t: "node_at t = (node_at s)(d @ [p] \<mapsto> Regular bs)" for t
  proof -
    have "wp (CommitPart (d @ [p]) (d @ [c])) Q (t\<lparr>fs_faults := fs\<rparr>)" for fs
    proof (rule wp_CommitPart)
      fix e fs'
      show "Q (Inl e) (t\<lparr>fs_faults := fs, fs_faults := fs'\<rparr>)" by (rule throw) (auto simp: t)
    next
      fix fs' n
      assume "node_at (t\<lparr>fs_faults := fs\<rparr>) (d @ [p]) = Some n"
      then show "Q (Inr ()) (set_node (d @ [c]) n (del_node (d @ [p]) (t\<lparr>fs_faults := fs, fs_faults := fs'\<rparr>)))"
        using assms(2,3) by (intro return) (auto simp: t fun_eq_iff)
    qed (simp add: t real_dirs_below [OF assms(1)])
    moreover have "Q (Inl e) (t\<lparr>fs_faults := fs\<rparr>)" for e fs by (rule throw) (auto simp: t)
    ultimately show ?thesis by (auto intro!: wp_FlushPartFile)
  qed
  have partial: "node_at t = (node_at s)(d @ [p] \<mapsto> Regular x) \<Longrightarrow> Q (Inl e) t" for t x e
    by (rule throw) auto
  have fill: "wp (sys_write (d @ [p]) 0 bs)
      (onward Q (\<lambda>written. wp (thenS (guardS (\<not> written) e)
        (thenS (FlushPartFile (d @ [p])) (CommitPart (d @ [p]) (d @ [c])))) Q)) t"
    if t: "node_at t = (node_at s)(d @ [p] \<mapsto> Regular [])" for t e
  proof -
    have at: "real_path t (d @ [p]) = At (d @ [p])"
      using assms(1) t by (intro real_path_real) (auto simp: real_dirs_below)
    show ?thesis
      using at t finish partial by (intro wp_write) (auto simp: overlay_def)
  qed
  have at: "real_path s (d @ [p]) = At (d @ [p])"
    using assms(1,2) by (intro real_path_real) auto
  show ?thesis
    unfolding write_part_def wp_bind
    using at throw finish fill by (intro wp_create_file) auto
qed

text \<open>
  The temporary file of the next atomic write to \<open>dest\<close>.  Its name can be predicted, and the code does not look whether an entry
  bears it already: a left-over file is overwritten, a link is followed.
\<close>

definition part_suffix :: "FileSystem \<Rightarrow> string" where
  "part_suffix s = ''.veritassync.'' @ to_string (fs_process_id s) @ ''.'' @ to_string (unat (fs_serial s)) @ ''.part''"

definition part_of :: "FileSystem \<Rightarrow> path \<Rightarrow> path" where
  "part_of s dest = butlast dest @ [last dest @ part_suffix s]"

definition plain_part :: "FileSystem \<Rightarrow> path \<Rightarrow> bool" where
  "plain_part s dest \<longleftrightarrow> (\<forall>x. node_at s (part_of s dest) \<noteq> Some (Symlink x))"

lemma part_of_snoc [simp]: "part_of s (d @ [c]) = d @ [c @ part_suffix s]"
  by (simp add: part_of_def)

lemma part_faults [simp]: "part_suffix (s\<lparr>fs_faults := fs\<rparr>) = part_suffix s" "part_of (s\<lparr>fs_faults := fs\<rparr>) = part_of s"
  "plain_part (s\<lparr>fs_faults := fs\<rparr>) = plain_part s"
  by (simp_all add: part_suffix_def part_of_def plain_part_def fun_eq_iff)

lemma part_suffix_nonempty [simp]: "part_suffix s \<noteq> []"
  by (simp add: part_suffix_def)

text \<open>What an atomic write to \<open>dest\<close> may change: see the property below.\<close>

definition atomic_effect :: "path \<Rightarrow> path \<Rightarrow> bytes \<Rightarrow> FileSystem \<Rightarrow> unit result \<Rightarrow> FileSystem \<Rightarrow> bool" where
  "atomic_effect root dest bs s r t \<longleftrightarrow>
     node_at t dest = (if r = Inr () then Some (Regular bs) else node_at s dest) \<and>
     (r = Inr () \<longrightarrow> node_at t (part_of s dest) = None) \<and>
     (\<forall>q. q \<noteq> dest \<and> node_at t q \<noteq> node_at s q \<longrightarrow>
        strict_prefix root q \<and>
        (strict_prefix q dest \<and> node_at s q = None \<and> node_at t q = Some Directory \<or>
         q = part_of s dest \<and> (\<forall>x. node_at t q \<noteq> Some (Symlink x))))"

lemma dirs_added_outside:
  assumes "dirs_added d s t" "prefix root d" "real_dirs (node_at s) root" "node_at t q \<noteq> node_at s q"
  shows "strict_prefix root q \<and> prefix q d \<and> node_at s q = None \<and> node_at t q = Some Directory"
proof -
  have q: "q \<noteq> []" "prefix q d" "node_at s q = None" "node_at t q = Some Directory"
    using assms(1,4) unfolding dirs_added_def by blast+
  have "\<not> prefix q root"
  proof
    assume "prefix q root"
    then obtain zs where "root = q @ zs" by (rule prefixE)
    then have "q = take (length q) root" "length q \<le> length root" by simp_all
    moreover from q(1) obtain i where "length q = Suc i" by (cases q) auto
    ultimately have "node_at s q = Some Directory" using assms(3) unfolding real_dirs_def by (metis Suc_le_lessD)
    with q(3) show False by simp
  qed
  then have "strict_prefix root q" using prefix_same_cases [OF q(2) assms(2)] by (auto simp: strict_prefix_def)
  with q show ?thesis by blast
qed

lemma dirs_added_beyond:
  assumes "dirs_added d s t"
  shows "node_at t (d @ [x]) = node_at s (d @ [x])"
  using assms unfolding dirs_added_def
  by (metis append_prefixD length_append_singleton not_less_eq_eq order_refl prefix_length_le)

lemma atomic_effect_intros:
  assumes "dirs_added d s t" "prefix root d" "real_dirs (node_at s) root"
  shows "node_at u = node_at t \<or> (\<exists>v. (\<forall>x. v \<noteq> Some (Symlink x)) \<and> node_at u = (node_at t)(d @ [c @ part_suffix s] := v)) \<Longrightarrow>
      atomic_effect root (d @ [c]) bs s (Inl ex) u" (is "?throw \<Longrightarrow> _")
    and "node_at u = (node_at t)(d @ [c @ part_suffix s] := None, d @ [c] \<mapsto> Regular bs) \<Longrightarrow>
      atomic_effect root (d @ [c]) bs s (Inr ()) u"
proof -
  have sub: "strict_prefix q (d @ [c])" if "prefix q d" for q
    using that by (auto simp: strict_prefix_def prefix_def)
  have below: "strict_prefix root (d @ [x])" for x
    using assms(2) by (auto simp: strict_prefix_def prefix_def)
  note out = dirs_added_outside [OF assms(1-3)] and same = dirs_added_beyond [OF assms(1)]
  let ?p = "d @ [c @ part_suffix s]"
  have others: "\<forall>q. q \<noteq> d @ [c] \<and> node_at u q \<noteq> node_at s q \<longrightarrow> strict_prefix root q \<and>
      (strict_prefix q (d @ [c]) \<and> node_at s q = None \<and> node_at u q = Some Directory \<or>
       q = part_of s (d @ [c]) \<and> (\<forall>x. node_at u q \<noteq> Some (Symlink x)))"
    if u: "\<forall>q. q \<noteq> d @ [c] \<and> q \<noteq> ?p \<longrightarrow> node_at u q = node_at t q"
      "node_at u ?p = node_at s ?p \<or> (\<forall>x. node_at u ?p \<noteq> Some (Symlink x))" for u
  proof (intro allI impI)
    fix q assume q: "q \<noteq> d @ [c] \<and> node_at u q \<noteq> node_at s q"
    show "strict_prefix root q \<and> (strict_prefix q (d @ [c]) \<and> node_at s q = None \<and> node_at u q = Some Directory \<or>
        q = part_of s (d @ [c]) \<and> (\<forall>x. node_at u q \<noteq> Some (Symlink x)))"
    proof (cases "q = ?p")
      case True
      then show ?thesis using q u(2) below by auto
    next
      case False
      then have "node_at u q = node_at t q" using q u(1) by blast
      then show ?thesis using q out [of q] sub by auto
    qed
  qed
  show "atomic_effect root (d @ [c]) bs s (Inl ex) u" if ?throw
    using that others [of u] same [of c] same [of "c @ part_suffix s"] unfolding atomic_effect_def by fastforce
  show "atomic_effect root (d @ [c]) bs s (Inr ()) u" if "node_at u = (node_at t)(?p := None, d @ [c] \<mapsto> Regular bs)"
    using that others [of u] unfolding atomic_effect_def by simp
qed

text \<open>The operation from the symbolic-link check of the destination on.\<close>

definition replace_file :: "path \<Rightarrow> bytes \<Rightarrow> (FileSystem, unit) op" where
  "replace_file destination bs =
     thenS (RejectSymlink destination ''destination file must not be a symlink'')
      (bindS (MakePartPath destination) (\<lambda>part.
       catchS (write_part part destination bs) (\<lambda>e. thenS (sys_remove part) (throwS e))))"

lemma wp_replace_file:
  assumes "dirs_added d s t" "prefix root d" "real_dirs (node_at s) root" "plain_part s (d @ [c])"
    and real: "real_dirs (node_at t) d"
  shows "wp (replace_file (d @ [c]) bs) (atomic_effect root (d @ [c]) bs s) t"
proof -
  let ?Q = "atomic_effect root (d @ [c]) bs s" and ?p = "c @ part_suffix s"
  note intros = atomic_effect_intros [OF assms(1-3), of _ c]
  have ids: "fs_serial t = fs_serial s" "fs_process_id t = fs_process_id s"
    using assms(1) by (simp_all add: dirs_added_def)
  have plain: "\<forall>x. node_at t (d @ [?p]) \<noteq> Some (Symlink x)"
    using assms(4) dirs_added_beyond [OF assms(1)] by (simp add: plain_part_def)
  have "?p \<noteq> c" by (simp add: part_suffix_def)
  have clean: "wp (thenS (sys_remove (d @ [?p])) (throwS ex)) ?Q u"
    if u: "node_at u = node_at t \<or> (\<exists>x. node_at u = (node_at t)(d @ [?p] \<mapsto> Regular x))" for u ex
  proof -
    have entry: "entry_path u (d @ [?p]) = At (d @ [?p])"
      using u real real_dirs_below by (metis entry_path_real)
    have gone: "node_at (del_node (d @ [?p]) (u\<lparr>fs_faults := fs\<rparr>)) = (node_at t)(d @ [?p] := None)" for fs
      using u by auto
    show ?thesis
      unfolding wp_then
    proof (rule wp_remove)
      fix r fs
      show "onward ?Q (\<lambda>_. wp (throwS ex) ?Q) (Inr r) (u\<lparr>fs_faults := fs\<rparr>)"
        using u by (auto intro!: intros(1))
    next
      fix fs q n
      assume "entry_path u (d @ [?p]) = At q"
      then show "onward ?Q (\<lambda>_. wp (throwS ex) ?Q) (Inr (Some True)) (del_node q (u\<lparr>fs_faults := fs\<rparr>))"
        using entry gone [of fs] by (auto intro!: intros(1))
    qed
  qed
  have main: "wp (write_part (d @ [?p]) (d @ [c]) bs)
      (\<lambda>r u. case r of Inl ex \<Rightarrow> wp (thenS (sys_remove (d @ [?p])) (throwS ex)) ?Q u | Inr x \<Rightarrow> ?Q (Inr x) u)
      (t\<lparr>fs_faults := fs', fs_serial := fs_serial t + 1\<rparr>)" for fs'
    by (rule wp_write_part) (use real plain \<open>?p \<noteq> c\<close> clean intros(2) in simp_all)
  have make: "wp (MakePartPath (d @ [c])) P (t\<lparr>fs_faults := fs'\<rparr>) =
      P (Inr (d @ [?p])) (t\<lparr>fs_faults := fs', fs_serial := fs_serial t + 1\<rparr>)" for P fs'
    by (simp add: wp_def MakePartPath_def part_suffix_def ids)
  show ?thesis
    unfolding replace_file_def wp_then using main make by (intro wp_RejectSymlink) (simp_all add: intros(1) del: wp_then)
qed

lemma wp_WriteAtomically:
  assumes "wr_canonical w (wr_task_root w) = Some root" "canonical_root root"
    and "real_dirs (node_at s) root" "plain_part s (root @ path_components rel)"
  shows "wp (WriteAtomically w rel bs) (atomic_effect root (root @ path_components rel) bs s) s"
proof -
  let ?Q = "atomic_effect root (root @ path_components rel) bs s"
  have run: "wp (thenS (EnsureSafeDirectory (butlast (root @ path_components rel)))
      (replace_file (root @ path_components rel) bs)) ?Q (s\<lparr>fs_faults := fs\<rparr>)"
    if "safe_relative rel" for fs
  proof -
    from that obtain e c where comps: "path_components rel = e @ [c]"
      unfolding safe_relative_def by (metis rev_exhaust)
    define d where "d = root @ e"
    have dest: "root @ path_components rel = d @ [c]" by (simp add: comps d_def)
    have "prefix root d" by (simp add: d_def)
    have root: "real_dirs (node_at (s\<lparr>fs_faults := fs\<rparr>)) root" "root \<noteq> []"
      using assms(2,3) by (simp_all add: canonical_root_def)
    show ?thesis
      unfolding wp_then dest butlast_snoc
    proof (rule wp_mono [OF wp_EnsureSafeDirectory [OF root, of e, folded d_def]])
      fix r :: "unit result" and t
      assume "dirs_added d (s\<lparr>fs_faults := fs\<rparr>) t \<and> (r = Inr () \<longrightarrow> real_dirs (node_at t) d)"
      then show "onward (atomic_effect root (d @ [c]) bs s)
          (\<lambda>_. wp (replace_file (d @ [c]) bs) (atomic_effect root (d @ [c]) bs s)) r t"
        using wp_replace_file [OF _ \<open>prefix root d\<close> assms(3) assms(4) [unfolded dest]]
          atomic_effect_intros(1) [OF _ \<open>prefix root d\<close> assms(3)] by (cases r) simp_all
    qed
  qed
  have split: "WriteAtomically w rel bs = bindS (resolve w rel)
      (\<lambda>destination. thenS (EnsureSafeDirectory (butlast destination)) (replace_file destination bs))"
    by (simp add: WriteAtomically_def replace_file_def)
  show ?thesis
    unfolding split wp_bind
    by (rule wp_resolve [OF assms(1,2)]) (simp add: atomic_effect_def, use run in simp)
qed

end
