(* ===== verification/File_Writer_Properties.thy ===== *)
theory File_Writer_Properties
  imports File_Writer_Safety
begin

text \<open>The properties of the file writer, with their witnesses on small file systems.\<close>

section \<open>Runs without system failures\<close>

lemma next_fault_ok [simp]: "fs_faults s = [] \<Longrightarrow> next_fault s = (Inr None, s)"
  by (simp add: next_fault_def)

lemma sys_ok [simp]:
  assumes "fs_faults s = []"
  shows "sys_symlink_status p s = (Inr (status_of s (entry_path s p)), s)"
    and "sys_status p s = (Inr (status_of s (real_path s p)), s)"
    and "sys_open p s = (Inr (file_bytes s p \<noteq> None), s)"
    and "sys_flush s = (Inr True, s)"
    and "sys_file_size p s = (Inr (map_option length (file_bytes s p)), s)"
  using assms
  by (simp_all add: sys_symlink_status_def sys_status_def sys_open_def sys_flush_def sys_file_size_def op_defs)

lemma resolve_ok:
  assumes "wr_canonical w (wr_task_root w) = Some root" "canonical_root root" "wr_task_root w \<noteq> []"
    and "real_dirs (node_at s) root" "fs_faults s = []"
  shows "resolve w rel s = (Inr p, s) \<longleftrightarrow> safe_relative rel \<and> p = root @ path_components rel"
proof
  assume "resolve w rel s = (Inr p, s)"
  moreover have "wp (resolve w rel) (\<lambda>r t. case r of Inl _ \<Rightarrow> True
      | Inr p \<Rightarrow> safe_relative rel \<and> p = root @ path_components rel) s"
    by (rule wp_resolve [OF assms(1,2)]) simp_all
  ultimately show "safe_relative rel \<and> p = root @ path_components rel" by (simp add: wp_def)
next
  assume p: "safe_relative rel \<and> p = root @ path_components rel"
  then have plain: "''..'' \<notin> set (path_components rel)" "''.'' \<notin> set (path_components rel)" "path_components rel \<noteq> []"
    and "foldE (\<lambda>c _. check_component c) (path_components rel) () = Inr ()"
    using check_component_plain by (auto simp: safe_relative_def foldE_check)
  moreover have "lexically_normal p = p"
    using p plain assms(2) unfolding lexically_normal_def canonical_root_def by (subst normal_from_plain) auto
  moreover have "IsDescendant root (root @ path_components rel)"
    using plain assms(2) by (intro IsDescendant_append) (auto simp: canonical_root_def)
  moreover have "rel \<noteq> []" using plain(3) by (auto simp: path_components_def)
  moreover have "status_of s (real_path s root) = stDirectory"
    using assms(2,4) real_dirs_last [of "node_at s" root]
    by (auto simp: real_path_dir status_of_def canonical_root_def)
  ultimately show "resolve w rel s = (Inr p, s)"
    using p assms(1,3,5) by (simp add: ResolveTaskPath_def op_defs safe_relative_def)
qed

text \<open>
  A protocol-supplied path resolves exactly when it is rootless and every component is an ordinary
  name, and then to the task root followed by those components: none of them is empty, a dot or a
  dot-dot component, and none holds a separator, a colon or a control character, so the result lies
  below the task root.
\<close>

theorem resolve_task_path_contained:
  fixes w :: SafeFileWriter
  assumes "wr_canonical w (wr_task_root w) = Some root" "canonical_root root" "wr_task_root w \<noteq> []"
    and "real_dirs (node_at s) root" "fs_faults s = []"
  shows "(ResolveTaskPath (wr_canonical w) (wr_task_root w) rel s = (Inr p, s) \<longleftrightarrow>
      safe_relative rel \<and> p = root @ path_components rel) \<and>
    (safe_relative rel \<longrightarrow> path_components rel \<noteq> [] \<and>
      (\<forall>c \<in> set (path_components rel). c \<noteq> [] \<and> c \<noteq> ''.'' \<and> c \<noteq> ''..'' \<and>
        (\<forall>x \<in> set c. \<not> is_separator x \<and> x \<noteq> CHR '':'' \<and> \<not> is_control x)))"
proof -
  have "c \<noteq> [] \<and> c \<noteq> ''.'' \<and> c \<noteq> ''..'' \<and> (\<forall>x \<in> set c. \<not> is_separator x \<and> x \<noteq> CHR '':'' \<and> \<not> is_control x)"
    if "safe_relative rel" "c \<in> set (path_components rel)" for c
    using that check_component_plain [of c] components_no_separator [OF that(2)] by (auto simp: safe_relative_def)
  then show ?thesis using resolve_ok [OF assms] by (auto simp: safe_relative_def)
qed

definition demo_root :: path where "demo_root = [''C:/'', ''task'']"

definition demo_writer :: SafeFileWriter where
  "demo_writer = \<lparr>wr_task_root = ''C:/task'', wr_canonical = (\<lambda>t. if t = ''C:/task'' then Some demo_root else None)\<rparr>"

definition demo_fs :: FileSystem where
  "demo_fs = \<lparr>fs_entries = [([''C:/''], Directory), (demo_root, Directory), (demo_root @ [''a''], Regular [1, 2]),
     (demo_root @ [''b.part''], Regular [7, 8])],
     fs_faults = [], fs_process_id = 1, fs_serial = 0\<rparr>"

lemma demo_facts:
  "wr_canonical demo_writer (wr_task_root demo_writer) = Some demo_root" "canonical_root demo_root"
  "wr_task_root demo_writer \<noteq> []" "real_dirs (node_at demo_fs) demo_root" "fs_faults demo_fs = []"
  by (simp_all add: demo_writer_def demo_root_def canonical_root_def demo_fs_def real_dirs_def node_at_def less_Suc_eq)

theorem resolve_task_path_contained_witness:
  "(ResolveTaskPath (wr_canonical demo_writer) (wr_task_root demo_writer) ''x/y'' demo_fs = (Inr (demo_root @ [''x'', ''y'']), demo_fs) \<longleftrightarrow>
      safe_relative ''x/y'' \<and> demo_root @ [''x'', ''y''] = demo_root @ path_components ''x/y'')"
  using resolve_task_path_contained [OF demo_facts] by blast

text \<open>
  C1: an atomic write never exposes a partial file.  Let the task root be a real directory and let no link bear the name of the
  temporary file that the call is going to use, which the code does not check.  Then, whatever system calls fail on the way, the
  destination holds afterwards the new bytes if the call returned and exactly what it held before if it threw.  Everything else
  stays as it was, with two exceptions: missing directories on the way to the destination may now exist; and the entry with the
  temporary name, if there was one, may be overwritten or removed, after a return it is gone, after a throw a file may remain there.
  Nothing outside the task root changes.
\<close>

theorem write_atomically_all_or_nothing:
  assumes "wr_canonical w (wr_task_root w) = Some root" "canonical_root root"
    and "real_dirs (node_at s) root" "dest = root @ path_components rel" "plain_part s dest"
    and "WriteAtomically w rel bs s = (r, t)"
  shows "node_at t dest = (if r = Inr () then Some (Regular bs) else node_at s dest) \<and>
    (r = Inr () \<longrightarrow> node_at t (part_of s dest) = None) \<and>
    (\<forall>q. q \<noteq> dest \<and> node_at t q \<noteq> node_at s q \<longrightarrow>
      strict_prefix root q \<and>
      (strict_prefix q dest \<and> node_at s q = None \<and> node_at t q = Some Directory \<or>
       q = part_of s dest \<and> (\<forall>x. node_at t q \<noteq> Some (Symlink x))))"
  using wpD [OF wp_WriteAtomically [OF assms(1-3) assms(5) [unfolded assms(4)]] assms(6)] unfolding assms(4) atomic_effect_def .

theorem write_atomically_all_or_nothing_witness:
  "node_at (snd (WriteAtomically demo_writer ''d/x'' [9] demo_fs)) (demo_root @ [''d'', ''x'']) =
     (if fst (WriteAtomically demo_writer ''d/x'' [9] demo_fs) = Inr () then Some (Regular [9])
      else node_at demo_fs (demo_root @ [''d'', ''x'']))"
proof -
  have components: "path_components ''d/x'' = [''d'', ''x'']" by (simp add: path_components_def)
  moreover have "plain_part demo_fs (demo_root @ path_components ''d/x'')"
    by (simp add: components plain_part_def part_of_def demo_fs_def demo_root_def node_at_def)
  ultimately show ?thesis
    using write_atomically_all_or_nothing [OF demo_facts(1,2,4) refl _ prod.collapse [symmetric], of "''d/x''" "[9]"]
    by simp
qed

text \<open>
  Without that condition the write can leave the task root.  The temporary name consists of the process number and a counter, and
  the stream that creates the temporary file follows a link of that name: the bytes go to the link's target outside the root, and the
  rename then puts the link itself at the destination.
\<close>

theorem planted_link_redirects_write:
  "let s = \<lparr>fs_entries = [([''C:/''], Directory), (demo_root, Directory), ([''C:/'', ''other''], Directory),
         ([''C:/'', ''other'', ''f''], Regular [5]), (demo_root @ [''a.veritassync.1.0.part''], Symlink [''C:/'', ''other'', ''f''])],
         fs_faults = [], fs_process_id = 1, fs_serial = 0\<rparr>;
       t = snd (WriteAtomically demo_writer ''a'' [9] s) in
   fst (WriteAtomically demo_writer ''a'' [9] s) = Inr () \<and>
   node_at t [''C:/'', ''other'', ''f''] = Some (Regular [9]) \<and> node_at t (demo_root @ [''a'']) = Some (Symlink [''C:/'', ''other'', ''f''])"
  by code_simp

section \<open>Committing a download\<close>

lemma node_status_iff [simp]:
  "node_status n = stSymlink \<longleftrightarrow> (\<exists>x. n = Some (Symlink x))" "node_status n = stRegular \<longleftrightarrow> (\<exists>b. n = Some (Regular b))"
  "node_status n = stDirectory \<longleftrightarrow> n = Some Directory" "node_status n = stNotFound \<longleftrightarrow> n = None"
  "node_status n \<noteq> stError"
  by (cases n rule: node_status.cases; simp)+

lemma wp_Blake3File:
  assumes "\<And>e fs. Q (Inl e) (s\<lparr>fs_faults := fs\<rparr>)"
    and "\<And>b fs. file_bytes s p = Some b \<Longrightarrow> Q (Inr (blake3 b)) (s\<lparr>fs_faults := fs\<rparr>)"
  shows "wp (Blake3File blake3 p) Q s"
proof -
  have "wp next_fault (onward Q (\<lambda>read_fault. wp (thenS (guardS (read_fault \<noteq> None) e) (returnS (blake3 b))) Q))
      (s\<lparr>fs_faults := fs\<rparr>)" if "file_bytes s p = Some b" for fs b e
    using assms that by (intro wp_next_fault) auto
  then show ?thesis
    unfolding Blake3File_def wp_bind using assms(1) by (intro wp_next_fault) (auto split: option.splits)
qed

lemma wp_file_size:
  assumes "\<And>fs. Q (Inr None) (s\<lparr>fs_faults := fs\<rparr>)"
    and "\<And>b fs. file_bytes s p = Some b \<Longrightarrow> Q (Inr (Some (length b))) (s\<lparr>fs_faults := fs\<rparr>)"
  shows "wp (sys_file_size p) Q s"
  unfolding sys_file_size_def wp_bind
  by (intro wp_next_fault; cases "file_bytes s p") (use assms in auto)

lemma file_bytes_real:
  assumes "real_dirs (node_at s) d" "\<forall>x. node_at s (d @ [c]) \<noteq> Some (Symlink x)"
  shows "file_bytes s (d @ [c]) = Some b \<longleftrightarrow> node_at s (d @ [c]) = Some (Regular b)"
  using assms by (auto simp: file_bytes_def real_path_real split: option.splits node.splits)

definition commit_effect :: "(bytes \<Rightarrow> bytes) \<Rightarrow> path \<Rightarrow> path \<Rightarrow> nat \<Rightarrow> bytes \<Rightarrow> FileSystem \<Rightarrow> unit result \<Rightarrow> FileSystem \<Rightarrow> bool" where
  "commit_effect blake3 part dest len hash s r t \<longleftrightarrow>
     (if r = Inr ()
      then \<exists>content. node_at s part = Some (Regular content) \<and> length content = len \<and> blake3 content = hash \<and>
        node_at t = (node_at s)(part := None, dest \<mapsto> Regular content)
      else node_at t = node_at s)"

lemma commit_effect_faults [simp]:
  "commit_effect blake3 part dest len hash (s\<lparr>fs_faults := fs\<rparr>) = commit_effect blake3 part dest len hash s"
  by (intro ext) (simp add: commit_effect_def)

text \<open>The checks and the rename that follow the resolution of the path.\<close>

definition verify_and_commit :: "(bytes \<Rightarrow> bytes) \<Rightarrow> path \<Rightarrow> path \<Rightarrow> nat \<Rightarrow> bytes \<Rightarrow> (FileSystem, unit) op" where
  "verify_and_commit blake3 part destination expected_size expected_hash =
     bindS (sys_file_size part) (\<lambda>len.
     thenS (guardS (len \<noteq> Some expected_size) (Invalid_argument ''partial download size does not match''))
    (bindS (Blake3File blake3 part) (\<lambda>hash.
     thenS (guardS (hash \<noteq> expected_hash) (Invalid_argument ''partial download hash does not match''))
    (thenS (FlushPartFile part) (CommitPart part destination)))))"

lemma wp_verify_and_commit:
  assumes real: "real_dirs (node_at s) d" and plain: "\<forall>x. node_at s (d @ [p]) \<noteq> Some (Symlink x)" and "p \<noteq> c"
  shows "wp (verify_and_commit blake3 (d @ [p]) (d @ [c]) len hash) (commit_effect blake3 (d @ [p]) (d @ [c]) len hash s) s"
proof -
  let ?Q = "commit_effect blake3 (d @ [p]) (d @ [c]) len hash s"
  have throw: "?Q (Inl e) (s\<lparr>fs_faults := fs\<rparr>)" for e fs by (simp add: commit_effect_def)
  have commit: "wp (thenS (FlushPartFile (d @ [p])) (CommitPart (d @ [p]) (d @ [c]))) ?Q (s\<lparr>fs_faults := fs\<rparr>)"
    if "file_bytes s (d @ [p]) = Some b" "length b = len" "blake3 b = hash" for b fs
  proof -
    have b: "node_at s (d @ [p]) = Some (Regular b)" using that(1) file_bytes_real [OF real plain] by simp
    have "wp (CommitPart (d @ [p]) (d @ [c])) ?Q (s\<lparr>fs_faults := fs'\<rparr>)" for fs'
      using real b that(2,3) \<open>p \<noteq> c\<close> by (intro wp_CommitPart) (auto simp: commit_effect_def)
    then show ?thesis unfolding wp_then using throw by (intro wp_FlushPartFile) simp_all
  qed
  have hashed: "wp (Blake3File blake3 (d @ [p])) (onward ?Q (\<lambda>h. wp
      (thenS (guardS (h \<noteq> hash) (Invalid_argument ''partial download hash does not match''))
        (thenS (FlushPartFile (d @ [p])) (CommitPart (d @ [p]) (d @ [c])))) ?Q)) (s\<lparr>fs_faults := fs\<rparr>)"
    if "file_bytes s (d @ [p]) = Some b" "length b = len" for b fs
    using that throw commit by (intro wp_Blake3File) auto
  show ?thesis
    unfolding verify_and_commit_def wp_bind using throw hashed by (intro wp_file_size) auto
qed

lemma wp_CommitPartial:
  assumes "wr_canonical w (wr_task_root w) = Some root" "canonical_root root"
    and "root @ path_components rel = d @ [c]" "real_dirs (node_at s) d"
  shows "wp (CommitPartial blake3 w rel len hash)
    (commit_effect blake3 (d @ [c @ ''.part'']) (d @ [c]) (unat len) hash s) s"
proof -
  let ?p = "c @ ''.part''" let ?Q = "commit_effect blake3 (d @ [?p]) (d @ [c]) (unat len) hash s"
  have throw: "?Q (Inl e) (s\<lparr>fs_faults := fs\<rparr>)" for e fs by (simp add: commit_effect_def)
  have split: "CommitPartial blake3 w rel len hash = bindS (resolve w rel) (\<lambda>destination.
     let part = ResumablePartPath destination in
     thenS (RejectSymlink destination ''destination file must not be a symlink'')
    (thenS (RejectSymlink part ''partial file must not be a symlink'')
    (bindS (sys_status part) (\<lambda>status.
     thenS (guardS (status \<noteq> stRegular) (Runtime_error ''partial download does not exist''))
       (verify_and_commit blake3 part destination (unat len) hash)))))"
    by (simp add: CommitPartial_def verify_and_commit_def)
  have main: "wp (bindS (sys_status (d @ [?p])) (\<lambda>status.
      thenS (guardS (status \<noteq> stRegular) (Runtime_error ''partial download does not exist''))
       (verify_and_commit blake3 (d @ [?p]) (d @ [c]) (unat len) hash))) ?Q (s\<lparr>fs_faults := fs\<rparr>)"
    if "\<forall>x. node_at s (d @ [?p]) \<noteq> Some (Symlink x)" for fs
  proof -
    have "wp (verify_and_commit blake3 (d @ [?p]) (d @ [c]) (unat len) hash) ?Q (s\<lparr>fs_faults := fs'\<rparr>)" for fs'
      using wp_verify_and_commit [of "s\<lparr>fs_faults := fs'\<rparr>" d ?p c blake3 "unat len" hash] assms(4) that
      by simp
    then show ?thesis unfolding wp_bind using throw by (intro wp_status) auto
  qed
  have second: "wp (thenS (RejectSymlink (d @ [?p]) ''partial file must not be a symlink'')
      (bindS (sys_status (d @ [?p])) (\<lambda>status.
       thenS (guardS (status \<noteq> stRegular) (Runtime_error ''partial download does not exist''))
         (verify_and_commit blake3 (d @ [?p]) (d @ [c]) (unat len) hash)))) ?Q (s\<lparr>fs_faults := fs\<rparr>)" for fs
    unfolding wp_then using throw main assms(4)
    by (intro wp_RejectSymlink) (auto simp: status_of_def simp del: wp_bind)
  have first: "wp (thenS (RejectSymlink (d @ [c]) ''destination file must not be a symlink'')
      (thenS (RejectSymlink (d @ [?p]) ''partial file must not be a symlink'')
      (bindS (sys_status (d @ [?p])) (\<lambda>status.
       thenS (guardS (status \<noteq> stRegular) (Runtime_error ''partial download does not exist''))
         (verify_and_commit blake3 (d @ [?p]) (d @ [c]) (unat len) hash))))) ?Q (s\<lparr>fs_faults := fs\<rparr>)" for fs
    unfolding wp_then [of "RejectSymlink (d @ [c]) _"] using throw second
    by (intro wp_RejectSymlink) (simp_all del: wp_then)
  show ?thesis
    unfolding split wp_bind [of "resolve w rel"]
    by (rule wp_resolve [OF assms(1,2)])
      (use throw first in \<open>simp_all add: assms(3) ResumablePartPath_def Let_def del: wp_then\<close>)
qed

lemma CommitPartial_ok:
  assumes "wr_canonical w (wr_task_root w) = Some root" "canonical_root root" "wr_task_root w \<noteq> []"
    and "real_dirs (node_at s) root" "fs_faults s = []" "safe_relative rel"
    and dest: "root @ path_components rel = d @ [c]" and real: "real_dirs (node_at s) d"
    and part: "node_at s (d @ [c @ ''.part'']) = Some (Regular content)" "length content = unat len" "blake3 content = hash"
    and free: "node_at s (d @ [c]) = None \<or> (\<exists>b. node_at s (d @ [c]) = Some (Regular b))"
  shows "fst (CommitPartial blake3 w rel len hash s) = Inr ()"
proof -
  have resolved: "resolve w rel s = (Inr (d @ [c]), s)"
    using resolve_ok [OF assms(1-5), of rel "d @ [c]"] assms(6) dest by simp
  have place: "real_path s (d @ [c @ ''.part'']) = At (d @ [c @ ''.part''])"
    using real part(1) by (intro real_path_real) auto
  have held: "file_bytes s (d @ [c @ ''.part'']) = Some content"
    using place part(1) by (simp add: file_bytes_def)
  have statuses: "status_of s (entry_path s (d @ [c])) \<notin> {stError, stSymlink}"
    "status_of s (entry_path s (d @ [c @ ''.part''])) = stRegular" "status_of s (real_path s (d @ [c @ ''.part''])) = stRegular"
    using real free part(1) place by (auto simp: status_of_def)
  have move: "fst (sys_move True (d @ [c @ ''.part'']) (d @ [c]) s) = Inr True"
    using assms(5) real free part(1) by (auto simp: sys_move_def op_defs)
  show ?thesis
    using move statuses assms(5) part(2,3)
    by (auto simp: CommitPartial_def RejectSymlink_def Blake3File_def FlushPartFile_def CommitPart_def op_defs
        resolved ResumablePartPath_def held Let_def split: prod.splits)
qed

text \<open>
  C9: a download becomes visible only when it is complete and verified.  Let the directories on the way to the destination be real
  directories, not links, which the commit itself does not check.  Committing publishes, in one step, exactly the bytes of the
  partial file, whose length is the expected size and whose digest is the expected hash, and removes the partial file; if it throws,
  for whatever reason, no file has changed.  When no system call fails and the destination is absent or a regular file, it does
  succeed on every partial file that passes both checks.
\<close>

theorem commit_publishes_verified_bytes:
  fixes w :: SafeFileWriter
  assumes "wr_canonical w (wr_task_root w) = Some root" "canonical_root root" "wr_task_root w \<noteq> []"
    and "real_dirs (node_at s) root" "safe_relative rel"
    and "root @ path_components rel = d @ [c]" "real_dirs (node_at s) d"
    and "CommitPartial blake3 w rel len hash s = (r, t)"
  shows "(r = Inr () \<longrightarrow> (\<exists>content. node_at s (d @ [c @ ''.part'']) = Some (Regular content) \<and>
        length content = unat len \<and> blake3 content = hash \<and>
        node_at t = (node_at s)(d @ [c @ ''.part''] := None, d @ [c] \<mapsto> Regular content))) \<and>
    (r \<noteq> Inr () \<longrightarrow> node_at t = node_at s) \<and>
    (fs_faults s = [] \<and> node_status (node_at s (d @ [c])) \<in> {stNotFound, stRegular} \<and>
      (\<exists>content. node_at s (d @ [c @ ''.part'']) = Some (Regular content) \<and> length content = unat len \<and> blake3 content = hash)
      \<longrightarrow> r = Inr ())"
proof -
  have succeeds: "r = Inr ()" if "fs_faults s = []" "node_status (node_at s (d @ [c])) \<in> {stNotFound, stRegular}"
    "node_at s (d @ [c @ ''.part'']) = Some (Regular content)" "length content = unat len" "blake3 content = hash" for content
    using CommitPartial_ok [where ?blake3.0 = blake3, OF assms(1-4) that(1) assms(5-7) that(3-5)] that(2) assms(8) by auto
  have effect: "commit_effect blake3 (d @ [c @ ''.part'']) (d @ [c]) (unat len) hash s r t"
    by (rule wpD [OF wp_CommitPartial [OF assms(1,2,6,7)] assms(8)])
  show ?thesis
  proof (intro conjI impI)
    assume "r = Inr ()"
    with effect show "\<exists>content. node_at s (d @ [c @ ''.part'']) = Some (Regular content) \<and>
        length content = unat len \<and> blake3 content = hash \<and>
        node_at t = (node_at s)(d @ [c @ ''.part''] := None, d @ [c] \<mapsto> Regular content)"
      by (simp add: commit_effect_def)
  next
    assume "r \<noteq> Inr ()"
    with effect show "node_at t = node_at s" by (simp add: commit_effect_def)
  qed (use succeeds in blast)
qed

theorem commit_publishes_verified_bytes_witness:
  "let t = snd (CommitPartial (\<lambda>b. b) demo_writer ''b'' 2 [7, 8] demo_fs) in
   node_at t (demo_root @ [''b'']) = Some (Regular [7, 8]) \<and> node_at t (demo_root @ [''b.part'']) = None"
proof -
  have components: "path_components ''b'' = [''b'']" by (simp add: path_components_def)
  have "safe_relative ''b''"
    by (simp add: safe_relative_def components is_rooted_def is_letter_def check_component_def is_control_def
        is_device_name_def)
  moreover have "demo_root @ path_components ''b'' = demo_root @ [''b'']" by (simp add: components)
  ultimately show ?thesis
    using commit_publishes_verified_bytes [OF demo_facts(1-4) _ _ demo_facts(4) prod.collapse [symmetric],
        of "''b''" "''b''" "\<lambda>b. b" 2 "[7, 8]"]
    by (auto simp: Let_def demo_fs_def node_at_def demo_root_def)
qed

text \<open>
  Setting a losing version aside follows directory links.  The header says that the move never
  follows symlinks, and the file's own entry is indeed checked, but a directory on the way to it is not:
  when a directory of the task is a link out of the task root, the move takes the file from outside.
\<close>

theorem conflict_move_follows_directory_links:
  "let s = \<lparr>fs_entries = [([''C:/''], Directory), (demo_root, Directory), ([''C:/'', ''other''], Directory),
         ([''C:/'', ''other'', ''f''], Regular [5]), (demo_root @ [''d''], Symlink [''C:/'', ''other''])],
         fs_faults = [], fs_process_id = 1, fs_serial = 0\<rparr>;
       t = snd (MoveFileToConflict demo_writer ''d/f'' ''g'' s) in
   fst (MoveFileToConflict demo_writer ''d/f'' ''g'' s) = Inr () \<and>
   node_at t [''C:/'', ''other'', ''f''] = None \<and> node_at t (demo_root @ [''g'']) = Some (Regular [5])"
  by code_simp

end
