(* ===== verification/Ignore_Rules.thy ===== *)
theory Ignore_Rules
  imports File_System
begin

text \<open>
  The \<^verbatim>\<open>.veritasignore\<close> matcher (\<^verbatim>\<open>engine/storage/ignore_rules.cpp\<close>).  Positions into a
  \<^verbatim>\<open>string_view\<close> are the suffixes that start there: a pattern position is what is left of the pattern,
  a path position what is left of the path.
\<close>

section \<open>Glob matching\<close>

text \<open>The engine is built with a signed \<^verbatim>\<open>char\<close>, and classes compare such characters.\<close>

definition signed_char :: "char \<Rightarrow> int" where
  "signed_char c = (let n = int (of_char c) in if n < 128 then n else n - 256)"

fun class_loop :: "char \<Rightarrow> string \<Rightarrow> bool" where
  "class_loop value [] = False"
| "class_loop value (a # dash # b # rest) =
     (if dash = CHR ''-''
      then (signed_char a \<le> signed_char value \<and> signed_char value \<le> signed_char b) \<or> class_loop value rest
      else value = a \<or> class_loop value (dash # b # rest))"
| "class_loop value (a # rest) = (value = a \<or> class_loop value rest)"

text \<open>
  \<open>rest\<close> is the pattern after the opening bracket.  \<open>None\<close> stands for a missing closing bracket, otherwise
  the verdict comes with the pattern after the closing bracket.
\<close>

definition MatchCharacterClass :: "string \<Rightarrow> char \<Rightarrow> (bool \<times> string) option" where
  "MatchCharacterClass rest value =
     (if CHR '']'' \<notin> set rest then None
      else
       let body = takeWhile (\<lambda>c. c \<noteq> CHR '']'') rest;
           negated = (body \<noteq> [] \<and> hd body = CHR ''!'');
           matched = class_loop value (if negated then tl body else body) in
       Some ((if negated then \<not> matched else matched), drop (Suc (length body)) rest))"

lemma class_shrinks [termination_simp]:
  "MatchCharacterClass rest value = Some (m, next_position) \<Longrightarrow> length next_position < Suc (length rest)"
  by (auto simp: MatchCharacterClass_def Let_def split: if_splits)

text \<open>The positions the three loops visit: every position, those after a slash, those before the next slash.\<close>

fun tails :: "string \<Rightarrow> string list" where
  "tails [] = [[]]"
| "tails (x # xs) = (x # xs) # tails xs"

fun slash_tails :: "string \<Rightarrow> string list" where
  "slash_tails [] = []"
| "slash_tails (x # xs) = (if x = CHR ''/'' then [xs] else []) @ slash_tails xs"

fun star_tails :: "string \<Rightarrow> string list" where
  "star_tails [] = [[]]"
| "star_tails (x # xs) = (x # xs) # (if x = CHR ''/'' then [] else star_tails xs)"

function GlobMatches :: "string \<Rightarrow> string \<Rightarrow> bool" where
  "GlobMatches [] path = (path = [])"
| "GlobMatches (p # ps) path =
     (if p = CHR ''*'' \<and> 2 \<le> length ps \<and> ps ! 0 = CHR ''*'' \<and> ps ! 1 = CHR ''/''
      then GlobMatches (drop 2 ps) path \<or> list_ex (GlobMatches (drop 2 ps)) (slash_tails path)
      else if p = CHR ''*'' \<and> 1 \<le> length ps \<and> ps ! 0 = CHR ''*''
      then list_ex (GlobMatches (drop 1 ps)) (tails path)
      else if path = [] then False
      else if p = CHR ''*'' then list_ex (GlobMatches ps) (star_tails path)
      else if p = CHR ''?'' then hd path \<noteq> CHR ''/'' \<and> GlobMatches ps (tl path)
      else if p = CHR ''['' then
       (case MatchCharacterClass ps (hd path) of
          None \<Rightarrow> False
        | Some (matched, next_position) \<Rightarrow> matched \<and> hd path \<noteq> CHR ''/'' \<and> GlobMatches next_position (tl path))
      else p = hd path \<and> GlobMatches ps (tl path))"
  by pat_completeness auto
termination
  by (relation "measure (\<lambda>(ps, _). length ps)") (auto dest: class_shrinks)

definition HasSlash :: "string \<Rightarrow> bool" where
  "HasSlash value \<longleftrightarrow> CHR ''/'' \<in> set value"

definition MatchesAnyComponent :: "string \<Rightarrow> string \<Rightarrow> bool" where
  "MatchesAnyComponent pattern path = list_ex (GlobMatches pattern) (split_on CHR ''/'' path)"

section \<open>Rules\<close>

record Rule =
  rule_pattern :: string
  rule_negated :: bool
  rule_rooted :: bool
  rule_directory_only :: bool

record IgnoreRules =
  ir_defaults :: "Rule list"
  ir_rules :: "Rule list"

definition IgnoreRules_new :: IgnoreRules where
  "IgnoreRules_new = \<lparr>ir_defaults =
     [\<lparr>rule_pattern = ''*.part'', rule_negated = False, rule_rooted = False, rule_directory_only = False\<rparr>,
      \<lparr>rule_pattern = ''.git'', rule_negated = False, rule_rooted = False, rule_directory_only = True\<rparr>,
      \<lparr>rule_pattern = ''.veritasignore'', rule_negated = False, rule_rooted = False, rule_directory_only = False\<rparr>],
     ir_rules = []\<rparr>"

abbreviation blank :: "char \<Rightarrow> bool" where
  "blank c \<equiv> c = CHR '' '' \<or> c = CHR 0x09"

definition chomp :: "string \<Rightarrow> string" where
  "chomp line = (if line \<noteq> [] \<and> last line = CHR 0x0D then butlast line else line)"

definition trim :: "string \<Rightarrow> string" where
  "trim line = rev (dropWhile blank (rev (dropWhile blank line)))"

definition drop_front :: "char \<Rightarrow> string \<Rightarrow> string" where
  "drop_front c line = (if line \<noteq> [] \<and> hd line = c then tl line else line)"

definition drop_back :: "char \<Rightarrow> string \<Rightarrow> string" where
  "drop_back c line = (if line \<noteq> [] \<and> last line = c then butlast line else line)"

definition line_error :: "nat \<Rightarrow> string \<Rightarrow> 'a result" where
  "line_error n message = Inl (Invalid_argument (''ignore rule line '' @ to_string n @ message))"

text \<open>The loop over the characters of a pattern; a closing bracket jumps the loop behind its class.\<close>

function scan_pattern :: "nat \<Rightarrow> string \<Rightarrow> unit result" where
  "scan_pattern n [] = Inr ()"
| "scan_pattern n (c # cs) =
     (if (of_char c :: nat) < 0x20 then line_error n '' contains a control character''
      else if c = CHR ''['' then
       (let body = takeWhile (\<lambda>x. x \<noteq> CHR '']'') cs in
        if CHR '']'' \<notin> set cs \<or> body = [] \<or> body = ''!''
        then line_error n '' has an invalid character class''
        else scan_pattern n (drop (Suc (length body)) cs))
      else if c = CHR '']'' then line_error n '' has an unmatched bracket''
      else scan_pattern n cs)"
  by pat_completeness auto
termination
  by (relation "measure (\<lambda>(_, cs). length cs)") auto

definition validate_pattern :: "nat \<Rightarrow> string \<Rightarrow> unit result" where
  "validate_pattern n line =
     (let escaped = (take 2 line = [CHR 0x5C, CHR ''!''] \<or> take 2 line = [CHR 0x5C, CHR ''#'']);
          pattern = drop_back CHR ''/'' (drop_front CHR ''/'' (drop_front CHR ''!'' (if escaped then tl line else line))) in
      if pattern = [] then line_error n '' has no pattern''
      else if CHR 0x5C \<in> set pattern then line_error n '' contains an unsupported escape''
      else if \<exists>c \<in> set (split_on CHR ''/'' pattern). c = [] \<or> c = ''.'' \<or> c = ''..''
      then line_error n '' contains an invalid path component''
      else scan_pattern n pattern)"

text \<open>One line of the text: the number of rules so far, with this line's rule counted.\<close>

definition validate_line :: "string \<Rightarrow> nat \<times> nat \<Rightarrow> (nat \<times> nat) result" where
  "validate_line raw s = (case s of (number, count) \<Rightarrow>
     let n = Suc number; line = chomp raw; body = trim line in
     if 512 < length line then line_error n '' exceeds 512 bytes''
     else if body = [] \<or> hd body = CHR ''#'' then Inr (n, count)
     else bindE (validate_pattern n body) (\<lambda>_.
       if 128 < Suc count then Inl (Invalid_argument ''ignore rules exceed 128 patterns'')
       else Inr (n, Suc count)))"

definition Validate :: "string \<Rightarrow> unit result" where
  "Validate text =
     (if 16 * 1024 < length text then Inl (Invalid_argument ''ignore rules exceed 16 KiB'')
      else if CHR 0x00 \<in> set text then Inl (Invalid_argument ''ignore rules contain a null byte'')
      else bindE (foldE validate_line (split_on CHR 0x0A text) (0, 0)) (\<lambda>(_, count).
        if count = 0 \<and> text \<noteq> [] then Inl (Invalid_argument ''ignore rules do not contain a pattern'')
        else Inr ()))"

fun strip_dots :: "string \<Rightarrow> string" where
  "strip_dots (a # b # rest) = (if a = CHR ''.'' \<and> b = CHR ''/'' then strip_dots rest else a # b # rest)"
| "strip_dots path = path"

fun has_pair :: "char \<Rightarrow> char \<Rightarrow> string \<Rightarrow> bool" where
  "has_pair x y (a # b # rest) = (a = x \<and> b = y \<or> has_pair x y (b # rest))"
| "has_pair x y _ = False"

definition Normalize :: "string \<Rightarrow> string result" where
  "Normalize value =
     (if value = [] then Inl (Invalid_argument ''ignore path is required'')
      else
       let slashed = map (\<lambda>c. if c = CHR 0x5C then CHR ''/'' else c) value in
       if hd slashed = CHR ''/'' \<or> has_pair CHR '':'' CHR ''/'' slashed
       then Inl (Invalid_argument ''ignore path must be task-relative'')
       else
        let path = strip_dots slashed in
        if path = [] \<or> last path = CHR ''/'' \<or> has_pair CHR ''/'' CHR ''/'' path
        then Inl (Invalid_argument ''ignore path must name a file or directory'')
        else if \<exists>c \<in> set (split_on CHR ''/'' path). c = ''.'' \<or> c = ''..''
        then Inl (Invalid_argument ''ignore path must not traverse directories'')
        else Inr path)"

definition parse_line :: "string \<Rightarrow> Rule option" where
  "parse_line raw =
     (let body = trim (chomp raw) in
      if body = [] \<or> hd body = CHR ''#'' then None
      else
       let escaped_bang = (take 2 body = [CHR 0x5C, CHR ''!'']);
           line = (if escaped_bang \<or> take 2 body = [CHR 0x5C, CHR ''#''] then tl body else body);
           negated = (\<not> escaped_bang \<and> hd line = CHR ''!'');
           line = (if negated then tl line else line);
           rooted = (line \<noteq> [] \<and> hd line = CHR ''/'');
           line = (if rooted then tl line else line);
           directory_only = (line \<noteq> [] \<and> last line = CHR ''/'');
           line = (if directory_only then butlast line else line) in
       if line = [] then None
       else Some \<lparr>rule_pattern = line, rule_negated = negated, rule_rooted = rooted,
         rule_directory_only = directory_only\<rparr>)"

definition Load :: "string \<Rightarrow> IgnoreRules \<Rightarrow> IgnoreRules result" where
  "Load text r = bindE (Validate text) (\<lambda>_.
     Inr (r\<lparr>ir_rules := List.map_filter parse_line (split_on CHR 0x0A text)\<rparr>))"

text \<open>\<open>LoadFile\<close> reads the file below the task root; a file that does not exist is an empty policy.\<close>

definition LoadFile :: "path \<Rightarrow> IgnoreRules \<Rightarrow> (FileSystem, IgnoreRules) op" where
  "LoadFile task_root r =
     (let p = task_root @ [''.veritasignore''] in
      bindS (sys_open p) (\<lambda>opened.
      if \<not> opened
      then bindS (sys_status p) (\<lambda>status.
        if status \<noteq> stNotFound then throwS (Runtime_error ''cannot read .veritasignore'')
        else liftS (\<lambda>_. Load [] r))
      else bindS next_fault (\<lambda>read_fault.
        thenS (guardS (read_fault \<noteq> None) (Runtime_error ''cannot read .veritasignore''))
       (bindS (getS (\<lambda>s. file_bytes s p)) (\<lambda>content.
        liftS (\<lambda>_. Load (map char_of_byte (case content of None \<Rightarrow> [] | Some b \<Rightarrow> b)) r))))))"

text \<open>The loop of \<open>Matches\<close> for a directory rule: \<open>before\<close> holds the path up to the current component.\<close>

fun directory_loop :: "bool \<Rightarrow> string \<Rightarrow> string \<Rightarrow> string list \<Rightarrow> bool" where
  "directory_loop component_pattern pattern before [] = False"
| "directory_loop component_pattern pattern before (c # cs) =
     (GlobMatches pattern (if component_pattern then c else before @ c) \<or>
      directory_loop component_pattern pattern (before @ c @ ''/'') cs)"

definition Matches :: "Rule \<Rightarrow> string \<Rightarrow> bool" where
  "Matches rule path =
     (let pattern = rule_pattern rule;
          component_pattern = (\<not> rule_rooted rule \<and> \<not> HasSlash pattern) in
      if \<not> rule_directory_only rule
      then if component_pattern then MatchesAnyComponent pattern path else GlobMatches pattern path
      else directory_loop component_pattern pattern [] (split_on CHR ''/'' path))"

definition IsIgnored :: "IgnoreRules \<Rightarrow> string \<Rightarrow> bool result" where
  "IsIgnored r relative_path =
     bindE (Normalize relative_path) (\<lambda>path.
       if list_ex (\<lambda>rule. Matches rule path) (ir_defaults r) then Inr True
       else Inr (fold (\<lambda>rule ignored. if Matches rule path then \<not> rule_negated rule else ignored) (ir_rules r) False))"

end
