(* ===== verification/Ignore_Semantics.thy ===== *)
theory Ignore_Semantics
  imports Ignore_Rules
begin

text \<open>
  What the ignore matcher decides: the meaning of patterns as a relation, which the backtracking matcher
  implements but for a star at the end, the rule that the last matching user rule wins and the defaults cannot be undone,
  and the shape of every rule a validated text yields.
\<close>

section \<open>The meaning of a pattern\<close>

datatype glob_token = gLit char | gAny | gClass string | gBad | gStar | gDeep | gDeepDir

function tokens :: "string \<Rightarrow> glob_token list" where
  "tokens [] = []"
| "tokens (p # ps) =
     (if p = CHR ''*'' \<and> take 2 ps = ''*/'' then gDeepDir # tokens (drop 2 ps)
      else if p = CHR ''*'' \<and> take 1 ps = ''*'' then gDeep # tokens (drop 1 ps)
      else if p = CHR ''*'' then gStar # tokens ps
      else if p = CHR ''?'' then gAny # tokens ps
      else if p = CHR ''['' then
        (if CHR '']'' \<in> set ps
         then gClass (takeWhile (\<lambda>c. c \<noteq> CHR '']'') ps) # tokens (tl (dropWhile (\<lambda>c. c \<noteq> CHR '']'') ps))
         else [gBad])
      else gLit p # tokens ps)"
  by pat_completeness auto
termination
proof (relation "measure length", goal_cases)
  case (6 p ps)
  then show ?case using length_dropWhile_le [of "\<lambda>c. c \<noteq> CHR '']''" ps] by simp
qed auto

text \<open>
  A class lists single characters and ranges; an exclamation mark in front negates it.  Characters are ordered as the signed
  characters of the engine, which agrees with the order of bytes on ranges within ASCII.
\<close>

datatype class_item = Single char | Range char char

fun class_items :: "string \<Rightarrow> class_item list" where
  "class_items [] = []"
| "class_items [a] = [Single a]"
| "class_items [a, b] = [Single a, Single b]"
| "class_items (a # b # c # rest) = (if b = CHR ''-'' then Range a c # class_items rest else Single a # class_items (b # c # rest))"

fun item_has :: "class_item \<Rightarrow> char \<Rightarrow> bool" where
  "item_has (Single a) c \<longleftrightarrow> c = a"
| "item_has (Range a b) c \<longleftrightarrow> signed_char a \<le> signed_char c \<and> signed_char c \<le> signed_char b"

definition class_accepts :: "string \<Rightarrow> char \<Rightarrow> bool" where
  "class_accepts body c \<longleftrightarrow>
     (if take 1 body = ''!'' then \<forall>item \<in> set (class_items (tl body)). \<not> item_has item c
      else \<exists>item \<in> set (class_items body). item_has item c)"

text \<open>
  The meaning of the tokens: a question mark and a class stand for one character of a name, a star for zero or more, two stars for
  any text, two stars and a slash for zero or more leading directories.
\<close>

inductive glob :: "glob_token list \<Rightarrow> string \<Rightarrow> bool" where
  glob_nil: "glob [] []"
| glob_lit: "glob ts p \<Longrightarrow> glob (gLit c # ts) (c # p)"
| glob_any: "c \<noteq> CHR ''/'' \<Longrightarrow> glob ts p \<Longrightarrow> glob (gAny # ts) (c # p)"
| glob_class: "class_accepts body c \<Longrightarrow> c \<noteq> CHR ''/'' \<Longrightarrow> glob ts p \<Longrightarrow> glob (gClass body # ts) (c # p)"
| glob_star: "CHR ''/'' \<notin> set w \<Longrightarrow> glob ts p \<Longrightarrow> glob (gStar # ts) (w @ p)"
| glob_deep: "glob ts p \<Longrightarrow> glob (gDeep # ts) (w @ p)"
| glob_here: "glob ts p \<Longrightarrow> glob (gDeepDir # ts) p"
| glob_below: "glob ts p \<Longrightarrow> glob (gDeepDir # ts) (w @ CHR ''/'' # p)"

inductive_simps glob_simps [simp]:
  "glob [] p" "glob (gLit c # ts) p" "glob (gAny # ts) p" "glob (gClass body # ts) p" "glob (gBad # ts) p"
  "glob (gStar # ts) p" "glob (gDeep # ts) p" "glob (gDeepDir # ts) p"

text \<open>The one departure of the matcher: a single star at the end of a pattern needs a character.\<close>

fun last_star :: "glob_token list \<Rightarrow> glob_token list" where
  "last_star [gStar] = [gAny, gStar]"
| "last_star (t # ts) = t # last_star ts"
| "last_star [] = []"

lemma class_loop_items: "class_loop c body \<longleftrightarrow> (\<exists>item \<in> set (class_items body). item_has item c)"
  by (induction body rule: class_items.induct) auto

lemma in_tails: "q \<in> set (tails p) \<longleftrightarrow> (\<exists>w. p = w @ q)"
  by (induction p) (auto simp: Cons_eq_append_conv)

lemma in_slash_tails: "q \<in> set (slash_tails p) \<longleftrightarrow> (\<exists>w. p = w @ CHR ''/'' # q)"
  by (induction p) (auto simp: Cons_eq_append_conv)

lemma in_star_tails: "q \<in> set (star_tails p) \<longleftrightarrow> (\<exists>w. p = w @ q \<and> CHR ''/'' \<notin> set w)"
  by (induction p) (auto simp: Cons_eq_append_conv)

lemma class_match:
  "CHR '']'' \<in> set ps \<Longrightarrow> MatchCharacterClass ps c = Some (class_accepts (takeWhile (\<lambda>c. c \<noteq> CHR '']'') ps) c,
     tl (dropWhile (\<lambda>c. c \<noteq> CHR '']'') ps))"
  "CHR '']'' \<notin> set ps \<Longrightarrow> MatchCharacterClass ps c = None"
  by (cases "takeWhile (\<lambda>c. c \<noteq> CHR '']'') ps")
    (auto simp: MatchCharacterClass_def class_accepts_def class_loop_items Let_def drop_Suc tl_drop [symmetric] dropWhile_eq_drop)

lemma deep_dir_prefix: "2 \<le> length ps \<and> ps ! 0 = a \<and> ps ! 1 = b \<longleftrightarrow> take 2 ps = [a, b]"
  by (cases ps; cases "tl ps") auto

lemma deep_prefix: "1 \<le> length ps \<and> ps ! 0 = a \<longleftrightarrow> take 1 ps = [a]"
  by (cases ps) auto

text \<open>After a single star the pattern goes on with something that needs a character, or it ends.\<close>

lemma after_star:
  assumes "take 1 ps \<noteq> ''*''" "ps \<noteq> []"
  shows "\<not> glob (last_star (tokens ps)) []" "tokens ps \<noteq> []" "\<exists>t ts. tokens ps = t # ts \<and> last_star (tokens ps) = t # last_star ts"
proof -
  obtain p qs where ps: "ps = p # qs" using assms(2) by (cases ps) auto
  then have p: "p \<noteq> CHR ''*''" using assms(1) by auto
  have "\<exists>t ts. tokens ps = t # ts \<and> t \<notin> {gStar, gDeep, gDeepDir}" unfolding ps using p by simp
  then obtain t ts where t: "tokens ps = t # ts" "t \<notin> {gStar, gDeep, gDeepDir}" by blast
  then have "last_star (tokens ps) = t # last_star ts" by (cases t; cases ts) auto
  with t show "\<not> glob (last_star (tokens ps)) []" "tokens ps \<noteq> []" "\<exists>t ts. tokens ps = t # ts \<and> last_star (tokens ps) = t # last_star ts"
    by (cases t; auto)+
qed

lemma last_star_Cons: "t \<noteq> gStar \<Longrightarrow> last_star (t # ts) = t # last_star ts"
  by (cases t; cases ts) auto

text \<open>
  C7: the backtracking matcher decides a declarative meaning of patterns, with one exception.  A path matches when it splits into
  pieces that the pattern's tokens stand for, in order: one character for a question mark or a class, zero or more characters of a
  name for a star, any text for two stars, any leading directories for two stars and a slash.  The exception is a single star at the
  very end of the pattern, which stands for one or more characters.  The documentation calls the patterns Git-ignore style; there a
  last star may stand for nothing, and two stars inside a name do not cross a slash.
\<close>

theorem glob_matches_exact: "GlobMatches pattern path \<longleftrightarrow> glob (last_star (tokens pattern)) path"
proof (induction pattern path rule: GlobMatches.induct)
  case (1 path)
  then show ?case by simp
next
  case (2 p ps path)
  note ih = "2.IH" [unfolded deep_dir_prefix deep_prefix]
  note run = GlobMatches.simps(2) [of p ps path, unfolded deep_dir_prefix deep_prefix]
  consider (dir) "p = CHR ''*''" "take 2 ps = ''*/''"
    | (deep) "p = CHR ''*''" "take 2 ps \<noteq> ''*/''" "take 1 ps = ''*''"
    | (star) "p = CHR ''*''" "take 1 ps \<noteq> ''*''"
    | (nil) "p \<noteq> CHR ''*''" "path = []"
    | (char) "p \<noteq> CHR ''*''" "path \<noteq> []"
    by blast
  then show ?case
  proof cases
    case dir
    then show ?thesis using ih(1,2) unfolding run by (auto simp: list_ex_iff in_slash_tails last_star_Cons)
  next
    case deep
    then show ?thesis using ih(3) unfolding run by (auto simp: list_ex_iff in_tails last_star_Cons)
  next
    case star
    then have "take 2 ps \<noteq> ''*/''" by (cases ps) auto
    with star have step: "GlobMatches (p # ps) path \<longleftrightarrow> path \<noteq> [] \<and> (\<exists>q \<in> set (star_tails path). glob (last_star (tokens ps)) q)"
      using ih(4) unfolding run by (auto simp: list_ex_iff)
    have tokens: "tokens (p # ps) = gStar # tokens ps" using star \<open>take 2 ps \<noteq> ''*/''\<close> by simp
    show ?thesis
    proof (cases "ps = []")
      case True
      then show ?thesis unfolding step tokens by (cases path) (auto simp: in_star_tails)
    next
      case False
      from after_star [OF star(2) this] have "last_star (gStar # tokens ps) = gStar # last_star (tokens ps)"
        and needs: "\<not> glob (last_star (tokens ps)) []" by auto
      then have "glob (last_star (tokens (p # ps))) path \<longleftrightarrow> (\<exists>w q. path = w @ q \<and> CHR ''/'' \<notin> set w \<and> glob (last_star (tokens ps)) q)"
        unfolding tokens by simp
      then show ?thesis unfolding step using needs by (metis in_star_tails append_is_Nil_conv)
    qed
  next
    case nil
    then show ?thesis unfolding run by (auto simp: last_star_Cons)
  next
    case char
    then obtain x xs where path: "path = x # xs" by (cases path) auto
    from char show ?thesis
      using ih(5-7) unfolding run path by (cases "CHR '']'' \<in> set ps") (auto simp: class_match last_star_Cons)
  qed
qed

text \<open>
  The exception on a rule: \<^verbatim>\<open>foo*\<close> leaves the path \<^verbatim>\<open>foo\<close> alone, although it catches every longer name.
\<close>

theorem trailing_star_needs_a_character:
  "\<not> GlobMatches ''foo*'' ''foo'' \<and> GlobMatches ''foo*'' ''foot'' \<and> glob (tokens ''foo*'') ''foo''"
  by simp

section \<open>Which rule decides\<close>

lemma last_match_wins:
  "fold (\<lambda>rule ignored. if P rule then Q rule else ignored) rules b \<longleftrightarrow>
     (case find P (rev rules) of None \<Rightarrow> b | Some rule \<Rightarrow> Q rule)"
  by (induction rules rule: rev_induct) auto

text \<open>
  A path is ignored when one of the built-in rules matches it, whatever the user wrote; otherwise the
  last user rule that matches decides, and a path that no rule matches is kept.
\<close>

theorem last_matching_rule_decides:
  assumes "Normalize relative_path = Inr path"
  shows "IsIgnored r relative_path = Inr
    (list_ex (\<lambda>rule. Matches rule path) (ir_defaults r) \<or>
     (case find (\<lambda>rule. Matches rule path) (rev (ir_rules r)) of
        None \<Rightarrow> False | Some rule \<Rightarrow> \<not> rule_negated rule))"
  using assms by (auto simp: IsIgnored_def last_match_wins)

theorem last_matching_rule_decides_witness:
  "IsIgnored IgnoreRules_new ''a.txt'' = Inr False"
proof -
  have "Normalize ''a.txt'' = Inr ''a.txt''" by (simp add: Normalize_def)
  then show ?thesis
    using last_matching_rule_decides [of "''a.txt''" "''a.txt''" IgnoreRules_new]
    by (simp add: IgnoreRules_new_def Matches_def HasSlash_def MatchesAnyComponent_def)
qed

section \<open>Validated rules\<close>

definition good_pattern :: "string \<Rightarrow> bool" where
  "good_pattern p \<longleftrightarrow> p \<noteq> [] \<and> CHR 0x5C \<notin> set p \<and>
     (\<forall>c \<in> set (split_on CHR ''/'' p). c \<noteq> [] \<and> c \<noteq> ''.'' \<and> c \<noteq> ''..'')"

lemma validate_pattern_good:
  "validate_pattern n line = Inr () \<Longrightarrow>
    good_pattern (drop_back CHR ''/'' (drop_front CHR ''/'' (drop_front CHR ''!''
      (if take 2 line = [CHR 0x5C, CHR ''!''] \<or> take 2 line = [CHR 0x5C, CHR ''#''] then tl line else line))))"
  by (auto simp: validate_pattern_def line_error_def good_pattern_def Let_def split: if_splits)

text \<open>A literal exclamation mark in front, possibly with a slash after it, keeps a pattern good.\<close>

lemma good_pattern_bang: "good_pattern p \<Longrightarrow> good_pattern (CHR ''!'' # p)"
  by (cases "split_on CHR ''/'' p") (auto simp: good_pattern_def)

lemma good_pattern_bang_slash: "good_pattern p \<Longrightarrow> good_pattern (CHR ''!'' # CHR ''/'' # p)"
  by (auto simp: good_pattern_def)

lemma good_pattern_nonempty: "good_pattern p \<Longrightarrow> p \<noteq> []"
  by (simp add: good_pattern_def)

lemma drop_nil: "drop_back c [] = []" "drop_front c [] = []"
  by (simp_all add: drop_back_def drop_front_def)

lemma drop_back_Cons: "xs \<noteq> [] \<Longrightarrow> drop_back c (x # xs) = x # drop_back c xs"
  by (simp add: drop_back_def)

lemma parse_valid_line:
  assumes "validate_pattern n (trim (chomp raw)) = Inr ()" "trim (chomp raw) \<noteq> []" "hd (trim (chomp raw)) \<noteq> CHR ''#''"
  shows "\<exists>rule. parse_line raw = Some rule \<and> good_pattern (rule_pattern rule) \<and>
    length (rule_pattern rule) \<le> length (trim (chomp raw))"
proof -
  let ?b = "trim (chomp raw)"
  define l where "l = (if take 2 ?b = [CHR 0x5C, CHR ''!''] \<or> take 2 ?b = [CHR 0x5C, CHR ''#''] then tl ?b else ?b)"
  have good: "good_pattern (drop_back CHR ''/'' (drop_front CHR ''/'' (drop_front CHR ''!'' l)))"
    unfolding l_def by (rule validate_pattern_good [OF assms(1)])
  have len: "length l \<le> length ?b" "length (drop_front c x) \<le> length x" "length (drop_back c x) \<le> length x" for c x
    by (simp_all add: l_def drop_front_def drop_back_def)
  show ?thesis
  proof (cases "take 2 ?b = [CHR 0x5C, CHR ''!'']")
    case True
    then obtain x where b: "?b = CHR 0x5C # CHR ''!'' # x" by (cases ?b; cases "tl ?b") auto
    then have l: "l = CHR ''!'' # x" by (simp add: l_def)
    have "x \<noteq> []"
    proof
      assume "x = []"
      then have "drop_back CHR ''/'' (drop_front CHR ''/'' (drop_front CHR ''!'' l)) = []"
        by (simp add: l drop_front_def drop_back_def)
      with good_pattern_nonempty [OF good] show False by simp
    qed
    then have p: "drop_back CHR ''/'' l = CHR ''!'' # drop_back CHR ''/'' x" by (simp add: l drop_back_Cons)
    have "good_pattern (CHR ''!'' # drop_back CHR ''/'' x)"
    proof (cases "hd x = CHR ''/''")
      case True
      with \<open>x \<noteq> []\<close> obtain y where x: "x = CHR ''/'' # y" by (cases x) auto
      with good have "good_pattern (drop_back CHR ''/'' y)" by (simp add: l drop_front_def)
      moreover have "y \<noteq> []" using calculation good_pattern_nonempty drop_nil(1) by metis
      ultimately show ?thesis by (simp add: x drop_back_Cons good_pattern_bang_slash)
    next
      case False
      with good \<open>x \<noteq> []\<close> show ?thesis by (simp add: l drop_front_def good_pattern_bang)
    qed
    moreover have "parse_line raw = Some \<lparr>rule_pattern = drop_back CHR ''/'' l, rule_negated = False, rule_rooted = False,
        rule_directory_only = (last l = CHR ''/'')\<rparr>"
      using b \<open>x \<noteq> []\<close> by (auto simp: parse_line_def Let_def l drop_back_def)
    ultimately show ?thesis using len(1,3) p by (metis Rule.select_convs(1) le_trans)
  next
    case False
    define l1 l2 where "l1 = drop_front CHR ''!'' l" and "l2 = drop_front CHR ''/'' l1"
    have "l \<noteq> []" using good_pattern_nonempty [OF good] drop_nil by metis
    have strip: "(if hd l = CHR ''!'' then tl l else l) = l1" "(if l1 \<noteq> [] \<and> hd l1 = CHR ''/'' then tl l1 else l1) = l2"
      "(if l2 \<noteq> [] \<and> last l2 = CHR ''/'' then butlast l2 else l2) = drop_back CHR ''/'' l2"
      using \<open>l \<noteq> []\<close> by (simp_all add: l1_def l2_def drop_front_def drop_back_def)
    have plain: "(take 2 ?b \<noteq> [CHR 0x5C, CHR ''!''] \<and> hd l = CHR ''!'') = (hd l = CHR ''!'')" using False by blast
    have "drop_back CHR ''/'' l2 \<noteq> []" using good_pattern_nonempty [OF good] by (simp add: l1_def l2_def)
    then have "parse_line raw = Some \<lparr>rule_pattern = drop_back CHR ''/'' l2, rule_negated = (hd l = CHR ''!''),
        rule_rooted = (l1 \<noteq> [] \<and> hd l1 = CHR ''/''), rule_directory_only = (l2 \<noteq> [] \<and> last l2 = CHR ''/'')\<rparr>"
      unfolding parse_line_def Let_def l_def [symmetric] plain strip using assms(2,3) by simp
    then have "\<exists>rule. parse_line raw = Some rule \<and> rule_pattern rule = drop_back CHR ''/'' (drop_front CHR ''/'' (drop_front CHR ''!'' l))"
      by (simp add: l1_def l2_def)
    then show ?thesis using good len by (metis le_trans)
  qed
qed

lemma validate_line_parse:
  assumes "validate_line raw (number, count) = Inr (number', count')" "count \<le> 128"
  shows "case parse_line raw of None \<Rightarrow> count' = count
    | Some rule \<Rightarrow> count' = Suc count \<and> count' \<le> 128 \<and> good_pattern (rule_pattern rule) \<and> length (rule_pattern rule) \<le> 512"
proof (cases "trim (chomp raw) = [] \<or> hd (trim (chomp raw)) = CHR ''#''")
  case True
  then have "parse_line raw = None" by (auto simp: parse_line_def Let_def)
  with True assms show ?thesis by (auto simp: validate_line_def Let_def line_error_def split: if_splits)
next
  case False
  with assms have ok: "validate_pattern (Suc number) (trim (chomp raw)) = Inr ()" "count' = Suc count" "count' \<le> 128"
    "length (chomp raw) \<le> 512"
    by (auto simp: validate_line_def Let_def line_error_def result_iff split: if_splits)
  have "length (trim (chomp raw)) \<le> length (chomp raw)"
    unfolding trim_def by (metis length_dropWhile_le length_rev le_trans)
  with ok parse_valid_line [OF ok(1)] False show ?thesis by fastforce
qed

lemma validate_lines:
  assumes "foldE validate_line raws (number, count) = Inr (number', count')" "count \<le> 128"
  shows "count' = count + length (List.map_filter parse_line raws) \<and> count' \<le> 128 \<and>
    (\<forall>rule \<in> set (List.map_filter parse_line raws). good_pattern (rule_pattern rule) \<and> length (rule_pattern rule) \<le> 512)"
  using assms
proof (induction raws arbitrary: number count)
  case Nil
  then show ?case by (simp add: List.map_filter_def)
next
  case (Cons raw raws)
  from Cons.prems(1) obtain n c where step: "validate_line raw (number, count) = Inr (n, c)"
    "foldE validate_line raws (n, c) = Inr (number', count')" by (auto simp: result_iff)
  note parsed = validate_line_parse [OF step(1) Cons.prems(2)]
  then have "c \<le> 128" using Cons.prems(2) by (cases "parse_line raw") auto
  from Cons.IH [OF step(2) this] parsed show ?case
    by (cases "parse_line raw") (auto simp: List.map_filter_def)
qed

text \<open>
  C38: rules that were loaded are well formed.  A text that loads yields at most 128 rules; every pattern
  is non-empty, at most 512 bytes long, free of backslashes, and none of its path components is empty,
  a dot or a dot-dot; the built-in rules stay as they are.
\<close>

theorem loaded_rules_well_formed:
  assumes "Load rules_text r = Inr r'"
  shows "ir_defaults r' = ir_defaults r \<and> length (ir_rules r') \<le> 128 \<and>
    (\<forall>rule \<in> set (ir_rules r'). rule_pattern rule \<noteq> [] \<and> length (rule_pattern rule) \<le> 512 \<and>
      CHR 0x5C \<notin> set (rule_pattern rule) \<and>
      (\<forall>c \<in> set (split_on CHR ''/'' (rule_pattern rule)). c \<noteq> [] \<and> c \<noteq> ''.'' \<and> c \<noteq> ''..''))"
proof -
  from assms obtain n count where "foldE validate_line (split_on CHR 0x0A rules_text) (0, 0) = Inr (n, count)"
    and r': "r' = r\<lparr>ir_rules := List.map_filter parse_line (split_on CHR 0x0A rules_text)\<rparr>"
    by (auto simp: Load_def Validate_def result_iff)
  from validate_lines [OF this(1)] show ?thesis by (auto simp: r' good_pattern_def)
qed

theorem loaded_rules_well_formed_witness:
  "\<exists>r'. Load ''*.log'' IgnoreRules_new = Inr r' \<and> ir_defaults r' = ir_defaults IgnoreRules_new \<and> length (ir_rules r') \<le> 128"
proof -
  obtain r' where load: "Load ''*.log'' IgnoreRules_new = Inr r'"
    by (simp add: Load_def Validate_def validate_line_def chomp_def trim_def validate_pattern_def drop_front_def drop_back_def Let_def)
  with loaded_rules_well_formed [OF load] show ?thesis by blast
qed

text \<open>
  Control characters inside a character class pass the validation, which is documented to reject
  them; outside a class they are rejected.  And a rule that escapes an exclamation mark is judged without
  it: the literal name \<^verbatim>\<open>!\<close> cannot be written as a rule.
\<close>

theorem validation_gaps:
  "Validate [CHR ''['', CHR 0x01, CHR '']''] = Inr () \<and>
   Validate [CHR 0x01] = Inl (Invalid_argument ''ignore rule line 1 contains a control character'') \<and>
   Validate [CHR 0x5C, CHR ''!''] = Inl (Invalid_argument ''ignore rule line 1 has no pattern'')"
  by (simp add: Validate_def validate_line_def chomp_def trim_def validate_pattern_def drop_front_def
      drop_back_def line_error_def Let_def to_string.simps digit_def char_of_def bit_0)

end
