(* ===== verification/Tracker_Contract.thy ===== *)
theory Tracker_Contract
  imports Protocol
begin

text \<open>
  The tracker's admission and forwarding rules (\<^verbatim>\<open>engine/signaling/tracker_contract.cpp\<close>), and the
  relay interface that a signaling session uses.
\<close>

section \<open>Model\<close>

datatype Topology = kOneWay | kBidirectional

datatype MessageKind = mkOffer | mkAnswer | mkIceCandidate | mkIceRestart

record JoinRequest =
  jr_task_id :: string
  jr_sync_key :: string
  jr_device_id :: string
  jr_device_fingerprint :: string
  jr_role :: Role
  jr_authorization_token :: string

record RelayMessage =
  rm_kind :: MessageKind
  rm_sender_device_id :: string
  rm_recipient_device_id :: string
  rm_payload :: string
  rm_candidate_mid :: string
  rm_candidate_mline_index :: "32 word"

text \<open>The members as an association list in order of arrival, the inboxes as a function: an absent inbox is empty.\<close>

record TrackerRoom =
  room_task_id :: string
  room_topology :: Topology
  room_members :: "(string \<times> JoinRequest) list"
  room_inboxes :: "string \<Rightarrow> RelayMessage list"

definition kMaxSignalPayload :: nat where "kMaxSignalPayload = 64 * 1024"

definition TrackerRoom_new :: "string \<Rightarrow> Topology \<Rightarrow> TrackerRoom result" where
  "TrackerRoom_new task_id topology =
     (if task_id = [] then Inl (Invalid_argument ''tracker task id is required'')
      else Inr \<lparr>room_task_id = task_id, room_topology = topology, room_members = [], room_inboxes = (\<lambda>_. [])\<rparr>)"

definition HasMember :: "TrackerRoom \<Rightarrow> string \<Rightarrow> bool" where
  "HasMember room device_id \<longleftrightarrow> map_of (room_members room) device_id \<noteq> None"

definition Join :: "JoinRequest \<Rightarrow> TrackerRoom \<Rightarrow> TrackerRoom result" where
  "Join request room =
     (if jr_task_id request \<noteq> room_task_id room \<or> jr_sync_key request = [] \<or> jr_device_id request = [] \<or>
         jr_device_fingerprint request = [] \<or> jr_authorization_token request = []
      then Inl (Invalid_argument ''invalid tracker join'')
      else if HasMember room (jr_device_id request) then Inl (Invalid_argument ''device already joined'')
      else
       bindE
        (case room_topology room of
           kOneWay \<Rightarrow>
            if jr_role request \<noteq> kSource \<and> jr_role request \<noteq> kTarget
            then Inl (Invalid_argument ''one-way rooms require source or target'')
            else if jr_role request = kSource \<and> list_ex (\<lambda>m. jr_role (snd m) = kSource) (room_members room)
            then Inl (Invalid_argument ''one-way rooms have one source'')
            else Inr ()
         | kBidirectional \<Rightarrow>
            if jr_role request \<noteq> kPeer then Inl (Invalid_argument ''bidirectional rooms require peer role'')
            else if 2 \<le> length (room_members room)
            then Inl (Invalid_argument ''bidirectional rooms have exactly two peers'')
            else Inr ())
        (\<lambda>_. Inr (room\<lparr>room_members := room_members room @ [(jr_device_id request, request)]\<rparr>)))"

definition check_direction :: "JoinRequest \<Rightarrow> JoinRequest \<Rightarrow> MessageKind \<Rightarrow> unit result" where
  "check_direction sender recipient kind =
     (let source_to_target = (jr_role sender = kSource \<and> jr_role recipient = kTarget);
          target_to_source = (jr_role sender = kTarget \<and> jr_role recipient = kSource) in
      if \<not> source_to_target \<and> \<not> target_to_source
      then Inl (Invalid_argument ''one-way relay direction is invalid'')
      else if target_to_source \<and> kind \<noteq> mkAnswer \<and> kind \<noteq> mkIceCandidate
      then Inl (Invalid_argument ''one-way target cannot initiate signaling'')
      else if source_to_target \<and> kind = mkAnswer
      then Inl (Invalid_argument ''one-way source cannot send an answer'')
      else Inr ())"

definition Forward :: "RelayMessage \<Rightarrow> TrackerRoom \<Rightarrow> TrackerRoom result" where
  "Forward m room =
     (case (map_of (room_members room) (rm_sender_device_id m), map_of (room_members room) (rm_recipient_device_id m)) of
        (Some sender, Some recipient) \<Rightarrow>
          if rm_sender_device_id m = rm_recipient_device_id m
          then Inl (Invalid_argument ''relay members are invalid'')
          else if rm_payload m = [] \<or> kMaxSignalPayload < length (rm_payload m)
          then Inl (Invalid_argument ''signal payload is invalid'')
          else bindE (if room_topology room = kOneWay then check_direction sender recipient (rm_kind m) else Inr ())
            (\<lambda>_. Inr (room\<lparr>room_inboxes := (room_inboxes room)
               (rm_recipient_device_id m := room_inboxes room (rm_recipient_device_id m) @ [m])\<rparr>))
      | _ \<Rightarrow> Inl (Invalid_argument ''relay members are invalid''))"

definition Members :: "TrackerRoom \<Rightarrow> string list" where
  "Members room = sort (map fst (room_members room))"

definition DrainInbox :: "string \<Rightarrow> TrackerRoom \<Rightarrow> (RelayMessage list \<times> TrackerRoom) result" where
  "DrainInbox device_id room =
     (if \<not> HasMember room device_id then Inl (Invalid_argument ''unknown device'')
      else Inr (room_inboxes room device_id, room\<lparr>room_inboxes := (room_inboxes room)(device_id := [])\<rparr>))"

section \<open>The room invariant\<close>

text \<open>Every public operation, with a failing one leaving the room as it is.\<close>

inductive room_step :: "TrackerRoom \<Rightarrow> TrackerRoom \<Rightarrow> bool" where
  step_join: "Join request room = Inr room' \<Longrightarrow> room_step room room'"
| step_forward: "Forward m room = Inr room' \<Longrightarrow> room_step room room'"
| step_drain: "DrainInbox d room = Inr (ms, room') \<Longrightarrow> room_step room room'"

definition role_in :: "TrackerRoom \<Rightarrow> string \<Rightarrow> Role option" where
  "role_in room d = map_option jr_role (map_of (room_members room) d)"

definition deliverable :: "TrackerRoom \<Rightarrow> RelayMessage \<Rightarrow> bool" where
  "deliverable room m \<longleftrightarrow>
     rm_sender_device_id m \<noteq> rm_recipient_device_id m \<and>
     0 < length (rm_payload m) \<and> length (rm_payload m) \<le> kMaxSignalPayload \<and>
     (case room_topology room of
        kOneWay \<Rightarrow>
          (role_in room (rm_sender_device_id m) = Some kSource \<and> role_in room (rm_recipient_device_id m) = Some kTarget \<and>
             rm_kind m \<noteq> mkAnswer) \<or>
          (role_in room (rm_sender_device_id m) = Some kTarget \<and> role_in room (rm_recipient_device_id m) = Some kSource \<and>
             rm_kind m \<in> {mkAnswer, mkIceCandidate})
      | kBidirectional \<Rightarrow>
          role_in room (rm_sender_device_id m) = Some kPeer \<and> role_in room (rm_recipient_device_id m) = Some kPeer)"

fun topology_ok :: "Topology \<Rightarrow> (string \<times> JoinRequest) list \<Rightarrow> bool" where
  "topology_ok kOneWay members \<longleftrightarrow> (\<forall>m \<in> set members. jr_role (snd m) \<in> {kSource, kTarget}) \<and>
     length (filter (\<lambda>m. jr_role (snd m) = kSource) members) \<le> 1"
| "topology_ok kBidirectional members \<longleftrightarrow> (\<forall>m \<in> set members. jr_role (snd m) = kPeer) \<and> length members \<le> 2"

definition room_inv :: "TrackerRoom \<Rightarrow> bool" where
  "room_inv room \<longleftrightarrow>
     distinct (map fst (room_members room)) \<and>
     (\<forall>(d, request) \<in> set (room_members room). d = jr_device_id request \<and> jr_task_id request = room_task_id room) \<and>
     topology_ok (room_topology room) (room_members room) \<and>
     (\<forall>d. \<forall>m \<in> set (room_inboxes room d). rm_recipient_device_id m = d \<and> deliverable room m)"

lemma deliverable_inboxes [simp]: "deliverable (room\<lparr>room_inboxes := f\<rparr>) m = deliverable room m"
  by (cases "room_topology room") (simp_all add: deliverable_def role_in_def)

lemma join_inv:
  assumes inv: "room_inv room" and join: "Join request room = Inr room'"
  shows "room_inv room'"
proof -
  let ?d = "jr_device_id request"
  from join have room': "room' = room\<lparr>room_members := room_members room @ [(?d, request)]\<rparr>"
    and new: "\<not> HasMember room ?d" and task: "jr_task_id request = room_task_id room"
    by (auto simp: Join_def result_iff)
  have fresh: "?d \<notin> fst ` set (room_members room)"
    using new by (auto simp: HasMember_def map_of_eq_None_iff)
  have roles: "role_in room' d = role_in room d" if "role_in room d \<noteq> None" for d
    using that fresh by (auto simp: role_in_def room' map_add_def map_of_eq_None_iff split: option.splits)
  have keep: "deliverable room' m" if "deliverable room m" for m
    using that roles [of "rm_sender_device_id m"] roles [of "rm_recipient_device_id m"]
    by (auto simp: deliverable_def room' split: Topology.splits)
  have topology: "topology_ok (room_topology room') (room_members room')"
    using inv join unfolding room_inv_def Join_def
    by (cases "room_topology room") (auto simp: room' list_ex_iff result_iff filter_empty_conv split: if_splits)
  show ?thesis
    unfolding room_inv_def
  proof (intro conjI)
    show "distinct (map fst (room_members room'))"
      using inv fresh by (auto simp: room_inv_def room')
    show "\<forall>(d, request) \<in> set (room_members room'). d = jr_device_id request \<and> jr_task_id request = room_task_id room'"
      using inv task by (auto simp: room_inv_def room')
    show "\<forall>d. \<forall>m \<in> set (room_inboxes room' d). rm_recipient_device_id m = d \<and> deliverable room' m"
      using inv keep by (auto simp: room_inv_def room')
  qed (rule topology)
qed

lemma forward_deliverable:
  assumes "Forward m room = Inr room'" "room_inv room"
  shows "deliverable room m"
proof -
  from assms(1) obtain sender recipient where
    found: "map_of (room_members room) (rm_sender_device_id m) = Some sender"
      "map_of (room_members room) (rm_recipient_device_id m) = Some recipient"
    and plain: "rm_sender_device_id m \<noteq> rm_recipient_device_id m" "rm_payload m \<noteq> []" "length (rm_payload m) \<le> kMaxSignalPayload"
    and checked: "room_topology room = kOneWay \<longrightarrow> check_direction sender recipient (rm_kind m) = Inr ()"
    by (auto simp: Forward_def result_iff split: option.splits if_splits)
  have peers: "jr_role sender = kPeer" "jr_role recipient = kPeer" if "room_topology room = kBidirectional"
    using assms(2) that found [THEN map_of_SomeD] by (auto simp: room_inv_def)
  show ?thesis
  proof (cases "room_topology room")
    case kOneWay
    with checked have "check_direction sender recipient (rm_kind m) = Inr ()" by simp
    with kOneWay plain found show ?thesis
      by (auto simp: deliverable_def role_in_def check_direction_def Let_def split: if_splits)
  next
    case kBidirectional
    with peers plain found show ?thesis by (simp add: deliverable_def role_in_def)
  qed
qed

lemma forward_inv:
  assumes "room_inv room" "Forward m room = Inr room'"
  shows "room_inv room'"
proof -
  from assms(2) have room': "room' = room\<lparr>room_inboxes := (room_inboxes room)
      (rm_recipient_device_id m := room_inboxes room (rm_recipient_device_id m) @ [m])\<rparr>"
    by (auto simp: Forward_def result_iff split: option.splits if_splits)
  have "deliverable room' x = deliverable room x" for x by (simp add: room')
  with forward_deliverable [OF assms(2,1)] assms(1) show ?thesis by (auto simp: room_inv_def room')
qed

lemma drain_inv: "room_inv room \<Longrightarrow> DrainInbox d room = Inr (ms, room') \<Longrightarrow> room_inv room'"
  by (auto simp: DrainInbox_def room_inv_def split: if_splits)

text \<open>
  Whatever joins, forwards and drains happen, a tracker room keeps its admission and routing rules: device ids
  are unique and belong to the room's task; a one-way room holds sources and targets only and at most one
  source, a bidirectional room at most two peers; and every waiting message has a payload of 1 to 64 KiB,
  goes from one member to another, its recipient being the owner of the inbox, between the source and a
  target in a one-way room, where a target can only send answers and ICE candidates and the source never
  sends an answer.
\<close>

theorem tracker_room_rules:
  assumes "TrackerRoom_new task_id topology = Inr room0" "room_step\<^sup>*\<^sup>* room0 room"
  shows "room_inv room"
  using assms(2)
proof (induction rule: rtranclp_induct)
  case base
  then show ?case
    using assms(1) by (cases topology) (auto simp: TrackerRoom_new_def room_inv_def split: if_splits)
next
  case (step room room')
  from step(2,3) show ?case
    by (cases rule: room_step.cases) (auto intro: join_inv forward_inv drain_inv)
qed

definition demo_join :: "string \<Rightarrow> Role \<Rightarrow> JoinRequest" where
  "demo_join d role = \<lparr>jr_task_id = ''t'', jr_sync_key = ''k'', jr_device_id = d, jr_device_fingerprint = ''f'',
     jr_role = role, jr_authorization_token = ''a''\<rparr>"

definition demo_room :: TrackerRoom where
  "demo_room = \<lparr>room_task_id = ''t'', room_topology = kOneWay, room_members = [], room_inboxes = (\<lambda>_. [])\<rparr>"

theorem tracker_room_rules_witness:
  "\<exists>room. room_step\<^sup>*\<^sup>* demo_room room \<and> room_members room \<noteq> [] \<and> room_inv room"
proof -
  have new: "TrackerRoom_new ''t'' kOneWay = Inr demo_room" by (simp add: TrackerRoom_new_def demo_room_def)
  obtain room where "Join (demo_join ''s'' kSource) demo_room = Inr room" "room_members room \<noteq> []"
    by (simp add: Join_def demo_join_def demo_room_def HasMember_def)
  then have "room_step\<^sup>*\<^sup>* demo_room room" by (blast intro: step_join r_into_rtranclp)
  with tracker_room_rules [OF new this] \<open>room_members room \<noteq> []\<close> show ?thesis by blast
qed

section \<open>The relay interface\<close>

text \<open>
  What a signaling session relies on: forwarding appends to the recipient's inbox and leaves the others
  alone, draining returns an inbox and empties it.
\<close>

locale signaling_relay =
  fixes inbox :: "'r \<Rightarrow> string \<Rightarrow> RelayMessage list"
    and forward :: "RelayMessage \<Rightarrow> 'r \<Rightarrow> 'r result"
    and drain :: "string \<Rightarrow> 'r \<Rightarrow> (RelayMessage list \<times> 'r) result"
  assumes forward_inbox:
      "forward m r = Inr r' \<Longrightarrow>
        inbox r' d = inbox r d @ (if d = rm_recipient_device_id m then [m] else [])"
    and drain_inbox:
      "drain d r = Inr (ms, r') \<Longrightarrow> ms = inbox r d \<and> inbox r' = (inbox r)(d := [])"
begin

text \<open>Forwarding several messages appends, for each device, those addressed to it, in order.\<close>

lemma forward_all_inbox:
  "foldE forward ms r = Inr r' \<Longrightarrow>
    inbox r' d = inbox r d @ filter (\<lambda>m. rm_recipient_device_id m = d) ms"
proof (induction ms arbitrary: r)
  case (Cons m ms)
  then obtain s where "forward m r = Inr s" "foldE forward ms s = Inr r'" by (auto simp: result_iff)
  with Cons.IH forward_inbox show ?case by fastforce
qed simp

lemma forward_then_drain:
  assumes "foldE forward ms r = Inr r'" "drain d r' = Inr (got, r'')"
  shows "got = inbox r d @ filter (\<lambda>m. rm_recipient_device_id m = d) ms \<and> inbox r'' d = []"
  using forward_all_inbox [OF assms(1)] drain_inbox [OF assms(2)] by simp

end

interpretation tracker: signaling_relay room_inboxes Forward DrainInbox
  by unfold_locales
    (auto simp: Forward_def DrainInbox_def result_iff split: option.splits if_splits)

text \<open>
  The relay delivers reliably and in order: after any messages have been forwarded, draining a
  member's inbox returns what was waiting there followed by exactly the messages addressed to that
  member, in the order in which they were forwarded, and leaves the inbox empty.
\<close>

theorem relay_delivers_in_order:
  assumes "foldE Forward ms room = Inr room'" "DrainInbox d room' = Inr (got, room'')"
  shows "got = room_inboxes room d @ filter (\<lambda>m. rm_recipient_device_id m = d) ms \<and> room_inboxes room'' d = []"
  using assms by (rule tracker.forward_then_drain)

definition demo_message :: "string \<Rightarrow> RelayMessage" where
  "demo_message payload = \<lparr>rm_kind = mkOffer, rm_sender_device_id = ''s'', rm_recipient_device_id = ''d'', rm_payload = payload,
     rm_candidate_mid = [], rm_candidate_mline_index = - 1\<rparr>"

theorem relay_delivers_in_order_witness:
  "\<exists>room' room''. foldE Forward [demo_message ''x'', demo_message ''y'']
      (demo_room\<lparr>room_members := [(''s'', demo_join ''s'' kSource), (''d'', demo_join ''d'' kTarget)]\<rparr>) = Inr room' \<and>
    DrainInbox ''d'' room' = Inr ([demo_message ''x'', demo_message ''y''], room'')"
proof -
  let ?room = "demo_room\<lparr>room_members := [(''s'', demo_join ''s'' kSource), (''d'', demo_join ''d'' kTarget)]\<rparr>"
  obtain room' where fwd: "foldE Forward [demo_message ''x'', demo_message ''y''] ?room = Inr room'"
    and members: "room_members room' = room_members ?room"
    by (simp add: Forward_def check_direction_def demo_message_def demo_room_def demo_join_def kMaxSignalPayload_def)
  have "HasMember room' ''d''" by (simp add: HasMember_def members)
  then obtain got room'' where drain: "DrainInbox ''d'' room' = Inr (got, room'')" by (simp add: DrainInbox_def)
  have "got = [demo_message ''x'', demo_message ''y'']"
    using relay_delivers_in_order [OF fwd drain] by (simp add: demo_room_def demo_message_def)
  with fwd drain show ?thesis by blast
qed

end
