(* ===== verification/Signaling_Session.thy ===== *)
theory Signaling_Session
  imports Tracker_Contract
begin

text \<open>
  The session that carries offers, answers and ICE candidates between the transport and the relay
  (\<^verbatim>\<open>engine/signaling/signaling_session.cpp\<close>).  The transport below is a parameter: \<open>bridge\<close> tells, from
  the calls made so far, whether the newest one is accepted and which callbacks it runs before it
  returns; later callbacks are steps of their own.  The relay is any instance of the relay interface.
\<close>

section \<open>Model\<close>

record IceCandidate =
  ic_mid :: string
  ic_mline_index :: "32 word"
  ic_candidate :: string

datatype transport_call =
  tcCreateOffer | tcRestartIce | tcApplyOffer string | tcApplyAnswer string | tcApplyIce IceCandidate

datatype transport_event =
  evOffer string | evAnswer string | evIce IceCandidate | evRemoteDescription bool

type_synonym bridge = "transport_call list \<Rightarrow> bool \<times> transport_event list"

record 'r SignalingSession =
  ss_relay :: 'r
  ss_local_device_id :: string
  ss_remote_device_id :: string
  ss_outbound :: "RelayMessage list"
  ss_remote_description_result :: "bool option"
  ss_restart_offer :: bool
  ss_pending_ice :: "IceCandidate list"
  ss_remote_certificate :: string
  ss_reset_messages :: "RelayMessage list"
  ss_calls :: "transport_call list"

definition SignalingSession_new :: "'r \<Rightarrow> string \<Rightarrow> string \<Rightarrow> 'r SignalingSession result" where
  "SignalingSession_new relay local_device_id remote_device_id =
     (if local_device_id = [] \<or> remote_device_id = [] \<or> local_device_id = remote_device_id
      then Inl (Invalid_argument ''signaling session requires two distinct device ids'')
      else Inr \<lparr>ss_relay = relay, ss_local_device_id = local_device_id, ss_remote_device_id = remote_device_id,
        ss_outbound = [], ss_remote_description_result = None, ss_restart_offer = False, ss_pending_ice = [],
        ss_remote_certificate = [], ss_reset_messages = [], ss_calls = []\<rparr>)"

definition outbound_message :: "'r SignalingSession \<Rightarrow> MessageKind \<Rightarrow> string \<Rightarrow> string \<Rightarrow> 32 word \<Rightarrow> RelayMessage" where
  "outbound_message s kind payload mid index =
     \<lparr>rm_kind = kind, rm_sender_device_id = ss_local_device_id s, rm_recipient_device_id = ss_remote_device_id s,
      rm_payload = payload, rm_candidate_mid = mid, rm_candidate_mline_index = index\<rparr>"

text \<open>The four callbacks that the constructor installs.\<close>

fun on_event :: "transport_event \<Rightarrow> 'r SignalingSession \<Rightarrow> 'r SignalingSession" where
  "on_event (evOffer sdp) s =
     (if sdp = [] then s
      else s\<lparr>ss_outbound := ss_outbound s @
               [outbound_message s (if ss_restart_offer s then mkIceRestart else mkOffer) sdp [] (- 1)],
             ss_restart_offer := False\<rparr>)"
| "on_event (evAnswer sdp) s =
     (if sdp = [] then s else s\<lparr>ss_outbound := ss_outbound s @ [outbound_message s mkAnswer sdp [] (- 1)]\<rparr>)"
| "on_event (evIce c) s =
     (if ic_mid c = [] \<or> ic_candidate c = [] then s
      else s\<lparr>ss_outbound := ss_outbound s @
               [outbound_message s mkIceCandidate (ic_candidate c) (ic_mid c) (ic_mline_index c)]\<rparr>)"
| "on_event (evRemoteDescription success) s = s\<lparr>ss_remote_description_result := Some success\<rparr>"

fun call_error :: "transport_call \<Rightarrow> exn" where
  "call_error tcCreateOffer = Runtime_error ''WebRTC could not create offer''"
| "call_error tcRestartIce = Runtime_error ''WebRTC could not restart ICE''"
| "call_error (tcApplyOffer _) = Runtime_error ''WebRTC rejected remote offer''"
| "call_error (tcApplyAnswer _) = Runtime_error ''WebRTC rejected remote answer''"
| "call_error (tcApplyIce _) = Runtime_error ''WebRTC rejected remote ICE candidate''"

definition call_transport :: "bridge \<Rightarrow> transport_call \<Rightarrow> ('r SignalingSession, unit) op" where
  "call_transport bridge c s =
     (case bridge (ss_calls s @ [c]) of (accepted, events) \<Rightarrow>
        ((if accepted then Inr () else Inl (call_error c)),
         fold on_event events (s\<lparr>ss_calls := ss_calls s @ [c]\<rparr>)))"

definition StartOffer :: "bridge \<Rightarrow> ('r SignalingSession, unit) op" where
  "StartOffer bridge = call_transport bridge tcCreateOffer"

definition RestartIce :: "bridge \<Rightarrow> ('r SignalingSession, unit) op" where
  "RestartIce bridge =
     thenS (modifyS (\<lambda>s. s\<lparr>ss_restart_offer := True, ss_pending_ice := [], ss_remote_description_result := None\<rparr>))
       (call_transport bridge tcRestartIce)"

text \<open>The certificate line of a description: from the marker to the end of its line, if there is one.\<close>

fun find_marker :: "string \<Rightarrow> string \<Rightarrow> string option" where
  "find_marker marker [] = None"
| "find_marker marker (c # cs) =
     (if take (length marker) (c # cs) = marker then Some (c # cs) else find_marker marker cs)"

definition certificate_of :: "string \<Rightarrow> string option" where
  "certificate_of payload =
     map_option (takeWhile (\<lambda>c. c \<noteq> CHR 0x0D \<and> c \<noteq> CHR 0x0A)) (find_marker ''a=fingerprint:'' payload)"

definition apply_description :: "bridge \<Rightarrow> RelayMessage \<Rightarrow> ('r SignalingSession, unit) op" where
  "apply_description bridge m =
     thenS (modifyS (\<lambda>s. s\<lparr>ss_remote_description_result := None\<rparr>))
       (call_transport bridge
         (if rm_kind m \<noteq> mkAnswer then tcApplyOffer (rm_payload m) else tcApplyAnswer (rm_payload m)))"

definition ApplyMessage :: "bridge \<Rightarrow> RelayMessage \<Rightarrow> ('r SignalingSession, unit) op" where
  "ApplyMessage bridge m s =
     (if rm_sender_device_id m \<noteq> ss_remote_device_id s
      then (Inl (Invalid_argument ''signal sender does not match session peer''), s)
      else if rm_kind m = mkIceCandidate then
        if rm_payload m = [] \<or> rm_candidate_mid m = [] \<or> sint (rm_candidate_mline_index m) < - 1
        then (Inl (Invalid_argument ''invalid ICE candidate relay message''), s)
        else (Inr (), s\<lparr>ss_pending_ice := ss_pending_ice s @
          [\<lparr>ic_mid = rm_candidate_mid m, ic_mline_index = rm_candidate_mline_index m, ic_candidate = rm_payload m\<rparr>]\<rparr>)
      else if rm_payload m = [] then (Inl (Invalid_argument ''empty session description''), s)
      else case certificate_of (rm_payload m) of
        None \<Rightarrow> apply_description bridge m s
      | Some certificate \<Rightarrow>
          if ss_remote_certificate s \<noteq> [] \<and> ss_remote_certificate s \<noteq> certificate
          then (Inr (), s\<lparr>ss_reset_messages := ss_reset_messages s @ [m]\<rparr>)
          else apply_description bridge m (s\<lparr>ss_remote_certificate := certificate\<rparr>))"

definition ApplyReadyCandidates :: "bridge \<Rightarrow> ('r SignalingSession, unit) op" where
  "ApplyReadyCandidates bridge =
     bindS (getS ss_remote_description_result) (\<lambda>verdict.
     case verdict of
       None \<Rightarrow> returnS ()
     | Some False \<Rightarrow> throwS (Runtime_error ''WebRTC rejected remote description'')
     | Some True \<Rightarrow>
        bindS (getS ss_pending_ice) (\<lambda>candidates.
        thenS (modifyS (\<lambda>s. s\<lparr>ss_pending_ice := []\<rparr>))
          (forS (\<lambda>c. call_transport bridge (tcApplyIce c)) candidates)))"

text \<open>The relay's operations act on the relay component of the session.\<close>

definition on_relay :: "('r \<Rightarrow> ('a \<times> 'r) result) \<Rightarrow> ('r SignalingSession, 'a) op" where
  "on_relay f s = (case f (ss_relay s) of Inl e \<Rightarrow> (Inl e, s) | Inr (x, r) \<Rightarrow> (Inr x, s\<lparr>ss_relay := r\<rparr>))"

definition handle_message :: "bridge \<Rightarrow> RelayMessage \<Rightarrow> ('r SignalingSession, unit) op" where
  "handle_message bridge m s =
     (if ss_reset_messages s \<noteq> [] then (Inr (), s\<lparr>ss_reset_messages := ss_reset_messages s @ [m]\<rparr>)
      else ApplyMessage bridge m s)"

definition Pump ::
  "(RelayMessage \<Rightarrow> 'r \<Rightarrow> 'r result) \<Rightarrow> (string \<Rightarrow> 'r \<Rightarrow> (RelayMessage list \<times> 'r) result) \<Rightarrow> bridge \<Rightarrow>
   ('r SignalingSession, unit) op" where
  "Pump forward drain bridge =
     bindS (getS ss_outbound) (\<lambda>outbound.
     thenS (modifyS (\<lambda>s. s\<lparr>ss_outbound := []\<rparr>))
    (thenS (forS (\<lambda>m. on_relay (\<lambda>r. map_sum id (Pair ()) (forward m r))) outbound)
    (bindS (getS ss_local_device_id) (\<lambda>device.
     bindS (on_relay (drain device)) (\<lambda>inbox.
     thenS (forS (handle_message bridge) inbox)
    (bindS (getS ss_reset_messages) (\<lambda>reset.
     if reset = [] then ApplyReadyCandidates bridge else returnS ())))))))"

definition TakeResetMessages :: "('r SignalingSession, RelayMessage list) op" where
  "TakeResetMessages s = (Inr (ss_reset_messages s), s\<lparr>ss_reset_messages := []\<rparr>)"

section \<open>One peer per session\<close>

fun description :: "transport_call \<Rightarrow> string option" where
  "description (tcApplyOffer sdp) = Some sdp"
| "description (tcApplyAnswer sdp) = Some sdp"
| "description _ = None"

lemma certificate_nonempty: "certificate_of payload = Some f \<Longrightarrow> f \<noteq> []"
proof -
  have "find_marker ''a=fingerprint:'' p = Some q \<Longrightarrow> \<exists>rest. q = CHR ''a'' # rest" for p q
    by (induction "''a=fingerprint:''" p rule: find_marker.induct) (auto split: if_splits)
  then show "certificate_of payload = Some f \<Longrightarrow> f \<noteq> []" by (fastforce simp: certificate_of_def)
qed

text \<open>Every description applied so far that names a certificate names the one the session holds.\<close>

definition pinned :: "'r SignalingSession \<Rightarrow> bool" where
  "pinned s \<longleftrightarrow> (\<forall>c \<in> set (ss_calls s). \<forall>sdp f. description c = Some sdp \<and> certificate_of sdp = Some f \<longrightarrow>
     f = ss_remote_certificate s)"

lemma event_fields [simp]:
  "ss_calls (on_event e s) = ss_calls s" "ss_remote_certificate (on_event e s) = ss_remote_certificate s"
  by (cases e; simp)+

lemma events_fields [simp]:
  "ss_calls (fold on_event es s) = ss_calls s" "ss_remote_certificate (fold on_event es s) = ss_remote_certificate s"
  by (induction es arbitrary: s) simp_all

lemma call_transport_pinned:
  assumes "pinned s" "\<forall>sdp f. description c = Some sdp \<and> certificate_of sdp = Some f \<longrightarrow> f = ss_remote_certificate s"
  shows "pinned (snd (call_transport bridge c s))"
  using assms by (auto simp: pinned_def call_transport_def split: prod.splits)

lemma pinned_updates [simp]:
  "pinned (s\<lparr>ss_reset_messages := x\<rparr>) = pinned s" "pinned (s\<lparr>ss_pending_ice := y\<rparr>) = pinned s"
  "pinned (s\<lparr>ss_outbound := x\<rparr>) = pinned s" "pinned (s\<lparr>ss_relay := r\<rparr>) = pinned s"
  "pinned (s\<lparr>ss_remote_description_result := v\<rparr>) = pinned s" "pinned (s\<lparr>ss_restart_offer := b\<rparr>) = pinned s"
  by (simp_all add: pinned_def)

lemma apply_description_pinned:
  assumes "pinned s" "\<forall>f. certificate_of (rm_payload m) = Some f \<longrightarrow> f = ss_remote_certificate s"
  shows "pinned (snd (apply_description bridge m s))"
proof -
  let ?s = "s\<lparr>ss_remote_description_result := None\<rparr>"
  have "pinned ?s" using assms(1) by (simp add: pinned_def)
  then show ?thesis
    using assms(2) call_transport_pinned [of ?s] by (auto simp: apply_description_def op_defs)
qed

lemma ApplyMessage_pinned:
  assumes "pinned s"
  shows "pinned (snd (ApplyMessage bridge m s))"
proof (cases "certificate_of (rm_payload m)")
  case None
  then show ?thesis
    using assms apply_description_pinned [OF assms, of m bridge] by (simp add: ApplyMessage_def)
next
  case (Some f)
  have "pinned (s\<lparr>ss_remote_certificate := f\<rparr>)" if "ss_remote_certificate s = [] \<or> ss_remote_certificate s = f"
    using that assms certificate_nonempty by (fastforce simp: pinned_def)
  then show ?thesis
    using Some assms apply_description_pinned [of "s\<lparr>ss_remote_certificate := f\<rparr>" m bridge]
    by (auto simp: ApplyMessage_def)
qed

lemma keeps_handle [intro]: "keepsS pinned (handle_message bridge m)"
  unfolding keepsS_def handle_message_def by (simp add: ApplyMessage_pinned)

lemma keeps_calls [intro]: "description c = None \<Longrightarrow> keepsS pinned (call_transport bridge c)"
  unfolding keepsS_def using call_transport_pinned by fastforce

lemma keeps_relay [intro]: "keepsS pinned (on_relay f)"
  unfolding keepsS_def on_relay_def by (auto simp: pinned_def split: sum.splits)

lemma keeps_ready [intro]: "keepsS pinned (ApplyReadyCandidates bridge)"
  unfolding ApplyReadyCandidates_def
  by (intro keepsS_bind keepsS_get)
    (auto intro!: keepsS_modify keepsS_bind keepsS_then keepsS_for keeps_calls split: option.splits bool.splits)

lemma keeps_Pump: "keepsS pinned (Pump forward drain bridge)"
  unfolding Pump_def by (intro keepsS_bind keepsS_then keepsS_get keepsS_modify keepsS_for) (auto simp: pinned_def)

lemma keeps_RestartIce: "keepsS pinned (RestartIce bridge)"
  unfolding RestartIce_def by (intro keepsS_then keepsS_modify keeps_calls) auto

text \<open>A session's life: its operations, transport callbacks, and other devices acting on the relay.\<close>

inductive session_step ::
  "(RelayMessage \<Rightarrow> 'r \<Rightarrow> 'r result) \<Rightarrow> (string \<Rightarrow> 'r \<Rightarrow> (RelayMessage list \<times> 'r) result) \<Rightarrow> bridge \<Rightarrow>
   'r SignalingSession \<Rightarrow> 'r SignalingSession \<Rightarrow> bool" for forward drain bridge where
  "session_step forward drain bridge s (snd (StartOffer bridge s))"
| "session_step forward drain bridge s (snd (RestartIce bridge s))"
| "session_step forward drain bridge s (snd (Pump forward drain bridge s))"
| "session_step forward drain bridge s (snd (TakeResetMessages s))"
| "session_step forward drain bridge s (on_event e s)"
| "session_step forward drain bridge s (s\<lparr>ss_relay := r\<rparr>)"

lemma session_step_pinned:
  assumes "session_step forward drain bridge s t" "pinned s"
  shows "pinned t"
  using assms
proof (cases rule: session_step.cases)
  case 1
  then show ?thesis using assms(2) by (simp add: StartOffer_def keepsD keeps_calls)
next
  case 2
  then show ?thesis using assms(2) by (simp add: keepsD keeps_RestartIce)
next
  case 3
  then show ?thesis using assms(2) by (simp add: keepsD keeps_Pump)
qed (simp_all add: TakeResetMessages_def, simp add: pinned_def)

lemma reachable_pinned:
  assumes "SignalingSession_new relay here there = Inr s0" "(session_step forward drain bridge)\<^sup>*\<^sup>* s0 s"
  shows "pinned s"
  using assms(2)
proof (induction rule: rtranclp_induct)
  case base
  then show ?case using assms(1) by (auto simp: SignalingSession_new_def pinned_def split: if_splits)
next
  case (step t u)
  then show ?case using session_step_pinned by blast
qed

text \<open>
  C36: a session never mixes two remote peers.  Take any state that operations, callbacks and relay traffic, failed ones included, lead
  to, and a description applied to the transport that names a DTLS certificate.  Every other offer or answer that was applied and
  names a certificate names the same one; and an offer, answer or restart from the peer with another certificate is not applied:
  handling it makes no call of the transport, and the message is set aside behind those that already wait for a new session.
\<close>

theorem one_certificate_per_session:
  assumes "SignalingSession_new relay here there = Inr s0" "(session_step forward drain bridge)\<^sup>*\<^sup>* s0 s"
    and "c \<in> set (ss_calls s)" "description c = Some sdp" "certificate_of sdp = Some f"
  shows "(\<forall>c' \<in> set (ss_calls s). \<forall>sdp' f'. description c' = Some sdp' \<and> certificate_of sdp' = Some f' \<longrightarrow> f' = f) \<and>
    (\<forall>m f'. rm_sender_device_id m = ss_remote_device_id s \<and> rm_kind m \<noteq> mkIceCandidate \<and>
      certificate_of (rm_payload m) = Some f' \<and> f' \<noteq> f \<longrightarrow>
      handle_message bridge m s = (Inr (), s\<lparr>ss_reset_messages := ss_reset_messages s @ [m]\<rparr>))"
proof -
  have held: "f = ss_remote_certificate s" using reachable_pinned [OF assms(1,2)] assms(3-5) unfolding pinned_def by metis
  moreover have "f \<noteq> []" using certificate_nonempty [OF assms(5)] .
  moreover have "certificate_of [] = None" by (simp add: certificate_of_def)
  ultimately show ?thesis
    using reachable_pinned [OF assms(1,2)] by (auto simp: pinned_def handle_message_def ApplyMessage_def)
qed

definition demo_signal :: "MessageKind \<Rightarrow> string \<Rightarrow> RelayMessage" where
  "demo_signal kind payload = \<lparr>rm_kind = kind, rm_sender_device_id = ''b'', rm_recipient_device_id = ''a'', rm_payload = payload,
     rm_candidate_mid = [], rm_candidate_mline_index = - 1\<rparr>"

text \<open>A session whose inbox held an offer with one certificate; then an offer with another one arrives.\<close>

theorem one_certificate_per_session_witness:
  "\<exists>s0 s. SignalingSession_new [demo_signal mkOffer ''a=fingerprint:1''] ''a'' ''b'' = Inr s0 \<and>
     (session_step (\<lambda>m r. Inr (r @ [m])) (\<lambda>d r. Inr (r, [])) (\<lambda>_. (True, [])))\<^sup>*\<^sup>* s0 s \<and>
     ss_calls s = [tcApplyOffer ''a=fingerprint:1''] \<and>
     handle_message (\<lambda>_. (True, [])) (demo_signal mkOffer ''a=fingerprint:2'') s =
       (Inr (), s\<lparr>ss_reset_messages := [demo_signal mkOffer ''a=fingerprint:2'']\<rparr>)"
proof -
  let ?bridge = "\<lambda>_. (True, [])" and ?drain = "\<lambda>d r. Inr (r, [])" and ?forward = "\<lambda>m r. Inr (r @ [m])"
  obtain s0 where new: "SignalingSession_new [demo_signal mkOffer ''a=fingerprint:1''] ''a'' ''b'' = Inr s0"
    by (simp add: SignalingSession_new_def)
  let ?s = "snd (Pump ?forward ?drain ?bridge s0)"
  have run: "(session_step ?forward ?drain ?bridge)\<^sup>*\<^sup>* s0 ?s" by (blast intro: session_step.intros)
  have certs: "certificate_of ''a=fingerprint:1'' = Some ''a=fingerprint:1''" "certificate_of ''a=fingerprint:2'' = Some ''a=fingerprint:2''"
    by (simp_all add: certificate_of_def)
  have s: "ss_calls ?s = [tcApplyOffer ''a=fingerprint:1'']" "ss_remote_device_id ?s = ''b''" "ss_reset_messages ?s = []"
    using new by (auto simp: SignalingSession_new_def Pump_def op_defs on_relay_def handle_message_def ApplyMessage_def demo_signal_def
        certs apply_description_def call_transport_def ApplyReadyCandidates_def)
  have "handle_message ?bridge (demo_signal mkOffer ''a=fingerprint:2'') ?s =
      (Inr (), ?s\<lparr>ss_reset_messages := ss_reset_messages ?s @ [demo_signal mkOffer ''a=fingerprint:2'']\<rparr>)"
    using one_certificate_per_session [OF new run, of "tcApplyOffer ''a=fingerprint:1''", OF _ description.simps(1) certs(1)] s certs
    by (simp add: demo_signal_def)
  then show ?thesis using run new s by (intro exI [of _ s0] exI [of _ ?s]) simp
qed

end
