(* ===== verification/Chunk_Transfer.thy ===== *)
theory Chunk_Transfer
  imports Send_Scheduler Safe_File_Writer Resume_Request
begin

text \<open>
  Both ends of a file transfer: the chunk source and the upload session
  (\<^verbatim>\<open>engine/sync/chunk_source.cpp\<close>, \<^verbatim>\<open>engine/sync/upload_session.cpp\<close>) and the download receiver
  (\<^verbatim>\<open>engine/sync/download_receiver.cpp\<close>).  A source's open stream and its path name the same file,
  since Windows does not replace a file that is open this way; the stream is its open flag and its state,
  which a read that comes up short leaves failed.
\<close>

section \<open>Chunk source\<close>

record ChunkSource =
  cs_source_path :: path
  cs_transfer_id :: bytes
  cs_file_hash :: bytes
  cs_stream_open :: bool
  cs_stream_good :: bool

definition ChunkSource_new :: "path \<Rightarrow> bytes \<Rightarrow> bytes \<Rightarrow> ChunkSource" where
  "ChunkSource_new source_path transfer_id file_hash =
     \<lparr>cs_source_path = source_path, cs_transfer_id = transfer_id, cs_file_hash = file_hash,
      cs_stream_open = False, cs_stream_good = True\<rparr>"

type_synonym source_state = "ChunkSource \<times> FileSystem"

abbreviation on_files :: "(FileSystem, 'a) op \<Rightarrow> (source_state, 'a) op" where
  "on_files \<equiv> zoomS snd (\<lambda>fs s. (fst s, fs))"

definition ValidateRequest :: "(bytes \<Rightarrow> bytes) \<Rightarrow> FileRequest \<Rightarrow> (source_state, unit) op" where
  "ValidateRequest blake3 request =
     bindS (getS fst) (\<lambda>source.
     thenS (guardS (request_transfer_id request \<noteq> cs_transfer_id source \<or> request_file_hash request \<noteq> cs_file_hash source)
       (Invalid_argument ''file request does not match transfer''))
    (bindS (on_files (Blake3File blake3 (cs_source_path source))) (\<lambda>hash.
     guardS (hash \<noteq> cs_file_hash source) (Runtime_error ''transfer source changed''))))"

abbreviation update_source :: "(ChunkSource \<Rightarrow> ChunkSource) \<Rightarrow> (source_state, unit) op" where
  "update_source f \<equiv> modifyS (\<lambda>s. (f (fst s), snd s))"

text \<open>
  Opening the stream unless it is open, and whether it is usable then: opening sets the state, but the
  state of a stream that was open before is the one its last read left.
\<close>

definition open_stream :: "(source_state, bool) op" where
  "open_stream =
     bindS (getS fst) (\<lambda>source.
     if cs_stream_open source then returnS (cs_stream_good source)
     else bindS (on_files (sys_open (cs_source_path source))) (\<lambda>opened.
       thenS (update_source (\<lambda>s. s\<lparr>cs_stream_open := opened, cs_stream_good := opened\<rparr>)) (returnS opened)))"

definition read_at :: "path \<Rightarrow> nat \<Rightarrow> nat \<Rightarrow> (FileSystem, bytes) op" where
  "read_at p offset len = bindS next_fault (\<lambda>f. getS (\<lambda>s.
     case (f, file_bytes s p) of (None, Some content) \<Rightarrow> take len (drop offset content) | _ \<Rightarrow> []))"

definition ReadChunk :: "(bytes \<Rightarrow> bytes) \<Rightarrow> u64 \<Rightarrow> (source_state, Chunk) op" where
  "ReadChunk blake3 chunk_index =
     bindS (getS fst) (\<lambda>source.
     bindS (on_files (sys_file_size (cs_source_path source))) (\<lambda>measured.
     case measured of
       None \<Rightarrow> throwS (Runtime_error ''file_size'')
     | Some file_length \<Rightarrow>
        let size = word_of_nat file_length :: u64; chunk_size = word_of_nat kLogicalChunkSize;
            total_chunks = (size + chunk_size - 1) div chunk_size in
        thenS (guardS (total_chunks \<le> chunk_index) (Invalid_argument ''requested chunk is outside source''))
       (bindS open_stream (\<lambda>opened.
        thenS (guardS (\<not> opened) (Runtime_error ''cannot read transfer source''))
       (let offset = chunk_index * chunk_size; len = unat (min chunk_size (size - offset)) in
        bindS (on_files (read_at (cs_source_path source) (unat offset) len)) (\<lambda>bytes.
        thenS (update_source (\<lambda>s. s\<lparr>cs_stream_good := length bytes = len\<rparr>))
       (thenS (guardS (length bytes \<noteq> len) (Runtime_error ''cannot read transfer chunk''))
        (returnS \<lparr>chunk_transfer_id = cs_transfer_id source, chunk_file_hash = cs_file_hash source,
           chunk_offset = offset, chunk_chunk_hash = blake3 bytes, chunk_bytes = bytes\<rparr>))))))))"

section \<open>Upload session\<close>

record UploadSession =
  up_source :: source_state
  up_scheduler :: SendScheduler
  up_requested_ranges :: "ChunkRange list"
  up_next_request_id :: u64

definition UploadSession_new :: "ChunkSource \<Rightarrow> FileSystem \<Rightarrow> nat \<Rightarrow> nat \<Rightarrow> UploadSession result" where
  "UploadSession_new source files max_pending_bytes resume_below_bytes =
     bindE (new_SendScheduler max_pending_bytes resume_below_bytes) (\<lambda>scheduler.
       Inr \<lparr>up_source = (source, files), up_scheduler = scheduler, up_requested_ranges = [], up_next_request_id = 1\<rparr>)"

abbreviation on_source :: "(source_state, 'a) op \<Rightarrow> (UploadSession, 'a) op" where
  "on_source \<equiv> zoomS up_source (\<lambda>t s. s\<lparr>up_source := t\<rparr>)"

definition QueueRequested :: "(bytes \<Rightarrow> bytes) \<Rightarrow> FileRequest \<Rightarrow> (UploadSession, unit) op" where
  "QueueRequested blake3 request =
     thenS (on_source (ValidateRequest blake3 request))
       (modifyS (\<lambda>s. s\<lparr>up_requested_ranges := up_requested_ranges s @ missing_ranges request\<rparr>))"

definition scheduler_next :: "nat \<Rightarrow> (UploadSession, PendingSend option) op" where
  "scheduler_next buffered s =
     (case SendScheduler_Next buffered (up_scheduler s) of (p, q) \<Rightarrow> (Inr p, s\<lparr>up_scheduler := q\<rparr>))"

definition advance_range :: "ChunkRange list \<Rightarrow> ChunkRange list" where
  "advance_range ranges = (case ranges of
     [] \<Rightarrow> []
   | r # rest \<Rightarrow>
      let r' = r\<lparr>first_chunk := first_chunk r + 1, chunk_count := chunk_count r - 1\<rparr> in
      if chunk_count r' = 0 then rest else r' # rest)"

definition NextForTransport :: "(bytes \<Rightarrow> bytes) \<Rightarrow> nat \<Rightarrow> (UploadSession, PendingSend option) op" where
  "NextForTransport blake3 buffered_bytes =
     bindS (scheduler_next buffered_bytes) (\<lambda>pending.
     if pending \<noteq> None then returnS pending
     else bindS (getS (\<lambda>s. s)) (\<lambda>s.
       case up_requested_ranges s of
         [] \<Rightarrow> returnS None
       | front # _ \<Rightarrow>
          if \<not> CanResume buffered_bytes (up_scheduler s) then returnS None
          else
           bindS (on_source (ReadChunk blake3 (first_chunk front))) (\<lambda>chunk.
           thenS (modifyS (\<lambda>s. s\<lparr>up_requested_ranges := advance_range (up_requested_ranges s)\<rparr>))
          (thenS (modifyS (\<lambda>s. s\<lparr>up_next_request_id := up_next_request_id s + 1\<rparr>))
          (bindS (liftS (\<lambda>_. EncodeChunkFrame chunk (up_next_request_id s))) (\<lambda>wire.
           thenS (\<lambda>s. case SendScheduler_Enqueue \<lparr>ps_channel = kBulk, ps_priority = spBulk, ps_wire = wire\<rparr> (up_scheduler s) of
                    Inl e \<Rightarrow> (Inl e, s) | Inr q \<Rightarrow> (Inr (), s\<lparr>up_scheduler := q\<rparr>))
             (scheduler_next buffered_bytes)))))))"

definition UploadSession_PendingBytes :: "UploadSession \<Rightarrow> nat" where
  "UploadSession_PendingBytes s = ss_pending_bytes (up_scheduler s)"

definition HasPending :: "UploadSession \<Rightarrow> bool" where
  "HasPending s \<longleftrightarrow> up_requested_ranges s \<noteq> [] \<or> ss_pending_bytes (up_scheduler s) \<noteq> 0"

section \<open>Download receiver\<close>

record DownloadReceiver =
  dr_database :: Database
  dr_files :: FileSystem
  dr_transfer_id :: TransferId
  dr_writer :: SafeFileWriter
  dr_relative_path :: string
  dr_expected_size :: u64
  dr_expected_hash :: bytes
  dr_chunk_count :: u64
  dr_cancelled :: bool
  dr_accepted :: "bool list"
  dr_received_bytes :: u64

abbreviation logical_chunk :: u64 where
  "logical_chunk \<equiv> word_of_nat kLogicalChunkSize"

text \<open>The constructor's loop over the chunks that an earlier run made durable.\<close>

definition restore_chunk :: "u64 \<Rightarrow> DownloadReceiver \<Rightarrow> DownloadReceiver result" where
  "restore_chunk index r =
     (if dr_chunk_count r \<le> index then Inl (Runtime_error ''durable chunk index is out of range'')
      else Inr (r\<lparr>dr_accepted := (dr_accepted r)[unat index := True],
             dr_received_bytes := dr_received_bytes r +
               min logical_chunk (dr_expected_size r - index * logical_chunk)\<rparr>))"

definition DownloadReceiver_new ::
  "Database \<Rightarrow> FileSystem \<Rightarrow> TransferId \<Rightarrow> SafeFileWriter \<Rightarrow> string \<Rightarrow> u64 \<Rightarrow> bytes \<Rightarrow> u64 \<Rightarrow> DownloadReceiver result" where
  "DownloadReceiver_new database files transfer_id writer relative_path expected_size expected_hash expected_chunks =
     (if relative_path = [] \<or> expected_chunks = 0 then Inl (Invalid_argument ''download metadata is invalid'')
      else if expected_size div logical_chunk + (if expected_size mod logical_chunk \<noteq> 0 then 1 else 0) \<noteq> expected_chunks
      then Inl (Invalid_argument ''download chunk count does not match size'')
      else foldE restore_chunk (CompletedTransferChunks transfer_id (db_tables database))
        \<lparr>dr_database = database, dr_files = files, dr_transfer_id = transfer_id, dr_writer = writer,
         dr_relative_path = relative_path, dr_expected_size = expected_size, dr_expected_hash = expected_hash,
         dr_chunk_count = expected_chunks, dr_cancelled = False, dr_accepted = replicate (unat expected_chunks) False,
         dr_received_bytes = 0\<rparr>)"

abbreviation in_database :: "(Database, 'a) op \<Rightarrow> (DownloadReceiver, 'a) op" where
  "in_database \<equiv> zoomS dr_database (\<lambda>d r. r\<lparr>dr_database := d\<rparr>)"

abbreviation in_files :: "(FileSystem, 'a) op \<Rightarrow> (DownloadReceiver, 'a) op" where
  "in_files \<equiv> zoomS dr_files (\<lambda>f r. r\<lparr>dr_files := f\<rparr>)"

definition refuse_cancelled :: "(DownloadReceiver, unit) op" where
  "refuse_cancelled = bindS (getS dr_cancelled) (\<lambda>c. guardS c (Logic_error ''download is cancelled''))"

definition AcceptChunk ::
  "(bytes \<Rightarrow> bytes) \<Rightarrow> u64 \<Rightarrow> u64 \<Rightarrow> bytes \<Rightarrow> bytes \<Rightarrow> int \<Rightarrow> bool \<Rightarrow> (DownloadReceiver, bool) op" where
  "AcceptChunk blake3 chunk_index offset bytes chunk_hash updated_at_ms persist =
     thenS refuse_cancelled
    (bindS (getS (\<lambda>r. r)) (\<lambda>r.
     let expected_offset = chunk_index * logical_chunk;
         expected_length = (if expected_offset < dr_expected_size r
           then min logical_chunk (dr_expected_size r - expected_offset) else 0) in
     thenS (guardS (dr_chunk_count r \<le> chunk_index \<or> offset \<noteq> expected_offset \<or>
         length bytes \<noteq> unat expected_length \<or> blake3 bytes \<noteq> chunk_hash)
         (Invalid_argument ''download chunk is invalid''))
     (if dr_accepted r ! unat chunk_index then returnS False
      else
       thenS (in_files (WritePartialChunk (dr_writer r) (dr_relative_path r) offset bytes persist))
      (thenS (if persist then in_database (MarkTransferChunkCompleted (dr_transfer_id r) chunk_index updated_at_ms) else returnS ())
      (thenS (modifyS (\<lambda>r. r\<lparr>dr_accepted := (dr_accepted r)[unat chunk_index := True],
                dr_received_bytes := dr_received_bytes r + word_of_nat (length bytes)\<rparr>))
       (returnS True))))))"

definition PersistAcceptedChunks :: "u64 list \<Rightarrow> int \<Rightarrow> (DownloadReceiver, unit) op" where
  "PersistAcceptedChunks chunk_indices updated_at_ms =
     thenS refuse_cancelled
    (bindS (getS (\<lambda>r. r)) (\<lambda>r.
     thenS (in_files (FlushPartial (dr_writer r) (dr_relative_path r)))
       (in_database (MarkTransferChunksCompleted (dr_transfer_id r) chunk_indices updated_at_ms))))"

definition ResumeRequest :: "(DownloadReceiver, FileRequest) op" where
  "ResumeRequest =
     thenS refuse_cancelled
       (liftS (\<lambda>r. BuildResumeRequest (dr_transfer_id r) (dr_expected_hash r) (dr_chunk_count r) (db_tables (dr_database r))))"

definition DownloadReceiver_Cancel :: "Cancel \<Rightarrow> int \<Rightarrow> (DownloadReceiver, unit) op" where
  "DownloadReceiver_Cancel cancel cancelled_at_ms =
     bindS (getS dr_transfer_id) (\<lambda>transfer_id.
     thenS (guardS (cancel_transfer_id cancel \<noteq> transfer_id) (Invalid_argument ''cancel does not match transfer''))
    (thenS (in_database (UpdateTransferState transfer_id ''cancelled'' cancelled_at_ms (Some (cancel_reason cancel))))
     (modifyS (\<lambda>r. r\<lparr>dr_cancelled := True\<rparr>))))"

definition DownloadReceiver_Commit :: "(bytes \<Rightarrow> bytes) \<Rightarrow> int \<Rightarrow> (DownloadReceiver, unit) op" where
  "DownloadReceiver_Commit blake3 completed_at_ms =
     thenS refuse_cancelled
    (bindS (getS (\<lambda>r. r)) (\<lambda>r.
     let completed = CompletedTransferChunks (dr_transfer_id r) (db_tables (dr_database r)) in
     thenS (guardS (length completed \<noteq> unat (dr_chunk_count r)) (Logic_error ''download has missing chunks''))
    (thenS (guardS (\<exists>i < length completed. completed ! i \<noteq> word_of_nat i) (Logic_error ''download has missing chunks''))
    (thenS (in_files (CommitPartial blake3 (dr_writer r) (dr_relative_path r) (dr_expected_size r) (dr_expected_hash r)))
     (in_database (UpdateTransferState (dr_transfer_id r) ''completed'' completed_at_ms None))))))"

end
