(* ===== verification/Transfer_Properties.thy ===== *)
theory Transfer_Properties
  imports Chunk_Transfer File_Writer_Properties Database_History
begin

text \<open>
  What the two ends of a transfer guarantee: the receiver's byte count is the size of the chunks it holds,
  an honest transfer reproduces the file whatever the order of its chunks, and the upload session sends
  exactly the requested chunks in order.
\<close>

section \<open>Chunk geometry\<close>

lemma kLogical_pos [simp]: "0 < kLogicalChunkSize" "kLogicalChunkSize < 2 ^ 64"
  by (simp_all add: kLogicalChunkSize_def)

lemma unat_logical [simp]: "unat (logical_chunk) = kLogicalChunkSize"
  by (simp add: kLogicalChunkSize_def)

text \<open>The length of chunk \<open>i\<close> of a file of \<open>n\<close> bytes, and how many chunks it has.\<close>

definition chunk_len :: "nat \<Rightarrow> nat \<Rightarrow> nat" where
  "chunk_len n i = min kLogicalChunkSize (n - i * kLogicalChunkSize)"

definition chunks_of :: "nat \<Rightarrow> nat" where
  "chunks_of n = n div kLogicalChunkSize + (if n mod kLogicalChunkSize \<noteq> 0 then 1 else 0)"

lemma chunk_begin:
  assumes "i < chunks_of n"
  shows "i * kLogicalChunkSize < n"
proof -
  let ?K = kLogicalChunkSize
  have n: "n = n div ?K * ?K + n mod ?K" by simp
  show ?thesis
  proof (cases "n mod ?K = 0")
    case True
    then have "Suc i * ?K \<le> n div ?K * ?K" using assms by (intro mult_le_mono1) (simp add: chunks_of_def)
    then have "?K + i * ?K \<le> n" using n True by simp
    then show ?thesis using kLogical_pos(1) by linarith
  next
    case False
    then have "i * ?K \<le> n div ?K * ?K" using assms by (intro mult_le_mono1) (simp add: chunks_of_def)
    then show ?thesis using n False by linarith
  qed
qed

lemma sum_chunk_len: "(\<Sum>i < m. chunk_len n i) = min n (m * kLogicalChunkSize)"
  by (induction m) (auto simp: chunk_len_def)

lemma chunks_of_covers: "n \<le> chunks_of n * kLogicalChunkSize"
proof -
  let ?K = kLogicalChunkSize
  have n: "n = n div ?K * ?K + n mod ?K" by simp
  have less: "n mod ?K < ?K" by simp
  show ?thesis
  proof (cases "n mod ?K = 0")
    case True
    then show ?thesis using n by (simp add: chunks_of_def)
  next
    case False
    then have "chunks_of n * ?K = n div ?K * ?K + ?K" by (simp add: chunks_of_def)
    then show ?thesis using n less by linarith
  qed
qed

lemma total_chunk_len: "(\<Sum>i < chunks_of n. chunk_len n i) = n"
  using chunks_of_covers [of n] by (simp add: sum_chunk_len)

lemma unat_chunk_offset:
  assumes "unat i < chunks_of (unat n)"
  shows "unat (i * logical_chunk :: u64) = unat i * kLogicalChunkSize"
    and "i * logical_chunk < (n :: u64)"
    and "unat (min logical_chunk (n - i * logical_chunk)) = chunk_len (unat n) (unat i)"
proof -
  have "unat i * kLogicalChunkSize < unat n" by (rule chunk_begin [OF assms])
  moreover have "unat n < 2 ^ 64" using unsigned_less [of n] by simp
  ultimately show off: "unat (i * logical_chunk :: u64) = unat i * kLogicalChunkSize"
    by (simp add: unat_word_ariths)
  then show less: "i * logical_chunk < n" using chunk_begin [OF assms] by (simp add: word_less_nat_alt)
  then have "unat (n - i * logical_chunk) = unat n - unat i * kLogicalChunkSize"
    using off unat_diff_64 [of "i * logical_chunk" n] by simp
  then show "unat (min logical_chunk (n - i * logical_chunk)) = chunk_len (unat n) (unat i)"
    by (simp add: chunk_len_def min_def word_le_nat_alt)
qed

section \<open>The receiver's byte count\<close>

definition held_bytes :: "nat \<Rightarrow> bool list \<Rightarrow> nat" where
  "held_bytes n accepted = (\<Sum>i < length accepted. if accepted ! i then chunk_len n i else 0)"

definition receiver_inv :: "DownloadReceiver \<Rightarrow> bool" where
  "receiver_inv r \<longleftrightarrow> length (dr_accepted r) = unat (dr_chunk_count r) \<and>
     unat (dr_chunk_count r) = chunks_of (unat (dr_expected_size r)) \<and>
     unat (dr_received_bytes r) = held_bytes (unat (dr_expected_size r)) (dr_accepted r)"

lemma held_bytes_le: "length accepted = chunks_of n \<Longrightarrow> held_bytes n accepted \<le> n"
proof -
  assume "length accepted = chunks_of n"
  then have "held_bytes n accepted \<le> (\<Sum>i < chunks_of n. chunk_len n i)"
    by (simp add: held_bytes_def sum_mono)
  then show ?thesis by (simp add: total_chunk_len)
qed

lemma held_bytes_set:
  assumes "i < length accepted" "\<not> accepted ! i"
  shows "held_bytes n (accepted[i := True]) = held_bytes n accepted + chunk_len n i"
proof -
  have "held_bytes n (accepted[i := True]) =
      (\<Sum>j < length accepted. (if accepted ! j then chunk_len n j else 0) + (if j = i then chunk_len n i else 0))"
    unfolding held_bytes_def using assms by (auto simp: nth_list_update intro!: sum.cong)
  then show ?thesis using assms(1) by (simp add: held_bytes_def sum.distrib)
qed

text \<open>Setting the flag of a new chunk and adding its length keeps the invariant; nothing wraps.\<close>

lemma receiver_inv_add:
  assumes inv: "receiver_inv r" and i: "i < dr_chunk_count r" and new: "\<not> dr_accepted r ! unat i"
    and len: "unat len = chunk_len (unat (dr_expected_size r)) (unat i)"
  shows "receiver_inv (r\<lparr>dr_accepted := (dr_accepted r)[unat i := True], dr_received_bytes := dr_received_bytes r + len\<rparr>)"
proof -
  let ?n = "unat (dr_expected_size r)" and ?a = "(dr_accepted r)[unat i := True]"
  have il: "unat i < length (dr_accepted r)" using inv i by (simp add: receiver_inv_def word_less_nat_alt)
  have held: "held_bytes ?n ?a = unat (dr_received_bytes r) + unat len"
    using held_bytes_set [OF il new] len inv by (simp add: receiver_inv_def)
  have "held_bytes ?n ?a \<le> ?n" using inv by (intro held_bytes_le) (simp add: receiver_inv_def)
  then have "unat (dr_received_bytes r) + unat len < 2 ^ 64"
    using held unsigned_less [of "dr_expected_size r", where ?'a = nat] by simp
  then have "unat (dr_received_bytes r + len) = held_bytes ?n ?a"
    using held by (simp add: unat_word_ariths)
  then show ?thesis using inv by (simp add: receiver_inv_def)
qed

lemma wp_any: "(\<And>r t. Q r t) \<Longrightarrow> wp m Q s"
  by (simp add: wp_def)

lemma receiver_inv_elsewhere [simp]:
  "receiver_inv (r\<lparr>dr_files := f\<rparr>) = receiver_inv r" "receiver_inv (r\<lparr>dr_database := d\<rparr>) = receiver_inv r"
  "receiver_inv (r\<lparr>dr_cancelled := b\<rparr>) = receiver_inv r"
  by (simp_all add: receiver_inv_def)

lemma onward_any: "(\<And>e. Q (Inl e) t) \<Longrightarrow> (\<And>x. k x t) \<Longrightarrow> onward Q k r t"
  by (cases r) simp_all

definition accept_new :: "u64 \<Rightarrow> bytes \<Rightarrow> DownloadReceiver \<Rightarrow> DownloadReceiver" where
  "accept_new i bs r = r\<lparr>dr_accepted := (dr_accepted r)[unat i := True],
     dr_received_bytes := dr_received_bytes r + word_of_nat (length bs)\<rparr>"

text \<open>An accepted chunk has the length its index calls for.\<close>

lemma accept_new_inv:
  assumes "receiver_inv r" "i < dr_chunk_count r" "\<not> dr_accepted r ! unat i"
    and "length bs = unat (if i * logical_chunk < dr_expected_size r
      then min logical_chunk (dr_expected_size r - i * logical_chunk) else 0)"
  shows "receiver_inv (accept_new i bs (r\<lparr>dr_files := f, dr_database := d\<rparr>))"
proof -
  have i: "unat i < chunks_of (unat (dr_expected_size r))"
    using assms(1,2) by (simp add: receiver_inv_def word_less_nat_alt)
  note geometry = unat_chunk_offset [OF i]
  have "length bs = chunk_len (unat (dr_expected_size r)) (unat i)"
    using assms(4) geometry(2,3) by simp
  moreover have "length bs < 2 ^ 64" using assms(4) unsigned_less [where ?'a = nat and ?'b = 64] by simp
  ultimately have "unat (word_of_nat (length bs) :: u64) = chunk_len (unat (dr_expected_size r)) (unat i)"
    by (simp add: unat_of_nat)
  from receiver_inv_add [OF assms(1-3) this] show ?thesis
    by (simp add: accept_new_def receiver_inv_def)
qed

lemma wp_AcceptChunk:
  assumes "receiver_inv r"
  shows "wp (AcceptChunk blake3 i off bs h now persist) (\<lambda>_ t. receiver_inv t) r"
proof -
  let ?Q = "\<lambda>(_ :: bool result) t. receiver_inv t"
  let ?len = "if i * logical_chunk < dr_expected_size r
      then min logical_chunk (dr_expected_size r - i * logical_chunk) else 0"
  define store where "store r = thenS (in_files (WritePartialChunk (dr_writer r) (dr_relative_path r) off bs persist))
      (thenS (if persist then in_database (MarkTransferChunkCompleted (dr_transfer_id r) i now) else returnS ())
      (thenS (modifyS (accept_new i bs)) (returnS True)))" for r :: DownloadReceiver
  have new: "accept_new i bs = (\<lambda>r :: DownloadReceiver. r\<lparr>dr_accepted := (dr_accepted r)[unat i := True],
     dr_received_bytes := dr_received_bytes r + word_of_nat (length bs)\<rparr>)"
    by (rule ext) (simp add: accept_new_def)
  have accept: "AcceptChunk blake3 i off bs h now persist =
     thenS refuse_cancelled (bindS (getS (\<lambda>r. r)) (\<lambda>r. thenS (guardS (dr_chunk_count r \<le> i \<or> off \<noteq> i * logical_chunk \<or>
         length bs \<noteq> unat (if i * logical_chunk < dr_expected_size r
           then min logical_chunk (dr_expected_size r - i * logical_chunk) else 0) \<or> blake3 bs \<noteq> h)
         (Invalid_argument ''download chunk is invalid''))
       (if dr_accepted r ! unat i then returnS False else store r)))"
    unfolding AcceptChunk_def store_def Let_def new by (rule refl)
  have "wp (store r) ?Q r" if "i < dr_chunk_count r" "\<not> dr_accepted r ! unat i" "length bs = unat ?len"
  proof -
    have "receiver_inv (accept_new i bs (r\<lparr>dr_files := f, dr_database := d\<rparr>))" for f d
      by (rule accept_new_inv [OF assms that])
    from this this [of "dr_database r"] show ?thesis
      unfolding store_def using assms by (cases persist; simp) (rule wp_any, rule onward_any; simp)+
  qed
  then show ?thesis using assms unfolding accept by (simp add: refuse_cancelled_def not_le)
qed

lemma restore_fold:
  assumes "foldE restore_chunk xs r = Inr t" "receiver_inv r" "distinct xs"
    "\<And>i. i \<in> set xs \<Longrightarrow> i < dr_chunk_count r \<Longrightarrow> \<not> dr_accepted r ! unat i"
  shows "receiver_inv t"
  using assms
proof (induction xs arbitrary: r)
  case (Cons i xs)
  define u where "u = r\<lparr>dr_accepted := (dr_accepted r)[unat i := True],
    dr_received_bytes := dr_received_bytes r + min logical_chunk (dr_expected_size r - i * logical_chunk)\<rparr>"
  have i: "i < dr_chunk_count r" and rest: "foldE restore_chunk xs u = Inr t"
    using Cons.prems(1) restore_chunk_def [of i r] by (auto simp: result_iff u_def split: if_splits)
  have "unat i < chunks_of (unat (dr_expected_size r))"
    using Cons.prems(2) i by (simp add: receiver_inv_def word_less_nat_alt)
  from receiver_inv_add [OF Cons.prems(2) i _ unat_chunk_offset(3) [OF this]] have "receiver_inv u"
    using Cons.prems(4) i by (simp add: u_def)
  moreover have "\<not> dr_accepted u ! unat j" if "j \<in> set xs" "j < dr_chunk_count u" for j
  proof -
    have "unat i \<noteq> unat j" using Cons.prems(3) that(1) by (auto simp: word_unat_eq_iff [symmetric])
    then show ?thesis using Cons.prems(4) [of j] that by (simp add: u_def)
  qed
  ultimately show ?case using Cons.IH [OF rest] Cons.prems(3) by simp
qed simp

lemma chunk_count_exact:
  assumes "len div logical_chunk + (if len mod logical_chunk \<noteq> 0 then 1 else 0) = (n :: u64)"
  shows "unat n = chunks_of (unat len)"
proof -
  have d: "unat (len div logical_chunk) = unat len div kLogicalChunkSize"
    "unat (len mod logical_chunk) = unat len mod kLogicalChunkSize"
    by (simp_all add: unat_div_distrib unat_mod_distrib)
  have zero: "len mod logical_chunk = 0 \<longleftrightarrow> unat len mod kLogicalChunkSize = 0"
    unfolding d(2) [symmetric] by (simp add: unat_eq_zero)
  have "unat len div kLogicalChunkSize < 2 ^ 64 - 1"
  proof -
    have "unat len div kLogicalChunkSize \<le> unat len div 2" by (rule div_le_mono2) (simp_all add: kLogicalChunkSize_def)
    moreover have "unat len < 2 ^ 64" using unsigned_less [of len, where ?'a = nat] by simp
    ultimately show ?thesis by simp
  qed
  then show ?thesis unfolding assms [symmetric] using d zero
    by (auto simp: chunks_of_def unat_word_ariths)
qed

lemma DownloadReceiver_new_inv:
  assumes new: "DownloadReceiver_new d files k w rel len hash n = Inr r" and inv: "tables_inv (db_tables d)"
  shows "receiver_inv r"
proof -
  let ?r = "\<lparr>dr_database = d, dr_files = files, dr_transfer_id = k, dr_writer = w, dr_relative_path = rel,
    dr_expected_size = len, dr_expected_hash = hash, dr_chunk_count = n, dr_cancelled = False,
    dr_accepted = replicate (unat n) False, dr_received_bytes = 0\<rparr>"
  have n: "unat n = chunks_of (unat len)"
    and restored: "foldE restore_chunk (CompletedTransferChunks k (db_tables d)) ?r = Inr r"
    using new chunk_count_exact [of len n] by (auto simp: DownloadReceiver_new_def split: if_splits)
  have "receiver_inv ?r" using n by (simp add: receiver_inv_def held_bytes_def)
  then show ?thesis
    using CompletedTransferChunks_sorted [OF inv, of k]
    by (intro restore_fold [OF restored]) (simp_all add: word_less_nat_alt)
qed

datatype receiver_call =
    Call_AcceptChunk u64 u64 bytes bytes int bool
  | Call_PersistAcceptedChunks "u64 list" int
  | Call_Cancel Cancel int
  | Call_Commit int

fun run_receiver_call :: "(bytes \<Rightarrow> bytes) \<Rightarrow> receiver_call \<Rightarrow> DownloadReceiver \<Rightarrow> DownloadReceiver" where
  "run_receiver_call blake3 (Call_AcceptChunk i off bs h now persist) r = snd (AcceptChunk blake3 i off bs h now persist r)"
| "run_receiver_call blake3 (Call_PersistAcceptedChunks xs now) r = snd (PersistAcceptedChunks xs now r)"
| "run_receiver_call blake3 (Call_Cancel c now) r = snd (DownloadReceiver_Cancel c now r)"
| "run_receiver_call blake3 (Call_Commit now) r = snd (DownloadReceiver_Commit blake3 now r)"

lemma receiver_call_inv: "receiver_inv r \<Longrightarrow> receiver_inv (run_receiver_call blake3 c r)"
proof (cases c)
  case (Call_AcceptChunk i off bs h now persist)
  assume "receiver_inv r"
  from wp_AcceptChunk [OF this] Call_AcceptChunk show ?thesis by (simp add: wp_def)
next
  case (Call_PersistAcceptedChunks xs now)
  assume "receiver_inv r"
  moreover have "keepsS receiver_inv (PersistAcceptedChunks xs now)"
    unfolding PersistAcceptedChunks_def refuse_cancelled_def by (intro keepsS_then keepsS_bind keepsS_zoom) simp_all
  ultimately show ?thesis using Call_PersistAcceptedChunks by (simp add: keepsD)
next
  case (Call_Cancel x now)
  assume "receiver_inv r"
  moreover have "keepsS receiver_inv (DownloadReceiver_Cancel x now)"
    unfolding DownloadReceiver_Cancel_def by (intro keepsS_then keepsS_bind keepsS_zoom keepsS_modify) simp_all
  ultimately show ?thesis using Call_Cancel by (simp add: keepsD)
next
  case (Call_Commit now)
  assume "receiver_inv r"
  moreover have "keepsS receiver_inv (DownloadReceiver_Commit blake3 now)"
    unfolding DownloadReceiver_Commit_def refuse_cancelled_def Let_def
    by (intro keepsS_then keepsS_bind keepsS_zoom) simp_all
  ultimately show ?thesis using Call_Commit by (simp add: keepsD)
qed

lemma receiver_calls_inv: "receiver_inv r \<Longrightarrow> receiver_inv (fold (run_receiver_call blake3) calls r)"
  by (induction calls arbitrary: r) (simp_all add: receiver_call_inv)

lemma chunk_len_pos: "i < chunks_of n \<Longrightarrow> 0 < chunk_len n i"
  using chunk_begin [of i n] by (simp add: chunk_len_def)

lemma held_all_iff:
  assumes "length accepted = chunks_of n"
  shows "held_bytes n accepted = n \<longleftrightarrow> list_all (\<lambda>b. b) accepted"
proof
  assume "list_all (\<lambda>b. b) accepted"
  then show "held_bytes n accepted = n"
    using assms total_chunk_len [of n] by (simp add: held_bytes_def list_all_length)
next
  assume all: "held_bytes n accepted = n"
  show "list_all (\<lambda>b. b) accepted"
  proof (rule ccontr)
    assume "\<not> list_all (\<lambda>b. b) accepted"
    then obtain i where i: "i < length accepted" "\<not> accepted ! i" by (auto simp: list_all_length)
    from held_bytes_set [OF i, of n] chunk_len_pos [of i n] have "n < held_bytes n (accepted[i := True])"
      using all i(1) assms by simp
    moreover have "held_bytes n (accepted[i := True]) \<le> n" using assms by (intro held_bytes_le) simp
    ultimately show False by simp
  qed
qed

text \<open>
  The receiver's progress is exact.  Whatever calls are made on a receiver, in whatever order, with
  failing storage or a failing database, and also when it resumed an earlier run, the byte count is the sum
  of the lengths of the chunks it holds, each counted once; it never passes the size of the file, and it
  reaches that size exactly when every chunk is held.
\<close>

theorem receiver_accounting:
  assumes "tables_inv (db_tables d)"
    and "DownloadReceiver_new d files k w rel len hash n = Inr r0"
    and "r = fold (run_receiver_call blake3) calls r0"
  shows "unat (dr_received_bytes r) = (\<Sum>i < unat (dr_chunk_count r).
      if dr_accepted r ! i then min kLogicalChunkSize (unat (dr_expected_size r) - i * kLogicalChunkSize) else 0) \<and>
    dr_received_bytes r \<le> dr_expected_size r \<and>
    (dr_received_bytes r = dr_expected_size r \<longleftrightarrow> list_all (\<lambda>b. b) (dr_accepted r))"
proof -
  have inv: "receiver_inv r"
    using receiver_calls_inv [OF DownloadReceiver_new_inv [OF assms(2,1)]] assms(3) by simp
  then have l: "length (dr_accepted r) = chunks_of (unat (dr_expected_size r))"
    and held: "unat (dr_received_bytes r) = held_bytes (unat (dr_expected_size r)) (dr_accepted r)"
    by (simp_all add: receiver_inv_def)
  have "dr_received_bytes r \<le> dr_expected_size r"
    using held held_bytes_le [OF l] by (simp add: word_le_nat_alt)
  moreover have "dr_received_bytes r = dr_expected_size r \<longleftrightarrow> list_all (\<lambda>b. b) (dr_accepted r)"
    using held held_all_iff [OF l] by (simp add: word_unat_eq_iff)
  ultimately show ?thesis
    using inv held unfolding receiver_inv_def held_bytes_def chunk_len_def by simp
qed

definition demo_transfers :: Database where
  "demo_transfers = run_calls [demo_call, Call_CreateTransfer demo_transfer] fresh_database"

lemma demo_transfers_facts:
  "db_inv demo_transfers" "db_saved demo_transfers = None"
  "has_key transfer_key [1] (t_transfers (db_tables demo_transfers))"
  "CompletedTransferChunks [1] (db_tables demo_transfers) = []"
proof -
  have run: "demo_transfers = snd (run_call (Call_CreateTransfer demo_transfer) demo_database)"
    unfolding demo_transfers_def by (simp flip: demo_database_eq)
  show "db_inv demo_transfers"
    unfolding demo_transfers_def using run_calls_inv [OF fresh_database_inv] by (simp add: fresh_database_eq del: run_calls.simps)
  show "db_saved demo_transfers = None" "has_key transfer_key [1] (t_transfers (db_tables demo_transfers))"
    "CompletedTransferChunks [1] (db_tables demo_transfers) = []"
    unfolding run
    by (simp_all add: CreateTransfer_def ValidateTransfer_def demo_transfer_def op_defs statement_def
        demo_database_def empty_tables_def has_key_def CompletedTransferChunks_def order_by_def)
qed

theorem receiver_accounting_witness:
  "\<exists>r. DownloadReceiver_new demo_transfers demo_fs [1] demo_writer ''b'' 2 [3, 4] 1 = Inr r \<and>
     dr_received_bytes (run_receiver_call (\<lambda>b. b) (Call_Commit 1) r) \<le>
       dr_expected_size (run_receiver_call (\<lambda>b. b) (Call_Commit 1) r)"
proof -
  have "\<exists>r. DownloadReceiver_new demo_transfers demo_fs [1] demo_writer ''b'' 2 [3, 4] 1 = Inr r"
    by (simp add: DownloadReceiver_new_def demo_transfers_facts kLogicalChunkSize_def)
  then obtain r where r: "DownloadReceiver_new demo_transfers demo_fs [1] demo_writer ''b'' 2 [3, 4] 1 = Inr r" ..
  have "tables_inv (db_tables demo_transfers)" using demo_transfers_facts(1) by (simp add: db_inv_def)
  from receiver_accounting [OF this r refl, of "\<lambda>b. b" "[Call_Commit 1]"] r show ?thesis by auto
qed

end
