(* ===== verification/Download_Reassembly.thy ===== *)
theory Download_Reassembly
  imports Transfer_Properties
begin

text \<open>
  A download from an honest peer: whatever the order of the chunks, repeated ones included, and also when it
  continues an earlier run, the committed file is the file of the source.
\<close>

section \<open>Writing at an offset\<close>

lemma overlay_Nil [simp]: "overlay old off [] = old"
  by (simp add: overlay_def)

lemma length_overlay: "bs \<noteq> [] \<Longrightarrow> length (overlay old off bs) = max (length old) (off + length bs)"
  by (simp add: overlay_def)

lemma overlay_nth:
  assumes "j < off + length bs \<or> j < length old" "bs \<noteq> []"
  shows "overlay old off bs ! j =
    (if off \<le> j \<and> j < off + length bs then bs ! (j - off) else if j < length old then old ! j else 0)"
  using assms by (auto simp: overlay_def nth_append min_def)

lemma ensure_loop_ok:
  assumes "real_dirs (node_at s) (cur @ cs)" "fs_faults s = []"
  shows "ensure_loop cur cs s = (Inr (), s)"
  using assms
proof (induction cs arbitrary: cur)
  case (Cons c cs)
  have "real_dirs (node_at s) (cur @ [c])"
    using Cons.prems(1) real_dirs_append [of "node_at s" "cur @ [c]" cs] by simp
  then show ?case
    using Cons.IH [of "cur @ [c]"] Cons.prems by (simp add: ensure_component_def op_defs status_of_def)
qed (simp add: op_defs)

lemma EnsureSafeDirectory_ok:
  "real_dirs (node_at s) d \<Longrightarrow> fs_faults s = [] \<Longrightarrow> EnsureSafeDirectory d s = (Inr (), s)"
  unfolding EnsureSafeDirectory_def by (intro ensure_loop_ok) simp_all

text \<open>The task, its writer and the place of the file in an intact file system.\<close>

definition download_place :: "SafeFileWriter \<Rightarrow> string \<Rightarrow> path \<Rightarrow> string \<Rightarrow> FileSystem \<Rightarrow> bool" where
  "download_place w rel d c s \<longleftrightarrow> (\<exists>root. wr_canonical w (wr_task_root w) = Some root \<and> canonical_root root \<and>
     wr_task_root w \<noteq> [] \<and> real_dirs (node_at s) root \<and> safe_relative rel \<and> root @ path_components rel = d @ [c]) \<and>
     fs_faults s = [] \<and> real_dirs (node_at s) d \<and> node_status (node_at s (d @ [c])) \<in> {stNotFound, stRegular}"

definition part_content :: "path \<Rightarrow> string \<Rightarrow> FileSystem \<Rightarrow> bytes option" where
  "part_content d c s = (case node_at s (d @ [c @ ''.part'']) of
     None \<Rightarrow> Some [] | Some (Regular b) \<Rightarrow> Some b | _ \<Rightarrow> None)"

lemma part_content_Some:
  "part_content d c s = Some old \<longleftrightarrow>
     node_at s (d @ [c @ ''.part'']) = Some (Regular old) \<or> node_at s (d @ [c @ ''.part'']) = None \<and> old = []"
  by (auto simp: part_content_def split: option.splits node.splits)

lemma place_resolve:
  "download_place w rel d c s \<Longrightarrow> resolve w rel s = (Inr (d @ [c]), s)"
  unfolding download_place_def by (metis resolve_ok)

lemma write_existing_part:
  assumes "fs_faults s = []" "real_dirs (node_at s) d" "node_at s (d @ [p]) = Some (Regular old)"
  shows "\<exists>t. sys_write (d @ [p]) off bs s = (Inr True, t) \<and>
    node_at t = (node_at s)(d @ [p] \<mapsto> Regular (overlay old off bs)) \<and> fs_faults t = []"
  using assms by (simp add: sys_write_def op_defs real_path_real)

lemma create_part:
  assumes "fs_faults s = []" "real_dirs (node_at s) d" "d \<noteq> []" "node_at s (d @ [p]) = None"
  shows "sys_create_file (d @ [p]) s = (Inr True, set_node (d @ [p]) (Regular []) s)"
  using assms real_dirs_last [of "node_at s" d] by (simp add: sys_create_file_def op_defs real_path_real)

lemma RejectSymlink_ok:
  assumes "fs_faults s = []" "real_dirs (node_at s) d" "\<forall>x. node_at s (d @ [c]) \<noteq> Some (Symlink x)"
  shows "RejectSymlink (d @ [c]) m s = (Inr (), s)"
  using assms by (auto simp: RejectSymlink_def op_defs status_of_def)

lemma exists_ok:
  assumes "fs_faults s = []" "real_dirs (node_at s) d" "\<forall>x. node_at s (d @ [c]) \<noteq> Some (Symlink x)"
  shows "exists_throwing (d @ [c]) s = (Inr (node_at s (d @ [c]) \<noteq> None), s)"
  using assms by (auto simp: exists_throwing_def op_defs status_of_def real_path_real)

lemma FlushPartFile_ok:
  assumes "fs_faults s = []" "real_dirs (node_at s) d" "node_at s (d @ [p]) = Some (Regular b)"
  shows "FlushPartFile (d @ [p]) s = (Inr (), s)"
  using assms by (simp add: FlushPartFile_def op_defs file_bytes_def real_path_real)

lemma place_parent: "download_place w rel d c s \<Longrightarrow> d \<noteq> []"
proof -
  assume "download_place w rel d c s"
  then obtain root where r: "canonical_root root" "safe_relative rel" "root @ path_components rel = d @ [c]"
    by (auto simp: download_place_def)
  then have "root \<noteq> []" "path_components rel \<noteq> []" by (auto simp: canonical_root_def safe_relative_def)
  then have "d = root @ butlast (path_components rel)"
    using r(3) by (metis butlast_append butlast_snoc)
  then show "d \<noteq> []" using \<open>root \<noteq> []\<close> by simp
qed

lemma WritePartialChunk_ok:
  assumes place: "download_place w rel d c s" and old: "part_content d c s = Some old" and bs: "bs \<noteq> []"
    and off: "unat off \<le> kStreamoffMax" "unat off + length bs < 2 ^ 64"
  shows "\<exists>t. WritePartialChunk w rel off bs flush s = (Inr (), t) \<and>
    node_at t = (node_at s)(d @ [c @ ''.part''] \<mapsto> Regular (overlay old (unat off) bs)) \<and> fs_faults t = []"
proof -
  let ?p = "c @ ''.part''"
  have s: "fs_faults s = []" "real_dirs (node_at s) d" "\<forall>x. node_at s (d @ [c]) \<noteq> Some (Symlink x)"
    using place by (auto simp: download_place_def)
  have part: "\<forall>x. node_at s (d @ [?p]) \<noteq> Some (Symlink x)" using old by (auto simp: part_content_Some)
  define s1 where "s1 = (if node_at s (d @ [?p]) = None then set_node (d @ [?p]) (Regular []) s else s)"
  have created: "(if node_at s (d @ [?p]) \<noteq> None then returnS () else bindS (sys_create_file (d @ [?p])) (\<lambda>created.
      guardS (\<not> created) e)) s = (Inr (), s1)" for e
    using create_part [OF s(1,2) place_parent [OF place], of ?p] by (simp add: s1_def op_defs)
  have s1: "fs_faults s1 = []" "real_dirs (node_at s1) d" "node_at s1 (d @ [?p]) = Some (Regular old)"
    "(node_at s1)(d @ [?p] \<mapsto> x) = (node_at s)(d @ [?p] \<mapsto> x)" for x
    using s(1,2) old by (auto simp: s1_def part_content_Some real_dirs_below)
  obtain t where t: "sys_write (d @ [?p]) (unat off) bs s1 = (Inr True, t)"
    "node_at t = (node_at s)(d @ [?p] \<mapsto> Regular (overlay old (unat off) bs))" "fs_faults t = []"
    using write_existing_part [OF s1(1-3), of "unat off" bs] s1(4) by auto
  have opened: "sys_open (d @ [?p]) s1 = (Inr True, s1)"
    using s1 by (simp add: file_bytes_def real_path_real)
  have flushed: "FlushPartFile (d @ [?p]) t = (Inr (), t)"
    using t(2,3) s(2) by (intro FlushPartFile_ok) (simp_all add: real_dirs_below)
  have room: "\<not> unat (- 1 - off) < length bs"
  proof -
    have "unat (- 1 - off) = 2 ^ 64 - 1 - unat off"
      using unat_diff_64 [of off "- 1"] by (simp add: unsigned_minus_1_eq_mask mask_eq_exp_minus_1)
    then show ?thesis using off(2) by simp
  qed
  have "WritePartialChunk w rel off bs flush s = (Inr (), t)"
    using off(1) room bs place_resolve [OF place] EnsureSafeDirectory_ok [OF s(2,1)] RejectSymlink_ok [OF s]
      RejectSymlink_ok [OF s(1,2) part] exists_ok [OF s(1,2) part] opened t(1) flushed created
    by (auto simp: WritePartialChunk_def thenS_def bindS_def guardS_def returnS_def ResumablePartPath_def Let_def)
  then show ?thesis using t by blast
qed

section \<open>Reassembly\<close>

text \<open>Chunk \<open>i\<close> of a file, and that a partial file holds the file's bytes there.\<close>

definition chunk_at :: "bytes \<Rightarrow> nat \<Rightarrow> bytes" where
  "chunk_at file i = take kLogicalChunkSize (drop (i * kLogicalChunkSize) file)"

definition agrees :: "bytes \<Rightarrow> bytes \<Rightarrow> nat \<Rightarrow> bool" where
  "agrees file part i \<longleftrightarrow> (\<forall>j. i * kLogicalChunkSize \<le> j \<and> j < i * kLogicalChunkSize + kLogicalChunkSize \<and> j < length file \<longrightarrow>
     j < length part \<and> part ! j = file ! j)"

lemma length_chunk_at: "length (chunk_at file i) = chunk_len (length file) i"
  by (simp add: chunk_at_def chunk_len_def)

lemma chunk_at_nonempty: "i < chunks_of (length file) \<Longrightarrow> chunk_at file i \<noteq> []"
  using chunk_len_pos [of i "length file"] by (simp flip: length_greater_0_conv add: length_chunk_at)

lemma overlay_agrees:
  assumes i: "i < chunks_of (length file)"
  shows "agrees file (overlay part (i * kLogicalChunkSize) (chunk_at file i)) i"
    and "agrees file part m \<Longrightarrow> agrees file (overlay part (i * kLogicalChunkSize) (chunk_at file i)) m"
    and "length part \<le> length file \<Longrightarrow> length (overlay part (i * kLogicalChunkSize) (chunk_at file i)) \<le> length file"
proof -
  let ?K = kLogicalChunkSize and ?o = "overlay part (i * kLogicalChunkSize) (chunk_at file i)"
  have len: "length ?o = max (length part) (i * ?K + chunk_len (length file) i)"
    using chunk_at_nonempty [OF i] by (simp add: length_overlay length_chunk_at)
  have inside: "?o ! j = file ! j" if "i * ?K \<le> j" "j < i * ?K + chunk_len (length file) i" for j
    using that chunk_at_nonempty [OF i]
    by (subst overlay_nth) (simp_all add: length_chunk_at, simp add: chunk_at_def chunk_len_def)
  have outside: "?o ! j = part ! j" if "\<not> (i * ?K \<le> j \<and> j < i * ?K + chunk_len (length file) i)" "j < length part" for j
    using that chunk_at_nonempty [OF i] by (subst overlay_nth) (auto simp: length_chunk_at)
  show "agrees file ?o i"
    unfolding agrees_def using inside len by (auto simp: chunk_len_def)
  show "agrees file ?o m" if "agrees file part m"
    using that inside outside unfolding agrees_def len by (metis less_max_iff_disj)
  show "length part \<le> length file \<Longrightarrow> length ?o \<le> length file"
    using chunk_begin [OF i] by (simp add: len chunk_len_def)
qed

lemma agrees_all:
  assumes "length part \<le> length file" "\<And>i. i < chunks_of (length file) \<Longrightarrow> agrees file part i"
  shows "part = file"
proof -
  let ?K = kLogicalChunkSize
  have each: "j < length part \<and> part ! j = file ! j" if "j < length file" for j
  proof -
    have "j < chunks_of (length file) * ?K" using that chunks_of_covers [of "length file"] by simp
    then have "agrees file part (j div ?K)" by (intro assms(2)) (rule less_mult_imp_div_less)
    moreover have "j div ?K * ?K \<le> j" "j < j div ?K * ?K + ?K"
      using dividend_less_div_times [of ?K j] by (simp_all add: kLogicalChunkSize_def)
    ultimately show ?thesis using that by (simp add: agrees_def)
  qed
  then have "length file \<le> length part"
    by (metis leI less_irrefl_nat)
  then show ?thesis using assms(1) each by (intro nth_equalityI) simp_all
qed

section \<open>An honest download\<close>

text \<open>
  The state of a receiver between two calls: the place is intact, the transfer is in the database, and the
  partial file agrees with the source on every chunk that counts as received.
\<close>

definition honest :: "(bytes \<Rightarrow> bytes) \<Rightarrow> bytes \<Rightarrow> path \<Rightarrow> string \<Rightarrow> DownloadReceiver \<Rightarrow> bool" where
  "honest blake3 file d c r \<longleftrightarrow> receiver_inv r \<and> \<not> dr_cancelled r \<and> file \<noteq> [] \<and>
     download_place (dr_writer r) (dr_relative_path r) d c (dr_files r) \<and>
     unat (dr_expected_size r) = length file \<and> dr_expected_hash r = blake3 file \<and> length file \<le> kStreamoffMax \<and>
     db_inv (dr_database r) \<and> db_saved (dr_database r) = None \<and>
     has_key transfer_key (dr_transfer_id r) (t_transfers (db_tables (dr_database r))) \<and>
     (\<forall>i < dr_chunk_count r. i \<in> set (CompletedTransferChunks (dr_transfer_id r) (db_tables (dr_database r))) \<longleftrightarrow>
        dr_accepted r ! unat i) \<and>
     set (CompletedTransferChunks (dr_transfer_id r) (db_tables (dr_database r))) \<subseteq> {i. i < dr_chunk_count r} \<and>
     (\<exists>part. part_content d c (dr_files r) = Some part \<and> length part \<le> length file \<and>
        (\<forall>i < length (dr_accepted r). dr_accepted r ! i \<longrightarrow> agrees file part i))"

definition offer :: "(bytes \<Rightarrow> bytes) \<Rightarrow> bytes \<Rightarrow> int \<Rightarrow> u64 \<Rightarrow> (DownloadReceiver, bool) op" where
  "offer blake3 file now i = AcceptChunk blake3 i (i * logical_chunk) (chunk_at file (unat i))
     (blake3 (chunk_at file (unat i))) now True"

lemma AcceptChunk_new:
  assumes "\<not> dr_cancelled r" "i < dr_chunk_count r" "\<not> dr_accepted r ! unat i"
    and "length bs = unat (if i * logical_chunk < dr_expected_size r
      then min logical_chunk (dr_expected_size r - i * logical_chunk) else 0)"
    and "WritePartialChunk (dr_writer r) (dr_relative_path r) (i * logical_chunk) bs True (dr_files r) = (Inr (), t)"
    and "MarkTransferChunksCompleted (dr_transfer_id r) [i] now (dr_database r) = (Inr (), d)"
  shows "AcceptChunk blake3 i (i * logical_chunk) bs (blake3 bs) now True r =
    (Inr True, accept_new i bs (r\<lparr>dr_files := t, dr_database := d\<rparr>))"
  using assms
  by (simp add: AcceptChunk_def refuse_cancelled_def op_defs zoomS_def MarkTransferChunkCompleted_def accept_new_def)

lemma place_part:
  assumes "download_place w rel d c s" "node_at t = (node_at s)(d @ [c @ ''.part''] \<mapsto> Regular b)" "fs_faults t = []"
  shows "download_place w rel d c t" "part_content d c t = Some b"
proof -
  have "real_dirs (node_at t) root" if "real_dirs (node_at s) root" "root @ path_components rel = d @ [c]" "safe_relative rel" for root
  proof -
    have "path_components rel \<noteq> []" using that(3) by (simp add: safe_relative_def)
    then have "d = root @ butlast (path_components rel)" using that(2) by (metis butlast_append butlast_snoc)
    moreover have "real_dirs (node_at t) d" using assms by (simp add: download_place_def real_dirs_below)
    ultimately show ?thesis using real_dirs_append by metis
  qed
  then show "download_place w rel d c t"
    using assms by (auto simp: download_place_def real_dirs_below)
  show "part_content d c t = Some b" using assms(2) by (simp add: part_content_def)
qed

lemma honest_offer:
  assumes honest: "honest blake3 file d c r" and i: "i < dr_chunk_count r" and now: "0 < now"
  shows "\<exists>b t. offer blake3 file now i r = (Inr b, t) \<and> honest blake3 file d c t \<and>
    dr_chunk_count t = dr_chunk_count r \<and> dr_transfer_id t = dr_transfer_id r \<and>
    dr_writer t = dr_writer r \<and> dr_relative_path t = dr_relative_path r \<and>
    dr_accepted t = (dr_accepted r)[unat i := True]"
proof -
  let ?bs = "chunk_at file (unat i)" and ?n = "unat (dr_expected_size r)" and ?k = "dr_transfer_id r"
  have h: "receiver_inv r" "\<not> dr_cancelled r" "download_place (dr_writer r) (dr_relative_path r) d c (dr_files r)"
    "?n = length file" "length file \<le> kStreamoffMax" "db_inv (dr_database r)" "db_saved (dr_database r) = None"
    "has_key transfer_key ?k (t_transfers (db_tables (dr_database r)))"
    using honest by (simp_all add: honest_def)
  obtain part where part: "part_content d c (dr_files r) = Some part" "length part \<le> length file"
    "\<And>j. j < length (dr_accepted r) \<Longrightarrow> dr_accepted r ! j \<Longrightarrow> agrees file part j"
    using honest by (auto simp: honest_def)
  have ui: "unat i < chunks_of (length file)" "unat i < length (dr_accepted r)"
    using h(1,4) i by (simp_all add: receiver_inv_def word_less_nat_alt)
  note geometry = unat_chunk_offset [of i "dr_expected_size r", unfolded h(4), OF ui(1)]
  have len: "length ?bs = unat (if i * logical_chunk < dr_expected_size r
      then min logical_chunk (dr_expected_size r - i * logical_chunk) else 0)"
    using geometry by (simp add: length_chunk_at)
  show ?thesis
  proof (cases "dr_accepted r ! unat i")
    case True
    then have "offer blake3 file now i r = (Inr False, r)"
      using h(2) i len by (simp add: offer_def AcceptChunk_def refuse_cancelled_def op_defs)
    moreover have "dr_accepted r = (dr_accepted r)[unat i := True]" using True list_update_id [of "dr_accepted r" "unat i"] by simp
    ultimately show ?thesis using honest by blast
  next
    case False
    have off: "unat (i * logical_chunk) \<le> kStreamoffMax" "unat (i * logical_chunk) + length ?bs < 2 ^ 64"
      using chunk_begin [OF ui(1)] h(5) geometry(1)
      by (simp_all add: length_chunk_at chunk_len_def kStreamoffMax_def)
    obtain t where t: "WritePartialChunk (dr_writer r) (dr_relative_path r) (i * logical_chunk) ?bs True (dr_files r) = (Inr (), t)"
      "node_at t = (node_at (dr_files r))(d @ [c @ ''.part''] \<mapsto> Regular (overlay part (unat i * kLogicalChunkSize) ?bs))"
      "fs_faults t = []"
      using WritePartialChunk_ok [OF h(3) part(1) chunk_at_nonempty [OF ui(1)] off] geometry(1) by auto
    have small: "unat i \<le> kInt64Max"
      using chunk_begin [OF ui(1)] h(5) kLogical_pos(1) by (simp add: kStreamoffMax_def kInt64Max_def kLogicalChunkSize_def)
    obtain db where db: "MarkTransferChunksCompleted ?k [i] now (dr_database r) = (Inr (), db)" "db_inv db"
      "db_saved db = None" "has_key transfer_key ?k (t_transfers (db_tables db))"
      "set (CompletedTransferChunks ?k (db_tables db)) = insert i (set (CompletedTransferChunks ?k (db_tables (dr_database r))))"
      using mark_chunks_ok [OF h(6,7,8), of "[i]" now] now small by auto
    let ?t = "accept_new i ?bs (r\<lparr>dr_files := t, dr_database := db\<rparr>)"
    have run: "offer blake3 file now i r = (Inr True, ?t)"
      unfolding offer_def by (rule AcceptChunk_new [OF h(2) i False len t(1) db(1)])
    have inv: "receiver_inv ?t" by (rule accept_new_inv [OF h(1) i False len])
    have place: "download_place (dr_writer r) (dr_relative_path r) d c t"
      "part_content d c t = Some (overlay part (unat i * kLogicalChunkSize) ?bs)"
      using place_part [OF h(3) t(2,3)] by simp_all
    have "honest blake3 file d c ?t"
      using honest inv place db overlay_agrees [OF ui(1), of part] part ui(2) i
      by (auto simp: honest_def accept_new_def nth_list_update word_unat_eq_iff)
    then show ?thesis using run by (intro exI [of _ True] exI [of _ ?t]) (simp add: accept_new_def)
  qed
qed

lemma honest_offers:
  assumes "honest blake3 file d c r" "\<forall>i \<in> set xs. i < dr_chunk_count r" "0 < now"
  shows "\<exists>t. forS (\<lambda>i. discard (offer blake3 file now i)) xs r = (Inr (), t) \<and> honest blake3 file d c t \<and>
    dr_chunk_count t = dr_chunk_count r \<and> dr_transfer_id t = dr_transfer_id r \<and>
    (\<forall>i < dr_chunk_count r. dr_accepted t ! unat i \<longleftrightarrow> dr_accepted r ! unat i \<or> i \<in> set xs)"
  using assms
proof (induction xs arbitrary: r)
  case (Cons i xs)
  have i: "i < dr_chunk_count r" using Cons.prems(2) by simp
  obtain b u where u: "offer blake3 file now i r = (Inr b, u)" "honest blake3 file d c u"
    "dr_chunk_count u = dr_chunk_count r" "dr_transfer_id u = dr_transfer_id r"
    "dr_accepted u = (dr_accepted r)[unat i := True]"
    using honest_offer [OF Cons.prems(1) i Cons.prems(3)] by blast
  have il: "unat i < length (dr_accepted r)"
    using Cons.prems(1) i by (simp add: honest_def receiver_inv_def word_less_nat_alt)
  obtain t where t: "forS (\<lambda>i. discard (offer blake3 file now i)) xs u = (Inr (), t)" "honest blake3 file d c t"
    "dr_chunk_count t = dr_chunk_count r" "dr_transfer_id t = dr_transfer_id r"
    "\<forall>j < dr_chunk_count r. dr_accepted t ! unat j \<longleftrightarrow> dr_accepted u ! unat j \<or> j \<in> set xs"
    using Cons.IH [OF u(2)] Cons.prems(2,3) u(3,4) by auto
  have "discard (offer blake3 file now i) r = (Inr (), u)" using u(1) by (simp add: discard_def op_defs)
  then have "forS (\<lambda>i. discard (offer blake3 file now i)) (i # xs) r = (Inr (), t)"
    using t(1) by (simp add: thenS_def bindS_def)
  moreover have "\<forall>j < dr_chunk_count r. dr_accepted t ! unat j \<longleftrightarrow> dr_accepted r ! unat j \<or> j \<in> set (i # xs)"
    using t(5) u(5) il by (auto simp: nth_list_update word_unat_eq_iff)
  ultimately show ?case using t by blast
qed (simp add: op_defs)

lemma UpdateTransferState_ok:
  assumes "db_inv d" "has_key transfer_key k (t_transfers (db_tables d))" "0 < now" "st \<in> set transfer_states"
  shows "\<exists>d'. UpdateTransferState k st now err d = (Inr (), d') \<and> TransferState k (db_tables d') = Some (cstr st)"
proof -
  let ?f = "\<lambda>r. r\<lparr>row_transfer := (row_transfer r)\<lparr>tr_state := cstr st, tr_updated_at_ms := now\<rparr>,
         row_error_code := map_option cstr err\<rparr>"
  have inv: "tables_inv (db_tables d)" using assms(1) by (simp add: db_inv_def)
  have one: "changes (\<lambda>r. transfer_key r = k) (t_transfers (db_tables d)) = 1"
    using assms(2) inv by (simp add: changes_unique)
  obtain row where row: "row_of transfer_key k (t_transfers (db_tables d)) = Some row"
    using assms(2) row_of_None_iff by (metis not_None_eq)
  have "row_of transfer_key k (update_rows (\<lambda>r. transfer_key r = k) ?f (t_transfers (db_tables d))) = Some (?f row)"
    using row_of_update [of transfer_key ?f k k "t_transfers (db_tables d)"] row by simp
  then show ?thesis
    using assms(3,4) one
    by (simp add: UpdateTransferState_def update_transfer_def thenS_def bindS_def guardS_def query_def statement_def TransferState_def)
qed

lemma sorted_all_indices:
  assumes "sorted xs" "distinct xs" "set xs = {i :: u64. i < n}"
  shows "xs = map word_of_nat [0..<unat n]"
proof (rule sorted_distinct_set_unique)
  let ?ys = "map word_of_nat [0..<unat n] :: u64 list"
  have small: "i < 2 ^ 64" if "i < unat n" for i using that unsigned_less [of n, where ?'a = nat] by simp
  have u: "unat (word_of_nat i :: u64) = i" if "i < unat n" for i using small [OF that] by (simp add: unat_of_nat)
  show "sorted ?ys" using u by (auto simp: sorted_iff_nth_mono word_le_nat_alt)
  show "distinct ?ys" using u by (auto simp: distinct_map inj_on_def) (metis atLeastLessThan_iff u)
  show "set xs = set ?ys"
  proof (intro set_eqI iffI)
    fix x
    assume "x \<in> set xs"
    then have "unat x < unat n" using assms(3) by (simp add: word_less_nat_alt)
    moreover have "x = word_of_nat (unat x)" by (simp add: word_unat_eq_iff unsigned_of_nat)
    ultimately show "x \<in> set ?ys" by (metis atLeastLessThan_upt image_eqI lessThan_atLeast0 lessThan_iff set_map)
  qed (use u assms(3) in \<open>auto simp: word_less_nat_alt\<close>)
qed (use assms in auto)

lemma honest_commit:
  assumes honest: "honest blake3 file d c r" and all: "\<forall>i < dr_chunk_count r. dr_accepted r ! unat i"
    and now: "0 < now"
  shows "\<exists>t. DownloadReceiver_Commit blake3 now r = (Inr (), t) \<and>
    node_at (dr_files t) = (node_at (dr_files r))(d @ [c @ ''.part''] := None, d @ [c] \<mapsto> Regular file) \<and>
    TransferState (dr_transfer_id r) (db_tables (dr_database t)) = Some ''completed''"
proof -
  let ?k = "dr_transfer_id r" and ?db = "dr_database r" and ?s = "dr_files r"
  let ?done = "CompletedTransferChunks ?k (db_tables ?db)"
  have h: "receiver_inv r" "\<not> dr_cancelled r" "download_place (dr_writer r) (dr_relative_path r) d c ?s"
    "unat (dr_expected_size r) = length file" "dr_expected_hash r = blake3 file" "db_inv ?db"
    "has_key transfer_key ?k (t_transfers (db_tables ?db))"
    using honest by (simp_all add: honest_def)
  have "set ?done = {i. i < dr_chunk_count r}" using honest all by (auto simp: honest_def)
  then have complete: "?done = map word_of_nat [0..<unat (dr_chunk_count r)]"
    using CompletedTransferChunks_sorted [of "db_tables ?db" ?k] h(6) by (intro sorted_all_indices) (simp_all add: db_inv_def)
  obtain part where part: "part_content d c ?s = Some part" "length part \<le> length file"
    "\<forall>j < length (dr_accepted r). dr_accepted r ! j \<longrightarrow> agrees file part j"
    using honest by (auto simp: honest_def)
  have accepted: "dr_accepted r ! j" if "j < chunks_of (length file)" for j
  proof -
    have j: "j < unat (dr_chunk_count r)" using that h(1,4) by (simp add: receiver_inv_def)
    then have "j < 2 ^ 64" using unsigned_less [of "dr_chunk_count r", where ?'a = nat] by simp
    then have "unat (word_of_nat j :: u64) = j" by (simp add: unat_of_nat)
    then show ?thesis using all j by (metis word_less_nat_alt)
  qed
  have "part = file"
    using part(3) accepted h(1,4) by (intro agrees_all [OF part(2)]) (simp add: receiver_inv_def)
  moreover have "file \<noteq> []" using honest by (simp add: honest_def)
  ultimately have held: "node_at ?s (d @ [c @ ''.part'']) = Some (Regular file)"
    using part(1) by (auto simp: part_content_Some)
  obtain root where root: "wr_canonical (dr_writer r) (wr_task_root (dr_writer r)) = Some root" "canonical_root root"
    "wr_task_root (dr_writer r) \<noteq> []" "real_dirs (node_at ?s) root" "fs_faults ?s = []" "safe_relative (dr_relative_path r)"
    "root @ path_components (dr_relative_path r) = d @ [c]" "real_dirs (node_at ?s) d"
    "node_at ?s (d @ [c]) = None \<or> (\<exists>b. node_at ?s (d @ [c]) = Some (Regular b))"
    using h(3) by (auto simp: download_place_def)
  obtain t where t: "CommitPartial blake3 (dr_writer r) (dr_relative_path r) (dr_expected_size r) (blake3 file) ?s = (Inr (), t)"
    "node_at t = (node_at ?s)(d @ [c @ ''.part''] := None, d @ [c] \<mapsto> Regular file)"
    using CommitPartial_ok [where ?blake3.0 = blake3, OF root(1-8) held h(4) [symmetric] refl root(9)]
      wp_CommitPartial [OF root(1,2,7,8), of blake3 "dr_expected_size r" "blake3 file"] held
    by (cases "CommitPartial blake3 (dr_writer r) (dr_relative_path r) (dr_expected_size r) (blake3 file) ?s")
      (auto simp: wp_def commit_effect_def)
  obtain db where db: "UpdateTransferState ?k ''completed'' now None ?db = (Inr (), db)"
    "TransferState ?k (db_tables db) = Some ''completed''"
    using UpdateTransferState_ok [OF h(6,7) now, of "''completed''" None] by auto
  have "DownloadReceiver_Commit blake3 now r = (Inr (), r\<lparr>dr_files := t, dr_database := db\<rparr>)"
    using h(2,5) t(1) db(1) complete
    by (simp add: DownloadReceiver_Commit_def refuse_cancelled_def thenS_def bindS_def getS_def guardS_def zoomS_def)
  then show ?thesis using t(2) db(2) by simp
qed

lemma restore_fold_state:
  assumes "foldE restore_chunk xs r = Inr t" "length (dr_accepted r) = unat (dr_chunk_count r)"
  shows "\<exists>a n. t = r\<lparr>dr_accepted := a, dr_received_bytes := n\<rparr> \<and>
    (\<forall>i < dr_chunk_count r. a ! unat i \<longleftrightarrow> dr_accepted r ! unat i \<or> i \<in> set xs) \<and> set xs \<subseteq> {i. i < dr_chunk_count r}"
  using assms
proof (induction xs arbitrary: r)
  case Nil
  then show ?case by (intro exI [of _ "dr_accepted r"] exI [of _ "dr_received_bytes r"]) simp
next
  case (Cons i xs)
  define u where "u = r\<lparr>dr_accepted := (dr_accepted r)[unat i := True],
    dr_received_bytes := dr_received_bytes r + min logical_chunk (dr_expected_size r - i * logical_chunk)\<rparr>"
  have i: "i < dr_chunk_count r" and rest: "foldE restore_chunk xs u = Inr t"
    using Cons.prems(1) restore_chunk_def [of i r] by (auto simp: result_iff u_def split: if_splits)
  have u: "dr_chunk_count u = dr_chunk_count r" "length (dr_accepted u) = unat (dr_chunk_count u)"
    "dr_accepted u = (dr_accepted r)[unat i := True]"
    using Cons.prems(2) by (simp_all add: u_def)
  obtain a n where a: "t = u\<lparr>dr_accepted := a, dr_received_bytes := n\<rparr>"
    "\<forall>j < dr_chunk_count u. a ! unat j \<longleftrightarrow> dr_accepted u ! unat j \<or> j \<in> set xs"
    "set xs \<subseteq> {j. j < dr_chunk_count u}"
    using Cons.IH [OF rest u(2)] by auto
  have "\<forall>j < dr_chunk_count r. a ! unat j \<longleftrightarrow> dr_accepted r ! unat j \<or> j \<in> set (i # xs)"
    using a(2) u i Cons.prems(2) by (auto simp: nth_list_update word_unat_eq_iff word_less_nat_alt)
  moreover have "t = r\<lparr>dr_accepted := a, dr_received_bytes := n\<rparr>" using a(1) by (simp add: u_def)
  ultimately show ?case using a(3) u(1) i by (intro exI [of _ a] exI [of _ n]) simp
qed

text \<open>
  What an interrupted run leaves: the durable chunks of the transfer lie inside the file and the partial
  file agrees with it there.  A download that has not started has no durable chunk and no partial file.
\<close>

definition resumable :: "TransferId \<Rightarrow> bytes \<Rightarrow> path \<Rightarrow> string \<Rightarrow> Database \<Rightarrow> FileSystem \<Rightarrow> bool" where
  "resumable k file d c db s \<longleftrightarrow> db_inv db \<and> db_saved db = None \<and> has_key transfer_key k (t_transfers (db_tables db)) \<and>
     (\<exists>part. part_content d c s = Some part \<and> length part \<le> length file \<and>
        (\<forall>i \<in> set (CompletedTransferChunks k (db_tables db)). agrees file part (unat i)))"

lemma honest_start:
  assumes new: "DownloadReceiver_new db s k w rel (word_of_nat (length file)) (blake3 file) n = Inr r"
    and place: "download_place w rel d c s" and resume: "resumable k file d c db s" and len: "length file \<le> kStreamoffMax"
  shows "honest blake3 file d c r" "dr_chunk_count r = n" "dr_transfer_id r = k"
    "\<forall>i < n. dr_accepted r ! unat i \<longleftrightarrow> i \<in> set (CompletedTransferChunks k (db_tables db))" "dr_files r = s"
proof -
  let ?r = "\<lparr>dr_database = db, dr_files = s, dr_transfer_id = k, dr_writer = w, dr_relative_path = rel,
    dr_expected_size = word_of_nat (length file), dr_expected_hash = blake3 file, dr_chunk_count = n, dr_cancelled = False,
    dr_accepted = replicate (unat n) False, dr_received_bytes = 0\<rparr>"
  have inv: "receiver_inv r" using DownloadReceiver_new_inv [OF new] resume by (simp add: resumable_def db_inv_def)
  have restored: "foldE restore_chunk (CompletedTransferChunks k (db_tables db)) ?r = Inr r" and "n \<noteq> 0"
    using new by (auto simp: DownloadReceiver_new_def split: if_splits)
  then obtain a m where a: "r = ?r\<lparr>dr_accepted := a, dr_received_bytes := m\<rparr>"
    "\<forall>i < n. a ! unat i \<longleftrightarrow> i \<in> set (CompletedTransferChunks k (db_tables db))"
    "set (CompletedTransferChunks k (db_tables db)) \<subseteq> {i. i < n}"
    using restore_fold_state [OF restored] by (auto simp: word_less_nat_alt)
  have size: "unat (word_of_nat (length file) :: u64) = length file"
    using len by (simp add: unat_of_nat kStreamoffMax_def)
  have count: "unat n = chunks_of (length file)" "length a = unat n"
    using inv size by (simp_all add: receiver_inv_def a(1))
  then have "file \<noteq> []" using \<open>n \<noteq> 0\<close> by (auto simp: chunks_of_def unat_eq_zero)
  moreover obtain part where part: "part_content d c s = Some part" "length part \<le> length file"
    "\<forall>i \<in> set (CompletedTransferChunks k (db_tables db)). agrees file part (unat i)"
    using resume by (auto simp: resumable_def)
  moreover have "agrees file part j" if "j < length a" "a ! j" for j
  proof -
    have "unat (word_of_nat j :: u64) = j"
      using that(1) count(2) unsigned_less [of n, where ?'a = nat] by (simp add: unat_of_nat)
    then show ?thesis using a(2) part(3) that count(2) by (metis word_less_nat_alt)
  qed
  ultimately show "honest blake3 file d c r"
    using inv a place resume size len unfolding honest_def resumable_def by auto
  show "dr_chunk_count r = n" "dr_transfer_id r = k" "dr_files r = s"
    "\<forall>i < n. dr_accepted r ! unat i \<longleftrightarrow> i \<in> set (CompletedTransferChunks k (db_tables db))"
    using a by simp_all
qed

text \<open>
  C2: a download reproduces the source's file.  Let no system call fail, let the destination lie below real directories and be neither a
  link nor a directory, let the database have the transfer and no open transaction, and let the partial file of an earlier, interrupted run,
  if there is one, be a regular file no longer than the file that holds the chunks which the database calls completed.  Let the peer offer the chunks of the file with their digests, in any order and any
  of them more than once, until each one is durable, counting those of the earlier run.  Then every offer is taken without an
  exception, the commit succeeds, the destination holds exactly the bytes of the source's file, the partial file is gone and the
  database says that the transfer is complete.
\<close>

theorem download_reassembles_file:
  assumes "DownloadReceiver_new db s k w rel (word_of_nat (length file)) (blake3 file) n = Inr r"
    and "download_place w rel d c s" "resumable k file d c db s" "length file \<le> kStreamoffMax" "0 < now"
    and "set offered \<subseteq> {i. i < n}" "{i. i < n} \<subseteq> set (CompletedTransferChunks k (db_tables db)) \<union> set offered"
  shows "\<exists>t. thenS (forS (\<lambda>i. discard (AcceptChunk blake3 i (i * word_of_nat kLogicalChunkSize) (chunk_at file (unat i))
        (blake3 (chunk_at file (unat i))) now True)) offered) (DownloadReceiver_Commit blake3 now) r = (Inr (), t) \<and>
      node_at (dr_files t) (d @ [c]) = Some (Regular file) \<and>
      node_at (dr_files t) (d @ [c @ ''.part'']) = None \<and>
      TransferState k (db_tables (dr_database t)) = Some ''completed''"
proof -
  note start = honest_start [where ?blake3.0 = blake3, OF assms(1-4)]
  obtain u where u: "forS (\<lambda>i. discard (offer blake3 file now i)) offered r = (Inr (), u)" "honest blake3 file d c u"
    "dr_chunk_count u = n" "dr_transfer_id u = k"
    "\<forall>i < n. dr_accepted u ! unat i \<longleftrightarrow> dr_accepted r ! unat i \<or> i \<in> set offered"
    using honest_offers [OF start(1), of offered now] start(2,3) assms(5,6) by auto
  have "\<forall>i < dr_chunk_count u. dr_accepted u ! unat i" using u(3,5) start(4) assms(7) by auto
  then obtain t where t: "DownloadReceiver_Commit blake3 now u = (Inr (), t)"
    "node_at (dr_files t) = (node_at (dr_files u))(d @ [c @ ''.part''] := None, d @ [c] \<mapsto> Regular file)"
    "TransferState k (db_tables (dr_database t)) = Some ''completed''"
    using honest_commit [OF u(2) _ assms(5)] u(4) by auto
  then show ?thesis
    using u(1) unfolding offer_def by (intro exI [of _ t]) (simp add: thenS_def bindS_def)
qed

theorem download_reassembles_file_witness:
  "\<exists>r t. DownloadReceiver_new demo_transfers demo_fs [1] demo_writer ''b'' 2 [3, 4] 1 = Inr r \<and>
     thenS (discard (AcceptChunk (\<lambda>b. b) 0 0 [3, 4] [3, 4] 1 True)) (DownloadReceiver_Commit (\<lambda>b. b) 1) r = (Inr (), t) \<and>
     node_at (dr_files t) (demo_root @ [''b'']) = Some (Regular [3, 4])"
proof -
  have new: "\<exists>r. DownloadReceiver_new demo_transfers demo_fs [1] demo_writer ''b'' 2 [3, 4] 1 = Inr r"
    by (simp add: DownloadReceiver_new_def demo_transfers_facts kLogicalChunkSize_def)
  then obtain r where r: "DownloadReceiver_new demo_transfers demo_fs [1] demo_writer ''b'' 2 [3, 4] 1 = Inr r" ..
  have components: "path_components ''b'' = [''b'']" by (simp add: path_components_def)
  then have "safe_relative ''b''"
    by (simp add: safe_relative_def is_rooted_def is_letter_def check_component_def is_control_def is_device_name_def)
  then have "download_place demo_writer ''b'' demo_root ''b'' demo_fs"
    using demo_facts components by (auto simp: download_place_def demo_fs_def node_at_def demo_root_def)
  moreover have "resumable [1] [3, 4] demo_root ''b'' demo_transfers demo_fs"
    by (simp add: resumable_def demo_transfers_facts part_content_def demo_fs_def node_at_def demo_root_def)
  moreover have "{i :: u64. i < 1} = {0}" by (auto simp: word_less_nat_alt unat_eq_zero)
  moreover have "chunk_at [3, 4] 0 = [3, 4]" by (simp add: chunk_at_def kLogicalChunkSize_def)
  moreover have "thenS (thenS m (returnS ())) k = thenS m k" for m :: "(DownloadReceiver, unit) op" and k :: "(DownloadReceiver, unit) op"
    by (rule ext) (auto simp: op_defs split: prod.splits sum.splits)
  ultimately show ?thesis
    using download_reassembles_file [of demo_transfers demo_fs "[1]" demo_writer "''b''" "[3, 4]" "\<lambda>b. b" 1 r demo_root
        "''b''" 1 "[0]"] r
    by (auto simp: kStreamoffMax_def)
qed

end
