(* ===== verification/Upload_Properties.thy ===== *)
theory Upload_Properties
  imports Download_Reassembly Protocol_Codec
begin

text \<open>
  The sending half of a transfer: the upload session sends exactly the requested chunks, in order, and a
  source whose read failed once never serves again.
\<close>

section \<open>A failed read\<close>

lemma ReadChunk_bad:
  assumes "cs_stream_open (fst s)" "\<not> cs_stream_good (fst s)"
  shows "wp (ReadChunk blake3 i) (\<lambda>r t. (\<exists>e. r = Inl e) \<and> fst t = fst s) s"
proof -
  let ?Q = "\<lambda>(r :: Chunk result) t. (\<exists>e. r = Inl e) \<and> fst t = fst s"
  have "wp (sys_file_size (cs_source_path (fst s))) (\<lambda>r t. onward ?Q (\<lambda>measured. wp (case measured of
       None \<Rightarrow> throwS (Runtime_error ''file_size'')
     | Some file_length \<Rightarrow> k file_length) ?Q) r (fst s, t)) (snd s)"
    if "\<And>n t. wp (k n) ?Q (fst s, t)" for k
    by (rule wp_file_size) (use that in simp_all)
  then show ?thesis
    unfolding ReadChunk_def wp_bind wp_get onward_simps wp_zoom
    using assms by (auto simp: Let_def open_stream_def)
qed

lemma wp_open_stream:
  assumes "\<And>source t. cs_stream_open source \<Longrightarrow> Q (Inr True) (source, t)" "\<And>t. Q (Inr False) t"
  shows "wp open_stream Q s"
proof (cases "cs_stream_open (fst s)")
  case True
  then show ?thesis using assms(1) [of "fst s" "snd s"] assms(2) [of s] by (cases "cs_stream_good (fst s)") (simp_all add: open_stream_def)
next
  case False
  then show ?thesis unfolding open_stream_def using assms by (simp, intro wp_open) simp_all
qed

lemma ReadChunk_short:
  "wp (ReadChunk blake3 i) (\<lambda>r t. r = Inl (Runtime_error ''cannot read transfer chunk'') \<longrightarrow>
     cs_stream_open (fst t) \<and> \<not> cs_stream_good (fst t)) s" (is "wp _ ?Q s")
proof -
  have read: "wp (bindS (on_files (read_at p off len)) (\<lambda>bytes.
      thenS (update_source (\<lambda>s. s\<lparr>cs_stream_good := length bytes = len\<rparr>))
     (thenS (guardS (length bytes \<noteq> len) (Runtime_error ''cannot read transfer chunk'')) (returnS (chunk bytes))))) ?Q (source, t)"
    if "cs_stream_open source" for source t p off len and chunk :: "bytes \<Rightarrow> Chunk"
    using that by (simp add: read_at_def, intro wp_next_fault) (auto simp: Let_def)
  have opened: "wp (bindS open_stream (\<lambda>opened. thenS (guardS (\<not> opened) (Runtime_error ''cannot read transfer source'')) k)) ?Q u"
    if "\<And>source t. cs_stream_open source \<Longrightarrow> wp k ?Q (source, t)" for k u
    unfolding wp_bind using that by (intro wp_open_stream) auto
  show ?thesis
    unfolding ReadChunk_def wp_bind wp_get onward_simps wp_zoom
    by (rule wp_file_size) (auto simp: Let_def simp del: wp_bind intro!: opened read)
qed

text \<open>
  Once a read of the source came up short, the session's source is dead.  The stream stays open in its
  failed state, the check of that state comes before the call that would reset it, and so every later
  request of a chunk throws, whichever chunk it is and however intact the file is by then.
\<close>

theorem read_failure_is_permanent:
  assumes "ReadChunk blake3 i s = (Inl (Runtime_error ''cannot read transfer chunk''), t)"
  shows "\<exists>e. fst (ReadChunk blake3 j (fst t, files)) = Inl e \<and> fst (snd (ReadChunk blake3 j (fst t, files))) = fst t"
proof -
  have "cs_stream_open (fst t)" "\<not> cs_stream_good (fst t)" using wpD [OF ReadChunk_short assms] by simp_all
  then show ?thesis using ReadChunk_bad [of "(fst t, files)" blake3 j] by (auto simp: wp_def)
qed

definition demo_source :: ChunkSource where
  "demo_source = ChunkSource_new (demo_root @ [''a'']) (replicate 16 1) [1, 2]"

lemma demo_short_read:
  "fst (ReadChunk (\<lambda>b. b) 0 (demo_source, demo_fs\<lparr>fs_faults := [None, None, Some 0]\<rparr>)) =
     Inl (Runtime_error ''cannot read transfer chunk'')"
proof -
  have "file_bytes (demo_fs\<lparr>fs_faults := fs\<rparr>) (demo_root @ [''a'']) = Some [1, 2]" for fs
    by (simp add: file_bytes_def real_path_def kMaxReparse_def demo_fs_def demo_root_def node_at_def)
  then show ?thesis
    by (simp add: demo_source_def ChunkSource_new_def ReadChunk_def open_stream_def read_at_def sys_file_size_def
        sys_open_def next_fault_def zoomS_def op_defs Let_def kLogicalChunkSize_def)
qed

theorem read_failure_is_permanent_witness:
  "let t = snd (ReadChunk (\<lambda>b. b) 0 (demo_source, demo_fs\<lparr>fs_faults := [None, None, Some 0]\<rparr>)) in
   \<exists>e. fst (ReadChunk (\<lambda>b. b) 0 (fst t, demo_fs)) = Inl e"
proof -
  have "ReadChunk (\<lambda>b. b) 0 (demo_source, demo_fs\<lparr>fs_faults := [None, None, Some 0]\<rparr>) =
      (Inl (Runtime_error ''cannot read transfer chunk''),
       snd (ReadChunk (\<lambda>b. b) 0 (demo_source, demo_fs\<lparr>fs_faults := [None, None, Some 0]\<rparr>)))"
    by (simp flip: demo_short_read)
  from read_failure_is_permanent [OF this, of 0 demo_fs] show ?thesis by (auto simp: Let_def)
qed

section \<open>Serving a request\<close>

definition range_chunks :: "ChunkRange \<Rightarrow> u64 list" where
  "range_chunks r = map (\<lambda>j. first_chunk r + word_of_nat j) [0..<unat (chunk_count r)]"

definition requested :: "ChunkRange list \<Rightarrow> u64 list" where
  "requested ranges = concat (map range_chunks ranges)"

lemma range_chunks_step:
  assumes "chunk_count r \<noteq> 0"
  shows "range_chunks r = first_chunk r # range_chunks (r\<lparr>first_chunk := first_chunk r + 1, chunk_count := chunk_count r - 1\<rparr>)"
proof -
  have n: "unat (chunk_count r) = Suc (unat (chunk_count r - 1))"
    using assms by (simp add: unat_gt_0 unat_minus_one)
  have "[0..<Suc m] = 0 # map Suc [0..<m]" for m by (simp add: map_Suc_upt upt_conv_Cons del: upt_Suc)
  then show ?thesis unfolding range_chunks_def n by (simp add: add.assoc del: upt_Suc)
qed

lemma requested_step:
  assumes "chunk_count r \<noteq> 0"
  shows "requested (r # ranges) = first_chunk r # requested (advance_range (r # ranges))"
  using range_chunks_step [OF assms] by (auto simp: requested_def advance_range_def Let_def range_chunks_def)

lemma advance_nonempty:
  "\<forall>r \<in> set ranges. chunk_count r \<noteq> 0 \<Longrightarrow> \<forall>r \<in> set (advance_range ranges). chunk_count r \<noteq> 0"
  by (auto simp: advance_range_def Let_def split: list.splits if_splits)

definition sent_chunk :: "(bytes \<Rightarrow> bytes) \<Rightarrow> ChunkSource \<Rightarrow> bytes \<Rightarrow> u64 \<Rightarrow> Chunk" where
  "sent_chunk blake3 source file i = \<lparr>chunk_transfer_id = cs_transfer_id source, chunk_file_hash = cs_file_hash source,
     chunk_offset = i * logical_chunk, chunk_chunk_hash = blake3 (chunk_at file (unat i)), chunk_bytes = chunk_at file (unat i)\<rparr>"

text \<open>A source whose file is there and readable.\<close>

definition readable :: "bytes \<Rightarrow> source_state \<Rightarrow> bool" where
  "readable file s \<longleftrightarrow> fs_faults (snd s) = [] \<and> file_bytes (snd s) (cs_source_path (fst s)) = Some file \<and>
     length file \<le> kStreamoffMax \<and> (cs_stream_open (fst s) \<longrightarrow> cs_stream_good (fst s))"

lemma total_chunks_less:
  assumes "unat i < chunks_of (unat n)" "unat n \<le> kStreamoffMax"
  shows "\<not> (n + logical_chunk - 1) div logical_chunk \<le> (i :: u64)"
proof -
  let ?K = kLogicalChunkSize
  have "unat (n + logical_chunk - 1) = unat n + ?K - 1"
  proof -
    have sum: "unat (n + logical_chunk) = unat n + ?K"
      using assms(2) by (simp add: unat_word_ariths kStreamoffMax_def kLogicalChunkSize_def)
    then have "1 \<le> n + logical_chunk" by (simp add: word_le_nat_alt kLogicalChunkSize_def)
    then show ?thesis using unat_diff_64 [of 1 "n + logical_chunk"] sum by simp
  qed
  moreover have "Suc (unat i) * ?K \<le> unat n + ?K - 1" using chunk_begin [OF assms(1)] by simp
  then have "Suc (unat i) \<le> (unat n + ?K - 1) div ?K" by (simp add: less_eq_div_iff_mult_less_eq)
  ultimately show ?thesis by (simp add: word_le_nat_alt unat_div_distrib)
qed

lemma ReadChunk_ok:
  assumes "readable file s" "unat i < chunks_of (length file)"
  shows "ReadChunk blake3 i s = (Inr (sent_chunk blake3 (fst s) file i), ((fst s)\<lparr>cs_stream_open := True, cs_stream_good := True\<rparr>, snd s))"
proof -
  let ?n = "word_of_nat (length file) :: u64"
  obtain source files where s: "s = (source, files)" by fastforce
  have f: "fs_faults files = []" "file_bytes files (cs_source_path source) = Some file" "length file \<le> kStreamoffMax"
    using assms(1) by (simp_all add: readable_def s)
  have n: "unat ?n = length file" using f(3) by (simp add: unat_of_nat kStreamoffMax_def)
  note geometry = unat_chunk_offset [of i ?n, unfolded n, OF assms(2)]
  have total: "\<not> (?n + logical_chunk - 1) div logical_chunk \<le> i"
    using total_chunks_less [of i ?n] assms(2) f(3) n by simp
  have opened: "open_stream s = (Inr True, (source\<lparr>cs_stream_open := True, cs_stream_good := True\<rparr>, files))"
    using assms(1) f by (auto simp: open_stream_def readable_def s op_defs zoomS_def)
  have "take (unat (min logical_chunk (?n - i * logical_chunk))) (drop (unat (i * logical_chunk)) file) = chunk_at file (unat i)"
    unfolding geometry chunk_at_def chunk_len_def by (simp add: min_def)
  then have read: "read_at (cs_source_path source) (unat (i * logical_chunk)) (unat (min logical_chunk (?n - i * logical_chunk))) files =
      (Inr (chunk_at file (unat i)), files)"
    using f by (simp add: read_at_def op_defs)
  have len: "length (chunk_at file (unat i)) = unat (min logical_chunk (?n - i * logical_chunk))"
    using geometry(3) by (simp add: length_chunk_at)
  show ?thesis
    using f total opened read len unfolding s
    by (simp add: ReadChunk_def sent_chunk_def zoomS_def bindS_def thenS_def getS_def guardS_def modifyS_def returnS_def Let_def)
qed

text \<open>
  A session between two calls: nothing waits in its scheduler, which has room for one frame of a full chunk,
  and the transport's buffer is below the threshold.
\<close>

definition idle_scheduler :: "nat \<Rightarrow> nat \<Rightarrow> SendScheduler" where
  "idle_scheduler limit threshold = \<lparr>ss_queues = [[], [], [], []], ss_max_pending_bytes = limit,
     ss_resume_below_bytes = threshold, ss_pending_bytes = 0\<rparr>"

definition uploading :: "bytes \<Rightarrow> nat \<Rightarrow> UploadSession \<Rightarrow> bool" where
  "uploading file buffered s \<longleftrightarrow> readable file (up_source s) \<and> length (cs_transfer_id (fst (up_source s))) = 16 \<and>
     length (cs_file_hash (fst (up_source s))) = 32 \<and>
     (\<exists>limit threshold. up_scheduler s = idle_scheduler limit threshold \<and> buffered < threshold \<and>
        kLogicalChunkSize + 108 \<le> limit \<and> limit < 2 ^ 64)"

lemma idle_enqueue:
  assumes "wire \<noteq> []" "length wire \<le> limit" "limit < 2 ^ 64" "buffered < threshold"
  shows "\<exists>q. SendScheduler_Enqueue \<lparr>ps_channel = kBulk, ps_priority = spBulk, ps_wire = wire\<rparr> (idle_scheduler limit threshold) = Inr q \<and>
    SendScheduler_Next buffered q = (Some \<lparr>ps_channel = kBulk, ps_priority = spBulk, ps_wire = wire\<rparr>, idle_scheduler limit threshold)"
proof -
  have "size_minus limit 0 = limit" "size_plus 0 (length wire) = length wire" "size_minus (length wire) (length wire) = 0"
    using assms size_minus_exact [of 0 limit] size_plus_exact [of 0 "length wire"] size_minus_exact [of "length wire" "length wire"]
    by simp_all
  then show ?thesis
    using assms by (simp add: SendScheduler_Enqueue_def SendScheduler_Next_def idle_scheduler_def CanResume_def Let_def numeral_3_eq_3)
qed

lemma idle_next: "SendScheduler_Next buffered (idle_scheduler limit threshold) = (None, idle_scheduler limit threshold)"
  by (simp add: SendScheduler_Next_def idle_scheduler_def)

lemma sent_chunk_frame:
  assumes "length (cs_transfer_id source) = 16" "length (cs_file_hash source) = 32" "\<And>b. length (blake3 b) = 32"
  shows "\<exists>wire payload. EncodeChunkFrame (sent_chunk blake3 source file i) rid = Inr wire \<and>
    wire \<noteq> [] \<and> length wire \<le> kLogicalChunkSize + 108 \<and>
    DecodeFrame wire = Inr \<lparr>frame_type = kChunk, frame_request_id = rid, frame_payload = payload\<rparr> \<and>
    DecodeChunk blake3 payload = Inr (sent_chunk blake3 source file i)"
proof -
  let ?c = "sent_chunk blake3 source file i"
  have len: "length (chunk_bytes ?c) \<le> kLogicalChunkSize" by (simp add: sent_chunk_def chunk_at_def)
  have c: "length (chunk_transfer_id ?c) = 16" "length (chunk_file_hash ?c) = 32" "length (chunk_chunk_hash ?c) = 32"
    "blake3 (chunk_bytes ?c) = chunk_chunk_hash ?c"
    using assms by (simp_all add: sent_chunk_def)
  obtain payload where p: "EncodeChunk ?c = Inr payload" "length payload = 92 + length (chunk_bytes ?c)"
    using c(1-3) len by (simp add: EncodeChunk_def take_writer.simps w_U64_def w_U32_def w_Bytes_def)
  obtain wire where w: "EncodeFrame \<lparr>frame_type = kChunk, frame_request_id = rid, frame_payload = payload\<rparr> = Inr wire"
    "length wire = 16 + length payload"
    using p(2) len by (simp add: EncodeFrame_iff kMaxFrameSize_def kFrameHeaderSize_def kLogicalChunkSize_def)
  have "EncodeChunkFrame ?c rid = Inr wire" using EncodeChunkFrame_eq [OF c(1-3)] p(1) w(1) by simp
  moreover have "DecodeFrame wire = Inr \<lparr>frame_type = kChunk, frame_request_id = rid, frame_payload = payload\<rparr>"
    using w(1) by (simp add: frame_codec.decode_iff)
  moreover have "DecodeChunk blake3 payload = Inr ?c"
    using p(1) c by (simp add: chunk_codec.decode_iff chunk_admissible_def)
  moreover have "wire \<noteq> []" "length wire \<le> kLogicalChunkSize + 108" using w(2) p(2) len by auto
  ultimately show ?thesis by blast
qed

text \<open>One call: the frame of the first chunk that is still owed.\<close>

lemma upload_step:
  assumes up: "uploading file buffered s" and hash: "\<And>b. length (blake3 b) = 32"
    and ranges: "up_requested_ranges s = r # rest" "unat (first_chunk r) < chunks_of (length file)"
  shows "\<exists>p t payload. NextForTransport blake3 buffered s = (Inr (Some p), t) \<and> ps_channel p = kBulk \<and>
    DecodeFrame (ps_wire p) = Inr \<lparr>frame_type = kChunk, frame_request_id = up_next_request_id s, frame_payload = payload\<rparr> \<and>
    DecodeChunk blake3 payload = Inr (sent_chunk blake3 (fst (up_source s)) file (first_chunk r)) \<and>
    uploading file buffered t \<and> up_requested_ranges t = advance_range (r # rest) \<and>
    up_next_request_id t = up_next_request_id s + 1 \<and>
    cs_transfer_id (fst (up_source t)) = cs_transfer_id (fst (up_source s)) \<and>
    cs_file_hash (fst (up_source t)) = cs_file_hash (fst (up_source s))"
proof -
  let ?source = "fst (up_source s)" and ?id = "up_next_request_id s"
  have u: "readable file (up_source s)" "length (cs_transfer_id ?source) = 16" "length (cs_file_hash ?source) = 32"
    using up by (simp_all add: uploading_def)
  obtain limit threshold where q: "up_scheduler s = idle_scheduler limit threshold" "buffered < threshold"
    "kLogicalChunkSize + 108 \<le> limit" "limit < 2 ^ 64"
    using up by (auto simp: uploading_def)
  obtain wire payload where w: "EncodeChunkFrame (sent_chunk blake3 ?source file (first_chunk r)) ?id = Inr wire"
    "wire \<noteq> []" "length wire \<le> kLogicalChunkSize + 108"
    "DecodeFrame wire = Inr \<lparr>frame_type = kChunk, frame_request_id = ?id, frame_payload = payload\<rparr>"
    "DecodeChunk blake3 payload = Inr (sent_chunk blake3 ?source file (first_chunk r))"
    using sent_chunk_frame [where ?blake3.0 = blake3, OF u(2,3) hash] by blast
  let ?p = "\<lparr>ps_channel = kBulk, ps_priority = spBulk, ps_wire = wire\<rparr>"
  obtain q' where q': "SendScheduler_Enqueue ?p (idle_scheduler limit threshold) = Inr q'"
    "SendScheduler_Next buffered q' = (Some ?p, idle_scheduler limit threshold)"
    using idle_enqueue [OF w(2) _ q(4,2)] w(3) q(3) by auto
  let ?t = "s\<lparr>up_source := (?source\<lparr>cs_stream_open := True, cs_stream_good := True\<rparr>, snd (up_source s)),
    up_requested_ranges := advance_range (r # rest), up_next_request_id := ?id + 1\<rparr>"
  have "NextForTransport blake3 buffered s = (Inr (Some ?p), ?t)"
    using q(1,2) q' w(1) ranges(1) ReadChunk_ok [OF u(1) ranges(2), of blake3]
    by (simp add: NextForTransport_def scheduler_next_def idle_next CanResume_def op_defs zoomS_def)
      (simp add: idle_scheduler_def)
  moreover have "uploading file buffered ?t" using up by (simp add: uploading_def readable_def)
  ultimately show ?thesis using w(4,5) by (intro exI [of _ ?p] exI [of _ ?t] exI [of _ payload]) simp
qed

text \<open>The transport asking for frames until it gets none, at most \<open>n\<close> times.\<close>

fun upload_run :: "(bytes \<Rightarrow> bytes) \<Rightarrow> nat \<Rightarrow> nat \<Rightarrow> (UploadSession, PendingSend list) op" where
  "upload_run blake3 buffered 0 = returnS []"
| "upload_run blake3 buffered (Suc n) = bindS (NextForTransport blake3 buffered) (\<lambda>pending.
     case pending of None \<Rightarrow> returnS [] | Some p \<Rightarrow> bindS (upload_run blake3 buffered n) (\<lambda>ps. returnS (p # ps)))"

definition carries :: "(bytes \<Rightarrow> bytes) \<Rightarrow> PendingSend \<Rightarrow> u64 \<Rightarrow> Chunk \<Rightarrow> bool" where
  "carries blake3 p rid chunk \<longleftrightarrow> ps_channel p = kBulk \<and> (\<exists>payload.
     DecodeFrame (ps_wire p) = Inr \<lparr>frame_type = kChunk, frame_request_id = rid, frame_payload = payload\<rparr> \<and>
     DecodeChunk blake3 payload = Inr chunk)"

lemma upload_exhausted:
  assumes "uploading file buffered s" "up_requested_ranges s = []"
  shows "NextForTransport blake3 buffered s = (Inr None, s)" "\<not> HasPending s"
proof -
  obtain limit threshold where q: "up_scheduler s = idle_scheduler limit threshold"
    using assms(1) by (auto simp: uploading_def)
  have "s\<lparr>up_scheduler := idle_scheduler limit threshold\<rparr> = s" by (simp flip: q)
  then show "NextForTransport blake3 buffered s = (Inr None, s)"
    using assms(2) q by (simp add: NextForTransport_def scheduler_next_def idle_next op_defs)
  show "\<not> HasPending s" using assms(2) q by (simp add: HasPending_def idle_scheduler_def)
qed

lemma upload_all:
  assumes "uploading file buffered s" "\<And>b. length (blake3 b) = 32"
    and "\<forall>r \<in> set (up_requested_ranges s). chunk_count r \<noteq> 0"
    and "\<forall>i \<in> set (requested (up_requested_ranges s)). unat i < chunks_of (length file)"
    and "xs = requested (up_requested_ranges s)"
  shows "\<exists>ps t. upload_run blake3 buffered (Suc (length xs)) s = (Inr ps, t) \<and> \<not> HasPending t \<and> length ps = length xs \<and>
    (\<forall>k < length xs. carries blake3 (ps ! k) (up_next_request_id s + word_of_nat k)
       (sent_chunk blake3 (fst (up_source s)) file (xs ! k)))"
  using assms(1,3-5)
proof (induction xs arbitrary: s)
  case Nil
  have "up_requested_ranges s = []"
  proof (cases "up_requested_ranges s")
    case (Cons r rest)
    then show ?thesis using Nil.prems requested_step [of r rest] by simp
  qed
  then show ?case using upload_exhausted [OF Nil.prems(1)] by (simp add: op_defs)
next
  case (Cons i xs)
  obtain r rest where ranges: "up_requested_ranges s = r # rest"
    using Cons.prems(4) by (cases "up_requested_ranges s") (auto simp: requested_def)
  have step: "requested (r # rest) = first_chunk r # requested (advance_range (r # rest))"
    using Cons.prems(2) ranges by (intro requested_step) simp
  then have i: "i = first_chunk r" "xs = requested (advance_range (r # rest))" using Cons.prems(4) ranges by simp_all
  have "unat (first_chunk r) < chunks_of (length file)" using Cons.prems(3) ranges step by simp
  from upload_step [where ?blake3.0 = blake3, OF Cons.prems(1) assms(2) ranges this] obtain p t payload where
    t: "NextForTransport blake3 buffered s = (Inr (Some p), t)" "ps_channel p = kBulk"
      "DecodeFrame (ps_wire p) = Inr \<lparr>frame_type = kChunk, frame_request_id = up_next_request_id s, frame_payload = payload\<rparr>"
      "DecodeChunk blake3 payload = Inr (sent_chunk blake3 (fst (up_source s)) file (first_chunk r))"
      "uploading file buffered t" "up_requested_ranges t = advance_range (r # rest)" "up_next_request_id t = up_next_request_id s + 1"
      "cs_transfer_id (fst (up_source t)) = cs_transfer_id (fst (up_source s))"
      "cs_file_hash (fst (up_source t)) = cs_file_hash (fst (up_source s))"
    by blast
  have same: "sent_chunk blake3 (fst (up_source t)) file = sent_chunk blake3 (fst (up_source s)) file"
    using t(8,9) by (intro ext) (simp add: sent_chunk_def)
  have "\<forall>r \<in> set (up_requested_ranges t). chunk_count r \<noteq> 0"
    unfolding t(6) using Cons.prems(2) ranges by (intro advance_nonempty) simp
  moreover have "\<forall>i \<in> set (requested (up_requested_ranges t)). unat i < chunks_of (length file)"
    using Cons.prems(3) t(6) ranges step by simp
  ultimately obtain ps u where u: "upload_run blake3 buffered (Suc (length xs)) t = (Inr ps, u)" "\<not> HasPending u"
    "length ps = length xs" "\<forall>k < length xs. carries blake3 (ps ! k) (up_next_request_id t + word_of_nat k)
       (sent_chunk blake3 (fst (up_source s)) file (xs ! k))"
    using Cons.IH [OF t(5)] i(2) t(6) unfolding same by auto
  have "upload_run blake3 buffered (Suc (length (i # xs))) s = (Inr (p # ps), u)"
    using t(1) u(1) by (simp add: bindS_def returnS_def)
  moreover have "carries blake3 ((p # ps) ! k) (up_next_request_id s + word_of_nat k)
       (sent_chunk blake3 (fst (up_source s)) file ((i # xs) ! k))" if "k < length (i # xs)" for k
    using that t(2-4,7) u(4) i(1) by (cases k) (auto simp: carries_def add.assoc)
  ultimately show ?case using u(2,3) by (intro exI [of _ "p # ps"] exI [of _ u]) simp
qed

lemma QueueRequested_ok:
  assumes "fs_faults (snd (up_source s)) = []" "file_bytes (snd (up_source s)) (cs_source_path (fst (up_source s))) = Some file"
    and "QueueRequested blake3 request s = (Inr (), t)"
  shows "t = s\<lparr>up_requested_ranges := up_requested_ranges s @ missing_ranges request\<rparr>"
    and "cs_file_hash (fst (up_source s)) = blake3 file"
  using assms
  by (auto simp: QueueRequested_def ValidateRequest_def Blake3File_def op_defs zoomS_def split: if_splits)

text \<open>
  C10: an upload session serves a request completely and exactly.  For a readable source file, a request
  that names chunks of it, and a transport whose buffer stays below the threshold, asking for frames until
  none is left yields one bulk frame for each requested chunk, in the requested order, with consecutive
  request numbers from one, and each frame decodes to the chunk with its offset, bytes and digest; after
  that nothing is pending.
\<close>

theorem upload_serves_requested:
  assumes "UploadSession_new (ChunkSource_new path tid hash) files limit threshold = Inr s0"
    and "QueueRequested blake3 request s0 = (Inr (), s)"
    and "fs_faults files = []" "file_bytes files path = Some file" "length file \<le> kStreamoffMax"
    and "length tid = 16" "\<And>b. length (blake3 b) = 32" "kLogicalChunkSize + 108 \<le> limit" "limit < 2 ^ 64" "buffered < threshold"
    and "\<forall>r \<in> set (missing_ranges request). chunk_count r \<noteq> 0"
    and "\<forall>i \<in> set (requested (missing_ranges request)). unat i * kLogicalChunkSize < length file"
    and "xs = requested (missing_ranges request)"
  shows "\<exists>ps t. upload_run blake3 buffered (Suc (length xs)) s = (Inr ps, t) \<and> \<not> HasPending t \<and> length ps = length xs \<and>
    (\<forall>k < length xs. carries blake3 (ps ! k) (word_of_nat k + 1)
       \<lparr>chunk_transfer_id = tid, chunk_file_hash = blake3 file, chunk_offset = xs ! k * word_of_nat kLogicalChunkSize,
        chunk_chunk_hash = blake3 (chunk_at file (unat (xs ! k))), chunk_bytes = chunk_at file (unat (xs ! k))\<rparr>)"
proof -
  have s0: "up_source s0 = (ChunkSource_new path tid hash, files)" "up_scheduler s0 = idle_scheduler limit threshold"
    "up_requested_ranges s0 = []" "up_next_request_id s0 = 1"
    using assms(1) by (auto simp: UploadSession_new_def new_SendScheduler_def idle_scheduler_def split: if_splits)
  have s: "s = s0\<lparr>up_requested_ranges := missing_ranges request\<rparr>" "hash = blake3 file"
    using QueueRequested_ok [OF _ _ assms(2), of "file"] s0 assms(3,4) by (simp_all add: ChunkSource_new_def)
  have up: "uploading file buffered s"
    using s s0 assms(3-10) by (auto simp: uploading_def readable_def ChunkSource_new_def)
  have inside: "unat i < chunks_of (length file)" if "unat i * kLogicalChunkSize < length file" for i :: u64
  proof -
    have "unat i * kLogicalChunkSize < chunks_of (length file) * kLogicalChunkSize"
      using that chunks_of_covers [of "length file"] by linarith
    then show ?thesis by simp
  qed
  show ?thesis
    using upload_all [where ?blake3.0 = blake3, OF up assms(7), of xs] s s0 assms(11-13) inside
    by (simp add: sent_chunk_def ChunkSource_new_def add.commute)
qed

theorem upload_serves_requested_witness:
  "\<exists>s0 s ps t. UploadSession_new (ChunkSource_new (demo_root @ [''a'']) (replicate 16 1) (replicate 32 0)) demo_fs 1000000 10 = Inr s0 \<and>
     QueueRequested (\<lambda>_. replicate 32 0) \<lparr>request_transfer_id = replicate 16 1, request_file_hash = replicate 32 0,
       missing_ranges = [\<lparr>first_chunk = 0, chunk_count = 1\<rparr>]\<rparr> s0 = (Inr (), s) \<and>
     upload_run (\<lambda>_. replicate 32 0) 0 2 s = (Inr ps, t) \<and> length ps = 1"
proof -
  let ?h = "\<lambda>_ :: bytes. replicate 32 0 :: bytes"
  let ?request = "\<lparr>request_transfer_id = replicate 16 1, request_file_hash = replicate 32 0,
       missing_ranges = [\<lparr>first_chunk = 0, chunk_count = 1\<rparr>]\<rparr>"
  let ?source = "ChunkSource_new (demo_root @ [''a'']) (replicate 16 1) (replicate 32 0)"
  have bytes: "file_bytes demo_fs (demo_root @ [''a'']) = Some [1, 2]"
    by (simp add: file_bytes_def real_path_def kMaxReparse_def demo_fs_def demo_root_def node_at_def)
  have one: "requested [\<lparr>first_chunk = 0, chunk_count = 1\<rparr>] = [0]" by (simp add: requested_def range_chunks_def)
  obtain s0 where s0: "UploadSession_new ?source demo_fs 1000000 10 = Inr s0" "up_source s0 = (?source, demo_fs)"
    by (simp add: UploadSession_new_def new_SendScheduler_def)
  obtain s where s: "QueueRequested ?h ?request s0 = (Inr (), s)"
    using s0(2) bytes demo_facts(5)
    by (simp add: QueueRequested_def ValidateRequest_def Blake3File_def op_defs zoomS_def ChunkSource_new_def)
  have "\<exists>ps t. upload_run ?h 0 (Suc (length [0 :: u64])) s = (Inr ps, t) \<and> \<not> HasPending t \<and> length ps = length [0 :: u64] \<and>
    (\<forall>k < length [0 :: u64]. carries ?h (ps ! k) (word_of_nat k + 1)
       \<lparr>chunk_transfer_id = replicate 16 1, chunk_file_hash = ?h [1, 2], chunk_offset = [0] ! k * word_of_nat kLogicalChunkSize,
        chunk_chunk_hash = ?h (chunk_at [1, 2] (unat (([0] :: u64 list) ! k))), chunk_bytes = chunk_at [1, 2] (unat (([0] :: u64 list) ! k))\<rparr>)"
    by (rule upload_serves_requested [OF s0(1) s demo_facts(5) bytes])
      (simp_all add: kStreamoffMax_def kLogicalChunkSize_def one)
  then obtain ps t where "upload_run ?h 0 2 s = (Inr ps, t)" "length ps = 1" by (auto simp only: length_Cons list.size numeral_2_eq_2 One_nat_def)
  with s0(1) s show ?thesis by blast
qed

end
