(* ===== verification/Snapshot_Reconciler.thy ===== *)
theory Snapshot_Reconciler
  imports Manifest_Diff Database_Properties
begin

text \<open>
  Turning a completed scan into records (\<^verbatim>\<open>engine/sync/snapshot_reconciler.cpp\<close>) and the gate in
  front of it (\<^verbatim>\<open>engine/sync/task_policy.cpp\<close>).  The generator of version identifiers is a parameter:
  \<open>gen n\<close> is what its call number \<open>n\<close> returns.  A transaction covers the database only, so the number of
  generator calls survives a rollback.
\<close>

section \<open>Task policy\<close>

definition CanApplyLocalWatcherChange :: "TaskDefinition \<Rightarrow> bool" where
  "CanApplyLocalWatcherChange task \<longleftrightarrow> td_mode task = ''bidirectional'' \<or> td_role task = ''source''"

definition CanScanLocalChanges :: "TaskDefinition \<Rightarrow> bool" where
  "CanScanLocalChanges task = CanApplyLocalWatcherChange task"

section \<open>Model\<close>

record ReconcileConfig =
  rc_task_id :: string
  rc_origin_device_id :: string
  rc_logical_clock :: u64
  rc_now_ms :: int

record ReconcileResult =
  rr_created_or_changed :: nat
  rr_tombstoned :: nat

record Reconciling =
  rs_database :: Database
  rs_generated :: nat

abbreviation in_db :: "(Database, 'a) op \<Rightarrow> (Reconciling, 'a) op" where
  "in_db \<equiv> zoomS rs_database (\<lambda>d s. s\<lparr>rs_database := d\<rparr>)"

definition next_version :: "(nat \<Rightarrow> string) \<Rightarrow> (Reconciling, string) op" where
  "next_version gen s = (Inr (gen (rs_generated s)), s\<lparr>rs_generated := Suc (rs_generated s)\<rparr>)"

text \<open>\<^verbatim>\<open>Database::InTransaction\<close> with a body that also touches state outside the database.\<close>

definition transaction_around :: "(Reconciling, 'a) op \<Rightarrow> (Reconciling, 'a) op" where
  "transaction_around operation s =
     (let d = rs_database s in
      if \<not> autocommit d
      then (Inl (Runtime_error ''cannot start a transaction within a transaction''), s)
      else case operation (s\<lparr>rs_database := d\<lparr>db_saved := Some (db_tables d)\<rparr>\<rparr>) of
        (Inl e, s') \<Rightarrow> (Inl e, s'\<lparr>rs_database := rollback (rs_database s')\<rparr>)
      | (Inr x, s') \<Rightarrow> (Inr x, s'\<lparr>rs_database := (rs_database s')\<lparr>db_saved := None\<rparr>\<rparr>))"

definition MakeRecord :: "SnapshotEntry \<Rightarrow> ReconcileConfig \<Rightarrow> string \<Rightarrow> FileRecord" where
  "MakeRecord entry config version_id =
     \<lparr>fr_task_id = rc_task_id config, fr_relative_path = se_relative_path entry,
      fr_kind = (if se_kind entry = snFile then fkFile else fkDirectory),
      fr_size = se_size entry, fr_mtime_ns = se_mtime_ns entry,
      fr_content_hash = (case se_content_hash entry of None \<Rightarrow> [] | Some h \<Rightarrow> h),
      fr_version_id = version_id, fr_origin_device_id = rc_origin_device_id config,
      fr_logical_clock = rc_logical_clock config, fr_deleted_at_ms = None\<rparr>"

text \<open>
  The loop over the snapshot; the two indices into the known records and the changed entries are the
  rests of those lists.
\<close>

fun collect_upserts ::
  "(nat \<Rightarrow> string) \<Rightarrow> ReconcileConfig \<Rightarrow> SnapshotEntry list \<Rightarrow> FileRecord list \<Rightarrow> SnapshotEntry list \<Rightarrow>
    (Reconciling, FileRecord list) op" where
  "collect_upserts gen config [] known changes_left = returnS []"
| "collect_upserts gen config (entry # entries) known changes_left =
     (let known' = dropWhile (\<lambda>r. fr_relative_path r < se_relative_path entry) known;
          changes_left' = dropWhile (\<lambda>c. se_relative_path c < se_relative_path entry) changes_left;
          existing = (if known' \<noteq> [] \<and> fr_relative_path (hd known') = se_relative_path entry then Some (hd known') else None);
          changed = (changes_left' \<noteq> [] \<and> se_relative_path (hd changes_left') = se_relative_path entry);
          continue = collect_upserts gen config entries known' changes_left' in
      if changed \<or> existing = None
      then bindS (next_version gen) (\<lambda>version. bindS continue (\<lambda>upserts. returnS (MakeRecord entry config version # upserts)))
      else let r = the existing in
        if fr_size r \<noteq> se_size entry \<or> fr_mtime_ns r \<noteq> se_mtime_ns entry
        then bindS continue (\<lambda>upserts. returnS (r\<lparr>fr_size := se_size entry, fr_mtime_ns := se_mtime_ns entry\<rparr> # upserts))
        else continue)"

definition apply_upsert :: "ReconcileConfig \<Rightarrow> bool \<Rightarrow> (string \<rightharpoonup> FileRecord) \<Rightarrow> FileRecord \<Rightarrow> (Reconciling, unit) op" where
  "apply_upsert config versioned previous r =
     (let old = previous (fr_relative_path r) in
      if versioned \<and> (case old of None \<Rightarrow> True | Some p \<Rightarrow> fr_version_id p \<noteq> fr_version_id r)
      then bindS (in_db (AdvanceLogicalClock (rc_task_id config) 0)) (\<lambda>clock.
        thenS (in_db (RecordVersionLineage \<lparr>vl_task_id = rc_task_id config, vl_version_id = fr_version_id r,
            vl_parent_version_id = map_option fr_version_id old\<rparr>))
          (in_db (UpsertFileRecord (r\<lparr>fr_logical_clock := clock\<rparr>))))
      else in_db (UpsertFileRecord r))"

definition apply_delete ::
  "(nat \<Rightarrow> string) \<Rightarrow> ReconcileConfig \<Rightarrow> bool \<Rightarrow> (string \<rightharpoonup> FileRecord) \<Rightarrow> string \<Rightarrow> (Reconciling, unit) op" where
  "apply_delete gen config versioned previous path =
     bindS (next_version gen) (\<lambda>version.
     bindS (if versioned then in_db (AdvanceLogicalClock (rc_task_id config) 0) else returnS (rc_logical_clock config)) (\<lambda>clock.
     thenS (if versioned then
         (case previous path of
            None \<Rightarrow> throwS (Logic_error ''invalid unordered_map<K, T> key'')
          | Some p \<Rightarrow> in_db (RecordVersionLineage \<lparr>vl_task_id = rc_task_id config, vl_version_id = version,
              vl_parent_version_id = Some (fr_version_id p)\<rparr>))
        else returnS ())
      (in_db (RecordTombstone (rc_task_id config) path version (rc_origin_device_id config) clock (rc_now_ms config)))))"

definition Apply :: "(nat \<Rightarrow> string) \<Rightarrow> SnapshotEntry list \<Rightarrow> ReconcileConfig \<Rightarrow> (Reconciling, ReconcileResult) op" where
  "Apply gen snapshot config =
     thenS (guardS (rc_task_id config = [] \<or> rc_origin_device_id config = [] \<or> rc_now_ms config \<le> 0)
       (Invalid_argument ''reconciliation identity and timestamp are required''))
    (thenS (guardS (\<not> sorted (map se_relative_path snapshot))
       (Invalid_argument ''reconciliation snapshot must be path-sorted''))
    (bindS (liftS (\<lambda>s. ListFileRecords (rc_task_id config) (db_tables (rs_database s)))) (\<lambda>known.
     bindS (liftS (\<lambda>s. FindTask (rc_task_id config) (db_tables (rs_database s)))) (\<lambda>task.
     let versioned = (case task of None \<Rightarrow> False | Some t \<Rightarrow> td_mode t = ''bidirectional'');
         previous = map_of (map (\<lambda>r. (fr_relative_path r, r)) known) in
     bindS (liftS (\<lambda>_. DiffManifest snapshot known)) (\<lambda>diff.
     let result = \<lparr>rr_created_or_changed = length (created_or_changed diff), rr_tombstoned = length (deleted_paths diff)\<rparr> in
     bindS (collect_upserts gen config snapshot known (created_or_changed diff)) (\<lambda>upserts.
     if upserts = [] \<and> deleted_paths diff = [] then returnS result
     else thenS (transaction_around
         (thenS (forS (apply_upsert config versioned previous) upserts)
           (forS (apply_delete gen config versioned previous) (deleted_paths diff))))
       (returnS result)))))))"

end
