(* ===== verification/Reconcile_Properties.thy ===== *)
theory Reconcile_Properties
  imports Snapshot_Reconciler
begin

text \<open>
  What reconciling a scan achieves: afterwards the live records are exactly the scanned entries, a second
  run changes nothing, and a run that throws leaves the database as it was.
\<close>

section \<open>The records to write\<close>

lemma dropWhile_strict:
  fixes f :: "'a \<Rightarrow> 'k::linorder"
  assumes "sorted_wrt (<) (map f xs)"
  shows "set (dropWhile (\<lambda>x. f x < a) xs) = {x \<in> set xs. a \<le> f x}"
    and "sorted_wrt (<) (map f (dropWhile (\<lambda>x. f x < a) xs))"
    and "r \<in> set xs \<Longrightarrow> f r = a \<Longrightarrow> \<exists>ys. dropWhile (\<lambda>x. f x < a) xs = r # ys"
  using assms by (induction xs) (auto simp: not_less)

lemma dropWhile_hd:
  fixes f :: "'a \<Rightarrow> 'k::linorder"
  assumes "sorted_wrt (<) (map f xs)"
  shows "(dropWhile (\<lambda>x. f x < a) xs \<noteq> [] \<and> f (hd (dropWhile (\<lambda>x. f x < a) xs)) = a) \<longleftrightarrow> a \<in> f ` set xs"
proof
  assume "dropWhile (\<lambda>x. f x < a) xs \<noteq> [] \<and> f (hd (dropWhile (\<lambda>x. f x < a) xs)) = a"
  then show "a \<in> f ` set xs" using hd_in_set set_dropWhileD by (metis (no_types, lifting) image_eqI)
next
  assume "a \<in> f ` set xs"
  then obtain r where "r \<in> set xs" "f r = a" by auto
  with dropWhile_strict(3) [OF assms] show "dropWhile (\<lambda>x. f x < a) xs \<noteq> [] \<and> f (hd (dropWhile (\<lambda>x. f x < a) xs)) = a"
    by fastforce
qed

abbreviation refreshed :: "SnapshotEntry \<Rightarrow> FileRecord \<Rightarrow> FileRecord" where
  "refreshed e r \<equiv> r\<lparr>fr_size := se_size e, fr_mtime_ns := se_mtime_ns e\<rparr>"

abbreviation current :: "SnapshotEntry \<Rightarrow> FileRecord \<Rightarrow> bool" where
  "current e r \<equiv> fr_size r = se_size e \<and> fr_mtime_ns r = se_mtime_ns e"

text \<open>Each entry is written anew, refreshed, or left alone, and nothing else is written.\<close>

definition upserts_for ::
  "ReconcileConfig \<Rightarrow> SnapshotEntry list \<Rightarrow> FileRecord list \<Rightarrow> SnapshotEntry list \<Rightarrow> FileRecord list \<Rightarrow> bool" where
  "upserts_for config entries known altered us \<longleftrightarrow> sorted_wrt (<) (map fr_relative_path us) \<and>
     (\<forall>u \<in> set us. \<exists>e \<in> set entries. (\<exists>v. u = MakeRecord e config v) \<or>
        (\<exists>r \<in> set known. fr_relative_path r = se_relative_path e \<and> u = refreshed e r)) \<and>
     (\<forall>e \<in> set entries.
        (if se_relative_path e \<in> se_relative_path ` set altered \<or> se_relative_path e \<notin> fr_relative_path ` set known
         then \<exists>v. MakeRecord e config v \<in> set us
         else \<forall>r \<in> set known. fr_relative_path r = se_relative_path e \<longrightarrow>
           (if current e r then se_relative_path e \<notin> fr_relative_path ` set us else refreshed e r \<in> set us)))"

lemma upserts_for_path: "upserts_for config entries known altered us \<Longrightarrow> u \<in> set us \<Longrightarrow>
    fr_relative_path u \<in> se_relative_path ` set entries"
  by (force simp: upserts_for_def MakeRecord_def)

lemma upserts_for_kept:
  assumes "upserts_for config entries known altered us" "e \<in> set entries" "se_relative_path e \<notin> se_relative_path ` set altered"
    and "r \<in> set known" "fr_relative_path r = se_relative_path e" "current e r"
  shows "se_relative_path e \<notin> fr_relative_path ` set us"
proof -
  have "se_relative_path e \<in> fr_relative_path ` set known" using assms(4,5) by (metis imageI)
  moreover have "if se_relative_path e \<in> se_relative_path ` set altered \<or> se_relative_path e \<notin> fr_relative_path ` set known
      then \<exists>v. MakeRecord e config v \<in> set us
      else \<forall>r \<in> set known. fr_relative_path r = se_relative_path e \<longrightarrow>
        (if current e r then se_relative_path e \<notin> fr_relative_path ` set us else refreshed e r \<in> set us)"
    using assms(1,2) unfolding upserts_for_def by blast
  ultimately show ?thesis using assms(3-6) by simp
qed

lemma upserts_for_Cons:
  assumes rest: "upserts_for config es known' altered' us"
    and known: "sorted_wrt (<) (map fr_relative_path known)"
      "known' = dropWhile (\<lambda>r. fr_relative_path r < se_relative_path e) known"
    and altered: "sorted_wrt (<) (map se_relative_path altered)"
      "altered' = dropWhile (\<lambda>c. se_relative_path c < se_relative_path e) altered"
    and es: "\<forall>x \<in> set es. se_relative_path e < se_relative_path x"
    and new: "if se_relative_path e \<in> se_relative_path ` set altered \<or> se_relative_path e \<notin> fr_relative_path ` set known
      then (\<exists>v. vs = [MakeRecord e config v])
      else \<exists>r \<in> set known. fr_relative_path r = se_relative_path e \<and> vs = (if current e r then [] else [refreshed e r])"
  shows "upserts_for config (e # es) known altered (vs @ us)"
proof -
  have k: "set known' = {r \<in> set known. se_relative_path e \<le> fr_relative_path r}"
    and a: "set altered' = {c \<in> set altered. se_relative_path e \<le> se_relative_path c}"
    using dropWhile_strict(1) known altered by blast+
  have above: "\<forall>u \<in> set us. se_relative_path e < fr_relative_path u"
    using upserts_for_path [OF rest] es by (metis imageE)
  have same: "\<And>x. x \<in> set es \<Longrightarrow> (se_relative_path x \<in> se_relative_path ` set altered' \<longleftrightarrow> se_relative_path x \<in> se_relative_path ` set altered)"
    "\<And>x. x \<in> set es \<Longrightarrow> (se_relative_path x \<in> fr_relative_path ` set known' \<longleftrightarrow> se_relative_path x \<in> fr_relative_path ` set known)"
    using es unfolding k a by force+
  have uniq: "r = r'" if "r \<in> set known" "r' \<in> set known" "fr_relative_path r = fr_relative_path r'" for r r'
    using that known(1) by (metis distinct_map inj_onD strict_sorted_iff)
  have vs: "\<forall>v \<in> set vs. fr_relative_path v = se_relative_path e" "length vs \<le> 1"
    using new by (auto simp: MakeRecord_def split: if_splits)
  have "sorted_wrt (<) (map fr_relative_path (vs @ us))"
  proof (cases vs)
    case (Cons v tl)
    then show ?thesis using rest above vs by (auto simp: upserts_for_def)
  qed (use rest in \<open>simp add: upserts_for_def\<close>)
  moreover have "\<exists>x \<in> set (e # es). (\<exists>v. u = MakeRecord x config v) \<or>
      (\<exists>r \<in> set known. fr_relative_path r = se_relative_path x \<and> u = refreshed x r)" if "u \<in> set (vs @ us)" for u
  proof (cases "u \<in> set us")
    case True
    then have "\<exists>x \<in> set es. (\<exists>v. u = MakeRecord x config v) \<or>
        (\<exists>r \<in> set known'. fr_relative_path r = se_relative_path x \<and> u = refreshed x r)"
      using rest unfolding upserts_for_def by blast
    moreover have "set known' \<subseteq> set known" unfolding k by blast
    ultimately show ?thesis by (metis list.set_intros(2) subsetD)
  next
    case False
    then have "u \<in> set vs" using that by simp
    with new show ?thesis by (auto split: if_splits)
  qed
  moreover have "if se_relative_path x \<in> se_relative_path ` set altered \<or> se_relative_path x \<notin> fr_relative_path ` set known
         then \<exists>v. MakeRecord x config v \<in> set (vs @ us)
         else \<forall>r \<in> set known. fr_relative_path r = se_relative_path x \<longrightarrow>
           (if current x r then se_relative_path x \<notin> fr_relative_path ` set (vs @ us) else refreshed x r \<in> set (vs @ us))"
    if "x \<in> set (e # es)" for x
  proof (cases "x \<in> set es")
    case True
    have "if se_relative_path x \<in> se_relative_path ` set altered' \<or> se_relative_path x \<notin> fr_relative_path ` set known'
         then \<exists>v. MakeRecord x config v \<in> set us
         else \<forall>r \<in> set known'. fr_relative_path r = se_relative_path x \<longrightarrow>
           (if current x r then se_relative_path x \<notin> fr_relative_path ` set us else refreshed x r \<in> set us)"
      using rest True unfolding upserts_for_def by blast
    moreover have "se_relative_path x \<notin> fr_relative_path ` set vs" using vs(1) es True by auto
    moreover have "r \<in> set known'" if "r \<in> set known" "fr_relative_path r = se_relative_path x" for r
      using that es True k by (auto intro: less_imp_le)
    ultimately show ?thesis unfolding same [OF True] by (auto split: if_splits)
  next
    case False
    then have x: "x = e" using that by simp
    have fresh: "se_relative_path e \<notin> fr_relative_path ` set us" using above by auto
    have kept: "if current e r then se_relative_path e \<notin> fr_relative_path ` set vs else refreshed e r \<in> set vs"
      if "\<not> (se_relative_path e \<in> se_relative_path ` set altered \<or> se_relative_path e \<notin> fr_relative_path ` set known)"
        "r \<in> set known" "fr_relative_path r = se_relative_path e" for r
    proof -
      note old = new [unfolded if_not_P [OF that(1)]]
      then obtain r' where "r' \<in> set known" "fr_relative_path r' = se_relative_path e" "vs = (if current e r' then [] else [refreshed e r'])"
        by blast
      then show ?thesis using uniq [OF that(2), of r'] that(3) by auto
    qed
    show ?thesis
    proof (cases "se_relative_path e \<in> se_relative_path ` set altered \<or> se_relative_path e \<notin> fr_relative_path ` set known")
      case True
      then show ?thesis unfolding x using new by auto
    next
      case False
      note kept' = kept [OF False]
      show ?thesis unfolding x if_not_P [OF False]
      proof (intro ballI impI)
        fix r
        assume "r \<in> set known" "fr_relative_path r = se_relative_path e"
        from kept' [OF this] fresh show "if current e r then se_relative_path e \<notin> fr_relative_path ` set (vs @ us)
          else refreshed e r \<in> set (vs @ us)" by (auto simp: image_Un split: if_splits)
      qed
    qed
  qed
  ultimately show ?thesis unfolding upserts_for_def by blast
qed

lemma collect_ok:
  assumes "sorted_wrt (<) (map se_relative_path entries)" "sorted_wrt (<) (map fr_relative_path known)"
    and "sorted_wrt (<) (map se_relative_path altered)"
  shows "\<exists>us n. collect_upserts gen config entries known altered s = (Inr us, s\<lparr>rs_generated := n\<rparr>) \<and>
    upserts_for config entries known altered us \<and> (us = [] \<longrightarrow> n = rs_generated s)"
  using assms
proof (induction entries arbitrary: known altered s)
  case Nil
  then show ?case by (intro exI [of _ "[]"] exI [of _ "rs_generated s"]) (simp add: op_defs upserts_for_def)
next
  case (Cons e es)
  let ?k = "dropWhile (\<lambda>r. fr_relative_path r < se_relative_path e) known"
  let ?a = "dropWhile (\<lambda>c. se_relative_path c < se_relative_path e) altered"
  have es: "sorted_wrt (<) (map se_relative_path es)" "\<forall>x \<in> set es. se_relative_path e < se_relative_path x"
    using Cons.prems(1) by auto
  have changed: "(?a \<noteq> [] \<and> se_relative_path (hd ?a) = se_relative_path e) \<longleftrightarrow> se_relative_path e \<in> se_relative_path ` set altered"
    by (rule dropWhile_hd [OF Cons.prems(3)])
  have existing: "(?k \<noteq> [] \<and> fr_relative_path (hd ?k) = se_relative_path e) \<longleftrightarrow> se_relative_path e \<in> fr_relative_path ` set known"
    by (rule dropWhile_hd [OF Cons.prems(2)])
  note ih = Cons.IH [OF es(1) dropWhile_strict(2) [OF Cons.prems(2), of "se_relative_path e"]
      dropWhile_strict(2) [OF Cons.prems(3), of "se_relative_path e"]]
  note join = upserts_for_Cons [OF _ Cons.prems(2) refl Cons.prems(3) refl es(2)]
  show ?case
  proof (cases "se_relative_path e \<in> se_relative_path ` set altered \<or> se_relative_path e \<notin> fr_relative_path ` set known")
    case True
    let ?s = "s\<lparr>rs_generated := Suc (rs_generated s)\<rparr>"
    obtain us n where us: "collect_upserts gen config es ?k ?a ?s = (Inr us, ?s\<lparr>rs_generated := n\<rparr>)"
      "upserts_for config es ?k ?a us"
      using ih [of ?s] by blast
    have "collect_upserts gen config (e # es) known altered s =
        (Inr (MakeRecord e config (gen (rs_generated s)) # us), s\<lparr>rs_generated := n\<rparr>)"
      using True us(1) unfolding collect_upserts.simps Let_def changed existing
      by (auto simp: next_version_def bindS_def returnS_def)
    moreover have "upserts_for config (e # es) known altered ([MakeRecord e config (gen (rs_generated s))] @ us)"
      using True by (intro join [OF us(2)]) auto
    ultimately show ?thesis by auto
  next
    case False
    obtain us n where us: "collect_upserts gen config es ?k ?a s = (Inr us, s\<lparr>rs_generated := n\<rparr>)"
      "upserts_for config es ?k ?a us" "us = [] \<longrightarrow> n = rs_generated s"
      using ih [of s] by blast
    have r: "?k \<noteq> []" "fr_relative_path (hd ?k) = se_relative_path e" using False existing by blast+
    then have "hd ?k \<in> set known" by (meson hd_in_set set_dropWhileD)
    note r = r this
    let ?vs = "if current e (hd ?k) then [] else [refreshed e (hd ?k)]"
    have "collect_upserts gen config (e # es) known altered s = (Inr (?vs @ us), s\<lparr>rs_generated := n\<rparr>)"
      using False changed existing us(1) r(1,2) by (auto simp: Let_def bindS_def returnS_def)
    moreover have "upserts_for config (e # es) known altered (?vs @ us)"
      using False r by (intro join [OF us(2)]) auto
    ultimately show ?thesis using us(3) by (intro exI [of _ "?vs @ us"] exI [of _ n]) auto
  qed
qed

section \<open>Writing them\<close>

abbreviation records_of :: "Reconciling \<Rightarrow> FileRecord list" where
  "records_of s \<equiv> t_file_records (db_tables (rs_database s))"

abbreviation saved_of :: "Reconciling \<Rightarrow> tables option" where
  "saved_of s \<equiv> db_saved (rs_database s)"

lemma wp_statement: "wp (statement operation f) Q d =
    (case f (db_tables d) of Inl e \<Rightarrow> Q (Inl (sql_error operation e)) d | Inr t \<Rightarrow> Q (Inr ()) (d\<lparr>db_tables := t\<rparr>))"
  by (simp add: wp_def statement_def split: sum.splits)

lemma wp_clock:
  assumes "db_saved d \<noteq> None"
  shows "wp (AdvanceLogicalClock k n) (\<lambda>r d'. t_file_records (db_tables d') = t_file_records (db_tables d)) d"
  using assms
  by (auto simp: AdvanceLogicalClock_def advance_clock_def autocommit_def Let_def wp_statement query_def wp_def op_defs statement_def
      split: option.splits sum.splits prod.splits)

lemma wp_lineage: "wp (RecordVersionLineage l) (\<lambda>r d'. t_file_records (db_tables d') = t_file_records (db_tables d)) d"
  by (auto simp: RecordVersionLineage_def FindVersionLineage_def insert_lineage_def wp_def op_defs statement_def
      split: option.splits sum.splits prod.splits)

lemma saved_in_db: "keeps_saved m \<Longrightarrow> saved_of (snd (in_db m s)) = saved_of s"
proof -
  assume "keeps_saved m"
  then have "db_saved (snd (m (rs_database s))) = saved_of s" by (simp add: keeps_saved_def keepsS_def)
  then show ?thesis by (simp add: zoomS_def split_beta)
qed

lemma keepsS_saved_in_db: "keeps_saved m \<Longrightarrow> keepsS (\<lambda>s. saved_of s = x) (in_db m)"
  using saved_in_db by (auto simp: keepsS_def)

lemma version_saved: "keepsS (\<lambda>s. saved_of s = x) (next_version gen)"
  by (simp add: keepsS_def next_version_def)

lemma apply_saved:
  "keepsS (\<lambda>s. saved_of s = x) (apply_upsert config versioned previous r)"
  "keepsS (\<lambda>s. saved_of s = x) (apply_delete gen config versioned previous path)"
  unfolding apply_upsert_def apply_delete_def RecordTombstone_def Let_def
  by (auto intro!: keepsS_bind keepsS_then keepsS_saved_in_db version_saved split: option.splits)

text \<open>Each step writes one row: the given record up to its clock, or a tombstone.\<close>

lemma bind_returns: "bindS m f s = (Inr y, t) \<longleftrightarrow> (\<exists>x u. m s = (Inr x, u) \<and> f x u = (Inr y, t))"
  by (auto simp: bindS_def split: prod.splits sum.splits)

lemma then_returns: "thenS m n s = (Inr y, t) \<longleftrightarrow> (\<exists>x u. m s = (Inr x, u) \<and> n u = (Inr y, t))"
  by (simp add: thenS_def bind_returns)

lemma in_db_returns: "in_db m s = (Inr x, t) \<longleftrightarrow> (\<exists>d. m (rs_database s) = (Inr x, d) \<and> t = s\<lparr>rs_database := d\<rparr>)"
  by (auto simp: zoomS_def split: prod.splits)

lemmas returns = bind_returns then_returns in_db_returns

lemma upsert_returns:
  "UpsertFileRecord r d = (Inr (), d') \<Longrightarrow>
   t_file_records (db_tables d') = upsert_row file_key (stored_record r) (t_file_records (db_tables d))"
  by (auto simp: UpsertFileRecord_cases split: sum.splits if_splits)

lemma apply_upsert_row:
  assumes run: "apply_upsert config versioned previous r s = (Inr (), t)" and saved: "saved_of s \<noteq> None"
  shows "\<exists>c. records_of t = upsert_row file_key (stored_record (r\<lparr>fr_logical_clock := c\<rparr>)) (records_of s)"
proof (cases "versioned \<and> (case previous (fr_relative_path r) of None \<Rightarrow> True | Some p \<Rightarrow> fr_version_id p \<noteq> fr_version_id r)")
  case True
  then obtain c d1 l d2 d3 where "AdvanceLogicalClock (rc_task_id config) 0 (rs_database s) = (Inr c, d1)"
    "RecordVersionLineage l d1 = (Inr (), d2)" "UpsertFileRecord (r\<lparr>fr_logical_clock := c\<rparr>) d2 = (Inr (), d3)"
    "t = s\<lparr>rs_database := d3\<rparr>"
    using run by (auto simp: apply_upsert_def Let_def returns)
  then show ?thesis
    using wpD [OF wp_clock [OF saved]] wpD [OF wp_lineage] upsert_returns by (intro exI [of _ c]) auto
next
  case False
  then have "in_db (UpsertFileRecord r) s = (Inr (), t)" using run by (auto simp: apply_upsert_def Let_def)
  then show ?thesis by (intro exI [of _ "fr_logical_clock r"]) (auto simp: returns dest: upsert_returns)
qed

lemma apply_delete_row:
  assumes run: "apply_delete gen config versioned previous path s = (Inr (), t)" and saved: "saved_of s \<noteq> None"
  shows "\<exists>r. fr_kind r = fkTombstone \<and> file_key r = (cstr (rc_task_id config), cstr path) \<and>
    records_of t = upsert_row file_key r (records_of s)"
proof -
  define s1 where "s1 = s\<lparr>rs_generated := Suc (rs_generated s)\<rparr>"
  obtain c u v x w where clock: "(if versioned then in_db (AdvanceLogicalClock (rc_task_id config) 0) else returnS (rc_logical_clock config)) s1 = (Inr c, u)"
    and line: "(if versioned then (case previous path of
            None \<Rightarrow> throwS (Logic_error ''invalid unordered_map<K, T> key'')
          | Some p \<Rightarrow> in_db (RecordVersionLineage \<lparr>vl_task_id = rc_task_id config, vl_version_id = v,
              vl_parent_version_id = Some (fr_version_id p)\<rparr>)) else returnS ()) u = (Inr x, w)"
    and last: "in_db (RecordTombstone (rc_task_id config) path v (rc_origin_device_id config) c (rc_now_ms config)) w = (Inr (), t)"
    using run by (auto simp: apply_delete_def next_version_def bind_returns then_returns s1_def)
  have "records_of u = records_of s1"
    using clock wpD [OF wp_clock [of "rs_database s1"]] saved by (auto simp: in_db_returns returnS_def s1_def split: if_splits)
  moreover have "records_of w = records_of u"
    using line wpD [OF wp_lineage] by (auto simp: in_db_returns returnS_def throwS_def split: if_splits option.splits)
  moreover obtain d where "RecordTombstone (rc_task_id config) path v (rc_origin_device_id config) c (rc_now_ms config) (rs_database w) = (Inr (), d)"
    "t = w\<lparr>rs_database := d\<rparr>"
    using last by (auto simp: in_db_returns)
  ultimately show ?thesis
    using upsert_returns unfolding RecordTombstone_def
    by (intro exI conjI) (auto simp: s1_def stored_record_def)
qed

lemma for_Cons_returns: "forS f (x # xs) s = (Inr (), t) \<longleftrightarrow> (\<exists>u. f x s = (Inr (), u) \<and> forS f xs u = (Inr (), t))"
  by (auto simp: then_returns)

abbreviation record_key :: "FileRecord \<Rightarrow> string \<times> string" where
  "record_key r \<equiv> (cstr (fr_task_id r), cstr (fr_relative_path r))"

lemma file_key_stored [simp]: "file_key (stored_record r) = record_key r"
  by (simp add: stored_record_def)

lemma apply_upserts_rows:
  assumes "forS (apply_upsert config versioned previous) us s = (Inr (), t)" "saved_of s \<noteq> None"
    and "unique_key file_key (records_of s)" "distinct (map record_key us)"
  shows "saved_of t = saved_of s \<and> unique_key file_key (records_of t) \<and>
    (\<forall>k. k \<notin> record_key ` set us \<longrightarrow> row_of file_key k (records_of t) = row_of file_key k (records_of s)) \<and>
    (\<forall>u \<in> set us. \<exists>c. row_of file_key (record_key u) (records_of t) = Some (stored_record (u\<lparr>fr_logical_clock := c\<rparr>)))"
  using assms
proof (induction us arbitrary: s)
  case (Cons u us)
  obtain v where v: "apply_upsert config versioned previous u s = (Inr (), v)" "forS (apply_upsert config versioned previous) us v = (Inr (), t)"
    using Cons.prems(1) unfolding for_Cons_returns by blast
  have saved: "saved_of v = saved_of s"
    using keepsD [OF apply_saved(1) [of "saved_of s" config versioned previous u], of s] v(1) by simp
  obtain c where c: "records_of v = upsert_row file_key (stored_record (u\<lparr>fr_logical_clock := c\<rparr>)) (records_of s)"
    using apply_upsert_row [OF v(1) Cons.prems(2)] by blast
  have "saved_of v \<noteq> None" "unique_key file_key (records_of v)" "distinct (map record_key us)"
    using Cons.prems(2,3,4) saved c by simp_all
  note all = Cons.IH [OF v(2) this]
  have ih: "saved_of t = saved_of v" "unique_key file_key (records_of t)"
    "\<And>k. k \<notin> record_key ` set us \<Longrightarrow> row_of file_key k (records_of t) = row_of file_key k (records_of v)"
    "\<And>u. u \<in> set us \<Longrightarrow> \<exists>c. row_of file_key (record_key u) (records_of t) = Some (stored_record (u\<lparr>fr_logical_clock := c\<rparr>))"
    using all by blast+
  have "record_key u \<notin> record_key ` set us" using Cons.prems(4) by auto
  then have "row_of file_key (record_key u) (records_of t) = Some (stored_record (u\<lparr>fr_logical_clock := c\<rparr>))"
    using ih(3) c by (simp add: row_of_upsert)
  then have "\<forall>u \<in> set (u # us). \<exists>c. row_of file_key (record_key u) (records_of t) = Some (stored_record (u\<lparr>fr_logical_clock := c\<rparr>))"
    using ih(4) by auto
  moreover have "row_of file_key k (records_of t) = row_of file_key k (records_of s)" if "k \<notin> record_key ` set (u # us)" for k
    using ih(3) [of k] that c by (auto simp: row_of_upsert)
  ultimately show ?case using ih(1,2) saved by simp
qed (simp add: op_defs)

lemma apply_deletes_rows:
  assumes "forS (apply_delete gen config versioned previous) ps s = (Inr (), t)" "saved_of s \<noteq> None"
    and "unique_key file_key (records_of s)"
  shows "saved_of t = saved_of s \<and> unique_key file_key (records_of t) \<and>
    (\<forall>k. (k \<notin> (\<lambda>p. (cstr (rc_task_id config), cstr p)) ` set ps \<longrightarrow> row_of file_key k (records_of t) = row_of file_key k (records_of s)) \<and>
      (k \<in> (\<lambda>p. (cstr (rc_task_id config), cstr p)) ` set ps \<longrightarrow>
        (\<exists>r. row_of file_key k (records_of t) = Some r \<and> fr_kind r = fkTombstone)))"
  using assms
proof (induction ps arbitrary: s)
  case (Cons p ps)
  obtain v where v: "apply_delete gen config versioned previous p s = (Inr (), v)" "forS (apply_delete gen config versioned previous) ps v = (Inr (), t)"
    using Cons.prems(1) unfolding for_Cons_returns by blast
  have saved: "saved_of v = saved_of s"
    using keepsD [OF apply_saved(2) [of "saved_of s" gen config versioned previous p], of s] v(1) by simp
  obtain r where r: "fr_kind r = fkTombstone" "file_key r = (cstr (rc_task_id config), cstr p)"
    "records_of v = upsert_row file_key r (records_of s)"
    using apply_delete_row [OF v(1) Cons.prems(2)] by blast
  have "saved_of v \<noteq> None" "unique_key file_key (records_of v)" using Cons.prems(2,3) saved r(3) by simp_all
  note all = Cons.IH [OF v(2) this]
  have ih: "saved_of t = saved_of v" "unique_key file_key (records_of t)"
    "\<And>k. k \<notin> (\<lambda>p. (cstr (rc_task_id config), cstr p)) ` set ps \<Longrightarrow> row_of file_key k (records_of t) = row_of file_key k (records_of v)"
    "\<And>k. k \<in> (\<lambda>p. (cstr (rc_task_id config), cstr p)) ` set ps \<Longrightarrow>
        \<exists>r. row_of file_key k (records_of t) = Some r \<and> fr_kind r = fkTombstone"
    using all by blast+
  show ?case
  proof (intro conjI allI impI)
    fix k
    assume "k \<in> (\<lambda>p. (cstr (rc_task_id config), cstr p)) ` set (p # ps)"
    then show "\<exists>r. row_of file_key k (records_of t) = Some r \<and> fr_kind r = fkTombstone"
      using ih(3,4) [of k] r by (cases "k \<in> (\<lambda>p. (cstr (rc_task_id config), cstr p)) ` set ps") (auto simp: row_of_upsert)
  qed (use ih saved r in \<open>auto simp: row_of_upsert\<close>)
qed (simp add: op_defs)

section \<open>The outcome\<close>

definition task_records :: "string \<Rightarrow> FileRecord list \<Rightarrow> FileRecord list" where
  "task_records k rows = order_by fr_relative_path (filter (\<lambda>r. fr_task_id r = k) rows)"

lemma ListFileRecords_eq:
  assumes "k \<noteq> []" "nul_free k"
  shows "ListFileRecords k t = Inr (task_records k (t_file_records t))"
proof -
  have "mapE (\<lambda>row. read_file_record k (fr_relative_path row) row) rows = Inr rows" if "\<forall>r \<in> set rows. fr_task_id r = k" for rows
    using that by (induction rows) (auto simp: read_file_record_def)
  then show ?thesis using assms by (simp add: ListFileRecords_def task_records_def)
qed

lemma mem_task_records:
  assumes "unique_key file_key rows"
  shows "r \<in> set (task_records k rows) \<longleftrightarrow> row_of file_key (k, fr_relative_path r) rows = Some r"
  using assms by (auto simp: task_records_def row_of_Some_iff)

lemma task_records_sorted:
  assumes "unique_key file_key rows"
  shows "sorted_wrt (<) (map fr_relative_path (task_records k rows))"
proof -
  let ?rows = "filter (\<lambda>r. fr_task_id r = k) rows"
  have "distinct (map file_key ?rows)" using assms by (rule distinct_map_filter)
  then have "unique_key fr_relative_path ?rows" unfolding distinct_map by (auto simp: inj_on_def)
  then show ?thesis
    unfolding task_records_def strict_sorted_iff by (simp add: order_by_sorted order_by_distinct)
qed

text \<open>The live records of a task are exactly the entries of the scan, with their sizes and times.\<close>

definition settled :: "SnapshotEntry list \<Rightarrow> FileRecord list \<Rightarrow> bool" where
  "settled snapshot recs \<longleftrightarrow> (\<forall>e \<in> set snapshot. \<exists>r \<in> set recs. unchanged e r \<and> fr_size r = se_size e \<and> fr_mtime_ns r = se_mtime_ns e) \<and>
     (\<forall>r \<in> set recs. fr_kind r \<noteq> fkTombstone \<longrightarrow> fr_relative_path r \<in> se_relative_path ` set snapshot)"

lemma upserts_key:
  assumes "upserts_for config snapshot (task_records (rc_task_id config) rows) altered us" "u \<in> set us"
    and "nul_free (rc_task_id config)" "\<forall>e \<in> set snapshot. nul_free (se_relative_path e)"
  shows "record_key u = (rc_task_id config, fr_relative_path u)"
proof -
  obtain e where "e \<in> set snapshot" "(\<exists>v. u = MakeRecord e config v) \<or>
      (\<exists>r \<in> set (task_records (rc_task_id config) rows). fr_relative_path r = se_relative_path e \<and> u = refreshed e r)"
    using assms(1,2) unfolding upserts_for_def by blast
  then have "fr_task_id u = rc_task_id config" "fr_relative_path u = se_relative_path e"
    by (auto simp: MakeRecord_def task_records_def)
  then show ?thesis using assms(3,4) \<open>e \<in> set snapshot\<close> by simp
qed

lemma settled_rows:
  fixes config :: ReconcileConfig
  defines "k \<equiv> rc_task_id config"
  defines "deleted \<equiv> \<lambda>known snapshot. map fr_relative_path (filter (\<lambda>r. fr_kind r \<noteq> fkTombstone \<and>
    fr_relative_path r \<notin> se_relative_path ` set (snapshot :: SnapshotEntry list)) known)"
  assumes names: "nul_free k" "\<forall>e \<in> set snapshot. nul_free (se_relative_path e)"
    and scan: "\<forall>e \<in> set snapshot. hashed e" and distinct: "distinct (map se_relative_path snapshot)"
    and unique: "unique_key file_key rows" "unique_key file_key rows'"
    and us: "upserts_for config snapshot (task_records k rows) (filter (\<lambda>e. \<not> (\<exists>r \<in> set (task_records k rows). unchanged e r)) snapshot) us"
    and other: "\<And>q. q \<notin> record_key ` set us \<Longrightarrow> q \<notin> Pair k ` set (deleted (task_records k rows) snapshot) \<Longrightarrow>
      row_of file_key q rows' = row_of file_key q rows"
    and written: "\<And>u. u \<in> set us \<Longrightarrow> \<exists>c. row_of file_key (record_key u) rows' = Some (stored_record (u\<lparr>fr_logical_clock := c\<rparr>))"
    and dead: "\<And>p. p \<in> set (deleted (task_records k rows) snapshot) \<Longrightarrow> \<exists>r. row_of file_key (k, p) rows' = Some r \<and> fr_kind r = fkTombstone"
  shows "settled snapshot (task_records k rows')"
proof -
  let ?known = "task_records k rows" and ?altered = "filter (\<lambda>e. \<not> (\<exists>r \<in> set (task_records k rows). unchanged e r)) snapshot"
  have known: "r \<in> set ?known \<longleftrightarrow> row_of file_key (k, fr_relative_path r) rows = Some r" for r
    using unique(1) by (rule mem_task_records)
  have key: "record_key u = (k, fr_relative_path u)" if "u \<in> set us" for u
    using upserts_key [OF us [unfolded k_def] that] names unfolding k_def by simp
  have one: "\<exists>r \<in> set (task_records k rows'). unchanged e r \<and> fr_size r = se_size e \<and> fr_mtime_ns r = se_mtime_ns e"
    if e: "e \<in> set snapshot" for e
  proof -
    let ?p = "se_relative_path e"
    have found: ?thesis if "row_of file_key (k, ?p) rows' = Some r" "unchanged e r" "current e r" for r
      using that mem_task_records [OF unique(2)] by (auto simp: unchanged_def)
    have new: ?thesis if "u \<in> set us" "fr_relative_path u = ?p" "\<And>c. unchanged e (stored_record (u\<lparr>fr_logical_clock := c\<rparr>))"
      "current e u" for u
    proof -
      note given = that
      obtain c where "row_of file_key (k, ?p) rows' = Some (stored_record (u\<lparr>fr_logical_clock := c\<rparr>))"
        using written [OF given(1)] key [OF given(1)] given(2) by auto
      moreover have "current e (stored_record (u\<lparr>fr_logical_clock := c\<rparr>))" using given(4) by (simp add: stored_record_def)
      ultimately show ?thesis using given(3) [of c] by (intro found)
    qed
    have rule: "if ?p \<in> se_relative_path ` set ?altered \<or> ?p \<notin> fr_relative_path ` set ?known
         then \<exists>v. MakeRecord e config v \<in> set us
         else \<forall>r \<in> set ?known. fr_relative_path r = ?p \<longrightarrow> (if current e r then ?p \<notin> fr_relative_path ` set us else refreshed e r \<in> set us)"
      using us e unfolding upserts_for_def by blast
    show ?thesis
    proof (cases "?p \<in> se_relative_path ` set ?altered \<or> ?p \<notin> fr_relative_path ` set ?known")
      case True
      then obtain v where "MakeRecord e config v \<in> set us" using rule by auto
      moreover have "unchanged e (stored_record ((MakeRecord e config v)\<lparr>fr_logical_clock := c\<rparr>))" for c
        using scan e names(2) by (auto simp: unchanged_def stored_record_def MakeRecord_def hashed_def split: SnapshotKind.splits)
      ultimately show ?thesis by (intro new) (auto simp: MakeRecord_def)
    next
      case False
      then obtain r where r: "r \<in> set ?known" "unchanged e r" using e by auto
      then have path: "fr_relative_path r = ?p" by (simp add: unchanged_def)
      show ?thesis
      proof (cases "current e r")
        case True
        then have "?p \<notin> fr_relative_path ` set us" using rule False r(1) path by auto
        then have "(k, ?p) \<notin> record_key ` set us" using key by auto
        moreover have "?p \<notin> set (deleted ?known snapshot)" using imageI [OF e, of se_relative_path] by (auto simp: deleted_def)
        ultimately have "row_of file_key (k, ?p) rows' = Some r" using other [of "(k, ?p)"] known [of r] r(1) path by auto
        then show ?thesis using r(2) True by (intro found) auto
      next
        case stale: False
        then have "refreshed e r \<in> set us" using rule False r(1) path by auto
        moreover have "unchanged e (stored_record ((refreshed e r)\<lparr>fr_logical_clock := c\<rparr>))" for c
          using r(2) path names(2) e by (auto simp: unchanged_def stored_record_def split: SnapshotKind.splits)
        ultimately show ?thesis using path by (intro new [of "refreshed e r"]) simp_all
      qed
    qed
  qed
  have "fr_relative_path r \<in> se_relative_path ` set snapshot" if r: "r \<in> set (task_records k rows')" "fr_kind r \<noteq> fkTombstone" for r
  proof (rule ccontr)
    let ?p = "fr_relative_path r"
    assume outside: "?p \<notin> se_relative_path ` set snapshot"
    have row: "row_of file_key (k, ?p) rows' = Some r" using r(1) mem_task_records [OF unique(2)] by simp
    have "(k, ?p) \<notin> record_key ` set us" using upserts_for_path [OF us] outside key by auto
    moreover have "?p \<notin> set (deleted ?known snapshot)" using dead [of ?p] row r(2) by auto
    ultimately have "row_of file_key (k, ?p) rows = Some r" using other [of "(k, ?p)"] row by (simp add: image_iff)
    then have "r \<in> set ?known" by (simp add: known)
    then show False using r(2) outside \<open>?p \<notin> set (deleted ?known snapshot)\<close> by (auto simp: deleted_def)
  qed
  with one show ?thesis by (simp add: settled_def)
qed

text \<open>What a caller passes: a named task and device, a sorted scan with hashed files, no NUL in a name.\<close>

definition reconcilable :: "SnapshotEntry list \<Rightarrow> ReconcileConfig \<Rightarrow> Reconciling \<Rightarrow> bool" where
  "reconcilable snapshot config s \<longleftrightarrow> rc_task_id config \<noteq> [] \<and> nul_free (rc_task_id config) \<and>
     (\<forall>e \<in> set snapshot. hashed e \<and> nul_free (se_relative_path e)) \<and>
     (\<forall>r \<in> set (records_of s). nul_free (fr_relative_path r)) \<and> db_inv (rs_database s) \<and> saved_of s = None"

definition apply_changes where
  "apply_changes gen config versioned previous us ps = transaction_around
     (thenS (forS (apply_upsert config versioned previous) us) (forS (apply_delete gen config versioned previous) ps))"

text \<open>Once its checks have passed, the call is one transaction, or nothing.\<close>

lemma Apply_run:
  assumes k: "rc_task_id config \<noteq> []" "nul_free (rc_task_id config)" and hashed: "\<forall>e \<in> set snapshot. hashed e"
    and unique: "unique_key file_key (records_of s)"
    and checks: "rc_origin_device_id config \<noteq> []" "0 < rc_now_ms config" "sorted_wrt (<) (map se_relative_path snapshot)"
  defines "known \<equiv> task_records (rc_task_id config) (records_of s)"
  defines "altered \<equiv> filter (\<lambda>e. \<not> (\<exists>r \<in> set known. unchanged e r)) snapshot"
  defines "deleted \<equiv> map fr_relative_path (filter (\<lambda>r. fr_kind r \<noteq> fkTombstone \<and> fr_relative_path r \<notin> se_relative_path ` set snapshot) known)"
  shows "\<exists>us n versioned. upserts_for config snapshot known altered us \<and> (us = [] \<longrightarrow> n = rs_generated s) \<and>
    Apply gen snapshot config s =
      thenS (if us = [] \<and> deleted = [] then returnS ()
          else apply_changes gen config versioned (map_of (map (\<lambda>r. (fr_relative_path r, r)) known)) us deleted)
        (returnS \<lparr>rr_created_or_changed = length altered, rr_tombstoned = length deleted\<rparr>) (s\<lparr>rs_generated := n\<rparr>)"
proof -
  let ?k = "rc_task_id config"
  have known: "sorted_wrt (<) (map fr_relative_path known)" unfolding known_def by (rule task_records_sorted [OF unique])
  have scan: "distinct (map se_relative_path snapshot)" "sorted (map se_relative_path snapshot)"
    using checks(3) unfolding strict_sorted_iff by blast+
  have rows: "distinct (map fr_relative_path known)" "sorted (map fr_relative_path known)"
    using known unfolding strict_sorted_iff by blast+
  have "DiffManifest snapshot known = Inr (diff_spec snapshot known)"
    using DiffManifest_eq [OF hashed, of known]
    unfolding sort_key_id_if_sorted [OF scan(2)] sort_key_id_if_sorted [OF rows(2)] if_P [OF conjI [OF scan(1) rows(1)]] .
  then have diff: "DiffManifest snapshot known = Inr \<lparr>created_or_changed = altered, deleted_paths = deleted\<rparr>"
    unfolding diff_spec_def altered_def deleted_def .
  have "sorted_wrt (<) (map se_relative_path altered)"
    unfolding altered_def sorted_wrt_map by (rule sorted_wrt_filter [OF checks(3) [unfolded sorted_wrt_map]])
  from collect_ok [OF checks(3) known this, of gen config s] obtain us n where
    us: "collect_upserts gen config snapshot known altered s = (Inr us, s\<lparr>rs_generated := n\<rparr>)"
      "upserts_for config snapshot known altered us" "us = [] \<longrightarrow> n = rs_generated s" by blast
  have list: "ListFileRecords ?k (db_tables (rs_database s)) = Inr known"
    unfolding known_def by (rule ListFileRecords_eq [OF k])
  obtain task where task: "FindTask ?k (db_tables (rs_database s)) = Inr task"
    using k by (auto simp: FindTask_def)
  show ?thesis
    using us k checks(1,2) scan(2) list task diff
    by (intro exI [of _ us] exI [of _ n] exI [of _ "case task of None \<Rightarrow> False | Some t \<Rightarrow> td_mode t = ''bidirectional''"])
      (simp add: Apply_def thenS_def bindS_def guardS_def liftS_def returnS_def Let_def apply_changes_def)
qed

lemma transaction_throws:
  assumes "transaction_around m s = (Inl e, t)" "keepsS (\<lambda>s. saved_of s = Some (db_tables (rs_database s0))) m"
    and "rs_database s = rs_database s0" "saved_of s0 = None"
  shows "rs_database t = rs_database s0"
proof -
  let ?d = "rs_database s0"
  obtain u where u: "m (s\<lparr>rs_database := ?d\<lparr>db_saved := Some (db_tables ?d)\<rparr>\<rparr>) = (Inl e, u)" "rs_database t = rollback (rs_database u)"
    using assms(1,3,4) by (auto simp: transaction_around_def autocommit_def Let_def split: prod.splits sum.splits)
  then have "saved_of u = Some (db_tables ?d)"
    using keepsD [OF assms(2), of "s\<lparr>rs_database := ?d\<lparr>db_saved := Some (db_tables ?d)\<rparr>\<rparr>"] by simp
  then show ?thesis using u(2) assms(4) by (simp add: rollback_def)
qed

lemma apply_changes_throws:
  assumes "apply_changes gen config versioned previous us ps s = (Inl e, t)" "saved_of s = None"
  shows "rs_database t = rs_database s"
  using assms unfolding apply_changes_def
  by (intro transaction_throws [OF assms(1) [unfolded apply_changes_def] _ refl assms(2)] keepsS_then keepsS_for apply_saved)

lemma apply_changes_rows:
  assumes run: "apply_changes gen config versioned previous us ps s = (Inr (), t)" and saved: "saved_of s = None"
    and unique: "unique_key file_key (records_of s)" and us: "distinct (map record_key us)"
    and apart: "\<And>u. u \<in> set us \<Longrightarrow> record_key u \<notin> (\<lambda>p. (cstr (rc_task_id config), cstr p)) ` set ps"
  shows "saved_of t = None \<and> unique_key file_key (records_of t) \<and>
    (\<forall>k. k \<notin> record_key ` set us \<longrightarrow> k \<notin> (\<lambda>p. (cstr (rc_task_id config), cstr p)) ` set ps \<longrightarrow>
      row_of file_key k (records_of t) = row_of file_key k (records_of s)) \<and>
    (\<forall>u \<in> set us. \<exists>c. row_of file_key (record_key u) (records_of t) = Some (stored_record (u\<lparr>fr_logical_clock := c\<rparr>))) \<and>
    (\<forall>p \<in> set ps. \<exists>r. row_of file_key (cstr (rc_task_id config), cstr p) (records_of t) = Some r \<and> fr_kind r = fkTombstone)"
proof -
  define s1 where "s1 = s\<lparr>rs_database := (rs_database s)\<lparr>db_saved := Some (db_tables (rs_database s))\<rparr>\<rparr>"
  obtain u where u: "thenS (forS (apply_upsert config versioned previous) us) (forS (apply_delete gen config versioned previous) ps) s1 = (Inr (), u)"
    "t = u\<lparr>rs_database := (rs_database u)\<lparr>db_saved := None\<rparr>\<rparr>"
    using run saved unfolding apply_changes_def transaction_around_def s1_def
    by (auto simp: autocommit_def Let_def split: prod.splits sum.splits)
  obtain v where v: "forS (apply_upsert config versioned previous) us s1 = (Inr (), v)" "forS (apply_delete gen config versioned previous) ps v = (Inr (), u)"
    using u(1) by (auto simp: then_returns)
  have s1: "saved_of s1 \<noteq> None" "unique_key file_key (records_of s1)" "records_of s1 = records_of s"
    using unique by (simp_all add: s1_def)
  note first = apply_upserts_rows [OF v(1) s1(1,2) us]
  then have v': "saved_of v \<noteq> None" "unique_key file_key (records_of v)" using s1(1) by auto
  note second = apply_deletes_rows [OF v(2) v']
  have rows: "records_of t = records_of u" "saved_of t = None" using u(2) by simp_all
  show ?thesis
    unfolding rows using first second s1(3) apart by (intro conjI allI ballI impI) (force+)
qed

lemma Apply_rejects:
  assumes "rc_task_id config \<noteq> []" "nul_free (rc_task_id config)" "\<forall>e \<in> set snapshot. hashed e"
    and "\<not> (rc_origin_device_id config \<noteq> [] \<and> 0 < rc_now_ms config \<and> sorted_wrt (<) (map se_relative_path snapshot))"
  shows "\<exists>e. Apply gen snapshot config s = (Inl e, s)"
proof (cases "rc_origin_device_id config = [] \<or> rc_now_ms config \<le> 0 \<or> \<not> sorted (map se_relative_path snapshot)")
  case True
  then show ?thesis by (auto simp: Apply_def op_defs)
next
  case False
  then have "\<not> distinct (map se_relative_path snapshot)" using assms(4) unfolding strict_sorted_iff by auto
  then have "DiffManifest snapshot known = Inl (Invalid_argument ''manifest contains duplicate paths'')" for known
    using DiffManifest_eq [OF assms(3), of known] by simp
  moreover obtain task where "FindTask (rc_task_id config) (db_tables (rs_database s)) = Inr task"
    using assms(1) by (auto simp: FindTask_def)
  ultimately show ?thesis
    using False assms(1) ListFileRecords_eq [OF assms(1,2), of "db_tables (rs_database s)"]
    by (simp add: Apply_def thenS_def bindS_def guardS_def liftS_def Let_def)
qed

text \<open>On settled records there is nothing to do.\<close>

lemma Apply_settled:
  assumes k: "rc_task_id config \<noteq> []" "nul_free (rc_task_id config)" and hashed: "\<forall>e \<in> set snapshot. hashed e"
    and unique: "unique_key file_key (records_of s)"
    and checks: "rc_origin_device_id config \<noteq> []" "0 < rc_now_ms config" "sorted_wrt (<) (map se_relative_path snapshot)"
    and settled: "settled snapshot (task_records (rc_task_id config) (records_of s))"
  shows "Apply gen snapshot config s = (Inr \<lparr>rr_created_or_changed = 0, rr_tombstoned = 0\<rparr>, s)"
proof -
  let ?known = "task_records (rc_task_id config) (records_of s)"
  let ?altered = "filter (\<lambda>e. \<not> (\<exists>r \<in> set ?known. unchanged e r)) snapshot"
  let ?deleted = "map fr_relative_path (filter (\<lambda>r. fr_kind r \<noteq> fkTombstone \<and> fr_relative_path r \<notin> se_relative_path ` set snapshot) ?known)"
  obtain us n versioned where us: "upserts_for config snapshot ?known ?altered us" "us = [] \<longrightarrow> n = rs_generated s"
    and run: "Apply gen snapshot config s = thenS (if us = [] \<and> ?deleted = [] then returnS ()
          else apply_changes gen config versioned (map_of (map (\<lambda>r. (fr_relative_path r, r)) ?known)) us ?deleted)
        (returnS \<lparr>rr_created_or_changed = length ?altered, rr_tombstoned = length ?deleted\<rparr>) (s\<lparr>rs_generated := n\<rparr>)"
    using Apply_run [OF k hashed unique checks, of gen] by blast
  have none: "?altered = []" "?deleted = []" using settled by (auto simp: settled_def filter_empty_conv)
  have "us = []"
  proof (rule ccontr)
    assume "us \<noteq> []"
    then obtain u where u: "u \<in> set us" by (meson hd_in_set)
    then obtain e where e: "e \<in> set snapshot" "fr_relative_path u = se_relative_path e"
      using upserts_for_path [OF us(1) u] by auto
    obtain r where r: "r \<in> set ?known" "unchanged e r" "current e r" using settled e(1) by (auto simp: settled_def)
    then have "fr_relative_path r = se_relative_path e" by (simp add: unchanged_def)
    then have "se_relative_path e \<notin> fr_relative_path ` set us"
      by (intro upserts_for_kept [OF us(1) [unfolded none(1)] e(1) _ r(1)]) (simp_all add: r(3))
    then show False using u e(2) by (metis imageI)
  qed
  then show ?thesis using run us(2) none by (simp add: op_defs)
qed

lemma Apply_settles:
  assumes k: "rc_task_id config \<noteq> []" "nul_free (rc_task_id config)" and hashed: "\<forall>e \<in> set snapshot. hashed e"
    and saved: "saved_of s = None" and unique: "unique_key file_key (records_of s)"
    and names: "\<forall>e \<in> set snapshot. nul_free (se_relative_path e)" "\<forall>r \<in> set (records_of s). nul_free (fr_relative_path r)"
    and checks: "rc_origin_device_id config \<noteq> []" "0 < rc_now_ms config" "sorted_wrt (<) (map se_relative_path snapshot)"
    and run: "Apply gen snapshot config s = (r, t)"
  shows "case r of Inl e \<Rightarrow> rs_database t = rs_database s
    | Inr _ \<Rightarrow> unique_key file_key (records_of t) \<and> settled snapshot (task_records (rc_task_id config) (records_of t))"
proof -
  let ?k = "rc_task_id config" and ?known = "task_records (rc_task_id config) (records_of s)"
  let ?altered = "filter (\<lambda>e. \<not> (\<exists>r \<in> set ?known. unchanged e r)) snapshot"
  let ?deleted = "map fr_relative_path (filter (\<lambda>r. fr_kind r \<noteq> fkTombstone \<and> fr_relative_path r \<notin> se_relative_path ` set snapshot) ?known)"
  let ?previous = "map_of (map (\<lambda>r. (fr_relative_path r, r)) ?known)"
  obtain us n versioned where us: "upserts_for config snapshot ?known ?altered us"
    and body: "Apply gen snapshot config s = thenS (if us = [] \<and> ?deleted = [] then returnS ()
          else apply_changes gen config versioned ?previous us ?deleted)
        (returnS \<lparr>rr_created_or_changed = length ?altered, rr_tombstoned = length ?deleted\<rparr>) (s\<lparr>rs_generated := n\<rparr>)"
    using Apply_run [OF k hashed unique checks, of gen] by blast
  have scan: "distinct (map se_relative_path snapshot)" using checks(3) unfolding strict_sorted_iff by blast
  note settle = settled_rows [OF k(2) names(1) hashed scan unique _ us]
  show ?thesis
  proof (cases "us = [] \<and> ?deleted = []")
    case True
    then have "r = Inr \<lparr>rr_created_or_changed = length ?altered, rr_tombstoned = 0\<rparr>" "records_of t = records_of s"
      using run body by (auto simp: op_defs)
    moreover have "settled snapshot (task_records ?k (records_of s))"
      using True by (intro settle [OF unique]) simp_all
    ultimately show ?thesis using unique by simp
  next
    case False
    obtain x u where x: "apply_changes gen config versioned ?previous us ?deleted (s\<lparr>rs_generated := n\<rparr>) = (x, u)" by fastforce
    have outcome: "(r, t) = (case x of Inl e \<Rightarrow> (Inl e, u)
        | Inr _ \<Rightarrow> (Inr \<lparr>rr_created_or_changed = length ?altered, rr_tombstoned = length ?deleted\<rparr>, u))"
      using run unfolding body if_not_P [OF False] thenS_def bindS_def x returnS_def by (cases x) auto
    show ?thesis
    proof (cases x)
      case (Inl e)
      then show ?thesis
        using outcome x apply_changes_throws [of gen config versioned ?previous us ?deleted "s\<lparr>rs_generated := n\<rparr>" e u] saved
        by simp
    next
      case (Inr y)
      then have t: "t = u" "r = Inr \<lparr>rr_created_or_changed = length ?altered, rr_tombstoned = length ?deleted\<rparr>"
        using outcome by simp_all
      note key = upserts_key [OF us _ k(2) names(1)]
      have keys: "map record_key us = map (Pair ?k) (map fr_relative_path us)" using key by simp
      have "distinct (map fr_relative_path us)" using us unfolding upserts_for_def strict_sorted_iff by blast
      then have "distinct (map record_key us)" unfolding keys by (simp add: distinct_map inj_on_def)
      moreover have dead: "(\<lambda>p. (cstr ?k, cstr p)) ` set ?deleted = Pair ?k ` set ?deleted"
        using k(2) names(2) by (intro image_cong refl) (auto simp: task_records_def)
      moreover have "record_key u \<notin> Pair ?k ` set ?deleted" if "u \<in> set us" for u
        using key [OF that] upserts_for_path [OF us that] by auto
      ultimately have rows: "unique_key file_key (records_of t)"
        "\<And>q. q \<notin> record_key ` set us \<Longrightarrow> q \<notin> Pair ?k ` set ?deleted \<Longrightarrow> row_of file_key q (records_of t) = row_of file_key q (records_of s)"
        "\<And>u. u \<in> set us \<Longrightarrow> \<exists>c. row_of file_key (record_key u) (records_of t) = Some (stored_record (u\<lparr>fr_logical_clock := c\<rparr>))"
        "\<And>p. p \<in> set ?deleted \<Longrightarrow> \<exists>r. row_of file_key (cstr ?k, cstr p) (records_of t) = Some r \<and> fr_kind r = fkTombstone"
        using apply_changes_rows [of gen config versioned ?previous us ?deleted "s\<lparr>rs_generated := n\<rparr>" u] x Inr saved unique t(1)
        by auto
      have "\<exists>r. row_of file_key (?k, p) (records_of t) = Some r \<and> fr_kind r = fkTombstone" if "p \<in> set ?deleted" for p
        using rows(4) [OF that] k(2) names(2) that by (auto simp: task_records_def)
      then show ?thesis using settle [OF rows(1-3)] rows(1) t(2) by simp
    qed
  qed
qed

text \<open>
  C34: reconciling a scan makes the records say what the scan saw.  When it returns, every scanned entry has
  a live record of its kind, content, size and time, and every other record of the task is a tombstone; a
  second run over the same scan finds nothing to do and changes nothing, the clock and the version generator
  included.  When it throws, the database is exactly as before.
\<close>

theorem reconcile_settles_records:
  assumes ok: "reconcilable snapshot config s" and run: "Apply gen snapshot config s = (r, t)"
  shows "case r of
      Inl e \<Rightarrow> rs_database t = rs_database s
    | Inr counts \<Rightarrow>
       (\<exists>recs. ListFileRecords (rc_task_id config) (db_tables (rs_database t)) = Inr recs \<and> settled snapshot recs) \<and>
       Apply gen' snapshot config t = (Inr \<lparr>rr_created_or_changed = 0, rr_tombstoned = 0\<rparr>, t)"
proof (cases "rc_origin_device_id config \<noteq> [] \<and> 0 < rc_now_ms config \<and> sorted_wrt (<) (map se_relative_path snapshot)")
  case False
  have "rc_task_id config \<noteq> []" "nul_free (rc_task_id config)" "\<forall>e \<in> set snapshot. hashed e"
    using ok unfolding reconcilable_def by blast+
  from Apply_rejects [OF this False, of gen s] run show ?thesis by auto
next
  case True
  then have checks: "rc_origin_device_id config \<noteq> []" "0 < rc_now_ms config" "sorted_wrt (<) (map se_relative_path snapshot)" by blast+
  have k: "rc_task_id config \<noteq> []" "nul_free (rc_task_id config)" and hashed: "\<forall>e \<in> set snapshot. hashed e"
    and saved: "saved_of s = None"
    and names: "\<forall>e \<in> set snapshot. nul_free (se_relative_path e)" "\<forall>r \<in> set (records_of s). nul_free (fr_relative_path r)"
    using ok unfolding reconcilable_def by blast+
  have unique: "unique_key file_key (records_of s)"
    using ok unfolding reconcilable_def db_inv_def tables_inv_def keys_inv_def by blast
  note effect = Apply_settles [OF k hashed saved unique names checks run]
  show ?thesis
  proof (cases r)
    case (Inr counts)
    then have t: "unique_key file_key (records_of t)" "settled snapshot (task_records (rc_task_id config) (records_of t))"
      using effect by simp_all
    then show ?thesis
      using Inr ListFileRecords_eq [OF k] Apply_settled [OF k hashed t(1) checks t(2), of gen'] by simp
  qed (use effect in simp)
qed

definition demo_config :: ReconcileConfig where
  "demo_config = \<lparr>rc_task_id = ''t'', rc_origin_device_id = ''d'', rc_logical_clock = 0, rc_now_ms = 1\<rparr>"

lemma demo_reconcile:
  "\<exists>t. Apply (\<lambda>_. ''v'') [demo_entry] demo_config \<lparr>rs_database = demo_database, rs_generated = 0\<rparr> =
     (Inr \<lparr>rr_created_or_changed = 1, rr_tombstoned = 0\<rparr>, t)"
  by (simp add: Apply_def demo_config_def demo_entry_def demo_database_def op_defs empty_tables_def ListFileRecords_def order_by_def
      FindTask_def row_of_def DiffManifest_def OrderedEntries_def next_version_def transaction_around_def autocommit_def
      apply_upsert_def zoomS_def UpsertFileRecord_cases ValidateFileRecord_def ValidateRelativePath_def MakeRecord_def has_key_def Let_def)

theorem reconcile_settles_records_witness:
  "\<exists>t recs. Apply (\<lambda>_. ''v'') [demo_entry] demo_config \<lparr>rs_database = demo_database, rs_generated = 0\<rparr> =
       (Inr \<lparr>rr_created_or_changed = 1, rr_tombstoned = 0\<rparr>, t) \<and>
     ListFileRecords ''t'' (db_tables (rs_database t)) = Inr recs \<and> settled [demo_entry] recs"
proof -
  let ?s = "\<lparr>rs_database = demo_database, rs_generated = 0\<rparr>"
  obtain t where t: "Apply (\<lambda>_. ''v'') [demo_entry] demo_config ?s = (Inr \<lparr>rr_created_or_changed = 1, rr_tombstoned = 0\<rparr>, t)"
    using demo_reconcile by blast
  have "reconcilable [demo_entry] demo_config ?s"
    using demo_database_inv
    by (simp add: reconcilable_def demo_config_def demo_entry_def hashed_def demo_tables) (simp add: demo_database_def empty_tables_def)
  from reconcile_settles_records [OF this t] t show ?thesis by (auto simp: demo_config_def)
qed

end
