(* ===== verification/Phase0_Node.thy ===== *)
theory Phase0_Node
  imports Protocol_Codec
begin

text \<open>
  The handshake prototype and the in-memory network it runs on (\<^verbatim>\<open>engine/sync/phase0_node.cpp\<close>,
  \<^verbatim>\<open>engine/transport/mock_transport.cpp\<close>).  The network has two endpoints, named by a truth value:
  \<open>True\<close> is the first.  A world is the two nodes and the network between them.
\<close>

section \<open>Mock network\<close>

record Pending =
  pd_recipient :: bool
  pd_channel :: Channel
  pd_wire :: bytes

record MockNetwork =
  mn_paired :: bool
  mn_pending :: "Pending list"

record MockEndpoint =
  ep_control_buffered_amount :: nat
  ep_bulk_buffered_amount :: nat

definition BufferedAmount :: "Channel \<Rightarrow> MockEndpoint \<Rightarrow> nat" where
  "BufferedAmount channel e = (if channel = kControl then ep_control_buffered_amount e else ep_bulk_buffered_amount e)"

definition SetBufferedAmount :: "Channel \<Rightarrow> nat \<Rightarrow> MockEndpoint \<Rightarrow> MockEndpoint" where
  "SetBufferedAmount channel amount e =
     (if channel = kControl then e\<lparr>ep_control_buffered_amount := amount\<rparr> else e\<lparr>ep_bulk_buffered_amount := amount\<rparr>)"

definition CreatePair :: "(MockNetwork, unit) op" where
  "CreatePair = bindS (getS mn_paired) (\<lambda>paired.
     thenS (guardS paired (Logic_error ''mock network supports one pair'')) (modifyS (\<lambda>n. n\<lparr>mn_paired := True\<rparr>)))"

definition Mock_Enqueue :: "bool \<Rightarrow> Channel \<Rightarrow> bytes \<Rightarrow> (MockNetwork, unit) op" where
  "Mock_Enqueue sender channel wire = bindS (getS mn_paired) (\<lambda>paired.
     thenS (guardS (\<not> paired) (Logic_error ''unknown mock endpoint''))
       (modifyS (\<lambda>n. n\<lparr>mn_pending := mn_pending n @ [\<lparr>pd_recipient = \<not> sender, pd_channel = channel, pd_wire = wire\<rparr>]\<rparr>)))"

section \<open>Node\<close>

record NodeConfig =
  nc_task_id :: string
  nc_role :: Role
  nc_device_id :: string
  nc_device_fingerprint :: string
  nc_authorization_digest :: string

record Phase0Node =
  pn_config :: NodeConfig
  pn_endpoint :: bool
  pn_local_manifest :: Manifest
  pn_started :: bool
  pn_received_hello :: bool
  pn_manifest_sent :: bool
  pn_next_request_id :: u64
  pn_received_manifest :: "Manifest option"
  pn_received_chunks :: "Chunk list"
  pn_last_error :: "string option"

definition Phase0Node_new :: "NodeConfig \<Rightarrow> bool \<Rightarrow> Manifest \<Rightarrow> Phase0Node" where
  "Phase0Node_new config endpoint local_manifest =
     \<lparr>pn_config = config, pn_endpoint = endpoint, pn_local_manifest = local_manifest, pn_started = False,
      pn_received_hello = False, pn_manifest_sent = False, pn_next_request_id = 1, pn_received_manifest = None,
      pn_received_chunks = [], pn_last_error = None\<rparr>"

type_synonym node_state = "Phase0Node \<times> MockNetwork"

abbreviation on_node :: "(Phase0Node \<Rightarrow> Phase0Node) \<Rightarrow> (node_state, unit) op" where
  "on_node f \<equiv> modifyS (\<lambda>s. (f (fst s), snd s))"

abbreviation on_network :: "(MockNetwork, 'a) op \<Rightarrow> (node_state, 'a) op" where
  "on_network \<equiv> zoomS snd (\<lambda>n s. (fst s, n))"

text \<open>The request number is taken before the frame is encoded, so it is used up even when that throws.\<close>

definition Phase0_Send :: "Channel \<Rightarrow> FrameType \<Rightarrow> bytes \<Rightarrow> (node_state, unit) op" where
  "Phase0_Send channel t payload =
     bindS (getS fst) (\<lambda>node.
     thenS (on_node (\<lambda>n. n\<lparr>pn_next_request_id := pn_next_request_id n + 1\<rparr>))
    (bindS (liftS (\<lambda>_. EncodeFrame \<lparr>frame_type = t, frame_request_id = pn_next_request_id node, frame_payload = payload\<rparr>)) (\<lambda>wire.
     on_network (Mock_Enqueue (pn_endpoint node) channel wire))))"

definition node_hello :: "NodeConfig \<Rightarrow> Hello" where
  "node_hello c = \<lparr>hello_task_id = nc_task_id c, hello_role = nc_role c, hello_device_id = nc_device_id c,
     hello_device_fingerprint = nc_device_fingerprint c, hello_authorization_digest = nc_authorization_digest c\<rparr>"

definition Phase0_Start :: "(node_state, unit) op" where
  "Phase0_Start =
     bindS (getS fst) (\<lambda>node.
     if pn_started node then returnS ()
     else thenS (on_node (\<lambda>n. n\<lparr>pn_started := True\<rparr>))
       (bindS (liftS (\<lambda>_. EncodeHello (node_hello (pn_config node)))) (Phase0_Send kControl kHello)))"

definition HandshakeComplete :: "Phase0Node \<Rightarrow> bool" where
  "HandshakeComplete n \<longleftrightarrow> pn_started n \<and> pn_received_hello n \<and> pn_last_error n = None"

definition SendFakeBlock :: "(bytes \<Rightarrow> bytes) \<Rightarrow> bytes \<Rightarrow> (node_state, unit) op" where
  "SendFakeBlock blake3 bytes =
     bindS (getS fst) (\<lambda>node.
     thenS (guardS (\<not> HandshakeComplete node) (Logic_error ''cannot send block before HELLO completes''))
    (bindS (liftS (\<lambda>_. EncodeChunk \<lparr>chunk_transfer_id = replicate 16 0xA1, chunk_file_hash = replicate 32 0xB2,
         chunk_offset = 0, chunk_chunk_hash = blake3 bytes, chunk_bytes = bytes\<rparr>)) (Phase0_Send kBulk kChunk)))"

definition RolesCompatible :: "Role \<Rightarrow> Role \<Rightarrow> bool" where
  "RolesCompatible role peer_role =
     (if role = kPeer \<or> peer_role = kPeer then role = kPeer \<and> peer_role = kPeer
      else role = kSource \<and> peer_role = kTarget \<or> role = kTarget \<and> peer_role = kSource)"

definition Phase0_SendManifest :: "(node_state, unit) op" where
  "Phase0_SendManifest =
     bindS (getS fst) (\<lambda>node.
     if pn_manifest_sent node then returnS ()
     else thenS (on_node (\<lambda>n. n\<lparr>pn_manifest_sent := True\<rparr>))
       (bindS (liftS (\<lambda>_. EncodeManifest (pn_local_manifest node))) (Phase0_Send kControl kManifest)))"

definition receive_hello :: "Hello \<Rightarrow> (node_state, unit) op" where
  "receive_hello hello =
     bindS (getS (\<lambda>s. pn_config (fst s))) (\<lambda>config.
     thenS (guardS (hello_task_id hello \<noteq> nc_task_id config) (Invalid_argument ''task_mismatch''))
    (thenS (guardS (hello_authorization_digest hello \<noteq> nc_authorization_digest config) (Invalid_argument ''unauthorized_peer''))
    (thenS (guardS (\<not> RolesCompatible (nc_role config) (hello_role hello)) (Invalid_argument ''role_mismatch''))
    (thenS (on_node (\<lambda>n. n\<lparr>pn_received_hello := True\<rparr>)) Phase0_SendManifest))))"

definition receive_frame :: "(bytes \<Rightarrow> bytes) \<Rightarrow> Channel \<Rightarrow> bytes \<Rightarrow> (node_state, unit) op" where
  "receive_frame blake3 channel wire =
     bindS (liftS (\<lambda>_. DecodeFrameView wire)) (\<lambda>frame.
     thenS (guardS (\<not> IsAllowedOn channel (frame_type frame)) (Invalid_argument ''wrong_channel''))
     (if frame_type frame = kHello then bindS (liftS (\<lambda>_. DecodeHello (frame_payload frame))) receive_hello
      else bindS (getS (\<lambda>s. HandshakeComplete (fst s))) (\<lambda>complete.
       thenS (guardS (\<not> complete) (Invalid_argument ''unauthorized_peer''))
       (if frame_type frame = kManifest then
          bindS (liftS (\<lambda>_. DecodeManifest (frame_payload frame))) (\<lambda>m. on_node (\<lambda>n. n\<lparr>pn_received_manifest := Some m\<rparr>))
        else if frame_type frame = kChunk then
          bindS (liftS (\<lambda>_. DecodeChunk blake3 (frame_payload frame))) (\<lambda>c. on_node (\<lambda>n. n\<lparr>pn_received_chunks := pn_received_chunks n @ [c]\<rparr>))
        else returnS ()))))"

definition Phase0_Receive :: "(bytes \<Rightarrow> bytes) \<Rightarrow> Channel \<Rightarrow> bytes \<Rightarrow> (node_state, unit) op" where
  "Phase0_Receive blake3 channel wire =
     catchS (receive_frame blake3 channel wire) (\<lambda>e. on_node (\<lambda>n. n\<lparr>pn_last_error := Some (what e)\<rparr>))"

section \<open>Two nodes on a network\<close>

record World =
  wd_first :: Phase0Node
  wd_second :: Phase0Node
  wd_network :: MockNetwork

definition at_node :: "bool \<Rightarrow> (node_state, unit) op \<Rightarrow> World \<Rightarrow> World" where
  "at_node which m w =
     (case snd (m (if which then wd_first w else wd_second w, wd_network w)) of (n, net) \<Rightarrow>
        if which then w\<lparr>wd_first := n, wd_network := net\<rparr> else w\<lparr>wd_second := n, wd_network := net\<rparr>)"

definition PumpOne :: "(bytes \<Rightarrow> bytes) \<Rightarrow> World \<Rightarrow> bool \<times> World" where
  "PumpOne blake3 w = (case mn_pending (wd_network w) of
     [] \<Rightarrow> (False, w)
   | p # ps \<Rightarrow> (True, at_node (pd_recipient p) (Phase0_Receive blake3 (pd_channel p) (pd_wire p))
       (w\<lparr>wd_network := (wd_network w)\<lparr>mn_pending := ps\<rparr>\<rparr>)))"

text \<open>
  Delivering a frame adds at most one frame, a node's manifest, and that once: the loop over the pending
  frames ends.
\<close>

definition weight :: "node_state \<Rightarrow> nat" where
  "weight s = length (mn_pending (snd s)) + (if pn_manifest_sent (fst s) then 0 else 2)"

lemma wp_Phase0_Send:
  "wp (Phase0_Send channel t payload) (\<lambda>_ u. weight u \<le> Suc (weight s)) s"
  by (auto simp: Phase0_Send_def Mock_Enqueue_def weight_def wp_def op_defs zoomS_def split: sum.splits)

lemma wp_Phase0_SendManifest: "wp Phase0_SendManifest (\<lambda>_ u. weight u \<le> weight s) s"
proof (cases "pn_manifest_sent (fst s)")
  case False
  let ?s = "((fst s)\<lparr>pn_manifest_sent := True\<rparr>, snd s)"
  have "Suc (weight ?s) \<le> weight s" using False by (simp add: weight_def)
  then have "wp (Phase0_Send kControl kManifest p) (\<lambda>_ u. weight u \<le> weight s) ?s" for p
    using wp_Phase0_Send [of kControl kManifest p ?s] by (auto simp: wp_def)
  then show ?thesis
    using False by (cases "EncodeManifest (pn_local_manifest (fst s))") (simp_all add: Phase0_SendManifest_def weight_def)
qed (simp add: Phase0_SendManifest_def)

lemma weight_node [simp]:
  "weight ((fst s)\<lparr>pn_received_hello := b\<rparr>, snd s) = weight s" "weight ((fst s)\<lparr>pn_received_manifest := m\<rparr>, snd s) = weight s"
  "weight ((fst s)\<lparr>pn_received_chunks := cs\<rparr>, snd s) = weight s" "weight ((fst s)\<lparr>pn_last_error := e\<rparr>, snd s) = weight s"
  by (simp_all add: weight_def)

lemma wp_receive_hello: "wp (receive_hello hello) (\<lambda>_ u. weight u \<le> weight s) s"
  using wp_Phase0_SendManifest [of "((fst s)\<lparr>pn_received_hello := True\<rparr>, snd s)"]
  by (simp add: receive_hello_def)

lemma wp_receive_frame: "wp (receive_frame blake3 channel wire) (\<lambda>_ u. weight u \<le> weight s) s"
proof (cases "DecodeFrameView wire")
  case (Inr frame)
  then show ?thesis
    using wp_receive_hello [of _ s]
    by (cases "DecodeHello (frame_payload frame)"; cases "DecodeManifest (frame_payload frame)";
        cases "DecodeChunk blake3 (frame_payload frame)") (simp_all add: receive_frame_def)
qed (simp add: receive_frame_def)

lemma wp_Phase0_Receive: "wp (Phase0_Receive blake3 channel wire) (\<lambda>_ u. weight u \<le> weight s) s"
  using wp_receive_frame [of blake3 channel wire s]
  unfolding Phase0_Receive_def wp_catch by (simp add: wp_def modifyS_def split: sum.splits)

definition world_weight :: "World \<Rightarrow> nat" where
  "world_weight w = length (mn_pending (wd_network w)) +
     (if pn_manifest_sent (wd_first w) then 0 else 2) + (if pn_manifest_sent (wd_second w) then 0 else 2)"

lemma PumpOne_weight: "PumpOne blake3 w = (True, w') \<Longrightarrow> world_weight w' < world_weight w"
proof -
  assume run: "PumpOne blake3 w = (True, w')"
  then obtain p ps where p: "mn_pending (wd_network w) = p # ps" by (auto simp: PumpOne_def split: list.splits)
  let ?net = "(wd_network w)\<lparr>mn_pending := ps\<rparr>"
  let ?n = "if pd_recipient p then wd_first w else wd_second w"
  obtain r n net where step: "Phase0_Receive blake3 (pd_channel p) (pd_wire p) (?n, ?net) = (r, (n, net))"
    by (metis prod.collapse)
  have "weight (n, net) \<le> weight (?n, ?net)" using wpD [OF wp_Phase0_Receive step] .
  then show ?thesis
    using run p step by (auto simp: PumpOne_def at_node_def weight_def world_weight_def split: if_splits)
qed

function PumpUntilIdle :: "(bytes \<Rightarrow> bytes) \<Rightarrow> World \<Rightarrow> World" where
  "PumpUntilIdle blake3 w = (case PumpOne blake3 w of (True, w') \<Rightarrow> PumpUntilIdle blake3 w' | (False, w') \<Rightarrow> w')"
  by pat_completeness auto
termination
  by (relation "measure (\<lambda>(_, w). world_weight w)") (auto dest: PumpOne_weight [OF sym])

declare PumpUntilIdle.simps [simp del]

section \<open>The exchange\<close>

definition fits_frame :: "bytes result \<Rightarrow> bool" where
  "fits_frame r \<longleftrightarrow> (\<exists>p. r = Inr p \<and> length p \<le> kMaxFrameSize - kFrameHeaderSize)"

text \<open>A node whose messages can be encoded, and a pair of configurations that match.\<close>

definition sendable :: "NodeConfig \<Rightarrow> Manifest \<Rightarrow> bool" where
  "sendable c m \<longleftrightarrow> hello_admissible (node_hello c) \<and> fits_frame (EncodeHello (node_hello c)) \<and>
     manifest_admissible m \<and> fits_frame (EncodeManifest m)"

definition matching :: "NodeConfig \<Rightarrow> NodeConfig \<Rightarrow> bool" where
  "matching a b \<longleftrightarrow> nc_task_id a = nc_task_id b \<and> nc_authorization_digest a = nc_authorization_digest b \<and>
     RolesCompatible (nc_role a) (nc_role b)"

lemma RolesCompatible_sym: "RolesCompatible a b = RolesCompatible b a"
  by (cases a; cases b) (simp_all add: RolesCompatible_def)

lemma fits_frameE:
  assumes "fits_frame r"
  obtains p w where "r = Inr p" "EncodeFrame \<lparr>frame_type = t, frame_request_id = rid, frame_payload = p\<rparr> = Inr w"
    "DecodeFrameView w = Inr \<lparr>frame_type = t, frame_request_id = rid, frame_payload = p\<rparr>"
proof -
  from assms obtain p where p: "r = Inr p" "length p \<le> kMaxFrameSize - kFrameHeaderSize" by (auto simp: fits_frame_def)
  then obtain w where w: "EncodeFrame \<lparr>frame_type = t, frame_request_id = rid, frame_payload = p\<rparr> = Inr w"
    by (simp add: EncodeFrame_iff)
  then have "DecodeFrameView w = Inr \<lparr>frame_type = t, frame_request_id = rid, frame_payload = p\<rparr>"
    using frame_codec.decode_iff [of w] by (simp add: DecodeFrame_eq)
  with p(1) w show ?thesis by (rule that)
qed

lemma Start_run:
  assumes "\<not> pn_started n" "mn_paired net" "fits_frame (EncodeHello (node_hello (pn_config n)))"
  shows "\<exists>w p. Phase0_Start (n, net) = (Inr (), (n\<lparr>pn_started := True, pn_next_request_id := pn_next_request_id n + 1\<rparr>,
      net\<lparr>mn_pending := mn_pending net @ [\<lparr>pd_recipient = \<not> pn_endpoint n, pd_channel = kControl, pd_wire = w\<rparr>]\<rparr>)) \<and>
    EncodeHello (node_hello (pn_config n)) = Inr p \<and>
    DecodeFrameView w = Inr \<lparr>frame_type = kHello, frame_request_id = pn_next_request_id n, frame_payload = p\<rparr>"
proof -
  obtain p w where "EncodeHello (node_hello (pn_config n)) = Inr p"
    "EncodeFrame \<lparr>frame_type = kHello, frame_request_id = pn_next_request_id n, frame_payload = p\<rparr> = Inr w"
    "DecodeFrameView w = Inr \<lparr>frame_type = kHello, frame_request_id = pn_next_request_id n, frame_payload = p\<rparr>"
    by (rule fits_frameE [OF assms(3), of kHello "pn_next_request_id n"])
  then show ?thesis
    using assms(1,2) by (intro exI [of _ w] exI [of _ p]) (simp add: Phase0_Start_def Phase0_Send_def Mock_Enqueue_def op_defs zoomS_def)
qed

lemma allowed_control: "IsAllowedOn kControl kHello" "IsAllowedOn kControl kManifest"
  by (simp_all add: IsAllowedOn_def)

text \<open>A node that receives a matching hello answers with its manifest.\<close>

lemma Receive_hello_run:
  assumes "DecodeFrameView w = Inr \<lparr>frame_type = kHello, frame_request_id = rid, frame_payload = p\<rparr>"
    and "EncodeHello (node_hello c) = Inr p" "hello_admissible (node_hello c)" "matching c (pn_config n)"
    and "\<not> pn_manifest_sent n" "mn_paired net" "fits_frame (EncodeManifest (pn_local_manifest n))"
  shows "\<exists>m q. Phase0_Receive blake3 kControl w (n, net) =
      (Inr (), (n\<lparr>pn_received_hello := True, pn_manifest_sent := True, pn_next_request_id := pn_next_request_id n + 1\<rparr>,
        net\<lparr>mn_pending := mn_pending net @ [\<lparr>pd_recipient = \<not> pn_endpoint n, pd_channel = kControl, pd_wire = m\<rparr>]\<rparr>)) \<and>
    EncodeManifest (pn_local_manifest n) = Inr q \<and>
    DecodeFrameView m = Inr \<lparr>frame_type = kManifest, frame_request_id = pn_next_request_id n, frame_payload = q\<rparr>"
proof -
  obtain q m where m: "EncodeManifest (pn_local_manifest n) = Inr q"
    "EncodeFrame \<lparr>frame_type = kManifest, frame_request_id = pn_next_request_id n, frame_payload = q\<rparr> = Inr m"
    "DecodeFrameView m = Inr \<lparr>frame_type = kManifest, frame_request_id = pn_next_request_id n, frame_payload = q\<rparr>"
    by (rule fits_frameE [OF assms(7), of kManifest "pn_next_request_id n"])
  have hello: "DecodeHello p = Inr (node_hello c)" using assms(2,3) by (simp add: hello_codec.decode_iff)
  have "hello_task_id (node_hello c) = nc_task_id (pn_config n)"
    "hello_authorization_digest (node_hello c) = nc_authorization_digest (pn_config n)"
    "RolesCompatible (nc_role (pn_config n)) (hello_role (node_hello c))"
    using assms(4) RolesCompatible_sym by (auto simp: matching_def node_hello_def)
  then show ?thesis
    using assms(1,5,6) m hello allowed_control
    by (intro exI [of _ m] exI [of _ q])
      (simp add: Phase0_Receive_def receive_frame_def receive_hello_def Phase0_SendManifest_def Phase0_Send_def Mock_Enqueue_def op_defs zoomS_def)
qed

lemma Receive_manifest_run:
  assumes "DecodeFrameView w = Inr \<lparr>frame_type = kManifest, frame_request_id = rid, frame_payload = p\<rparr>"
    and "EncodeManifest m = Inr p" "manifest_admissible m" "HandshakeComplete n"
  shows "Phase0_Receive blake3 kControl w (n, net) = (Inr (), (n\<lparr>pn_received_manifest := Some m\<rparr>, net))"
proof -
  have "DecodeManifest p = Inr m" using assms(2,3) by (simp add: manifest_codec.decode_iff)
  then show ?thesis
    using assms(1,4) allowed_control by (simp add: Phase0_Receive_def receive_frame_def op_defs)
qed

lemma PumpUntilIdle_step:
  assumes "mn_pending (wd_network w) = p # ps"
    and "Phase0_Receive blake3 (pd_channel p) (pd_wire p)
      (if pd_recipient p then wd_first w else wd_second w, (wd_network w)\<lparr>mn_pending := ps\<rparr>) = (r, (n, net))"
  shows "PumpUntilIdle blake3 w = PumpUntilIdle blake3
    (if pd_recipient p then w\<lparr>wd_first := n, wd_network := net\<rparr> else w\<lparr>wd_second := n, wd_network := net\<rparr>)"
  using assms by (subst PumpUntilIdle.simps) (cases "pd_recipient p"; simp add: PumpOne_def at_node_def)

lemma PumpUntilIdle_idle: "mn_pending (wd_network w) = [] \<Longrightarrow> PumpUntilIdle blake3 w = w"
  by (subst PumpUntilIdle.simps) (simp add: PumpOne_def)

text \<open>
  Two nodes with the same task and authorisation and with compatible roles complete their handshake.
  Once both have started, delivering frames until none is left ends with both handshakes complete, no
  error on either side, and each node holding the other's manifest.
\<close>

theorem phase0_exchange:
  assumes "sendable a ma" "sendable b mb" "matching a b"
    and "w = PumpUntilIdle blake3 (at_node False Phase0_Start (at_node True Phase0_Start
      \<lparr>wd_first = Phase0Node_new a True ma, wd_second = Phase0Node_new b False mb,
       wd_network = \<lparr>mn_paired = True, mn_pending = []\<rparr>\<rparr>))"
  shows "HandshakeComplete (wd_first w) \<and> HandshakeComplete (wd_second w) \<and>
    pn_received_manifest (wd_first w) = Some mb \<and> pn_received_manifest (wd_second w) = Some ma"
proof -
  let ?a = "Phase0Node_new a True ma" and ?b = "Phase0Node_new b False mb"
  let ?net = "\<lambda>ps. \<lparr>mn_paired = True, mn_pending = ps\<rparr>"
  let ?to = "\<lambda>r w. \<lparr>pd_recipient = r, pd_channel = kControl, pd_wire = w\<rparr>"
  let ?a1 = "?a\<lparr>pn_started := True, pn_next_request_id := 2\<rparr>" and ?b1 = "?b\<lparr>pn_started := True, pn_next_request_id := 2\<rparr>"
  have ab: "matching b a" using assms(3) RolesCompatible_sym by (simp add: matching_def)
  note ok = assms(1,2)[unfolded sendable_def]
  obtain ha pa where ha: "Phase0_Start (?a, ?net []) = (Inr (), (?a1, ?net [?to False ha]))"
    "EncodeHello (node_hello a) = Inr pa" "DecodeFrameView ha = Inr \<lparr>frame_type = kHello, frame_request_id = 1, frame_payload = pa\<rparr>"
    using Start_run [of ?a "?net []"] ok by (auto simp: Phase0Node_new_def)
  obtain hb pb where hb: "Phase0_Start (?b, ?net [?to False ha]) = (Inr (), (?b1, ?net [?to False ha, ?to True hb]))"
    "EncodeHello (node_hello b) = Inr pb" "DecodeFrameView hb = Inr \<lparr>frame_type = kHello, frame_request_id = 1, frame_payload = pb\<rparr>"
    using Start_run [of ?b "?net [?to False ha]"] ok by (auto simp: Phase0Node_new_def)
  let ?b2 = "?b1\<lparr>pn_received_hello := True, pn_manifest_sent := True, pn_next_request_id := 3\<rparr>"
  let ?a2 = "?a1\<lparr>pn_received_hello := True, pn_manifest_sent := True, pn_next_request_id := 3\<rparr>"
  obtain fb qb where fb: "Phase0_Receive blake3 kControl ha (?b1, ?net [?to True hb]) = (Inr (), (?b2, ?net [?to True hb, ?to True fb]))"
    "EncodeManifest mb = Inr qb" "DecodeFrameView fb = Inr \<lparr>frame_type = kManifest, frame_request_id = 2, frame_payload = qb\<rparr>"
    using Receive_hello_run [OF ha(3,2), of ?b1 "?net [?to True hb]" blake3] ok assms(3) by (auto simp: Phase0Node_new_def)
  obtain fa qa where fa: "Phase0_Receive blake3 kControl hb (?a1, ?net [?to True fb]) = (Inr (), (?a2, ?net [?to True fb, ?to False fa]))"
    "EncodeManifest ma = Inr qa" "DecodeFrameView fa = Inr \<lparr>frame_type = kManifest, frame_request_id = 2, frame_payload = qa\<rparr>"
    using Receive_hello_run [OF hb(3,2), of ?a1 "?net [?to True fb]" blake3] ok ab by (auto simp: Phase0Node_new_def)
  have done_a: "Phase0_Receive blake3 kControl fb (?a2, ?net [?to False fa]) = (Inr (), (?a2\<lparr>pn_received_manifest := Some mb\<rparr>, ?net [?to False fa]))"
    using ok by (intro Receive_manifest_run [OF fb(3,2)]) (simp_all add: HandshakeComplete_def Phase0Node_new_def)
  have done_b: "Phase0_Receive blake3 kControl fa (?b2, ?net []) = (Inr (), (?b2\<lparr>pn_received_manifest := Some ma\<rparr>, ?net []))"
    using ok by (intro Receive_manifest_run [OF fa(3,2)]) (simp_all add: HandshakeComplete_def Phase0Node_new_def)
  have "w = \<lparr>wd_first = ?a2\<lparr>pn_received_manifest := Some mb\<rparr>, wd_second = ?b2\<lparr>pn_received_manifest := Some ma\<rparr>, wd_network = ?net []\<rparr>"
    unfolding assms(4) using ha(1) hb(1) fb(1) fa(1) done_a done_b
    by (simp add: at_node_def PumpUntilIdle_step PumpUntilIdle_idle)
  then show ?thesis by (simp add: HandshakeComplete_def Phase0Node_new_def)
qed

definition demo_node_config :: "Role \<Rightarrow> NodeConfig" where
  "demo_node_config r = \<lparr>nc_task_id = ''t'', nc_role = r, nc_device_id = ''d'', nc_device_fingerprint = [],
     nc_authorization_digest = ''k''\<rparr>"

theorem phase0_exchange_witness:
  "HandshakeComplete (wd_first (PumpUntilIdle (\<lambda>b. b) (at_node False Phase0_Start (at_node True Phase0_Start
      \<lparr>wd_first = Phase0Node_new (demo_node_config kSource) True \<lparr>manifest_revision = 1, manifest_entries = []\<rparr>,
       wd_second = Phase0Node_new (demo_node_config kTarget) False \<lparr>manifest_revision = 2, manifest_entries = []\<rparr>,
       wd_network = \<lparr>mn_paired = True, mn_pending = []\<rparr>\<rparr>))))"
proof -
  have "fits_frame (EncodeManifest \<lparr>manifest_revision = n, manifest_entries = []\<rparr>)" for n
    by (simp add: fits_frame_def EncodeManifest_def take_writer.simps w_U64_def w_U32_def kMaxFrameSize_def kFrameHeaderSize_def)
  moreover have "fits_frame (EncodeHello (node_hello (demo_node_config r)))" for r
    by (simp add: fits_frame_def EncodeHello_def node_hello_def demo_node_config_def take_writer.simps w_String_def
        w_U8_def w_U16_def w_Bytes_def kMaxFrameSize_def kFrameHeaderSize_def)
  ultimately have "sendable (demo_node_config r) \<lparr>manifest_revision = n, manifest_entries = []\<rparr>" for r n
    by (simp add: sendable_def hello_admissible_def manifest_admissible_def node_hello_def demo_node_config_def)
  moreover have "matching (demo_node_config kSource) (demo_node_config kTarget)"
    by (simp add: matching_def demo_node_config_def RolesCompatible_def)
  ultimately show ?thesis using phase0_exchange [OF _ _ _ refl, where ?blake3.0 = "\<lambda>b. b"] by simp
qed

section \<open>A peer without authorisation\<close>

definition authorised_hello :: "NodeConfig \<Rightarrow> Channel \<Rightarrow> bytes \<Rightarrow> bool" where
  "authorised_hello c channel wire \<longleftrightarrow> (case DecodeFrameView wire of Inl _ \<Rightarrow> False | Inr frame \<Rightarrow>
     IsAllowedOn channel (frame_type frame) \<and> frame_type frame = kHello \<and>
     (case DecodeHello (frame_payload frame) of Inl _ \<Rightarrow> False | Inr hello \<Rightarrow>
        hello_task_id hello = nc_task_id c \<and> hello_authorization_digest hello = nc_authorization_digest c \<and>
        RolesCompatible (nc_role c) (hello_role hello)))"

lemma unauthorised_frame:
  assumes "\<not> pn_received_hello n" "\<not> authorised_hello (pn_config n) channel wire"
  shows "\<exists>e. Phase0_Receive blake3 channel wire (n, net) = (Inr (), (n\<lparr>pn_last_error := Some e\<rparr>, net))"
proof (cases "DecodeFrameView wire")
  case (Inl e)
  then show ?thesis by (auto simp: Phase0_Receive_def receive_frame_def op_defs)
next
  case (Inr frame)
  show ?thesis
  proof (cases "frame_type frame = kHello")
    case True
    then show ?thesis
      using assms Inr by (cases "DecodeHello (frame_payload frame)")
        (auto simp: Phase0_Receive_def receive_frame_def receive_hello_def authorised_hello_def op_defs)
  next
    case False
    then show ?thesis
      using assms(1) Inr by (auto simp: Phase0_Receive_def receive_frame_def HandshakeComplete_def op_defs)
  qed
qed

text \<open>
  Until a peer has shown a hello for the same task, with the same authorisation digest and a
  compatible role, nothing it sends has any effect but an error text: whatever frames arrive, in whatever
  number and on either channel, the node sends nothing, and neither stores a manifest or a chunk nor
  counts the handshake as complete.
\<close>

theorem phase0_unauthorised_peer:
  assumes "\<not> pn_received_hello n" "\<forall>(channel, wire) \<in> set frames. \<not> authorised_hello (pn_config n) channel wire"
  shows "\<exists>e. snd (forS (\<lambda>(channel, wire). Phase0_Receive blake3 channel wire) frames (n, net)) =
    (n\<lparr>pn_last_error := e\<rparr>, net)"
  using assms
proof (induction frames arbitrary: n)
  case Nil
  then show ?case by (intro exI [of _ "pn_last_error n"]) (simp add: op_defs)
next
  case (Cons f fs)
  obtain channel wire where f: "f = (channel, wire)" by fastforce
  obtain e where e: "Phase0_Receive blake3 channel wire (n, net) = (Inr (), (n\<lparr>pn_last_error := Some e\<rparr>, net))"
    using unauthorised_frame [of n channel wire blake3 net] Cons.prems f by auto
  obtain e' where "snd (forS (\<lambda>(channel, wire). Phase0_Receive blake3 channel wire) fs (n\<lparr>pn_last_error := Some e\<rparr>, net)) =
      (n\<lparr>pn_last_error := e'\<rparr>, net)"
    using Cons.IH [of "n\<lparr>pn_last_error := Some e\<rparr>"] Cons.prems by auto
  then show ?case using e f by (auto simp: thenS_def bindS_def)
qed

theorem phase0_unauthorised_peer_witness:
  "pn_received_manifest (fst (snd (forS (\<lambda>(channel, wire). Phase0_Receive (\<lambda>b. b) channel wire) [(kControl, [1]), (kBulk, [])]
     (Phase0Node_new (demo_node_config kSource) True \<lparr>manifest_revision = 1, manifest_entries = []\<rparr>, \<lparr>mn_paired = True, mn_pending = []\<rparr>)))) = None"
proof -
  let ?n = "Phase0Node_new (demo_node_config kSource) True \<lparr>manifest_revision = 1, manifest_entries = []\<rparr>"
  have "\<not> authorised_hello c channel [1]" "\<not> authorised_hello c channel []" for c channel
    by (simp_all add: authorised_hello_def DecodeFrameView_def kFrameHeaderSize_def)
  then show ?thesis
    using phase0_unauthorised_peer [of ?n "[(kControl, [1]), (kBulk, [])]" "\<lambda>b. b" "\<lparr>mn_paired = True, mn_pending = []\<rparr>"]
    by (auto simp: Phase0Node_new_def simp del: forS.simps)
qed

end
