(* ===== verification/Manifest_Scanner.thy ===== *)
theory Manifest_Scanner
  imports Ignore_Rules Manifest_Diff File_Writer_Properties
begin

text \<open>
  Scanning a task directory (\<^verbatim>\<open>engine/storage/manifest_scanner.cpp\<close>).  A directory walk visits every
  entry below the root that is reached through directories: it does not enter links, and with
  \<^verbatim>\<open>skip_permission_denied\<close> it passes over directories it may not open (\<open>sv_denied\<close>).  The order
  of the walk is the file system's own (\<open>sv_rank\<close>) and does not matter here, since the snapshot is sorted.  Time stamps come
  from the file (\<open>sv_mtime\<close>) and from two clocks that are read one after the other; \<open>sv_clocks n\<close> is what
  reading number \<open>n\<close> of the two gives.
\<close>

section \<open>Model\<close>

record ScanView =
  sv_denied :: "path \<Rightarrow> bool"
  sv_mtime :: "path \<Rightarrow> int"
  sv_clocks :: "nat \<Rightarrow> int \<times> int"
  sv_rank :: "path \<Rightarrow> nat"

text \<open>\<open>time - file_clock::now() + system_clock::now()\<close>.\<close>

definition TimestampNanoseconds :: "int \<Rightarrow> int \<times> int \<Rightarrow> int" where
  "TimestampNanoseconds time clocks = time - fst clocks + snd clocks"

definition ToUtf8Path :: "path \<Rightarrow> string" where
  "ToUtf8Path p = join_with CHR ''/'' p"

text \<open>What the recursive iterator visits: links are listed, but only open directories are entered.\<close>

definition visited :: "ScanView \<Rightarrow> FileSystem \<Rightarrow> path \<Rightarrow> path list" where
  "visited view s root =
     filter (\<lambda>p. length root < length p \<and> take (length root) p = root \<and> \<not> sv_denied view root \<and>
         (\<forall>k < length p. length root < k \<longrightarrow> node_at s (take k p) = Some Directory \<and> \<not> sv_denied view (take k p)))
       (remdups (map fst (fs_entries s)))"

record Scanning =
  sg_files :: FileSystem
  sg_readings :: nat

abbreviation scan_files :: "(FileSystem, 'a) op \<Rightarrow> (Scanning, 'a) op" where
  "scan_files \<equiv> zoomS sg_files (\<lambda>f s. s\<lparr>sg_files := f\<rparr>)"

text \<open>The clocks are read whether or not the file's own time could be.\<close>

definition read_stamp :: "ScanView \<Rightarrow> path \<Rightarrow> (Scanning, int) op" where
  "read_stamp view p s =
     (Inr (TimestampNanoseconds (sv_mtime view p) (sv_clocks view (sg_readings s))),
      s\<lparr>sg_readings := Suc (sg_readings s)\<rparr>)"

definition last_write_time :: "(Scanning, bool) op" where
  "last_write_time = scan_files (bindS next_fault (\<lambda>f. returnS (f = None)))"

definition scan_entry :: "(bytes \<Rightarrow> bytes) \<Rightarrow> ScanView \<Rightarrow> IgnoreRules \<Rightarrow> path \<Rightarrow> path \<Rightarrow> (Scanning, SnapshotEntry list) op" where
  "scan_entry blake3 view rules root p =
     bindS (scan_files (sys_symlink_status p)) (\<lambda>link_status.
     thenS (guardS (link_status = stError) (Runtime_error ''cannot inspect scanned path''))
    (if link_status = stSymlink then
       bindS (scan_files (sys_status p)) (\<lambda>status.
       thenS (guardS (status = stError) (Runtime_error ''cannot inspect symlinked path'')) (returnS []))
     else
       let relative = ToUtf8Path (lexically_relative p root) in
       bindS (liftS (\<lambda>_. IsIgnored rules relative)) (\<lambda>ignored.
       if link_status = stDirectory \<and> \<not> ignored then
         bindS last_write_time (\<lambda>ok.
         bindS (read_stamp view p) (\<lambda>stamp.
         thenS (guardS (\<not> ok) (Runtime_error ''cannot read directory timestamp''))
           (returnS [\<lparr>se_relative_path = relative, se_kind = snDirectory, se_size = 0, se_mtime_ns = stamp,
              se_content_hash = None\<rparr>])))
       else if link_status = stRegular \<and> \<not> ignored then
         bindS (scan_files (sys_file_size p)) (\<lambda>size.
         thenS (guardS (size = None) (Runtime_error ''cannot read file size''))
        (bindS last_write_time (\<lambda>ok.
         thenS (guardS (\<not> ok) (Runtime_error ''cannot read file timestamp''))
        (bindS (read_stamp view p) (\<lambda>stamp.
         bindS (scan_files (Blake3File blake3 p)) (\<lambda>hash.
         returnS [\<lparr>se_relative_path = relative, se_kind = snFile, se_size = word_of_nat (the size),
            se_mtime_ns = stamp, se_content_hash = Some hash\<rparr>]))))))
       else returnS [])))"

text \<open>The loop: each step inspects an entry and then advances the iterator, which may fail.\<close>

fun scan_loop :: "(bytes \<Rightarrow> bytes) \<Rightarrow> ScanView \<Rightarrow> IgnoreRules \<Rightarrow> path \<Rightarrow> path list \<Rightarrow> (Scanning, SnapshotEntry list) op" where
  "scan_loop blake3 view rules root [] = returnS []"
| "scan_loop blake3 view rules root (p # ps) =
     bindS (scan_entry blake3 view rules root p) (\<lambda>entries.
     bindS (scan_files next_fault) (\<lambda>f.
     thenS (guardS (f \<noteq> None) (Runtime_error ''recursive_directory_iterator::operator++''))
    (bindS (scan_loop blake3 view rules root ps) (\<lambda>rest. returnS (entries @ rest)))))"

definition Scan ::
  "(bytes \<Rightarrow> bytes) \<Rightarrow> (string \<Rightarrow> path option) \<Rightarrow> ScanView \<Rightarrow> IgnoreRules \<Rightarrow> string \<Rightarrow> (Scanning, SnapshotEntry list) op" where
  "Scan blake3 canonical view rules task_root =
     (case canonical task_root of
        None \<Rightarrow> throwS (Invalid_argument ''scan root must be an existing directory'')
      | Some root \<Rightarrow>
         bindS (scan_files (sys_status root)) (\<lambda>status.
         thenS (guardS (status \<noteq> stDirectory)
           (if status = stError then Runtime_error ''is_directory'' else Invalid_argument ''scan root must be an existing directory''))
        (bindS (scan_files next_fault) (\<lambda>f.
         thenS (guardS (f \<noteq> None) (Runtime_error ''cannot enumerate task root''))
        (bindS (getS (\<lambda>s. visited view (sg_files s) root)) (\<lambda>paths.
         bindS (scan_loop blake3 view rules root paths) (\<lambda>snapshot.
         returnS (sort_key se_relative_path snapshot))))))))"

section \<open>What a scan sees\<close>

definition entry_for :: "(bytes \<Rightarrow> bytes) \<Rightarrow> FileSystem \<Rightarrow> path \<Rightarrow> path \<Rightarrow> SnapshotEntry \<Rightarrow> bool" where
  "entry_for blake3 s root p e \<longleftrightarrow> se_relative_path e = join_with CHR ''/'' (drop (length root) p) \<and>
     (case node_at s p of
        Some Directory \<Rightarrow> se_kind e = snDirectory \<and> se_size e = 0 \<and> se_content_hash e = None
      | Some (Regular b) \<Rightarrow> se_kind e = snFile \<and> se_size e = word_of_nat (length b) \<and> se_content_hash e = Some (blake3 b)
      | _ \<Rightarrow> False)"

text \<open>An entry that a snapshot of the tree below \<open>root\<close> should hold.\<close>

definition scannable :: "ScanView \<Rightarrow> IgnoreRules \<Rightarrow> FileSystem \<Rightarrow> path \<Rightarrow> path \<Rightarrow> bool" where
  "scannable view rules s root p \<longleftrightarrow> p \<in> set (visited view s root) \<and>
     node_status (node_at s p) \<in> {stRegular, stDirectory} \<and>
     IsIgnored rules (join_with CHR ''/'' (drop (length root) p)) = Inr False"

text \<open>Names as a directory holds them.\<close>

definition plain_name :: "string \<Rightarrow> bool" where
  "plain_name c \<longleftrightarrow> c \<noteq> [] \<and> c \<noteq> ''.'' \<and> c \<noteq> ''..'' \<and> (\<forall>x \<in> set c. \<not> is_separator x \<and> x \<noteq> CHR '':'')"

definition scan_tree :: "ScanView \<Rightarrow> FileSystem \<Rightarrow> path \<Rightarrow> bool" where
  "scan_tree view s root \<longleftrightarrow> canonical_root root \<and> real_dirs (node_at s) root \<and>
     (\<forall>p \<in> set (visited view s root). \<forall>c \<in> set (drop (length root) p). plain_name c)"

lemma has_pair_iff: "has_pair x y v \<longleftrightarrow> (\<exists>a b. v = a @ x # y # b)"
proof (induction x y v rule: has_pair.induct)
  case (1 x y a b rest)
  then show ?case by (simp add: Cons_eq_append_conv) blast
qed (auto simp: Cons_eq_append_conv)

lemma set_join_with: "set (join_with c ps) \<subseteq> insert c (\<Union> (set ` set ps))"
  by (induction c ps rule: join_with.induct) auto

lemma Normalize_plain:
  assumes "ps \<noteq> []" "\<forall>c \<in> set ps. plain_name c"
  shows "Normalize (join_with CHR ''/'' ps) = Inr (join_with CHR ''/'' ps)"
proof -
  define v where "v = join_with CHR ''/'' ps"
  have split: "split_on CHR ''/'' v = ps" unfolding v_def using assms by (intro split_on_join) (auto simp: plain_name_def)
  have parts: "c \<in> set (split_on CHR ''/'' v) \<Longrightarrow> c \<noteq> [] \<and> c \<noteq> ''.'' \<and> c \<noteq> ''..''" for c
    using assms(2) unfolding split by (simp add: plain_name_def)
  have free: "\<forall>c \<in> set ps. CHR 0x5C \<notin> set c" "\<forall>c \<in> set ps. CHR '':'' \<notin> set c"
    using assms(2) by (auto simp: plain_name_def)
  have chars: "CHR 0x5C \<notin> set v" "CHR '':'' \<notin> set v"
    using set_join_with [of "CHR ''/''" ps] free unfolding v_def by auto
  have slashed: "map (\<lambda>c. if c = CHR 0x5C then CHR ''/'' else c) v = v" using chars(1) by (induction v) auto
  have nonempty: "v \<noteq> []" using parts [of "[]"] by auto
  have front: "hd v \<noteq> CHR ''/''" using parts [of "[]"] nonempty by (cases v) auto
  have dots: "strip_dots v = v"
  proof (cases v rule: strip_dots.cases)
    case (1 a b rest)
    then show ?thesis using parts [of "''.''"] by (cases "a = CHR ''.'' \<and> b = CHR ''/''") auto
  qed auto
  have rear: "last v \<noteq> CHR ''/''"
  proof
    assume "last v = CHR ''/''"
    then have "v = butlast v @ CHR ''/'' # []" using nonempty by (metis append_butlast_last_id)
    then show False using parts [of "[]"] split_on_append [of "CHR ''/''" "butlast v" "[]"] by auto
  qed
  have pairs: "\<not> has_pair CHR ''/'' CHR ''/'' v" "\<not> has_pair CHR '':'' CHR ''/'' v"
    using parts [of "[]"] chars(2) by (auto simp: has_pair_iff split_on_append)
  have "\<not> (\<exists>c \<in> set (split_on CHR ''/'' v). c = ''.'' \<or> c = ''..'')" using parts by blast
  then show ?thesis
    using nonempty front dots rear pairs slashed unfolding v_def [symmetric] Normalize_def Let_def by simp
qed

lemma IsIgnored_plain:
  assumes "ps \<noteq> []" "\<forall>c \<in> set ps. plain_name c"
  shows "\<exists>b. IsIgnored rules (join_with CHR ''/'' ps) = Inr b"
  by (simp add: IsIgnored_def Normalize_plain [OF assms]) blast

lemma visitedE:
  assumes "p \<in> set (visited view s root)" "scan_tree view s root"
  obtains d c where "p = d @ [c]" "real_dirs (node_at s) d" "node_at s p \<noteq> None" "lexically_relative p root = drop (length root) p"
    "drop (length root) p \<noteq> []" "\<forall>c \<in> set (drop (length root) p). plain_name c" "p = root @ drop (length root) p"
proof -
  have p: "length root < length p" "take (length root) p = root" "p \<in> fst ` set (fs_entries s)"
    "\<And>k. k < length p \<Longrightarrow> length root < k \<Longrightarrow> node_at s (take k p) = Some Directory"
    using assms(1) by (auto simp: visited_def)
  have root: "root \<noteq> []" "real_dirs (node_at s) root" "\<forall>c \<in> set (drop (length root) p). plain_name c"
    using assms by (auto simp: scan_tree_def canonical_root_def)
  have split: "p = root @ drop (length root) p" using p(2) by (metis append_take_drop_id)
  have "real_dirs (node_at s) (butlast p)"
    unfolding real_dirs_def
  proof (intro allI impI)
    fix i
    assume i: "i < length (butlast p)"
    then have take_eq: "take (Suc i) (butlast p) = take (Suc i) p" by (simp add: take_butlast)
    show "node_at s (take (Suc i) (butlast p)) = Some Directory"
    proof (cases "i < length root")
      case True
      then have "take (Suc i) p = take (Suc i) root" using split by (metis Suc_leI take_append take_all_iff append_Nil2 diff_is_0_eq take0)
      then show ?thesis using root(2) True take_eq by (simp add: real_dirs_def)
    next
      case False
      then show ?thesis using p(4) [of "Suc i"] i take_eq by simp
    qed
  qed
  moreover have "node_at s p \<noteq> None" using p(3) by (auto simp: node_at_def map_of_eq_None_iff)
  moreover have "drop (length root) p \<noteq> []" using p(1) by simp
  moreover have "lexically_relative (root @ cs) root = cs" if "cs \<noteq> []" for cs
    using that root(1) by (simp add: lexically_relative_def strip_common_append)
  then have "lexically_relative p root = drop (length root) p" using split p(1) by (metis drop_eq_Nil2 leD)
  ultimately show thesis using that [of "butlast p" "last p"] p(1) root(3) split by (metis append_butlast_last_id list.size(3) not_less_zero)
qed

lemma wp_last_write_time:
  assumes "\<And>b fs. Q (Inr b) (s\<lparr>sg_files := (sg_files s)\<lparr>fs_faults := fs\<rparr>\<rparr>)"
  shows "wp last_write_time Q s"
  unfolding last_write_time_def wp_zoom wp_bind by (intro wp_next_fault) (simp add: assms)

lemma wp_read_stamp [simp]:
  "wp (read_stamp view p) Q s = Q (Inr (TimestampNanoseconds (sv_mtime view p) (sv_clocks view (sg_readings s))))
     (s\<lparr>sg_readings := Suc (sg_readings s)\<rparr>)"
  by (simp add: wp_def read_stamp_def)

definition same_files :: "Scanning \<Rightarrow> Scanning \<Rightarrow> bool" where
  "same_files s t \<longleftrightarrow> (\<exists>fs. sg_files t = (sg_files s)\<lparr>fs_faults := fs\<rparr>)"

lemma same_files_fault [simp]:
  "same_files s (s\<lparr>sg_files := (sg_files s)\<lparr>fs_faults := fs\<rparr>\<rparr>)" "same_files s (s\<lparr>sg_files := (sg_files s)\<lparr>fs_faults := fs\<rparr>, sg_readings := n\<rparr>)"
  "same_files s (s\<lparr>sg_readings := n, sg_files := (sg_files s)\<lparr>fs_faults := fs\<rparr>\<rparr>)" "same_files s s"
  by (auto simp: same_files_def intro: exI [of _ "fs_faults (sg_files s)"])

definition entry_result :: "(bytes \<Rightarrow> bytes) \<Rightarrow> ScanView \<Rightarrow> IgnoreRules \<Rightarrow> path \<Rightarrow> Scanning \<Rightarrow> path \<Rightarrow>
    SnapshotEntry list result \<Rightarrow> Scanning \<Rightarrow> bool" where
  "entry_result blake3 view rules root s p r t \<longleftrightarrow> same_files s t \<and>
     (\<forall>es. r = Inr es \<longrightarrow> (if scannable view rules (sg_files s) root p
        then \<exists>e. es = [e] \<and> entry_for blake3 (sg_files s) root p e else es = []))"

lemma entry_result_throw [simp]: "entry_result blake3 view rules root s p (Inl e) t = same_files s t"
  by (simp add: entry_result_def)

lemma wp_scan_entry:
  assumes tree: "scan_tree view (sg_files s) root" and p: "p \<in> set (visited view (sg_files s) root)"
  shows "wp (scan_entry blake3 view rules root p) (entry_result blake3 view rules root s p) s"
proof -
  let ?rel = "drop (length root) p"
  obtain d c where d: "p = d @ [c]" "real_dirs (node_at (sg_files s)) d" "node_at (sg_files s) p \<noteq> None"
    "lexically_relative p root = ?rel" "?rel \<noteq> []" "\<forall>c \<in> set ?rel. plain_name c"
    using visitedE [OF p tree] by metis
  obtain ignored where ignored: "IsIgnored rules (join_with CHR ''/'' ?rel) = Inr ignored"
    using IsIgnored_plain [OF d(5,6)] by blast
  have link: "status_of (sg_files s) (entry_path (sg_files s) p) = node_status (node_at (sg_files s) p)"
    using d(1,2) by (simp add: status_of_def)
  show ?thesis
  proof (cases "node_at (sg_files s) p")
    case (Some n)
    show ?thesis
    proof (cases n)
      case Directory
      then show ?thesis
        using Some ignored d(4) p unfolding scan_entry_def wp_bind wp_zoom
        by (intro wp_symlink_status) (auto simp: Let_def link ToUtf8Path_def scannable_def entry_for_def entry_result_def intro!: wp_last_write_time)
    next
      case (Regular b)
      have bytes: "file_bytes (sg_files s) p = Some b"
        using Some Regular d(1,2) by (simp add: file_bytes_real)
      show ?thesis
        using Some Regular ignored d(4) p bytes unfolding scan_entry_def wp_bind wp_zoom
        by (intro wp_symlink_status)
          (auto simp: Let_def link ToUtf8Path_def scannable_def entry_for_def entry_result_def
            intro!: wp_last_write_time wp_file_size wp_Blake3File)
    next
      case (Symlink x)
      then show ?thesis
        using Some unfolding scan_entry_def wp_bind wp_zoom
        by (intro wp_symlink_status) (auto simp: link scannable_def entry_result_def intro!: wp_status)
    qed
  qed (use d(3) in simp)
qed

lemma same_files_trans: "same_files s t \<Longrightarrow> same_files t u \<Longrightarrow> same_files s u"
  by (auto simp: same_files_def)

lemma same_files_view:
  assumes "same_files s t"
  shows "node_at (sg_files t) = node_at (sg_files s)" "visited view (sg_files t) = visited view (sg_files s)"
    "scan_tree view (sg_files t) = scan_tree view (sg_files s)"
    "scannable view rules (sg_files t) root p = scannable view rules (sg_files s) root p"
    "entry_for blake3 (sg_files t) root p e = entry_for blake3 (sg_files s) root p e"
proof -
  obtain fs where t: "sg_files t = (sg_files s)\<lparr>fs_faults := fs\<rparr>" using assms by (auto simp: same_files_def)
  show node: "node_at (sg_files t) = node_at (sg_files s)" by (simp add: t)
  show vis: "visited view (sg_files t) = visited view (sg_files s)" by (simp add: fun_eq_iff visited_def t)
  show "scan_tree view (sg_files t) = scan_tree view (sg_files s)" by (simp add: fun_eq_iff scan_tree_def node vis)
  show "scannable view rules (sg_files t) root p = scannable view rules (sg_files s) root p" by (simp add: scannable_def node vis)
  show "entry_for blake3 (sg_files t) root p e = entry_for blake3 (sg_files s) root p e" by (simp add: entry_for_def node)
qed

definition loop_result :: "(bytes \<Rightarrow> bytes) \<Rightarrow> ScanView \<Rightarrow> IgnoreRules \<Rightarrow> path \<Rightarrow> Scanning \<Rightarrow> path list \<Rightarrow>
    SnapshotEntry list result \<Rightarrow> Scanning \<Rightarrow> bool" where
  "loop_result blake3 view rules root s ps r t \<longleftrightarrow> same_files s t \<and>
     (\<forall>es. r = Inr es \<longrightarrow>
       list_all2 (entry_for blake3 (sg_files s) root) (filter (scannable view rules (sg_files s) root) ps) es)"

lemma loop_result_Cons:
  assumes "entry_result blake3 view rules root s p (Inr es) t" "same_files t u" "loop_result blake3 view rules root u ps r v"
  shows "loop_result blake3 view rules root s (p # ps) (case r of Inl e \<Rightarrow> Inl e | Inr rest \<Rightarrow> Inr (es @ rest)) v"
proof -
  have su: "same_files s u" using assms(1,2) same_files_trans by (auto simp: entry_result_def)
  have sv: "same_files s v" using su assms(3) same_files_trans by (auto simp: loop_result_def)
  have view: "scannable view rules (sg_files u) root = scannable view rules (sg_files s) root"
    "entry_for blake3 (sg_files u) root = entry_for blake3 (sg_files s) root"
    by (simp_all add: fun_eq_iff same_files_view [OF su])
  have step: "if scannable view rules (sg_files s) root p then \<exists>e. es = [e] \<and> entry_for blake3 (sg_files s) root p e else es = []"
    using assms(1) by (simp add: entry_result_def)
  have rest: "list_all2 (entry_for blake3 (sg_files s) root) (filter (scannable view rules (sg_files s) root) ps) xs"
    if "r = Inr xs" for xs
    using assms(3) that by (simp add: loop_result_def view)
  show ?thesis
    unfolding loop_result_def using sv step rest by (cases r) (auto split: if_splits)
qed

lemma wp_scan_loop:
  assumes "scan_tree view (sg_files s) root" "set ps \<subseteq> set (visited view (sg_files s) root)"
  shows "wp (scan_loop blake3 view rules root ps) (loop_result blake3 view rules root s ps) s"
  using assms
proof (induction ps arbitrary: s)
  case Nil
  then show ?case by (simp add: loop_result_def)
next
  case (Cons p ps)
  let ?Q = "loop_result blake3 view rules root s (p # ps)"
  have later: "wp (scan_loop blake3 view rules root ps) (onward ?Q (\<lambda>rest. wp (returnS (es @ rest)) ?Q)) u"
    if es: "entry_result blake3 view rules root s p (Inr es) t" and u: "same_files t u" for es t u
  proof -
    have su: "same_files s u" using es u same_files_trans by (auto simp: entry_result_def)
    have "wp (scan_loop blake3 view rules root ps) (loop_result blake3 view rules root u ps) u"
      using Cons.prems by (intro Cons.IH) (simp_all add: same_files_view [OF su])
    then show ?thesis
    proof (rule wp_mono)
      fix r v assume "loop_result blake3 view rules root u ps r v"
      from loop_result_Cons [OF es u this] show "onward ?Q (\<lambda>rest. wp (returnS (es @ rest)) ?Q) r v"
        by (cases r) simp_all
    qed
  qed
  show ?case
    unfolding scan_loop.simps wp_bind
  proof (rule wp_mono [OF wp_scan_entry [OF Cons.prems(1)]], goal_cases)
    case 1
    show ?case using Cons.prems(2) by simp
  next
    case (2 r t)
    note r = this
    have sf: "same_files s (t\<lparr>sg_files := (sg_files t)\<lparr>fs_faults := fs\<rparr>\<rparr>)" for fs
      using r same_files_trans same_files_fault(1) unfolding entry_result_def by blast
    show ?case
    proof (cases r)
      case (Inr es)
      have "wp next_fault (\<lambda>r u. onward ?Q (\<lambda>f. wp (thenS (guardS (f \<noteq> None)
          (Runtime_error ''recursive_directory_iterator::operator++''))
        (bindS (scan_loop blake3 view rules root ps) (\<lambda>rest. returnS (es @ rest)))) ?Q) r (t\<lparr>sg_files := u\<rparr>)) (sg_files t)"
        using later [OF r [unfolded Inr]] sf by (intro wp_next_fault) (simp add: loop_result_def)
      then show ?thesis by (simp add: Inr)
    qed (use r in \<open>simp add: loop_result_def\<close>)
  qed
qed

section \<open>A scan that nothing disturbs returns\<close>

definition no_link_loops :: "ScanView \<Rightarrow> FileSystem \<Rightarrow> path \<Rightarrow> bool" where
  "no_link_loops view s root \<longleftrightarrow> (\<forall>p \<in> set (visited view s root). real_path s p \<noteq> Looping)"

lemma scan_entry_returns:
  assumes tree: "scan_tree view (sg_files s) root" and p: "p \<in> set (visited view (sg_files s) root)"
    and calm: "fs_faults (sg_files s) = []" "real_path (sg_files s) p \<noteq> Looping"
  shows "\<exists>es n. scan_entry blake3 view rules root p s = (Inr es, s\<lparr>sg_readings := n\<rparr>)"
proof -
  let ?rel = "drop (length root) p"
  obtain d c where d: "p = d @ [c]" "real_dirs (node_at (sg_files s)) d" "node_at (sg_files s) p \<noteq> None"
    "lexically_relative p root = ?rel" "?rel \<noteq> []" "\<forall>c \<in> set ?rel. plain_name c"
    using visitedE [OF p tree] by metis
  obtain ignored where ignored: "IsIgnored rules (join_with CHR ''/'' ?rel) = Inr ignored"
    using IsIgnored_plain [OF d(5,6)] by blast
  have entry: "entry_path (sg_files s) p = At p" using d(1,2) by simp
  have status: "status_of (sg_files s) (real_path (sg_files s) p) \<noteq> stError"
    using calm(2) by (simp add: status_of_def split: walked.splits)
  have self: "s\<lparr>sg_files := sg_files s\<rparr> = s" "s\<lparr>sg_files := sg_files s, sg_readings := n\<rparr> = s\<lparr>sg_readings := n\<rparr>"
    "s\<lparr>sg_readings := n, sg_files := sg_files s\<rparr> = s\<lparr>sg_readings := n\<rparr>" for n by simp_all
  note run = scan_entry_def op_defs zoomS_def Let_def last_write_time_def read_stamp_def status_of_def ToUtf8Path_def next_fault_ok
  show ?thesis
  proof (cases "node_at (sg_files s) p")
    case (Some n)
    show ?thesis
    proof (cases n)
      case Directory
      then show ?thesis using Some calm(1) entry ignored d(4) by (auto simp: run self intro: exI [of _ "sg_readings s"])
    next
      case (Regular b)
      then have "file_bytes (sg_files s) p = Some b" using Some d(1,2) by (simp add: file_bytes_real)
      then show ?thesis
        using Some Regular calm(1) entry ignored d(4) by (auto simp: run self Blake3File_def intro: exI [of _ "sg_readings s"])
    next
      case (Symlink x)
      then show ?thesis using Some calm(1) entry status
        by (intro exI [of _ "[]"] exI [of _ "sg_readings s"]) (simp add: scan_entry_def op_defs zoomS_def status_of_def)
    qed
  qed (use d(3) in simp)
qed

lemma scan_loop_returns:
  assumes "scan_tree view (sg_files s) root" "set ps \<subseteq> set (visited view (sg_files s) root)"
    and "fs_faults (sg_files s) = []" "no_link_loops view (sg_files s) root"
  shows "\<exists>es n. scan_loop blake3 view rules root ps s = (Inr es, s\<lparr>sg_readings := n\<rparr>)"
  using assms
proof (induction ps arbitrary: s)
  case Nil
  then show ?case by (intro exI [of _ "[]"] exI [of _ "sg_readings s"]) (simp add: op_defs)
next
  case (Cons p ps)
  obtain es n where first: "scan_entry blake3 view rules root p s = (Inr es, s\<lparr>sg_readings := n\<rparr>)"
    using scan_entry_returns [of view s root p blake3 rules] Cons.prems by (auto simp: no_link_loops_def)
  obtain rest m where "scan_loop blake3 view rules root ps (s\<lparr>sg_readings := n\<rparr>) = (Inr rest, s\<lparr>sg_readings := m\<rparr>)"
    using Cons.IH [of "s\<lparr>sg_readings := n\<rparr>"] Cons.prems by auto
  with first Cons.prems(3) show ?case
    by (intro exI [of _ "es @ rest"] exI [of _ m]) (simp add: bindS_def thenS_def zoomS_def next_fault_ok guardS_def returnS_def)
qed

section \<open>The snapshot is the tree\<close>

definition exact_snapshot :: "(bytes \<Rightarrow> bytes) \<Rightarrow> ScanView \<Rightarrow> IgnoreRules \<Rightarrow> FileSystem \<Rightarrow> path \<Rightarrow> SnapshotEntry list \<Rightarrow> bool" where
  "exact_snapshot blake3 view rules s root snapshot \<longleftrightarrow>
     sorted_wrt (<) (map se_relative_path snapshot) \<and>
     (\<forall>p. scannable view rules s root p \<longrightarrow> (\<exists>e \<in> set snapshot. entry_for blake3 s root p e)) \<and>
     (\<forall>e \<in> set snapshot. \<exists>p. scannable view rules s root p \<and> entry_for blake3 s root p e)"

lemma relative_inj:
  assumes "scan_tree view s root" "p \<in> set (visited view s root)" "q \<in> set (visited view s root)"
    and "join_with CHR ''/'' (drop (length root) p) = join_with CHR ''/'' (drop (length root) q)"
  shows "p = q"
proof -
  have plain: "split_on CHR ''/'' (join_with CHR ''/'' (drop (length root) x)) = drop (length root) x \<and> x = root @ drop (length root) x"
    if x: "x \<in> set (visited view s root)" for x
  proof -
    obtain d c where d: "drop (length root) x \<noteq> []" "\<forall>c \<in> set (drop (length root) x). plain_name c" "x = root @ drop (length root) x"
      using visitedE [OF x assms(1)] by metis
    then have "\<forall>c \<in> set (drop (length root) x). CHR ''/'' \<notin> set c" unfolding plain_name_def by blast
    then show ?thesis using split_on_join [OF d(1)] d(3) by blast
  qed
  show ?thesis using plain [OF assms(2)] plain [OF assms(3)] assms(4) by metis
qed

lemma loop_exact:
  assumes tree: "scan_tree view s root"
    and es: "list_all2 (entry_for blake3 s root) (filter (scannable view rules s root) (visited view s root)) es"
  shows "exact_snapshot blake3 view rules s root (sort_key se_relative_path es)"
proof -
  let ?ps = "filter (scannable view rules s root) (visited view s root)" and ?rel = "\<lambda>p. join_with CHR ''/'' (drop (length root) p)"
  have pairs: "length ?ps = length es" "\<And>i. i < length es \<Longrightarrow> entry_for blake3 s root (?ps ! i) (es ! i)"
    using es by (simp_all add: list_all2_conv_all_nth)
  have "map ?rel ?ps = map se_relative_path es"
    using pairs by (intro nth_equalityI) (simp_all add: entry_for_def)
  moreover have "distinct ?ps" by (simp add: visited_def)
  then have "distinct (map ?rel ?ps)"
    using relative_inj [OF tree] unfolding distinct_map inj_on_def by (simp add: scannable_def)
  ultimately have "distinct (map se_relative_path es)" by simp
  then have "distinct (map se_relative_path (sort_key se_relative_path es))" by (simp add: distinct_map)
  then have "sorted_wrt (<) (map se_relative_path (sort_key se_relative_path es))"
    unfolding strict_sorted_iff by simp
  moreover have "\<exists>e \<in> set es. entry_for blake3 s root p e" if "scannable view rules s root p" for p
  proof -
    have "p \<in> set ?ps" using that by (simp add: scannable_def)
    then obtain i where "i < length es" "?ps ! i = p" using pairs(1) by (metis in_set_conv_nth)
    then show ?thesis using pairs(2) [of i] by (metis nth_mem)
  qed
  moreover have "\<exists>p. scannable view rules s root p \<and> entry_for blake3 s root p e" if e: "e \<in> set es" for e
  proof -
    obtain i where i: "i < length es" "es ! i = e" using e by (metis in_set_conv_nth)
    then have "?ps ! i \<in> set ?ps" using pairs(1) by (intro nth_mem) simp
    then show ?thesis using pairs(2) [OF i(1)] i(2) by auto
  qed
  ultimately show ?thesis by (simp add: exact_snapshot_def)
qed

lemma Scan_wp:
  assumes "canonical task_root = Some root" "scan_tree view (sg_files s) root"
  shows "wp (Scan blake3 canonical view rules task_root)
    (\<lambda>r t. same_files s t \<and> (\<forall>snapshot. r = Inr snapshot \<longrightarrow> exact_snapshot blake3 view rules (sg_files s) root snapshot)) s"
    (is "wp _ ?Q s")
proof -
  have root: "status_of (sg_files s) (real_path (sg_files s) root) = stDirectory"
    using assms(2) real_dirs_last [of "node_at (sg_files s)" root]
    by (auto simp: scan_tree_def canonical_root_def real_path_dir status_of_def)
  have walk: "wp (bindS (scan_loop blake3 view rules root (visited view (sg_files s) root))
      (\<lambda>snapshot. returnS (sort_key se_relative_path snapshot))) ?Q u" if u: "same_files s u" for u
  proof -
    have "wp (scan_loop blake3 view rules root (visited view (sg_files u) root)) (loop_result blake3 view rules root u (visited view (sg_files u) root)) u"
      using assms(2) by (intro wp_scan_loop) (simp_all add: same_files_view [OF u])
    then show ?thesis
      unfolding wp_bind same_files_view(2) [OF u]
    proof (rule wp_mono, goal_cases)
      case (1 r t)
      then have t: "same_files s t" using u same_files_trans by (auto simp: loop_result_def)
      show ?case
      proof (cases r)
        case (Inr es)
        have view: "scannable view rules (sg_files u) root = scannable view rules (sg_files s) root"
          "entry_for blake3 (sg_files u) root = entry_for blake3 (sg_files s) root"
          by (simp_all add: fun_eq_iff same_files_view [OF u])
        have "list_all2 (entry_for blake3 (sg_files s) root) (filter (scannable view rules (sg_files s) root) (visited view (sg_files s) root)) es"
          using 1 Inr by (simp add: loop_result_def view)
        then show ?thesis using loop_exact [OF assms(2)] t Inr by simp
      qed (use t in simp)
    qed
  qed
  have open_dir: "wp (bindS (scan_files next_fault) (\<lambda>f. thenS (guardS (f \<noteq> None) e)
      (bindS (getS (\<lambda>s. visited view (sg_files s) root)) (\<lambda>paths. bindS (scan_loop blake3 view rules root paths)
        (\<lambda>snapshot. returnS (sort_key se_relative_path snapshot)))))) ?Q (s\<lparr>sg_files := (sg_files s)\<lparr>fs_faults := fs\<rparr>\<rparr>)" for fs e
    unfolding wp_bind wp_zoom
  proof (rule wp_next_fault, goal_cases)
    case (1 f fs)
    have "same_files s (s\<lparr>sg_files := (sg_files s)\<lparr>fs_faults := fs\<rparr>\<rparr>)" by simp
    from walk [OF this] same_files_view(2) [OF this, of view] show ?case by (cases f) simp_all
  qed
  show ?thesis
    unfolding Scan_def assms(1) option.case wp_bind wp_zoom
    by (rule wp_status) (use open_dir in \<open>simp_all add: root del: wp_bind\<close>)
qed

lemma Scan_returns:
  assumes "canonical task_root = Some root" "scan_tree view (sg_files s) root"
    and "fs_faults (sg_files s) = []" "no_link_loops view (sg_files s) root"
  shows "\<exists>snapshot n. Scan blake3 canonical view rules task_root s = (Inr snapshot, s\<lparr>sg_readings := n\<rparr>)"
proof -
  have root: "status_of (sg_files s) (real_path (sg_files s) root) = stDirectory"
    using assms(2) real_dirs_last [of "node_at (sg_files s)" root]
    by (auto simp: scan_tree_def canonical_root_def real_path_dir status_of_def)
  obtain es n where "scan_loop blake3 view rules root (visited view (sg_files s) root) s = (Inr es, s\<lparr>sg_readings := n\<rparr>)"
    using scan_loop_returns [OF assms(2) _ assms(3,4)] by blast
  then show ?thesis
    using assms(1,3) root
    by (intro exI [of _ "sort_key se_relative_path es"] exI [of _ n]) (simp add: Scan_def op_defs zoomS_def next_fault_ok)
qed


definition demo_view :: ScanView where
  "demo_view = \<lparr>sv_denied = (\<lambda>_. False), sv_mtime = (\<lambda>_. 5), sv_clocks = (\<lambda>n. (int n, int n)), sv_rank = (\<lambda>_. 0)\<rparr>"

lemma demo_visited: "visited demo_view demo_fs demo_root = [demo_root @ [''a''], demo_root @ [''b.part'']]"
  by (auto simp: visited_def demo_view_def demo_fs_def demo_root_def less_Suc_eq)

lemma demo_tree: "scan_tree demo_view demo_fs demo_root" "no_link_loops demo_view demo_fs demo_root"
  using demo_facts(2,4) real_path_real [OF demo_facts(4)]
  by (simp_all add: scan_tree_def no_link_loops_def demo_visited plain_name_def) (simp_all add: demo_root_def demo_fs_def node_at_def)


end
