(* ===== verification/Sync_Node.thy ===== *)
theory Sync_Node
  imports Chunk_Transfer Snapshot_Reconciler Manifest_Scanner Protocol_Codec
begin

text \<open>
  What the synchronisation nodes of \<^verbatim>\<open>engine/sync\<close> have in common: the textual form of content hashes, the
  device they work on, the scan of the task directory, and the files they offer.  A device is its database, its
  files and the number of calls made so far to the clock and to the generators of identifiers, which are
  parameters: \<open>svc_now n\<close>, \<open>svc_steady n\<close>, \<open>svc_uuid n\<close> and \<open>svc_transfer n\<close> are what call number \<open>n\<close> returns.  A transport is
  a parameter too: its state is of any type, \<open>svc_send\<close> hands it a frame and may throw, and \<open>svc_buffered\<close> is
  its \<^verbatim>\<open>BufferedAmount\<close>.  \<open>svc_native\<close> is the native path of the task root.
\<close>

section \<open>Hashes as text\<close>

definition HexDigit :: "u8 \<Rightarrow> char" where
  "HexDigit value = ''0123456789abcdef'' ! unat (value AND 0x0F)"

definition EncodeHash :: "bytes \<Rightarrow> string" where
  "EncodeHash hash = concat (map (\<lambda>b. [HexDigit (drop_bit 4 b), HexDigit b]) hash)"

definition DecodeHexDigit :: "char \<Rightarrow> u8 result" where
  "DecodeHexDigit value =
     (let code = of_char value :: nat in
      if 48 \<le> code \<and> code \<le> 57 then Inr (word_of_nat (code - 48))
      else if 97 \<le> code \<and> code \<le> 102 then Inr (word_of_nat (code - 97 + 10))
      else if 65 \<le> code \<and> code \<le> 70 then Inr (word_of_nat (code - 65 + 10))
      else Inl (Invalid_argument ''manifest content hash is not hexadecimal''))"

definition kHashSize :: nat where "kHashSize = 32"

definition decode_byte :: "string \<Rightarrow> nat \<Rightarrow> u8 result" where
  "decode_byte value index =
     bindE (DecodeHexDigit (value ! (index * 2))) (\<lambda>high.
     bindE (DecodeHexDigit (value ! (index * 2 + 1))) (\<lambda>low. Inr (push_bit 4 high OR low)))"

definition DecodeHash :: "string \<Rightarrow> bytes result" where
  "DecodeHash value =
     (if length value \<noteq> kHashSize * 2 then Inl (Invalid_argument ''manifest content hash has invalid length'')
      else mapE (decode_byte value) [0..<kHashSize])"

definition ChunkCount :: "u64 \<Rightarrow> u64" where
  "ChunkCount bytes = (if bytes = 0 then 0 else (bytes + logical_chunk - 1) div logical_chunk)"

lemma length_EncodeHash [simp]: "length (EncodeHash h) = 2 * length h"
  by (induction h) (simp_all add: EncodeHash_def)

lemma nth_EncodeHash:
  "i < length h \<Longrightarrow> EncodeHash h ! (i * 2) = HexDigit (drop_bit 4 (h ! i)) \<and> EncodeHash h ! (i * 2 + 1) = HexDigit (h ! i)"
proof (induction h arbitrary: i)
  case (Cons b h)
  then show ?case by (cases i) (simp_all add: EncodeHash_def)
qed simp

lemma low_nibble: "b AND 0x0F = take_bit 4 (b :: u8)"
  by (simp add: take_bit_eq_mask mask_eq_exp_minus_1)

lemma DecodeHexDigit_HexDigit: "DecodeHexDigit (HexDigit b) = Inr (take_bit 4 b)"
proof -
  have "unat (take_bit 4 b) < 2 ^ 4" unfolding unsigned_take_bit_eq by (rule take_bit_nat_less_exp)
  then have "unat (take_bit 4 b) \<in> set [0..<16]" by simp
  moreover have "list_all (\<lambda>n. DecodeHexDigit (''0123456789abcdef'' ! n) = Inr (word_of_nat n)) [0..<16]"
    by code_simp
  ultimately show ?thesis by (simp add: HexDigit_def low_nibble list_all_iff del: upt_rec_numeral)
qed

lemma nibbles_join: "push_bit 4 (take_bit 4 (drop_bit 4 b)) OR take_bit 4 b = (b :: u8)"
  by (rule bit_word_eqI) (auto simp: bit_simps)

lemma DecodeHash_EncodeHash:
  assumes "length h = kHashSize"
  shows "DecodeHash (EncodeHash h) = Inr h"
proof -
  have byte: "decode_byte (EncodeHash h) i = Inr (h ! i)" if "i < kHashSize" for i
    using nth_EncodeHash [of i h] assms that by (simp add: decode_byte_def DecodeHexDigit_HexDigit nibbles_join)
  have "mapE (decode_byte (EncodeHash h)) [0..<kHashSize] = Inr h"
    unfolding mapE_Inr_iff using byte assms by (simp add: list_all2_conv_all_nth)
  then show ?thesis using assms by (simp add: DecodeHash_def)
qed

lemma DecodeHash_length: "DecodeHash t = Inr h \<Longrightarrow> length h = kHashSize"
  by (auto simp: DecodeHash_def mapE_Inr_iff list_all2_conv_all_nth split: if_splits)

section \<open>Device and services\<close>

record 't Services =
  svc_blake3 :: "bytes \<Rightarrow> bytes"
  svc_canonical :: "string \<Rightarrow> path option"
  svc_native :: "string \<Rightarrow> path"
  svc_view :: ScanView
  svc_now :: "nat \<Rightarrow> int"
  svc_steady :: "nat \<Rightarrow> int"
  svc_uuid :: "nat \<Rightarrow> string"
  svc_transfer :: "nat \<Rightarrow> TransferId"
  svc_send :: "Channel \<Rightarrow> bytes \<Rightarrow> ('t, unit) op"
  svc_buffered :: "Channel \<Rightarrow> 't \<Rightarrow> nat"
  svc_sqlite_fails :: "Database \<Rightarrow> bool"

record SourceFile =
  sf_absolute_path :: path
  sf_hash :: bytes

record Device =
  sn_database :: Database
  sn_files :: FileSystem
  sn_calls :: nat

record SyncNode = Device +
  sn_manifest_revision :: u64
  sn_source_files :: "SourceFile list"

abbreviation node_db :: "(Database, 'a) op \<Rightarrow> ('m Device_scheme, 'a) op" where
  "node_db \<equiv> zoomS sn_database (\<lambda>d s. s\<lparr>sn_database := d\<rparr>)"

abbreviation node_files :: "(FileSystem, 'a) op \<Rightarrow> ('m Device_scheme, 'a) op" where
  "node_files \<equiv> zoomS sn_files (\<lambda>f s. s\<lparr>sn_files := f\<rparr>)"

abbreviation node_tables :: "(tables \<Rightarrow> 'a result) \<Rightarrow> ('m Device_scheme, 'a) op" where
  "node_tables f \<equiv> liftS (\<lambda>s. f (db_tables (sn_database s)))"

definition outside_call :: "(nat \<Rightarrow> 'a) \<Rightarrow> ('m Device_scheme, 'a) op" where
  "outside_call f s = (Inr (f (sn_calls s)), s\<lparr>sn_calls := Suc (sn_calls s)\<rparr>)"

definition NowMilliseconds :: "'t Services \<Rightarrow> ('m Device_scheme, int) op" where
  "NowMilliseconds svc = outside_call (svc_now svc)"

definition NewUuidV4 :: "'t Services \<Rightarrow> ('m Device_scheme, string) op" where
  "NewUuidV4 svc = outside_call (svc_uuid svc)"

definition NewTransferId :: "'t Services \<Rightarrow> ('m Device_scheme, TransferId) op" where
  "NewTransferId svc = outside_call (svc_transfer svc)"

section \<open>Scanning the task directory\<close>

definition scan_task :: "'t Services \<Rightarrow> string \<Rightarrow> ('m Device_scheme, SnapshotEntry list) op" where
  "scan_task svc task_root =
     bindS (node_files (LoadFile (svc_native svc task_root) IgnoreRules_new)) (\<lambda>rules.
       zoomS (\<lambda>s. \<lparr>sg_files = sn_files s, sg_readings = sn_calls s\<rparr>)
         (\<lambda>g s. s\<lparr>sn_files := sg_files g, sn_calls := sg_readings g\<rparr>)
         (Scan (svc_blake3 svc) (svc_canonical svc) (svc_view svc) rules task_root))"

definition run_reconciler :: "'t Services \<Rightarrow> SnapshotEntry list \<Rightarrow> ReconcileConfig \<Rightarrow> ('m Device_scheme, ReconcileResult) op" where
  "run_reconciler svc snapshot context =
     zoomS (\<lambda>s. \<lparr>rs_database = sn_database s, rs_generated = sn_calls s\<rparr>)
       (\<lambda>r s. s\<lparr>sn_database := rs_database r, sn_calls := rs_generated r\<rparr>) (Apply (svc_uuid svc) snapshot context)"

definition reconcile_task ::
  "'t Services \<Rightarrow> string \<Rightarrow> string \<Rightarrow> SnapshotEntry list \<Rightarrow> ('m SyncNode_scheme, ReconcileResult) op" where
  "reconcile_task svc task_id device_id snapshot =
     bindS (getS sn_manifest_revision) (\<lambda>revision.
     bindS (NowMilliseconds svc) (\<lambda>now.
     run_reconciler svc snapshot
       \<lparr>rc_task_id = task_id, rc_origin_device_id = device_id, rc_logical_clock = revision + 1, rc_now_ms = now\<rparr>))"

section \<open>Offering files\<close>

text \<open>
  The two nodes that only send keep the manifest of their last scan.  Files with equal hashes keep their
  order here; the standard library leaves it open, and their bytes are equal.
\<close>

record SourceNode = SyncNode +
  sr_source_manifest :: Manifest

definition offer_entry :: "path \<Rightarrow> SnapshotEntry \<Rightarrow> ('m SourceNode_scheme, unit) op" where
  "offer_entry root entry =
     (if se_kind entry = snDirectory then
        modifyS (\<lambda>s. s\<lparr>sr_source_manifest := (sr_source_manifest s)\<lparr>manifest_entries := manifest_entries (sr_source_manifest s) @
          [\<lparr>me_relative_path = se_relative_path entry, me_size = 0, me_content_hash = []\<rparr>]\<rparr>\<rparr>)
      else case se_content_hash entry of
        None \<Rightarrow> throwS (Logic_error ''source file snapshot has no hash'')
      | Some hash \<Rightarrow>
         modifyS (\<lambda>s. s\<lparr>sr_source_manifest := (sr_source_manifest s)\<lparr>manifest_entries := manifest_entries (sr_source_manifest s) @
             [\<lparr>me_relative_path = se_relative_path entry, me_size = se_size entry, me_content_hash = EncodeHash hash\<rparr>]\<rparr>,
           sn_source_files := sn_source_files s @
             [\<lparr>sf_absolute_path = root @ path_components (se_relative_path entry), sf_hash = hash\<rparr>]\<rparr>))"

definition offer_snapshot :: "path \<Rightarrow> SnapshotEntry list \<Rightarrow> ('m SourceNode_scheme, unit) op" where
  "offer_snapshot root snapshot =
     thenS (modifyS (\<lambda>s. s\<lparr>sn_manifest_revision := sn_manifest_revision s + 1,
         sr_source_manifest := \<lparr>manifest_revision = sn_manifest_revision s + 1, manifest_entries = []\<rparr>, sn_source_files := []\<rparr>))
    (thenS (forS (offer_entry root) snapshot)
      (modifyS (\<lambda>s. s\<lparr>sn_source_files := sort_key sf_hash (sn_source_files s)\<rparr>)))"

text \<open>\<^verbatim>\<open>lower_bound\<close> in the sorted files, and the comparison after it.\<close>

definition find_source :: "bytes \<Rightarrow> SourceFile list \<Rightarrow> SourceFile option" where
  "find_source hash files = (case dropWhile (\<lambda>f. sf_hash f < hash) files of
     [] \<Rightarrow> None | f # _ \<Rightarrow> if sf_hash f \<noteq> hash then None else Some f)"

section \<open>Uploads\<close>

record PendingUpload =
  pu_transfer_id :: TransferId
  pu_session :: UploadSession

definition kMaxPendingUploadBytes :: nat where "kMaxPendingUploadBytes = 16 * 1024 * 1024"
definition kResumeBelowBytes :: nat where "kResumeBelowBytes = 1 * 1024 * 1024"
definition kPersistBatchBytes :: nat where "kPersistBatchBytes = 8 * 1024 * 1024"

text \<open>A session reads the files of the device.\<close>

definition with_session :: "(UploadSession, 'a) op \<Rightarrow> UploadSession \<Rightarrow> ('m Device_scheme, 'a result \<times> UploadSession) op" where
  "with_session m session s =
     (case m (session\<lparr>up_source := (fst (up_source session), sn_files s)\<rparr>) of
        (r, u) \<Rightarrow> (Inr (r, u), s\<lparr>sn_files := snd (up_source u)\<rparr>))"

definition open_session :: "SourceFile \<Rightarrow> FileRequest \<Rightarrow> ('m Device_scheme, UploadSession) op" where
  "open_session source request =
     liftS (\<lambda>s. UploadSession_new (ChunkSource_new (sf_absolute_path source) (request_transfer_id request) (request_file_hash request))
       (sn_files s) kMaxPendingUploadBytes kResumeBelowBytes)"

fun find_position :: "('a \<Rightarrow> bool) \<Rightarrow> 'a list \<Rightarrow> nat option" where
  "find_position P [] = None"
| "find_position P (x # xs) = (if P x then Some 0 else map_option Suc (find_position P xs))"

definition erase_at :: "nat \<Rightarrow> 'a list \<Rightarrow> 'a list" where
  "erase_at i xs = take i xs @ drop (Suc i) xs"

lemma find_position_Some:
  "find_position P xs = Some i \<longleftrightarrow> i < length xs \<and> P (xs ! i) \<and> (\<forall>j < i. \<not> P (xs ! j))"
proof (induction xs arbitrary: i)
  case (Cons x xs)
  then show ?case by (cases i) (auto simp: less_Suc_eq_0_disj)
qed simp

lemma find_position_None: "find_position P xs = None \<longleftrightarrow> (\<forall>x \<in> set xs. \<not> P x)"
  by (induction xs) auto

end
