(* ===== verification/One_Way_Sync.thy ===== *)
theory One_Way_Sync
  imports Sync_Node
begin

text \<open>
  The node of a one-way task (\<^verbatim>\<open>engine/sync/one_way_sync.cpp\<close>): a source scans its directory and serves files,
  a target makes its directory equal to the source's manifest.  A receiver and an upload session work on the
  node's own database and files, which they hold by reference; here they are handed over for each call.  The
  calls of a node run under its mutex, one after the other.
\<close>

section \<open>State\<close>

record OneWaySyncConfig =
  oc_task_id :: string
  oc_role :: Role
  oc_device_id :: string
  oc_peer_device_id :: string
  oc_device_fingerprint :: string
  oc_authorization_digest :: string
  oc_task_root :: string

record TransferStatistics =
  ts_control_bytes_sent :: u64
  ts_bulk_bytes_sent :: u64
  ts_control_bytes_received :: u64
  ts_bulk_bytes_received :: u64
  ts_chunks_sent :: u64
  ts_chunks_received :: u64
  ts_files_committed :: u64
  ts_files_deleted :: u64
  ts_backpressure_pauses :: u64

definition no_statistics :: TransferStatistics where
  "no_statistics = \<lparr>ts_control_bytes_sent = 0, ts_bulk_bytes_sent = 0, ts_control_bytes_received = 0,
     ts_bulk_bytes_received = 0, ts_chunks_sent = 0, ts_chunks_received = 0, ts_files_committed = 0,
     ts_files_deleted = 0, ts_backpressure_pauses = 0\<rparr>"

record ActiveDownload =
  ad_entry :: ManifestEntry
  ad_hash :: bytes
  ad_transfer_id :: TransferId
  ad_chunk_count :: u64
  ad_receiver :: DownloadReceiver
  ad_durable_chunks :: nat
  ad_dirty_bytes :: nat
  ad_dirty_chunks :: "u64 list"

record 't OneWaySyncNode = SourceNode +
  ow_config :: OneWaySyncConfig
  ow_transport :: 't
  ow_writer :: SafeFileWriter
  ow_started :: bool
  ow_received_hello :: bool
  ow_next_request_id :: u64
  ow_downloads :: "ActiveDownload list"
  ow_uploads :: "PendingUpload list"
  ow_received_manifest :: "Manifest option"
  ow_last_error :: "string option"
  ow_statistics :: TransferStatistics

type_synonym ('t, 'a) ow_op = "('t OneWaySyncNode, 'a) op"

definition IsDirectoryEntry :: "ManifestEntry \<Rightarrow> bool" where
  "IsDirectoryEntry entry \<longleftrightarrow> me_content_hash entry = []"

abbreviation tally :: "(TransferStatistics \<Rightarrow> TransferStatistics) \<Rightarrow> ('t, unit) ow_op" where
  "tally f \<equiv> modifyS (\<lambda>s. s\<lparr>ow_statistics := f (ow_statistics s)\<rparr>)"

abbreviation the_transport :: "('t, 'a) op \<Rightarrow> ('t, 'a) ow_op" where
  "the_transport \<equiv> zoomS ow_transport (\<lambda>t s. s\<lparr>ow_transport := t\<rparr>)"

section \<open>Construction and queries\<close>

definition OneWaySyncNode_new ::
  "'t Services \<Rightarrow> OneWaySyncConfig \<Rightarrow> 't \<Rightarrow> Database \<Rightarrow> FileSystem \<Rightarrow> 't OneWaySyncNode result" where
  "OneWaySyncNode_new svc config transport database files =
     (case SafeFileWriter_new (svc_canonical svc) (oc_task_root config) files of
        (Inl e, _) \<Rightarrow> Inl e
      | (Inr writer, files') \<Rightarrow>
         if oc_role config \<noteq> kSource \<and> oc_role config \<noteq> kTarget
         then Inl (Invalid_argument ''one-way node role must be source or target'')
         else if oc_task_id config = [] \<or> oc_device_id config = [] \<or> oc_peer_device_id config = [] \<or>
           oc_device_fingerprint config = [] \<or> oc_authorization_digest config = []
         then Inl (Invalid_argument ''one-way node identity is incomplete'')
         else Inr \<lparr>sn_database = database, sn_files = files', sn_calls = 0, sn_manifest_revision = 0, sn_source_files = [],
           sr_source_manifest = \<lparr>manifest_revision = 0, manifest_entries = []\<rparr>,
           ow_config = config, ow_transport = transport, ow_writer = writer, ow_started = False, ow_received_hello = False,
           ow_next_request_id = 1, ow_downloads = [], ow_uploads = [], ow_received_manifest = None, ow_last_error = None,
           ow_statistics = no_statistics\<rparr>)"

definition OneWay_HandshakeComplete :: "'t OneWaySyncNode \<Rightarrow> bool" where
  "OneWay_HandshakeComplete s \<longleftrightarrow> ow_started s \<and> ow_received_hello s \<and> ow_last_error s = None"

definition TargetIsConverged :: "'t OneWaySyncNode \<Rightarrow> bool" where
  "TargetIsConverged s \<longleftrightarrow> oc_role (ow_config s) = kTarget \<and> OneWay_HandshakeComplete s \<and>
     ow_received_manifest s \<noteq> None \<and> ow_downloads s = []"

definition PendingDownloadCount :: "'t OneWaySyncNode \<Rightarrow> nat" where
  "PendingDownloadCount s = length (ow_downloads s)"

definition DownloadProgress :: "'t OneWaySyncNode \<Rightarrow> u64 \<times> u64" where
  "DownloadProgress s =
     (sum_list (map (\<lambda>d. dr_expected_size (ad_receiver d)) (ow_downloads s)),
      sum_list (map (\<lambda>d. dr_received_bytes (ad_receiver d)) (ow_downloads s)))"

definition OneWay_RolesCompatible :: "Role \<Rightarrow> Role \<Rightarrow> bool" where
  "OneWay_RolesCompatible role peer_role \<longleftrightarrow>
     role = kSource \<and> peer_role = kTarget \<or> role = kTarget \<and> peer_role = kSource"

section \<open>Sending\<close>

definition OneWay_Send :: "'t Services \<Rightarrow> Channel \<Rightarrow> FrameType \<Rightarrow> bytes \<Rightarrow> ('t, unit) ow_op" where
  "OneWay_Send svc channel t payload =
     bindS (getS ow_next_request_id) (\<lambda>id.
     thenS (modifyS (\<lambda>s. s\<lparr>ow_next_request_id := id + 1\<rparr>))
    (bindS (liftS (\<lambda>_. EncodeFrame \<lparr>frame_type = t, frame_request_id = id, frame_payload = payload\<rparr>)) (\<lambda>wire.
     thenS (if channel = kControl then tally (\<lambda>x. x\<lparr>ts_control_bytes_sent := ts_control_bytes_sent x + word_of_nat (length wire)\<rparr>)
            else tally (\<lambda>x. x\<lparr>ts_bulk_bytes_sent := ts_bulk_bytes_sent x + word_of_nat (length wire)\<rparr>))
     (the_transport (svc_send svc channel wire)))))"

abbreviation send_message :: "'t Services \<Rightarrow> FrameType \<Rightarrow> bytes result \<Rightarrow> ('t, unit) ow_op" where
  "send_message svc t payload \<equiv> bindS (liftS (\<lambda>_. payload)) (OneWay_Send svc kControl t)"

definition own_hello :: "OneWaySyncConfig \<Rightarrow> Hello" where
  "own_hello c = \<lparr>hello_task_id = oc_task_id c, hello_role = oc_role c, hello_device_id = oc_device_id c,
     hello_device_fingerprint = oc_device_fingerprint c, hello_authorization_digest = oc_authorization_digest c\<rparr>"

definition OneWay_SendManifest :: "'t Services \<Rightarrow> ('t, unit) ow_op" where
  "OneWay_SendManifest svc = bindS (getS sr_source_manifest) (\<lambda>m. send_message svc kManifest (EncodeManifest m))"

definition RefreshSource :: "'t Services \<Rightarrow> ('t, unit) ow_op" where
  "RefreshSource svc =
     bindS (getS ow_config) (\<lambda>config.
     thenS (guardS (oc_role config \<noteq> kSource) (Logic_error ''only source nodes may scan local changes''))
    (bindS (scan_task svc (oc_task_root config)) (\<lambda>snapshot.
     thenS (reconcile_task svc (oc_task_id config) (oc_device_id config) snapshot)
    (thenS (offer_snapshot (svc_native svc (oc_task_root config)) snapshot)
    (bindS (getS ow_received_hello) (\<lambda>received.
     if received then OneWay_SendManifest svc else returnS ()))))))"

definition OneWay_Start :: "'t Services \<Rightarrow> ('t, unit) ow_op" where
  "OneWay_Start svc =
     bindS (getS (\<lambda>s. s)) (\<lambda>s.
     if ow_started s then returnS ()
     else thenS (modifyS (\<lambda>s. s\<lparr>ow_started := True\<rparr>))
      (thenS (if oc_role (ow_config s) = kSource then RefreshSource svc else returnS ())
        (send_message svc kHello (EncodeHello (own_hello (ow_config s))))))"

section \<open>Serving files\<close>

definition with_upload :: "nat \<Rightarrow> (UploadSession, 'a) op \<Rightarrow> ('t, 'a) ow_op" where
  "with_upload i m =
     zoomS (\<lambda>s. let u = pu_session (ow_uploads s ! i) in u\<lparr>up_source := (fst (up_source u), sn_files s)\<rparr>)
       (\<lambda>u s. s\<lparr>sn_files := snd (up_source u), ow_uploads := (ow_uploads s)[i := (ow_uploads s ! i)\<lparr>pu_session := u\<rparr>]\<rparr>) m"

text \<open>The body of the loop over the uploads; the result says whether the upload was erased.\<close>

definition pump_upload :: "'t Services \<Rightarrow> nat \<Rightarrow> ('t, bool) ow_op" where
  "pump_upload svc i =
     bindS (getS (\<lambda>s. svc_buffered svc kBulk (ow_transport s))) (\<lambda>buffered.
     bindS (with_upload i (NextForTransport (svc_blake3 svc) buffered)) (\<lambda>next.
     bindS (getS (\<lambda>s. HasPending (pu_session (ow_uploads s ! i)))) (\<lambda>pending.
     thenS (case next of
         Some send \<Rightarrow>
          bindS (liftS (\<lambda>_. DecodeFrameView (ps_wire send))) (\<lambda>frame.
          thenS (guardS (frame_type frame \<noteq> kChunk) (Logic_error ''upload scheduler emitted a non-chunk frame''))
         (thenS (tally (\<lambda>x. x\<lparr>ts_chunks_sent := ts_chunks_sent x + 1,
              ts_bulk_bytes_sent := ts_bulk_bytes_sent x + word_of_nat (length (ps_wire send))\<rparr>))
           (the_transport (svc_send svc (ps_channel send) (ps_wire send)))))
       | None \<Rightarrow> if pending then tally (\<lambda>x. x\<lparr>ts_backpressure_pauses := ts_backpressure_pauses x + 1\<rparr>) else returnS ())
     (if pending then returnS False
      else thenS (modifyS (\<lambda>s. s\<lparr>ow_uploads := erase_at i (ow_uploads s)\<rparr>)) (returnS True)))))"

text \<open>The loop visits each upload once: an iteration either erases its upload or moves on to the next.\<close>

primrec pump_uploads :: "'t Services \<Rightarrow> nat \<Rightarrow> nat \<Rightarrow> ('t, unit) ow_op" where
  "pump_uploads svc 0 i = returnS ()"
| "pump_uploads svc (Suc n) i =
     bindS (pump_upload svc i) (\<lambda>erased. pump_uploads svc n (if erased then i else Suc i))"

definition HandleFileRequest :: "'t Services \<Rightarrow> FileRequest \<Rightarrow> ('t, unit) ow_op" where
  "HandleFileRequest svc request =
     bindS (getS (\<lambda>s. find_source (request_file_hash request) (sn_source_files s))) (\<lambda>source.
     case source of
       None \<Rightarrow> send_message svc kCancel (EncodeCancel \<lparr>cancel_transfer_id = request_transfer_id request, cancel_reason = ''source_missing''\<rparr>)
     | Some f \<Rightarrow>
        thenS (modifyS (\<lambda>s. s\<lparr>ow_uploads := filter (\<lambda>u. pu_transfer_id u \<noteq> request_transfer_id request) (ow_uploads s)\<rparr>))
       (bindS (open_session f request) (\<lambda>session.
        bindS (with_session (QueueRequested (svc_blake3 svc) request) session) (\<lambda>(queued, session').
        case queued of
          Inl _ \<Rightarrow> send_message svc kCancel (EncodeCancel \<lparr>cancel_transfer_id = request_transfer_id request, cancel_reason = ''source_changed''\<rparr>)
        | Inr _ \<Rightarrow> modifyS (\<lambda>s. s\<lparr>ow_uploads := ow_uploads s @
             [\<lparr>pu_transfer_id = request_transfer_id request, pu_session = session'\<rparr>]\<rparr>)))))"

section \<open>Downloads\<close>

definition with_receiver :: "nat \<Rightarrow> (DownloadReceiver, 'a) op \<Rightarrow> ('t, 'a) ow_op" where
  "with_receiver i m =
     zoomS (\<lambda>s. (ad_receiver (ow_downloads s ! i))\<lparr>dr_database := sn_database s, dr_files := sn_files s\<rparr>)
       (\<lambda>r s. s\<lparr>sn_database := dr_database r, sn_files := dr_files r,
          ow_downloads := (ow_downloads s)[i := (ow_downloads s ! i)\<lparr>ad_receiver := r\<rparr>]\<rparr>) m"

abbreviation update_download :: "nat \<Rightarrow> (ActiveDownload \<Rightarrow> ActiveDownload) \<Rightarrow> ('t, unit) ow_op" where
  "update_download i f \<equiv> modifyS (\<lambda>s. s\<lparr>ow_downloads := (ow_downloads s)[i := f (ow_downloads s ! i)]\<rparr>)"

definition PersistDownloadChunks :: "'t Services \<Rightarrow> nat \<Rightarrow> ('t, unit) ow_op" where
  "PersistDownloadChunks svc i =
     bindS (getS (\<lambda>s. ad_dirty_chunks (ow_downloads s ! i))) (\<lambda>dirty.
     if dirty = [] then returnS ()
     else bindS (NowMilliseconds svc) (\<lambda>now.
       thenS (with_receiver i (PersistAcceptedChunks dirty now))
         (update_download i (\<lambda>d. d\<lparr>ad_durable_chunks := ad_durable_chunks d + length dirty, ad_dirty_chunks := [], ad_dirty_bytes := 0\<rparr>))))"

definition persist_pending :: "'t Services \<Rightarrow> bool \<Rightarrow> nat \<Rightarrow> ('t, unit) ow_op" where
  "persist_pending svc force i =
     bindS (getS (\<lambda>s. ad_dirty_bytes (ow_downloads s ! i))) (\<lambda>dirty.
     if force \<or> kPersistBatchBytes \<le> dirty then PersistDownloadChunks svc i else returnS ())"

definition PersistPendingDownloads :: "'t Services \<Rightarrow> bool \<Rightarrow> ('t, unit) ow_op" where
  "PersistPendingDownloads svc force =
     bindS (getS (\<lambda>s. length (ow_downloads s))) (\<lambda>n. forS (persist_pending svc force) [0..<n])"

text \<open>The record of a file or directory that came from the peer.\<close>

definition peer_record :: "OneWaySyncConfig \<Rightarrow> string \<Rightarrow> FileKind \<Rightarrow> u64 \<Rightarrow> bytes \<Rightarrow> string \<Rightarrow> FileRecord" where
  "peer_record config relative_path kind bytes hash version =
     \<lparr>fr_task_id = oc_task_id config, fr_relative_path = relative_path, fr_kind = kind, fr_size = bytes, fr_mtime_ns = 0,
      fr_content_hash = hash, fr_version_id = version, fr_origin_device_id = oc_peer_device_id config,
      fr_logical_clock = 0, fr_deleted_at_ms = None\<rparr>"

definition CommitDownload :: "'t Services \<Rightarrow> nat \<Rightarrow> ('t, unit) ow_op" where
  "CommitDownload svc i =
     bindS (NowMilliseconds svc) (\<lambda>now.
     thenS (with_receiver i (DownloadReceiver_Commit (svc_blake3 svc) now))
    (thenS (tally (\<lambda>x. x\<lparr>ts_files_committed := ts_files_committed x + 1\<rparr>))
    (bindS (NewUuidV4 svc) (\<lambda>version.
     bindS (getS (\<lambda>s. (ow_config s, ow_downloads s ! i))) (\<lambda>(config, d).
     node_db (UpsertFileRecord (peer_record config (me_relative_path (ad_entry d)) fkFile (me_size (ad_entry d)) (ad_hash d) version)))))))"

definition accept_into :: "'t Services \<Rightarrow> Chunk \<Rightarrow> nat \<Rightarrow> ('t, unit) ow_op" where
  "accept_into svc chunk i =
     (let index = chunk_offset chunk div logical_chunk in
      bindS (NowMilliseconds svc) (\<lambda>now.
      bindS (with_receiver i (AcceptChunk (svc_blake3 svc) index (chunk_offset chunk) (chunk_bytes chunk) (chunk_chunk_hash chunk) now False)) (\<lambda>accepted.
      if \<not> accepted then returnS ()
      else
        thenS (tally (\<lambda>x. x\<lparr>ts_chunks_received := ts_chunks_received x + 1\<rparr>))
       (thenS (update_download i (\<lambda>d. if index \<in> set (ad_dirty_chunks d) then d
            else d\<lparr>ad_dirty_chunks := ad_dirty_chunks d @ [index], ad_dirty_bytes := ad_dirty_bytes d + length (chunk_bytes chunk)\<rparr>))
       (bindS (getS (\<lambda>s. ow_downloads s ! i)) (\<lambda>d.
        thenS (if kPersistBatchBytes \<le> ad_dirty_bytes d \<or> ad_durable_chunks d + length (ad_dirty_chunks d) = unat (ad_chunk_count d)
               then PersistDownloadChunks svc i else returnS ())
       (bindS (getS (\<lambda>s. ow_downloads s ! i)) (\<lambda>d.
        if ad_durable_chunks d \<noteq> unat (ad_chunk_count d) then returnS ()
        else thenS (CommitDownload svc i) (modifyS (\<lambda>s. s\<lparr>ow_downloads := erase_at i (ow_downloads s)\<rparr>))))))))))"

definition OneWay_AcceptChunk :: "'t Services \<Rightarrow> Chunk \<Rightarrow> ('t, unit) ow_op" where
  "OneWay_AcceptChunk svc chunk =
     bindS (getS (\<lambda>s. find_position (\<lambda>d. ad_transfer_id d = chunk_transfer_id chunk \<and> ad_hash d = chunk_file_hash chunk) (ow_downloads s))) (\<lambda>position.
     case position of
       None \<Rightarrow> throwS (Invalid_argument ''chunk does not belong to an active download'')
     | Some i \<Rightarrow> accept_into svc chunk i)"

definition cancel_download :: "'t Services \<Rightarrow> Cancel \<Rightarrow> nat \<Rightarrow> ('t, unit) ow_op" where
  "cancel_download svc cancel i =
     bindS (NowMilliseconds svc) (\<lambda>now.
     thenS (with_receiver i (DownloadReceiver_Cancel cancel now))
       (modifyS (\<lambda>s. s\<lparr>ow_downloads := erase_at i (ow_downloads s), ow_last_error := Some (cancel_reason cancel)\<rparr>)))"

definition HandleCancel :: "'t Services \<Rightarrow> Cancel \<Rightarrow> ('t, unit) ow_op" where
  "HandleCancel svc cancel =
     bindS (getS (\<lambda>s. s)) (\<lambda>s.
     if oc_role (ow_config s) = kTarget then
       (case find_position (\<lambda>d. ad_transfer_id d = cancel_transfer_id cancel) (ow_downloads s) of
          None \<Rightarrow> throwS (Invalid_argument ''cancel does not match an active download'')
        | Some i \<Rightarrow> cancel_download svc cancel i)
     else modifyS (\<lambda>s. s\<lparr>ow_uploads := filter (\<lambda>u. pu_transfer_id u \<noteq> cancel_transfer_id cancel) (ow_uploads s)\<rparr>))"

section \<open>Following a manifest\<close>

definition TargetAlreadyHas :: "'t Services \<Rightarrow> ManifestEntry \<Rightarrow> ('t, bool) ow_op" where
  "TargetAlreadyHas svc entry =
     bindS (getS ow_config) (\<lambda>config.
     bindS (node_files (ResolveTaskPath (svc_canonical svc) (oc_task_root config) (me_relative_path entry))) (\<lambda>path.
     bindS (node_tables (FindFileRecord (oc_task_id config) (me_relative_path entry))) (\<lambda>found.
     if IsDirectoryEntry entry then
       bindS (node_files (sys_symlink_status path)) (\<lambda>status.
       returnS ((case found of None \<Rightarrow> False | Some r \<Rightarrow> fr_kind r = fkDirectory) \<and> status = stDirectory))
     else
       bindS (liftS (\<lambda>_. DecodeHash (me_content_hash entry))) (\<lambda>hash.
       if (case found of None \<Rightarrow> True | Some r \<Rightarrow> fr_kind r \<noteq> fkFile \<or> fr_size r \<noteq> me_size entry \<or> fr_content_hash r \<noteq> hash)
       then returnS False
       else bindS (node_files (sys_status path)) (\<lambda>status.
         if status \<noteq> stRegular then returnS False
         else bindS (node_files (Blake3File (svc_blake3 svc) path)) (\<lambda>digest. returnS (digest = hash)))))))"

definition delete_absent :: "'t Services \<Rightarrow> string list \<Rightarrow> FileRecord \<Rightarrow> ('t, unit) ow_op" where
  "delete_absent svc source_paths r =
     (if fr_kind r = fkTombstone \<or> fr_relative_path r \<in> set source_paths then returnS ()
      else
       bindS (getS (\<lambda>s. (ow_config s, ow_writer s))) (\<lambda>(config, writer).
       thenS (if fr_kind r = fkFile
              then thenS (node_files (RemoveFile writer (fr_relative_path r))) (tally (\<lambda>x. x\<lparr>ts_files_deleted := ts_files_deleted x + 1\<rparr>))
              else node_files (RemoveEmptyDirectory writer (fr_relative_path r)))
      (bindS (NewUuidV4 svc) (\<lambda>version.
       bindS (NowMilliseconds svc) (\<lambda>now.
       node_db (RecordTombstone (oc_task_id config) (fr_relative_path r) version (oc_peer_device_id config) 0 now))))))"

text \<open>
  The records from the longest path to the shortest, so that a directory comes after what is in it; paths of
  equal length keep the order of the query here, which the standard library leaves open.
\<close>

definition DeleteFilesAbsentFrom :: "'t Services \<Rightarrow> Manifest \<Rightarrow> ('t, unit) ow_op" where
  "DeleteFilesAbsentFrom svc manifest =
     bindS (getS (\<lambda>s. oc_task_id (ow_config s))) (\<lambda>task_id.
     bindS (node_tables (ListFileRecords task_id)) (\<lambda>records.
     forS (delete_absent svc (map me_relative_path (manifest_entries manifest)))
       (sort_key (\<lambda>r. - int (length (fr_relative_path r))) records)))"

definition write_empty :: "'t Services \<Rightarrow> ManifestEntry \<Rightarrow> ('t, unit) ow_op" where
  "write_empty svc entry =
     bindS (getS (\<lambda>s. (ow_config s, ow_writer s))) (\<lambda>(config, writer).
     thenS (node_files (WriteAtomically writer (me_relative_path entry) []))
    (thenS (tally (\<lambda>x. x\<lparr>ts_files_committed := ts_files_committed x + 1\<rparr>))
    (bindS (liftS (\<lambda>_. DecodeHash (me_content_hash entry))) (\<lambda>hash.
     bindS (NewUuidV4 svc) (\<lambda>version.
     node_db (UpsertFileRecord (peer_record config (me_relative_path entry) fkFile 0 hash version)))))))"

text \<open>The transfer to continue, or a new one; an old partial file without a transfer is discarded first.\<close>

definition choose_transfer :: "'t Services \<Rightarrow> string \<Rightarrow> bytes \<Rightarrow> ('t, TransferId) ow_op" where
  "choose_transfer svc relative_path hash =
     bindS (getS (\<lambda>s. (ow_config s, ow_writer s))) (\<lambda>(config, writer).
     bindS (node_tables (FindActiveDownloadTransfer (oc_task_id config) (oc_peer_device_id config) relative_path hash)) (\<lambda>active.
     case active of
       Some t \<Rightarrow> returnS (tr_transfer_id t)
     | None \<Rightarrow>
        bindS (NewTransferId svc) (\<lambda>transfer_id.
        thenS (node_files (DiscardPartial writer relative_path))
       (bindS (NowMilliseconds svc) (\<lambda>created.
        bindS (NowMilliseconds svc) (\<lambda>updated.
        thenS (node_db (CreateTransfer \<lparr>tr_transfer_id = transfer_id, tr_task_id = oc_task_id config,
            tr_peer_device_id = oc_peer_device_id config, tr_direction = ''download'', tr_file_hash = hash, tr_state = ''active'',
            tr_created_at_ms = created, tr_updated_at_ms = updated, tr_relative_path = relative_path\<rparr>))
         (returnS transfer_id)))))))"

definition new_receiver :: "TransferId \<Rightarrow> string \<Rightarrow> u64 \<Rightarrow> bytes \<Rightarrow> u64 \<Rightarrow> ('t, DownloadReceiver) ow_op" where
  "new_receiver transfer_id relative_path bytes hash chunks =
     liftS (\<lambda>s. DownloadReceiver_new (sn_database s) (sn_files s) transfer_id (ow_writer s) relative_path bytes hash chunks)"

text \<open>A receiver that is not among the downloads.\<close>

definition on_receiver :: "(DownloadReceiver, 'a) op \<Rightarrow> DownloadReceiver \<Rightarrow> ('t, 'a) ow_op" where
  "on_receiver m r s =
     (case m (r\<lparr>dr_database := sn_database s, dr_files := sn_files s\<rparr>) of
        (x, r') \<Rightarrow> (x, s\<lparr>sn_database := dr_database r', sn_files := dr_files r'\<rparr>))"

definition BeginDownload :: "'t Services \<Rightarrow> ManifestEntry \<Rightarrow> ('t, unit) ow_op" where
  "BeginDownload svc entry =
     (if me_size entry = 0 then write_empty svc entry
      else
       bindS (liftS (\<lambda>_. DecodeHash (me_content_hash entry))) (\<lambda>hash.
       bindS (getS (\<lambda>s. \<exists>d \<in> set (ow_downloads s). me_relative_path (ad_entry d) = me_relative_path entry \<and> ad_hash d = hash)) (\<lambda>existing.
       if existing then returnS ()
       else
        bindS (choose_transfer svc (me_relative_path entry) hash) (\<lambda>transfer_id.
        let chunks = ChunkCount (me_size entry) in
        bindS (new_receiver transfer_id (me_relative_path entry) (me_size entry) hash chunks) (\<lambda>receiver.
        bindS (on_receiver ResumeRequest receiver) (\<lambda>request.
        if missing_ranges request = [] then
          bindS (NowMilliseconds svc) (\<lambda>now.
          thenS (on_receiver (DownloadReceiver_Commit (svc_blake3 svc) now) receiver)
         (bindS (NewUuidV4 svc) (\<lambda>version.
          bindS (getS ow_config) (\<lambda>config.
          node_db (UpsertFileRecord (peer_record config (me_relative_path entry) fkFile (me_size entry) hash version))))))
        else
          bindS (getS (\<lambda>s. length (CompletedTransferChunks transfer_id (db_tables (sn_database s))))) (\<lambda>durable.
          thenS (modifyS (\<lambda>s. s\<lparr>ow_downloads := ow_downloads s @ [\<lparr>ad_entry = entry, ad_hash = hash, ad_transfer_id = transfer_id,
              ad_chunk_count = chunks, ad_receiver = receiver, ad_durable_chunks = durable, ad_dirty_bytes = 0, ad_dirty_chunks = []\<rparr>]\<rparr>))
           (send_message svc kFileRequest (EncodeFileRequest request)))))))))"

definition check_entry :: "'t Services \<Rightarrow> ManifestEntry \<Rightarrow> ('t, unit) ow_op" where
  "check_entry svc entry =
     bindS (getS (\<lambda>s. oc_task_root (ow_config s))) (\<lambda>task_root.
     thenS (node_files (ResolveTaskPath (svc_canonical svc) task_root (me_relative_path entry)))
     (if IsDirectoryEntry entry then returnS ()
      else thenS (liftS (\<lambda>_. DecodeHash (me_content_hash entry))) (returnS ())))"

definition apply_entry :: "'t Services \<Rightarrow> ManifestEntry \<Rightarrow> ('t, unit) ow_op" where
  "apply_entry svc entry =
     bindS (TargetAlreadyHas svc entry) (\<lambda>present.
     if present then returnS ()
     else if IsDirectoryEntry entry then
       bindS (getS (\<lambda>s. (ow_config s, ow_writer s))) (\<lambda>(config, writer).
       thenS (node_files (EnsureDirectory writer (me_relative_path entry)))
      (bindS (NewUuidV4 svc) (\<lambda>version.
       node_db (UpsertFileRecord (peer_record config (me_relative_path entry) fkDirectory 0 [] version)))))
     else BeginDownload svc entry)"

definition ApplyManifest :: "'t Services \<Rightarrow> Manifest \<Rightarrow> ('t, unit) ow_op" where
  "ApplyManifest svc manifest =
     thenS (forS (check_entry svc) (manifest_entries manifest))
    (thenS (guardS (\<not> distinct (map me_relative_path (manifest_entries manifest)))
       (Invalid_argument ''manifest contains duplicate paths''))
    (thenS (modifyS (\<lambda>s. s\<lparr>ow_last_error := None, ow_received_manifest := Some manifest\<rparr>))
    (thenS (DeleteFilesAbsentFrom svc manifest)
     (forS (apply_entry svc) (manifest_entries manifest)))))"

section \<open>Receiving\<close>

definition accept_hello :: "'t Services \<Rightarrow> Hello \<Rightarrow> ('t, unit) ow_op" where
  "accept_hello svc hello =
     bindS (getS ow_config) (\<lambda>config.
     thenS (guardS (hello_task_id hello \<noteq> oc_task_id config \<or> hello_device_id hello \<noteq> oc_peer_device_id config \<or>
         hello_authorization_digest hello \<noteq> oc_authorization_digest config \<or> \<not> OneWay_RolesCompatible (oc_role config) (hello_role hello))
       (Invalid_argument ''unauthorized_peer''))
    (thenS (modifyS (\<lambda>s. s\<lparr>ow_received_hello := True\<rparr>))
     (if oc_role config = kSource
      then thenS (send_message svc kHello (EncodeHello (own_hello config))) (OneWay_SendManifest svc)
      else returnS ())))"

definition dispatch :: "'t Services \<Rightarrow> Frame \<Rightarrow> ('t, unit) ow_op" where
  "dispatch svc frame =
     bindS (getS (\<lambda>s. oc_role (ow_config s))) (\<lambda>role.
     case frame_type frame of
       kManifest \<Rightarrow>
        thenS (guardS (role \<noteq> kTarget) (Invalid_argument ''unexpected_manifest''))
          (bindS (liftS (\<lambda>_. DecodeManifest (frame_payload frame))) (ApplyManifest svc))
     | kFileRequest \<Rightarrow>
        thenS (guardS (role \<noteq> kSource) (Invalid_argument ''unexpected_file_request''))
          (bindS (liftS (\<lambda>_. DecodeFileRequest (frame_payload frame))) (HandleFileRequest svc))
     | kChunk \<Rightarrow>
        thenS (guardS (role \<noteq> kTarget) (Invalid_argument ''unexpected_chunk''))
          (bindS (liftS (\<lambda>_. DecodeChunk (svc_blake3 svc) (frame_payload frame))) (OneWay_AcceptChunk svc))
     | kCancel \<Rightarrow> bindS (liftS (\<lambda>_. DecodeCancel (frame_payload frame))) (HandleCancel svc)
     | _ \<Rightarrow> throwS (Invalid_argument ''unexpected_frame''))"

definition receive_wire :: "'t Services \<Rightarrow> Channel \<Rightarrow> bytes \<Rightarrow> ('t, unit) ow_op" where
  "receive_wire svc channel wire =
     thenS (if channel = kControl then tally (\<lambda>x. x\<lparr>ts_control_bytes_received := ts_control_bytes_received x + word_of_nat (length wire)\<rparr>)
            else tally (\<lambda>x. x\<lparr>ts_bulk_bytes_received := ts_bulk_bytes_received x + word_of_nat (length wire)\<rparr>))
    (bindS (liftS (\<lambda>_. DecodeFrameView wire)) (\<lambda>frame.
     thenS (guardS (\<not> IsAllowedOn channel (frame_type frame)) (Invalid_argument ''wrong_channel''))
     (if frame_type frame = kHello then bindS (liftS (\<lambda>_. DecodeHello (frame_payload frame))) (accept_hello svc)
      else bindS (getS (\<lambda>s. ow_started s \<and> ow_received_hello s)) (\<lambda>known.
        thenS (guardS (\<not> known) (Invalid_argument ''unauthorized_peer'')) (dispatch svc frame)))))"

definition OneWay_Receive :: "'t Services \<Rightarrow> Channel \<Rightarrow> bytes \<Rightarrow> ('t, unit) ow_op" where
  "OneWay_Receive svc channel wire =
     catchS (receive_wire svc channel wire) (\<lambda>e. modifyS (\<lambda>s. s\<lparr>ow_last_error := Some (what e)\<rparr>))"

definition OneWay_Pump :: "'t Services \<Rightarrow> ('t, unit) ow_op" where
  "OneWay_Pump svc =
     bindS (getS (\<lambda>s. s)) (\<lambda>s.
     if oc_role (ow_config s) = kTarget then PersistPendingDownloads svc False
     else pump_uploads svc (length (ow_uploads s)) 0)"

text \<open>The destructor makes what has been received durable and ignores a failure to do so.\<close>

definition OneWaySyncNode_destroy :: "'t Services \<Rightarrow> ('t, unit) ow_op" where
  "OneWaySyncNode_destroy svc = catchS (PersistPendingDownloads svc True) (\<lambda>_. returnS ())"

end
