(* ===== verification/Confined_Files.thy ===== *)
theory Confined_Files
  imports File_Writer_Properties
begin

text \<open>
  The writer stays below its task root.  When no entry below the root is a link, every operation of
  \<^verbatim>\<open>engine/storage/safe_file_writer.cpp\<close> changes entries strictly below the root only and makes no link,
  whatever relative path it is given and whatever system calls fail.  The synchronisation nodes build on
  this: what a peer sends cannot make them touch anything else.
\<close>

definition confined :: "path \<Rightarrow> (path \<Rightarrow> node option) \<Rightarrow> FileSystem \<Rightarrow> bool" where
  "confined root nodes s \<longleftrightarrow> real_dirs nodes root \<and>
     (\<forall>q. \<not> strict_prefix root q \<longrightarrow> node_at s q = nodes q) \<and>
     (\<forall>q x. strict_prefix root q \<longrightarrow> node_at s q \<noteq> Some (Symlink x))"

text \<open>A writer of the task at \<open>root\<close>.\<close>

definition writer_for :: "path \<Rightarrow> SafeFileWriter \<Rightarrow> bool" where
  "writer_for root w \<longleftrightarrow> wr_canonical w (wr_task_root w) = Some root \<and> canonical_root root"

abbreviation keeps_confined :: "path \<Rightarrow> (path \<Rightarrow> node option) \<Rightarrow> (FileSystem, 'a) op \<Rightarrow> bool" where
  "keeps_confined root nodes m \<equiv> keepsS (confined root nodes) m"

lemma below_root: "strict_prefix root p \<longleftrightarrow> (\<exists>cs. cs \<noteq> [] \<and> p = root @ cs)"
  by (auto simp: strict_prefix_def prefix_def)

lemma confined_dirs: "confined root nodes s \<Longrightarrow> real_dirs (node_at s) root"
  unfolding confined_def real_dirs_def by (metis prefix_order.leD take_is_prefix)

text \<open>Without links below the root, a walk ends where it says or nowhere.\<close>

lemma walk_plain:
  assumes "\<forall>c x. prefix c cs \<longrightarrow> c \<noteq> [] \<longrightarrow> nodes (cur @ c) \<noteq> Some (Symlink x)"
  shows "walk k nodes cur cs \<in> {At (cur @ cs), Missing}"
  using assms
proof (induction cs arbitrary: cur)
  case (Cons c cs)
  have here: "nodes (cur @ [c]) \<noteq> Some (Symlink x)" for x using Cons.prems [rule_format, of "[c]"] by simp
  have "walk k nodes (cur @ [c]) cs \<in> {At ((cur @ [c]) @ cs), Missing}"
    using Cons.prems [rule_format, of "c # _"] by (intro Cons.IH) auto
  then show ?case using here by (auto split: option.splits node.splits)
qed simp

lemma confined_walk:
  assumes "confined root nodes s"
  shows "walk k (node_at s) [] (root @ cs) \<in> {At (root @ cs), Missing}"
proof -
  have "walk k (node_at s) root cs \<in> {At (root @ cs), Missing}"
    using assms by (intro walk_plain) (simp add: confined_def below_root)
  then show ?thesis using walk_real [OF confined_dirs [OF assms]] by simp
qed

lemma confined_real_path:
  assumes "confined root nodes s" "strict_prefix root p" "real_path s p = At q"
  shows "q = p"
proof -
  obtain cs where "p = root @ cs" using assms(2) by (auto simp: below_root)
  then show ?thesis using assms(3) confined_walk [OF assms(1), of kMaxReparse cs] by (simp add: real_path_def)
qed

lemma confined_entry_path:
  assumes "confined root nodes s" "strict_prefix root p" "entry_path s p = At q"
  shows "q = p"
proof -
  obtain cs where cs: "cs \<noteq> []" "p = root @ cs" using assms(2) by (auto simp: below_root)
  then have parts: "butlast p = root @ butlast cs" "last p = last cs" by (simp_all add: butlast_append)
  have "walk kMaxReparse (node_at s) [] (butlast p) \<in> {At (butlast p), Missing}"
    using confined_walk [OF assms(1)] unfolding parts by blast
  then have "q = butlast p @ [last p]" using assms(3) by (auto simp: entry_path_def split: if_splits)
  moreover have "p \<noteq> []" using cs by simp
  ultimately show ?thesis by simp
qed

lemma confined_faults [simp]: "confined root nodes (s\<lparr>fs_faults := fs\<rparr>) = confined root nodes s"
  "confined root nodes (s\<lparr>fs_serial := n\<rparr>) = confined root nodes s"
  by (simp_all add: confined_def)

lemma confined_set:
  "confined root nodes s \<Longrightarrow> strict_prefix root p \<Longrightarrow> \<forall>x. n \<noteq> Symlink x \<Longrightarrow> confined root nodes (set_node p n s)"
  by (auto simp: confined_def)

lemma confined_del: "confined root nodes s \<Longrightarrow> strict_prefix root p \<Longrightarrow> confined root nodes (del_node p s)"
  by (auto simp: confined_def)

section \<open>System calls\<close>

lemma keepsS_wp: "keepsS P m \<longleftrightarrow> (\<forall>s. P s \<longrightarrow> wp m (\<lambda>_. P) s)"
  by (simp add: keepsS_def wp_def)

lemma confined_reads [intro, simp]:
  "keeps_confined root nodes next_fault" "keeps_confined root nodes (sys_symlink_status p)"
  "keeps_confined root nodes (sys_status p)" "keeps_confined root nodes (sys_open p)"
  "keeps_confined root nodes sys_flush" "keeps_confined root nodes (sys_file_size p)"
  "keeps_confined root nodes (Blake3File blake3 p)"
  by (auto simp: keepsS_wp intro!: wp_next_fault wp_symlink_status wp_status wp_open wp_flush wp_file_size wp_Blake3File)

lemma confined_at:
  assumes "confined root nodes s" "strict_prefix root p" "entry_path s p = At q \<or> real_path s p = At q"
  shows "\<forall>x. n \<noteq> Symlink x \<Longrightarrow> confined root nodes (set_node q n (s\<lparr>fs_faults := fs\<rparr>))"
    and "confined root nodes (del_node q (s\<lparr>fs_faults := fs\<rparr>))"
proof -
  have "q = p" using assms confined_entry_path confined_real_path by blast
  then show "\<forall>x. n \<noteq> Symlink x \<Longrightarrow> confined root nodes (set_node q n (s\<lparr>fs_faults := fs\<rparr>))"
    "confined root nodes (del_node q (s\<lparr>fs_faults := fs\<rparr>))"
    using assms(1,2) by (simp_all add: confined_set confined_del)
qed

lemma confined_changes:
  assumes "strict_prefix root p"
  shows "keeps_confined root nodes (sys_create_directory p)" "keeps_confined root nodes (sys_create_file p)"
    "keeps_confined root nodes (sys_write p off bs)" "keeps_confined root nodes (sys_remove p)"
  unfolding keepsS_wp
  by (auto intro!: wp_create_directory wp_create_file wp_write wp_remove intro: confined_at [OF _ assms])

lemma confined_move:
  assumes "strict_prefix root p" "strict_prefix root q"
  shows "keeps_confined root nodes (sys_move replace_existing p q)"
proof -
  have "confined root nodes (set_node r n (del_node u (s\<lparr>fs_faults := fs\<rparr>)))"
    if "confined root nodes s" "entry_path s p = At u" "entry_path s q = At r" "node_at s u = Some n" for s u r n fs
  proof -
    have "u = p" "r = q" using confined_entry_path that(1-3) assms by blast+
    moreover have "\<forall>x. n \<noteq> Symlink x" using that(1,4) \<open>u = p\<close> assms(1) by (auto simp: confined_def)
    ultimately show ?thesis using that(1) assms by (intro confined_set confined_del) simp_all
  qed
  then show ?thesis unfolding keepsS_wp by (auto intro!: wp_move)
qed

section \<open>Operations of the writer\<close>

lemma keepsS_if: "(b \<Longrightarrow> keepsS P m) \<Longrightarrow> (\<not> b \<Longrightarrow> keepsS P n) \<Longrightarrow> keepsS P (if b then m else n)"
  by simp

lemma keepsS_option:
  "(x = None \<Longrightarrow> keepsS P m) \<Longrightarrow> (\<And>y. x = Some y \<Longrightarrow> keepsS P (f y)) \<Longrightarrow> keepsS P (case x of None \<Rightarrow> m | Some y \<Rightarrow> f y)"
  by (cases x) simp_all

lemma keepsS_zoomed:
  assumes "keepsS P m" "\<And>s. Q s \<Longrightarrow> P (get s)" "\<And>s t. Q s \<Longrightarrow> P t \<Longrightarrow> Q (put t s)"
  shows "keepsS Q (zoomS get put m)"
  using assms by (simp add: keepsS_def zoomS_def case_prod_beta)

lemmas keeps_steps = keepsS_bind keepsS_then keepsS_if keepsS_option keepsS_return keepsS_throw keepsS_get keepsS_lift
  keepsS_guard keepsS_catch keepsS_for

lemma keepsS_bind_when:
  assumes "keepsS P m" "\<And>s. P s \<Longrightarrow> wp m (\<lambda>r _. \<forall>x. r = Inr x \<longrightarrow> R x) s" "\<And>x. R x \<Longrightarrow> keepsS P (f x)"
  shows "keepsS P (bindS m f)"
  unfolding keepsS_wp
proof (intro allI impI)
  fix s assume s: "P s"
  obtain r t where run: "m s = (r, t)" by fastforce
  have "P t" using keepsD [OF assms(1) s] run by simp
  moreover have "\<forall>x. r = Inr x \<longrightarrow> R x" using assms(2) [OF s] run by (simp add: wp_def)
  ultimately show "wp (bindS m f) (\<lambda>_. P) s"
    using assms(3) run by (cases r) (simp_all add: wp_def bindS_def keepsS_def)
qed

lemma confined_resolve:
  assumes w: "writer_for root w" and f: "\<And>p. strict_prefix root p \<Longrightarrow> keeps_confined root nodes (f p)"
  shows "keeps_confined root nodes (bindS (resolve w rel) f)"
proof (rule keepsS_bind_when [where R = "strict_prefix root"])
  note known = w [unfolded writer_for_def]
  show "keeps_confined root nodes (resolve w rel)"
    unfolding keepsS_wp by (intro allI impI wp_resolve [of w root]) (use known in simp_all)
  show "wp (resolve w rel) (\<lambda>r _. \<forall>x. r = Inr x \<longrightarrow> strict_prefix root x) s" for s
    by (rule wp_resolve [of w root]) (use known in \<open>simp_all add: below_root safe_relative_def\<close>)
qed (rule f)

lemma below_sibling: "strict_prefix root p \<Longrightarrow> strict_prefix root (butlast p @ [c])"
  by (auto simp: below_root butlast_append)

lemma ensure_component_confined:
  assumes "q \<noteq> []" "prefix q root \<or> strict_prefix root q"
  shows "keeps_confined root nodes (ensure_component q)"
  unfolding keepsS_wp
proof (intro allI impI)
  fix s assume s: "confined root nodes s"
  show "wp (ensure_component q) (\<lambda>_. confined root nodes) s"
  proof (cases "strict_prefix root q")
    case True
    have "keeps_confined root nodes (ensure_component q)"
      unfolding ensure_component_def by (intro keeps_steps confined_reads confined_changes True)
    with s show ?thesis by (simp add: keepsS_wp)
  next
    case False
    with assms(2) have q: "prefix q root" by simp
    then obtain d c where dc: "q = d @ [c]" "prefix (d @ [c]) root" using assms(1) by (metis rev_exhaust)
    have "real_dirs (node_at s) q"
      using confined_dirs [OF s] q real_dirs_append unfolding prefix_def by blast
    then have "status_of s (entry_path s q) = stDirectory" using dc(1) by (simp add: status_of_def)
    then show ?thesis
      unfolding ensure_component_def wp_bind using s by (intro wp_symlink_status) simp_all
  qed
qed

lemma ensure_loop_confined:
  assumes "\<And>c. c \<noteq> [] \<Longrightarrow> prefix c cs \<Longrightarrow> prefix (cur @ c) root \<or> strict_prefix root (cur @ c)"
  shows "keeps_confined root nodes (ensure_loop cur cs)"
  using assms
proof (induction cs arbitrary: cur)
  case (Cons c cs)
  have "keeps_confined root nodes (ensure_component (cur @ [c]))"
    using Cons.prems [of "[c]"] by (intro ensure_component_confined) simp_all
  moreover have "keeps_confined root nodes (ensure_loop (cur @ [c]) cs)"
    using Cons.prems [of "c # _"] by (intro Cons.IH) simp
  ultimately show ?case by auto
qed auto

lemma EnsureSafeDirectory_confined:
  assumes "prefix root d"
  shows "keeps_confined root nodes (EnsureSafeDirectory d)"
  unfolding EnsureSafeDirectory_def
proof (rule ensure_loop_confined)
  fix c assume "prefix c (drop 1 d)"
  then have "prefix (take 1 d @ c) d" using prefix_append same_prefix_prefix append_take_drop_id by metis
  then show "prefix (take 1 d @ c) root \<or> strict_prefix root (take 1 d @ c)"
    using assms prefix_same_cases unfolding strict_prefix_def by blast
qed

lemma EnsureSafeDirectory_parent:
  "strict_prefix root p \<Longrightarrow> keeps_confined root nodes (EnsureSafeDirectory (butlast p))"
  by (rule EnsureSafeDirectory_confined) (auto simp: below_root butlast_append)

lemma confined_steps [intro]:
  "keeps_confined root nodes (RejectSymlink p m)" "keeps_confined root nodes (FlushPartFile p)"
  "keeps_confined root nodes (exists_throwing p)"
  unfolding RejectSymlink_def FlushPartFile_def exists_throwing_def by (intro keeps_steps confined_reads)+

lemma CommitPart_confined:
  "strict_prefix root p \<Longrightarrow> strict_prefix root q \<Longrightarrow> keeps_confined root nodes (CommitPart p q)"
  unfolding CommitPart_def by (intro keeps_steps confined_move)

lemma remove_or_throw_confined: "strict_prefix root p \<Longrightarrow> keeps_confined root nodes (remove_or_throw p m)"
  unfolding remove_or_throw_def by (intro keeps_steps confined_changes)

lemma part_below: "strict_prefix root p \<Longrightarrow> strict_prefix root (ResumablePartPath p)"
  by (simp add: ResumablePartPath_def below_sibling)

lemma write_part_confined:
  "strict_prefix root p \<Longrightarrow> strict_prefix root q \<Longrightarrow> keeps_confined root nodes (write_part p q bytes)"
  unfolding write_part_def by (intro keeps_steps CommitPart_confined confined_changes confined_steps)

text \<open>Every operation of the writer, on any relative path.\<close>

lemma WriteAtomically_confined:
  assumes "writer_for root w"
  shows "keeps_confined root nodes (WriteAtomically w rel bytes)"
  unfolding WriteAtomically_def
proof (rule confined_resolve [OF assms])
  fix p assume p: "strict_prefix root p"
  have part: "keeps_confined root nodes (bindS (MakePartPath p) f)" if "\<And>q. strict_prefix root q \<Longrightarrow> keeps_confined root nodes (f q)" for f :: "path \<Rightarrow> (FileSystem, unit) op"
    by (rule keepsS_bind_when [where R = "strict_prefix root"])
      (use that p in \<open>simp_all add: keepsS_wp wp_def MakePartPath_def below_sibling\<close>)
  show "keeps_confined root nodes (thenS (EnsureSafeDirectory (butlast p))
      (thenS (RejectSymlink p ''destination file must not be a symlink'')
        (bindS (MakePartPath p) (\<lambda>part. catchS (write_part part p bytes) (\<lambda>e. thenS (sys_remove part) (throwS e))))))"
    using p by (intro keepsS_then EnsureSafeDirectory_parent confined_steps part keepsS_catch write_part_confined confined_changes keepsS_throw)
qed

lemma writer_confined:
  assumes "writer_for root w"
  shows "keeps_confined root nodes (WritePartialChunk w rel off bytes flush)" "keeps_confined root nodes (FlushPartial w rel)"
    "keeps_confined root nodes (DiscardPartial w rel)" "keeps_confined root nodes (CommitPartial blake3 w rel n h)"
    "keeps_confined root nodes (RemoveFile w rel)" "keeps_confined root nodes (EnsureDirectory w rel)"
    "keeps_confined root nodes (RemoveEmptyDirectory w rel)"
proof -
  note below = keeps_steps confined_reads confined_steps confined_changes EnsureSafeDirectory_parent part_below CommitPart_confined
    remove_or_throw_confined
  show "keeps_confined root nodes (WritePartialChunk w rel off bytes flush)"
    unfolding WritePartialChunk_def Let_def by (intro confined_resolve [OF assms] below)
  show "keeps_confined root nodes (FlushPartial w rel)"
    unfolding FlushPartial_def Let_def by (intro confined_resolve [OF assms] below)
  show "keeps_confined root nodes (DiscardPartial w rel)"
    unfolding DiscardPartial_def Let_def by (intro confined_resolve [OF assms] below)
  show "keeps_confined root nodes (CommitPartial blake3 w rel n h)"
    unfolding CommitPartial_def Let_def by (intro confined_resolve [OF assms] below)
  show "keeps_confined root nodes (RemoveFile w rel)"
    unfolding RemoveFile_def by (intro confined_resolve [OF assms] below)
  show "keeps_confined root nodes (EnsureDirectory w rel)"
    unfolding EnsureDirectory_def
    by (intro confined_resolve [OF assms] below EnsureSafeDirectory_confined) (simp add: strict_prefix_def)
  show "keeps_confined root nodes (RemoveEmptyDirectory w rel)"
    unfolding RemoveEmptyDirectory_def by (intro confined_resolve [OF assms] below)
qed

lemma MoveFileToConflict_confined:
  assumes "writer_for root w"
  shows "keeps_confined root nodes (MoveFileToConflict w rel rel')"
  unfolding MoveFileToConflict_def
  by (intro confined_resolve [OF assms] keeps_steps confined_reads confined_steps EnsureSafeDirectory_parent confined_move)

end
