(* ===== verification/File_Reads.thy ===== *)
theory File_Reads
  imports Sync_Node Confined_Files
begin

text \<open>
  What the reading half of a node does to the files: nothing but use up scheduled failures.  A property of the
  file system that does not look at the schedule is the interface (\<open>fault_blind\<close>); loading rules, scanning,
  answering a file request and reading chunks keep every such property.  It is interpreted for "the entries are
  \<open>nodes\<close>" and for "what is outside the task root is as before".
\<close>

locale fault_blind =
  fixes F :: "FileSystem \<Rightarrow> bool"
  assumes blind: "F (s\<lparr>fs_faults := fs\<rparr>) = F s"
begin

lemma reads:
  "keepsS F next_fault" "keepsS F (sys_symlink_status p)" "keepsS F (sys_status p)" "keepsS F (sys_open p)"
  "keepsS F sys_flush" "keepsS F (sys_file_size p)" "keepsS F (Blake3File blake3 p)"
  unfolding keepsS_wp
  by (auto simp: blind intro!: wp_next_fault wp_symlink_status wp_status wp_open wp_flush wp_file_size wp_Blake3File)

lemma read_at: "keepsS F (read_at p off len)"
  unfolding read_at_def by (intro keeps_steps reads)

lemma LoadFile: "keepsS F (LoadFile root rules)"
  unfolding LoadFile_def Let_def by (intro keeps_steps reads)

lemma zoomed: "keepsS F m \<Longrightarrow> keepsS (\<lambda>g. F (sg_files g)) (scan_files m)"
  by (erule keepsS_zoomed) simp_all

lemma scan_entry: "keepsS (\<lambda>g. F (sg_files g)) (scan_entry blake3 view rules root p)"
proof -
  have "keepsS (\<lambda>g. F (sg_files g)) (read_stamp view p)" by (simp add: keepsS_def read_stamp_def)
  then show ?thesis
    unfolding scan_entry_def Let_def last_write_time_def by (intro keeps_steps zoomed reads)
qed

lemma scan_loop: "keepsS (\<lambda>g. F (sg_files g)) (scan_loop blake3 view rules root ps)"
  by (induction ps) (auto intro!: keeps_steps zoomed reads scan_entry)

lemma Scan: "keepsS (\<lambda>g. F (sg_files g)) (Scan blake3 canonical view rules root)"
  unfolding Scan_def by (intro keeps_steps zoomed reads scan_loop)

lemma scan_task: "keepsS (\<lambda>s. F (sn_files s)) (scan_task svc root)"
proof -
  have "keepsS (\<lambda>s. F (sn_files s)) (node_files (LoadFile p rules))" for p rules
    by (rule keepsS_zoomed [OF LoadFile]) simp_all
  moreover have "keepsS (\<lambda>s. F (sn_files s)) (zoomS (\<lambda>s. \<lparr>sg_files = sn_files s, sg_readings = sn_calls s\<rparr>)
      (\<lambda>g s. s\<lparr>sn_files := sg_files g, sn_calls := sg_readings g\<rparr>) (Scan blake3 canonical view rules root))" for blake3 canonical view rules
    by (rule keepsS_zoomed [OF Scan]) simp_all
  ultimately show ?thesis unfolding scan_task_def by (intro keeps_steps)
qed

lemma source_files: "keepsS F m \<Longrightarrow> keepsS (\<lambda>u. F (snd u)) (on_files m)"
  by (erule keepsS_zoomed) simp_all

lemma source_update: "keepsS (\<lambda>u. F (snd u)) (update_source f)"
  by (rule keepsS_modify) simp

lemma ValidateRequest: "keepsS (\<lambda>u. F (snd u)) (ValidateRequest blake3 request)"
  unfolding ValidateRequest_def by (intro keeps_steps source_files reads)

lemma ReadChunk: "keepsS (\<lambda>u. F (snd u)) (ReadChunk blake3 index)"
  unfolding ReadChunk_def open_stream_def Let_def
  by (intro keeps_steps source_files reads read_at source_update)

lemma session_source: "keepsS (\<lambda>u. F (snd u)) m \<Longrightarrow> keepsS (\<lambda>u. F (snd (up_source u))) (on_source m)"
  by (erule keepsS_zoomed) simp_all

lemma QueueRequested: "keepsS (\<lambda>u. F (snd (up_source u))) (QueueRequested blake3 request)"
  unfolding QueueRequested_def by (intro keeps_steps session_source ValidateRequest keepsS_modify) simp

lemma scheduler_next: "keepsS (\<lambda>u. F (snd (up_source u))) (scheduler_next buffered)"
  by (simp add: keepsS_def scheduler_next_def split: prod.splits)

lemma NextForTransport: "keepsS (\<lambda>u. F (snd (up_source u))) (NextForTransport blake3 buffered)"
proof -
  have queue: "keepsS (\<lambda>u. F (snd (up_source u))) (\<lambda>s. case SendScheduler_Enqueue p (up_scheduler s) of
      Inl e \<Rightarrow> (Inl e, s) | Inr q \<Rightarrow> (Inr (), s\<lparr>up_scheduler := q\<rparr>))" for p
    by (simp add: keepsS_def split: sum.splits)
  show ?thesis
    unfolding NextForTransport_def
    by (intro keeps_steps scheduler_next)
      (auto split: list.splits intro!: keeps_steps scheduler_next session_source ReadChunk keepsS_modify queue)
qed

lemma with_session:
  assumes "keepsS (\<lambda>u. F (snd (up_source u))) m"
  shows "keepsS (\<lambda>s. F (sn_files s)) (with_session m session)"
  using assms by (simp add: keepsS_def with_session_def case_prod_beta)

end

interpretation same_entries: fault_blind "\<lambda>s. node_at s = nodes" for nodes
  by unfold_locales simp

interpretation outside_root: fault_blind "confined root nodes" for root nodes
  by unfold_locales simp

end
