(* ===== verification/One_Way_Properties.thy ===== *)
theory One_Way_Properties
  imports One_Way_Sync File_Reads
begin

text \<open>
  What a peer can and cannot do to a one-way node: nothing before it has identified itself, nothing to the
  files and records of a source, and to a target only what lies below its task root.
\<close>

section \<open>A source is never written\<close>

lemma guard_throws: "thenS (guardS True e) m = throwS e"
  by (simp add: fun_eq_iff op_defs)

lemma guard_passes: "thenS (guardS False e) m = m"
  by (simp add: fun_eq_iff op_defs)

text \<open>Everything of a source that its peer must not change.\<close>

definition source_kept :: "'t OneWaySyncNode \<Rightarrow> 't OneWaySyncNode \<Rightarrow> bool" where
  "source_kept s t \<longleftrightarrow> oc_role (ow_config s) = kSource \<and> ow_config t = ow_config s \<and> node_at (sn_files t) = node_at (sn_files s) \<and>
     sn_database t = sn_database s \<and> sn_source_files t = sn_source_files s \<and> sr_source_manifest t = sr_source_manifest s \<and>
     ow_downloads t = ow_downloads s \<and> ow_received_manifest t = ow_received_manifest s"

lemma source_kept_fields:
  "source_kept s (t\<lparr>ow_last_error := a\<rparr>) = source_kept s t" "source_kept s (t\<lparr>ow_statistics := b\<rparr>) = source_kept s t"
  "source_kept s (t\<lparr>ow_transport := c\<rparr>) = source_kept s t" "source_kept s (t\<lparr>ow_uploads := d\<rparr>) = source_kept s t"
  "source_kept s (t\<lparr>ow_next_request_id := e\<rparr>) = source_kept s t" "source_kept s (t\<lparr>ow_received_hello := f\<rparr>) = source_kept s t"
  "source_kept s (t\<lparr>sn_calls := g\<rparr>) = source_kept s t"
  by (simp_all add: source_kept_def)

abbreviation keeps_source :: "'t OneWaySyncNode \<Rightarrow> ('t OneWaySyncNode, 'a) op \<Rightarrow> bool" where
  "keeps_source s m \<equiv> keepsS (source_kept s) m"

lemma keeps_source_basic:
  "keeps_source s (tally f)" "keeps_source s (the_transport m)"
  "keeps_source s (modifyS (\<lambda>s. s\<lparr>ow_next_request_id := f1 s\<rparr>))" "keeps_source s (modifyS (\<lambda>s. s\<lparr>ow_uploads := f2 s\<rparr>))"
  "keeps_source s (modifyS (\<lambda>s. s\<lparr>ow_received_hello := f3 s\<rparr>))" "keeps_source s (modifyS (\<lambda>s. s\<lparr>ow_last_error := f4 s\<rparr>))"
  by (simp_all add: keepsS_modify keepsS_zoom source_kept_fields)

lemma keeps_source_Send: "keeps_source s (OneWay_Send svc channel t payload)"
  unfolding OneWay_Send_def by (intro keeps_steps keeps_source_basic)

lemma keeps_source_SendManifest: "keeps_source s (OneWay_SendManifest svc)"
  unfolding OneWay_SendManifest_def by (intro keeps_steps keeps_source_Send)

lemma keeps_source_files:
  assumes "\<And>nodes. keepsS (\<lambda>u. node_at (sn_files u) = nodes) m" "\<And>u. \<exists>f. snd (m u) = u\<lparr>sn_files := f\<rparr>"
  shows "keeps_source s m"
  unfolding keepsS_def
proof (intro allI impI)
  fix u assume u: "source_kept s u"
  obtain f where f: "snd (m u) = u\<lparr>sn_files := f\<rparr>" using assms(2) by blast
  have "node_at (sn_files (snd (m u))) = node_at (sn_files u)"
    using keepsD [OF assms(1) refl, of u] .
  then show "source_kept s (snd (m u))" using u f by (simp add: source_kept_def)
qed

lemma keeps_source_session:
  "(\<And>nodes. keepsS (\<lambda>u. node_at (snd (up_source u)) = nodes) m) \<Longrightarrow> keeps_source s (with_session m session)"
  by (rule keeps_source_files) (auto simp: with_session_def case_prod_beta intro: same_entries.with_session)

lemma keeps_source_HandleFileRequest: "keeps_source s (HandleFileRequest svc request)"
proof -
  have "keeps_source s (open_session f request)" for f by (simp add: open_session_def)
  then show ?thesis
    unfolding HandleFileRequest_def
    by (intro keeps_steps keeps_source_Send keeps_source_basic)
      (auto split: sum.splits intro!: keeps_steps keeps_source_Send keeps_source_basic keeps_source_session same_entries.QueueRequested)
qed

lemma keepsS_bind_get:
  assumes "\<And>s. P s \<Longrightarrow> keepsS P (k (f s))"
  shows "keepsS P (bindS (getS f) k)"
  by (rule keepsS_bind_when [where R = "\<lambda>x. keepsS P (k x)"]) (use assms in simp_all)

lemma keeps_source_HandleCancel: "keeps_source s (HandleCancel svc cancel)"
  unfolding HandleCancel_def
proof (rule keepsS_bind_get, goal_cases)
  case (1 u)
  then have "oc_role (ow_config u) = kSource" by (simp add: source_kept_def)
  then show ?case by (simp add: keeps_source_basic)
qed

lemma keeps_source_dispatch: "keeps_source s (dispatch svc frame)"
  unfolding dispatch_def
proof (rule keepsS_bind_get, goal_cases)
  case (1 u)
  then have role: "oc_role (ow_config u) = kSource" by (simp add: source_kept_def)
  show ?case
    unfolding role
    by (cases "frame_type frame")
      (simp_all add: guard_throws guard_passes keepsS_bind keeps_source_HandleFileRequest keeps_source_HandleCancel)
qed

lemma keeps_source_Receive: "keeps_source s (OneWay_Receive svc channel wire)"
proof -
  have hello: "keeps_source s (accept_hello svc hello)" for hello
    unfolding accept_hello_def by (intro keeps_steps keeps_source_basic keeps_source_Send keeps_source_SendManifest)
  show ?thesis
    unfolding OneWay_Receive_def receive_wire_def
    by (intro keeps_steps keeps_source_basic hello keeps_source_dispatch)
qed

lemma keeps_source_with_upload:
  assumes "\<And>nodes. keepsS (\<lambda>u. node_at (snd (up_source u)) = nodes) m"
  shows "keeps_source s (with_upload i m)"
  unfolding with_upload_def Let_def
proof (rule keepsS_zoomed [where P = "\<lambda>u. node_at (snd (up_source u)) = node_at (sn_files s)"])
  show "source_kept s t \<Longrightarrow> node_at (snd (up_source ((pu_session (ow_uploads t ! i))\<lparr>up_source :=
      (fst (up_source (pu_session (ow_uploads t ! i))), sn_files t)\<rparr>))) = node_at (sn_files s)" for t
    by (simp add: source_kept_def)
qed (simp_all add: assms source_kept_def)

lemma keeps_source_Pump: "keeps_source s (OneWay_Pump svc)"
proof -
  have upload: "keeps_source s (pump_upload svc i)" for i
    unfolding pump_upload_def
    by (intro keeps_steps keeps_source_basic keeps_source_with_upload same_entries.NextForTransport)
  have "keeps_source s (pump_uploads svc n i)" for n i
    by (induction n arbitrary: i) (auto intro!: keeps_steps upload)
  then show ?thesis
    unfolding OneWay_Pump_def by (intro keepsS_bind_get) (auto simp: source_kept_def)
qed

section \<open>A peer that has not identified itself\<close>

definition authorised_peer :: "OneWaySyncConfig \<Rightarrow> Channel \<Rightarrow> bytes \<Rightarrow> bool" where
  "authorised_peer config channel wire \<longleftrightarrow> (case DecodeFrameView wire of Inl _ \<Rightarrow> False | Inr frame \<Rightarrow>
     IsAllowedOn channel (frame_type frame) \<and> frame_type frame = kHello \<and>
     (case DecodeHello (frame_payload frame) of Inl _ \<Rightarrow> False | Inr hello \<Rightarrow>
        hello_task_id hello = oc_task_id config \<and> hello_device_id hello = oc_peer_device_id config \<and>
        hello_authorization_digest hello = oc_authorization_digest config \<and>
        OneWay_RolesCompatible (oc_role config) (hello_role hello)))"

lemma unknown_peer_frame:
  assumes "\<not> ow_received_hello s" "\<not> authorised_peer (ow_config s) channel wire"
  shows "\<exists>e x. OneWay_Receive svc channel wire s = (Inr (), s\<lparr>ow_statistics := x, ow_last_error := Some e\<rparr>)"
proof (cases "DecodeFrameView wire")
  case (Inl e)
  then show ?thesis by (auto simp: OneWay_Receive_def receive_wire_def op_defs)
next
  case (Inr frame)
  show ?thesis
  proof (cases "IsAllowedOn channel (frame_type frame) \<and> frame_type frame = kHello")
    case True
    then show ?thesis
      using assms(2) Inr
      by (cases "DecodeHello (frame_payload frame)")
        (auto simp: OneWay_Receive_def receive_wire_def accept_hello_def authorised_peer_def op_defs)
  next
    case False
    then show ?thesis
      using assms(1) Inr by (auto simp: OneWay_Receive_def receive_wire_def op_defs)
  qed
qed

definition receive_all :: "'t Services \<Rightarrow> (Channel \<times> bytes) list \<Rightarrow> 't OneWaySyncNode \<Rightarrow> 't OneWaySyncNode" where
  "receive_all svc frames = fold (\<lambda>(channel, wire) s. snd (OneWay_Receive svc channel wire s)) frames"

text \<open>
  A peer that never presents a matching hello achieves nothing.  Whatever frames it sends on either
  channel, a node that has not yet accepted a hello keeps its files, database, uploads, downloads, manifest and
  request numbers, sends nothing and accepts nothing; only its error text and its byte counters change.
\<close>

theorem one_way_unknown_peer:
  assumes "\<not> ow_received_hello s" "\<forall>(channel, wire) \<in> set frames. \<not> authorised_peer (ow_config s) channel wire"
  shows "\<exists>e x. receive_all svc frames s = s\<lparr>ow_statistics := x, ow_last_error := e\<rparr>"
  using assms
proof (induction frames arbitrary: s)
  case Nil
  show ?case by (rule exI [of _ "ow_last_error s"], rule exI [of _ "ow_statistics s"]) (simp add: receive_all_def)
next
  case (Cons f frames)
  obtain channel wire where f: "f = (channel, wire)" by fastforce
  obtain e x where step: "OneWay_Receive svc channel wire s = (Inr (), s\<lparr>ow_statistics := x, ow_last_error := Some e\<rparr>)"
    using unknown_peer_frame [of s channel wire svc] Cons.prems f by auto
  have "\<exists>e' x'. receive_all svc frames (s\<lparr>ow_statistics := x, ow_last_error := Some e\<rparr>) =
      s\<lparr>ow_statistics := x, ow_last_error := Some e\<rparr>\<lparr>ow_statistics := x', ow_last_error := e'\<rparr>"
    using Cons.prems by (intro Cons.IH) simp_all
  then obtain e' x' where "receive_all svc frames (s\<lparr>ow_statistics := x, ow_last_error := Some e\<rparr>) = s\<lparr>ow_statistics := x', ow_last_error := e'\<rparr>"
    by auto
  then show ?case using step f by (intro exI [of _ e'] exI [of _ x']) (simp add: receive_all_def)
qed

section \<open>A target stays below its root\<close>

definition leadsS :: "('s \<Rightarrow> bool) \<Rightarrow> ('s \<Rightarrow> bool) \<Rightarrow> ('s, 'a) op \<Rightarrow> bool" where
  "leadsS P Q m \<longleftrightarrow> (\<forall>s. P s \<longrightarrow> Q (snd (m s)))"

lemma leads_keep: "keepsS P m \<Longrightarrow> (\<And>s. P s \<Longrightarrow> Q s) \<Longrightarrow> leadsS P Q m"
  by (simp add: leadsS_def keepsS_def)

lemma leads_bind:
  assumes "keepsS P m" "\<And>s. P s \<Longrightarrow> Q s" "\<And>x. leadsS P Q (f x)"
  shows "leadsS P Q (bindS m f)"
  unfolding leadsS_def
proof (intro allI impI)
  fix s assume s: "P s"
  obtain r t where run: "m s = (r, t)" by fastforce
  have "P t" using keepsD [OF assms(1) s] run by simp
  then show "Q (snd (bindS m f s))"
    using assms(2,3) run by (cases r) (simp_all add: bindS_def leadsS_def)
qed

lemma leads_then: "keepsS P m \<Longrightarrow> (\<And>s. P s \<Longrightarrow> Q s) \<Longrightarrow> leadsS P Q n \<Longrightarrow> leadsS P Q (thenS m n)"
  unfolding thenS_def by (rule leads_bind)

lemma leads_if: "(b \<Longrightarrow> leadsS P Q m) \<Longrightarrow> (\<not> b \<Longrightarrow> leadsS P Q n) \<Longrightarrow> leadsS P Q (if b then m else n)"
  by simp

lemma leads_modify: "(\<And>s. P s \<Longrightarrow> Q (f s)) \<Longrightarrow> leadsS P Q (modifyS f)"
  by (simp add: leadsS_def modifyS_def)

lemma keeps_via_get:
  assumes "\<And>s. P s \<Longrightarrow> \<exists>P'. P' s \<and> leadsS P' P (k (f s))"
  shows "keepsS P (bindS (getS f) k)"
  using assms by (auto simp: keepsS_def leadsS_def bindS_def getS_def)

text \<open>The node, with the number of its downloads.\<close>

definition ow_safe :: "path \<Rightarrow> (path \<Rightarrow> node option) \<Rightarrow> SafeFileWriter \<Rightarrow> nat \<Rightarrow> 't OneWaySyncNode \<Rightarrow> bool" where
  "ow_safe root nodes w n s \<longleftrightarrow> confined root nodes (sn_files s) \<and> ow_writer s = w \<and> length (ow_downloads s) = n \<and>
     (\<forall>d \<in> set (ow_downloads s). dr_writer (ad_receiver d) = w)"

definition ow_confined :: "path \<Rightarrow> (path \<Rightarrow> node option) \<Rightarrow> SafeFileWriter \<Rightarrow> 't OneWaySyncNode \<Rightarrow> bool" where
  "ow_confined root nodes w s \<longleftrightarrow> (\<exists>n. ow_safe root nodes w n s)"

lemma confined_any: "(\<And>n. keepsS (ow_safe root nodes w n) m) \<Longrightarrow> keepsS (ow_confined root nodes w) m"
  by (auto simp: keepsS_def ow_confined_def)

lemma safe_fields:
  "ow_safe root nodes w n (t\<lparr>ow_last_error := a\<rparr>) = ow_safe root nodes w n t" "ow_safe root nodes w n (t\<lparr>ow_statistics := b\<rparr>) = ow_safe root nodes w n t"
  "ow_safe root nodes w n (t\<lparr>ow_transport := c\<rparr>) = ow_safe root nodes w n t" "ow_safe root nodes w n (t\<lparr>ow_uploads := d\<rparr>) = ow_safe root nodes w n t"
  "ow_safe root nodes w n (t\<lparr>ow_next_request_id := e\<rparr>) = ow_safe root nodes w n t" "ow_safe root nodes w n (t\<lparr>ow_received_hello := f\<rparr>) = ow_safe root nodes w n t"
  "ow_safe root nodes w n (t\<lparr>sn_calls := g\<rparr>) = ow_safe root nodes w n t" "ow_safe root nodes w n (t\<lparr>sn_database := h\<rparr>) = ow_safe root nodes w n t"
  "ow_safe root nodes w n (t\<lparr>sn_source_files := i\<rparr>) = ow_safe root nodes w n t" "ow_safe root nodes w n (t\<lparr>sr_source_manifest := j\<rparr>) = ow_safe root nodes w n t"
  "ow_safe root nodes w n (t\<lparr>ow_received_manifest := k\<rparr>) = ow_safe root nodes w n t" "ow_safe root nodes w n (t\<lparr>ow_started := l\<rparr>) = ow_safe root nodes w n t"
  "ow_safe root nodes w n (t\<lparr>sn_manifest_revision := m\<rparr>) = ow_safe root nodes w n t"
  by (simp_all add: ow_safe_def)

lemma safe_basic:
  "keepsS (ow_safe root nodes w n) (tally x1)" "keepsS (ow_safe root nodes w n) (the_transport x2)"
  "keepsS (ow_safe root nodes w n) (modifyS (\<lambda>s. s\<lparr>ow_next_request_id := f1 s\<rparr>))" "keepsS (ow_safe root nodes w n) (modifyS (\<lambda>s. s\<lparr>ow_uploads := f2 s\<rparr>))"
  "keepsS (ow_safe root nodes w n) (modifyS (\<lambda>s. s\<lparr>ow_received_hello := f3 s\<rparr>))" "keepsS (ow_safe root nodes w n) (modifyS (\<lambda>s. s\<lparr>ow_last_error := f4 s\<rparr>))"
  "keepsS (ow_safe root nodes w n) (modifyS (\<lambda>s. s\<lparr>ow_last_error := f5 s, ow_received_manifest := f6 s\<rparr>))"
  "keepsS (ow_safe root nodes w n) (modifyS (\<lambda>s. s\<lparr>ow_started := f7 s\<rparr>))"
  "keepsS (ow_safe root nodes w n) (node_db x3)" "keepsS (ow_safe root nodes w n) (NowMilliseconds svc)"
  "keepsS (ow_safe root nodes w n) (NewUuidV4 svc)" "keepsS (ow_safe root nodes w n) (NewTransferId svc)"
  by (simp_all add: keepsS_modify keepsS_zoom safe_fields NowMilliseconds_def NewUuidV4_def NewTransferId_def)
    (simp_all add: keepsS_def outside_call_def safe_fields)

lemma safe_files: "keeps_confined root nodes m \<Longrightarrow> keepsS (ow_safe root nodes w n) (node_files m)"
  by (erule keepsS_zoomed) (simp_all add: ow_safe_def)

lemma safe_resolve: "keepsS (ow_safe root nodes w n) (node_files (ResolveTaskPath canonical task_root rel))"
  unfolding ResolveTaskPath_def Let_def by (intro safe_files keeps_steps confined_reads)

lemma safe_Send: "keepsS (ow_safe root nodes w n) (OneWay_Send svc channel t payload)"
  unfolding OneWay_Send_def by (intro keeps_steps safe_basic)

lemma safe_message: "keepsS (ow_safe root nodes w n) (send_message svc t payload)"
  by (intro keeps_steps safe_Send)

subsection \<open>Receivers\<close>

definition receiver_safe :: "path \<Rightarrow> (path \<Rightarrow> node option) \<Rightarrow> SafeFileWriter \<Rightarrow> DownloadReceiver \<Rightarrow> bool" where
  "receiver_safe root nodes w r \<longleftrightarrow> confined root nodes (dr_files r) \<and> dr_writer r = w"

lemma receiver_safe_basic:
  "keepsS (receiver_safe root nodes w) (in_database m)" "keepsS (receiver_safe root nodes w) refuse_cancelled"
  "keepsS (receiver_safe root nodes w) (modifyS (\<lambda>r. r\<lparr>dr_accepted := f1 r, dr_received_bytes := f2 r\<rparr>))"
  "keepsS (receiver_safe root nodes w) (modifyS (\<lambda>r. r\<lparr>dr_cancelled := True\<rparr>))"
  unfolding refuse_cancelled_def by (intro keeps_steps keepsS_zoom keepsS_modify; simp add: receiver_safe_def)+

lemma receiver_safe_files: "keeps_confined root nodes m \<Longrightarrow> keepsS (receiver_safe root nodes w) (in_files m)"
  by (erule keepsS_zoomed) (simp_all add: receiver_safe_def)

lemma receiver_safe_calls:
  assumes w: "writer_for root w"
  shows "keepsS (receiver_safe root nodes w) (AcceptChunk blake3 i off bytes h now persist)"
    "keepsS (receiver_safe root nodes w) (PersistAcceptedChunks is now)" "keepsS (receiver_safe root nodes w) ResumeRequest"
    "keepsS (receiver_safe root nodes w) (DownloadReceiver_Cancel cancel now)"
    "keepsS (receiver_safe root nodes w) (DownloadReceiver_Commit blake3 now)"
proof -
  note steps = keeps_steps receiver_safe_basic receiver_safe_files writer_confined [OF w]
  have known: "dr_writer r = w" if "receiver_safe root nodes w r" for r using that by (simp add: receiver_safe_def)
  show "keepsS (receiver_safe root nodes w) (AcceptChunk blake3 i off bytes h now persist)"
    unfolding AcceptChunk_def Let_def
    by (rule keepsS_then [OF receiver_safe_basic(2) keepsS_bind_get]) (simp only: known, intro steps)
  show "keepsS (receiver_safe root nodes w) (PersistAcceptedChunks is now)"
    unfolding PersistAcceptedChunks_def
    by (rule keepsS_then [OF receiver_safe_basic(2) keepsS_bind_get]) (simp only: known, intro steps)
  show "keepsS (receiver_safe root nodes w) ResumeRequest" unfolding ResumeRequest_def by (intro steps)
  show "keepsS (receiver_safe root nodes w) (DownloadReceiver_Cancel cancel now)" unfolding DownloadReceiver_Cancel_def by (intro steps)
  show "keepsS (receiver_safe root nodes w) (DownloadReceiver_Commit blake3 now)"
    unfolding DownloadReceiver_Commit_def Let_def
    by (rule keepsS_then [OF receiver_safe_basic(2) keepsS_bind_get]) (simp only: known, intro steps)
qed

lemma DownloadReceiver_new_writer: "DownloadReceiver_new db fs tid w rel sz h c = Inr r \<Longrightarrow> dr_writer r = w"
  unfolding DownloadReceiver_new_def
  by (auto split: if_splits elim!: foldE_invariant [where P = "\<lambda>r. dr_writer r = w"]) (auto simp: restore_chunk_def split: if_splits)

lemma safe_with_receiver:
  assumes "keepsS (receiver_safe root nodes w) m" "i < n"
  shows "keepsS (ow_safe root nodes w n) (with_receiver i m)"
  unfolding with_receiver_def
  by (rule keepsS_zoomed [OF assms(1)])
    (use assms(2) in \<open>simp_all add: ow_safe_def receiver_safe_def all_set_conv_all_nth nth_list_update\<close>)

lemma safe_on_receiver:
  assumes "keepsS (receiver_safe root nodes w) m" "dr_writer r = w"
  shows "keepsS (ow_safe root nodes w n) (on_receiver m r)"
  using assms by (fastforce simp: keepsS_def on_receiver_def ow_safe_def receiver_safe_def case_prod_beta)

lemma safe_update_download:
  assumes "\<And>d. dr_writer (ad_receiver (f d)) = dr_writer (ad_receiver d)" "i < n"
  shows "keepsS (ow_safe root nodes w n) (update_download i f)"
  by (rule keepsS_modify) (use assms in \<open>simp add: ow_safe_def all_set_conv_all_nth nth_list_update\<close>)

lemma safe_Persist:
  assumes "writer_for root w" "i < n"
  shows "keepsS (ow_safe root nodes w n) (PersistDownloadChunks svc i)"
  unfolding PersistDownloadChunks_def
  by (intro keeps_steps safe_basic safe_with_receiver receiver_safe_calls safe_update_download assms) simp

lemma safe_CommitDownload:
  assumes "writer_for root w" "i < n"
  shows "keepsS (ow_safe root nodes w n) (CommitDownload svc i)"
  unfolding CommitDownload_def case_prod_beta
  by (intro keeps_steps safe_basic safe_with_receiver receiver_safe_calls assms)

lemma safe_erase: "ow_safe root nodes w n s \<Longrightarrow> ow_confined root nodes w (s\<lparr>ow_downloads := erase_at i (ow_downloads s)\<rparr>)"
  by (auto simp: ow_confined_def ow_safe_def erase_at_def dest: in_set_takeD in_set_dropD)

lemma safe_is_confined: "ow_safe root nodes w n s \<Longrightarrow> ow_confined root nodes w s"
  by (auto simp: ow_confined_def)

subsection \<open>The handlers of a target\<close>

lemma leads_found:
  assumes "ow_safe root nodes w n s" "\<And>i. i < n \<Longrightarrow> leadsS (ow_safe root nodes w n) (ow_confined root nodes w) (f i)"
  shows "leadsS (ow_safe root nodes w n) (ow_confined root nodes w) (case find_position P (ow_downloads s) of None \<Rightarrow> throwS e | Some i \<Rightarrow> f i)"
  using assms by (auto simp: ow_safe_def find_position_Some split: option.splits intro: leads_keep safe_is_confined)

lemma confined_found:
  assumes "ow_confined root nodes w s" "\<And>n i. i < n \<Longrightarrow> leadsS (ow_safe root nodes w n) (ow_confined root nodes w) (f i)"
  shows "\<exists>P'. P' s \<and> leadsS P' (ow_confined root nodes w) (case find_position P (ow_downloads s) of None \<Rightarrow> throwS e | Some i \<Rightarrow> f i)"
proof -
  obtain n where "ow_safe root nodes w n s" using assms(1) by (auto simp: ow_confined_def)
  then show ?thesis using leads_found [OF _ assms(2)] by (intro exI [of _ "ow_safe root nodes w n"] conjI)
qed

lemmas leads_steps = leads_bind leads_then leads_if safe_is_confined

lemma confined_AcceptChunk:
  assumes w: "writer_for root w"
  shows "keepsS (ow_confined root nodes w) (OneWay_AcceptChunk svc chunk)"
proof -
  have "leadsS (ow_safe root nodes w n) (ow_confined root nodes w) (accept_into svc chunk i)" if "i < n" for n i
    unfolding accept_into_def Let_def
    by (intro leads_steps keeps_steps safe_basic safe_with_receiver receiver_safe_calls safe_update_download safe_Persist safe_CommitDownload
        leads_keep [of _ "returnS ()"] leads_modify safe_erase w that) (simp_all split: if_splits)
  then show ?thesis
    unfolding OneWay_AcceptChunk_def
    by (intro keeps_via_get confined_found)
qed

lemma confined_HandleCancel:
  assumes w: "writer_for root w"
  shows "keepsS (ow_confined root nodes w) (HandleCancel svc cancel)"
proof -
  have erase: "ow_confined root nodes w (s\<lparr>ow_downloads := erase_at i (ow_downloads s), ow_last_error := e\<rparr>)"
    if "ow_safe root nodes w n s" for s :: "'t OneWaySyncNode" and n i e
    using safe_erase [OF that, of i] by (simp add: ow_confined_def safe_fields)
  have cancel: "leadsS (ow_safe root nodes w n) (ow_confined root nodes w) (cancel_download svc cancel i)" if "i < n" for n i
    unfolding cancel_download_def
    by (intro leads_steps safe_basic safe_with_receiver receiver_safe_calls leads_modify erase w that)
  have drop: "leadsS (ow_confined root nodes w) (ow_confined root nodes w)
      (modifyS (\<lambda>s. s\<lparr>ow_uploads := filter (\<lambda>u. pu_transfer_id u \<noteq> cancel_transfer_id cancel) (ow_uploads s)\<rparr>))"
    by (rule leads_modify) (simp add: ow_confined_def safe_fields)
  show ?thesis
    unfolding HandleCancel_def
  proof (rule keeps_via_get, goal_cases)
    case (1 s)
    then show ?case
      using confined_found [OF 1 cancel, where P = "\<lambda>d. ad_transfer_id d = cancel_transfer_id cancel"] drop
      by (cases "oc_role (ow_config s) = kTarget") auto
  qed
qed

lemma safe_TargetAlreadyHas: "keepsS (ow_safe root nodes w n) (TargetAlreadyHas svc entry)"
  unfolding TargetAlreadyHas_def by (intro keeps_steps safe_resolve safe_files confined_reads)

text \<open>A step that reads the configuration and the writer of the node.\<close>

lemma safe_get_writer:
  assumes "\<And>c. keepsS (ow_safe root nodes w n) (k c w)"
  shows "keepsS (ow_safe root nodes w n) (bindS (getS (\<lambda>s. (ow_config s, ow_writer s))) (\<lambda>(c, v). k c v))"
  by (rule keepsS_bind_get) (use assms in \<open>simp add: ow_safe_def\<close>)

lemma safe_DeleteFilesAbsentFrom:
  assumes "writer_for root w"
  shows "keepsS (ow_safe root nodes w n) (DeleteFilesAbsentFrom svc manifest)"
  unfolding DeleteFilesAbsentFrom_def delete_absent_def
  by (intro keeps_steps safe_get_writer safe_basic safe_files writer_confined assms)

lemma safe_write_empty:
  assumes "writer_for root w"
  shows "keepsS (ow_safe root nodes w n) (write_empty svc entry)"
  unfolding write_empty_def by (intro safe_get_writer keeps_steps safe_basic safe_files WriteAtomically_confined assms)

lemma safe_choose_transfer:
  assumes "writer_for root w"
  shows "keepsS (ow_safe root nodes w n) (choose_transfer svc rel hash)"
  unfolding choose_transfer_def by (intro safe_get_writer keeps_steps safe_basic safe_files writer_confined assms)

lemma confined_add_download:
  "dr_writer (ad_receiver d) = w \<Longrightarrow> keepsS (ow_confined root nodes w) (modifyS (\<lambda>s. s\<lparr>ow_downloads := ow_downloads s @ [d]\<rparr>))"
  by (rule keepsS_modify) (auto simp: ow_confined_def ow_safe_def)

lemma confined_BeginDownload:
  assumes w: "writer_for root w"
  shows "keepsS (ow_confined root nodes w) (BeginDownload svc entry)"
proof -
  have new: "keepsS (ow_confined root nodes w) (bindS (new_receiver tid rel sz h c) f)"
    if "\<And>r. dr_writer r = w \<Longrightarrow> keepsS (ow_confined root nodes w) (f r)" for tid rel sz h c and f :: "DownloadReceiver \<Rightarrow> ('t OneWaySyncNode, unit) op"
  proof (rule keepsS_bind_when [where R = "\<lambda>r. dr_writer r = w"])
    show "wp (new_receiver tid rel sz h c) (\<lambda>r _. \<forall>x. r = Inr x \<longrightarrow> dr_writer x = w) s" if "ow_confined root nodes w s" for s :: "'t OneWaySyncNode"
      using that by (auto simp: new_receiver_def ow_confined_def ow_safe_def dest: DownloadReceiver_new_writer)
  qed (simp_all add: new_receiver_def that)
  show ?thesis
    unfolding BeginDownload_def Let_def
    by (intro keeps_steps new confined_add_download confined_any safe_write_empty safe_choose_transfer safe_on_receiver receiver_safe_calls
        safe_basic safe_Send w) simp_all
qed

lemma confined_ApplyManifest:
  assumes w: "writer_for root w"
  shows "keepsS (ow_confined root nodes w) (ApplyManifest svc manifest)"
proof -
  have check: "keepsS (ow_confined root nodes w) (check_entry svc entry)" for entry
    unfolding check_entry_def by (intro keeps_steps confined_any safe_resolve)
  have dir: "keepsS (ow_safe root nodes w n) (bindS (getS (\<lambda>s. (ow_config s, ow_writer s))) (\<lambda>(config, writer).
       thenS (node_files (EnsureDirectory writer rel)) (bindS (NewUuidV4 svc) (\<lambda>version. node_db (UpsertFileRecord (f config version))))))" for n rel f
    by (intro safe_get_writer keeps_steps safe_basic safe_files writer_confined w)
  have entry: "keepsS (ow_confined root nodes w) (apply_entry svc entry)" for entry
    unfolding apply_entry_def
    by (intro keeps_steps confined_any [OF safe_TargetAlreadyHas] confined_any [OF dir] confined_BeginDownload w)
  show ?thesis
    unfolding ApplyManifest_def
    by (intro keeps_steps check entry confined_any [OF safe_basic(7)] confined_any [OF safe_DeleteFilesAbsentFrom] w)
qed

subsection \<open>The other calls\<close>

lemma safe_session:
  assumes "keepsS (\<lambda>u. confined root nodes (snd (up_source u))) m"
  shows "keepsS (ow_safe root nodes w n) (with_session m session)"
  using assms by (simp add: keepsS_def with_session_def ow_safe_def case_prod_beta)

lemma safe_with_upload:
  assumes "keepsS (\<lambda>u. confined root nodes (snd (up_source u))) m"
  shows "keepsS (ow_safe root nodes w n) (with_upload i m)"
  unfolding with_upload_def Let_def by (rule keepsS_zoomed [OF assms]) (simp_all add: ow_safe_def)

lemma safe_HandleFileRequest: "keepsS (ow_safe root nodes w n) (HandleFileRequest svc request)"
  unfolding HandleFileRequest_def open_session_def case_prod_beta
  by (intro keeps_steps safe_message safe_basic safe_session outside_root.QueueRequested)
    (auto split: sum.splits intro!: safe_basic safe_message)

lemma safe_pump_uploads: "keepsS (ow_safe root nodes w n) (pump_uploads svc k i)"
proof -
  have "keepsS (ow_safe root nodes w n) (pump_upload svc i)" for i
    unfolding pump_upload_def by (intro keeps_steps safe_basic safe_with_upload outside_root.NextForTransport)
  then show ?thesis by (induction k arbitrary: i) (auto intro!: keeps_steps)
qed

lemma confined_PersistPending:
  assumes w: "writer_for root w"
  shows "keepsS (ow_confined root nodes w) (PersistPendingDownloads svc force)"
  unfolding PersistPendingDownloads_def
proof (rule keeps_via_get, goal_cases)
  case (1 s)
  then obtain n where n: "ow_safe root nodes w n s" by (auto simp: ow_confined_def)
  then have "length (ow_downloads s) = n" by (simp add: ow_safe_def)
  moreover have "leadsS (ow_safe root nodes w n) (ow_confined root nodes w) (forS (persist_pending svc force) [0..<n])"
    unfolding persist_pending_def by (intro leads_keep keeps_steps safe_Persist w safe_is_confined) simp_all
  ultimately show ?case using n by (intro exI [of _ "ow_safe root nodes w n"]) simp
qed

lemma safe_scan_task: "keepsS (ow_safe root nodes w n) (scan_task svc task_root)"
proof -
  have "keepsS (ow_safe root nodes w n) (zoomS (\<lambda>s. \<lparr>sg_files = sn_files s, sg_readings = sn_calls s\<rparr>)
      (\<lambda>g s. s\<lparr>sn_files := sg_files g, sn_calls := sg_readings g\<rparr>) (Scan blake3 canonical view rules task_root))" for blake3 canonical view rules
    by (rule keepsS_zoomed [OF outside_root.Scan]) (simp_all add: ow_safe_def)
  then show ?thesis unfolding scan_task_def by (intro keeps_steps safe_files outside_root.LoadFile)
qed

lemma safe_RefreshSource: "keepsS (ow_safe root nodes w n) (RefreshSource svc)"
proof -
  have reconcile: "keepsS (ow_safe root nodes w n) (reconcile_task svc tid did snapshot)" for tid did snapshot
    unfolding reconcile_task_def run_reconciler_def by (intro keeps_steps safe_basic keepsS_zoom) (simp add: safe_fields)
  have offer: "keepsS (ow_safe root nodes w n) (offer_snapshot p snapshot)" for p snapshot
    unfolding offer_snapshot_def offer_entry_def
    by (intro keeps_steps keepsS_modify) (simp_all add: safe_fields)
  show ?thesis
    unfolding RefreshSource_def OneWay_SendManifest_def
    by (intro keeps_steps safe_scan_task reconcile offer safe_message)
qed

text \<open>The calls that the owner and the transport make on a node.\<close>

datatype ow_call = Call_Start | Call_Refresh | Call_Pump | Call_Receive Channel bytes | Call_Destroy

fun ow_run :: "'t Services \<Rightarrow> ow_call \<Rightarrow> ('t OneWaySyncNode, unit) op" where
  "ow_run svc Call_Start = OneWay_Start svc"
| "ow_run svc Call_Refresh = RefreshSource svc"
| "ow_run svc Call_Pump = OneWay_Pump svc"
| "ow_run svc (Call_Receive channel wire) = OneWay_Receive svc channel wire"
| "ow_run svc Call_Destroy = OneWaySyncNode_destroy svc"

definition ow_calls :: "'t Services \<Rightarrow> ow_call list \<Rightarrow> 't OneWaySyncNode \<Rightarrow> 't OneWaySyncNode" where
  "ow_calls svc calls = fold (\<lambda>c s. snd (ow_run svc c s)) calls"

lemma confined_run:
  assumes w: "writer_for root w"
  shows "keepsS (ow_confined root nodes w) (ow_run svc c)"
proof (cases c)
  case Call_Start
  have "keepsS (ow_safe root nodes w n) (OneWay_Start svc)" for n
    unfolding OneWay_Start_def by (intro keeps_steps safe_basic safe_RefreshSource safe_Send)
  then show ?thesis using Call_Start by (simp add: confined_any)
next
  case Call_Refresh
  then show ?thesis by (simp add: confined_any safe_RefreshSource)
next
  case Call_Pump
  then show ?thesis
    by (simp add: OneWay_Pump_def) (intro keeps_steps confined_PersistPending confined_any safe_pump_uploads w)
next
  case (Call_Receive channel wire)
  have hello: "keepsS (ow_safe root nodes w n) (accept_hello svc hello)" for n hello
    unfolding accept_hello_def OneWay_SendManifest_def by (intro keeps_steps safe_basic safe_Send)
  have dispatch: "keepsS (ow_confined root nodes w) (dispatch svc frame)" for frame
    unfolding dispatch_def
    by (cases "frame_type frame")
      (auto intro!: keeps_steps confined_ApplyManifest confined_any [OF safe_HandleFileRequest] confined_AcceptChunk confined_HandleCancel w)
  have "keepsS (ow_confined root nodes w) (receive_wire svc channel wire)"
    unfolding receive_wire_def
    by (intro keeps_steps confined_any [OF safe_basic(1)] confined_any [OF hello] dispatch)
  then show ?thesis
    using Call_Receive by (simp add: OneWay_Receive_def) (intro keeps_steps confined_any [OF safe_basic(6)])
next
  case Call_Destroy
  then show ?thesis by (simp add: OneWaySyncNode_destroy_def) (intro keeps_steps confined_PersistPending w)
qed

lemma confined_calls:
  assumes "writer_for root w" "ow_confined root nodes w s"
  shows "ow_confined root nodes w (ow_calls svc calls s)"
  using assms(2)
proof (induction calls arbitrary: s)
  case (Cons c calls)
  then show ?case using keepsD [OF confined_run [OF assms(1)] Cons.prems] by (simp add: ow_calls_def)
qed (simp add: ow_calls_def)

text \<open>
  C11: whatever a peer sends, a one-way node changes nothing outside its task root.  Take a node made over
  a task root that is a real directory with no links below it, and any sequence of calls: starting, rescanning,
  pumping, destroying it, and receiving any bytes at all on either channel, with any system calls failing.  Every entry
  that is not strictly below the root is as it was when the node was made, and no link appears below it.
\<close>

theorem one_way_confined:
  assumes new: "OneWaySyncNode_new svc config transport database files = Inr s"
    and root: "svc_canonical svc (oc_task_root config) = Some root" "canonical_root root" "real_dirs (node_at files) root"
    and links: "\<forall>q x. strict_prefix root q \<longrightarrow> node_at files q \<noteq> Some (Symlink x)"
    and t: "t = ow_calls svc calls s"
  shows "\<forall>q. node_at (sn_files t) q \<noteq> node_at files q \<longrightarrow>
      strict_prefix root q \<and> (\<forall>x. node_at (sn_files t) q \<noteq> Some (Symlink x))"
proof -
  obtain w files' where w: "SafeFileWriter_new (svc_canonical svc) (oc_task_root config) files = (Inr w, files')"
    and s: "ow_writer s = w" "sn_files s = files'" "ow_downloads s = []"
    using new by (auto simp: OneWaySyncNode_new_def split: prod.splits sum.splits if_splits)
  have "keeps_confined root (node_at files) (SafeFileWriter_new (svc_canonical svc) (oc_task_root config))"
    unfolding SafeFileWriter_new_def ResolveTaskPath_def Let_def by (intro keeps_steps confined_reads)
  moreover have "confined root (node_at files) files" using root(3) links by (simp add: confined_def)
  ultimately have "confined root (node_at files) files'" using w by (auto dest: keepsD)
  then have "ow_confined root (node_at files) w s" using s by (auto simp: ow_confined_def ow_safe_def)
  moreover have "w = \<lparr>wr_task_root = oc_task_root config, wr_canonical = svc_canonical svc\<rparr>"
    using w by (auto simp: SafeFileWriter_new_def thenS_def bindS_def returnS_def split: prod.splits sum.splits)
  then have "writer_for root w" using root(1,2) by (simp add: writer_for_def)
  ultimately have "ow_confined root (node_at files) w t" unfolding t by (rule confined_calls [rotated])
  then have "confined root (node_at files) (sn_files t)" by (auto simp: ow_confined_def ow_safe_def)
  then show ?thesis unfolding confined_def by blast
qed

section \<open>What the peer of a source can do\<close>

fun peer_driven :: "ow_call \<Rightarrow> bool" where
  "peer_driven Call_Pump = True"
| "peer_driven (Call_Receive _ _) = True"
| "peer_driven _ = False"

text \<open>
  C12: the peer of a source cannot write to it.  However frames and pumps follow each other, a source keeps its
  files, its database, the manifest it offers and the list of files behind it, and it starts no download.
\<close>

theorem one_way_source_read_only:
  assumes "oc_role (ow_config s) = kSource" "\<forall>c \<in> set calls. peer_driven c" "t = ow_calls svc calls s"
  shows "node_at (sn_files t) = node_at (sn_files s) \<and> sn_database t = sn_database s \<and>
    sn_source_files t = sn_source_files s \<and> sr_source_manifest t = sr_source_manifest s \<and> ow_downloads t = ow_downloads s"
proof -
  have "source_kept s (ow_calls svc calls u)" if "source_kept s u" "\<forall>c \<in> set calls. peer_driven c" for u
    using that
  proof (induction calls arbitrary: u)
    case (Cons c calls)
    have "source_kept s (snd (ow_run svc c u))"
      using Cons.prems keepsD [OF keeps_source_Pump] keepsD [OF keeps_source_Receive]
      by (cases c) (auto simp del: split_paired_All)
    then show ?case using Cons.IH Cons.prems(2) by (simp add: ow_calls_def)
  qed (simp add: ow_calls_def)
  then have "source_kept s t" using assms by (simp add: source_kept_def)
  then show ?thesis by (simp add: source_kept_def)
qed

section \<open>Manifests that are refused\<close>

definition sound_entry :: "ManifestEntry \<Rightarrow> bool" where
  "sound_entry e \<longleftrightarrow> safe_relative (me_relative_path e) \<and> (IsDirectoryEntry e \<or> (\<exists>h. DecodeHash (me_content_hash e) = Inr h))"

definition sound_manifest :: "Manifest \<Rightarrow> bool" where
  "sound_manifest m \<longleftrightarrow> (\<forall>e \<in> set (manifest_entries m). sound_entry e) \<and> distinct (map me_relative_path (manifest_entries m))"

definition only_faults :: "'t OneWaySyncNode \<Rightarrow> 't OneWaySyncNode \<Rightarrow> bool" where
  "only_faults s t \<longleftrightarrow> (\<exists>fs. t = s\<lparr>sn_files := (sn_files s)\<lparr>fs_faults := fs\<rparr>\<rparr>)"

lemma only_faults_refl: "only_faults s s"
  unfolding only_faults_def by (rule exI [of _ "fs_faults (sn_files s)"]) simp

lemma only_faults_trans: "only_faults s t \<Longrightarrow> only_faults t u \<Longrightarrow> only_faults s u"
  by (auto simp: only_faults_def)

lemma wp_check_entry:
  assumes "svc_canonical svc (oc_task_root (ow_config s)) = Some root" "canonical_root root"
  shows "wp (check_entry svc e) (\<lambda>r t. only_faults s t \<and> (r = Inr () \<longrightarrow> sound_entry e)) s"
proof -
  let ?w = "\<lparr>wr_task_root = oc_task_root (ow_config s), wr_canonical = svc_canonical svc\<rparr>"
  have "wp (resolve ?w (me_relative_path e)) (\<lambda>r f. onward (\<lambda>r t. only_faults s t \<and> (r = Inr () \<longrightarrow> sound_entry e))
      (\<lambda>_. wp (if IsDirectoryEntry e then returnS () else thenS (liftS (\<lambda>_. DecodeHash (me_content_hash e))) (returnS ()))
        (\<lambda>r t. only_faults s t \<and> (r = Inr () \<longrightarrow> sound_entry e))) r (s\<lparr>sn_files := f\<rparr>)) (sn_files s)"
    by (rule wp_resolve [of ?w root])
      (use assms in \<open>auto simp: only_faults_def sound_entry_def onward_def split: sum.splits\<close>)
  then show ?thesis
    unfolding check_entry_def wp_bind wp_get onward_simps wp_then wp_zoom SafeFileWriter.select_convs .
qed

lemma wp_check_entries:
  assumes "svc_canonical svc (oc_task_root (ow_config s)) = Some root" "canonical_root root"
  shows "wp (forS (check_entry svc) es) (\<lambda>r t. only_faults s t \<and> (r = Inr () \<longrightarrow> (\<forall>e \<in> set es. sound_entry e))) s"
  using assms
proof (induction es arbitrary: s)
  case Nil
  then show ?case by (simp add: only_faults_refl)
next
  case (Cons e es)
  show ?case
    unfolding forS.simps wp_then
  proof (rule wp_mono [OF wp_check_entry [OF Cons.prems]], goal_cases)
    case (1 r t)
    then have st: "only_faults s t" by simp
    then have "ow_config t = ow_config s" by (auto simp: only_faults_def)
    then have rest: "wp (forS (check_entry svc) es) (\<lambda>r u. only_faults t u \<and> (r = Inr () \<longrightarrow> (\<forall>e \<in> set es. sound_entry e))) t"
      using Cons.IH [of t] Cons.prems by simp
    show ?case
    proof (cases r)
      case (Inr x)
      then show ?thesis using 1 by (auto intro!: wp_mono [OF rest] only_faults_trans [OF st])
    qed (use st in simp)
  qed
qed

text \<open>
  A manifest is checked as a whole before anything is done with it.  When one of its paths is not a plain
  path below the task root, one of its hashes is not a hash, or a path occurs twice, it is refused, and the node
  is as before: no file, record, download, request or remembered manifest has changed.
\<close>

theorem one_way_unsound_manifest:
  assumes "svc_canonical svc (oc_task_root (ow_config s)) = Some root" "canonical_root root"
    and "\<not> sound_manifest m" "ApplyManifest svc m s = (r, t)"
  shows "(\<exists>e. r = Inl e) \<and> (\<exists>fs. t = s\<lparr>sn_files := (sn_files s)\<lparr>fs_faults := fs\<rparr>\<rparr>)"
proof -
  obtain r1 t1 where run: "forS (check_entry svc) (manifest_entries m) s = (r1, t1)" by fastforce
  from wpD [OF wp_check_entries [OF assms(1,2)] this]
  have checked: "only_faults s t1" "r1 = Inr () \<Longrightarrow> \<forall>e \<in> set (manifest_entries m). sound_entry e" by blast+
  show ?thesis
    using assms(3,4) checked run unfolding only_faults_def sound_manifest_def
    by (cases r1) (auto simp: ApplyManifest_def thenS_def bindS_def guardS_def)
qed

section \<open>Instances\<close>

definition demo_services :: "unit Services" where
  "demo_services = \<lparr>svc_blake3 = (\<lambda>b. take 32 (b @ replicate 32 0)), svc_canonical = wr_canonical demo_writer, svc_native = (\<lambda>_. demo_root),
     svc_view = demo_view, svc_now = (\<lambda>n. int n + 1), svc_steady = (\<lambda>n. int n), svc_uuid = (\<lambda>n. ''v'' @ to_string n), svc_transfer = (\<lambda>n. replicate 16 (word_of_nat n)),
     svc_send = (\<lambda>_ _. returnS ()), svc_buffered = (\<lambda>_ _. 0), svc_sqlite_fails = (\<lambda>_. False)\<rparr>"

definition demo_one_way :: "Role \<Rightarrow> OneWaySyncConfig" where
  "demo_one_way role = \<lparr>oc_task_id = ''t'', oc_role = role, oc_device_id = ''d'', oc_peer_device_id = ''p'', oc_device_fingerprint = ''f'',
     oc_authorization_digest = ''k'', oc_task_root = ''C:/task''\<rparr>"

definition demo_node :: "Role \<Rightarrow> unit OneWaySyncNode" where
  "demo_node role = \<lparr>sn_database = demo_database, sn_files = demo_fs, sn_calls = 0, sn_manifest_revision = 0, sn_source_files = [],
     sr_source_manifest = \<lparr>manifest_revision = 0, manifest_entries = []\<rparr>, ow_config = demo_one_way role, ow_transport = (),
     ow_writer = demo_writer, ow_started = False, ow_received_hello = False, ow_next_request_id = 1, ow_downloads = [], ow_uploads = [],
     ow_received_manifest = None, ow_last_error = None, ow_statistics = no_statistics\<rparr>"

lemma demo_node_new: "OneWaySyncNode_new demo_services (demo_one_way kTarget) () demo_database demo_fs = Inr (demo_node kTarget)"
proof -
  have "resolve demo_writer ''.veritassync-validation'' demo_fs = (Inr (demo_root @ path_components ''.veritassync-validation''), demo_fs)"
    unfolding resolve_ok [OF demo_facts]
    by (simp add: safe_relative_def is_rooted_def is_letter_def path_components_def check_component_def is_device_name_def to_upper_def is_control_def)
  then have "SafeFileWriter_new (wr_canonical demo_writer) ''C:/task'' demo_fs = (Inr demo_writer, demo_fs)"
    by (simp add: SafeFileWriter_new_def thenS_def bindS_def returnS_def demo_writer_def)
  then show ?thesis
    by (simp add: OneWaySyncNode_new_def demo_services_def demo_one_way_def demo_node_def)
qed

theorem one_way_unknown_peer_witness:
  "\<exists>e x. receive_all demo_services [(kControl, [1, 2, 3])] (demo_node kTarget) = (demo_node kTarget)\<lparr>ow_statistics := x, ow_last_error := e\<rparr>"
proof (rule one_way_unknown_peer)
  show "\<forall>(channel, wire) \<in> set [(kControl, [1, 2, 3])]. \<not> authorised_peer (ow_config (demo_node kTarget)) channel wire"
    by (simp add: authorised_peer_def DecodeFrameView_def kFrameHeaderSize_def)
qed (simp add: demo_node_def)

theorem one_way_confined_witness:
  "node_at (sn_files (ow_calls demo_services [Call_Start, Call_Receive kBulk [7], Call_Pump] (demo_node kTarget))) [''C:/''] = node_at demo_fs [''C:/'']"
proof -
  have "\<forall>q x. strict_prefix demo_root q \<longrightarrow> node_at demo_fs q \<noteq> Some (Symlink x)"
    by (auto simp: demo_fs_def node_at_def dest!: map_of_SomeD)
  from one_way_confined [OF demo_node_new _ demo_facts(2,4) this refl] show ?thesis
    by (fastforce simp: demo_services_def demo_one_way_def demo_writer_def demo_root_def)
qed

theorem one_way_source_read_only_witness:
  "sn_database (ow_calls demo_services [Call_Receive kControl [1], Call_Pump] (demo_node kSource)) = demo_database"
  using one_way_source_read_only [of "demo_node kSource" "[Call_Receive kControl [1], Call_Pump]" _ demo_services, OF _ _ refl]
  by (simp add: demo_node_def demo_one_way_def)

theorem one_way_unsound_manifest_witness:
  "\<exists>e. fst (ApplyManifest demo_services \<lparr>manifest_revision = 1, manifest_entries = [\<lparr>me_relative_path = ''../x'', me_size = 0, me_content_hash = []\<rparr>]\<rparr>
     (demo_node kTarget)) = Inl e"
proof -
  let ?m = "\<lparr>manifest_revision = 1, manifest_entries = [\<lparr>me_relative_path = ''../x'', me_size = 0, me_content_hash = []\<rparr>]\<rparr>"
  have "\<not> sound_manifest ?m"
    by (simp add: sound_manifest_def sound_entry_def safe_relative_def path_components_def check_component_def)
  moreover have "svc_canonical demo_services (oc_task_root (ow_config (demo_node kTarget))) = Some demo_root"
    by (simp add: demo_services_def demo_node_def demo_one_way_def demo_writer_def)
  ultimately show ?thesis using one_way_unsound_manifest [OF _ demo_facts(2) _ prod.collapse [symmetric]] by blast
qed

end
