(* ===== verification/Multi_Target_Source.thy ===== *)
theory Multi_Target_Source
  imports One_Way_Properties
begin

text \<open>
  One source that serves several targets (\<^verbatim>\<open>engine/sync/multi_target_source.cpp\<close>).  A peer is a slot of the
  list of peers; its transport is a state of its own, and the callback that the transport holds is a call of
  \<open>Multi_Receive\<close> for that slot.  The section at the end shows that the targets cannot disturb each other.
\<close>

section \<open>State\<close>

record MultiTargetSourceConfig =
  mc_task_id :: string
  mc_device_id :: string
  mc_device_fingerprint :: string
  mc_task_root :: string

record MultiTargetPeerConfig =
  mp_device_id :: string
  mp_device_fingerprint :: string
  mp_authorization_digest :: string

record MultiTargetPeerStatistics =
  ms_control_bytes_sent :: u64
  ms_bulk_bytes_sent :: u64
  ms_control_bytes_received :: u64
  ms_chunks_sent :: u64
  ms_backpressure_pauses :: u64

record 't Peer =
  pe_config :: MultiTargetPeerConfig
  pe_transport :: 't
  pe_received_hello :: bool
  pe_available :: bool
  pe_next_request_id :: u64
  pe_uploads :: "PendingUpload list"
  pe_last_error :: "string option"
  pe_statistics :: MultiTargetPeerStatistics

record 't MultiTargetSource = SourceNode +
  mt_config :: MultiTargetSourceConfig
  mt_started :: bool
  mt_snapshot_scan_count :: nat
  mt_peers :: "'t Peer list"

type_synonym ('t, 'a) mt_op = "('t MultiTargetSource, 'a) op"

definition MultiTargetSource_new :: "MultiTargetSourceConfig \<Rightarrow> Database \<Rightarrow> FileSystem \<Rightarrow> 't MultiTargetSource result" where
  "MultiTargetSource_new config database files =
     (if mc_task_id config = [] \<or> mc_device_id config = [] \<or> mc_device_fingerprint config = []
      then Inl (Invalid_argument ''multi-target source identity is incomplete'')
      else Inr \<lparr>sn_database = database, sn_files = files, sn_calls = 0, sn_manifest_revision = 0, sn_source_files = [],
        sr_source_manifest = \<lparr>manifest_revision = 0, manifest_entries = []\<rparr>, mt_config = config, mt_started = False,
        mt_snapshot_scan_count = 0, mt_peers = []\<rparr>)"

definition Peer_new :: "MultiTargetPeerConfig \<Rightarrow> 't \<Rightarrow> 't Peer" where
  "Peer_new config transport = \<lparr>pe_config = config, pe_transport = transport, pe_received_hello = False, pe_available = True,
     pe_next_request_id = 1, pe_uploads = [], pe_last_error = None,
     pe_statistics = \<lparr>ms_control_bytes_sent = 0, ms_bulk_bytes_sent = 0, ms_control_bytes_received = 0, ms_chunks_sent = 0,
       ms_backpressure_pauses = 0\<rparr>\<rparr>"

abbreviation on_peer :: "nat \<Rightarrow> ('t Peer \<Rightarrow> 't Peer) \<Rightarrow> ('t, unit) mt_op" where
  "on_peer i f \<equiv> modifyS (\<lambda>s. s\<lparr>mt_peers := (mt_peers s)[i := f (mt_peers s ! i)]\<rparr>)"

abbreviation tally_peer :: "nat \<Rightarrow> (MultiTargetPeerStatistics \<Rightarrow> MultiTargetPeerStatistics) \<Rightarrow> ('t, unit) mt_op" where
  "tally_peer i f \<equiv> on_peer i (\<lambda>p. p\<lparr>pe_statistics := f (pe_statistics p)\<rparr>)"

definition peer_transport :: "nat \<Rightarrow> ('t, 'a) op \<Rightarrow> ('t, 'a) mt_op" where
  "peer_transport i m = zoomS (\<lambda>s. pe_transport (mt_peers s ! i))
     (\<lambda>t s. s\<lparr>mt_peers := (mt_peers s)[i := (mt_peers s ! i)\<lparr>pe_transport := t\<rparr>]\<rparr>) m"

definition FindPeer :: "string \<Rightarrow> 't MultiTargetSource \<Rightarrow> nat option" where
  "FindPeer target_device_id s = find_position (\<lambda>p. mp_device_id (pe_config p) = target_device_id) (mt_peers s)"

section \<open>Queries\<close>

definition TargetCount :: "'t MultiTargetSource \<Rightarrow> nat" where
  "TargetCount s = length (mt_peers s)"

definition Multi_HandshakeComplete :: "string \<Rightarrow> 't MultiTargetSource \<Rightarrow> bool" where
  "Multi_HandshakeComplete target_device_id s \<longleftrightarrow> (case FindPeer target_device_id s of
     None \<Rightarrow> False
   | Some i \<Rightarrow> mt_started s \<and> pe_received_hello (mt_peers s ! i) \<and> pe_last_error (mt_peers s ! i) = None)"

definition Multi_Statistics :: "string \<Rightarrow> 't MultiTargetSource \<Rightarrow> MultiTargetPeerStatistics option" where
  "Multi_Statistics target_device_id s = map_option (\<lambda>i. pe_statistics (mt_peers s ! i)) (FindPeer target_device_id s)"

definition Multi_LastError :: "string \<Rightarrow> 't MultiTargetSource \<Rightarrow> string option" where
  "Multi_LastError target_device_id s = Option.bind (FindPeer target_device_id s) (\<lambda>i. pe_last_error (mt_peers s ! i))"

section \<open>Sending\<close>

definition Multi_Send :: "'t Services \<Rightarrow> nat \<Rightarrow> Channel \<Rightarrow> FrameType \<Rightarrow> bytes \<Rightarrow> ('t, unit) mt_op" where
  "Multi_Send svc i channel t payload =
     bindS (getS (\<lambda>s. pe_next_request_id (mt_peers s ! i))) (\<lambda>id.
     thenS (on_peer i (\<lambda>p. p\<lparr>pe_next_request_id := id + 1\<rparr>))
    (bindS (liftS (\<lambda>_. EncodeFrame \<lparr>frame_type = t, frame_request_id = id, frame_payload = payload\<rparr>)) (\<lambda>wire.
     thenS (if channel = kControl then tally_peer i (\<lambda>x. x\<lparr>ms_control_bytes_sent := ms_control_bytes_sent x + word_of_nat (length wire)\<rparr>)
            else tally_peer i (\<lambda>x. x\<lparr>ms_bulk_bytes_sent := ms_bulk_bytes_sent x + word_of_nat (length wire)\<rparr>))
     (peer_transport i (svc_send svc channel wire)))))"

abbreviation peer_message :: "'t Services \<Rightarrow> nat \<Rightarrow> FrameType \<Rightarrow> bytes result \<Rightarrow> ('t, unit) mt_op" where
  "peer_message svc i t payload \<equiv> bindS (liftS (\<lambda>_. payload)) (Multi_Send svc i kControl t)"

definition SendHello :: "'t Services \<Rightarrow> nat \<Rightarrow> ('t, unit) mt_op" where
  "SendHello svc i =
     bindS (getS (\<lambda>s. (mt_config s, mt_peers s ! i))) (\<lambda>(config, peer).
     peer_message svc i kHello (EncodeHello \<lparr>hello_task_id = mc_task_id config, hello_role = kSource,
       hello_device_id = mc_device_id config, hello_device_fingerprint = mc_device_fingerprint config,
       hello_authorization_digest = mp_authorization_digest (pe_config peer)\<rparr>))"

definition Multi_SendManifest :: "'t Services \<Rightarrow> nat \<Rightarrow> ('t, unit) mt_op" where
  "Multi_SendManifest svc i = bindS (getS sr_source_manifest) (\<lambda>m. peer_message svc i kManifest (EncodeManifest m))"

definition announce :: "'t Services \<Rightarrow> nat \<Rightarrow> ('t, unit) mt_op" where
  "announce svc i =
     bindS (getS (\<lambda>s. mt_peers s ! i)) (\<lambda>peer.
     if pe_received_hello peer \<and> pe_available peer then Multi_SendManifest svc i else returnS ())"

definition Multi_RefreshSource :: "'t Services \<Rightarrow> ('t, unit) mt_op" where
  "Multi_RefreshSource svc =
     bindS (getS mt_config) (\<lambda>config.
     bindS (scan_task svc (mc_task_root config)) (\<lambda>snapshot.
     thenS (modifyS (\<lambda>s. s\<lparr>mt_snapshot_scan_count := Suc (mt_snapshot_scan_count s)\<rparr>))
    (thenS (reconcile_task svc (mc_task_id config) (mc_device_id config) snapshot)
    (thenS (offer_snapshot (svc_native svc (mc_task_root config)) snapshot)
    (bindS (getS (\<lambda>s. length (mt_peers s))) (\<lambda>n. forS (announce svc) [0..<n]))))))"

section \<open>Targets come and go\<close>

definition AddTarget :: "'t Services \<Rightarrow> MultiTargetPeerConfig \<Rightarrow> 't \<Rightarrow> ('t, unit) mt_op" where
  "AddTarget svc config transport =
     bindS (getS (\<lambda>s. s)) (\<lambda>s.
     thenS (guardS (mp_device_id config = [] \<or> mp_device_fingerprint config = [] \<or> mp_authorization_digest config = [] \<or>
         FindPeer (mp_device_id config) s \<noteq> None) (Invalid_argument ''target identity is invalid or duplicate''))
    (thenS (modifyS (\<lambda>s. s\<lparr>mt_peers := mt_peers s @ [Peer_new config transport]\<rparr>))
     (if mt_started s
      then thenS (if mt_peers s = [] then Multi_RefreshSource svc else returnS ()) (SendHello svc (length (mt_peers s)))
      else returnS ())))"

definition Multi_Start :: "'t Services \<Rightarrow> ('t, unit) mt_op" where
  "Multi_Start svc =
     bindS (getS (\<lambda>s. s)) (\<lambda>s.
     if mt_started s then returnS ()
     else thenS (guardS (mt_peers s = []) (Logic_error ''multi-target source requires at least one target''))
      (thenS (modifyS (\<lambda>s. s\<lparr>mt_started := True\<rparr>))
      (thenS (Multi_RefreshSource svc) (forS (SendHello svc) [0..<length (mt_peers s)]))))"

definition RemoveTarget :: "string \<Rightarrow> 't MultiTargetSource \<Rightarrow> 't MultiTargetSource" where
  "RemoveTarget device_id s = (case FindPeer device_id s of
     None \<Rightarrow> s | Some i \<Rightarrow> s\<lparr>mt_peers := erase_at i (mt_peers s)\<rparr>)"

definition SetTargetAvailable :: "'t Services \<Rightarrow> string \<Rightarrow> bool \<Rightarrow> ('t, unit) mt_op" where
  "SetTargetAvailable svc device_id available =
     bindS (getS (\<lambda>s. s)) (\<lambda>s.
     case FindPeer device_id s of
       None \<Rightarrow> returnS ()
     | Some i \<Rightarrow>
        if pe_available (mt_peers s ! i) = available then returnS ()
        else thenS (on_peer i (\<lambda>p. p\<lparr>pe_available := available\<rparr>))
         (if available \<and> pe_received_hello (mt_peers s ! i) then Multi_SendManifest svc i else returnS ()))"

section \<open>Serving files\<close>

definition peer_upload :: "nat \<Rightarrow> nat \<Rightarrow> (UploadSession, 'a) op \<Rightarrow> ('t, 'a) mt_op" where
  "peer_upload i j m =
     zoomS (\<lambda>s. let u = pu_session (pe_uploads (mt_peers s ! i) ! j) in u\<lparr>up_source := (fst (up_source u), sn_files s)\<rparr>)
       (\<lambda>u s. s\<lparr>sn_files := snd (up_source u), mt_peers := (mt_peers s)[i := (mt_peers s ! i)\<lparr>pe_uploads :=
          (pe_uploads (mt_peers s ! i))[j := (pe_uploads (mt_peers s ! i) ! j)\<lparr>pu_session := u\<rparr>]\<rparr>]\<rparr>) m"

definition pump_peer_upload :: "'t Services \<Rightarrow> nat \<Rightarrow> nat \<Rightarrow> ('t, bool) mt_op" where
  "pump_peer_upload svc i j =
     bindS (getS (\<lambda>s. svc_buffered svc kBulk (pe_transport (mt_peers s ! i)))) (\<lambda>buffered.
     bindS (peer_upload i j (NextForTransport (svc_blake3 svc) buffered)) (\<lambda>next.
     bindS (getS (\<lambda>s. HasPending (pu_session (pe_uploads (mt_peers s ! i) ! j)))) (\<lambda>pending.
     thenS (case next of
         Some send \<Rightarrow>
          thenS (tally_peer i (\<lambda>x. x\<lparr>ms_chunks_sent := ms_chunks_sent x + 1,
              ms_bulk_bytes_sent := ms_bulk_bytes_sent x + word_of_nat (length (ps_wire send))\<rparr>))
            (peer_transport i (svc_send svc (ps_channel send) (ps_wire send)))
       | None \<Rightarrow> if pending then tally_peer i (\<lambda>x. x\<lparr>ms_backpressure_pauses := ms_backpressure_pauses x + 1\<rparr>) else returnS ())
     (if pending then returnS False
      else thenS (on_peer i (\<lambda>p. p\<lparr>pe_uploads := erase_at j (pe_uploads p)\<rparr>)) (returnS True)))))"

primrec pump_peer_uploads :: "'t Services \<Rightarrow> nat \<Rightarrow> nat \<Rightarrow> nat \<Rightarrow> ('t, unit) mt_op" where
  "pump_peer_uploads svc i 0 j = returnS ()"
| "pump_peer_uploads svc i (Suc n) j =
     bindS (pump_peer_upload svc i j) (\<lambda>erased. pump_peer_uploads svc i n (if erased then j else Suc j))"

definition pump_peer :: "'t Services \<Rightarrow> nat \<Rightarrow> ('t, unit) mt_op" where
  "pump_peer svc i =
     bindS (getS (\<lambda>s. mt_peers s ! i)) (\<lambda>peer.
     if \<not> pe_available peer then returnS () else pump_peer_uploads svc i (length (pe_uploads peer)) 0)"

definition Multi_Pump :: "'t Services \<Rightarrow> ('t, unit) mt_op" where
  "Multi_Pump svc = bindS (getS (\<lambda>s. length (mt_peers s))) (\<lambda>n. forS (pump_peer svc) [0..<n])"

definition drop_uploads :: "nat \<Rightarrow> TransferId \<Rightarrow> ('t, unit) mt_op" where
  "drop_uploads i transfer_id = on_peer i (\<lambda>p. p\<lparr>pe_uploads := filter (\<lambda>u. pu_transfer_id u \<noteq> transfer_id) (pe_uploads p)\<rparr>)"

definition Multi_HandleFileRequest :: "'t Services \<Rightarrow> nat \<Rightarrow> FileRequest \<Rightarrow> ('t, unit) mt_op" where
  "Multi_HandleFileRequest svc i request =
     bindS (getS (\<lambda>s. find_source (request_file_hash request) (sn_source_files s))) (\<lambda>source.
     case source of
       None \<Rightarrow> peer_message svc i kCancel (EncodeCancel \<lparr>cancel_transfer_id = request_transfer_id request, cancel_reason = ''source_missing''\<rparr>)
     | Some f \<Rightarrow>
        thenS (drop_uploads i (request_transfer_id request))
       (bindS (open_session f request) (\<lambda>session.
        bindS (with_session (QueueRequested (svc_blake3 svc) request) session) (\<lambda>(queued, session').
        case queued of
          Inl _ \<Rightarrow> peer_message svc i kCancel (EncodeCancel \<lparr>cancel_transfer_id = request_transfer_id request, cancel_reason = ''source_changed''\<rparr>)
        | Inr _ \<Rightarrow> on_peer i (\<lambda>p. p\<lparr>pe_uploads := pe_uploads p @
             [\<lparr>pu_transfer_id = request_transfer_id request, pu_session = session'\<rparr>]\<rparr>)))))"

definition Multi_HandleCancel :: "nat \<Rightarrow> Cancel \<Rightarrow> ('t, unit) mt_op" where
  "Multi_HandleCancel i cancel = drop_uploads i (cancel_transfer_id cancel)"

section \<open>Receiving\<close>

definition Multi_accept_hello :: "'t Services \<Rightarrow> nat \<Rightarrow> Hello \<Rightarrow> ('t, unit) mt_op" where
  "Multi_accept_hello svc i hello =
     bindS (getS (\<lambda>s. (mt_config s, pe_config (mt_peers s ! i)))) (\<lambda>(config, peer).
     thenS (guardS (hello_task_id hello \<noteq> mc_task_id config \<or> hello_device_id hello \<noteq> mp_device_id peer \<or>
         hello_device_fingerprint hello \<noteq> mp_device_fingerprint peer \<or>
         hello_authorization_digest hello \<noteq> mp_authorization_digest peer \<or> hello_role hello \<noteq> kTarget)
       (Invalid_argument ''unauthorized_peer''))
    (thenS (on_peer i (\<lambda>p. p\<lparr>pe_received_hello := True\<rparr>))
    (thenS (SendHello svc i) (Multi_SendManifest svc i))))"

definition Multi_receive_wire :: "'t Services \<Rightarrow> nat \<Rightarrow> Channel \<Rightarrow> bytes \<Rightarrow> ('t, unit) mt_op" where
  "Multi_receive_wire svc i channel wire =
     thenS (if channel = kControl then tally_peer i (\<lambda>x. x\<lparr>ms_control_bytes_received := ms_control_bytes_received x + word_of_nat (length wire)\<rparr>)
            else returnS ())
    (bindS (liftS (\<lambda>_. DecodeFrameView wire)) (\<lambda>frame.
     thenS (guardS (\<not> IsAllowedOn channel (frame_type frame)) (Invalid_argument ''wrong_channel''))
     (if frame_type frame = kHello then bindS (liftS (\<lambda>_. DecodeHello (frame_payload frame))) (Multi_accept_hello svc i)
      else bindS (getS (\<lambda>s. mt_started s \<and> pe_received_hello (mt_peers s ! i))) (\<lambda>known.
        thenS (guardS (\<not> known) (Invalid_argument ''unauthorized_peer''))
        (if frame_type frame = kFileRequest
         then bindS (liftS (\<lambda>_. DecodeFileRequest (frame_payload frame))) (Multi_HandleFileRequest svc i)
         else if frame_type frame = kCancel
         then bindS (liftS (\<lambda>_. DecodeCancel (frame_payload frame))) (Multi_HandleCancel i)
         else throwS (Invalid_argument ''target_write_forbidden''))))))"

definition Multi_Receive :: "'t Services \<Rightarrow> nat \<Rightarrow> Channel \<Rightarrow> bytes \<Rightarrow> ('t, unit) mt_op" where
  "Multi_Receive svc i channel wire =
     catchS (Multi_receive_wire svc i channel wire) (\<lambda>e. on_peer i (\<lambda>p. p\<lparr>pe_last_error := Some (what e)\<rparr>))"

end
