(* ===== verification/Multi_Target_Properties.thy ===== *)
theory Multi_Target_Properties
  imports Multi_Target_Source
begin

text \<open>
  The targets of one source do not reach each other: what one of them sends changes its own slot only.  The
  exception is a file that can no longer be read, which ends the pump for every target behind the one that
  asked for it.
\<close>

section \<open>A target reaches its own slot only\<close>

definition isolated :: "nat \<Rightarrow> 't MultiTargetSource \<Rightarrow> 't MultiTargetSource \<Rightarrow> bool" where
  "isolated i s t \<longleftrightarrow> node_at (sn_files t) = node_at (sn_files s) \<and> sn_database t = sn_database s \<and>
     sn_source_files t = sn_source_files s \<and> sr_source_manifest t = sr_source_manifest s \<and>
     sn_manifest_revision t = sn_manifest_revision s \<and> mt_config t = mt_config s \<and> mt_started t = mt_started s \<and>
     mt_snapshot_scan_count t = mt_snapshot_scan_count s \<and> length (mt_peers t) = length (mt_peers s) \<and>
     (\<forall>j. j \<noteq> i \<longrightarrow> mt_peers t ! j = mt_peers s ! j) \<and>
     pe_config (mt_peers t ! i) = pe_config (mt_peers s ! i) \<and> pe_available (mt_peers t ! i) = pe_available (mt_peers s ! i)"

abbreviation isolates :: "nat \<Rightarrow> 't MultiTargetSource \<Rightarrow> ('t MultiTargetSource, 'a) op \<Rightarrow> bool" where
  "isolates i s m \<equiv> keepsS (isolated i s) m"

lemma isolated_slot:
  assumes "isolated i s t" "pe_config p = pe_config (mt_peers t ! i)" "pe_available p = pe_available (mt_peers t ! i)"
  shows "isolated i s (t\<lparr>mt_peers := (mt_peers t)[i := p]\<rparr>)"
  using assms by (cases "i < length (mt_peers t)") (simp_all add: isolated_def list_update_beyond)

lemma isolates_basic:
  "isolates i s (tally_peer i f)" "isolates i s (peer_transport i m)" "isolates i s (on_peer i (\<lambda>p. p\<lparr>pe_next_request_id := f1 p\<rparr>))"
  "isolates i s (on_peer i (\<lambda>p. p\<lparr>pe_uploads := f2 p\<rparr>))" "isolates i s (on_peer i (\<lambda>p. p\<lparr>pe_received_hello := f3 p\<rparr>))"
  "isolates i s (on_peer i (\<lambda>p. p\<lparr>pe_last_error := f4 p\<rparr>))"
  by (simp_all add: keepsS_modify keepsS_zoom isolated_slot peer_transport_def)

lemma keepsS_pair: "(\<And>a b. keepsS P (f a b)) \<Longrightarrow> keepsS P (case x of (a, b) \<Rightarrow> f a b)"
  by (cases x) simp

lemma isolates_Send: "isolates i s (Multi_Send svc i channel t payload)"
  unfolding Multi_Send_def by (intro keeps_steps isolates_basic)

lemma isolates_session:
  assumes "\<And>nodes. keepsS (\<lambda>u. node_at (snd (up_source u)) = nodes) m"
  shows "isolates i s (with_session m session)"
  unfolding keepsS_def
proof (intro allI impI)
  fix u assume u: "isolated i s u"
  obtain f where f: "snd (with_session m session u) = u\<lparr>sn_files := f\<rparr>"
    by (simp add: with_session_def case_prod_beta)
  have "node_at (sn_files (snd (with_session m session u))) = node_at (sn_files u)"
    using keepsD [OF same_entries.with_session [OF assms] refl, of session u] .
  then show "isolated i s (snd (with_session m session u))" using u f by (simp add: isolated_def)
qed

lemma isolates_request: "isolates i s (Multi_HandleFileRequest svc i request)"
proof -
  have "isolates i s (open_session f request)" for f by (simp add: open_session_def)
  then show ?thesis
    unfolding Multi_HandleFileRequest_def drop_uploads_def
    by (intro keeps_steps isolates_Send isolates_basic)
      (auto split: sum.splits intro!: keeps_steps isolates_Send isolates_basic isolates_session same_entries.QueueRequested)
qed

lemma isolates_Receive: "isolates i s (Multi_Receive svc i channel wire)"
proof -
  have "isolates i s (Multi_accept_hello svc i hello)" for hello
    unfolding Multi_accept_hello_def SendHello_def Multi_SendManifest_def by (intro keeps_steps keepsS_pair isolates_Send isolates_basic)
  then show ?thesis
    unfolding Multi_Receive_def Multi_receive_wire_def Multi_HandleCancel_def drop_uploads_def
    by (intro keeps_steps isolates_basic isolates_request)
qed

definition Multi_receive_all :: "'t Services \<Rightarrow> nat \<Rightarrow> (Channel \<times> bytes) list \<Rightarrow> 't MultiTargetSource \<Rightarrow> 't MultiTargetSource" where
  "Multi_receive_all svc i frames = fold (\<lambda>(channel, wire) s. snd (Multi_Receive svc i channel wire s)) frames"

text \<open>
  C13: targets are isolated from each other.  Whatever one target sends, on either channel and in any number
  of frames, every other target's slot (its transport, handshake, uploads, error and counters) is exactly as
  before, and so are the files, the database, the offered manifest and the identity and availability of the
  sender's own slot.
\<close>

theorem multi_target_isolation:
  "isolated i s (Multi_receive_all svc i frames s)"
proof -
  have "isolated i s (Multi_receive_all svc i frames u)" if "isolated i s u" for u
    using that
  proof (induction frames arbitrary: u)
    case (Cons f frames)
    obtain channel wire where f: "f = (channel, wire)" by fastforce
    have "isolated i s (snd (Multi_Receive svc i channel wire u))" using Cons.prems by (rule keepsD [OF isolates_Receive])
    then show ?case using Cons.IH f by (simp add: Multi_receive_all_def)
  qed (simp add: Multi_receive_all_def)
  then show ?thesis by (simp add: isolated_def)
qed

section \<open>A file that cannot be read stops the pump\<close>

definition blocked_upload :: "FileSystem \<Rightarrow> nat \<Rightarrow> PendingUpload \<Rightarrow> bool" where
  "blocked_upload files buffered u \<longleftrightarrow> (let up = pu_session u in
     scheduler_items (up_scheduler up) = [] \<and> CanResume buffered (up_scheduler up) \<and> up_requested_ranges up \<noteq> [] \<and>
     file_bytes files (cs_source_path (fst (up_source up))) = None)"

definition blocked :: "'t Services \<Rightarrow> 't Peer list \<Rightarrow> 't MultiTargetSource \<Rightarrow> bool" where
  "blocked svc rest s \<longleftrightarrow> (case mt_peers s of [] \<Rightarrow> False | p # ps \<Rightarrow> ps = rest \<and> pe_available p \<and>
     (case pe_uploads p of [] \<Rightarrow> False | u # _ \<Rightarrow> blocked_upload (sn_files s) (svc_buffered svc kBulk (pe_transport p)) u))"

lemma pop_first_empty: "concat qs = [] \<Longrightarrow> pop_first qs = None"
  by (induction qs) auto

lemma file_size_missing:
  assumes "file_bytes f p = None"
  shows "\<exists>fs. sys_file_size p f = (Inr None, f\<lparr>fs_faults := fs\<rparr>)"
proof -
  have "f\<lparr>fs_faults := fs_faults f\<rparr> = f" by simp
  moreover have "file_bytes (f\<lparr>fs_faults := fs\<rparr>) p = None" for fs using assms by simp
  ultimately show ?thesis
    by (cases "fs_faults f") (auto simp: sys_file_size_def next_fault_def op_defs assms intro: exI [of _ "fs_faults f"] split: option.splits)
qed

lemma NextForTransport_missing:
  assumes "scheduler_items (up_scheduler u) = []" "CanResume buffered (up_scheduler u)" "up_requested_ranges u \<noteq> []"
    and "file_bytes (snd (up_source u)) (cs_source_path (fst (up_source u))) = None"
  shows "\<exists>fs. NextForTransport blake3 buffered u =
    (Inl (Runtime_error ''file_size''), u\<lparr>up_source := (fst (up_source u), (snd (up_source u))\<lparr>fs_faults := fs\<rparr>)\<rparr>)"
proof -
  have "SendScheduler_Next buffered (up_scheduler u) = (None, up_scheduler u)"
    using assms(1,2) by (simp add: SendScheduler_Next_def scheduler_items_def pop_first_empty)
  then have next': "scheduler_next buffered u = (Inr None, u)" by (simp add: scheduler_next_def)
  obtain fs where fs: "sys_file_size (cs_source_path (fst (up_source u))) (snd (up_source u)) = (Inr None, (snd (up_source u))\<lparr>fs_faults := fs\<rparr>)"
    using file_size_missing [OF assms(4)] by blast
  then show ?thesis
    using next' assms(2,3)
    by (intro exI [of _ fs], cases "up_requested_ranges u") (simp_all add: NextForTransport_def ReadChunk_def op_defs zoomS_def)
qed

lemma pump_blocked:
  assumes "blocked svc rest s"
  shows "\<exists>t. Multi_Pump svc s = (Inl (Runtime_error ''file_size''), t) \<and> blocked svc rest t"
proof -
  obtain p u us where s: "mt_peers s = p # rest" "pe_available p" "pe_uploads p = u # us"
    and u: "blocked_upload (sn_files s) (svc_buffered svc kBulk (pe_transport p)) u"
    using assms by (auto simp: blocked_def split: list.splits)
  let ?up = "(pu_session u)\<lparr>up_source := (fst (up_source (pu_session u)), sn_files s)\<rparr>"
  obtain fs where fs: "NextForTransport (svc_blake3 svc) (svc_buffered svc kBulk (pe_transport p)) ?up =
      (Inl (Runtime_error ''file_size''), ?up\<lparr>up_source := (fst (up_source ?up), (snd (up_source ?up))\<lparr>fs_faults := fs\<rparr>)\<rparr>)"
    using NextForTransport_missing [of ?up] u by (auto simp: blocked_upload_def Let_def)
  have pump: "pump_peer svc 0 s = (Inl (Runtime_error ''file_size''), s\<lparr>sn_files := (sn_files s)\<lparr>fs_faults := fs\<rparr>,
      mt_peers := p\<lparr>pe_uploads := u\<lparr>pu_session := ?up\<lparr>up_source := (fst (up_source ?up), (sn_files s)\<lparr>fs_faults := fs\<rparr>)\<rparr>\<rparr> # us\<rparr> # rest\<rparr>)"
    (is "_ = (_, ?t)")
    using s fs by (simp add: pump_peer_def pump_peer_upload_def peer_upload_def op_defs zoomS_def Let_def)
  have "[0..<Suc (length rest)] = 0 # [Suc 0..<Suc (length rest)]" by (rule upt_conv_Cons) simp
  then have "Multi_Pump svc s = (Inl (Runtime_error ''file_size''), ?t)"
    using s pump by (simp add: Multi_Pump_def bindS_def getS_def thenS_def del: upt_Suc)
  moreover have "blocked svc rest ?t" using s u by (simp add: blocked_def blocked_upload_def Let_def)
  ultimately show ?thesis by blast
qed

text \<open>
  One unreadable file starves the other targets.  When the first target's first upload is ready to read
  a chunk and its file no longer exists, every pump throws, however often it is called: no target behind it is
  given a chunk, and the upload that fails is kept, so that the next pump fails in the same way.
\<close>

theorem unreadable_file_blocks_pump:
  assumes "blocked svc rest s"
  defines "pumped \<equiv> (\<lambda>n. ((\<lambda>t. snd (Multi_Pump svc t)) ^^ n) s)"
  shows "fst (Multi_Pump svc (pumped n)) = Inl (Runtime_error ''file_size'') \<and> tl (mt_peers (pumped n)) = tl (mt_peers s)"
proof -
  have "blocked svc rest (pumped n)"
    by (induction n) (use assms(1) pump_blocked in \<open>fastforce simp: pumped_def\<close>)+
  moreover have "tl (mt_peers t) = rest" if "blocked svc rest t" for t
    using that by (auto simp: blocked_def split: list.splits)
  ultimately show ?thesis using assms(1) pump_blocked [of svc rest "pumped n"] by auto
qed

section \<open>Instances\<close>

definition demo_peer :: "PendingUpload list \<Rightarrow> unit Peer" where
  "demo_peer uploads = (Peer_new \<lparr>mp_device_id = ''p'', mp_device_fingerprint = ''f'', mp_authorization_digest = ''k''\<rparr> ())\<lparr>pe_uploads := uploads\<rparr>"

definition demo_source :: "unit Peer list \<Rightarrow> unit MultiTargetSource" where
  "demo_source peers = \<lparr>sn_database = demo_database, sn_files = demo_fs, sn_calls = 0, sn_manifest_revision = 0, sn_source_files = [],
     sr_source_manifest = \<lparr>manifest_revision = 0, manifest_entries = []\<rparr>,
     mt_config = \<lparr>mc_task_id = ''t'', mc_device_id = ''d'', mc_device_fingerprint = ''f'', mc_task_root = ''C:/task''\<rparr>,
     mt_started = True, mt_snapshot_scan_count = 1, mt_peers = peers\<rparr>"

definition demo_missing :: PendingUpload where
  "demo_missing = \<lparr>pu_transfer_id = [], pu_session = \<lparr>up_source = (\<lparr>cs_source_path = demo_root @ [''gone''], cs_transfer_id = [], cs_file_hash = [],
     cs_stream_open = False, cs_stream_good = False\<rparr>, demo_fs), up_scheduler = \<lparr>ss_queues = [[], [], [], []], ss_max_pending_bytes = 2,
     ss_resume_below_bytes = 1, ss_pending_bytes = 0\<rparr>, up_requested_ranges = [\<lparr>first_chunk = 0, chunk_count = 1\<rparr>], up_next_request_id = 1\<rparr>\<rparr>"

theorem unreadable_file_blocks_pump_witness:
  "tl (mt_peers (((\<lambda>t. snd (Multi_Pump demo_services t)) ^^ 3) (demo_source [demo_peer [demo_missing], demo_peer []]))) = [demo_peer []]"
proof -
  have "file_bytes demo_fs (demo_root @ [''gone'']) = None"
    using file_bytes_real [OF demo_facts(4), of "''gone''"]
    by (cases "file_bytes demo_fs (demo_root @ [''gone''])") (simp_all add: demo_fs_def demo_root_def node_at_def)
  then have "blocked demo_services [demo_peer []] (demo_source [demo_peer [demo_missing], demo_peer []])"
    by (simp add: blocked_def demo_source_def demo_peer_def Peer_new_def blocked_upload_def demo_missing_def demo_services_def
      scheduler_items_def CanResume_def)
  from unreadable_file_blocks_pump [OF this, of 3] show ?thesis by (simp add: demo_source_def)
qed

end
