(* ===== verification/Ignore_Policy.thy ===== *)
theory Ignore_Policy
  imports Sync_Node
begin

text \<open>
  The ignore policy of a task (\<^verbatim>\<open>engine/storage/ignore_policy.cpp\<close>): the rules in
  \<^verbatim>\<open>.veritasignore\<close> with their revisions in the database, the summary of a directory for the assistant that
  writes rules, and the preview of a proposed policy.
\<close>

section \<open>Inventory\<close>

record InventoryEntry =
  ie_path :: string
  ie_is_file :: bool

record Inventory =
  inv_entries :: "InventoryEntry list"
  inv_file_count :: nat
  inv_truncated :: bool

definition LowerAscii :: "string \<Rightarrow> string" where
  "LowerAscii value = map (\<lambda>c. let byte = of_char c :: nat in if 65 \<le> byte \<and> byte \<le> 90 then char_of (byte + 32) else c) value"

text \<open>The parts before and after the last slash.\<close>

definition after_slash :: "string \<Rightarrow> string" where
  "after_slash path = rev (takeWhile (\<lambda>c. c \<noteq> CHR ''/'') (rev path))"

definition before_slash :: "string \<Rightarrow> string" where
  "before_slash path = rev (tl (dropWhile (\<lambda>c. c \<noteq> CHR ''/'') (rev path)))"

definition Extension :: "string \<Rightarrow> string" where
  "Extension path =
     (let name = after_slash path; suffix = rev (takeWhile (\<lambda>c. c \<noteq> CHR ''.'') (rev name)) in
      if CHR ''.'' \<notin> set name \<or> length suffix + 1 = length name \<or> suffix = [] then ''(none)''
      else LowerAscii (CHR ''.'' # suffix))"

text \<open>
  The loop over the directory iterator.  A directory that the built-in rules ignore is not entered
  (\<open>pruned\<close>).  An iterator that cannot advance is at its end, and the error is cleared.
\<close>

primrec inventory_loop :: "path \<Rightarrow> nat \<Rightarrow> path list \<Rightarrow> path list \<Rightarrow> Inventory \<Rightarrow> (FileSystem, Inventory) op" where
  "inventory_loop root maximum_files [] pruned inventory = returnS inventory"
| "inventory_loop root maximum_files (p # ps) pruned inventory =
     (if list_ex (\<lambda>d. take (length d) p = d) pruned then inventory_loop root maximum_files ps pruned inventory
      else let advance = (\<lambda>pruned inventory. bindS next_fault (\<lambda>f.
          if f \<noteq> None then returnS inventory else inventory_loop root maximum_files ps pruned inventory)) in
        bindS (sys_symlink_status p) (\<lambda>status.
        if status = stError then advance pruned inventory
        else if status = stSymlink then thenS (sys_status p) (advance pruned inventory)
        else
          let relative = ToUtf8Path (lexically_relative p root) in
          bindS (liftS (\<lambda>_. IsIgnored IgnoreRules_new relative)) (\<lambda>ignored.
          if ignored then advance (if status = stDirectory then p # pruned else pruned) inventory
          else if status = stRegular then
            let found = inventory\<lparr>inv_entries := inv_entries inventory @ [\<lparr>ie_path = relative, ie_is_file = True\<rparr>],
              inv_file_count := Suc (inv_file_count inventory)\<rparr> in
            if maximum_files \<le> inv_file_count found then returnS (found\<lparr>inv_truncated := True\<rparr>) else advance pruned found
          else advance pruned inventory)))"

text \<open>
  A directory is listed before its contents.  The order of the entries of one directory is the file system's own: \<open>sv_rank\<close> gives
  an entry its place among its siblings, and entries of the same rank come in the order of their names.
\<close>

definition walk_key :: "ScanView \<Rightarrow> path \<Rightarrow> path \<Rightarrow> (nat \<times> string) list" where
  "walk_key view root p = map (\<lambda>n. (sv_rank view (take n p), p ! (n - 1))) [Suc (length root)..<Suc (length p)]"

definition walk_order :: "ScanView \<Rightarrow> FileSystem \<Rightarrow> path \<Rightarrow> path list" where
  "walk_order view s root = sort_key (walk_key view root) (visited view s root)"

definition BuildInventory :: "(string \<Rightarrow> path option) \<Rightarrow> ScanView \<Rightarrow> string \<Rightarrow> nat \<Rightarrow> (FileSystem, Inventory) op" where
  "BuildInventory canonical view task_root maximum_files =
     (case canonical task_root of
        None \<Rightarrow> throwS (Invalid_argument ''ignore policy root must be an existing directory'')
      | Some root \<Rightarrow>
         bindS (sys_status root) (\<lambda>status.
         thenS (guardS (status \<noteq> stDirectory)
           (if status = stError then Runtime_error ''is_directory'' else Invalid_argument ''ignore policy root must be an existing directory''))
        (bindS next_fault (\<lambda>f.
         thenS (guardS (f \<noteq> None) (Runtime_error ''cannot enumerate ignore policy root''))
        (bindS (getS (\<lambda>s. walk_order view s root)) (\<lambda>paths.
         bindS (inventory_loop root maximum_files paths [] \<lparr>inv_entries = [], inv_file_count = 0, inv_truncated = False\<rparr>) (\<lambda>inventory.
         returnS (inventory\<lparr>inv_entries := sort_key ie_path (inv_entries inventory)\<rparr>))))))))"

section \<open>Summaries\<close>

text \<open>\<^verbatim>\<open>std::map\<close>: an association list in key order; \<open>bump\<close> updates the value at a key that may be new.\<close>

fun bump :: "'k::linorder \<Rightarrow> ('v \<Rightarrow> 'v) \<Rightarrow> 'v \<Rightarrow> ('k \<times> 'v) list \<Rightarrow> ('k \<times> 'v) list" where
  "bump k f v [] = [(k, f v)]"
| "bump k f v ((k', v') # m) =
     (if k < k' then (k, f v) # (k', v') # m else if k = k' then (k, f v') # m else (k', v') # bump k f v m)"

type_synonym ExtensionCounts = "(string \<times> nat) list"

definition summary_line :: "string \<Rightarrow> nat \<Rightarrow> ExtensionCounts \<Rightarrow> string" where
  "summary_line label amount extensions =
     (let ordered = sort_key (\<lambda>(c, e). (- int c, e)) (map (\<lambda>(e, c). (c, e)) extensions);
          items = concat (map (\<lambda>(i, c, e). (if 0 < i then '', '' else []) @ e @ '' x'' @ to_string c) (enumerate 0 (take 6 ordered)))
      in label @ '': '' @ to_string amount @ '' files'' @
         (if ordered = [] then [] else '' ('' @ items @ (if 6 < length ordered then '', ...'' else []) @ '')'') @ [CHR 0x0A])"

definition AppendSummaryLine :: "string \<Rightarrow> string \<Rightarrow> nat \<Rightarrow> ExtensionCounts \<Rightarrow> nat \<Rightarrow> string" where
  "AppendSummaryLine output label amount extensions maximum_bytes =
     (let value = summary_line label amount extensions in
      if length output + length value \<le> maximum_bytes then output @ value else output)"

fun contains :: "string \<Rightarrow> string \<Rightarrow> bool" where
  "contains part [] = (part = [])"
| "contains part (c # text) = (take (length part) (c # text) = part \<or> contains part text)"

text \<open>The Chinese triggers are UTF-8 texts.\<close>

definition search_mappings :: "(string \<times> string list) list" where
  "search_mappings =
     [(''test'', [''test'', ''spec'', ''mock'', map char_of_byte [0xE6, 0xB5, 0x8B, 0xE8, 0xAF, 0x95]]),
      (''build'', [''build'', ''dist'', ''output'', map char_of_byte [0xE7, 0xBC, 0x96, 0xE8, 0xAF, 0x91],
         map char_of_byte [0xE6, 0x9E, 0x84, 0xE5, 0xBB, 0xBA], map char_of_byte [0xE4, 0xBA, 0xA7, 0xE7, 0x89, 0xA9]]),
      (''log'', [''log'', map char_of_byte [0xE6, 0x97, 0xA5, 0xE5, 0xBF, 0x97]]),
      (''cache'', [''cache'', map char_of_byte [0xE7, 0xBC, 0x93, 0xE5, 0xAD, 0x98]]),
      (''temp'', [''temp'', ''tmp'', map char_of_byte [0xE4, 0xB8, 0xB4, 0xE6, 0x97, 0xB6]]),
      (''doc'', [''doc'', ''readme'', map char_of_byte [0xE6, 0x96, 0x87, 0xE6, 0xA1, 0xA3]]),
      (''config'', [''config'', ''conf'', ''setting'', map char_of_byte [0xE9, 0x85, 0x8D, 0xE7, 0xBD, 0xAE]]),
      (''image'', [''image'', ''img'', map char_of_byte [0xE5, 0x9B, 0xBE, 0xE7, 0x89, 0x87],
         map char_of_byte [0xE7, 0x85, 0xA7, 0xE7, 0x89, 0x87]]),
      (''video'', [''video'', map char_of_byte [0xE8, 0xA7, 0x86, 0xE9, 0xA2, 0x91]])]"

definition is_word_char :: "char \<Rightarrow> bool" where
  "is_word_char c \<longleftrightarrow> (let byte = of_char c :: nat in 48 \<le> byte \<and> byte \<le> 57 \<or> 65 \<le> byte \<and> byte \<le> 90 \<or> 97 \<le> byte \<and> byte \<le> 122) \<or>
     c = CHR ''_'' \<or> c = CHR ''.''"

definition word_step :: "char \<Rightarrow> string \<times> string list \<Rightarrow> string \<times> string list" where
  "word_step c = (\<lambda>(word, terms).
     if is_word_char c then (word @ [c], terms)
     else ([], if 3 \<le> length word then terms @ [word] else terms))"

definition SearchTerms :: "string \<Rightarrow> string list" where
  "SearchTerms description =
     (let lower = LowerAscii description;
          mapped = map fst (filter (\<lambda>(term, triggers). list_ex (\<lambda>trigger. contains trigger lower) triggers) search_mappings);
          (word, terms) = fold word_step lower ([], mapped);
          all_terms = (if 3 \<le> length word then terms @ [word] else terms)
      in remdups_adj (sort all_terms))"

section \<open>Rules and their revisions\<close>

record IgnorePolicyState =
  st_revision :: nat
  st_rules :: string
  st_content_hash :: string
  st_source :: string
  st_created_at_ms :: int

definition ReadRules :: "path \<Rightarrow> (FileSystem, string) op" where
  "ReadRules task_root =
     (let p = task_root @ [''.veritasignore''] in
      bindS (sys_open p) (\<lambda>opened.
      if \<not> opened
      then bindS (sys_status p) (\<lambda>status.
        if status = stNotFound then returnS [] else throwS (Runtime_error ''cannot read .veritasignore''))
      else bindS next_fault (\<lambda>read_fault.
        thenS (guardS (read_fault \<noteq> None) (Runtime_error ''cannot read .veritasignore''))
       (bindS (getS (\<lambda>s. map char_of_byte (case file_bytes s p of None \<Rightarrow> [] | Some b \<Rightarrow> b))) (\<lambda>rules.
        thenS (liftS (\<lambda>_. Validate rules)) (returnS rules))))))"

definition kHex :: string where "kHex = ''0123456789abcdef''"

definition HashRules :: "(bytes \<Rightarrow> bytes) \<Rightarrow> string \<Rightarrow> string" where
  "HashRules blake3 rules =
     concat (map (\<lambda>byte. [kHex ! unat (drop_bit 4 byte), kHex ! unat (byte AND 0x0F)]) (blake3 (map byte_of_char rules)))"

definition policy_state :: "IgnorePolicyRevision \<Rightarrow> IgnorePolicyState" where
  "policy_state r = \<lparr>st_revision = ip_revision r, st_rules = ip_content r, st_content_hash = ip_content_hash r,
     st_source = ip_source r, st_created_at_ms = ip_created_at_ms r\<rparr>"

text \<open>
  Recording a revision when SQLite itself can fail, as on a full disk (\<open>svc_sqlite_fails\<close>): the call throws and its transaction
  is rolled back.  This failure matters here because a policy writes the file first; a query that fails throws before that.
\<close>

definition record_revision ::
  "'t Services \<Rightarrow> string \<Rightarrow> string \<Rightarrow> string \<Rightarrow> string \<Rightarrow> int \<Rightarrow> (Database, IgnorePolicyRevision) op" where
  "record_revision svc task_id content content_hash source now_ms d =
     (case RecordIgnorePolicyRevision task_id content content_hash source now_ms d of
        (Inl e, d') \<Rightarrow> (Inl e, d')
      | (Inr r, d') \<Rightarrow> if svc_sqlite_fails svc d then (Inl (Runtime_error ''insert ignore policy revision''), d) else (Inr r, d'))"

definition Synchronize :: "'t Services \<Rightarrow> string \<Rightarrow> string \<Rightarrow> int \<Rightarrow> ('m Device_scheme, IgnorePolicyState) op" where
  "Synchronize svc task_id task_root now_ms =
     thenS (guardS (task_id = [] \<or> now_ms \<le> 0) (Invalid_argument ''ignore policy identity and timestamp are required''))
    (bindS (node_tables (FindTask task_id)) (\<lambda>task.
     thenS (guardS (task = None) (Invalid_argument ''ignore policy task does not exist''))
    (bindS (node_files (ReadRules (svc_native svc task_root))) (\<lambda>rules.
     let hash = HashRules (svc_blake3 svc) rules in
     bindS (node_tables (CurrentIgnorePolicyRevision task_id)) (\<lambda>current.
     bindS (case current of
         Some r \<Rightarrow> if ip_content_hash r \<noteq> hash \<or> ip_content r \<noteq> rules
           then node_db (record_revision svc task_id rules hash ''manual'' now_ms) else returnS r
       | None \<Rightarrow> node_db (record_revision svc task_id rules hash ''manual'' now_ms)) (\<lambda>r.
     returnS (policy_state r)))))))"

definition Policy_Apply ::
  "'t Services \<Rightarrow> string \<Rightarrow> string \<Rightarrow> string \<Rightarrow> string \<Rightarrow> string \<Rightarrow> int \<Rightarrow> ('m Device_scheme, IgnorePolicyState) op" where
  "Policy_Apply svc task_id task_root expected_hash rules source now_ms =
     thenS (liftS (\<lambda>_. Validate rules))
    (thenS (guardS (source \<noteq> ''manual'' \<and> source \<noteq> ''ai'' \<and> source \<noteq> ''undo'') (Invalid_argument ''ignore policy source is invalid''))
    (bindS (Synchronize svc task_id task_root now_ms) (\<lambda>current.
     thenS (guardS (expected_hash \<noteq> st_content_hash current) (Invalid_argument ''ignore policy changed; refresh before applying''))
    (if rules = st_rules current then returnS current
     else
      bindS (node_files (SafeFileWriter_new (svc_canonical svc) task_root)) (\<lambda>writer.
      thenS (node_files (WriteAtomically writer ''.veritasignore'' (map byte_of_char rules)))
     (bindS (node_db (record_revision svc task_id rules (HashRules (svc_blake3 svc) rules) source now_ms)) (\<lambda>recorded.
      returnS (policy_state recorded))))))))"

definition Policy_Undo :: "'t Services \<Rightarrow> string \<Rightarrow> string \<Rightarrow> string \<Rightarrow> int \<Rightarrow> ('m Device_scheme, IgnorePolicyState) op" where
  "Policy_Undo svc task_id task_root expected_hash now_ms =
     bindS (Synchronize svc task_id task_root now_ms) (\<lambda>current.
     thenS (guardS (expected_hash \<noteq> st_content_hash current) (Invalid_argument ''ignore policy changed; refresh before undoing''))
    (bindS (node_tables (ListIgnorePolicyRevisions task_id 2)) (\<lambda>history.
     thenS (guardS (length history < 2) (Invalid_argument ''ignore policy has no previous revision''))
     (Policy_Apply svc task_id task_root (st_content_hash current) (ip_content (history ! 1)) ''undo'' now_ms))))"

section \<open>The context for the assistant\<close>

datatype IgnoreContextMode = kPrivate | kPrecise

record IgnoreContext =
  ic_scanned_files :: nat
  ic_truncated :: bool
  ic_directory_summary :: string
  ic_relevant_paths :: "string list"
  ic_comparison_paths :: "string list"

definition add_extension :: "string \<Rightarrow> nat \<times> ExtensionCounts \<Rightarrow> nat \<times> ExtensionCounts" where
  "add_extension path = (\<lambda>(amount, extensions). (Suc amount, bump (Extension path) Suc 0 extensions))"

definition slash_count :: "string \<Rightarrow> nat" where
  "slash_count path = length (filter (\<lambda>c. c = CHR ''/'') path)"

definition private_summary :: "InventoryEntry list \<Rightarrow> nat \<Rightarrow> string \<Rightarrow> string" where
  "private_summary entries maximum_bytes summary =
     (let depths = fold (\<lambda>e m. if \<not> ie_is_file e then m else bump (slash_count (ie_path e)) (add_extension (ie_path e)) (0, []) m) entries [] in
      fold (\<lambda>(depth, amount, extensions) output. AppendSummaryLine output (''depth '' @ to_string depth) amount extensions maximum_bytes)
        depths summary)"

definition precise_summary :: "InventoryEntry list \<Rightarrow> nat \<Rightarrow> string \<Rightarrow> string" where
  "precise_summary entries maximum_bytes summary =
     (let directories = fold (\<lambda>e m. if \<not> ie_is_file e then m else
            bump (if CHR ''/'' \<notin> set (ie_path e) then ''(root)'' else before_slash (ie_path e)) (add_extension (ie_path e)) (0, []) m) entries [];
          ordered = sort_key (\<lambda>(directory, _). (slash_count directory, directory)) directories in
      fold (\<lambda>(directory, amount, extensions) output. AppendSummaryLine output directory amount extensions maximum_bytes) ordered summary)"

definition relevant_step :: "string list \<Rightarrow> InventoryEntry \<Rightarrow> string list \<times> string list \<Rightarrow> string list \<times> string list" where
  "relevant_step terms e = (\<lambda>(paths, matched).
     if \<not> ie_is_file e \<or> 20 \<le> length paths then (paths, matched)
     else if list_ex (\<lambda>term. contains term (LowerAscii (ie_path e))) terms
     then (paths @ [ie_path e], before_slash (ie_path e) # matched) else (paths, matched))"

definition comparison_step :: "string list \<Rightarrow> string list \<Rightarrow> InventoryEntry \<Rightarrow> string list \<Rightarrow> string list" where
  "comparison_step relevant matched e paths =
     (if \<not> ie_is_file e \<or> 8 \<le> length paths \<or> ie_path e \<in> set relevant then paths
      else if before_slash (ie_path e) \<in> set matched then paths @ [ie_path e] else paths)"

definition context_of :: "Inventory \<Rightarrow> string \<Rightarrow> IgnoreContextMode \<Rightarrow> nat \<Rightarrow> IgnoreContext" where
  "context_of inventory description mode maximum_summary_bytes =
     (let summary = ''Total files: '' @ to_string (inv_file_count inventory) @
            (if inv_truncated inventory then ''+ (truncated)'' @ [CHR 0x0A] else [CHR 0x0A]);
          start = \<lparr>ic_scanned_files = inv_file_count inventory, ic_truncated = inv_truncated inventory,
            ic_directory_summary = summary, ic_relevant_paths = [], ic_comparison_paths = []\<rparr>
      in case mode of
        kPrivate \<Rightarrow> start\<lparr>ic_directory_summary := private_summary (inv_entries inventory) maximum_summary_bytes summary\<rparr>
      | kPrecise \<Rightarrow>
         (let (relevant, matched) = fold (relevant_step (SearchTerms description)) (inv_entries inventory) ([], []) in
          start\<lparr>ic_directory_summary := precise_summary (inv_entries inventory) maximum_summary_bytes summary,
            ic_relevant_paths := relevant,
            ic_comparison_paths := fold (comparison_step relevant matched) (inv_entries inventory) []\<rparr>))"

definition BuildContext ::
  "(string \<Rightarrow> path option) \<Rightarrow> ScanView \<Rightarrow> string \<Rightarrow> string \<Rightarrow> IgnoreContextMode \<Rightarrow> nat \<Rightarrow> nat \<Rightarrow> (FileSystem, IgnoreContext) op" where
  "BuildContext canonical view task_root description mode maximum_files maximum_summary_bytes =
     thenS (guardS (description = [] \<or> 4096 < length description) (Invalid_argument ''ignore description must contain 1 to 4096 bytes''))
    (thenS (guardS (maximum_files = 0 \<or> maximum_summary_bytes < 256) (Invalid_argument ''ignore context limits are invalid''))
    (bindS (BuildInventory canonical view task_root maximum_files) (\<lambda>inventory.
     returnS (context_of inventory description mode maximum_summary_bytes))))"

section \<open>Preview\<close>

record IgnorePreview =
  pv_scanned_files :: nat
  pv_currently_ignored :: nat
  pv_proposed_ignored :: nat
  pv_newly_ignored :: nat
  pv_newly_included :: nat
  pv_tracked_newly_ignored :: nat
  pv_truncated :: bool
  pv_newly_ignored_samples :: "string list"
  pv_newly_included_samples :: "string list"
  pv_tracked_deletion_samples :: "string list"

definition add_sample :: "nat \<Rightarrow> string \<Rightarrow> string list \<Rightarrow> string list" where
  "add_sample maximum_samples path samples = (if length samples < maximum_samples then samples @ [path] else samples)"

definition preview_step :: "IgnoreRules \<Rightarrow> IgnoreRules \<Rightarrow> string list \<Rightarrow> nat \<Rightarrow> InventoryEntry \<Rightarrow> IgnorePreview \<Rightarrow> IgnorePreview result" where
  "preview_step current proposed tracked maximum_samples e p0 =
     (if \<not> ie_is_file e then Inr p0
      else bindE (IsIgnored current (ie_path e)) (\<lambda>was_ignored.
      bindE (IsIgnored proposed (ie_path e)) (\<lambda>will_be_ignored.
      let p1 = (if was_ignored then p0\<lparr>pv_currently_ignored := Suc (pv_currently_ignored p0)\<rparr> else p0);
          p2 = (if will_be_ignored then p1\<lparr>pv_proposed_ignored := Suc (pv_proposed_ignored p1)\<rparr> else p1) in
      Inr (if \<not> was_ignored \<and> will_be_ignored then
          let p3 = p2\<lparr>pv_newly_ignored := Suc (pv_newly_ignored p2),
                pv_newly_ignored_samples := add_sample maximum_samples (ie_path e) (pv_newly_ignored_samples p2)\<rparr> in
          if ie_path e \<in> set tracked then p3\<lparr>pv_tracked_newly_ignored := Suc (pv_tracked_newly_ignored p3),
              pv_tracked_deletion_samples := add_sample maximum_samples (ie_path e) (pv_tracked_deletion_samples p3)\<rparr>
          else p3
        else if was_ignored \<and> \<not> will_be_ignored then p2\<lparr>pv_newly_included := Suc (pv_newly_included p2),
            pv_newly_included_samples := add_sample maximum_samples (ie_path e) (pv_newly_included_samples p2)\<rparr>
        else p2))))"

definition Preview ::
  "(string \<Rightarrow> path option) \<Rightarrow> ScanView \<Rightarrow> string \<Rightarrow> string \<Rightarrow> string \<Rightarrow> string list \<Rightarrow> nat \<Rightarrow> nat \<Rightarrow> (FileSystem, IgnorePreview) op" where
  "Preview canonical view task_root current_rules proposed_rules tracked_paths maximum_files maximum_samples =
     bindS (liftS (\<lambda>_. Load current_rules IgnoreRules_new)) (\<lambda>current.
     bindS (liftS (\<lambda>_. Load proposed_rules IgnoreRules_new)) (\<lambda>proposed.
     bindS (BuildInventory canonical view task_root maximum_files) (\<lambda>inventory.
     liftS (\<lambda>_. foldE (preview_step current proposed tracked_paths maximum_samples) (inv_entries inventory)
       \<lparr>pv_scanned_files = inv_file_count inventory, pv_currently_ignored = 0, pv_proposed_ignored = 0, pv_newly_ignored = 0,
        pv_newly_included = 0, pv_tracked_newly_ignored = 0, pv_truncated = inv_truncated inventory,
        pv_newly_ignored_samples = [], pv_newly_included_samples = [], pv_tracked_deletion_samples = []\<rparr>))))"

end
