(* ===== verification/Policy_Properties.thy ===== *)
theory Policy_Properties
  imports Ignore_Policy Database_History Download_Reassembly One_Way_Properties
begin

text \<open>
  What the policy operations guarantee: the current revision in the database is the text of the rules file, a
  policy is applied only over the revision its author saw, undo restores the previous text, the preview counts
  exactly, and the private summary depends on nothing but depths and extensions.
\<close>

section \<open>Hashes of rules\<close>

lemma HashRules_encoded: "HashRules blake3 rules = EncodeHash (blake3 (map byte_of_char rules))"
  by (simp add: HashRules_def EncodeHash_def HexDigit_def kHex_def nibbles(2))

lemma HashRules_text:
  assumes "\<And>b. length (blake3 b) = 32"
  shows "length (HashRules blake3 rules) = 64" "nul_free (HashRules blake3 rules)"
proof -
  have "length (concat (map (\<lambda>x. [f x, g x]) xs)) = 2 * length xs" for f g :: "u8 \<Rightarrow> char" and xs
    by (induction xs) simp_all
  then show "length (HashRules blake3 rules) = 64" using assms by (simp add: HashRules_def)
  have "CHR 0x00 \<notin> set kHex" by (simp add: kHex_def)
  then have "kHex ! n \<noteq> CHR 0x00" if "n < 16" for n
    using that nth_mem [of n kHex] by (auto simp: kHex_def)
  then show "nul_free (HashRules blake3 rules)" using nibbles(3,4) by (fastforce simp: HashRules_def nibbles(1))
qed

section \<open>The rules file\<close>

definition rules_in :: "path \<Rightarrow> FileSystem \<Rightarrow> string option" where
  "rules_in root s = (case node_at s (root @ [''.veritasignore'']) of
     None \<Rightarrow> Some [] | Some (Regular b) \<Rightarrow> Some (map char_of_byte b) | _ \<Rightarrow> None)"

lemma Validate_empty: "Validate [] = Inr ()"
  by (simp add: Validate_def validate_line_def chomp_def trim_def)

lemma Validate_text: "Validate rules = Inr () \<Longrightarrow> length rules \<le> 16 * 1024 \<and> nul_free rules"
  by (auto simp: Validate_def split: if_splits)

lemma wp_ReadRules:
  assumes "real_dirs (node_at s) root" "rules_in root s \<noteq> None"
    and "\<And>e fs. Q (Inl e) (s\<lparr>fs_faults := fs\<rparr>)"
    and "\<And>rules fs. rules_in root s = Some rules \<Longrightarrow> Validate rules = Inr () \<Longrightarrow> Q (Inr rules) (s\<lparr>fs_faults := fs\<rparr>)"
  shows "wp (ReadRules root) Q s"
proof -
  let ?p = "root @ [''.veritasignore'']"
  have link: "\<forall>x. node_at s ?p \<noteq> Some (Symlink x)" using assms(2) by (auto simp: rules_in_def)
  note real = real_path_real [OF assms(1) link] file_bytes_real [OF assms(1) link]
  have absent: "Q (Inr []) (s\<lparr>fs_faults := fs\<rparr>)" if "status_of s (real_path s ?p) = stNotFound" for fs
    using that assms(4) [of "[]"] real(1) by (simp add: status_of_def rules_in_def Validate_empty)
  have present: "wp (thenS (liftS (\<lambda>_. Validate (map char_of_byte b))) (returnS (map char_of_byte b))) Q (s\<lparr>fs_faults := fs\<rparr>)"
    if "file_bytes s ?p = Some b" for b fs
    using that assms(3) assms(4) [of "map char_of_byte b"] real(2)
    by (cases "Validate (map char_of_byte b)") (simp_all add: rules_in_def)
  show ?thesis
    unfolding ReadRules_def Let_def wp_bind
  proof (rule wp_open, goal_cases)
    case (1 fs)
    show ?case
      unfolding onward_simps if_P [OF TrueI] simp_thms wp_bind
      by (rule wp_status) (use assms(3) absent in auto)
  next
    case (2 fs b)
    then show ?case
      using assms(3) present [of b] by (auto intro!: wp_next_fault simp del: wp_then simp: wp_bind wp_then [of "guardS _ _"])
  qed
qed

section \<open>Synchronising with the file\<close>

definition policy_task :: "'t Services \<Rightarrow> string \<Rightarrow> string \<Rightarrow> path \<Rightarrow> 'm Device_scheme \<Rightarrow> bool" where
  "policy_task svc k task_root root s \<longleftrightarrow> k \<noteq> [] \<and> nul_free k \<and> task_exists k (db_tables (sn_database s)) \<and>
     db_inv (sn_database s) \<and> db_saved (sn_database s) = None \<and> (\<forall>b. length (svc_blake3 svc b) = 32) \<and>
     svc_canonical svc task_root = Some root \<and> svc_native svc task_root = root \<and> canonical_root root \<and>
     real_dirs (node_at (sn_files s)) root \<and> rules_in root (sn_files s) \<noteq> None"

definition current_policy :: "string \<Rightarrow> 'm Device_scheme \<Rightarrow> IgnorePolicyState option" where
  "current_policy k s = (case CurrentIgnorePolicyRevision k (db_tables (sn_database s)) of
     Inr (Some r) \<Rightarrow> Some (policy_state r) | _ \<Rightarrow> None)"

text \<open>The node after a call that left the entries alone, and the policy that matches them.\<close>

definition synchronized :: "'t Services \<Rightarrow> string \<Rightarrow> string \<Rightarrow> path \<Rightarrow> 'm Device_scheme \<Rightarrow> IgnorePolicyState \<Rightarrow> 'm Device_scheme \<Rightarrow> bool" where
  "synchronized svc k task_root root s st t \<longleftrightarrow> policy_task svc k task_root root t \<and> current_policy k t = Some st \<and>
     rules_in root (sn_files s) = Some (st_rules st) \<and> Validate (st_rules st) = Inr () \<and>
     st_content_hash st = HashRules (svc_blake3 svc) (st_rules st) \<and>
     (\<exists>d fs. t = s\<lparr>sn_database := d, sn_files := (sn_files s)\<lparr>fs_faults := fs\<rparr>\<rparr> \<and>
       (d = sn_database s \<or>
        \<not> (\<exists>c. current_policy k s = Some c \<and> st_rules c = st_rules st \<and> st_content_hash c = st_content_hash st) \<and>
        (\<exists>r t'. with_revision k (st_rules st) (st_content_hash st) ''manual'' (st_created_at_ms st) (db_tables (sn_database s)) =
          (r, t') \<and> d = (sn_database s)\<lparr>db_tables := t'\<rparr>)))"

lemma rules_in_faults [simp]: "rules_in root (s\<lparr>fs_faults := fs\<rparr>) = rules_in root s"
  by (simp add: rules_in_def)

lemma policy_task_faults:
  "policy_task svc k task_root root (s\<lparr>sn_files := (sn_files s)\<lparr>fs_faults := fs\<rparr>\<rparr>) = policy_task svc k task_root root s"
  by (simp add: policy_task_def)

lemma FindTask_exists: "k \<noteq> [] \<Longrightarrow> nul_free k \<Longrightarrow> task_exists k t \<Longrightarrow> \<exists>task. FindTask k t = Inr (Some task)"
  by (auto simp: FindTask_def row_of_has_key)

lemma record_policy:
  assumes s: "policy_task svc k task_root root s" and now: "0 < now" and rules: "Validate rules = Inr ()"
    and src: "src \<in> {''manual'', ''ai'', ''undo''}"
    and r: "with_revision k rules (HashRules (svc_blake3 svc) rules) src now (db_tables (sn_database s)) = (r, t')"
  shows "RecordIgnorePolicyRevision k rules (HashRules (svc_blake3 svc) rules) src now (sn_database s) =
       (Inr r, (sn_database s)\<lparr>db_tables := t'\<rparr>)"
    and "policy_task svc k task_root root (s\<lparr>sn_database := (sn_database s)\<lparr>db_tables := t'\<rparr>\<rparr>)"
    and "CurrentIgnorePolicyRevision k t' = Inr (Some r)" "revisions_of k t' = r # revisions_of k (db_tables (sn_database s))"
    and "ip_content r = rules" "ip_content_hash r = HashRules (svc_blake3 svc) rules" "ip_source r = src" "ip_created_at_ms r = now"
proof -
  have inv: "tables_inv (db_tables (sn_database s))" "task_exists k (db_tables (sn_database s))"
    using s by (simp_all add: policy_task_def db_inv_def)
  have limits: "length rules \<le> 16 * 1024" "nul_free rules" using Validate_text [OF rules] by blast+
  note hash = HashRules_text [of "svc_blake3 svc" rules]
  have tasks: "t_tasks t' = t_tasks (db_tables (sn_database s))" using r by (auto simp: with_revision_def Let_def)
  show "RecordIgnorePolicyRevision k rules (HashRules (svc_blake3 svc) rules) src now (sn_database s) =
      (Inr r, (sn_database s)\<lparr>db_tables := t'\<rparr>)"
    using record_revision_run [of "sn_database s" k "HashRules (svc_blake3 svc) rules" rules src now] s now limits(1) src hash inv(2) r
    by (simp add: policy_task_def)
  show "policy_task svc k task_root root (s\<lparr>sn_database := (sn_database s)\<lparr>db_tables := t'\<rparr>\<rparr>)"
    using s with_revision_facts(1) [OF inv r] by (simp add: policy_task_def db_inv_def task_exists_iff tasks)
  show "CurrentIgnorePolicyRevision k t' = Inr (Some r)" "revisions_of k t' = r # revisions_of k (db_tables (sn_database s))"
    using with_revision_facts(3,4) [OF inv r] s limits(2) by (simp_all add: policy_task_def)
  show "ip_content r = rules" "ip_content_hash r = HashRules (svc_blake3 svc) rules" "ip_source r = src" "ip_created_at_ms r = now"
    using r by (auto simp: with_revision_def Let_def)
qed

lemma record_revision_outcome:
  assumes "policy_task svc k task_root root s" "0 < now" "Validate rules = Inr ()" "src \<in> {''manual'', ''ai'', ''undo''}"
    and "with_revision k rules (HashRules (svc_blake3 svc) rules) src now (db_tables (sn_database s)) = (r, t')"
  shows "record_revision svc k rules (HashRules (svc_blake3 svc) rules) src now (sn_database s) =
    (if svc_sqlite_fails svc (sn_database s) then (Inl (Runtime_error ''insert ignore policy revision''), sn_database s)
     else (Inr r, (sn_database s)\<lparr>db_tables := t'\<rparr>))"
  using record_policy(1) [OF assms] by (simp add: record_revision_def)

lemma wp_Synchronize:
  assumes s: "policy_task svc k task_root root s" and now: "0 < now"
    and failed: "\<And>e fs. Q (Inl e) (s\<lparr>sn_files := (sn_files s)\<lparr>fs_faults := fs\<rparr>\<rparr>)"
    and okay: "\<And>st t. synchronized svc k task_root root s st t \<Longrightarrow> Q (Inr st) t"
  shows "wp (Synchronize svc k task_root now) Q s"
proof -
  obtain task where task: "FindTask k (db_tables (sn_database s)) = Inr (Some task)"
    using FindTask_exists [of k "db_tables (sn_database s)"] s by (auto simp: policy_task_def)
  have files: "real_dirs (node_at (sn_files s)) root" "rules_in root (sn_files s) \<noteq> None" "svc_native svc task_root = root" "k \<noteq> []"
    using s by (simp_all add: policy_task_def)
  obtain current where current: "CurrentIgnorePolicyRevision k (db_tables (sn_database s)) = Inr current"
    using files(4) by (simp add: CurrentIgnorePolicyRevision_def)
  let ?h = "HashRules (svc_blake3 svc)"
  let ?store = "\<lambda>rules. wp (node_db (record_revision svc k rules (?h rules) ''manual'' now))
      (onward Q (\<lambda>r. wp (returnS (policy_state r)) Q))"
  have recorded: "?store rules (s\<lparr>sn_files := (sn_files s)\<lparr>fs_faults := fs\<rparr>\<rparr>)"
    if rules: "rules_in root (sn_files s) = Some rules" "Validate rules = Inr ()"
      and stale: "\<nexists>c. current = Some c \<and> ip_content c = rules \<and> ip_content_hash c = ?h rules" for rules fs
  proof -
    let ?s = "s\<lparr>sn_files := (sn_files s)\<lparr>fs_faults := fs\<rparr>\<rparr>"
    have "policy_task svc k task_root root ?s" using s by (simp add: policy_task_faults)
    moreover obtain r t' where r: "with_revision k rules (?h rules) ''manual'' now (db_tables (sn_database ?s)) = (r, t')" by fastforce
    ultimately have facts: "record_revision svc k rules (?h rules) ''manual'' now (sn_database s) =
        (if svc_sqlite_fails svc (sn_database s) then (Inl (Runtime_error ''insert ignore policy revision''), sn_database s)
         else (Inr r, (sn_database s)\<lparr>db_tables := t'\<rparr>))"
      "policy_task svc k task_root root (?s\<lparr>sn_database := (sn_database s)\<lparr>db_tables := t'\<rparr>\<rparr>)"
      "CurrentIgnorePolicyRevision k t' = Inr (Some r)" "ip_content r = rules" "ip_content_hash r = ?h rules" "ip_created_at_ms r = now"
      using record_policy [of svc k task_root root ?s now rules "''manual''" r t'] record_revision_outcome [of svc k task_root root ?s now rules "''manual''" r t']
        now rules(2) by simp_all
    have "synchronized svc k task_root root s (policy_state r) (?s\<lparr>sn_database := (sn_database s)\<lparr>db_tables := t'\<rparr>\<rparr>)"
      using r facts rules stale current unfolding synchronized_def
      by (auto simp: current_policy_def policy_state_def split: option.splits intro!: exI [of _ "(sn_database s)\<lparr>db_tables := t'\<rparr>"] exI [of _ fs])
    then show ?thesis using facts(1) okay failed by (simp add: wp_def zoomS_def returnS_def)
  qed
  have "Q (Inr (policy_state r)) (s\<lparr>sn_files := (sn_files s)\<lparr>fs_faults := fs\<rparr>\<rparr>)"
    if "rules_in root (sn_files s) = Some rules" "Validate rules = Inr ()" "current = Some r" "ip_content_hash r = ?h rules" "ip_content r = rules" for rules r fs
  proof (rule okay)
    show "synchronized svc k task_root root s (policy_state r) (s\<lparr>sn_files := (sn_files s)\<lparr>fs_faults := fs\<rparr>\<rparr>)"
      using that s current unfolding synchronized_def
      by (auto simp: policy_task_faults current_policy_def policy_state_def intro!: exI [of _ "sn_database s"] exI [of _ fs])
  qed
  then have found: "wp (case current of Some r \<Rightarrow> if ip_content_hash r \<noteq> ?h rules \<or> ip_content r \<noteq> rules
      then node_db (record_revision svc k rules (?h rules) ''manual'' now) else returnS r
      | None \<Rightarrow> node_db (record_revision svc k rules (?h rules) ''manual'' now)) (onward Q (\<lambda>r. wp (returnS (policy_state r)) Q))
      (s\<lparr>sn_files := (sn_files s)\<lparr>fs_faults := fs\<rparr>\<rparr>)"
    if "rules_in root (sn_files s) = Some rules" "Validate rules = Inr ()" for rules fs
    using that recorded [OF that] by (cases current) (simp_all del: wp_zoom, force?)
  show ?thesis
    unfolding Synchronize_def wp_then wp_guard wp_bind wp_lift wp_zoom files(3)
    using files(4) now
    by (simp add: task del: wp_bind wp_zoom)
      (rule wp_ReadRules [OF files(1,2)]; use failed found current in \<open>simp add: Let_def wp_bind del: wp_zoom wp_return\<close>)
qed

section \<open>Applying a policy\<close>

text \<open>What a call that applies \<open>rules\<close> over \<open>expected_hash\<close> leaves behind, whether it returns or throws.\<close>

definition apply_effect ::
  "'t Services \<Rightarrow> string \<Rightarrow> string \<Rightarrow> path \<Rightarrow> string \<Rightarrow> string \<Rightarrow> 'm Device_scheme \<Rightarrow> IgnorePolicyState result \<Rightarrow> 'm Device_scheme \<Rightarrow> bool" where
  "apply_effect svc k task_root root expected_hash rules s r t \<longleftrightarrow> (case r of
     Inl _ \<Rightarrow> rules_in root (sn_files t) = rules_in root (sn_files s) \<or>
       svc_sqlite_fails svc (sn_database t) \<and> rules_in root (sn_files t) = Some rules \<and>
       (\<exists>old. rules_in root (sn_files s) = Some (st_rules old) \<and> expected_hash = HashRules (svc_blake3 svc) (st_rules old) \<and>
         current_policy k t = Some old)
   | Inr st \<Rightarrow> (\<exists>old. rules_in root (sn_files s) = Some old \<and> expected_hash = HashRules (svc_blake3 svc) old \<and>
       st_rules st = rules \<and> st_content_hash st = HashRules (svc_blake3 svc) rules \<and>
       rules_in root (sn_files t) = Some rules \<and> current_policy k t = Some st))"

lemma rules_file: "path_components ''.veritasignore'' = [''.veritasignore'']" "safe_relative ''.veritasignore''"
  by (simp_all add: path_components_def safe_relative_def is_rooted_def is_letter_def check_component_def is_device_name_def to_upper_def is_control_def)

lemma wp_SafeFileWriter_new:
  assumes "canonical task_root = Some root" "canonical_root root"
    and "\<And>e fs. Q (Inl e) (s\<lparr>fs_faults := fs\<rparr>)" "\<And>fs. Q (Inr \<lparr>wr_task_root = task_root, wr_canonical = canonical\<rparr>) (s\<lparr>fs_faults := fs\<rparr>)"
  shows "wp (SafeFileWriter_new canonical task_root) Q s"
proof -
  let ?w = "\<lparr>wr_task_root = task_root, wr_canonical = canonical\<rparr>"
  have "wp (resolve ?w ''.veritassync-validation'') (onward Q (\<lambda>_. wp (returnS ?w) Q)) s"
    by (rule wp_resolve [of ?w root]) (use assms in auto)
  then show ?thesis by (simp add: SafeFileWriter_new_def)
qed

lemma real_dirs_kept:
  assumes "real_dirs (node_at s) root" "\<And>q. node_at t q \<noteq> node_at s q \<Longrightarrow> strict_prefix root q"
  shows "real_dirs (node_at t) root"
  unfolding real_dirs_def
proof (intro allI impI)
  fix i assume i: "i < length root"
  have "\<not> strict_prefix root (take (Suc i) root)" by (auto dest: prefix_length_less)
  then show "node_at t (take (Suc i) root) = Some Directory" using assms(1,2) i by (metis real_dirs_def)
qed

lemma wp_Policy_Apply:
  assumes s: "policy_task svc k task_root root s" and now: "0 < now" and part: "plain_part (sn_files s) (root @ [''.veritasignore''])"
    and failed: "\<And>e t. rules_in root (sn_files t) = rules_in root (sn_files s) \<Longrightarrow> Q (Inl e) t"
    and late: "\<And>e st m files. synchronized svc k task_root root s st m \<Longrightarrow> expected_hash = st_content_hash st \<Longrightarrow>
      svc_sqlite_fails svc (sn_database m) \<Longrightarrow> rules_in root files = Some rules \<Longrightarrow> Q (Inl e) (m\<lparr>sn_files := files\<rparr>)"
    and same: "\<And>st t. synchronized svc k task_root root s st t \<Longrightarrow> expected_hash = st_content_hash st \<Longrightarrow> rules = st_rules st \<Longrightarrow> Q (Inr st) t"
    and changed: "\<And>st m files r t'. synchronized svc k task_root root s st m \<Longrightarrow> expected_hash = st_content_hash st \<Longrightarrow>
      rules \<noteq> st_rules st \<Longrightarrow> Validate rules = Inr () \<Longrightarrow> src \<in> {''manual'', ''ai'', ''undo''} \<Longrightarrow>
      with_revision k rules (HashRules (svc_blake3 svc) rules) src now (db_tables (sn_database m)) = (r, t') \<Longrightarrow>
      rules_in root files = Some rules \<Longrightarrow> real_dirs (node_at files) root \<Longrightarrow>
      Q (Inr (policy_state r)) (m\<lparr>sn_files := files, sn_database := (sn_database m)\<lparr>db_tables := t'\<rparr>\<rparr>)"
  shows "wp (Policy_Apply svc k task_root expected_hash rules src now) Q s"
proof -
  have publish: "wp (node_files (SafeFileWriter_new (svc_canonical svc) task_root)) (onward Q (\<lambda>writer.
      wp (thenS (node_files (WriteAtomically writer ''.veritasignore'' (map byte_of_char rules)))
        (bindS (node_db (record_revision svc k rules (HashRules (svc_blake3 svc) rules) src now)) (\<lambda>r. returnS (policy_state r)))) Q)) m"
    if m: "synchronized svc k task_root root s st m" "expected_hash = st_content_hash st" "rules \<noteq> st_rules st"
      and rules: "Validate rules = Inr ()" "src \<in> {''manual'', ''ai'', ''undo''}" for st m
  proof -
    let ?w = "\<lparr>wr_task_root = task_root, wr_canonical = svc_canonical svc\<rparr>"
    have task: "policy_task svc k task_root root m" using m(1) by (simp add: synchronized_def)
    obtain fs where files: "sn_files m = (sn_files s)\<lparr>fs_faults := fs\<rparr>" using m(1) by (auto simp: synchronized_def)
    have root: "svc_canonical svc task_root = Some root" "canonical_root root" "real_dirs (node_at (sn_files m)) root"
      using task by (simp_all add: policy_task_def)
    obtain r t' where r: "with_revision k rules (HashRules (svc_blake3 svc) rules) src now (db_tables (sn_database m)) = (r, t')"
      by fastforce
    note rec = record_revision_outcome [OF task now rules r]
    have written: "wp (WriteAtomically ?w ''.veritasignore'' (map byte_of_char rules))
        (\<lambda>x f. onward Q (\<lambda>_. wp (bindS (node_db (record_revision svc k rules (HashRules (svc_blake3 svc) rules) src now))
          (\<lambda>r. returnS (policy_state r))) Q) x (m\<lparr>sn_files := f\<rparr>)) ((sn_files m)\<lparr>fs_faults := fs'\<rparr>)" for fs'
    proof (rule wp_mono [OF wp_WriteAtomically [of ?w root]], goal_cases)
      case (5 x f)
      then have effect: "node_at f (root @ [''.veritasignore'']) = (if x = Inr () then Some (Regular (map byte_of_char rules)) else node_at (sn_files s) (root @ [''.veritasignore'']))"
        and others: "\<And>q. q \<noteq> root @ [''.veritasignore''] \<Longrightarrow> node_at f q \<noteq> node_at (sn_files m) q \<Longrightarrow> strict_prefix root q"
        by (auto simp: atomic_effect_def rules_file files)
      have "strict_prefix root q" if "node_at f q \<noteq> node_at (sn_files m) q" for q
        using others [of q] that by (cases "q = root @ [''.veritasignore'']") (simp_all add: strict_prefix_def)
      then have "real_dirs (node_at f) root" by (rule real_dirs_kept [OF root(3)])
      show ?case
      proof (cases x)
        case (Inl e)
        then show ?thesis using failed effect by (simp add: rules_in_def)
      next
        case (Inr u)
        then have "rules_in root f = Some rules" using effect by (simp add: rules_in_def comp_def)
        then have "Q (Inr (policy_state r)) (m\<lparr>sn_files := f, sn_database := (sn_database m)\<lparr>db_tables := t'\<rparr>\<rparr>)"
          using changed [OF m rules r] \<open>real_dirs (node_at f) root\<close> by blast
        then show ?thesis using Inr rec late [OF m(1,2) _ \<open>rules_in root f = Some rules\<close>] by (simp add: wp_def zoomS_def bindS_def returnS_def)
      qed
    qed (use root part files rules_file in simp_all)
    show ?thesis
      unfolding wp_zoom
      by (rule wp_SafeFileWriter_new [of "svc_canonical svc" task_root root, OF root(1,2)]) (use failed files written in simp_all)
  qed
  have main: "wp (bindS (Synchronize svc k task_root now) (\<lambda>current.
       thenS (guardS (expected_hash \<noteq> st_content_hash current) (Invalid_argument ''ignore policy changed; refresh before applying''))
      (if rules = st_rules current then returnS current else
       bindS (node_files (SafeFileWriter_new (svc_canonical svc) task_root)) (\<lambda>writer.
       thenS (node_files (WriteAtomically writer ''.veritasignore'' (map byte_of_char rules)))
      (bindS (node_db (record_revision svc k rules (HashRules (svc_blake3 svc) rules) src now)) (\<lambda>recorded.
       returnS (policy_state recorded))))))) Q s"
    if "src \<in> {''manual'', ''ai'', ''undo''}" "Validate rules = Inr ()"
    unfolding wp_bind [of "Synchronize svc k task_root now"]
  proof (rule wp_Synchronize [OF s now], goal_cases)
    case (2 st m)
    then have "rules_in root (sn_files m) = rules_in root (sn_files s)" by (auto simp: synchronized_def)
    then show ?case using 2 that failed same publish by (simp del: wp_zoom)
  qed (simp add: failed)
  show ?thesis
    unfolding Policy_Apply_def wp_then wp_lift wp_guard
    by (cases "Validate rules"; cases "src \<in> {''manual'', ''ai'', ''undo''}") (use failed main in \<open>auto simp del: wp_bind wp_then\<close>)
qed

lemma policy_compare_and_swap_wp:
  assumes "policy_task svc k task_root root s" "0 < now" "plain_part (sn_files s) (root @ [''.veritasignore''])"
  shows "wp (Policy_Apply svc k task_root expected_hash rules src now) (apply_effect svc k task_root root expected_hash rules s) s"
proof (rule wp_Policy_Apply [OF assms], goal_cases)
  case (2 e st m files)
  then show ?case by (auto simp: apply_effect_def synchronized_def current_policy_def)
next
  case (3 st t)
  then show ?case by (auto simp: apply_effect_def synchronized_def)
next
  case (4 st m files r t')
  then have "policy_task svc k task_root root m" by (simp add: synchronized_def)
  note facts = record_policy [OF this assms(2) 4(4-6)]
  then show ?case using 4 by (auto simp: apply_effect_def synchronized_def current_policy_def policy_state_def)
qed (simp add: apply_effect_def)

text \<open>
  C32: a policy is applied only over the revision its author saw.  Let the task exist in a database with no open transaction, let
  its root be a real directory whose rules file is absent or regular, and let no link bear the temporary name of the write.  Whatever
  calls of the file system or of SQLite fail: when the call returns, the rules in force before had the expected hash, the file holds
  the new rules, and they are the current revision of the task with their own hash.  When it throws, the rules file is as it was,
  unless SQLite failed to record the revision, which happens after the file was written; then the file holds the new rules, the
  rules before had the expected hash, and the current revision is still theirs.
\<close>

theorem policy_compare_and_swap:
  assumes "policy_task svc k task_root root s" "0 < now" "plain_part (sn_files s) (root @ [''.veritasignore''])"
    and "Policy_Apply svc k task_root expected_hash rules src now s = (r, t)"
  shows "case r of
      Inl _ \<Rightarrow> rules_in root (sn_files t) = rules_in root (sn_files s) \<or>
        svc_sqlite_fails svc (sn_database t) \<and> rules_in root (sn_files t) = Some rules \<and>
        (\<exists>old. rules_in root (sn_files s) = Some (st_rules old) \<and> expected_hash = HashRules (svc_blake3 svc) (st_rules old) \<and>
          current_policy k t = Some old)
    | Inr st \<Rightarrow> (\<exists>old. rules_in root (sn_files s) = Some old \<and> expected_hash = HashRules (svc_blake3 svc) old) \<and>
        st_rules st = rules \<and> st_content_hash st = HashRules (svc_blake3 svc) rules \<and>
        rules_in root (sn_files t) = Some rules \<and> current_policy k t = Some st"
  using wpD [OF policy_compare_and_swap_wp [OF assms(1-3)] assms(4)] unfolding apply_effect_def by (cases r) auto

section \<open>Undo\<close>

lemma current_is_latest:
  assumes inv: "tables_inv t" and k: "k \<noteq> []" "nul_free k" and c: "CurrentIgnorePolicyRevision k t = Inr (Some c)"
  obtains h rest where "revisions_of k t = h # rest" "c = read_revision k h"
proof -
  obtain st h where st: "row_of pst_task_id k (t_policy_state t) = Some st"
    and h: "row_of revision_key (pst_task_id st, pst_revision st) (t_policy_revisions t) = Some h" "c = read_revision k h"
    using c k by (auto simp: CurrentIgnorePolicyRevision_def split: option.splits)
  have pst: "st \<in> set (t_policy_state t)" "pst_task_id st = k" using row_of_SomeD [OF st] by blast+
  have row: "h \<in> set (t_policy_revisions t)" "revision_key h = (k, pst_revision st)" using row_of_SomeD [OF h(1)] pst(2) by auto
  have "Suc (pst_revision st) = next_revision k t"
    using inv pst by (auto simp: tables_inv_def policies_inv_def)
  then have numbers: "map ip_revision (revisions_of k t) = rev [1..<Suc (pst_revision st)]"
    using revision_numbers [OF inv, of k] by simp
  have mem: "h \<in> set (revisions_of k t)" using row by (simp add: revisions_of_def order_by_def)
  obtain x xs where x: "revisions_of k t = x # xs" using mem by (cases "revisions_of k t") auto
  have "ip_revision x = pst_revision st" using numbers x mem by (cases "pst_revision st") auto
  moreover have "x \<in> set (t_policy_revisions t)" "ip_task_id x = k"
    using x list.set_intros(1) [of x xs] by (simp_all add: revisions_of_def order_by_def flip: x)
  moreover have "ip_task_id h = k" "ip_revision h = pst_revision st" using row(2) by auto
  ultimately have "x = h"
    using inv_unique(9) [OF inv] row(1) by (auto simp: distinct_map dest!: inj_onD [of revision_key _ x h])
  then show ?thesis using that x h(2) by blast
qed

definition undo_effect ::
  "'t Services \<Rightarrow> string \<Rightarrow> string \<Rightarrow> path \<Rightarrow> string \<Rightarrow> 'm Device_scheme \<Rightarrow> IgnorePolicyState result \<Rightarrow> 'm Device_scheme \<Rightarrow> bool" where
  "undo_effect svc k task_root root expected_hash s r t \<longleftrightarrow> (case r of
     Inl _ \<Rightarrow> rules_in root (sn_files t) = rules_in root (sn_files s)
   | Inr _ \<Rightarrow> (\<exists>st m h1 h2 rest. synchronized svc k task_root root s st m \<and> expected_hash = st_content_hash st \<and>
       revisions_of k (db_tables (sn_database m)) = h1 # h2 # rest \<and>
       apply_effect svc k task_root root (st_content_hash st) (cstr (ip_content h2)) m r t))"

lemma wp_Policy_Undo:
  assumes "policy_task svc k task_root root s" "0 < now" "plain_part (sn_files s) (root @ [''.veritasignore''])" "\<forall>d. \<not> svc_sqlite_fails svc d"
  shows "wp (Policy_Undo svc k task_root expected_hash now) (undo_effect svc k task_root root expected_hash s) s"
  unfolding Policy_Undo_def wp_bind [of "Synchronize svc k task_root now"]
proof (rule wp_Synchronize [OF assms(1,2)], goal_cases)
  case (2 st m)
  have task: "policy_task svc k task_root root m" and same: "rules_in root (sn_files m) = rules_in root (sn_files s)"
    and files: "\<exists>fs. sn_files m = (sn_files s)\<lparr>fs_faults := fs\<rparr>"
    using 2 by (auto simp: synchronized_def)
  have part: "plain_part (sn_files m) (root @ [''.veritasignore''])" using files assms(3) by auto
  have k: "k \<noteq> []" "nul_free k" using task by (simp_all add: policy_task_def)
  let ?rs = "revisions_of k (db_tables (sn_database m))"
  have history: "ListIgnorePolicyRevisions k 2 (db_tables (sn_database m)) = Inr (map (read_revision k) (take 2 ?rs))"
    using k by (simp add: ListIgnorePolicyRevisions_def revisions_of_def)
  have failed: "undo_effect svc k task_root root expected_hash s (Inl e) m" for e
    using same by (simp add: undo_effect_def)
  have "wp (Policy_Apply svc k task_root (st_content_hash st) (cstr (ip_content h2)) ''undo'' now) (undo_effect svc k task_root root expected_hash s) m"
    if "?rs = h1 # h2 # rest" "expected_hash = st_content_hash st" for h1 h2 rest
  proof -
    have "wp (Policy_Apply svc k task_root (st_content_hash st) (cstr (ip_content h2)) ''undo'' now)
        (apply_effect svc k task_root root (st_content_hash st) (cstr (ip_content h2)) m) m"
      using policy_compare_and_swap_wp [OF task assms(2) part] .
    then show ?thesis
    proof (rule wp_mono, goal_cases)
      case (1 r t)
      show ?case
      proof (cases r)
        case (Inl e)
        then show ?thesis using 1 same assms(4) by (simp add: undo_effect_def apply_effect_def)
      next
        case (Inr x)
        then show ?thesis unfolding undo_effect_def Inr sum.case using 1 [unfolded Inr] 2 that by blast
      qed
    qed
  qed
  then show ?case
    using failed history by (cases ?rs rule: remdups_adj.cases) (auto simp: read_revision_def)
qed (simp add: undo_effect_def)

section \<open>When nothing fails\<close>

lemma real_dirs_child [simp]: "real_dirs (nodes(d @ [x] := n)) d = real_dirs nodes d"
proof -
  have "take (Suc i) d \<noteq> d @ [x]" for i by (auto dest: arg_cong [of _ _ length])
  then show ?thesis by (simp add: real_dirs_def)
qed

lemma WriteAtomically_ok:
  assumes place: "download_place w rel d c s" and fresh: "node_at s (d @ [c @ part_suffix s]) = None"
  shows "\<exists>t. WriteAtomically w rel bs s = (Inr (), t)"
proof -
  have ok: "fs_faults s = []" "real_dirs (node_at s) d" "\<forall>x. node_at s (d @ [c]) \<noteq> Some (Symlink x)" "node_at s (d @ [c]) \<noteq> Some Directory" "d \<noteq> []"
    using place place_parent [OF place] by (auto simp: download_place_def)
  let ?p = "c @ part_suffix s" and ?s = "s\<lparr>fs_serial := fs_serial s + 1\<rparr>"
  have make: "MakePartPath (d @ [c]) s = (Inr (d @ [?p]), ?s)" by (simp add: MakePartPath_def part_suffix_def)
  have nodes: "node_at ?s = node_at s" by (simp add: fun_eq_iff node_at_def)
  have s: "fs_faults ?s = []" "real_dirs (node_at ?s) d" "node_at ?s (d @ [?p]) = None" using ok fresh by (simp_all add: nodes)
  let ?t = "set_node (d @ [?p]) (Regular []) ?s"
  have create: "sys_create_file (d @ [?p]) ?s = (Inr True, ?t)" using create_part [OF s(1,2) ok(5) s(3)] .
  have t: "fs_faults ?t = []" "node_at ?t = (node_at s)(d @ [?p] \<mapsto> Regular [])" using ok(1) by (simp_all add: set_node_def nodes [unfolded node_at_def] node_at_def fun_eq_iff)
  have dirs: "real_dirs (node_at ?t) d" unfolding t(2) using ok(2) by simp
  have "\<exists>u b. (if bs = [] then returnS True else sys_write (d @ [?p]) 0 bs) ?t = (Inr True, u) \<and> fs_faults u = [] \<and>
      node_at u = (node_at s)(d @ [?p] \<mapsto> Regular b)"
    using write_existing_part [OF t(1) dirs, of ?p "[]" 0 bs] t by (auto simp: returnS_def)
  then obtain u b where u: "(if bs = [] then returnS True else sys_write (d @ [?p]) 0 bs) ?t = (Inr True, u)" "fs_faults u = []"
      "node_at u = (node_at s)(d @ [?p] \<mapsto> Regular b)" by blast
  have "real_dirs (node_at u) d" using ok(2) by (simp add: u(3))
  moreover have "?p \<noteq> c" by (simp add: part_suffix_def)
  ultimately have "\<exists>v. thenS (FlushPartFile (d @ [?p])) (CommitPart (d @ [?p]) (d @ [c])) u = (Inr (), v)"
    using u(2,3) ok(4) by (simp add: thenS_def bindS_def FlushPartFile_ok CommitPart_def sys_move_def op_defs entry_path_real)
  then have "\<exists>v. write_part (d @ [?p]) (d @ [c]) bs ?s = (Inr (), v)"
    using u(1) create by (simp add: write_part_def op_defs)
  then show ?thesis
    using place_resolve [OF place] EnsureSafeDirectory_ok [OF ok(2,1)] RejectSymlink_ok [OF ok(1-3)] make
    by (auto simp: WriteAtomically_def op_defs catchS_def)
qed

lemma ReadRules_ok:
  assumes "real_dirs (node_at s) root" "fs_faults s = []" "rules_in root s = Some rules" "Validate rules = Inr ()"
  shows "ReadRules root s = (Inr rules, s)"
proof -
  have "\<forall>x. node_at s (root @ [''.veritasignore'']) \<noteq> Some (Symlink x)" using assms(3) by (auto simp: rules_in_def)
  note real = real_path_real [OF assms(1) this] file_bytes_real [OF assms(1) this]
  show ?thesis
  proof (cases "node_at s (root @ [''.veritasignore''])")
    case None
    then have "file_bytes s (root @ [''.veritasignore'']) = None" using real(1) by (simp add: file_bytes_def)
    then show ?thesis
      using assms(2,3) None real(1) by (simp add: ReadRules_def Let_def op_defs status_of_def rules_in_def)
  next
    case (Some n)
    then obtain b where b: "n = Regular b" "rules = map char_of_byte b" using assms(3) by (cases n) (auto simp: rules_in_def)
    then have "file_bytes s (root @ [''.veritasignore'']) = Some b" using Some real(2) by simp
    then show ?thesis using assms(2,4) b by (simp add: ReadRules_def Let_def op_defs)
  qed
qed

lemma Synchronize_ok:
  assumes s: "policy_task svc k task_root root s" "0 < now" and calm: "\<forall>d. \<not> svc_sqlite_fails svc d" and files: "fs_faults (sn_files s) = []"
    and rules: "rules_in root (sn_files s) = Some rules" "Validate rules = Inr ()"
  shows "\<exists>st t. Synchronize svc k task_root now s = (Inr st, t) \<and> synchronized svc k task_root root s st t \<and> sn_files t = sn_files s"
proof -
  obtain task where task: "FindTask k (db_tables (sn_database s)) = Inr (Some task)"
    using FindTask_exists [of k "db_tables (sn_database s)"] s by (auto simp: policy_task_def)
  obtain current where current: "CurrentIgnorePolicyRevision k (db_tables (sn_database s)) = Inr current"
    using s(1) by (simp add: policy_task_def CurrentIgnorePolicyRevision_def)
  have read: "ReadRules root (sn_files s) = (Inr rules, sn_files s)"
    using s(1) files rules by (intro ReadRules_ok) (simp_all add: policy_task_def)
  obtain r t' where "with_revision k rules (HashRules (svc_blake3 svc) rules) ''manual'' now (db_tables (sn_database s)) = (r, t')" by fastforce
  note rec = record_revision_outcome [OF s rules(2) _ this]
  have "\<exists>st t. Synchronize svc k task_root now s = (Inr st, t) \<and> sn_files t = sn_files s"
    using s task current read rec calm
    by (cases current) (simp_all add: Synchronize_def policy_task_def op_defs zoomS_def Let_def)
  then obtain st t where run: "Synchronize svc k task_root now s = (Inr st, t)" "sn_files t = sn_files s" by blast
  have "wp (Synchronize svc k task_root now) (\<lambda>r t. \<forall>st. r = Inr st \<longrightarrow> synchronized svc k task_root root s st t) s"
    by (rule wp_Synchronize [OF s]) simp_all
  from wpD [OF this run(1)] run show ?thesis by blast
qed

lemma Policy_Apply_ok:
  assumes s: "policy_task svc k task_root root s" "0 < now" and calm: "\<forall>d. \<not> svc_sqlite_fails svc d"
    and files: "fs_faults (sn_files s) = []" "node_at (sn_files s) (part_of (sn_files s) (root @ [''.veritasignore''])) = None" "task_root \<noteq> []"
    and old: "rules_in root (sn_files s) = Some old" "Validate old = Inr ()"
    and rules: "Validate rules = Inr ()" "src \<in> {''manual'', ''ai'', ''undo''}"
  shows "\<exists>st t. Policy_Apply svc k task_root (HashRules (svc_blake3 svc) old) rules src now s = (Inr st, t)"
proof -
  let ?w = "\<lparr>wr_task_root = task_root, wr_canonical = svc_canonical svc\<rparr>"
  obtain st m where m: "Synchronize svc k task_root now s = (Inr st, m)" "synchronized svc k task_root root s st m" "sn_files m = sn_files s"
    using Synchronize_ok [OF s calm files(1) old] by blast
  have st: "st_rules st = old" "st_content_hash st = HashRules (svc_blake3 svc) old" and task: "policy_task svc k task_root root m"
    using m(2) old(1) by (simp_all add: synchronized_def)
  have root: "svc_canonical svc task_root = Some root" "canonical_root root" "real_dirs (node_at (sn_files m)) root" "rules_in root (sn_files m) \<noteq> None"
    using task by (simp_all add: policy_task_def)
  have safe: "safe_relative ''.veritassync-validation''"
    by (simp add: path_components_def safe_relative_def is_rooted_def is_letter_def check_component_def is_device_name_def to_upper_def is_control_def)
  have "resolve ?w ''.veritassync-validation'' (sn_files m) = (Inr (root @ path_components ''.veritassync-validation''), sn_files m)"
    using resolve_ok [of ?w root "sn_files m" "''.veritassync-validation''"] root files m(3) safe by simp
  then have new: "SafeFileWriter_new (svc_canonical svc) task_root (sn_files m) = (Inr ?w, sn_files m)"
    by (simp add: SafeFileWriter_new_def op_defs)
  have "download_place ?w ''.veritasignore'' root ''.veritasignore'' (sn_files m)"
    using root files m(3) rules_file by (auto simp: download_place_def rules_in_def split: option.splits node.splits)
  then obtain f where f: "WriteAtomically ?w ''.veritasignore'' (map byte_of_char rules) (sn_files m) = (Inr (), f)"
    using WriteAtomically_ok [of ?w "''.veritasignore''" root "''.veritasignore''" "sn_files m"] files(2) m(3) by auto
  obtain r t' where "with_revision k rules (HashRules (svc_blake3 svc) rules) src now (db_tables (sn_database m)) = (r, t')" by fastforce
  note rec = record_revision_outcome [OF task s(2) rules this]
  show ?thesis
    using rules m(1) st new f rec calm
    by (cases "rules = old") (auto simp: Policy_Apply_def op_defs zoomS_def)
qed

text \<open>The node after a policy was replaced: both texts are in the history, newest first.\<close>

definition replaced :: "'t Services \<Rightarrow> string \<Rightarrow> string \<Rightarrow> path \<Rightarrow> string \<Rightarrow> string \<Rightarrow> IgnorePolicyState \<Rightarrow> 'm Device_scheme \<Rightarrow> bool" where
  "replaced svc k task_root root old rules st t \<longleftrightarrow> policy_task svc k task_root root t \<and> current_policy k t = Some st \<and>
     st_rules st = rules \<and> st_content_hash st = HashRules (svc_blake3 svc) rules \<and> rules_in root (sn_files t) = Some rules \<and>
     Validate old = Inr () \<and> Validate rules = Inr () \<and>
     (\<exists>h1 h2 rest. revisions_of k (db_tables (sn_database t)) = h1 # h2 # rest \<and> cstr (ip_content h2) = old)"

lemma Policy_Apply_replaced:
  assumes s: "policy_task svc k task_root root s" "0 < now" "plain_part (sn_files s) (root @ [''.veritasignore''])"
    and old: "rules_in root (sn_files s) = Some old" "rules \<noteq> old"
    and run: "Policy_Apply svc k task_root expected_hash rules src now s = (Inr st, t)"
  shows "replaced svc k task_root root old rules st t"
proof -
  have "wp (Policy_Apply svc k task_root expected_hash rules src now)
      (\<lambda>r t. \<forall>st. r = Inr st \<longrightarrow> replaced svc k task_root root old rules st t) s"
  proof (rule wp_Policy_Apply [OF s], goal_cases)
    case (3 st t)
    then show ?case using old by (simp add: synchronized_def)
  next
    case (4 st m files r t')
    have task: "policy_task svc k task_root root m" and cur: "current_policy k m = Some st" "st_rules st = old" "Validate old = Inr ()"
      using 4(1) old(1) by (auto simp: synchronized_def)
    note facts = record_policy [OF task s(2) 4(4-6)]
    obtain c where c: "CurrentIgnorePolicyRevision k (db_tables (sn_database m)) = Inr (Some c)" "ip_content c = old"
      using cur by (auto simp: current_policy_def policy_state_def split: sum.splits option.splits)
    obtain h rest where h: "revisions_of k (db_tables (sn_database m)) = h # rest" "c = read_revision k h"
      using current_is_latest [OF _ _ _ c(1)] task by (auto simp: policy_task_def db_inv_def)
    have "cstr (ip_content h) = old" using c(2) h(2) by (simp add: read_revision_def)
    then show ?case
      using facts h(1) cur 4(4,7,8) task
      by (auto simp: replaced_def current_policy_def policy_state_def policy_task_def)
  qed simp_all
  from wpD [OF this run] show ?thesis by blast
qed

text \<open>
  Undo restores the rules that the last change replaced.  After a policy \<open>old\<close> was replaced by \<open>rules\<close>, an
  undo that names the hash of \<open>rules\<close> puts \<open>old\<close> back into the file and makes it the current revision; when it throws,
  the file still holds \<open>rules\<close>; and it does return when no call of the file system fails.  SQLite does not fail, and no entry bears the temporary name.
\<close>

theorem undo_reverts_apply:
  assumes "policy_task svc k task_root root s" "task_root \<noteq> []" "0 < now" "plain_part (sn_files s) (root @ [''.veritasignore''])"
    and "rules_in root (sn_files s) = Some old" "rules \<noteq> old"
    and "Policy_Apply svc k task_root expected_hash rules src now s = (Inr st, t)"
    and "0 < now'" "node_at (sn_files t) (part_of (sn_files t) (root @ [''.veritasignore''])) = None"
    and "Policy_Undo svc k task_root (st_content_hash st) now' t = (r, u)" "\<forall>d. \<not> svc_sqlite_fails svc d"
  shows "(case r of Inl _ \<Rightarrow> rules_in root (sn_files u) = Some rules
      | Inr st' \<Rightarrow> st_rules st' = old \<and> rules_in root (sn_files u) = Some old \<and> current_policy k u = Some st') \<and>
    (fs_faults (sn_files t) = [] \<longrightarrow> (\<exists>st'. r = Inr st'))"
proof
  have t: "replaced svc k task_root root old rules st t"
    using Policy_Apply_replaced [OF assms(1,3-7)] .
  then have task: "policy_task svc k task_root root t" and now: "rules_in root (sn_files t) = Some rules"
    by (simp_all add: replaced_def)
  have same: "sn_database m = sn_database t" if "synchronized svc k task_root root t st' m" for st' m
    using that t by (auto simp: synchronized_def replaced_def)
  show "case r of Inl _ \<Rightarrow> rules_in root (sn_files u) = Some rules
      | Inr st' \<Rightarrow> st_rules st' = old \<and> rules_in root (sn_files u) = Some old \<and> current_policy k u = Some st'"
    using wpD [OF wp_Policy_Undo [OF task assms(8) _ assms(11)] assms(10)] assms(9,11) t now
    by (auto simp: undo_effect_def apply_effect_def replaced_def same plain_part_def split: sum.splits)
  show "fs_faults (sn_files t) = [] \<longrightarrow> (\<exists>st'. r = Inr st')"
  proof
    assume files: "fs_faults (sn_files t) = []"
    obtain st' m where m: "Synchronize svc k task_root now' t = (Inr st', m)" "synchronized svc k task_root root t st' m" "sn_files m = sn_files t"
      using Synchronize_ok [OF task assms(8,11) files now] t by (auto simp: replaced_def)
    have st': "st_rules st' = rules" "st_content_hash st' = HashRules (svc_blake3 svc) rules" "policy_task svc k task_root root m"
      using m(2) now by (simp_all add: synchronized_def)
    obtain h1 h2 rest where h: "revisions_of k (db_tables (sn_database m)) = h1 # h2 # rest" "cstr (ip_content h2) = old"
      using t same [OF m(2)] by (auto simp: replaced_def)
    have "ListIgnorePolicyRevisions k 2 (db_tables (sn_database m)) = Inr (map (read_revision k) [h1, h2])"
      using task h(1) by (simp add: ListIgnorePolicyRevisions_def policy_task_def flip: revisions_of_def)
    moreover obtain st2 u2 where "Policy_Apply svc k task_root (HashRules (svc_blake3 svc) rules) old ''undo'' now' m = (Inr st2, u2)"
      using Policy_Apply_ok [OF st'(3) assms(8,11), of rules old "''undo''"] files assms(2,9) m(3) now t by (auto simp: replaced_def)
    ultimately have "Policy_Undo svc k task_root (st_content_hash st) now' t = (Inr st2, u2)"
      using m(1) st' h(2) t by (simp add: Policy_Undo_def op_defs read_revision_def replaced_def)
    then show "\<exists>st'. r = Inr st'" using assms(10) by simp
  qed
qed

section \<open>Instances\<close>

lemma demo_policy_task: "policy_task demo_services ''t'' ''C:/task'' demo_root (demo_node kSource)"
proof -
  have "db_inv demo_database" "db_saved demo_database = None"
    using demo_database_inv by (simp_all add: demo_tables)
  moreover have "task_exists ''t'' (db_tables demo_database)" by (simp add: demo_database_def has_key_def)
  ultimately show ?thesis
    using demo_facts
    by (simp add: policy_task_def demo_node_def demo_services_def demo_writer_def rules_in_def) (simp add: demo_fs_def demo_root_def node_at_def min_def)
qed

lemma demo_fresh: "node_at (sn_files (demo_node kSource)) (part_of (sn_files (demo_node kSource)) (demo_root @ [''.veritasignore''])) = None"
  "plain_part (sn_files (demo_node kSource)) (demo_root @ [''.veritasignore''])"
proof -
  show "node_at (sn_files (demo_node kSource)) (part_of (sn_files (demo_node kSource)) (demo_root @ [''.veritasignore''])) = None"
    by (simp add: demo_node_def part_of_def demo_fs_def demo_root_def part_suffix_def node_at_def)
  then show "plain_part (sn_files (demo_node kSource)) (demo_root @ [''.veritasignore''])" by (simp add: plain_part_def)
qed

lemma demo_calm: "\<forall>d. \<not> svc_sqlite_fails demo_services d"
  by (simp add: demo_services_def)

lemma demo_rules: "rules_in demo_root (sn_files (demo_node kSource)) = Some []"
  by (simp add: rules_in_def demo_node_def) (simp add: demo_fs_def demo_root_def node_at_def)

lemma demo_apply:
  obtains st t where "Policy_Apply demo_services ''t'' ''C:/task'' (HashRules (svc_blake3 demo_services) []) ''x'' ''ai'' 1 (demo_node kSource) = (Inr st, t)"
proof -
  have "Validate ''x'' = Inr ()" by code_simp
  then show ?thesis
    using Policy_Apply_ok [OF demo_policy_task _ demo_calm, of 1 "[]" "''x''" "''ai''"] demo_fresh(1) demo_rules Validate_empty demo_facts(5) that
    by (auto simp: demo_node_def)
qed

lemma demo_apply_fresh:
  "let f = sn_files (snd (Policy_Apply demo_services ''t'' ''C:/task'' (HashRules (svc_blake3 demo_services) []) ''x'' ''ai'' 1 (demo_node kSource))) in
   node_at f (part_of f (demo_root @ [''.veritasignore''])) = None"
  by code_simp

theorem policy_compare_and_swap_witness:
  "\<exists>st t. Policy_Apply demo_services ''t'' ''C:/task'' (HashRules (svc_blake3 demo_services) []) ''x'' ''ai'' 1 (demo_node kSource) = (Inr st, t) \<and>
     st_rules st = ''x'' \<and> rules_in demo_root (sn_files t) = Some ''x'' \<and> current_policy ''t'' t = Some st"
proof -
  obtain st t where run: "Policy_Apply demo_services ''t'' ''C:/task'' (HashRules (svc_blake3 demo_services) []) ''x'' ''ai'' 1 (demo_node kSource) = (Inr st, t)"
    by (rule demo_apply)
  from policy_compare_and_swap [OF demo_policy_task _ demo_fresh(2) run] run show ?thesis by auto
qed

theorem undo_reverts_apply_witness:
  "\<exists>st t st' u. Policy_Apply demo_services ''t'' ''C:/task'' (HashRules (svc_blake3 demo_services) []) ''x'' ''ai'' 1 (demo_node kSource) = (Inr st, t) \<and>
     Policy_Undo demo_services ''t'' ''C:/task'' (st_content_hash st) 2 t = (Inr st', u) \<and> st_rules st' = [] \<and> rules_in demo_root (sn_files u) = Some []"
proof -
  obtain st t where run: "Policy_Apply demo_services ''t'' ''C:/task'' (HashRules (svc_blake3 demo_services) []) ''x'' ''ai'' 1 (demo_node kSource) = (Inr st, t)"
    by (rule demo_apply)
  have calm: "fs_faults (sn_files (snd (Policy_Apply demo_services ''t'' ''C:/task'' (HashRules (svc_blake3 demo_services) []) ''x'' ''ai'' 1 (demo_node kSource)))) = []"
    by code_simp
  have part: "node_at (sn_files t) (part_of (sn_files t) (demo_root @ [''.veritasignore''])) = None" using demo_apply_fresh run by (simp add: Let_def)
  from undo_reverts_apply [OF demo_policy_task _ _ demo_fresh(2) demo_rules _ run _ part prod.collapse [symmetric] demo_calm, of 2] calm run
  obtain st' where "fst (Policy_Undo demo_services ''t'' ''C:/task'' (st_content_hash st) 2 t) = Inr st'" "st_rules st' = []"
    "rules_in demo_root (sn_files (snd (Policy_Undo demo_services ''t'' ''C:/task'' (st_content_hash st) 2 t))) = Some []"
    by auto
  then show ?thesis using run by (metis prod.collapse)
qed

end
