(* ===== verification/Policy_Views.thy ===== *)
theory Policy_Views
  imports Ignore_Policy Confined_Files
begin

text \<open>
  What the assistant and the user are shown: the inventory lists files of the task only, within its limit; the
  private summary is a function of depths and extensions; the preview counts exactly what a policy would change.
\<close>

section \<open>Inventory\<close>

abbreviation relative_to :: "path \<Rightarrow> path \<Rightarrow> string" where
  "relative_to root p \<equiv> ToUtf8Path (lexically_relative p root)"

definition listed :: "FileSystem \<Rightarrow> path \<Rightarrow> path \<Rightarrow> bool" where
  "listed s root p \<longleftrightarrow> node_status (node_at s p) = stRegular \<and> IsIgnored IgnoreRules_new (relative_to root p) = Inr False"

definition growth :: "FileSystem \<Rightarrow> path \<Rightarrow> nat \<Rightarrow> path list \<Rightarrow> Inventory \<Rightarrow> Inventory \<Rightarrow> bool" where
  "growth s root limit paths i0 i1 \<longleftrightarrow> (\<exists>ps. subseq ps paths \<and> (\<forall>p \<in> set ps. listed s root p) \<and>
     inv_entries i1 = inv_entries i0 @ map (\<lambda>p. \<lparr>ie_path = relative_to root p, ie_is_file = True\<rparr>) ps \<and>
     inv_file_count i1 = inv_file_count i0 + length ps \<and> inv_file_count i1 \<le> max 1 limit \<and>
     (inv_truncated i1 \<longleftrightarrow> 0 < inv_file_count i1 \<and> limit \<le> inv_file_count i1))"

definition open_inventory :: "nat \<Rightarrow> Inventory \<Rightarrow> bool" where
  "open_inventory limit i \<longleftrightarrow> \<not> inv_truncated i \<and> (inv_file_count i = 0 \<or> inv_file_count i < limit)"

lemma growth_none: "open_inventory limit i \<Longrightarrow> growth s root limit paths i i"
  unfolding growth_def open_inventory_def by (intro exI [of _ "[]"]) auto

lemma growth_skip: "growth s root limit paths i0 i1 \<Longrightarrow> growth s root limit (p # paths) i0 i1"
  unfolding growth_def by (blast intro: subseq_Cons')

definition add_file :: "path \<Rightarrow> path \<Rightarrow> Inventory \<Rightarrow> Inventory" where
  "add_file root p i = i\<lparr>inv_entries := inv_entries i @ [\<lparr>ie_path = relative_to root p, ie_is_file = True\<rparr>],
     inv_file_count := Suc (inv_file_count i)\<rparr>"

lemma growth_found:
  assumes "listed s root p" "growth s root limit paths (add_file root p i0) i1"
  shows "growth s root limit (p # paths) i0 i1"
proof -
  obtain ps where "subseq ps paths" "\<forall>p \<in> set ps. listed s root p"
    "inv_entries i1 = inv_entries (add_file root p i0) @ map (\<lambda>p. \<lparr>ie_path = relative_to root p, ie_is_file = True\<rparr>) ps"
    "inv_file_count i1 = inv_file_count (add_file root p i0) + length ps" "inv_file_count i1 \<le> max 1 limit"
    "inv_truncated i1 \<longleftrightarrow> 0 < inv_file_count i1 \<and> limit \<le> inv_file_count i1"
    using assms(2) unfolding growth_def by blast
  then show ?thesis
    unfolding growth_def using assms(1) by (intro exI [of _ "p # ps"]) (simp add: add_file_def)
qed

lemma growth_full:
  assumes "listed s root p" "open_inventory limit i0" "limit \<le> Suc (inv_file_count i0)"
  shows "growth s root limit (p # paths) i0 ((add_file root p i0)\<lparr>inv_truncated := True\<rparr>)"
  using assms unfolding growth_def open_inventory_def by (intro exI [of _ "[p]"]) (auto simp: add_file_def)

definition same_nodes :: "FileSystem \<Rightarrow> FileSystem \<Rightarrow> bool" where
  "same_nodes s t \<longleftrightarrow> (\<exists>fs. t = s\<lparr>fs_faults := fs\<rparr>)"

lemma same_nodes_faults [simp]: "same_nodes s (s\<lparr>fs_faults := fs\<rparr>)"
  by (auto simp: same_nodes_def)

lemma wp_inventory_loop:
  assumes tree: "scan_tree view s root" and "set paths \<subseteq> set (visited view s root)" "open_inventory limit i0"
  shows "wp (inventory_loop root limit paths pruned i0)
    (\<lambda>r t. same_nodes s t \<and> (\<forall>i1. r = Inr i1 \<longrightarrow> growth s root limit paths i0 i1)) (s\<lparr>fs_faults := fs\<rparr>)"
  using assms(2,3)
proof (induction paths arbitrary: pruned i0 fs)
  case Nil
  then show ?case by (simp add: growth_none)
next
  case (Cons p paths)
  let ?Q = "\<lambda>r t. same_nodes s t \<and> (\<forall>i1. r = Inr i1 \<longrightarrow> growth s root limit (p # paths) i0 i1)"
  let ?advance = "\<lambda>pruned i. bindS next_fault (\<lambda>f. if f \<noteq> None then returnS i else inventory_loop root limit paths pruned i)"
  have sub: "set paths \<subseteq> set (visited view s root)" and p: "p \<in> set (visited view s root)" using Cons.prems(1) by auto
  obtain d c where "p = d @ [c]" "real_dirs (node_at s) d" using visitedE [OF p tree] by metis
  then have entry: "status_of s (entry_path s p) = node_status (node_at s p)" by (simp add: status_of_def)
  have tail: "wp (inventory_loop root limit paths pruned i0) ?Q (s\<lparr>fs_faults := fs\<rparr>)" for pruned fs
    by (rule wp_mono [OF Cons.IH [OF sub Cons.prems(2)]]) (auto intro: growth_skip)
  have skip: "wp (?advance pruned i0) ?Q (s\<lparr>fs_faults := fs\<rparr>)" for pruned fs
    unfolding wp_bind by (rule wp_next_fault) (auto intro: tail growth_none Cons.prems(2))
  have take: "wp (?advance pruned (add_file root p i0)) ?Q (s\<lparr>fs_faults := fs\<rparr>)"
    if p: "listed s root p" and room: "\<not> limit \<le> Suc (inv_file_count i0)" for pruned fs
  proof -
    have inv: "open_inventory limit (add_file root p i0)"
      using Cons.prems(2) room by (auto simp: open_inventory_def add_file_def)
    have "wp (inventory_loop root limit paths pruned (add_file root p i0)) ?Q (s\<lparr>fs_faults := fs\<rparr>)" for fs
      by (rule wp_mono [OF Cons.IH [OF sub inv]]) (auto intro: growth_found [OF p])
    then show ?thesis
      unfolding wp_bind by (intro wp_next_fault) (auto intro: growth_found [OF p] growth_none [OF inv])
  qed
  have entered: "wp (bindS (liftS (\<lambda>_. IsIgnored IgnoreRules_new (relative_to root p))) (\<lambda>ignored.
      if ignored then ?advance (if status = stDirectory then p # pruned else pruned) i0
      else if status = stRegular then
        if limit \<le> inv_file_count (add_file root p i0) then returnS ((add_file root p i0)\<lparr>inv_truncated := True\<rparr>)
        else ?advance pruned (add_file root p i0)
      else ?advance pruned i0)) ?Q (s\<lparr>fs_faults := fs\<rparr>)" if st: "status = node_status (node_at s p)" for status fs
  proof (cases "IsIgnored IgnoreRules_new (relative_to root p)")
    case (Inr ignored)
    have "listed s root p" if "\<not> ignored" "status = stRegular" using that Inr st by (simp add: listed_def)
    then show ?thesis
      unfolding wp_bind wp_lift Inr onward_simps
      using skip take growth_full [OF _ Cons.prems(2)]
      by (cases ignored; cases "status = stRegular"; cases "limit \<le> Suc (inv_file_count i0)") (simp_all add: add_file_def del: wp_bind)
  qed simp
  show ?case
  proof (cases "list_ex (\<lambda>d. take (length d) p = d) pruned")
    case True
    then show ?thesis using tail by simp
  next
    case False
    have "wp (bindS (sys_symlink_status p) (\<lambda>status.
        if status = stError then ?advance pruned i0
        else if status = stSymlink then thenS (sys_status p) (?advance pruned i0)
        else bindS (liftS (\<lambda>_. IsIgnored IgnoreRules_new (relative_to root p))) (\<lambda>ignored.
          if ignored then ?advance (if status = stDirectory then p # pruned else pruned) i0
          else if status = stRegular then
            if limit \<le> inv_file_count (add_file root p i0) then returnS ((add_file root p i0)\<lparr>inv_truncated := True\<rparr>)
            else ?advance pruned (add_file root p i0)
          else ?advance pruned i0))) ?Q (s\<lparr>fs_faults := fs\<rparr>)"
      unfolding wp_bind [of "sys_symlink_status p"]
    proof (rule wp_symlink_status, goal_cases)
      case (1 fs')
      then show ?case using skip by (simp del: wp_bind)
    next
      case (2 fs')
      have "wp (thenS (sys_status p) (?advance pruned i0)) ?Q (s\<lparr>fs_faults := fs'\<rparr>)"
        unfolding wp_then by (rule wp_status) (use skip in \<open>simp_all del: wp_bind\<close>)
      then show ?case using skip entered [OF refl] by (simp add: entry del: wp_bind wp_then)
    qed
    then show ?thesis unfolding inventory_loop.simps Let_def if_not_P [OF False] add_file_def .
  qed
qed

text \<open>The inventory lists distinct files of the task in path order, at most \<open>limit\<close> of them (but at least one, if there is one).\<close>

definition inventory_of :: "ScanView \<Rightarrow> FileSystem \<Rightarrow> path \<Rightarrow> nat \<Rightarrow> Inventory \<Rightarrow> bool" where
  "inventory_of view s root limit i \<longleftrightarrow> (\<exists>ps. distinct ps \<and> set ps \<subseteq> set (visited view s root) \<and> (\<forall>p \<in> set ps. listed s root p) \<and>
     sorted (map (relative_to root) ps) \<and> inv_entries i = map (\<lambda>p. \<lparr>ie_path = relative_to root p, ie_is_file = True\<rparr>) ps \<and>
     inv_file_count i = length ps \<and> length ps \<le> max 1 limit \<and> (inv_truncated i \<longleftrightarrow> 0 < inv_file_count i \<and> limit \<le> length ps))"

lemma subseq_parts: "subseq xs ys \<Longrightarrow> set xs \<subseteq> set ys" "subseq xs ys \<Longrightarrow> distinct ys \<Longrightarrow> distinct xs"
proof -
  show set: "set xs \<subseteq> set ys" if "subseq xs ys" for xs ys :: "'a list"
    using that by (induction rule: list_emb.induct) auto
  show "subseq xs ys \<Longrightarrow> distinct ys \<Longrightarrow> distinct xs"
    by (induction rule: list_emb.induct) (use set in auto)
qed

lemma sort_key_map: "(\<And>x. f (g x) = h x) \<Longrightarrow> sort_key f (map g xs) = map g (sort_key h xs)"
proof -
  assume eq: "\<And>x. f (g x) = h x"
  have "insort_key f (g x) (map g ys) = map g (insort_key h x ys)" for x ys by (induction ys) (simp_all add: eq)
  then show "sort_key f (map g xs) = map g (sort_key h xs)" by (induction xs) simp_all
qed

lemma walk_order_visited [simp]:
  "set (walk_order view s root) = set (visited view s root)" "distinct (walk_order view s root)"
  by (simp_all add: walk_order_def visited_def)

lemma inventory_sorted:
  assumes "growth s root limit (walk_order view s root) \<lparr>inv_entries = [], inv_file_count = 0, inv_truncated = False\<rparr> i"
  shows "inventory_of view s root limit (i\<lparr>inv_entries := sort_key ie_path (inv_entries i)\<rparr>)"
proof -
  let ?e = "\<lambda>p. \<lparr>ie_path = relative_to root p, ie_is_file = True\<rparr>"
  obtain ps where all: "subseq ps (walk_order view s root) \<and> (\<forall>p \<in> set ps. listed s root p) \<and> inv_entries i = map ?e ps \<and>
      inv_file_count i = length ps \<and> inv_file_count i \<le> max 1 limit \<and>
      (inv_truncated i \<longleftrightarrow> 0 < inv_file_count i \<and> limit \<le> inv_file_count i)"
    using assms [unfolded growth_def Inventory.select_convs append_Nil add_0] by (elim exE)
  then have ps: "subseq ps (walk_order view s root)" "\<forall>p \<in> set ps. listed s root p" "inv_entries i = map ?e ps"
    "inv_file_count i = length ps" "length ps \<le> max 1 limit" "inv_truncated i \<longleftrightarrow> 0 < length ps \<and> limit \<le> length ps"
    by simp_all
  have "distinct ps" using subseq_parts(2) [OF ps(1)] by simp
  moreover have "set ps \<subseteq> set (visited view s root)" using subseq_parts(1) [OF ps(1)] by simp
  moreover have "sort_key ie_path (map ?e ps) = map ?e (sort_key (relative_to root) ps)" by (rule sort_key_map) simp
  ultimately show ?thesis
    unfolding inventory_of_def using ps(2-6) by (intro exI [of _ "sort_key (relative_to root) ps"]) auto
qed

lemma walk_order_faults: "walk_order view (s\<lparr>fs_faults := fs\<rparr>) root = walk_order view s root"
  by (simp add: walk_order_def visited_def)

lemma wp_BuildInventory:
  assumes "canonical task_root = Some root" "scan_tree view s root"
  shows "wp (BuildInventory canonical view task_root limit)
    (\<lambda>r t. same_nodes s t \<and> (\<forall>i. r = Inr i \<longrightarrow> inventory_of view s root limit i)) s" (is "wp _ ?Q s")
proof -
  let ?start = "\<lparr>inv_entries = [], inv_file_count = 0, inv_truncated = False\<rparr>"
  have "set (walk_order view s root) \<subseteq> set (visited view s root)" by simp
  then have loop: "wp (inventory_loop root limit (walk_order view s root) [] ?start)
      (\<lambda>r t. same_nodes s t \<and> (\<forall>i. r = Inr i \<longrightarrow> growth s root limit (walk_order view s root) ?start i)) (s\<lparr>fs_faults := fs\<rparr>)" for fs
    by (rule wp_inventory_loop [OF assms(2)]) (simp add: open_inventory_def)
  have "wp (bindS (inventory_loop root limit (walk_order view s root) [] ?start)
      (\<lambda>inventory. returnS (inventory\<lparr>inv_entries := sort_key ie_path (inv_entries inventory)\<rparr>))) ?Q (s\<lparr>fs_faults := fs\<rparr>)" for fs
    unfolding wp_bind by (rule wp_mono [OF loop]) (auto simp: onward_def intro: inventory_sorted split: sum.splits)
  then have "wp (bindS (getS (\<lambda>s. walk_order view s root)) (\<lambda>paths. bindS (inventory_loop root limit paths [] ?start)
        (\<lambda>inventory. returnS (inventory\<lparr>inv_entries := sort_key ie_path (inv_entries inventory)\<rparr>)))) ?Q (s\<lparr>fs_faults := fs\<rparr>)" for fs
    unfolding wp_bind [of "getS _"] wp_get onward_simps walk_order_faults .
  then have "wp (bindS next_fault (\<lambda>f. thenS (guardS (f \<noteq> None) e) (bindS (getS (\<lambda>s. walk_order view s root)) (\<lambda>paths.
      bindS (inventory_loop root limit paths [] ?start)
        (\<lambda>inventory. returnS (inventory\<lparr>inv_entries := sort_key ie_path (inv_entries inventory)\<rparr>)))))) ?Q (s\<lparr>fs_faults := fs\<rparr>)" for fs e
    unfolding wp_bind [of next_fault] by (intro wp_next_fault) (auto simp del: wp_bind)
  then show ?thesis
    unfolding BuildInventory_def assms(1) option.case wp_bind [of "sys_status root"]
    by (intro wp_status) (auto simp del: wp_bind)
qed

section \<open>Preview\<close>

definition ignored_by :: "IgnoreRules \<Rightarrow> string \<Rightarrow> bool" where
  "ignored_by rules path \<longleftrightarrow> IsIgnored rules path = Inr True"

text \<open>What a preview of the files \<open>paths\<close> should say.\<close>

definition preview_of :: "IgnoreRules \<Rightarrow> IgnoreRules \<Rightarrow> string list \<Rightarrow> nat \<Rightarrow> string list \<Rightarrow> IgnorePreview \<Rightarrow> IgnorePreview" where
  "preview_of current proposed tracked samples paths p =
     (let newly = filter (\<lambda>x. \<not> ignored_by current x \<and> ignored_by proposed x) paths;
          included = filter (\<lambda>x. ignored_by current x \<and> \<not> ignored_by proposed x) paths;
          lost = filter (\<lambda>x. x \<in> set tracked) newly in
      p\<lparr>pv_currently_ignored := pv_currently_ignored p + length (filter (ignored_by current) paths),
        pv_proposed_ignored := pv_proposed_ignored p + length (filter (ignored_by proposed) paths),
        pv_newly_ignored := pv_newly_ignored p + length newly, pv_newly_included := pv_newly_included p + length included,
        pv_tracked_newly_ignored := pv_tracked_newly_ignored p + length lost,
        pv_newly_ignored_samples := fold (add_sample samples) newly (pv_newly_ignored_samples p),
        pv_newly_included_samples := fold (add_sample samples) included (pv_newly_included_samples p),
        pv_tracked_deletion_samples := fold (add_sample samples) lost (pv_tracked_deletion_samples p)\<rparr>)"

lemma fold_add_sample: "length xs \<le> n \<Longrightarrow> fold (add_sample n) ys xs = take n (xs @ ys)"
proof (induction ys arbitrary: xs)
  case (Cons y ys)
  then show ?case by (cases "length xs < n") (simp_all add: add_sample_def take_Cons')
qed simp

lemma foldE_preview:
  assumes "foldE (preview_step current proposed tracked samples) (map (\<lambda>x. \<lparr>ie_path = x, ie_is_file = True\<rparr>) paths) p = Inr q"
  shows "q = preview_of current proposed tracked samples paths p"
  using assms
proof (induction paths arbitrary: p)
  case Nil
  then show ?case by (simp add: preview_of_def)
next
  case (Cons x paths)
  let ?e = "\<lparr>ie_path = x, ie_is_file = True\<rparr>"
  obtain p' where step: "preview_step current proposed tracked samples ?e p = Inr p'"
    and rest: "foldE (preview_step current proposed tracked samples) (map (\<lambda>x. \<lparr>ie_path = x, ie_is_file = True\<rparr>) paths) p' = Inr q"
    using Cons.prems by (auto simp: bindE_def split: sum.splits)
  have "p' = preview_of current proposed tracked samples [x] p"
    using step by (auto simp: preview_step_def preview_of_def ignored_by_def bindE_def Let_def split: sum.splits if_splits)
  moreover have "preview_of current proposed tracked samples paths (preview_of current proposed tracked samples [x] p) =
      preview_of current proposed tracked samples (x # paths) p"
    by (simp add: preview_of_def Let_def)
  ultimately show ?case using Cons.IH [OF rest] by simp
qed

text \<open>
  A preview says exactly what a policy would change.  The files it looks at are files of the task that the
  built-in rules do not ignore, each once, no more than the limit allows; for these the five counts are exact, the
  samples are the first of the newly ignored, newly included and newly ignored tracked files in path order, and
  nothing on disk changes.
\<close>

theorem preview_exact:
  assumes "canonical task_root = Some root" "scan_tree view s root"
    and "Preview canonical view task_root current_rules proposed_rules tracked limit samples s = (Inr p, t)"
  shows "\<exists>current proposed ps. Load current_rules IgnoreRules_new = Inr current \<and> Load proposed_rules IgnoreRules_new = Inr proposed \<and>
    distinct ps \<and> set ps \<subseteq> set (visited view s root) \<and> (\<forall>q \<in> set ps. listed s root q) \<and> length ps \<le> max 1 limit \<and>
    (let paths = map (relative_to root) ps;
         newly = filter (\<lambda>x. \<not> ignored_by current x \<and> ignored_by proposed x) paths;
         included = filter (\<lambda>x. ignored_by current x \<and> \<not> ignored_by proposed x) paths;
         lost = filter (\<lambda>x. x \<in> set tracked) newly in
     sorted paths \<and> pv_scanned_files p = length paths \<and> (pv_truncated p \<longleftrightarrow> 0 < length paths \<and> limit \<le> length paths) \<and>
     pv_currently_ignored p = length (filter (ignored_by current) paths) \<and>
     pv_proposed_ignored p = length (filter (ignored_by proposed) paths) \<and>
     pv_newly_ignored p = length newly \<and> pv_newly_included p = length included \<and> pv_tracked_newly_ignored p = length lost \<and>
     pv_newly_ignored_samples p = take samples newly \<and> pv_newly_included_samples p = take samples included \<and>
     pv_tracked_deletion_samples p = take samples lost) \<and> node_at t = node_at s"
proof -
  obtain current where current: "Load current_rules IgnoreRules_new = Inr current"
    using assms(3) by (cases "Load current_rules IgnoreRules_new") (simp_all add: Preview_def op_defs)
  obtain proposed where proposed: "Load proposed_rules IgnoreRules_new = Inr proposed"
    using assms(3) current by (cases "Load proposed_rules IgnoreRules_new") (simp_all add: Preview_def op_defs)
  obtain r u where run: "BuildInventory canonical view task_root limit s = (r, u)" by fastforce
  obtain i where i: "r = Inr i" using assms(3) current proposed run by (cases r) (simp_all add: Preview_def op_defs)
  let ?start = "\<lparr>pv_scanned_files = inv_file_count i, pv_currently_ignored = 0, pv_proposed_ignored = 0, pv_newly_ignored = 0,
        pv_newly_included = 0, pv_tracked_newly_ignored = 0, pv_truncated = inv_truncated i,
        pv_newly_ignored_samples = [], pv_newly_included_samples = [], pv_tracked_deletion_samples = []\<rparr>"
  have step: "foldE (preview_step current proposed tracked samples) (inv_entries i) ?start = Inr p" and t: "t = u"
    using assms(3) current proposed run i
    by (simp_all add: Preview_def op_defs split: sum.splits)
  have inv: "same_nodes s u" "inventory_of view s root limit i"
    using wpD [OF wp_BuildInventory [of canonical task_root root view s limit, OF assms(1,2)] run] i by blast+
  obtain ps where ps: "distinct ps \<and> set ps \<subseteq> set (visited view s root) \<and> (\<forall>q \<in> set ps. listed s root q) \<and>
      sorted (map (relative_to root) ps) \<and> inv_entries i = map (\<lambda>p. \<lparr>ie_path = relative_to root p, ie_is_file = True\<rparr>) ps \<and>
      inv_file_count i = length ps \<and> length ps \<le> max 1 limit \<and> (inv_truncated i \<longleftrightarrow> 0 < inv_file_count i \<and> limit \<le> length ps)"
    using inv(2) unfolding inventory_of_def by (elim exE)
  have "inv_entries i = map (\<lambda>x. \<lparr>ie_path = x, ie_is_file = True\<rparr>) (map (relative_to root) ps)" using ps by (simp add: comp_def)
  then have "p = preview_of current proposed tracked samples (map (relative_to root) ps) ?start"
    using step foldE_preview by metis
  moreover have "node_at t = node_at s" using inv(1) t by (auto simp: same_nodes_def)
  ultimately show ?thesis
    by (intro exI [of _ current] exI [of _ proposed] exI [of _ ps]) (use ps current proposed in \<open>simp add: preview_of_def Let_def fold_add_sample\<close>)
qed

section \<open>The private summary\<close>

definition file_shape :: "InventoryEntry \<Rightarrow> nat \<times> string" where
  "file_shape e = (slash_count (ie_path e), Extension (ie_path e))"

lemma bump_commute:
  assumes "k = j \<Longrightarrow> \<forall>v. f (g v) = g (f v)"
  shows "bump k f d (bump j g d m) = bump j g d (bump k f d m)"
  using assms by (induction m) (auto split: prod.splits)

definition shape_step :: "nat \<times> string \<Rightarrow> (nat \<times> nat \<times> ExtensionCounts) list \<Rightarrow> (nat \<times> nat \<times> ExtensionCounts) list" where
  "shape_step = (\<lambda>(depth, extension). bump depth (\<lambda>(amount, extensions). (Suc amount, bump extension Suc 0 extensions)) (0, []))"

lemma shape_step_commute: "shape_step x \<circ> shape_step y = shape_step y \<circ> shape_step x"
  unfolding shape_step_def fun_eq_iff by (auto split: prod.splits intro!: bump_commute)

lemma private_summary_shapes:
  assumes "\<forall>e \<in> set entries. ie_is_file e"
  shows "private_summary entries b summary =
    fold (\<lambda>(depth, amount, extensions) output. AppendSummaryLine output (''depth '' @ to_string depth) amount extensions b)
      (fold shape_step (map file_shape entries) []) summary"
proof -
  have "fold (\<lambda>e m. if \<not> ie_is_file e then m else bump (slash_count (ie_path e)) (add_extension (ie_path e)) (0, []) m) entries m =
      fold shape_step (map file_shape entries) m" for m
    using assms by (induction entries arbitrary: m) (simp_all add: shape_step_def file_shape_def add_extension_def)
  then show ?thesis by (simp add: private_summary_def)
qed

text \<open>
  The files of a directory that the assistant may hear of: regular files such that the built-in rules ignore neither the file
  nor a directory over it.
\<close>

definition builtin_ignored :: "path \<Rightarrow> path \<Rightarrow> bool" where
  "builtin_ignored root p \<longleftrightarrow> IsIgnored IgnoreRules_new (relative_to root p) = Inr True"

definition shown :: "FileSystem \<Rightarrow> path \<Rightarrow> path \<Rightarrow> bool" where
  "shown s root p \<longleftrightarrow> node_status (node_at s p) = stRegular \<and> list_all (\<lambda>n. \<not> builtin_ignored root (take n p)) [Suc (length root)..<Suc (length p)]"

definition shapes :: "ScanView \<Rightarrow> FileSystem \<Rightarrow> path \<Rightarrow> (nat \<times> string) multiset" where
  "shapes view s root = mset (map (\<lambda>p. (slash_count (relative_to root p), Extension (relative_to root p))) (filter (shown s root) (visited view s root)))"

text \<open>The walk meets a directory before what it holds.\<close>

lemma walk_key_above:
  assumes "length root < n" "n < length p"
  shows "walk_key view root (take n p) < walk_key view root p"
proof -
  have "[Suc (length root)..<Suc (length p)] = [Suc (length root)..<Suc n] @ [Suc n..<Suc (length p)]"
    using assms upt_add_eq_append [of "Suc (length root)" "Suc n" "length p - n"] by simp
  then have "walk_key view root p = walk_key view root (take n p) @ map (\<lambda>n. (sv_rank view (take n p), p ! (n - 1))) [Suc n..<Suc (length p)]"
    using assms by (auto simp: walk_key_def simp del: upt_Suc)
  moreover have "\<exists>b z. map (\<lambda>n. (sv_rank view (take n p), p ! (n - 1))) [Suc n..<Suc (length p)] = b # z"
    using assms(2) by (simp add: upt_rec)
  ultimately show ?thesis by (metis list_less_def lexord_append_rightI)
qed

lemma visited_above:
  assumes "p \<in> set (visited view s root)" "length root < n" "n < length p"
  shows "take n p \<in> set (visited view s root)" "node_at s (take n p) = Some Directory"
proof -
  show node: "node_at s (take n p) = Some Directory" using assms by (auto simp: visited_def)
  then have "take n p \<in> fst ` set (fs_entries s)" unfolding node_at_def by (force dest: map_of_SomeD)
  then show "take n p \<in> set (visited view s root)" using assms by (auto simp: visited_def min_def)
qed

lemma shown_walk:
  assumes walk: "walk_order view s root = done @ p # rest" and p: "p \<in> set (visited view s root)"
  shows "shown s root p \<longleftrightarrow> node_status (node_at s p) = stRegular \<and> \<not> builtin_ignored root p \<and>
    \<not> (\<exists>d \<in> set done. node_at s d = Some Directory \<and> builtin_ignored root d \<and> take (length d) p = d)" (is "_ \<longleftrightarrow> _ \<and> _ \<and> \<not> ?pruned")
proof -
  have sorted: "sorted (map (walk_key view root) (done @ p # rest))" unfolding walk [symmetric] walk_order_def by simp
  have long: "length root < length p" using p by (simp add: visited_def)
  have "?pruned" if n: "length root < n" "n < length p" and "builtin_ignored root (take n p)" for n
  proof -
    have "take n p \<in> set (done @ p # rest)" using visited_above(1) [OF p n] walk walk_order_visited(1) by metis
    moreover have "take n p \<notin> set (p # rest)" using walk_key_above [OF n, of view] sorted by (fastforce simp: sorted_append)
    ultimately show ?thesis using visited_above(2) [OF p n] that(3) n by (intro bexI [of _ "take n p"]) auto
  qed
  moreover have "\<exists>n. length root < n \<and> n \<le> length p \<and> builtin_ignored root (take n p)"
    if "d \<in> set done" "builtin_ignored root d" "take (length d) p = d" for d
  proof -
    have "d \<in> set (visited view s root)" using that(1) walk walk_order_visited(1) [of view s root] by auto
    moreover have "length d \<le> length p" using arg_cong [OF that(3), of length] by simp
    ultimately show ?thesis using that(2,3) by (intro exI [of _ "length d"]) (simp add: visited_def)
  qed
  ultimately have "(\<exists>n. length root < n \<and> n \<le> length p \<and> builtin_ignored root (take n p)) \<longleftrightarrow> builtin_ignored root p \<or> ?pruned"
    using long by (metis le_neq_implies_less order_refl take_all_iff)
  moreover have "{Suc (length root)..<Suc (length p)} = {n. length root < n \<and> n \<le> length p}" by auto
  ultimately show ?thesis unfolding shown_def list_all_iff set_upt by blast
qed

definition add_files :: "path \<Rightarrow> path list \<Rightarrow> Inventory \<Rightarrow> Inventory" where
  "add_files root ps i = i\<lparr>inv_entries := inv_entries i @ map (\<lambda>p. \<lparr>ie_path = relative_to root p, ie_is_file = True\<rparr>) ps,
     inv_file_count := inv_file_count i + length ps\<rparr>"

text \<open>Without failing calls and below the limit, the walk lists exactly the files that may be shown.\<close>

lemma inventory_loop_calm:
  assumes tree: "scan_tree view s root" and calm: "fs_faults s = []"
    and "walk_order view s root = before @ paths"
    and "\<And>q. (\<exists>d \<in> set pruned. take (length d) q = d) \<longleftrightarrow>
      (\<exists>d \<in> set before. node_at s d = Some Directory \<and> builtin_ignored root d \<and> take (length d) q = d)"
    and "inv_file_count i + length (filter (shown s root) paths) < limit"
  shows "inventory_loop root limit paths pruned i s = (Inr (add_files root (filter (shown s root) paths) i), s)"
  using assms(3-)
proof (induction paths arbitrary: before pruned i)
  case Nil
  then show ?case by (simp add: add_files_def returnS_def)
next
  case (Cons p paths)
  have p: "p \<in> set (visited view s root)" using Cons.prems(1) walk_order_visited(1) [of view s root] by auto
  obtain d c where d: "p = d @ [c]" "real_dirs (node_at s) d" "node_at s p \<noteq> None"
    "lexically_relative p root = drop (length root) p" "drop (length root) p \<noteq> []" "\<forall>c \<in> set (drop (length root) p). plain_name c"
    using visitedE [OF p tree] by metis
  obtain b where b: "IsIgnored IgnoreRules_new (relative_to root p) = Inr b"
    using IsIgnored_plain [OF d(5,6)] d(4) by (metis ToUtf8Path_def)
  have status: "status_of s (entry_path s p) = node_status (node_at s p)" using d(1,2) by (simp add: status_of_def)
  have walk: "walk_order view s root = (before @ [p]) @ paths" using Cons.prems(1) by simp
  note shown = shown_walk [OF Cons.prems(1) p]
  note IH = Cons.IH [OF walk]
  show ?case
  proof (cases "\<exists>d \<in> set pruned. take (length d) p = d")
    case True
    then have "\<not> shown s root p" using shown Cons.prems(2) by blast
    moreover have "(\<exists>d \<in> set pruned. take (length d) q = d) \<longleftrightarrow>
        (\<exists>d \<in> set (before @ [p]). node_at s d = Some Directory \<and> builtin_ignored root d \<and> take (length d) q = d)" for q
    proof -
      have "\<exists>d \<in> set pruned. take (length d) q = d" if "take (length p) q = p"
        using True that by (metis take_take min_def nle_le take_all_iff)
      then show ?thesis using Cons.prems(2) [of q] by auto
    qed
    ultimately show ?thesis using True Cons.prems(3) by (simp add: IH list_ex_iff)
  next
    case False
    then have none: "\<not> list_ex (\<lambda>d. take (length d) p = d) pruned" by (simp add: list_ex_iff)
    have shown': "shown s root p \<longleftrightarrow> node_status (node_at s p) = stRegular \<and> \<not> b"
      using shown False Cons.prems(2) b by (auto simp: builtin_ignored_def)
    let ?pruned = "if b \<and> node_at s p = Some Directory then p # pruned else pruned"
    have "(\<exists>d \<in> set ?pruned. take (length d) q = d) \<longleftrightarrow>
        (\<exists>d \<in> set (before @ [p]). node_at s d = Some Directory \<and> builtin_ignored root d \<and> take (length d) q = d)" for q
      using Cons.prems(2) [of q] b by (auto simp: builtin_ignored_def)
    note go = IH [OF this]
    have step: "inventory_loop root limit (p # paths) pruned i s =
        inventory_loop root limit paths ?pruned (if shown s root p then add_files root [p] i else i) s"
      using Cons.prems(3) calm status b d(3) none shown'
      by (cases "node_at s p"; cases "the (node_at s p)"; cases b)
        (simp_all add: op_defs sys_symlink_status_def sys_status_def add_files_def Let_def)
    show ?thesis unfolding step using Cons.prems(3) by (cases "shown s root p"; subst go) (simp_all add: add_files_def)
  qed
qed

lemma BuildInventory_calm:
  assumes "canonical task_root = Some root" "scan_tree view s root" "fs_faults s = []" "size (shapes view s root) < limit"
  obtains i where "BuildInventory canonical view task_root limit s = (Inr i, s)" "mset (map file_shape (inv_entries i)) = shapes view s root"
    "inv_file_count i = size (shapes view s root)" "\<not> inv_truncated i" "\<forall>e \<in> set (inv_entries i). ie_is_file e"
proof -
  let ?walk = "walk_order view s root" and ?start = "\<lparr>inv_entries = [], inv_file_count = 0, inv_truncated = False\<rparr>"
  have files: "mset (filter (shown s root) ?walk) = mset (filter (shown s root) (visited view s root))"
    by (simp add: walk_order_def)
  then have "length (filter (shown s root) ?walk) = size (shapes view s root)"
    unfolding shapes_def by (metis size_mset length_map)
  then have loop: "inventory_loop root limit ?walk [] ?start s = (Inr (add_files root (filter (shown s root) ?walk) ?start), s)"
    and count: "length (filter (shown s root) ?walk) = size (shapes view s root)"
    using assms(4) by (auto intro: inventory_loop_calm [OF assms(2,3), where before = "[]"])
  have "canonical_root root" "real_dirs (node_at s) root" using assms(2) by (auto simp: scan_tree_def)
  then have status: "status_of s (real_path s root) = stDirectory"
    using real_dirs_last [of "node_at s" root] by (auto simp: real_path_dir status_of_def canonical_root_def)
  let ?i = "add_files root (filter (shown s root) ?walk) ?start"
  show ?thesis
  proof (rule that)
    show "BuildInventory canonical view task_root limit s = (Inr (?i\<lparr>inv_entries := sort_key ie_path (inv_entries ?i)\<rparr>), s)"
      using assms(1,3) loop status by (simp add: BuildInventory_def op_defs sys_status_def)
    have "mset (map file_shape (sort_key ie_path (inv_entries ?i))) = mset (map file_shape (inv_entries ?i))" by simp
    also have "\<dots> = shapes view s root"
      using files unfolding shapes_def add_files_def by (simp add: file_shape_def comp_def)
    finally show "mset (map file_shape (inv_entries (?i\<lparr>inv_entries := sort_key ie_path (inv_entries ?i)\<rparr>))) = shapes view s root" by simp
  qed (use count in \<open>auto simp: add_files_def\<close>)
qed

text \<open>
  C33: the private summary discloses no names.  A file may be shown when it is a regular file and the built-in rules ignore neither it
  nor a directory over it.  Take two task roots that are real directories, with names that Windows allows below them, such that for
  every depth and extension as many files of the one as of the other may be shown, in all fewer than the limit on files; let no
  system call fail, let each description have 1 to 4096 bytes, and let the summary be allowed at least 256.  Then the private
  context is built for both and is the same, whatever the files and directories are called, however many files the built-in rules
  hide, in whatever order the directories are enumerated, and whatever the descriptions are.
\<close>

theorem private_context_hides_names:
  assumes "canonical1 root1 = Some p1" "scan_tree view1 s1 p1" "fs_faults s1 = []"
    and "canonical2 root2 = Some p2" "scan_tree view2 s2 p2" "fs_faults s2 = []"
    and "shapes view1 s1 p1 = shapes view2 s2 p2" "size (shapes view1 s1 p1) < limit"
    and "d1 \<noteq> []" "length d1 \<le> 4096" "d2 \<noteq> []" "length d2 \<le> 4096" "256 \<le> b"
  shows "\<exists>c. fst (BuildContext canonical1 view1 root1 d1 kPrivate limit b s1) = Inr c \<and>
    fst (BuildContext canonical2 view2 root2 d2 kPrivate limit b s2) = Inr c"
proof -
  obtain i1 where i1: "BuildInventory canonical1 view1 root1 limit s1 = (Inr i1, s1)" "mset (map file_shape (inv_entries i1)) = shapes view1 s1 p1"
    "inv_file_count i1 = size (shapes view1 s1 p1)" "\<not> inv_truncated i1" "\<forall>e \<in> set (inv_entries i1). ie_is_file e"
    using BuildInventory_calm [of canonical1 root1 p1, OF assms(1-3,8)] .
  obtain i2 where i2: "BuildInventory canonical2 view2 root2 limit s2 = (Inr i2, s2)" "mset (map file_shape (inv_entries i2)) = shapes view2 s2 p2"
    "inv_file_count i2 = size (shapes view2 s2 p2)" "\<not> inv_truncated i2" "\<forall>e \<in> set (inv_entries i2). ie_is_file e"
    using BuildInventory_calm [of canonical2 root2 p2, OF assms(4-6) assms(8) [unfolded assms(7)]] .
  have "fold shape_step (map file_shape (inv_entries i1)) = fold shape_step (map file_shape (inv_entries i2))"
    using i1(2) i2(2) assms(7) by (intro fold_multiset_equiv) (simp_all only: shape_step_commute)
  then have "context_of i1 d1 kPrivate b = context_of i2 d2 kPrivate b"
    unfolding context_of_def Let_def private_summary_shapes [OF i1(5)] private_summary_shapes [OF i2(5)]
    using i1(3,4) i2(3,4) assms(7) by simp
  then show ?thesis using i1(1) i2(1) assms(8-) by (simp add: BuildContext_def op_defs)
qed

section \<open>Instances\<close>

lemma demo_canonical: "wr_canonical demo_writer ''C:/task'' = Some demo_root"
  by (simp add: demo_writer_def)

theorem preview_exact_witness:
  "\<exists>p. fst (Preview (wr_canonical demo_writer) demo_view ''C:/task'' [] ''a'' [''a''] 5 2 demo_fs) = Inr p \<and> pv_scanned_files p \<le> 5"
proof -
  obtain p t where run: "Preview (wr_canonical demo_writer) demo_view ''C:/task'' [] ''a'' [''a''] 5 2 demo_fs = (Inr p, t)"
  proof -
    have "\<exists>p. fst (Preview (wr_canonical demo_writer) demo_view ''C:/task'' [] ''a'' [''a''] 5 2 demo_fs) = Inr p"
      by (rule exI) code_simp
    then show ?thesis using that by (metis prod.collapse)
  qed
  from preview_exact [OF demo_canonical demo_tree(1) this] run show ?thesis by (auto simp: Let_def)
qed

text \<open>Another task directory: its file has another name, and a file below \<^verbatim>\<open>.git\<close> is hidden.\<close>

definition other_fs :: FileSystem where
  "other_fs = \<lparr>fs_entries = [([''C:/''], Directory), (demo_root, Directory), (demo_root @ [''.git''], Directory),
     (demo_root @ [''.git'', ''c.txt''], Regular [3]), (demo_root @ [''zz''], Regular [])],
     fs_faults = [], fs_process_id = 1, fs_serial = 0\<rparr>"

lemma other_visited: "visited demo_view other_fs demo_root = [demo_root @ [''.git''], demo_root @ [''.git'', ''c.txt''], demo_root @ [''zz'']]"
  by (auto simp: visited_def demo_view_def other_fs_def demo_root_def less_Suc_eq node_at_def)

lemma other_tree: "scan_tree demo_view other_fs demo_root"
proof -
  have "real_dirs (node_at other_fs) demo_root"
    by (simp add: other_fs_def demo_root_def real_dirs_def node_at_def less_Suc_eq)
  then show ?thesis using demo_facts(2) by (simp add: scan_tree_def other_visited plain_name_def)
qed

lemma demo_shapes: "shapes demo_view demo_fs demo_root = {#(0, ''(none)'')#}" "shapes demo_view other_fs demo_root = {#(0, ''(none)'')#}"
proof -
  have "map (\<lambda>p. (slash_count (relative_to demo_root p), Extension (relative_to demo_root p)))
      (filter (shown demo_fs demo_root) (visited demo_view demo_fs demo_root)) = [(0, ''(none)'')]" by code_simp
  then show "shapes demo_view demo_fs demo_root = {#(0, ''(none)'')#}" by (simp only: shapes_def mset.simps)
  have "map (\<lambda>p. (slash_count (relative_to demo_root p), Extension (relative_to demo_root p)))
      (filter (shown other_fs demo_root) (visited demo_view other_fs demo_root)) = [(0, ''(none)'')]" unfolding other_visited by code_simp
  then show "shapes demo_view other_fs demo_root = {#(0, ''(none)'')#}" by (simp only: shapes_def mset.simps)
qed

theorem private_context_hides_names_witness:
  "\<exists>c. fst (BuildContext (wr_canonical demo_writer) demo_view ''C:/task'' ''logs'' kPrivate 5 300 demo_fs) = Inr c \<and>
     fst (BuildContext (wr_canonical demo_writer) demo_view ''C:/task'' ''images'' kPrivate 5 300 other_fs) = Inr c"
  by (rule private_context_hides_names [of _ _ demo_root _ _ _ _ demo_root])
    (simp_all add: demo_canonical demo_tree(1) other_tree demo_shapes, simp_all add: demo_fs_def other_fs_def)

end
