(* ===== verification/Bidirectional_Sync.thy ===== *)
theory Bidirectional_Sync
  imports Ignore_Policy Version_Resolution
begin

text \<open>
  A two-peer, version-aware session (\<^verbatim>\<open>engine/sync/bidirectional_sync.cpp\<close>).  Both peers record their own changes
  as new versions, exchange manifests with versions and parents, and resolve what differs.  Before that they agree on
  one ignore policy, and a change of the policy goes through a proposal that both keep in their databases.
\<close>

section \<open>State\<close>

record BidirectionalSyncConfig =
  bc_task_id :: string
  bc_device_id :: string
  bc_peer_device_id :: string
  bc_device_fingerprint :: string
  bc_peer_device_fingerprint :: string
  bc_authorization_digest :: string
  bc_task_root :: string

record BiDownload =
  bd_entry :: VersionedManifestEntry
  bd_destination_path :: string
  bd_apply_formal_record :: bool
  bd_hash :: bytes
  bd_transfer_id :: TransferId
  bd_chunk_count :: u64
  bd_receiver :: DownloadReceiver
  bd_durable_chunks :: nat
  bd_dirty_bytes :: nat
  bd_dirty_chunks :: "u64 list"

record 't BidirectionalSyncNode = SyncNode +
  bi_config :: BidirectionalSyncConfig
  bi_transport :: 't
  bi_writer :: SafeFileWriter
  bi_started :: bool
  bi_received_hello :: bool
  bi_received_manifest :: bool
  bi_policy_ready :: bool
  bi_policy_hash :: string
  bi_next_policy_retry :: int
  bi_next_request_id :: u64
  bi_uploads :: "PendingUpload list"
  bi_downloads :: "BiDownload list"
  bi_last_error :: "string option"

type_synonym ('t, 'a) bi_op = "('t BidirectionalSyncNode, 'a) op"

abbreviation bi_the_transport :: "('t, 'a) op \<Rightarrow> ('t, 'a) bi_op" where
  "bi_the_transport \<equiv> zoomS bi_transport (\<lambda>t s. s\<lparr>bi_transport := t\<rparr>)"

section \<open>Helpers\<close>

definition Bi_EncodeHash :: "bytes \<Rightarrow> string result" where
  "Bi_EncodeHash hash = (if length hash \<noteq> kHashSize then Inl (Invalid_argument ''content hash length is invalid'') else Inr (EncodeHash hash))"

definition IsConflictPath :: "string \<Rightarrow> bool" where
  "IsConflictPath path = list_ex (\<lambda>component. contains ''.conflict.'' component) (path_components path)"

fun ToProtocolKind :: "FileKind \<Rightarrow> VersionedEntryKind" where
  "ToProtocolKind fkFile = vkFile"
| "ToProtocolKind fkDirectory = vkDirectory"
| "ToProtocolKind fkTombstone = vkTombstone"

fun ToStorageKind :: "VersionedEntryKind \<Rightarrow> FileKind" where
  "ToStorageKind vkFile = fkFile"
| "ToStorageKind vkDirectory = fkDirectory"
| "ToStorageKind vkTombstone = fkTombstone"

definition ToRecord :: "string \<Rightarrow> VersionedManifestEntry \<Rightarrow> FileRecord result" where
  "ToRecord task_id entry =
     bindE (if ve_kind entry = vkFile then DecodeHash (ve_content_hash entry) else Inr []) (\<lambda>hash.
     let r = \<lparr>fr_task_id = task_id, fr_relative_path = ve_relative_path entry, fr_kind = ToStorageKind (ve_kind entry),
           fr_size = ve_size entry, fr_mtime_ns = 0, fr_content_hash = hash, fr_version_id = ve_version_id entry,
           fr_origin_device_id = ve_origin_device_id entry, fr_logical_clock = ve_logical_clock entry, fr_deleted_at_ms = None\<rparr> in
     case ve_deleted_at_ms entry of
       None \<Rightarrow> Inr r
     | Some deleted \<Rightarrow>
        if kInt64Max < unat deleted then Inl (Invalid_argument ''tombstone timestamp is too large'')
        else Inr (r\<lparr>fr_deleted_at_ms := Some (int (unat deleted))\<rparr>))"

definition SameSnapshot :: "SnapshotEntry \<Rightarrow> FileRecord \<Rightarrow> bool" where
  "SameSnapshot entry r =
     (let kind = (if se_kind entry = snFile then fkFile else fkDirectory) in
      if kind \<noteq> fr_kind r \<or> se_size entry \<noteq> fr_size r then False
      else if kind = fkDirectory then True
      else se_content_hash entry = Some (fr_content_hash r))"

section \<open>Construction and queries\<close>

definition BidirectionalSyncNode_new ::
  "'t Services \<Rightarrow> BidirectionalSyncConfig \<Rightarrow> 't \<Rightarrow> Database \<Rightarrow> FileSystem \<Rightarrow> 't BidirectionalSyncNode result" where
  "BidirectionalSyncNode_new svc config transport database files =
     (case SafeFileWriter_new (svc_canonical svc) (bc_task_root config) files of
        (Inl e, _) \<Rightarrow> Inl e
      | (Inr writer, files') \<Rightarrow>
         if bc_task_id config = [] \<or> bc_device_id config = [] \<or> bc_peer_device_id config = [] \<or>
           bc_device_fingerprint config = [] \<or> bc_peer_device_fingerprint config = [] \<or> bc_authorization_digest config = []
         then Inl (Invalid_argument ''bidirectional identity is incomplete'')
         else Inr \<lparr>sn_database = database, sn_files = files', sn_calls = 0, sn_manifest_revision = 0, sn_source_files = [],
           bi_config = config, bi_transport = transport, bi_writer = writer, bi_started = False, bi_received_hello = False,
           bi_received_manifest = False, bi_policy_ready = False, bi_policy_hash = [], bi_next_policy_retry = 0,
           bi_next_request_id = 1, bi_uploads = [], bi_downloads = [], bi_last_error = None\<rparr>)"

definition Bi_HandshakeComplete :: "'t BidirectionalSyncNode \<Rightarrow> bool" where
  "Bi_HandshakeComplete s \<longleftrightarrow> bi_started s \<and> bi_received_hello s \<and> bi_last_error s = None"

definition PolicyPending :: "'t BidirectionalSyncNode \<Rightarrow> bool" where
  "PolicyPending s \<longleftrightarrow> (case FindPendingIgnorePolicy (bc_task_id (bi_config s)) (db_tables (sn_database s)) of
     None \<Rightarrow> False | Some pending \<Rightarrow> pp_state pending \<noteq> ''applied'')"

definition IsConverged :: "'t BidirectionalSyncNode \<Rightarrow> bool" where
  "IsConverged s \<longleftrightarrow> Bi_HandshakeComplete s \<and> bi_policy_ready s \<and> \<not> PolicyPending s \<and> bi_received_manifest s \<and> bi_downloads s = []"

definition Bi_PendingDownloadCount :: "'t BidirectionalSyncNode \<Rightarrow> nat" where
  "Bi_PendingDownloadCount s = length (bi_downloads s)"

definition Bi_DownloadProgress :: "'t BidirectionalSyncNode \<Rightarrow> u64 \<times> u64" where
  "Bi_DownloadProgress s =
     (sum_list (map (\<lambda>d. dr_expected_size (bd_receiver d)) (bi_downloads s)),
      sum_list (map (\<lambda>d. dr_received_bytes (bd_receiver d)) (bi_downloads s)))"

section \<open>Sending\<close>

definition Bi_Send :: "'t Services \<Rightarrow> Channel \<Rightarrow> FrameType \<Rightarrow> bytes \<Rightarrow> ('t, unit) bi_op" where
  "Bi_Send svc channel t payload =
     bindS (getS bi_next_request_id) (\<lambda>id.
     thenS (modifyS (\<lambda>s. s\<lparr>bi_next_request_id := id + 1\<rparr>))
    (bindS (liftS (\<lambda>_. EncodeFrame \<lparr>frame_type = t, frame_request_id = id, frame_payload = payload\<rparr>)) (\<lambda>wire.
     bi_the_transport (svc_send svc channel wire))))"

abbreviation bi_message :: "'t Services \<Rightarrow> FrameType \<Rightarrow> bytes result \<Rightarrow> ('t, unit) bi_op" where
  "bi_message svc t payload \<equiv> bindS (liftS (\<lambda>_. payload)) (Bi_Send svc kControl t)"

definition bi_own_hello :: "BidirectionalSyncConfig \<Rightarrow> Hello" where
  "bi_own_hello c = \<lparr>hello_task_id = bc_task_id c, hello_role = kPeer, hello_device_id = bc_device_id c,
     hello_device_fingerprint = bc_device_fingerprint c, hello_authorization_digest = bc_authorization_digest c\<rparr>"

definition versioned_entry :: "VersionLineage list \<Rightarrow> FileRecord \<Rightarrow> VersionedManifestEntry result" where
  "versioned_entry lineage_rows r =
     (case List.find (\<lambda>l. vl_version_id l = fr_version_id r) lineage_rows of
        None \<Rightarrow> Inl (Runtime_error ''local record has no version lineage'')
      | Some lineage \<Rightarrow>
         bindE (if fr_kind r = fkFile then Bi_EncodeHash (fr_content_hash r) else Inr []) (\<lambda>hash.
         Inr \<lparr>ve_relative_path = fr_relative_path r, ve_kind = ToProtocolKind (fr_kind r), ve_size = fr_size r, ve_content_hash = hash,
           ve_version_id = fr_version_id r, ve_origin_device_id = fr_origin_device_id r, ve_logical_clock = fr_logical_clock r,
           ve_parent_version_id = (case vl_parent_version_id lineage of None \<Rightarrow> [] | Some p \<Rightarrow> p),
           ve_deleted_at_ms = map_option word_of_int (fr_deleted_at_ms r)\<rparr>))"

fun versioned_entries :: "IgnoreRules \<Rightarrow> VersionLineage list \<Rightarrow> FileRecord list \<Rightarrow> VersionedManifestEntry list result" where
  "versioned_entries rules lineage_rows [] = Inr []"
| "versioned_entries rules lineage_rows (r # rs) =
     bindE (IsIgnored rules (fr_relative_path r)) (\<lambda>ignored.
     if ignored then versioned_entries rules lineage_rows rs
     else bindE (versioned_entry lineage_rows r) (\<lambda>e. bindE (versioned_entries rules lineage_rows rs) (\<lambda>es. Inr (e # es))))"

definition Bi_SendManifest :: "'t Services \<Rightarrow> ('t, unit) bi_op" where
  "Bi_SendManifest svc =
     bindS (getS (\<lambda>s. s)) (\<lambda>s.
     if \<not> bi_policy_ready s \<or> PolicyPending s then returnS ()
     else
      let revision = sn_manifest_revision s + 1 in
      thenS (modifyS (\<lambda>s. s\<lparr>sn_manifest_revision := revision\<rparr>))
     (bindS (node_tables (ListFileRecords (bc_task_id (bi_config s)))) (\<lambda>records.
      bindS (node_tables (ListVersionLineage (bc_task_id (bi_config s)))) (\<lambda>lineage_rows.
      bindS (node_files (LoadFile (svc_native svc (bc_task_root (bi_config s))) IgnoreRules_new)) (\<lambda>rules.
      bindS (liftS (\<lambda>_. versioned_entries rules lineage_rows records)) (\<lambda>entries.
      bi_message svc kVersionManifest (EncodeVersionedManifest \<lparr>vm_revision = revision, vm_entries = entries\<rparr>)))))))"

section \<open>Local changes\<close>

definition current_rules_hash :: "'t Services \<Rightarrow> ('t, string) bi_op" where
  "current_rules_hash svc =
     bindS (getS (\<lambda>s. bc_task_root (bi_config s))) (\<lambda>task_root.
     bindS (node_files (ReadRules (svc_native svc task_root))) (\<lambda>rules. returnS (HashRules (svc_blake3 svc) rules)))"

definition refresh_entry :: "'t Services \<Rightarrow> SnapshotEntry \<Rightarrow> FileRecord option \<Rightarrow> ('t, unit) bi_op" where
  "refresh_entry svc entry previous =
     bindS (getS bi_config) (\<lambda>config.
     bindS (node_db (AdvanceLogicalClock (bc_task_id config) 0)) (\<lambda>clock.
     bindS (NewUuidV4 svc) (\<lambda>version.
     thenS (node_db (RecordVersionLineage \<lparr>vl_task_id = bc_task_id config, vl_version_id = version,
         vl_parent_version_id = map_option fr_version_id previous\<rparr>))
     (node_db (UpsertFileRecord \<lparr>fr_task_id = bc_task_id config, fr_relative_path = se_relative_path entry,
         fr_kind = (if se_kind entry = snFile then fkFile else fkDirectory), fr_size = se_size entry, fr_mtime_ns = se_mtime_ns entry,
         fr_content_hash = (case se_content_hash entry of None \<Rightarrow> [] | Some h \<Rightarrow> h), fr_version_id = version,
         fr_origin_device_id = bc_device_id config, fr_logical_clock = clock, fr_deleted_at_ms = None\<rparr>)))))"

fun refresh_changes :: "'t Services \<Rightarrow> SnapshotEntry list \<Rightarrow> FileRecord list \<Rightarrow> ('t, unit) bi_op" where
  "refresh_changes svc [] known = returnS ()"
| "refresh_changes svc (entry # snapshot) known =
     (let known' = dropWhile (\<lambda>r. fr_relative_path r < se_relative_path entry) known;
          previous = (case known' of [] \<Rightarrow> None | r # _ \<Rightarrow> if fr_relative_path r = se_relative_path entry then Some r else None) in
      thenS (if (case previous of None \<Rightarrow> False | Some r \<Rightarrow> SameSnapshot entry r) then returnS ()
             else refresh_entry svc entry previous)
        (refresh_changes svc snapshot known'))"

definition refresh_deletion :: "'t Services \<Rightarrow> FileRecord \<Rightarrow> ('t, unit) bi_op" where
  "refresh_deletion svc r =
     bindS (getS bi_config) (\<lambda>config.
     bindS (node_db (AdvanceLogicalClock (bc_task_id config) 0)) (\<lambda>clock.
     bindS (NewUuidV4 svc) (\<lambda>version.
     thenS (node_db (RecordVersionLineage \<lparr>vl_task_id = bc_task_id config, vl_version_id = version,
         vl_parent_version_id = Some (fr_version_id r)\<rparr>))
    (bindS (NowMilliseconds svc) (\<lambda>now.
     node_db (RecordTombstone (bc_task_id config) (fr_relative_path r) version (bc_device_id config) clock now))))))"

fun refresh_deletions :: "'t Services \<Rightarrow> FileRecord list \<Rightarrow> SnapshotEntry list \<Rightarrow> ('t, unit) bi_op" where
  "refresh_deletions svc [] snapshot = returnS ()"
| "refresh_deletions svc (r # known) snapshot =
     (let snapshot' = dropWhile (\<lambda>e. se_relative_path e < fr_relative_path r) snapshot;
          exists_now = (case snapshot' of [] \<Rightarrow> False | e # _ \<Rightarrow> se_relative_path e = fr_relative_path r) in
      thenS (if fr_kind r = fkTombstone \<or> exists_now then returnS () else refresh_deletion svc r)
        (refresh_deletions svc known snapshot'))"

definition bi_source_files :: "path \<Rightarrow> SnapshotEntry list \<Rightarrow> SourceFile list" where
  "bi_source_files root snapshot = sort_key sf_hash (List.map_filter (\<lambda>e.
     case se_content_hash e of
       Some hash \<Rightarrow> if se_kind e = snFile then Some \<lparr>sf_absolute_path = root @ path_components (se_relative_path e), sf_hash = hash\<rparr> else None
     | None \<Rightarrow> None) snapshot)"

definition RefreshLocal :: "'t Services \<Rightarrow> ('t, unit) bi_op" where
  "RefreshLocal svc =
     bindS (getS (\<lambda>s. s)) (\<lambda>s.
     if PolicyPending s then returnS ()
     else
      let config = bi_config s in
      bindS (current_rules_hash svc) (\<lambda>current_hash.
      if bi_received_hello s \<and> current_hash \<noteq> bi_policy_hash s
      then thenS (modifyS (\<lambda>s. s\<lparr>bi_policy_ready := False\<rparr>)) (throwS (Runtime_error ''ignore policy changed outside negotiated editor''))
      else
       bindS (scan_task svc (bc_task_root config)) (\<lambda>scanned.
       let snapshot = filter (\<lambda>e. \<not> IsConflictPath (se_relative_path e)) scanned in
       bindS (node_tables (ListFileRecords (bc_task_id config))) (\<lambda>known.
       thenS (refresh_changes svc snapshot known)
      (thenS (refresh_deletions svc known snapshot)
      (thenS (modifyS (\<lambda>s. s\<lparr>sn_source_files := bi_source_files (svc_native svc (bc_task_root config)) snapshot\<rparr>))
       (if bi_received_hello s then Bi_SendManifest svc else returnS ())))))))"

section \<open>Agreeing on a policy\<close>

definition SendPolicyHello :: "'t Services \<Rightarrow> ('t, unit) bi_op" where
  "SendPolicyHello svc =
     bindS (getS (\<lambda>s. FindPendingIgnorePolicy (bc_task_id (bi_config s)) (db_tables (sn_database s)))) (\<lambda>pending.
     bindS (current_rules_hash svc) (\<lambda>hash.
     bi_message svc kPolicyHello (EncodeIgnorePolicy \<lparr>policy_proposal_id = (case pending of None \<Rightarrow> [] | Some p \<Rightarrow> pp_proposal_id p),
       policy_base_hash = hash, policy_rules = [], policy_source = ''manual''\<rparr>)))"

definition ApplyCommittedPolicy :: "'t Services \<Rightarrow> PendingIgnorePolicy \<Rightarrow> ('t, unit) bi_op" where
  "ApplyCommittedPolicy svc policy =
     bindS (getS bi_config) (\<lambda>config.
     bindS (current_rules_hash svc) (\<lambda>current_hash.
     let desired_hash = HashRules (svc_blake3 svc) (pp_rules policy) in
     bindS (NowMilliseconds svc) (\<lambda>now.
     thenS (if current_hash \<noteq> desired_hash
            then Policy_Apply svc (bc_task_id config) (bc_task_root config) (pp_base_hash policy) (pp_rules policy) (pp_source policy) now
            else Synchronize svc (bc_task_id config) (bc_task_root config) now)
       (modifyS (\<lambda>s. s\<lparr>bi_policy_hash := desired_hash\<rparr>)))))"

definition RetryPolicy :: "'t Services \<Rightarrow> ('t, unit) bi_op" where
  "RetryPolicy svc =
     bindS (outside_call (svc_steady svc)) (\<lambda>now.
     bindS (getS (\<lambda>s. s)) (\<lambda>s.
     if now < bi_next_policy_retry s then returnS ()
     else case FindPendingIgnorePolicy (bc_task_id (bi_config s)) (db_tables (sn_database s)) of
       None \<Rightarrow> returnS ()
     | Some pending \<Rightarrow>
        if pp_state pending = ''applied'' \<or> pp_origin_device_id pending \<noteq> bc_device_id (bi_config s) then returnS ()
        else
         thenS (if pp_state pending = ''committed'' then ApplyCommittedPolicy svc pending else returnS ())
        (thenS (bi_message svc (if pp_state pending = ''committed'' then kPolicyCommit else kPolicyPropose)
           (EncodeIgnorePolicy \<lparr>policy_proposal_id = pp_proposal_id pending, policy_base_hash = pp_base_hash pending,
              policy_rules = pp_rules pending, policy_source = pp_source pending\<rparr>))
          (modifyS (\<lambda>s. s\<lparr>bi_next_policy_retry := now + 500\<rparr>)))))"

definition ProposeIgnorePolicy :: "'t Services \<Rightarrow> string \<Rightarrow> string \<Rightarrow> string \<Rightarrow> ('t, unit) bi_op" where
  "ProposeIgnorePolicy svc expected_hash rules source =
     thenS (liftS (\<lambda>_. Validate rules))
    (bindS (getS (\<lambda>s. s)) (\<lambda>s.
     thenS (guardS (\<not> bi_policy_ready s \<or> \<not> Bi_HandshakeComplete s \<or> bi_uploads s \<noteq> [] \<or> bi_downloads s \<noteq> [])
       (Runtime_error ''ignore policy negotiation requires an idle connected peer''))
    (thenS (guardS (PolicyPending s) (Runtime_error ''ignore policy negotiation is already pending''))
    (thenS (guardS (source \<noteq> ''manual'' \<and> source \<noteq> ''ai'' \<and> source \<noteq> ''undo'') (Invalid_argument ''invalid ignore policy source''))
    (bindS (current_rules_hash svc) (\<lambda>hash.
     thenS (guardS (hash \<noteq> expected_hash) (Invalid_argument ''ignore policy changed; refresh before applying''))
    (bindS (NewUuidV4 svc) (\<lambda>proposal_id.
     thenS (node_db (SavePendingIgnorePolicy \<lparr>pp_task_id = bc_task_id (bi_config s), pp_proposal_id = proposal_id,
         pp_origin_device_id = bc_device_id (bi_config s), pp_base_hash = expected_hash, pp_rules = rules, pp_source = source,
         pp_state = ''proposed''\<rparr>))
    (thenS (modifyS (\<lambda>s. s\<lparr>bi_next_policy_retry := 0\<rparr>)) (RetryPolicy svc))))))))))"

abbreviation save_pending :: "PendingIgnorePolicy \<Rightarrow> ('t, unit) bi_op" where
  "save_pending p \<equiv> node_db (SavePendingIgnorePolicy p)"

abbreviation policy_reply :: "'t Services \<Rightarrow> FrameType \<Rightarrow> IgnorePolicyMessage \<Rightarrow> ('t, unit) bi_op" where
  "policy_reply svc t message \<equiv> bi_message svc t (EncodeIgnorePolicy message)"

definition policy_hello :: "'t Services \<Rightarrow> IgnorePolicyMessage \<Rightarrow> ('t, unit) bi_op" where
  "policy_hello svc message =
     bindS (getS (\<lambda>s. FindPendingIgnorePolicy (bc_task_id (bi_config s)) (db_tables (sn_database s)))) (\<lambda>pending.
     bindS (current_rules_hash svc) (\<lambda>hash.
     thenS (guardS (hash \<noteq> policy_base_hash message \<and>
         (case pending of None \<Rightarrow> True | Some p \<Rightarrow> pp_proposal_id p \<noteq> policy_proposal_id message))
       (Runtime_error ''peer ignore policies differ; restore matching rules before synchronization''))
    (thenS (modifyS (\<lambda>s. s\<lparr>bi_policy_hash := hash, bi_policy_ready := hash = policy_base_hash message, bi_next_policy_retry := 0\<rparr>))
    (thenS (RetryPolicy svc) (Bi_SendManifest svc)))))"

definition matching_policy :: "PendingIgnorePolicy \<Rightarrow> IgnorePolicyMessage \<Rightarrow> bool" where
  "matching_policy pending message \<longleftrightarrow> pp_proposal_id pending = policy_proposal_id message \<and>
     pp_base_hash pending = policy_base_hash message \<and> pp_rules pending = policy_rules message \<and> pp_source pending = policy_source message"

definition policy_propose :: "'t Services \<Rightarrow> IgnorePolicyMessage \<Rightarrow> PendingIgnorePolicy option \<Rightarrow> ('t, unit) bi_op" where
  "policy_propose svc message pending =
     bindS (getS (\<lambda>s. s)) (\<lambda>s.
     case pending of
       Some p \<Rightarrow>
        thenS (guardS (pp_origin_device_id p \<noteq> bc_peer_device_id (bi_config s)) (Invalid_argument ''policy proposer mismatch''))
          (policy_reply svc (if pp_state p = ''applied'' then kPolicyDone else kPolicyAck) message)
     | None \<Rightarrow>
        bindS (if PolicyPending s \<or> bi_uploads s \<noteq> [] \<or> bi_downloads s \<noteq> [] then returnS True
               else bindS (current_rules_hash svc) (\<lambda>hash. returnS (hash \<noteq> policy_base_hash message))) (\<lambda>reject.
        if reject then policy_reply svc kPolicyReject message
        else
         thenS (guardS (policy_source message \<noteq> ''manual'' \<and> policy_source message \<noteq> ''ai'' \<and> policy_source message \<noteq> ''undo'')
           (Invalid_argument ''invalid policy source''))
        (thenS (save_pending \<lparr>pp_task_id = bc_task_id (bi_config s), pp_proposal_id = policy_proposal_id message,
             pp_origin_device_id = bc_peer_device_id (bi_config s), pp_base_hash = policy_base_hash message,
             pp_rules = policy_rules message, pp_source = policy_source message, pp_state = ''prepared''\<rparr>)
          (policy_reply svc kPolicyAck message))))"

definition policy_settled :: "'t Services \<Rightarrow> ('t, unit) bi_op" where
  "policy_settled svc =
     thenS (modifyS (\<lambda>s. s\<lparr>bi_policy_ready := True\<rparr>))
    (bindS (current_rules_hash svc) (\<lambda>hash.
     thenS (modifyS (\<lambda>s. s\<lparr>bi_policy_hash := hash\<rparr>)) (RefreshLocal svc)))"

definition policy_reject :: "'t Services \<Rightarrow> PendingIgnorePolicy \<Rightarrow> ('t, unit) bi_op" where
  "policy_reject svc p =
     bindS (getS bi_config) (\<lambda>config.
     if pp_origin_device_id p = bc_device_id config \<and> pp_state p = ''proposed'' then
       thenS (node_db (ClearPendingIgnorePolicy (bc_task_id config)))
      (bindS (NowMilliseconds svc) (\<lambda>now.
       node_db (RecordEngineEvent \<lparr>ev_event_id = 0, ev_task_id = Some (bc_task_id config), ev_level = ''warning'',
         ev_message = ''Peer rejected ignore policy proposal'', ev_created_at_ms = now\<rparr>)))
     else returnS ())"

definition policy_ack :: "'t Services \<Rightarrow> IgnorePolicyMessage \<Rightarrow> PendingIgnorePolicy \<Rightarrow> ('t, unit) bi_op" where
  "policy_ack svc message p =
     bindS (getS bi_config) (\<lambda>config.
     if pp_origin_device_id p \<noteq> bc_device_id config \<or> pp_state p = ''applied'' then returnS ()
     else thenS (save_pending (p\<lparr>pp_state := ''committed''\<rparr>))
      (thenS (ApplyCommittedPolicy svc (p\<lparr>pp_state := ''committed''\<rparr>)) (policy_reply svc kPolicyCommit message)))"

definition policy_commit :: "'t Services \<Rightarrow> IgnorePolicyMessage \<Rightarrow> PendingIgnorePolicy \<Rightarrow> ('t, unit) bi_op" where
  "policy_commit svc message p =
     bindS (getS bi_config) (\<lambda>config.
     thenS (guardS (pp_origin_device_id p \<noteq> bc_peer_device_id config) (Invalid_argument ''policy commit origin mismatch''))
    (thenS (if pp_state p = ''applied'' then returnS ()
            else thenS (save_pending (p\<lparr>pp_state := ''committed''\<rparr>))
             (thenS (ApplyCommittedPolicy svc (p\<lparr>pp_state := ''committed''\<rparr>)) (save_pending (p\<lparr>pp_state := ''applied''\<rparr>))))
    (thenS (policy_reply svc kPolicyDone message) (policy_settled svc))))"

definition policy_done :: "'t Services \<Rightarrow> PendingIgnorePolicy \<Rightarrow> ('t, unit) bi_op" where
  "policy_done svc p =
     bindS (getS bi_config) (\<lambda>config.
     thenS (guardS (pp_origin_device_id p \<noteq> bc_device_id config) (Invalid_argument ''policy receipt origin mismatch''))
    (thenS (if pp_state p = ''applied'' then returnS ()
            else thenS (ApplyCommittedPolicy svc p) (save_pending (p\<lparr>pp_state := ''applied''\<rparr>)))
     (policy_settled svc)))"

definition HandlePolicy :: "'t Services \<Rightarrow> FrameType \<Rightarrow> IgnorePolicyMessage \<Rightarrow> ('t, unit) bi_op" where
  "HandlePolicy svc t message =
     (if t = kPolicyHello then policy_hello svc message
      else
       bindS (getS (\<lambda>s. FindPendingIgnorePolicy (bc_task_id (bi_config s)) (db_tables (sn_database s)))) (\<lambda>pending.
       thenS (guardS (policy_proposal_id message = []) (Invalid_argument ''policy proposal id is required''))
      (thenS (liftS (\<lambda>_. Validate (policy_rules message)))
      (let matching = (case pending of None \<Rightarrow> None | Some p \<Rightarrow> if matching_policy p message then Some p else None) in
       if t = kPolicyPropose then policy_propose svc message matching
       else case matching of
         None \<Rightarrow> if t = kPolicyReject then returnS ()
           else throwS (Invalid_argument ''policy acknowledgement does not match durable proposal'')
       | Some p \<Rightarrow>
          if t = kPolicyReject then policy_reject svc p
          else if t = kPolicyAck then policy_ack svc message p
          else if t = kPolicyCommit then policy_commit svc message p
          else if t = kPolicyDone then policy_done svc p
          else policy_settled svc))))"

section \<open>Serving files\<close>

definition bi_with_upload :: "nat \<Rightarrow> (UploadSession, 'a) op \<Rightarrow> ('t, 'a) bi_op" where
  "bi_with_upload i m =
     zoomS (\<lambda>s. let u = pu_session (bi_uploads s ! i) in u\<lparr>up_source := (fst (up_source u), sn_files s)\<rparr>)
       (\<lambda>u s. s\<lparr>sn_files := snd (up_source u), bi_uploads := (bi_uploads s)[i := (bi_uploads s ! i)\<lparr>pu_session := u\<rparr>]\<rparr>) m"

definition bi_pump_upload :: "'t Services \<Rightarrow> nat \<Rightarrow> ('t, bool) bi_op" where
  "bi_pump_upload svc i =
     bindS (getS (\<lambda>s. svc_buffered svc kBulk (bi_transport s))) (\<lambda>buffered.
     bindS (bi_with_upload i (NextForTransport (svc_blake3 svc) buffered)) (\<lambda>next.
     thenS (case next of
         Some send \<Rightarrow> bi_the_transport (svc_send svc (ps_channel send) (ps_wire send))
       | None \<Rightarrow> returnS ())
    (bindS (getS (\<lambda>s. HasPending (pu_session (bi_uploads s ! i)))) (\<lambda>pending.
     if pending then returnS False
     else thenS (modifyS (\<lambda>s. s\<lparr>bi_uploads := erase_at i (bi_uploads s)\<rparr>)) (returnS True)))))"

primrec bi_pump_uploads :: "'t Services \<Rightarrow> nat \<Rightarrow> nat \<Rightarrow> ('t, unit) bi_op" where
  "bi_pump_uploads svc 0 i = returnS ()"
| "bi_pump_uploads svc (Suc n) i =
     bindS (bi_pump_upload svc i) (\<lambda>erased. bi_pump_uploads svc n (if erased then i else Suc i))"

definition Bi_HandleFileRequest :: "'t Services \<Rightarrow> FileRequest \<Rightarrow> ('t, unit) bi_op" where
  "Bi_HandleFileRequest svc request =
     bindS (getS (\<lambda>s. find_source (request_file_hash request) (sn_source_files s))) (\<lambda>source.
     case source of
       None \<Rightarrow> bi_message svc kCancel (EncodeCancel \<lparr>cancel_transfer_id = request_transfer_id request, cancel_reason = ''source_missing''\<rparr>)
     | Some f \<Rightarrow>
        bindS (open_session f request) (\<lambda>session.
        bindS (with_session (QueueRequested (svc_blake3 svc) request) session) (\<lambda>(queued, session').
        case queued of
          Inl _ \<Rightarrow> bi_message svc kCancel (EncodeCancel \<lparr>cancel_transfer_id = request_transfer_id request, cancel_reason = ''source_changed''\<rparr>)
        | Inr _ \<Rightarrow> modifyS (\<lambda>s. s\<lparr>bi_uploads := bi_uploads s @
             [\<lparr>pu_transfer_id = request_transfer_id request, pu_session = session'\<rparr>]\<rparr>))))"

section \<open>Downloads\<close>

definition bi_with_receiver :: "nat \<Rightarrow> (DownloadReceiver, 'a) op \<Rightarrow> ('t, 'a) bi_op" where
  "bi_with_receiver i m =
     zoomS (\<lambda>s. (bd_receiver (bi_downloads s ! i))\<lparr>dr_database := sn_database s, dr_files := sn_files s\<rparr>)
       (\<lambda>r s. s\<lparr>sn_database := dr_database r, sn_files := dr_files r,
          bi_downloads := (bi_downloads s)[i := (bi_downloads s ! i)\<lparr>bd_receiver := r\<rparr>]\<rparr>) m"

abbreviation bi_update_download :: "nat \<Rightarrow> (BiDownload \<Rightarrow> BiDownload) \<Rightarrow> ('t, unit) bi_op" where
  "bi_update_download i f \<equiv> modifyS (\<lambda>s. s\<lparr>bi_downloads := (bi_downloads s)[i := f (bi_downloads s ! i)]\<rparr>)"

definition bi_persist :: "'t Services \<Rightarrow> nat \<Rightarrow> ('t, unit) bi_op" where
  "bi_persist svc i =
     bindS (getS (\<lambda>s. bd_dirty_chunks (bi_downloads s ! i))) (\<lambda>dirty.
     bindS (NowMilliseconds svc) (\<lambda>now.
     thenS (bi_with_receiver i (PersistAcceptedChunks dirty now))
       (bi_update_download i (\<lambda>d. d\<lparr>bd_durable_chunks := bd_durable_chunks d + length dirty, bd_dirty_chunks := [], bd_dirty_bytes := 0\<rparr>))))"

definition UpsertRemoteRecord :: "VersionedManifestEntry \<Rightarrow> ('t, unit) bi_op" where
  "UpsertRemoteRecord entry =
     bindS (getS (\<lambda>s. bc_task_id (bi_config s))) (\<lambda>task_id.
     bindS (liftS (\<lambda>_. ToRecord task_id entry)) (\<lambda>r. node_db (UpsertFileRecord r)))"

definition Bi_CommitDownload :: "'t Services \<Rightarrow> nat \<Rightarrow> ('t, unit) bi_op" where
  "Bi_CommitDownload svc i =
     bindS (NowMilliseconds svc) (\<lambda>now.
     thenS (bi_with_receiver i (DownloadReceiver_Commit (svc_blake3 svc) now))
    (bindS (getS (\<lambda>s. bi_downloads s ! i)) (\<lambda>d.
     if bd_apply_formal_record d then UpsertRemoteRecord (bd_entry d) else returnS ())))"

definition bi_accept_into :: "'t Services \<Rightarrow> Chunk \<Rightarrow> nat \<Rightarrow> ('t, unit) bi_op" where
  "bi_accept_into svc chunk i =
     (let index = chunk_offset chunk div logical_chunk in
      bindS (NowMilliseconds svc) (\<lambda>now.
      bindS (bi_with_receiver i (AcceptChunk (svc_blake3 svc) index (chunk_offset chunk) (chunk_bytes chunk) (chunk_chunk_hash chunk) now False)) (\<lambda>accepted.
      if \<not> accepted then returnS ()
      else
        thenS (bi_update_download i (\<lambda>d. if index \<in> set (bd_dirty_chunks d) then d
            else d\<lparr>bd_dirty_chunks := bd_dirty_chunks d @ [index], bd_dirty_bytes := bd_dirty_bytes d + length (chunk_bytes chunk)\<rparr>))
       (bindS (getS (\<lambda>s. bi_downloads s ! i)) (\<lambda>d.
        thenS (if kPersistBatchBytes \<le> bd_dirty_bytes d \<or> bd_durable_chunks d + length (bd_dirty_chunks d) = unat (bd_chunk_count d)
               then bi_persist svc i else returnS ())
       (bindS (getS (\<lambda>s. bi_downloads s ! i)) (\<lambda>d.
        if bd_durable_chunks d \<noteq> unat (bd_chunk_count d) then returnS ()
        else thenS (Bi_CommitDownload svc i) (modifyS (\<lambda>s. s\<lparr>bi_downloads := erase_at i (bi_downloads s)\<rparr>)))))))))"

definition Bi_AcceptChunk :: "'t Services \<Rightarrow> Chunk \<Rightarrow> ('t, unit) bi_op" where
  "Bi_AcceptChunk svc chunk =
     bindS (getS (\<lambda>s. find_position (\<lambda>d. bd_transfer_id d = chunk_transfer_id chunk \<and> bd_hash d = chunk_file_hash chunk) (bi_downloads s))) (\<lambda>position.
     case position of
       None \<Rightarrow> throwS (Invalid_argument ''chunk does not belong to active download'')
     | Some i \<Rightarrow> bi_accept_into svc chunk i)"

definition Bi_HandleCancel :: "'t Services \<Rightarrow> Cancel \<Rightarrow> ('t, unit) bi_op" where
  "Bi_HandleCancel svc cancel =
     thenS (modifyS (\<lambda>s. s\<lparr>bi_uploads := filter (\<lambda>u. pu_transfer_id u \<noteq> cancel_transfer_id cancel) (bi_uploads s)\<rparr>))
    (bindS (getS (\<lambda>s. find_position (\<lambda>d. bd_transfer_id d = cancel_transfer_id cancel) (bi_downloads s))) (\<lambda>position.
     case position of
       None \<Rightarrow> returnS ()
     | Some i \<Rightarrow>
        bindS (NowMilliseconds svc) (\<lambda>now.
        thenS (bi_with_receiver i (DownloadReceiver_Cancel cancel now))
          (modifyS (\<lambda>s. s\<lparr>bi_downloads := erase_at i (bi_downloads s)\<rparr>)))))"

definition bi_choose_transfer :: "'t Services \<Rightarrow> string \<Rightarrow> bytes \<Rightarrow> ('t, TransferId) bi_op" where
  "bi_choose_transfer svc destination_path hash =
     bindS (getS (\<lambda>s. (bi_config s, bi_writer s))) (\<lambda>(config, writer).
     bindS (node_tables (FindActiveDownloadTransfer (bc_task_id config) (bc_peer_device_id config) destination_path hash)) (\<lambda>active.
     case active of
       Some t \<Rightarrow> returnS (tr_transfer_id t)
     | None \<Rightarrow>
        bindS (NewTransferId svc) (\<lambda>transfer_id.
        thenS (node_files (DiscardPartial writer destination_path))
       (bindS (NowMilliseconds svc) (\<lambda>created.
        bindS (NowMilliseconds svc) (\<lambda>updated.
        thenS (node_db (CreateTransfer \<lparr>tr_transfer_id = transfer_id, tr_task_id = bc_task_id config,
            tr_peer_device_id = bc_peer_device_id config, tr_direction = ''download'', tr_file_hash = hash, tr_state = ''active'',
            tr_created_at_ms = created, tr_updated_at_ms = updated, tr_relative_path = destination_path\<rparr>))
         (returnS transfer_id)))))))"

definition bi_new_receiver :: "TransferId \<Rightarrow> string \<Rightarrow> u64 \<Rightarrow> bytes \<Rightarrow> u64 \<Rightarrow> ('t, DownloadReceiver) bi_op" where
  "bi_new_receiver transfer_id destination_path bytes hash chunks =
     liftS (\<lambda>s. DownloadReceiver_new (sn_database s) (sn_files s) transfer_id (bi_writer s) destination_path bytes hash chunks)"

definition bi_on_receiver :: "(DownloadReceiver, 'a) op \<Rightarrow> DownloadReceiver \<Rightarrow> ('t, 'a) bi_op" where
  "bi_on_receiver m r s =
     (case m (r\<lparr>dr_database := sn_database s, dr_files := sn_files s\<rparr>) of
        (x, r') \<Rightarrow> (x, s\<lparr>sn_database := dr_database r', sn_files := dr_files r'\<rparr>))"

definition bi_start_download :: "'t Services \<Rightarrow> VersionedManifestEntry \<Rightarrow> string \<Rightarrow> bool \<Rightarrow> bytes \<Rightarrow> ('t, unit) bi_op" where
  "bi_start_download svc entry destination_path apply_formal_record hash =
     bindS (bi_choose_transfer svc destination_path hash) (\<lambda>transfer_id.
     let chunks = ChunkCount (ve_size entry) in
     bindS (bi_new_receiver transfer_id destination_path (ve_size entry) hash chunks) (\<lambda>receiver.
     bindS (bi_on_receiver ResumeRequest receiver) (\<lambda>request.
     if missing_ranges request = [] then
       bindS (NowMilliseconds svc) (\<lambda>now.
       thenS (bi_on_receiver (DownloadReceiver_Commit (svc_blake3 svc) now) receiver)
         (if apply_formal_record then UpsertRemoteRecord entry else returnS ()))
     else
       bindS (getS (\<lambda>s. length (CompletedTransferChunks transfer_id (db_tables (sn_database s))))) (\<lambda>durable.
       thenS (modifyS (\<lambda>s. s\<lparr>bi_downloads := bi_downloads s @ [\<lparr>bd_entry = entry, bd_destination_path = destination_path,
           bd_apply_formal_record = apply_formal_record, bd_hash = hash, bd_transfer_id = transfer_id, bd_chunk_count = chunks,
           bd_receiver = receiver, bd_durable_chunks = durable, bd_dirty_bytes = 0, bd_dirty_chunks = []\<rparr>]\<rparr>))
        (bi_message svc kFileRequest (EncodeFileRequest request))))))"

definition Bi_BeginDownload :: "'t Services \<Rightarrow> VersionedManifestEntry \<Rightarrow> string \<Rightarrow> bool \<Rightarrow> ('t, unit) bi_op" where
  "Bi_BeginDownload svc entry destination_path apply_formal_record =
     bindS (liftS (\<lambda>_. DecodeHash (ve_content_hash entry))) (\<lambda>hash.
     bindS (getS (\<lambda>s. s)) (\<lambda>s.
     if \<exists>d \<in> set (bi_downloads s). bd_destination_path d = destination_path \<and> bd_hash d = hash then returnS ()
     else
      bindS (node_files (ResolveTaskPath (svc_canonical svc) (bc_task_root (bi_config s)) destination_path)) (\<lambda>formal_destination.
      bindS (node_files (sys_status formal_destination)) (\<lambda>status.
      thenS (if status = stDirectory then node_files (RemoveEmptyDirectory (bi_writer s) destination_path) else returnS ())
      (if ve_size entry = 0 then
         thenS (node_files (WriteAtomically (bi_writer s) destination_path []))
           (if apply_formal_record then UpsertRemoteRecord entry else returnS ())
       else bi_start_download svc entry destination_path apply_formal_record hash)))))"

section \<open>Remote versions\<close>

definition RelocateSourceFile :: "'t Services \<Rightarrow> string \<Rightarrow> string \<Rightarrow> ('t, unit) bi_op" where
  "RelocateSourceFile svc old_path new_path =
     bindS (getS (\<lambda>s. svc_native svc (bc_task_root (bi_config s)))) (\<lambda>root.
     modifyS (\<lambda>s. s\<lparr>sn_source_files := map (\<lambda>f. if sf_absolute_path f = root @ path_components old_path
       then f\<lparr>sf_absolute_path := root @ path_components new_path\<rparr> else f) (sn_source_files s)\<rparr>))"

text \<open>What the winning remote version does to the path.\<close>

definition apply_remote :: "'t Services \<Rightarrow> VersionedManifestEntry \<Rightarrow> ('t, unit) bi_op" where
  "apply_remote svc entry =
     (if ve_kind entry = vkFile then Bi_BeginDownload svc entry (ve_relative_path entry) True
      else
       bindS (getS (\<lambda>s. (bi_config s, bi_writer s))) (\<lambda>(config, writer).
       bindS (node_files (ResolveTaskPath (svc_canonical svc) (bc_task_root config) (ve_relative_path entry))) (\<lambda>path.
       bindS (node_files (sys_status path)) (\<lambda>status.
       if ve_kind entry = vkDirectory then
         thenS (if status = stRegular then node_files (RemoveFile writer (ve_relative_path entry)) else returnS ())
        (thenS (node_files (EnsureDirectory writer (ve_relative_path entry))) (UpsertRemoteRecord entry))
       else
         thenS (if status = stRegular then node_files (RemoveFile writer (ve_relative_path entry))
                else bindS (node_files (sys_status path)) (\<lambda>again.
                  if again = stDirectory then node_files (RemoveEmptyDirectory writer (ve_relative_path entry)) else returnS ()))
           (UpsertRemoteRecord entry)))))"

definition resolve_conflict :: "'t Services \<Rightarrow> VersionedManifestEntry \<Rightarrow> FileRecord \<Rightarrow> FileRecord \<Rightarrow> VersionResolution \<Rightarrow> ('t, unit) bi_op" where
  "resolve_conflict svc entry remote loc resolution =
     bindS (getS (\<lambda>s. (bi_config s, bi_writer s))) (\<lambda>(config, writer).
     bindS (NewUuidV4 svc) (\<lambda>conflict_id.
     bindS (NowMilliseconds svc) (\<lambda>now.
     thenS (node_db (RecordConflict \<lparr>cr_conflict_id = conflict_id, cr_task_id = bc_task_id config, cr_original_path = ve_relative_path entry,
         cr_winning_version_id = fr_version_id (if res_remote_wins resolution then remote else loc),
         cr_conflict_path = res_conflict_path resolution, cr_state = ''unresolved'', cr_created_at_ms = now\<rparr>))
    (thenS (if res_remote_wins resolution \<and> fr_kind loc = fkFile
            then thenS (node_files (MoveFileToConflict writer (ve_relative_path entry) (res_conflict_path resolution)))
              (RelocateSourceFile svc (ve_relative_path entry) (res_conflict_path resolution))
            else returnS ())
     (if \<not> res_remote_wins resolution
      then if ve_kind entry = vkFile then Bi_BeginDownload svc entry (res_conflict_path resolution) False else returnS ()
      else apply_remote svc entry)))))"

definition ApplyRemoteEntry :: "'t Services \<Rightarrow> VersionedManifestEntry \<Rightarrow> ('t, unit) bi_op" where
  "ApplyRemoteEntry svc entry =
     bindS (getS (\<lambda>s. bc_task_id (bi_config s))) (\<lambda>task_id.
     let parent = (if ve_parent_version_id entry = [] then None else Some (ve_parent_version_id entry)) in
     bindS (liftS (\<lambda>_. ToRecord task_id entry)) (\<lambda>remote.
     thenS (node_db (RecordVersionLineage \<lparr>vl_task_id = task_id, vl_version_id = fr_version_id remote, vl_parent_version_id = parent\<rparr>))
    (thenS (node_db (AdvanceLogicalClock task_id (fr_logical_clock remote)))
    (bindS (node_tables (FindFileRecord task_id (ve_relative_path entry))) (\<lambda>loc.
     bindS (node_tables (\<lambda>t. Resolve t task_id loc \<lparr>vr_record = remote, vr_parent_version_id = parent\<rparr>)) (\<lambda>resolution.
     case res_action resolution of
       kKeepLocal \<Rightarrow> returnS ()
     | kApplyRemote \<Rightarrow> apply_remote svc entry
     | kConflict \<Rightarrow> resolve_conflict svc entry remote (the loc) resolution))))))"

definition bi_check_entry :: "'t Services \<Rightarrow> VersionedManifestEntry \<Rightarrow> ('t, unit) bi_op" where
  "bi_check_entry svc entry =
     bindS (getS (\<lambda>s. bc_task_root (bi_config s))) (\<lambda>task_root.
     thenS (node_files (ResolveTaskPath (svc_canonical svc) task_root (ve_relative_path entry)))
     (if ve_kind entry = vkFile then thenS (liftS (\<lambda>_. DecodeHash (ve_content_hash entry))) (returnS ()) else returnS ()))"

definition bi_apply_entry :: "'t Services \<Rightarrow> IgnoreRules \<Rightarrow> VersionedManifestEntry \<Rightarrow> ('t, unit) bi_op" where
  "bi_apply_entry svc rules entry =
     bindS (liftS (\<lambda>_. IsIgnored rules (ve_relative_path entry))) (\<lambda>ignored.
     if ignored then returnS () else ApplyRemoteEntry svc entry)"

definition Bi_ApplyManifest :: "'t Services \<Rightarrow> VersionedManifest \<Rightarrow> ('t, unit) bi_op" where
  "Bi_ApplyManifest svc manifest =
     thenS (forS (bi_check_entry svc) (vm_entries manifest))
    (thenS (guardS (\<not> distinct (map ve_relative_path (vm_entries manifest))) (Invalid_argument ''manifest contains duplicate paths''))
    (thenS (modifyS (\<lambda>s. s\<lparr>bi_received_manifest := True\<rparr>))
    (bindS (getS (\<lambda>s. svc_native svc (bc_task_root (bi_config s)))) (\<lambda>root.
     bindS (node_files (LoadFile root IgnoreRules_new)) (\<lambda>rules.
     forS (bi_apply_entry svc rules) (vm_entries manifest))))))"

section \<open>Starting, receiving and pumping\<close>

definition Bi_Start :: "'t Services \<Rightarrow> ('t, unit) bi_op" where
  "Bi_Start svc =
     bindS (getS (\<lambda>s. s)) (\<lambda>s.
     if bi_started s then returnS ()
     else thenS (modifyS (\<lambda>s. s\<lparr>bi_started := True\<rparr>))
      (bindS (NowMilliseconds svc) (\<lambda>now.
       bindS (Synchronize svc (bc_task_id (bi_config s)) (bc_task_root (bi_config s)) now) (\<lambda>policy.
       thenS (modifyS (\<lambda>s. s\<lparr>bi_policy_hash := st_content_hash policy\<rparr>))
      (thenS (RefreshLocal svc) (bi_message svc kHello (EncodeHello (bi_own_hello (bi_config s)))))))))"

definition bi_accept_hello :: "'t Services \<Rightarrow> Hello \<Rightarrow> ('t, unit) bi_op" where
  "bi_accept_hello svc hello =
     bindS (getS (\<lambda>s. s)) (\<lambda>s.
     let config = bi_config s in
     thenS (guardS (hello_task_id hello \<noteq> bc_task_id config \<or> hello_role hello \<noteq> kPeer \<or> hello_device_id hello \<noteq> bc_peer_device_id config \<or>
         hello_device_fingerprint hello \<noteq> bc_peer_device_fingerprint config \<or> hello_authorization_digest hello \<noteq> bc_authorization_digest config)
       (Invalid_argument ''unauthorized_peer''))
    (thenS (modifyS (\<lambda>s. s\<lparr>bi_received_hello := True\<rparr>))
     (if \<not> bi_received_hello s
      then thenS (bi_message svc kHello (EncodeHello (bi_own_hello config))) (SendPolicyHello svc)
      else returnS ())))"

definition is_policy_frame :: "FrameType \<Rightarrow> bool" where
  "is_policy_frame t \<longleftrightarrow> FrameType_code kPolicyHello \<le> FrameType_code t \<and> FrameType_code t \<le> FrameType_code kPolicyReject"

definition bi_dispatch :: "'t Services \<Rightarrow> Frame \<Rightarrow> ('t, unit) bi_op" where
  "bi_dispatch svc frame =
     (case frame_type frame of
       kVersionManifest \<Rightarrow> bindS (liftS (\<lambda>_. DecodeVersionedManifest (frame_payload frame))) (Bi_ApplyManifest svc)
     | kFileRequest \<Rightarrow> bindS (liftS (\<lambda>_. DecodeFileRequest (frame_payload frame))) (Bi_HandleFileRequest svc)
     | kChunk \<Rightarrow> bindS (liftS (\<lambda>_. DecodeChunk (svc_blake3 svc) (frame_payload frame))) (Bi_AcceptChunk svc)
     | kCancel \<Rightarrow> bindS (liftS (\<lambda>_. DecodeCancel (frame_payload frame))) (Bi_HandleCancel svc)
     | _ \<Rightarrow> throwS (Invalid_argument ''unexpected_frame''))"

definition bi_receive_wire :: "'t Services \<Rightarrow> Channel \<Rightarrow> bytes \<Rightarrow> ('t, unit) bi_op" where
  "bi_receive_wire svc channel wire =
     bindS (liftS (\<lambda>_. DecodeFrameView wire)) (\<lambda>frame.
     thenS (guardS (\<not> IsAllowedOn channel (frame_type frame)) (Invalid_argument ''wrong_channel''))
     (if frame_type frame = kHello then bindS (liftS (\<lambda>_. DecodeHello (frame_payload frame))) (bi_accept_hello svc)
      else bindS (getS (\<lambda>s. s)) (\<lambda>s.
        thenS (guardS (\<not> bi_started s \<or> \<not> bi_received_hello s) (Invalid_argument ''unauthorized_peer''))
        (if is_policy_frame (frame_type frame)
         then bindS (liftS (\<lambda>_. DecodeIgnorePolicy (frame_payload frame))) (HandlePolicy svc (frame_type frame))
         else if \<not> bi_policy_ready s \<or> PolicyPending s then returnS ()
         else bi_dispatch svc frame))))"

definition Bi_Receive :: "'t Services \<Rightarrow> Channel \<Rightarrow> bytes \<Rightarrow> ('t, unit) bi_op" where
  "Bi_Receive svc channel wire =
     catchS (bi_receive_wire svc channel wire) (\<lambda>e. modifyS (\<lambda>s. s\<lparr>bi_last_error := Some (what e)\<rparr>))"

definition bi_persist_pending :: "'t Services \<Rightarrow> nat \<Rightarrow> ('t, unit) bi_op" where
  "bi_persist_pending svc i =
     bindS (getS (\<lambda>s. bi_downloads s ! i)) (\<lambda>d.
     if kPersistBatchBytes \<le> bd_dirty_bytes d \<and> bd_dirty_chunks d \<noteq> [] then bi_persist svc i else returnS ())"

definition Bi_Pump :: "'t Services \<Rightarrow> ('t, unit) bi_op" where
  "Bi_Pump svc =
     bindS (getS bi_received_hello) (\<lambda>received.
     thenS (if received then RetryPolicy svc else returnS ())
    (bindS (getS (\<lambda>s. s)) (\<lambda>s.
     if PolicyPending s \<or> \<not> bi_policy_ready s then returnS ()
     else thenS (bi_pump_uploads svc (length (bi_uploads s)) 0)
       (bindS (getS (\<lambda>s. length (bi_downloads s))) (\<lambda>n. forS (bi_persist_pending svc) [0..<n])))))"

end
