(* ===== verification/Bidirectional_Properties.thy ===== *)
theory Bidirectional_Properties
  imports Bidirectional_Sync Policy_Properties Multi_Target_Properties Protocol_Codec
begin

text \<open>
  What a peer can do to a bidirectional node: nothing before it has identified itself, and nothing outside the task root at any
  time; and what the merge loops of a rescan compute.
\<close>

section \<open>A peer that has not identified itself\<close>

definition bi_authorised :: "BidirectionalSyncConfig \<Rightarrow> Channel \<Rightarrow> bytes \<Rightarrow> bool" where
  "bi_authorised config channel wire \<longleftrightarrow> (case DecodeFrameView wire of Inl _ \<Rightarrow> False | Inr frame \<Rightarrow>
     IsAllowedOn channel (frame_type frame) \<and> frame_type frame = kHello \<and>
     (case DecodeHello (frame_payload frame) of Inl _ \<Rightarrow> False | Inr hello \<Rightarrow>
        hello_task_id hello = bc_task_id config \<and> hello_role hello = kPeer \<and> hello_device_id hello = bc_peer_device_id config \<and>
        hello_device_fingerprint hello = bc_peer_device_fingerprint config \<and>
        hello_authorization_digest hello = bc_authorization_digest config))"

lemma bi_unknown_frame:
  assumes "\<not> bi_received_hello s" "\<not> bi_authorised (bi_config s) channel wire"
  shows "\<exists>e. Bi_Receive svc channel wire s = (Inr (), s\<lparr>bi_last_error := Some e\<rparr>)"
proof (cases "DecodeFrameView wire")
  case (Inl e)
  then show ?thesis by (auto simp: Bi_Receive_def bi_receive_wire_def op_defs)
next
  case (Inr frame)
  show ?thesis
  proof (cases "IsAllowedOn channel (frame_type frame) \<and> frame_type frame = kHello")
    case True
    then show ?thesis
      using assms(2) Inr
      by (cases "DecodeHello (frame_payload frame)")
        (auto simp: Bi_Receive_def bi_receive_wire_def bi_accept_hello_def bi_authorised_def op_defs)
  next
    case False
    then show ?thesis
      using assms(1) Inr by (auto simp: Bi_Receive_def bi_receive_wire_def op_defs)
  qed
qed

definition bi_receive_all :: "'t Services \<Rightarrow> (Channel \<times> bytes) list \<Rightarrow> 't BidirectionalSyncNode \<Rightarrow> 't BidirectionalSyncNode" where
  "bi_receive_all svc frames = fold (\<lambda>(channel, wire) s. snd (Bi_Receive svc channel wire s)) frames"

section \<open>A node stays below its root\<close>

text \<open>The node, with its configuration, its writer and the number of its downloads.\<close>

definition bi_safe :: "path \<Rightarrow> (path \<Rightarrow> node option) \<Rightarrow> BidirectionalSyncConfig \<Rightarrow> SafeFileWriter \<Rightarrow> nat \<Rightarrow> 't BidirectionalSyncNode \<Rightarrow> bool" where
  "bi_safe root nodes c w n s \<longleftrightarrow> confined root nodes (sn_files s) \<and> bi_config s = c \<and> bi_writer s = w \<and> length (bi_downloads s) = n \<and>
     (\<forall>d \<in> set (bi_downloads s). dr_writer (bd_receiver d) = w)"

definition bi_confined :: "path \<Rightarrow> (path \<Rightarrow> node option) \<Rightarrow> BidirectionalSyncConfig \<Rightarrow> SafeFileWriter \<Rightarrow> 't BidirectionalSyncNode \<Rightarrow> bool" where
  "bi_confined root nodes c w s \<longleftrightarrow> (\<exists>n. bi_safe root nodes c w n s)"

text \<open>The writer of a node whose root is at \<open>root\<close>.\<close>

definition bi_setup :: "'t Services \<Rightarrow> path \<Rightarrow> BidirectionalSyncConfig \<Rightarrow> SafeFileWriter \<Rightarrow> bool" where
  "bi_setup svc root c w \<longleftrightarrow> writer_for root w \<and> w = \<lparr>wr_task_root = bc_task_root c, wr_canonical = svc_canonical svc\<rparr>"

lemma bi_confined_any: "(\<And>n. keepsS (bi_safe root nodes c w n) m) \<Longrightarrow> keepsS (bi_confined root nodes c w) m"
  by (auto simp: keepsS_def bi_confined_def)

lemma bi_safe_is_confined: "bi_safe root nodes c w n s \<Longrightarrow> bi_confined root nodes c w s"
  by (auto simp: bi_confined_def)

lemma bi_fields:
  "bi_safe root nodes c w n (t\<lparr>bi_last_error := v1\<rparr>) = bi_safe root nodes c w n t" "bi_safe root nodes c w n (t\<lparr>bi_transport := v2\<rparr>) = bi_safe root nodes c w n t"
  "bi_safe root nodes c w n (t\<lparr>bi_uploads := v3\<rparr>) = bi_safe root nodes c w n t" "bi_safe root nodes c w n (t\<lparr>bi_next_request_id := v4\<rparr>) = bi_safe root nodes c w n t"
  "bi_safe root nodes c w n (t\<lparr>bi_received_hello := v5\<rparr>) = bi_safe root nodes c w n t" "bi_safe root nodes c w n (t\<lparr>sn_calls := v6\<rparr>) = bi_safe root nodes c w n t"
  "bi_safe root nodes c w n (t\<lparr>sn_database := v7\<rparr>) = bi_safe root nodes c w n t" "bi_safe root nodes c w n (t\<lparr>sn_source_files := v8\<rparr>) = bi_safe root nodes c w n t"
  "bi_safe root nodes c w n (t\<lparr>sn_manifest_revision := v9\<rparr>) = bi_safe root nodes c w n t" "bi_safe root nodes c w n (t\<lparr>bi_policy_hash := v10\<rparr>) = bi_safe root nodes c w n t"
  "bi_safe root nodes c w n (t\<lparr>bi_policy_ready := v11\<rparr>) = bi_safe root nodes c w n t" "bi_safe root nodes c w n (t\<lparr>bi_next_policy_retry := v12\<rparr>) = bi_safe root nodes c w n t"
  "bi_safe root nodes c w n (t\<lparr>bi_started := v13\<rparr>) = bi_safe root nodes c w n t" "bi_safe root nodes c w n (t\<lparr>bi_received_manifest := v14\<rparr>) = bi_safe root nodes c w n t"
  by (simp_all add: bi_safe_def)

lemma bi_basic:
  "keepsS (bi_safe root nodes c w n) (bi_the_transport x1)" "keepsS (bi_safe root nodes c w n) (node_db x2)"
  "keepsS (bi_safe root nodes c w n) (outside_call x3)" "keepsS (bi_safe root nodes c w n) (NowMilliseconds svc)"
  "keepsS (bi_safe root nodes c w n) (NewUuidV4 svc)" "keepsS (bi_safe root nodes c w n) (NewTransferId svc)"
  "keepsS (bi_safe root nodes c w n) (node_tables x4)"
  by (simp_all add: keepsS_zoom bi_fields NowMilliseconds_def NewUuidV4_def NewTransferId_def)
    (simp_all add: keepsS_def outside_call_def bi_fields)

lemma bi_modify: "(\<And>s. bi_safe root nodes c w n (f s) = bi_safe root nodes c w n s) \<Longrightarrow> keepsS (bi_safe root nodes c w n) (modifyS f)"
  by (rule keepsS_modify) simp

lemma bi_files: "keeps_confined root nodes m \<Longrightarrow> keepsS (bi_safe root nodes c w n) (node_files m)"
  by (erule keepsS_zoomed) (simp_all add: bi_safe_def)

lemma bi_resolve: "keepsS (bi_safe root nodes c w n) (node_files (ResolveTaskPath canonical task_root rel))"
  unfolding ResolveTaskPath_def Let_def by (intro bi_files keeps_steps confined_reads)

lemmas bi_steps = keeps_steps bi_basic bi_files bi_resolve confined_reads keepsS_pair

lemma bi_safe_Send: "keepsS (bi_safe root nodes c w n) (Bi_Send svc channel t payload)"
  unfolding Bi_Send_def by (intro bi_steps bi_modify) (simp add: bi_fields)

lemma ReadRules_confined: "keeps_confined root nodes (ReadRules p)"
  unfolding ReadRules_def Let_def by (intro keeps_steps confined_reads)

lemma bi_safe_rules_hash: "keepsS (bi_safe root nodes c w n) (current_rules_hash svc)"
  unfolding current_rules_hash_def by (intro bi_steps ReadRules_confined)

lemma bi_safe_SendManifest: "keepsS (bi_safe root nodes c w n) (Bi_SendManifest svc)"
  unfolding Bi_SendManifest_def Let_def by (intro bi_steps bi_safe_Send outside_root.LoadFile bi_modify) (simp_all add: bi_fields)

subsection \<open>Scanning and policies\<close>

lemma bi_safe_scan_task: "keepsS (bi_safe root nodes c w n) (scan_task svc task_root)"
proof -
  have "keepsS (bi_safe root nodes c w n) (zoomS (\<lambda>s. \<lparr>sg_files = sn_files s, sg_readings = sn_calls s\<rparr>)
      (\<lambda>g s. s\<lparr>sn_files := sg_files g, sn_calls := sg_readings g\<rparr>) (Scan blake3 canonical view rules task_root))" for blake3 canonical view rules
    by (rule keepsS_zoomed [OF outside_root.Scan]) (simp_all add: bi_safe_def)
  then show ?thesis unfolding scan_task_def by (intro keeps_steps bi_files outside_root.LoadFile)
qed

lemma bi_safe_RefreshLocal: "keepsS (bi_safe root nodes c w n) (RefreshLocal svc)"
proof -
  have changes: "keepsS (bi_safe root nodes c w n) (refresh_changes svc snapshot known)" for snapshot known
    by (induction snapshot arbitrary: known) (auto simp: Let_def refresh_entry_def intro!: bi_steps)
  have deletions: "keepsS (bi_safe root nodes c w n) (refresh_deletions svc known snapshot)" for snapshot known
    by (induction known arbitrary: snapshot) (auto simp: Let_def refresh_deletion_def intro!: bi_steps)
  show ?thesis
    unfolding RefreshLocal_def Let_def
    by (intro bi_steps bi_safe_rules_hash bi_safe_scan_task changes deletions bi_safe_SendManifest bi_modify) (simp_all add: bi_fields)
qed

lemma bi_safe_Synchronize: "keepsS (bi_safe root nodes c w n) (Synchronize svc k p now)"
  unfolding Synchronize_def Let_def by (intro bi_steps ReadRules_confined)

lemma SafeFileWriter_new_confined: "keeps_confined root nodes (SafeFileWriter_new canonical task_root)"
  unfolding SafeFileWriter_new_def ResolveTaskPath_def Let_def by (intro keeps_steps confined_reads)

lemma bi_safe_Apply:
  fixes svc :: "'t Services"
  assumes "bi_setup svc root c w"
  shows "keepsS (bi_safe root nodes c w n :: 't BidirectionalSyncNode \<Rightarrow> bool) (Policy_Apply svc k (bc_task_root c) h rules source now)"
proof -
  have made: "v = w" if "SafeFileWriter_new (svc_canonical svc) (bc_task_root c) f = (Inr v, f')" for v f f'
    using that assms by (auto simp: bi_setup_def SafeFileWriter_new_def thenS_def bindS_def returnS_def split: prod.splits sum.splits)
  have new: "keepsS (bi_safe root nodes c w n) (bindS (node_files (SafeFileWriter_new (svc_canonical svc) (bc_task_root c))) f)"
    if "keepsS (bi_safe root nodes c w n) (f w)" for f :: "SafeFileWriter \<Rightarrow> ('t BidirectionalSyncNode, IgnorePolicyState) op"
  proof (rule keepsS_bind_when [where R = "\<lambda>v. v = w"])
    show "wp (node_files (SafeFileWriter_new (svc_canonical svc) (bc_task_root c))) (\<lambda>r _. \<forall>x. r = Inr x \<longrightarrow> x = w) s" for s :: "'t BidirectionalSyncNode"
      using made by (auto simp: wp_def zoomS_def split: prod.splits)
  qed (use that in \<open>auto intro: bi_files SafeFileWriter_new_confined\<close>)
  have "writer_for root w" using assms unfolding bi_setup_def by blast
  then show ?thesis
    unfolding Policy_Apply_def by (intro new bi_safe_Synchronize bi_steps WriteAtomically_confined)
qed

text \<open>Steps that read the configuration and the writer of the node.\<close>

lemma bi_get_config:
  assumes "keepsS (bi_safe root nodes c w n) (k c)"
  shows "keepsS (bi_safe root nodes c w n) (bindS (getS bi_config) k)"
  by (rule keepsS_bind_get) (use assms in \<open>simp add: bi_safe_def\<close>)

lemma bi_get_writer:
  assumes "keepsS (bi_safe root nodes c w n) (k c w)"
  shows "keepsS (bi_safe root nodes c w n) (bindS (getS (\<lambda>s. (bi_config s, bi_writer s))) (\<lambda>(c, v). k c v))"
  by (rule keepsS_bind_get) (use assms in \<open>simp add: bi_safe_def\<close>)

lemma bi_safe_ApplyCommitted:
  assumes "bi_setup svc root c w"
  shows "keepsS (bi_safe root nodes c w n) (ApplyCommittedPolicy svc policy)"
  unfolding ApplyCommittedPolicy_def Let_def
  by (intro bi_get_config bi_steps bi_safe_rules_hash bi_safe_Apply bi_safe_Synchronize assms bi_modify) (simp_all add: bi_fields)

lemma bi_safe_Retry:
  assumes "bi_setup svc root c w"
  shows "keepsS (bi_safe root nodes c w n) (RetryPolicy svc)"
  unfolding RetryPolicy_def by (intro bi_steps bi_safe_ApplyCommitted assms bi_safe_Send bi_modify) (simp_all add: bi_fields)

lemma bi_safe_HandlePolicy:
  assumes "bi_setup svc root c w"
  shows "keepsS (bi_safe root nodes c w n) (HandlePolicy svc t message)"
proof -
  note steps = bi_steps bi_safe_rules_hash bi_safe_Send bi_safe_ApplyCommitted [OF assms] bi_safe_Retry [OF assms] bi_safe_SendManifest
    bi_safe_RefreshLocal
  have hello: "keepsS (bi_safe root nodes c w n) (policy_hello svc message)"
    unfolding policy_hello_def by (intro steps bi_modify) (simp_all add: bi_fields)
  have settled: "keepsS (bi_safe root nodes c w n) (policy_settled svc)"
    unfolding policy_settled_def by (intro steps bi_modify) (simp_all add: bi_fields)
  have propose: "keepsS (bi_safe root nodes c w n) (policy_propose svc message p)" for p
    unfolding policy_propose_def by (intro steps)
  show ?thesis
    unfolding HandlePolicy_def Let_def policy_reject_def policy_ack_def policy_commit_def policy_done_def
    by (intro steps hello settled propose)
qed

subsection \<open>Downloads\<close>

lemma bi_safe_with_receiver:
  assumes "keepsS (receiver_safe root nodes w) m" "i < n"
  shows "keepsS (bi_safe root nodes c w n) (bi_with_receiver i m)"
  unfolding bi_with_receiver_def
  by (rule keepsS_zoomed [OF assms(1)])
    (use assms(2) in \<open>simp_all add: bi_safe_def receiver_safe_def all_set_conv_all_nth nth_list_update\<close>)

lemma bi_safe_on_receiver:
  assumes "keepsS (receiver_safe root nodes w) m" "dr_writer r = w"
  shows "keepsS (bi_safe root nodes c w n) (bi_on_receiver m r)"
  using assms by (fastforce simp: keepsS_def bi_on_receiver_def bi_safe_def receiver_safe_def case_prod_beta)

lemma bi_safe_update_download:
  assumes "\<And>d. dr_writer (bd_receiver (f d)) = dr_writer (bd_receiver d)" "i < n"
  shows "keepsS (bi_safe root nodes c w n) (bi_update_download i f)"
  by (rule keepsS_modify) (use assms in \<open>simp add: bi_safe_def all_set_conv_all_nth nth_list_update\<close>)

lemma bi_safe_persist:
  assumes "writer_for root w" "i < n"
  shows "keepsS (bi_safe root nodes c w n) (bi_persist svc i)"
  unfolding bi_persist_def
  by (intro bi_steps bi_safe_with_receiver receiver_safe_calls bi_safe_update_download assms) simp

lemma bi_safe_UpsertRemote: "keepsS (bi_safe root nodes c w n) (UpsertRemoteRecord entry)"
  unfolding UpsertRemoteRecord_def by (intro bi_steps)

lemma bi_safe_Commit:
  assumes "writer_for root w" "i < n"
  shows "keepsS (bi_safe root nodes c w n) (Bi_CommitDownload svc i)"
  unfolding Bi_CommitDownload_def
  by (intro bi_steps bi_safe_with_receiver receiver_safe_calls bi_safe_UpsertRemote assms)

lemma bi_erase: "bi_safe root nodes c w n s \<Longrightarrow> bi_confined root nodes c w (s\<lparr>bi_downloads := erase_at i (bi_downloads s)\<rparr>)"
  by (auto simp: bi_confined_def bi_safe_def erase_at_def dest: in_set_takeD in_set_dropD)

lemma bi_found:
  assumes "bi_confined root nodes c w s" "keepsS (bi_confined root nodes c w) m"
    and "\<And>n i. i < n \<Longrightarrow> leadsS (bi_safe root nodes c w n) (bi_confined root nodes c w) (f i)"
  shows "\<exists>P'. P' s \<and> leadsS P' (bi_confined root nodes c w) (case find_position P (bi_downloads s) of None \<Rightarrow> m | Some i \<Rightarrow> f i)"
proof (cases "find_position P (bi_downloads s)")
  case None
  then show ?thesis using assms(1,2) by (intro exI [of _ "bi_confined root nodes c w"]) (simp add: leads_keep)
next
  case (Some i)
  obtain n where n: "bi_safe root nodes c w n s" using assms(1) by (auto simp: bi_confined_def)
  then have "i < n" using Some by (auto simp: bi_safe_def find_position_Some)
  then show ?thesis using n Some assms(3) by (intro exI [of _ "bi_safe root nodes c w n"]) simp
qed

lemmas bi_leads = leads_bind leads_then leads_if bi_safe_is_confined

lemma bi_confined_AcceptChunk:
  assumes w: "writer_for root w"
  shows "keepsS (bi_confined root nodes c w) (Bi_AcceptChunk svc chunk)"
proof -
  have "leadsS (bi_safe root nodes c w n) (bi_confined root nodes c w) (bi_accept_into svc chunk i)" if "i < n" for n i
    unfolding bi_accept_into_def Let_def
    by (intro bi_leads bi_steps bi_safe_with_receiver receiver_safe_calls bi_safe_update_download bi_safe_persist bi_safe_Commit
        leads_keep [of _ "returnS ()"] leads_modify bi_erase w that) (simp_all split: if_splits)
  then show ?thesis
    unfolding Bi_AcceptChunk_def by (intro keeps_via_get bi_found keepsS_throw)
qed

lemma bi_confined_HandleCancel:
  assumes w: "writer_for root w"
  shows "keepsS (bi_confined root nodes c w) (Bi_HandleCancel svc cancel)"
proof -
  have erase: "leadsS (bi_safe root nodes c w n) (bi_confined root nodes c w) (bindS (NowMilliseconds svc) (\<lambda>now.
      thenS (bi_with_receiver i (DownloadReceiver_Cancel cancel now)) (modifyS (\<lambda>s. s\<lparr>bi_downloads := erase_at i (bi_downloads s)\<rparr>))))"
    if "i < n" for n i
    by (intro bi_leads bi_steps bi_safe_with_receiver receiver_safe_calls leads_modify bi_erase w that)
  show ?thesis
    unfolding Bi_HandleCancel_def
    by (intro keepsS_then bi_confined_any [OF bi_modify] keeps_via_get bi_found keepsS_return erase) (simp_all add: bi_fields)
qed

lemma bi_confined_new_receiver:
  fixes f :: "DownloadReceiver \<Rightarrow> ('t BidirectionalSyncNode, unit) op"
  assumes "\<And>r. dr_writer r = w \<Longrightarrow> keepsS (bi_confined root nodes c w) (f r)"
  shows "keepsS (bi_confined root nodes c w) (bindS (bi_new_receiver tid rel sz h k) f)"
proof (rule keepsS_bind_when [where R = "\<lambda>r. dr_writer r = w"])
  show "wp (bi_new_receiver tid rel sz h k) (\<lambda>r _. \<forall>x. r = Inr x \<longrightarrow> dr_writer x = w) s" if "bi_confined root nodes c w s" for s :: "'t BidirectionalSyncNode"
    using that by (auto simp: bi_new_receiver_def bi_confined_def bi_safe_def dest: DownloadReceiver_new_writer)
qed (simp_all add: bi_new_receiver_def assms)

lemma bi_add_download:
  "dr_writer (bd_receiver d) = w \<Longrightarrow> keepsS (bi_confined root nodes c w) (modifyS (\<lambda>s. s\<lparr>bi_downloads := bi_downloads s @ [d]\<rparr>))"
  by (rule keepsS_modify) (auto simp: bi_confined_def bi_safe_def)

lemma bi_safe_choose_transfer:
  assumes "writer_for root w"
  shows "keepsS (bi_safe root nodes c w n) (bi_choose_transfer svc rel hash)"
  unfolding bi_choose_transfer_def by (intro bi_get_writer bi_steps writer_confined assms)

lemma bi_confined_start_download:
  assumes w: "writer_for root w"
  shows "keepsS (bi_confined root nodes c w) (bi_start_download svc entry rel formal hash)"
  unfolding bi_start_download_def Let_def
  by (intro keeps_steps bi_confined_new_receiver bi_add_download bi_confined_any [OF bi_safe_choose_transfer] bi_confined_any [OF bi_safe_on_receiver]
      bi_confined_any [OF bi_safe_Send] bi_confined_any [OF bi_safe_UpsertRemote] bi_confined_any [OF bi_basic(4)] receiver_safe_calls w) simp_all

lemma bi_confined_get:
  assumes "\<And>s. bi_config s = c \<Longrightarrow> bi_writer s = w \<Longrightarrow> keepsS (bi_confined root nodes c w) (k (f s))"
  shows "keepsS (bi_confined root nodes c w) (bindS (getS f) k)"
  by (rule keepsS_bind_get) (use assms in \<open>auto simp: bi_confined_def bi_safe_def\<close>)

lemma bi_confined_BeginDownload:
  assumes w: "writer_for root w"
  shows "keepsS (bi_confined root nodes c w) (Bi_BeginDownload svc entry rel formal)"
  unfolding Bi_BeginDownload_def
  by (intro bi_confined_get keeps_steps bi_confined_start_download bi_confined_any [OF bi_safe_UpsertRemote]
      bi_confined_any [OF bi_resolve] bi_confined_any [OF bi_files] confined_reads; simp?)
    (intro writer_confined WriteAtomically_confined w)+

lemma bi_confined_apply_remote:
  assumes w: "writer_for root w"
  shows "keepsS (bi_confined root nodes c w) (apply_remote svc entry)"
proof -
  have "keepsS (bi_safe root nodes c w n) (bindS (getS (\<lambda>s. (bi_config s, bi_writer s))) (\<lambda>(config, writer).
       bindS (node_files (ResolveTaskPath (svc_canonical svc) (bc_task_root config) (ve_relative_path entry))) (\<lambda>path.
       bindS (node_files (sys_status path)) (\<lambda>status.
       if ve_kind entry = vkDirectory then
         thenS (if status = stRegular then node_files (RemoveFile writer (ve_relative_path entry)) else returnS ())
        (thenS (node_files (EnsureDirectory writer (ve_relative_path entry))) (UpsertRemoteRecord entry))
       else
         thenS (if status = stRegular then node_files (RemoveFile writer (ve_relative_path entry))
                else bindS (node_files (sys_status path)) (\<lambda>again.
                  if again = stDirectory then node_files (RemoveEmptyDirectory writer (ve_relative_path entry)) else returnS ()))
           (UpsertRemoteRecord entry)))))" for n
    by (intro bi_get_writer bi_steps bi_safe_UpsertRemote writer_confined w)
  then show ?thesis
    unfolding apply_remote_def by (intro keepsS_if bi_confined_BeginDownload [OF w] bi_confined_any)
qed

lemma bi_confined_ApplyRemoteEntry:
  assumes w: "writer_for root w"
  shows "keepsS (bi_confined root nodes c w) (ApplyRemoteEntry svc entry)"
proof -
  have relocate: "keepsS (bi_safe root nodes c w n) (RelocateSourceFile svc a b)" for n a b
    unfolding RelocateSourceFile_def by (intro bi_steps bi_modify) (simp add: bi_fields)
  have move: "keepsS (bi_safe root nodes c w n) (node_files (MoveFileToConflict w a b))" for n a b
    by (intro bi_files MoveFileToConflict_confined w)
  have conflict: "keepsS (bi_confined root nodes c w) (resolve_conflict svc entry remote loc resolution)" for remote loc resolution
    unfolding resolve_conflict_def
    by (rule bi_confined_get, simp only: prod.case)
      (intro keeps_steps bi_confined_any [OF relocate] bi_confined_any [OF move] bi_confined_any [OF bi_basic(2)] bi_confined_any [OF bi_basic(4)]
        bi_confined_any [OF bi_basic(5)] bi_confined_BeginDownload bi_confined_apply_remote w)
  show ?thesis
    unfolding ApplyRemoteEntry_def Let_def
  proof (intro keeps_steps bi_confined_any [OF bi_basic(2)] bi_confined_any [OF bi_basic(7)], goal_cases)
    case (1 task_id remote loc resolution)
    show ?case by (cases "res_action resolution") (auto intro: conflict bi_confined_apply_remote [OF w])
  qed
qed

lemma bi_confined_ApplyManifest:
  assumes w: "writer_for root w"
  shows "keepsS (bi_confined root nodes c w) (Bi_ApplyManifest svc manifest)"
proof -
  have check: "keepsS (bi_safe root nodes c w n) (bi_check_entry svc entry)" for n entry
    unfolding bi_check_entry_def by (intro bi_steps)
  have entry: "keepsS (bi_confined root nodes c w) (bi_apply_entry svc rules entry)" for rules entry
    unfolding bi_apply_entry_def by (intro keeps_steps bi_confined_ApplyRemoteEntry w)
  show ?thesis
    unfolding Bi_ApplyManifest_def
    by (intro keeps_steps entry bi_confined_any [OF check] bi_confined_any [OF bi_modify] bi_confined_any [OF bi_files] outside_root.LoadFile)
      (simp add: bi_fields)
qed

subsection \<open>Uploads and calls\<close>

lemma bi_safe_session:
  assumes "keepsS (\<lambda>u. confined root nodes (snd (up_source u))) m"
  shows "keepsS (bi_safe root nodes c w n) (with_session m session)"
  using assms by (simp add: keepsS_def with_session_def bi_safe_def case_prod_beta)

lemma bi_safe_with_upload:
  assumes "keepsS (\<lambda>u. confined root nodes (snd (up_source u))) m"
  shows "keepsS (bi_safe root nodes c w n) (bi_with_upload i m)"
  unfolding bi_with_upload_def Let_def by (rule keepsS_zoomed [OF assms]) (simp_all add: bi_safe_def)

lemma bi_safe_upload_update: "keepsS (bi_safe root nodes c w n) (modifyS (\<lambda>s. s\<lparr>bi_uploads := f s\<rparr>))"
  by (rule bi_modify) (simp add: bi_fields)

lemma bi_safe_HandleFileRequest: "keepsS (bi_safe root nodes c w n) (Bi_HandleFileRequest svc request)"
  unfolding Bi_HandleFileRequest_def open_session_def case_prod_beta
  by (intro bi_steps bi_safe_Send bi_safe_session outside_root.QueueRequested)
    (auto split: sum.splits intro!: bi_steps bi_safe_Send bi_safe_upload_update)

lemma bi_safe_pump_uploads: "keepsS (bi_safe root nodes c w n) (bi_pump_uploads svc k i)"
proof -
  have "keepsS (bi_safe root nodes c w n) (bi_pump_upload svc i)" for i
    unfolding bi_pump_upload_def by (intro bi_steps bi_safe_with_upload outside_root.NextForTransport bi_safe_upload_update)
  then show ?thesis by (induction k arbitrary: i) (auto intro!: keeps_steps)
qed

lemma bi_confined_persist_all:
  assumes w: "writer_for root w"
  shows "keepsS (bi_confined root nodes c w) (bindS (getS (\<lambda>s. length (bi_downloads s))) (\<lambda>n. forS (bi_persist_pending svc) [0..<n]))"
proof (rule keeps_via_get, goal_cases)
  case (1 s)
  then obtain n where n: "bi_safe root nodes c w n s" by (auto simp: bi_confined_def)
  then have "length (bi_downloads s) = n" by (simp add: bi_safe_def)
  moreover have "leadsS (bi_safe root nodes c w n) (bi_confined root nodes c w) (forS (bi_persist_pending svc) [0..<n])"
    unfolding bi_persist_pending_def by (intro leads_keep keeps_steps bi_safe_persist w bi_safe_is_confined) simp_all
  ultimately show ?case using n by (intro exI [of _ "bi_safe root nodes c w n"]) simp
qed

text \<open>The calls that the owner and the transport make on a node.\<close>

datatype bi_call = Bi_Call_Start | Bi_Call_Refresh | Bi_Call_Pump | Bi_Call_Propose string string string | Bi_Call_Receive Channel bytes

fun bi_run :: "'t Services \<Rightarrow> bi_call \<Rightarrow> ('t BidirectionalSyncNode, unit) op" where
  "bi_run svc Bi_Call_Start = Bi_Start svc"
| "bi_run svc Bi_Call_Refresh = RefreshLocal svc"
| "bi_run svc Bi_Call_Pump = Bi_Pump svc"
| "bi_run svc (Bi_Call_Propose expected_hash rules source) = ProposeIgnorePolicy svc expected_hash rules source"
| "bi_run svc (Bi_Call_Receive channel wire) = Bi_Receive svc channel wire"

definition bi_calls :: "'t Services \<Rightarrow> bi_call list \<Rightarrow> 't BidirectionalSyncNode \<Rightarrow> 't BidirectionalSyncNode" where
  "bi_calls svc calls = fold (\<lambda>call s. snd (bi_run svc call s)) calls"

lemma bi_confined_Receive:
  assumes w: "bi_setup svc root c w"
  shows "keepsS (bi_confined root nodes c w) (Bi_Receive svc channel wire)"
proof -
  have writer: "writer_for root w" using w unfolding bi_setup_def by blast
  have hello: "keepsS (bi_safe root nodes c w n) (bi_accept_hello svc hello)" for n hello
    unfolding bi_accept_hello_def SendPolicyHello_def Let_def
    by (intro bi_steps bi_safe_Send bi_safe_rules_hash bi_modify) (simp_all add: bi_fields)
  have dispatch: "keepsS (bi_confined root nodes c w) (bi_dispatch svc frame)" for frame
    unfolding bi_dispatch_def
    by (cases "frame_type frame")
      (auto intro!: keeps_steps bi_confined_ApplyManifest bi_confined_any [OF bi_safe_HandleFileRequest] bi_confined_AcceptChunk
        bi_confined_HandleCancel writer)
  show ?thesis
    unfolding Bi_Receive_def bi_receive_wire_def
    by (intro keeps_steps bi_confined_any [OF hello] bi_confined_any [OF bi_safe_HandlePolicy] w dispatch bi_confined_any [OF bi_modify])
      (simp add: bi_fields)
qed

lemma bi_confined_run:
  assumes w: "bi_setup svc root c w"
  shows "keepsS (bi_confined root nodes c w) (bi_run svc call)"
proof (cases call)
  case Bi_Call_Start
  have "keepsS (bi_safe root nodes c w n) (Bi_Start svc)" for n
    unfolding Bi_Start_def by (intro bi_steps bi_safe_Synchronize bi_safe_RefreshLocal bi_safe_Send bi_modify) (simp_all add: bi_fields)
  then show ?thesis using Bi_Call_Start by (simp add: bi_confined_any)
next
  case Bi_Call_Refresh
  then show ?thesis by (simp add: bi_confined_any bi_safe_RefreshLocal)
next
  case Bi_Call_Pump
  have "writer_for root w" using w unfolding bi_setup_def by blast
  then show ?thesis
    using Bi_Call_Pump
    by (simp add: Bi_Pump_def) (intro keeps_steps bi_confined_persist_all bi_confined_any [OF bi_safe_pump_uploads] bi_confined_any [OF bi_safe_Retry] w)
next
  case (Bi_Call_Propose h rules source)
  have "keepsS (bi_safe root nodes c w n) (ProposeIgnorePolicy svc h rules source)" for n
    unfolding ProposeIgnorePolicy_def by (intro bi_steps bi_safe_rules_hash bi_safe_Retry w bi_modify) (simp_all add: bi_fields)
  then show ?thesis using Bi_Call_Propose by (simp add: bi_confined_any)
next
  case (Bi_Call_Receive channel wire)
  then show ?thesis by (simp add: bi_confined_Receive [OF w])
qed

lemma bi_confined_calls:
  assumes "bi_setup svc root c w" "bi_confined root nodes c w s"
  shows "bi_confined root nodes c w (bi_calls svc calls s)"
  using assms(2)
proof (induction calls arbitrary: s)
  case (Cons call calls)
  then show ?case using keepsD [OF bi_confined_run [OF assms(1)] Cons.prems] by (simp add: bi_calls_def)
qed (simp add: bi_calls_def)

text \<open>
  C15: whatever a peer sends, a bidirectional node changes nothing outside its task root.  Take a node made over a task root
  that is a real directory with no links below it, and any sequence of calls: starting, rescanning, pumping, proposing a
  policy, and receiving any bytes at all on either channel, with any system calls failing.  Every entry that is not strictly
  below the root is as it was when the node was made, and no link appears below it.
\<close>

theorem bidirectional_confined:
  assumes new: "BidirectionalSyncNode_new svc config transport database files = Inr s"
    and root: "svc_canonical svc (bc_task_root config) = Some root" "canonical_root root" "real_dirs (node_at files) root"
    and links: "\<forall>q x. strict_prefix root q \<longrightarrow> node_at files q \<noteq> Some (Symlink x)"
    and t: "t = bi_calls svc calls s"
  shows "\<forall>q. node_at (sn_files t) q \<noteq> node_at files q \<longrightarrow>
      strict_prefix root q \<and> (\<forall>x. node_at (sn_files t) q \<noteq> Some (Symlink x))"
proof -
  obtain w files' where w: "SafeFileWriter_new (svc_canonical svc) (bc_task_root config) files = (Inr w, files')"
    and s: "bi_config s = config" "bi_writer s = w" "sn_files s = files'" "bi_downloads s = []"
    using new by (auto simp: BidirectionalSyncNode_new_def split: prod.splits sum.splits if_splits)
  have "confined root (node_at files) files" using root(3) links by (simp add: confined_def)
  then have "confined root (node_at files) files'" 
    using keepsD [OF SafeFileWriter_new_confined [of root "node_at files" "svc_canonical svc" "bc_task_root config"], of files] w by simp
  then have "bi_confined root (node_at files) config w s" using s by (auto simp: bi_confined_def bi_safe_def)
  moreover have "w = \<lparr>wr_task_root = bc_task_root config, wr_canonical = svc_canonical svc\<rparr>"
    using w by (auto simp: SafeFileWriter_new_def thenS_def bindS_def returnS_def split: prod.splits sum.splits)
  then have "bi_setup svc root config w" using root(1,2) by (simp add: bi_setup_def writer_for_def)
  ultimately have "bi_confined root (node_at files) config w t" unfolding t by (rule bi_confined_calls [rotated])
  then have "confined root (node_at files) (sn_files t)" by (auto simp: bi_confined_def bi_safe_def)
  then show ?thesis unfolding confined_def by blast
qed

text \<open>
  A peer that never presents a matching hello achieves nothing.  Until it has sent the identity, the fingerprint and the
  authorization that the task expects, whatever frames it sends change the error text of the node and nothing else.
\<close>

theorem bidirectional_unknown_peer:
  assumes "\<not> bi_received_hello s" "\<forall>(channel, wire) \<in> set frames. \<not> bi_authorised (bi_config s) channel wire"
  shows "\<exists>e. bi_receive_all svc frames s = s\<lparr>bi_last_error := e\<rparr>"
  using assms
proof (induction frames arbitrary: s)
  case Nil
  show ?case by (rule exI [of _ "bi_last_error s"]) (simp add: bi_receive_all_def)
next
  case (Cons f frames)
  obtain channel wire where f: "f = (channel, wire)" by fastforce
  obtain e where step: "Bi_Receive svc channel wire s = (Inr (), s\<lparr>bi_last_error := Some e\<rparr>)"
    using bi_unknown_frame [of s channel wire svc] Cons.prems f by auto
  obtain e' where "bi_receive_all svc frames (s\<lparr>bi_last_error := Some e\<rparr>) = s\<lparr>bi_last_error := e'\<rparr>"
    using Cons.IH [of "s\<lparr>bi_last_error := Some e\<rparr>"] Cons.prems by auto
  then show ?case using step f by (intro exI [of _ e']) (simp add: bi_receive_all_def)
qed

section \<open>Merging the snapshot with the records\<close>

text \<open>What the two loops of \<open>RefreshLocal\<close> do, written with a lookup for every entry.\<close>

definition refresh_looked_up :: "'t Services \<Rightarrow> FileRecord list \<Rightarrow> SnapshotEntry \<Rightarrow> ('t, unit) bi_op" where
  "refresh_looked_up svc known entry =
     (let previous = List.find (\<lambda>r. fr_relative_path r = se_relative_path entry) known in
      if (case previous of None \<Rightarrow> False | Some r \<Rightarrow> SameSnapshot entry r) then returnS () else refresh_entry svc entry previous)"

definition refresh_missing :: "'t Services \<Rightarrow> SnapshotEntry list \<Rightarrow> FileRecord \<Rightarrow> ('t, unit) bi_op" where
  "refresh_missing svc snapshot r =
     (if fr_kind r = fkTombstone \<or> (\<exists>e \<in> set snapshot. se_relative_path e = fr_relative_path r) then returnS () else refresh_deletion svc r)"

abbreviation ordered_by :: "('a \<Rightarrow> string) \<Rightarrow> 'a list \<Rightarrow> bool" where
  "ordered_by key xs \<equiv> sorted_wrt (\<lambda>x y. key x < key y) xs"

lemma find_dropWhile:
  fixes k :: string
  assumes "k \<le> j"
  shows "List.find (\<lambda>x. key x = j) (dropWhile (\<lambda>x. key x < k) xs) = List.find (\<lambda>x. key x = j) xs"
  using assms by (induction xs) auto

lemma find_head:
  fixes k :: string
  assumes "ordered_by key xs"
  shows "List.find (\<lambda>x. key x = k) xs = (case dropWhile (\<lambda>x. key x < k) xs of [] \<Rightarrow> None | x # _ \<Rightarrow> if key x = k then Some x else None)"
  using assms
proof (induction xs)
  case (Cons x xs)
  show ?case
  proof (cases "key x < k")
    case False
    then have "List.find (\<lambda>x. key x = k) xs = None" using Cons.prems by (fastforce simp: find_None_iff)
    then show ?thesis using False by simp
  qed (use Cons in auto)
qed simp

lemma head_found:
  "(case xs of [] \<Rightarrow> False | e # _ \<Rightarrow> P e) \<longleftrightarrow> (case xs of [] \<Rightarrow> None | e # _ \<Rightarrow> if P e then Some e else None) \<noteq> None"
  by (cases xs) auto

lemma ordered_dropWhile: "ordered_by key xs \<Longrightarrow> ordered_by key (dropWhile P xs)"
  by (induction xs) auto

lemma refresh_changes_lookup:
  assumes "ordered_by se_relative_path snapshot" "ordered_by fr_relative_path known"
  shows "refresh_changes svc snapshot known = forS (refresh_looked_up svc known) snapshot"
  using assms
proof (induction snapshot arbitrary: known)
  case (Cons e snapshot)
  let ?rest = "dropWhile (\<lambda>r. fr_relative_path r < se_relative_path e) known"
  have "forS (refresh_looked_up svc ?rest) snapshot = forS (refresh_looked_up svc known) snapshot"
  proof (rule forS_cong [OF refl])
    fix x assume "x \<in> set snapshot"
    then have "se_relative_path e \<le> se_relative_path x" using Cons.prems(1) by (simp add: less_imp_le)
    then show "refresh_looked_up svc ?rest x = refresh_looked_up svc known x" by (simp add: refresh_looked_up_def find_dropWhile)
  qed
  then show ?case
    using Cons by (simp add: Let_def refresh_looked_up_def [of svc known e] find_head ordered_dropWhile)
qed simp

lemma refresh_deletions_lookup:
  assumes "ordered_by se_relative_path snapshot" "ordered_by fr_relative_path known"
  shows "refresh_deletions svc known snapshot = forS (refresh_missing svc snapshot) known"
  using assms
proof (induction known arbitrary: snapshot)
  case (Cons r known)
  let ?rest = "dropWhile (\<lambda>e. se_relative_path e < fr_relative_path r) snapshot"
  have exists_iff: "(\<exists>e \<in> set xs. se_relative_path e = k) \<longleftrightarrow> List.find (\<lambda>e. se_relative_path e = k) xs \<noteq> None" for xs k
    by (auto simp: find_None_iff)
  have "forS (refresh_missing svc ?rest) known = forS (refresh_missing svc snapshot) known"
  proof (rule forS_cong [OF refl])
    fix x assume "x \<in> set known"
    then have "fr_relative_path r \<le> fr_relative_path x" using Cons.prems(2) by (simp add: less_imp_le)
    then show "refresh_missing svc ?rest x = refresh_missing svc snapshot x" by (simp add: refresh_missing_def exists_iff find_dropWhile)
  qed
  moreover have "(case ?rest of [] \<Rightarrow> False | e # _ \<Rightarrow> se_relative_path e = fr_relative_path r) \<longleftrightarrow> (\<exists>e \<in> set snapshot. se_relative_path e = fr_relative_path r)"
    unfolding exists_iff find_head [OF Cons.prems(1)] by (rule head_found)
  ultimately show ?case
    using Cons by (simp add: Let_def refresh_missing_def [of svc snapshot r] ordered_dropWhile)
qed simp

text \<open>
  The two merge loops of a rescan do what a lookup for every path would do.  Over a snapshot and records that are both
  ordered by path, walking the two lists together finds for every entry the record of its path and for every record whether
  its path still exists, so exactly the changed entries get a new version and exactly the vanished paths a tombstone.
\<close>

theorem refresh_by_lookup:
  assumes "ordered_by se_relative_path snapshot" "ordered_by fr_relative_path known"
  shows "thenS (refresh_changes svc snapshot known) (refresh_deletions svc known snapshot) =
    thenS (forS (refresh_looked_up svc known) snapshot) (forS (refresh_missing svc snapshot) known)"
  by (simp add: refresh_changes_lookup [OF assms] refresh_deletions_lookup [OF assms])

section \<open>Instances\<close>

definition demo_bidirectional :: BidirectionalSyncConfig where
  "demo_bidirectional = \<lparr>bc_task_id = ''t'', bc_device_id = ''d'', bc_peer_device_id = ''p'', bc_device_fingerprint = ''f'',
     bc_peer_device_fingerprint = ''g'', bc_authorization_digest = ''k'', bc_task_root = ''C:/task''\<rparr>"

definition demo_bi :: "unit BidirectionalSyncNode" where
  "demo_bi = \<lparr>sn_database = demo_database, sn_files = demo_fs, sn_calls = 0, sn_manifest_revision = 0, sn_source_files = [],
     bi_config = demo_bidirectional, bi_transport = (), bi_writer = demo_writer, bi_started = False, bi_received_hello = False,
     bi_received_manifest = False, bi_policy_ready = False, bi_policy_hash = [], bi_next_policy_retry = 0, bi_next_request_id = 1,
     bi_uploads = [], bi_downloads = [], bi_last_error = None\<rparr>"

lemma demo_bi_new: "BidirectionalSyncNode_new demo_services demo_bidirectional () demo_database demo_fs = Inr demo_bi"
proof -
  have "SafeFileWriter_new (wr_canonical demo_writer) ''C:/task'' demo_fs = (Inr demo_writer, demo_fs)"
    using demo_node_new
    by (auto simp: OneWaySyncNode_new_def demo_services_def demo_one_way_def demo_node_def split: prod.splits sum.splits if_splits)
  then show ?thesis by (simp add: BidirectionalSyncNode_new_def demo_services_def demo_bidirectional_def demo_bi_def)
qed

theorem bidirectional_confined_witness:
  "node_at (sn_files (bi_calls demo_services [Bi_Call_Start, Bi_Call_Receive kBulk [7], Bi_Call_Pump] demo_bi)) [''C:/''] = node_at demo_fs [''C:/'']"
proof -
  have "\<forall>q x. strict_prefix demo_root q \<longrightarrow> node_at demo_fs q \<noteq> Some (Symlink x)"
    by (auto simp: demo_fs_def node_at_def dest!: map_of_SomeD)
  from bidirectional_confined [OF demo_bi_new _ demo_facts(2,4) this refl] show ?thesis
    by (fastforce simp: demo_services_def demo_bidirectional_def demo_writer_def demo_root_def)
qed

theorem bidirectional_unknown_peer_witness:
  "\<exists>e. bi_receive_all demo_services [(kControl, [1, 2, 3])] demo_bi = demo_bi\<lparr>bi_last_error := e\<rparr>"
proof (rule bidirectional_unknown_peer)
  show "\<forall>(channel, wire) \<in> set [(kControl, [1, 2, 3])]. \<not> bi_authorised (bi_config demo_bi) channel wire"
    by (simp add: bi_authorised_def DecodeFrameView_def kFrameHeaderSize_def)
qed (simp add: demo_bi_def)

definition demo_session :: "unit BidirectionalSyncNode" where
  "demo_session = demo_bi\<lparr>bi_started := True, bi_received_hello := True\<rparr>"

definition demo_changed :: "string \<Rightarrow> SnapshotEntry" where
  "demo_changed path = \<lparr>se_relative_path = path, se_kind = snFile, se_size = 2, se_mtime_ns = 5, se_content_hash = Some (svc_blake3 demo_services [1, 2])\<rparr>"

definition demo_known :: "string \<Rightarrow> FileRecord" where
  "demo_known path = \<lparr>fr_task_id = ''t'', fr_relative_path = path, fr_kind = fkFile, fr_size = 1, fr_mtime_ns = 0, fr_content_hash = replicate 32 0,
     fr_version_id = ''v'', fr_origin_device_id = ''d'', fr_logical_clock = 1, fr_deleted_at_ms = None\<rparr>"

theorem refresh_by_lookup_witness:
  "thenS (refresh_changes demo_services [demo_changed ''a'', demo_changed ''c''] [demo_known ''b'', demo_known ''c''])
       (refresh_deletions demo_services [demo_known ''b'', demo_known ''c''] [demo_changed ''a'', demo_changed ''c'']) =
     thenS (forS (refresh_looked_up demo_services [demo_known ''b'', demo_known ''c'']) [demo_changed ''a'', demo_changed ''c''])
       (forS (refresh_missing demo_services [demo_changed ''a'', demo_changed ''c'']) [demo_known ''b'', demo_known ''c''])"
proof (rule refresh_by_lookup)
  show "ordered_by se_relative_path [demo_changed ''a'', demo_changed ''c'']" by code_simp
  show "ordered_by fr_relative_path [demo_known ''b'', demo_known ''c'']" by code_simp
qed

end
