(* ===== verification/Bidirectional_Policy.thy ===== *)
theory Bidirectional_Policy
  imports Bidirectional_Properties
begin

text \<open>
  How the ignore rules of a bidirectional task change: a policy frame changes them only to the rules of the proposal that
  the node has stored, over the rules which that proposal was made for, and only with the right role in the exchange.
\<close>

section \<open>The steps that write no file\<close>

definition quiet :: "(FileSystem \<Rightarrow> bool) \<Rightarrow> BidirectionalSyncConfig \<Rightarrow> 't BidirectionalSyncNode \<Rightarrow> bool" where
  "quiet F c s \<longleftrightarrow> F (sn_files s) \<and> bi_config s = c"

lemma quiet_basic:
  "keepsS (quiet F c) (bi_the_transport x1)" "keepsS (quiet F c) (node_db x2)" "keepsS (quiet F c) (outside_call x3)"
  "keepsS (quiet F c) (NowMilliseconds svc)" "keepsS (quiet F c) (NewUuidV4 svc)" "keepsS (quiet F c) (node_tables x4)"
  by (rule keepsS_zoom, simp add: quiet_def)+
    (simp_all add: keepsS_def outside_call_def quiet_def NowMilliseconds_def NewUuidV4_def liftS_def)

lemma quiet_modify: "(\<And>s. sn_files (f s) = sn_files s \<and> bi_config (f s) = bi_config s) \<Longrightarrow> keepsS (quiet F c) (modifyS f)"
  by (rule keepsS_modify) (simp add: quiet_def)

lemma quiet_files: "keepsS F m \<Longrightarrow> keepsS (quiet F c) (node_files m)"
  by (erule keepsS_zoomed) (simp_all add: quiet_def)

lemmas quiet_steps = keeps_steps quiet_basic quiet_files

context fault_blind
begin

lemma ReadRules: "keepsS F (ReadRules p)"
  unfolding ReadRules_def Let_def by (intro keeps_steps reads)

lemma rules_hash: "keepsS (quiet F c) (current_rules_hash svc)"
  unfolding current_rules_hash_def by (intro quiet_steps ReadRules)

lemma Synchronize: "keepsS (quiet F c) (Synchronize svc k p now)"
  unfolding Synchronize_def Let_def by (intro quiet_steps ReadRules)

lemma Send: "keepsS (quiet F c) (Bi_Send svc channel t payload)"
  unfolding Bi_Send_def by (intro quiet_steps quiet_modify) simp

lemma SendManifest: "keepsS (quiet F c) (Bi_SendManifest svc)"
  unfolding Bi_SendManifest_def Let_def by (intro quiet_steps LoadFile Send quiet_modify) simp_all

lemma scan: "keepsS (quiet F c) (scan_task svc task_root)"
proof -
  have "keepsS (quiet F c) (zoomS (\<lambda>s. \<lparr>sg_files = sn_files s, sg_readings = sn_calls s\<rparr>)
      (\<lambda>g s. s\<lparr>sn_files := sg_files g, sn_calls := sg_readings g\<rparr>) (Scan blake3 canonical view rules task_root))" for blake3 canonical view rules
    by (rule keepsS_zoomed [OF Scan]) (simp_all add: quiet_def)
  then show ?thesis unfolding scan_task_def by (intro quiet_steps LoadFile)
qed

lemma Refresh: "keepsS (quiet F c) (RefreshLocal svc)"
proof -
  have changes: "keepsS (quiet F c) (refresh_changes svc snapshot known)" for snapshot known
    by (induction snapshot arbitrary: known) (auto simp: Let_def refresh_entry_def intro!: quiet_steps)
  have deletions: "keepsS (quiet F c) (refresh_deletions svc known snapshot)" for snapshot known
    by (induction known arbitrary: snapshot) (auto simp: Let_def refresh_deletion_def intro!: quiet_steps)
  show ?thesis
    unfolding RefreshLocal_def Let_def
    by (intro quiet_steps rules_hash scan changes deletions SendManifest quiet_modify) simp_all
qed

lemma settled: "keepsS (quiet F c) (policy_settled svc)"
  unfolding policy_settled_def by (intro quiet_steps rules_hash Refresh quiet_modify) simp_all

lemma propose: "keepsS (quiet F c) (policy_propose svc message p)"
  unfolding policy_propose_def by (intro quiet_steps rules_hash Send)

lemma reject: "keepsS (quiet F c) (policy_reject svc p)"
  unfolding policy_reject_def by (intro quiet_steps)

end

interpretation only_reads: fault_blind "\<lambda>s. \<exists>fs. s = f\<lparr>fs_faults := fs\<rparr>" for f
proof
  fix s fs
  have "s = f\<lparr>fs_faults := fs_faults s\<rparr>" if "s\<lparr>fs_faults := fs\<rparr> = f\<lparr>fs_faults := x\<rparr>" for x
    using that by (cases s; cases f) simp
  then show "(\<exists>x. s\<lparr>fs_faults := fs\<rparr> = f\<lparr>fs_faults := x\<rparr>) = (\<exists>x. s = f\<lparr>fs_faults := x\<rparr>)" by auto
qed

section \<open>Applying a committed policy\<close>

definition rules_task :: "'t Services \<Rightarrow> string \<Rightarrow> path \<Rightarrow> FileSystem \<Rightarrow> bool" where
  "rules_task svc task_root root f \<longleftrightarrow> svc_canonical svc task_root = Some root \<and> svc_native svc task_root = root \<and> canonical_root root \<and>
     real_dirs (node_at f) root \<and> rules_in root f \<noteq> None \<and> plain_part f (root @ [''.veritasignore''])"

text \<open>The rules are as before, or they went from the base of a proposal to what it proposes.\<close>

definition moved_by :: "'t Services \<Rightarrow> path \<Rightarrow> FileSystem \<Rightarrow> string \<Rightarrow> string \<Rightarrow> FileSystem \<Rightarrow> bool" where
  "moved_by svc root f base rules g \<longleftrightarrow> rules_in root g = rules_in root f \<or>
     (\<exists>old. rules_in root f = Some old \<and> base = HashRules (svc_blake3 svc) old \<and> rules_in root g = Some rules)"

lemma moved_blind: "fault_blind (moved_by svc root f base rules)"
  by unfold_locales (simp add: moved_by_def)

lemma recorded_hash:
  assumes "record_revision svc k rules h src now d = (Inr r, d')"
  shows "ip_content_hash r = h"
  using assms
  by (auto simp: record_revision_def RecordIgnorePolicyRevision_def InTransaction_def op_defs Let_def split: if_splits prod.splits sum.splits)

lemma wp_Synchronize_hash:
  assumes s: "rules_task svc task_root root (sn_files s)"
    and failed: "\<And>e d fs. Q (Inl e) (s\<lparr>sn_files := (sn_files s)\<lparr>fs_faults := fs\<rparr>, sn_database := d\<rparr>)"
    and finished: "\<And>st old d fs. rules_in root (sn_files s) = Some old \<Longrightarrow> st_content_hash st = HashRules (svc_blake3 svc) old \<Longrightarrow>
      Q (Inr st) (s\<lparr>sn_files := (sn_files s)\<lparr>fs_faults := fs\<rparr>, sn_database := d\<rparr>)"
  shows "wp (Synchronize svc k task_root now) Q s"
proof -
  let ?h = "HashRules (svc_blake3 svc)"
  have start: "Q (Inl e) s" for e using failed [where e = e and d = "sn_database s" and fs = "fs_faults (sn_files s)"] by simp
  have here: "Q (Inl e) (s\<lparr>sn_files := (sn_files s)\<lparr>fs_faults := fs\<rparr>\<rparr>)" for e fs using failed [where e = e and d = "sn_database s" and fs = fs] by simp
  have kept: "Q (Inr st) (s\<lparr>sn_files := (sn_files s)\<lparr>fs_faults := fs\<rparr>\<rparr>)"
    if "rules_in root (sn_files s) = Some old" "st_content_hash st = ?h old" for st old fs
    using finished [OF that, where d = "sn_database s" and fs = fs] by simp
  have stored: "wp (node_db (record_revision svc k old (?h old) ''manual'' now)) (onward Q (\<lambda>r. wp (returnS (policy_state r)) Q))
      (s\<lparr>sn_files := (sn_files s)\<lparr>fs_faults := fs\<rparr>\<rparr>)" if "rules_in root (sn_files s) = Some old" for old fs
  proof -
    obtain r d where run: "record_revision svc k old (?h old) ''manual'' now (sn_database s) = (r, d)" by fastforce
    show ?thesis
    proof (cases r)
      case (Inl e)
      then show ?thesis using run failed [where e = e and d = d and fs = fs] by (simp add: wp_def zoomS_def)
    next
      case (Inr x)
      then show ?thesis
        using run recorded_hash [of svc k old "?h old" "''manual''" now "sn_database s" x d] finished [OF that, where st = "policy_state x" and d = d and fs = fs]
        by (simp add: wp_def zoomS_def policy_state_def returnS_def)
    qed
  qed
  have files: "real_dirs (node_at (sn_files s)) root" "rules_in root (sn_files s) \<noteq> None" "svc_native svc task_root = root"
    using s by (simp_all add: rules_task_def)
  have found: "wp (bindS (node_tables (CurrentIgnorePolicyRevision k)) (\<lambda>current.
     bindS (case current of
         Some r \<Rightarrow> if ip_content_hash r \<noteq> ?h old \<or> ip_content r \<noteq> old
           then node_db (record_revision svc k old (?h old) ''manual'' now) else returnS r
       | None \<Rightarrow> node_db (record_revision svc k old (?h old) ''manual'' now)) (\<lambda>r.
     returnS (policy_state r)))) Q (s\<lparr>sn_files := (sn_files s)\<lparr>fs_faults := fs\<rparr>\<rparr>)" if "rules_in root (sn_files s) = Some old" for old fs
  proof -
    have current: "Q (Inr (policy_state r)) (s\<lparr>sn_files := (sn_files s)\<lparr>fs_faults := fs\<rparr>\<rparr>)" if "ip_content_hash r = ?h old" for r
      using kept [OF \<open>rules_in root (sn_files s) = Some old\<close>, of "policy_state r" fs] that by (simp add: policy_state_def)
    show ?thesis
      using stored [OF that, of fs] here current
      by (cases "CurrentIgnorePolicyRevision k (db_tables (sn_database s))") (auto simp: wp_bind simp del: wp_zoom split: option.splits)
  qed
  have reading: "wp (node_files (ReadRules root)) (onward Q (\<lambda>old. wp (bindS (node_tables (CurrentIgnorePolicyRevision k)) (\<lambda>current.
     bindS (case current of
         Some r \<Rightarrow> if ip_content_hash r \<noteq> ?h old \<or> ip_content r \<noteq> old
           then node_db (record_revision svc k old (?h old) ''manual'' now) else returnS r
       | None \<Rightarrow> node_db (record_revision svc k old (?h old) ''manual'' now)) (\<lambda>r.
     returnS (policy_state r)))) Q)) s"
    unfolding wp_zoom by (rule wp_ReadRules [OF files(1,2)]) (use here found in \<open>simp_all del: wp_bind\<close>)
  show ?thesis
    unfolding Synchronize_def files(3) Let_def
    using start reading
    by (cases "FindTask k (db_tables (sn_database s))") (auto simp: wp_then [of "guardS _ _"] wp_bind [of "node_tables _"] wp_bind [of "node_files _"]
        simp del: wp_bind wp_zoom wp_then)
qed

lemma wp_Apply_moves:
  assumes s: "rules_task svc task_root root (sn_files s)"
  shows "wp (Policy_Apply svc k task_root base rules src now) (\<lambda>_ t. moved_by svc root (sn_files s) base rules (sn_files t)) s"
proof -
  let ?w = "\<lparr>wr_task_root = task_root, wr_canonical = svc_canonical svc\<rparr>" and ?f = "map byte_of_char rules"
  let ?Q = "\<lambda>_ t. moved_by svc root (sn_files s) base rules (sn_files t)"
  let ?store = "bindS (node_db (record_revision svc k rules (HashRules (svc_blake3 svc) rules) src now)) (\<lambda>r. returnS (policy_state r))"
  have root: "svc_canonical svc task_root = Some root" "canonical_root root" "real_dirs (node_at (sn_files s)) root"
    "plain_part (sn_files s) (root @ [''.veritasignore''])"
    using s by (simp_all add: rules_task_def)
  have same: "?Q r t" if "sn_files t = (sn_files s)\<lparr>fs_faults := fs\<rparr>" for r :: "'x" and t :: "'m Device_scheme" and fs
    using that by (simp add: moved_by_def)
  have ending: "wp ?store ?Q t" if "?Q () t" for t
    using that by (auto simp: wp_def zoomS_def bindS_def returnS_def split: prod.splits sum.splits)
  have written: "wp (WriteAtomically ?w ''.veritasignore'' ?f) (\<lambda>x f. onward ?Q (\<lambda>_. wp ?store ?Q) x (t\<lparr>sn_files := f\<rparr>))
      ((sn_files s)\<lparr>fs_faults := fs\<rparr>)"
    if old: "rules_in root (sn_files s) = Some old" "base = HashRules (svc_blake3 svc) old" for old t fs
  proof (rule wp_mono [OF wp_WriteAtomically [of ?w root]], goal_cases)
    case (5 x f)
    then have "node_at f (root @ [''.veritasignore'']) =
        (if x = Inr () then Some (Regular ?f) else node_at (sn_files s) (root @ [''.veritasignore'']))"
      by (auto simp: atomic_effect_def rules_file)
    then have "moved_by svc root (sn_files s) base rules f" using old by (auto simp: moved_by_def rules_in_def comp_def)
    then show ?case using ending [of "t\<lparr>sn_files := f\<rparr>"] by (cases x) (simp_all del: wp_bind)
  qed (use root rules_file in simp_all)
  have publish: "wp (bindS (node_files (SafeFileWriter_new (svc_canonical svc) task_root)) (\<lambda>writer.
      thenS (node_files (WriteAtomically writer ''.veritasignore'' ?f)) ?store)) ?Q t"
    if old: "rules_in root (sn_files s) = Some old" "base = HashRules (svc_blake3 svc) old"
      and t: "sn_files t = (sn_files s)\<lparr>fs_faults := fs\<rparr>" for old t fs
    unfolding wp_bind [of "node_files _"] wp_zoom t
    by (rule wp_SafeFileWriter_new [of "svc_canonical svc" task_root root, OF root(1,2)])
      (use written [OF old, of t] same in \<open>simp_all add: wp_then wp_zoom moved_by_def del: wp_bind\<close>)
  have main: "wp (bindS (Synchronize svc k task_root now) (\<lambda>current.
       thenS (guardS (base \<noteq> st_content_hash current) (Invalid_argument ''ignore policy changed; refresh before applying''))
      (if rules = st_rules current then returnS current else
       bindS (node_files (SafeFileWriter_new (svc_canonical svc) task_root)) (\<lambda>writer.
       thenS (node_files (WriteAtomically writer ''.veritasignore'' ?f)) ?store)))) ?Q s"
    unfolding wp_bind [of "Synchronize svc k task_root now"]
  proof (rule wp_Synchronize_hash [OF s], goal_cases)
    case (2 st old d fs)
    then show ?case
      using publish [OF 2(1), of "s\<lparr>sn_files := (sn_files s)\<lparr>fs_faults := fs\<rparr>, sn_database := d\<rparr>" fs] by (simp add: moved_by_def wp_then [of "guardS _ _"] del: wp_bind wp_then)
  qed (simp add: moved_by_def)
  show ?thesis
    unfolding Policy_Apply_def wp_then [of "liftS _"] wp_then [of "guardS (_ \<and> _) _"] wp_lift wp_guard
    by (cases "Validate rules"; cases "src \<in> {''manual'', ''ai'', ''undo''}") (use main in \<open>auto simp: moved_by_def simp del: wp_bind wp_then\<close>)
qed

section \<open>Frames of the policy exchange\<close>

text \<open>The files of \<open>s\<close> up to scheduled failures, before the policy is applied, and moved by the proposal \<open>p\<close> afterwards.\<close>

abbreviation before_policy :: "'t BidirectionalSyncNode \<Rightarrow> 't BidirectionalSyncNode \<Rightarrow> bool" where
  "before_policy s \<equiv> quiet (\<lambda>f. \<exists>fs. f = (sn_files s)\<lparr>fs_faults := fs\<rparr>) (bi_config s)"

abbreviation after_policy :: "'t Services \<Rightarrow> path \<Rightarrow> PendingIgnorePolicy \<Rightarrow> 't BidirectionalSyncNode \<Rightarrow> 't BidirectionalSyncNode \<Rightarrow> bool" where
  "after_policy svc root p s \<equiv> quiet (moved_by svc root (sn_files s) (pp_base_hash p) (pp_rules p)) (bi_config s)"

lemma unmoved: "before_policy s t \<Longrightarrow> after_policy svc root p s t"
  by (auto simp: quiet_def moved_by_def)

interpretation moving: fault_blind "moved_by svc root f base rules" for svc root f base rules
  by (rule moved_blind)

lemma leads_both:
  assumes "leadsS P Q m" "keepsS Q n"
  shows "leadsS P Q (thenS m n)"
  unfolding leadsS_def
proof (intro allI impI)
  fix s assume "P s"
  then have "Q (snd (m s))" using assms(1) by (simp add: leadsS_def)
  then show "Q (snd (thenS m n s))"
    using assms(2) by (cases "m s"; cases "fst (m s)") (auto simp: thenS_def bindS_def keepsS_def)
qed

lemma ApplyCommitted_moves:
  assumes "rules_task svc (bc_task_root (bi_config s)) root (sn_files s)"
  shows "leadsS (before_policy s) (after_policy svc root p s) (ApplyCommittedPolicy svc p)"
proof -
  have applying: "leadsS (before_policy s) (after_policy svc root p s)
      (Policy_Apply svc k (bc_task_root (bi_config s)) (pp_base_hash p) (pp_rules p) src now)" for k src now
    unfolding leadsS_def
  proof (intro allI impI)
    fix t assume t: "before_policy s t"
    then obtain fs where fs: "sn_files t = (sn_files s)\<lparr>fs_faults := fs\<rparr>" by (auto simp: quiet_def)
    have "rules_task svc (bc_task_root (bi_config s)) root (sn_files t)"
      using assms by (simp add: fs rules_task_def)
    from wp_Apply_moves [OF this] fs
    have "moved_by svc root (sn_files s) (pp_base_hash p) (pp_rules p)
        (sn_files (snd (Policy_Apply svc k (bc_task_root (bi_config s)) (pp_base_hash p) (pp_rules p) src now t)))"
      by (simp add: wp_def moved_by_def)
    moreover have "keepsS (quiet (\<lambda>_. True) (bi_config s)) (Policy_Apply svc k (bc_task_root (bi_config s)) (pp_base_hash p) (pp_rules p) src now)"
      unfolding Policy_Apply_def Synchronize_def Let_def by (intro quiet_steps) (simp_all add: keepsS_def)
    ultimately show "after_policy svc root p s (snd (Policy_Apply svc k (bc_task_root (bi_config s)) (pp_base_hash p) (pp_rules p) src now t))"
      using t keepsD by (fastforce simp: quiet_def)
  qed
  have step: "leadsS (before_policy s) (after_policy svc root p s) (bindS (current_rules_hash svc) (\<lambda>current_hash.
     bindS (NowMilliseconds svc) (\<lambda>now.
     thenS (if current_hash \<noteq> HashRules (svc_blake3 svc) (pp_rules p)
            then Policy_Apply svc (bc_task_id (bi_config s)) (bc_task_root (bi_config s)) (pp_base_hash p) (pp_rules p) (pp_source p) now
            else Synchronize svc (bc_task_id (bi_config s)) (bc_task_root (bi_config s)) now)
       (modifyS (\<lambda>s. s\<lparr>bi_policy_hash := HashRules (svc_blake3 svc) (pp_rules p)\<rparr>)))))"
    by (intro leads_bind leads_both leads_if applying leads_keep only_reads.rules_hash only_reads.Synchronize quiet_basic quiet_modify unmoved) simp_all
  show ?thesis
    unfolding leadsS_def
  proof (intro allI impI)
    fix t assume t: "before_policy s t"
    then have "ApplyCommittedPolicy svc p t = bindS (current_rules_hash svc) (\<lambda>current_hash.
     bindS (NowMilliseconds svc) (\<lambda>now.
     thenS (if current_hash \<noteq> HashRules (svc_blake3 svc) (pp_rules p)
            then Policy_Apply svc (bc_task_id (bi_config s)) (bc_task_root (bi_config s)) (pp_base_hash p) (pp_rules p) (pp_source p) now
            else Synchronize svc (bc_task_id (bi_config s)) (bc_task_root (bi_config s)) now)
       (modifyS (\<lambda>s. s\<lparr>bi_policy_hash := HashRules (svc_blake3 svc) (pp_rules p)\<rparr>)))) t"
      by (simp add: ApplyCommittedPolicy_def quiet_def bindS_def [of "getS _"] getS_def Let_def)
    then show "after_policy svc root p s (snd (ApplyCommittedPolicy svc p t))" using step t by (simp add: leadsS_def)
  qed
qed

lemma leadsD: "leadsS P Q m \<Longrightarrow> P s \<Longrightarrow> m s = (r, u) \<Longrightarrow> Q u"
  by (auto simp: leadsS_def)

lemma leads_get: "(\<And>t. P t \<Longrightarrow> leadsS P Q (k (f t))) \<Longrightarrow> leadsS P Q (bindS (getS f) k)"
  by (simp add: leadsS_def bindS_def getS_def)

lemma leads_guard: "(\<not> b \<Longrightarrow> leadsS P Q m) \<Longrightarrow> (\<And>s. P s \<Longrightarrow> Q s) \<Longrightarrow> leadsS P Q (thenS (guardS b e) m)"
  by (simp add: leadsS_def thenS_def bindS_def guardS_def)

text \<open>The stored proposal \<open>p\<close> entitles this frame to move the rules.\<close>

definition may_move :: "BidirectionalSyncConfig \<Rightarrow> tables \<Rightarrow> FrameType \<Rightarrow> IgnorePolicyMessage \<Rightarrow> PendingIgnorePolicy \<Rightarrow> bool" where
  "may_move c tables t message p \<longleftrightarrow> FindPendingIgnorePolicy (bc_task_id c) tables = Some p \<and> pp_state p \<noteq> ''applied'' \<and>
     (t = kPolicyHello \<and> pp_origin_device_id p = bc_device_id c \<and> pp_state p = ''committed'' \<or>
      t \<in> {kPolicyAck, kPolicyDone} \<and> pp_origin_device_id p = bc_device_id c \<and> matching_policy p message \<or>
      t = kPolicyCommit \<and> pp_origin_device_id p = bc_peer_device_id c \<and> matching_policy p message)"

definition policy_moved :: "'t Services \<Rightarrow> path \<Rightarrow> 't BidirectionalSyncNode \<Rightarrow> FrameType \<Rightarrow> IgnorePolicyMessage \<Rightarrow> FileSystem \<Rightarrow> bool" where
  "policy_moved svc root s t message f \<longleftrightarrow> rules_in root f = rules_in root (sn_files s) \<or>
     (\<exists>p. may_move (bi_config s) (db_tables (sn_database s)) t message p \<and> moved_by svc root (sn_files s) (pp_base_hash p) (pp_rules p) f)"

interpretation moved: fault_blind "policy_moved svc root s t message" for svc root s t message
  by unfold_locales (simp add: policy_moved_def moved_by_def)

abbreviation policy_outcome where
  "policy_outcome svc root s t message \<equiv> quiet (policy_moved svc root s t message) (bi_config s)"

lemma untouched: "before_policy s u \<Longrightarrow> policy_outcome svc root s t message u"
  by (auto simp: quiet_def policy_moved_def)

lemma applied_leads:
  assumes "rules_task svc (bc_task_root (bi_config s)) root (sn_files s)" "may_move (bi_config s) (db_tables (sn_database s)) t message p"
    and "pp_base_hash p' = pp_base_hash p" "pp_rules p' = pp_rules p"
  shows "leadsS (before_policy s) (policy_outcome svc root s t message) (ApplyCommittedPolicy svc p')"
  using ApplyCommitted_moves [OF assms(1), of p'] assms(2-4) by (auto simp: leadsS_def quiet_def policy_moved_def)

lemmas outcome_steps = quiet_steps moved.Send moved.settled quiet_modify
lemmas start_steps = quiet_steps only_reads.Send only_reads.settled only_reads.rules_hash quiet_modify

lemma keeps_conj: "keepsS A m \<Longrightarrow> keepsS B m \<Longrightarrow> keepsS (\<lambda>u. A u \<and> B u) m"
  by (simp add: keepsS_def)

lemma policy_hello_moves:
  fixes s :: "'t BidirectionalSyncNode"
  assumes task: "rules_task svc (bc_task_root (bi_config s)) root (sn_files s)"
  shows "leadsS (\<lambda>u. before_policy s u \<and> sn_database u = sn_database s) (policy_outcome svc root s kPolicyHello message) (policy_hello svc message)"
proof -
  let ?P = "\<lambda>u. before_policy s u \<and> sn_database u = sn_database s" and ?Q = "policy_outcome svc root s kPolicyHello message"
  have known: "bi_config u = bi_config s \<and> sn_database u = sn_database s" if "?P u" for u using that by (simp add: quiet_def)
  have start: "?Q u" if "?P u" for u using that by (blast intro: untouched)
  have rest: "leadsS ?P ?Q m" if "keepsS (before_policy s) m" for m :: "('t BidirectionalSyncNode, 'x) op"
    using that start by (fastforce simp: leadsS_def keepsS_def intro: untouched)
  have database: "keepsS (\<lambda>u. sn_database u = sn_database s) (current_rules_hash svc)"
    unfolding current_rules_hash_def by (intro keeps_steps keepsS_zoom) simp
  have applied: "leadsS ?P ?Q (ApplyCommittedPolicy svc p)"
    if "may_move (bi_config s) (db_tables (sn_database s)) kPolicyHello message p" for p
    using applied_leads [OF task that refl refl] by (simp add: leadsS_def)
  have retry: "leadsS ?P ?Q (RetryPolicy svc)"
    unfolding RetryPolicy_def
  proof (rule leads_bind, goal_cases)
    case 1
    show ?case by (intro keeps_conj quiet_basic) (simp add: keepsS_def outside_call_def)
  next
    case (2 u)
    then show ?case by (rule start)
  next
    case (3 now)
    show ?case
    proof (rule leads_get, rule leads_if, goal_cases)
      case (1 u)
      show ?case by (intro rest keepsS_return)
    next
      case (2 u)
      have pending: "sn_database u = sn_database s" "bi_config u = bi_config s" using known [OF 2(1)] by simp_all
      show ?case
      proof (cases "FindPendingIgnorePolicy (bc_task_id (bi_config s)) (db_tables (sn_database s))")
        case (Some p)
        then show ?thesis
          unfolding pending Some option.case
          by (intro leads_if leads_both rest [OF keepsS_return] applied outcome_steps) (auto simp: may_move_def Some)
      qed (simp add: pending rest)
    qed
  qed
  show ?thesis
    unfolding policy_hello_def
    by (intro leads_get leads_bind leads_guard leads_then [where P = ?P] start keeps_conj only_reads.rules_hash database
        leads_both [OF retry] moved.SendManifest quiet_modify keepsS_modify) simp_all
qed

lemma policy_frames_move:
  assumes task: "rules_task svc (bc_task_root (bi_config s)) root (sn_files s)"
    and p: "FindPendingIgnorePolicy (bc_task_id (bi_config s)) (db_tables (sn_database s)) = Some p" "matching_policy p message"
  shows "leadsS (before_policy s) (policy_outcome svc root s kPolicyAck message) (policy_ack svc message p)"
    "leadsS (before_policy s) (policy_outcome svc root s kPolicyCommit message) (policy_commit svc message p)"
    "leadsS (before_policy s) (policy_outcome svc root s kPolicyDone message) (policy_done svc p)"
proof -
  have config: "bi_config u = bi_config s" if "before_policy s u" for u using that by (simp add: quiet_def)
  note moves = applied_leads [OF task]
  note leads = leads_then leads_guard leads_both leads_if leads_keep
  show "leadsS (before_policy s) (policy_outcome svc root s kPolicyAck message) (policy_ack svc message p)"
    unfolding policy_ack_def
  proof (rule leads_get, unfold config, goal_cases)
    case (1 u)
    show ?case
      using p by (intro leads moves untouched outcome_steps) (auto simp: may_move_def)
  qed
  show "leadsS (before_policy s) (policy_outcome svc root s kPolicyCommit message) (policy_commit svc message p)"
    unfolding policy_commit_def
  proof (rule leads_get, unfold config, goal_cases)
    case (1 u)
    show ?case
      using p by (intro leads moves untouched outcome_steps) (auto simp: may_move_def)
  qed
  show "leadsS (before_policy s) (policy_outcome svc root s kPolicyDone message) (policy_done svc p)"
    unfolding policy_done_def
  proof (rule leads_get, unfold config, goal_cases)
    case (1 u)
    show ?case
      using p by (intro leads moves untouched outcome_steps) (auto simp: may_move_def)
  qed
qed

text \<open>
  C16: the ignore rules change only by agreement.  Let the task root be a real directory whose rules file is absent or regular, and
  let no link bear the temporary name of the next write.  Whatever policy frame arrives and whatever fails while it is handled, the
  rules file is as before, or it went from the rules whose hash is the base of the proposal that this node has stored to
  exactly the rules of that proposal, and the frame had the right to do it: an acknowledgement or a receipt for an own
  proposal, a commit of the peer's proposal, or a new handshake for an own proposal that is already committed.
\<close>

theorem policy_change_agreed:
  fixes s :: "'t BidirectionalSyncNode"
  assumes "rules_task svc (bc_task_root (bi_config s)) root (sn_files s)" "HandlePolicy svc t message s = (r, u)"
  shows "rules_in root (sn_files u) = rules_in root (sn_files s) \<or>
    (\<exists>p old. may_move (bi_config s) (db_tables (sn_database s)) t message p \<and>
       rules_in root (sn_files s) = Some old \<and> HashRules (svc_blake3 svc) old = pp_base_hash p \<and> rules_in root (sn_files u) = Some (pp_rules p))"
proof -
  have start: "before_policy s s" by (auto simp: quiet_def intro: exI [of _ "fs_faults (sn_files s)"])
  have "policy_outcome svc root s t message u"
  proof (cases "t = kPolicyHello")
    case True
    then show ?thesis using policy_hello_moves [OF assms(1), of message] start assms(2) by (auto simp: leadsS_def HandlePolicy_def)
  next
    case False
    note frames = policy_frames_move [OF assms(1), where message = message]
    let ?pending = "FindPendingIgnorePolicy (bc_task_id (bi_config s)) (db_tables (sn_database s))"
    let ?matching = "case ?pending of None \<Rightarrow> None | Some p \<Rightarrow> if matching_policy p message then Some p else None"
    have rest: "leadsS (before_policy s) (policy_outcome svc root s t message) m" if "keepsS (before_policy s) m" for m :: "('t BidirectionalSyncNode, unit) op"
      using that by (rule leads_keep) (rule untouched)
    have "leadsS (before_policy s) (policy_outcome svc root s t message)
        (case ?matching of None \<Rightarrow> if t = kPolicyReject then returnS ()
           else throwS (Invalid_argument ''policy acknowledgement does not match durable proposal'')
         | Some p \<Rightarrow> if t = kPolicyReject then policy_reject svc p else if t = kPolicyAck then policy_ack svc message p
             else if t = kPolicyCommit then policy_commit svc message p else if t = kPolicyDone then policy_done svc p else policy_settled svc)"
    proof (cases ?matching)
      case (Some p)
      then have "?pending = Some p" "matching_policy p message" by (auto split: option.splits if_splits)
      from frames [OF this] show ?thesis
        unfolding Some option.case by (intro leads_if rest [OF only_reads.reject] rest [OF only_reads.settled]) simp_all
    qed (simp add: rest)
    then have "leadsS (before_policy s) (policy_outcome svc root s t message)
       (thenS (guardS (policy_proposal_id message = []) (Invalid_argument ''policy proposal id is required''))
      (thenS (liftS (\<lambda>_. Validate (policy_rules message)))
       (if t = kPolicyPropose then policy_propose svc message ?matching
        else case ?matching of None \<Rightarrow> if t = kPolicyReject then returnS ()
           else throwS (Invalid_argument ''policy acknowledgement does not match durable proposal'')
         | Some p \<Rightarrow> if t = kPolicyReject then policy_reject svc p else if t = kPolicyAck then policy_ack svc message p
             else if t = kPolicyCommit then policy_commit svc message p else if t = kPolicyDone then policy_done svc p else policy_settled svc)))"
      by (intro leads_guard leads_then keepsS_lift leads_if rest [OF only_reads.propose] untouched)
    then show ?thesis
      by (rule leadsD [where s = s]) (rule start, use assms(2) False in \<open>simp add: HandlePolicy_def Let_def bindS_def [of "getS _"] getS_def\<close>)
  qed
  then show ?thesis by (auto simp: quiet_def policy_moved_def moved_by_def)
qed

section \<open>Remote deletions\<close>

lemma calm_calls:
  assumes "fs_faults s = []"
  shows "sys_status p s = (Inr (status_of s (real_path s p)), s)" "sys_symlink_status p s = (Inr (status_of s (entry_path s p)), s)"
  using assms by (simp_all add: sys_status_def sys_symlink_status_def next_fault_def bindS_def getS_def)

lemma RemoveFile_ok:
  assumes place: "download_place w rel d c s" and regular: "node_at s (d @ [c]) = Some (Regular b)"
  shows "RemoveFile w rel s = (Inr (), del_node (d @ [c]) s)"
proof -
  have ok: "fs_faults s = []" "real_dirs (node_at s) d" using place by (simp_all add: download_place_def)
  have real: "real_path s (d @ [c]) = At (d @ [c])" using real_path_real [OF ok(2)] regular by simp
  have "sys_remove (d @ [c]) s = (Inr (Some True), del_node (d @ [c]) s)"
    using ok regular by (simp add: sys_remove_def next_fault_def bindS_def)
  then show ?thesis
    using place_resolve [OF place] ok regular real calm_calls [OF ok(1)]
    by (simp add: RemoveFile_def RejectSymlink_def remove_or_throw_def thenS_def bindS_def guardS_def returnS_def status_of_def)
qed

text \<open>
  Applying a remote deletion does not look at the file.  When the resolver lets a remote tombstone win without a
  conflict, the regular file at its path is removed whatever bytes it holds; in particular an edit that was made after the
  last scan is lost, and no conflict is recorded for it.
\<close>

theorem remote_deletion_unchecked:
  assumes "ve_kind entry = vkTombstone" "download_place (bi_writer s) (ve_relative_path entry) d c (sn_files s)"
    and "bi_writer s = \<lparr>wr_task_root = bc_task_root (bi_config s), wr_canonical = svc_canonical svc\<rparr>"
    and "node_at (sn_files s) (d @ [c]) = Some (Regular b)"
  shows "node_at (sn_files (snd (apply_remote svc entry s))) (d @ [c]) = None \<and>
    t_conflicts (db_tables (sn_database (snd (apply_remote svc entry s)))) = t_conflicts (db_tables (sn_database s))"
proof -
  have ok: "fs_faults (sn_files s) = []" "real_dirs (node_at (sn_files s)) d" using assms(2) by (simp_all add: download_place_def)
  have real: "real_path (sn_files s) (d @ [c]) = At (d @ [c])" using real_path_real [OF ok(2)] assms(4) by simp
  have resolve: "ResolveTaskPath (svc_canonical svc) (bc_task_root (bi_config s)) (ve_relative_path entry) (sn_files s) = (Inr (d @ [c]), sn_files s)"
    using place_resolve [OF assms(2)] assms(3) by simp
  have "apply_remote svc entry s = UpsertRemoteRecord entry (s\<lparr>sn_files := del_node (d @ [c]) (sn_files s)\<rparr>)"
    using assms(1,4) resolve RemoveFile_ok [OF assms(2,4)] calm_calls(1) [OF ok(1), of "d @ [c]"] real
    by (simp add: apply_remote_def bindS_def thenS_def getS_def zoomS_def status_of_def)
  moreover have "sn_files (snd (UpsertRemoteRecord entry u)) = sn_files u \<and>
      t_conflicts (db_tables (sn_database (snd (UpsertRemoteRecord entry u)))) = t_conflicts (db_tables (sn_database u))" for u :: "'a BidirectionalSyncNode"
    by (auto simp: UpsertRemoteRecord_def UpsertFileRecord_def statement_def op_defs zoomS_def Let_def split: sum.splits if_splits)
  ultimately show ?thesis by simp
qed

section \<open>Instances\<close>

definition demo_message :: IgnorePolicyMessage where
  "demo_message = \<lparr>policy_proposal_id = ''q'', policy_base_hash = HashRules (svc_blake3 demo_services) [], policy_rules = ''x'', policy_source = ''ai''\<rparr>"

theorem policy_change_agreed_witness:
  "rules_in demo_root (sn_files (snd (HandlePolicy demo_services kPolicyAck demo_message demo_session))) = rules_in demo_root demo_fs"
proof -
  have "rules_task demo_services (bc_task_root (bi_config demo_session)) demo_root (sn_files demo_session)"
    using demo_facts demo_fresh
    by (simp add: rules_task_def demo_session_def demo_bi_def demo_bidirectional_def demo_services_def demo_writer_def rules_in_def demo_node_def)
      (simp add: demo_fs_def demo_root_def node_at_def)
  note agreed = policy_change_agreed [OF this prod.collapse [symmetric], of kPolicyAck demo_message]
  have "\<not> may_move (bi_config demo_session) (db_tables (sn_database demo_session)) kPolicyAck demo_message p" for p
    by (simp add: may_move_def demo_session_def demo_bi_def demo_database_def FindPendingIgnorePolicy_def empty_tables_def row_of_def)
  then show ?thesis using agreed by (simp add: demo_session_def demo_bi_def)
qed

definition demo_tombstone :: VersionedManifestEntry where
  "demo_tombstone = \<lparr>ve_relative_path = ''a'', ve_kind = vkTombstone, ve_size = 0, ve_content_hash = [], ve_version_id = ''w'',
     ve_origin_device_id = ''p'', ve_logical_clock = 9, ve_parent_version_id = ''v'', ve_deleted_at_ms = Some 5\<rparr>"

theorem remote_deletion_unchecked_witness:
  "node_at (sn_files (snd (apply_remote demo_services demo_tombstone demo_bi))) (demo_root @ [''a'']) = None"
proof -
  have "download_place (bi_writer demo_bi) (ve_relative_path demo_tombstone) demo_root ''a'' (sn_files demo_bi)"
    using demo_facts
    by (auto simp: download_place_def demo_bi_def demo_tombstone_def path_components_def safe_relative_def is_rooted_def is_letter_def
        check_component_def is_device_name_def to_upper_def is_control_def)
      (simp add: demo_fs_def demo_root_def node_at_def)
  moreover have "node_at (sn_files demo_bi) (demo_root @ [''a'']) = Some (Regular [1, 2])" by (simp add: demo_bi_def demo_fs_def demo_root_def node_at_def)
  ultimately show ?thesis
    using remote_deletion_unchecked [of demo_tombstone demo_bi demo_root "''a''" demo_services "[1, 2]"]
    by (simp add: demo_tombstone_def demo_bi_def demo_bidirectional_def demo_services_def demo_writer_def)
qed

end
