(* ===== verification/Policy_Gate.thy ===== *)
theory Policy_Gate
  imports Bidirectional_Policy
begin

text \<open>
  While the policy gate of a bidirectional node is closed (its peer's rules are not known to be the same, or a proposal is open),
  no call but a frame of the policy exchange opens it, and until then no file moves.
\<close>

section \<open>What the node may still do\<close>

text \<open>Sending greetings and policy frames, whatever the transport makes of them.\<close>

inductive talks :: "'t Services \<Rightarrow> 't \<Rightarrow> 't \<Rightarrow> bool" for svc t0 where
  silent: "talks svc t0 t0"
| said: "talks svc t0 t \<Longrightarrow> ty = kHello \<or> is_policy_frame ty \<Longrightarrow>
    EncodeFrame \<lparr>frame_type = ty, frame_request_id = i, frame_payload = p\<rparr> = Inr wire \<Longrightarrow>
    svc_send svc kControl wire t = (r, u) \<Longrightarrow> talks svc t0 u"

text \<open>Replacing the rules file, which may leave a temporary file of its own behind.\<close>

definition rules_path :: "path \<Rightarrow> path" where
  "rules_path root = root @ [''.veritasignore'']"

definition only_rules :: "path \<Rightarrow> (path \<Rightarrow> node option) \<Rightarrow> FileSystem \<Rightarrow> bool" where
  "only_rules root nodes f \<longleftrightarrow> confined root nodes f \<and>
     (\<forall>q. node_at f q \<noteq> nodes q \<longrightarrow> q = rules_path root \<or> (\<exists>g. q = part_of g (rules_path root)))"

interpretation only_rules: fault_blind "only_rules root nodes" for root nodes
  by unfold_locales (simp add: only_rules_def confined_def)

definition gated :: "'t Services \<Rightarrow> path \<Rightarrow> (path \<Rightarrow> node option) \<Rightarrow> 't BidirectionalSyncNode \<Rightarrow> 't BidirectionalSyncNode \<Rightarrow> bool" where
  "gated svc root nodes s0 s \<longleftrightarrow> bi_config s = bi_config s0 \<and>
     t_pending_policies (db_tables (sn_database s)) = t_pending_policies (db_tables (sn_database s0)) \<and>
     (bi_policy_ready s \<longrightarrow> PolicyPending s0) \<and> bi_uploads s = bi_uploads s0 \<and> bi_downloads s = bi_downloads s0 \<and>
     talks svc (bi_transport s0) (bi_transport s) \<and> only_rules root nodes (sn_files s)"

lemma gated_closed:
  assumes "gated svc root nodes s0 s"
  shows "\<not> bi_policy_ready s \<or> PolicyPending s" "PolicyPending s \<longleftrightarrow> PolicyPending s0"
proof -
  show "PolicyPending s \<longleftrightarrow> PolicyPending s0" using assms by (simp add: gated_def PolicyPending_def FindPendingIgnorePolicy_def)
  with assms show "\<not> bi_policy_ready s \<or> PolicyPending s" by (auto simp: gated_def)
qed

section \<open>Database calls that leave the proposals alone\<close>

definition proposals_are :: "PendingIgnorePolicy list \<Rightarrow> PendingIgnorePolicy list \<Rightarrow> Database \<Rightarrow> bool" where
  "proposals_are now saved d \<longleftrightarrow> t_pending_policies (db_tables d) = now \<and> (\<forall>t. db_saved d = Some t \<longrightarrow> t_pending_policies t = saved)"

definition keeps_proposals :: "(Database, 'a) op \<Rightarrow> bool" where
  "keeps_proposals m \<longleftrightarrow> (\<forall>x y. keepsS (proposals_are x y) m)"

lemma proposals_basic:
  "keeps_proposals (returnS a)" "keeps_proposals (throwS e)" "keeps_proposals (getS f)" "keeps_proposals (liftS g)" "keeps_proposals (guardS b e)"
  "keeps_proposals (query h)"
  by (auto simp: keeps_proposals_def query_def keepsS_def op_defs)

lemma proposals_bind: "keeps_proposals m \<Longrightarrow> (\<And>x. keeps_proposals (f x)) \<Longrightarrow> keeps_proposals (bindS m f)"
  unfolding keeps_proposals_def by (auto intro: keeps_steps)

lemma proposals_then: "keeps_proposals m \<Longrightarrow> keeps_proposals n \<Longrightarrow> keeps_proposals (thenS m n)"
  unfolding keeps_proposals_def by (auto intro: keeps_steps)

lemma proposals_statement:
  "(\<And>t t'. f t = Inr t' \<Longrightarrow> t_pending_policies t' = t_pending_policies t) \<Longrightarrow> keeps_proposals (statement operation f)"
  by (auto simp: keeps_proposals_def proposals_are_def keepsS_def statement_def split: sum.splits)

lemma proposals_transaction:
  assumes "keeps_proposals m"
  shows "keeps_proposals (InTransaction m)"
  unfolding keeps_proposals_def keepsS_def
proof (intro allI impI)
  fix x y d
  assume d: "proposals_are x y d"
  let ?d = "d\<lparr>db_saved := Some (db_tables d)\<rparr>"
  have "proposals_are x x ?d" using d by (simp add: proposals_are_def)
  then have "proposals_are x x (snd (m ?d))" using assms by (simp add: keeps_proposals_def keepsS_def)
  then show "proposals_are x y (snd (InTransaction m d))"
    using d by (cases "m ?d") (auto simp: InTransaction_def proposals_are_def rollback_def split: sum.splits option.splits)
qed

lemmas proposals_steps = proposals_basic proposals_bind proposals_then proposals_transaction

lemma proposals_calls:
  "keeps_proposals (AdvanceLogicalClock k observed)" "keeps_proposals (RecordVersionLineage l)" "keeps_proposals (UpsertFileRecord r)"
  "keeps_proposals (RecordTombstone k p v origin clock at)" "keeps_proposals (record_revision svc k content hash src now)"
proof -
  show upsert: "keeps_proposals (UpsertFileRecord r)" for r
    unfolding UpsertFileRecord_def Let_def by (intro proposals_steps proposals_statement) (auto split: if_splits)
  then show "keeps_proposals (RecordTombstone k p v origin clock at)" unfolding RecordTombstone_def .
  have clock: "keeps_proposals (advance_clock k observed)"
    unfolding advance_clock_def Let_def by (intro proposals_steps proposals_statement) (auto split: if_splits)
  show "keeps_proposals (AdvanceLogicalClock k observed)"
    unfolding AdvanceLogicalClock_def by (intro proposals_steps) (simp add: clock proposals_transaction)
  have "keeps_proposals (statement x (insert_lineage row))" for x row
    by (rule proposals_statement) (auto simp: insert_lineage_def split: if_splits)
  then show "keeps_proposals (RecordVersionLineage l)"
    unfolding RecordVersionLineage_def by (intro proposals_steps) (simp add: proposals_basic split: option.splits)
  have "keeps_proposals (RecordIgnorePolicyRevision k content hash src now)"
    unfolding RecordIgnorePolicyRevision_def Let_def by (intro proposals_steps proposals_statement) (auto split: if_splits)
  then show "keeps_proposals (record_revision svc k content hash src now)"
    by (auto simp: keeps_proposals_def keepsS_def record_revision_def split: prod.splits sum.splits) (metis snd_conv)+
qed

section \<open>Steps that keep the gate closed\<close>

lemma gated_db:
  assumes "keeps_proposals m"
  shows "keepsS (gated svc root nodes s0) (node_db m)"
proof -
  have "t_pending_policies (db_tables (snd (m d))) = t_pending_policies (db_tables d)" for d
  proof -
    have "proposals_are (t_pending_policies (db_tables d)) (case db_saved d of None \<Rightarrow> [] | Some t \<Rightarrow> t_pending_policies t) d"
      by (auto simp: proposals_are_def)
    then show ?thesis using assms unfolding keeps_proposals_def keepsS_def proposals_are_def by blast
  qed
  then show ?thesis by (auto simp: keepsS_def zoomS_def gated_def split: prod.splits) (metis snd_conv)+
qed

lemma gated_basic:
  "keepsS (gated svc root nodes s0) (outside_call x)" "keepsS (gated svc root nodes s0) (NowMilliseconds svc')"
  "keepsS (gated svc root nodes s0) (NewUuidV4 svc')" "keepsS (gated svc root nodes s0) (node_tables y)"
  by (simp_all add: keepsS_def outside_call_def gated_def NowMilliseconds_def NewUuidV4_def liftS_def)

lemma gated_modify:
  "keepsS (gated svc root nodes s0) (modifyS (\<lambda>s. s\<lparr>bi_policy_hash := h\<rparr>))" "keepsS (gated svc root nodes s0) (modifyS (\<lambda>s. s\<lparr>bi_last_error := e\<rparr>))"
  "keepsS (gated svc root nodes s0) (modifyS (\<lambda>s. s\<lparr>bi_next_policy_retry := at\<rparr>))" "keepsS (gated svc root nodes s0) (modifyS (\<lambda>s. s\<lparr>bi_next_request_id := i\<rparr>))"
  "keepsS (gated svc root nodes s0) (modifyS (\<lambda>s. s\<lparr>bi_policy_ready := False\<rparr>))" "keepsS (gated svc root nodes s0) (modifyS (\<lambda>s. s\<lparr>bi_started := b\<rparr>))"
  "keepsS (gated svc root nodes s0) (modifyS (\<lambda>s. s\<lparr>bi_received_hello := b\<rparr>))" "keepsS (gated svc root nodes s0) (modifyS (\<lambda>s. s\<lparr>sn_source_files := fs\<rparr>))"
  by (rule keepsS_modify, simp add: gated_def)+

lemma gated_files: "keepsS (only_rules root nodes) m \<Longrightarrow> keepsS (gated svc root nodes s0) (node_files m)"
  by (erule keepsS_zoomed) (simp_all add: gated_def)

lemma gated_config:
  assumes "keepsS (gated svc root nodes s0) (k (bi_config s0))"
  shows "keepsS (gated svc root nodes s0) (bindS (getS bi_config) k)"
  by (rule keepsS_bind_get) (use assms in \<open>simp add: gated_def\<close>)

lemma gated_Send:
  assumes "ty = kHello \<or> is_policy_frame ty"
  shows "keepsS (gated svc root nodes s0) (Bi_Send svc kControl ty payload)"
proof -
  have "keepsS (gated svc root nodes s0) (bi_the_transport (svc_send svc kControl wire))"
    if "EncodeFrame \<lparr>frame_type = ty, frame_request_id = i, frame_payload = payload\<rparr> = Inr wire" for wire i
    using talks.said [OF _ assms that] by (auto simp: keepsS_def zoomS_def gated_def split: prod.splits)
  then have "keepsS (gated svc root nodes s0) (bindS (liftS (\<lambda>_. EncodeFrame \<lparr>frame_type = ty, frame_request_id = i, frame_payload = payload\<rparr>))
      (\<lambda>wire. bi_the_transport (svc_send svc kControl wire)))" for i
    by (auto simp: keepsS_def bindS_def liftS_def split: sum.splits)
  then show ?thesis unfolding Bi_Send_def by (rule keepsS_bind [OF keepsS_get keepsS_then [OF gated_modify(4)]])
qed

lemmas gated_steps = keeps_steps gated_basic gated_files gated_db proposals_calls

lemma gated_rules_hash: "keepsS (gated svc root nodes s0) (current_rules_hash svc')"
  unfolding current_rules_hash_def by (intro gated_steps only_rules.ReadRules)

lemma gated_Synchronize: "keepsS (gated svc root nodes s0) (Synchronize svc' k p now)"
  unfolding Synchronize_def Let_def by (intro gated_steps only_rules.ReadRules)

lemma gated_SendManifest: "keepsS (gated svc root nodes s0) (Bi_SendManifest svc')"
  using gated_closed(1) by (fastforce simp: keepsS_def Bi_SendManifest_def bindS_def [of "getS _"] getS_def returnS_def)

lemma gated_scan: "keepsS (gated svc root nodes s0) (scan_task svc' task_root)"
proof -
  have "keepsS (gated svc root nodes s0) (zoomS (\<lambda>s. \<lparr>sg_files = sn_files s, sg_readings = sn_calls s\<rparr>)
      (\<lambda>g s. s\<lparr>sn_files := sg_files g, sn_calls := sg_readings g\<rparr>) (Scan blake3 canonical view rules task_root))" for blake3 canonical view rules
    by (rule keepsS_zoomed [OF only_rules.Scan]) (simp_all add: gated_def)
  then show ?thesis unfolding scan_task_def by (intro keeps_steps gated_files only_rules.LoadFile)
qed

lemma gated_Refresh: "keepsS (gated svc root nodes s0) (RefreshLocal svc')"
proof -
  have changes: "keepsS (gated svc root nodes s0) (refresh_changes svc' snapshot known)" for snapshot known
    by (induction snapshot arbitrary: known) (auto simp: Let_def refresh_entry_def intro!: gated_steps)
  have deletions: "keepsS (gated svc root nodes s0) (refresh_deletions svc' known snapshot)" for snapshot known
    by (induction known arbitrary: snapshot) (auto simp: Let_def refresh_deletion_def intro!: gated_steps)
  show ?thesis
    unfolding RefreshLocal_def Let_def
    by (intro keeps_steps gated_basic gated_rules_hash gated_scan changes deletions gated_SendManifest gated_modify)
qed

section \<open>Applying a committed policy\<close>

text \<open>The root of the node and the writer of its files.\<close>

definition gate_root :: "'t Services \<Rightarrow> string \<Rightarrow> path \<Rightarrow> bool" where
  "gate_root svc task_root root \<longleftrightarrow> svc_canonical svc task_root = Some root \<and> canonical_root root"

lemma only_rules_write:
  assumes "wr_canonical w (wr_task_root w) = Some root" "canonical_root root"
  shows "keepsS (only_rules root nodes) (WriteAtomically w ''.veritasignore'' bytes)"
  unfolding keepsS_def
proof (intro allI impI)
  fix f
  assume f: "only_rules root nodes f"
  let ?g = "snd (WriteAtomically w ''.veritasignore'' bytes f)" and ?r = "fst (WriteAtomically w ''.veritasignore'' bytes f)"
  have conf: "confined root nodes f" using f by (simp add: only_rules_def)
  have "strict_prefix root (part_of f (root @ [''.veritasignore'']))" by (simp only: part_of_snoc) (simp add: strict_prefix_def)
  then have "plain_part f (root @ path_components ''.veritasignore'')"
    using conf unfolding plain_part_def rules_file confined_def by blast
  from wp_WriteAtomically [OF assms confined_dirs [OF conf] this]
  have "atomic_effect root (rules_path root) bytes f ?r ?g" by (simp add: wp_def rules_file rules_path_def split_beta)
  then have effect: "q = rules_path root \<or> strict_prefix root q \<and> (strict_prefix q (rules_path root) \<or> q = part_of f (rules_path root))"
    if "node_at ?g q \<noteq> node_at f q" for q
    using that unfolding atomic_effect_def by blast
  have between: "\<not> (strict_prefix root q \<and> strict_prefix q (rules_path root))" for q
    using prefix_length_less [of root q] prefix_length_less [of q "rules_path root"] by (auto simp: rules_path_def)
  have "q = rules_path root \<or> (\<exists>h. q = part_of h (rules_path root))" if "node_at ?g q \<noteq> nodes q" for q
    using that effect [of q] between [of q] f unfolding only_rules_def by (cases "node_at ?g q = node_at f q") auto
  moreover have "confined root nodes ?g"
    using keepsD [OF WriteAtomically_confined, of root w nodes f] conf assms by (simp add: writer_for_def)
  ultimately show "only_rules root nodes ?g" by (simp add: only_rules_def)
qed

lemma gated_Apply:
  fixes svc :: "'t Services"
  assumes "gate_root svc' task_root root"
  shows "keepsS (gated svc root nodes s0) (Policy_Apply svc' k task_root h rules source now)"
proof -
  let ?w = "\<lparr>wr_task_root = task_root, wr_canonical = svc_canonical svc'\<rparr>"
  have made: "keepsS (gated svc root nodes s0) (bindS (node_files (SafeFileWriter_new (svc_canonical svc') task_root)) k)"
    if "keepsS (gated svc root nodes s0) (k ?w)" for k :: "SafeFileWriter \<Rightarrow> ('t, IgnorePolicyState) bi_op"
  proof (rule keepsS_bind_when [where R = "\<lambda>v. v = ?w"])
    show "wp (node_files (SafeFileWriter_new (svc_canonical svc') task_root)) (\<lambda>r _. \<forall>x. r = Inr x \<longrightarrow> x = ?w) s" for s :: "'t BidirectionalSyncNode"
      by (auto simp: wp_def zoomS_def SafeFileWriter_new_def thenS_def bindS_def returnS_def split: prod.splits sum.splits)
    show "keepsS (gated svc root nodes s0) (node_files (SafeFileWriter_new (svc_canonical svc') task_root))"
      unfolding SafeFileWriter_new_def ResolveTaskPath_def Let_def by (intro gated_files keeps_steps only_rules.reads)
  qed (use that in auto)
  have replace: "keepsS (only_rules root nodes) (WriteAtomically ?w ''.veritasignore'' bytes)" for bytes
    using assms by (intro only_rules_write) (simp_all add: gate_root_def)
  show ?thesis
    unfolding Policy_Apply_def by (intro made gated_Synchronize gated_steps replace)
qed

lemma gated_ApplyCommitted:
  assumes "gate_root svc' (bc_task_root (bi_config s0)) root"
  shows "keepsS (gated svc root nodes s0) (ApplyCommittedPolicy svc' p)"
  unfolding ApplyCommittedPolicy_def Let_def
  by (intro gated_config keeps_steps gated_basic gated_rules_hash gated_Apply [OF assms] gated_Synchronize gated_modify)

lemma policy_frame_types: "is_policy_frame kPolicyHello" "is_policy_frame kPolicyCommit" "is_policy_frame kPolicyPropose"
  by (simp_all add: is_policy_frame_def)

lemma gated_message: "ty = kHello \<or> is_policy_frame ty \<Longrightarrow> keepsS (gated svc root nodes s0) (bi_message svc ty payload)"
  by (intro keeps_steps gated_Send)

lemma gated_Retry:
  assumes "gate_root svc (bc_task_root (bi_config s0)) root"
  shows "keepsS (gated svc root nodes s0) (RetryPolicy svc)"
  unfolding RetryPolicy_def
  by (intro keeps_steps gated_basic gated_ApplyCommitted [OF assms] gated_message gated_modify) (simp add: policy_frame_types)

lemma gated_Propose:
  "keepsS (gated svc root nodes s0) (ProposeIgnorePolicy svc expected rules source)"
  unfolding keepsS_def
proof (intro allI impI)
  fix s
  assume s: "gated svc root nodes s0 s"
  show "gated svc root nodes s0 (snd (ProposeIgnorePolicy svc expected rules source s))"
    using s gated_closed(1) [OF s]
    by (cases "Validate rules") (auto simp: ProposeIgnorePolicy_def thenS_def bindS_def liftS_def getS_def guardS_def)
qed

lemma gated_Pump:
  assumes "gate_root svc (bc_task_root (bi_config s0)) root"
  shows "keepsS (gated svc root nodes s0) (Bi_Pump svc)"
proof -
  have rest: "keepsS (gated svc root nodes s0) (bindS (getS (\<lambda>s. s)) (\<lambda>s. if PolicyPending s \<or> \<not> bi_policy_ready s then returnS () else m s))" for m
    using gated_closed(1) by (fastforce simp: keepsS_def bindS_def [of "getS _"] getS_def returnS_def)
  show ?thesis unfolding Bi_Pump_def by (intro keepsS_bind keepsS_get keepsS_then keepsS_if keepsS_return gated_Retry [OF assms] rest)
qed

lemma gated_Start: "keepsS (gated svc root nodes s0) (Bi_Start svc)"
  unfolding Bi_Start_def by (intro keeps_steps gated_basic gated_Synchronize gated_Refresh gated_message gated_modify) simp

text \<open>A call that is not a frame of the policy exchange.\<close>

definition policy_free :: "bi_call \<Rightarrow> bool" where
  "policy_free call \<longleftrightarrow> (case call of
     Bi_Call_Receive _ wire \<Rightarrow> (case DecodeFrameView wire of Inr frame \<Rightarrow> \<not> is_policy_frame (frame_type frame) | Inl _ \<Rightarrow> True)
   | _ \<Rightarrow> True)"

lemma gated_Receive:
  fixes svc :: "'t Services"
  assumes "policy_free (Bi_Call_Receive channel wire)"
  shows "keepsS (gated svc root nodes s0) (Bi_Receive svc channel wire)"
proof -
  have hello: "keepsS (gated svc root nodes s0) (bi_accept_hello svc hello)" for hello
    unfolding bi_accept_hello_def SendPolicyHello_def Let_def
    by (intro keeps_steps gated_basic gated_rules_hash gated_message gated_modify) (simp_all add: policy_frame_types)
  have "keepsS (gated svc root nodes s0) (bi_receive_wire svc channel wire)"
  proof (cases "DecodeFrameView wire")
    case (Inl e)
    then show ?thesis by (simp add: keepsS_def bi_receive_wire_def bindS_def liftS_def)
  next
    case (Inr frame)
    then have "\<not> is_policy_frame (frame_type frame)" using assms by (simp add: policy_free_def)
    then have other: "keepsS (gated svc root nodes s0) (bindS (getS (\<lambda>s. s)) (\<lambda>s.
        thenS (guardS (\<not> bi_started s \<or> \<not> bi_received_hello s) (Invalid_argument ''unauthorized_peer''))
        (if is_policy_frame (frame_type frame)
         then bindS (liftS (\<lambda>_. DecodeIgnorePolicy (frame_payload frame))) (HandlePolicy svc (frame_type frame))
         else if \<not> bi_policy_ready s \<or> PolicyPending s then returnS ()
         else bi_dispatch svc frame)))"
      using gated_closed(1) by (fastforce simp: keepsS_def bindS_def [of "getS _"] getS_def thenS_def bindS_def [of "guardS _ _"] guardS_def returnS_def)
    have run: "bindS (liftS (\<lambda>_. Inr frame)) k = k frame" for k :: "Frame \<Rightarrow> ('t, unit) bi_op"
      by (simp add: fun_eq_iff bindS_def liftS_def)
    show ?thesis
      unfolding bi_receive_wire_def Inr run by (intro keepsS_then keepsS_guard keepsS_if keepsS_bind keepsS_lift hello other)
  qed
  then show ?thesis unfolding Bi_Receive_def by (intro keepsS_catch gated_modify)
qed

lemma gated_run:
  assumes "gate_root svc (bc_task_root (bi_config s0)) root" "policy_free call"
  shows "keepsS (gated svc root nodes s0) (bi_run svc call)"
  using assms by (cases call) (simp_all add: gated_Start gated_Refresh gated_Pump gated_Propose gated_Receive)

lemma gated_calls:
  assumes "gate_root svc (bc_task_root (bi_config s0)) root" "\<forall>call \<in> set calls. policy_free call" "gated svc root nodes s0 s"
  shows "gated svc root nodes s0 (bi_calls svc calls s)"
  using assms(2,3)
proof (induction calls arbitrary: s)
  case (Cons call calls)
  then show ?case using keepsD [OF gated_run [OF assms(1)], of call nodes s] by (simp add: bi_calls_def)
qed (simp add: bi_calls_def)

section \<open>The gate\<close>

text \<open>
  C17: no file moves while the policy gate of a node is closed.  Take a node that does not know that its peer's rules are its
  own, or has a proposal in its database that is not applied, over a real task directory with no links below it; and any
  sequence of calls, with any system calls failing: starting, rescanning, pumping, proposing a policy, and receiving any bytes
  but frames of the policy exchange.  Afterwards the gate is still closed and the node does not report that it has converged.  No
  upload or download has begun, advanced or ended, everything sent was a greeting or a policy frame, and of the files only the
  rules file and its temporary files can have changed.
\<close>

theorem policy_gate:
  assumes "\<not> bi_policy_ready s \<or> PolicyPending s" "\<forall>call \<in> set calls. policy_free call"
    and "svc_canonical svc (bc_task_root (bi_config s)) = Some root" "canonical_root root" "real_dirs (node_at (sn_files s)) root"
    and "\<forall>q x. strict_prefix root q \<longrightarrow> node_at (sn_files s) q \<noteq> Some (Symlink x)"
    and "t = bi_calls svc calls s"
  shows "(\<not> bi_policy_ready t \<or> PolicyPending t) \<and> \<not> IsConverged t \<and> bi_uploads t = bi_uploads s \<and> bi_downloads t = bi_downloads s \<and>
    talks svc (bi_transport s) (bi_transport t) \<and>
    (\<forall>q. node_at (sn_files t) q \<noteq> node_at (sn_files s) q \<longrightarrow> q = rules_path root \<or> (\<exists>f. q = part_of f (rules_path root)))"
proof -
  have "confined root (node_at (sn_files s)) (sn_files s)" using assms(5,6) by (simp add: confined_def)
  then have "gated svc root (node_at (sn_files s)) s s" using assms(1) by (auto simp: gated_def only_rules_def talks.silent)
  moreover have "gate_root svc (bc_task_root (bi_config s)) root" using assms(3,4) by (simp add: gate_root_def)
  ultimately have t: "gated svc root (node_at (sn_files s)) s t" unfolding assms(7) using gated_calls assms(2) by blast
  then show ?thesis using gated_closed(1) [OF t] by (auto simp: gated_def only_rules_def IsConverged_def)
qed

theorem policy_gate_witness:
  "\<exists>wire. EncodeFrame \<lparr>frame_type = kCancel, frame_request_id = 1, frame_payload = []\<rparr> = Inr wire \<and>
     (let t = bi_calls demo_services [Bi_Call_Pump, Bi_Call_Receive kControl wire, Bi_Call_Refresh] demo_session in
      \<not> IsConverged t \<and> bi_downloads t = [] \<and> talks demo_services () (bi_transport t) \<and> node_at (sn_files t) (demo_root @ [''a'']) = Some (Regular [1, 2]))"
proof -
  obtain wire where wire: "EncodeFrame \<lparr>frame_type = kCancel, frame_request_id = 1, frame_payload = []\<rparr> = Inr wire"
    by (simp add: EncodeFrame_def kMaxFrameSize_def kFrameHeaderSize_def ValidType_def take_writer.simps w_U8_def w_U64_def w_U32_def w_Bytes_def)
  let ?calls = "[Bi_Call_Pump, Bi_Call_Receive kControl wire, Bi_Call_Refresh]"
  have "\<forall>call \<in> set ?calls. policy_free call"
    using wire by (simp add: policy_free_def DecodeFrameView_complete is_policy_frame_def)
  moreover have "\<forall>q x. strict_prefix demo_root q \<longrightarrow> node_at (sn_files demo_session) q \<noteq> Some (Symlink x)"
    by (simp add: demo_session_def demo_bi_def demo_fs_def node_at_def)
  moreover have "svc_canonical demo_services (bc_task_root (bi_config demo_session)) = Some demo_root"
    by (simp add: demo_session_def demo_bi_def demo_bidirectional_def demo_services_def demo_writer_def)
  ultimately have "\<not> IsConverged (bi_calls demo_services ?calls demo_session)"
      "bi_downloads (bi_calls demo_services ?calls demo_session) = []" "talks demo_services () (bi_transport (bi_calls demo_services ?calls demo_session))"
      "\<forall>q. node_at (sn_files (bi_calls demo_services ?calls demo_session)) q \<noteq> node_at demo_fs q \<longrightarrow>
         q = rules_path demo_root \<or> (\<exists>f. q = part_of f (rules_path demo_root))"
    using policy_gate [of demo_session ?calls demo_services demo_root] demo_facts(2,4) by (simp_all add: demo_session_def demo_bi_def)
  moreover have "demo_root @ [''a''] \<noteq> rules_path demo_root" "demo_root @ [''a''] \<noteq> part_of f (rules_path demo_root)" for f
    by (simp_all add: rules_path_def)
  moreover have "node_at demo_fs (demo_root @ [''a'']) = Some (Regular [1, 2])" by (simp add: demo_fs_def demo_root_def node_at_def)
  ultimately show ?thesis using wire unfolding Let_def by metis
qed

end
