(* ===== verification/Task_Runtime.thy ===== *)
theory Task_Runtime
  imports Bidirectional_Sync "HOL-Library.AList"
begin

text \<open>
  The manager that keeps the records of every task up to date (\<^verbatim>\<open>engine/runtime/task_runtime_manager.cpp\<close>).  It has one
  entry per task: whether it is enabled, whether something changed since the last scan, whether a scan is running, and
  when the next one is due.  Every section that the code runs under one of its two mutexes is a definition of its own, so
  that the calls of several threads can be interleaved between sections; the sequential definitions compose them as the
  code does.  A call that waits until a scan has ended is \<open>waits_for\<close> that scan.  Times are milliseconds of the steady
  clock.  The directory watcher is a parameter: \<open>watch n\<close> is the error text that start number \<open>n\<close> ends with, if any.  The
  entries of the unordered map are kept in the order in which they were added.
\<close>

section \<open>State\<close>

record TaskRuntimeOptions =
  to_debounce :: int
  to_error_retry :: int
  to_periodic_verification :: int

record RuntimeEntry =
  en_task :: TaskDefinition
  en_enabled :: bool
  en_dirty :: bool
  en_scanning :: bool
  en_generation :: u64
  en_dirty_deadline :: int
  en_periodic_deadline :: int
  en_watching :: bool

text \<open>\<open>mg_completed\<close> lists the calls of the callback that reports completed scans.\<close>

record TaskRuntimeManager = Device +
  mg_device_id :: string
  mg_options :: TaskRuntimeOptions
  mg_started :: bool
  mg_stopping :: bool
  mg_worker :: bool
  mg_entries :: "(string \<times> RuntimeEntry) list"
  mg_callback :: bool
  mg_completed :: "string list"

type_synonym 'a mg_op = "(TaskRuntimeManager, 'a) op"

definition default_options :: TaskRuntimeOptions where
  "default_options = \<lparr>to_debounce = 350, to_error_retry = 5000, to_periodic_verification = 6 * 60 * 60 * 1000\<rparr>"

definition find_entry :: "string \<Rightarrow> TaskRuntimeManager \<Rightarrow> RuntimeEntry option" where
  "find_entry task_id s = map_of (mg_entries s) task_id"

definition put_entry :: "string \<Rightarrow> RuntimeEntry \<Rightarrow> TaskRuntimeManager \<Rightarrow> TaskRuntimeManager" where
  "put_entry task_id entry s = s\<lparr>mg_entries := AList.update task_id entry (mg_entries s)\<rparr>"

definition steady_now :: "'t Services \<Rightarrow> int mg_op" where
  "steady_now svc = outside_call (svc_steady svc)"

section \<open>Tasks come and go\<close>

definition TaskRuntimeManager_new :: "Database \<Rightarrow> FileSystem \<Rightarrow> string \<Rightarrow> TaskRuntimeOptions \<Rightarrow> TaskRuntimeManager result" where
  "TaskRuntimeManager_new database files device_id options =
     (if device_id = [] \<or> to_debounce options < 0 \<or> to_error_retry options \<le> 0 \<or> to_periodic_verification options \<le> 0
      then Inl (Invalid_argument ''task runtime configuration is invalid'')
      else Inr \<lparr>sn_database = database, sn_files = files, sn_calls = 0, mg_device_id = device_id, mg_options = options,
        mg_started = False, mg_stopping = False, mg_worker = False, mg_entries = [], mg_callback = False, mg_completed = []\<rparr>)"

definition start_watcher :: "(nat \<Rightarrow> string option) \<Rightarrow> string \<Rightarrow> int option \<Rightarrow> RuntimeEntry \<Rightarrow> RuntimeEntry mg_op" where
  "start_watcher watch task_id last_scan entry =
     thenS (guardS (td_root_path (en_task entry) = []) (Invalid_argument ''watcher root and callback are required''))
    (bindS (outside_call watch) (\<lambda>failure.
     case failure of
       None \<Rightarrow> returnS (entry\<lparr>en_watching := True\<rparr>)
     | Some error \<Rightarrow>
        thenS (node_db (UpdateTaskRuntime task_id ''error'' True last_scan (Some error)))
          (returnS (entry\<lparr>en_dirty := True\<rparr>))))"

definition LoadTask :: "'t Services \<Rightarrow> (nat \<Rightarrow> string option) \<Rightarrow> string \<Rightarrow> unit mg_op" where
  "LoadTask svc watch task_id =
     bindS (node_tables (FindTask task_id)) (\<lambda>found.
     case found of
       None \<Rightarrow> throwS (Invalid_argument ''task does not exist'')
     | Some task \<Rightarrow>
        bindS (node_tables (RuntimeState task_id)) (\<lambda>state.
        bindS (steady_now svc) (\<lambda>now.
        bindS (getS mg_options) (\<lambda>options.
        let scans = rt_enabled state \<and> CanScanLocalChanges task;
            entry = \<lparr>en_task = task, en_enabled = rt_enabled state, en_dirty = scans, en_scanning = False, en_generation = 1,
              en_dirty_deadline = now + to_debounce options, en_periodic_deadline = now + to_periodic_verification options,
              en_watching = False\<rparr> in
        bindS (if scans then start_watcher watch task_id (rt_last_scan_at_ms state) entry else returnS entry) (\<lambda>entry'.
        modifyS (put_entry task_id entry'))))))"

definition TaskCreated :: "'t Services \<Rightarrow> (nat \<Rightarrow> string option) \<Rightarrow> string \<Rightarrow> unit mg_op" where
  "TaskCreated = LoadTask"

definition Runtime_Stop :: "unit mg_op" where
  "Runtime_Stop =
     bindS (getS mg_started) (\<lambda>started.
     if \<not> started then returnS ()
     else modifyS (\<lambda>s. s\<lparr>mg_stopping := True, mg_worker := False, mg_entries := [], mg_started := False\<rparr>))"

definition Runtime_Start :: "'t Services \<Rightarrow> (nat \<Rightarrow> string option) \<Rightarrow> unit mg_op" where
  "Runtime_Start svc watch =
     bindS (getS mg_started) (\<lambda>started.
     if started then returnS ()
     else
      thenS (modifyS (\<lambda>s. s\<lparr>mg_stopping := False, mg_started := True\<rparr>))
     (bindS (getS (\<lambda>s. map td_task_id (ListTasks (db_tables (sn_database s))))) (\<lambda>task_ids.
      catchS (thenS (forS (LoadTask svc watch) task_ids) (modifyS (\<lambda>s. s\<lparr>mg_worker := True\<rparr>)))
        (\<lambda>e. thenS Runtime_Stop (throwS e)))))"

text \<open>Both calls below first wait until no scan of the task is running.\<close>

definition waits_for :: "string \<Rightarrow> TaskRuntimeManager \<Rightarrow> bool" where
  "waits_for task_id s \<longleftrightarrow> (case find_entry task_id s of None \<Rightarrow> False | Some entry \<Rightarrow> en_scanning entry)"

definition Runtime_TaskDeleting :: "string \<Rightarrow> unit mg_op" where
  "Runtime_TaskDeleting task_id = modifyS (\<lambda>s. s\<lparr>mg_entries := AList.delete task_id (mg_entries s)\<rparr>)"

definition runtime_event :: "'t Services \<Rightarrow> string \<Rightarrow> string \<Rightarrow> string \<Rightarrow> unit mg_op" where
  "runtime_event svc task_id level message =
     bindS (NowMilliseconds svc) (\<lambda>now.
     node_db (RecordEngineEvent \<lparr>ev_event_id = 0, ev_task_id = Some task_id, ev_level = level, ev_message = message, ev_created_at_ms = now\<rparr>))"

definition Runtime_PauseTask :: "'t Services \<Rightarrow> string \<Rightarrow> unit mg_op" where
  "Runtime_PauseTask svc task_id =
     bindS (getS (find_entry task_id)) (\<lambda>found.
     case found of
       None \<Rightarrow> throwS (Invalid_argument ''task runtime does not exist'')
     | Some entry \<Rightarrow>
        thenS (modifyS (put_entry task_id (entry\<lparr>en_enabled := False, en_dirty := False, en_watching := False\<rparr>)))
       (thenS (node_db (SetTaskEnabled task_id False))
         (runtime_event svc task_id ''info'' (''Paused task '' @ task_id))))"

definition Runtime_ResumeTask :: "'t Services \<Rightarrow> (nat \<Rightarrow> string option) \<Rightarrow> string \<Rightarrow> unit mg_op" where
  "Runtime_ResumeTask svc watch task_id =
     thenS (node_db (SetTaskEnabled task_id True))
    (thenS (runtime_event svc task_id ''info'' (''Resumed task '' @ task_id))
      (LoadTask svc watch task_id))"

definition MarkDirty :: "'t Services \<Rightarrow> string \<Rightarrow> unit mg_op" where
  "MarkDirty svc task_id =
     bindS (getS (find_entry task_id)) (\<lambda>found.
     case found of
       None \<Rightarrow> returnS ()
     | Some entry \<Rightarrow>
        if \<not> en_enabled entry then returnS ()
        else bindS (steady_now svc) (\<lambda>now.
          modifyS (\<lambda>s. put_entry task_id (entry\<lparr>en_dirty := True, en_generation := en_generation entry + 1,
            en_dirty_deadline := now + to_debounce (mg_options s)\<rparr>) s)))"

definition SetScanCompletedCallback :: "bool \<Rightarrow> unit mg_op" where
  "SetScanCompletedCallback present = modifyS (\<lambda>s. s\<lparr>mg_callback := present\<rparr>)"

section \<open>Scans\<close>

text \<open>The section of \<^verbatim>\<open>ScanNow\<close> that claims the task.\<close>

definition claim_scan :: "string \<Rightarrow> u64 mg_op" where
  "claim_scan task_id =
     bindS (getS (find_entry task_id)) (\<lambda>found.
     case found of
       None \<Rightarrow> throwS (Invalid_argument ''task runtime does not exist'')
     | Some entry \<Rightarrow>
        thenS (guardS (\<not> en_enabled entry) (Invalid_argument ''task is paused''))
       (thenS (guardS (\<not> CanScanLocalChanges (en_task entry)) (Invalid_argument ''target task cannot scan local changes''))
       (thenS (guardS (en_scanning entry) (Runtime_error ''task scan is already running''))
       (thenS (modifyS (put_entry task_id (entry\<lparr>en_scanning := True\<rparr>)))
         (returnS (en_generation entry))))))"

record Walk =
  wk_task :: TaskDefinition
  wk_baseline :: "FileRecord list"
  wk_policy_hash :: string
  wk_snapshot :: "SnapshotEntry list"
  wk_current :: int

abbreviation bidirectional :: "TaskDefinition \<Rightarrow> bool" where
  "bidirectional task \<equiv> td_mode task = ''bidirectional''"

definition disk_policy_hash :: "'t Services \<Rightarrow> TaskDefinition \<Rightarrow> string mg_op" where
  "disk_policy_hash svc task =
     bindS (node_files (ReadRules (svc_native svc (td_root_path task)))) (\<lambda>rules. returnS (HashRules (svc_blake3 svc) rules))"

definition scan_walk :: "'t Services \<Rightarrow> string \<Rightarrow> Walk mg_op" where
  "scan_walk svc task_id =
     bindS (getS (find_entry task_id)) (\<lambda>found.
     case found of
       None \<Rightarrow> throwS (Logic_error ''invalid unordered_map<K, T> key'')
     | Some entry \<Rightarrow>
        let task = en_task entry in
        bindS (if bidirectional task then node_tables (ListFileRecords task_id) else returnS []) (\<lambda>baseline.
        bindS (if bidirectional task then disk_policy_hash svc task else returnS []) (\<lambda>scanned_policy_hash.
        bindS (scan_task svc (td_root_path task)) (\<lambda>scanned.
        bindS (NowMilliseconds svc) (\<lambda>current.
        returnS \<lparr>wk_task = task, wk_baseline = baseline, wk_policy_hash = scanned_policy_hash,
          wk_snapshot = (if bidirectional task then filter (\<lambda>e. \<not> IsConflictPath (se_relative_path e)) scanned else scanned),
          wk_current = current\<rparr>)))))"

text \<open>Whether the snapshot is stale: a policy is being negotiated, the rules or the records changed during the walk.\<close>

definition scan_stale :: "'t Services \<Rightarrow> string \<Rightarrow> Walk \<Rightarrow> bool mg_op" where
  "scan_stale svc task_id seen =
     (if \<not> bidirectional (wk_task seen) then returnS False
      else
       bindS (getS (\<lambda>s. FindPendingIgnorePolicy task_id (db_tables (sn_database s)))) (\<lambda>pending.
       bindS (node_tables (CurrentIgnorePolicyRevision task_id)) (\<lambda>policy.
       bindS (disk_policy_hash svc (wk_task seen)) (\<lambda>disk_hash.
       let stale = (case pending of None \<Rightarrow> False | Some p \<Rightarrow> pp_state p \<noteq> ''applied'') \<or> wk_policy_hash seen \<noteq> disk_hash in
       thenS (guardS (\<not> stale \<and> (case policy of None \<Rightarrow> False | Some p \<Rightarrow> ip_content_hash p \<noteq> disk_hash))
         (Runtime_error ''bidirectional ignore policy changed outside negotiated editor''))
      (bindS (node_tables (ListFileRecords task_id)) (\<lambda>latest.
       returnS (stale \<or> map fr_version_id (wk_baseline seen) \<noteq> map fr_version_id latest)))))))"

definition scan_store :: "'t Services \<Rightarrow> string \<Rightarrow> Walk \<Rightarrow> (bool \<times> ReconcileResult) mg_op" where
  "scan_store svc task_id seen =
     bindS (scan_stale svc task_id seen) (\<lambda>policy_pending.
     if policy_pending then returnS (True, \<lparr>rr_created_or_changed = 0, rr_tombstoned = 0\<rparr>)
     else bindS (getS mg_device_id) (\<lambda>device_id.
       bindS (run_reconciler svc (wk_snapshot seen)
         \<lparr>rc_task_id = task_id, rc_origin_device_id = device_id, rc_logical_clock = 0, rc_now_ms = wk_current seen\<rparr>) (\<lambda>result.
       returnS (False, result))))"

definition scan_finish :: "'t Services \<Rightarrow> string \<Rightarrow> u64 \<Rightarrow> bool \<Rightarrow> bool mg_op" where
  "scan_finish svc task_id generation policy_pending =
     bindS (getS (find_entry task_id)) (\<lambda>found.
     case found of
       None \<Rightarrow> throwS (Runtime_error ''task was removed during scan'')
     | Some entry \<Rightarrow>
        bindS (getS mg_options) (\<lambda>options.
        let remains_dirty = policy_pending \<or> en_generation entry \<noteq> generation in
        bindS (steady_now svc) (\<lambda>now.
        bindS (if remains_dirty then steady_now svc else returnS 0) (\<lambda>again.
        thenS (modifyS (put_entry task_id (entry\<lparr>en_dirty := remains_dirty, en_scanning := False,
            en_periodic_deadline := now + to_periodic_verification options,
            en_dirty_deadline := (if remains_dirty then again + to_debounce options else en_dirty_deadline entry)\<rparr>)))
          (returnS remains_dirty)))))"

definition scan_record :: "string \<Rightarrow> bool \<Rightarrow> Walk \<Rightarrow> unit mg_op" where
  "scan_record task_id remains_dirty seen =
     thenS (node_db (UpdateTaskRuntime task_id ''watching'' remains_dirty (Some (wk_current seen)) None))
       (node_db (RecordEngineEvent \<lparr>ev_event_id = 0, ev_task_id = Some task_id, ev_level = ''info'',
          ev_message = ''Automatically scanned '' @ to_string (length (wk_snapshot seen)) @ '' entries'', ev_created_at_ms = wk_current seen\<rparr>))"

definition scan_notify :: "string \<Rightarrow> unit mg_op" where
  "scan_notify task_id =
     modifyS (\<lambda>s. if mg_callback s then s\<lparr>mg_completed := mg_completed s @ [task_id]\<rparr> else s)"

definition PerformScan :: "'t Services \<Rightarrow> string \<Rightarrow> u64 \<Rightarrow> ReconcileResult mg_op" where
  "PerformScan svc task_id generation =
     bindS (scan_walk svc task_id) (\<lambda>seen.
     bindS (scan_store svc task_id seen) (\<lambda>(policy_pending, result).
     bindS (scan_finish svc task_id generation policy_pending) (\<lambda>remains_dirty.
     thenS (scan_record task_id remains_dirty seen)
    (thenS (scan_notify task_id) (returnS result)))))"

definition release_failed :: "'t Services \<Rightarrow> string \<Rightarrow> unit mg_op" where
  "release_failed svc task_id =
     bindS (getS (find_entry task_id)) (\<lambda>found.
     case found of
       None \<Rightarrow> returnS ()
     | Some entry \<Rightarrow> bindS (steady_now svc) (\<lambda>now.
         modifyS (\<lambda>s. put_entry task_id (entry\<lparr>en_scanning := False, en_dirty := True,
           en_dirty_deadline := now + to_error_retry (mg_options s)\<rparr>) s)))"

definition note_failure :: "'t Services \<Rightarrow> string \<Rightarrow> string \<Rightarrow> unit mg_op" where
  "note_failure svc task_id error =
     bindS (getS (\<lambda>s. case RuntimeState task_id (db_tables (sn_database s)) of Inl _ \<Rightarrow> None | Inr state \<Rightarrow> rt_last_scan_at_ms state)) (\<lambda>last_scan.
     thenS (node_db (UpdateTaskRuntime task_id ''error'' True last_scan (Some error)))
       (runtime_event svc task_id ''error'' (''Automatic scan failed: '' @ error)))"

definition RecordFailure :: "'t Services \<Rightarrow> string \<Rightarrow> string \<Rightarrow> unit mg_op" where
  "RecordFailure svc task_id error = thenS (release_failed svc task_id) (note_failure svc task_id error)"

definition ScanNow :: "'t Services \<Rightarrow> string \<Rightarrow> ReconcileResult mg_op" where
  "ScanNow svc task_id =
     bindS (claim_scan task_id) (\<lambda>generation.
     catchS (PerformScan svc task_id generation) (\<lambda>e. thenS (RecordFailure svc task_id (what e)) (throwS e)))"

section \<open>The worker\<close>

definition due_at :: "RuntimeEntry \<Rightarrow> int" where
  "due_at entry = (if en_dirty entry then en_dirty_deadline entry else en_periodic_deadline entry)"

definition may_scan :: "RuntimeEntry \<Rightarrow> bool" where
  "may_scan entry \<longleftrightarrow> en_enabled entry \<and> \<not> en_scanning entry \<and> CanScanLocalChanges (en_task entry)"

text \<open>One pass over the entries: the entries after it, the scans that are due, and when to wake up otherwise.\<close>

fun select_due :: "int \<Rightarrow> (string \<times> RuntimeEntry) list \<Rightarrow> int \<Rightarrow> (string \<times> RuntimeEntry) list \<times> (string \<times> u64) list \<times> int" where
  "select_due now [] next_wake = ([], [], next_wake)"
| "select_due now ((task_id, entry) # entries) next_wake =
     (if \<not> may_scan entry
      then let (rest, scans, wake) = select_due now entries next_wake in ((task_id, entry) # rest, scans, wake)
      else if due_at entry \<le> now
      then let (rest, scans, wake) = select_due now entries next_wake in
        ((task_id, entry\<lparr>en_scanning := True\<rparr>) # rest, (task_id, en_generation entry) # scans, wake)
      else let (rest, scans, wake) = select_due now entries (if due_at entry < next_wake then due_at entry else next_wake) in
        ((task_id, entry) # rest, scans, wake))"

definition claim_due :: "'t Services \<Rightarrow> ((string \<times> u64) list \<times> int) mg_op" where
  "claim_due svc =
     bindS (steady_now svc) (\<lambda>now.
     bindS (getS (\<lambda>s. select_due now (mg_entries s) (now + 30 * 1000))) (\<lambda>(entries, scans, wake).
     thenS (modifyS (\<lambda>s. s\<lparr>mg_entries := entries\<rparr>)) (returnS (scans, wake))))"

text \<open>
  One round of the loop.  An exception that leaves it leaves the thread function, which ends the process.
\<close>

definition worker_scan :: "'t Services \<Rightarrow> string \<times> u64 \<Rightarrow> unit mg_op" where
  "worker_scan svc = (\<lambda>(task_id, generation).
     catchS (thenS (PerformScan svc task_id generation) (returnS ())) (\<lambda>e. RecordFailure svc task_id (what e)))"

definition worker_round :: "'t Services \<Rightarrow> unit mg_op" where
  "worker_round svc =
     bindS (getS mg_stopping) (\<lambda>stopping.
     if stopping then returnS ()
     else bindS (claim_due svc) (\<lambda>(scans, wake). forS (worker_scan svc) scans))"

end
