(* ===== verification/Runtime_Properties.thy ===== *)
theory Runtime_Properties
  imports Task_Runtime Multi_Target_Properties Reconcile_Properties
begin

text \<open>
  What the task runtime guarantees: a change that is noticed while a scan runs is scanned again, whatever the other
  threads do meanwhile; a scan always releases its task; the worker starts exactly the scans that are due; and a snapshot
  that was overtaken by other changes is discarded.
\<close>

section \<open>Entries\<close>

lemma find_put [simp]: "find_entry j (put_entry i e s) = (if j = i then Some e else find_entry j s)"
  by (simp add: find_entry_def put_entry_def update_conv')

lemma find_fields [simp]:
  "find_entry j (s\<lparr>sn_database := v1\<rparr>) = find_entry j s" "find_entry j (s\<lparr>sn_files := v2\<rparr>) = find_entry j s"
  "find_entry j (s\<lparr>sn_calls := v3\<rparr>) = find_entry j s" "find_entry j (s\<lparr>mg_callback := v4\<rparr>) = find_entry j s"
  "find_entry j (s\<lparr>mg_completed := v5\<rparr>) = find_entry j s"
  by (simp_all add: find_entry_def)

text \<open>The keys of the map are distinct, and the entry of task \<open>i\<close> satisfies \<open>Q\<close>.\<close>

definition entry_is :: "string \<Rightarrow> (RuntimeEntry option \<Rightarrow> bool) \<Rightarrow> TaskRuntimeManager \<Rightarrow> bool" where
  "entry_is i Q s \<longleftrightarrow> distinct (map fst (mg_entries s)) \<and> Q (find_entry i s)"

lemma entry_fields [simp]:
  "entry_is i Q (s\<lparr>sn_database := v1\<rparr>) = entry_is i Q s" "entry_is i Q (s\<lparr>sn_files := v2\<rparr>) = entry_is i Q s"
  "entry_is i Q (s\<lparr>sn_calls := v3\<rparr>) = entry_is i Q s" "entry_is i Q (s\<lparr>mg_callback := v4\<rparr>) = entry_is i Q s"
  "entry_is i Q (s\<lparr>mg_completed := v5\<rparr>) = entry_is i Q s"
  by (simp_all add: entry_is_def)

lemma distinct_put: "distinct (map fst (mg_entries s)) \<Longrightarrow> distinct (map fst (mg_entries (put_entry j e s)))"
  by (simp add: put_entry_def distinct_update)

lemma entry_put: "entry_is k R s \<Longrightarrow> Q (if i = j then Some e else find_entry i s) \<Longrightarrow> entry_is i Q (put_entry j e s)"
  by (auto simp: entry_is_def distinct_put)

lemma entry_put_other: "j \<noteq> i \<Longrightarrow> entry_is i Q s \<Longrightarrow> entry_is i Q (put_entry j e s)"
  by (rule entry_put [of i Q]) (auto simp: entry_is_def)

abbreviation keeps_entry :: "string \<Rightarrow> (RuntimeEntry option \<Rightarrow> bool) \<Rightarrow> 'a mg_op \<Rightarrow> bool" where
  "keeps_entry i Q m \<equiv> keepsS (entry_is i Q) m"

lemma entry_basic:
  "keeps_entry i Q (node_db x1)" "keeps_entry i Q (node_files x2)" "keeps_entry i Q (outside_call x3)"
  "keeps_entry i Q (NowMilliseconds svc)" "keeps_entry i Q (steady_now svc)" "keeps_entry i Q (runtime_event svc k level message)"
  "keeps_entry i Q (run_reconciler svc snapshot config)"
proof -
  show call: "keeps_entry i Q (outside_call x3)" for x3 :: "nat \<Rightarrow> 'x" by (simp add: keepsS_def outside_call_def)
  show db: "keeps_entry i Q (node_db x1)" for x1 :: "(Database, 'x) op" by (rule keepsS_zoom) simp
  show "keeps_entry i Q (node_files x2)" by (rule keepsS_zoom) simp
  show "keeps_entry i Q (NowMilliseconds svc)" "keeps_entry i Q (steady_now svc)"
    by (simp_all add: NowMilliseconds_def steady_now_def call)
  show "keeps_entry i Q (runtime_event svc k level message)"
    unfolding runtime_event_def NowMilliseconds_def by (intro keeps_steps call db)
  show "keeps_entry i Q (run_reconciler svc snapshot config)" unfolding run_reconciler_def by (rule keepsS_zoom) simp
qed

lemmas entry_steps = keeps_steps keepsS_pair entry_basic

lemma entry_scan_task: "keeps_entry i Q (scan_task svc task_root)"
  unfolding scan_task_def by (intro entry_steps keepsS_zoom) simp

lemma entry_reading:
  "keeps_entry i Q (scan_walk svc j)" "keeps_entry i Q (scan_store svc j seen)" "keeps_entry i Q (scan_record j b seen)"
  "keeps_entry i Q (scan_notify j)"
proof -
  have hash: "keeps_entry i Q (disk_policy_hash svc task)" for svc :: "'x Services" and task
    unfolding disk_policy_hash_def by (intro entry_steps)
  show "keeps_entry i Q (scan_walk svc j)"
    unfolding scan_walk_def Let_def by (intro entry_steps hash entry_scan_task)
  show "keeps_entry i Q (scan_store svc j seen)"
    unfolding scan_store_def scan_stale_def Let_def by (intro entry_steps hash)
  show "keeps_entry i Q (scan_record j b seen)" unfolding scan_record_def by (intro entry_steps)
  show "keeps_entry i Q (scan_notify j)" unfolding scan_notify_def by (rule keepsS_modify) simp
qed

section \<open>Calls on other tasks\<close>

lemma entry_modify_other:
  "j \<noteq> i \<Longrightarrow> keeps_entry i Q (modifyS (put_entry j e))" "j \<noteq> i \<Longrightarrow> keeps_entry i Q (modifyS (\<lambda>s. put_entry j (f s) s))"
  by (auto intro!: keepsS_modify entry_put_other)

lemma other_scan:
  assumes "j \<noteq> i"
  shows "keeps_entry i Q (PerformScan svc j g)" "keeps_entry i Q (RecordFailure svc j message)"
proof -
  have "keeps_entry i Q (scan_finish svc j g p)" for p
    unfolding scan_finish_def Let_def by (intro entry_steps entry_modify_other assms)
  then show "keeps_entry i Q (PerformScan svc j g)"
    unfolding PerformScan_def by (intro entry_steps entry_reading)
  show "keeps_entry i Q (RecordFailure svc j message)"
    unfolding RecordFailure_def release_failed_def note_failure_def by (intro entry_steps entry_modify_other assms)
qed

lemma other_LoadTask:
  assumes "j \<noteq> i"
  shows "keeps_entry i Q (LoadTask svc watch j)"
  unfolding LoadTask_def start_watcher_def Let_def by (intro entry_steps entry_modify_other assms)

section \<open>The scans that are due\<close>

definition due_now :: "int \<Rightarrow> RuntimeEntry \<Rightarrow> bool" where
  "due_now now e \<longleftrightarrow> may_scan e \<and> due_at e \<le> now"

definition mark_scanning :: "int \<Rightarrow> RuntimeEntry \<Rightarrow> RuntimeEntry" where
  "mark_scanning now e = (if due_now now e then e\<lparr>en_scanning := True\<rparr> else e)"

lemma select_due_exact:
  "select_due now entries next_wake =
     (map (\<lambda>(i, e). (i, mark_scanning now e)) entries,
      map (\<lambda>(i, e). (i, en_generation e)) (filter (\<lambda>(i, e). due_now now e) entries),
      fold (\<lambda>(i, e) wake. if may_scan e \<and> now < due_at e then min (due_at e) wake else wake) entries next_wake)"
  by (induction now entries next_wake rule: select_due.induct)
    (auto simp: mark_scanning_def due_now_def min_def split: prod.splits)

lemma map_of_marked: "map_of (map (\<lambda>(i, e). (i, f e)) entries) i = map_option f (map_of entries i)"
  by (induction entries) auto

lemma keepsS_claim_due:
  assumes "\<And>scans wake. i \<notin> fst ` set scans \<Longrightarrow> keeps_entry i Q (k (scans, wake))"
    and "\<And>e. Q e \<Longrightarrow> \<exists>x. e = Some x \<and> en_scanning x"
  shows "keeps_entry i Q (bindS (claim_due svc) k)"
proof (rule keepsS_bind_when [where R = "\<lambda>(scans, wake). i \<notin> fst ` set scans"])
  have kept: "entry_is i Q (s\<lparr>mg_entries := fst (select_due now (mg_entries s) w)\<rparr>)" if "entry_is i Q s" for s now w
  proof -
    have "map_option (mark_scanning now) (find_entry i s) = find_entry i s"
      using that assms(2) [of "find_entry i s"] by (auto simp: entry_is_def mark_scanning_def due_now_def may_scan_def)
    then show ?thesis
      using that by (simp add: entry_is_def find_entry_def select_due_exact map_of_marked) (simp add: comp_def case_prod_beta)
  qed
  show "keeps_entry i Q (claim_due svc)"
    unfolding claim_due_def
  proof (rule keepsS_bind [OF entry_basic(5)])
    fix now
    show "keeps_entry i Q (bindS (getS (\<lambda>s. select_due now (mg_entries s) (now + 30 * 1000))) (\<lambda>(entries, scans, wake).
        thenS (modifyS (\<lambda>s. s\<lparr>mg_entries := entries\<rparr>)) (returnS (scans, wake))))"
      using kept [of _ now "now + 30 * 1000"] by (simp add: keepsS_def bindS_def thenS_def getS_def modifyS_def returnS_def case_prod_beta)
  qed
  show "wp (claim_due svc) (\<lambda>r _. \<forall>x. r = Inr x \<longrightarrow> (case x of (scans, wake) \<Rightarrow> i \<notin> fst ` set scans)) s" if s: "entry_is i Q s" for s
  proof -
    obtain e where e: "map_of (mg_entries s) i = Some e" "en_scanning e" and keys: "distinct (map fst (mg_entries s))"
      using s assms(2) by (fastforce simp: entry_is_def find_entry_def)
    have "\<not> due_now now e'" if "(i, e') \<in> set (mg_entries s)" for now e'
      using e keys that by (simp add: due_now_def may_scan_def)
    then show ?thesis
      by (auto simp: wp_def claim_due_def steady_now_def outside_call_def bindS_def thenS_def getS_def modifyS_def returnS_def select_due_exact)
  qed
qed (use assms(1) in auto)

lemma entry_worker:
  assumes "\<And>e. Q e \<Longrightarrow> \<exists>x. e = Some x \<and> en_scanning x"
  shows "keeps_entry i Q (worker_round svc)"
proof -
  have scan: "keeps_entry i Q (worker_scan svc (j, g))" if "j \<noteq> i" for j g
    using that unfolding worker_scan_def prod.case by (intro entry_steps other_scan)
  have "keeps_entry i Q (forS (worker_scan svc) scans)" if "i \<notin> fst ` set scans" for scans
    using that by (intro keepsS_for) (force intro: scan)
  then have claims: "keeps_entry i Q (bindS (claim_due svc) (\<lambda>(scans, wake). forS (worker_scan svc) scans))"
    by (intro keepsS_claim_due assms) simp
  show ?thesis unfolding worker_round_def by (rule keepsS_bind [OF keepsS_get]) (simp add: claims)
qed

section \<open>Changes during a scan\<close>

text \<open>The calls that other threads make on the manager while a scan of a task runs.\<close>

datatype manager_call =
    Call_Created string | Call_Deleting string | Call_Pause string | Call_Resume string | Call_Dirty string | Call_Scan string
  | Call_Worker | Call_Callback bool

fun manager_run :: "'t Services \<Rightarrow> (nat \<Rightarrow> string option) \<Rightarrow> manager_call \<Rightarrow> unit mg_op" where
  "manager_run svc watch (Call_Created j) = TaskCreated svc watch j"
| "manager_run svc watch (Call_Deleting j) = Runtime_TaskDeleting j"
| "manager_run svc watch (Call_Pause j) = Runtime_PauseTask svc j"
| "manager_run svc watch (Call_Resume j) = Runtime_ResumeTask svc watch j"
| "manager_run svc watch (Call_Dirty j) = MarkDirty svc j"
| "manager_run svc watch (Call_Scan j) = thenS (ScanNow svc j) (returnS ())"
| "manager_run svc watch Call_Worker = worker_round svc"
| "manager_run svc watch (Call_Callback b) = SetScanCompletedCallback b"

definition manager_calls :: "'t Services \<Rightarrow> (nat \<Rightarrow> string option) \<Rightarrow> manager_call list \<Rightarrow> TaskRuntimeManager \<Rightarrow> TaskRuntimeManager" where
  "manager_calls svc watch calls = fold (\<lambda>c s. snd (manager_run svc watch c s)) calls"

text \<open>Deleting and pausing wait until the scan has ended, and creating or resuming a task loads it anew.\<close>

definition leaves_alone :: "string \<Rightarrow> manager_call \<Rightarrow> bool" where
  "leaves_alone i c \<longleftrightarrow> c \<notin> {Call_Created i, Call_Deleting i, Call_Pause i, Call_Resume i}"

definition claimed :: "string \<Rightarrow> u64 \<Rightarrow> RuntimeEntry option \<Rightarrow> bool" where
  "claimed i g found \<longleftrightarrow> (\<exists>e. found = Some e \<and> en_scanning e \<and> en_enabled e \<and> en_generation e = g)"

lemma claimed_scanning: "claimed i g e \<Longrightarrow> \<exists>x. e = Some x \<and> en_scanning x"
  by (auto simp: claimed_def)

lemma claimed_calls:
  assumes "leaves_alone i c" "c \<noteq> Call_Dirty i"
  shows "keeps_entry i (claimed i g) (manager_run svc watch c)"
proof (cases c)
  case (Call_Scan j)
  have "keeps_entry i (claimed i g) (ScanNow svc j)"
  proof (cases "j = i")
    case True
    have "entry_is i (claimed i g) (snd (ScanNow svc i s))" if s: "entry_is i (claimed i g) s" for s
    proof -
      obtain e where "find_entry i s = Some e" "en_scanning e" "en_enabled e" using s by (auto simp: entry_is_def claimed_def)
      then have "snd (ScanNow svc i s) = s"
        by (simp add: ScanNow_def claim_scan_def bindS_def thenS_def getS_def guardS_def)
      then show ?thesis using s by simp
    qed
    then show ?thesis using True by (simp add: keepsS_def)
  next
    case False
    then show ?thesis unfolding ScanNow_def claim_scan_def by (intro entry_steps entry_modify_other other_scan)
  qed
  then show ?thesis using Call_Scan by (simp add: keepsS_then)
next
  case (Call_Deleting j)
  then have j: "j \<noteq> i" using assms(1) by (auto simp: leaves_alone_def)
  have "entry_is i (claimed i g) (s\<lparr>mg_entries := AList.delete j (mg_entries s)\<rparr>)" if "entry_is i (claimed i g) s" for s
    using that j by (auto simp: entry_is_def find_entry_def delete_conv' distinct_delete)
  then show ?thesis using Call_Deleting by (simp add: Runtime_TaskDeleting_def keepsS_modify)
next
  case (Call_Pause j)
  then have j: "j \<noteq> i" using assms(1) by (auto simp: leaves_alone_def)
  then show ?thesis using Call_Pause by (simp add: Runtime_PauseTask_def) (intro entry_steps entry_modify_other)
next
  case (Call_Resume j)
  then have "j \<noteq> i" using assms(1) by (auto simp: leaves_alone_def)
  then show ?thesis using Call_Resume by (simp add: Runtime_ResumeTask_def) (intro entry_steps other_LoadTask)
next
  case (Call_Created j)
  then have "j \<noteq> i" using assms(1) by (auto simp: leaves_alone_def)
  then show ?thesis using Call_Created by (simp add: TaskCreated_def other_LoadTask)
next
  case (Call_Dirty j)
  then have "j \<noteq> i" using assms(2) by blast
  then show ?thesis using Call_Dirty by (simp add: MarkDirty_def) (intro entry_steps entry_modify_other)
next
  case Call_Worker
  then show ?thesis by (simp add: entry_worker claimed_scanning)
next
  case (Call_Callback b)
  then show ?thesis by (simp add: SetScanCompletedCallback_def keepsS_modify)
qed

lemma claimed_dirty:
  assumes "entry_is i (claimed i g) s"
  shows "entry_is i (claimed i (g + 1)) (snd (MarkDirty svc i s))"
proof -
  obtain e where e: "find_entry i s = Some e" "en_scanning e" "en_enabled e" "en_generation e = g" using assms by (auto simp: entry_is_def claimed_def)
  then have "snd (MarkDirty svc i s) = put_entry i (e\<lparr>en_dirty := True, en_generation := en_generation e + 1,
      en_dirty_deadline := svc_steady svc (sn_calls s) + to_debounce (mg_options s)\<rparr>) (s\<lparr>sn_calls := Suc (sn_calls s)\<rparr>)"
    by (simp add: MarkDirty_def bindS_def getS_def steady_now_def outside_call_def modifyS_def)
  then show ?thesis using e assms by (auto simp: claimed_def intro!: entry_put [of i "claimed i g"])
qed

abbreviation marks :: "string \<Rightarrow> manager_call list \<Rightarrow> nat" where
  "marks i calls \<equiv> count_list calls (Call_Dirty i)"

lemma claimed_after:
  assumes "entry_is i (claimed i g) s" "\<forall>c \<in> set calls. leaves_alone i c"
  shows "entry_is i (claimed i (g + of_nat (marks i calls))) (manager_calls svc watch calls s)"
  using assms
proof (induction calls arbitrary: s g)
  case (Cons c calls)
  show ?case
  proof (cases "c = Call_Dirty i")
    case True
    then show ?thesis
      using Cons.IH [OF claimed_dirty [OF Cons.prems(1)]] Cons.prems(2) by (simp add: manager_calls_def algebra_simps)
  next
    case False
    have "entry_is i (claimed i g) (snd (manager_run svc watch c s))"
      using keepsD [OF claimed_calls [of i c g svc watch] Cons.prems(1)] Cons.prems(2) False by simp
    then show ?thesis using Cons.IH Cons.prems(2) False by (simp add: manager_calls_def)
  qed
qed (simp add: manager_calls_def)

text \<open>
  C18: no change is lost while a scan runs.  From the moment a scan has claimed a task to the moment it reports back, other
  threads may scan, pause, resume, create and delete other tasks, run the worker, try to scan this task too, and report
  changes.  When at least one change of this task was reported, the task is still dirty when the scan ends, and due again after
  the debounce time; when none was, it is dirty only if the snapshot was discarded.  Either way it is released.
\<close>

theorem change_during_scan_kept:
  assumes "distinct (map fst (mg_entries s))" "claim_scan i s = (Inr g, s1)"
    and "\<forall>c \<in> set calls. leaves_alone i c" "marks i calls < 2 ^ 64" "s2 = manager_calls svc watch calls s1"
    and "scan_finish svc i g discarded s2 = (r, s3)"
  shows "r = Inr (discarded \<or> 0 < marks i calls) \<and>
    (\<exists>e. find_entry i s3 = Some e \<and> \<not> en_scanning e \<and> en_enabled e \<and> en_dirty e = (discarded \<or> 0 < marks i calls) \<and>
      (en_dirty e \<longrightarrow> due_at e = svc_steady svc (Suc (sn_calls s2)) + to_debounce (mg_options s2)))"
proof -
  have "entry_is i (claimed i g) s1"
    using assms(1,2)
    by (auto simp: claim_scan_def bindS_def thenS_def getS_def guardS_def modifyS_def returnS_def throwS_def claimed_def entry_is_def distinct_put
        split: option.splits if_splits)
  from claimed_after [OF this assms(3)] obtain e where e: "find_entry i s2 = Some e" "en_scanning e" "en_enabled e"
      "en_generation e = g + of_nat (marks i calls)"
    unfolding assms(5) by (auto simp: entry_is_def claimed_def)
  have "(of_nat (marks i calls) :: u64) = 0 \<longleftrightarrow> marks i calls = 0"
    using assms(4) by (auto simp: word_of_nat_eq_0_iff dest: dvd_imp_le)
  then have "en_generation e \<noteq> g \<longleftrightarrow> 0 < marks i calls" using e(4) by simp
  then show ?thesis
    using assms(6) e
    by (cases "discarded \<or> 0 < marks i calls") (auto simp: scan_finish_def bindS_def thenS_def getS_def modifyS_def returnS_def steady_now_def outside_call_def Let_def due_at_def)
qed

section \<open>Every scan releases its task\<close>

definition idle_entry :: "RuntimeEntry option \<Rightarrow> bool" where
  "idle_entry found \<longleftrightarrow> (\<forall>e. found = Some e \<longrightarrow> \<not> en_scanning e)"

definition idle :: "TaskRuntimeManager \<Rightarrow> bool" where
  "idle s \<longleftrightarrow> distinct (map fst (mg_entries s)) \<and> (\<forall>(i, e) \<in> set (mg_entries s). \<not> en_scanning e)"

lemma idle_iff: "idle s \<longleftrightarrow> (\<forall>i. entry_is i idle_entry s)"
  by (auto simp: idle_def entry_is_def idle_entry_def find_entry_def)

lemma scan_finish_releases:
  assumes "scan_finish svc i g p s = (r, t)" "entry_is i (\<lambda>_. True) s"
  shows "entry_is i idle_entry t"
  using assms
  by (auto simp: scan_finish_def bindS_def thenS_def getS_def modifyS_def returnS_def throwS_def Let_def steady_now_def
      outside_call_def idle_entry_def entry_is_def distinct_put split: option.splits if_splits)

lemma idle_any: "entry_is i idle_entry s \<Longrightarrow> entry_is i (\<lambda>_. True) s"
  by (simp add: entry_is_def)

lemma scan_tail_keeps: "keeps_entry i Q (thenS (scan_record i b seen) (thenS (scan_notify i) (returnS r)))"
  by (intro entry_steps entry_reading)

lemma scan_head_keeps:
  assumes "scan_walk svc i s = (v, s1)" "entry_is i Q s"
  shows "entry_is i Q s1"
  using keepsD [OF entry_reading(1) assms(2), of svc i] assms(1) by simp

lemma scan_store_keeps:
  assumes "scan_store svc i seen s = (v, s1)" "entry_is i Q s"
  shows "entry_is i Q s1"
  using keepsD [OF entry_reading(2) assms(2), of svc i seen] assms(1) by simp

text \<open>Whatever a scan ends with, the keys stay distinct; a scan that returns has released its task.\<close>

lemma PerformScan_entry:
  assumes "PerformScan svc i g s = (r, t)" "entry_is i (\<lambda>_. True) s"
  shows "entry_is i (\<lambda>_. True) t \<and> ((\<exists>x. r = Inr x) \<longrightarrow> entry_is i idle_entry t)"
proof -
  obtain v s1 where one: "scan_walk svc i s = (v, s1)" by fastforce
  note any1 = scan_head_keeps [OF one assms(2)]
  show ?thesis
  proof (cases v)
    case (Inl e)
    then show ?thesis using assms(1) one any1 by (auto simp: PerformScan_def bindS_def)
  next
    case (Inr seen)
    obtain w s2 where two: "scan_store svc i seen s1 = (w, s2)" by fastforce
    note any2 = scan_store_keeps [OF two any1]
    show ?thesis
    proof (cases w)
      case (Inl e)
      then show ?thesis using assms(1) one two Inr any2 by (auto simp: PerformScan_def bindS_def)
    next
      case w: (Inr pr)
      obtain b s3 where three: "scan_finish svc i g (fst pr) s2 = (b, s3)" by fastforce
      note rel = scan_finish_releases [OF three any2]
      show ?thesis
      proof (cases b)
        case (Inl e)
        then show ?thesis using assms(1) one two three Inr w idle_any [OF rel] by (auto simp: PerformScan_def bindS_def split_beta)
      next
        case b: (Inr remains)
        have "thenS (scan_record i remains seen) (thenS (scan_notify i) (returnS (snd pr))) s3 = (r, t)"
          using assms(1) one two three Inr w b by (auto simp: PerformScan_def bindS_def split_beta)
        then have "entry_is i idle_entry t" using keepsD [OF scan_tail_keeps rel, of remains seen "snd pr"] by simp
        then show ?thesis using idle_any by blast
      qed
    qed
  qed
qed

lemma release_failed_entry:
  assumes "entry_is i (\<lambda>_. True) s"
  shows "\<exists>t. release_failed svc i s = (Inr (), t) \<and> entry_is i idle_entry t"
  using assms
  by (cases "find_entry i s")
    (auto simp: release_failed_def bindS_def getS_def returnS_def steady_now_def outside_call_def modifyS_def idle_entry_def entry_is_def distinct_put)

lemma RecordFailure_releases:
  assumes "entry_is i (\<lambda>_. True) s"
  shows "entry_is i idle_entry (snd (RecordFailure svc i message s))"
proof -
  obtain t where t: "release_failed svc i s = (Inr (), t)" "entry_is i idle_entry t" using release_failed_entry [OF assms] by blast
  have "keeps_entry i idle_entry (note_failure svc i message)" unfolding note_failure_def by (intro entry_steps)
  then show ?thesis using t keepsD by (simp add: RecordFailure_def thenS_def bindS_def)
qed

lemma worker_scan_releases:
  assumes "entry_is i (\<lambda>_. True) s"
  shows "entry_is i idle_entry (snd (worker_scan svc (i, g) s))"
proof -
  obtain r t where run: "PerformScan svc i g s = (r, t)" by fastforce
  show ?thesis
    using PerformScan_entry [OF run assms] run RecordFailure_releases
    by (cases r) (auto simp: worker_scan_def catchS_def thenS_def bindS_def returnS_def)
qed

lemma ScanNow_releases:
  assumes "claim_scan i s = (Inr g, s1)" "entry_is i (\<lambda>_. True) s"
  shows "entry_is i idle_entry (snd (ScanNow svc i s))"
proof -
  obtain r t where run: "PerformScan svc i g s1 = (r, t)" by fastforce
  have "entry_is i (\<lambda>_. True) s1"
    using assms by (auto simp: claim_scan_def bindS_def thenS_def getS_def guardS_def modifyS_def returnS_def throwS_def entry_is_def distinct_put
        split: option.splits if_splits)
  note kept = PerformScan_entry [OF run this]
  show ?thesis
  proof (cases r)
    case (Inl e)
    then show ?thesis using kept assms(1) run RecordFailure_releases [of i t svc "what e"]
      by (auto simp: ScanNow_def catchS_def thenS_def bindS_def throwS_def split: prod.splits sum.splits)
  next
    case (Inr x)
    then show ?thesis using kept assms(1) run by (simp add: ScanNow_def catchS_def bindS_def)
  qed
qed


lemma worker_scan_other: "j \<noteq> i \<Longrightarrow> keeps_entry i Q (worker_scan svc (j, g))"
  unfolding worker_scan_def prod.case by (intro entry_steps other_scan)

text \<open>The scans that a round starts are the only ones it marks as running.\<close>

lemma claimed_due:
  assumes "claim_due svc s = (Inr (scans, wake), t)" "idle s"
  shows "entry_is j (\<lambda>found. j \<in> fst ` set scans \<or> idle_entry found) t"
proof -
  let ?now = "svc_steady svc (sn_calls s)"
  have t: "find_entry j t = map_option (mark_scanning ?now) (find_entry j s)" "map fst (mg_entries t) = map fst (mg_entries s)"
    and scans: "scans = map (\<lambda>(i, e). (i, en_generation e)) (filter (\<lambda>(i, e). due_now ?now e) (mg_entries s))"
    using assms(1) by (auto simp: claim_due_def steady_now_def outside_call_def bindS_def thenS_def getS_def modifyS_def returnS_def
        select_due_exact find_entry_def map_of_marked comp_def case_prod_beta)
  have "j \<in> fst ` set scans" if "find_entry j s = Some e" "due_now ?now e" for e
    using that unfolding scans by (force simp: find_entry_def dest: map_of_SomeD)
  then show ?thesis
    using assms(2) t by (auto simp: idle_iff entry_is_def idle_entry_def mark_scanning_def split: if_splits)
qed

text \<open>While the worker goes through its scans, only those still to come are marked as running.\<close>

lemma worker_scans_release:
  assumes "\<forall>i. entry_is i (\<lambda>found. i \<in> fst ` set scans \<or> idle_entry found) s" "forS (worker_scan svc) scans s = (Inr (), t)"
  shows "idle t"
  using assms
proof (induction scans arbitrary: s)
  case Nil
  then show ?case by (simp add: idle_iff returnS_def)
next
  case (Cons scan scans)
  obtain j g where scan: "scan = (j, g)" by fastforce
  obtain s1 where run: "worker_scan svc (j, g) s = (Inr (), s1)" "forS (worker_scan svc) scans s1 = (Inr (), t)"
    using Cons.prems(2) scan by (auto simp: thenS_def bind_returns)
  have "entry_is i (\<lambda>found. i \<in> fst ` set scans \<or> idle_entry found) s1" for i
  proof (cases "j = i")
    case True
    have "entry_is i (\<lambda>_. True) s" using Cons.prems(1) by (auto simp: entry_is_def)
    then have "entry_is i idle_entry s1" using worker_scan_releases [of i s svc g] run(1) True by simp
    then show ?thesis by (simp add: entry_is_def)
  next
    case False
    have "entry_is i (\<lambda>found. i \<in> fst ` set scans \<or> idle_entry found) s" using Cons.prems(1) scan False by (auto simp: entry_is_def)
    then show ?thesis using keepsD [OF worker_scan_other [OF False]] run(1) by (metis snd_conv)
  qed
  then show ?case using Cons.IH run(2) by blast
qed


text \<open>
  A scan never leaves its task marked as running.  When no scan is running, then after \<open>ScanNow\<close>, whether it returns or
  throws, and after a round of the worker that returns, none is; so neither a later scan nor a call that waits for the end of
  a scan is blocked by one that failed.
\<close>

theorem scans_released:
  assumes "idle s"
  shows "idle (snd (ScanNow svc i s)) \<and> (fst (worker_round svc s) = Inr () \<longrightarrow> idle (snd (worker_round svc s)))"
proof (intro conjI impI)
  have any: "entry_is j (\<lambda>_. True) s" for j using assms by (simp add: idle_iff entry_is_def)
  have "entry_is j idle_entry (snd (ScanNow svc i s))" for j
  proof (cases "\<exists>g s1. claim_scan i s = (Inr g, s1)")
    case True
    then obtain g s1 where claim: "claim_scan i s = (Inr g, s1)" by blast
    show ?thesis
    proof (cases "j = i")
      case True
      then show ?thesis using ScanNow_releases [OF claim any] by simp
    next
      case False
      then have "keeps_entry j idle_entry (ScanNow svc i)"
        unfolding ScanNow_def claim_scan_def by (intro entry_steps entry_modify_other other_scan) auto
      then show ?thesis by (rule keepsD) (use assms in \<open>simp add: idle_iff\<close>)
    qed
  next
    case False
    then have "snd (ScanNow svc i s) = s"
      by (auto simp: ScanNow_def claim_scan_def bindS_def thenS_def getS_def guardS_def modifyS_def returnS_def throwS_def
          split: option.splits if_splits)
    then show ?thesis using assms by (simp add: idle_iff)
  qed
  then show "idle (snd (ScanNow svc i s))" by (simp add: idle_iff)
next
  assume returns: "fst (worker_round svc s) = Inr ()"
  show "idle (snd (worker_round svc s))"
  proof (cases "mg_stopping s")
    case True
    then show ?thesis using assms by (simp add: worker_round_def bindS_def getS_def returnS_def)
  next
    case False
    obtain scans wake s1 where claim: "claim_due svc s = (Inr (scans, wake), s1)"
      by (auto simp: claim_due_def steady_now_def outside_call_def bindS_def thenS_def getS_def modifyS_def returnS_def select_due_exact)
    then have "worker_round svc s = forS (worker_scan svc) scans s1"
      using False by (simp add: worker_round_def bindS_def getS_def)
    moreover have "entry_is j (\<lambda>found. j \<in> fst ` set scans \<or> idle_entry found) s1" for j
      by (rule claimed_due [OF claim assms])
    ultimately show ?thesis using worker_scans_release [of scans s1 svc "snd (worker_round svc s)"] returns
      by (metis prod.collapse)
  qed
qed


section \<open>What a round starts\<close>

lemma earliest_wake:
  fixes entries :: "(string \<times> RuntimeEntry) list" and now :: int
  defines "later wake \<equiv> fold (\<lambda>(i, e) w. if may_scan e \<and> now < due_at e then min (due_at e) w else w) entries wake"
  assumes "now < wake"
  shows "now < later wake \<and> later wake \<le> wake \<and> (\<forall>(i, e) \<in> set entries. may_scan e \<and> now < due_at e \<longrightarrow> later wake \<le> due_at e)"
  using assms(2) unfolding later_def
proof (induction entries arbitrary: wake)
  case (Cons x entries)
  let ?wake = "case x of (i, e) \<Rightarrow> if may_scan e \<and> now < due_at e then min (due_at e) wake else wake"
  have "now < ?wake" "?wake \<le> wake" using Cons.prems by (auto split: prod.splits)
  then show ?case using Cons.IH [of ?wake] by (auto simp: fold_Cons comp_def split: prod.splits if_splits)
qed simp

text \<open>
  The worker starts exactly the scans that are due.  A round selects, with the generation it has then, precisely every task that is
  enabled, may be scanned, has no scan running, and whose next time has come: the debounce time for a task that is dirty,
  the time of the periodic verification otherwise.  It marks these tasks as running and leaves every other one as it is, and the time
  until which it would sleep is in the future, at most thirty seconds away, and not after the next time of any other task that may be scanned.
\<close>

theorem due_scans_exact:
  assumes "distinct (map fst (mg_entries s))" "now = svc_steady svc (sn_calls s)"
  shows "\<exists>scans wake t. claim_due svc s = (Inr (scans, wake), t) \<and>
    (\<forall>i g. (i, g) \<in> set scans \<longleftrightarrow> (\<exists>e. find_entry i s = Some e \<and> en_enabled e \<and> CanScanLocalChanges (en_task e) \<and> \<not> en_scanning e \<and>
        en_generation e = g \<and> (if en_dirty e then en_dirty_deadline e else en_periodic_deadline e) \<le> now)) \<and>
    distinct (map fst scans) \<and>
    (\<forall>i. find_entry i t = map_option (\<lambda>e. if i \<in> fst ` set scans then e\<lparr>en_scanning := True\<rparr> else e) (find_entry i s)) \<and>
    now < wake \<and> wake \<le> now + 30000 \<and>
    (\<forall>i e. find_entry i t = Some e \<and> may_scan e \<longrightarrow> wake \<le> due_at e)"
proof -
  let ?scans = "map (\<lambda>(i, e). (i, en_generation e)) (filter (\<lambda>(i, e). due_now now e) (mg_entries s))"
  let ?entries = "map (\<lambda>(i, e). (i, mark_scanning now e)) (mg_entries s)"
  let ?wake = "fold (\<lambda>(i, e) w. if may_scan e \<and> now < due_at e then min (due_at e) w else w) (mg_entries s) (now + 30000)"
  let ?t = "s\<lparr>sn_calls := Suc (sn_calls s), mg_entries := ?entries\<rparr>"
  have run: "claim_due svc s = (Inr (?scans, ?wake), ?t)"
    by (simp add: claim_due_def steady_now_def outside_call_def bindS_def thenS_def getS_def modifyS_def returnS_def select_due_exact assms(2))
  have find: "(i, e) \<in> set (mg_entries s) \<longleftrightarrow> find_entry i s = Some e" for i e using assms(1) by (simp add: find_entry_def)
  have mem: "(i, g) \<in> set ?scans \<longleftrightarrow> (\<exists>e. find_entry i s = Some e \<and> due_now now e \<and> en_generation e = g)" for i g
    using find by force
  then have keys: "i \<in> fst ` set ?scans \<longleftrightarrow> (\<exists>e. find_entry i s = Some e \<and> due_now now e)" for i by force
  have marked: "find_entry i ?t = map_option (\<lambda>e. if i \<in> fst ` set ?scans then e\<lparr>en_scanning := True\<rparr> else e) (find_entry i s)" for i
    unfolding keys by (cases "find_entry i s") (auto simp: find_entry_def map_of_marked mark_scanning_def)
  have once: "distinct (map fst ?scans)"
    using distinct_map_filter [OF assms(1), of "\<lambda>(i, e). due_now now e"] by (simp add: comp_def case_prod_beta)
  note later = earliest_wake [of now "now + 30000" "mg_entries s"]
  have asleep: "?wake \<le> due_at e" if e: "find_entry i ?t = Some e" "may_scan e" for i e
  proof -
    obtain e' where e': "find_entry i s = Some e'" "e = mark_scanning now e'"
      using e(1) by (auto simp: find_entry_def map_of_marked)
    then have "e = e'" "\<not> due_now now e'" using that(2) by (auto simp: mark_scanning_def may_scan_def split: if_splits)
    then show ?thesis using that(2) later e'(1) find by (fastforce simp: due_now_def)
  qed
  have mem': "(i, g) \<in> set ?scans \<longleftrightarrow> (\<exists>e. find_entry i s = Some e \<and> en_enabled e \<and> CanScanLocalChanges (en_task e) \<and> \<not> en_scanning e \<and>
      en_generation e = g \<and> (if en_dirty e then en_dirty_deadline e else en_periodic_deadline e) \<le> now)" for i g
    by (rule trans [OF mem]) (auto simp: due_now_def may_scan_def due_at_def)
  have later': "now < ?wake" "?wake \<le> now + 30000" using later by simp_all
  show ?thesis
    by (rule exI [of _ ?scans], rule exI [of _ ?wake], rule exI [of _ ?t])
      (use run once marked asleep mem' later' in \<open>blast\<close>)
qed

section \<open>Stale snapshots\<close>

text \<open>
  A snapshot that was overtaken is never stored.  When, after the walk over a two-way task, an ignore policy is still being
  negotiated, or the ignore file is not the one the walk began with, or a record of the task was added, removed or replaced meanwhile,
  then the section that stores the snapshot changes nothing: it fails while it reads, or it reports the snapshot as discarded with no
  changes, and the task is scanned again.
\<close>

theorem stale_snapshot_discarded:
  assumes "bidirectional (wk_task seen)" "scan_store svc i seen s = (r, t)"
    and "(\<exists>p. FindPendingIgnorePolicy i (db_tables (sn_database s)) = Some p \<and> pp_state p \<noteq> ''applied'') \<or>
      (\<exists>h. fst (disk_policy_hash svc (wk_task seen) s) = Inr h \<and> h \<noteq> wk_policy_hash seen) \<or>
      (\<exists>latest. ListFileRecords i (db_tables (sn_database s)) = Inr latest \<and> map fr_version_id latest \<noteq> map fr_version_id (wk_baseline seen))"
  shows "sn_database t = sn_database s \<and> ((\<exists>e. r = Inl e) \<or> r = Inr (True, \<lparr>rr_created_or_changed = 0, rr_tombstoned = 0\<rparr>))"
proof -
  have hash: "sn_database (snd (disk_policy_hash svc task u)) = sn_database u" for task and u :: TaskRuntimeManager
    by (simp add: disk_policy_hash_def bindS_def zoomS_def returnS_def split: prod.splits sum.splits)
  show ?thesis
    using assms hash [of "wk_task seen" s]
    by (auto simp: scan_store_def scan_stale_def bindS_def thenS_def getS_def guardS_def throwS_def returnS_def Let_def liftS_def zoomS_def
        split: prod.splits sum.splits option.splits if_splits)
qed


section \<open>Deleting and resuming a task during its scan\<close>

lemma no_runtime_row:
  assumes "\<forall>r \<in> set (t_task_runtime (db_tables d)). rt_task_id r \<noteq> cstr k"
  shows "\<exists>e. UpdateTaskRuntime k status dirty scanned message d = (Inl e, d)"
proof -
  have "changes (\<lambda>r. rt_task_id r = cstr k) (t_task_runtime (db_tables d)) = 0"
    using assms by (simp add: changes_def filter_empty_conv)
  moreover have "update_rows (\<lambda>r. rt_task_id r = cstr k) f (t_task_runtime (db_tables d)) = t_task_runtime (db_tables d)" for f
    using assms by (auto simp: update_rows_def intro!: map_idI)
  ultimately show ?thesis
    by (simp add: UpdateTaskRuntime_def update_runtime_def query_def statement_def thenS_def bindS_def guardS_def returnS_def throwS_def)
qed

text \<open>
  A task that is deleted between the section that ends its scan and the one that records it ends the worker.  Once the entry is
  released, deleting the task does not wait; after it, recording the scan fails because the task has no runtime row, and so does
  recording that failure, which the worker does in its exception handler: the second exception leaves the loop.
\<close>

theorem late_deletion_ends_worker:
  assumes "entry_is i (\<lambda>_. True) s" "scan_finish svc i g discarded s = (Inr remains, s1)"
    and "db_inv (sn_database s)" "db_saved (sn_database s) = None" "i \<noteq> []"
    and "thenS (Runtime_TaskDeleting i) (node_db (DeleteTask i)) s1 = (Inr (), s2)"
  shows "\<not> waits_for i s1 \<and>
    (\<exists>e s3. scan_record i remains seen s2 = (Inl e, s3) \<and> (\<exists>e2 s4. RecordFailure svc i (what e) s3 = (Inl e2, s4)))"
proof -
  have "entry_is i idle_entry s1" by (rule scan_finish_releases [OF assms(2,1)])
  then have free: "\<not> waits_for i s1" by (auto simp: waits_for_def entry_is_def idle_entry_def split: option.splits)
  have db: "sn_database s1 = sn_database s"
    using assms(2) by (auto simp: scan_finish_def bindS_def thenS_def getS_def modifyS_def returnS_def throwS_def Let_def steady_now_def
        outside_call_def put_entry_def split: option.splits if_splits)
  have "sn_database s2 = (sn_database s)\<lparr>db_tables := delete_task_row (cstr i) (delete_task_rows (cstr i) (db_tables (sn_database s)))\<rparr>"
    using assms(6) DeleteTask_eq [OF assms(3-5)]
    by (auto simp: Runtime_TaskDeleting_def thenS_def bindS_def modifyS_def zoomS_def db split: if_splits)
  then have gone: "\<forall>r \<in> set (t_task_runtime (db_tables (sn_database s2))). rt_task_id r \<noteq> cstr i" by (simp add: delete_task_fields)
  from no_runtime_row [OF this] obtain e where e: "UpdateTaskRuntime i ''watching'' remains (Some (wk_current seen)) None (sn_database s2) = (Inl e, sn_database s2)"
    by blast
  then have recorded: "scan_record i remains seen s2 = (Inl e, s2)" by (simp add: scan_record_def thenS_def bindS_def zoomS_def)
  obtain u where u: "release_failed svc i s2 = (Inr (), u)" "sn_database u = sn_database s2"
    by (cases "find_entry i s2")
      (auto simp: release_failed_def bindS_def getS_def returnS_def steady_now_def outside_call_def modifyS_def put_entry_def)
  have "\<exists>e2 s4. note_failure svc i (what e) u = (Inl e2, s4)"
  proof -
    let ?last = "case RuntimeState i (db_tables (sn_database u)) of Inl _ \<Rightarrow> None | Inr state \<Rightarrow> rt_last_scan_at_ms state"
    obtain e2 where "UpdateTaskRuntime i ''error'' True ?last (Some (what e)) (sn_database u) = (Inl e2, sn_database u)"
      using no_runtime_row gone u(2) by metis
    then show ?thesis by (simp add: note_failure_def thenS_def bindS_def getS_def zoomS_def)
  qed
  then have "\<exists>e2 s4. RecordFailure svc i (what e) s2 = (Inl e2, s4)" using u(1) by (simp add: RecordFailure_def thenS_def bindS_def)
  then show ?thesis using free recorded by blast
qed

lemma start_watcher_entry:
  "start_watcher watch k scanned e s = (Inr e', t) \<Longrightarrow> en_scanning e' = en_scanning e \<and> en_generation e' = en_generation e"
  by (auto simp: start_watcher_def outside_call_def op_defs split: option.splits if_splits prod.splits sum.splits)

lemma LoadTask_entry:
  assumes "LoadTask svc watch i s = (Inr (), t)"
  shows "\<exists>e. find_entry i t = Some e \<and> \<not> en_scanning e \<and> en_generation e = 1"
proof -
  obtain found s1 where s1: "node_tables (FindTask i) s = (Inr found, s1)" using assms by (auto simp: LoadTask_def bind_returns)
  then obtain task where "found = Some task" using assms by (cases found) (auto simp: LoadTask_def bindS_def throwS_def)
  then show ?thesis
    using assms s1
    by (auto simp: LoadTask_def bind_returns getS_def returnS_def modifyS_def Let_def dest!: start_watcher_entry split: if_splits)
qed

text \<open>
  Resuming a task does not wait for its scan.  When a task is resumed (or created anew) while a scan of it runs, its entry is replaced by
  one that is not marked as running, so a second scan of the same task can be claimed before the first has ended.
\<close>

theorem resume_allows_second_scan:
  assumes "Runtime_ResumeTask svc watch i s = (Inr (), t)"
  shows "(\<exists>e. find_entry i t = Some e \<and> \<not> en_scanning e \<and> en_generation e = 1 \<and>
      (en_enabled e \<and> CanScanLocalChanges (en_task e) \<longrightarrow> (\<exists>u. claim_scan i t = (Inr 1, u)))) \<and> \<not> waits_for i t"
proof -
  obtain s1 where "LoadTask svc watch i s1 = (Inr (), t)"
    using assms by (auto simp: Runtime_ResumeTask_def thenS_def bind_returns)
  then obtain e where "find_entry i t = Some e" "\<not> en_scanning e" "en_generation e = 1"
    using LoadTask_entry by blast
  then show ?thesis
    by (auto simp: waits_for_def claim_scan_def bindS_def thenS_def getS_def guardS_def modifyS_def returnS_def)
qed


section \<open>Instances\<close>

definition demo_entry_runtime :: RuntimeEntry where
  "demo_entry_runtime = \<lparr>en_task = \<lparr>td_task_id = ''t'', td_mode = ''one_way'', td_role = ''source'', td_root_path = ''r''\<rparr>, en_enabled = True,
     en_dirty = True, en_scanning = False, en_generation = 1, en_dirty_deadline = 0, en_periodic_deadline = 100, en_watching = True\<rparr>"

definition demo_manager :: TaskRuntimeManager where
  "demo_manager = \<lparr>sn_database = demo_database, sn_files = demo_fs, sn_calls = 0, mg_device_id = ''d'', mg_options = default_options,
     mg_started = True, mg_stopping = False, mg_worker = True, mg_entries = [(''t'', demo_entry_runtime)], mg_callback = False, mg_completed = []\<rparr>"

lemma demo_scannable: "CanScanLocalChanges (en_task demo_entry_runtime)" "en_enabled demo_entry_runtime" "\<not> en_scanning demo_entry_runtime"
    "en_generation demo_entry_runtime = 1"
  by (simp_all add: demo_entry_runtime_def CanScanLocalChanges_def CanApplyLocalWatcherChange_def)

lemma demo_manager_facts:
  "find_entry ''t'' demo_manager = Some demo_entry_runtime" "mg_entries demo_manager = [(''t'', demo_entry_runtime)]"
  by (simp_all add: demo_manager_def find_entry_def)

lemma demo_claim: "claim_scan ''t'' demo_manager = (Inr 1, put_entry ''t'' (demo_entry_runtime\<lparr>en_scanning := True\<rparr>) demo_manager)"
  using demo_scannable demo_manager_facts by (simp add: claim_scan_def bindS_def thenS_def getS_def guardS_def modifyS_def returnS_def)

theorem change_during_scan_kept_witness:
  "fst (scan_finish demo_services ''t'' 1 False (manager_calls demo_services (\<lambda>_. None) [Call_Dirty ''t'']
     (put_entry ''t'' (demo_entry_runtime\<lparr>en_scanning := True\<rparr>) demo_manager))) = Inr True"
  using change_during_scan_kept [OF _ demo_claim _ _ refl prod.collapse [symmetric], of "[Call_Dirty ''t'']" demo_services False "\<lambda>_. None"]
  by (simp add: demo_manager_facts leaves_alone_def)

theorem scans_released_witness: "idle (snd (ScanNow demo_services ''t'' demo_manager))"
  using scans_released [of demo_manager demo_services "''t''"] demo_scannable by (simp add: idle_def demo_manager_facts)

theorem due_scans_exact_witness:
  "\<exists>scans wake t. claim_due demo_services demo_manager = (Inr (scans, wake), t) \<and> (''t'', 1) \<in> set scans \<and> wake \<le> 30000"
proof -
  have now: "(0 :: int) = svc_steady demo_services (sn_calls demo_manager)" by (simp add: demo_services_def demo_manager_def)
  have "(if en_dirty demo_entry_runtime then en_dirty_deadline demo_entry_runtime else en_periodic_deadline demo_entry_runtime) \<le> 0"
    by (simp add: demo_entry_runtime_def)
  with due_scans_exact [OF _ now] demo_scannable show ?thesis by (fastforce simp: demo_manager_facts)
qed

definition demo_walk :: Walk where
  "demo_walk = \<lparr>wk_task = \<lparr>td_task_id = ''t'', td_mode = ''bidirectional'', td_role = ''peer'', td_root_path = ''r''\<rparr>,
     wk_baseline = [demo_record], wk_policy_hash = [], wk_snapshot = [], wk_current = 5\<rparr>"

theorem stale_snapshot_discarded_witness:
  "sn_database (snd (scan_store demo_services ''t'' demo_walk demo_manager)) = demo_database"
proof -
  have "ListFileRecords ''t'' (db_tables (sn_database demo_manager)) = Inr []"
    by (simp add: ListFileRecords_def demo_manager_def demo_database_def empty_tables_def order_by_def)
  moreover have "bidirectional (wk_task demo_walk)" "map fr_version_id (wk_baseline demo_walk) \<noteq> []" by (simp_all add: demo_walk_def)
  ultimately have "sn_database (snd (scan_store demo_services ''t'' demo_walk demo_manager)) = sn_database demo_manager"
    using stale_snapshot_discarded [OF _ prod.collapse [symmetric]] by fastforce
  then show ?thesis by (simp add: demo_manager_def)
qed

theorem late_deletion_ends_worker_witness:
  "\<exists>s1 s2 e. scan_finish demo_services ''t'' 1 False demo_manager = (Inr False, s1) \<and>
     thenS (Runtime_TaskDeleting ''t'') (node_db (DeleteTask ''t'')) s1 = (Inr (), s2) \<and> fst (scan_record ''t'' False demo_walk s2) = Inl e"
proof -
  obtain s1 where s1: "scan_finish demo_services ''t'' 1 False demo_manager = (Inr False, s1)" "sn_database s1 = demo_database"
    using demo_scannable demo_manager_facts
    by (simp add: scan_finish_def bindS_def thenS_def getS_def modifyS_def returnS_def Let_def steady_now_def outside_call_def put_entry_def demo_manager_def)
  have db: "db_inv demo_database" "db_saved demo_database = None" "task_exists (cstr ''t'') (db_tables demo_database)"
    using demo_database_inv demo_tables by simp_all
  obtain s2 where s2: "thenS (Runtime_TaskDeleting ''t'') (node_db (DeleteTask ''t'')) s1 = (Inr (), s2)"
    using DeleteTask_eq [of demo_database "''t''"] db s1(2)
    by (simp add: Runtime_TaskDeleting_def thenS_def bindS_def modifyS_def zoomS_def)
  have "entry_is ''t'' (\<lambda>_. True) demo_manager" by (simp add: entry_is_def demo_manager_facts)
  then show ?thesis
    using late_deletion_ends_worker [OF _ s1(1) _ _ _ s2, of demo_walk] db s1 s2 by (fastforce simp: demo_manager_def)
qed

theorem resume_allows_second_scan_witness:
  "\<exists>t. Runtime_ResumeTask demo_services (\<lambda>_. None) ''t'' demo_manager = (Inr (), t) \<and> \<not> waits_for ''t'' t"
proof -
  have "fst (Runtime_ResumeTask demo_services (\<lambda>_. None) ''t'' demo_manager) = Inr ()" by code_simp
  then show ?thesis using resume_allows_second_scan by (metis prod.collapse)
qed

end
