(* ===== verification/Text_Codec.thy ===== *)
theory Text_Codec
  imports VS_Prelude
begin

text \<open>
  The texts that the engine exchanges with the tracker and with the desktop shell: fields in which some characters are written
  as a percent sign and two hexadecimal digits, joined by separators, and numbers in decimal.  The locale \<open>field_codec\<close> states what
  a record format needs of such a field encoding; it is interpreted for both encodings of the engine.
\<close>

section \<open>Percent encoding\<close>

definition kHexUpper :: string where "kHexUpper = ''0123456789ABCDEF''"

definition percent_char :: "char \<Rightarrow> string" where
  "percent_char c = [CHR ''%'', kHexUpper ! (of_char c div 16), kHexUpper ! (of_char c mod 16)]"

definition percent_encode :: "(char \<Rightarrow> bool) \<Rightarrow> string \<Rightarrow> string" where
  "percent_encode plain s = concat (map (\<lambda>c. if plain c then [c] else percent_char c) s)"

definition hex_value :: "char \<Rightarrow> nat option" where
  "hex_value c =
     (if CHR ''0'' \<le> c \<and> c \<le> CHR ''9'' then Some (of_char c - of_char (CHR ''0''))
      else if CHR ''A'' \<le> c \<and> c \<le> CHR ''F'' then Some (of_char c - of_char (CHR ''A'') + 10)
      else if CHR ''a'' \<le> c \<and> c \<le> CHR ''f'' then Some (of_char c - of_char (CHR ''a'') + 10)
      else None)"

fun percent_decode :: "exn \<Rightarrow> string \<Rightarrow> string result" where
  "percent_decode e [] = Inr []"
| "percent_decode e (c # cs) =
     (if c \<noteq> CHR ''%'' then bindE (percent_decode e cs) (\<lambda>decoded. Inr (c # decoded))
      else case cs of
        h # l # rest \<Rightarrow>
          (case (hex_value h, hex_value l) of
             (Some high, Some low) \<Rightarrow> bindE (percent_decode e rest) (\<lambda>decoded. Inr (char_of (16 * high + low) # decoded))
           | _ \<Rightarrow> Inl e)
      | _ \<Rightarrow> Inl e)"

lemma hex_value_digit: "n < 16 \<Longrightarrow> hex_value (kHexUpper ! n) = Some n"
proof -
  have "list_all (\<lambda>n. hex_value (kHexUpper ! n) = Some n) [0..<16]" by code_simp
  then show "n < 16 \<Longrightarrow> hex_value (kHexUpper ! n) = Some n" by (simp add: list_all_iff)
qed

lemma of_char_256: "of_char (c :: char) < (256 :: nat)"
  by (cases c) (simp add: of_char_def horner_sum_simps split: bool.split)

lemma percent_decode_append:
  assumes "\<not> plain (CHR ''%'')"
  shows "percent_decode e (percent_encode plain s @ t) = bindE (percent_decode e t) (\<lambda>d. Inr (s @ d))"
proof (induction s)
  case Nil
  then show ?case by (cases "percent_decode e t") (simp_all add: percent_encode_def)
next
  case (Cons c s)
  have code: "of_char c div 16 < (16 :: nat)" "of_char c mod 16 < (16 :: nat)" using of_char_256 [of c] by (simp_all add: div_less_iff_less_mult)
  show ?case
  proof (cases "plain c")
    case True
    then have "c \<noteq> CHR ''%''" using assms by auto
    then show ?thesis
      using True Cons.IH by (cases "percent_decode e t") (simp_all add: percent_encode_def)
  next
    case False
    then show ?thesis
      using code Cons.IH by (cases "percent_decode e t") (simp_all add: percent_encode_def percent_char_def hex_value_digit)
  qed
qed

lemma percent_roundtrip: "\<not> plain (CHR ''%'') \<Longrightarrow> percent_decode e (percent_encode plain s) = Inr s"
  using percent_decode_append [of plain e s "[]"] by simp

lemma percent_encode_chars:
  assumes "c \<in> set (percent_encode plain s)"
  shows "plain c \<or> c = CHR ''%'' \<or> c \<in> set kHexUpper"
proof -
  have "kHexUpper ! (of_char d div 16) \<in> set kHexUpper" "kHexUpper ! (of_char d mod 16) \<in> set kHexUpper" for d
    using of_char_256 [of d] by (simp_all add: kHexUpper_def div_less_iff_less_mult del: set_simps nth_Cons_numeral)
  then show ?thesis
    using assms by (auto simp: percent_encode_def percent_char_def split: if_splits)
qed

section \<open>Records of fields\<close>

lemma join_with_free: "\<forall>p \<in> set ps. d \<notin> set p \<Longrightarrow> d \<noteq> c \<Longrightarrow> d \<notin> set (join_with c ps)"
  by (induction c ps rule: join_with.induct) auto

locale field_codec =
  fixes encode :: "string \<Rightarrow> string" and decode :: "string \<Rightarrow> string result" and separators :: "char set"
  assumes decode_encode: "decode (encode s) = Inr s"
    and encode_free: "c \<in> separators \<Longrightarrow> c \<notin> set (encode s)"
begin

lemma split_fields:
  assumes "c \<in> separators" "ss \<noteq> []"
  shows "split_on c (join_with c (map encode ss)) = map encode ss"
  using assms encode_free by (intro split_on_join) auto

lemma decode_fields: "mapE decode (map encode ss) = Inr ss"
  by (induction ss) (simp_all add: decode_encode)

lemma record_roundtrip:
  assumes "c \<in> separators" "ss \<noteq> []"
  shows "mapE decode (split_on c (join_with c (map encode ss))) = Inr ss"
  by (simp only: split_fields [OF assms] decode_fields)

lemma encode_inject: "encode s = encode t \<longleftrightarrow> s = t"
  using decode_encode by (metis sum.inject(2))

lemma record_inject:
  assumes "c \<in> separators" "ss \<noteq> []" "ts \<noteq> []"
  shows "join_with c (map encode ss) = join_with c (map encode ts) \<longleftrightarrow> ss = ts"
  using record_roundtrip [OF assms(1)] assms(2,3) by (metis sum.inject(2))

lemma join_free:
  assumes "d \<in> separators" "d \<noteq> c"
  shows "d \<notin> set (join_with c (map encode ss))"
  using assms encode_free by (intro join_with_free) auto

end

section \<open>Decimal numbers\<close>

text \<open>\<^verbatim>\<open>std::to_string\<close> of a signed integer.\<close>

definition int_to_string :: "int \<Rightarrow> string" where
  "int_to_string i = (if i < 0 then CHR ''-'' # to_string (nat (- i)) else to_string (nat i))"

definition is_digit :: "char \<Rightarrow> bool" where
  "is_digit c \<longleftrightarrow> CHR ''0'' \<le> c \<and> c \<le> CHR ''9''"

definition decimal_value :: "string \<Rightarrow> nat" where
  "decimal_value s = foldl (\<lambda>n c. 10 * n + (of_char c - of_char (CHR ''0''))) 0 s"

text \<open>
  \<^verbatim>\<open>std::from_chars\<close> of a whole text: there is no sign but a minus, nothing is left over, and the value fits.
\<close>

definition from_chars_unsigned :: "nat \<Rightarrow> string \<Rightarrow> nat option" where
  "from_chars_unsigned w s =
     (if s \<noteq> [] \<and> list_all is_digit s \<and> decimal_value s < 2 ^ w then Some (decimal_value s) else None)"

definition from_chars_signed :: "nat \<Rightarrow> string \<Rightarrow> int option" where
  "from_chars_signed w s =
     (let negative = s \<noteq> [] \<and> hd s = CHR ''-''; digits = (if negative then tl s else s);
          value = (if negative then - int (decimal_value digits) else int (decimal_value digits)) in
      if digits \<noteq> [] \<and> list_all is_digit digits \<and> - (2 ^ (w - 1)) \<le> value \<and> value < 2 ^ (w - 1) then Some value else None)"

lemma digit_facts: "n < 10 \<Longrightarrow> is_digit (digit n) \<and> of_char (digit n) - of_char (CHR ''0'') = n \<and> digit n \<noteq> CHR ''-''"
proof -
  have "list_all (\<lambda>n. is_digit (digit n) \<and> of_char (digit n) - of_char (CHR ''0'') = n \<and> digit n \<noteq> CHR ''-'') [0..<10]" by code_simp
  then show "n < 10 \<Longrightarrow> ?thesis" by (simp add: list_all_iff)
qed

lemma decimal_append: "decimal_value (s @ [c]) = 10 * decimal_value s + (of_char c - of_char (CHR ''0''))"
  by (simp add: decimal_value_def)

lemma decimal_to_string: "decimal_value (to_string n) = n \<and> list_all is_digit (to_string n) \<and> to_string n \<noteq> [] \<and> hd (to_string n) \<noteq> CHR ''-''"
proof (induction n rule: to_string.induct)
  case (1 n)
  show ?case
  proof (cases "n < 10")
    case True
    then show ?thesis using digit_facts [of n] by (simp add: to_string.simps [of n] decimal_value_def)
  next
    case False
    then show ?thesis using 1 digit_facts [of "n mod 10"] by (simp add: to_string.simps [of n] decimal_append)
  qed
qed

lemma from_chars_to_string: "n < 2 ^ w \<Longrightarrow> from_chars_unsigned w (to_string n) = Some n"
  using decimal_to_string [of n] by (simp add: from_chars_unsigned_def)

lemma from_chars_int_to_string:
  assumes "- (2 ^ (w - 1)) \<le> i" "i < 2 ^ (w - 1)"
  shows "from_chars_signed w (int_to_string i) = Some i"
  using assms decimal_to_string [of "nat i"] decimal_to_string [of "nat (- i)"]
  by (auto simp: from_chars_signed_def int_to_string_def Let_def)

lemma from_chars_signed_range: "from_chars_signed w s = Some i \<Longrightarrow> - (2 ^ (w - 1)) \<le> i \<and> i < 2 ^ (w - 1)"
  by (auto simp: from_chars_signed_def Let_def split: if_splits)

lemma int_to_string_chars: "c \<in> set (int_to_string i) \<Longrightarrow> is_digit c \<or> c = CHR ''-''"
  using decimal_to_string by (auto simp: int_to_string_def list_all_iff split: if_splits)

section \<open>Lines\<close>

text \<open>What repeated \<^verbatim>\<open>std::getline\<close> reads: a newline at the end starts no further line.\<close>

definition getlines :: "string \<Rightarrow> string list" where
  "getlines s = (let parts = split_on (CHR 0x0A) s in if last parts = [] then butlast parts else parts)"

definition text_lines :: "string list \<Rightarrow> string" where
  "text_lines ls = concat (map (\<lambda>l. l @ [CHR 0x0A]) ls)"

lemma split_text_lines:
  "\<forall>l \<in> set ls. CHR 0x0A \<notin> set l \<Longrightarrow> split_on (CHR 0x0A) (text_lines ls) = ls @ [[]]"
  by (induction ls) (simp_all add: text_lines_def split_on_append split_on_free)

lemma getlines_text_lines: "\<forall>l \<in> set ls. CHR 0x0A \<notin> set l \<Longrightarrow> getlines (text_lines ls) = ls"
  by (simp add: getlines_def split_text_lines)

end
