(* ===== verification/Tracker_Client.thy ===== *)
theory Tracker_Client
  imports Text_Codec Tracker_Contract
begin

text \<open>
  The client of the tracker's room, invitation and signaling interface (\<^verbatim>\<open>engine/signaling/tracker_client.cpp\<close>), and what it uses of
  the device identity (\<^verbatim>\<open>engine/security/device_identity.cpp\<close>).  What is outside the engine is a state \<open>'h\<close> with three
  operations: the clock, the generator of nonces, and the HTTP transport.  BLAKE3, base64 and the Ed25519 signature are
  parameters.  The two texts that the tracker answers with are those of the tracker itself (\<^verbatim>\<open>tracker/src/main.rs\<close>).
\<close>

section \<open>Model\<close>

record TrackerHttpResponse =
  hr_status :: u16
  hr_body :: string

record TrackerMember =
  mb_device_id :: string
  mb_fingerprint :: string
  mb_role :: Role

record TrackerEnrollment =
  te_room_id :: string
  te_authorization_digest :: string
  te_session_token :: string
  te_session_expires_at_ms :: int
  te_members :: "TrackerMember list"

record CreatedInvitation = TrackerEnrollment +
  ci_invitation_code :: string

record DeviceIdentity =
  di_device_id :: string
  di_fingerprint :: string
  di_public_key_base64 :: string
  di_sign :: "bytes \<Rightarrow> string result"

record 'h TrackerWorld =
  tw_seconds :: "('h, int) op"
  tw_nonce :: "('h, string) op"
  tw_post :: "string \<Rightarrow> string \<Rightarrow> (string \<rightharpoonup> string) \<Rightarrow> string \<Rightarrow> ('h, TrackerHttpResponse) op"
  tw_blake3 :: "bytes \<Rightarrow> bytes"

record 'h TrackerClient =
  tk_base_url :: string
  tk_transport :: 'h
  tk_enrollment :: "TrackerEnrollment option"

type_synonym ('h, 'a) tk_op = "('h TrackerClient, 'a) op"

abbreviation tk_outside :: "('h, 'a) op \<Rightarrow> ('h, 'a) tk_op" where
  "tk_outside \<equiv> zoomS tk_transport (\<lambda>h s. s\<lparr>tk_transport := h\<rparr>)"

definition tracker_hex :: "bytes \<Rightarrow> string" where
  "tracker_hex hash = concat (map (\<lambda>b. [''0123456789abcdef'' ! unat (drop_bit 4 b), ''0123456789abcdef'' ! unat (b AND 0x0F)]) hash)"

definition DeviceIdentity_new ::
  "(bytes \<Rightarrow> bytes) \<Rightarrow> (bytes \<Rightarrow> string) \<Rightarrow> (bytes \<Rightarrow> string result) \<Rightarrow> bytes \<Rightarrow> DeviceIdentity" where
  "DeviceIdentity_new blake3 base64 sign public_key =
     (let digest = blake3 public_key in
      \<lparr>di_device_id = tracker_hex (take 16 digest), di_fingerprint = tracker_hex digest,
       di_public_key_base64 = base64 public_key, di_sign = sign\<rparr>)"

section \<open>Names and fields\<close>

fun RoleName :: "Role \<Rightarrow> string" where
  "RoleName kSource = ''source''"
| "RoleName kTarget = ''target''"
| "RoleName kPeer = ''peer''"

definition tracker_ParseRole :: "string \<Rightarrow> Role result" where
  "tracker_ParseRole role =
     (if role = ''source'' then Inr kSource
      else if role = ''target'' then Inr kTarget
      else if role = ''peer'' then Inr kPeer
      else Inl (Runtime_error ''tracker returned an invalid role''))"

fun KindName :: "MessageKind \<Rightarrow> string" where
  "KindName mkOffer = ''offer''"
| "KindName mkAnswer = ''answer''"
| "KindName mkIceCandidate = ''ice''"
| "KindName mkIceRestart = ''ice_restart''"

definition ParseKind :: "string \<Rightarrow> MessageKind result" where
  "ParseKind kind =
     (if kind = ''offer'' then Inr mkOffer
      else if kind = ''answer'' then Inr mkAnswer
      else if kind = ''ice'' then Inr mkIceCandidate
      else if kind = ''ice_restart'' then Inr mkIceRestart
      else Inl (Runtime_error ''tracker returned an invalid signal kind''))"

abbreviation tab :: char where "tab \<equiv> CHR 0x09"
abbreviation newline :: char where "newline \<equiv> CHR 0x0A"

definition tracker_Fields :: "string \<Rightarrow> string list" where
  "tracker_Fields = split_on tab"

definition ParseInteger :: "string \<Rightarrow> string \<Rightarrow> int result" where
  "ParseInteger text field =
     (case from_chars_signed 64 text of
        None \<Rightarrow> Inl (Runtime_error (''tracker returned invalid '' @ field))
      | Some result \<Rightarrow> Inr result)"

definition unreserved :: "char \<Rightarrow> bool" where
  "unreserved c \<longleftrightarrow> (CHR ''a'' \<le> c \<and> c \<le> CHR ''z'') \<or> (CHR ''A'' \<le> c \<and> c \<le> CHR ''Z'') \<or> (CHR ''0'' \<le> c \<and> c \<le> CHR ''9'') \<or>
     c = CHR ''-'' \<or> c = CHR ''_'' \<or> c = CHR ''.'' \<or> c = CHR ''~''"

definition EncodeField :: "string \<Rightarrow> string" where
  "EncodeField = percent_encode unreserved"

definition DecodeField :: "string \<Rightarrow> string result" where
  "DecodeField = percent_decode (Runtime_error ''Tracker returned malformed escaping'')"

section \<open>Requests\<close>

definition TrackerClient_new :: "string \<Rightarrow> 'h option \<Rightarrow> 'h TrackerClient result" where
  "TrackerClient_new base_url transport =
     (let url = rev (dropWhile (\<lambda>c. c = CHR ''/'') (rev base_url)) in
      case transport of
        None \<Rightarrow> Inl (Invalid_argument ''Tracker client configuration is invalid'')
      | Some h \<Rightarrow> if url = [] then Inl (Invalid_argument ''Tracker client configuration is invalid'')
          else Inr \<lparr>tk_base_url = url, tk_transport = h, tk_enrollment = None\<rparr>)"

definition canonical_request :: "string \<Rightarrow> int \<Rightarrow> string \<Rightarrow> string \<Rightarrow> string" where
  "canonical_request path timestamp nonce body_hash =
     ''POST'' @ [newline] @ path @ [newline] @ int_to_string timestamp @ [newline] @ nonce @ [newline] @ body_hash"

definition SignedPost :: "'h TrackerWorld \<Rightarrow> DeviceIdentity \<Rightarrow> string \<Rightarrow> string \<Rightarrow> bool \<Rightarrow> ('h, TrackerHttpResponse) tk_op" where
  "SignedPost world identity path body include_session =
     bindS (tk_outside (tw_seconds world)) (\<lambda>timestamp.
     bindS (tk_outside (tw_nonce world)) (\<lambda>nonce.
     let body_hash = tracker_hex (tw_blake3 world (map byte_of_char body));
         canonical = canonical_request path timestamp nonce body_hash in
     bindS (liftS (\<lambda>_. di_sign identity (map byte_of_char canonical))) (\<lambda>signature.
     let headers = [''X-VeritasSync-Device-Id'' \<mapsto> di_device_id identity, ''X-VeritasSync-Public-Key'' \<mapsto> di_public_key_base64 identity,
           ''X-VeritasSync-Timestamp'' \<mapsto> int_to_string timestamp, ''X-VeritasSync-Nonce'' \<mapsto> nonce,
           ''X-VeritasSync-Signature'' \<mapsto> signature] in
     bindS (if \<not> include_session then returnS headers
         else bindS (getS tk_enrollment) (\<lambda>enrollment.
           case enrollment of
             None \<Rightarrow> throwS (Logic_error ''Tracker session is not enrolled'')
           | Some e \<Rightarrow> if te_session_token e = [] then throwS (Logic_error ''Tracker session is not enrolled'')
               else returnS (headers(''X-VeritasSync-Session'' \<mapsto> te_session_token e)))) (\<lambda>headers'.
     bindS (getS tk_base_url) (\<lambda>base_url.
     bindS (tk_outside (tw_post world base_url path headers' body)) (\<lambda>response.
     thenS (guardS (hr_status response < 200 \<or> hr_status response \<ge> 300)
         (Runtime_error (''Tracker rejected request: HTTP '' @ to_string (unat (hr_status response)) @
           (if hr_body response = [] then [] else '' '' @ hr_body response))))
       (returnS response)))))))"

section \<open>Answers\<close>

definition parse_member :: "string list \<Rightarrow> TrackerMember result" where
  "parse_member columns =
     (if length columns \<noteq> 4 \<or> columns ! 0 \<noteq> ''MEMBER'' then Inl (Runtime_error ''Tracker member row is invalid'')
      else bindE (DecodeField (columns ! 1)) (\<lambda>device_id.
        bindE (DecodeField (columns ! 2)) (\<lambda>fingerprint.
        bindE (tracker_ParseRole (columns ! 3)) (\<lambda>role.
        Inr \<lparr>mb_device_id = device_id, mb_fingerprint = fingerprint, mb_role = role\<rparr>))))"

text \<open>The rows up to the end mark: whether there was one, and what they say.\<close>

fun parse_rows :: "(string list \<Rightarrow> 'r result) \<Rightarrow> string list \<Rightarrow> (bool \<times> 'r list) result" where
  "parse_rows parse [] = Inr (False, [])"
| "parse_rows parse (line # lines) =
     (let columns = tracker_Fields line in
      if columns = [''END''] then Inr (True, [])
      else bindE (parse columns) (\<lambda>row. bindE (parse_rows parse lines) (\<lambda>(ended, rows). Inr (ended, row # rows))))"

definition ParseEnrollment :: "string \<Rightarrow> TrackerEnrollment result" where
  "ParseEnrollment response =
     (case getlines response of
        [] \<Rightarrow> Inl (Runtime_error ''Tracker returned an empty response'')
      | line # lines \<Rightarrow>
         let first = tracker_Fields line in
         if length first \<noteq> 6 \<or> first ! 0 \<noteq> ''OK'' then Inl (Runtime_error ''Tracker enrollment response is invalid'')
         else bindE (DecodeField (first ! 1)) (\<lambda>room_id.
           bindE (DecodeField (first ! 2)) (\<lambda>digest.
           bindE (DecodeField (first ! 3)) (\<lambda>session_token.
           bindE (ParseInteger (first ! 4) ''session expiry'') (\<lambda>expires.
           if first ! 5 \<noteq> ''MEMBERS'' then Inl (Runtime_error ''Tracker enrollment marker is invalid'')
           else bindE (parse_rows parse_member lines) (\<lambda>(ended, members).
             if \<not> ended \<or> room_id = [] \<or> length digest \<noteq> 64 \<or> session_token = [] \<or> expires \<le> 0
             then Inl (Runtime_error ''Tracker enrollment is incomplete'')
             else Inr \<lparr>te_room_id = room_id, te_authorization_digest = digest, te_session_token = session_token,
               te_session_expires_at_ms = expires, te_members = members\<rparr>))))))"

definition UseEnrollment :: "TrackerEnrollment \<Rightarrow> ('h, unit) tk_op" where
  "UseEnrollment enrollment =
     thenS (guardS (te_room_id enrollment = [] \<or> te_session_token enrollment = []) (Invalid_argument ''Tracker enrollment is invalid''))
       (modifyS (\<lambda>s. s\<lparr>tk_enrollment := Some enrollment\<rparr>))"

abbreviation record_line :: "string list \<Rightarrow> string" where
  "record_line \<equiv> join_with tab"

definition CreateRoom :: "'h TrackerWorld \<Rightarrow> DeviceIdentity \<Rightarrow> string \<Rightarrow> Topology \<Rightarrow> Role \<Rightarrow> Role \<Rightarrow> ('h, CreatedInvitation) tk_op" where
  "CreateRoom world identity task_id topology local_role invited_role =
     (let body = record_line [EncodeField task_id, (if topology = kOneWay then ''one_way'' else ''bidirectional''),
        RoleName local_role, RoleName invited_role] in
     bindS (SignedPost world identity ''/v1/rooms/create'' body False) (\<lambda>response.
     thenS (guardS (newline \<notin> set (hr_body response)) (Runtime_error ''Tracker invitation response is invalid''))
    (let columns = tracker_Fields (takeWhile (\<lambda>c. c \<noteq> newline) (hr_body response)) in
     thenS (guardS (length columns \<noteq> 2 \<or> columns ! 0 \<noteq> ''INVITE'') (Runtime_error ''Tracker invitation code is missing''))
    (bindS (liftS (\<lambda>_. ParseEnrollment (tl (dropWhile (\<lambda>c. c \<noteq> newline) (hr_body response))))) (\<lambda>enrollment.
     bindS (liftS (\<lambda>_. DecodeField (columns ! 1))) (\<lambda>code.
     thenS (UseEnrollment enrollment)
       (returnS (TrackerEnrollment.extend enrollment \<lparr>ci_invitation_code = code\<rparr>))))))))"

definition tracker_CreateInvitation :: "'h TrackerWorld \<Rightarrow> DeviceIdentity \<Rightarrow> string \<Rightarrow> Role \<Rightarrow> ('h, string) tk_op" where
  "tracker_CreateInvitation world identity room_id invited_role =
     bindS (getS tk_enrollment) (\<lambda>enrollment.
     thenS (guardS (case enrollment of None \<Rightarrow> True | Some e \<Rightarrow> te_room_id e \<noteq> room_id)
       (Invalid_argument ''Tracker client is not enrolled in the invitation room''))
    (bindS (SignedPost world identity ''/v1/invitations/create'' (record_line [EncodeField room_id, RoleName invited_role]) True) (\<lambda>response.
     let body = hr_body response;
         columns = tracker_Fields (if body \<noteq> [] \<and> last body = newline then butlast body else body) in
     thenS (guardS (length columns \<noteq> 2 \<or> columns ! 0 \<noteq> ''INVITE'') (Runtime_error ''Tracker invitation response is invalid''))
       (liftS (\<lambda>_. DecodeField (columns ! 1))))))"

definition enroll :: "'h TrackerWorld \<Rightarrow> DeviceIdentity \<Rightarrow> string \<Rightarrow> string \<Rightarrow> ('h, TrackerEnrollment) tk_op" where
  "enroll world identity path body =
     bindS (SignedPost world identity path body False) (\<lambda>response.
     bindS (liftS (\<lambda>_. ParseEnrollment (hr_body response))) (\<lambda>enrollment.
     thenS (UseEnrollment enrollment) (returnS enrollment)))"

definition RedeemInvitation :: "'h TrackerWorld \<Rightarrow> DeviceIdentity \<Rightarrow> string \<Rightarrow> string \<Rightarrow> Role \<Rightarrow> ('h, TrackerEnrollment) tk_op" where
  "RedeemInvitation world identity invitation_code task_id requested_role =
     enroll world identity ''/v1/invitations/redeem''
       (record_line [EncodeField invitation_code, EncodeField task_id, RoleName requested_role])"

definition JoinRoom :: "'h TrackerWorld \<Rightarrow> DeviceIdentity \<Rightarrow> string \<Rightarrow> string \<Rightarrow> Role \<Rightarrow> ('h, TrackerEnrollment) tk_op" where
  "JoinRoom world identity room_id task_id role =
     enroll world identity ''/v1/rooms/join'' (record_line [EncodeField room_id, EncodeField task_id, RoleName role])"

definition signal_body :: "string \<Rightarrow> RelayMessage \<Rightarrow> string" where
  "signal_body room_id message =
     record_line [EncodeField room_id, KindName (rm_kind message), EncodeField (rm_recipient_device_id message),
       EncodeField (rm_payload message), EncodeField (rm_candidate_mid message), int_to_string (sint (rm_candidate_mline_index message))]"

definition tracker_Forward :: "'h TrackerWorld \<Rightarrow> DeviceIdentity \<Rightarrow> RelayMessage \<Rightarrow> ('h, unit) tk_op" where
  "tracker_Forward world identity message =
     bindS (getS tk_enrollment) (\<lambda>enrollment.
     case enrollment of
       None \<Rightarrow> throwS (Invalid_argument ''signal sender does not match enrolled device'')
     | Some e \<Rightarrow>
        thenS (guardS (rm_sender_device_id message \<noteq> di_device_id identity) (Invalid_argument ''signal sender does not match enrolled device''))
       (bindS (SignedPost world identity ''/v1/signals/send'' (signal_body (te_room_id e) message) True) (\<lambda>response.
        guardS (hr_body response \<noteq> ''OK'' @ [newline]) (Runtime_error ''Tracker signal acknowledgement is invalid''))))"

definition parse_signal :: "string \<Rightarrow> string list \<Rightarrow> RelayMessage result" where
  "parse_signal device_id columns =
     (if length columns \<noteq> 7 \<or> columns ! 0 \<noteq> ''SIGNAL'' then Inl (Runtime_error ''Tracker signal row is invalid'')
      else bindE (ParseInteger (columns ! 6) ''candidate index'') (\<lambda>index.
        if index < - (2 ^ 31) \<or> index > 2 ^ 31 - 1 then Inl (Runtime_error ''Tracker candidate index is out of range'')
        else bindE (ParseKind (columns ! 1)) (\<lambda>kind.
          bindE (DecodeField (columns ! 2)) (\<lambda>sender.
          bindE (DecodeField (columns ! 4)) (\<lambda>payload.
          bindE (DecodeField (columns ! 5)) (\<lambda>mid.
          bindE (DecodeField (columns ! 3)) (\<lambda>recipient.
          if recipient \<noteq> device_id then Inl (Runtime_error ''Tracker signal recipient is invalid'')
          else Inr \<lparr>rm_kind = kind, rm_sender_device_id = sender, rm_recipient_device_id = device_id, rm_payload = payload,
            rm_candidate_mid = mid, rm_candidate_mline_index = word_of_int index\<rparr>)))))))"

definition parse_inbox :: "string \<Rightarrow> string \<Rightarrow> RelayMessage list result" where
  "parse_inbox device_id body =
     (case getlines body of
        [] \<Rightarrow> Inl (Runtime_error ''Tracker inbox response is invalid'')
      | line # lines \<Rightarrow>
         if line \<noteq> ''OK'' then Inl (Runtime_error ''Tracker inbox response is invalid'')
         else bindE (parse_rows (parse_signal device_id) lines) (\<lambda>(ended, messages).
           if \<not> ended then Inl (Runtime_error ''Tracker inbox response is incomplete'') else Inr messages))"

definition tracker_DrainInbox :: "'h TrackerWorld \<Rightarrow> DeviceIdentity \<Rightarrow> string \<Rightarrow> ('h, RelayMessage list) tk_op" where
  "tracker_DrainInbox world identity device_id =
     bindS (getS tk_enrollment) (\<lambda>enrollment.
     case enrollment of
       None \<Rightarrow> throwS (Invalid_argument ''signal inbox does not match enrolled device'')
     | Some e \<Rightarrow>
        thenS (guardS (device_id \<noteq> di_device_id identity) (Invalid_argument ''signal inbox does not match enrolled device''))
       (bindS (SignedPost world identity ''/v1/signals/drain'' (EncodeField (te_room_id e)) True) (\<lambda>response.
        liftS (\<lambda>_. parse_inbox device_id (hr_body response)))))"

section \<open>What the tracker answers\<close>

definition enrollment_response :: "TrackerEnrollment \<Rightarrow> string" where
  "enrollment_response e = text_lines (
     record_line [''OK'', EncodeField (te_room_id e), EncodeField (te_authorization_digest e), EncodeField (te_session_token e),
       int_to_string (te_session_expires_at_ms e), ''MEMBERS''] #
     map (\<lambda>m. record_line [''MEMBER'', EncodeField (mb_device_id m), EncodeField (mb_fingerprint m), RoleName (mb_role m)]) (te_members e) @
     [''END''])"

definition signals_response :: "string \<Rightarrow> RelayMessage list \<Rightarrow> string" where
  "signals_response device_id rows = text_lines (
     ''OK'' #
     map (\<lambda>m. record_line [''SIGNAL'', KindName (rm_kind m), EncodeField (rm_sender_device_id m), EncodeField device_id,
       EncodeField (rm_payload m), EncodeField (rm_candidate_mid m), int_to_string (sint (rm_candidate_mline_index m))]) rows @
     [''END''])"

end
