(* ===== verification/Pairing_Service.thy ===== *)
theory Pairing_Service
  imports Tracker_Client Sync_Node
begin

text \<open>
  Pairing two devices through the tracker (\<^verbatim>\<open>engine/security/pairing_service.cpp\<close>): creating and joining invitations, and the enrollment
  of a task kept in the database.  The state is the device with its database, and the outside world of the tracker
  client.  The transport that the factory makes is that outside world, so a client is only its address and its enrollment.
\<close>

section \<open>Model\<close>

record PairingInvitation =
  pi_token :: string
  pi_code :: string
  pi_room_id :: string
  pi_task_id :: string
  pi_tracker_url :: string
  pi_invited_role :: string

record ParsedInvitation =
  pv_tracker_url :: string
  pv_task_id :: string
  pv_topology :: string
  pv_invited_role :: string
  pv_code :: string
  pv_creator_device_id :: string
  pv_creator_fingerprint :: string

type_synonym ('m, 'h) paired = "'m Device_scheme \<times> 'h"

abbreviation pr_device :: "('m Device_scheme, 'a) op \<Rightarrow> (('m, 'h) paired, 'a) op" where
  "pr_device \<equiv> zoomS fst (\<lambda>d s. (d, snd s))"

abbreviation pr_tables :: "(tables \<Rightarrow> 'a result) \<Rightarrow> (('m, 'h) paired, 'a) op" where
  "pr_tables f \<equiv> liftS (\<lambda>s. f (db_tables (sn_database (fst s))))"

definition open_client :: "string \<Rightarrow> (('m, 'h) paired, 'h TrackerClient) op" where
  "open_client url = liftS (\<lambda>s. TrackerClient_new url (Some (snd s)))"

definition on_client :: "'h TrackerClient \<Rightarrow> ('h, 'a) tk_op \<Rightarrow> (('m, 'h) paired, 'a \<times> 'h TrackerClient) op" where
  "on_client client m s =
     (case m (client\<lparr>tk_transport := snd s\<rparr>) of
        (Inl e, c) \<Rightarrow> (Inl e, (fst s, tk_transport c))
      | (Inr x, c) \<Rightarrow> (Inr (x, c), (fst s, tk_transport c)))"

section \<open>Texts\<close>

definition pairing_ParseRole :: "string \<Rightarrow> Role result" where
  "pairing_ParseRole role =
     (if role = ''source'' then Inr kSource
      else if role = ''target'' then Inr kTarget
      else if role = ''peer'' then Inr kPeer
      else Inl (Invalid_argument ''invitation contains an invalid role''))"

definition InvitationToken :: "ParsedInvitation \<Rightarrow> string" where
  "InvitationToken invitation = join_with (CHR ''|'')
     [''VSINVITE1'', EncodeField (pv_tracker_url invitation), EncodeField (pv_task_id invitation), EncodeField (pv_topology invitation),
      EncodeField (pv_invited_role invitation), EncodeField (pv_code invitation), EncodeField (pv_creator_device_id invitation),
      EncodeField (pv_creator_fingerprint invitation)]"

definition sound_invitation :: "ParsedInvitation \<Rightarrow> bool" where
  "sound_invitation p \<longleftrightarrow> pv_tracker_url p \<noteq> [] \<and> pv_task_id p \<noteq> [] \<and> pv_code p \<noteq> [] \<and> length (pv_creator_device_id p) = 32 \<and>
     length (pv_creator_fingerprint p) = 64 \<and>
     \<not> ((pv_topology p = ''one_way'' \<and> pv_invited_role p \<noteq> ''target'') \<or> (pv_topology p = ''bidirectional'' \<and> pv_invited_role p \<noteq> ''peer'') \<or>
        (pv_topology p \<noteq> ''one_way'' \<and> pv_topology p \<noteq> ''bidirectional''))"

definition ParseInvitation :: "string \<Rightarrow> ParsedInvitation result" where
  "ParseInvitation token =
     (let columns = split_on (CHR ''|'') token in
      if length columns \<noteq> 8 \<or> columns ! 0 \<noteq> ''VSINVITE1'' then Inl (Invalid_argument ''invitation token is invalid'')
      else bindE (mapE DecodeField (tl columns)) (\<lambda>decoded.
        let invitation = \<lparr>pv_tracker_url = decoded ! 0, pv_task_id = decoded ! 1, pv_topology = decoded ! 2, pv_invited_role = decoded ! 3,
              pv_code = decoded ! 4, pv_creator_device_id = decoded ! 5, pv_creator_fingerprint = decoded ! 6\<rparr> in
        if \<not> sound_invitation invitation then Inl (Invalid_argument ''invitation token fields are invalid'')
        else Inr invitation))"

section \<open>Enrollment\<close>

definition member_row :: "string \<Rightarrow> int \<Rightarrow> TrackerMember \<Rightarrow> TaskMember" where
  "member_row task_id current member =
     \<lparr>tm_task_id = task_id, tm_device_id = mb_device_id member, tm_fingerprint = mb_fingerprint member, tm_role = RoleName (mb_role member),
      tm_authorized_at_ms = current, tm_revoked = False\<rparr>"

definition store_enrollment :: "string \<Rightarrow> string \<Rightarrow> int \<Rightarrow> 'e TrackerEnrollment_scheme \<Rightarrow> (Database, unit) op" where
  "store_enrollment task_id tracker_url current enrollment =
     InTransaction
       (thenS (ConfigureTaskConnection \<lparr>tc_task_id = task_id, tc_tracker_url = tracker_url, tc_room_id = te_room_id enrollment,
           tc_authorization_digest = te_authorization_digest enrollment, tc_joined_at_ms = current\<rparr>)
         (forS (\<lambda>member. UpsertTaskMember (member_row task_id current member)) (te_members enrollment)))"

definition PersistEnrollment :: "'t Services \<Rightarrow> TaskDefinition \<Rightarrow> string \<Rightarrow> 'e TrackerEnrollment_scheme \<Rightarrow> ('m Device_scheme, unit) op" where
  "PersistEnrollment svc task tracker_url enrollment =
     bindS (NowMilliseconds svc) (\<lambda>current. node_db (store_enrollment (td_task_id task) tracker_url current enrollment))"

definition OpenTaskSession ::
  "'t Services \<Rightarrow> 'h TrackerWorld \<Rightarrow> DeviceIdentity \<Rightarrow> string \<Rightarrow> (('m, 'h) paired, 'h TrackerClient) op" where
  "OpenTaskSession svc world identity task_id =
     bindS (pr_tables (FindTask task_id)) (\<lambda>task.
     bindS (pr_tables (FindTaskConnection task_id)) (\<lambda>connection.
     case (task, connection) of
       (Some t, Some c) \<Rightarrow>
         bindS (open_client (tc_tracker_url c)) (\<lambda>client.
         bindS (liftS (\<lambda>_. pairing_ParseRole (td_role t))) (\<lambda>role.
         bindS (on_client client (JoinRoom world identity (tc_room_id c) task_id role)) (\<lambda>(enrollment, client').
         thenS (guardS (te_authorization_digest enrollment \<noteq> tc_authorization_digest c) (Runtime_error ''Tracker authorization changed unexpectedly''))
        (thenS (pr_device (PersistEnrollment svc t (tc_tracker_url c) enrollment)) (returnS client')))))
     | _ \<Rightarrow> throwS (Invalid_argument ''task is not paired'')))"

definition RenewTaskEnrollment ::
  "'t Services \<Rightarrow> 'h TrackerWorld \<Rightarrow> DeviceIdentity \<Rightarrow> string \<Rightarrow> (('m, 'h) paired, TrackerEnrollment) op" where
  "RenewTaskEnrollment svc world identity task_id =
     bindS (OpenTaskSession svc world identity task_id) (\<lambda>client.
     case tk_enrollment client of None \<Rightarrow> throwS (Logic_error ''bad optional access'') | Some enrollment \<Rightarrow> returnS enrollment)"

section \<open>Invitations\<close>

definition invitation_roles :: "TaskDefinition \<Rightarrow> (Topology \<times> Role \<times> Role) result" where
  "invitation_roles task =
     (if td_mode task = ''one_way'' \<and> td_role task = ''source'' then Inr (kOneWay, kSource, kTarget)
      else if td_mode task = ''bidirectional'' \<and> td_role task = ''peer'' then Inr (kBidirectional, kPeer, kPeer)
      else Inl (Invalid_argument ''only a source or bidirectional peer can create an invitation''))"

definition invite_room ::
  "'t Services \<Rightarrow> 'h TrackerWorld \<Rightarrow> DeviceIdentity \<Rightarrow> TaskDefinition \<Rightarrow> TaskConnection option \<Rightarrow> string \<Rightarrow> Topology \<times> Role \<times> Role \<Rightarrow>
    (('m, 'h) paired, string \<times> string) op" where
  "invite_room svc world identity task connection tracker_url = (\<lambda>(topology, local_role, invited_role).
     case connection of
       Some c \<Rightarrow>
         thenS (guardS (tc_tracker_url c \<noteq> tracker_url) (Invalid_argument ''paired task must keep using its existing Tracker''))
        (bindS (OpenTaskSession svc world identity (td_task_id task)) (\<lambda>client.
         bindS (on_client client (tracker_CreateInvitation world identity (tc_room_id c) invited_role)) (\<lambda>(code, _).
         returnS (tc_room_id c, code))))
     | None \<Rightarrow>
         bindS (open_client tracker_url) (\<lambda>client.
         bindS (on_client client (CreateRoom world identity (td_task_id task) topology local_role invited_role)) (\<lambda>(created, _).
         thenS (pr_device (PersistEnrollment svc task tracker_url created))
           (returnS (te_room_id created, ci_invitation_code created)))))"

definition pairing_CreateInvitation ::
  "'t Services \<Rightarrow> 'h TrackerWorld \<Rightarrow> DeviceIdentity \<Rightarrow> string \<Rightarrow> string \<Rightarrow> (('m, 'h) paired, PairingInvitation) op" where
  "pairing_CreateInvitation svc world identity task_id tracker_url =
     bindS (pr_tables (FindTask task_id)) (\<lambda>found.
     bindS (pr_tables (FindTaskConnection task_id)) (\<lambda>connection.
     case found of
       None \<Rightarrow> throwS (Invalid_argument ''task does not exist'')
     | Some task \<Rightarrow>
         bindS (liftS (\<lambda>_. invitation_roles task)) (\<lambda>roles.
         bindS (invite_room svc world identity task connection tracker_url roles) (\<lambda>(room_id, code).
         let parsed = \<lparr>pv_tracker_url = tracker_url, pv_task_id = task_id, pv_topology = td_mode task, pv_invited_role = RoleName (snd (snd roles)),
               pv_code = code, pv_creator_device_id = di_device_id identity, pv_creator_fingerprint = di_fingerprint identity\<rparr> in
         returnS \<lparr>pi_token = InvitationToken parsed, pi_code = code, pi_room_id = room_id, pi_task_id = task_id, pi_tracker_url = tracker_url,
           pi_invited_role = pv_invited_role parsed\<rparr>))))"

text \<open>The task of an invitation: an existing one that matches, or a new one, and whether it is new.\<close>

definition invited_task :: "'t Services \<Rightarrow> path_view \<Rightarrow> ParsedInvitation \<Rightarrow> string \<Rightarrow> (('m, 'h) paired, TaskDefinition option \<times> bool) op" where
  "invited_task svc view invitation local_root =
     bindS (pr_tables (FindTask (pv_task_id invitation))) (\<lambda>found.
     case found of
       None \<Rightarrow>
         thenS (pr_device (node_db (CreateTask view \<lparr>td_task_id = pv_task_id invitation, td_mode = pv_topology invitation,
             td_role = pv_invited_role invitation, td_root_path = local_root\<rparr>)))
        (bindS (pr_tables (FindTask (pv_task_id invitation))) (\<lambda>created. returnS (created, True)))
     | Some task \<Rightarrow>
         let mismatch = Invalid_argument ''existing task does not match invitation and local root'' in
         if td_mode task \<noteq> pv_topology invitation \<or> td_role task \<noteq> pv_invited_role invitation then throwS mismatch
         else (case (svc_canonical svc (td_root_path task), svc_canonical svc local_root) of
             (Some a, Some b) \<Rightarrow> if a \<noteq> b then throwS mismatch else returnS (Some task, False)
           | _ \<Rightarrow> throwS (Runtime_error ''weakly_canonical'')))"

definition redeem ::
  "'t Services \<Rightarrow> 'h TrackerWorld \<Rightarrow> DeviceIdentity \<Rightarrow> ParsedInvitation \<Rightarrow> Role \<Rightarrow> TaskDefinition option \<Rightarrow> (('m, 'h) paired, TaskConnection) op" where
  "redeem svc world identity invitation role task =
     bindS (open_client (pv_tracker_url invitation)) (\<lambda>client.
     bindS (on_client client (RedeemInvitation world identity (pv_code invitation) (pv_task_id invitation) role)) (\<lambda>(enrollment, _).
     thenS (guardS (\<not> (\<exists>member \<in> set (te_members enrollment). mb_device_id member = pv_creator_device_id invitation \<and>
         mb_fingerprint member = pv_creator_fingerprint invitation)) (Runtime_error ''Tracker membership does not match invitation creator''))
    (case task of
       None \<Rightarrow> throwS (Logic_error ''bad optional access'')
     | Some t \<Rightarrow>
        thenS (pr_device (PersistEnrollment svc t (pv_tracker_url invitation) enrollment))
       (bindS (pr_tables (FindTaskConnection (pv_task_id invitation))) (\<lambda>connection.
        case connection of None \<Rightarrow> throwS (Logic_error ''bad optional access'') | Some c \<Rightarrow> returnS c)))))"

definition JoinInvitation ::
  "'t Services \<Rightarrow> 'h TrackerWorld \<Rightarrow> DeviceIdentity \<Rightarrow> path_view \<Rightarrow> string \<Rightarrow> string \<Rightarrow> (('m, 'h) paired, TaskConnection) op" where
  "JoinInvitation svc world identity view token local_root =
     bindS (liftS (\<lambda>_. ParseInvitation token)) (\<lambda>invitation.
     thenS (guardS (local_root = [] \<or> \<not> view_is_directory view local_root) (Invalid_argument ''pairing root must be an existing directory''))
    (bindS (liftS (\<lambda>_. pairing_ParseRole (pv_invited_role invitation))) (\<lambda>role.
     bindS (invited_task svc view invitation local_root) (\<lambda>(task, created_task).
     catchS (redeem svc world identity invitation role task)
       (\<lambda>e. thenS (if created_task then pr_device (node_db (DeleteTask (pv_task_id invitation))) else returnS ()) (throwS e))))))"

end
