(* ===== verification/Tracker_Client_Properties.thy ===== *)
theory Tracker_Client_Properties
  imports Tracker_Client
begin

text \<open>
  What the client and the tracker agree on: the client reads back exactly what the tracker writes, it accepts an enrollment only when it is
  complete, it hands out only messages addressed to its device, and the text that it signs determines the request.
\<close>

section \<open>Fields and records\<close>

interpretation tracker_field: field_codec EncodeField DecodeField "{tab, newline, CHR ''|''}"
proof
  show "DecodeField (EncodeField s) = Inr s" for s
    unfolding DecodeField_def EncodeField_def by (rule percent_roundtrip) (simp add: unreserved_def)
  show "c \<notin> set (EncodeField s)" if "c \<in> {tab, newline, CHR ''|''}" for c s
    using percent_encode_chars [of c unreserved s] that by (auto simp: EncodeField_def unreserved_def kHexUpper_def)
qed

text \<open>A text that can stand between the separators of a record.\<close>

definition plain_field :: "string \<Rightarrow> bool" where
  "plain_field f \<longleftrightarrow> tab \<notin> set f \<and> newline \<notin> set f"

lemma plain_fields [simp]:
  "plain_field (EncodeField s)" "plain_field (RoleName role)" "plain_field (KindName kind)" "plain_field (int_to_string i)"
proof -
  show "plain_field (EncodeField s)" using tracker_field.encode_free by (simp add: plain_field_def)
  show "plain_field (RoleName role)" by (cases role) (simp_all add: plain_field_def)
  show "plain_field (KindName kind)" by (cases kind) (simp_all add: plain_field_def)
  show "plain_field (int_to_string i)" using int_to_string_chars [of tab i] int_to_string_chars [of newline i] by (auto simp: plain_field_def is_digit_def)
qed

lemma fields_of_line: "fs \<noteq> [] \<Longrightarrow> list_all plain_field fs \<Longrightarrow> tracker_Fields (record_line fs) = fs"
  unfolding tracker_Fields_def by (rule split_on_join) (auto simp: list_all_iff plain_field_def)

lemma line_free: "list_all plain_field fs \<Longrightarrow> newline \<notin> set (record_line fs)"
  by (rule join_with_free) (auto simp: plain_field_def list_all_iff)

lemma parse_names [simp]: "tracker_ParseRole (RoleName role) = Inr role" "ParseKind (KindName kind) = Inr kind"
  by (cases role; simp add: tracker_ParseRole_def) (cases kind; simp add: ParseKind_def)

lemma ParseInteger_string: "- (2 ^ 63) \<le> i \<Longrightarrow> i < 2 ^ 63 \<Longrightarrow> ParseInteger (int_to_string i) field = Inr i"
  using from_chars_int_to_string [of 64 i] by (simp add: ParseInteger_def)

text \<open>Rows that are written and then ended are read back.\<close>

lemma parse_rows_written:
  assumes "\<And>r. r \<in> set rows \<Longrightarrow> parse (tracker_Fields (write r)) = Inr r \<and> tracker_Fields (write r) \<noteq> [''END'']"
  shows "parse_rows parse (map write rows @ [''END'']) = Inr (True, rows)"
proof -
  have "tracker_Fields ''END'' = [''END'']" by (simp add: tracker_Fields_def)
  then show ?thesis using assms by (induction rows) (simp_all add: Let_def)
qed

lemma parse_rows_all:
  "parse_rows parse lines = Inr (ended, rows) \<Longrightarrow> \<forall>r \<in> set rows. \<exists>columns. parse columns = Inr r"
  by (induction lines arbitrary: ended rows) (auto simp: Let_def result_iff split: if_splits)

section \<open>Enrollment\<close>

definition complete_enrollment :: "TrackerEnrollment \<Rightarrow> bool" where
  "complete_enrollment e \<longleftrightarrow> te_room_id e \<noteq> [] \<and> length (te_authorization_digest e) = 64 \<and> te_session_token e \<noteq> [] \<and>
     0 < te_session_expires_at_ms e \<and> te_session_expires_at_ms e < 2 ^ 63"

lemma member_line:
  fixes m :: TrackerMember
  defines "fs \<equiv> [''MEMBER'', EncodeField (mb_device_id m), EncodeField (mb_fingerprint m), RoleName (mb_role m)]"
  shows "parse_member (tracker_Fields (record_line fs)) = Inr m \<and> tracker_Fields (record_line fs) \<noteq> [''END'']"
proof -
  have "tracker_Fields (record_line fs) = fs" unfolding fs_def by (rule fields_of_line) (simp_all add: plain_field_def [of "''MEMBER''"])
  then show ?thesis by (simp add: fs_def parse_member_def tracker_field.decode_encode)
qed

lemma ParseEnrollment_written:
  assumes "complete_enrollment e"
  shows "ParseEnrollment (enrollment_response e) = Inr e"
proof -
  let ?first = "[''OK'', EncodeField (te_room_id e), EncodeField (te_authorization_digest e), EncodeField (te_session_token e),
      int_to_string (te_session_expires_at_ms e), ''MEMBERS'']"
  let ?line = "\<lambda>m. record_line [''MEMBER'', EncodeField (mb_device_id m), EncodeField (mb_fingerprint m), RoleName (mb_role m)]"
  have first: "list_all plain_field ?first" by (simp add: plain_field_def [of "''OK''"] plain_field_def [of "''MEMBERS''"])
  have "newline \<notin> set (?line m)" for m by (rule line_free) (simp add: plain_field_def [of "''MEMBER''"])
  then have "getlines (enrollment_response e) = record_line ?first # map ?line (te_members e) @ [''END'']"
    unfolding enrollment_response_def using line_free [OF first] by (intro getlines_text_lines) auto
  moreover have "tracker_Fields (record_line ?first) = ?first" using first by (intro fields_of_line) simp_all
  moreover have "parse_rows parse_member (map ?line (te_members e) @ [''END'']) = Inr (True, te_members e)"
    by (rule parse_rows_written) (rule member_line)
  ultimately show ?thesis
    using assms ParseInteger_string [of "te_session_expires_at_ms e"]
    by (simp add: ParseEnrollment_def complete_enrollment_def tracker_field.decode_encode)
qed

lemma ParseEnrollment_complete: "ParseEnrollment answer = Inr e \<Longrightarrow> complete_enrollment e"
  by (auto simp: ParseEnrollment_def complete_enrollment_def Let_def result_iff ParseInteger_def
      dest: from_chars_signed_range split: list.splits if_splits option.splits)

text \<open>
  The client reads what the tracker writes.  A complete enrollment that the tracker writes into its answer, with any texts as identifiers and any
  members, is read back unchanged; and whatever the client accepts, from any answer, is complete.
\<close>

theorem enrollment_agreed:
  "(complete_enrollment e \<longrightarrow> ParseEnrollment (enrollment_response e) = Inr e) \<and>
   (\<forall>answer e'. ParseEnrollment answer = Inr e' \<longrightarrow> complete_enrollment e')"
  using ParseEnrollment_written ParseEnrollment_complete by blast

section \<open>Signals\<close>

lemma signal_line:
  fixes m :: RelayMessage
  defines "fs \<equiv> [''SIGNAL'', KindName (rm_kind m), EncodeField (rm_sender_device_id m), EncodeField (rm_recipient_device_id m),
       EncodeField (rm_payload m), EncodeField (rm_candidate_mid m), int_to_string (sint (rm_candidate_mline_index m))]"
  shows "parse_signal (rm_recipient_device_id m) (tracker_Fields (record_line fs)) = Inr m \<and> tracker_Fields (record_line fs) \<noteq> [''END'']"
proof -
  have columns: "tracker_Fields (record_line fs) = fs" unfolding fs_def by (rule fields_of_line) (simp_all add: plain_field_def [of "''SIGNAL''"])
  have range: "- (2 ^ 31) \<le> sint (rm_candidate_mline_index m)" "sint (rm_candidate_mline_index m) < 2 ^ 31"
    using sint_ge [of "rm_candidate_mline_index m"] sint_lt [of "rm_candidate_mline_index m"] by simp_all
  then have "ParseInteger (int_to_string (sint (rm_candidate_mline_index m))) ''candidate index'' = Inr (sint (rm_candidate_mline_index m))"
    by (intro ParseInteger_string) simp_all
  then show ?thesis using columns range by (simp add: fs_def parse_signal_def tracker_field.decode_encode)
qed

lemma parse_signal_recipient: "parse_signal device_id columns = Inr m \<Longrightarrow> rm_recipient_device_id m = device_id"
  by (auto simp: parse_signal_def result_iff split: if_splits)

text \<open>
  Signals arrive as they were sent.  Messages for a device that the tracker writes into its answer, with any payload and any candidate index, are
  read back unchanged and in order; and from any answer the client hands out only messages that are addressed to the device.
\<close>

theorem signals_agreed:
  "((\<forall>m \<in> set rows. rm_recipient_device_id m = device_id) \<longrightarrow> parse_inbox device_id (signals_response device_id rows) = Inr rows) \<and>
   (\<forall>answer ms. parse_inbox device_id answer = Inr ms \<longrightarrow> (\<forall>m \<in> set ms. rm_recipient_device_id m = device_id))"
proof (intro conjI impI allI)
  assume rows: "\<forall>m \<in> set rows. rm_recipient_device_id m = device_id"
  let ?line = "\<lambda>m. record_line [''SIGNAL'', KindName (rm_kind m), EncodeField (rm_sender_device_id m), EncodeField device_id,
       EncodeField (rm_payload m), EncodeField (rm_candidate_mid m), int_to_string (sint (rm_candidate_mline_index m))]"
  have "newline \<notin> set (?line m)" for m by (rule line_free) (simp add: plain_field_def [of "''SIGNAL''"])
  then have "getlines (signals_response device_id rows) = ''OK'' # map ?line rows @ [''END'']"
    unfolding signals_response_def by (intro getlines_text_lines) auto
  moreover have "parse_rows (parse_signal device_id) (map ?line rows @ [''END'']) = Inr (True, rows)"
  proof (rule parse_rows_written)
    fix m
    assume "m \<in> set rows"
    then have "rm_recipient_device_id m = device_id" using rows by blast
    then show "parse_signal device_id (tracker_Fields (?line m)) = Inr m \<and> tracker_Fields (?line m) \<noteq> [''END'']" using signal_line [of m] by simp
  qed
  ultimately show "parse_inbox device_id (signals_response device_id rows) = Inr rows" by (simp add: parse_inbox_def)
next
  fix answer ms
  assume "parse_inbox device_id answer = Inr ms"
  then obtain lines ended where "parse_rows (parse_signal device_id) lines = Inr (ended, ms)"
    by (cases "getlines answer") (auto simp: parse_inbox_def result_iff split: if_splits)
  from parse_rows_all [OF this] show "\<forall>m \<in> set ms. rm_recipient_device_id m = device_id" using parse_signal_recipient by blast
qed

section \<open>Signatures\<close>

lemma int_to_string_sign: "hd (int_to_string i) = CHR ''-'' \<longleftrightarrow> i < 0"
  using decimal_to_string [of "nat i"] by (simp add: int_to_string_def)

lemma int_to_string_inject: "int_to_string i = int_to_string j \<longleftrightarrow> i = j"
proof
  assume eq: "int_to_string i = int_to_string j"
  then have "i < 0 \<longleftrightarrow> j < 0" using int_to_string_sign by metis
  then show "i = j" using eq by (cases "i < 0") (simp_all add: int_to_string_def to_string_inject)
qed simp

text \<open>
  The signature binds the request.  Two requests, with paths and nonces of one line each, have the same signed text only when
  the path, the time, the nonce and the digest of the body are the same.
\<close>

theorem signature_binds_request:
  assumes "newline \<notin> set path" "newline \<notin> set path'" "newline \<notin> set nonce" "newline \<notin> set nonce'"
    and "canonical_request path timestamp nonce (tracker_hex digest) = canonical_request path' timestamp' nonce' (tracker_hex digest')"
  shows "path = path' \<and> timestamp = timestamp' \<and> nonce = nonce' \<and> tracker_hex digest = tracker_hex digest'"
proof -
  have joined: "canonical_request p t n h = join_with newline [''POST'', p, int_to_string t, n, h]" for p t n h
    by (simp add: canonical_request_def)
  have "newline \<notin> set (tracker_hex d)" for d :: bytes
  proof -
    have "''0123456789abcdef'' ! k \<noteq> newline" if "k < 16" for k
      using nth_mem [of k "''0123456789abcdef''"] that by auto
    moreover have "unat (drop_bit 4 b) < 16 \<and> unat (b AND 0x0F) < 16" for b :: u8
      by (simp add: nibbles)
    ultimately show ?thesis by (auto simp: tracker_hex_def simp del: nth_Cons_numeral) metis+
  qed
  moreover have "newline \<notin> set (int_to_string t)" for t using plain_fields(4) [of t] by (simp add: plain_field_def)
  ultimately have "split_on newline (canonical_request p t n (tracker_hex d)) = [''POST'', p, int_to_string t, n, tracker_hex d]"
    if "newline \<notin> set p" "newline \<notin> set n" for p t n d
    unfolding joined using that by (intro split_on_join) auto
  from this [OF assms(1,3), of timestamp digest] this [OF assms(2,4), of timestamp' digest'] show ?thesis
    unfolding assms(5) by (simp add: int_to_string_inject)
qed


section \<open>Instances\<close>

definition demo_enrollment :: TrackerEnrollment where
  "demo_enrollment = \<lparr>te_room_id = ''room 1'', te_authorization_digest = replicate 64 (CHR ''a''), te_session_token = ''t%'',
     te_session_expires_at_ms = 9, te_members = [\<lparr>mb_device_id = ''d'', mb_fingerprint = ''f'', mb_role = kPeer\<rparr>]\<rparr>"

theorem enrollment_agreed_witness: "ParseEnrollment (enrollment_response demo_enrollment) = Inr demo_enrollment"
proof -
  have "complete_enrollment demo_enrollment" by (simp add: complete_enrollment_def demo_enrollment_def)
  then show ?thesis using enrollment_agreed by blast
qed

definition demo_signal :: RelayMessage where
  "demo_signal = \<lparr>rm_kind = mkOffer, rm_sender_device_id = ''p'', rm_recipient_device_id = ''d'', rm_payload = [tab, newline],
     rm_candidate_mid = [], rm_candidate_mline_index = - 1\<rparr>"

theorem signals_agreed_witness: "parse_inbox ''d'' (signals_response ''d'' [demo_signal]) = Inr [demo_signal]"
proof -
  have "\<forall>m \<in> set [demo_signal]. rm_recipient_device_id m = ''d''" by (simp add: demo_signal_def)
  then show ?thesis using signals_agreed [of "[demo_signal]" "''d''"] by blast
qed

theorem signature_binds_request_witness:
  "canonical_request ''/a'' 1 ''n'' (tracker_hex []) \<noteq> canonical_request ''/a'' 2 ''n'' (tracker_hex [])"
  using signature_binds_request [of "''/a''" "''/a''" "''n''" "''n''" 1 "[]" 2 "[]"] by auto

end
