(* ===== verification/Pairing_Properties.thy ===== *)
theory Pairing_Properties
  imports Pairing_Service Tracker_Client_Properties Database_Properties Reconcile_Properties
    One_Way_Properties
begin

text \<open>
  What pairing guarantees: the invitation that one device makes is the one that another reads, a join that fails leaves the database as it was,
  and a join that succeeds has stored the device that made the invitation, unless the tracker lists that device twice.
\<close>

section \<open>Invitations\<close>

text \<open>Reading a token gives back what was written, when it is sound, and only sound invitations are read.\<close>

lemma token_roundtrip:
  "ParseInvitation (InvitationToken p) = (if sound_invitation p then Inr p else Inl (Invalid_argument ''invitation token fields are invalid''))"
proof -
  let ?fs = "[pv_tracker_url p, pv_task_id p, pv_topology p, pv_invited_role p, pv_code p, pv_creator_device_id p, pv_creator_fingerprint p]"
  have "split_on (CHR ''|'') (InvitationToken p) = ''VSINVITE1'' # map EncodeField ?fs"
    unfolding InvitationToken_def using tracker_field.encode_free by (subst split_on_join) auto
  then show ?thesis by (cases p) (simp add: ParseInvitation_def tracker_field.decode_encode)
qed

lemma ParseInvitation_sound: "ParseInvitation token = Inr p \<Longrightarrow> sound_invitation p"
  by (auto simp: ParseInvitation_def Let_def result_iff split: if_splits)

lemma tracker_hex_length: "length (tracker_hex h) = 2 * length h"
  by (induction h) (simp_all add: tracker_hex_def)

lemma open_client_url: "open_client url s = (Inr c, t) \<Longrightarrow> url \<noteq> [] \<and> t = s"
  by (auto simp: open_client_def TrackerClient_new_def liftS_def Let_def split: if_splits)

text \<open>
  C21: an invitation is read as it was made.  When a device with an identity of its own creates an invitation with a code, the
  token in it is one that the invited device accepts, and it reads from it the tracker, the task, the code, the role, and the identity of the
  device that invites.
\<close>

theorem invitation_roundtrip:
  assumes "pairing_CreateInvitation svc world identity task_id tracker_url s = (Inr invitation, t)" "pi_code invitation \<noteq> []"
    and "identity = DeviceIdentity_new blake3 base64 sign public_key" "length (blake3 public_key) = 32" "tracker_url \<noteq> []"
  shows "\<exists>p. ParseInvitation (pi_token invitation) = Inr p \<and> pv_tracker_url p = tracker_url \<and> pv_task_id p = task_id \<and>
    pv_code p = pi_code invitation \<and> pv_invited_role p = pi_invited_role invitation \<and>
    pv_creator_device_id p = tracker_hex (take 16 (blake3 public_key)) \<and> pv_creator_fingerprint p = tracker_hex (blake3 public_key)"
proof -
  have id: "di_device_id identity = tracker_hex (take 16 (blake3 public_key))" "di_fingerprint identity = tracker_hex (blake3 public_key)"
    using assms(3) by (simp_all add: DeviceIdentity_new_def Let_def)
  obtain task roles room where task: "FindTask task_id (db_tables (sn_database (fst s))) = Inr (Some task)" "invitation_roles task = Inr roles"
    and made: "invitation = \<lparr>pi_token = InvitationToken \<lparr>pv_tracker_url = tracker_url, pv_task_id = task_id, pv_topology = td_mode task,
      pv_invited_role = RoleName (snd (snd roles)), pv_code = pi_code invitation, pv_creator_device_id = di_device_id identity,
      pv_creator_fingerprint = di_fingerprint identity\<rparr>, pi_code = pi_code invitation, pi_room_id = room, pi_task_id = task_id,
      pi_tracker_url = tracker_url, pi_invited_role = RoleName (snd (snd roles))\<rparr>"
    using assms(1) unfolding pairing_CreateInvitation_def
    by (auto simp: bindS_def liftS_def returnS_def throwS_def Let_def split: prod.splits sum.splits option.splits)
  let ?p = "\<lparr>pv_tracker_url = tracker_url, pv_task_id = task_id, pv_topology = td_mode task, pv_invited_role = RoleName (snd (snd roles)),
    pv_code = pi_code invitation, pv_creator_device_id = di_device_id identity, pv_creator_fingerprint = di_fingerprint identity\<rparr>"
  have "task_id \<noteq> []" using task(1) by (auto simp: FindTask_def split: if_splits)
  then have "sound_invitation ?p"
    using task(2) assms(2,4,5) by (auto simp: sound_invitation_def id tracker_hex_length invitation_roles_def split: if_splits)
  moreover have "pi_token invitation = InvitationToken ?p" "pi_invited_role invitation = RoleName (snd (snd roles))" using made by (metis PairingInvitation.select_convs)+
  ultimately show ?thesis by (simp add: token_roundtrip id)
qed

section \<open>Storing an enrollment\<close>

definition stored_member :: "string \<Rightarrow> int \<Rightarrow> TrackerMember \<Rightarrow> TaskMember" where
  "stored_member k now m = \<lparr>tm_task_id = cstr k, tm_device_id = cstr (mb_device_id m), tm_fingerprint = cstr (mb_fingerprint m),
     tm_role = RoleName (mb_role m), tm_authorized_at_ms = now, tm_revoked = False\<rparr>"

definition stored_connection :: "string \<Rightarrow> string \<Rightarrow> int \<Rightarrow> 'e TrackerEnrollment_scheme \<Rightarrow> TaskConnection" where
  "stored_connection k url now e = \<lparr>tc_task_id = cstr k, tc_tracker_url = cstr url, tc_room_id = cstr (te_room_id e),
     tc_authorization_digest = cstr (te_authorization_digest e), tc_joined_at_ms = now\<rparr>"

definition enrolled :: "string \<Rightarrow> string \<Rightarrow> int \<Rightarrow> 'e TrackerEnrollment_scheme \<Rightarrow> tables \<Rightarrow> tables" where
  "enrolled k url now e t = t\<lparr>t_task_connections := upsert_row tc_task_id (stored_connection k url now e) (t_task_connections t),
     t_task_members := fold (\<lambda>m. upsert_row member_key (stored_member k now m)) (te_members e) (t_task_members t)\<rparr>"

definition enrollable :: "string \<Rightarrow> string \<Rightarrow> int \<Rightarrow> 'e TrackerEnrollment_scheme \<Rightarrow> tables \<Rightarrow> bool" where
  "enrollable k url now e t \<longleftrightarrow> k \<noteq> [] \<and> url \<noteq> [] \<and> te_room_id e \<noteq> [] \<and> length (te_authorization_digest e) = 64 \<and> 0 < now \<and>
     task_exists (cstr k) t \<and> (\<forall>m \<in> set (te_members e). mb_device_id m \<noteq> [] \<and> length (mb_fingerprint m) = 64)"

lemma cstr_RoleName [simp]: "cstr (RoleName role) = RoleName role"
  by (cases role) (simp_all add: cstr_def)

lemma UpsertTaskMember_run:
  "UpsertTaskMember (member_row k now m) d =
    (if k = [] \<or> mb_device_id m = [] \<or> length (mb_fingerprint m) \<noteq> 64 \<or> now \<le> 0 then (Inl (Invalid_argument ''task member is invalid''), d)
     else if task_exists (cstr k) (db_tables d)
     then (Inr (), d\<lparr>db_tables := (db_tables d)\<lparr>t_task_members := upsert_row member_key (stored_member k now m) (t_task_members (db_tables d))\<rparr>\<rparr>)
     else (Inl (sql_error ''upsert task member'' kForeignKey), d))"
  by (cases "mb_role m")
    (auto simp: UpsertTaskMember_def member_row_def stored_member_def statement_def thenS_def bindS_def guardS_def returnS_def throwS_def Let_def)

lemma members_run:
  assumes "k \<noteq> []" "0 < now" "task_exists (cstr k) (db_tables d)"
  shows "forS (\<lambda>m. UpsertTaskMember (member_row k now m)) ms d = (Inr (), d') \<longleftrightarrow>
    (\<forall>m \<in> set ms. mb_device_id m \<noteq> [] \<and> length (mb_fingerprint m) = 64) \<and>
    d' = d\<lparr>db_tables := (db_tables d)\<lparr>t_task_members := fold (\<lambda>m. upsert_row member_key (stored_member k now m)) ms (t_task_members (db_tables d))\<rparr>\<rparr>"
  using assms
proof (induction ms arbitrary: d)
  case Nil
  then show ?case by (auto simp: returnS_def)
next
  case (Cons m ms)
  then show ?case by (auto simp: thenS_def bindS_def UpsertTaskMember_run)
qed

lemma store_enrollment_run:
  assumes "db_saved d = None"
  shows "if enrollable k url now e (db_tables d)
    then store_enrollment k url now e d = (Inr (), d\<lparr>db_tables := enrolled k url now e (db_tables d)\<rparr>)
    else (\<exists>x. store_enrollment k url now e d = (Inl x, d))"
proof -
  let ?m = "thenS (ConfigureTaskConnection \<lparr>tc_task_id = k, tc_tracker_url = url, tc_room_id = te_room_id e,
      tc_authorization_digest = te_authorization_digest e, tc_joined_at_ms = now\<rparr>)
    (forS (\<lambda>member. UpsertTaskMember (member_row k now member)) (te_members e))"
  let ?d = "d\<lparr>db_saved := Some (db_tables d)\<rparr>"
  let ?connected = "k \<noteq> [] \<and> url \<noteq> [] \<and> te_room_id e \<noteq> [] \<and> length (te_authorization_digest e) = 64 \<and> 0 < now \<and> task_exists (cstr k) (db_tables d)"
  let ?d1 = "?d\<lparr>db_tables := (db_tables d)\<lparr>t_task_connections := upsert_row tc_task_id (stored_connection k url now e) (t_task_connections (db_tables d))\<rparr>\<rparr>"
  have saved: "keeps_saved ?m" by (intro keeps_saved_then keeps_saved_for) simp_all
  have run: "store_enrollment k url now e d = (case ?m ?d of (Inl x, d') \<Rightarrow> (Inl x, d) | (Inr x, d') \<Rightarrow> (Inr x, d'\<lparr>db_saved := None\<rparr>))"
    using assms by (simp add: store_enrollment_def InTransaction_cases [OF saved] autocommit_def)
  have step: "?m ?d = (if ?connected then forS (\<lambda>member. UpsertTaskMember (member_row k now member)) (te_members e) ?d1 else (fst (?m ?d), snd (?m ?d)))"
    by (auto simp: ConfigureTaskConnection_def stored_connection_def statement_def thenS_def bindS_def guardS_def returnS_def Let_def)
  have failed: "\<exists>x d'. ?m ?d = (Inl x, d')" if "\<not> ?connected"
    using that by (auto simp: ConfigureTaskConnection_def statement_def thenS_def bindS_def guardS_def returnS_def throwS_def Let_def)
  show ?thesis
  proof (cases ?connected)
    case False
    then show ?thesis using failed run by (auto simp: enrollable_def)
  next
    case True
    obtain r d' where loop: "forS (\<lambda>member. UpsertTaskMember (member_row k now member)) (te_members e) ?d1 = (r, d')" by fastforce
    have exists: "task_exists (cstr k) (db_tables ?d1)" using True by simp
    show ?thesis
      using True run step loop members_run [OF _ _ exists, of now "te_members e"] assms
      by (cases r) (auto simp: enrollable_def enrolled_def)
  qed
qed


section \<open>A join that fails\<close>

lemma delete_rows_new: "\<forall>r \<in> set t. \<not> P r \<Longrightarrow> \<forall>r \<in> set new. P r \<Longrightarrow> delete_rows P (t @ new) = t"
  by (simp add: delete_rows_def filter_id_conv filter_empty_conv)

lemma delete_rows_none: "f ` set t \<subseteq> K \<Longrightarrow> k \<notin> K \<Longrightarrow> delete_rows (\<lambda>r. f r = k) t = t"
  by (auto simp: delete_rows_def filter_id_conv)

text \<open>Deleting a task that was only created leaves the tables as they were before.\<close>

lemma delete_created_task:
  assumes "tables_inv t" "\<not> task_exists k t" "td_task_id row = k" "rt_task_id runtime = k"
  shows "delete_task_row k (delete_task_rows k (t\<lparr>t_tasks := t_tasks t @ [row], t_task_runtime := t_task_runtime t @ [runtime]\<rparr>)) = t"
    (is "?t' = t")
proof (rule tables.equality)
  have refs: "refs_inv t" and k: "k \<notin> task_keys t" using assms(1,2) by (simp_all add: tables_inv_def task_exists_iff)
  note none = delete_rows_none [OF _ k]
  have fresh: "\<forall>r \<in> set (t_tasks t). td_task_id r \<noteq> k" "\<forall>r \<in> set (t_task_runtime t). rt_task_id r \<noteq> k"
    using k refs unfolding refs_inv_def by (metis imageI)+
  show "t_tasks ?t' = t_tasks t" using assms(3) fresh by (simp add: delete_task_fields delete_rows_new)
  show "t_task_runtime ?t' = t_task_runtime t"
    using assms(4) fresh by (simp add: delete_task_fields delete_rows_new)
  show "t_transfer_chunks ?t' = t_transfer_chunks t"
    using refs k by (auto simp: delete_task_fields delete_rows_def filter_id_conv refs_inv_def refs_to_def)
  show "t_engine_events ?t' = t_engine_events t"
  proof -
    have "ev_task_id ` set (t_engine_events t) \<subseteq> insert None (Some ` task_keys t)" using refs by (simp add: refs_inv_def refs_to_def)
    then have "Some k \<notin> ev_task_id ` set (t_engine_events t)" using k by blast
    then have "\<forall>x \<in> set (t_engine_events t). ev_task_id x \<noteq> Some k" by (metis imageI)
    then show ?thesis by (auto simp: delete_task_fields update_rows_def intro!: map_idI)
  qed
  show "t_file_records ?t' = t_file_records t" "t_transfers ?t' = t_transfers t" "t_peer_state ?t' = t_peer_state t"
    "t_conflicts ?t' = t_conflicts t" "t_version_lineage ?t' = t_version_lineage t" "t_task_clocks ?t' = t_task_clocks t" "t_policy_revisions ?t' = t_policy_revisions t"
    "t_policy_state ?t' = t_policy_state t" "t_task_connections ?t' = t_task_connections t" "t_task_members ?t' = t_task_members t" "t_pending_policies ?t' = t_pending_policies t"
    using refs by (simp_all add: delete_task_fields refs_inv_def refs_to_def none)
qed (simp_all add: delete_task_fields)

definition created_row :: "TaskDefinition \<Rightarrow> TaskDefinition" where
  "created_row task = \<lparr>td_task_id = cstr (td_task_id task), td_mode = cstr (td_mode task), td_role = cstr (td_role task), td_root_path = cstr (td_root_path task)\<rparr>"

lemma CreateTask_created:
  assumes "CreateTask view task d = (Inr (), d1)"
  shows "\<not> task_exists (cstr (td_task_id task)) (db_tables d) \<and>
    d1 = d\<lparr>db_tables := (db_tables d)\<lparr>t_tasks := t_tasks (db_tables d) @ [created_row task],
      t_task_runtime := t_task_runtime (db_tables d) @ [default_runtime (cstr (td_task_id task))]\<rparr>\<rparr>"
proof -
  have "statement ''insert task'' (insert_task (created_row task)) d = (Inr (), d1)"
    using assms unfolding CreateTask_def thenS_def bind_returns
    by (auto simp: guardS_def liftS_def returnS_def throwS_def created_row_def split: sum.splits if_splits)
  then show ?thesis by (auto simp: statement_def insert_task_def created_row_def split: if_splits)
qed

lemma CreateTask_fails: "CreateTask view task d = (Inl e, d1) \<Longrightarrow> d1 = d"
  by (auto simp: CreateTask_def statement_def op_defs split: sum.splits if_splits)

lemma created_then_deleted:
  assumes "db_inv d" "db_saved d = None" "td_task_id task \<noteq> []" "CreateTask view task d = (Inr (), d1)"
  shows "DeleteTask (td_task_id task) d1 = (Inr (), d)"
proof -
  have row: "td_task_id (created_row task) = cstr (td_task_id task)" "rt_task_id (default_runtime (cstr (td_task_id task))) = cstr (td_task_id task)"
      "\<not> task_exists (cstr (td_task_id task)) (db_tables d)"
    and d1: "d1 = d\<lparr>db_tables := (db_tables d)\<lparr>t_tasks := t_tasks (db_tables d) @ [created_row task],
      t_task_runtime := t_task_runtime (db_tables d) @ [default_runtime (cstr (td_task_id task))]\<rparr>\<rparr>"
    using CreateTask_created [OF assms(4)] by (simp_all add: created_row_def default_runtime_def)
  have "db_inv d1" using keepsD [OF keeps_CreateTask assms(1), of view task] assms(4) by simp
  moreover have "db_saved d1 = None" "task_exists (cstr (td_task_id task)) (db_tables d1)" using assms(2) row(1) by (simp_all add: d1 has_key_def)
  ultimately have "DeleteTask (td_task_id task) d1 =
      (Inr (), d1\<lparr>db_tables := delete_task_row (cstr (td_task_id task)) (delete_task_rows (cstr (td_task_id task)) (db_tables d1))\<rparr>)"
    using DeleteTask_eq [of d1 "td_task_id task"] assms(3) by simp
  moreover have "tables_inv (db_tables d)" using assms(1) by (simp add: db_inv_def)
  ultimately show ?thesis using delete_created_task [OF _ row(3,1,2)] by (simp add: d1)
qed

text \<open>A redemption changes the database only when it succeeds.\<close>

lemma on_client_device: "fst (snd (on_client client m s)) = fst s"
  by (simp add: on_client_def split: prod.splits sum.splits)

lemma FindTaskConnection_enrolled:
  "k \<noteq> [] \<Longrightarrow> FindTaskConnection k (enrolled k url now e t) = Inr (Some ((stored_connection k url now e)\<lparr>tc_task_id := k\<rparr>))"
  by (simp add: FindTaskConnection_def enrolled_def row_of_upsert stored_connection_def)

lemma persist_run:
  assumes "db_saved (sn_database d) = None"
  shows "if enrollable (td_task_id t) url (svc_now svc (sn_calls d)) e (db_tables (sn_database d))
    then PersistEnrollment svc t url e d = (Inr (), d\<lparr>sn_calls := Suc (sn_calls d),
      sn_database := (sn_database d)\<lparr>db_tables := enrolled (td_task_id t) url (svc_now svc (sn_calls d)) e (db_tables (sn_database d))\<rparr>\<rparr>)
    else (\<exists>x. PersistEnrollment svc t url e d = (Inl x, d\<lparr>sn_calls := Suc (sn_calls d)\<rparr>))"
  using store_enrollment_run [OF assms, of "td_task_id t" url "svc_now svc (sn_calls d)" e]
  by (auto simp: PersistEnrollment_def NowMilliseconds_def outside_call_def bindS_def zoomS_def split: if_splits)

lemma redeemed_complete:
  assumes "on_client client (RedeemInvitation world identity code k role) s = (Inr (e, c), s')"
  shows "complete_enrollment e"
proof -
  have "fst (RedeemInvitation world identity code k role (client\<lparr>tk_transport := snd s\<rparr>)) = Inr e"
    using assms by (auto simp: on_client_def split: prod.splits sum.splits)
  then show ?thesis
    using ParseEnrollment_complete unfolding RedeemInvitation_def enroll_def
    by (auto simp: bindS_def thenS_def liftS_def returnS_def split: prod.splits sum.splits)
qed

lemma redeem_cases:
  assumes "db_saved (sn_database (fst s)) = None" "td_task_id t = pv_task_id p" "pv_task_id p \<noteq> []"
    and "redeem svc world identity p role (Some t) s = (r, s')"
  shows "(\<exists>x. r = Inl x \<and> sn_database (fst s') = sn_database (fst s)) \<or>
    (\<exists>e now. r = Inr ((stored_connection (pv_task_id p) (pv_tracker_url p) now e)\<lparr>tc_task_id := pv_task_id p\<rparr>) \<and>
      (\<exists>m \<in> set (te_members e). mb_device_id m = pv_creator_device_id p \<and> mb_fingerprint m = pv_creator_fingerprint p) \<and>
      complete_enrollment e \<and>
      sn_database (fst s') = (sn_database (fst s))\<lparr>db_tables := enrolled (pv_task_id p) (pv_tracker_url p) now e (db_tables (sn_database (fst s)))\<rparr>)"
proof -
  obtain c s1 where open_c: "open_client (pv_tracker_url p) s = (c, s1)" by (rule prod.exhaust)
  have s1: "s1 = s" using open_c by (auto simp: open_client_def liftS_def)
  show ?thesis
  proof (cases c)
    case (Inl x)
    then show ?thesis using assms(4) open_c s1 by (auto simp: redeem_def bindS_def)
  next
    case (Inr client)
    obtain q s2 where ask: "on_client client (RedeemInvitation world identity (pv_code p) (pv_task_id p) role) s = (q, s2)" by (rule prod.exhaust)
    have s2: "fst s2 = fst s" using on_client_device [of client "RedeemInvitation world identity (pv_code p) (pv_task_id p) role" s] ask by simp
    show ?thesis
    proof (cases q)
      case (Inl x)
      then show ?thesis using assms(4) open_c s1 Inr ask s2 by (auto simp: redeem_def bindS_def)
    next
      case q: (Inr ec)
      let ?e = "fst ec" and ?now = "svc_now svc (sn_calls (fst s))"
      have complete: "complete_enrollment ?e" using redeemed_complete ask q by (metis prod.collapse)
      let ?checked = "\<exists>m \<in> set (te_members ?e). mb_device_id m = pv_creator_device_id p \<and> mb_fingerprint m = pv_creator_fingerprint p"
      have rest: "(r, s') = (if \<not> ?checked then (Inl (Runtime_error ''Tracker membership does not match invitation creator''), s2)
          else thenS (pr_device (PersistEnrollment svc t (pv_tracker_url p) ?e))
            (bindS (pr_tables (FindTaskConnection (pv_task_id p))) (\<lambda>connection.
              case connection of None \<Rightarrow> throwS (Logic_error ''bad optional access'') | Some c \<Rightarrow> returnS c)) s2)"
        using assms(4) open_c s1 Inr ask q by (auto simp: redeem_def bindS_def [of "open_client _"] bindS_def [of "on_client _ _"] case_prod_beta
            thenS_def [of "guardS _ _"] bindS_def [of "guardS _ _"] guardS_def split: if_splits)
      show ?thesis
        using rest complete persist_run [of "fst s2" t "pv_tracker_url p" svc ?e] assms(1-3) s2
        by (auto simp: thenS_def bindS_def zoomS_def liftS_def returnS_def FindTaskConnection_enrolled split: if_splits)
    qed
  qed
qed


lemma FindTask_id: "FindTask k t = Inr (Some task) \<Longrightarrow> td_task_id task = k \<and> k \<noteq> []"
  by (auto simp: FindTask_def split: if_splits)

lemma invited_task_cases:
  assumes "db_inv (sn_database (fst s))" "db_saved (sn_database (fst s)) = None" "pv_task_id p \<noteq> []"
    and "invited_task svc view p root s = (r, s1)"
  shows "(\<exists>x. r = Inl x \<and> sn_database (fst s1) = sn_database (fst s)) \<or>
    (\<exists>task created. r = Inr (Some task, created) \<and> td_task_id task = pv_task_id p \<and> db_saved (sn_database (fst s1)) = None \<and>
      td_role task = (if created then cstr (pv_invited_role p) else pv_invited_role p) \<and>
      (if created then DeleteTask (pv_task_id p) (sn_database (fst s1)) = (Inr (), sn_database (fst s)) else sn_database (fst s1) = sn_database (fst s)))"
proof -
  let ?d = "sn_database (fst s)" and ?task = "\<lparr>td_task_id = pv_task_id p, td_mode = pv_topology p, td_role = pv_invited_role p, td_root_path = root\<rparr>"
  show ?thesis
  proof (cases "FindTask (pv_task_id p) (db_tables ?d)")
    case (Inl x)
    then show ?thesis using assms(4) by (auto simp: invited_task_def bindS_def liftS_def)
  next
    case (Inr found)
    show ?thesis
    proof (cases found)
      case (Some task)
      then show ?thesis
        using assms(2,4) Inr FindTask_id [of "pv_task_id p" "db_tables ?d" task]
        by (auto simp: invited_task_def bindS_def liftS_def Let_def throwS_def returnS_def split: option.splits if_splits)
    next
      case None
      obtain q d1 where create: "CreateTask view ?task ?d = (q, d1)" by fastforce
      show ?thesis
      proof (cases q)
        case (Inl x)
        then show ?thesis
          using assms(4) Inr None create CreateTask_fails [of view ?task ?d x d1]
          by (auto simp: invited_task_def bindS_def thenS_def liftS_def zoomS_def)
      next
        case q: (Inr u)
        then have ok: "CreateTask view ?task ?d = (Inr (), d1)" using create by simp
        have undone: "DeleteTask (pv_task_id p) d1 = (Inr (), ?d)" using created_then_deleted [OF assms(1,2) _ ok] assms(3) by simp
        have d1: "FindTask (pv_task_id p) (db_tables d1) = Inr (Some ((created_row ?task)\<lparr>td_task_id := pv_task_id p\<rparr>))" "db_saved d1 = None"
          using CreateTask_created [OF ok] assms(2,3) row_of_append_fresh [of td_task_id "created_row ?task" "t_tasks (db_tables ?d)"]
          by (auto simp: FindTask_def created_row_def)
        have "invited_task svc view p root s = (Inr (Some ((created_row ?task)\<lparr>td_task_id := pv_task_id p\<rparr>), True), ((fst s)\<lparr>sn_database := d1\<rparr>, snd s))"
          using Inr None ok d1(1) by (simp add: invited_task_def bindS_def thenS_def liftS_def zoomS_def returnS_def)
        then show ?thesis using assms(4) undone d1(2) by (intro disjI2) (auto simp: created_row_def)
      qed
    qed
  qed
qed

text \<open>
  C20: a join that fails changes nothing.  Whatever makes joining an invitation throw, a token that cannot be read, a folder that does not exist, a task
  that does not match, a tracker that refuses, answers nonsense or does not know the device that invited, the database is the one it was before;
  in particular no task is left behind.
\<close>

theorem failed_join_changes_nothing:
  assumes "JoinInvitation svc world identity view token root s = (Inl e, s')"
    and "db_inv (sn_database (fst s))" "db_saved (sn_database (fst s)) = None"
  shows "sn_database (fst s') = sn_database (fst s)"
proof -
  show ?thesis
  proof (cases "s' = s")
    case False
    then obtain p where p: "ParseInvitation token = Inr p"
      using assms(1) by (cases "ParseInvitation token") (auto simp: JoinInvitation_def bindS_def liftS_def)
    then have sound: "pv_task_id p \<noteq> []" using ParseInvitation_sound by (auto simp: sound_invitation_def)
    have directory: "\<not> (root = [] \<or> \<not> view_is_directory view root)"
      using assms(1) False p by (auto simp: JoinInvitation_def bindS_def [of "liftS _"] liftS_def thenS_def bindS_def [of "guardS _ _"] guardS_def split: if_splits)
    obtain role where role: "pairing_ParseRole (pv_invited_role p) = Inr role"
      using assms(1) False p directory by (cases "pairing_ParseRole (pv_invited_role p)")
        (auto simp: JoinInvitation_def bindS_def [of "liftS _"] liftS_def thenS_def bindS_def [of "guardS _ _"] guardS_def)
    obtain q s1 where task: "invited_task svc view p root s = (q, s1)" by (rule prod.exhaust)
    note outcomes = invited_task_cases [OF assms(2,3) _ task]
    have run: "JoinInvitation svc world identity view token root s = (case q of Inl x \<Rightarrow> (Inl x, s1) | Inr (t, created) \<Rightarrow>
        catchS (redeem svc world identity p role t)
          (\<lambda>e. thenS (if created then pr_device (node_db (DeleteTask (pv_task_id p))) else returnS ()) (throwS e)) s1)"
      using p role task directory
      by (auto simp: JoinInvitation_def bindS_def [of "liftS _"] bindS_def [of "invited_task _ _ _ _"] liftS_def thenS_def [of "guardS _ _"]
          bindS_def [of "guardS _ _"] guardS_def split: sum.splits)
    show ?thesis
    proof (cases q)
      case (Inl x)
      then show ?thesis using outcomes sound run assms(1) by auto
    next
      case (Inr tc)
      then obtain t created where q: "q = Inr (Some t, created)" "td_task_id t = pv_task_id p" "db_saved (sn_database (fst s1)) = None"
          "if created then DeleteTask (pv_task_id p) (sn_database (fst s1)) = (Inr (), sn_database (fst s)) else sn_database (fst s1) = sn_database (fst s)"
        using outcomes sound by auto
      obtain r s2 where redeemed: "redeem svc world identity p role (Some t) s1 = (r, s2)" by (rule prod.exhaust)
      show ?thesis
        using redeem_cases [OF q(3,2) _ redeemed] sound run q redeemed assms(1)
        by (cases r) (auto simp: catchS_def thenS_def bindS_def zoomS_def throwS_def returnS_def split: if_splits)
    qed
  qed simp
qed


section \<open>A join that succeeds\<close>

lemma row_of_fold_upsert:
  "row_of key k (fold (\<lambda>m. upsert_row key (f m)) ms t) =
    (case find (\<lambda>m. key (f m) = k) (rev ms) of Some m \<Rightarrow> Some (f m) | None \<Rightarrow> row_of key k t)"
proof (induction ms rule: rev_induct)
  case (snoc m ms)
  then show ?case by (auto simp: row_of_upsert)
qed simp

text \<open>The row kept for a device is that of its last entry in the list of members.\<close>

lemma enrolled_member:
  "row_of member_key (cstr k, d) (t_task_members (enrolled k url now e t)) =
    (case find (\<lambda>m. cstr (mb_device_id m) = d) (rev (te_members e)) of
       Some m \<Rightarrow> Some (stored_member k now m) | None \<Rightarrow> row_of member_key (cstr k, d) (t_task_members t))"
  by (simp add: enrolled_def row_of_fold_upsert stored_member_def split: option.splits)

lemma find_rev_unique:
  assumes "distinct (map f ms)" "m \<in> set ms" "f m = x"
  shows "find (\<lambda>m. f m = x) (rev ms) = Some m"
proof -
  have "find (\<lambda>m. f m = x) ns = Some m" if "m \<in> set ns" "inj_on f (set ns)" for ns
    using that assms(3) by (induction ns) (auto simp: inj_on_def)
  then show ?thesis using assms(1,2) by (simp add: distinct_map)
qed

lemma join_success:
  assumes "JoinInvitation svc world identity view token root s = (Inr c, s')"
    and "db_inv (sn_database (fst s))" "db_saved (sn_database (fst s)) = None"
  shows "\<exists>p e now t. ParseInvitation token = Inr p \<and> complete_enrollment e \<and>
    (\<exists>m \<in> set (te_members e). mb_device_id m = pv_creator_device_id p \<and> mb_fingerprint m = pv_creator_fingerprint p) \<and>
    c = (stored_connection (pv_task_id p) (pv_tracker_url p) now e)\<lparr>tc_task_id := pv_task_id p\<rparr> \<and>
    db_tables (sn_database (fst s')) = enrolled (pv_task_id p) (pv_tracker_url p) now e t"
proof -
  obtain p where p: "ParseInvitation token = Inr p"
    using assms(1) by (cases "ParseInvitation token") (auto simp: JoinInvitation_def bindS_def liftS_def)
  then have sound: "pv_task_id p \<noteq> []" using ParseInvitation_sound by (auto simp: sound_invitation_def)
  obtain role t created s1 where task: "invited_task svc view p root s = (Inr (t, created), s1)"
    and caught: "catchS (redeem svc world identity p role t)
      (\<lambda>e. thenS (if created then pr_device (node_db (DeleteTask (pv_task_id p))) else returnS ()) (throwS e)) s1 = (Inr c, s')"
    using assms(1) p by (auto simp: JoinInvitation_def bind_returns liftS_def thenS_def [of "guardS _ _"] guardS_def split: if_splits)
  obtain r s2 where redeemed: "redeem svc world identity p role t s1 = (r, s2)" by (rule prod.exhaust)
  obtain x where x: "r = Inr x" "x = c" "s2 = s'"
    using caught redeemed by (cases r) (auto simp: catchS_def thenS_def bindS_def throwS_def split: sum.splits prod.splits)
  obtain task where t: "t = Some task" "td_task_id task = pv_task_id p" "db_saved (sn_database (fst s1)) = None"
    using invited_task_cases [OF assms(2,3) sound task] by auto
  show ?thesis using redeem_cases [OF t(3,2) sound] redeemed x t(1) p by fastforce
qed

text \<open>
  Who is joined.  When joining an invitation succeeds, the connection that is returned and stored is that of the invited task with the tracker of
  the invitation; and when the tracker lists no device twice, the member stored for the device that invited has the fingerprint of the
  invitation and is not revoked.
\<close>

theorem join_stores_creator:
  assumes "JoinInvitation svc world identity view token root s = (Inr c, s')"
    and "db_inv (sn_database (fst s))" "db_saved (sn_database (fst s)) = None"
  shows "\<exists>p (e :: TrackerEnrollment). ParseInvitation token = Inr p \<and> tc_task_id c = pv_task_id p \<and> tc_tracker_url c = cstr (pv_tracker_url p) \<and>
    tc_room_id c = cstr (te_room_id e) \<and> tc_authorization_digest c = cstr (te_authorization_digest e) \<and>
    FindTaskConnection (pv_task_id p) (db_tables (sn_database (fst s'))) = Inr (Some c) \<and>
    (distinct (map (\<lambda>m. cstr (mb_device_id m)) (te_members e)) \<longrightarrow>
      (\<exists>row. row_of member_key (cstr (pv_task_id p), cstr (pv_creator_device_id p)) (t_task_members (db_tables (sn_database (fst s')))) = Some row \<and>
        tm_fingerprint row = cstr (pv_creator_fingerprint p) \<and> \<not> tm_revoked row))"
proof -
  obtain p and e :: TrackerEnrollment and now t m where p: "ParseInvitation token = Inr p" and m: "m \<in> set (te_members e)" "mb_device_id m = pv_creator_device_id p"
      "mb_fingerprint m = pv_creator_fingerprint p"
    and c: "c = (stored_connection (pv_task_id p) (pv_tracker_url p) now e)\<lparr>tc_task_id := pv_task_id p\<rparr>"
    and stored: "db_tables (sn_database (fst s')) = enrolled (pv_task_id p) (pv_tracker_url p) now e t"
    using join_success [OF assms] by blast
  have "pv_task_id p \<noteq> []" using ParseInvitation_sound [OF p] by (simp add: sound_invitation_def)
  then have "FindTaskConnection (pv_task_id p) (db_tables (sn_database (fst s'))) = Inr (Some c)"
    using c stored by (simp add: FindTaskConnection_enrolled)
  moreover have "\<exists>row. row_of member_key (cstr (pv_task_id p), cstr (pv_creator_device_id p)) (t_task_members (db_tables (sn_database (fst s')))) = Some row \<and>
      tm_fingerprint row = cstr (pv_creator_fingerprint p) \<and> \<not> tm_revoked row" if "distinct (map (\<lambda>m. cstr (mb_device_id m)) (te_members e))"
    using find_rev_unique [OF that m(1) refl] m(2,3) by (simp add: stored enrolled_member stored_member_def)
  ultimately show ?thesis using p c by (intro exI [of _ p] exI [of _ e]) (simp add: stored_connection_def)
qed


section \<open>Which row of the tracker counts\<close>

lemma CreateTask_ok:
  assumes "db_inv d" "\<not> task_exists (cstr (td_task_id task)) (db_tables d)" "td_task_id task \<noteq> []" "td_root_path task \<noteq> []"
    and "check_outside_root view (td_root_path task) = Inr ()" "(td_mode task, td_role task) \<in> {(''one_way'', ''target''), (''bidirectional'', ''peer'')}"
  shows "\<exists>d1. CreateTask view task d = (Inr (), d1)"
proof -
  have "\<not> has_key rt_task_id (cstr (td_task_id task)) (t_task_runtime (db_tables d))"
  proof -
    have "rt_task_id ` set (t_task_runtime (db_tables d)) = task_keys (db_tables d)"
      using assms(1) unfolding db_inv_def tables_inv_def refs_inv_def by blast
    then show ?thesis using assms(2) unfolding has_key_def by blast
  qed
  moreover have "cstr (td_mode task) \<in> {''one_way'', ''bidirectional''}" "cstr (td_role task) \<in> {''source'', ''target'', ''peer''}"
    using assms(6) by (auto simp: cstr_def)
  ultimately have "insert_task (created_row task) (db_tables d) = Inr ((db_tables d)\<lparr>t_tasks := t_tasks (db_tables d) @ [created_row task],
      t_task_runtime := t_task_runtime (db_tables d) @ [default_runtime (cstr (td_task_id task))]\<rparr>)"
    using assms(2) by (simp add: insert_task_def created_row_def)
  moreover have "\<not> ((td_mode task = ''one_way'' \<and> td_role task \<noteq> ''source'' \<and> td_role task \<noteq> ''target'') \<or> (td_mode task = ''bidirectional'' \<and> td_role task \<noteq> ''peer''))"
    using assms(6) by auto
  ultimately show ?thesis
    using assms(3-5) unfolding CreateTask_def created_row_def by (simp add: statement_def thenS_def bindS_def guardS_def liftS_def)
qed

lemma redeem_answered:
  assumes "\<And>c. \<exists>c'. SignedPost world identity ''/v1/invitations/redeem'' (record_line [EncodeField code, EncodeField k, RoleName role]) False c =
      (Inr \<lparr>hr_status = 200, hr_body = enrollment_response e\<rparr>, c')" "complete_enrollment e"
  shows "\<exists>c h'. on_client client (RedeemInvitation world identity code k role) s = (Inr (e, c), (fst s, h'))"
proof -
  obtain c' where "SignedPost world identity ''/v1/invitations/redeem'' (record_line [EncodeField code, EncodeField k, RoleName role]) False
      (client\<lparr>tk_transport := snd s\<rparr>) = (Inr \<lparr>hr_status = 200, hr_body = enrollment_response e\<rparr>, c')" using assms(1) by blast
  then have "RedeemInvitation world identity code k role (client\<lparr>tk_transport := snd s\<rparr>) = (Inr e, c'\<lparr>tk_enrollment := Some e\<rparr>)"
    using ParseEnrollment_written [OF assms(2)] assms(2)
    by (simp add: RedeemInvitation_def enroll_def UseEnrollment_def complete_enrollment_def thenS_def bindS_def liftS_def guardS_def modifyS_def returnS_def)
  then show ?thesis by (simp add: on_client_def)
qed

text \<open>
  The last row wins.  When a device joins an invitation to a task that it does not have yet, and the tracker answers with a complete enrollment
  that names the inviting device with the right fingerprint, the join succeeds; but what is stored for that device is the last row
  of the answer that names it, also when that row has another fingerprint than the one that was checked.
\<close>

theorem last_member_row_wins:
  assumes "ParseInvitation token = Inr p" "root \<noteq> []" "view_is_directory view root" "check_outside_root view root = Inr ()"
    and "db_inv (sn_database (fst s))" "db_saved (sn_database (fst s)) = None" "\<not> task_exists (cstr (pv_task_id p)) (db_tables (sn_database (fst s)))"
    and "\<And>role c. \<exists>c'. SignedPost world identity ''/v1/invitations/redeem''
        (record_line [EncodeField (pv_code p), EncodeField (pv_task_id p), RoleName role]) False c =
      (Inr \<lparr>hr_status = 200, hr_body = enrollment_response e\<rparr>, c')"
    and "complete_enrollment e" "\<forall>m \<in> set (te_members e). mb_device_id m \<noteq> [] \<and> length (mb_fingerprint m) = 64"
    and "good \<in> set (te_members e)" "mb_device_id good = pv_creator_device_id p" "mb_fingerprint good = pv_creator_fingerprint p"
    and "find (\<lambda>m. cstr (mb_device_id m) = cstr (pv_creator_device_id p)) (rev (te_members e)) = Some m"
    and "\<exists>c. c \<in> set (pv_tracker_url p) \<and> c \<noteq> CHR ''/''" "0 < svc_now svc (sn_calls (fst s))"
  shows "\<exists>c s' row. JoinInvitation svc world identity view token root s = (Inr c, s') \<and>
    row_of member_key (cstr (pv_task_id p), cstr (pv_creator_device_id p)) (t_task_members (db_tables (sn_database (fst s')))) = Some row \<and>
    tm_fingerprint row = cstr (mb_fingerprint m)"
proof -
  let ?d = "sn_database (fst s)" and ?url = "pv_tracker_url p" and ?k = "pv_task_id p" and ?now = "svc_now svc (sn_calls (fst s))"
  let ?task = "\<lparr>td_task_id = ?k, td_mode = pv_topology p, td_role = pv_invited_role p, td_root_path = root\<rparr>"
  have sound: "sound_invitation p" by (rule ParseInvitation_sound [OF assms(1)])
  then have k: "?k \<noteq> []" "?url \<noteq> []" and roles: "(pv_topology p, pv_invited_role p) \<in> {(''one_way'', ''target''), (''bidirectional'', ''peer'')}"
    by (auto simp: sound_invitation_def)
  obtain role where role: "pairing_ParseRole (pv_invited_role p) = Inr role" using roles by (auto simp: pairing_ParseRole_def)
  obtain d1 where create: "CreateTask view ?task ?d = (Inr (), d1)" using CreateTask_ok [of ?d ?task view] assms(2,4,5,7) k roles by auto
  note d1 = CreateTask_created [OF create]
  have "FindTask ?k (db_tables ?d) = Inr None" using k assms(7) by (simp add: FindTask_def row_of_None_iff)
  moreover have "FindTask ?k (db_tables d1) = Inr (Some ((created_row ?task)\<lparr>td_task_id := ?k\<rparr>))"
    using d1 k row_of_append_fresh [of td_task_id "created_row ?task" "t_tasks (db_tables ?d)"] by (auto simp: FindTask_def created_row_def)
  ultimately have task: "invited_task svc view p root s = (Inr (Some ((created_row ?task)\<lparr>td_task_id := ?k\<rparr>), True), ((fst s)\<lparr>sn_database := d1\<rparr>, snd s))"
    using create by (simp add: invited_task_def bindS_def thenS_def liftS_def zoomS_def returnS_def)
  let ?s1 = "((fst s)\<lparr>sn_database := d1\<rparr>, snd s)" and ?t = "(created_row ?task)\<lparr>td_task_id := ?k\<rparr>"
  obtain client where client: "open_client ?url ?s1 = (Inr client, ?s1)"
    using assms(15) by (cases "\<forall>x \<in> set ?url. x = CHR ''/''") (auto simp: open_client_def TrackerClient_new_def liftS_def Let_def dropWhile_eq_Nil_conv)
  obtain c h' where ask: "on_client client (RedeemInvitation world identity (pv_code p) ?k role) ?s1 = (Inr (e, c), (fst ?s1, h'))"
    using redeem_answered [OF assms(8,9)] by blast
  have "enrollable ?k ?url ?now e (db_tables d1)"
    using k assms(9,10,16) d1 by (auto simp: enrollable_def complete_enrollment_def created_row_def has_key_def)
  moreover have "db_saved d1 = None" using d1 assms(6) by simp
  ultimately have persist: "PersistEnrollment svc ?t ?url e (fst ?s1) = (Inr (), (fst ?s1)\<lparr>sn_calls := Suc (sn_calls (fst s)),
      sn_database := d1\<lparr>db_tables := enrolled ?k ?url ?now e (db_tables d1)\<rparr>\<rparr>)"
    using persist_run [of "fst ?s1" ?t ?url svc e] by simp
  have "\<exists>x s'. JoinInvitation svc world identity view token root s = (Inr x, s') \<and> db_tables (sn_database (fst s')) = enrolled ?k ?url ?now e (db_tables d1)"
    using assms(1-3,11-13) role task client ask persist k
    by (auto simp: JoinInvitation_def redeem_def bindS_def thenS_def liftS_def guardS_def catchS_def zoomS_def returnS_def FindTaskConnection_enrolled)
  then show ?thesis using assms(14) by (auto simp: enrolled_member stored_member_def)
qed


section \<open>Instances\<close>

definition demo_identity :: DeviceIdentity where
  "demo_identity = DeviceIdentity_new (\<lambda>_. replicate 32 1) (\<lambda>_. ''key'') (\<lambda>_. Inr ''signature'') []"

definition demo_parsed :: ParsedInvitation where
  "demo_parsed = \<lparr>pv_tracker_url = ''http://x'', pv_task_id = ''u'', pv_topology = ''one_way'', pv_invited_role = ''target'', pv_code = ''c'',
     pv_creator_device_id = replicate 32 (CHR ''a''), pv_creator_fingerprint = replicate 64 (CHR ''b'')\<rparr>"

definition demo_room_of :: "string \<Rightarrow> TrackerEnrollment" where
  "demo_room_of last_fingerprint = \<lparr>te_room_id = ''room'', te_authorization_digest = replicate 64 (CHR ''d''), te_session_token = ''s'',
     te_session_expires_at_ms = 9, te_members = [
       \<lparr>mb_device_id = replicate 32 (CHR ''a''), mb_fingerprint = replicate 64 (CHR ''b''), mb_role = kSource\<rparr>,
       \<lparr>mb_device_id = replicate 32 (CHR ''a''), mb_fingerprint = last_fingerprint, mb_role = kSource\<rparr>]\<rparr>"

definition demo_tracker :: "u16 \<Rightarrow> string \<Rightarrow> unit TrackerWorld" where
  "demo_tracker status answer = \<lparr>tw_seconds = returnS 7, tw_nonce = returnS ''n'', tw_post = (\<lambda>_ _ _ _. returnS \<lparr>hr_status = status, hr_body = answer\<rparr>),
     tw_blake3 = (\<lambda>b. b)\<rparr>"

definition demo_path_view :: path_view where
  "demo_path_view = \<lparr>view_is_directory = \<lambda>_. True, view_database_ancestors = Some [], view_equivalent = \<lambda>_ _. False\<rparr>"

definition demo_paired :: "Device \<times> unit" where
  "demo_paired = (\<lparr>sn_database = demo_database, sn_files = demo_fs, sn_calls = 0\<rparr>, ())"

lemma demo_paired_facts: "db_inv (sn_database (fst demo_paired))" "db_saved (sn_database (fst demo_paired)) = None"
  using demo_database_inv demo_tables by (simp_all add: demo_paired_def)

definition demo_invitation :: PairingInvitation where
  "demo_invitation = (case fst (pairing_CreateInvitation demo_services
       (demo_tracker 200 (''INVITE'' @ [tab] @ ''c'' @ [newline] @ enrollment_response (demo_room_of (replicate 64 (CHR ''b''))))) demo_identity ''t'' ''http://x'' demo_paired) of
     Inr i \<Rightarrow> i | Inl _ \<Rightarrow> \<lparr>pi_token = [], pi_code = [], pi_room_id = [], pi_task_id = [], pi_tracker_url = [], pi_invited_role = []\<rparr>)"

theorem invitation_roundtrip_witness: "\<exists>p. ParseInvitation (pi_token demo_invitation) = Inr p \<and> pv_task_id p = ''t'' \<and> pv_code p = ''c''"
proof -
  let ?run = "pairing_CreateInvitation demo_services
       (demo_tracker 200 (''INVITE'' @ [tab] @ ''c'' @ [newline] @ enrollment_response (demo_room_of (replicate 64 (CHR ''b''))))) demo_identity ''t'' ''http://x'' demo_paired"
  have "\<not> isl (fst ?run)" "pi_code demo_invitation = ''c''" by code_simp+
  then have "?run = (Inr demo_invitation, snd ?run)" by (cases "fst ?run") (auto simp: demo_invitation_def intro: prod_eqI)
  from invitation_roundtrip [OF this _ demo_identity_def] show ?thesis using \<open>pi_code demo_invitation = ''c''\<close> by force
qed

theorem failed_join_changes_nothing_witness:
  "sn_database (fst (snd (JoinInvitation demo_services (demo_tracker 500 []) demo_identity demo_path_view (InvitationToken demo_parsed) ''r'' demo_paired))) = demo_database"
proof -
  let ?run = "JoinInvitation demo_services (demo_tracker 500 []) demo_identity demo_path_view (InvitationToken demo_parsed) ''r'' demo_paired"
  have "isl (fst ?run)" by code_simp
  then obtain e where "?run = (Inl e, snd ?run)" by (metis isl_def prod.collapse)
  from failed_join_changes_nothing [OF this demo_paired_facts] show ?thesis by (simp add: demo_paired_def)
qed

theorem join_stores_creator_witness:
  "\<exists>c s'. JoinInvitation demo_services (demo_tracker 200 (enrollment_response (demo_room_of (replicate 64 (CHR ''b''))))) demo_identity demo_path_view
     (InvitationToken demo_parsed) ''r'' demo_paired = (Inr c, s') \<and> FindTaskConnection ''u'' (db_tables (sn_database (fst s'))) = Inr (Some c)"
proof -
  let ?run = "JoinInvitation demo_services (demo_tracker 200 (enrollment_response (demo_room_of (replicate 64 (CHR ''b''))))) demo_identity demo_path_view
     (InvitationToken demo_parsed) ''r'' demo_paired"
  have "\<not> isl (fst ?run)" by code_simp
  then obtain c where run: "?run = (Inr c, snd ?run)" by (metis isl_def prod.collapse sum.exhaust)
  have "ParseInvitation (InvitationToken demo_parsed) = Inr demo_parsed" by (simp add: token_roundtrip sound_invitation_def demo_parsed_def)
  with join_stores_creator [OF run demo_paired_facts]
  have "FindTaskConnection (pv_task_id demo_parsed) (db_tables (sn_database (fst (snd ?run)))) = Inr (Some c)" by auto
  then show ?thesis using run unfolding demo_parsed_def ParsedInvitation.select_convs by blast
qed

theorem last_member_row_wins_witness:
  "\<exists>c s' row. JoinInvitation demo_services (demo_tracker 200 (enrollment_response (demo_room_of (replicate 64 (CHR ''e''))))) demo_identity demo_path_view
     (InvitationToken demo_parsed) ''r'' demo_paired = (Inr c, s') \<and>
     row_of member_key (''u'', replicate 32 (CHR ''a'')) (t_task_members (db_tables (sn_database (fst s')))) = Some row \<and>
     tm_fingerprint row = replicate 64 (CHR ''e'')"
proof -
  let ?e = "demo_room_of (replicate 64 (CHR ''e''))"
  let ?good = "\<lparr>mb_device_id = replicate 32 (CHR ''a''), mb_fingerprint = replicate 64 (CHR ''b''), mb_role = kSource\<rparr>"
  let ?last = "\<lparr>mb_device_id = replicate 32 (CHR ''a''), mb_fingerprint = replicate 64 (CHR ''e''), mb_role = kSource\<rparr>"
  have token: "ParseInvitation (InvitationToken demo_parsed) = Inr demo_parsed" by (simp add: token_roundtrip sound_invitation_def demo_parsed_def)
  have answer: "\<exists>c'. SignedPost (demo_tracker 200 (enrollment_response ?e)) demo_identity path body False c =
      (Inr \<lparr>hr_status = 200, hr_body = enrollment_response ?e\<rparr>, c')" for path body and c :: "unit TrackerClient"
    by (simp add: SignedPost_def demo_tracker_def demo_identity_def DeviceIdentity_new_def Let_def bindS_def thenS_def liftS_def returnS_def guardS_def getS_def zoomS_def)
  have complete: "complete_enrollment ?e" by (simp add: complete_enrollment_def demo_room_of_def)
  have clean: "cstr (replicate n (CHR ''a'')) = replicate n (CHR ''a'')" "cstr (replicate n (CHR ''e'')) = replicate n (CHR ''e'')" for n
    by (induction n) (simp_all add: cstr_def)
  have "\<exists>c s' row. JoinInvitation demo_services (demo_tracker 200 (enrollment_response ?e)) demo_identity demo_path_view
     (InvitationToken demo_parsed) ''r'' demo_paired = (Inr c, s') \<and>
     row_of member_key (cstr (pv_task_id demo_parsed), cstr (pv_creator_device_id demo_parsed)) (t_task_members (db_tables (sn_database (fst s')))) = Some row \<and>
     tm_fingerprint row = cstr (mb_fingerprint ?last)"
  proof (rule last_member_row_wins [OF token _ _ _ demo_paired_facts _ answer complete, of _ _ ?good])
    show "find (\<lambda>m. cstr (mb_device_id m) = cstr (pv_creator_device_id demo_parsed)) (rev (te_members ?e)) = Some ?last"
      by (simp add: demo_room_of_def demo_parsed_def)
    show "0 < svc_now demo_services (sn_calls (fst demo_paired))" by (simp add: demo_services_def demo_paired_def)
    show "\<exists>c. c \<in> set (pv_tracker_url demo_parsed) \<and> c \<noteq> CHR ''/''" by (simp add: demo_parsed_def) blast
  qed (simp_all add: demo_path_view_def check_outside_root_def demo_parsed_def demo_room_of_def demo_paired_def demo_database_def has_key_def cstr_def)
  then show ?thesis by (simp add: clean) (simp add: demo_parsed_def clean cstr_def [of "''u''"])
qed

end
