(* ===== verification/Ipc_Service.thy ===== *)
theory Ipc_Service
  imports Task_Runtime Pairing_Service
begin

text \<open>
  The command router of the desktop shell (\<^verbatim>\<open>engine/ipc/ipc_service.cpp\<close>): requests and answers are lines of tab-separated, percent-escaped
  fields.  The state is the task runtime with the database and the files of the device, and the outside world of pairing.  The
  services that may be absent are options, as the code has pointers that may be null.  The network session manager is an interface
  here, and so is what other threads do while a request sleeps.  A command that waits for a scan of a task to end is
  called when none runs.
\<close>

section \<open>Texts\<close>

definition ipc_plain :: "char \<Rightarrow> bool" where
  "ipc_plain c \<longleftrightarrow> \<not> (c = CHR ''%'' \<or> c = CHR 0x09 \<or> c = CHR 0x0D \<or> c = CHR 0x0A)"

definition Escape :: "string \<Rightarrow> string" where
  "Escape = percent_encode ipc_plain"

definition Unescape :: "string \<Rightarrow> string result" where
  "Unescape = percent_decode (Invalid_argument ''invalid IPC escape'')"

definition ipc_Fields :: "string \<Rightarrow> string list result" where
  "ipc_Fields request = mapE Unescape (split_on tab request)"

abbreviation ipc_line :: "string list \<Rightarrow> string" where
  "ipc_line pieces \<equiv> join_with tab pieces @ [newline]"

abbreviation ipc_lines :: "string list list \<Rightarrow> string" where
  "ipc_lines rows \<equiv> concat (map ipc_line rows)"

definition Ok_text :: "string \<Rightarrow> string" where
  "Ok_text message = (if message = [] then ipc_line [''OK''] else ipc_line [''OK'', Escape message])"

definition Error_text :: "string \<Rightarrow> string" where
  "Error_text message = ipc_line [''ERR'', Escape message]"

definition ParseLimit :: "string \<Rightarrow> nat result" where
  "ParseLimit value =
     (case from_chars_unsigned 64 value of None \<Rightarrow> Inl (Invalid_argument ''invalid event limit'') | Some limit \<Rightarrow> Inr limit)"

definition flag :: "bool \<Rightarrow> string" where
  "flag b = (if b then ''1'' else ''0'')"

definition optional_time :: "int option \<Rightarrow> string" where
  "optional_time t = (case t of None \<Rightarrow> [] | Some n \<Rightarrow> int_to_string n)"

definition value_or_empty :: "string option \<Rightarrow> string" where
  "value_or_empty s = (case s of None \<Rightarrow> [] | Some text \<Rightarrow> text)"

definition CountTasks :: "tables \<Rightarrow> nat" where
  "CountTasks t = length (t_tasks t)"

section \<open>Services\<close>

record NetworkMetrics =
  nm_bytes_sent :: nat
  nm_bytes_received :: nat
  nm_send_bytes_per_second :: nat
  nm_receive_bytes_per_second :: nat
  nm_pending_downloads :: nat
  nm_buffered_bytes :: nat
  nm_connected_peers :: nat
  nm_download_total_bytes :: nat
  nm_download_received_bytes :: nat

type_synonym 'h engine = "TaskRuntimeManager \<times> 'h"
type_synonym ('h, 'a) ipc_op = "('h engine, 'a) op"

record 'h NetworkLinks =
  nw_TaskChanged :: "string \<Rightarrow> ('h, unit) ipc_op"
  nw_TaskDeleting :: "string \<Rightarrow> ('h, unit) ipc_op"
  nw_PauseTask :: "string \<Rightarrow> ('h, unit) ipc_op"
  nw_ResumeTask :: "string \<Rightarrow> ('h, unit) ipc_op"
  nw_Metrics :: "string \<Rightarrow> 'h engine \<Rightarrow> NetworkMetrics"
  nw_Propose :: "string \<Rightarrow> string \<Rightarrow> string \<Rightarrow> string \<Rightarrow> ('h, unit) ipc_op"

record 'h IpcService =
  ip_pairing :: "('h TrackerWorld \<times> DeviceIdentity) option"
  ip_runtime :: "(nat \<Rightarrow> string option) option"
  ip_network :: "'h NetworkLinks option"
  ip_proposer :: "(string \<Rightarrow> string \<Rightarrow> string \<Rightarrow> string \<Rightarrow> ('h, unit) ipc_op) option"
  ip_view :: path_view
  ip_meanwhile :: "'h engine \<Rightarrow> 'h engine"

definition with_network :: "'h IpcService \<Rightarrow> ('h NetworkLinks \<Rightarrow> ('h, unit) ipc_op) \<Rightarrow> ('h, unit) ipc_op" where
  "with_network ipc call = (case ip_network ipc of None \<Rightarrow> returnS () | Some network \<Rightarrow> call network)"

definition with_runtime :: "'h IpcService \<Rightarrow> ((nat \<Rightarrow> string option) \<Rightarrow> unit mg_op) \<Rightarrow> ('h, unit) ipc_op" where
  "with_runtime ipc call = (case ip_runtime ipc of None \<Rightarrow> returnS () | Some watch \<Rightarrow> pr_device (call watch))"

definition RequireCount :: "string list \<Rightarrow> nat \<Rightarrow> ('h, unit) ipc_op" where
  "RequireCount columns expected = guardS (length columns \<noteq> expected) (Invalid_argument ''invalid IPC command arguments'')"

definition ipc_Record :: "'t Services \<Rightarrow> string option \<Rightarrow> string \<Rightarrow> ('h, unit) ipc_op" where
  "ipc_Record svc task_id message =
     pr_device (bindS (NowMilliseconds svc) (\<lambda>now.
       node_db (RecordEngineEvent \<lparr>ev_event_id = 0, ev_task_id = task_id, ev_level = ''info'', ev_message = message, ev_created_at_ms = now\<rparr>)))"

definition RequireTask :: "string \<Rightarrow> ('h, TaskDefinition) ipc_op" where
  "RequireTask task_id =
     bindS (pr_tables (FindTask task_id)) (\<lambda>task.
     case task of None \<Rightarrow> throwS (Invalid_argument ''task does not exist'') | Some t \<Rightarrow> returnS t)"

definition RequireIgnorePolicyEditor :: "TaskDefinition \<Rightarrow> ('h, unit) ipc_op" where
  "RequireIgnorePolicyEditor task =
     guardS (td_mode task = ''one_way'' \<and> td_role task \<noteq> ''source'') (Invalid_argument ''one-way target ignore policy is read-only'')"

definition ipc_Synchronize :: "'t Services \<Rightarrow> TaskDefinition \<Rightarrow> ('h, IgnorePolicyState) ipc_op" where
  "ipc_Synchronize svc task = pr_device (bindS (NowMilliseconds svc) (\<lambda>now. Synchronize svc (td_task_id task) (td_root_path task) now))"

section \<open>Negotiating a policy\<close>

text \<open>The section before the proposal: the current policy when nothing is to be done.\<close>

definition negotiation_check :: "'t Services \<Rightarrow> 'h IpcService \<Rightarrow> TaskDefinition \<Rightarrow> string \<Rightarrow> string \<Rightarrow> string \<Rightarrow> ('h, IgnorePolicyState option) ipc_op" where
  "negotiation_check svc ipc task expected_hash rules source =
     thenS (liftS (\<lambda>_. Validate rules))
    (thenS (guardS (source \<noteq> ''manual'' \<and> source \<noteq> ''ai'' \<and> source \<noteq> ''undo'') (Invalid_argument ''invalid ignore policy source''))
    (thenS (guardS (ip_network ipc = None \<and> ip_proposer ipc = None) (Runtime_error ''bidirectional ignore policy requires a connected peer''))
    (bindS (ipc_Synchronize svc task) (\<lambda>current.
     thenS (guardS (st_content_hash current \<noteq> expected_hash) (Invalid_argument ''ignore policy changed; refresh before applying''))
    (if st_rules current = rules then returnS (Some current)
     else bindS (getS (\<lambda>s. FindPendingIgnorePolicy (td_task_id task) (db_tables (sn_database (fst s))))) (\<lambda>pending.
       thenS (guardS (case pending of None \<Rightarrow> False | Some p \<Rightarrow> pp_state p \<noteq> ''applied'') (Runtime_error ''ignore policy negotiation is already pending''))
         (returnS None)))))))"

definition propose_policy :: "'h IpcService \<Rightarrow> string \<Rightarrow> string \<Rightarrow> string \<Rightarrow> string \<Rightarrow> ('h, unit) ipc_op" where
  "propose_policy ipc task_id expected_hash rules source =
     (case ip_proposer ipc of
        Some propose \<Rightarrow> propose task_id expected_hash rules source
      | None \<Rightarrow> with_network ipc (\<lambda>network. nw_Propose network task_id expected_hash rules source))"

definition failure_event :: "string \<Rightarrow> int \<Rightarrow> EngineEvent \<Rightarrow> bool" where
  "failure_event task_id started_at event \<longleftrightarrow> ev_task_id event = Some task_id \<and> ev_created_at_ms event \<ge> started_at \<and>
     (take (length ''Ignore policy proposal failed:'') (ev_message event) = ''Ignore policy proposal failed:'' \<or>
      ev_message event = ''Peer rejected ignore policy proposal'')"

definition policy_poll :: "'t Services \<Rightarrow> TaskDefinition \<Rightarrow> string \<Rightarrow> int \<Rightarrow> ('h, IgnorePolicyState option) ipc_op" where
  "policy_poll svc task rules started_at =
     bindS (pr_tables (ListEngineEvents 10)) (\<lambda>events.
     case find (failure_event (td_task_id task) started_at) events of
       Some event \<Rightarrow> throwS (Runtime_error (ev_message event))
     | None \<Rightarrow>
        bindS (getS (\<lambda>s. FindPendingIgnorePolicy (td_task_id task) (db_tables (sn_database (fst s))))) (\<lambda>pending.
        if (case pending of None \<Rightarrow> False | Some p \<Rightarrow> pp_rules p = rules \<and> pp_state p = ''applied'')
        then bindS (ipc_Synchronize svc task) (\<lambda>state. returnS (Some state))
        else bindS (pr_tables (CurrentIgnorePolicyRevision (td_task_id task))) (\<lambda>current.
          returnS (case current of
              None \<Rightarrow> None
            | Some c \<Rightarrow>
                if ip_content_hash c = HashRules (svc_blake3 svc) rules \<and> (case pending of None \<Rightarrow> True | Some p \<Rightarrow> pp_state p = ''applied'')
                then Some (policy_state c) else None))))"

text \<open>Every round sleeps 50 ms of the 10 s, so after 200 rounds the next reading of the clock ends the loop.\<close>

definition kPolicyRounds :: nat where "kPolicyRounds = 201"

fun policy_wait :: "nat \<Rightarrow> 't Services \<Rightarrow> 'h IpcService \<Rightarrow> TaskDefinition \<Rightarrow> string \<Rightarrow> int \<Rightarrow> int \<Rightarrow> ('h, IgnorePolicyState) ipc_op" where
  "policy_wait 0 svc ipc task rules started_at deadline =
     throwS (Runtime_error ''peer has not confirmed ignore policy; pending negotiation will resume on reconnect'')"
| "policy_wait (Suc rounds) svc ipc task rules started_at deadline =
     bindS (pr_device (steady_now svc)) (\<lambda>now.
     if now < deadline
     then thenS (modifyS (ip_meanwhile ipc))
       (bindS (policy_poll svc task rules started_at) (\<lambda>state.
        case state of Some s \<Rightarrow> returnS s | None \<Rightarrow> policy_wait rounds svc ipc task rules started_at deadline))
     else throwS (Runtime_error ''peer has not confirmed ignore policy; pending negotiation will resume on reconnect''))"

definition NegotiatePolicy :: "'t Services \<Rightarrow> 'h IpcService \<Rightarrow> TaskDefinition \<Rightarrow> string \<Rightarrow> string \<Rightarrow> string \<Rightarrow> ('h, IgnorePolicyState) ipc_op" where
  "NegotiatePolicy svc ipc task expected_hash rules source =
     bindS (negotiation_check svc ipc task expected_hash rules source) (\<lambda>current.
     case current of
       Some state \<Rightarrow> returnS state
     | None \<Rightarrow>
        thenS (propose_policy ipc (td_task_id task) expected_hash rules source)
       (bindS (pr_device (NowMilliseconds svc)) (\<lambda>started_at.
        bindS (pr_device (steady_now svc)) (\<lambda>start.
        policy_wait kPolicyRounds svc ipc task rules started_at (start + 10 * 1000)))))"


section \<open>Commands\<close>

definition task_fields :: "TaskRuntimeState \<Rightarrow> string list" where
  "task_fields runtime = [flag (rt_enabled runtime), Escape (rt_status runtime), flag (rt_dirty runtime), optional_time (rt_last_scan_at_ms runtime),
     Escape (value_or_empty (rt_last_error runtime)), Escape (rt_network_status runtime), Escape (value_or_empty (rt_network_error runtime))]"

definition task_columns :: "TaskDefinition \<Rightarrow> string list" where
  "task_columns task = [Escape (td_task_id task), Escape (td_mode task), Escape (td_role task), Escape (td_root_path task)]"

definition metrics_row :: "string \<Rightarrow> NetworkMetrics \<Rightarrow> string list" where
  "metrics_row task_id m = [''METRICS'', Escape task_id, to_string (nm_bytes_sent m), to_string (nm_bytes_received m),
     to_string (nm_send_bytes_per_second m), to_string (nm_receive_bytes_per_second m), to_string (nm_pending_downloads m),
     to_string (nm_buffered_bytes m), to_string (nm_connected_peers m), to_string (nm_download_total_bytes m), to_string (nm_download_received_bytes m)]"

definition event_columns :: "EngineEvent \<Rightarrow> string list" where
  "event_columns event = [int_to_string (ev_event_id event), Escape (value_or_empty (ev_task_id event)), Escape (ev_level event),
     Escape (ev_message event), int_to_string (ev_created_at_ms event)]"

definition conflict_columns :: "ConflictRecord \<Rightarrow> string list" where
  "conflict_columns c = [Escape (cr_conflict_id c), Escape (cr_state c), Escape (cr_original_path c), Escape (cr_conflict_path c), Escape (cr_winning_version_id c)]"

definition task_rows :: "'h IpcService \<Rightarrow> TaskDefinition \<Rightarrow> ('h, string list list) ipc_op" where
  "task_rows ipc task =
     bindS (pr_tables (RuntimeState (td_task_id task))) (\<lambda>runtime.
     getS (\<lambda>s. (''TASK'' # task_columns task @ task_fields runtime) #
       (case ip_network ipc of None \<Rightarrow> [] | Some network \<Rightarrow> [metrics_row (td_task_id task) (nw_Metrics network (td_task_id task) s)])))"

fun collect_rows :: "('x \<Rightarrow> ('h, string list list) ipc_op) \<Rightarrow> 'x list \<Rightarrow> ('h, string list list) ipc_op" where
  "collect_rows rows [] = returnS []"
| "collect_rows rows (x # xs) = bindS (rows x) (\<lambda>first. bindS (collect_rows rows xs) (\<lambda>rest. returnS (first @ rest)))"

definition ipc_dashboard :: "'h IpcService \<Rightarrow> string list \<Rightarrow> ('h, string) ipc_op" where
  "ipc_dashboard ipc columns =
     thenS (RequireCount columns 3)
    (bindS (getS (\<lambda>s. ListTasks (db_tables (sn_database (fst s))))) (\<lambda>tasks.
     bindS (liftS (\<lambda>_. ParseLimit (columns ! 2))) (\<lambda>limit.
     bindS (pr_tables (ListEngineEvents limit)) (\<lambda>events.
     bindS (getS (\<lambda>s. ListAllConflicts (db_tables (sn_database (fst s))))) (\<lambda>conflicts.
     bindS (getS (\<lambda>s. SchemaVersion (db_tables (sn_database (fst s))))) (\<lambda>schema.
     bindS (collect_rows (task_rows ipc) tasks) (\<lambda>rows.
     returnS (ipc_lines ([[''OK'', to_string schema, to_string (length tasks)]] @ rows @
       map (\<lambda>e. ''EVENT'' # event_columns e) events @ map (\<lambda>c. ''CONFLICT'' # conflict_columns c) conflicts @ [[''END'']])))))))))"

definition ipc_create_task :: "'t Services \<Rightarrow> 'h IpcService \<Rightarrow> string list \<Rightarrow> ('h, string) ipc_op" where
  "ipc_create_task svc ipc columns =
     thenS (RequireCount columns 6)
    (thenS (pr_device (node_db (CreateTask (ip_view ipc)
        \<lparr>td_task_id = columns ! 2, td_mode = columns ! 3, td_role = columns ! 4, td_root_path = columns ! 5\<rparr>)))
    (thenS (ipc_Record svc (Some (columns ! 2)) (''Created task '' @ columns ! 2))
    (thenS (with_runtime ipc (\<lambda>watch. TaskCreated svc watch (columns ! 2)))
    (thenS (with_network ipc (\<lambda>network. nw_TaskChanged network (columns ! 2)))
      (returnS (Ok_text []))))))"

definition with_pairing :: "'h IpcService \<Rightarrow> ('h TrackerWorld \<Rightarrow> DeviceIdentity \<Rightarrow> ('h, 'a) ipc_op) \<Rightarrow> ('h, 'a) ipc_op" where
  "with_pairing ipc call =
     (case ip_pairing ipc of None \<Rightarrow> throwS (Runtime_error ''pairing service is unavailable'') | Some (world, identity) \<Rightarrow> call world identity)"

definition ipc_device_identity :: "'h IpcService \<Rightarrow> string list \<Rightarrow> ('h, string) ipc_op" where
  "ipc_device_identity ipc columns =
     thenS (RequireCount columns 2)
    (with_pairing ipc (\<lambda>world identity.
     returnS (ipc_line [''OK'', Escape (di_device_id identity), Escape (di_fingerprint identity), Escape (di_public_key_base64 identity)])))"

definition ipc_create_invitation :: "'t Services \<Rightarrow> 'h IpcService \<Rightarrow> string list \<Rightarrow> ('h, string) ipc_op" where
  "ipc_create_invitation svc ipc columns =
     thenS (RequireCount columns 4)
    (with_pairing ipc (\<lambda>world identity.
     bindS (pr_tables (FindTaskConnection (columns ! 2))) (\<lambda>connection.
     bindS (pairing_CreateInvitation svc world identity (columns ! 2) (columns ! 3)) (\<lambda>invitation.
     thenS (if connection = None then with_network ipc (\<lambda>network. nw_TaskChanged network (columns ! 2)) else returnS ())
    (thenS (ipc_Record svc (Some (columns ! 2)) ''Created pairing invitation'')
      (returnS (ipc_line [''OK'', Escape (pi_token invitation), Escape (pi_code invitation), Escape (pi_room_id invitation)])))))))"

definition ipc_join_invitation :: "'t Services \<Rightarrow> 'h IpcService \<Rightarrow> string list \<Rightarrow> ('h, string) ipc_op" where
  "ipc_join_invitation svc ipc columns =
     thenS (RequireCount columns 4)
    (with_pairing ipc (\<lambda>world identity.
     bindS (liftS (\<lambda>_. ParseInvitation (columns ! 2))) (\<lambda>invitation.
     bindS (JoinInvitation svc world identity (ip_view ipc) (columns ! 2) (columns ! 3)) (\<lambda>connection.
     thenS (with_runtime ipc (\<lambda>watch. TaskCreated svc watch (pv_task_id invitation)))
    (thenS (with_network ipc (\<lambda>network. nw_TaskChanged network (pv_task_id invitation)))
    (thenS (ipc_Record svc (Some (pv_task_id invitation)) ''Joined paired Tracker room'')
      (returnS (ipc_line [''OK'', Escape (pv_task_id invitation), Escape (tc_room_id connection)]))))))))"

definition ipc_delete_task :: "'t Services \<Rightarrow> 'h IpcService \<Rightarrow> string list \<Rightarrow> ('h, string) ipc_op" where
  "ipc_delete_task svc ipc columns =
     thenS (RequireCount columns 3)
    (thenS (with_network ipc (\<lambda>network. nw_TaskDeleting network (columns ! 2)))
    (thenS (with_runtime ipc (\<lambda>_. Runtime_TaskDeleting (columns ! 2)))
    (thenS (pr_device (node_db (DeleteTask (columns ! 2))))
    (thenS (ipc_Record svc None (''Deleted task '' @ columns ! 2))
      (returnS (Ok_text []))))))"

definition ipc_pause_resume :: "'t Services \<Rightarrow> 'h IpcService \<Rightarrow> bool \<Rightarrow> string list \<Rightarrow> ('h, string) ipc_op" where
  "ipc_pause_resume svc ipc pause columns =
     thenS (RequireCount columns 3)
    (thenS (guardS (ip_runtime ipc = None) (Runtime_error ''task runtime is unavailable''))
    (thenS (if pause
         then thenS (with_runtime ipc (\<lambda>_. Runtime_PauseTask svc (columns ! 2))) (with_network ipc (\<lambda>network. nw_PauseTask network (columns ! 2)))
         else thenS (with_runtime ipc (\<lambda>watch. Runtime_ResumeTask svc watch (columns ! 2))) (with_network ipc (\<lambda>network. nw_ResumeTask network (columns ! 2))))
      (returnS (Ok_text []))))"

definition ipc_task_runtime :: "string list \<Rightarrow> ('h, string) ipc_op" where
  "ipc_task_runtime columns =
     thenS (RequireCount columns 3)
    (bindS (pr_tables (RuntimeState (columns ! 2))) (\<lambda>runtime. returnS (ipc_line (''OK'' # task_fields runtime))))"

definition scan_answer :: "ReconcileResult \<Rightarrow> string" where
  "scan_answer result = ipc_line [''OK'', to_string (rr_created_or_changed result), to_string (rr_tombstoned result)]"

definition ipc_scan_task :: "'t Services \<Rightarrow> 'h IpcService \<Rightarrow> string list \<Rightarrow> ('h, string) ipc_op" where
  "ipc_scan_task svc ipc columns =
     thenS (RequireCount columns 4)
    (case ip_runtime ipc of
       Some watch \<Rightarrow> bindS (pr_device (ScanNow svc (columns ! 2))) (\<lambda>result. returnS (scan_answer result))
     | None \<Rightarrow>
        bindS (RequireTask (columns ! 2)) (\<lambda>task.
        thenS (guardS (\<not> CanScanLocalChanges task) (Invalid_argument ''target task cannot scan local changes''))
       (bindS (pr_device (scan_task svc (td_root_path task))) (\<lambda>snapshot.
        bindS (pr_device (bindS (NowMilliseconds svc) (\<lambda>now. run_reconciler svc snapshot
          \<lparr>rc_task_id = columns ! 2, rc_origin_device_id = columns ! 3, rc_logical_clock = 0, rc_now_ms = now\<rparr>))) (\<lambda>result.
        thenS (ipc_Record svc (Some (columns ! 2)) (''Scanned '' @ to_string (length snapshot) @ '' entries''))
          (returnS (scan_answer result)))))))"

section \<open>Ignore policies\<close>

definition ipc_ignore_get :: "'t Services \<Rightarrow> string list \<Rightarrow> ('h, string) ipc_op" where
  "ipc_ignore_get svc columns =
     thenS (RequireCount columns 3)
    (bindS (RequireTask (columns ! 2)) (\<lambda>task.
     bindS (ipc_Synchronize svc task) (\<lambda>policy.
     bindS (pr_tables (ListIgnorePolicyRevisions (td_task_id task) 2)) (\<lambda>history.
     returnS (ipc_line [''OK'', to_string (st_revision policy), Escape (st_content_hash policy), flag (length history > 1), Escape (st_rules policy)])))))"

definition ipc_ignore_context :: "'t Services \<Rightarrow> string list \<Rightarrow> ('h, string) ipc_op" where
  "ipc_ignore_context svc columns =
     thenS (RequireCount columns 5)
    (bindS (RequireTask (columns ! 2)) (\<lambda>task.
     bindS (if columns ! 4 = ''private'' then returnS kPrivate else if columns ! 4 = ''precise'' then returnS kPrecise
       else throwS (Invalid_argument ''ignore context mode is invalid'')) (\<lambda>mode.
     bindS (pr_device (node_files (BuildContext (svc_canonical svc) (svc_view svc) (td_root_path task) (columns ! 3) mode 50000 8192))) (\<lambda>context.
     returnS (ipc_lines ([[''OK'', to_string (ic_scanned_files context), flag (ic_truncated context), Escape (ic_directory_summary context)]] @
       map (\<lambda>p. [''MATCH'', Escape p]) (ic_relevant_paths context) @ map (\<lambda>p. [''COMPARE'', Escape p]) (ic_comparison_paths context) @ [[''END'']]))))))"

definition ipc_ignore_preview :: "'t Services \<Rightarrow> string list \<Rightarrow> ('h, string) ipc_op" where
  "ipc_ignore_preview svc columns =
     thenS (RequireCount columns 4)
    (bindS (RequireTask (columns ! 2)) (\<lambda>task.
     bindS (ipc_Synchronize svc task) (\<lambda>current.
     bindS (pr_tables (ListFileRecords (td_task_id task))) (\<lambda>records.
     let tracked_paths = map fr_relative_path (filter (\<lambda>r. fr_kind r = fkFile) records) in
     bindS (pr_device (node_files (Preview (svc_canonical svc) (svc_view svc) (td_root_path task) (st_rules current) (columns ! 3) tracked_paths 50000 20))) (\<lambda>preview.
     returnS (ipc_lines ([[''OK'', Escape (st_content_hash current), to_string (pv_scanned_files preview), to_string (pv_currently_ignored preview),
         to_string (pv_proposed_ignored preview), to_string (pv_newly_ignored preview), to_string (pv_newly_included preview),
         to_string (pv_tracked_newly_ignored preview), flag (pv_truncated preview)]] @
       map (\<lambda>p. [''IGNORE'', Escape p]) (pv_newly_ignored_samples preview) @ map (\<lambda>p. [''INCLUDE'', Escape p]) (pv_newly_included_samples preview) @
       map (\<lambda>p. [''DELETE'', Escape p]) (pv_tracked_deletion_samples preview) @ [[''END'']])))))))"

definition ipc_ignore_apply :: "'t Services \<Rightarrow> 'h IpcService \<Rightarrow> string list \<Rightarrow> ('h, string) ipc_op" where
  "ipc_ignore_apply svc ipc columns =
     thenS (RequireCount columns 6)
    (bindS (RequireTask (columns ! 2)) (\<lambda>task.
     thenS (RequireIgnorePolicyEditor task)
    (bindS (if td_mode task = ''bidirectional'' then NegotiatePolicy svc ipc task (columns ! 3) (columns ! 4) (columns ! 5)
       else pr_device (bindS (NowMilliseconds svc) (\<lambda>now.
         Policy_Apply svc (td_task_id task) (td_root_path task) (columns ! 3) (columns ! 4) (columns ! 5) now))) (\<lambda>policy.
     thenS (ipc_Record svc (Some (td_task_id task)) (''Applied ignore policy revision '' @ to_string (st_revision policy)))
       (returnS (ipc_line [''OK'', to_string (st_revision policy), Escape (st_content_hash policy)]))))))"

definition ipc_ignore_undo :: "'t Services \<Rightarrow> 'h IpcService \<Rightarrow> string list \<Rightarrow> ('h, string) ipc_op" where
  "ipc_ignore_undo svc ipc columns =
     thenS (RequireCount columns 4)
    (bindS (RequireTask (columns ! 2)) (\<lambda>task.
     thenS (RequireIgnorePolicyEditor task)
    (bindS (if td_mode task = ''bidirectional''
       then bindS (pr_tables (ListIgnorePolicyRevisions (td_task_id task) 2)) (\<lambda>history.
         thenS (guardS (length history < 2) (Invalid_argument ''ignore policy has no previous revision''))
           (NegotiatePolicy svc ipc task (columns ! 3) (ip_content (history ! 1)) ''undo''))
       else pr_device (bindS (NowMilliseconds svc) (\<lambda>now. Policy_Undo svc (td_task_id task) (td_root_path task) (columns ! 3) now))) (\<lambda>policy.
     thenS (ipc_Record svc (Some (td_task_id task)) (''Restored ignore policy revision '' @ to_string (st_revision policy)))
       (returnS (ipc_line [''OK'', to_string (st_revision policy), Escape (st_content_hash policy), Escape (st_rules policy)]))))))"

section \<open>Lists\<close>

definition ipc_list_conflicts :: "string list \<Rightarrow> ('h, string) ipc_op" where
  "ipc_list_conflicts columns =
     thenS (guardS (length columns \<noteq> 2 \<and> length columns \<noteq> 3) (Invalid_argument ''invalid IPC field count''))
    (bindS (if length columns = 3 then pr_tables (ListConflicts (columns ! 2)) else getS (\<lambda>s. ListAllConflicts (db_tables (sn_database (fst s))))) (\<lambda>conflicts.
     returnS (ipc_lines (map (\<lambda>c. ''ROW'' # conflict_columns c) conflicts @ [[''END'']]))))"

definition ipc_resolve_conflict :: "'t Services \<Rightarrow> string list \<Rightarrow> ('h, string) ipc_op" where
  "ipc_resolve_conflict svc columns =
     thenS (RequireCount columns 3)
    (thenS (pr_device (node_db (UpdateConflictState (columns ! 2) ''resolved'')))
    (thenS (ipc_Record svc None (''Resolved conflict '' @ columns ! 2))
      (returnS (Ok_text []))))"

definition ipc_list_events :: "string list \<Rightarrow> ('h, string) ipc_op" where
  "ipc_list_events columns =
     thenS (RequireCount columns 3)
    (bindS (liftS (\<lambda>_. ParseLimit (columns ! 2))) (\<lambda>limit.
     bindS (pr_tables (ListEngineEvents limit)) (\<lambda>events.
     returnS (ipc_lines (map (\<lambda>e. ''ROW'' # event_columns e) events @ [[''END'']])))))"

definition ipc_ping :: "string list \<Rightarrow> ('h, string) ipc_op" where
  "ipc_ping columns = thenS (RequireCount columns 2) (returnS (Ok_text ''pong''))"

definition ipc_status :: "string list \<Rightarrow> ('h, string) ipc_op" where
  "ipc_status columns =
     thenS (RequireCount columns 2)
       (getS (\<lambda>s. let t = db_tables (sn_database (fst s)) in ipc_line [''OK'', to_string (SchemaVersion t), to_string (CountTasks t)]))"

definition ipc_list_tasks :: "string list \<Rightarrow> ('h, string) ipc_op" where
  "ipc_list_tasks columns =
     thenS (RequireCount columns 2)
       (getS (\<lambda>s. ipc_lines (map (\<lambda>t. ''ROW'' # task_columns t) (ListTasks (db_tables (sn_database (fst s)))) @ [[''END'']])))"

definition ipc_shutdown :: "string list \<Rightarrow> ('h, string) ipc_op" where
  "ipc_shutdown columns = thenS (RequireCount columns 2) (returnS (Ok_text []))"

section \<open>The router\<close>

definition kIpcProtocol :: string where "kIpcProtocol = ''VSYNC_IPC/1''"

definition ipc_commands :: "'t Services \<Rightarrow> 'h IpcService \<Rightarrow> (string \<times> (string list \<Rightarrow> ('h, string) ipc_op)) list" where
  "ipc_commands svc ipc =
     [(''ping'', ipc_ping), (''status'', ipc_status), (''dashboard'', ipc_dashboard ipc), (''list_tasks'', ipc_list_tasks),
      (''create_task'', ipc_create_task svc ipc), (''device_identity'', ipc_device_identity ipc),
      (''create_invitation'', ipc_create_invitation svc ipc), (''join_invitation'', ipc_join_invitation svc ipc),
      (''delete_task'', ipc_delete_task svc ipc), (''pause_task'', ipc_pause_resume svc ipc True), (''resume_task'', ipc_pause_resume svc ipc False),
      (''task_runtime'', ipc_task_runtime), (''scan_task'', ipc_scan_task svc ipc), (''ignore_get'', ipc_ignore_get svc),
      (''ignore_context'', ipc_ignore_context svc), (''ignore_preview'', ipc_ignore_preview svc), (''ignore_apply'', ipc_ignore_apply svc ipc),
      (''ignore_undo'', ipc_ignore_undo svc ipc), (''list_conflicts'', ipc_list_conflicts), (''resolve_conflict'', ipc_resolve_conflict svc),
      (''list_events'', ipc_list_events), (''shutdown'', ipc_shutdown)]"

definition ipc_dispatch :: "'t Services \<Rightarrow> 'h IpcService \<Rightarrow> string list \<Rightarrow> ('h, string \<times> bool) ipc_op" where
  "ipc_dispatch svc ipc columns =
     thenS (guardS (length columns < 2 \<or> columns ! 0 \<noteq> kIpcProtocol) (Invalid_argument ''unsupported IPC protocol''))
    (case map_of (ipc_commands svc ipc) (columns ! 1) of
       None \<Rightarrow> throwS (Invalid_argument ''unknown IPC command'')
     | Some command \<Rightarrow> bindS (command columns) (\<lambda>answer. returnS (answer, columns ! 1 = ''shutdown'')))"

text \<open>The answer, whether to shut down, and the state.\<close>

definition Handle :: "'t Services \<Rightarrow> 'h IpcService \<Rightarrow> string \<Rightarrow> 'h engine \<Rightarrow> (string \<times> bool) \<times> 'h engine" where
  "Handle svc ipc request s =
     (case bindS (liftS (\<lambda>_. ipc_Fields request)) (ipc_dispatch svc ipc) s of
        (Inl e, s') \<Rightarrow> ((Error_text (what e), False), s')
      | (Inr answer, s') \<Rightarrow> (answer, s'))"

end
