(* ===== verification/Ipc_Properties.thy ===== *)
theory Ipc_Properties
  imports Ipc_Service Tracker_Client_Properties Runtime_Properties
begin

text \<open>
  What the router guarantees its client: requests and answers can carry any text, every answer can be read back line by line and field by field,
  a request that is not understood changes nothing, and so do queries and attempts to edit the policy of a one-way target.
\<close>

section \<open>Fields\<close>

interpretation ipc_field: field_codec Escape Unescape "{tab, newline, CHR 0x0D}"
proof
  show "Unescape (Escape s) = Inr s" for s
    unfolding Unescape_def Escape_def by (rule percent_roundtrip) (simp add: ipc_plain_def)
  show "c \<notin> set (Escape s)" if "c \<in> {tab, newline, CHR 0x0D}" for c s
    using percent_encode_chars [of c ipc_plain s] that by (auto simp: Escape_def ipc_plain_def kHexUpper_def)
qed

text \<open>
  A request arrives as it was meant.  Any list of texts, whatever characters they have, that is escaped and joined by tabs is read
  back by the service unchanged; and what is sent has no line break in it.
\<close>

theorem request_roundtrip:
  assumes "texts \<noteq> []"
  shows "ipc_Fields (join_with tab (map Escape texts)) = Inr texts \<and> newline \<notin> set (join_with tab (map Escape texts)) \<and>
    CHR 0x0D \<notin> set (join_with tab (map Escape texts))"
  using ipc_field.record_roundtrip [of tab texts] ipc_field.join_free [of newline tab texts] ipc_field.join_free [of "CHR 0x0D" tab texts] assms
  by (simp add: ipc_Fields_def)

lemma Escape_plain: "list_all ipc_plain s \<Longrightarrow> Escape s = s"
  by (induction s) (simp_all add: Escape_def percent_encode_def)

lemma escaped_numbers: "to_string n = Escape (to_string n)" "int_to_string i = Escape (int_to_string i)" "flag b = Escape (flag b)"
    "optional_time t = Escape (optional_time t)"
proof -
  have chars: "ipc_plain c" if "is_digit c \<or> c = CHR ''-''" for c using that by (auto simp: ipc_plain_def is_digit_def)
  show "to_string n = Escape (to_string n)"
    using decimal_to_string [of n] chars by (intro Escape_plain [symmetric]) (simp add: list_all_iff)
  show int: "int_to_string i = Escape (int_to_string i)" for i
    using int_to_string_chars [of _ i] chars by (intro Escape_plain [symmetric]) (auto simp: list_all_iff)
  show "flag b = Escape (flag b)" by (rule Escape_plain [symmetric]) (simp add: flag_def ipc_plain_def)
  show "optional_time t = Escape (optional_time t)"
    using int by (cases t) (simp_all add: optional_time_def Escape_plain)
qed

section \<open>Answers\<close>

text \<open>
  The shape of a command's answer: one line with a number of columns after its tag, or a table that may begin with such a line,
  has rows of given tags and numbers of columns, and ends with an end mark.
\<close>

datatype layout = OneLine nat | Table "nat option" "(string \<times> nat) list"

definition body_follows :: "(string \<times> nat) list \<Rightarrow> string list list \<Rightarrow> bool" where
  "body_follows kinds rows \<longleftrightarrow> rows \<noteq> [] \<and> last rows = [''END''] \<and> (\<forall>row \<in> set (butlast rows). row \<noteq> [] \<and> (hd row, length (tl row)) \<in> set kinds)"

fun follows :: "layout \<Rightarrow> string list list \<Rightarrow> bool" where
  "follows (OneLine n) rows = (length rows = 1 \<and> hd rows \<noteq> [] \<and> hd (hd rows) = ''OK'' \<and> length (tl (hd rows)) = n)"
| "follows (Table None kinds) rows = body_follows kinds rows"
| "follows (Table (Some n) kinds) rows =
     (rows \<noteq> [] \<and> hd rows \<noteq> [] \<and> hd (hd rows) = ''OK'' \<and> length (tl (hd rows)) = n \<and> body_follows kinds (tl rows))"

definition ipc_layouts :: "(string \<times> layout) list" where
  "ipc_layouts =
     [(''ping'', OneLine 1), (''status'', OneLine 2),
      (''dashboard'', Table (Some 2) [(''TASK'', 11), (''METRICS'', 10), (''EVENT'', 5), (''CONFLICT'', 5)]), (''list_tasks'', Table None [(''ROW'', 4)]),
      (''create_task'', OneLine 0), (''device_identity'', OneLine 3), (''create_invitation'', OneLine 3), (''join_invitation'', OneLine 2),
      (''delete_task'', OneLine 0), (''pause_task'', OneLine 0), (''resume_task'', OneLine 0), (''task_runtime'', OneLine 7), (''scan_task'', OneLine 2),
      (''ignore_get'', OneLine 4), (''ignore_context'', Table (Some 3) [(''MATCH'', 1), (''COMPARE'', 1)]),
      (''ignore_preview'', Table (Some 8) [(''IGNORE'', 1), (''INCLUDE'', 1), (''DELETE'', 1)]), (''ignore_apply'', OneLine 2), (''ignore_undo'', OneLine 3),
      (''list_conflicts'', Table None [(''ROW'', 5)]), (''resolve_conflict'', OneLine 0), (''list_events'', Table None [(''ROW'', 5)]), (''shutdown'', OneLine 0)]"

definition answer_text :: "string list list \<Rightarrow> string" where
  "answer_text rows = ipc_lines (map (map Escape) rows)"

definition read_answer :: "string \<Rightarrow> string list list result" where
  "read_answer answer = mapE ipc_Fields (getlines answer)"

lemma read_answer_text:
  assumes "\<forall>row \<in> set rows. row \<noteq> []"
  shows "read_answer (answer_text rows) = Inr rows"
proof -
  let ?lines = "map (\<lambda>row. join_with tab (map Escape row)) rows"
  have "newline \<notin> set (join_with tab (map Escape row))" for row by (rule ipc_field.join_free) simp_all
  then have "getlines (text_lines ?lines) = ?lines" by (intro getlines_text_lines) auto
  moreover have "answer_text rows = text_lines ?lines" by (simp add: answer_text_def text_lines_def comp_def)
  moreover have "mapE ipc_Fields ?lines = Inr rows"
    using assms by (induction rows) (simp_all add: ipc_Fields_def ipc_field.record_roundtrip)
  ultimately show ?thesis by (simp add: read_answer_def)
qed

text \<open>What an operation returns, when it returns, satisfies \<open>P\<close>.\<close>

definition yields :: "('a \<Rightarrow> bool) \<Rightarrow> ('s, 'a) op \<Rightarrow> bool" where
  "yields P m \<longleftrightarrow> (\<forall>s x t. m s = (Inr x, t) \<longrightarrow> P x)"

lemma yields_bind_any: "(\<And>x. yields P (f x)) \<Longrightarrow> yields P (bindS m f)"
  by (auto simp: yields_def bind_returns)

lemma yields_bind: "yields Q m \<Longrightarrow> (\<And>x. Q x \<Longrightarrow> yields P (f x)) \<Longrightarrow> yields P (bindS m f)"
  unfolding yields_def bind_returns by blast

lemma yields_simple:
  "P x \<Longrightarrow> yields P (returnS x)" "yields P (throwS e)" "(\<And>s. P (g s)) \<Longrightarrow> yields P (getS g)"
  by (auto simp: yields_def returnS_def throwS_def getS_def)

lemma yields_then: "yields P n \<Longrightarrow> yields P (thenS m n)"
  unfolding thenS_def by (rule yields_bind_any)

lemma yields_if: "(b \<Longrightarrow> yields P m) \<Longrightarrow> (\<not> b \<Longrightarrow> yields P n) \<Longrightarrow> yields P (if b then m else n)"
  by simp

lemma yields_option: "(f = None \<Longrightarrow> yields P m) \<Longrightarrow> (\<And>x. f = Some x \<Longrightarrow> yields P (n x)) \<Longrightarrow> yields P (case f of None \<Rightarrow> m | Some x \<Rightarrow> n x)"
  by (cases f) auto

lemmas yields_steps = yields_then yields_simple yields_if yields_option

definition good_answer :: "layout \<Rightarrow> string \<Rightarrow> bool" where
  "good_answer layout answer \<longleftrightarrow> (\<exists>rows. follows layout rows \<and> (\<forall>row \<in> set rows. row \<noteq> []) \<and> answer = answer_text rows)"

text \<open>Rows whose columns are all escaped.\<close>

definition escaped_row :: "(string \<times> nat) list \<Rightarrow> string list \<Rightarrow> bool" where
  "escaped_row kinds row \<longleftrightarrow> (\<exists>tag ws. row = map Escape (tag # ws) \<and> (tag, length ws) \<in> set kinds)"

lemma escaped_list: "cs \<in> lists (range Escape) \<Longrightarrow> \<exists>ws. cs = map Escape ws"
  by (metis lists_image lists_UNIV imageE UNIV_I)

lemma escaped_rowI:
  assumes "list_all ipc_plain tag" "cs \<in> lists (range Escape)" "(tag, length cs) \<in> set kinds"
  shows "escaped_row kinds (tag # cs)"
proof -
  obtain ws where "cs = map Escape ws" using escaped_list [OF assms(2)] by blast
  then have "tag # cs = map Escape (tag # ws)" "length cs = length ws" using Escape_plain [OF assms(1)] by simp_all
  then show ?thesis unfolding escaped_row_def using assms(3) by metis
qed

lemma plain_tag:
  "list_all ipc_plain ''OK''" "list_all ipc_plain ''ERR''" "list_all ipc_plain ''END''" "list_all ipc_plain ''ROW''" "list_all ipc_plain ''TASK''"
  "list_all ipc_plain ''METRICS''" "list_all ipc_plain ''EVENT''" "list_all ipc_plain ''CONFLICT''" "list_all ipc_plain ''MATCH''"
  "list_all ipc_plain ''COMPARE''" "list_all ipc_plain ''IGNORE''" "list_all ipc_plain ''INCLUDE''" "list_all ipc_plain ''DELETE''"
  by (simp_all add: ipc_plain_def)

lemma good_answer_line:
  assumes "cs \<in> lists (range Escape)" "length cs = n"
  shows "good_answer (OneLine n) (ipc_line (''OK'' # cs))"
proof -
  obtain ws where ws: "cs = map Escape ws" using escaped_list [OF assms(1)] by blast
  then have "ipc_line (''OK'' # cs) = answer_text [''OK'' # ws]" by (simp add: answer_text_def Escape_plain [OF plain_tag(1)])
  moreover have "follows (OneLine n) [''OK'' # ws]" using assms(2) ws by simp
  ultimately show ?thesis unfolding good_answer_def by (intro exI [of _ "[''OK'' # ws]"]) simp
qed

lemma good_body:
  assumes "\<forall>row \<in> set rows. escaped_row kinds row"
  shows "\<exists>words. body_follows kinds words \<and> (\<forall>row \<in> set words. row \<noteq> []) \<and> rows @ [[''END'']] = map (map Escape) words"
proof -
  have "\<forall>row \<in> set rows. \<exists>ws. ws \<noteq> [] \<and> (hd ws, length (tl ws)) \<in> set kinds \<and> row = map Escape ws"
    using assms unfolding escaped_row_def by (metis list.distinct(1) list.sel(1,3))
  then obtain f where f: "\<forall>row \<in> set rows. f row \<noteq> [] \<and> (hd (f row), length (tl (f row))) \<in> set kinds \<and> row = map Escape (f row)" by metis
  have "rows = map (map Escape) (map f rows)" using f by (simp add: map_idI)
  then have "rows @ [[''END'']] = map (map Escape) (map f rows @ [[''END'']])" using Escape_plain [OF plain_tag(3)] by simp
  moreover have "body_follows kinds (map f rows @ [[''END'']])" using f by (simp add: body_follows_def)
  moreover have "\<forall>row \<in> set (map f rows @ [[''END'']]). row \<noteq> []" using f by simp
  ultimately show ?thesis by blast
qed

lemma good_rows:
  assumes "\<forall>row \<in> set rows. escaped_row kinds row"
  shows "good_answer (Table None kinds) (ipc_lines (rows @ [[''END'']]))"
  using good_body [OF assms] unfolding good_answer_def answer_text_def follows.simps by metis

lemma good_table:
  assumes "cs \<in> lists (range Escape)" "length cs = n" "\<forall>row \<in> set rows. escaped_row kinds row"
  shows "good_answer (Table (Some n) kinds) (ipc_lines ([''OK'' # cs] @ rows @ [[''END'']]))"
proof -
  obtain ws where ws: "cs = map Escape ws" using escaped_list [OF assms(1)] by blast
  obtain words where words: "body_follows kinds words" "\<forall>row \<in> set words. row \<noteq> []" "rows @ [[''END'']] = map (map Escape) words"
    using good_body [OF assms(3)] by blast
  have "[''OK'' # cs] @ rows @ [[''END'']] = map (map Escape) ((''OK'' # ws) # words)"
    unfolding words(3) using Escape_plain [OF plain_tag(1)] ws by simp
  then have "ipc_lines ([''OK'' # cs] @ rows @ [[''END'']]) = answer_text ((''OK'' # ws) # words)" by (simp only: answer_text_def)
  then show ?thesis
    unfolding good_answer_def using words(1,2) assms(2) ws by (intro exI [of _ "(''OK'' # ws) # words"]) simp
qed

lemma escaped_columns [simp]:
  "Escape s \<in> range Escape" "to_string n \<in> range Escape" "int_to_string i \<in> range Escape" "flag b \<in> range Escape" "optional_time t \<in> range Escape"
  by (rule range_eqI, rule refl, rule range_eqI, rule escaped_numbers, rule range_eqI, rule escaped_numbers, rule range_eqI, rule escaped_numbers,
      rule range_eqI, rule escaped_numbers)

lemma column_lists [simp]:
  "task_fields r \<in> lists (range Escape)" "task_columns task \<in> lists (range Escape)" "event_columns e \<in> lists (range Escape)"
  "conflict_columns c \<in> lists (range Escape)"
  by (simp_all add: task_fields_def task_columns_def event_columns_def conflict_columns_def)

lemma column_counts [simp]:
  "length (task_fields r) = 7" "length (task_columns task) = 4" "length (event_columns e) = 5" "length (conflict_columns c) = 5"
  by (simp_all add: task_fields_def task_columns_def event_columns_def conflict_columns_def)

lemma rows_escaped:
  "list_all ipc_plain tag \<Longrightarrow> (\<And>x. f x \<in> lists (range Escape)) \<Longrightarrow> (\<And>x. (tag, length (f x)) \<in> set kinds) \<Longrightarrow>
   \<forall>row \<in> set (map (\<lambda>x. tag # f x) xs). escaped_row kinds row"
  by (auto intro: escaped_rowI)

lemma paths_escaped:
  "list_all ipc_plain tag \<Longrightarrow> (tag, 1) \<in> set kinds \<Longrightarrow> \<forall>row \<in> set (map (\<lambda>p. [tag, Escape p]) ps). escaped_row kinds row"
  by (rule rows_escaped) simp_all

abbreviation dashboard_kinds :: "(string \<times> nat) list" where
  "dashboard_kinds \<equiv> [(''TASK'', 11), (''METRICS'', 10), (''EVENT'', 5), (''CONFLICT'', 5)]"

lemma yields_collect_rows:
  "yields (\<lambda>rows. \<forall>row \<in> set rows. escaped_row dashboard_kinds row) (collect_rows (task_rows ipc) tasks)"
proof (induction tasks)
  case (Cons task tasks)
  have "escaped_row dashboard_kinds (''TASK'' # task_columns t @ task_fields r)" for t r
    by (rule escaped_rowI [OF plain_tag(5)]) simp_all
  moreover have "escaped_row dashboard_kinds (metrics_row k m)" for k m
    unfolding metrics_row_def by (rule escaped_rowI [OF plain_tag(6)]) simp_all
  ultimately have "yields (\<lambda>rows. \<forall>row \<in> set rows. escaped_row dashboard_kinds row) (task_rows ipc task)"
    unfolding task_rows_def by (intro yields_bind_any yields_simple) (auto split: option.split)
  then show ?case unfolding collect_rows.simps
    by (rule yields_bind, intro yields_bind [OF Cons.IH] yields_simple) auto
qed (simp add: yields_simple)

lemma good_dashboard: "yields (good_answer (Table (Some 2) dashboard_kinds)) (ipc_dashboard ipc columns)"
proof -
  have "good_answer (Table (Some 2) dashboard_kinds) (ipc_lines ([''OK'' # [to_string schema, to_string (length tasks)]] @ (rows @
       map (\<lambda>e. ''EVENT'' # event_columns e) events @ map (\<lambda>c. ''CONFLICT'' # conflict_columns c) conflicts) @ [[''END'']]))"
    if "\<forall>row \<in> set rows. escaped_row dashboard_kinds row" for schema tasks rows events conflicts
    using that rows_escaped [OF plain_tag(7), of event_columns dashboard_kinds events]
      rows_escaped [OF plain_tag(8), of conflict_columns dashboard_kinds conflicts]
    by (intro good_table) (simp_all add: ball_Un)
  then show ?thesis
    unfolding ipc_dashboard_def by (intro yields_then yields_bind_any yields_bind [OF yields_collect_rows] yields_simple) simp
qed

lemma good_Ok: "good_answer (OneLine 0) (Ok_text [])" "m \<noteq> [] \<Longrightarrow> good_answer (OneLine 1) (Ok_text m)"
  unfolding Ok_text_def by (simp_all add: good_answer_line del: join_with.simps append.simps)

lemma good_scan: "good_answer (OneLine 2) (scan_answer r)"
  unfolding scan_answer_def by (rule good_answer_line) simp_all

lemma good_queries:
  "yields (good_answer (OneLine 1)) (ipc_ping columns)" "yields (good_answer (OneLine 2)) (ipc_status columns)"
  "yields (good_answer (Table None [(''ROW'', 4)])) (ipc_list_tasks columns)"
  "yields (good_answer (OneLine 3)) (ipc_device_identity ipc columns)" "yields (good_answer (OneLine 7)) (ipc_task_runtime columns)"
  "yields (good_answer (Table None [(''ROW'', 5)])) (ipc_list_conflicts columns)"
  "yields (good_answer (Table None [(''ROW'', 5)])) (ipc_list_events columns)" "yields (good_answer (OneLine 0)) (ipc_shutdown columns)"
proof -
  show "yields (good_answer (OneLine 1)) (ipc_ping columns)" unfolding ipc_ping_def by (intro yields_steps good_Ok) simp
  show "yields (good_answer (OneLine 0)) (ipc_shutdown columns)" unfolding ipc_shutdown_def by (intro yields_steps good_Ok)
  show "yields (good_answer (OneLine 2)) (ipc_status columns)" unfolding ipc_status_def Let_def by (intro yields_steps good_answer_line) simp_all
  show "yields (good_answer (OneLine 7)) (ipc_task_runtime columns)"
    unfolding ipc_task_runtime_def by (intro yields_then yields_bind_any yields_simple good_answer_line) simp_all
  show "yields (good_answer (OneLine 3)) (ipc_device_identity ipc columns)"
    unfolding ipc_device_identity_def with_pairing_def
    by (intro yields_steps) (auto intro!: yields_simple good_answer_line simp del: join_with.simps append.simps split: prod.split)
  show "yields (good_answer (Table None [(''ROW'', 4)])) (ipc_list_tasks columns)"
    unfolding ipc_list_tasks_def by (intro yields_steps good_rows rows_escaped plain_tag) simp_all
  show "yields (good_answer (Table None [(''ROW'', 5)])) (ipc_list_conflicts columns)"
    unfolding ipc_list_conflicts_def by (intro yields_then yields_bind_any yields_simple good_rows rows_escaped plain_tag) simp_all
  show "yields (good_answer (Table None [(''ROW'', 5)])) (ipc_list_events columns)"
    unfolding ipc_list_events_def by (intro yields_then yields_bind_any yields_simple good_rows rows_escaped plain_tag) simp_all
qed

lemma good_task_commands:
  "yields (good_answer (OneLine 0)) (ipc_create_task svc ipc columns)" "yields (good_answer (OneLine 0)) (ipc_delete_task svc ipc columns)"
  "yields (good_answer (OneLine 0)) (ipc_pause_resume svc ipc pause columns)" "yields (good_answer (OneLine 2)) (ipc_scan_task svc ipc columns)"
  "yields (good_answer (OneLine 0)) (ipc_resolve_conflict svc columns)"
  unfolding ipc_create_task_def ipc_delete_task_def ipc_pause_resume_def ipc_scan_task_def ipc_resolve_conflict_def
  by (intro yields_steps yields_bind_any good_Ok(1) good_scan)+

lemma good_pairing_commands:
  "yields (good_answer (OneLine 3)) (ipc_create_invitation svc ipc columns)" "yields (good_answer (OneLine 2)) (ipc_join_invitation svc ipc columns)"
proof -
  show "yields (good_answer (OneLine 3)) (ipc_create_invitation svc ipc columns)"
    unfolding ipc_create_invitation_def with_pairing_def
    by (intro yields_steps) (auto intro!: yields_then yields_bind_any yields_simple good_answer_line simp del: join_with.simps append.simps split: prod.split)
  show "yields (good_answer (OneLine 2)) (ipc_join_invitation svc ipc columns)"
    unfolding ipc_join_invitation_def with_pairing_def
    by (intro yields_steps) (auto intro!: yields_then yields_bind_any yields_simple good_answer_line simp del: join_with.simps append.simps split: prod.split)
qed

lemma good_policy_commands:
  "yields (good_answer (OneLine 4)) (ipc_ignore_get svc columns)" "yields (good_answer (OneLine 2)) (ipc_ignore_apply svc ipc columns)"
  "yields (good_answer (OneLine 3)) (ipc_ignore_undo svc ipc columns)"
  unfolding ipc_ignore_get_def ipc_ignore_apply_def ipc_ignore_undo_def
  by ((intro yields_then yields_bind_any yields_simple good_answer_line; simp)+)

lemma good_context: "yields (good_answer (Table (Some 3) [(''MATCH'', 1), (''COMPARE'', 1)])) (ipc_ignore_context svc columns)"
proof -
  let ?kinds = "[(''MATCH'', 1), (''COMPARE'', 1)]"
  have "good_answer (Table (Some 3) ?kinds) (ipc_lines ([''OK'' # [to_string (ic_scanned_files c), flag (ic_truncated c), Escape (ic_directory_summary c)]] @
      (map (\<lambda>p. [''MATCH'', Escape p]) (ic_relevant_paths c) @ map (\<lambda>p. [''COMPARE'', Escape p]) (ic_comparison_paths c)) @ [[''END'']]))" for c
    using paths_escaped [OF plain_tag(9), of ?kinds "ic_relevant_paths c"] paths_escaped [OF plain_tag(10), of ?kinds "ic_comparison_paths c"]
    by (intro good_table) (simp_all add: ball_Un)
  then show ?thesis unfolding ipc_ignore_context_def append_assoc by (intro yields_then yields_bind_any yields_simple)
qed

lemma good_preview: "yields (good_answer (Table (Some 8) [(''IGNORE'', 1), (''INCLUDE'', 1), (''DELETE'', 1)])) (ipc_ignore_preview svc columns)"
proof -
  let ?kinds = "[(''IGNORE'', 1), (''INCLUDE'', 1), (''DELETE'', 1)]"
  have "good_answer (Table (Some 8) ?kinds) (ipc_lines ([''OK'' # [Escape h, to_string (pv_scanned_files p), to_string (pv_currently_ignored p), to_string (pv_proposed_ignored p),
      to_string (pv_newly_ignored p), to_string (pv_newly_included p), to_string (pv_tracked_newly_ignored p), flag (pv_truncated p)]] @
      (map (\<lambda>p. [''IGNORE'', Escape p]) (pv_newly_ignored_samples p) @ map (\<lambda>p. [''INCLUDE'', Escape p]) (pv_newly_included_samples p) @
      map (\<lambda>p. [''DELETE'', Escape p]) (pv_tracked_deletion_samples p)) @ [[''END'']]))" for h and p :: IgnorePreview
    using paths_escaped [OF plain_tag(11), of ?kinds "pv_newly_ignored_samples p"] paths_escaped [OF plain_tag(12), of ?kinds "pv_newly_included_samples p"]
      paths_escaped [OF plain_tag(13), of ?kinds "pv_tracked_deletion_samples p"]
    by (intro good_table) (simp_all add: ball_Un)
  then show ?thesis unfolding ipc_ignore_preview_def Let_def append_assoc by (intro yields_then yields_bind_any yields_simple)
qed

lemma map_of_related:
  "list_all2 (\<lambda>(name, c) (name', l). name = name' \<and> R c l) cs ls \<Longrightarrow> map_of cs k = Some c \<Longrightarrow> \<exists>l. map_of ls k = Some l \<and> R c l"
  by (induction rule: list_all2_induct) (auto split: if_splits)

lemma good_command:
  assumes "map_of (ipc_commands svc ipc) name = Some command"
  shows "\<exists>layout. map_of ipc_layouts name = Some layout \<and> (\<forall>columns. yields (good_answer layout) (command columns))"
proof (rule map_of_related [OF _ assms])
  show "list_all2 (\<lambda>(name, c) (name', l). name = name' \<and> (\<forall>columns. yields (good_answer l) (c columns))) (ipc_commands svc ipc) ipc_layouts"
    unfolding ipc_commands_def ipc_layouts_def
    by (intro list_all2_Cons [THEN iffD2] conjI list.rel_intros)
      (simp_all only: prod.case simp_thms all_simps good_queries good_dashboard good_task_commands good_pairing_commands good_policy_commands good_context good_preview)
qed

definition answer_for :: "string list \<Rightarrow> string \<Rightarrow> bool" where
  "answer_for columns answer \<longleftrightarrow> (\<exists>layout. map_of ipc_layouts (columns ! 1) = Some layout \<and> good_answer layout answer)"

lemma good_dispatch: "yields (\<lambda>answer. answer_for columns (fst answer)) (ipc_dispatch svc ipc columns)"
proof -
  have "yields (\<lambda>answer. answer_for columns (fst answer)) (bindS (command columns) (\<lambda>answer. returnS (answer, b)))"
    if command: "map_of (ipc_commands svc ipc) (columns ! 1) = Some command" for command b
  proof -
    obtain layout where "map_of ipc_layouts (columns ! 1) = Some layout" "yields (good_answer layout) (command columns)"
      using good_command [OF command] by blast
    then show ?thesis by (intro yields_bind [of "good_answer layout"] yields_simple) (auto simp: answer_for_def)
  qed
  then show ?thesis unfolding ipc_dispatch_def by (intro yields_steps)
qed

text \<open>The fields of the stored tasks and conflicts, as a client is to read them.\<close>

definition task_table :: "TaskDefinition list \<Rightarrow> string list list" where
  "task_table tasks = map (\<lambda>t. [''ROW'', td_task_id t, td_mode t, td_role t, td_root_path t]) tasks @ [[''END'']]"

definition conflict_table :: "ConflictRecord list \<Rightarrow> string list list" where
  "conflict_table conflicts =
     map (\<lambda>c. [''ROW'', cr_conflict_id c, cr_state c, cr_original_path c, cr_conflict_path c, cr_winning_version_id c]) conflicts @ [[''END'']]"

lemma table_texts:
  "answer_text (task_table tasks) = ipc_lines (map (\<lambda>t. ''ROW'' # task_columns t) tasks @ [[''END'']])"
  "answer_text (conflict_table conflicts) = ipc_lines (map (\<lambda>c. ''ROW'' # conflict_columns c) conflicts @ [[''END'']])"
proof -
  have "map (map Escape) (task_table tasks) = map (\<lambda>t. ''ROW'' # task_columns t) tasks @ [[''END'']]"
    by (simp add: task_table_def task_columns_def Escape_plain [OF plain_tag(3)] Escape_plain [OF plain_tag(4)])
  then show "answer_text (task_table tasks) = ipc_lines (map (\<lambda>t. ''ROW'' # task_columns t) tasks @ [[''END'']])" by (simp only: answer_text_def)
  have "map (map Escape) (conflict_table conflicts) = map (\<lambda>c. ''ROW'' # conflict_columns c) conflicts @ [[''END'']]"
    by (simp add: conflict_table_def conflict_columns_def Escape_plain [OF plain_tag(3)] Escape_plain [OF plain_tag(4)])
  then show "answer_text (conflict_table conflicts) = ipc_lines (map (\<lambda>c. ''ROW'' # conflict_columns c) conflicts @ [[''END'']])" by (simp only: answer_text_def)
qed

lemma list_answers:
  "ipc_Fields request = Inr [kIpcProtocol, ''list_tasks''] \<Longrightarrow>
     fst (fst (Handle svc ipc request s)) = answer_text (task_table (ListTasks (db_tables (sn_database (fst s)))))"
  "ipc_Fields request = Inr [kIpcProtocol, ''list_conflicts''] \<Longrightarrow>
     fst (fst (Handle svc ipc request s)) = answer_text (conflict_table (ListAllConflicts (db_tables (sn_database (fst s)))))"
proof -
  have commands: "map_of (ipc_commands svc ipc) ''list_tasks'' = Some ipc_list_tasks" "map_of (ipc_commands svc ipc) ''list_conflicts'' = Some ipc_list_conflicts"
    by (simp_all add: ipc_commands_def)
  show "fst (fst (Handle svc ipc request s)) = answer_text (task_table (ListTasks (db_tables (sn_database (fst s)))))"
    if "ipc_Fields request = Inr [kIpcProtocol, ''list_tasks'']"
    unfolding table_texts using that commands
    by (simp add: Handle_def ipc_dispatch_def ipc_list_tasks_def RequireCount_def bindS_def thenS_def liftS_def guardS_def returnS_def getS_def
        del: map_append concat_append)
  show "fst (fst (Handle svc ipc request s)) = answer_text (conflict_table (ListAllConflicts (db_tables (sn_database (fst s)))))"
    if "ipc_Fields request = Inr [kIpcProtocol, ''list_conflicts'']"
    unfolding table_texts using that commands
    by (simp add: Handle_def ipc_dispatch_def ipc_list_conflicts_def bindS_def thenS_def liftS_def guardS_def returnS_def getS_def
        del: map_append concat_append)
qed

lemma read_error: "read_answer (Error_text message) = Inr [[''ERR'', message]]"
proof -
  have "Error_text message = answer_text [[''ERR'', message]]" by (simp add: Error_text_def answer_text_def Escape_plain [OF plain_tag(2)])
  then show ?thesis by (simp add: read_answer_text)
qed

text \<open>
  C19: every answer is read as it was meant.  Whatever the request, the state and the services behind them, a client that splits
  the answer into lines and fields and undoes the escapes gets either one error line with its message, or the answer of the
  command that was asked, row by row with the tags and the number of columns that this command has, up to its end mark.  The
  message of an exception arrives unchanged, and so does every text in the lists of the tasks and of the conflicts: none that
  comes from a file name, a message or a peer can add a line or a field.
\<close>

theorem answers_readable:
  "\<exists>rows. read_answer (fst (fst (Handle svc ipc request s))) = Inr rows \<and>
     ((\<exists>message. rows = [[''ERR'', message]]) \<or>
      (\<exists>columns layout. ipc_Fields request = Inr columns \<and> map_of ipc_layouts (columns ! 1) = Some layout \<and> follows layout rows)) \<and>
     (\<forall>columns e t. ipc_Fields request = Inr columns \<and> ipc_dispatch svc ipc columns s = (Inl e, t) \<longrightarrow> rows = [[''ERR'', what e]]) \<and>
     (ipc_Fields request = Inr [kIpcProtocol, ''list_tasks''] \<longrightarrow> rows = task_table (ListTasks (db_tables (sn_database (fst s))))) \<and>
     (ipc_Fields request = Inr [kIpcProtocol, ''list_conflicts''] \<longrightarrow> rows = conflict_table (ListAllConflicts (db_tables (sn_database (fst s)))))"
proof -
  let ?answer = "fst (fst (Handle svc ipc request s))" and ?run = "bindS (liftS (\<lambda>_. ipc_Fields request)) (ipc_dispatch svc ipc)"
  have tables: "read_answer ?answer = Inr (task_table (ListTasks (db_tables (sn_database (fst s)))))"
      if "ipc_Fields request = Inr [kIpcProtocol, ''list_tasks'']"
    unfolding list_answers(1) [OF that] by (rule read_answer_text) (auto simp: task_table_def)
  have conflicts: "read_answer ?answer = Inr (conflict_table (ListAllConflicts (db_tables (sn_database (fst s)))))"
      if "ipc_Fields request = Inr [kIpcProtocol, ''list_conflicts'']"
    unfolding list_answers(2) [OF that] by (rule read_answer_text) (auto simp: conflict_table_def)
  have thrown: "read_answer ?answer = Inr [[''ERR'', what e]]" if "?run s = (Inl e, t)" for e t
    using that by (simp add: Handle_def read_error)
  have "\<exists>rows. read_answer ?answer = Inr rows \<and> ((\<exists>message. rows = [[''ERR'', message]]) \<or>
      (\<exists>columns layout. ipc_Fields request = Inr columns \<and> map_of ipc_layouts (columns ! 1) = Some layout \<and> follows layout rows))"
  proof -
    obtain r t where run: "?run s = (r, t)" by (rule prod.exhaust)
    show ?thesis
    proof (cases r)
      case (Inl e)
      then show ?thesis using thrown run by blast
    next
      case (Inr answer)
      then obtain columns where columns: "ipc_Fields request = Inr columns" "ipc_dispatch svc ipc columns s = (Inr answer, t)"
        using run by (auto simp: bindS_def liftS_def split: sum.splits)
      then have "answer_for columns (fst answer)" using good_dispatch unfolding yields_def by blast
      moreover have "?answer = fst answer" using run Inr by (simp add: Handle_def)
      ultimately show ?thesis using columns(1) read_answer_text unfolding answer_for_def good_answer_def by metis
    qed
  qed
  then obtain rows where read: "read_answer ?answer = Inr rows" and shape: "(\<exists>message. rows = [[''ERR'', message]]) \<or>
      (\<exists>columns layout. ipc_Fields request = Inr columns \<and> map_of ipc_layouts (columns ! 1) = Some layout \<and> follows layout rows)" by blast
  have "rows = [[''ERR'', what e]]" if "ipc_Fields request = Inr columns \<and> ipc_dispatch svc ipc columns s = (Inl e, t)" for columns e t
  proof -
    have "?run s = (Inl e, t)" using that by (simp add: bindS_def liftS_def)
    from thrown [OF this] read show ?thesis by simp
  qed
  moreover have "rows = task_table (ListTasks (db_tables (sn_database (fst s))))" if "ipc_Fields request = Inr [kIpcProtocol, ''list_tasks'']"
    using tables [OF that] read by simp
  moreover have "rows = conflict_table (ListAllConflicts (db_tables (sn_database (fst s))))" if "ipc_Fields request = Inr [kIpcProtocol, ''list_conflicts'']"
    using conflicts [OF that] read by simp
  ultimately show ?thesis using read shape by blast
qed

section \<open>Requests that change nothing\<close>

text \<open>How many fields each command takes, with the protocol and the command itself.\<close>

definition ipc_arity :: "string \<rightharpoonup> nat list" where
  "ipc_arity = map_of
     [(''ping'', [2]), (''status'', [2]), (''dashboard'', [3]), (''list_tasks'', [2]), (''create_task'', [6]), (''device_identity'', [2]),
      (''create_invitation'', [4]), (''join_invitation'', [4]), (''delete_task'', [3]), (''pause_task'', [3]), (''resume_task'', [3]),
      (''task_runtime'', [3]), (''scan_task'', [4]), (''ignore_get'', [3]), (''ignore_context'', [5]), (''ignore_preview'', [4]), (''ignore_apply'', [6]),
      (''ignore_undo'', [4]), (''list_conflicts'', [2, 3]), (''resolve_conflict'', [3]), (''list_events'', [3]), (''shutdown'', [2])]"

definition understood :: "string list \<Rightarrow> bool" where
  "understood columns \<longleftrightarrow> 2 \<le> length columns \<and> columns ! 0 = kIpcProtocol \<and>
     (\<exists>counts. ipc_arity (columns ! 1) = Some counts \<and> length columns \<in> set counts)"

lemma wrong_count: "length columns \<noteq> n \<Longrightarrow> thenS (RequireCount columns n) m s = (Inl (Invalid_argument ''invalid IPC command arguments''), s)"
  by (simp add: RequireCount_def thenS_def bindS_def guardS_def)

lemma right_count: "length columns = n \<Longrightarrow> thenS (RequireCount columns n) m s = m s"
  by (simp add: RequireCount_def thenS_def bindS_def guardS_def)

lemmas command_defs = ipc_ping_def ipc_status_def ipc_dashboard_def ipc_list_tasks_def ipc_create_task_def ipc_device_identity_def
  ipc_create_invitation_def ipc_join_invitation_def ipc_delete_task_def ipc_pause_resume_def ipc_task_runtime_def ipc_scan_task_def ipc_ignore_get_def
  ipc_ignore_context_def ipc_ignore_preview_def ipc_ignore_apply_def ipc_ignore_undo_def ipc_list_conflicts_def ipc_resolve_conflict_def
  ipc_list_events_def ipc_shutdown_def

lemma map_of_arity:
  "list_all (\<lambda>((name, command), (name', counts)). name = name' \<and> (\<forall>columns s. length columns \<notin> set counts \<longrightarrow> (\<exists>e. command columns s = (Inl e, s))))
     (zip cs as) \<Longrightarrow> length cs = length as \<Longrightarrow> map_of cs k = Some command \<Longrightarrow>
   \<exists>counts. map_of as k = Some counts \<and> (\<forall>columns s. length columns \<notin> set counts \<longrightarrow> (\<exists>e. command columns s = (Inl e, s)))"
  by (induction cs as rule: list_induct2') (auto split: if_splits)

lemma wrong_arity:
  assumes "map_of (ipc_commands svc ipc) k = Some command"
  shows "\<exists>counts. ipc_arity k = Some counts \<and> (\<forall>columns s. length columns \<notin> set counts \<longrightarrow> (\<exists>e. command columns s = (Inl e, s)))"
  unfolding ipc_arity_def
  by (rule map_of_arity [OF _ _ assms])
    (simp_all add: ipc_commands_def command_defs wrong_count thenS_def [of "guardS _ _"] bindS_def [of "guardS _ _"] guardS_def)

lemma shutdown_command: "map_of (ipc_commands svc ipc) ''shutdown'' = Some ipc_shutdown"
  by (simp add: ipc_commands_def)

lemma shutdown_runs: "ipc_dispatch svc ipc [kIpcProtocol, ''shutdown''] s = (Inr (Ok_text [], True), s)"
  by (simp add: ipc_dispatch_def shutdown_command ipc_shutdown_def RequireCount_def thenS_def bindS_def guardS_def returnS_def)

lemma shutdown_dispatch:
  assumes "ipc_dispatch svc ipc columns s = (Inr (answer, stop), t)"
  shows "stop \<longleftrightarrow> columns = [kIpcProtocol, ''shutdown'']"
proof -
  obtain command where command: "map_of (ipc_commands svc ipc) (columns ! 1) = Some command" "stop \<longleftrightarrow> columns ! 1 = ''shutdown''"
      "command columns s = (Inr answer, t)" "\<not> (length columns < 2 \<or> columns ! 0 \<noteq> kIpcProtocol)"
    using assms by (auto simp: ipc_dispatch_def thenS_def bind_returns guardS_def throwS_def returnS_def split: if_splits option.splits)
  have "length columns = 2" if "columns ! 1 = ''shutdown''"
    using command that shutdown_command [of svc ipc] wrong_count [of columns 2 "returnS (Ok_text [])" s] by (auto simp: ipc_shutdown_def)
  then show ?thesis using command by (auto simp: length_Suc_conv numeral_2_eq_2)
qed

text \<open>
  A request that is not understood changes nothing.  When a request cannot be decoded, is not of this protocol, names no command or
  has the wrong number of fields for its command, the answer is an error, the engine is not asked to shut down and nothing has
  changed.  And the engine is asked to shut down by one request only.
\<close>

theorem misunderstood_request:
  "(\<not> (\<exists>columns. ipc_Fields request = Inr columns \<and> understood columns) \<longrightarrow> (\<exists>message. Handle svc ipc request s = ((Error_text message, False), s))) \<and>
   (snd (fst (Handle svc ipc request s)) \<longleftrightarrow> ipc_Fields request = Inr [kIpcProtocol, ''shutdown''])"
proof (intro conjI impI)
  assume not: "\<not> (\<exists>columns. ipc_Fields request = Inr columns \<and> understood columns)"
  show "\<exists>message. Handle svc ipc request s = ((Error_text message, False), s)"
  proof (cases "ipc_Fields request")
    case (Inl e)
    then show ?thesis by (auto simp: Handle_def bindS_def liftS_def)
  next
    case (Inr columns)
    have "\<exists>e. ipc_dispatch svc ipc columns s = (Inl e, s)"
    proof (cases "length columns < 2 \<or> columns ! 0 \<noteq> kIpcProtocol")
      case True
      then show ?thesis by (auto simp: ipc_dispatch_def thenS_def bindS_def guardS_def)
    next
      case known: False
      show ?thesis
      proof (cases "map_of (ipc_commands svc ipc) (columns ! 1)")
        case None
        then show ?thesis using known by (simp add: ipc_dispatch_def thenS_def bindS_def guardS_def throwS_def)
      next
        case (Some command)
        obtain counts where counts: "ipc_arity (columns ! 1) = Some counts"
            "\<forall>columns s. length columns \<notin> set counts \<longrightarrow> (\<exists>e. command columns s = (Inl e, s))"
          using wrong_arity [OF Some] by blast
        then have "length columns \<notin> set counts" using not Inr known by (auto simp: understood_def)
        then obtain e where "command columns s = (Inl e, s)" using counts(2) by blast
        then show ?thesis using known Some by (simp add: ipc_dispatch_def thenS_def bindS_def guardS_def)
      qed
    qed
    then show ?thesis using Inr by (auto simp: Handle_def bindS_def liftS_def)
  qed
next
  show "snd (fst (Handle svc ipc request s)) \<longleftrightarrow> ipc_Fields request = Inr [kIpcProtocol, ''shutdown'']"
  proof (cases "ipc_Fields request")
    case (Inl e)
    then show ?thesis by (simp add: Handle_def bindS_def liftS_def)
  next
    case (Inr columns)
    obtain r t where run: "ipc_dispatch svc ipc columns s = (r, t)" by (rule prod.exhaust)
    show ?thesis
    proof (cases r)
      case (Inl e)
      have "columns \<noteq> [kIpcProtocol, ''shutdown'']"
      proof
        assume "columns = [kIpcProtocol, ''shutdown'']"
        with run Inl shutdown_runs [of svc ipc s] show False by simp
      qed
      then show ?thesis using Inl run Inr by (simp add: Handle_def bindS_def liftS_def)
    next
      case returned: (Inr answer)
      then have "snd answer \<longleftrightarrow> columns = [kIpcProtocol, ''shutdown'']" using shutdown_dispatch [of svc ipc columns s "fst answer" "snd answer" t] run by simp
      then show ?thesis using returned run Inr by (simp add: Handle_def bindS_def liftS_def)
    qed
  qed
qed


text \<open>Queries only read.\<close>

lemma reads_bind: "readsS m \<Longrightarrow> (\<And>x. readsS (f x)) \<Longrightarrow> readsS (bindS m f)"
  by (auto simp: readsS_def bindS_def split: prod.splits sum.splits) (metis snd_conv)+

lemma reads_then: "readsS m \<Longrightarrow> readsS n \<Longrightarrow> readsS (thenS m n)"
  unfolding thenS_def by (rule reads_bind)

lemma reads_simple: "readsS (returnS x)" "readsS (throwS e)" "readsS (RequireCount columns n)"
  by (simp_all add: readsS_def returnS_def throwS_def RequireCount_def guardS_def)

lemma reads_cases:
  "(b \<Longrightarrow> readsS m) \<Longrightarrow> (\<not> b \<Longrightarrow> readsS n) \<Longrightarrow> readsS (if b then m else n)"
  "(f = None \<Longrightarrow> readsS m) \<Longrightarrow> (\<And>x. f = Some x \<Longrightarrow> readsS (k x)) \<Longrightarrow> readsS (case f of None \<Rightarrow> m | Some x \<Rightarrow> k x)"
  "(\<And>a b. readsS (h a b)) \<Longrightarrow> readsS (case p of (a, b) \<Rightarrow> h a b)"
  by (auto split: option.split prod.split)

lemmas reads_steps = reads_bind reads_then reads_simple reads_cases readsS_basic

lemma reads_collect: "(\<And>x. readsS (rows x)) \<Longrightarrow> readsS (collect_rows rows xs)"
  by (induction xs) (auto intro!: reads_steps)

definition query_commands :: "string set" where
  "query_commands = {''ping'', ''status'', ''dashboard'', ''list_tasks'', ''device_identity'', ''task_runtime'', ''list_conflicts'', ''list_events'', ''shutdown''}"

lemma reads_queries:
  assumes "name \<in> query_commands" "map_of (ipc_commands svc ipc) name = Some command"
  shows "readsS (command columns)"
proof -
  have "readsS (ipc_ping columns)" "readsS (ipc_status columns)" "readsS (ipc_list_tasks columns)" "readsS (ipc_device_identity ipc columns)"
    "readsS (ipc_task_runtime columns)" "readsS (ipc_list_conflicts columns)" "readsS (ipc_list_events columns)" "readsS (ipc_shutdown columns)"
    unfolding ipc_ping_def ipc_status_def ipc_list_tasks_def ipc_device_identity_def with_pairing_def ipc_task_runtime_def ipc_list_conflicts_def
      ipc_list_events_def ipc_shutdown_def
    by (intro reads_steps)+
  moreover have "readsS (ipc_dashboard ipc columns)" unfolding ipc_dashboard_def task_rows_def by (intro reads_steps reads_collect)
  ultimately show ?thesis using assms by (auto simp: query_commands_def ipc_commands_def)
qed

text \<open>
  Queries change nothing.  A request that asks for the status, the dashboard, the tasks, the runtime of a task, the device, the conflicts
  or the events leaves the database, the files, the runtime and everything outside as they were, whatever it answers.
\<close>

theorem queries_change_nothing:
  assumes "ipc_Fields request = Inr columns" "columns ! 1 \<in> query_commands"
  shows "snd (Handle svc ipc request s) = s"
proof -
  have "readsS (ipc_dispatch svc ipc columns)"
    unfolding ipc_dispatch_def using reads_queries [OF assms(2)] by (intro reads_steps) auto
  then have "snd (ipc_dispatch svc ipc columns s) = s" unfolding readsS_def by blast
  then show ?thesis using assms(1) by (simp add: Handle_def bindS_def liftS_def split: prod.splits sum.splits) (metis prod.collapse snd_conv)
qed

text \<open>
  The policy of a one-way target is read-only.  A request to apply or to undo an ignore policy of a task whose mode is one-way and whose role is not
  that of the source is refused before anything is read from the folder or written, with whatever hash, rules and source it comes.
\<close>

theorem target_policy_read_only:
  assumes "FindTask task_id (db_tables (sn_database (fst s))) = Inr (Some task)" "td_mode task = ''one_way''" "td_role task \<noteq> ''source''"
    and "ipc_Fields request \<in> {Inr [kIpcProtocol, ''ignore_apply'', task_id, expected, rules, source], Inr [kIpcProtocol, ''ignore_undo'', task_id, expected]}"
  shows "Handle svc ipc request s = ((Error_text ''one-way target ignore policy is read-only'', False), s)"
proof -
  have editor: "bindS (RequireTask task_id) (\<lambda>task. thenS (RequireIgnorePolicyEditor task) (k task)) s =
      (Inl (Invalid_argument ''one-way target ignore policy is read-only''), s)" for k :: "TaskDefinition \<Rightarrow> ('a, string) ipc_op"
    using assms(1-3) by (simp add: RequireTask_def RequireIgnorePolicyEditor_def bindS_def thenS_def liftS_def guardS_def returnS_def)
  have commands: "map_of (ipc_commands svc ipc) ''ignore_apply'' = Some (ipc_ignore_apply svc ipc)"
    "map_of (ipc_commands svc ipc) ''ignore_undo'' = Some (ipc_ignore_undo svc ipc)" by (simp_all add: ipc_commands_def)
  have "ipc_ignore_apply svc ipc cs s = (Inl (Invalid_argument ''one-way target ignore policy is read-only''), s)" if "length cs = 6" "cs ! 2 = task_id" for cs
    unfolding ipc_ignore_apply_def right_count [OF that(1)] that(2) by (rule editor)
  moreover have "ipc_ignore_undo svc ipc cs s = (Inl (Invalid_argument ''one-way target ignore policy is read-only''), s)" if "length cs = 4" "cs ! 2 = task_id" for cs
    unfolding ipc_ignore_undo_def right_count [OF that(1)] that(2) by (rule editor)
  ultimately show ?thesis
    using assms(4) by (auto simp: Handle_def ipc_dispatch_def commands thenS_def bindS_def liftS_def guardS_def)
qed


section \<open>The rounds of a negotiation\<close>

text \<open>The answer and the state after a round that sleeps and finds nothing, with the clock at least 50 ms later.\<close>

definition sleeps :: "'t Services \<Rightarrow> 'h IpcService \<Rightarrow> TaskDefinition \<Rightarrow> string \<Rightarrow> int \<Rightarrow> bool" where
  "sleeps svc ipc task rules started_at \<longleftrightarrow> (\<forall>s t. policy_poll svc task rules started_at (ip_meanwhile ipc s) = (Inr None, t) \<longrightarrow>
     svc_steady svc (sn_calls (fst s) - 1) + 50 \<le> svc_steady svc (sn_calls (fst t)))"

lemma policy_wait_enough:
  assumes "sleeps svc ipc task rules started_at" "deadline \<le> svc_steady svc (sn_calls (fst s)) + 50 * int n"
  shows "policy_wait (Suc n + m) svc ipc task rules started_at deadline s = policy_wait (Suc n) svc ipc task rules started_at deadline s"
  using assms(2)
proof (induction n arbitrary: s)
  case 0
  then show ?case by (simp add: bindS_def steady_now_def outside_call_def zoomS_def)
next
  case (Suc n)
  let ?s = "((fst s)\<lparr>sn_calls := Suc (sn_calls (fst s))\<rparr>, snd s)"
  obtain r t where poll: "policy_poll svc task rules started_at (ip_meanwhile ipc ?s) = (r, t)" by (rule prod.exhaust)
  have "policy_wait (Suc n + m) svc ipc task rules started_at deadline t = policy_wait (Suc n) svc ipc task rules started_at deadline t" if "r = Inr None"
  proof (rule Suc.IH)
    have "svc_steady svc (sn_calls (fst s)) + 50 \<le> svc_steady svc (sn_calls (fst t))"
      using assms(1) poll that unfolding sleeps_def by fastforce
    then show "deadline \<le> svc_steady svc (sn_calls (fst t)) + 50 * int n" using Suc.prems by simp
  qed
  moreover have step: "policy_wait (Suc k) svc ipc task rules started_at deadline s =
      (if svc_steady svc (sn_calls (fst s)) < deadline
       then case (r, t) of (Inl e, t) \<Rightarrow> (Inl e, t) | (Inr None, t) \<Rightarrow> policy_wait k svc ipc task rules started_at deadline t | (Inr (Some st), t) \<Rightarrow> (Inr st, t)
       else (Inl (Runtime_error ''peer has not confirmed ignore policy; pending negotiation will resume on reconnect''), ?s))" for k
    using poll by (auto simp: bindS_def thenS_def modifyS_def steady_now_def outside_call_def zoomS_def throwS_def returnS_def split: sum.splits option.splits)
  ultimately show ?case unfolding add_Suc step [of "Suc n + m"] step [of "Suc n"] by (auto split: sum.splits option.splits)
qed


section \<open>Instances\<close>

definition demo_ipc :: "unit IpcService" where
  "demo_ipc = \<lparr>ip_pairing = None, ip_runtime = None, ip_network = None, ip_proposer = None,
     ip_view = \<lparr>view_is_directory = \<lambda>_. True, view_database_ancestors = Some [], view_equivalent = \<lambda>_ _. False\<rparr>, ip_meanwhile = (\<lambda>s. s)\<rparr>"

definition demo_request :: "string list \<Rightarrow> string" where
  "demo_request texts = join_with tab (map Escape (kIpcProtocol # texts))"

lemma demo_request_fields: "ipc_Fields (demo_request texts) = Inr (kIpcProtocol # texts)"
  using ipc_field.record_roundtrip [of tab "kIpcProtocol # texts"] by (simp add: ipc_Fields_def demo_request_def)

text \<open>A task whose folder has a tab and a line break in its name.\<close>

definition demo_odd_task :: TaskRuntimeManager where
  "demo_odd_task = demo_manager\<lparr>sn_database := demo_database\<lparr>db_tables := (db_tables demo_database)
     \<lparr>t_tasks := [\<lparr>td_task_id = ''t'', td_mode = ''one_way'', td_role = ''target'', td_root_path = [tab, newline]\<rparr>]\<rparr>\<rparr>\<rparr>"

theorem answers_readable_witness:
  "read_answer (fst (fst (Handle demo_services demo_ipc (demo_request [''list_tasks'']) (demo_odd_task, ())))) =
     Inr [[''ROW'', ''t'', ''one_way'', ''target'', [tab, newline]], [''END'']]"
proof -
  have "ListTasks (db_tables (sn_database demo_odd_task)) = [\<lparr>td_task_id = ''t'', td_mode = ''one_way'', td_role = ''target'', td_root_path = [tab, newline]\<rparr>]"
    by (simp add: demo_odd_task_def ListTasks_def order_by_def)
  then show ?thesis
    using answers_readable [of demo_services demo_ipc "demo_request [''list_tasks'']" "(demo_odd_task, ())"] demo_request_fields [of "[''list_tasks'']"]
    by (auto simp: task_table_def)
qed

theorem request_roundtrip_witness: "ipc_Fields (join_with tab (map Escape [[tab, newline], ''%''])) = Inr [[tab, newline], ''%'']"
  using request_roundtrip [of "[[tab, newline], ''%'']"] by simp

theorem misunderstood_request_witness:
  "\<exists>message. Handle demo_services demo_ipc (demo_request [''delete_task'']) (demo_manager, ()) = ((Error_text message, False), (demo_manager, ()))"
proof -
  have "\<not> understood [kIpcProtocol, ''delete_task'']" by (simp add: understood_def ipc_arity_def)
  then show ?thesis using misunderstood_request [of "demo_request [''delete_task'']" demo_services demo_ipc "(demo_manager, ())"] by (simp add: demo_request_fields)
qed

theorem queries_change_nothing_witness: "snd (Handle demo_services demo_ipc (demo_request [''status'']) (demo_manager, ())) = (demo_manager, ())"
  using queries_change_nothing [OF demo_request_fields, of "[''status'']" demo_services demo_ipc "(demo_manager, ())"] by (simp add: query_commands_def)

definition demo_target :: TaskRuntimeManager where
  "demo_target = demo_manager\<lparr>sn_database := demo_database\<lparr>db_tables := (db_tables demo_database)
     \<lparr>t_tasks := [\<lparr>td_task_id = ''t'', td_mode = ''one_way'', td_role = ''target'', td_root_path = ''r''\<rparr>]\<rparr>\<rparr>\<rparr>"

theorem target_policy_read_only_witness:
  "Handle demo_services demo_ipc (demo_request [''ignore_undo'', ''t'', ''h'']) (demo_target, ()) =
     ((Error_text ''one-way target ignore policy is read-only'', False), (demo_target, ()))"
proof -
  have "FindTask ''t'' (db_tables (sn_database (fst (demo_target, ())))) = Inr (Some \<lparr>td_task_id = ''t'', td_mode = ''one_way'', td_role = ''target'', td_root_path = ''r''\<rparr>)"
    by (simp add: demo_target_def FindTask_def row_of_def cstr_def)
  from target_policy_read_only [OF this, where request = "demo_request [''ignore_undo'', ''t'', ''h'']" and expected = "''h''" and svc = demo_services and ipc = demo_ipc]
  show ?thesis by (simp add: demo_request_fields)
qed

end
