(* ===== verification/Webrtc_Bridge.thy ===== *)
theory Webrtc_Bridge
  imports Signaling_Session Ice_Options "HOL-Library.Multiset"
begin

text \<open>
  The WebRTC bridge library as the engine uses it, and the two probes of
  \<^verbatim>\<open>engine/transport/webrtc_bridge_loader.cpp\<close>.  The library is loaded from a path at run time, so it
  is a parameter: a function that tells, from all the calls made so far, what the newest call returns
  (a null pointer is 0) and which callbacks run until the caller looks again, whether on the calling
  thread or on one of the library's own.  The state of a caller therefore starts with the list of its
  calls, and what the caller did to the library can be read off that list.
\<close>

section \<open>The library\<close>

datatype callback_kind = ckOffer | ckAnswer | ckIce | ckRemoteDescription | ckData

text \<open>The arguments of a callback; a data callback comes with the reading of the steady clock.\<close>

datatype bridge_callback =
    cbOffer string
  | cbAnswer string
  | cbIce IceCandidate
  | cbRemoteDescription u32
  | cbData u32 "bytes option" int

fun kind_of :: "bridge_callback \<Rightarrow> callback_kind" where
  "kind_of (cbOffer _) = ckOffer"
| "kind_of (cbAnswer _) = ckAnswer"
| "kind_of (cbIce _) = ckIce"
| "kind_of (cbRemoteDescription _) = ckRemoteDescription"
| "kind_of (cbData _ _ _) = ckData"

datatype factory_call =
    fcDestroy
  | fcConfigureIce "IceServer list" u32
  | fcCreateProtocolChannels
  | fcCreatePeerConnection
  | fcSetCallback callback_kind
  | fcCreateOffer
  | fcRestartIce
  | fcApplyOffer string
  | fcApplyAnswer string
  | fcApplyIce IceCandidate
  | fcSendControl bytes
  | fcSendBulk bytes
  | fcIsReady
  | fcControlBufferedAmount
  | fcBulkBufferedAmount
  | fcConnectionState
  | fcControlChannelState

datatype module_call =
    mcLoadLibrary string
  | mcFreeLibrary
  | mcGetProcAddress string
  | mcAbiVersion
  | mcMaxQueuedBytes
  | mcCreateFactory
  | mcFactory u64 factory_call
  | mcWait nat

type_synonym bridge_module = "module_call list \<Rightarrow> u64 \<times> (u64 \<times> bridge_callback) list"

record bridge_caller =
  bridge_calls :: "module_call list"

text \<open>
  One call: it is appended to the calls made, the callbacks it brings are handled in order, and its
  result is returned.
\<close>

definition ask :: "bridge_module \<Rightarrow> (u64 \<times> bridge_callback \<Rightarrow> 'a bridge_caller_scheme \<Rightarrow> 'a bridge_caller_scheme) \<Rightarrow>
    module_call \<Rightarrow> 'a bridge_caller_scheme \<Rightarrow> u64 \<times> 'a bridge_caller_scheme" where
  "ask library handle c s =
     (case library (bridge_calls s @ [c]) of (r, events) \<Rightarrow>
        (r, fold handle events (s\<lparr>bridge_calls := bridge_calls s @ [c]\<rparr>)))"

definition invoke :: "bridge_module \<Rightarrow> (u64 \<times> bridge_callback \<Rightarrow> 'a bridge_caller_scheme \<Rightarrow> 'a bridge_caller_scheme) \<Rightarrow>
    module_call \<Rightarrow> ('a bridge_caller_scheme, u64) op" where
  "invoke library handle c s = (case ask library handle c s of (r, t) \<Rightarrow> (Inr r, t))"

text \<open>An export that returns a 32-bit status: 1 is success.\<close>

definition accepted :: "u64 \<Rightarrow> bool" where
  "accepted r \<longleftrightarrow> (ucast r :: u32) = 1"

text \<open>A pointer and its size cast to 32 bits: what the library can see of a string or buffer.\<close>

definition passed :: "'a list \<Rightarrow> 'a list" where
  "passed xs = take (length xs mod 2 ^ 32) xs"

definition passed_candidate :: "IceCandidate \<Rightarrow> IceCandidate" where
  "passed_candidate c = c\<lparr>ic_mid := passed (ic_mid c), ic_candidate := passed (ic_candidate c)\<rparr>"

definition Lookup :: "bridge_module \<Rightarrow> (u64 \<times> bridge_callback \<Rightarrow> 'a bridge_caller_scheme \<Rightarrow> 'a bridge_caller_scheme) \<Rightarrow>
    string \<Rightarrow> ('a bridge_caller_scheme, unit) op" where
  "Lookup library handle name =
     bindS (invoke library handle (mcGetProcAddress name)) (\<lambda>address.
       guardS (address = 0) (Runtime_error (''WebRTC bridge is missing '' @ name)))"

definition kExpectedAbiVersion :: u32 where "kExpectedAbiVersion = 2"

section \<open>Reading the queue limit\<close>

definition no_callback :: "u64 \<times> bridge_callback \<Rightarrow> 'a \<Rightarrow> 'a" where
  "no_callback _ s = s"

definition free_library :: "bridge_module \<Rightarrow> (u64 \<times> bridge_callback \<Rightarrow> 'a bridge_caller_scheme \<Rightarrow> 'a bridge_caller_scheme) \<Rightarrow>
    ('a bridge_caller_scheme, unit) op" where
  "free_library library handle = thenS (invoke library handle mcFreeLibrary) (returnS ())"

definition VerifyAndReadMaxQueuedBytes :: "bridge_module \<Rightarrow> string \<Rightarrow> (bridge_caller, u64) op" where
  "VerifyAndReadMaxQueuedBytes library library_path =
     bindS (invoke library no_callback (mcLoadLibrary library_path)) (\<lambda>module.
     thenS (guardS (module = 0) (Runtime_error (''cannot load WebRTC bridge: '' @ library_path)))
     (catchS
       (thenS (Lookup library no_callback ''VeritasSyncWebRtcBridgeAbiVersion'')
       (bindS (invoke library no_callback mcAbiVersion) (\<lambda>abi_version.
        thenS (guardS ((ucast abi_version :: u32) \<noteq> kExpectedAbiVersion)
                 (Runtime_error ''WebRTC bridge ABI version mismatch''))
        (thenS (Lookup library no_callback ''VeritasSyncWebRtcBridgeMaxQueuedBytes'')
        (bindS (invoke library no_callback mcMaxQueuedBytes) (\<lambda>max_queued_bytes.
         thenS (free_library library no_callback) (returnS max_queued_bytes)))))))
       (\<lambda>e. thenS (free_library library no_callback) (throwS e))))"

section \<open>The factory life cycle\<close>

text \<open>The capture objects that the callbacks of the probe write into, and which callback writes where.\<close>

datatype capture_slot = csOffer | csAnswer | csOfferIce | csAnswerIce | csOfferCompletion | csAnswerCompletion

record Completion =
  completed :: bool
  success :: bool

record Lifecycle = bridge_caller +
  lc_registered :: "((u64 \<times> callback_kind) \<times> capture_slot) list"
  lc_capture :: string
  lc_answer_capture :: string
  lc_offer_ice_capture :: "IceCandidate list"
  lc_answer_ice_capture :: "IceCandidate list"
  lc_remote_offer_completion :: Completion
  lc_remote_answer_completion :: Completion

definition Lifecycle_new :: Lifecycle where
  "Lifecycle_new = \<lparr>bridge_calls = [], lc_registered = [], lc_capture = [], lc_answer_capture = [],
     lc_offer_ice_capture = [], lc_answer_ice_capture = [],
     lc_remote_offer_completion = \<lparr>completed = False, success = False\<rparr>,
     lc_remote_answer_completion = \<lparr>completed = False, success = False\<rparr>\<rparr>"

fun CaptureOffer :: "capture_slot \<Rightarrow> string \<Rightarrow> Lifecycle \<Rightarrow> Lifecycle" where
  "CaptureOffer csOffer sdp s = s\<lparr>lc_capture := sdp\<rparr>"
| "CaptureOffer csAnswer sdp s = s\<lparr>lc_answer_capture := sdp\<rparr>"
| "CaptureOffer _ sdp s = s"

fun CaptureIceCandidate :: "capture_slot \<Rightarrow> IceCandidate \<Rightarrow> Lifecycle \<Rightarrow> Lifecycle" where
  "CaptureIceCandidate csOfferIce c s = s\<lparr>lc_offer_ice_capture := lc_offer_ice_capture s @ [c]\<rparr>"
| "CaptureIceCandidate csAnswerIce c s = s\<lparr>lc_answer_ice_capture := lc_answer_ice_capture s @ [c]\<rparr>"
| "CaptureIceCandidate _ c s = s"

fun CaptureCompletion :: "capture_slot \<Rightarrow> u32 \<Rightarrow> Lifecycle \<Rightarrow> Lifecycle" where
  "CaptureCompletion csOfferCompletion v s =
     s\<lparr>lc_remote_offer_completion := \<lparr>completed = True, success = (v = 1)\<rparr>\<rparr>"
| "CaptureCompletion csAnswerCompletion v s =
     s\<lparr>lc_remote_answer_completion := \<lparr>completed = True, success = (v = 1)\<rparr>\<rparr>"
| "CaptureCompletion _ v s = s"

fun capture_into :: "capture_slot \<Rightarrow> bridge_callback \<Rightarrow> Lifecycle \<Rightarrow> Lifecycle" where
  "capture_into slot (cbOffer sdp) s = CaptureOffer slot sdp s"
| "capture_into slot (cbAnswer sdp) s = CaptureOffer slot sdp s"
| "capture_into slot (cbIce c) s = CaptureIceCandidate slot c s"
| "capture_into slot (cbRemoteDescription v) s = CaptureCompletion slot v s"
| "capture_into slot (cbData _ _ _) s = s"

definition on_capture :: "u64 \<times> bridge_callback \<Rightarrow> Lifecycle \<Rightarrow> Lifecycle" where
  "on_capture e s =
     (case map_of (lc_registered s) (fst e, kind_of (snd e)) of
        None \<Rightarrow> s
      | Some slot \<Rightarrow> capture_into slot (snd e) s)"

definition set_capture :: "bridge_module \<Rightarrow> u64 \<Rightarrow> callback_kind \<Rightarrow> capture_slot \<Rightarrow> (Lifecycle, unit) op" where
  "set_capture library factory kind slot =
     thenS (modifyS (\<lambda>s. s\<lparr>lc_registered := ((factory, kind), slot) # lc_registered s\<rparr>))
     (thenS (invoke library on_capture (mcFactory factory (fcSetCallback kind))) (returnS ()))"

definition destroy_factory :: "bridge_module \<Rightarrow> u64 \<Rightarrow> (Lifecycle, unit) op" where
  "destroy_factory library factory =
     thenS (invoke library on_capture (mcFactory factory fcDestroy)) (returnS ())"

text \<open>The failure branches: destroy the factories made so far, the remote one first, and throw.\<close>

definition give_up :: "bridge_module \<Rightarrow> u64 list \<Rightarrow> string \<Rightarrow> (Lifecycle, 'a) op" where
  "give_up library factories message =
     thenS (forS (destroy_factory library) factories) (throwS (Runtime_error message))"

definition require :: "bridge_module \<Rightarrow> u64 list \<Rightarrow> string \<Rightarrow> bool \<Rightarrow> (Lifecycle, unit) op" where
  "require library factories message b = (if b then returnS () else give_up library factories message)"

definition call_or_give_up :: "bridge_module \<Rightarrow> u64 list \<Rightarrow> string \<Rightarrow> u64 \<Rightarrow> factory_call \<Rightarrow> (Lifecycle, unit) op" where
  "call_or_give_up library factories message factory c =
     bindS (invoke library on_capture (mcFactory factory c)) (\<lambda>r.
       require library factories message (accepted r))"

text \<open>
  \<^verbatim>\<open>condition_variable::wait_for\<close> with a predicate: no wait when it holds already; otherwise callbacks
  run for up to the given time, and the result is whether it holds then.
\<close>

definition wait_for :: "bridge_module \<Rightarrow> (Lifecycle \<Rightarrow> bool) \<Rightarrow> (Lifecycle, bool) op" where
  "wait_for library p =
     bindS (getS p) (\<lambda>b. if b then returnS True
       else thenS (invoke library on_capture (mcWait 5000)) (getS p))"

definition lifecycle_exports :: "string list" where
  "lifecycle_exports =
     [''VeritasSyncWebRtcBridgeCreateFactory'', ''VeritasSyncWebRtcBridgeDestroyFactory'',
      ''VeritasSyncWebRtcBridgeCreateProtocolChannels'', ''VeritasSyncWebRtcBridgeSetOfferCallback'',
      ''VeritasSyncWebRtcBridgeSetAnswerCallback'', ''VeritasSyncWebRtcBridgeCreatePeerConnection'',
      ''VeritasSyncWebRtcBridgeCreateOffer'', ''VeritasSyncWebRtcBridgeApplyRemoteOffer'',
      ''VeritasSyncWebRtcBridgeApplyRemoteAnswer'', ''VeritasSyncWebRtcBridgeSetIceCallback'',
      ''VeritasSyncWebRtcBridgeApplyRemoteIceCandidate'',
      ''VeritasSyncWebRtcBridgeSetRemoteDescriptionCallback'']"

text \<open>The offering side: a factory whose offer describes data channels.\<close>

definition offer_stage :: "bridge_module \<Rightarrow> (Lifecycle, u64) op" where
  "offer_stage library =
     bindS (invoke library on_capture mcCreateFactory) (\<lambda>factory.
     thenS (guardS (factory = 0) (Runtime_error ''WebRTC bridge could not create a PeerConnectionFactory''))
     (thenS (call_or_give_up library [factory]
               ''WebRTC bridge could not create control-v1 and bulk-v1 DataChannels'' factory fcCreateProtocolChannels)
     (thenS (set_capture library factory ckOffer csOffer)
     (thenS (set_capture library factory ckIce csOfferIce)
     (thenS (call_or_give_up library [factory] ''WebRTC bridge could not start an SDP offer'' factory fcCreateOffer)
     (bindS (wait_for library (\<lambda>s. lc_capture s \<noteq> [])) (\<lambda>b.
     thenS (require library [factory] ''WebRTC bridge did not produce an SDP offer'' b)
     (bindS (getS (\<lambda>s. sublist ''m=application'' (lc_capture s))) (\<lambda>b.
     thenS (require library [factory] ''WebRTC SDP offer does not describe DataChannels'' b)
     (returnS factory))))))))))"

text \<open>The answering side: a second factory takes the offer and produces an answer.\<close>

definition answer_stage :: "bridge_module \<Rightarrow> u64 \<Rightarrow> (Lifecycle, u64) op" where
  "answer_stage library factory =
     bindS (invoke library on_capture mcCreateFactory) (\<lambda>remote_factory.
     thenS (if remote_factory = 0
            then give_up library [factory] ''WebRTC bridge could not create the remote PeerConnection''
            else call_or_give_up library [remote_factory, factory]
                   ''WebRTC bridge could not create the remote PeerConnection'' remote_factory fcCreatePeerConnection)
     (thenS (set_capture library remote_factory ckAnswer csAnswer)
     (thenS (set_capture library remote_factory ckIce csAnswerIce)
     (thenS (set_capture library remote_factory ckRemoteDescription csOfferCompletion)
     (bindS (getS lc_capture) (\<lambda>sdp.
     thenS (call_or_give_up library [remote_factory, factory] ''WebRTC bridge rejected its own SDP offer''
              remote_factory (fcApplyOffer (passed sdp)))
     (bindS (wait_for library (\<lambda>s. completed (lc_remote_offer_completion s))) (\<lambda>b.
     bindS (getS (\<lambda>s. success (lc_remote_offer_completion s))) (\<lambda>ok.
     thenS (require library [remote_factory, factory] ''WebRTC bridge did not apply the remote SDP offer'' (b \<and> ok))
     (bindS (wait_for library (\<lambda>s. lc_answer_capture s \<noteq> [])) (\<lambda>b.
     thenS (require library [remote_factory, factory] ''WebRTC bridge did not produce an SDP answer'' b)
     (returnS remote_factory))))))))))))"

definition accept_stage :: "bridge_module \<Rightarrow> u64 \<Rightarrow> u64 \<Rightarrow> (Lifecycle, unit) op" where
  "accept_stage library factory remote_factory =
     thenS (set_capture library factory ckRemoteDescription csAnswerCompletion)
     (bindS (getS lc_answer_capture) (\<lambda>sdp.
     thenS (call_or_give_up library [remote_factory, factory] ''WebRTC bridge rejected its own SDP answer''
              factory (fcApplyAnswer (passed sdp)))
     (bindS (wait_for library (\<lambda>s. completed (lc_remote_answer_completion s))) (\<lambda>b.
     bindS (getS (\<lambda>s. success (lc_remote_answer_completion s))) (\<lambda>ok.
     require library [remote_factory, factory] ''WebRTC bridge did not apply the remote SDP answer'' (b \<and> ok))))))"

definition wait_for_candidate :: "bridge_module \<Rightarrow> (Lifecycle \<Rightarrow> IceCandidate list) \<Rightarrow> (Lifecycle, bool) op" where
  "wait_for_candidate library candidates = wait_for library (\<lambda>s. candidates s \<noteq> [])"

text \<open>Both sides gather candidates; after a second, each side is given those of the other.\<close>

definition ice_stage :: "bridge_module \<Rightarrow> u64 \<Rightarrow> u64 \<Rightarrow> (Lifecycle, unit) op" where
  "ice_stage library factory remote_factory =
     bindS (bindS (wait_for_candidate library lc_offer_ice_capture) (\<lambda>b.
              if b then wait_for_candidate library lc_answer_ice_capture else returnS False)) (\<lambda>b.
     thenS (require library [remote_factory, factory] ''WebRTC bridge did not gather local ICE candidates'' b)
     (thenS (invoke library on_capture (mcWait 1000))
     (bindS (getS lc_offer_ice_capture) (\<lambda>offer_candidates.
     bindS (getS lc_answer_ice_capture) (\<lambda>answer_candidates.
     thenS (forS (\<lambda>c. call_or_give_up library [remote_factory, factory]
              ''WebRTC bridge rejected an offer-side ICE candidate'' remote_factory (fcApplyIce (passed_candidate c)))
              offer_candidates)
     (forS (\<lambda>c. call_or_give_up library [remote_factory, factory]
              ''WebRTC bridge rejected an answer-side ICE candidate'' factory (fcApplyIce (passed_candidate c)))
              answer_candidates))))))"

definition VerifyFactoryLifecycle :: "bridge_module \<Rightarrow> string \<Rightarrow> (Lifecycle, unit) op" where
  "VerifyFactoryLifecycle library library_path =
     bindS (invoke library on_capture (mcLoadLibrary library_path)) (\<lambda>module.
     thenS (guardS (module = 0) (Runtime_error (''cannot load WebRTC bridge: '' @ library_path)))
     (catchS
       (thenS (forS (Lookup library on_capture) lifecycle_exports)
       (bindS (offer_stage library) (\<lambda>factory.
        bindS (answer_stage library factory) (\<lambda>remote_factory.
        thenS (accept_stage library factory remote_factory)
        (thenS (ice_stage library factory remote_factory)
        (thenS (destroy_factory library remote_factory)
        (thenS (destroy_factory library factory)
        (free_library library on_capture))))))))
       (\<lambda>e. thenS (free_library library on_capture) (throwS e))))"

section \<open>What a caller still owes the library\<close>

text \<open>
  The resources a list of calls has taken and not given back: whether the library is loaded, and the
  factories that are alive.  There is no answer when a call is made on a library that is not loaded,
  on a factory that is not alive, or when the library is freed under a living factory.
\<close>

type_synonym holdings = "bool \<times> u64 multiset"

fun resource_step :: "module_call \<Rightarrow> u64 \<Rightarrow> holdings \<Rightarrow> holdings option" where
  "resource_step (mcLoadLibrary path) r (loaded, live) = (if loaded then None else Some (r \<noteq> 0, live))"
| "resource_step mcFreeLibrary r (loaded, live) = (if loaded \<and> live = {#} then Some (False, {#}) else None)"
| "resource_step mcCreateFactory r (loaded, live) =
     (if loaded then Some (True, if r = 0 then live else add_mset r live) else None)"
| "resource_step (mcFactory f fcDestroy) r (loaded, live) =
     (if loaded \<and> f \<in># live then Some (True, live - {#f#}) else None)"
| "resource_step (mcFactory f c) r (loaded, live) = (if loaded \<and> f \<in># live then Some (True, live) else None)"
| "resource_step (mcWait ms) r h = Some h"
| "resource_step c r (loaded, live) = (if loaded then Some (True, live) else None)"

fun owed_after :: "bridge_module \<Rightarrow> module_call list \<Rightarrow> module_call list \<Rightarrow> holdings \<Rightarrow> holdings option" where
  "owed_after library past [] h = Some h"
| "owed_after library past (c # cs) h =
     Option.bind (resource_step c (fst (library (past @ [c]))) h) (owed_after library (past @ [c]) cs)"

definition owed :: "bridge_module \<Rightarrow> module_call list \<Rightarrow> holdings option" where
  "owed library calls = owed_after library [] calls (False, {#})"

end
