(* ===== verification/Webrtc_Transport.thy ===== *)
theory Webrtc_Transport
  imports Webrtc_Bridge Frame_Fragments
begin

text \<open>
  The peer transport over the WebRTC bridge (\<^verbatim>\<open>engine/transport/webrtc_transport.cpp\<close>): its life cycle,
  the per-channel queues of fragments, the pump that hands them to the library while it has room, and
  the callbacks it receives.  The library is the parameter of \<open>Webrtc_Bridge\<close>.  The callbacks that the
  owner installs are values of a type of their own; a call of one is a line of \<open>wt_delivered\<close>, and the
  parameter \<open>handler\<close> tells from those lines whether the newest call threw, and with which text.  The
  frame callback does not call back into the transport: in the engine it is the one of
  \<^verbatim>\<open>QueuedPeerTransport\<close>, which only fills a queue.
\<close>

section \<open>State\<close>

datatype delivery =
    dlFrame Channel bytes
  | dlOffer string
  | dlAnswer string
  | dlIce IceCandidate
  | dlRemoteDescription bool

record 'k WebRtcTransport = bridge_caller +
  wt_module :: u64
  wt_factory :: u64
  wt_destroy :: bool
  wt_callback :: "'k option"
  wt_offer_callback :: "'k option"
  wt_answer_callback :: "'k option"
  wt_ice_callback :: "'k option"
  wt_remote_description_callback :: "'k option"
  wt_outgoing :: "Channel \<Rightarrow> bytes list"
  wt_queued_bytes :: "Channel \<Rightarrow> nat"
  wt_reassembly :: "Channel \<Rightarrow> FrameReassembler"
  wt_next_message_id :: u64
  wt_wire_error :: "string option"
  wt_delivered :: "('k \<times> delivery) list"

type_synonym 'k handler = "('k \<times> delivery) list \<Rightarrow> string option"

definition WebRtcTransport_fields :: "'k WebRtcTransport" where
  "WebRtcTransport_fields = \<lparr>bridge_calls = [], wt_module = 0, wt_factory = 0, wt_destroy = False,
     wt_callback = None, wt_offer_callback = None, wt_answer_callback = None, wt_ice_callback = None,
     wt_remote_description_callback = None, wt_outgoing = (\<lambda>_. []), wt_queued_bytes = (\<lambda>_. 0),
     wt_reassembly = (\<lambda>_. new_reassembler), wt_next_message_id = 1, wt_wire_error = None, wt_delivered = []\<rparr>"

section \<open>Callbacks of the library\<close>

definition call_owner :: "'k option \<Rightarrow> delivery \<Rightarrow> 'k WebRtcTransport \<Rightarrow> 'k WebRtcTransport" where
  "call_owner callback d s =
     (case callback of None \<Rightarrow> s | Some k \<Rightarrow> s\<lparr>wt_delivered := wt_delivered s @ [(k, d)]\<rparr>)"

text \<open>The frame callback runs inside the try block that also guards the reassembler.\<close>

definition deliver_frame :: "'k handler \<Rightarrow> 'k \<Rightarrow> Channel \<Rightarrow> bytes \<Rightarrow> 'k WebRtcTransport \<Rightarrow> 'k WebRtcTransport" where
  "deliver_frame handler k channel frame s =
     (let t = s\<lparr>wt_delivered := wt_delivered s @ [(k, dlFrame channel frame)]\<rparr> in
      case handler (wt_delivered t) of None \<Rightarrow> t | Some message \<Rightarrow> t\<lparr>wt_wire_error := Some message\<rparr>)"

definition Webrtc_Receive :: "'k handler \<Rightarrow> u32 \<Rightarrow> bytes option \<Rightarrow> int \<Rightarrow> 'k WebRtcTransport \<Rightarrow> 'k WebRtcTransport" where
  "Webrtc_Receive handler channel data now s =
     (case (wt_callback s, data) of
        (Some k, Some b) \<Rightarrow>
          if b \<noteq> [] \<and> (channel = 1 \<or> channel = 2)
          then let c = (if channel = 1 then kControl else kBulk) in
            (case Accept now b (wt_reassembly s c) of (r, reassembler) \<Rightarrow>
              let t = s\<lparr>wt_reassembly := (wt_reassembly s)(c := reassembler)\<rparr> in
              (case r of
                 Inl e \<Rightarrow> t\<lparr>wt_wire_error := Some (what e)\<rparr>
               | Inr None \<Rightarrow> t
               | Inr (Some frame) \<Rightarrow> deliver_frame handler k c frame t))
          else s
      | _ \<Rightarrow> s)"

definition Webrtc_ReceiveOffer :: "string \<Rightarrow> 'k WebRtcTransport \<Rightarrow> 'k WebRtcTransport" where
  "Webrtc_ReceiveOffer sdp s = call_owner (wt_offer_callback s) (dlOffer sdp) s"

definition Webrtc_ReceiveAnswer :: "string \<Rightarrow> 'k WebRtcTransport \<Rightarrow> 'k WebRtcTransport" where
  "Webrtc_ReceiveAnswer sdp s = call_owner (wt_answer_callback s) (dlAnswer sdp) s"

definition Webrtc_ReceiveIce :: "IceCandidate \<Rightarrow> 'k WebRtcTransport \<Rightarrow> 'k WebRtcTransport" where
  "Webrtc_ReceiveIce c s = call_owner (wt_ice_callback s) (dlIce c) s"

definition Webrtc_ReceiveRemoteDescription :: "u32 \<Rightarrow> 'k WebRtcTransport \<Rightarrow> 'k WebRtcTransport" where
  "Webrtc_ReceiveRemoteDescription v s = call_owner (wt_remote_description_callback s) (dlRemoteDescription (v = 1)) s"

fun run_callback :: "'k handler \<Rightarrow> bridge_callback \<Rightarrow> 'k WebRtcTransport \<Rightarrow> 'k WebRtcTransport" where
  "run_callback handler (cbOffer sdp) s = Webrtc_ReceiveOffer sdp s"
| "run_callback handler (cbAnswer sdp) s = Webrtc_ReceiveAnswer sdp s"
| "run_callback handler (cbIce c) s = Webrtc_ReceiveIce c s"
| "run_callback handler (cbRemoteDescription v) s = Webrtc_ReceiveRemoteDescription v s"
| "run_callback handler (cbData channel data now) s = Webrtc_Receive handler channel data now s"

text \<open>A callback reaches the transport once the constructor has registered it with its factory.\<close>

definition on_bridge :: "'k handler \<Rightarrow> u64 \<times> bridge_callback \<Rightarrow> 'k WebRtcTransport \<Rightarrow> 'k WebRtcTransport" where
  "on_bridge handler e s =
     (if mcFactory (fst e) (fcSetCallback (kind_of (snd e))) \<in> set (bridge_calls s)
      then run_callback handler (snd e) s else s)"

section \<open>Construction and destruction\<close>

definition factory_op :: "bridge_module \<Rightarrow> 'k handler \<Rightarrow> factory_call \<Rightarrow> ('k WebRtcTransport, u64) op" where
  "factory_op library handler c =
     bindS (getS wt_factory) (\<lambda>factory. invoke library (on_bridge handler) (mcFactory factory c))"

text \<open>An export looked up and called at once; a status other than 1 is an error where one is given.\<close>

definition lookup_and_call :: "bridge_module \<Rightarrow> 'k handler \<Rightarrow> string \<Rightarrow> factory_call \<Rightarrow> ('k WebRtcTransport, u64) op" where
  "lookup_and_call library handler name c =
     thenS (Lookup library (on_bridge handler) name) (factory_op library handler c)"

definition accepted_or_throw :: "string \<Rightarrow> u64 \<Rightarrow> ('s, unit) op" where
  "accepted_or_throw message r = guardS (\<not> accepted r) (Runtime_error message)"

definition c_server :: "IceServer \<Rightarrow> IceServer" where
  "c_server server = \<lparr>ice_url = cstr (ice_url server), ice_username = cstr (ice_username server),
     ice_credential = cstr (ice_credential server)\<rparr>"

definition callback_exports :: "(string \<times> callback_kind) list" where
  "callback_exports =
     [(''VeritasSyncWebRtcBridgeSetDataCallback'', ckData), (''VeritasSyncWebRtcBridgeSetOfferCallback'', ckOffer),
      (''VeritasSyncWebRtcBridgeSetAnswerCallback'', ckAnswer), (''VeritasSyncWebRtcBridgeSetIceCallback'', ckIce),
      (''VeritasSyncWebRtcBridgeSetRemoteDescriptionCallback'', ckRemoteDescription)]"

definition operation_exports :: "string list" where
  "operation_exports =
     [''VeritasSyncWebRtcBridgeSendControl'', ''VeritasSyncWebRtcBridgeSendBulk'',
      ''VeritasSyncWebRtcBridgeCreateOffer'', ''VeritasSyncWebRtcBridgeRestartIce'',
      ''VeritasSyncWebRtcBridgeApplyRemoteOffer'', ''VeritasSyncWebRtcBridgeApplyRemoteAnswer'',
      ''VeritasSyncWebRtcBridgeApplyRemoteIceCandidate'', ''VeritasSyncWebRtcBridgeIsReady'',
      ''VeritasSyncWebRtcBridgeControlBufferedAmount'', ''VeritasSyncWebRtcBridgeBulkBufferedAmount'']"

definition make_factory :: "bridge_module \<Rightarrow> 'k handler \<Rightarrow> ('k WebRtcTransport, unit) op" where
  "make_factory library handler =
     thenS (Lookup library (on_bridge handler) ''VeritasSyncWebRtcBridgeAbiVersion'')
     (bindS (invoke library (on_bridge handler) mcAbiVersion) (\<lambda>abi.
     thenS (guardS ((ucast abi :: u32) \<noteq> kExpectedAbiVersion) (Runtime_error ''WebRTC bridge ABI mismatch''))
     (thenS (Lookup library (on_bridge handler) ''VeritasSyncWebRtcBridgeCreateFactory'')
     (thenS (Lookup library (on_bridge handler) ''VeritasSyncWebRtcBridgeDestroyFactory'')
     (thenS (modifyS (\<lambda>s. s\<lparr>wt_destroy := True\<rparr>))
     (bindS (invoke library (on_bridge handler) mcCreateFactory) (\<lambda>factory.
     thenS (modifyS (\<lambda>s. s\<lparr>wt_factory := factory\<rparr>))
     (guardS (factory = 0) (Runtime_error ''cannot create WebRTC factory''))))))))) "

definition configure_factory :: "bridge_module \<Rightarrow> 'k handler \<Rightarrow> bool \<Rightarrow> IceOptions \<Rightarrow> ('k WebRtcTransport, unit) op" where
  "configure_factory library handler initiator options =
     bindS (lookup_and_call library handler ''VeritasSyncWebRtcBridgeConfigureIce''
              (fcConfigureIce (map c_server (ice_servers options)) (if ice_relay_only options then 1 else 0))) (\<lambda>r.
     thenS (accepted_or_throw ''WebRTC rejected ICE configuration'' r)
     (bindS (if initiator
             then lookup_and_call library handler ''VeritasSyncWebRtcBridgeCreateProtocolChannels'' fcCreateProtocolChannels
             else lookup_and_call library handler ''VeritasSyncWebRtcBridgeCreatePeerConnection'' fcCreatePeerConnection) (\<lambda>r.
     thenS (accepted_or_throw ''cannot create WebRTC peer connection'' r)
     (thenS (forS (\<lambda>(name, kind). thenS (lookup_and_call library handler name (fcSetCallback kind)) (returnS ()))
               callback_exports)
     (forS (Lookup library (on_bridge handler)) operation_exports)))))"

definition destroy_if_made :: "bridge_module \<Rightarrow> 'k handler \<Rightarrow> ('k WebRtcTransport, unit) op" where
  "destroy_if_made library handler =
     bindS (getS (\<lambda>s. wt_factory s \<noteq> 0 \<and> wt_destroy s)) (\<lambda>made.
       if made then thenS (factory_op library handler fcDestroy) (returnS ()) else returnS ())"

definition WebRtcTransport_new :: "bridge_module \<Rightarrow> 'k handler \<Rightarrow> string \<Rightarrow> bool \<Rightarrow> IceOptions \<Rightarrow>
    ('k WebRtcTransport, unit) op" where
  "WebRtcTransport_new library handler bridge_path initiator options =
     thenS (liftS (\<lambda>_. IceOptions_Validate options))
     (bindS (invoke library (on_bridge handler) (mcLoadLibrary bridge_path)) (\<lambda>module.
     thenS (modifyS (\<lambda>s. s\<lparr>wt_module := module\<rparr>))
     (thenS (guardS (module = 0) (Runtime_error ''cannot load WebRTC bridge''))
     (catchS (thenS (make_factory library handler) (configure_factory library handler initiator options))
        (\<lambda>e. thenS (destroy_if_made library handler)
             (thenS (free_library library (on_bridge handler)) (throwS e)))))))"

definition WebRtcTransport_delete :: "bridge_module \<Rightarrow> 'k handler \<Rightarrow> ('k WebRtcTransport, unit) op" where
  "WebRtcTransport_delete library handler =
     thenS (destroy_if_made library handler)
     (bindS (getS wt_module) (\<lambda>module.
       if module \<noteq> 0 then free_library library (on_bridge handler) else returnS ()))"

section \<open>Sending\<close>

definition Webrtc_IsReady :: "bridge_module \<Rightarrow> 'k handler \<Rightarrow> 'k WebRtcTransport \<Rightarrow> bool \<times> 'k WebRtcTransport" where
  "Webrtc_IsReady library handler s =
     (case ask library (on_bridge handler) (mcFactory (wt_factory s) fcIsReady) s of (r, t) \<Rightarrow> (accepted r, t))"

fun buffered_call :: "Channel \<Rightarrow> factory_call" where
  "buffered_call kControl = fcControlBufferedAmount"
| "buffered_call kBulk = fcBulkBufferedAmount"

fun send_call :: "Channel \<Rightarrow> bytes \<Rightarrow> factory_call" where
  "send_call kControl fragment = fcSendControl (passed fragment)"
| "send_call kBulk fragment = fcSendBulk (passed fragment)"

definition ask_buffered :: "bridge_module \<Rightarrow> 'k handler \<Rightarrow> Channel \<Rightarrow> 'k WebRtcTransport \<Rightarrow> u64 \<times> 'k WebRtcTransport" where
  "ask_buffered library handler channel s =
     ask library (on_bridge handler) (mcFactory (wt_factory s) (buffered_call channel)) s"

definition pop_outgoing :: "Channel \<Rightarrow> bytes \<Rightarrow> bytes list \<Rightarrow> 'k WebRtcTransport \<Rightarrow> 'k WebRtcTransport" where
  "pop_outgoing channel fragment rest s =
     s\<lparr>wt_outgoing := (wt_outgoing s)(channel := rest),
       wt_queued_bytes := (wt_queued_bytes s)(channel := size_minus (wt_queued_bytes s channel) (length fragment))\<rparr>"

definition send_fragment :: "bridge_module \<Rightarrow> 'k handler \<Rightarrow> Channel \<Rightarrow> bytes \<Rightarrow> 'k WebRtcTransport \<Rightarrow>
    bool \<times> 'k WebRtcTransport" where
  "send_fragment library handler channel fragment s =
     (case ask library (on_bridge handler) (mcFactory (wt_factory s) (send_call channel fragment)) s of
        (r, t) \<Rightarrow> (accepted r, t))"

text \<open>Callbacks change neither the queues nor what identifies the factory.\<close>

lemma run_callback_keeps:
  "wt_outgoing (run_callback handler cb s) = wt_outgoing s"
  "wt_queued_bytes (run_callback handler cb s) = wt_queued_bytes s"
  "wt_factory (run_callback handler cb s) = wt_factory s"
  "wt_destroy (run_callback handler cb s) = wt_destroy s"
  "wt_module (run_callback handler cb s) = wt_module s"
  "wt_callback (run_callback handler cb s) = wt_callback s"
  "wt_next_message_id (run_callback handler cb s) = wt_next_message_id s"
  "bridge_calls (run_callback handler cb s) = bridge_calls s"
  by (cases cb; simp add: Webrtc_ReceiveOffer_def Webrtc_ReceiveAnswer_def Webrtc_ReceiveIce_def Webrtc_ReceiveRemoteDescription_def
      Webrtc_Receive_def call_owner_def deliver_frame_def Let_def split: option.splits prod.splits sum.splits)+

lemma on_bridge_keeps:
  "wt_outgoing (on_bridge handler e s) = wt_outgoing s"
  "wt_queued_bytes (on_bridge handler e s) = wt_queued_bytes s"
  "wt_factory (on_bridge handler e s) = wt_factory s"
  "wt_destroy (on_bridge handler e s) = wt_destroy s"
  "wt_module (on_bridge handler e s) = wt_module s"
  "wt_callback (on_bridge handler e s) = wt_callback s"
  "wt_next_message_id (on_bridge handler e s) = wt_next_message_id s"
  "bridge_calls (on_bridge handler e s) = bridge_calls s"
  by (simp_all add: on_bridge_def run_callback_keeps)

text \<open>What only the owner's operations change.\<close>

definition same_owned :: "'k WebRtcTransport \<Rightarrow> 'k WebRtcTransport \<Rightarrow> bool" where
  "same_owned t s \<longleftrightarrow> wt_outgoing t = wt_outgoing s \<and> wt_queued_bytes t = wt_queued_bytes s \<and>
     wt_factory t = wt_factory s \<and> wt_destroy t = wt_destroy s \<and> wt_module t = wt_module s \<and>
     wt_callback t = wt_callback s \<and> wt_next_message_id t = wt_next_message_id s"

lemma fold_bridge_keeps:
  "same_owned (fold (on_bridge handler) es s) s \<and> bridge_calls (fold (on_bridge handler) es s) = bridge_calls s"
  by (induction es arbitrary: s) (simp_all add: on_bridge_keeps same_owned_def)

lemma ask_keeps:
  assumes "ask library (on_bridge handler) c s = (r, t)"
  shows "same_owned t s" "bridge_calls t = bridge_calls s @ [c]"
  using assms fold_bridge_keeps [of handler _ "s\<lparr>bridge_calls := bridge_calls s @ [c]\<rparr>"]
  by (auto simp: ask_def same_owned_def split: prod.splits)

lemma IsReady_keeps:
  "Webrtc_IsReady library handler s = (b, t) \<Longrightarrow>
     same_owned t s \<and> bridge_calls t = bridge_calls s @ [mcFactory (wt_factory s) fcIsReady]"
  by (auto simp: Webrtc_IsReady_def split: prod.splits dest: ask_keeps)

lemma ask_buffered_keeps:
  "ask_buffered library handler channel s = (n, t) \<Longrightarrow>
     same_owned t s \<and> bridge_calls t = bridge_calls s @ [mcFactory (wt_factory s) (buffered_call channel)]"
  by (auto simp: ask_buffered_def dest: ask_keeps)

lemma send_fragment_keeps:
  "send_fragment library handler channel f s = (b, t) \<Longrightarrow>
     same_owned t s \<and> bridge_calls t = bridge_calls s @ [mcFactory (wt_factory s) (send_call channel f)]"
  by (auto simp: send_fragment_def split: prod.splits dest: ask_keeps)

lemmas bridge_calls_keep = IsReady_keeps ask_buffered_keeps send_fragment_keeps

text \<open>The loop of \<^verbatim>\<open>Pump\<close> for one channel: every round takes a fragment off the queue, or stops.\<close>

function pump_channel :: "bridge_module \<Rightarrow> 'k handler \<Rightarrow> Channel \<Rightarrow> ('k WebRtcTransport, unit) op" where
  "pump_channel library handler channel s =
     (case Webrtc_IsReady library handler s of (ready, s1) \<Rightarrow>
        if \<not> ready then (Inr (), s1)
        else
         (case ask_buffered library handler channel s1 of (amount, s2) \<Rightarrow>
            if \<not> unat amount < 512 * 1024 then (Inr (), s2)
            else
             (case wt_wire_error s2 of
                Some message \<Rightarrow> (Inl (Runtime_error message), s2)
              | None \<Rightarrow>
                 (case wt_outgoing s2 channel of
                    [] \<Rightarrow> (Inr (), s2)
                  | fragment # rest \<Rightarrow>
                     (case send_fragment library handler channel fragment (pop_outgoing channel fragment rest s2) of
                        (sent, s3) \<Rightarrow>
                          if sent then pump_channel library handler channel s3
                          else (Inl (Runtime_error ''WebRTC DataChannel rejected fragment''), s3))))))"
  by pat_completeness auto
termination
  by (relation "measure (\<lambda>(library, handler, channel, s). length (wt_outgoing s channel))")
    (auto dest!: sym [of "(_, _)"] bridge_calls_keep simp: same_owned_def pop_outgoing_def)

declare pump_channel.simps [simp del]

definition Webrtc_Pump :: "bridge_module \<Rightarrow> 'k handler \<Rightarrow> ('k WebRtcTransport, unit) op" where
  "Webrtc_Pump library handler = thenS (pump_channel library handler kControl) (pump_channel library handler kBulk)"

definition kSendBudget :: nat where "kSendBudget = 32 * 1024 * 1024"

definition wire_cost :: "bytes \<Rightarrow> nat" where
  "wire_cost wire = length wire + ((length wire + kFragmentPayloadSize - 1) div kFragmentPayloadSize) * 20"

definition push_fragment :: "Channel \<Rightarrow> bytes \<Rightarrow> 'k WebRtcTransport \<Rightarrow> 'k WebRtcTransport" where
  "push_fragment channel fragment s =
     s\<lparr>wt_queued_bytes := (wt_queued_bytes s)(channel := size_plus (wt_queued_bytes s channel) (length fragment)),
       wt_outgoing := (wt_outgoing s)(channel := wt_outgoing s channel @ [fragment])\<rparr>"

text \<open>The part of \<^verbatim>\<open>Send\<close> under the lock.\<close>

definition enqueue_frame :: "Channel \<Rightarrow> bytes \<Rightarrow> ('k WebRtcTransport, unit) op" where
  "enqueue_frame channel wire =
     bindS (getS (\<lambda>s. size_minus (size_minus kSendBudget (wt_queued_bytes s kControl)) (wt_queued_bytes s kBulk))) (\<lambda>room.
     thenS (guardS (room < wire_cost wire) (Length_error ''per-peer WebRTC send budget exceeded''))
     (bindS (getS wt_next_message_id) (\<lambda>ident.
     thenS (modifyS (\<lambda>s. s\<lparr>wt_next_message_id := ident + 1\<rparr>))
     (bindS (liftS (\<lambda>_. FragmentFrame ident wire)) (\<lambda>fragments.
      modifyS (fold (push_fragment channel) fragments))))))"

definition Webrtc_Send :: "bridge_module \<Rightarrow> 'k handler \<Rightarrow> Channel \<Rightarrow> bytes \<Rightarrow> ('k WebRtcTransport, unit) op" where
  "Webrtc_Send library handler channel wire =
     thenS (guardS (wire = [] \<or> kMaxFrameSize < length wire) (Invalid_argument ''invalid WebRTC frame''))
     (thenS (enqueue_frame channel wire) (Webrtc_Pump library handler))"

definition Webrtc_BufferedAmount :: "bridge_module \<Rightarrow> 'k handler \<Rightarrow> Channel \<Rightarrow> ('k WebRtcTransport, nat) op" where
  "Webrtc_BufferedAmount library handler channel s =
     (case ask_buffered library handler channel s of (amount, t) \<Rightarrow>
        (Inr (size_plus (unat amount) (wt_queued_bytes t channel)), t))"

section \<open>The remaining operations\<close>

definition Webrtc_SetReceiveCallback :: "'k option \<Rightarrow> 'k WebRtcTransport \<Rightarrow> 'k WebRtcTransport" where
  "Webrtc_SetReceiveCallback callback s = s\<lparr>wt_callback := callback\<rparr>"

definition Webrtc_SetOfferCallback :: "'k option \<Rightarrow> 'k WebRtcTransport \<Rightarrow> 'k WebRtcTransport" where
  "Webrtc_SetOfferCallback callback s = s\<lparr>wt_offer_callback := callback\<rparr>"

definition Webrtc_SetAnswerCallback :: "'k option \<Rightarrow> 'k WebRtcTransport \<Rightarrow> 'k WebRtcTransport" where
  "Webrtc_SetAnswerCallback callback s = s\<lparr>wt_answer_callback := callback\<rparr>"

definition Webrtc_SetIceCallback :: "'k option \<Rightarrow> 'k WebRtcTransport \<Rightarrow> 'k WebRtcTransport" where
  "Webrtc_SetIceCallback callback s = s\<lparr>wt_ice_callback := callback\<rparr>"

definition Webrtc_SetRemoteDescriptionCallback :: "'k option \<Rightarrow> 'k WebRtcTransport \<Rightarrow> 'k WebRtcTransport" where
  "Webrtc_SetRemoteDescriptionCallback callback s = s\<lparr>wt_remote_description_callback := callback\<rparr>"

fun peer_call :: "transport_call \<Rightarrow> factory_call" where
  "peer_call tcCreateOffer = fcCreateOffer"
| "peer_call tcRestartIce = fcRestartIce"
| "peer_call (tcApplyOffer sdp) = fcApplyOffer (passed sdp)"
| "peer_call (tcApplyAnswer sdp) = fcApplyAnswer (passed sdp)"
| "peer_call (tcApplyIce c) = fcApplyIce (passed_candidate c)"

text \<open>
  \<^verbatim>\<open>CreateOffer\<close>, \<^verbatim>\<open>RestartIce\<close> and the three \<^verbatim>\<open>Apply\<close> calls: one call of the library each, with the
  error of \<open>call_error\<close> when its status is not 1.
\<close>

definition peer_operation :: "bridge_module \<Rightarrow> 'k handler \<Rightarrow> transport_call \<Rightarrow> ('k WebRtcTransport, unit) op" where
  "peer_operation library handler c =
     bindS (factory_op library handler (peer_call c)) (\<lambda>r. guardS (\<not> accepted r) (call_error c))"

definition Webrtc_DiagnosticState :: "bridge_module \<Rightarrow> 'k handler \<Rightarrow> ('k WebRtcTransport, string) op" where
  "Webrtc_DiagnosticState library handler =
     bindS (lookup_and_call library handler ''VeritasSyncWebRtcBridgeConnectionState'' fcConnectionState) (\<lambda>connection.
     bindS (lookup_and_call library handler ''VeritasSyncWebRtcBridgeControlChannelState'' fcControlChannelState) (\<lambda>control.
     returnS (''connection='' @ to_string (unat (ucast connection :: u32)) @
              '', control='' @ to_string (unat (ucast control :: u32)))))"

end
