(* ===== verification/Webrtc_Bridge_Properties.thy ===== *)
theory Webrtc_Bridge_Properties
  imports Webrtc_Bridge
begin

text \<open>
  Resource safety of the callers of the WebRTC bridge.  Callers share one contract: handling a callback
  makes no call of its own.  Under it the accounting of \<open>owed\<close> follows every operation, and the two
  probes of the loader give back what they took on every path, whatever the library answers.
\<close>

section \<open>Contracts of operations\<close>

text \<open>
  \<open>contract P m Q E\<close>: from a state in \<open>P\<close>, the operation ends with a result and a state in \<open>Q\<close>, or
  throws in a state in \<open>E\<close>.
\<close>

definition contract :: "('s \<Rightarrow> bool) \<Rightarrow> ('s, 'a) op \<Rightarrow> ('a \<Rightarrow> 's \<Rightarrow> bool) \<Rightarrow> ('s \<Rightarrow> bool) \<Rightarrow> bool" where
  "contract P m Q E \<longleftrightarrow> (\<forall>s. P s \<longrightarrow> (case m s of (Inl _, t) \<Rightarrow> E t | (Inr x, t) \<Rightarrow> Q x t))"

lemma contractD: "contract P m Q E \<Longrightarrow> P s \<Longrightarrow> m s = (Inr x, t) \<Longrightarrow> Q x t"
  unfolding contract_def by (metis (mono_tags, lifting) case_prod_conv sum.simps(6))

lemma contractE: "contract P m Q E \<Longrightarrow> P s \<Longrightarrow> m s = (Inl e, t) \<Longrightarrow> E t"
  unfolding contract_def by (metis (mono_tags, lifting) case_prod_conv sum.simps(5))

lemma contractI:
  assumes "\<And>s x t. P s \<Longrightarrow> m s = (Inr x, t) \<Longrightarrow> Q x t" "\<And>s e t. P s \<Longrightarrow> m s = (Inl e, t) \<Longrightarrow> E t"
  shows "contract P m Q E"
  using assms unfolding contract_def by (simp split: prod.splits sum.splits)

lemma contract_bind:
  assumes "contract P m Q E" "\<And>x. contract (Q x) (f x) R E"
  shows "contract P (bindS m f) R E"
  using contractD [OF assms(1)] contractE [OF assms(1)] contractD [OF assms(2)] contractE [OF assms(2)]
  by (intro contractI; simp add: bindS_def split: prod.splits sum.splits; blast)

lemma contract_then: "contract P m (\<lambda>_. Q) E \<Longrightarrow> contract Q n R E \<Longrightarrow> contract P (thenS m n) R E"
  unfolding thenS_def by (rule contract_bind)

lemma contract_return: "(\<And>s. P s \<Longrightarrow> Q x s) \<Longrightarrow> contract P (returnS x) Q E"
  by (simp add: contract_def op_defs)

lemma contract_throw: "(\<And>s. P s \<Longrightarrow> E s) \<Longrightarrow> contract P (throwS e) Q E"
  by (simp add: contract_def op_defs)

lemma contract_get: "contract P (getS f) (\<lambda>_. P) E"
  by (simp add: contract_def op_defs)

lemma contract_modify: "(\<And>s. P s \<Longrightarrow> Q () (f s)) \<Longrightarrow> contract P (modifyS f) Q E"
  by (simp add: contract_def op_defs)

lemma contract_guard:
  "(\<And>s. b \<Longrightarrow> P s \<Longrightarrow> E s) \<Longrightarrow> (\<And>s. \<not> b \<Longrightarrow> P s \<Longrightarrow> Q () s) \<Longrightarrow> contract P (guardS b e) Q E"
  by (simp add: contract_def op_defs)

lemma contract_catch:
  assumes "contract P m Q F" "\<And>e. contract F (h e) Q E"
  shows "contract P (catchS m h) Q E"
  using contractD [OF assms(1)] contractE [OF assms(1)] contractD [OF assms(2)] contractE [OF assms(2)]
  by (intro contractI; simp add: catchS_def split: prod.splits sum.splits; blast)

lemma contract_for:
  "(\<And>x. x \<in> set xs \<Longrightarrow> contract P (f x) (\<lambda>_. P) E) \<Longrightarrow> contract P (forS f xs) (\<lambda>_. P) E"
  by (induction xs) (auto intro: contract_return contract_then)

section \<open>The accounting follows the calls\<close>

lemma owed_after_snoc:
  "owed_after library past (cs @ [c]) h =
     Option.bind (owed_after library past cs h) (resource_step c (fst (library (past @ cs @ [c]))))"
proof (induction cs arbitrary: past h)
  case Nil
  then show ?case by (cases "resource_step c (fst (library (past @ [c]))) h") simp_all
next
  case (Cons d cs)
  then show ?case by (cases "resource_step d (fst (library (past @ [d]))) h") simp_all
qed

lemma owed_snoc:
  "owed library (cs @ [c]) = Option.bind (owed library cs) (resource_step c (fst (library (cs @ [c]))))"
  by (simp add: owed_def owed_after_snoc)

definition holds :: "bridge_module \<Rightarrow> holdings \<Rightarrow> 'a bridge_caller_scheme \<Rightarrow> bool" where
  "holds library h s \<longleftrightarrow> owed library (bridge_calls s) = Some h"

locale bridge_client =
  fixes handle :: "u64 \<times> bridge_callback \<Rightarrow> 'a bridge_caller_scheme \<Rightarrow> 'a bridge_caller_scheme"
  assumes handle_calls: "bridge_calls (handle e s) = bridge_calls s"
begin

lemma fold_handle_calls [simp]: "bridge_calls (fold handle es s) = bridge_calls s"
  by (induction es arbitrary: s) (simp_all add: handle_calls)

lemma ask_calls: "ask library handle c s = (r, t) \<Longrightarrow>
    bridge_calls t = bridge_calls s @ [c] \<and> r = fst (library (bridge_calls s @ [c]))"
  by (auto simp: ask_def split: prod.splits)

lemma invoke_contract:
  assumes "\<And>r. resource_step c r h = Some (h' r)"
  shows "contract (holds library h) (invoke library handle c) (\<lambda>r. holds library (h' r)) E"
  using assms ask_calls [of library c]
  by (intro contractI) (auto simp: invoke_def holds_def owed_snoc split: prod.splits)

lemma invoke_keeps:
  assumes "\<And>r. resource_step c r h = Some h"
  shows "contract (holds library h) (invoke library handle c) (\<lambda>_. holds library h) E"
  using invoke_contract [of c h "\<lambda>_. h"] assms by simp

lemma Lookup_contract:
  "contract (holds library (True, live)) (Lookup library handle name)
     (\<lambda>_. holds library (True, live)) (holds library (True, live))"
  unfolding Lookup_def
  by (rule contract_bind [OF invoke_keeps]) (auto intro: contract_guard)

lemma load_contract:
  "contract (holds library (False, {#})) (invoke library handle (mcLoadLibrary path))
     (\<lambda>r. holds library (r \<noteq> 0, {#})) E"
  by (rule invoke_contract) simp

lemma free_contract:
  "contract (holds library (True, {#})) (free_library library handle) (\<lambda>_. holds library (False, {#})) E"
  unfolding free_library_def
  by (rule contract_then [OF invoke_contract]) (auto intro: contract_return)

lemma free_rethrow:
  "contract (holds library (True, {#})) (thenS (free_library library handle) (throwS e)) Q
     (holds library (False, {#}))"
  by (rule contract_then [OF free_contract contract_throw])

lemma loaded_contract:
  assumes "contract (holds library (True, {#})) m Q (holds library (False, {#}))"
  shows "contract (holds library (False, {#}))
    (bindS (invoke library handle (mcLoadLibrary path)) (\<lambda>module. thenS (guardS (module = 0) e) m))
    Q (holds library (False, {#}))"
proof (rule contract_bind [OF load_contract], rule contract_then)
  fix r :: u64
  show "contract (holds library (r \<noteq> 0, {#})) (guardS (r = 0) e) (\<lambda>_. holds library (True, {#})) (holds library (False, {#}))"
    by (rule contract_guard) simp_all
qed (rule assms)

lemma create_contract:
  "contract (holds library (True, live)) (invoke library handle mcCreateFactory)
     (\<lambda>r. holds library (True, if r = 0 then live else add_mset r live)) E"
  by (rule invoke_contract) simp

lemma factory_contract:
  assumes "f \<in># live" "c \<noteq> fcDestroy"
  shows "contract (holds library (True, live)) (invoke library handle (mcFactory f c))
     (\<lambda>_. holds library (True, live)) E"
  using assms by (intro invoke_keeps) (cases c; simp)

lemma destroy_contract:
  assumes "f \<in># live"
  shows "contract (holds library (True, live)) (invoke library handle (mcFactory f fcDestroy))
     (\<lambda>_. holds library (True, live - {#f#})) E"
  using assms by (intro invoke_contract) simp

end

interpretation silent: bridge_client no_callback
  by unfold_locales (simp add: no_callback_def)

lemma capture_into_calls: "bridge_calls (capture_into slot cb s) = bridge_calls s"
proof (cases cb)
  case (cbOffer sdp)
  then show ?thesis by (cases slot) simp_all
next
  case (cbAnswer sdp)
  then show ?thesis by (cases slot) simp_all
next
  case (cbIce c)
  then show ?thesis by (cases slot) simp_all
next
  case (cbRemoteDescription v)
  then show ?thesis by (cases slot) simp_all
qed simp

interpretation probe: bridge_client on_capture
  by unfold_locales (simp add: on_capture_def capture_into_calls split: option.splits)

section \<open>The stages of the life cycle\<close>

definition owing :: "bridge_module \<Rightarrow> u64 list \<Rightarrow> Lifecycle \<Rightarrow> bool" where
  "owing library fs = holds library (True, mset fs)"

lemma owing_factory_contract:
  "f \<in> set fs \<Longrightarrow> c \<noteq> fcDestroy \<Longrightarrow>
   contract (owing library fs) (invoke library on_capture (mcFactory f c)) (\<lambda>_. owing library fs) E"
  unfolding owing_def by (rule probe.factory_contract) simp_all

lemma destroy_one: "contract (owing library (f # fs)) (destroy_factory library f) (\<lambda>_. owing library fs) E"
  using probe.destroy_contract [of f "mset (f # fs)" library E]
  unfolding destroy_factory_def owing_def by (intro contract_then) (auto intro: contract_return)

lemma destroy_all:
  "contract (owing library fs) (forS (destroy_factory library) fs) (\<lambda>_. owing library []) E"
  by (induction fs) (auto intro: contract_return contract_then destroy_one)

lemma give_up_contract: "contract (owing library fs) (give_up library fs message) Q (owing library [])"
  unfolding give_up_def by (rule contract_then [OF destroy_all contract_throw])

lemma require_contract:
  "contract (owing library fs) (require library fs message b) (\<lambda>_. owing library fs) (owing library [])"
  unfolding require_def by (auto intro: contract_return give_up_contract)

lemma call_contract:
  "f \<in> set fs \<Longrightarrow> c \<noteq> fcDestroy \<Longrightarrow>
   contract (owing library fs) (call_or_give_up library fs message f c) (\<lambda>_. owing library fs) (owing library [])"
  unfolding call_or_give_up_def
  by (rule contract_bind [OF owing_factory_contract require_contract])

lemma set_capture_contract:
  assumes "f \<in> set fs"
  shows "contract (owing library fs) (set_capture library f kind slot) (\<lambda>_. owing library fs) (owing library [])"
  unfolding set_capture_def
proof (intro contract_then)
  show "contract (owing library fs) (modifyS (\<lambda>s. s\<lparr>lc_registered := ((f, kind), slot) # lc_registered s\<rparr>))
      (\<lambda>_. owing library fs) (owing library [])"
    by (rule contract_modify) (simp add: owing_def holds_def)
qed (use assms in \<open>auto intro: owing_factory_contract contract_return\<close>)

lemma wait_keeps: "contract (owing library fs) (invoke library on_capture (mcWait ms)) (\<lambda>_. owing library fs) E"
  unfolding owing_def by (rule probe.invoke_keeps) simp

lemma wait_contract: "contract (owing library fs) (wait_for library p) (\<lambda>_. owing library fs) E"
  unfolding wait_for_def
  by (rule contract_bind [OF contract_get]) (auto intro: contract_return contract_then [OF wait_keeps contract_get])

lemma create_owing:
  "contract (owing library fs) (invoke library on_capture mcCreateFactory)
     (\<lambda>f. owing library (if f = 0 then fs else f # fs)) E"
  unfolding owing_def by (rule probe.invoke_contract) simp

lemmas stage_rules = call_contract set_capture_contract wait_contract require_contract contract_get

lemma offer_stage_contract:
  "contract (owing library []) (offer_stage library) (\<lambda>f. owing library [f]) (owing library [])"
  unfolding offer_stage_def
proof (rule contract_bind [OF create_owing], rule contract_then)
  fix f
  show "contract (owing library (if f = 0 then [] else [f]))
      (guardS (f = 0) (Runtime_error ''WebRTC bridge could not create a PeerConnectionFactory''))
      (\<lambda>_. owing library [f]) (owing library [])"
    by (rule contract_guard) simp_all
next
  fix f
  show "contract (owing library [f])
     (thenS (call_or_give_up library [f]
               ''WebRTC bridge could not create control-v1 and bulk-v1 DataChannels'' f fcCreateProtocolChannels)
     (thenS (set_capture library f ckOffer csOffer)
     (thenS (set_capture library f ckIce csOfferIce)
     (thenS (call_or_give_up library [f] ''WebRTC bridge could not start an SDP offer'' f fcCreateOffer)
     (bindS (wait_for library (\<lambda>s. lc_capture s \<noteq> [])) (\<lambda>b.
     thenS (require library [f] ''WebRTC bridge did not produce an SDP offer'' b)
     (bindS (getS (\<lambda>s. sublist ''m=application'' (lc_capture s))) (\<lambda>b.
     thenS (require library [f] ''WebRTC SDP offer does not describe DataChannels'' b)
     (returnS f))))))))) (\<lambda>f. owing library [f]) (owing library [])"
    by (rule contract_then contract_bind stage_rules contract_return | simp)+
qed

lemma answer_stage_contract:
  "contract (owing library [f]) (answer_stage library f) (\<lambda>g. owing library [g, f]) (owing library [])"
  unfolding answer_stage_def
proof (rule contract_bind [OF create_owing], rule contract_then)
  fix g
  show "contract (owing library (if g = 0 then [f] else [g, f]))
      (if g = 0 then give_up library [f] ''WebRTC bridge could not create the remote PeerConnection''
       else call_or_give_up library [g, f]
              ''WebRTC bridge could not create the remote PeerConnection'' g fcCreatePeerConnection)
      (\<lambda>_. owing library [g, f]) (owing library [])"
    by (simp add: give_up_contract call_contract)
next
  fix g
  show "contract (owing library [g, f])
     (thenS (set_capture library g ckAnswer csAnswer)
     (thenS (set_capture library g ckIce csAnswerIce)
     (thenS (set_capture library g ckRemoteDescription csOfferCompletion)
     (bindS (getS lc_capture) (\<lambda>sdp.
     thenS (call_or_give_up library [g, f] ''WebRTC bridge rejected its own SDP offer'' g (fcApplyOffer (passed sdp)))
     (bindS (wait_for library (\<lambda>s. completed (lc_remote_offer_completion s))) (\<lambda>b.
     bindS (getS (\<lambda>s. success (lc_remote_offer_completion s))) (\<lambda>ok.
     thenS (require library [g, f] ''WebRTC bridge did not apply the remote SDP offer'' (b \<and> ok))
     (bindS (wait_for library (\<lambda>s. lc_answer_capture s \<noteq> [])) (\<lambda>b.
     thenS (require library [g, f] ''WebRTC bridge did not produce an SDP answer'' b)
     (returnS g))))))))))) (\<lambda>g. owing library [g, f]) (owing library [])"
    by (rule contract_then contract_bind stage_rules contract_return | simp)+
qed

lemma accept_stage_contract:
  "contract (owing library [g, f]) (accept_stage library f g) (\<lambda>_. owing library [g, f]) (owing library [])"
  unfolding accept_stage_def by (rule contract_then contract_bind stage_rules | simp)+

lemma ice_stage_contract:
  "contract (owing library [g, f]) (ice_stage library f g) (\<lambda>_. owing library [g, f]) (owing library [])"
proof -
  have waits: "contract (owing library [g, f])
      (bindS (wait_for_candidate library lc_offer_ice_capture) (\<lambda>b.
         if b then wait_for_candidate library lc_answer_ice_capture else returnS False))
      (\<lambda>_. owing library [g, f]) (owing library [])"
    unfolding wait_for_candidate_def
    by (rule contract_bind [OF wait_contract]) (auto intro: wait_contract contract_return)
  show ?thesis
    unfolding ice_stage_def
    by (rule contract_bind [OF waits])
      (rule contract_then contract_bind [OF contract_get] contract_for wait_keeps stage_rules | simp)+
qed

lemma lifecycle_contract:
  "contract (holds library (False, {#})) (VerifyFactoryLifecycle library path)
     (\<lambda>_. holds library (False, {#})) (holds library (False, {#}))"
proof -
  have body: "contract (owing library [])
      (thenS (forS (Lookup library on_capture) lifecycle_exports)
       (bindS (offer_stage library) (\<lambda>f. bindS (answer_stage library f) (\<lambda>g.
        thenS (accept_stage library f g) (thenS (ice_stage library f g)
        (thenS (destroy_factory library g) (thenS (destroy_factory library f) (free_library library on_capture))))))))
      (\<lambda>_. holds library (False, {#})) (owing library [])"
  proof -
    have lookup: "contract (owing library []) (Lookup library on_capture name) (\<lambda>_. owing library []) (owing library [])" for name
      using probe.Lookup_contract [of library "{#}"] by (simp add: owing_def)
    have free: "contract (owing library []) (free_library library on_capture) (\<lambda>_. holds library (False, {#})) (owing library [])"
      using probe.free_contract [of library] by (simp add: owing_def)
    show ?thesis
      by (rule contract_then contract_bind contract_for lookup free offer_stage_contract answer_stage_contract
        accept_stage_contract ice_stage_contract destroy_one)+
  qed
  show ?thesis
    unfolding VerifyFactoryLifecycle_def
    by (rule probe.loaded_contract)
      (rule contract_catch [OF body [unfolded owing_def, simplified] probe.free_rethrow])
qed

lemma read_limit_contract:
  "contract (holds library (False, {#})) (VerifyAndReadMaxQueuedBytes library path)
     (\<lambda>_. holds library (False, {#})) (holds library (False, {#}))"
proof -
  let ?L = "holds library (True, {#}) :: bridge_caller \<Rightarrow> bool"
  have call: "contract ?L (invoke library no_callback c) (\<lambda>_. ?L) E" if "c = mcAbiVersion \<or> c = mcMaxQueuedBytes" for c E
    using that by (intro silent.invoke_keeps) auto
  have guard: "contract ?L (guardS b e) (\<lambda>_. ?L) ?L" for b e by (rule contract_guard) simp_all
  have body: "contract ?L
       (thenS (Lookup library no_callback ''VeritasSyncWebRtcBridgeAbiVersion'')
       (bindS (invoke library no_callback mcAbiVersion) (\<lambda>v.
        thenS (guardS ((ucast v :: u32) \<noteq> kExpectedAbiVersion) (Runtime_error ''WebRTC bridge ABI version mismatch''))
        (thenS (Lookup library no_callback ''VeritasSyncWebRtcBridgeMaxQueuedBytes'')
        (bindS (invoke library no_callback mcMaxQueuedBytes) (\<lambda>n.
         thenS (free_library library no_callback) (returnS n)))))))
       (\<lambda>_. holds library (False, {#})) ?L"
    by (rule contract_then [OF silent.Lookup_contract] contract_bind [OF call] contract_then [OF guard]
        contract_then [OF silent.free_contract] contract_return | simp)+
  show ?thesis
    unfolding VerifyAndReadMaxQueuedBytes_def
    by (rule silent.loaded_contract) (rule contract_catch [OF body silent.free_rethrow])
qed

section \<open>The probes release what they take\<close>

lemma holds_start: "bridge_calls s = [] \<Longrightarrow> holds library (False, {#}) s"
  by (simp add: holds_def owed_def)

lemma contract_snd:
  assumes "contract P m (\<lambda>_. Q) Q" "P s"
  shows "Q (snd (m s))"
proof (cases "fst (m s)")
  case (Inl e)
  then show ?thesis using contractE [OF assms, of e "snd (m s)"] by (simp add: prod_eq_iff)
next
  case (Inr x)
  then show ?thesis using contractD [OF assms, of x "snd (m s)"] by (simp add: prod_eq_iff)
qed

text \<open>
  C26: Whatever the library exports, returns or calls back, both probes of the loader leave nothing behind:
  on every path, including each of the failure branches, every factory that was created is destroyed
  exactly once, no call is made on a factory that is not alive or on a library that is not loaded, and
  a library that was loaded is freed exactly once, after its factories.
\<close>

theorem probes_release_everything:
  "owed library (bridge_calls (snd (VerifyFactoryLifecycle library path Lifecycle_new))) = Some (False, {#}) \<and>
   owed library (bridge_calls (snd (VerifyAndReadMaxQueuedBytes library path \<lparr>bridge_calls = []\<rparr>))) = Some (False, {#})"
  using contract_snd [OF lifecycle_contract [of library path], of Lifecycle_new]
    contract_snd [OF read_limit_contract [of library path], of "\<lparr>bridge_calls = []\<rparr>"]
  by (simp add: holds_start Lifecycle_new_def holds_def owed_def)

end
