(* ===== verification/Webrtc_Transport_Invariant.thy ===== *)
theory Webrtc_Transport_Invariant
  imports Webrtc_Transport Webrtc_Bridge_Properties Fragment_Reassembly
begin

text \<open>
  The states a WebRTC transport can reach and what holds in all of them, whatever the library does: exact
  queues inside the send budget, sound reassemblers, exactly one factory owed to the library, and no
  sending after a wire error.  One closure rule over the calls that a step can make carries the proofs.
\<close>

section \<open>Reachable states\<close>

datatype 'k transport_step =
    tsSend Channel bytes
  | tsPump
  | tsSetReceive "'k option"
  | tsSetOffer "'k option"
  | tsSetAnswer "'k option"
  | tsSetIce "'k option"
  | tsSetRemoteDescription "'k option"
  | tsPeer transport_call
  | tsIsReady
  | tsBufferedAmount Channel
  | tsDiagnosticState
  | tsCallback "u64 \<times> bridge_callback"

fun apply_step :: "bridge_module \<Rightarrow> 'k handler \<Rightarrow> 'k transport_step \<Rightarrow> 'k WebRtcTransport \<Rightarrow> 'k WebRtcTransport" where
  "apply_step library handler (tsSend channel wire) s = snd (Webrtc_Send library handler channel wire s)"
| "apply_step library handler tsPump s = snd (Webrtc_Pump library handler s)"
| "apply_step library handler (tsSetReceive k) s = Webrtc_SetReceiveCallback k s"
| "apply_step library handler (tsSetOffer k) s = Webrtc_SetOfferCallback k s"
| "apply_step library handler (tsSetAnswer k) s = Webrtc_SetAnswerCallback k s"
| "apply_step library handler (tsSetIce k) s = Webrtc_SetIceCallback k s"
| "apply_step library handler (tsSetRemoteDescription k) s = Webrtc_SetRemoteDescriptionCallback k s"
| "apply_step library handler (tsPeer c) s = snd (peer_operation library handler c s)"
| "apply_step library handler tsIsReady s = snd (Webrtc_IsReady library handler s)"
| "apply_step library handler (tsBufferedAmount channel) s = snd (Webrtc_BufferedAmount library handler channel s)"
| "apply_step library handler tsDiagnosticState s = snd (Webrtc_DiagnosticState library handler s)"
| "apply_step library handler (tsCallback e) s = on_bridge handler e s"

inductive transport_reached :: "bridge_module \<Rightarrow> 'k handler \<Rightarrow> 'k WebRtcTransport \<Rightarrow> bool"
  for library handler where
  constructed: "WebRtcTransport_new library handler path initiator options WebRtcTransport_fields = (Inr (), s) \<Longrightarrow>
     transport_reached library handler s"
| stepped: "transport_reached library handler s \<Longrightarrow> transport_reached library handler (apply_step library handler st s)"

section \<open>What the calls of the library can change\<close>

lemma ask_closed:
  assumes "\<And>cb s. P s \<Longrightarrow> P (run_callback handler cb s)" "\<And>cs. P (s\<lparr>bridge_calls := cs\<rparr>)"
    and "ask library (on_bridge handler) c s = (r, t)"
  shows "P t"
proof -
  have "P (fold (on_bridge handler) es u)" if "P u" for es u
    using that by (induction es arbitrary: u) (simp_all add: on_bridge_def assms(1))
  then show ?thesis using assms(2,3) by (auto simp: ask_def split: prod.splits)
qed

definition reassembly_ok :: "'k WebRtcTransport \<Rightarrow> bool" where
  "reassembly_ok s \<longleftrightarrow> (\<forall>c. reassembler_inv (wt_reassembly s c))"

lemma run_callback_reassembly: "reassembly_ok s \<Longrightarrow> reassembly_ok (run_callback handler cb s)"
proof (cases cb)
  case (cbData channel data now)
  assume "reassembly_ok s"
  then have "reassembler_inv (snd (Accept now b (wt_reassembly s c)))" for b c
    by (simp add: Accept_inv reassembly_ok_def)
  then have "reassembler_inv r" if "Accept now b (wt_reassembly s c) = (x, r)" for b c x r
    using that by (metis snd_conv)
  then show ?thesis
    using cbData \<open>reassembly_ok s\<close>
    by (auto simp: Webrtc_Receive_def deliver_frame_def reassembly_ok_def Let_def split: option.splits prod.splits sum.splits)
qed (auto simp: Webrtc_ReceiveOffer_def Webrtc_ReceiveAnswer_def Webrtc_ReceiveIce_def Webrtc_ReceiveRemoteDescription_def call_owner_def
    reassembly_ok_def split: option.splits)

lemma run_callback_error: "wt_wire_error s \<noteq> None \<Longrightarrow> wt_wire_error (run_callback handler cb s) \<noteq> None"
  by (cases cb) (auto simp: Webrtc_ReceiveOffer_def Webrtc_ReceiveAnswer_def Webrtc_ReceiveIce_def Webrtc_ReceiveRemoteDescription_def
      Webrtc_Receive_def deliver_frame_def call_owner_def Let_def split: option.splits prod.splits sum.splits)

lemma ask_reassembly: "ask library (on_bridge handler) c s = (r, t) \<Longrightarrow> reassembly_ok s \<Longrightarrow> reassembly_ok t"
  by (erule ask_closed [where P = reassembly_ok and s = s, rotated 2])
    (simp_all only: run_callback_reassembly, simp add: reassembly_ok_def)

lemma ask_error: "ask library (on_bridge handler) c s = (r, t) \<Longrightarrow> wt_wire_error s \<noteq> None \<Longrightarrow> wt_wire_error t \<noteq> None"
  by (rule ask_closed [where P = "\<lambda>s. wt_wire_error s \<noteq> None" and s = s]) (auto simp: run_callback_error)

text \<open>A predicate that the calls of one round keep holds after the loop.\<close>

definition quiet_call :: "factory_call \<Rightarrow> bool" where
  "quiet_call c \<longleftrightarrow> c \<noteq> fcDestroy \<and> (\<forall>b. c \<noteq> fcSendControl b \<and> c \<noteq> fcSendBulk b)"

lemma quiet_buffered: "quiet_call (buffered_call channel)"
  by (cases channel) (simp_all add: quiet_call_def)

lemma pump_channel_closed:
  assumes "P s"
    and quiet: "\<And>s c r t. P s \<Longrightarrow> quiet_call c \<Longrightarrow>
      ask library (on_bridge handler) (mcFactory (wt_factory s) c) s = (r, t) \<Longrightarrow> P t"
    and send: "\<And>s f rest r t. P s \<Longrightarrow> wt_wire_error s = None \<Longrightarrow> wt_outgoing s channel = f # rest \<Longrightarrow>
      ask library (on_bridge handler) (mcFactory (wt_factory s) (send_call channel f))
        (pop_outgoing channel f rest s) = (r, t) \<Longrightarrow> P t"
  shows "P (snd (pump_channel library handler channel s))"
  using assms(1)
proof (induction "length (wt_outgoing s channel)" arbitrary: s rule: less_induct)
  case less
  obtain ready s1 where r: "Webrtc_IsReady library handler s = (ready, s1)" by (rule prod.exhaust)
  obtain amount s2 where b: "ask_buffered library handler channel s1 = (amount, s2)" by (rule prod.exhaust)
  have s1: "P s1"
    using r quiet [OF less.prems, of fcIsReady] by (auto simp: Webrtc_IsReady_def quiet_call_def split: prod.splits)
  then have s2: "P s2" using b quiet [OF _ quiet_buffered] by (auto simp: ask_buffered_def)
  have same: "wt_outgoing s2 = wt_outgoing s"
    using bridge_calls_keep(1) [OF r] bridge_calls_keep(2) [OF b] by (simp add: same_owned_def)
  show ?case
  proof (cases "ready \<and> unat amount < 512 * 1024 \<and> wt_wire_error s2 = None \<and> wt_outgoing s2 channel \<noteq> []")
    case False
    then show ?thesis
      using s1 s2 by (subst pump_channel.simps) (auto simp: r b split: option.splits list.splits)
  next
    case True
    then obtain f rest where f: "wt_outgoing s2 channel = f # rest" by (cases "wt_outgoing s2 channel") auto
    obtain sent s3 where d: "send_fragment library handler channel f (pop_outgoing channel f rest s2) = (sent, s3)"
      by (rule prod.exhaust)
    have "wt_factory (pop_outgoing channel f rest s2) = wt_factory s2" by (simp add: pop_outgoing_def)
    then have s3: "P s3"
      using d send [OF s2 _ f] True by (auto simp: send_fragment_def split: prod.splits)
    have "length (wt_outgoing s3 channel) < length (wt_outgoing s channel)"
      using bridge_calls_keep(3) [OF d] same f by (simp add: same_owned_def pop_outgoing_def)
    then have "P (snd (pump_channel library handler channel s3))" using s3 by (rule less.hyps)
    then show ?thesis using s3 True by (subst pump_channel.simps) (simp add: r b f d)
  qed
qed

section \<open>Queues and the send budget\<close>

definition queues_ok :: "'k WebRtcTransport \<Rightarrow> bool" where
  "queues_ok s \<longleftrightarrow> (\<forall>c. wt_queued_bytes s c = sum_list (map length (wt_outgoing s c))) \<and>
     wt_queued_bytes s kControl + wt_queued_bytes s kBulk \<le> kSendBudget \<and>
     (\<forall>c. \<forall>f \<in> set (wt_outgoing s c). length f \<le> 16 * 1024)"

lemma queues_okD:
  assumes "queues_ok s"
  shows "wt_queued_bytes s c = sum_list (map length (wt_outgoing s c))"
    and "wt_queued_bytes s kControl + wt_queued_bytes s kBulk \<le> kSendBudget"
    and "f \<in> set (wt_outgoing s c) \<Longrightarrow> length f \<le> 16 * 1024"
  using assms unfolding queues_ok_def by blast+

lemma queues_ok_cong:
  "wt_outgoing t = wt_outgoing s \<Longrightarrow> wt_queued_bytes t = wt_queued_bytes s \<Longrightarrow> queues_ok t = queues_ok s"
  by (simp only: queues_ok_def)

fun sent_fragment :: "Channel \<Rightarrow> module_call \<Rightarrow> bytes option" where
  "sent_fragment kControl (mcFactory f (fcSendControl b)) = Some b"
| "sent_fragment kBulk (mcFactory f (fcSendBulk b)) = Some b"
| "sent_fragment _ _ = None"

definition sent_on :: "Channel \<Rightarrow> module_call list \<Rightarrow> bytes list" where
  "sent_on channel calls = List.map_filter (sent_fragment channel) calls"

text \<open>The fragments of a channel in order: those the library was given, then those still queued.\<close>

definition channel_stream :: "Channel \<Rightarrow> 'k WebRtcTransport \<Rightarrow> bytes list" where
  "channel_stream channel s = sent_on channel (bridge_calls s) @ wt_outgoing s channel"

lemma sent_on_snoc:
  "sent_on channel (cs @ [c]) = sent_on channel cs @ (case sent_fragment channel c of None \<Rightarrow> [] | Some b \<Rightarrow> [b])"
  by (induction cs) (auto simp: sent_on_def map_filter_simps split: option.splits)

lemma sent_fragment_quiet: "quiet_call c \<Longrightarrow> sent_fragment channel (mcFactory f c) = None"
  by (cases channel; cases c) (simp_all add: quiet_call_def)

lemma sent_fragment_send:
  "sent_fragment channel (mcFactory f (send_call c b)) = (if channel = c then Some (passed b) else None)"
  by (cases channel; cases c) simp_all

lemma passed_short: "length xs \<le> 16 * 1024 \<Longrightarrow> passed xs = xs"
  by (simp add: passed_def)

lemma ask_stream:
  assumes "ask library (on_bridge handler) c s = (r, t)"
  shows "queues_ok t = queues_ok s" "sent_fragment channel c = None \<Longrightarrow> channel_stream channel t = channel_stream channel s"
  using ask_keeps [OF assms] by (auto simp: same_owned_def queues_ok_def channel_stream_def sent_on_snoc)

lemma send_keeps:
  assumes "queues_ok s" "wt_outgoing s channel = f # rest"
    and "ask library (on_bridge handler) (mcFactory g (send_call channel f)) (pop_outgoing channel f rest s) = (r, t)"
  shows "queues_ok t" "channel_stream c t = channel_stream c s"
proof -
  have q: "wt_queued_bytes s channel = length f + sum_list (map length rest)" "length f \<le> 16 * 1024"
      "wt_queued_bytes s kControl + wt_queued_bytes s kBulk \<le> kSendBudget"
    using queues_okD(1,2) [OF assms(1)] queues_okD(3) [OF assms(1), of f channel] assms(2) by simp_all
  moreover have "wt_queued_bytes s channel \<le> wt_queued_bytes s kControl + wt_queued_bytes s kBulk"
    by (cases channel) simp_all
  ultimately have minus: "size_minus (wt_queued_bytes s channel) (length f) = sum_list (map length rest)"
    by (subst size_minus_exact) (simp_all add: kSendBudget_def)
  have "queues_ok (pop_outgoing channel f rest s)"
    unfolding queues_ok_def
  proof (intro conjI allI ballI)
    fix c
    show "wt_queued_bytes (pop_outgoing channel f rest s) c =
        sum_list (map length (wt_outgoing (pop_outgoing channel f rest s) c))"
      using queues_okD(1) [OF assms(1), of c] minus by (simp add: pop_outgoing_def)
    show "length g \<le> 16 * 1024" if "g \<in> set (wt_outgoing (pop_outgoing channel f rest s) c)" for g
      using that queues_okD(3) [OF assms(1), of g c] assms(2) by (simp add: pop_outgoing_def split: if_splits)
  qed (use q(1,3) minus in \<open>cases channel; simp add: pop_outgoing_def\<close>)
  then show "queues_ok t" using ask_stream(1) [OF assms(3)] by simp
  show "channel_stream c t = channel_stream c s"
    using ask_keeps [OF assms(3)] assms(2) passed_short [OF q(2)]
    by (auto simp: channel_stream_def sent_on_snoc sent_fragment_send same_owned_def pop_outgoing_def)
qed

lemma pump_channel_keeps:
  assumes "queues_ok s" "reassembly_ok s"
  shows "queues_ok (snd (pump_channel library handler channel s)) \<and>
    reassembly_ok (snd (pump_channel library handler channel s)) \<and>
    (\<forall>c. channel_stream c (snd (pump_channel library handler channel s)) = channel_stream c s)"
proof (rule pump_channel_closed [where P = "\<lambda>t. queues_ok t \<and> reassembly_ok t \<and> (\<forall>c. channel_stream c t = channel_stream c s)"],
    goal_cases)
  case 1
  then show ?case using assms by simp
next
  case (2 u c r t)
  then show ?case using ask_stream [OF 2(3)] ask_reassembly [OF 2(3)] by (simp add: sent_fragment_quiet)
next
  case (3 u f rest r t)
  moreover from 3 have "reassembly_ok (pop_outgoing channel f rest u)" by (simp add: reassembly_ok_def pop_outgoing_def)
  ultimately show ?case using send_keeps [OF _ 3(3) 3(4)] ask_reassembly [OF 3(4)] by simp
qed

section \<open>Frames entering the queues\<close>

lemma fold_push:
  assumes "wt_queued_bytes s channel + sum_list (map length fs) < 2 ^ 64"
  shows "fold (push_fragment channel) fs s =
    s\<lparr>wt_queued_bytes := (wt_queued_bytes s)(channel := wt_queued_bytes s channel + sum_list (map length fs)),
      wt_outgoing := (wt_outgoing s)(channel := wt_outgoing s channel @ fs)\<rparr>"
  using assms
proof (induction fs arbitrary: s)
  case Nil
  then show ?case by simp
next
  case (Cons f fs)
  then have "size_plus (wt_queued_bytes s channel) (length f) = wt_queued_bytes s channel + length f"
    by (intro size_plus_exact) simp
  then have "push_fragment channel f s =
      s\<lparr>wt_queued_bytes := (wt_queued_bytes s)(channel := wt_queued_bytes s channel + length f),
        wt_outgoing := (wt_outgoing s)(channel := wt_outgoing s channel @ [f])\<rparr>"
    by (simp add: push_fragment_def)
  with Cons.prems Cons.IH [of "push_fragment channel f s"] show ?case
    by (simp add: add.assoc fun_upd_def cong: if_cong)
qed

lemma fragments_cost:
  assumes "FragmentFrame ident wire = Inr fs"
  shows "sum_list (map length fs) = wire_cost wire" "\<forall>f \<in> set fs. length f \<le> 16 * 1024"
proof -
  let ?n = "fragment_slots (length wire)"
  have fs: "fs = map (nth_fragment ident wire) [0..<?n]" using assms by (simp add: FragmentFrame_map)
  have len: "length (nth_fragment ident wire k) = 20 + length (slot_bytes wire k)" for k
    by (simp add: length_make_fragment length_slot_bytes kHeader_def)
  have "sum_list (map (\<lambda>k. 20 + length (slot_bytes wire k)) ks) =
      20 * length ks + length (concat (map (slot_bytes wire) ks))" for ks
    by (induction ks) simp_all
  from this [of "[0..<?n]"] have "sum_list (map length fs) = 20 * ?n + length (concat (map (slot_bytes wire) [0..<?n]))"
    by (simp add: fs len comp_def)
  then show "sum_list (map length fs) = wire_cost wire"
    using concat_slots [of wire 0] by (simp add: wire_cost_def fragment_slots_def)
  show "\<forall>f \<in> set fs. length f \<le> 16 * 1024"
    by (simp add: fs len length_slot_bytes, simp add: kFragmentPayloadSize_def)
qed

definition has_room :: "bytes \<Rightarrow> 'k WebRtcTransport \<Rightarrow> bool" where
  "has_room wire s \<longleftrightarrow> wire_cost wire + wt_queued_bytes s kControl + wt_queued_bytes s kBulk \<le> kSendBudget"

lemma room_exact:
  assumes "queues_ok s"
  shows "size_minus (size_minus kSendBudget (wt_queued_bytes s kControl)) (wt_queued_bytes s kBulk) < wire_cost wire \<longleftrightarrow>
    \<not> has_room wire s"
proof -
  have q: "wt_queued_bytes s kControl + wt_queued_bytes s kBulk \<le> kSendBudget" using assms by (rule queues_okD(2))
  then have "size_minus (size_minus kSendBudget (wt_queued_bytes s kControl)) (wt_queued_bytes s kBulk) =
      kSendBudget - wt_queued_bytes s kControl - wt_queued_bytes s kBulk"
    by (subst size_minus_exact [of "wt_queued_bytes s kControl"], simp, simp add: kSendBudget_def,
        subst size_minus_exact) (simp_all add: kSendBudget_def)
  with q show ?thesis unfolding has_room_def by linarith
qed

text \<open>The three outcomes of queueing a frame: no room, no identifier left, or its fragments at the end of the queue.\<close>

lemma enqueue_frame_eq:
  assumes "queues_ok s"
  shows "enqueue_frame channel wire s =
    (if \<not> has_room wire s then (Inl (Length_error ''per-peer WebRTC send budget exceeded''), s)
     else case FragmentFrame (wt_next_message_id s) wire of
       Inl e \<Rightarrow> (Inl e, s\<lparr>wt_next_message_id := wt_next_message_id s + 1\<rparr>)
     | Inr fs \<Rightarrow> (Inr (), s\<lparr>wt_next_message_id := wt_next_message_id s + 1,
         wt_queued_bytes := (wt_queued_bytes s)(channel := wt_queued_bytes s channel + wire_cost wire),
         wt_outgoing := (wt_outgoing s)(channel := wt_outgoing s channel @ fs)\<rparr>))"
proof -
  have "fold (push_fragment channel) fs (s\<lparr>wt_next_message_id := n\<rparr>) = s\<lparr>wt_next_message_id := n,
         wt_queued_bytes := (wt_queued_bytes s)(channel := wt_queued_bytes s channel + wire_cost wire),
         wt_outgoing := (wt_outgoing s)(channel := wt_outgoing s channel @ fs)\<rparr>"
    if "has_room wire s" "FragmentFrame (wt_next_message_id s) wire = Inr fs" for fs n
    using that fragments_cost(1) [OF that(2)]
    by (subst fold_push) (cases channel; simp add: has_room_def kSendBudget_def)+
  then show ?thesis
    unfolding enqueue_frame_def
    by (simp add: op_defs room_exact [OF assms] split: sum.splits)
qed

lemma enqueue_frame_keeps:
  assumes "queues_ok s" "reassembly_ok s"
  shows "queues_ok (snd (enqueue_frame channel wire s)) \<and> reassembly_ok (snd (enqueue_frame channel wire s)) \<and>
    channel_stream c (snd (enqueue_frame channel wire s)) = channel_stream c s @
      (case FragmentFrame (wt_next_message_id s) wire of
         Inr fs \<Rightarrow> if has_room wire s \<and> c = channel then fs else [] | Inl e \<Rightarrow> [])"
proof (cases "FragmentFrame (wt_next_message_id s) wire")
  case (Inl e)
  have "queues_ok (s\<lparr>wt_next_message_id := n\<rparr>)" "reassembly_ok (s\<lparr>wt_next_message_id := n\<rparr>)" for n
    using assms queues_ok_cong [of "s\<lparr>wt_next_message_id := n\<rparr>" s] by (simp_all add: reassembly_ok_def)
  with Inl assms show ?thesis
    by (cases "has_room wire s") (simp_all add: enqueue_frame_eq channel_stream_def)
next
  case (Inr fs)
  let ?t = "s\<lparr>wt_next_message_id := wt_next_message_id s + 1,
         wt_queued_bytes := (wt_queued_bytes s)(channel := wt_queued_bytes s channel + wire_cost wire),
         wt_outgoing := (wt_outgoing s)(channel := wt_outgoing s channel @ fs)\<rparr>"
  note cost = fragments_cost [OF Inr]
  have "queues_ok ?t" if "has_room wire s"
    unfolding queues_ok_def
  proof (intro conjI allI ballI)
    fix c
    show "wt_queued_bytes ?t c = sum_list (map length (wt_outgoing ?t c))"
      using queues_okD(1) [OF assms(1)] cost(1) by simp
    show "length f \<le> 16 * 1024" if "f \<in> set (wt_outgoing ?t c)" for f
      using that queues_okD(3) [OF assms(1), of f c] cost(2) by (auto split: if_splits)
  qed (use that in \<open>cases channel; simp add: has_room_def\<close>)
  with assms Inr show ?thesis
    by (auto simp: enqueue_frame_eq reassembly_ok_def channel_stream_def)
qed

lemma Pump_keeps:
  assumes "queues_ok s" "reassembly_ok s"
  shows "queues_ok (snd (Webrtc_Pump library handler s)) \<and> reassembly_ok (snd (Webrtc_Pump library handler s)) \<and>
    channel_stream c (snd (Webrtc_Pump library handler s)) = channel_stream c s"
proof -
  let ?t = "snd (pump_channel library handler kControl s)"
  have t: "queues_ok ?t" "reassembly_ok ?t" "channel_stream c ?t = channel_stream c s"
    using pump_channel_keeps [OF assms] by blast+
  then show ?thesis
    using pump_channel_keeps [OF t(1,2), of library handler kBulk]
    by (cases "pump_channel library handler kControl s"; cases "fst (pump_channel library handler kControl s)")
      (simp_all add: Webrtc_Pump_def thenS_def bindS_def)
qed

text \<open>The fragments that a step adds to a channel: those of an accepted frame, or none.\<close>

fun step_adds :: "'k transport_step \<Rightarrow> 'k WebRtcTransport \<Rightarrow> Channel \<Rightarrow> bytes list" where
  "step_adds (tsSend channel wire) s c =
     (case FragmentFrame (wt_next_message_id s) wire of
        Inr fs \<Rightarrow> if has_room wire s \<and> c = channel then fs else [] | Inl e \<Rightarrow> [])"
| "step_adds _ s c = []"

lemma Send_keeps:
  assumes "queues_ok s" "reassembly_ok s"
  shows "queues_ok (snd (Webrtc_Send library handler channel wire s)) \<and> reassembly_ok (snd (Webrtc_Send library handler channel wire s)) \<and>
    channel_stream c (snd (Webrtc_Send library handler channel wire s)) =
      channel_stream c s @ step_adds (tsSend channel wire) s c"
proof (cases "wire = [] \<or> kMaxFrameSize < length wire")
  case True
  then have "step_adds (tsSend channel wire) s c = []" by (auto simp: FragmentFrame_def)
  with True assms show ?thesis by (simp add: Webrtc_Send_def op_defs)
next
  case False
  let ?t = "snd (enqueue_frame channel wire s)"
  have t: "queues_ok ?t" "reassembly_ok ?t" "channel_stream c ?t = channel_stream c s @ step_adds (tsSend channel wire) s c"
    using enqueue_frame_keeps [OF assms, of channel wire c] by simp_all
  show ?thesis
  proof (cases "fst (enqueue_frame channel wire s)")
    case (Inl e)
    with False t have "Webrtc_Send library handler channel wire s = (Inl e, ?t)"
      by (cases "enqueue_frame channel wire s") (simp add: Webrtc_Send_def thenS_def bindS_def guardS_def)
    with t show ?thesis by simp
  next
    case (Inr u)
    with False have "Webrtc_Send library handler channel wire s = Webrtc_Pump library handler ?t"
      by (cases "enqueue_frame channel wire s") (simp add: Webrtc_Send_def thenS_def bindS_def guardS_def)
    with t Pump_keeps [OF t(1,2), of library handler c] show ?thesis by simp
  qed
qed

section \<open>Every reachable state\<close>

text \<open>What the constructor establishes and every step keeps; the accounting is that of \<open>owed\<close>.\<close>

definition transport_ok :: "'k WebRtcTransport \<Rightarrow> bool" where
  "transport_ok s \<longleftrightarrow> queues_ok s \<and> reassembly_ok s"

lemma transport_okI: "queues_ok s \<Longrightarrow> reassembly_ok s \<Longrightarrow> transport_ok s"
  by (simp add: transport_ok_def)

lemma transport_ok_fields: "transport_ok WebRtcTransport_fields"
  by (simp add: transport_ok_def queues_ok_def reassembly_ok_def WebRtcTransport_fields_def reassembler_inv_new)

lemma transport_ok_ask: "ask library (on_bridge handler) c s = (r, t) \<Longrightarrow> transport_ok s \<Longrightarrow> transport_ok t"
  using ask_stream(1) ask_reassembly by (metis transport_ok_def)

lemma transport_ok_invoke: "keepsS transport_ok (invoke library (on_bridge handler) c)"
  by (auto simp: keepsS_def invoke_def transport_ok_ask split: prod.splits)

lemma transport_ok_modify:
  "keepsS transport_ok (modifyS (\<lambda>s. s\<lparr>wt_destroy := b\<rparr>))"
  "keepsS transport_ok (modifyS (\<lambda>s. s\<lparr>wt_factory := f\<rparr>))"
  "keepsS transport_ok (modifyS (\<lambda>s. s\<lparr>wt_module := m\<rparr>))"
  by (auto intro!: keepsS_modify simp: transport_ok_def queues_ok_def reassembly_ok_def)

lemma transport_ok_lookup: "keepsS transport_ok (Lookup library (on_bridge handler) name)"
  unfolding Lookup_def by (intro keepsS_bind transport_ok_invoke keepsS_guard)

lemma transport_ok_factory: "keepsS transport_ok (factory_op library handler c)"
  unfolding factory_op_def by (intro keepsS_bind transport_ok_invoke keepsS_get)

lemma transport_ok_call: "keepsS transport_ok (lookup_and_call library handler name c)"
  unfolding lookup_and_call_def by (intro keepsS_then transport_ok_lookup transport_ok_factory)

lemmas transport_ok_ops = transport_ok_invoke transport_ok_modify transport_ok_lookup transport_ok_factory transport_ok_call

lemma transport_ok_new: "keepsS transport_ok (WebRtcTransport_new library handler path initiator options)"
proof -
  have "keepsS transport_ok (make_factory library handler)"
    unfolding make_factory_def by (intro keepsS_bind keepsS_then transport_ok_ops keepsS_guard)
  moreover have "keepsS transport_ok (configure_factory library handler initiator options)"
    unfolding configure_factory_def accepted_or_throw_def
    by (intro keepsS_bind keepsS_then keepsS_guard keepsS_for)
      (auto intro: transport_ok_ops split: prod.splits)
  moreover have "keepsS transport_ok (destroy_if_made library handler)"
    unfolding destroy_if_made_def by (intro keepsS_bind keepsS_get) (auto intro: transport_ok_ops)
  ultimately show ?thesis
    unfolding WebRtcTransport_new_def free_library_def
    by (intro keepsS_bind keepsS_then keepsS_lift transport_ok_ops keepsS_guard keepsS_catch keepsS_throw keepsS_return)
qed

lemma transport_ok_run_callback: "transport_ok s \<Longrightarrow> transport_ok (run_callback handler cb s)"
  using run_callback_keeps(1,2) [of handler cb s] run_callback_reassembly [of s handler cb]
    queues_ok_cong [of "run_callback handler cb s" s]
  by (simp add: transport_ok_def)

text \<open>The calls a step makes outside the send path: lookups, and calls on its own factory.\<close>

definition own_call :: "'k WebRtcTransport \<Rightarrow> module_call \<Rightarrow> bool" where
  "own_call s c \<longleftrightarrow> (\<exists>q. quiet_call q \<and> c = mcFactory (wt_factory s) q) \<or> (\<exists>name. c = mcGetProcAddress name)"

lemma quiet_peer_call: "quiet_call (peer_call c)"
  by (cases c) (simp_all add: quiet_call_def)

lemma step_closed:
  assumes P: "P s"
    and callback: "\<And>cb s. P s \<Longrightarrow> P (run_callback handler cb s)"
    and fields: "\<And>s k. P s \<Longrightarrow> P (s\<lparr>wt_callback := k\<rparr>)" "\<And>s k. P s \<Longrightarrow> P (s\<lparr>wt_offer_callback := k\<rparr>)"
      "\<And>s k. P s \<Longrightarrow> P (s\<lparr>wt_answer_callback := k\<rparr>)" "\<And>s k. P s \<Longrightarrow> P (s\<lparr>wt_ice_callback := k\<rparr>)"
      "\<And>s k. P s \<Longrightarrow> P (s\<lparr>wt_remote_description_callback := k\<rparr>)"
    and own: "\<And>s c r t. P s \<Longrightarrow> own_call s c \<Longrightarrow> ask library (on_bridge handler) c s = (r, t) \<Longrightarrow> P t"
    and send: "\<And>s channel f rest r t. P s \<Longrightarrow> wt_wire_error s = None \<Longrightarrow> wt_outgoing s channel = f # rest \<Longrightarrow>
      ask library (on_bridge handler) (mcFactory (wt_factory s) (send_call channel f))
        (pop_outgoing channel f rest s) = (r, t) \<Longrightarrow> P t"
    and enqueue: "\<And>channel wire. st = tsSend channel wire \<Longrightarrow> P (snd (enqueue_frame channel wire s))"
  shows "P (apply_step library handler st s)"
proof -
  have "P t" if "P s" "ask library (on_bridge handler) (mcGetProcAddress name) s = (r, t)" for s name r t
    using that(1) _ that(2) by (rule own) (simp add: own_call_def)
  then have lookup: "keepsS P (Lookup library (on_bridge handler) name)" for name
    unfolding Lookup_def by (intro keepsS_bind keepsS_guard) (auto simp: keepsS_def invoke_def split: prod.splits)
  have quiet: "P t" if "P s" "quiet_call c" "ask library (on_bridge handler) (mcFactory (wt_factory s) c) s = (r, t)" for s c r t
    using that(1) _ that(3) by (rule own) (use that(2) in \<open>auto simp: own_call_def\<close>)
  have call: "keepsS P (factory_op library handler c)" if "quiet_call c" for c
    using quiet [OF _ that] by (simp add: keepsS_def factory_op_def op_defs invoke_def split: prod.splits)
  have pump_channel: "P (snd (pump_channel library handler channel s))" if "P s" for channel s
    by (rule pump_channel_closed [where P = P, OF that quiet send])
  have pump: "keepsS P (Webrtc_Pump library handler)"
    unfolding Webrtc_Pump_def by (intro keepsS_then) (simp_all add: keepsS_def pump_channel)
  have ask: "P t" if "ask library (on_bridge handler) (mcFactory (wt_factory s) c) s = (r, t)" "quiet_call c" for c r t
    by (rule quiet [OF P that(2) that(1)])
  show ?thesis
  proof (cases st)
    case (tsSend channel wire)
    then have "P (snd (enqueue_frame channel wire s))" by (rule enqueue)
    with P keepsD [OF pump] tsSend show ?thesis
      by (auto simp: Webrtc_Send_def thenS_def bindS_def guardS_def split: prod.splits sum.splits)
  next
    case tsPump
    with P keepsD [OF pump] show ?thesis by simp
  next
    case (tsPeer c)
    have "keepsS P (peer_operation library handler c)"
      unfolding peer_operation_def by (intro keepsS_bind keepsS_guard call quiet_peer_call)
    with P tsPeer show ?thesis by (simp add: keepsD)
  next
    case tsIsReady
    with ask [of fcIsReady] show ?thesis by (auto simp: Webrtc_IsReady_def quiet_call_def split: prod.splits)
  next
    case (tsBufferedAmount channel)
    with ask [OF _ quiet_buffered] show ?thesis
      by (auto simp: Webrtc_BufferedAmount_def ask_buffered_def split: prod.splits)
  next
    case tsDiagnosticState
    have "keepsS P (Webrtc_DiagnosticState library handler)"
      unfolding Webrtc_DiagnosticState_def lookup_and_call_def
      by (intro keepsS_bind keepsS_then lookup call keepsS_return) (simp_all add: quiet_call_def)
    with P tsDiagnosticState show ?thesis by (simp add: keepsD)
  next
    case (tsCallback e)
    with P callback show ?thesis by (simp add: on_bridge_def)
  qed (use P fields in \<open>simp_all add: Webrtc_SetReceiveCallback_def Webrtc_SetOfferCallback_def
      Webrtc_SetAnswerCallback_def Webrtc_SetIceCallback_def Webrtc_SetRemoteDescriptionCallback_def\<close>)
qed

lemma callback_fields [simp]:
  "transport_ok (s\<lparr>wt_callback := k\<rparr>) = transport_ok s" "transport_ok (s\<lparr>wt_offer_callback := k\<rparr>) = transport_ok s"
  "transport_ok (s\<lparr>wt_answer_callback := k\<rparr>) = transport_ok s" "transport_ok (s\<lparr>wt_ice_callback := k\<rparr>) = transport_ok s"
  "transport_ok (s\<lparr>wt_remote_description_callback := k\<rparr>) = transport_ok s"
  by (simp_all add: transport_ok_def queues_ok_def reassembly_ok_def)

lemma sent_fragment_own: "own_call s c \<Longrightarrow> sent_fragment channel c = None"
  by (cases channel) (auto simp: own_call_def sent_fragment_quiet)

lemma queue_steps:
  assumes "transport_ok s"
  shows "transport_ok (apply_step library handler st s) \<and>
    channel_stream c (apply_step library handler st s) = channel_stream c s @ step_adds st s c"
proof (cases "\<exists>channel wire. st = tsSend channel wire")
  case True
  with assms Send_keeps show ?thesis by (fastforce simp: transport_ok_def simp del: step_adds.simps)
next
  case False
  have "transport_ok (apply_step library handler st s) \<and> channel_stream c (apply_step library handler st s) = channel_stream c s"
  proof (rule step_closed [where P = "\<lambda>t. transport_ok t \<and> channel_stream c t = channel_stream c s"], goal_cases)
    case (8 u call r t)
    then show ?case
      using ask_stream(2) [OF 8(3) sent_fragment_own [OF 8(2)]] transport_ok_ask [OF 8(3)] by simp
  next
    case (9 u channel f rest r t)
    then have "reassembly_ok (pop_outgoing channel f rest u)" by (simp add: transport_ok_def reassembly_ok_def pop_outgoing_def)
    with 9 show ?case using send_keeps [OF _ 9(3,4)] ask_reassembly [OF 9(4)] by (simp add: transport_ok_def)
  next
    case (2 cb u)
    then show ?case by (simp add: transport_ok_run_callback channel_stream_def run_callback_keeps)
  qed (use assms False in \<open>simp_all add: channel_stream_def\<close>)
  moreover have "step_adds st s c = []" using False by (cases st) auto
  ultimately show ?thesis by simp
qed

lemma reached_ok: "transport_reached library handler s \<Longrightarrow> transport_ok s"
proof (induction rule: transport_reached.induct)
  case (constructed path initiator options s)
  then show ?case
    using keepsD [OF transport_ok_new transport_ok_fields, of library handler path initiator options] by simp
next
  case (stepped s st)
  then show ?case using queue_steps by blast
qed

section \<open>Resources of the library\<close>

interpretation peer: bridge_client "on_bridge handler :: u64 \<times> bridge_callback \<Rightarrow> 'k WebRtcTransport \<Rightarrow> 'k WebRtcTransport"
  for handler
  by unfold_locales (rule on_bridge_keeps(8))

definition building :: "bridge_module \<Rightarrow> u64 \<Rightarrow> 'k WebRtcTransport \<Rightarrow> bool" where
  "building library f s \<longleftrightarrow> holds library (True, if f = 0 then {#} else {#f#}) s \<and> wt_factory s = f \<and>
     (f \<noteq> 0 \<longrightarrow> wt_destroy s) \<and> wt_module s \<noteq> 0"

abbreviation unfinished :: "bridge_module \<Rightarrow> 'k WebRtcTransport \<Rightarrow> bool" where
  "unfinished library s \<equiv> \<exists>f. building library f s"

lemma ask_building:
  assumes "building library f s" "ask library (on_bridge handler) c s = (r, t)"
    and "\<And>live. f \<noteq> 0 \<longrightarrow> f \<in># live \<Longrightarrow> resource_step c r (True, live) = Some (True, live)"
  shows "building library f t"
  using assms(1) assms(3) [of "if f = 0 then {#} else {#f#}"] ask_keeps [OF assms(2)] peer.ask_calls [OF assms(2)]
  by (auto simp: building_def holds_def owed_snoc same_owned_def split: if_splits)

lemma building_invoke:
  assumes "\<And>r live. f \<noteq> 0 \<longrightarrow> f \<in># live \<Longrightarrow> resource_step c r (True, live) = Some (True, live)"
  shows "contract (building library f) (invoke library (on_bridge handler) c) (\<lambda>_. building library f) E"
  by (rule contractI) (auto simp: invoke_def intro: ask_building [OF _ _ assms] split: prod.splits)

lemma building_lookup:
  "contract (building library f) (Lookup library (on_bridge handler) name) (\<lambda>_. building library f) (unfinished library)"
  unfolding Lookup_def by (rule contract_bind [OF building_invoke]) (auto intro: contract_guard)

lemma building_guard:
  "contract (building library f) (guardS b e) (\<lambda>_. building library f) (unfinished library)"
  by (rule contract_guard) auto

lemma building_factory_op:
  assumes "f \<noteq> 0" "c \<noteq> fcDestroy"
  shows "contract (building library f) (factory_op library handler c) (\<lambda>_. building library f) (unfinished library)"
proof -
  have "contract (building library f) (invoke library (on_bridge handler) (mcFactory f c)) (\<lambda>_. building library f)
      (unfinished library)"
    using assms by (intro building_invoke) (cases c; simp)
  then show ?thesis
    by (simp add: contract_def factory_op_def bindS_def getS_def building_def)
qed

lemma building_call:
  "f \<noteq> 0 \<Longrightarrow> c \<noteq> fcDestroy \<Longrightarrow> contract (building library f) (lookup_and_call library handler name c)
     (\<lambda>_. building library f) (unfinished library)"
  unfolding lookup_and_call_def by (intro contract_then [OF building_lookup] building_factory_op)

lemma building_create:
  "contract (\<lambda>s. building library 0 s \<and> wt_destroy s)
     (bindS (invoke library (on_bridge handler) mcCreateFactory) (\<lambda>factory.
        thenS (modifyS (\<lambda>s. s\<lparr>wt_factory := factory\<rparr>)) (guardS (factory = 0) e)))
     (\<lambda>_ s. \<exists>f. f \<noteq> 0 \<and> building library f s) (unfinished library)"
proof (rule contractI, goal_cases)
  case (1 s x t)
  then obtain r u where u: "ask library (on_bridge handler) mcCreateFactory s = (r, u)" "r \<noteq> 0" "t = u\<lparr>wt_factory := r\<rparr>"
    by (auto simp: op_defs invoke_def split: prod.splits if_splits)
  with 1(1) ask_keeps [OF u(1)] peer.ask_calls [OF u(1)] show ?case
    by (auto simp: building_def holds_def owed_snoc same_owned_def)
next
  case (2 s x t)
  then obtain u where u: "ask library (on_bridge handler) mcCreateFactory s = (0, u)" "t = u\<lparr>wt_factory := 0\<rparr>"
    by (auto simp: op_defs invoke_def split: prod.splits if_splits)
  with 2(1) ask_keeps [OF u(1)] peer.ask_calls [OF u(1)] show ?case
    by (auto simp: building_def holds_def owed_snoc same_owned_def)
qed

lemma make_factory_contract:
  "contract (building library 0) (make_factory library handler)
     (\<lambda>_ s. \<exists>f. f \<noteq> 0 \<and> building library f s) (unfinished library)"
proof -
  have mark: "contract (building library 0) (modifyS (\<lambda>s. s\<lparr>wt_destroy := True\<rparr>))
      (\<lambda>_ s. building library 0 s \<and> wt_destroy s) (unfinished library)"
    by (rule contract_modify) (simp add: building_def holds_def)
  have abi: "contract (building library 0) (invoke library (on_bridge handler) mcAbiVersion)
      (\<lambda>_. building library 0) (unfinished library)"
    by (rule building_invoke) simp
  show ?thesis
    unfolding make_factory_def
    by (rule contract_then [OF building_lookup] contract_bind [OF abi] contract_then [OF building_guard]
        contract_then [OF mark] building_create)+
qed

lemma configure_factory_contract:
  assumes "f \<noteq> 0"
  shows "contract (building library f) (configure_factory library handler initiator options)
     (\<lambda>_. building library f) (unfinished library)"
proof -
  note call = building_call [OF assms]
  have connect: "contract (building library f)
      (if initiator
       then lookup_and_call library handler ''VeritasSyncWebRtcBridgeCreateProtocolChannels'' fcCreateProtocolChannels
       else lookup_and_call library handler ''VeritasSyncWebRtcBridgeCreatePeerConnection'' fcCreatePeerConnection)
      (\<lambda>_. building library f) (unfinished library)"
    by (simp add: call)
  have register: "contract (building library f) (forS (\<lambda>(name, kind).
      thenS (lookup_and_call library handler name (fcSetCallback kind)) (returnS ())) callback_exports)
      (\<lambda>_. building library f) (unfinished library)"
    by (rule contract_for) (auto intro!: contract_then [OF call] contract_return)
  show ?thesis
    unfolding configure_factory_def accepted_or_throw_def
    by (rule contract_bind [OF call] contract_then [OF building_guard] contract_bind [OF connect]
        contract_then [OF register] contract_for building_lookup | simp)+
qed

lemma destroy_if_made_contract:
  "contract (unfinished library) (destroy_if_made library handler)
     (\<lambda>_ s. holds library (True, {#}) s \<and> wt_module s \<noteq> 0) E"
proof (rule contractI, goal_cases)
  case (1 s x t)
  then obtain f where f: "building library f s" by blast
  show ?case
  proof (cases "f = 0")
    case True
    with f 1(2) show ?thesis by (auto simp: destroy_if_made_def op_defs building_def)
  next
    case False
    with f 1(2) obtain r where r: "ask library (on_bridge handler) (mcFactory f fcDestroy) s = (r, t)"
      by (auto simp: destroy_if_made_def factory_op_def op_defs invoke_def building_def split: prod.splits)
    with f False ask_keeps [OF r] peer.ask_calls [OF r] show ?thesis
      by (simp add: building_def holds_def owed_snoc same_owned_def)
  qed
next
  case (2 s e t)
  then show ?case by (auto simp: destroy_if_made_def factory_op_def op_defs invoke_def split: prod.splits if_splits)
qed

lemma WebRtcTransport_new_contract:
  "contract (\<lambda>s. s = WebRtcTransport_fields) (WebRtcTransport_new library handler path initiator options)
     (\<lambda>_ s. \<exists>f. f \<noteq> 0 \<and> building library f s) (holds library (False, {#}))"
proof -
  let ?body = "thenS (make_factory library handler) (configure_factory library handler initiator options)"
  let ?catch = "\<lambda>e. thenS (destroy_if_made library handler) (thenS (free_library library (on_bridge handler)) (throwS e))"
  let ?start = "\<lambda>s. holds library (False, {#}) s \<and> wt_factory s = 0"
  have "contract (\<lambda>s. \<exists>f. f \<noteq> 0 \<and> building library f s) (configure_factory library handler initiator options)
      (\<lambda>_ s. \<exists>f. f \<noteq> 0 \<and> building library f s) (unfinished library)"
    using configure_factory_contract unfolding contract_def by (fastforce split: prod.splits sum.splits)
  then have body: "contract (building library 0) ?body (\<lambda>_ s. \<exists>f. f \<noteq> 0 \<and> building library f s) (unfinished library)"
    by (rule contract_then [OF make_factory_contract])
  have "contract (\<lambda>s. holds library (True, {#}) s \<and> wt_module s \<noteq> 0)
      (thenS (free_library library (on_bridge handler)) (throwS e)) Q (holds library (False, {#}))" for e Q
    using peer.free_rethrow [of library handler e Q] by (simp add: contract_def)
  then have cleanup: "contract (unfinished library) (?catch e) Q (holds library (False, {#}))" for e Q
    by (rule contract_then [OF destroy_if_made_contract])
  have load: "contract ?start (invoke library (on_bridge handler) (mcLoadLibrary path))
      (\<lambda>r s. holds library (r \<noteq> 0, {#}) s \<and> wt_factory s = 0) (holds library (False, {#}))"
    by (rule contractI) (auto simp: invoke_def holds_def owed_snoc same_owned_def split: prod.splits
        dest: ask_keeps peer.ask_calls)
  have set: "contract (\<lambda>s. holds library (r \<noteq> 0, {#}) s \<and> wt_factory s = 0) (modifyS (\<lambda>s. s\<lparr>wt_module := r\<rparr>))
      (\<lambda>_ s. holds library (r \<noteq> 0, {#}) s \<and> wt_factory s = 0 \<and> wt_module s = r) (holds library (False, {#}))" for r
    by (rule contract_modify) (simp add: holds_def)
  have guard: "contract (\<lambda>s. holds library (r \<noteq> 0, {#}) s \<and> wt_factory s = 0 \<and> wt_module s = r)
      (guardS (r = 0) e) (\<lambda>_. building library 0) (holds library (False, {#}))" for r e
    by (rule contract_guard) (simp_all add: building_def)
  have validate: "contract (\<lambda>s. s = WebRtcTransport_fields) (liftS (\<lambda>_. IceOptions_Validate options)) (\<lambda>_. ?start)
      (holds library (False, {#}))"
    by (rule contractI) (auto simp: liftS_def WebRtcTransport_fields_def holds_start)
  show ?thesis
    unfolding WebRtcTransport_new_def
    by (rule contract_then [OF validate] contract_bind [OF load] contract_then [OF set] contract_then [OF guard]
        contract_catch [OF body cleanup])+
qed

lemma enqueue_frame_owned:
  assumes "queues_ok s"
  shows "bridge_calls (snd (enqueue_frame channel wire s)) = bridge_calls s"
    "wt_factory (snd (enqueue_frame channel wire s)) = wt_factory s"
    "wt_destroy (snd (enqueue_frame channel wire s)) = wt_destroy s"
    "wt_module (snd (enqueue_frame channel wire s)) = wt_module s"
    "wt_wire_error (snd (enqueue_frame channel wire s)) = wt_wire_error s"
  using assms by (simp_all add: enqueue_frame_eq split: sum.splits)

lemma pop_outgoing_owned [simp]:
  "bridge_calls (pop_outgoing channel f rest s) = bridge_calls s"
  "wt_factory (pop_outgoing channel f rest s) = wt_factory s"
  "wt_destroy (pop_outgoing channel f rest s) = wt_destroy s"
  "wt_module (pop_outgoing channel f rest s) = wt_module s"
  "wt_wire_error (pop_outgoing channel f rest s) = wt_wire_error s"
  by (simp_all add: pop_outgoing_def)

lemma building_pop: "building library f (pop_outgoing channel g rest s) = building library f s"
  by (simp add: building_def holds_def)

lemma resource_own_call:
  assumes "own_call s c" "wt_factory s \<noteq> 0 \<longrightarrow> wt_factory s \<in># live" "wt_factory s \<noteq> 0"
  shows "resource_step c r (True, live) = Some (True, live)"
proof -
  have "resource_step (mcFactory (wt_factory s) q) r (True, live) = Some (True, live)" if "quiet_call q" for q
    using that assms by (cases q) (simp_all add: quiet_call_def)
  with assms(1) show ?thesis by (auto simp: own_call_def)
qed

lemma resource_send_call:
  "f \<noteq> 0 \<longrightarrow> f \<in># live \<Longrightarrow> f \<noteq> 0 \<Longrightarrow> resource_step (mcFactory f (send_call channel b)) r (True, live) = Some (True, live)"
  by (cases channel) simp_all

lemma building_step:
  assumes "transport_ok s" "building library f s" "f \<noteq> 0"
  shows "building library f (apply_step library handler st s)"
proof (rule step_closed [where P = "building library f"], goal_cases)
  case 1
  then show ?case by (rule assms(2))
next
  case (2 cb u)
  then show ?case by (simp add: building_def holds_def run_callback_keeps)
next
  case (8 u c r t)
  then have "wt_factory u = f" by (simp add: building_def)
  with 8 assms(3) show ?case by (intro ask_building [OF 8(1) 8(3)] resource_own_call [OF 8(2)]) simp_all
next
  case (9 u channel g rest r t)
  then have "wt_factory u = f" by (simp add: building_def)
  with 9 assms(3) show ?case
    by (intro ask_building [OF _ 9(4)]) (simp_all add: building_pop resource_send_call)
next
  case (10 channel wire)
  with assms show ?case by (simp add: building_def holds_def enqueue_frame_owned transport_ok_def)
qed (simp_all add: building_def holds_def)

lemma reached_building:
  "transport_reached library handler s \<Longrightarrow> building library (wt_factory s) s \<and> wt_factory s \<noteq> 0"
proof (induction rule: transport_reached.induct)
  case (constructed path initiator options s)
  then obtain f where "f \<noteq> 0" "building library f s"
    using contractD [OF WebRtcTransport_new_contract refl] by blast
  then show ?case by (simp add: building_def)
next
  case (stepped s st)
  then have "building library (wt_factory s) (apply_step library handler st s)"
    using building_step reached_ok by blast
  with stepped.IH show ?case by (simp add: building_def)
qed

lemma delete_contract:
  "contract (unfinished library) (WebRtcTransport_delete library handler) (\<lambda>_. holds library (False, {#}))
     (holds library (False, {#}))"
proof -
  let ?P = "\<lambda>s. holds library (True, {#}) s \<and> wt_module s \<noteq> 0"
  have "contract ?P (bindS (getS wt_module) (\<lambda>module.
      if module \<noteq> 0 then free_library library (on_bridge handler) else returnS ()))
      (\<lambda>_. holds library (False, {#})) (holds library (False, {#}))"
    using peer.free_contract [of library handler "holds library (False, {#})"]
    by (simp add: contract_def op_defs)
  then show ?thesis
    unfolding WebRtcTransport_delete_def by (rule contract_then [OF destroy_if_made_contract])
qed

section \<open>Wire errors\<close>

text \<open>After a wire error no step gives the library another fragment, and the error stays.\<close>

lemma error_steps:
  assumes "transport_ok s" "wt_wire_error s \<noteq> None"
  shows "wt_wire_error (apply_step library handler st s) \<noteq> None \<and>
    sent_on c (bridge_calls (apply_step library handler st s)) = sent_on c (bridge_calls s)"
proof (rule step_closed [where P = "\<lambda>t. wt_wire_error t \<noteq> None \<and> sent_on c (bridge_calls t) = sent_on c (bridge_calls s)"],
    goal_cases)
  case (2 cb u)
  then show ?case using run_callback_error [of u handler cb] by (simp add: run_callback_keeps)
next
  case (8 u call r t)
  then show ?case
    using ask_error [OF 8(3)] ask_keeps(2) [OF 8(3)] sent_fragment_own [OF 8(2)] by (simp add: sent_on_snoc)
next
  case (10 channel wire)
  with assms show ?case by (simp add: enqueue_frame_owned transport_ok_def)
qed (use assms(2) in simp_all)

end
