(* ===== verification/Webrtc_Transport_Properties.thy ===== *)
theory Webrtc_Transport_Properties
  imports Webrtc_Transport_Invariant
begin

text \<open>
  Correctness of the WebRTC transport against any library: the send budget and the byte counters are
  exact in every reachable state, fragments reach the library in the order their frames were sent, a
  wire error stops all sending, the resources of the library are released on every path, and a frame
  that one transport has sent completely is delivered once by the peer's transport.
\<close>

section \<open>A frame across two transports\<close>

text \<open>The data callbacks of one channel, one fragment each, at the given times.\<close>

fun channel_number :: "Channel \<Rightarrow> u32" where
  "channel_number kControl = 1"
| "channel_number kBulk = 2"

definition receive_all :: "'k handler \<Rightarrow> Channel \<Rightarrow> (int \<times> bytes) list \<Rightarrow> 'k WebRtcTransport \<Rightarrow> 'k WebRtcTransport" where
  "receive_all handler channel evs = fold (\<lambda>(now, b). Webrtc_Receive handler (channel_number channel) (Some b) now) evs"

text \<open>While the reassembler reports nothing, receiving only moves the reassembler.\<close>

lemma Receive_pending:
  assumes "wt_callback s = Some k" "b \<noteq> []" "Accept now b (wt_reassembly s channel) = (Inr None, ra)"
  shows "Webrtc_Receive handler (channel_number channel) (Some b) now s =
    s\<lparr>wt_reassembly := (wt_reassembly s)(channel := ra)\<rparr>"
  using assms by (cases channel) (simp_all add: Webrtc_Receive_def)

lemma Receive_complete:
  assumes "wt_callback s = Some k" "b \<noteq> []" "Accept now b (wt_reassembly s channel) = (Inr (Some frame), ra)"
  shows "Webrtc_Receive handler (channel_number channel) (Some b) now s =
    deliver_frame handler k channel frame (s\<lparr>wt_reassembly := (wt_reassembly s)(channel := ra)\<rparr>)"
  using assms by (cases channel) (simp_all add: Webrtc_Receive_def Let_def)

lemma receive_all_feed:
  assumes "wt_callback s = Some k" "\<forall>e \<in> set evs. snd e \<noteq> []" "evs \<noteq> []"
    and "feed (wt_reassembly s channel) evs = replicate (length evs - 1) (Inr None) @ [Inr (Some frame)]"
  shows "\<exists>ra. receive_all handler channel evs s =
    deliver_frame handler k channel frame (s\<lparr>wt_reassembly := (wt_reassembly s)(channel := ra)\<rparr>)"
  using assms
proof (induction evs arbitrary: s)
  case Nil
  then show ?case by simp
next
  case (Cons e evs)
  obtain now b where e: "e = (now, b)" by (rule prod.exhaust)
  obtain x ra where a: "Accept now b (wt_reassembly s channel) = (x, ra)" by (rule prod.exhaust)
  show ?case
  proof (cases "evs = []")
    case True
    with Cons.prems e a have "x = Inr (Some frame)" by simp
    with Cons.prems(1,2) e a have "receive_all handler channel (e # evs) s =
        deliver_frame handler k channel frame (s\<lparr>wt_reassembly := (wt_reassembly s)(channel := ra)\<rparr>)"
      using Receive_complete [of s k b now channel frame ra handler] True by (simp add: receive_all_def)
    then show ?thesis by blast
  next
    case False
    let ?t = "s\<lparr>wt_reassembly := (wt_reassembly s)(channel := ra)\<rparr>"
    from False Cons.prems(4) e a have x: "x = Inr None"
      and feed: "feed ra evs = replicate (length evs - 1) (Inr None) @ [Inr (Some frame)]"
      by (cases evs; simp)+
    have "receive_all handler channel (e # evs) s = receive_all handler channel evs ?t"
      using Cons.prems(1,2) e a x Receive_pending [of s k b now channel ra handler] by (simp add: receive_all_def)
    moreover have "\<exists>r. receive_all handler channel evs ?t =
        deliver_frame handler k channel frame (?t\<lparr>wt_reassembly := (wt_reassembly ?t)(channel := r)\<rparr>)"
      using Cons.prems(1,2) False feed by (intro Cons.IH) simp_all
    ultimately show ?thesis by (simp del: fun_upd_apply)
  qed
qed

text \<open>The fragments of a frame in order, at times close enough, are one delivery of the frame.\<close>

lemma received_once:
  assumes "reassembly_ok r" "wt_callback r = Some k" "pending (wt_reassembly r channel) = []"
    and f: "FragmentFrame ident wire = Inr fs"
    and "length clock = length fs" "successively (\<lambda>a b. b - a \<le> kExpiryNanoseconds) clock"
    and "handler (wt_delivered r @ [(k, dlFrame channel wire)]) = None"
  shows "wt_delivered (receive_all handler channel (zip clock fs) r) = wt_delivered r @ [(k, dlFrame channel wire)] \<and>
    wt_wire_error (receive_all handler channel (zip clock fs) r) = wt_wire_error r"
proof -
  let ?n = "fragment_slots (length wire)" and ?ra = "wt_reassembly r channel"
  have *: "ident \<noteq> 0" "wire \<noteq> []" "length wire \<le> kMaxFrameSize" "fs = map (nth_fragment ident wire) [0..<?n]"
    using f by (simp_all add: FragmentFrame_map)
  have n: "0 < ?n" using *(2) by (simp add: slot_less_iff)
  have len: "length clock = ?n" using assms(5) *(4) by simp
  let ?evs = "zip clock [0..<?n]"
  have inv: "reassembler_inv ?ra" using assms(1) by (simp add: reassembly_ok_def)
  then have "tracking wire ident {} 0 ?ra"
    using assms(3) *(3) by (simp add: tracking_def reassembler_inv_def held_bytes_def kMaxPendingFrames_def
        kReassemblyBudget_def kMaxFrameSize_def)
  moreover have "successively (\<lambda>a b. fst b - fst a \<le> kExpiryNanoseconds) ?evs"
    using assms(6) len successively_map [of "\<lambda>a b. b - a \<le> kExpiryNanoseconds" fst ?evs] by simp
  moreover have "snd ` set ?evs = {..<?n}"
    using len by (metis atLeast_upt diff_zero length_upt list.set_map map_snd_zip)
  moreover have "snd (last ?evs) \<notin> snd ` set (butlast ?evs)"
  proof -
    have "map snd ?evs = [0..<?n]" using len by simp
    then have "distinct (map snd (butlast ?evs @ [last ?evs]))" using n len by (subst append_butlast_last_id) auto
    then show ?thesis by simp
  qed
  moreover have "?evs \<noteq> []" using n len by auto
  ultimately have "feed ?ra (map (\<lambda>(now, k). (now, nth_fragment ident wire k)) ?evs) =
      replicate (length ?evs - 1) (Inr None) @ [Inr (Some wire)]"
    using * by (intro feed_tracking [where S = "{}" and t = 0]) auto
  moreover have "map (\<lambda>(now, k). (now, nth_fragment ident wire k)) ?evs = zip clock fs"
    by (simp add: *(4) zip_map2)
  ultimately have feed: "feed ?ra (zip clock fs) = replicate (length (zip clock fs) - 1) (Inr None) @ [Inr (Some wire)]"
    using len *(4) by simp
  have "\<forall>e \<in> set (zip clock fs). snd e \<noteq> []"
    by (auto simp: *(4) make_fragment_def Let_def dest!: set_zip_rightD)
  moreover have "zip clock fs \<noteq> []" using n len assms(5) by auto
  ultimately obtain ra where "receive_all handler channel (zip clock fs) r =
      deliver_frame handler k channel wire (r\<lparr>wt_reassembly := (wt_reassembly r)(channel := ra)\<rparr>)"
    using receive_all_feed [OF assms(2) _ _ feed, of handler] by blast
  with assms(7) show ?thesis by (simp add: deliver_frame_def Let_def del: fun_upd_apply)
qed

section \<open>A library to run against\<close>

text \<open>A library that accepts every call, makes factory 7 and calls nobody back.\<close>

definition sample_library :: bridge_module where
  "sample_library calls =
     ((case last calls of mcAbiVersion \<Rightarrow> 2 | mcCreateFactory \<Rightarrow> 7 | _ \<Rightarrow> 1), [])"

definition no_throw :: "'k handler" where
  "no_throw _ = None"

definition no_ice :: IceOptions where
  "no_ice = \<lparr>ice_servers = [], ice_relay_only = False\<rparr>"

definition sample_transport :: "unit WebRtcTransport" where
  "sample_transport = Webrtc_SetReceiveCallback (Some ())
     (snd (WebRtcTransport_new sample_library no_throw ''bridge.dll'' True no_ice WebRtcTransport_fields))"

lemma sample_made:
  "fst (WebRtcTransport_new sample_library no_throw ''bridge.dll'' True no_ice (WebRtcTransport_fields :: unit WebRtcTransport)) =
     Inr ()"
  by code_simp

lemma sample_reached: "transport_reached sample_library no_throw sample_transport"
proof -
  obtain s :: "unit WebRtcTransport" where
    "WebRtcTransport_new sample_library no_throw ''bridge.dll'' True no_ice WebRtcTransport_fields = (Inr (), s)"
    using sample_made by (metis prod.collapse)
  then show ?thesis
    using stepped [OF constructed, of sample_library no_throw "''bridge.dll''" True no_ice s "tsSetReceive (Some ())"]
    by (simp add: sample_transport_def)
qed

lemma sample_fields:
  "wt_outgoing sample_transport kControl = []" "wt_outgoing sample_transport kBulk = []"
  "wt_queued_bytes sample_transport kControl = 0" "wt_queued_bytes sample_transport kBulk = 0"
  "wt_callback sample_transport = Some ()" "wt_wire_error sample_transport = None"
  "pending (wt_reassembly sample_transport kControl) = []" "wt_delivered sample_transport = []"
  "wt_next_message_id sample_transport = 1"
  by code_simp+

lemma sample_asks:
  "Webrtc_IsReady sample_library handler s = (True, s\<lparr>bridge_calls := bridge_calls s @ [mcFactory (wt_factory s) fcIsReady]\<rparr>)"
  "ask_buffered sample_library handler c s = (1, s\<lparr>bridge_calls := bridge_calls s @ [mcFactory (wt_factory s) (buffered_call c)]\<rparr>)"
  "send_fragment sample_library handler c f s = (True, s\<lparr>bridge_calls := bridge_calls s @ [mcFactory (wt_factory s) (send_call c f)]\<rparr>)"
  by (simp_all add: Webrtc_IsReady_def ask_buffered_def send_fragment_def ask_def sample_library_def accepted_def)

lemma sample_fragment: "FragmentFrame 1 [1, 2, 3] = Inr [make_fragment 1 [1, 2, 3] 0]"
  by (simp add: FragmentFrame_def kMaxFrameSize_def fragments_from.simps kFragmentPayloadSize_def)

lemma sample_sent:
  "\<exists>t. Webrtc_Send sample_library no_throw kControl [1, 2, 3] sample_transport = (Inr (), t) \<and> wt_outgoing t kControl = []"
proof -
  have "queues_ok sample_transport" using reached_ok [OF sample_reached] by (simp add: transport_ok_def)
  moreover have "has_room [1, 2, 3] sample_transport"
    by (simp add: has_room_def sample_fields wire_cost_def kSendBudget_def kFragmentPayloadSize_def)
  ultimately show ?thesis
    by (simp add: Webrtc_Send_def Webrtc_Pump_def thenS_def bindS_def guardS_def kMaxFrameSize_def enqueue_frame_eq
        sample_fields sample_fragment pump_channel.simps sample_asks pop_outgoing_def)
qed

section \<open>Properties of the transport\<close>

text \<open>
  C25: In every state that a transport can reach, whatever the library does, the byte counter of each
  channel is exactly the size of the fragments queued on it, the two channels together never hold more
  than 32 MiB, and the reassembly memory of each channel stays inside its own budget.
\<close>

theorem transport_memory_bounded:
  assumes "transport_reached library handler s"
  shows "wt_queued_bytes s channel = sum_list (map length (wt_outgoing s channel)) \<and>
    wt_queued_bytes s kControl + wt_queued_bytes s kBulk \<le> 32 * 1024 * 1024 \<and>
    pending_bytes_held (wt_reassembly s channel) \<le> kReassemblyBudget"
proof -
  have ok: "queues_ok s" "reassembly_ok s" using reached_ok [OF assms] by (simp_all add: transport_ok_def)
  have "pending_bytes_held (wt_reassembly s channel) \<le> kReassemblyBudget"
    using ok(2) unfolding reassembly_ok_def reassembler_inv_def by blast
  then show ?thesis using queues_okD(1) [OF ok(1), of channel] queues_okD(2) [OF ok(1)] by (simp add: kSendBudget_def)
qed

theorem transport_memory_bounded_witness:
  "wt_queued_bytes sample_transport kBulk = sum_list (map length (wt_outgoing sample_transport kBulk))"
  using transport_memory_bounded [OF sample_reached, of kBulk] by blast

text \<open>
  C23: Fragments leave in the order their frames were sent.  The fragments a channel has given to the
  library, followed by those still in its queue, only ever grow at the end, and only by the fragments
  of a frame that a send has accepted: no operation, callback or failure reorders, drops or repeats one.
\<close>

theorem fragments_keep_order:
  assumes "transport_reached library handler s"
  shows "channel_stream c (apply_step library handler st s) = channel_stream c s @
    (case st of
       tsSend channel wire \<Rightarrow>
         (case FragmentFrame (wt_next_message_id s) wire of
            Inr fs \<Rightarrow> if has_room wire s \<and> c = channel then fs else [] | Inl e \<Rightarrow> [])
     | _ \<Rightarrow> [])"
  using queue_steps [OF reached_ok [OF assms], of library handler st c] by (cases st) simp_all

theorem fragments_keep_order_witness:
  "channel_stream kControl (apply_step sample_library no_throw (tsSend kControl [1, 2, 3]) sample_transport) =
     channel_stream kControl sample_transport @ [make_fragment 1 [1, 2, 3] 0]"
proof -
  have "has_room [1, 2, 3] sample_transport"
    by (simp add: has_room_def sample_fields wire_cost_def kSendBudget_def kFragmentPayloadSize_def)
  then show ?thesis
    using fragments_keep_order [OF sample_reached, of kControl "tsSend kControl [1, 2, 3]"]
    by (simp add: sample_fields sample_fragment)
qed

text \<open>
  A wire error is final.  Once a malformed fragment or a throwing frame callback has been recorded,
  no sequence of operations and callbacks clears the error or gives the library another fragment on
  either channel.
\<close>

theorem wire_error_final:
  assumes "transport_reached library handler s" "wt_wire_error s \<noteq> None"
  shows "wt_wire_error (fold (apply_step library handler) sts s) \<noteq> None \<and>
    sent_on c (bridge_calls (fold (apply_step library handler) sts s)) = sent_on c (bridge_calls s)"
  using assms
proof (induction sts arbitrary: s)
  case Nil
  then show ?case by simp
next
  case (Cons st sts)
  let ?t = "apply_step library handler st s"
  have "wt_wire_error ?t \<noteq> None" "sent_on c (bridge_calls ?t) = sent_on c (bridge_calls s)"
    using error_steps [OF reached_ok [OF Cons.prems(1)] Cons.prems(2)] by blast+
  with Cons.IH [OF stepped [OF Cons.prems(1)]] show ?case by simp
qed

theorem wire_error_final_witness:
  "let s = on_bridge no_throw (7, cbData 1 (Some [0]) 0) sample_transport in
   wt_wire_error (fold (apply_step sample_library no_throw) [tsSend kBulk [1], tsPump] s) \<noteq> None"
proof -
  have "wt_wire_error (on_bridge no_throw (7, cbData 1 (Some [0]) 0) sample_transport) \<noteq> None" by code_simp
  then show ?thesis
    using wire_error_final [OF stepped [OF sample_reached, of "tsCallback (7, cbData 1 (Some [0]) 0)"],
        of "[tsSend kBulk [1], tsPump]"]
    by (simp add: Let_def)
qed

text \<open>
  C24: The transport owns its library exactly while it lives.  A constructor that throws, at whichever of
  its checks, has destroyed the factory it may have made and freed the library; in every reachable state
  the library is loaded with exactly the transport's own factory alive, and the destructor gives both
  back.
\<close>

theorem transport_owns_library:
  "(WebRtcTransport_new library handler path initiator options WebRtcTransport_fields = (Inl e, u) \<longrightarrow>
      owed library (bridge_calls u) = Some (False, {#})) \<and>
   (transport_reached library handler s \<longrightarrow>
      owed library (bridge_calls s) = Some (True, {#wt_factory s#}) \<and>
      owed library (bridge_calls (snd (WebRtcTransport_delete library handler s))) = Some (False, {#}))"
proof (intro conjI impI)
  assume "WebRtcTransport_new library handler path initiator options WebRtcTransport_fields = (Inl e, u)"
  then show "owed library (bridge_calls u) = Some (False, {#})"
    using contractE [OF WebRtcTransport_new_contract refl] by (auto simp: holds_def)
next
  assume s: "transport_reached library handler s"
  note b = reached_building [OF s]
  then show "owed library (bridge_calls s) = Some (True, {#wt_factory s#})"
    by (simp add: building_def holds_def)
  from b have "holds library (False, {#}) (snd (WebRtcTransport_delete library handler s))"
    by (intro contract_snd [OF delete_contract]) blast
  then show "owed library (bridge_calls (snd (WebRtcTransport_delete library handler s))) = Some (False, {#})"
    by (simp add: holds_def)
qed

theorem transport_owns_library_witness:
  "owed sample_library (bridge_calls sample_transport) = Some (True, {#wt_factory sample_transport#})"
  using transport_owns_library sample_reached by blast

text \<open>
  C22: A frame that one transport has sent completely is received by the peer exactly once.  When a send on
  an idle channel returns and leaves nothing queued, the library was given a list of fragments; when the
  peer's library delivers those fragments in order, less than sixty seconds apart, to a transport whose
  channel has nothing pending, its frame callback is called once, with the frame that was sent, and no
  wire error arises.
\<close>

theorem sent_frame_delivered:
  assumes "transport_reached library handler s" "wt_outgoing s channel = []"
    and "Webrtc_Send library handler channel wire s = (Inr (), t)" "wt_outgoing t channel = []"
    and "transport_reached library' handler' r" "wt_callback r = Some k"
    and "pending (wt_reassembly r channel) = []" "handler' (wt_delivered r @ [(k, dlFrame channel wire)]) = None"
  shows "\<exists>fs. FragmentFrame (wt_next_message_id s) wire = Inr fs \<and>
    sent_on channel (bridge_calls t) = sent_on channel (bridge_calls s) @ fs \<and>
    (\<forall>clock. length clock = length fs \<and> successively (\<lambda>a b. b - a \<le> kExpiryNanoseconds) clock \<longrightarrow>
       wt_delivered (receive_all handler' channel (zip clock fs) r) = wt_delivered r @ [(k, dlFrame channel wire)] \<and>
       wt_wire_error (receive_all handler' channel (zip clock fs) r) = wt_wire_error r)"
proof -
  note ok = reached_ok [OF assms(1)]
  obtain fs where fs: "FragmentFrame (wt_next_message_id s) wire = Inr fs" "has_room wire s"
    using assms(3) ok
    by (auto simp: Webrtc_Send_def thenS_def bindS_def guardS_def enqueue_frame_eq transport_ok_def
        split: if_splits sum.splits)
  have "channel_stream channel t = channel_stream channel s @ fs"
    using queue_steps [OF ok, of library handler "tsSend channel wire" channel] assms(3) fs by simp
  then have sent: "sent_on channel (bridge_calls t) = sent_on channel (bridge_calls s) @ fs"
    using assms(2,4) by (simp add: channel_stream_def)
  have "wt_delivered (receive_all handler' channel (zip clock fs) r) = wt_delivered r @ [(k, dlFrame channel wire)] \<and>
       wt_wire_error (receive_all handler' channel (zip clock fs) r) = wt_wire_error r"
    if "length clock = length fs" "successively (\<lambda>a b. b - a \<le> kExpiryNanoseconds) clock" for clock
    using received_once [OF _ assms(6,7) fs(1) that, of handler'] assms(8) reached_ok [OF assms(5)]
    by (simp add: transport_ok_def)
  with sent fs(1) show ?thesis by blast
qed

theorem sent_frame_delivered_witness:
  "wt_delivered (receive_all no_throw kControl [(5, make_fragment 1 [1, 2, 3] 0)] sample_transport) =
     [((), dlFrame kControl [1, 2, 3])]"
proof -
  obtain t where t: "Webrtc_Send sample_library no_throw kControl [1, 2, 3] sample_transport = (Inr (), t)"
      "wt_outgoing t kControl = []"
    using sample_sent by blast
  have "no_throw (wt_delivered sample_transport @ [((), dlFrame kControl [1, 2, 3])]) = None"
    by (simp add: no_throw_def)
  from sent_frame_delivered [OF sample_reached sample_fields(1) t sample_reached sample_fields(5,7) this]
  have "\<forall>clock. length clock = 1 \<and> successively (\<lambda>a b. b - a \<le> kExpiryNanoseconds) clock \<longrightarrow>
      wt_delivered (receive_all no_throw kControl (zip clock [make_fragment 1 [1, 2, 3] 0]) sample_transport) =
        [((), dlFrame kControl [1, 2, 3])]"
    by (simp add: sample_fields sample_fragment)
  from this [THEN spec, of "[5]"] show ?thesis by simp
qed

end
