(* ===== verification/Session_Manager.thy ===== *)
theory Session_Manager
  imports Task_Runtime Tracker_Client
begin

text \<open>
  The manager of the network sessions (\<^verbatim>\<open>engine/runtime/network_session_manager.cpp\<close>): the relay of one peer
  over the shared tracker inbox, the choice of the peers of a task, and the manager with its worker thread.
  A task session is a record with the fields the manager itself reads and writes; the transports, signaling
  sessions and nodes inside it are the parameter \<open>sessions\<close>, which acts on the database and the file system of the
  device.  The worker is a program counter and one definition per section of its loop, so that the calls of
  other threads can come between any two sections.  A condition variable is the list of the deleting threads that
  sleep on it and the list of those that a notification has woken and that do not have the mutex yet.  Sets and maps are lists in the order of
  insertion.
\<close>

section \<open>Roles and the relay of a peer\<close>

definition ParseRole :: "string \<Rightarrow> Role result" where
  "ParseRole role =
     (if role = ''source'' then Inr kSource
      else if role = ''target'' then Inr kTarget
      else if role = ''peer'' then Inr kPeer
      else Inl (Invalid_argument ''task has an invalid network role''))"

text \<open>The hub: what the tracker has delivered to this device and no peer has fetched, by sender.\<close>

record TrackerRelayHub =
  hub_local_device_id :: string
  hub_inbox :: "(string \<times> RelayMessage list) list"

definition hub_messages :: "TrackerRelayHub \<Rightarrow> string \<Rightarrow> RelayMessage list" where
  "hub_messages hub sender = (case map_of (hub_inbox hub) sender of None \<Rightarrow> [] | Some ms \<Rightarrow> ms)"

definition hub_push :: "RelayMessage \<Rightarrow> TrackerRelayHub \<Rightarrow> TrackerRelayHub" where
  "hub_push m hub =
     hub\<lparr>hub_inbox := AList.update (rm_sender_device_id m) (hub_messages hub (rm_sender_device_id m) @ [m]) (hub_inbox hub)\<rparr>"

text \<open>\<^verbatim>\<open>Poll\<close>: the argument is what the tracker client's \<^verbatim>\<open>DrainInbox\<close> returned for this device.\<close>

definition hub_Poll :: "RelayMessage list \<Rightarrow> TrackerRelayHub \<Rightarrow> TrackerRelayHub" where
  "hub_Poll drained hub = fold hub_push drained hub"

definition hub_Drain :: "string \<Rightarrow> TrackerRelayHub \<Rightarrow> RelayMessage list \<times> TrackerRelayHub" where
  "hub_Drain remote_device_id hub =
     (hub_messages hub remote_device_id, hub\<lparr>hub_inbox := AList.delete remote_device_id (hub_inbox hub)\<rparr>)"

record PeerRelay =
  pr_local_device_id :: string
  pr_remote_device_id :: string
  pr_replay :: "RelayMessage list"

definition PeerRelay_new :: "string \<Rightarrow> string \<Rightarrow> PeerRelay" where
  "PeerRelay_new local_device_id remote_device_id =
     \<lparr>pr_local_device_id = local_device_id, pr_remote_device_id = remote_device_id, pr_replay = []\<rparr>"

definition PeerRelay_Replay :: "RelayMessage list \<Rightarrow> PeerRelay \<Rightarrow> PeerRelay" where
  "PeerRelay_Replay messages relay = relay\<lparr>pr_replay := messages\<rparr>"

text \<open>\<open>forward\<close> is the tracker client's own operation, which the hub passes on to.\<close>

definition PeerRelay_Forward :: "(RelayMessage \<Rightarrow> 't \<Rightarrow> 't result) \<Rightarrow> RelayMessage \<Rightarrow> PeerRelay \<Rightarrow> 't \<Rightarrow> 't result" where
  "PeerRelay_Forward forward message relay tracker =
     (if rm_sender_device_id message \<noteq> pr_local_device_id relay \<or>
         rm_recipient_device_id message \<noteq> pr_remote_device_id relay
      then Inl (Invalid_argument ''peer relay identity mismatch'')
      else forward message tracker)"

definition PeerRelay_DrainInbox :: "string \<Rightarrow> PeerRelay \<times> TrackerRelayHub \<Rightarrow>
    (RelayMessage list \<times> PeerRelay \<times> TrackerRelayHub) result" where
  "PeerRelay_DrainInbox device_id r =
     (case r of (relay, hub) \<Rightarrow>
        if device_id \<noteq> pr_local_device_id relay then Inl (Invalid_argument ''peer relay inbox mismatch'')
        else (case hub_Drain (pr_remote_device_id relay) hub of
                (ms, hub') \<Rightarrow> Inr (pr_replay relay @ ms, relay\<lparr>pr_replay := []\<rparr>, hub')))"

definition member_key :: "TrackerMember \<Rightarrow> string" where
  "member_key m = mb_device_id m @ '':'' @ mb_fingerprint m @ '':'' @ to_string (unat (Role_code (mb_role m)))"

definition MemberKeys :: "TrackerMember list \<Rightarrow> string \<Rightarrow> string list" where
  "MemberKeys members local_device_id =
     sort (map member_key (filter (\<lambda>m. mb_device_id m \<noteq> local_device_id) members))"

section \<open>The peers of a task\<close>

text \<open>
  The fields of a peer that decide about it; \<open>pe_parts\<close> is its transport, relay, signaling session and node.
\<close>

record 'p SessionPeer =
  pe_member :: TrackerMember
  pe_initiator :: bool
  pe_data_started :: bool
  pe_parts :: 'p

definition is_initiator :: "TaskDefinition \<Rightarrow> string \<Rightarrow> TrackerMember \<Rightarrow> bool" where
  "is_initiator task local_device_id member \<longleftrightarrow>
     td_role task = ''source'' \<or> (td_role task = ''peer'' \<and> local_device_id < mb_device_id member)"

text \<open>The role a member must have for the task, checked while its peer is made.\<close>

definition peer_role_error :: "TaskDefinition \<Rightarrow> TrackerMember \<Rightarrow> exn option" where
  "peer_role_error task member =
     (if td_mode task = ''one_way'' \<and> td_role task = ''target''
      then if mb_role member \<noteq> kSource then Some (Runtime_error ''target room has no authorized source'') else None
      else if td_mode task = ''bidirectional''
      then if mb_role member \<noteq> kPeer then Some (Runtime_error ''bidirectional room has an invalid member'') else None
      else if mb_role member \<noteq> kTarget then Some (Runtime_error ''source room has an invalid target'') else None)"

text \<open>
  The peers of a session and the keys they were chosen for; \<open>ro_context\<close> is all the rest (the transports' factory, the hub, the
  source of many targets, the database).  What happens there are parameters: the transport, relay and signaling session of a
  new peer, its node, its offer, and the accounting for a peer that is dropped.
\<close>

record ('p, 'x) Room =
  ro_peers :: "'p SessionPeer list"
  ro_member_keys :: "string list"
  ro_context :: 'x

record ('p, 'x) PeerOps =
  po_channel :: "bool \<Rightarrow> TrackerMember \<Rightarrow> ('x, 'p) op"
  po_node :: "TrackerMember \<Rightarrow> 'p \<Rightarrow> ('x, 'p) op"
  po_StartOffer :: "'p \<Rightarrow> ('x, 'p) op"
  po_Retire :: "'p SessionPeer \<Rightarrow> 'x \<Rightarrow> 'x"

abbreviation in_room :: "('x, 'a) op \<Rightarrow> (('p, 'x) Room, 'a) op" where
  "in_room \<equiv> zoomS ro_context (\<lambda>x s. s\<lparr>ro_context := x\<rparr>)"

text \<open>The source of a one-way task has one node for all targets; every other peer has its own.\<close>

definition has_node :: "TaskDefinition \<Rightarrow> bool" where
  "has_node task \<longleftrightarrow> (td_mode task = ''one_way'' \<and> td_role task = ''target'') \<or> td_mode task = ''bidirectional''"

definition MakePeer :: "('p, 'x) PeerOps \<Rightarrow> TaskDefinition \<Rightarrow> string \<Rightarrow> TrackerMember \<Rightarrow> (('p, 'x) Room, 'p SessionPeer) op" where
  "MakePeer ops task local_device_id member =
     (let initiator = is_initiator task local_device_id member in
      bindS (in_room (po_channel ops initiator member)) (\<lambda>channel.
      case peer_role_error task member of
        Some e \<Rightarrow> throwS e
      | None \<Rightarrow>
         bindS (if has_node task then in_room (po_node ops member channel) else returnS channel) (\<lambda>p.
         returnS \<lparr>pe_member = member, pe_initiator = initiator, pe_data_started = False, pe_parts = p\<rparr>)))"

text \<open>Targets share a room for discovery, but their data sessions go only to the source.\<close>

definition wants_peer :: "TaskDefinition \<Rightarrow> string \<Rightarrow> TrackerMember \<Rightarrow> bool" where
  "wants_peer task local_device_id member \<longleftrightarrow>
     \<not> (mb_device_id member = local_device_id \<or>
        (td_mode task = ''one_way'' \<and> td_role task = ''target'' \<and> mb_role member = kTarget))"

definition still_member :: "TrackerMember list \<Rightarrow> 'p SessionPeer \<Rightarrow> bool" where
  "still_member members peer \<longleftrightarrow>
     (\<exists>m \<in> set members. mb_device_id m = mb_device_id (pe_member peer) \<and>
        mb_fingerprint m = mb_fingerprint (pe_member peer) \<and> mb_role m = mb_role (pe_member peer))"

definition add_member :: "('p, 'x) PeerOps \<Rightarrow> TaskDefinition \<Rightarrow> string \<Rightarrow> TrackerMember \<Rightarrow> (('p, 'x) Room, unit) op" where
  "add_member ops task local_device_id member =
     bindS (getS (\<lambda>s. \<exists>peer \<in> set (ro_peers s). mb_device_id (pe_member peer) = mb_device_id member)) (\<lambda>present.
     if \<not> wants_peer task local_device_id member \<or> present then returnS ()
     else bindS (MakePeer ops task local_device_id member) (\<lambda>peer.
       bindS (if pe_initiator peer then in_room (po_StartOffer ops (pe_parts peer)) else returnS (pe_parts peer)) (\<lambda>p.
       modifyS (\<lambda>s. s\<lparr>ro_peers := ro_peers s @ [peer\<lparr>pe_parts := p\<rparr>]\<rparr>))))"

text \<open>
  The membership refresh of \<^verbatim>\<open>TaskSession::Pump\<close>: nothing while the keys are the same; otherwise the peers
  that left are retired and the members without a peer get one.  An exception keeps what was done before it, and the old keys.
\<close>

definition refresh_peers :: "('p, 'x) PeerOps \<Rightarrow> TaskDefinition \<Rightarrow> string \<Rightarrow> TrackerMember list \<Rightarrow> (('p, 'x) Room, unit) op" where
  "refresh_peers ops task local_device_id members =
     bindS (getS ro_member_keys) (\<lambda>member_keys.
     if MemberKeys members local_device_id = member_keys then returnS ()
     else
      thenS (modifyS (\<lambda>s. s\<lparr>ro_peers := filter (still_member members) (ro_peers s),
          ro_context := fold (po_Retire ops) (filter (\<lambda>p. \<not> still_member members p) (ro_peers s)) (ro_context s)\<rparr>))
     (thenS (forS (add_member ops task local_device_id) members)
       (modifyS (\<lambda>s. s\<lparr>ro_member_keys := MemberKeys members local_device_id\<rparr>))))"

section \<open>The manager\<close>

text \<open>
  The structure \<^verbatim>\<open>NetworkMetrics\<close> at the widths of its fields; the command router prints it from numbers without a bound.
\<close>

record SessionMetrics =
  nx_bytes_sent :: u64
  nx_bytes_received :: u64
  nx_send_bytes_per_second :: u64
  nx_receive_bytes_per_second :: u64
  nx_pending_downloads :: nat
  nx_buffered_bytes :: nat
  nx_connected_peers :: nat
  nx_download_total_bytes :: u64
  nx_download_received_bytes :: u64

definition no_metrics :: SessionMetrics where
  "no_metrics = \<lparr>nx_bytes_sent = 0, nx_bytes_received = 0, nx_send_bytes_per_second = 0, nx_receive_bytes_per_second = 0,
     nx_pending_downloads = 0, nx_buffered_bytes = 0, nx_connected_peers = 0, nx_download_total_bytes = 0,
     nx_download_received_bytes = 0\<rparr>"

record NetworkSessionOptions =
  no_pump_interval :: int
  no_tracker_poll_interval :: int
  no_membership_refresh :: int
  no_retry_delay :: int
  no_connection_timeout :: int

record PolicyRequest =
  pq_task_id :: string
  pq_expected_hash :: string
  pq_rules :: string
  pq_source :: string

record 's TaskSession =
  ts_parts :: 's
  ts_local_changed :: bool
  ts_online_recorded :: bool
  ts_metrics :: SessionMetrics

text \<open>
  What happens inside a session: opening it (the tracker session and the peers), one pump, whether it has
  exactly one peer with a ready transport and a bidirectional node, and a policy proposal to that node.
\<close>

record 's Sessions =
  se_open :: "TaskDefinition \<Rightarrow> TaskConnection \<Rightarrow> (Device, 's TaskSession) op"
  se_pump :: "'s TaskSession \<Rightarrow> (Device, bool \<times> 's TaskSession) op"
  se_one_ready_peer :: "'s TaskSession \<Rightarrow> bool"
  se_propose :: "PolicyRequest \<Rightarrow> 's TaskSession \<Rightarrow> (Device, 's TaskSession) op"

text \<open>Where the worker is in its loop; \<open>wkTerminated\<close> is an exception that left the thread function.\<close>

datatype 's worker =
    wkNone
  | wkRound
  | wkBuild "string list"
  | wkStore string "exn + 's TaskSession option" "string list"
  | wkTake
  | wkPropose "PolicyRequest list"
  | wkPump "string list" "string list"
  | wkFinish "string list"
  | wkEnded
  | wkTerminated exn

record 's NetworkSessionManager = Device +
  nm_options :: NetworkSessionOptions
  nm_started :: bool
  nm_stopping :: bool
  nm_worker :: "'s worker"
  nm_tasks :: "(string \<times> 's TaskSession) list"
  nm_rebuild :: "string list"
  nm_remove :: "string list"
  nm_local_changes :: "string list"
  nm_retry_after :: "(string \<times> int) list"
  nm_metrics :: "(string \<times> SessionMetrics) list"
  nm_policy_requests :: "PolicyRequest list"
  nm_waiting :: "string list"
  nm_woken :: "string list"

type_synonym ('s, 'a) nm_op = "('s NetworkSessionManager, 'a) op"

definition NetworkSessionManager_new :: "Database \<Rightarrow> FileSystem \<Rightarrow> bool \<Rightarrow> NetworkSessionOptions \<Rightarrow>
    's NetworkSessionManager result" where
  "NetworkSessionManager_new database files has_factory options =
     (if \<not> has_factory \<or> no_pump_interval options \<le> 0 \<or> no_tracker_poll_interval options \<le> 0 \<or>
         no_membership_refresh options \<le> 0 \<or> no_retry_delay options \<le> 0 \<or> no_connection_timeout options \<le> 0
      then Inl (Invalid_argument ''network session configuration is invalid'')
      else Inr \<lparr>sn_database = database, sn_files = files, sn_calls = 0, nm_options = options, nm_started = False,
        nm_stopping = False, nm_worker = wkNone, nm_tasks = [], nm_rebuild = [], nm_remove = [], nm_local_changes = [],
        nm_retry_after = [], nm_metrics = [], nm_policy_requests = [], nm_waiting = [], nm_woken = []\<rparr>)"

definition has_task :: "string \<Rightarrow> 's NetworkSessionManager \<Rightarrow> bool" where
  "has_task task_id s \<longleftrightarrow> task_id \<in> fst ` set (nm_tasks s)"

text \<open>
  The condition that \<^verbatim>\<open>TaskDeleting\<close> waits for.  A notification wakes all sleepers; a woken thread looks at its condition
  when it gets the mutex, which is a step of its own, and returns or sleeps again.
\<close>

definition removal_done :: "string \<Rightarrow> 's NetworkSessionManager \<Rightarrow> bool" where
  "removal_done task_id s \<longleftrightarrow> \<not> has_task task_id s \<and> task_id \<notin> set (nm_remove s)"

definition notify_all :: "'s NetworkSessionManager \<Rightarrow> 's NetworkSessionManager" where
  "notify_all s = s\<lparr>nm_waiting := [], nm_woken := nm_woken s @ nm_waiting s\<rparr>"

definition wake_up :: "string \<Rightarrow> 's NetworkSessionManager \<Rightarrow> 's NetworkSessionManager" where
  "wake_up task_id s =
     (if task_id \<notin> set (nm_woken s) then s
      else
       let u = s\<lparr>nm_woken := remove1 task_id (nm_woken s)\<rparr> in
       if removal_done task_id u then u else u\<lparr>nm_waiting := nm_waiting u @ [task_id]\<rparr>)"

definition paired_tasks :: "('s, string list) nm_op" where
  "paired_tasks =
     bindS (getS (\<lambda>s. map td_task_id (ListTasks (db_tables (sn_database s))))) (\<lambda>ids.
     liftS (\<lambda>s. foldE (\<lambda>t acc.
         bindE (RuntimeState t (db_tables (sn_database s))) (\<lambda>state.
           if \<not> rt_enabled state then Inr acc
           else bindE (FindTaskConnection t (db_tables (sn_database s))) (\<lambda>c.
             Inr (if c = None then acc else acc @ [t])))) ids []))"

definition Network_Start :: "('s, unit) nm_op" where
  "Network_Start =
     bindS paired_tasks (\<lambda>paired.
     bindS (getS nm_started) (\<lambda>started.
       if started then returnS ()
       else modifyS (\<lambda>s. s\<lparr>nm_started := True, nm_stopping := False,
              nm_rebuild := fold List.insert paired (nm_rebuild s), nm_worker := wkRound\<rparr>)))"

text \<open>\<^verbatim>\<open>Stop\<close>: the first section, and the one after the worker has been joined.\<close>

definition stop_request :: "'s NetworkSessionManager \<Rightarrow> 's NetworkSessionManager" where
  "stop_request s = (if \<not> nm_started s then s else notify_all (s\<lparr>nm_stopping := True\<rparr>))"

definition stop_finish :: "'s NetworkSessionManager \<Rightarrow> 's NetworkSessionManager" where
  "stop_finish s =
     (if nm_started s \<and> nm_stopping s \<and> nm_worker s = wkEnded
      then s\<lparr>nm_tasks := [], nm_rebuild := [], nm_remove := [], nm_local_changes := [], nm_retry_after := [],
             nm_started := False, nm_worker := wkNone\<rparr>
      else s)"

definition Network_TaskChanged :: "string \<Rightarrow> 's NetworkSessionManager \<Rightarrow> 's NetworkSessionManager" where
  "Network_TaskChanged task_id s =
     notify_all (s\<lparr>nm_rebuild := List.insert task_id (nm_rebuild s),
       nm_retry_after := AList.delete task_id (nm_retry_after s)\<rparr>)"

text \<open>\<^verbatim>\<open>TaskDeleting\<close> up to its wait: the thread returns at once, or sleeps until its condition holds.\<close>

definition Network_TaskDeleting :: "string \<Rightarrow> 's NetworkSessionManager \<Rightarrow> 's NetworkSessionManager" where
  "Network_TaskDeleting task_id s =
     (if \<not> nm_started s
      then s\<lparr>nm_tasks := AList.delete task_id (nm_tasks s), nm_rebuild := removeAll task_id (nm_rebuild s),
             nm_local_changes := removeAll task_id (nm_local_changes s),
             nm_retry_after := AList.delete task_id (nm_retry_after s)\<rparr>
      else
       let t = notify_all (s\<lparr>nm_remove := List.insert task_id (nm_remove s),
             nm_rebuild := removeAll task_id (nm_rebuild s),
             nm_local_changes := removeAll task_id (nm_local_changes s)\<rparr>) in
       if removal_done task_id t then t else t\<lparr>nm_waiting := nm_waiting t @ [task_id]\<rparr>)"

definition Network_ResumeTask :: "string \<Rightarrow> 's NetworkSessionManager \<Rightarrow> 's NetworkSessionManager" where
  "Network_ResumeTask = Network_TaskChanged"

definition Network_LocalChanged :: "string \<Rightarrow> 's NetworkSessionManager \<Rightarrow> 's NetworkSessionManager" where
  "Network_LocalChanged task_id s = notify_all (s\<lparr>nm_local_changes := List.insert task_id (nm_local_changes s)\<rparr>)"

definition Network_Metrics :: "string \<Rightarrow> 's NetworkSessionManager \<Rightarrow> SessionMetrics" where
  "Network_Metrics task_id s = (case map_of (nm_metrics s) task_id of None \<Rightarrow> no_metrics | Some m \<Rightarrow> m)"

definition Network_ProposeIgnorePolicy :: "PolicyRequest \<Rightarrow> ('s, unit) nm_op" where
  "Network_ProposeIgnorePolicy request =
     bindS (getS (\<lambda>s. \<not> nm_started s \<or> nm_stopping s)) (\<lambda>unavailable.
     thenS (guardS unavailable (Runtime_error ''network session is unavailable''))
     (modifyS (\<lambda>s. notify_all (s\<lparr>nm_policy_requests := nm_policy_requests s @ [request]\<rparr>))))"

section \<open>The worker\<close>

text \<open>An operation of the device run on the manager's own copy of it.\<close>

definition on_device :: "(Device, 'a) op \<Rightarrow> ('s, 'a) nm_op" where
  "on_device m = zoomS
     (\<lambda>s. \<lparr>sn_database = sn_database s, sn_files = sn_files s, sn_calls = sn_calls s\<rparr>)
     (\<lambda>d s. s\<lparr>sn_database := sn_database d, sn_files := sn_files d, sn_calls := sn_calls d\<rparr>) m"

definition is_invalid_argument :: "exn \<Rightarrow> bool" where
  "is_invalid_argument e \<longleftrightarrow> (\<exists>m. e = Invalid_argument m)"

definition RecordNetworkState :: "'t Services \<Rightarrow> string \<Rightarrow> string \<Rightarrow> string option \<Rightarrow> ('s, unit) nm_op" where
  "RecordNetworkState svc task_id state error =
     catchS
       (thenS (node_db (UpdateTaskNetworkState task_id state error))
         (case error of
            None \<Rightarrow> returnS ()
          | Some message \<Rightarrow>
             bindS (NowMilliseconds svc) (\<lambda>now.
             node_db (RecordEngineEvent \<lparr>ev_event_id = 0, ev_task_id = Some task_id, ev_level = ''error'',
               ev_message = ''Network session failed: '' @ message, ev_created_at_ms = now\<rparr>))))
       (\<lambda>e. if is_invalid_argument e then returnS () else throwS e)"

text \<open>\<^verbatim>\<open>PauseTask\<close> after its wait.\<close>

definition Network_PauseTask_rest :: "'t Services \<Rightarrow> string \<Rightarrow> ('s, unit) nm_op" where
  "Network_PauseTask_rest svc task_id = RecordNetworkState svc task_id ''offline'' None"

definition BuildTask :: "'s Sessions \<Rightarrow> string \<Rightarrow> ('s, 's TaskSession option) nm_op" where
  "BuildTask sessions task_id =
     bindS (node_tables (FindTask task_id)) (\<lambda>found_task.
     bindS (node_tables (FindTaskConnection task_id)) (\<lambda>found_connection.
     case (found_task, found_connection) of
       (Some task, Some connection) \<Rightarrow>
         bindS (node_tables (RuntimeState task_id)) (\<lambda>state.
           if \<not> rt_enabled state then returnS None
           else
            thenS (node_db (UpdateTaskNetworkState task_id ''connecting'' None))
           (bindS (on_device (se_open sessions task connection)) (\<lambda>session. returnS (Some session))))
     | _ \<Rightarrow> returnS None))"

definition build_one :: "'t Services \<Rightarrow> 's Sessions \<Rightarrow> string \<Rightarrow> ('s, exn + 's TaskSession option) nm_op" where
  "build_one svc sessions task_id =
     catchS (bindS (BuildTask sessions task_id) (\<lambda>built. returnS (Inr built)))
       (\<lambda>e. thenS (RecordNetworkState svc task_id ''error'' (Some (what e))) (returnS (Inl e)))"

text \<open>The first section of a round: removals and the builds that are due.\<close>

definition build_due :: "int \<Rightarrow> (string \<times> int) list \<Rightarrow> string \<Rightarrow> bool" where
  "build_due now retry_after task_id \<longleftrightarrow>
     (case map_of retry_after task_id of None \<Rightarrow> True | Some t \<Rightarrow> t \<le> now)"

definition remove_task :: "string \<Rightarrow> 's NetworkSessionManager \<Rightarrow> 's NetworkSessionManager" where
  "remove_task task_id s =
     s\<lparr>nm_tasks := AList.delete task_id (nm_tasks s), nm_retry_after := AList.delete task_id (nm_retry_after s),
       nm_metrics := AList.delete task_id (nm_metrics s)\<rparr>"

definition take_work :: "int \<Rightarrow> 's NetworkSessionManager \<Rightarrow> string list \<times> 's NetworkSessionManager" where
  "take_work now s =
     (let removals = nm_remove s;
          builds = filter (build_due now (nm_retry_after s)) (nm_rebuild s);
          waiting = filter (\<lambda>t. \<not> build_due now (nm_retry_after s) t) (nm_rebuild s) in
      (builds, notify_all (fold remove_task removals (s\<lparr>nm_remove := [], nm_rebuild := waiting\<rparr>))))"

text \<open>The section that stores a session that was built, unless its task is being removed.\<close>

definition store_built :: "string \<Rightarrow> 's TaskSession option \<Rightarrow> 's NetworkSessionManager \<Rightarrow> 's NetworkSessionManager" where
  "store_built task_id built s =
     (if task_id \<in> set (nm_remove s) then s
      else s\<lparr>nm_tasks := (case built of
               Some session \<Rightarrow> AList.update task_id session (nm_tasks s)
             | None \<Rightarrow> AList.delete task_id (nm_tasks s)),
             nm_retry_after := AList.delete task_id (nm_retry_after s)\<rparr>)"

definition retry_later :: "int \<Rightarrow> string \<Rightarrow> 's NetworkSessionManager \<Rightarrow> 's NetworkSessionManager" where
  "retry_later now task_id s =
     s\<lparr>nm_retry_after := AList.update task_id (now + no_retry_delay (nm_options s)) (nm_retry_after s),
       nm_rebuild := List.insert task_id (nm_rebuild s)\<rparr>"

definition mark_changed :: "string \<Rightarrow> 's NetworkSessionManager \<Rightarrow> 's NetworkSessionManager" where
  "mark_changed task_id s =
     (case map_of (nm_tasks s) task_id of
        None \<Rightarrow> s
      | Some session \<Rightarrow> s\<lparr>nm_tasks := AList.update task_id (session\<lparr>ts_local_changed := True\<rparr>) (nm_tasks s)\<rparr>)"

definition take_requests :: "'s NetworkSessionManager \<Rightarrow> PolicyRequest list \<times> 's NetworkSessionManager" where
  "take_requests s =
     (nm_policy_requests s,
      (fold mark_changed (nm_local_changes s) (s\<lparr>nm_policy_requests := []\<rparr>))\<lparr>nm_local_changes := []\<rparr>)"

definition propose_to_peer :: "'s Sessions \<Rightarrow> PolicyRequest \<Rightarrow> ('s, unit) nm_op" where
  "propose_to_peer sessions request =
     bindS (getS (\<lambda>s. map_of (nm_tasks s) (pq_task_id request))) (\<lambda>found.
     case found of
       None \<Rightarrow> throwS (Runtime_error ''peer is not connected'')
     | Some session \<Rightarrow>
         if \<not> se_one_ready_peer sessions session
         then throwS (Runtime_error ''ignore policy negotiation requires one connected peer'')
         else bindS (on_device (se_propose sessions request session)) (\<lambda>session'.
           modifyS (\<lambda>s. s\<lparr>nm_tasks := AList.update (pq_task_id request) session' (nm_tasks s)\<rparr>)))"

definition handle_proposal :: "'t Services \<Rightarrow> 's Sessions \<Rightarrow> PolicyRequest \<Rightarrow> ('s, unit) nm_op" where
  "handle_proposal svc sessions request =
     catchS (propose_to_peer sessions request) (\<lambda>e.
       bindS (NowMilliseconds svc) (\<lambda>now.
       node_db (RecordEngineEvent \<lparr>ev_event_id = 0, ev_task_id = Some (pq_task_id request), ev_level = ''warning'',
         ev_message = ''Ignore policy proposal failed: '' @ what e, ev_created_at_ms = now\<rparr>)))"

text \<open>One session of the pump loop; the result tells whether it is to be built again.\<close>

definition pump_done :: "'t Services \<Rightarrow> string \<Rightarrow> 's TaskSession \<Rightarrow> bool \<Rightarrow> 's TaskSession \<Rightarrow> ('s, bool) nm_op" where
  "pump_done svc task_id before rebuild after =
     thenS (modifyS (\<lambda>s. s\<lparr>nm_tasks := AList.update task_id after (nm_tasks s)\<rparr>))
    (thenS (if \<not> rebuild \<and> \<not> ts_online_recorded before \<and> ts_online_recorded after
            then RecordNetworkState svc task_id ''online'' None else returnS ())
    (thenS (modifyS (\<lambda>s. s\<lparr>nm_metrics := AList.update task_id (ts_metrics after) (nm_metrics s)\<rparr>))
      (returnS rebuild)))"

definition pump_task :: "'t Services \<Rightarrow> 's Sessions \<Rightarrow> string \<Rightarrow> ('s, bool) nm_op" where
  "pump_task svc sessions task_id =
     bindS (getS (\<lambda>s. map_of (nm_tasks s) task_id)) (\<lambda>found.
     case found of
       None \<Rightarrow> returnS False
     | Some session \<Rightarrow>
         catchS
           (bindS (on_device (se_pump sessions session)) (\<lambda>r. pump_done svc task_id session (fst r) (snd r)))
           (\<lambda>e. thenS (RecordNetworkState svc task_id ''error'' (Some (what e))) (returnS True)))"

text \<open>The last section of a round, before the worker sleeps.\<close>

definition drop_and_retry :: "int \<Rightarrow> string \<Rightarrow> 's NetworkSessionManager \<Rightarrow> 's NetworkSessionManager" where
  "drop_and_retry now task_id s =
     retry_later now task_id (s\<lparr>nm_tasks := AList.delete task_id (nm_tasks s),
       nm_metrics := AList.delete task_id (nm_metrics s)\<rparr>)"

definition go_on :: "('s, 'a) nm_op \<Rightarrow> ('a \<Rightarrow> 's worker) \<Rightarrow> 's NetworkSessionManager \<Rightarrow> 's NetworkSessionManager" where
  "go_on m next s =
     (case m s of
        (Inr x, t) \<Rightarrow> t\<lparr>nm_worker := next x\<rparr>
      | (Inl e, t) \<Rightarrow> t\<lparr>nm_worker := wkTerminated e\<rparr>)"

text \<open>One section of the loop.\<close>

definition worker_step :: "'t Services \<Rightarrow> 's Sessions \<Rightarrow> 's NetworkSessionManager \<Rightarrow> 's NetworkSessionManager" where
  "worker_step svc sessions s =
     (case nm_worker s of
        wkRound \<Rightarrow>
          if nm_stopping s then notify_all (s\<lparr>nm_tasks := [], nm_worker := wkEnded\<rparr>)
          else go_on (bindS (outside_call (svc_steady svc)) (\<lambda>now u. case take_work now u of (b, v) \<Rightarrow> (Inr b, v))) wkBuild s
      | wkBuild [] \<Rightarrow> s\<lparr>nm_worker := wkTake\<rparr>
      | wkBuild (t # ts) \<Rightarrow>
          go_on (build_one svc sessions t) (\<lambda>r. wkStore t r ts) s
      | wkStore t (Inr built) ts \<Rightarrow> (store_built t built s)\<lparr>nm_worker := wkBuild ts\<rparr>
      | wkStore t (Inl e) ts \<Rightarrow>
          go_on (bindS (outside_call (svc_steady svc)) (\<lambda>now. modifyS (retry_later now t))) (\<lambda>_. wkBuild ts) s
      | wkTake \<Rightarrow> (case take_requests s of (requests, u) \<Rightarrow> u\<lparr>nm_worker := wkPropose requests\<rparr>)
      | wkPropose [] \<Rightarrow> s\<lparr>nm_worker := wkPump (map fst (nm_tasks s)) []\<rparr>
      | wkPropose (r # rs) \<Rightarrow> go_on (handle_proposal svc sessions r) (\<lambda>_. wkPropose rs) s
      | wkPump [] again \<Rightarrow> s\<lparr>nm_worker := wkFinish again\<rparr>
      | wkPump (t # ts) again \<Rightarrow>
          go_on (pump_task svc sessions t)
            (\<lambda>rebuild. wkPump ts (if rebuild then again @ [t] else again)) s
      | wkFinish again \<Rightarrow>
          go_on (forS (\<lambda>t. bindS (outside_call (svc_steady svc)) (\<lambda>now. modifyS (drop_and_retry now t))) again)
            (\<lambda>_. wkRound) s
      | _ \<Rightarrow> s)"

end
