(* ===== verification/Session_Manager_Properties.thy ===== *)
theory Session_Manager_Properties
  imports Session_Manager Runtime_Properties
begin

text \<open>
  What the network session manager guarantees while other threads call it between any two sections of its
  worker: a removed task does not come back by itself, a removal completes, and the builds of a round are
  those that are due; and three races that the sections allow.
\<close>

section \<open>Actions of the threads\<close>

text \<open>
  The worker's next section, a call of the manager, or any change that another component makes to the
  database and the files.
\<close>

datatype action =
    acWorker
  | acStart
  | acStopRequest
  | acStopFinish
  | acTaskChanged string
  | acTaskDeleting string
  | acWakeUp string
  | acResumeTask string
  | acPauseRest string
  | acLocalChanged string
  | acPropose PolicyRequest
  | acDevice Database FileSystem

fun perform :: "'t Services \<Rightarrow> 's Sessions \<Rightarrow> action \<Rightarrow> 's NetworkSessionManager \<Rightarrow> 's NetworkSessionManager" where
  "perform svc sessions acWorker s = worker_step svc sessions s"
| "perform svc sessions acStart s = snd (Network_Start s)"
| "perform svc sessions acStopRequest s = stop_request s"
| "perform svc sessions acStopFinish s = stop_finish s"
| "perform svc sessions (acTaskChanged t) s = Network_TaskChanged t s"
| "perform svc sessions (acTaskDeleting t) s = Network_TaskDeleting t s"
| "perform svc sessions (acWakeUp t) s = wake_up t s"
| "perform svc sessions (acResumeTask t) s = Network_ResumeTask t s"
| "perform svc sessions (acPauseRest t) s = snd (Network_PauseTask_rest svc t s)"
| "perform svc sessions (acLocalChanged t) s = Network_LocalChanged t s"
| "perform svc sessions (acPropose r) s = snd (Network_ProposeIgnorePolicy r s)"
| "perform svc sessions (acDevice db files) s = s\<lparr>sn_database := db, sn_files := files\<rparr>"

section \<open>Operations that only touch the device\<close>

definition same_nm :: "'s NetworkSessionManager \<Rightarrow> 's NetworkSessionManager \<Rightarrow> bool" where
  "same_nm t s \<longleftrightarrow> nm_tasks t = nm_tasks s \<and> nm_rebuild t = nm_rebuild s \<and> nm_remove t = nm_remove s \<and>
     nm_worker t = nm_worker s \<and> nm_waiting t = nm_waiting s \<and> nm_woken t = nm_woken s \<and> nm_started t = nm_started s \<and>
     nm_stopping t = nm_stopping s \<and> nm_retry_after t = nm_retry_after s \<and> nm_options t = nm_options s \<and>
     nm_local_changes t = nm_local_changes s \<and> nm_policy_requests t = nm_policy_requests s"

definition device_only :: "('s, 'a) nm_op \<Rightarrow> bool" where
  "device_only m \<longleftrightarrow> (\<forall>s. keepsS (\<lambda>t. same_nm t s) m)"

lemma device_onlyD: "device_only m \<Longrightarrow> same_nm (snd (m s)) s"
  unfolding device_only_def keepsS_def by (auto simp: same_nm_def)

lemma device_only_db: "device_only (node_db m)" "device_only (on_device n)"
  by (auto simp: device_only_def on_device_def same_nm_def intro!: keepsS_zoom)

lemma device_only_basic:
  "device_only (returnS x)" "device_only (throwS e)" "device_only (getS f)" "device_only (liftS g)"
  by (simp_all add: device_only_def)

lemma device_only_bind: "device_only m \<Longrightarrow> (\<And>x. device_only (f x)) \<Longrightarrow> device_only (bindS m f)"
  unfolding device_only_def by blast

lemma device_only_then: "device_only m \<Longrightarrow> device_only n \<Longrightarrow> device_only (thenS m n)"
  unfolding device_only_def by blast

lemma device_only_catch: "device_only m \<Longrightarrow> (\<And>e. device_only (h e)) \<Longrightarrow> device_only (catchS m h)"
  unfolding device_only_def by blast

lemma device_only_clock: "device_only (outside_call f)" "device_only (NowMilliseconds svc)"
  by (simp_all add: device_only_def keepsS_def outside_call_def NowMilliseconds_def same_nm_def)

lemmas device_only_rules = device_only_db device_only_basic device_only_clock device_only_bind device_only_then device_only_catch

lemma device_only_record: "device_only (RecordNetworkState svc t state error)"
  unfolding RecordNetworkState_def by (intro device_only_rules) (auto intro: device_only_rules split: option.splits)

lemma device_only_build: "device_only (BuildTask sessions t)"
  unfolding BuildTask_def
  by (intro device_only_rules) (auto intro!: device_only_rules split: option.splits prod.splits)

lemma device_only_build_one: "device_only (build_one svc sessions t)"
  unfolding build_one_def by (intro device_only_rules device_only_build device_only_record)

section \<open>Sections of the manager, field by field\<close>

lemma notify_all_fields [simp]:
  "nm_tasks (notify_all s) = nm_tasks s" "nm_rebuild (notify_all s) = nm_rebuild s" "nm_remove (notify_all s) = nm_remove s"
  "nm_worker (notify_all s) = nm_worker s" "nm_started (notify_all s) = nm_started s" "nm_stopping (notify_all s) = nm_stopping s"
  "nm_retry_after (notify_all s) = nm_retry_after s" "nm_options (notify_all s) = nm_options s"
  "nm_policy_requests (notify_all s) = nm_policy_requests s" "sn_calls (notify_all s) = sn_calls s"
  by (simp_all add: notify_all_def)

lemma remove_tasks_fields:
  "nm_rebuild (fold remove_task ts s) = nm_rebuild s" "nm_remove (fold remove_task ts s) = nm_remove s"
  "nm_worker (fold remove_task ts s) = nm_worker s" "nm_started (fold remove_task ts s) = nm_started s"
  "nm_stopping (fold remove_task ts s) = nm_stopping s" "nm_waiting (fold remove_task ts s) = nm_waiting s"
  "nm_woken (fold remove_task ts s) = nm_woken s"
  "nm_options (fold remove_task ts s) = nm_options s"
  by (induction ts arbitrary: s) (simp_all add: remove_task_def)

lemma remove_tasks_lists:
  "nm_tasks (fold remove_task ts s) = filter (\<lambda>p. fst p \<notin> set ts) (nm_tasks s)"
  "nm_retry_after (fold remove_task ts s) = filter (\<lambda>p. fst p \<notin> set ts) (nm_retry_after s)"
  by (induction ts arbitrary: s) (auto simp: remove_task_def AList.delete_eq intro: filter_cong)

lemma keys_update_present:
  assumes "k \<in> fst ` set xs"
  shows "fst ` set (AList.update k w xs) = fst ` set xs"
  using assms by (auto simp: dom_update)

text \<open>What decides about the future of a task, apart from the worker's place.\<close>

definition shape :: "'s NetworkSessionManager \<Rightarrow> string set \<times> string list \<times> string list \<times> string list \<times> bool \<times> (string \<times> int) list" where
  "shape s = (fst ` set (nm_tasks s), nm_rebuild s, nm_remove s, nm_waiting s, nm_stopping s, nm_retry_after s)"

lemma shape_fields [simp]:
  "shape (s\<lparr>nm_local_changes := x\<rparr>) = shape s" "shape (s\<lparr>nm_policy_requests := y\<rparr>) = shape s"
  "shape (s\<lparr>nm_worker := w\<rparr>) = shape s"
  by (simp_all add: shape_def)

lemma shape_device: "device_only m \<Longrightarrow> keepsS (\<lambda>s. shape s = v) m"
  using device_onlyD by (fastforce simp: keepsS_def same_nm_def shape_def)

lemma shape_update:
  assumes "map_of (nm_tasks s) k = Some v"
  shows "shape (s\<lparr>nm_tasks := AList.update k x (nm_tasks s)\<rparr>) = shape s"
proof -
  have "k \<in> fst ` set (nm_tasks s)" using assms by (force dest: map_of_SomeD)
  then show ?thesis by (simp add: shape_def keys_update_present)
qed

lemma shape_put:
  fixes x :: "'s TaskSession"
  assumes "k \<in> fst v"
  shows "keepsS (\<lambda>s. shape s = v) (modifyS (\<lambda>s. s\<lparr>nm_tasks := AList.update k x (nm_tasks s)\<rparr>))"
proof (rule keepsS_modify)
  fix s :: "'s NetworkSessionManager"
  assume v: "shape s = v"
  with assms have "k \<in> fst ` set (nm_tasks s)" by (auto simp: shape_def)
  with v show "shape (s\<lparr>nm_tasks := AList.update k x (nm_tasks s)\<rparr>) = v" by (simp add: shape_def keys_update_present)
qed

lemma shape_metrics: "keepsS (\<lambda>s. shape s = v) (modifyS (\<lambda>s. s\<lparr>nm_metrics := f s\<rparr>))"
  by (rule keepsS_modify) (simp add: shape_def)

lemma mark_changed_shape: "shape (fold mark_changed ts s) = shape s"
proof (induction ts arbitrary: s)
  case (Cons t ts)
  have "shape (mark_changed t s) = shape s"
    by (simp add: mark_changed_def shape_update split: option.splits)
  with Cons show ?case by simp
qed simp

lemma take_requests_shape: "take_requests s = (rs, u) \<Longrightarrow> shape u = shape s"
  by (auto simp: take_requests_def mark_changed_shape)

lemma known_task: "map_of (nm_tasks s) k = Some v \<Longrightarrow> k \<in> fst (shape s)"
  by (force simp: shape_def dest: map_of_SomeD)

lemma pump_task_shape:
  fixes s :: "'s NetworkSessionManager"
  shows "shape (snd (pump_task svc sessions k s)) = shape s"
proof (cases "map_of (nm_tasks s) k")
  case None
  then show ?thesis by (simp add: pump_task_def op_defs)
next
  case (Some session)
  let ?v = "shape s"
  have "keepsS (\<lambda>s. shape s = ?v) (pump_done svc k session rebuild session')" for rebuild session'
    unfolding pump_done_def using known_task [OF Some]
    by (intro keepsS_then shape_put shape_metrics keepsS_return) (simp_all add: shape_device device_only_record)
  then have "keepsS (\<lambda>s. shape s = ?v) (catchS
      (bindS (on_device (se_pump sessions session)) (\<lambda>r. pump_done svc k session (fst r) (snd r)))
      (\<lambda>e. thenS (RecordNetworkState svc k ''error'' (Some (what e))) (returnS True)))"
    by (intro keepsS_catch keepsS_then keepsS_return keepsS_bind [OF shape_device [OF device_only_db(2)]]
        shape_device [OF device_only_record])
  from keepsD [OF this, of s] Some show ?thesis by (simp add: pump_task_def bindS_def getS_def)
qed

lemma handle_proposal_shape:
  fixes s :: "'s NetworkSessionManager"
  shows "shape (snd (handle_proposal svc sessions r s)) = shape s"
proof -
  have event: "keepsS (\<lambda>u :: 's NetworkSessionManager. shape u = shape s) (bindS (NowMilliseconds svc) (\<lambda>now. node_db (RecordEngineEvent (f now))))" for f
    by (intro shape_device device_only_rules)
  have "shape (snd (propose_to_peer sessions r s)) = shape s"
  proof (cases "map_of (nm_tasks s) (pq_task_id r)")
    case None
    then show ?thesis by (simp add: propose_to_peer_def op_defs)
  next
    case (Some session)
    have "keepsS (\<lambda>u. shape u = shape s) (bindS (on_device (se_propose sessions r session)) (\<lambda>session'.
        modifyS (\<lambda>s. s\<lparr>nm_tasks := AList.update (pq_task_id r) session' (nm_tasks s)\<rparr>)))"
      using known_task [OF Some] by (intro keepsS_bind shape_device device_only_db shape_put) simp
    from keepsD [OF this, of s] Some show ?thesis by (simp add: propose_to_peer_def bindS_def getS_def throwS_def)
  qed
  then show ?thesis
    using keepsD [OF event] by (cases "propose_to_peer sessions r s"; cases "fst (propose_to_peer sessions r s)")
      (simp_all add: handle_proposal_def catchS_def)
qed

section \<open>A removed task stays removed\<close>

text \<open>The tasks that the worker holds outside the shared lists and may still turn into a session or a retry.\<close>

fun in_progress :: "'s worker \<Rightarrow> string set" where
  "in_progress (wkBuild ts) = set ts"
| "in_progress (wkStore t r ts) = insert t (set ts)"
| "in_progress (wkPump ts again) = set again"
| "in_progress (wkFinish again) = set again"
| "in_progress _ = {}"

definition gone :: "string \<Rightarrow> 's NetworkSessionManager \<Rightarrow> bool" where
  "gone t s \<longleftrightarrow> \<not> has_task t s \<and> t \<notin> set (nm_rebuild s) \<and> t \<notin> in_progress (nm_worker s)"

lemma gone_cong:
  "fst ` set (nm_tasks u) = fst ` set (nm_tasks s) \<Longrightarrow> nm_rebuild u = nm_rebuild s \<Longrightarrow> nm_worker u = nm_worker s \<Longrightarrow>
   gone t u = gone t s"
  by (simp add: gone_def has_task_def)

lemma gone_same: "same_nm u s \<Longrightarrow> gone t u = gone t s"
  by (rule gone_cong) (simp_all add: same_nm_def)

lemma gone_notify [simp]: "gone t (notify_all s) = gone t s"
  by (rule gone_cong) simp_all

lemma gone_waiting [simp]: "gone t (s\<lparr>nm_waiting := w\<rparr>) = gone t s" "gone t (s\<lparr>nm_woken := v\<rparr>) = gone t s"
  by (simp_all add: gone_def has_task_def)

text \<open>A section that leaves the lists alone but for the worker's place.\<close>

lemma gone_go_on:
  assumes "gone t s" "\<not> has_task t (snd (m s))" "t \<notin> set (nm_rebuild (snd (m s)))"
    and "\<And>x u. m s = (Inr x, u) \<Longrightarrow> t \<notin> in_progress (next x)"
  shows "gone t (go_on m next s)"
  using assms by (auto simp: go_on_def gone_def has_task_def split: prod.splits sum.splits)

lemma gone_go_on_device:
  assumes "gone t s" "device_only m" "\<And>x u. m s = (Inr x, u) \<Longrightarrow> t \<notin> in_progress (next x)"
  shows "gone t (go_on m next s)"
  using assms device_onlyD [OF assms(2), of s]
  by (intro gone_go_on) (auto simp: gone_def has_task_def same_nm_def)

lemma not_in_tasks: "\<not> has_task t s \<longleftrightarrow> map_of (nm_tasks s) t = None"
  by (simp add: has_task_def map_of_eq_None_iff)

lemma gone_shape: "gone t s \<longleftrightarrow> t \<notin> fst (shape s) \<and> t \<notin> set (fst (snd (shape s))) \<and> t \<notin> in_progress (nm_worker s)"
  by (simp add: gone_def shape_def has_task_def)

lemma gone_go_on_shape:
  assumes "gone t s" "shape (snd (m s)) = shape s" "\<And>x u. m s = (Inr x, u) \<Longrightarrow> t \<notin> in_progress (next x)"
  shows "gone t (go_on m next s)"
  using assms by (intro gone_go_on) (auto simp: gone_def has_task_def shape_def)

lemma gone_take_work:
  assumes "gone t s" "take_work now s = (builds, u)"
  shows "\<not> has_task t u \<and> t \<notin> set (nm_rebuild u) \<and> t \<notin> set builds"
  using assms by (auto simp: take_work_def Let_def gone_def has_task_def remove_tasks_fields remove_tasks_lists)

lemma gone_drop_and_retry:
  assumes "\<not> has_task t s" "t \<notin> set (nm_rebuild s)" "t \<notin> set again"
  shows "\<not> has_task t (snd (forS (\<lambda>k. bindS (outside_call c) (\<lambda>now. modifyS (drop_and_retry now k))) again s)) \<and>
    t \<notin> set (nm_rebuild (snd (forS (\<lambda>k. bindS (outside_call c) (\<lambda>now. modifyS (drop_and_retry now k))) again s)))"
proof -
  have "keepsS (\<lambda>s. \<not> has_task t s \<and> t \<notin> set (nm_rebuild s))
      (forS (\<lambda>k. bindS (outside_call c) (\<lambda>now. modifyS (drop_and_retry now k))) again)"
    using assms(3)
    by (intro keepsS_for) (auto simp: keepsS_def op_defs outside_call_def drop_and_retry_def retry_later_def has_task_def
        AList.delete_eq)
  from keepsD [OF this] assms show ?thesis by blast
qed

lemma gone_worker_step:
  assumes "gone t s"
  shows "gone t (worker_step svc sessions s)"
proof (cases "nm_worker s")
  case wkRound
  have "gone t (go_on (bindS (outside_call (svc_steady svc)) (\<lambda>now u. case take_work now u of (b, v) \<Rightarrow> (Inr b, v))) wkBuild s)"
  proof -
    let ?s = "s\<lparr>sn_calls := Suc (sn_calls s)\<rparr>"
    obtain b v where b: "take_work (svc_steady svc (sn_calls s)) ?s = (b, v)" by (rule prod.exhaust)
    have "gone t ?s" using assms by (simp add: gone_def has_task_def)
    from gone_take_work [OF this b] show ?thesis
      by (simp add: go_on_def bindS_def outside_call_def b gone_def has_task_def)
  qed
  with wkRound assms show ?thesis by (simp add: worker_step_def gone_def has_task_def)
next
  case (wkBuild ts)
  show ?thesis
  proof (cases ts)
    case Nil
    with wkBuild assms show ?thesis by (simp add: worker_step_def gone_def has_task_def)
  next
    case (Cons k ks)
    with wkBuild assms have "gone t (go_on (build_one svc sessions k) (\<lambda>r. wkStore k r ks) s)"
      by (intro gone_go_on_device [OF assms device_only_build_one]) (simp add: gone_def)
    with wkBuild Cons show ?thesis by (simp add: worker_step_def)
  qed
next
  case (wkStore k r ks)
  show ?thesis
  proof (cases r)
    case (Inl e)
    have "gone t (go_on (bindS (outside_call (svc_steady svc)) (\<lambda>now. modifyS (retry_later now k))) (\<lambda>_. wkBuild ks) s)"
      using assms wkStore
      by (intro gone_go_on) (auto simp: op_defs outside_call_def retry_later_def gone_def has_task_def)
    with wkStore Inl show ?thesis by (simp add: worker_step_def)
  next
    case (Inr built)
    with wkStore assms show ?thesis
      by (auto simp: worker_step_def gone_def store_built_def has_task_def dom_update AList.delete_eq split: option.splits)
  qed
next
  case wkTake
  obtain rs u where u: "take_requests s = (rs, u)" by (rule prod.exhaust)
  with wkTake assms take_requests_shape [OF u] show ?thesis by (simp add: worker_step_def gone_shape)
next
  case (wkPropose rs)
  show ?thesis
  proof (cases rs)
    case Nil
    with wkPropose assms show ?thesis by (simp add: worker_step_def gone_shape)
  next
    case (Cons r rs')
    have "gone t (go_on (handle_proposal svc sessions r) (\<lambda>_. wkPropose rs') s)"
      by (rule gone_go_on_shape) (simp_all add: assms handle_proposal_shape)
    with wkPropose Cons show ?thesis by (simp add: worker_step_def)
  qed
next
  case (wkPump ts again)
  show ?thesis
  proof (cases ts)
    case Nil
    with wkPump assms show ?thesis by (simp add: worker_step_def gone_shape)
  next
    case (Cons k ks)
    have "u = s \<and> \<not> rebuild" if "pump_task svc sessions k s = (Inr rebuild, u)" "k = t" for rebuild u
      using that assms not_in_tasks [of t s] by (simp add: pump_task_def op_defs gone_def)
    then have "gone t (go_on (pump_task svc sessions k) (\<lambda>rebuild. wkPump ks (if rebuild then again @ [k] else again)) s)"
      using assms wkPump by (intro gone_go_on_shape) (auto simp: gone_def pump_task_shape)
    with wkPump Cons show ?thesis by (simp add: worker_step_def)
  qed
next
  case (wkFinish again)
  then have "gone t (go_on (forS (\<lambda>k. bindS (outside_call (svc_steady svc)) (\<lambda>now. modifyS (drop_and_retry now k))) again)
      (\<lambda>_. wkRound) s)"
    using assms gone_drop_and_retry [of t s again "svc_steady svc"] by (intro gone_go_on) (auto simp: gone_def)
  with wkFinish show ?thesis by (simp add: worker_step_def)
qed (use assms in \<open>simp_all add: worker_step_def\<close>)

lemma gone_perform:
  assumes "gone t s" "a \<noteq> acStart" "a \<noteq> acTaskChanged t" "a \<noteq> acResumeTask t"
  shows "gone t (perform svc sessions a s)"
proof (cases a)
  case acWorker
  with assms(1) show ?thesis by (simp add: gone_worker_step)
next
  case acStopRequest
  have "gone t (s\<lparr>nm_stopping := True\<rparr>)" using assms(1) by (simp add: gone_def has_task_def)
  with acStopRequest assms(1) show ?thesis by (simp add: stop_request_def)
next
  case acStopFinish
  with assms(1) show ?thesis by (simp add: stop_finish_def gone_def has_task_def)
next
  case (acTaskChanged k)
  then have "gone t (s\<lparr>nm_rebuild := List.insert k (nm_rebuild s), nm_retry_after := AList.delete k (nm_retry_after s)\<rparr>)"
    using assms by (auto simp: gone_def has_task_def)
  with acTaskChanged show ?thesis by (simp add: Network_TaskChanged_def)
next
  case (acTaskDeleting k)
  have "gone t (s\<lparr>nm_remove := List.insert k (nm_remove s), nm_rebuild := removeAll k (nm_rebuild s),
      nm_local_changes := removeAll k (nm_local_changes s)\<rparr>)"
    using assms(1) by (simp add: gone_def has_task_def)
  moreover have "gone t (s\<lparr>nm_tasks := AList.delete k (nm_tasks s), nm_rebuild := removeAll k (nm_rebuild s),
      nm_local_changes := removeAll k (nm_local_changes s), nm_retry_after := AList.delete k (nm_retry_after s)\<rparr>)"
    using assms(1) by (auto simp: gone_def has_task_def AList.delete_eq)
  ultimately show ?thesis
    using acTaskDeleting by (simp add: Network_TaskDeleting_def Let_def)
next
  case (acWakeUp k)
  with assms(1) show ?thesis by (simp add: wake_up_def Let_def)
next
  case (acResumeTask k)
  then have "gone t (s\<lparr>nm_rebuild := List.insert k (nm_rebuild s), nm_retry_after := AList.delete k (nm_retry_after s)\<rparr>)"
    using assms by (auto simp: gone_def has_task_def)
  with acResumeTask show ?thesis by (simp add: Network_ResumeTask_def Network_TaskChanged_def)
next
  case (acPauseRest k)
  with assms(1) show ?thesis
    by (simp add: Network_PauseTask_rest_def gone_same [OF device_onlyD [OF device_only_record]])
next
  case (acLocalChanged k)
  with assms(1) show ?thesis by (simp add: Network_LocalChanged_def gone_def has_task_def)
next
  case (acPropose r)
  with assms(1) show ?thesis by (simp add: Network_ProposeIgnorePolicy_def op_defs gone_def has_task_def)
next
  case (acDevice db files)
  with assms(1) show ?thesis by (simp add: gone_def has_task_def)
qed (use assms in simp)

section \<open>A removal completes\<close>

definition settled :: "string \<Rightarrow> 's NetworkSessionManager \<Rightarrow> bool" where
  "settled t s \<longleftrightarrow> removal_done t s \<and> t \<notin> set (nm_waiting s) \<or> (\<exists>e. nm_worker s = wkTerminated e)"

definition removing :: "string \<Rightarrow> 's NetworkSessionManager \<Rightarrow> bool" where
  "removing t s \<longleftrightarrow> t \<in> set (nm_remove s) \<and> \<not> nm_stopping s"

definition settles :: "'t Services \<Rightarrow> 's Sessions \<Rightarrow> string \<Rightarrow> 's NetworkSessionManager \<Rightarrow> bool" where
  "settles svc sessions t s \<longleftrightarrow> (\<exists>n. settled t ((worker_step svc sessions ^^ n) s))"

text \<open>A woken thread leaves when its condition holds.\<close>

lemma count_remove1: "x \<in> set xs \<Longrightarrow> Suc (count_list (remove1 x xs) x) = count_list xs x"
  by (induction xs) auto

lemma wake_up_leaves:
  assumes "removal_done t s" "t \<notin> set (nm_waiting s)"
  shows "removal_done t (wake_up t s)" "t \<notin> set (nm_waiting (wake_up t s))" "count_list (nm_woken (wake_up t s)) t = count_list (nm_woken s) t - 1"
  using assms count_remove1 [of t "nm_woken s"]
  by (auto simp: wake_up_def Let_def removal_done_def has_task_def count_list_0_iff)

lemma all_wake_up:
  assumes "removal_done t s" "t \<notin> set (nm_waiting s)"
  shows "t \<notin> set (nm_waiting ((wake_up t ^^ count_list (nm_woken s) t) s)) \<and> t \<notin> set (nm_woken ((wake_up t ^^ count_list (nm_woken s) t) s))"
  using assms
proof (induction "count_list (nm_woken s) t" arbitrary: s)
  case 0
  then show ?case by (metis count_list_0_iff funpow_0)
next
  case (Suc n)
  note leave = wake_up_leaves [OF Suc.prems]
  have n: "n = count_list (nm_woken (wake_up t s)) t" using leave(3) Suc.hyps(2) by simp
  from Suc.hyps(1) [OF n leave(1,2)] show ?case unfolding Suc.hyps(2) [symmetric] n [symmetric] by (simp add: funpow_swap1)
qed

lemma settles_now: "settled t s \<Longrightarrow> settles svc sessions t s"
  unfolding settles_def by (rule exI [of _ 0]) simp

lemma settles_step: "settles svc sessions t (worker_step svc sessions s) \<Longrightarrow> settles svc sessions t s"
proof -
  assume "settles svc sessions t (worker_step svc sessions s)"
  then obtain n where "settled t ((worker_step svc sessions ^^ n) (worker_step svc sessions s))" by (auto simp: settles_def)
  then have "settled t ((worker_step svc sessions ^^ Suc n) s)" by (simp only: funpow_Suc_right comp_def)
  then show ?thesis unfolding settles_def by blast
qed

text \<open>A section ends the thread or goes on to the next one, and keeps the removal where its operation does.\<close>

lemma removing_shape: "removing t s \<Longrightarrow> shape u = shape s \<Longrightarrow> removing t u"
  by (simp add: removing_def shape_def)

lemma removing_worker [simp]: "removing t (s\<lparr>nm_worker := w\<rparr>) = removing t s"
  by (simp add: removing_def)

lemma settles_go_on:
  assumes "removing t (snd (m s))"
    and "\<And>x. settles svc sessions t ((snd (m s))\<lparr>nm_worker := next x\<rparr>)"
  shows "settles svc sessions t (go_on m next s)"
proof (cases "fst (m s)")
  case (Inl e)
  then have "nm_worker (go_on m next s) = wkTerminated e" by (cases "m s") (simp add: go_on_def)
  then show ?thesis by - (rule settles_now, simp add: settled_def)
next
  case (Inr x)
  then have "go_on m next s = (snd (m s))\<lparr>nm_worker := next x\<rparr>" by (cases "m s") (simp add: go_on_def)
  then show ?thesis using assms(2) by simp
qed

lemma settles_round:
  assumes "removing t s" "nm_worker s = wkRound"
  shows "settles svc sessions t s"
proof (rule settles_step, rule settles_now)
  let ?s = "s\<lparr>sn_calls := Suc (sn_calls s)\<rparr>"
  obtain b v where v: "take_work (svc_steady svc (sn_calls s)) ?s = (b, v)" by (rule prod.exhaust)
  have "removal_done t v \<and> t \<notin> set (nm_waiting v)"
    using v assms(1)
    by (auto simp: take_work_def Let_def removing_def removal_done_def has_task_def notify_all_def remove_tasks_fields
        remove_tasks_lists)
  then show "settled t (worker_step svc sessions s)"
    using assms v by (simp add: worker_step_def removing_def go_on_def bindS_def outside_call_def settled_def
        removal_done_def has_task_def)
qed

text \<open>One round, from its last section to its first.\<close>

lemma settles_finish:
  assumes "removing t s"
  shows "settles svc sessions t (s\<lparr>nm_worker := wkFinish again\<rparr>)"
proof (rule settles_step)
  let ?m = "forS (\<lambda>k. bindS (outside_call (svc_steady svc)) (\<lambda>now. modifyS (drop_and_retry now k))) again"
  let ?s = "s\<lparr>nm_worker := wkFinish again\<rparr>"
  have "keepsS (removing t) ?m"
    by (intro keepsS_for)
      (auto simp: keepsS_def op_defs outside_call_def drop_and_retry_def retry_later_def removing_def)
  from keepsD [OF this, of ?s] assms have r: "removing t (snd (?m ?s))" by simp
  have "settles svc sessions t (go_on ?m (\<lambda>_. wkRound) ?s)"
    using r by (rule settles_go_on) (rule settles_round, simp_all add: r)
  then show "settles svc sessions t (worker_step svc sessions ?s)" by (simp add: worker_step_def)
qed

lemma settles_pump: "removing t s \<Longrightarrow> settles svc sessions t (s\<lparr>nm_worker := wkPump ts again\<rparr>)"
proof (induction ts arbitrary: s again)
  case Nil
  then show ?case using settles_finish [OF Nil, of svc sessions again] by - (rule settles_step, simp add: worker_step_def)
next
  case (Cons k ks)
  let ?s = "s\<lparr>nm_worker := wkPump (k # ks) again\<rparr>" and ?m = "pump_task svc sessions k"
  have r: "removing t (snd (?m ?s))"
    by (rule removing_shape [where s = s]) (simp_all add: Cons.prems pump_task_shape)
  have "settles svc sessions t (go_on ?m (\<lambda>rebuild. wkPump ks (if rebuild then again @ [k] else again)) ?s)"
    using r by (rule settles_go_on) (rule Cons.IH [OF r])
  then show ?case by - (rule settles_step [of svc sessions t ?s], simp add: worker_step_def)
qed

lemma settles_propose: "removing t s \<Longrightarrow> settles svc sessions t (s\<lparr>nm_worker := wkPropose rs\<rparr>)"
proof (induction rs arbitrary: s)
  case Nil
  then show ?case
    using settles_pump [OF Nil, of svc sessions "map fst (nm_tasks s)" "[]"] by - (rule settles_step, simp add: worker_step_def)
next
  case (Cons r rs)
  let ?s = "s\<lparr>nm_worker := wkPropose (r # rs)\<rparr>" and ?m = "handle_proposal svc sessions r"
  have r: "removing t (snd (?m ?s))"
    by (rule removing_shape [where s = s]) (simp_all add: Cons.prems handle_proposal_shape)
  have "settles svc sessions t (go_on ?m (\<lambda>_. wkPropose rs) ?s)"
    using r by (rule settles_go_on) (rule Cons.IH [OF r])
  then show ?case by - (rule settles_step [of svc sessions t ?s], simp add: worker_step_def)
qed

lemma settles_take:
  assumes "removing t s"
  shows "settles svc sessions t (s\<lparr>nm_worker := wkTake\<rparr>)"
proof (rule settles_step)
  let ?s = "s\<lparr>nm_worker := wkTake\<rparr>"
  obtain rs u where u: "take_requests ?s = (rs, u)" by (rule prod.exhaust)
  have "removing t u" by (rule removing_shape [OF assms]) (simp add: take_requests_shape [OF u])
  from settles_propose [OF this, of svc sessions rs] u
  show "settles svc sessions t (worker_step svc sessions ?s)" by (simp add: worker_step_def)
qed

text \<open>Storing goes on to the remaining builds.\<close>

lemma settles_store_then:
  assumes "removing t s" and rest: "\<And>u. removing t u \<Longrightarrow> settles svc sessions t (u\<lparr>nm_worker := wkBuild ks\<rparr>)"
  shows "settles svc sessions t (s\<lparr>nm_worker := wkStore k r ks\<rparr>)"
proof (cases r)
  case (Inl e)
  let ?s = "s\<lparr>nm_worker := wkStore k r ks\<rparr>"
    and ?m = "bindS (outside_call (svc_steady svc)) (\<lambda>now. modifyS (retry_later now k))"
  have r: "removing t (snd (?m ?s))"
    using assms(1) by (simp add: op_defs outside_call_def retry_later_def removing_def)
  have "settles svc sessions t (go_on ?m (\<lambda>_. wkBuild ks) ?s)"
    using r by (rule settles_go_on) (rule rest [OF r])
  with Inl show ?thesis by - (rule settles_step [of svc sessions t ?s], simp add: worker_step_def)
next
  case (Inr built)
  let ?s = "s\<lparr>nm_worker := wkStore k r ks\<rparr>"
  have "removing t (store_built k built ?s)" using assms(1) by (simp add: removing_def store_built_def)
  from rest [OF this] Inr show ?thesis by - (rule settles_step [of svc sessions t ?s], simp add: worker_step_def)
qed

lemma settles_build: "removing t s \<Longrightarrow> settles svc sessions t (s\<lparr>nm_worker := wkBuild ts\<rparr>)"
proof (induction ts arbitrary: s)
  case Nil
  then show ?case using settles_take [OF Nil, of svc sessions] by - (rule settles_step, simp add: worker_step_def)
next
  case (Cons k ks)
  let ?s = "s\<lparr>nm_worker := wkBuild (k # ks)\<rparr>" and ?m = "build_one svc sessions k"
  have r: "removing t (snd (?m ?s))"
    using Cons.prems device_onlyD [OF device_only_build_one, of svc sessions k ?s] by (simp add: same_nm_def removing_def)
  have "settles svc sessions t (go_on ?m (\<lambda>r. wkStore k r ks) ?s)"
    using r by (rule settles_go_on) (rule settles_store_then [OF r Cons.IH])
  then show ?case by - (rule settles_step [of svc sessions t ?s], simp add: worker_step_def)
qed

lemma removal_settles:
  assumes "removing t s" "nm_worker s \<noteq> wkNone" "nm_worker s \<noteq> wkEnded"
  shows "settles svc sessions t s"
proof -
  have s: "s\<lparr>nm_worker := nm_worker s\<rparr> = s" by simp
  show ?thesis
  proof (cases "nm_worker s")
    case wkRound
    with assms(1) show ?thesis by (rule settles_round)
  next
    case (wkBuild ts)
    from settles_build [OF assms(1), of svc sessions ts] show ?thesis by (simp only: s [unfolded wkBuild])
  next
    case (wkStore k r ks)
    have "settles svc sessions t (s\<lparr>nm_worker := wkStore k r ks\<rparr>)" by (rule settles_store_then [OF assms(1) settles_build])
    then show ?thesis by (simp only: s [unfolded wkStore])
  next
    case wkTake
    from settles_take [OF assms(1), of svc sessions] show ?thesis by (simp only: s [unfolded wkTake])
  next
    case (wkPropose rs)
    from settles_propose [OF assms(1), of svc sessions rs] show ?thesis by (simp only: s [unfolded wkPropose])
  next
    case (wkPump ts again)
    from settles_pump [OF assms(1), of svc sessions ts again] show ?thesis by (simp only: s [unfolded wkPump])
  next
    case (wkFinish again)
    from settles_finish [OF assms(1), of svc sessions again] show ?thesis by (simp only: s [unfolded wkFinish])
  next
    case (wkTerminated e)
    then show ?thesis by - (rule settles_now, simp add: settled_def)
  qed (use assms in simp_all)
qed

section \<open>A manager to look at\<close>

definition demo_sessions :: "unit Sessions" where
  "demo_sessions = \<lparr>se_open = (\<lambda>_ _. throwS (Runtime_error ''tracker is unreachable'')),
     se_pump = (\<lambda>session. returnS (False, session)), se_one_ready_peer = (\<lambda>_. False),
     se_propose = (\<lambda>_ session. returnS session)\<rparr>"

definition demo_session :: "unit TaskSession" where
  "demo_session = \<lparr>ts_parts = (), ts_local_changed = False, ts_online_recorded = False, ts_metrics = no_metrics\<rparr>"

definition demo_session_options :: NetworkSessionOptions where
  "demo_session_options = \<lparr>no_pump_interval = 50, no_tracker_poll_interval = 350, no_membership_refresh = 5000,
     no_retry_delay = 5000, no_connection_timeout = 30000\<rparr>"

text \<open>A running manager with a session of one task, whose thread is at the given place.\<close>

definition demo_network :: "unit worker \<Rightarrow> unit NetworkSessionManager" where
  "demo_network place = \<lparr>sn_database = demo_database, sn_files = sn_files demo_manager, sn_calls = 0,
     nm_options = demo_session_options, nm_started = True, nm_stopping = False, nm_worker = place,
     nm_tasks = [(''t'', demo_session)], nm_rebuild = [], nm_remove = [], nm_local_changes = [], nm_retry_after = [],
     nm_metrics = [], nm_policy_requests = [], nm_waiting = [], nm_woken = []\<rparr>"

section \<open>Properties\<close>

text \<open>
  C28: A task that is gone stays gone.  When a task has no session, is not queued to be built and is not in the
  worker's hands, no sequence of worker sections, calls for other tasks, deletions, stops and changes of the
  database brings it back: only a start or a call that names it does.
\<close>

theorem removed_task_stays_gone:
  assumes "gone t s" "\<forall>a \<in> set actions. a \<noteq> acStart \<and> a \<noteq> acTaskChanged t \<and> a \<noteq> acResumeTask t"
  shows "\<not> has_task t (fold (perform svc sessions) actions s) \<and> gone t (fold (perform svc sessions) actions s)"
  using assms
proof (induction actions arbitrary: s)
  case Nil
  then show ?case by (simp add: gone_def)
next
  case (Cons a actions)
  then have "gone t (perform svc sessions a s)" by (intro gone_perform) simp_all
  with Cons show ?case by simp
qed

theorem removed_task_stays_gone_witness:
  "\<not> has_task ''x'' (fold (perform demo_services demo_sessions) [acWorker, acTaskChanged ''t'', acWorker, acWorker]
     (demo_network wkRound))"
proof -
  have "gone ''x'' (demo_network wkRound)" by (simp add: gone_def has_task_def demo_network_def)
  then show ?thesis
    using removed_task_stays_gone [of "''x''" "demo_network wkRound" "[acWorker, acTaskChanged ''t'', acWorker, acWorker]"
        demo_services demo_sessions] by simp
qed

text \<open>
  C27: A deletion that waits is released.  While the manager runs, wherever the worker is in its loop, after
  finitely many of its sections the task has no session, its removal is done and nobody sleeps for it, and the
  threads that were woken return when they get the mutex, unless an exception has ended the worker.
\<close>

theorem deletion_completes:
  assumes "nm_started s" "\<not> nm_stopping s" "nm_worker s \<noteq> wkNone" "nm_worker s \<noteq> wkEnded"
  shows "\<exists>n. let u = (worker_step svc sessions ^^ n) (Network_TaskDeleting t s);
      v = (wake_up t ^^ count_list (nm_woken u) t) u in
    removal_done t u \<and> t \<notin> set (nm_waiting u) \<and> t \<notin> set (nm_waiting v) \<and> t \<notin> set (nm_woken v) \<or>
    (\<exists>e. nm_worker u = wkTerminated e)"
proof -
  let ?s = "Network_TaskDeleting t s"
  have "removing t ?s" "nm_worker ?s \<noteq> wkNone" "nm_worker ?s \<noteq> wkEnded"
    using assms by (simp_all add: Network_TaskDeleting_def Let_def removing_def)
  from removal_settles [OF this, of svc sessions] obtain n where "settled t ((worker_step svc sessions ^^ n) ?s)"
    by (auto simp: settles_def)
  then show ?thesis unfolding settled_def Let_def using all_wake_up by blast
qed

theorem deletion_completes_witness:
  "\<exists>n. let u = (worker_step demo_services demo_sessions ^^ n) (Network_TaskDeleting ''t'' (demo_network (wkBuild [])));
      v = (wake_up ''t'' ^^ count_list (nm_woken u) ''t'') u in
    removal_done ''t'' u \<and> ''t'' \<notin> set (nm_waiting u) \<and> ''t'' \<notin> set (nm_waiting v) \<and> ''t'' \<notin> set (nm_woken v) \<or>
    (\<exists>e. nm_worker u = wkTerminated e)"
  by (rule deletion_completes) (simp_all add: demo_network_def)

text \<open>
  A round takes exactly the work that is due.  It builds the queued tasks that have no retry time or whose
  retry time has come and leaves the others queued, and it drops exactly the sessions whose removal was
  requested, with their retry times.
\<close>

theorem round_takes_due_work:
  assumes "take_work now s = (builds, u)"
  shows "set builds = {t \<in> set (nm_rebuild s). \<forall>at. map_of (nm_retry_after s) t = Some at \<longrightarrow> at \<le> now} \<and>
    set (nm_rebuild u) = set (nm_rebuild s) - set builds \<and> nm_remove u = [] \<and>
    nm_tasks u = filter (\<lambda>p. fst p \<notin> set (nm_remove s)) (nm_tasks s) \<and>
    nm_retry_after u = filter (\<lambda>p. fst p \<notin> set (nm_remove s)) (nm_retry_after s)"
  using assms
  by (auto simp: take_work_def Let_def build_due_def remove_tasks_fields remove_tasks_lists split: option.splits)

theorem round_takes_due_work_witness:
  "fst (take_work 7 ((demo_network wkRound)\<lparr>nm_rebuild := [''a'', ''b''], nm_retry_after := [(''a'', 9)]\<rparr>)) = [''b'']"
proof -
  let ?s = "(demo_network wkRound)\<lparr>nm_rebuild := [''a'', ''b''], nm_retry_after := [(''a'', 9)]\<rparr>"
  obtain b u where b: "take_work 7 ?s = (b, u)" by (rule prod.exhaust)
  from round_takes_due_work [OF this] have "set b = {''b''}" by (auto split: if_splits)
  moreover have "fst (take_work 7 ?s) = [''b'']" by (simp add: take_work_def Let_def build_due_def)
  ultimately show ?thesis by simp
qed

text \<open>
  C30: A deletion that waits while the manager stops can be left asleep.  The worker, at the top of its loop, ends and
  notifies while the removal is still queued; the queue is emptied after the worker was joined, without another
  notification.  If the woken thread gets the mutex in between, it goes back to sleep: its condition then holds, but
  no worker is left to wake it.  If it gets the mutex only after the queue was emptied, it returns.
\<close>

theorem stop_can_strand_deletion:
  assumes "nm_started s" "nm_worker s = wkRound" "t \<in> set (nm_waiting s)" "t \<in> set (nm_remove s)"
  shows "let ended = worker_step svc sessions (stop_request s);
      early = stop_finish (wake_up t ended); late = wake_up t (stop_finish ended) in
    (t \<in> set (nm_waiting early) \<and> removal_done t early \<and> \<not> nm_started early \<and> (worker_step svc sessions ^^ n) early = early) \<and>
    (t \<notin> set (nm_waiting late) \<and> Suc (count_list (nm_woken late) t) = count_list (nm_woken ended) t)"
proof -
  let ?r = "stop_request s" and ?w = "worker_step svc sessions (stop_request s)"
  have r: "nm_started ?r" "nm_stopping ?r" "nm_worker ?r = wkRound" "t \<in> set (nm_remove ?r)" "t \<in> set (nm_woken ?r)" "nm_waiting ?r = []"
    using assms by (simp_all add: stop_request_def notify_all_def)
  then have w: "nm_started ?w" "nm_stopping ?w" "nm_worker ?w = wkEnded" "t \<in> set (nm_remove ?w)" "t \<in> set (nm_woken ?w)" "nm_waiting ?w = []"
    by (simp_all add: worker_step_def notify_all_def)
  let ?early = "stop_finish (wake_up t ?w)" and ?late = "wake_up t (stop_finish ?w)"
  have early: "t \<in> set (nm_waiting ?early)" "removal_done t ?early" "\<not> nm_started ?early" "nm_worker ?early = wkNone"
    using w by (simp_all add: wake_up_def stop_finish_def Let_def removal_done_def has_task_def)
  have "worker_step svc sessions ?early = ?early" using early(4) by (simp add: worker_step_def)
  then have idle: "(worker_step svc sessions ^^ n) ?early = ?early" by (induction n) (simp_all only: funpow.simps comp_def id_apply)
  have late: "nm_waiting ?late = []" "nm_woken ?late = remove1 t (nm_woken ?w)"
    using w by (simp_all add: wake_up_def stop_finish_def Let_def removal_done_def has_task_def)
  show ?thesis unfolding Let_def using early(1-3) idle late(1) count_remove1 [OF w(5)] unfolding late(2) by simp
qed

theorem stop_can_strand_deletion_witness:
  "let ended = worker_step demo_services demo_sessions (stop_request (Network_TaskDeleting ''t'' (demo_network wkRound)));
       early = stop_finish (wake_up ''t'' ended) in
   ''t'' \<in> set (nm_waiting early) \<and> removal_done ''t'' early \<and> \<not> nm_started early"
proof -
  let ?s = "Network_TaskDeleting ''t'' (demo_network wkRound)"
  have "nm_started ?s" "nm_worker ?s = wkRound" "''t'' \<in> set (nm_waiting ?s)" "''t'' \<in> set (nm_remove ?s)"
    by (simp_all add: Network_TaskDeleting_def Let_def demo_network_def notify_all_def removal_done_def has_task_def)
  from stop_can_strand_deletion [OF this, of demo_services demo_sessions 0] show ?thesis by (simp add: Let_def)
qed

text \<open>
  C31: A policy proposal for a task that is gone ends the worker.  Proposals are not dropped when their task is
  deleted; the failed proposal is recorded as an event of the task, which the database refuses when the task
  no longer exists, and this second exception is thrown inside the handler and leaves the thread.
\<close>

theorem stale_proposal_ends_worker:
  assumes "nm_worker s = wkPropose (r # rs)" "map_of (nm_tasks s) (pq_task_id r) = None"
    and "\<not> task_exists (cstr (pq_task_id r)) (db_tables (sn_database s))"
  shows "\<exists>e. nm_worker (worker_step svc sessions s) = wkTerminated e"
proof -
  have "\<exists>e u. handle_proposal svc sessions r s = (Inl e, u)"
    using assms(2,3)
    by (simp add: handle_proposal_def propose_to_peer_def op_defs NowMilliseconds_def outside_call_def zoomS_def
        RecordEngineEvent_def statement_def Let_def)
  then show ?thesis using assms(1) by (auto simp: worker_step_def go_on_def)
qed

theorem stale_proposal_ends_worker_witness:
  "\<exists>e. nm_worker (worker_step demo_services demo_sessions
     (demo_network (wkPropose [\<lparr>pq_task_id = ''x'', pq_expected_hash = [], pq_rules = [], pq_source = []\<rparr>]))) = wkTerminated e"
proof (rule stale_proposal_ends_worker)
  show "\<not> task_exists (cstr (pq_task_id \<lparr>pq_task_id = ''x'', pq_expected_hash = [], pq_rules = [], pq_source = []\<rparr>))
      (db_tables (sn_database (demo_network (wkPropose [\<lparr>pq_task_id = ''x'', pq_expected_hash = [], pq_rules = [], pq_source = []\<rparr>]))))"
    by code_simp
qed (simp_all add: demo_network_def)

text \<open>
  A session that fails while its task is being deleted is queued again.  The last section of the round
  queues the failed task without looking at the removals, and the next round forgets its retry time
  together with the removal: when the deleting thread is released, the task is queued and due at once.
\<close>

theorem failed_pump_requeues_deleted_task:
  assumes "nm_started s" "\<not> nm_stopping s" "nm_worker s = wkFinish [t]" "t \<notin> set (nm_remove s)"
    and "svc_steady svc (Suc (sn_calls s)) < svc_steady svc (sn_calls s) + no_retry_delay (nm_options s)"
  shows "let u = worker_step svc sessions (worker_step svc sessions (Network_TaskDeleting t s)) in
    removal_done t u \<and> t \<notin> set (nm_waiting u) \<and> t \<in> set (nm_rebuild u) \<and> map_of (nm_retry_after u) t = None"
proof -
  let ?d = "Network_TaskDeleting t s"
  let ?f = "worker_step svc sessions ?d"
  have d: "\<not> nm_stopping ?d" "nm_worker ?d = wkFinish [t]" "t \<in> set (nm_remove ?d)" "sn_calls ?d = sn_calls s"
      "nm_options ?d = nm_options s"
    using assms(1-3) by (simp_all add: Network_TaskDeleting_def Let_def)
  have f: "?f = (drop_and_retry (svc_steady svc (sn_calls s)) t (?d\<lparr>sn_calls := Suc (sn_calls s)\<rparr>))\<lparr>nm_worker := wkRound\<rparr>"
    using d by (simp add: worker_step_def go_on_def op_defs outside_call_def)
  have f': "\<not> nm_stopping ?f" "nm_worker ?f = wkRound" "t \<in> set (nm_remove ?f)" "t \<in> set (nm_rebuild ?f)"
      "sn_calls ?f = Suc (sn_calls s)"
      "map_of (nm_retry_after ?f) t = Some (svc_steady svc (sn_calls s) + no_retry_delay (nm_options s))"
    using d unfolding f by (simp_all add: drop_and_retry_def retry_later_def update_conv')
  let ?g = "?f\<lparr>sn_calls := Suc (sn_calls ?f)\<rparr>"
  obtain b v where v: "take_work (svc_steady svc (sn_calls ?f)) ?g = (b, v)" by (rule prod.exhaust)
  have "removal_done t v \<and> t \<notin> set (nm_waiting v) \<and> t \<in> set (nm_rebuild v) \<and> map_of (nm_retry_after v) t = None"
    using v f'(3,4,5,6) assms(5)
    by (auto simp: take_work_def Let_def removal_done_def has_task_def notify_all_def build_due_def remove_tasks_fields
        remove_tasks_lists map_of_eq_None_iff)
  moreover have "worker_step svc sessions ?f = v\<lparr>nm_worker := wkBuild b\<rparr>"
    using f'(1,2) v by (simp add: worker_step_def go_on_def bindS_def outside_call_def)
  ultimately show ?thesis by (simp add: Let_def removal_done_def has_task_def)
qed

theorem failed_pump_requeues_deleted_task_witness:
  "let u = worker_step demo_services demo_sessions (worker_step demo_services demo_sessions
       (Network_TaskDeleting ''t'' (demo_network (wkFinish [''t''])))) in
   removal_done ''t'' u \<and> ''t'' \<in> set (nm_rebuild u)"
proof -
  have "svc_steady demo_services (Suc (sn_calls (demo_network (wkFinish [''t''])))) <
      svc_steady demo_services (sn_calls (demo_network (wkFinish [''t'']))) + no_retry_delay (nm_options (demo_network (wkFinish [''t''])))"
    by code_simp
  from failed_pump_requeues_deleted_task [OF _ _ _ _ this, of "''t''" demo_sessions] show ?thesis
    by (simp add: demo_network_def Let_def)
qed

end
