(* ===== verification/Session_Peers.thy ===== *)
theory Session_Peers
  imports Session_Manager
begin

text \<open>
  Properties of the parts of a task session that decide whom it talks to: the hub delivers every message of the
  tracker to the relay of its sender, once and in order; a changed membership is noticed; a refresh keeps the
  peers that are still members and gives every other member one; and of two peers exactly one starts.
\<close>

section \<open>The relay hub\<close>

lemma hub_messages_push:
  "hub_messages (hub_push m hub) d = hub_messages hub d @ (if d = rm_sender_device_id m then [m] else [])"
  by (simp add: hub_messages_def hub_push_def update_conv')

lemma hub_messages_poll:
  "hub_messages (hub_Poll ms hub) d = hub_messages hub d @ filter (\<lambda>m. rm_sender_device_id m = d) ms"
  by (induction ms arbitrary: hub) (auto simp: hub_Poll_def hub_messages_push)

lemma hub_messages_drain:
  "hub_messages (snd (hub_Drain d hub)) e = (if e = d then [] else hub_messages hub e)"
  by (simp add: hub_Drain_def hub_messages_def delete_conv')

datatype hub_event = heDrained "RelayMessage list" | heFetch string

text \<open>A run of the hub: what each fetch returned, by the device it asked for.\<close>

fun hub_run :: "hub_event list \<Rightarrow> TrackerRelayHub \<Rightarrow> (string \<times> RelayMessage list) list \<times> TrackerRelayHub" where
  "hub_run [] hub = ([], hub)"
| "hub_run (heDrained ms # es) hub = hub_run es (hub_Poll ms hub)"
| "hub_run (heFetch d # es) hub =
     (case hub_Drain d hub of (got, hub') \<Rightarrow> (case hub_run es hub' of (out, hub'') \<Rightarrow> ((d, got) # out, hub'')))"

definition fetched :: "string \<Rightarrow> (string \<times> RelayMessage list) list \<Rightarrow> RelayMessage list" where
  "fetched d out = concat (map snd (filter (\<lambda>p. fst p = d) out))"

fun delivered :: "hub_event list \<Rightarrow> RelayMessage list" where
  "delivered [] = []"
| "delivered (heDrained ms # es) = ms @ delivered es"
| "delivered (heFetch d # es) = delivered es"

lemma hub_run_conserves:
  "hub_run es hub = (out, hub') \<Longrightarrow>
     fetched d out @ hub_messages hub' d = hub_messages hub d @ filter (\<lambda>m. rm_sender_device_id m = d) (delivered es)"
proof (induction es hub arbitrary: out hub' rule: hub_run.induct)
  case (1 hub)
  then show ?case by (simp add: fetched_def)
next
  case (2 ms es hub)
  then show ?case by (simp add: hub_messages_poll)
next
  case (3 e es hub)
  obtain got h where g: "hub_Drain e hub = (got, h)" by (rule prod.exhaust)
  obtain o' h' where r: "hub_run es h = (o', h')" by (rule prod.exhaust)
  have "fetched d o' @ hub_messages h' d = hub_messages h d @ filter (\<lambda>m. rm_sender_device_id m = d) (delivered es)"
    using "3.IH" [OF g [symmetric] r] .
  moreover have "hub_messages h d = (if d = e then [] else hub_messages hub d)" "got = hub_messages hub e"
    using hub_messages_drain [of e hub d] g by (auto simp: hub_Drain_def)
  ultimately show ?case using 3(2) g r by (auto simp: fetched_def)
qed

text \<open>
  Sharing the tracker's inbox between peers loses nothing.  Over any interleaving of polls and fetches, what
  the relay of a device has fetched, followed by what still waits for it in the hub, is exactly the messages
  from that device, in the order in which the tracker delivered them.
\<close>

theorem hub_routes_by_sender:
  assumes "hub_run es \<lparr>hub_local_device_id = me, hub_inbox = []\<rparr> = (out, hub)"
  shows "fetched d out @ hub_messages hub d = filter (\<lambda>m. rm_sender_device_id m = d) (delivered es)"
  using hub_run_conserves [OF assms, of d] by (simp add: hub_messages_def)

theorem hub_routes_by_sender_witness:
  "let m = \<lparr>rm_kind = mkOffer, rm_sender_device_id = ''b'', rm_recipient_device_id = ''a'', rm_payload = ''v=0'',
       rm_candidate_mid = [], rm_candidate_mline_index = 0\<rparr>;
       r = hub_run [heDrained [m], heFetch ''b'', heFetch ''c''] \<lparr>hub_local_device_id = ''a'', hub_inbox = []\<rparr> in
   fetched ''b'' (fst r) @ hub_messages (snd r) ''b'' = [m]"
proof -
  let ?m = "\<lparr>rm_kind = mkOffer, rm_sender_device_id = ''b'', rm_recipient_device_id = ''a'', rm_payload = ''v=0'',
       rm_candidate_mid = [], rm_candidate_mline_index = 0\<rparr>"
  let ?r = "hub_run [heDrained [?m], heFetch ''b'', heFetch ''c''] \<lparr>hub_local_device_id = ''a'', hub_inbox = []\<rparr>"
  from hub_routes_by_sender [of "[heDrained [?m], heFetch ''b'', heFetch ''c'']" "''a''" "fst ?r" "snd ?r" "''b''"]
  show ?thesis unfolding Let_def by simp
qed

section \<open>Members\<close>

lemma split_at_colon:
  assumes "CHR '':'' \<notin> set a" "CHR '':'' \<notin> set b" "a @ '':'' @ x = b @ '':'' @ y"
  shows "a = b \<and> x = y"
proof -
  have "takeWhile (\<lambda>c. c \<noteq> CHR '':'') (w @ '':'' @ z) = w" if "CHR '':'' \<notin> set w" for w z :: string
    by (subst takeWhile_append2) (use that in auto)
  with assms have "a = b" by metis
  with assms(3) show ?thesis by simp
qed

lemma Role_code_inject: "to_string (unat (Role_code r)) = to_string (unat (Role_code q)) \<longleftrightarrow> r = q"
  by (cases r; cases q) (simp_all add: to_string_inject)

definition colon_free :: "TrackerMember \<Rightarrow> bool" where
  "colon_free m \<longleftrightarrow> CHR '':'' \<notin> set (mb_device_id m) \<and> CHR '':'' \<notin> set (mb_fingerprint m)"

lemma member_key_inject:
  fixes m n :: TrackerMember
  assumes "colon_free m" "colon_free n"
  shows "member_key m = member_key n \<longleftrightarrow> m = n"
proof
  assume "member_key m = member_key n"
  then have "mb_device_id m = mb_device_id n \<and>
      mb_fingerprint m @ '':'' @ to_string (unat (Role_code (mb_role m))) =
      mb_fingerprint n @ '':'' @ to_string (unat (Role_code (mb_role n)))"
    using assms unfolding member_key_def colon_free_def by (intro split_at_colon) simp_all
  moreover from this have "mb_fingerprint m = mb_fingerprint n \<and>
      to_string (unat (Role_code (mb_role m))) = to_string (unat (Role_code (mb_role n)))"
    using assms unfolding colon_free_def by (intro split_at_colon) simp_all
  ultimately show "m = n" by (simp add: Role_code_inject)
qed simp

lemma mset_map_inj:
  assumes "inj_on f (set xs \<union> set ys)"
  shows "mset (map f xs) = mset (map f ys) \<longleftrightarrow> mset xs = mset ys"
proof
  let ?g = "the_inv_into (set xs \<union> set ys) f"
  assume "mset (map f xs) = mset (map f ys)"
  then have "mset (map ?g (map f xs)) = mset (map ?g (map f ys))" by (metis mset_map)
  moreover have "map ?g (map f xs) = xs" "map ?g (map f ys) = ys"
    using assms by (auto intro!: map_idI simp: the_inv_into_f_f)
  ultimately show "mset xs = mset ys" by (simp only:)
qed (metis mset_map)

lemma sort_eq_iff: "sort xs = sort ys \<longleftrightarrow> mset xs = mset ys" for xs :: "string list"
  by (metis mset_sort properties_for_sort sorted_sort)

text \<open>
  A change of the membership is noticed exactly when there is one.  The keys of two enrollments are the same
  if and only if both list the same other members, with fingerprints and roles, in whatever order, as long as no
  identifier or fingerprint contains the separator.
\<close>

theorem membership_change_noticed:
  fixes members members' :: "TrackerMember list"
  assumes "\<forall>m \<in> set members \<union> set members'. colon_free m"
  shows "MemberKeys members me = MemberKeys members' me \<longleftrightarrow>
    mset (filter (\<lambda>m. mb_device_id m \<noteq> me) members) = mset (filter (\<lambda>m. mb_device_id m \<noteq> me) members')"
proof -
  have "inj_on member_key (set members \<union> set members')"
    using assms by (auto simp: inj_on_def member_key_inject)
  then have "inj_on member_key (set (filter (\<lambda>m. mb_device_id m \<noteq> me) members) \<union> set (filter (\<lambda>m. mb_device_id m \<noteq> me) members'))"
    by (rule inj_on_subset) auto
  from mset_map_inj [OF this] show ?thesis by (simp add: MemberKeys_def sort_eq_iff)
qed

definition demo_member :: "string \<Rightarrow> Role \<Rightarrow> TrackerMember" where
  "demo_member device role = \<lparr>mb_device_id = device, mb_fingerprint = ''f'', mb_role = role\<rparr>"

theorem membership_change_noticed_witness:
  "MemberKeys [demo_member ''a'' kPeer, demo_member ''b'' kPeer] ''a'' \<noteq>
   MemberKeys [demo_member ''a'' kPeer, demo_member ''b'' kTarget] ''a''"
  using membership_change_noticed [of "[demo_member ''a'' kPeer, demo_member ''b'' kPeer]"
      "[demo_member ''a'' kPeer, demo_member ''b'' kTarget]" "''a''"]
  by (simp add: colon_free_def demo_member_def)

section \<open>A membership refresh\<close>

abbreviation peer_device :: "'p SessionPeer \<Rightarrow> string" where
  "peer_device p \<equiv> mb_device_id (pe_member p)"

definition fresh_peer :: "TaskDefinition \<Rightarrow> string \<Rightarrow> TrackerMember list \<Rightarrow> 'p SessionPeer \<Rightarrow> bool" where
  "fresh_peer task me members p \<longleftrightarrow> pe_member p \<in> set members \<and> wants_peer task me (pe_member p) \<and>
     peer_role_error task (pe_member p) = None \<and> \<not> pe_data_started p"

text \<open>What the loop over the members adds, up to its end or up to the exception that leaves it.\<close>

definition grown :: "TaskDefinition \<Rightarrow> string \<Rightarrow> TrackerMember list \<Rightarrow> ('p, 'x) Room \<Rightarrow> ('p, 'x) Room \<Rightarrow> bool" where
  "grown task me members s t \<longleftrightarrow> ro_member_keys t = ro_member_keys s \<and>
     (\<exists>new. ro_peers t = ro_peers s @ new \<and> (\<forall>p \<in> set new. fresh_peer task me members p) \<and> distinct (map peer_device new) \<and>
        peer_device ` set new \<inter> peer_device ` set (ro_peers s) = {})"

lemma grown_refl: "ro_peers t = ro_peers s \<Longrightarrow> ro_member_keys t = ro_member_keys s \<Longrightarrow> grown task me members s t"
  by (auto simp: grown_def)

lemma grown_trans:
  assumes "grown task me members s t" "grown task me members t u"
  shows "grown task me members s u"
proof -
  obtain as where "ro_peers t = ro_peers s @ as" "\<forall>p \<in> set as. fresh_peer task me members p" "distinct (map peer_device as)"
      "peer_device ` set as \<inter> peer_device ` set (ro_peers s) = {}" using assms(1) by (auto simp: grown_def)
  moreover obtain bs where "ro_peers u = ro_peers t @ bs" "\<forall>p \<in> set bs. fresh_peer task me members p" "distinct (map peer_device bs)"
      "peer_device ` set bs \<inter> peer_device ` set (ro_peers t) = {}" using assms(2) by (auto simp: grown_def)
  ultimately show ?thesis using assms unfolding grown_def by (intro conjI exI [of _ "as @ bs"]) auto
qed

lemma in_room_keeps: "in_room m s = (r, t) \<Longrightarrow> ro_peers t = ro_peers s \<and> ro_member_keys t = ro_member_keys s"
  by (auto simp: zoomS_def split: prod.splits)

lemma MakePeer_result:
  assumes "MakePeer ops task me m s = (r, t)"
  shows "ro_peers t = ro_peers s \<and> ro_member_keys t = ro_member_keys s \<and>
    (\<forall>p. r = Inr p \<longrightarrow> pe_member p = m \<and> \<not> pe_data_started p \<and> peer_role_error task m = None)"
  using assms
  by (auto simp: MakePeer_def Let_def op_defs split: prod.splits sum.splits option.splits if_splits dest!: in_room_keeps)

lemma add_member_result:
  assumes "add_member ops task me m s = (r, t)" "m \<in> set members"
  shows "grown task me members s t \<and> (r = Inr () \<longrightarrow> wants_peer task me m \<longrightarrow> mb_device_id m \<in> peer_device ` set (ro_peers t))"
proof (cases "\<not> wants_peer task me m \<or> (\<exists>peer \<in> set (ro_peers s). peer_device peer = mb_device_id m)")
  case True
  with assms(1) have "t = s" by (auto simp: add_member_def op_defs)
  with True show ?thesis by (force simp: grown_refl)
next
  case False
  obtain q u where make: "MakePeer ops task me m s = (q, u)" by fastforce
  note made = MakePeer_result [OF make]
  show ?thesis
  proof (cases q)
    case (Inl e)
    then have "t = u" "r = Inl e" using assms(1) False make by (auto simp: add_member_def op_defs)
    with made show ?thesis by (auto intro: grown_refl)
  next
    case (Inr peer)
    let ?offer = "if pe_initiator peer then in_room (po_StartOffer ops (pe_parts peer)) else returnS (pe_parts peer)"
    obtain o' v where offer: "?offer u = (o', v)" by fastforce
    then have v: "ro_peers v = ro_peers u" "ro_member_keys v = ro_member_keys u"
      using in_room_keeps by (auto simp: returnS_def split: if_splits)
    show ?thesis
    proof (cases o')
      case (Inl e)
      then have "t = v" "r = Inl e" using assms(1) False make Inr offer by (auto simp: add_member_def op_defs)
      with made v show ?thesis by (auto intro: grown_refl)
    next
      fix p
      assume p: "o' = Inr p"
      then have t: "t = v\<lparr>ro_peers := ro_peers v @ [peer\<lparr>pe_parts := p\<rparr>]\<rparr>"
        using assms(1) False make Inr offer by (auto simp: add_member_def op_defs)
      have "grown task me members s t"
        unfolding grown_def using t v made Inr False assms(2) by (intro conjI exI [of _ "[peer\<lparr>pe_parts := p\<rparr>]"]) (auto simp: fresh_peer_def)
      with t made Inr show ?thesis by simp
    qed
  qed
qed

lemma add_members_result:
  assumes "forS (add_member ops task me) ms s = (r, t)" "set ms \<subseteq> set members"
  shows "grown task me members s t \<and>
    (r = Inr () \<longrightarrow> (\<forall>m \<in> set ms. wants_peer task me m \<longrightarrow> mb_device_id m \<in> peer_device ` set (ro_peers t)))"
  using assms
proof (induction ms arbitrary: s)
  case Nil
  then show ?case by (simp add: returnS_def grown_refl)
next
  case (Cons m ms)
  obtain q u where q: "add_member ops task me m s = (q, u)" by fastforce
  have "m \<in> set members" using Cons.prems(2) by simp
  note first = add_member_result [OF q this]
  show ?case
  proof (cases q)
    case (Inl e)
    then have "t = u" "r = Inl e" using Cons.prems(1) q by (auto simp: thenS_def bindS_def)
    with first show ?thesis by simp
  next
    case (Inr x)
    then have "forS (add_member ops task me) ms u = (r, t)" using Cons.prems(1) q by (simp add: thenS_def bindS_def)
    from Cons.IH [OF this] Cons.prems(2) have rest: "grown task me members u t"
        "r = Inr () \<longrightarrow> (\<forall>m \<in> set ms. wants_peer task me m \<longrightarrow> mb_device_id m \<in> peer_device ` set (ro_peers t))" by auto
    have "peer_device ` set (ro_peers u) \<subseteq> peer_device ` set (ro_peers t)" using rest(1) by (auto simp: grown_def)
    then show ?thesis using first rest grown_trans [of task me members s u t] Inr by auto
  qed
qed


definition demo_room :: TaskDefinition where
  "demo_room = \<lparr>td_task_id = ''t'', td_mode = ''bidirectional'', td_role = ''peer'', td_root_path = ''root''\<rparr>"

text \<open>Channels that are only counted, so that every peer has its number.\<close>

definition demo_peer_ops :: "(nat, nat) PeerOps" where
  "demo_peer_ops = \<lparr>po_channel = (\<lambda>_ _ n. (Inr n, Suc n)), po_node = (\<lambda>_ p. returnS p), po_StartOffer = returnS, po_Retire = (\<lambda>_ n. n)\<rparr>"

definition demo_peer :: "string \<Rightarrow> nat \<Rightarrow> nat SessionPeer" where
  "demo_peer device n = \<lparr>pe_member = demo_member device kPeer, pe_initiator = True, pe_data_started = True, pe_parts = n\<rparr>"


section \<open>Who starts\<close>

text \<open>Of two devices that talk to each other, exactly one makes the offer.\<close>

lemma one_side_starts:
  assumes "td_role task = ''peer'' \<and> td_role task' = ''peer'' \<and> a \<noteq> b \<or>
      td_role task = ''source'' \<and> td_role task' = ''target''"
    and "mb_device_id member = b" "mb_device_id member' = a"
  shows "is_initiator task a member \<longleftrightarrow> \<not> is_initiator task' b member'"
  using assms by (auto simp: is_initiator_def)

end
