(* ===== verification/Spec2Isabelle.thy ===== *)
theory Spec2Isabelle
  imports Protocol_Codec Fragment_Reassembly Connection_State Send_Scheduler Queued_Peer_Transport
    Ice_Options Database_History Resume_Request Manifest_Diff Version_Resolution File_Writer_Properties
    Ignore_Semantics Signaling_Session Upload_Properties Reconcile_Properties Phase0_Node Multi_Target_Properties
    Policy_Properties Policy_Views Policy_Gate Runtime_Properties
    Pairing_Properties Ipc_Properties Webrtc_Transport_Properties Session_Manager_Properties Session_Peers
begin

text \<open>
  A verification of the engine of VeritasSyncNext, a peer-to-peer folder synchroniser for Windows written
  in C++20.  The engine watches a folder, compares it with the records of a SQLite database, exchanges
  manifests with a paired device over a WebRTC data channel, and transfers the differences in chunks.  Paths
  below are relative to \<^verbatim>\<open>src/engine\<close>.

  \<^bold>\<open>How the parts interact.\<close>  A task's snapshot is compared with its records; versions
  that differ between two devices are resolved to one of them, and the loser of a concurrent change is set
  aside under a conflict name.  The receiving device asks for the chunks it misses; the sending device reads
  them and queues them by priority; the transport splits frames into fragments and puts them together again;
  the receiver writes chunks to a partial file, marks them durable in the database, and renames the verified
  file into place.  Before that, two devices meet in a tracker room and exchange session descriptions through
  it.

  \<^bold>\<open>Conventions.\<close>  Machine integers are words of their width; \<^verbatim>\<open>size_t\<close>
  arithmetic that may wrap is written out (\<open>size_plus\<close>, \<open>size_minus\<close>).  A C++ exception is
  a value of \<open>exn\<close>.  An operation that can throw after it has changed something is a function from
  the state to a result and the state left behind (\<open>op\<close> in \<open>VS_Prelude\<close>), so that partial
  effects survive a throw; \<open>wp\<close> is the weakest-precondition calculus for such operations and covers
  both outcomes.  Functions the engine takes from elsewhere are parameters: the BLAKE3 digest, the
  \<^verbatim>\<open>weakly_canonical\<close> of the file system library, the relay and transport of a signaling
  session, the native WebRTC library, the clock, the order in which a directory is enumerated (\<open>sv_rank\<close>), and whether SQLite
  itself fails where the policy store records a revision (\<open>svc_sqlite_fails\<close>); elsewhere a statement fails by a constraint or the state of
  its transaction.

  \<^bold>\<open>The theories and what they model.\<close>
  \<^item> \<open>VS_Prelude\<close>: results, operations, loops, weakest preconditions, bytes, little-endian integers,
    splitting of texts.
  \<^item> \<open>Protocol\<close>, \<open>Protocol_Codec\<close>: \<^verbatim>\<open>common/protocol.cpp\<close>.  Writer, reader, frame
    envelope and every payload codec.  The locale \<open>codec\<close> states that a payload decodes to a message
    exactly when the message is admissible and encodes to that payload; it is interpreted for every codec.
  \<^item> \<open>Frame_Fragments\<close>, \<open>Fragment_Reassembly\<close>: \<^verbatim>\<open>transport/frame_fragments.cpp\<close>.
    Fragments of a frame rebuild it in any order, with repetitions; the memory of the reassembler is bounded.
  \<^item> \<open>Connection_State\<close>, \<open>Send_Scheduler\<close>, \<open>Queued_Peer_Transport\<close>, \<open>Ice_Options\<close>:
    the files of those names under \<^verbatim>\<open>transport/\<close>.  The transition table and what observers see;
    four priority queues with a byte budget, refined to a sorted list through the locale \<open>send_queue\<close>;
    the receive queue; the options read from the environment.
  \<^item> \<open>Sql_Table\<close>, \<open>Database_Schema\<close>, \<open>Database_Ops\<close>: \<^verbatim>\<open>storage/database.cpp\<close>.
    Tables as row lists with primary keys, foreign keys and checks; transactions with the state to go back
    to; every operation of the class and the eight migrations.  \<open>Database_Invariant\<close> holds the
    schema invariant, \<open>Database_Correctness\<close> that every call keeps it, \<open>Database_Properties\<close>
    and \<open>Database_History\<close> what the calls compute.
  \<^item> \<open>File_System\<close>, \<open>Safe_File_Writer\<close>, \<open>File_Writer_Safety\<close>,
    \<open>File_Writer_Properties\<close>: \<^verbatim>\<open>storage/safe_file_writer.cpp\<close> over a file system with
    directories, files and links in which any system call may fail.  An atomic write leaves the old file or the new one, as long as no
    link bears the name of its temporary file (\<open>plain_part\<close>), which the code does not check: with one there, the bytes go where it points.
  \<^item> \<open>Ignore_Rules\<close>, \<open>Ignore_Semantics\<close>: \<^verbatim>\<open>storage/ignore_rules.cpp\<close>.  The
    matcher is equivalent to a declarative meaning of patterns, and where that meaning is not Git's is shown.
  \<^item> \<open>Manifest_Diff\<close>, \<open>Version_Resolution\<close>, \<open>Resume_Request\<close>: the files of those names
    under \<^verbatim>\<open>sync/\<close>.
  \<^item> \<open>Chunk_Transfer\<close>: \<^verbatim>\<open>sync/chunk_source.cpp\<close>, \<^verbatim>\<open>sync/upload_session.cpp\<close>,
    \<^verbatim>\<open>sync/download_receiver.cpp\<close>.  \<open>Transfer_Properties\<close> shows that the receiver's
    progress is exact, \<open>Download_Reassembly\<close> that an honest download reproduces the file,
    \<open>Upload_Properties\<close> that a request is served completely and in order.
  \<^item> \<open>Snapshot_Reconciler\<close>, \<open>Reconcile_Properties\<close>: \<^verbatim>\<open>sync/snapshot_reconciler.cpp\<close>,
    \<^verbatim>\<open>sync/task_policy.cpp\<close>.  After a reconciliation the records of the task are the snapshot,
    with tombstones for what is gone; a failure leaves the database as it was.
  \<^item> \<open>Phase0_Node\<close>: \<^verbatim>\<open>sync/phase0_node.cpp\<close>, \<^verbatim>\<open>transport/mock_transport.cpp\<close>.
    Two nodes over the in-memory network; delivery ends, and matching nodes end with each other's manifest.
  \<^item> \<open>Manifest_Scanner\<close>: \<^verbatim>\<open>storage/manifest_scanner.cpp\<close>.  A scan that ends reports exactly the
    files and directories of the tree that no rule ignores, once each, in order, with their digests.
  \<^item> \<open>Sync_Node\<close>, \<open>One_Way_Sync\<close>, \<open>Multi_Target_Source\<close>: \<^verbatim>\<open>sync/one_way_sync.cpp\<close> and
    \<^verbatim>\<open>sync/multi_target_source.cpp\<close>.  A node is a record over the database and the file system; its handlers
    compose the components above.  \<open>Confined_Files\<close> and \<open>File_Reads\<close> hold what the file operations keep (the
    locale \<open>fault_blind\<close> is the interface of the reading half); \<open>One_Way_Properties\<close> and
    \<open>Multi_Target_Properties\<close> show what a peer can do to a node and what it cannot.
  \<^item> \<open>Ignore_Policy\<close>, \<open>Policy_Properties\<close>, \<open>Policy_Views\<close>:
    \<^verbatim>\<open>storage/ignore_policy.cpp\<close>.  A policy is applied only over the revision its author saw, undo restores
    the previous one, the preview is exact, and the private summary depends only on how many files of each depth and extension may be shown.
  \<^item> \<open>Bidirectional_Sync\<close>, \<open>Bidirectional_Properties\<close>, \<open>Bidirectional_Policy\<close>, \<open>Policy_Gate\<close>:
    \<^verbatim>\<open>sync/bidirectional_sync.cpp\<close>, the node of a task that both sides edit: rescans that record versions and
    tombstones, manifests with versions and parents, conflicts, downloads, and the exchange that agrees on the ignore
    policy.  Whatever is sent to it changes nothing outside the task root, an unknown peer changes nothing, no file moves while the
    policy gate is closed, whatever is called and received but policy frames, the merge loops of a rescan are lookups, and the rules file changes only by a stored
    proposal.  A remote deletion does not look at the file it removes.
  \<^item> \<open>Task_Runtime\<close>, \<open>Runtime_Properties\<close>: \<^verbatim>\<open>runtime/task_runtime_manager.cpp\<close>.  Every section that
    the code runs under a mutex is one definition.  A change that other threads report during a scan is scanned again, every scan releases
    its task, the worker starts exactly the scans that are due, and a snapshot that was overtaken is discarded.  Two races are
    shown too: a task deleted at the end of its scan ends the worker, and a task resumed during its scan can be scanned twice at once.
  \<^item> \<open>Text_Codec\<close>, \<open>Tracker_Client\<close>, \<open>Tracker_Client_Properties\<close>: \<^verbatim>\<open>signaling/tracker_client.cpp\<close>.  The locale
    \<open>field_codec\<close> is what a record format needs of its field encoding; it is interpreted for the encoding of the tracker and for that of the shell.
    The client reads what the tracker (\<^verbatim>\<open>src/tracker\<close>) writes, and what it signs determines the request.
  \<^item> \<open>Pairing_Service\<close>, \<open>Pairing_Properties\<close>: \<^verbatim>\<open>security/pairing_service.cpp\<close>.  An invitation is read as it was made, a
    join that fails changes nothing, a join that succeeds stores the inviting device, and how an answer that names it twice replaces it.
  \<^item> \<open>Ipc_Service\<close>, \<open>Ipc_Properties\<close>: \<^verbatim>\<open>ipc/ipc_service.cpp\<close>.  Every command of the desktop shell over the task runtime,
    pairing and the ignore policy.  Every answer is read back in the layout of its command, requests that are not understood and queries change nothing, and the policy of a one-way
    target is read-only.
  \<^item> \<open>Webrtc_Bridge\<close>, \<open>Webrtc_Bridge_Properties\<close>: \<^verbatim>\<open>transport/webrtc_bridge_loader.cpp\<close>.  The native library is a
    function of the calls made so far; the locale \<open>bridge_client\<close> is what its callers share.  The probes give back everything they took.
  \<^item> \<open>Webrtc_Transport\<close>, \<open>Webrtc_Transport_Invariant\<close>, \<open>Webrtc_Transport_Properties\<close>: \<^verbatim>\<open>transport/webrtc_transport.cpp\<close>.  For any
    library: queues stay exact and inside the send budget, fragments leave in order, a wire error is final, the library is
    released on every path, and a frame that was sent completely is delivered once by the peer.
  \<^item> \<open>Session_Manager\<close>, \<open>Session_Manager_Properties\<close>, \<open>Session_Peers\<close>: \<^verbatim>\<open>runtime/network_session_manager.cpp\<close>.  The worker is a program
    counter with one definition per section; other threads act between sections, and a condition variable is the list of its sleepers and of the threads it
    has woken, which look at their condition in a step of their own.  A deletion is
    released, a removed task stays gone, a round takes the work that is due; the relay of a peer loses nothing and a membership refresh keeps
    healthy peers.  Three races are shown too: a stop can leave a waiting deletion asleep, a proposal for a deleted task ends the worker, and a session
    that fails during its deletion is queued again.  What happens inside a session is the parameter \<open>sessions\<close>.
  \<^item> \<open>Tracker_Contract\<close>, \<open>Signaling_Session\<close>: \<^verbatim>\<open>signaling/tracker_contract.cpp\<close>
    and \<^verbatim>\<open>signaling/signaling_session.cpp\<close>.  The locale \<open>signaling_relay\<close> is what a
    session relies on; it is interpreted on the tracker.

  \<^bold>\<open>Bounds and fuel.\<close>  One definition takes fuel: \<open>policy_wait\<close>, the loop that waits ten seconds for a peer, with
  201 rounds; as every round sleeps 50 ms, more rounds change nothing (\<open>policy_wait_enough\<close>).  All other loops are structural recursions or
  recursions with a measure.  Two limits are those of the code or of the platform: the walk along a version's
  parents stops after 100000 steps (\<open>kMaxAncestryDepth\<close>), as the code does, and throws, and a path walk
  follows at most 63 links (\<open>kMaxReparse\<close>), the limit of Windows, and reports a loop.

  \<^bold>\<open>Not modelled.\<close>  How a network session drives its transports, signaling sessions and nodes in one pump
  (\<^verbatim>\<open>TaskSession::Pump\<close> of \<^verbatim>\<open>runtime/network_session_manager.cpp\<close>, apart from its membership refresh), the named pipe and the start of
  the process (\<^verbatim>\<open>ipc/named_pipe_server.cpp\<close>, \<^verbatim>\<open>app/\<close>), the WinHTTP transport, the generation and storage of keys, the native WebRTC
  library and change notifications are not modelled: they are input and output around the modelled logic, or its scheduling.
\<close>

end
